(* ===== verification/Ark_Prelude.thy ===== *)
theory Ark_Prelude
  imports Main "HOL-Library.Char_ord" "HOL-Library.List_Lexorder" "HOL-Library.Product_Lexorder"
begin

text \<open>
  What the component theories share: fallible state-passing computations (the code's
  \<open>Result\<close>-returning functions over a database), the database statement with its fault
  schedule, transactions, saturating arithmetic, and the parts of Rust's \<open>str\<close> the
  components call.

  Strings are lists of characters with code points below 256. Rust's \<open>trim\<close> removes the
  Unicode White\_Space characters; below 256 these are U+0009 to U+000D, U+0020, U+0085 and
  U+00A0. String order (\<open>sort\<close>, \<open>cmp\<close>) is lexicographic by code point, which is
  Rust's byte order of the UTF-8 encodings.
\<close>

named_theorems io_simps \<open>unfolding of fallible state-passing computations\<close>
named_theorems str_simps \<open>evaluation of the string operations\<close>

section \<open>Errors and fallible state-passing computations\<close>

text \<open>
  \<open>Err\<close> is an \<open>anyhow\<close> error (an early return with \<open>?\<close>, \<open>bail!\<close> or
  \<open>Err(..)\<close>); \<open>Panicked\<close> is a panic of a called library function.
\<close>

datatype err = Err string | Panicked string

type_synonym 'a result = "err + 'a"
type_synonym ('s, 'a) io = "'s \<Rightarrow> 'a result \<times> 's"

definition ret :: "'a \<Rightarrow> ('s, 'a) io" where
  "ret a s = (Inr a, s)"

definition fail :: "err \<Rightarrow> ('s, 'a) io" where
  "fail e s = (Inl e, s)"

definition bindE :: "('s, 'a) io \<Rightarrow> ('a \<Rightarrow> ('s, 'b) io) \<Rightarrow> ('s, 'b) io" where
  "bindE m f s = (case m s of (Inl e, s') \<Rightarrow> (Inl e, s') | (Inr a, s') \<Rightarrow> f a s')"

definition lift_result :: "'a result \<Rightarrow> ('s, 'a) io" where
  "lift_result r s = (r, s)"

fun res_bind :: "'a result \<Rightarrow> ('a \<Rightarrow> 'b result) \<Rightarrow> 'b result" where
  "res_bind (Inl e) f = Inl e"
| "res_bind (Inr a) f = f a"

lemma ret_app [simp, io_simps]: "ret a s = (Inr a, s)"
  by (simp add: ret_def)

lemma fail_app [simp, io_simps]: "fail e s = (Inl e, s)"
  by (simp add: fail_def)

lemma lift_result_app [simp, io_simps]: "lift_result r s = (r, s)"
  by (simp add: lift_result_def)

lemma bindE_ret [simp]: "bindE (ret a) f = f a"
  by (rule ext) (simp add: bindE_def)

lemma bindE_fail [simp]: "bindE (fail e) f = fail e"
  by (rule ext) (simp add: bindE_def)

lemma bindE_Inl [simp]: "m s = (Inl e, s') \<Longrightarrow> bindE m f s = (Inl e, s')"
  by (simp add: bindE_def)

lemma bindE_Inr [simp]: "m s = (Inr a, s') \<Longrightarrow> bindE m f s = f a s'"
  by (simp add: bindE_def)

lemma bindE_assoc: "bindE (bindE m f) g = bindE m (\<lambda>a. bindE (f a) g)"
  by (rule ext) (simp add: bindE_def split: prod.splits sum.splits)

text \<open>Every run of a sequence either stops in its first part or continues from its result.\<close>

lemma bindE_cases:
  assumes "bindE m f s = (r, t)"
  obtains (stop) e where "m s = (Inl e, t)" and "r = Inl e"
  | (step) a s' where "m s = (Inr a, s')" and "f a s' = (r, t)"
  using assms by (auto simp: bindE_def split: prod.splits sum.splits)

lemma bindE_InrE:
  assumes "bindE m f s = (Inr b, t)"
  obtains a s' where "m s = (Inr a, s')" and "f a s' = (Inr b, t)"
  using assms by (auto simp: bindE_def split: prod.splits sum.splits)

section \<open>Database statements and transactions\<close>

text \<open>
  A database is its tables and a fault schedule: the head of \<open>faults\<close> says whether the
  next statement fails (a lost connection, a constraint, a timeout); an exhausted schedule
  means no further fault. A failing statement changes no table.
\<close>

record 't db =
  tables :: 't
  faults :: "bool list"

definition db_error :: err where
  "db_error = Err ''database error''"

definition stmt :: "('t \<Rightarrow> 'a \<times> 't) \<Rightarrow> ('t db, 'a) io" where
  "stmt f d = (if faults d \<noteq> [] \<and> hd (faults d)
     then (Inl db_error, d\<lparr>faults := tl (faults d)\<rparr>)
     else (case f (tables d) of (a, t) \<Rightarrow> (Inr a, d\<lparr>tables := t, faults := tl (faults d)\<rparr>)))"

lemma stmt_quiet [simp]:
  "faults d = [] \<Longrightarrow> stmt f d = (Inr (fst (f (tables d))), d\<lparr>tables := snd (f (tables d))\<rparr>)"
  by (cases d) (simp add: stmt_def split: prod.splits)

lemma stmt_cases:
  assumes "stmt f d = (r, d')"
  obtains (fault) "r = Inl db_error" and "tables d' = tables d"
  | (ran) a t where "f (tables d) = (a, t)" and "r = Inr a" and "tables d' = t"
  using assms by (auto simp: stmt_def split: if_splits prod.splits)

lemma stmt_read_frame: "(\<And>t. snd (f t) = t) \<Longrightarrow> stmt f d = (r, d') \<Longrightarrow> tables d' = tables d"
  by (erule stmt_cases) (auto, metis snd_conv)

text \<open>
  A transaction: \<open>begin\<close>, a body that asks for \<open>commit\<close> or \<open>rollback\<close>, and that
  statement. An error anywhere (the transaction value is dropped) leaves the tables as they
  were. The rows a transaction reads are locked by \<open>FOR UPDATE\<close>, so transactions on one
  row run one after the other and a body is one step.
\<close>

datatype 'a txn_end = Commit 'a | Rollback 'a

definition no_op :: "'t \<Rightarrow> unit \<times> 't" where
  "no_op t = ((), t)"

definition transaction :: "('t db, 'a txn_end) io \<Rightarrow> ('t db, 'a) io" where
  "transaction body d = (case stmt no_op d of
     (Inl e, d1) \<Rightarrow> (Inl e, d1)
   | (Inr _, d1) \<Rightarrow>
      (case body d1 of
         (Inl e, d2) \<Rightarrow> (Inl e, d2\<lparr>tables := tables d\<rparr>)
       | (Inr (Rollback a), d2) \<Rightarrow> bindE (stmt no_op) (\<lambda>_. ret a) (d2\<lparr>tables := tables d\<rparr>)
       | (Inr (Commit a), d2) \<Rightarrow>
          (case stmt no_op d2 of
             (Inl e, d3) \<Rightarrow> (Inl e, d3\<lparr>tables := tables d\<rparr>)
           | (Inr _, d3) \<Rightarrow> (Inr a, d3))))"

lemma no_op_simps [simp]: "fst (no_op t) = ()" "snd (no_op t) = t"
  by (simp_all add: no_op_def)

lemma transaction_quiet:
  "faults d = [] \<Longrightarrow> transaction body d =
    (case body d of (Inl e, d2) \<Rightarrow> (Inl e, d2\<lparr>tables := tables d\<rparr>)
     | (Inr (Rollback a), d2) \<Rightarrow> bindE (stmt no_op) (\<lambda>_. ret a) (d2\<lparr>tables := tables d\<rparr>)
     | (Inr (Commit a), d2) \<Rightarrow> (case stmt no_op d2 of
          (Inl e, d3) \<Rightarrow> (Inl e, d3\<lparr>tables := tables d\<rparr>) | (Inr _, d3) \<Rightarrow> (Inr a, d3)))"
  by (simp add: transaction_def)

lemma stmt_no_op_tables: "stmt no_op d = (r, d') \<Longrightarrow> tables d' = tables d"
  by (rule stmt_read_frame) auto

lemma bindE_no_op_tables: "bindE (stmt no_op) (\<lambda>_. ret a) d = (r, d') \<Longrightarrow> tables d' = tables d"
  by (erule bindE_cases) (auto dest: stmt_no_op_tables)

text \<open>A transaction that fails changes no table.\<close>

lemma transaction_error_frame: "transaction body d = (Inl e, d') \<Longrightarrow> tables d' = tables d"
  by (auto simp: transaction_def split: prod.splits sum.splits txn_end.splits
      dest: stmt_no_op_tables bindE_no_op_tables)

text \<open>A transaction that returns either committed its body's tables or rolled back.\<close>

lemma transaction_InrE:
  assumes "transaction body d = (Inr a, d')"
  obtains (commit) d1 d2 where "tables d1 = tables d" and "body d1 = (Inr (Commit a), d2)"
      and "tables d' = tables d2"
  | (rollback) d1 d2 where "tables d1 = tables d" and "body d1 = (Inr (Rollback a), d2)"
      and "tables d' = tables d"
  using assms
  by (auto simp: transaction_def split: prod.splits sum.splits txn_end.splits
      dest!: stmt_no_op_tables elim!: bindE_InrE)

text \<open>Two bodies that differ in the returned value only give transactions that do.\<close>

definition map_io :: "('a \<Rightarrow> 'b) \<Rightarrow> ('s, 'a) io \<Rightarrow> ('s, 'b) io" where
  "map_io h m s = (case m s of (Inl e, s') \<Rightarrow> (Inl e, s') | (Inr a, s') \<Rightarrow> (Inr (h a), s'))"

lemma map_io_ret [simp]: "map_io h (ret a) = ret (h a)" and map_io_fail [simp]: "map_io h (fail e) = fail e"
  by (rule ext, simp add: map_io_def)+

lemma map_io_bindE: "map_io h (bindE m f) = bindE m (\<lambda>a. map_io h (f a))"
  by (rule ext) (simp add: map_io_def bindE_def split: prod.splits sum.splits)

lemma transaction_map:
  "transaction (map_io (map_txn_end h) body) = map_io h (transaction body)"
  by (rule ext)
    (auto simp: transaction_def map_io_def bindE_def split: prod.splits sum.splits txn_end.splits)

section \<open>Saturating unsigned integers\<close>

definition u32_max :: nat where "u32_max = 4294967295"
definition u64_max :: nat where "u64_max = 18446744073709551615"

definition sat_add_u32 :: "nat \<Rightarrow> nat \<Rightarrow> nat" where
  "sat_add_u32 a b = min (a + b) u32_max"

definition sat_add_u64 :: "nat \<Rightarrow> nat \<Rightarrow> nat" where
  "sat_add_u64 a b = min (a + b) u64_max"

text \<open>\<open>Ord::clamp\<close>, for bounds in order.\<close>

definition clamp :: "nat \<Rightarrow> nat \<Rightarrow> nat \<Rightarrow> nat" where
  "clamp lo hi n = (if n < lo then lo else if n > hi then hi else n)"

lemma clamp_bounds: "lo \<le> hi \<Longrightarrow> lo \<le> clamp lo hi n \<and> clamp lo hi n \<le> hi"
  by (simp add: clamp_def)

lemma sat_add_u32_le: "sat_add_u32 a b \<le> u32_max"
  by (simp add: sat_add_u32_def)

lemma sat_add_u64_le: "sat_add_u64 a b \<le> u64_max"
  by (simp add: sat_add_u64_def)

lemma sat_add_u64_mono: "a \<le> u64_max \<Longrightarrow> a \<le> sat_add_u64 a b"
  by (simp add: sat_add_u64_def)

section \<open>Strings\<close>

definition is_ws :: "char \<Rightarrow> bool" where
  "is_ws c = (let n = of_char c :: nat in (9 \<le> n \<and> n \<le> 13) \<or> n = 32 \<or> n = 133 \<or> n = 160)"

definition is_nl :: "char \<Rightarrow> bool" where
  "is_nl c = (c = CHR 0x0A)"

definition is_digit :: "char \<Rightarrow> bool" where
  "is_digit c = (let n = of_char c :: nat in 48 \<le> n \<and> n \<le> 57)"

definition is_lower :: "char \<Rightarrow> bool" where
  "is_lower c = (let n = of_char c :: nat in 97 \<le> n \<and> n \<le> 122)"

definition is_upper :: "char \<Rightarrow> bool" where
  "is_upper c = (let n = of_char c :: nat in 65 \<le> n \<and> n \<le> 90)"

definition lower_char :: "char \<Rightarrow> char" where
  "lower_char c = (if is_upper c then char_of (of_char c + 32 :: nat) else c)"

definition ascii_lower :: "string \<Rightarrow> string" where
  "ascii_lower = map lower_char"

definition trim_start :: "string \<Rightarrow> string" where
  "trim_start = dropWhile is_ws"

definition trim_end :: "string \<Rightarrow> string" where
  "trim_end s = rev (dropWhile is_ws (rev s))"

definition trim :: "string \<Rightarrow> string" where
  "trim s = trim_end (trim_start s)"

fun prefix_of :: "string \<Rightarrow> string \<Rightarrow> bool" where
  "prefix_of [] s = True"
| "prefix_of (p # ps) [] = False"
| "prefix_of (p # ps) (c # s) = (p = c \<and> prefix_of ps s)"

fun contains :: "string \<Rightarrow> string \<Rightarrow> bool" where
  "contains pat [] = (pat = [])"
| "contains pat (c # s) = (prefix_of pat (c # s) \<or> contains pat s)"

lemma prefix_of_take: "prefix_of p s \<longleftrightarrow> take (length p) s = p"
  by (induction p s rule: prefix_of.induct) auto

fun intercalate :: "string \<Rightarrow> string list \<Rightarrow> string" where
  "intercalate sep [] = []"
| "intercalate sep [x] = x"
| "intercalate sep (x # y # xs) = x @ sep @ intercalate sep (y # xs)"

fun show_nat :: "nat \<Rightarrow> string" where
  "show_nat n = (if n < 10 then [char_of (48 + n)] else show_nat (n div 10) @ [char_of (48 + n mod 10)])"

declare show_nat.simps [simp del]

text \<open>\<open>sanitize_text\<close>-style trimming of an optional field: trimmed, and \<open>None\<close> when blank.\<close>

definition trim_opt :: "string option \<Rightarrow> string option" where
  "trim_opt v = (case v of None \<Rightarrow> None
     | Some s \<Rightarrow> (if trim s = [] then None else Some (trim s)))"

lemma dropWhile_idem_pred: "dropWhile P (dropWhile P xs) = dropWhile P xs"
  by (induction xs) auto

lemma trim_start_idem [simp]: "trim_start (trim_start s) = trim_start s"
  by (simp add: trim_start_def dropWhile_idem_pred)

lemma trim_end_idem [simp]: "trim_end (trim_end s) = trim_end s"
  by (simp add: trim_end_def dropWhile_idem_pred)

lemma trim_end_Nil [simp]: "trim_end [] = []" and trim_start_Nil [simp]: "trim_start [] = []"
  and trim_Nil [simp]: "trim [] = []"
  by (simp_all add: trim_end_def trim_start_def trim_def)

lemma trim_end_snoc: "trim_end (s @ [c]) = (if is_ws c then trim_end s else s @ [c])"
  by (simp add: trim_end_def)

lemma trim_end_eq_Nil: "trim_end s = [] \<longleftrightarrow> (\<forall>c \<in> set s. is_ws c)"
  by (simp add: trim_end_def dropWhile_eq_Nil_conv)

lemma trim_start_eq_Nil: "trim_start s = [] \<longleftrightarrow> (\<forall>c \<in> set s. is_ws c)"
  by (simp add: trim_start_def dropWhile_eq_Nil_conv)

lemma trim_end_prefix: "\<exists>ws. s = trim_end s @ ws \<and> (\<forall>c \<in> set ws. is_ws c)"
proof -
  have "s = trim_end s @ rev (takeWhile is_ws (rev s))"
    by (simp add: trim_end_def flip: rev_append)
  moreover have "\<forall>c \<in> set (rev (takeWhile is_ws (rev s))). is_ws c"
    by (auto dest: set_takeWhileD)
  ultimately show ?thesis by blast
qed

lemma trim_start_suffix: "\<exists>ws. s = ws @ trim_start s \<and> (\<forall>c \<in> set ws. is_ws c)"
  by (metis trim_start_def takeWhile_dropWhile_id set_takeWhileD)

lemma length_trim_end: "length (trim_end s) \<le> length s"
  by (metis trim_end_def length_dropWhile_le length_rev)

lemma length_trim_start: "length (trim_start s) \<le> length s"
  by (simp add: trim_start_def length_dropWhile_le)

lemma length_trim: "length (trim s) \<le> length s"
  by (metis trim_def length_trim_end length_trim_start order_trans)

lemma trim_start_hd: "trim_start s = s \<longleftrightarrow> s = [] \<or> \<not> is_ws (hd s)"
proof (cases s)
  case (Cons c cs)
  have "length (dropWhile is_ws cs) \<le> length cs" by (rule length_dropWhile_le)
  then have "dropWhile is_ws cs \<noteq> c # cs" by auto
  with Cons show ?thesis by (simp add: trim_start_def)
qed simp

lemma hd_trim_end: "trim_end s \<noteq> [] \<Longrightarrow> hd (trim_end s) = hd s"
  using trim_end_prefix [of s] by (metis hd_append2)

lemma trim_start_trim_end: "trim_start s = s \<Longrightarrow> trim_start (trim_end s) = trim_end s"
  by (metis hd_trim_end trim_end_Nil trim_start_hd)

lemma trim_idem [simp]: "trim (trim s) = trim s"
  unfolding trim_def by (simp add: trim_start_trim_end)

lemma trim_opt_idem [simp]: "trim_opt (trim_opt v) = trim_opt v"
  by (simp add: trim_opt_def split: option.splits)

lemma dropWhile_none: "\<forall>x \<in> set xs. \<not> P x \<Longrightarrow> dropWhile P xs = xs"
  by (cases xs) auto

lemma trim_no_ws: "\<forall>c \<in> set s. \<not> is_ws c \<Longrightarrow> trim s = s"
  by (simp add: trim_def trim_start_def trim_end_def dropWhile_none)

lemma trim_keeps: "c \<in> set v \<Longrightarrow> \<not> is_ws c \<Longrightarrow> c \<in> set (trim v)"
proof -
  assume c: "c \<in> set v" "\<not> is_ws c"
  obtain w1 where "v = w1 @ trim_start v" "\<forall>c \<in> set w1. is_ws c" using trim_start_suffix by blast
  with c have "c \<in> set (trim_start v)" by (metis Un_iff set_append)
  moreover obtain w2 where "trim_start v = trim v @ w2" "\<forall>c \<in> set w2. is_ws c"
    using trim_end_prefix [of "trim_start v"] by (auto simp: trim_def)
  ultimately show ?thesis using c by (metis Un_iff set_append)
qed

lemma trim_opt_None [simp]: "trim_opt None = None"
  by (simp add: trim_opt_def)

lemma trim_opt_Some_nonempty: "trim_opt v = Some s \<Longrightarrow> s \<noteq> []"
  by (auto simp: trim_opt_def split: option.splits if_splits)

lemma show_nat_nonempty [simp]: "show_nat n \<noteq> []"
  by (subst show_nat.simps) simp

section \<open>Lists\<close>

text \<open>\<open>Iterator::position\<close>: the index of the first element that satisfies a predicate.\<close>

fun position :: "('a \<Rightarrow> bool) \<Rightarrow> 'a list \<Rightarrow> nat option" where
  "position P [] = None"
| "position P (x # xs) = (if P x then Some 0 else map_option Suc (position P xs))"

lemma position_None: "position P xs = None \<longleftrightarrow> (\<forall>x \<in> set xs. \<not> P x)"
  by (induction xs) auto

lemma position_SomeD:
  "position P xs = Some i \<Longrightarrow> i < length xs \<and> P (xs ! i) \<and> (\<forall>j < i. \<not> P (xs ! j))"
proof (induction xs arbitrary: i)
  case (Cons x xs)
  then show ?case by (cases i) (auto split: if_splits simp: nth_Cons split: nat.splits)
qed simp

lemma position_split:
  assumes "position P xs = Some i"
  obtains ys x zs where "xs = ys @ x # zs" and "length ys = i" and "P x" and "\<forall>y \<in> set ys. \<not> P y"
proof -
  note p = position_SomeD [OF assms]
  have "xs = take i xs @ xs ! i # drop (Suc i) xs" using p by (simp add: id_take_nth_drop)
  moreover have "\<forall>y \<in> set (take i xs). \<not> P y" using p by (auto simp: in_set_conv_nth)
  moreover have "length (take i xs) = i" using p by simp
  ultimately show thesis using that p by blast
qed

text \<open>Replace the first match or append: how the control planes store a record in a list.\<close>

definition put_at :: "nat option \<Rightarrow> 'a \<Rightarrow> 'a list \<Rightarrow> 'a list" where
  "put_at i x xs = (case i of Some n \<Rightarrow> xs[n := x] | None \<Rightarrow> xs @ [x])"

lemma list_update_split: "length ys = i \<Longrightarrow> (ys @ x # zs)[i := y] = ys @ y # zs"
  by (auto simp: list_update_append)

lemma put_at_keys_distinct:
  assumes "distinct (map k xs)" and "k x = key"
  shows "distinct (map k (put_at (position (\<lambda>y. k y = key) xs) x xs))"
proof (cases "position (\<lambda>y. k y = key) xs")
  case None
  then have "\<forall>y \<in> set xs. k y \<noteq> key" by (simp add: position_None)
  with None assms show ?thesis by (force simp: put_at_def)
next
  case (Some i)
  then obtain ys y zs where "xs = ys @ y # zs" "length ys = i" "k y = key" by (rule position_split)
  with Some assms show ?thesis by (simp add: put_at_def list_update_split)
qed

lemma put_at_find_same:
  "k x = key \<Longrightarrow> find (\<lambda>y. k y = key) (put_at (position (\<lambda>y. k y = key) xs) x xs) = Some x"
proof (induction xs)
  case (Cons y ys)
  then show ?case
    by (cases "position (\<lambda>y. k y = key) ys") (auto simp: put_at_def)
qed (simp add: put_at_def)

lemma put_at_find_other:
  "k x = key \<Longrightarrow> key' \<noteq> key \<Longrightarrow>
    find (\<lambda>y. k y = key') (put_at (position (\<lambda>y. k y = key) xs) x xs) = find (\<lambda>y. k y = key') xs"
proof (induction xs)
  case (Cons y ys)
  then show ?case
    by (cases "position (\<lambda>y. k y = key) ys") (auto simp: put_at_def)
qed (simp add: put_at_def)

lemma find_SomeD: "find P xs = Some x \<Longrightarrow> x \<in> set xs \<and> P x"
  by (induction xs) (auto split: if_splits)

lemma find_None: "find P xs = None \<longleftrightarrow> (\<forall>x \<in> set xs. \<not> P x)"
  by (induction xs) auto

text \<open>The first match in a list sorted by a key has the least key of all matches.\<close>

lemma find_sorted_least:
  "sorted (map k xs) \<Longrightarrow> find P xs = Some x \<Longrightarrow> y \<in> set xs \<Longrightarrow> P y \<Longrightarrow> k x \<le> k y"
  by (induction xs) (auto split: if_splits)

lemma remdups_adj_sorted_distinct: "sorted (xs :: 'a::linorder list) \<Longrightarrow> distinct (remdups_adj xs)"
  by (induction xs rule: remdups_adj.induct) (auto simp: order.antisym)

end
