(* ===== verification/Kv_Storage.thy ===== *)
theory Kv_Storage
  imports Ark_Prelude
begin

text \<open>
  The key-value store of \<open>storage/repositories/kv_leases.rs\<close>, the storage encryption of
  \<open>crypto/mod.rs\<close> and \<open>storage/mod.rs\<close>, the encrypted accessors of
  \<open>storage/repositories/encrypted_payloads.rs\<close>, and the JSON documents the control planes
  keep under one key each (\<open>load_json\<close> and \<open>save_json\<close> of
  \<open>core/model/model_failover.rs\<close> and \<open>core/connectivity/channels/sender_verification.rs\<close>).

  Bytes are an opaque alphabet, the type variable \<open>'b\<close>: the code looks at the length of a
  byte string, never at a byte. AES-256-GCM and serde are parameters (\<open>aead\<close>,
  \<open>codec\<close>); \<open>aead_ok\<close> and \<open>codec_ok\<close> state what is documented of them.

  The locales are the contracts the components rely on: \<open>kv_interface\<close> for the raw
  store, \<open>typed_cell\<close> for a document under one key, \<open>framed_cell\<close> for such a
  document next to the rest of the database.
\<close>

section \<open>Storage encryption\<close>

text \<open>
  The cipher for the installed key: the nonce the operating system's generator returns for
  this call, and sealing and opening under a nonce.
\<close>

record 'b aead =
  fresh_nonce :: "'b list"
  seal :: "'b list \<Rightarrow> 'b list \<Rightarrow> 'b list option"
  unseal :: "'b list \<Rightarrow> 'b list \<Rightarrow> 'b list option"

definition NONCE_LEN :: nat where "NONCE_LEN = 12"

definition km_encrypt :: "'b aead \<Rightarrow> 'b list \<Rightarrow> 'b list result" where
  "km_encrypt k plaintext = (case seal k (fresh_nonce k) plaintext of
     None \<Rightarrow> Inl (Err ''Encryption failed'')
   | Some ciphertext \<Rightarrow> Inr (fresh_nonce k @ ciphertext))"

definition km_decrypt :: "'b aead \<Rightarrow> 'b list \<Rightarrow> 'b list result" where
  "km_decrypt k encrypted = (if length encrypted < NONCE_LEN
     then Inl (Err ''Invalid encrypted data: too short'')
     else (case unseal k (take NONCE_LEN encrypted) (drop NONCE_LEN encrypted) of
       None \<Rightarrow> Inl (Err ''Decryption failed'') | Some plaintext \<Rightarrow> Inr plaintext))"

definition encrypt_storage_bytes :: "'b aead option \<Rightarrow> 'b list \<Rightarrow> 'b list result" where
  "encrypt_storage_bytes km v = (if v = [] then Inr []
     else (case km of Some k \<Rightarrow> km_encrypt k v | None \<Rightarrow> Inr v))"

definition decrypt_storage_bytes :: "'b aead option \<Rightarrow> 'b list \<Rightarrow> 'b list" where
  "decrypt_storage_bytes km v = (if v = [] then []
     else (case km of
        Some k \<Rightarrow> (case km_decrypt k v of Inl _ \<Rightarrow> v | Inr p \<Rightarrow> p)
      | None \<Rightarrow> v))"

definition aead_ok :: "'b aead \<Rightarrow> bool" where
  "aead_ok k \<longleftrightarrow> length (fresh_nonce k) = NONCE_LEN \<and>
     (\<forall>n p. \<exists>c. seal k n p = Some c \<and> unseal k n c = Some p)"

definition km_ok :: "'b aead option \<Rightarrow> bool" where
  "km_ok km \<longleftrightarrow> (case km of None \<Rightarrow> True | Some k \<Rightarrow> aead_ok k)"

section \<open>The key-value table\<close>

record 'b kv_row =
  kv_value :: "'b list"
  kv_created_at :: string
  kv_updated_at :: string

type_synonym 'b kv_table = "string \<Rightarrow> 'b kv_row option"
type_synonym 'b kv_db = "'b kv_table db"

definition kv_upsert :: "string \<Rightarrow> string \<Rightarrow> 'b list \<Rightarrow> 'b kv_table \<Rightarrow> 'b kv_table" where
  "kv_upsert now key v t = t(key \<mapsto> (case t key of
     None \<Rightarrow> \<lparr>kv_value = v, kv_created_at = now, kv_updated_at = now\<rparr>
   | Some row \<Rightarrow> row\<lparr>kv_value := v, kv_updated_at := now\<rparr>))"

definition kv_get :: "string \<Rightarrow> ('b kv_db, 'b list option) io" where
  "kv_get key = bindE (stmt (\<lambda>t. (t key, t))) (\<lambda>row. ret (map_option kv_value row))"

definition kv_set :: "string \<Rightarrow> string \<Rightarrow> 'b list \<Rightarrow> ('b kv_db, unit) io" where
  "kv_set now key v = stmt (\<lambda>t. ((), kv_upsert now key v t))"

definition kv_delete :: "string \<Rightarrow> ('b kv_db, unit) io" where
  "kv_delete key = stmt (\<lambda>t. ((), t(key := None)))"

definition ensure_kv_row_exists_txn :: "string \<Rightarrow> string \<Rightarrow> ('b kv_db, unit) io" where
  "ensure_kv_row_exists_txn now key = stmt (\<lambda>t. ((), case t key of
     None \<Rightarrow> t(key \<mapsto> \<lparr>kv_value = [], kv_created_at = now, kv_updated_at = now\<rparr>)
   | Some _ \<Rightarrow> t))"

definition get_kv_for_update_txn :: "string \<Rightarrow> ('b kv_db, 'b kv_row option) io" where
  "get_kv_for_update_txn key = stmt (\<lambda>t. (t key, t))"

definition set_kv_txn :: "string \<Rightarrow> string \<Rightarrow> 'b list \<Rightarrow> ('b kv_db, unit) io" where
  "set_kv_txn now key v = stmt (\<lambda>t. ((), kv_upsert now key v t))"

definition delete_kv_txn :: "string \<Rightarrow> ('b kv_db, unit) io" where
  "delete_kv_txn key = stmt (\<lambda>t. ((), t(key := None)))"

section \<open>Encrypted accessors and JSON documents\<close>

definition get_encrypted :: "'b aead option \<Rightarrow> string \<Rightarrow> ('b kv_db, 'b list option) io" where
  "get_encrypted km key = bindE (kv_get key) (\<lambda>v. ret (map_option (decrypt_storage_bytes km) v))"

definition set_encrypted :: "'b aead option \<Rightarrow> string \<Rightarrow> string \<Rightarrow> 'b list \<Rightarrow> ('b kv_db, unit) io" where
  "set_encrypted km now key v =
     bindE (lift_result (encrypt_storage_bytes km v)) (\<lambda>encrypted. kv_set now key encrypted)"

record ('a, 'b) codec =
  to_vec :: "'a \<Rightarrow> 'b list option"
  from_slice :: "'b list \<Rightarrow> 'a option"

definition codec_ok :: "('a, 'b) codec \<Rightarrow> bool" where
  "codec_ok c \<longleftrightarrow> from_slice c [] = None \<and>
     (\<forall>x. \<exists>bs. to_vec c x = Some bs \<and> bs \<noteq> [] \<and> from_slice c bs = Some x)"

definition load_json :: "string \<Rightarrow> 'b aead option \<Rightarrow> ('a, 'b) codec \<Rightarrow> 'a \<Rightarrow> string \<Rightarrow> ('b kv_db, 'a) io" where
  "load_json what km c dflt key = bindE (get_encrypted km key) (\<lambda>r. case r of
     None \<Rightarrow> ret dflt
   | Some bytes \<Rightarrow> (case from_slice c bytes of
        None \<Rightarrow> fail (Err (''failed to decode '' @ what @ '' payload for '' @ key))
      | Some v \<Rightarrow> ret v))"

definition save_json ::
    "string \<Rightarrow> 'b aead option \<Rightarrow> ('a, 'b) codec \<Rightarrow> string \<Rightarrow> string \<Rightarrow> 'a \<Rightarrow> ('b kv_db, unit) io" where
  "save_json what km c now key v = (case to_vec c v of
     None \<Rightarrow> fail (Err (''failed to encode '' @ what @ '' payload for '' @ key))
   | Some bytes \<Rightarrow> set_encrypted km now key bytes)"

text \<open>
  \<open>load_json\<close> and \<open>save_json\<close> name the component in their error texts (\<open>what\<close>). A
  stored list, each element normalised on the way in (\<open>into_iter().map(..).collect()\<close>).\<close>

definition load_list ::
    "string \<Rightarrow> 'b aead option \<Rightarrow> ('a list, 'b) codec \<Rightarrow> ('a \<Rightarrow> 'a) \<Rightarrow> string \<Rightarrow> ('b kv_db, 'a list) io" where
  "load_list what km c norm key = map_io (map norm) (load_json what km c [] key)"

text \<open>What a document reads as (\<open>None\<close>: undecodable), and what a saved value reads as.\<close>

definition doc_view :: "'b aead option \<Rightarrow> ('a, 'b) codec \<Rightarrow> 'a \<Rightarrow> string \<Rightarrow> 'b kv_db \<Rightarrow> 'a option" where
  "doc_view km c dflt key d = (case tables d key of
     None \<Rightarrow> Some dflt
   | Some row \<Rightarrow> from_slice c (decrypt_storage_bytes km (kv_value row)))"

definition doc_reload :: "'b aead option \<Rightarrow> ('a, 'b) codec \<Rightarrow> 'a \<Rightarrow> 'a option" where
  "doc_reload km c v = (case to_vec c v of None \<Rightarrow> None
     | Some bytes \<Rightarrow> (case encrypt_storage_bytes km bytes of Inl _ \<Rightarrow> None
        | Inr e \<Rightarrow> from_slice c (decrypt_storage_bytes km e)))"

definition list_view :: "'b aead option \<Rightarrow> ('a list, 'b) codec \<Rightarrow> ('a \<Rightarrow> 'a) \<Rightarrow> string \<Rightarrow> 'b kv_db \<Rightarrow> 'a list option" where
  "list_view km c norm key d = map_option (map norm) (doc_view km c [] key d)"

definition list_reload :: "'b aead option \<Rightarrow> ('a list, 'b) codec \<Rightarrow> ('a \<Rightarrow> 'a) \<Rightarrow> 'a list \<Rightarrow> 'a list option" where
  "list_reload km c norm v = map_option (map norm) (doc_reload km c v)"

definition other_keys :: "string \<Rightarrow> 'b kv_db \<Rightarrow> 'b kv_table" where
  "other_keys key d = (tables d)(key := None)"

text \<open>
  The shape of the control planes' handlers: load a document, decide, and then return without
  writing, fail, or save a new document and return.
\<close>

datatype ('v, 'a) decision = Keep 'a | Abort err | Store 'v 'a

definition rmw :: "('s, 'v) io \<Rightarrow> ('v \<Rightarrow> ('s, unit) io) \<Rightarrow> ('v \<Rightarrow> ('v, 'a) decision) \<Rightarrow> ('s, 'a) io" where
  "rmw load save f = bindE load (\<lambda>v. case f v of
     Keep a \<Rightarrow> ret a
   | Abort e \<Rightarrow> fail e
   | Store v' a \<Rightarrow> bindE (save v') (\<lambda>_. ret a))"

text \<open>For closed examples: a codec whose alphabet is the documents, one letter a document.\<close>

definition one_codec :: "('a, 'a) codec" where
  "one_codec = \<lparr>to_vec = (\<lambda>x. Some [x]),
     from_slice = (\<lambda>bs. case bs of [x] \<Rightarrow> Some x | _ \<Rightarrow> None)\<rparr>"

definition empty_db :: "'b kv_db" where
  "empty_db = \<lparr>tables = (\<lambda>_. None), faults = []\<rparr>"

lemma one_codec_ok: "codec_ok one_codec"
  by (simp add: codec_ok_def one_codec_def)

section \<open>Encryption lemmas\<close>

lemma km_decrypt_encrypt: "aead_ok k \<Longrightarrow> km_encrypt k p = Inr e \<Longrightarrow> km_decrypt k e = Inr p"
proof -
  assume ok: "aead_ok k" and enc: "km_encrypt k p = Inr e"
  from ok obtain c where c: "seal k (fresh_nonce k) p = Some c" "unseal k (fresh_nonce k) c = Some p"
    unfolding aead_ok_def by blast
  with enc have "e = fresh_nonce k @ c" by (simp add: km_encrypt_def)
  with ok c show ?thesis by (simp add: km_decrypt_def aead_ok_def)
qed

lemma km_encrypt_total: "aead_ok k \<Longrightarrow> \<exists>e. km_encrypt k p = Inr e \<and> e \<noteq> []"
  unfolding aead_ok_def km_encrypt_def NONCE_LEN_def
  by (metis (no_types, lifting) append_is_Nil_conv list.size(3) option.simps(5) zero_neq_numeral)

lemma decrypt_encrypt_storage_bytes:
  assumes "km_ok km" and "encrypt_storage_bytes km p = Inr e"
  shows "decrypt_storage_bytes km e = p"
proof (cases "p = []")
  case True
  with assms show ?thesis by (simp add: encrypt_storage_bytes_def decrypt_storage_bytes_def)
next
  case False
  show ?thesis
  proof (cases km)
    case None
    with False assms show ?thesis
      by (auto simp: encrypt_storage_bytes_def decrypt_storage_bytes_def)
  next
    case (Some k)
    with assms False have k: "aead_ok k" "km_encrypt k p = Inr e"
      by (auto simp: km_ok_def encrypt_storage_bytes_def)
    with km_encrypt_total [of k p] have "e \<noteq> []" by auto
    with Some km_decrypt_encrypt [OF k] show ?thesis by (simp add: decrypt_storage_bytes_def)
  qed
qed

lemma encrypt_storage_bytes_total: "km_ok km \<Longrightarrow> \<exists>e. encrypt_storage_bytes km p = Inr e"
  using km_encrypt_total by (fastforce simp: km_ok_def encrypt_storage_bytes_def split: option.splits)

lemma doc_reload_ok: "km_ok km \<Longrightarrow> codec_ok c \<Longrightarrow> doc_reload km c v = Some v"
proof -
  assume km: "km_ok km" and "codec_ok c"
  then obtain bs where bs: "to_vec c v = Some bs" "from_slice c bs = Some v"
    unfolding codec_ok_def by blast
  from encrypt_storage_bytes_total [OF km] obtain e where e: "encrypt_storage_bytes km bs = Inr e"
    by blast
  with bs decrypt_encrypt_storage_bytes [OF km e] show ?thesis by (simp add: doc_reload_def)
qed

section \<open>Interface contracts\<close>

text \<open>The raw store: reads report the abstract map and keep it, a failed write keeps it too.\<close>

locale kv_interface =
  fixes kget :: "string \<Rightarrow> ('s, 'v option) io"
    and kput :: "string \<Rightarrow> 'v \<Rightarrow> ('s, unit) io"
    and kdel :: "string \<Rightarrow> ('s, unit) io"
    and look :: "'s \<Rightarrow> string \<Rightarrow> 'v option"
  assumes get_value: "kget k s = (Inr w, s') \<Longrightarrow> w = look s k"
    and get_frame: "kget k s = (rg, s') \<Longrightarrow> look s' = look s"
    and put_value: "kput k v s = (Inr u, s') \<Longrightarrow> look s' = (look s)(k \<mapsto> v)"
    and put_error: "kput k v s = (Inl e, s') \<Longrightarrow> look s' = look s"
    and del_value: "kdel k s = (Inr u, s') \<Longrightarrow> look s' = (look s)(k := None)"
    and del_error: "kdel k s = (Inl e, s') \<Longrightarrow> look s' = look s"
begin

lemma get_after_put:
  "kput k v s = (Inr u, s1) \<Longrightarrow> kget k s1 = (Inr r, s2) \<Longrightarrow> r = Some v"
  using get_value put_value by force

lemma get_after_delete:
  "kdel k s = (Inr u, s1) \<Longrightarrow> kget k s1 = (Inr r, s2) \<Longrightarrow> r = None"
  using get_value del_value by force

lemma put_other: "kput k v s = (r, s') \<Longrightarrow> k' \<noteq> k \<Longrightarrow> look s' k' = look s k'"
  by (cases r) (auto dest: put_value put_error)

lemma put_put:
  "kput k v s = (Inr u, s1) \<Longrightarrow> kput k w s1 = (Inr u', s2) \<Longrightarrow> look s2 = (look s)(k \<mapsto> w)"
  by (auto dest!: put_value)

end

text \<open>A document under one key; \<open>reload\<close> is what a saved value reads back as.\<close>

locale typed_cell =
  fixes load :: "('s, 'v) io"
    and save :: "'v \<Rightarrow> ('s, unit) io"
    and view :: "'s \<Rightarrow> 'v option"
    and reload :: "'v \<Rightarrow> 'v option"
  assumes load_view: "load s = (Inr v, s') \<Longrightarrow> view s = Some v"
    and load_frame: "load s = (r, s') \<Longrightarrow> view s' = view s"
    and save_view: "save v s = (Inr u, s') \<Longrightarrow> view s' = reload v"
    and save_error: "save v s = (Inl e, s') \<Longrightarrow> view s' = view s"
begin

lemma rmw_error: "rmw load save f s = (Inl e, s') \<Longrightarrow> view s' = view s"
  unfolding rmw_def
  by (erule bindE_cases)
    (auto split: decision.splits elim!: bindE_cases dest!: load_frame dest: save_error)

lemma rmw_InrE:
  assumes "rmw load save f s = (Inr a, s')"
  obtains (keep) v where "view s = Some v" and "f v = Keep a" and "view s' = Some v"
  | (store) v v' where "view s = Some v" and "f v = Store v' a" and "view s' = reload v'"
proof -
  from assms obtain v s1 where l: "load s = (Inr v, s1)"
    and r: "(case f v of Keep a \<Rightarrow> ret a | Abort e \<Rightarrow> fail e
             | Store v' a \<Rightarrow> bindE (save v') (\<lambda>_. ret a)) s1 = (Inr a, s')"
    unfolding rmw_def by (rule bindE_InrE)
  from load_view [OF l] load_frame [OF l] have v: "view s = Some v" "view s1 = Some v" by simp_all
  show thesis
  proof (cases "f v")
    case (Keep b)
    with r v keep show ?thesis by simp
  next
    case (Abort e)
    with r show ?thesis by simp
  next
    case (Store v' b)
    with r have "save v' s1 = (Inr (), s')" "b = a" by (auto elim!: bindE_InrE)
    with Store v save_view store show ?thesis by blast
  qed
qed

text \<open>An invariant of the document that every stored value satisfies survives the handler.\<close>

lemma rmw_invariant:
  assumes "rmw load save f s = (r, s')" and "view s = Some v" and "P v"
    and "\<And>v' a. f v = Store v' a \<Longrightarrow> P v' \<and> reload v' = Some v'"
  obtains w where "view s' = Some w" and "P w"
proof (cases r)
  case (Inl e)
  with assms rmw_error that show ?thesis by metis
next
  case (Inr a)
  with assms(1) have "rmw load save f s = (Inr a, s')" by simp
  then show ?thesis
    by (rule rmw_InrE) (use assms that in auto)
qed

end

locale framed_cell = typed_cell +
  fixes rest :: "'s \<Rightarrow> 'r"
  assumes load_rest: "load s = (r, s') \<Longrightarrow> rest s' = rest s"
    and save_rest: "save v s = (ru, s') \<Longrightarrow> rest s' = rest s"
begin

lemma rmw_rest: "rmw load save f s = (r, s') \<Longrightarrow> rest s' = rest s"
  unfolding rmw_def
  by (erule bindE_cases)
    (auto split: decision.splits elim!: bindE_cases dest!: load_rest dest: save_rest)

end

section \<open>The contracts hold of the code\<close>

definition kv_lookup :: "'b kv_db \<Rightarrow> string \<Rightarrow> 'b list option" where
  "kv_lookup d k = map_option kv_value (tables d k)"

lemma kv_upsert_value [simp]:
  "map_option kv_value (kv_upsert now k v t k') = (if k' = k then Some v else map_option kv_value (t k'))"
  by (auto simp: kv_upsert_def split: option.splits)

lemma kv_get_frame: "kv_get k d = (r, d') \<Longrightarrow> tables d' = tables d"
  unfolding kv_get_def by (erule bindE_cases) (auto elim!: stmt_cases)

lemma kv_get_value: "kv_get k d = (Inr v, d') \<Longrightarrow> v = kv_lookup d k"
  unfolding kv_get_def kv_lookup_def by (auto elim!: bindE_InrE stmt_cases)

lemma kv_set_cases:
  "kv_set now k v d = (r, d') \<Longrightarrow>
    (r = Inr () \<and> tables d' = kv_upsert now k v (tables d)) \<or> ((\<exists>e. r = Inl e) \<and> tables d' = tables d)"
  unfolding kv_set_def by (erule stmt_cases) auto

lemma kv_delete_cases:
  "kv_delete k d = (r, d') \<Longrightarrow>
    (r = Inr () \<and> tables d' = (tables d)(k := None)) \<or> ((\<exists>e. r = Inl e) \<and> tables d' = tables d)"
  unfolding kv_delete_def by (erule stmt_cases) auto

interpretation kv: kv_interface kv_get "kv_set now" kv_delete kv_lookup for now
proof unfold_locales
  fix k s v s' assume "kv_get k s = (Inr v, s')"
  then show "v = kv_lookup s k" by (rule kv_get_value)
next
  fix k s r s' assume "kv_get k s = (r, s')"
  then show "kv_lookup s' = kv_lookup s" by (auto simp: kv_lookup_def fun_eq_iff dest: kv_get_frame)
next
  fix k v s u s' assume "kv_set now k v s = (Inr u, s')"
  then have "tables s' = kv_upsert now k v (tables s)" by (auto dest: kv_set_cases)
  then show "kv_lookup s' = (kv_lookup s)(k \<mapsto> v)"
    by (intro ext) (simp only: kv_lookup_def kv_upsert_value fun_upd_apply)
qed (auto simp: kv_lookup_def fun_eq_iff dest: kv_set_cases kv_delete_cases)

lemma get_encrypted_frame: "get_encrypted km k d = (r, d') \<Longrightarrow> tables d' = tables d"
  unfolding get_encrypted_def by (erule bindE_cases) (auto dest: kv_get_frame)

lemma get_encrypted_value:
  "get_encrypted km k d = (Inr v, d') \<Longrightarrow> v = map_option (decrypt_storage_bytes km) (kv_lookup d k)"
  unfolding get_encrypted_def by (auto elim!: bindE_InrE dest: kv_get_value)

lemma load_json_frame: "load_json what km c dflt k d = (r, d') \<Longrightarrow> tables d' = tables d"
  unfolding load_json_def
  by (erule bindE_cases) (auto split: option.splits dest: get_encrypted_frame)

lemma load_json_view: "load_json what km c dflt k d = (Inr v, d') \<Longrightarrow> doc_view km c dflt k d = Some v"
  unfolding load_json_def
  by (erule bindE_InrE)
    (auto simp: doc_view_def kv_lookup_def split: option.splits dest!: get_encrypted_value)

lemma save_json_cases:
  assumes "save_json what km c now k v d = (r, d')"
  obtains (ok) bs e where "r = Inr ()" and "to_vec c v = Some bs"
      and "encrypt_storage_bytes km bs = Inr e" and "tables d' = kv_upsert now k e (tables d)"
  | (error) e where "r = Inl e" and "tables d' = tables d"
  using assms unfolding save_json_def set_encrypted_def
  by (auto split: option.splits elim!: bindE_cases dest!: kv_set_cases)

lemma kv_upsert_other: "k' \<noteq> k \<Longrightarrow> kv_upsert now k v t k' = t k'"
  by (simp add: kv_upsert_def)

lemma doc_view_other:
  "k' \<noteq> k \<Longrightarrow> tables d' = kv_upsert now k v (tables d) \<Longrightarrow> doc_view km c dflt k' d' = doc_view km c dflt k' d"
  by (simp add: doc_view_def kv_upsert_other)

lemma save_json_view: "save_json what km c now k v d = (Inr u, d') \<Longrightarrow> doc_view km c dflt k d' = doc_reload km c v"
  by (erule save_json_cases)
    (auto simp: doc_view_def doc_reload_def kv_upsert_def split: option.splits)

interpretation doc: framed_cell "load_json what km c dflt key" "save_json what km c now key"
    "doc_view km c dflt key" "doc_reload km c" "other_keys key"
  for what km c dflt key now
proof unfold_locales
  fix s v s' assume "load_json what km c dflt key s = (Inr v, s')"
  then show "doc_view km c dflt key s = Some v" by (rule load_json_view)
next
  fix s v u s' assume "save_json what km c now key v s = (Inr u, s')"
  then show "doc_view km c dflt key s' = doc_reload km c v" by (rule save_json_view)
next
  fix v s e s' assume "save_json what km c now key v s = (Inl e, s')"
  then show "doc_view km c dflt key s' = doc_view km c dflt key s"
    by (rule save_json_cases) (auto simp: doc_view_def)
next
  fix v s ru s' assume "save_json what km c now key v s = (ru, s')"
  then show "other_keys key s' = other_keys key s"
    by (rule save_json_cases) (auto simp: other_keys_def kv_upsert_def)
qed (auto simp: doc_view_def other_keys_def dest: load_json_frame)

lemma map_io_cases:
  assumes "map_io h m s = (r, s')"
  obtains (error) e where "m s = (Inl e, s')" and "r = Inl e"
  | (ok) a where "m s = (Inr a, s')" and "r = Inr (h a)"
  using assms by (auto simp: map_io_def split: prod.splits sum.splits)

interpretation docs: framed_cell "load_list what km c norm key" "save_json what km c now key"
    "list_view km c norm key" "list_reload km c norm" "other_keys key"
  for what km c norm key now
proof unfold_locales
  fix v s u s' assume "save_json what km c now key v s = (Inr u, s')"
  then show "list_view km c norm key s' = list_reload km c norm v"
    by (simp add: list_view_def list_reload_def doc.save_view)
next
  fix v s e s' assume "save_json what km c now key v s = (Inl e, s')"
  then show "list_view km c norm key s' = list_view km c norm key s"
    by (simp add: list_view_def doc.save_error)
qed (auto simp: list_view_def load_list_def elim!: map_io_cases
      dest: doc.load_view doc.load_frame doc.load_rest doc.save_rest)

lemma list_reload_ok: "km_ok km \<Longrightarrow> codec_ok c \<Longrightarrow> list_reload km c norm v = Some (map norm v)"
  by (simp add: list_reload_def doc_reload_ok)

text \<open>Without faults, the accessors compute.\<close>

lemma load_json_quiet:
  "faults d = [] \<Longrightarrow> load_json what km c dflt k d = (case tables d k of
     None \<Rightarrow> (Inr dflt, d)
   | Some row \<Rightarrow> (case from_slice c (decrypt_storage_bytes km (kv_value row)) of
        None \<Rightarrow> (Inl (Err (''failed to decode '' @ what @ '' payload for '' @ k)), d)
      | Some v \<Rightarrow> (Inr v, d)))"
  by (cases d) (auto simp: load_json_def get_encrypted_def kv_get_def bindE_def split: option.splits)

lemma save_json_quiet:
  assumes "faults d = []" and "km_ok km" and "codec_ok c"
  shows "\<exists>d'. save_json what km c ts k v d = (Inr (), d') \<and> faults d' = []"
proof -
  obtain bs where bs: "to_vec c v = Some bs" using assms(3) unfolding codec_ok_def by blast
  obtain e where "encrypt_storage_bytes km bs = Inr e" using encrypt_storage_bytes_total [OF assms(2)] by blast
  with bs assms(1) show ?thesis by (simp add: save_json_def set_encrypted_def bindE_def kv_set_def)
qed

end
