(* ===== verification/Clock_Text.thy ===== *)
theory Clock_Text
  imports Ark_Prelude "HOL-Library.Countable"
begin

text \<open>
  Time and decimal text. Instants are integers counting nanoseconds from the Unix epoch in
  UTC (\<open>DateTime<Utc>\<close>). Reading the clock is an argument of the operation that reads it.
  The chrono crate is a parameter: printing and parsing RFC 3339 text, and adding seconds to
  an instant, which panics when the sum is out of its range. \<open>chrono_ok\<close> states what its
  documentation says for the years 0000 to 9999. \<open>decimal_chrono\<close> is one such crate, with
  instants printed as decimal numbers, for closed examples.

  \<open>read_nat\<close> and \<open>parse_u64\<close> are Rust's decimal parsers for unsigned integers.
\<close>

section \<open>Decimal numbers\<close>

definition digit_val :: "char \<Rightarrow> nat" where
  "digit_val c = of_char c - 48"

definition read_nat :: "string \<Rightarrow> nat option" where
  "read_nat s = (if s = [] \<or> \<not> list_all is_digit s then None
     else Some (foldl (\<lambda>n c. 10 * n + digit_val c) 0 s))"

definition parse_u64 :: "string \<Rightarrow> nat option" where
  "parse_u64 s = (case read_nat (if s \<noteq> [] \<and> hd s = CHR ''+'' then tl s else s) of
     None \<Rightarrow> None | Some n \<Rightarrow> (if n \<le> u64_max then Some n else None))"

definition show_int :: "int \<Rightarrow> string" where
  "show_int i = (if i < 0 then CHR ''-'' # show_nat (nat (- i)) else show_nat (nat i))"

definition read_int :: "string \<Rightarrow> int option" where
  "read_int s = (if s \<noteq> [] \<and> hd s = CHR ''-'' then map_option (\<lambda>n. - int n) (read_nat (tl s))
     else map_option int (read_nat s))"

lemma digit_char: "n < 10 \<Longrightarrow> is_digit (char_of (48 + n))" "n < 10 \<Longrightarrow> digit_val (char_of (48 + n)) = n"
  by (simp_all add: is_digit_def digit_val_def Let_def)

lemma show_nat_digits: "list_all is_digit (show_nat n)"
proof (induction n rule: show_nat.induct)
  case (1 n)
  then show ?case by (subst show_nat.simps) (auto simp: digit_char)
qed

lemma show_nat_value: "foldl (\<lambda>n c. 10 * n + digit_val c) 0 (show_nat n) = n"
proof (induction n rule: show_nat.induct)
  case (1 n)
  then show ?case by (subst show_nat.simps) (auto simp: digit_char)
qed

lemma read_nat_show_nat [simp]: "read_nat (show_nat n) = Some n"
  by (simp add: read_nat_def show_nat_digits show_nat_value)

lemma show_nat_inj: "show_nat m = show_nat n \<Longrightarrow> m = n"
  by (metis option.inject read_nat_show_nat)

lemma show_nat_hd: "is_digit (hd (show_nat n))"
  using show_nat_digits [of n] by (cases "show_nat n") auto

lemma digit_not_sign: "is_digit c \<Longrightarrow> c \<noteq> CHR ''-'' \<and> c \<noteq> CHR ''+''"
  by (auto simp: is_digit_def Let_def)

lemma read_int_show_int [simp]: "read_int (show_int i) = Some i"
  using digit_not_sign [OF show_nat_hd] by (auto simp: read_int_def show_int_def)

lemma parse_u64_show_nat: "n \<le> u64_max \<Longrightarrow> parse_u64 (show_nat n) = Some n"
  using digit_not_sign [OF show_nat_hd [of n]] by (simp add: parse_u64_def)

lemma parse_u64_bound: "parse_u64 s = Some n \<Longrightarrow> n \<le> u64_max"
  by (auto simp: parse_u64_def split: option.splits if_splits)

section \<open>Instants\<close>

definition ns_per_sec :: int where "ns_per_sec = 1000000000"

definition secs :: "int \<Rightarrow> int" where "secs n = n * ns_per_sec"

record chrono =
  parse_rfc3339 :: "string \<Rightarrow> int option"
  to_rfc3339 :: "int \<Rightarrow> string"
  plus_secs :: "int \<Rightarrow> int \<Rightarrow> int option"

text \<open>Years 0000 to 9999, the instants RFC 3339 text can name.\<close>

definition rfc_range :: "int \<Rightarrow> bool" where
  "rfc_range t \<longleftrightarrow> secs (-62167219200) \<le> t \<and> t < secs 253402300800"

definition chrono_ok :: "chrono \<Rightarrow> bool" where
  "chrono_ok ch \<longleftrightarrow>
     (\<forall>t. rfc_range t \<longrightarrow> parse_rfc3339 ch (to_rfc3339 ch t) = Some t) \<and>
     (\<forall>t. to_rfc3339 ch t \<noteq> [] \<and> list_all (\<lambda>c. \<not> is_ws c) (to_rfc3339 ch t)) \<and>
     (\<forall>t n. rfc_range t \<and> rfc_range (t + secs n) \<longrightarrow> plus_secs ch t n = Some (t + secs n))"

lemma chrono_parse: "chrono_ok ch \<Longrightarrow> rfc_range t \<Longrightarrow> parse_rfc3339 ch (to_rfc3339 ch t) = Some t"
  by (simp add: chrono_ok_def)

lemma chrono_plus: "chrono_ok ch \<Longrightarrow> rfc_range t \<Longrightarrow> rfc_range (t + secs n) \<Longrightarrow> plus_secs ch t n = Some (t + secs n)"
  by (simp add: chrono_ok_def)

definition decimal_chrono :: chrono where
  "decimal_chrono = \<lparr>parse_rfc3339 = read_int, to_rfc3339 = show_int,
     plus_secs = (\<lambda>t n. if rfc_range (t + secs n) then Some (t + secs n) else None)\<rparr>"

lemma show_int_no_ws: "list_all (\<lambda>c. \<not> is_ws c) (show_int i)" and show_int_nonempty: "show_int i \<noteq> []"
proof -
  have "is_digit c \<Longrightarrow> \<not> is_ws c" for c by (auto simp: is_digit_def is_ws_def Let_def)
  then have "list_all (\<lambda>c. \<not> is_ws c) (show_nat n)" for n
    using show_nat_digits [of n] by (auto simp: list_all_iff)
  then show "list_all (\<lambda>c. \<not> is_ws c) (show_int i)" by (auto simp: show_int_def is_ws_def Let_def)
  show "show_int i \<noteq> []" by (simp add: show_int_def)
qed

lemma decimal_chrono_ok: "chrono_ok decimal_chrono"
  by (simp add: chrono_ok_def decimal_chrono_def show_int_no_ws show_int_nonempty)

lemma chrono_trim: "chrono_ok ch \<Longrightarrow> trim_opt (Some (to_rfc3339 ch t)) = Some (to_rfc3339 ch t)"
proof -
  assume "chrono_ok ch"
  then have "to_rfc3339 ch t \<noteq> []" "\<forall>c \<in> set (to_rfc3339 ch t). \<not> is_ws c"
    by (auto simp: chrono_ok_def list_all_iff)
  then show ?thesis by (simp add: trim_opt_def trim_no_ws)
qed

lemma rfc_range_small: "0 \<le> t \<Longrightarrow> t < secs 253402300800 \<Longrightarrow> rfc_range t"
  by (simp add: rfc_range_def secs_def ns_per_sec_def)

lemma rfc_range_num: "rfc_range t \<longleftrightarrow> -62167219200000000000 \<le> t \<and> t < 253402300800000000000"
  by (simp add: rfc_range_def secs_def ns_per_sec_def)

lemma decimal_chrono_sel [simp]:
  "parse_rfc3339 decimal_chrono = read_int" "to_rfc3339 decimal_chrono = show_int"
  "rfc_range (t + secs n) \<Longrightarrow> plus_secs decimal_chrono t n = Some (t + secs n)"
  by (simp_all add: decimal_chrono_def)

section \<open>A concrete text codec\<close>

text \<open>
  For closed examples: a list of strings as one string, every character marked with an
  \<open>x\<close> and every end with a dot.
\<close>

definition mark_chars :: "string \<Rightarrow> string" where
  "mark_chars s = concat (map (\<lambda>c. [CHR ''x'', c]) s)"

fun mark_list :: "string list \<Rightarrow> string" where
  "mark_list [] = []"
| "mark_list (s # ss) = mark_chars s @ CHR ''.'' # mark_list ss"

fun unmark :: "string \<Rightarrow> string \<Rightarrow> string list option" where
  "unmark acc [] = (if acc = [] then Some [] else None)"
| "unmark acc (x # s) = (if x = CHR ''.'' then map_option ((#) acc) (unmark [] s)
     else (case s of [] \<Rightarrow> None | c # s' \<Rightarrow> unmark (acc @ [c]) s'))"

lemma unmark_chars: "unmark acc (mark_chars s @ CHR ''.'' # t) = map_option ((#) (acc @ s)) (unmark [] t)"
  by (induction s arbitrary: acc) (simp_all add: mark_chars_def)

lemma unmark_mark [simp]: "unmark [] (mark_list ss) = Some ss"
  by (induction ss) (simp_all add: unmark_chars)

text \<open>Any countable type as text: the number of the value, after a brace.\<close>

definition num_write :: "'a::countable \<Rightarrow> string" where
  "num_write a = CHR ''{'' # show_nat (to_nat a)"

definition num_read :: "string \<Rightarrow> 'a::countable option" where
  "num_read s = map_option from_nat (read_nat (tl s))"

lemma num_read_write [simp]: "num_read (num_write a) = Some a"
  by (simp add: num_read_def num_write_def)

lemma num_write_brace [simp]: "CHR ''{'' \<in> set (num_write a)"
  by (simp add: num_write_def)

end
