(* ===== verification/Kv_Lease.thy ===== *)
theory Kv_Lease
  imports Kv_Storage Clock_Text
begin

text \<open>
  The leases of \<open>storage/repositories/kv_leases.rs\<close>: a record with an owner, an expiry and
  a fence token under a key of the key-value store, taken, refreshed and released in
  transactions. A lease is active while its expiry lies after the current instant.

  The clock is read up to three times in one operation: when the row is made sure to exist,
  when the lease is judged, and when the row is written (\<open>t0\<close>, \<open>t1\<close>, \<open>t2\<close>).
\<close>

section \<open>Records and guards\<close>

record lease =
  owner_id :: string
  acquired_at :: string
  expires_at :: string
  fence_token :: nat

record lease_guard =
  guard_owner :: string
  guard_fence :: nat

type_synonym 'b lease_codec = "(lease, 'b) codec"

definition lease_is_active :: "chrono \<Rightarrow> lease \<Rightarrow> int \<Rightarrow> bool" where
  "lease_is_active ch r now = (case parse_rfc3339 ch (expires_at r) of
     Some v \<Rightarrow> v > now | None \<Rightarrow> False)"

definition next_lease_fence_token :: "lease option \<Rightarrow> nat" where
  "next_lease_fence_token existing = (case existing of
     Some r \<Rightarrow> sat_add_u64 (fence_token r) 1 | None \<Rightarrow> 1)"

definition kv_lease_guard_is_current :: "chrono \<Rightarrow> lease \<Rightarrow> lease_guard \<Rightarrow> int \<Rightarrow> bool" where
  "kv_lease_guard_is_current ch r g now \<longleftrightarrow>
     owner_id r = guard_owner g \<and> fence_token r = guard_fence g \<and> lease_is_active ch r now"

definition decode_lease :: "'b lease_codec \<Rightarrow> 'b kv_row option \<Rightarrow> lease option" where
  "decode_lease c row = (case row of None \<Rightarrow> None | Some r \<Rightarrow> from_slice c (kv_value r))"

text \<open>Somebody else holds the lease at this instant.\<close>

definition held_by_other :: "chrono \<Rightarrow> lease option \<Rightarrow> int \<Rightarrow> string \<Rightarrow> bool" where
  "held_by_other ch l now owner = (case l of None \<Rightarrow> False
     | Some r \<Rightarrow> lease_is_active ch r now \<and> owner_id r \<noteq> owner)"

section \<open>Operations\<close>

definition require_kv_lease_guard_txn ::
    "chrono \<Rightarrow> 'b lease_codec \<Rightarrow> int \<Rightarrow> int \<Rightarrow> string \<Rightarrow> lease_guard \<Rightarrow> ('b kv_db, bool) io" where
  "require_kv_lease_guard_txn ch c t0 t1 key g =
     bindE (ensure_kv_row_exists_txn (to_rfc3339 ch t0) key) (\<lambda>_.
     bindE (get_kv_for_update_txn key) (\<lambda>existing. case existing of
        None \<Rightarrow> ret False
      | Some row \<Rightarrow> (case from_slice c (kv_value row) of
           None \<Rightarrow> ret False
         | Some record \<Rightarrow> ret (kv_lease_guard_is_current ch record g t1))))"

definition acquire_kv_lease ::
    "chrono \<Rightarrow> 'b lease_codec \<Rightarrow> int \<Rightarrow> int \<Rightarrow> int \<Rightarrow> string \<Rightarrow> string \<Rightarrow> int \<Rightarrow> ('b kv_db, bool) io" where
  "acquire_kv_lease ch c t0 t1 t2 key owner ttl_secs = transaction (
     bindE (ensure_kv_row_exists_txn (to_rfc3339 ch t0) key) (\<lambda>_.
     bindE (get_kv_for_update_txn key) (\<lambda>existing.
       let lease = decode_lease c existing in
       if held_by_other ch lease t1 owner then ret (Rollback False)
       else (case plus_secs ch t1 (max ttl_secs 1) of
          None \<Rightarrow> fail (Panicked ''DateTime + Duration overflowed'')
        | Some expiry \<Rightarrow>
            let nxt = \<lparr>owner_id = owner, acquired_at = to_rfc3339 ch t1,
                       expires_at = to_rfc3339 ch expiry,
                       fence_token = next_lease_fence_token lease\<rparr> in
            (case to_vec c nxt of
               None \<Rightarrow> fail (Err ''serialize lease'')
             | Some raw \<Rightarrow> bindE (set_kv_txn (to_rfc3339 ch t2) key raw) (\<lambda>_. ret (Commit True)))))))"

definition release_kv_lease ::
    "chrono \<Rightarrow> 'b lease_codec \<Rightarrow> int \<Rightarrow> string \<Rightarrow> string \<Rightarrow> ('b kv_db, unit) io" where
  "release_kv_lease ch c t0 key owner = transaction (
     bindE (ensure_kv_row_exists_txn (to_rfc3339 ch t0) key) (\<lambda>_.
     bindE (get_kv_for_update_txn key) (\<lambda>existing.
       if (case decode_lease c existing of None \<Rightarrow> False | Some r \<Rightarrow> owner_id r = owner)
       then bindE (delete_kv_txn key) (\<lambda>_. ret (Commit ()))
       else ret (Commit ()))))"

definition acquire_kv_lease_guard ::
    "chrono \<Rightarrow> 'b lease_codec \<Rightarrow> int \<Rightarrow> int \<Rightarrow> int \<Rightarrow> string \<Rightarrow> string \<Rightarrow> int
     \<Rightarrow> ('b kv_db, lease_guard option) io" where
  "acquire_kv_lease_guard ch c t0 t1 t2 key owner ttl_secs = transaction (
     bindE (ensure_kv_row_exists_txn (to_rfc3339 ch t0) key) (\<lambda>_.
     bindE (get_kv_for_update_txn key) (\<lambda>existing.
       let lease = decode_lease c existing in
       if held_by_other ch lease t1 owner then ret (Rollback None)
       else let token = next_lease_fence_token lease in
         (case plus_secs ch t1 (max ttl_secs 1) of
          None \<Rightarrow> fail (Panicked ''DateTime + Duration overflowed'')
        | Some expiry \<Rightarrow>
            let nxt = \<lparr>owner_id = owner, acquired_at = to_rfc3339 ch t1,
                       expires_at = to_rfc3339 ch expiry, fence_token = token\<rparr> in
            (case to_vec c nxt of
               None \<Rightarrow> fail (Err ''serialize lease'')
             | Some raw \<Rightarrow> bindE (set_kv_txn (to_rfc3339 ch t2) key raw)
                 (\<lambda>_. ret (Commit (Some \<lparr>guard_owner = owner, guard_fence = token\<rparr>))))))))"

definition refresh_kv_lease_guard ::
    "chrono \<Rightarrow> 'b lease_codec \<Rightarrow> int \<Rightarrow> int \<Rightarrow> int \<Rightarrow> string \<Rightarrow> lease_guard \<Rightarrow> int \<Rightarrow> ('b kv_db, bool) io" where
  "refresh_kv_lease_guard ch c t0 t1 t2 key g ttl_secs = transaction (
     bindE (ensure_kv_row_exists_txn (to_rfc3339 ch t0) key) (\<lambda>_.
     bindE (get_kv_for_update_txn key) (\<lambda>existing. case decode_lease c existing of
        None \<Rightarrow> ret (Rollback False)
      | Some lease \<Rightarrow>
         if \<not> kv_lease_guard_is_current ch lease g t1 then ret (Rollback False)
         else (case plus_secs ch t1 (max ttl_secs 1) of
            None \<Rightarrow> fail (Panicked ''DateTime + Duration overflowed'')
          | Some expiry \<Rightarrow>
              (case to_vec c (lease\<lparr>expires_at := to_rfc3339 ch expiry\<rparr>) of
                 None \<Rightarrow> fail (Err ''serialize lease'')
               | Some raw \<Rightarrow> bindE (set_kv_txn (to_rfc3339 ch t2) key raw) (\<lambda>_. ret (Commit True)))))))"

definition release_kv_lease_guard ::
    "chrono \<Rightarrow> 'b lease_codec \<Rightarrow> int \<Rightarrow> string \<Rightarrow> lease_guard \<Rightarrow> ('b kv_db, unit) io" where
  "release_kv_lease_guard ch c t0 key g = transaction (
     bindE (ensure_kv_row_exists_txn (to_rfc3339 ch t0) key) (\<lambda>_.
     bindE (get_kv_for_update_txn key) (\<lambda>existing.
       if (case decode_lease c existing of None \<Rightarrow> False
           | Some r \<Rightarrow> owner_id r = guard_owner g \<and> fence_token r = guard_fence g)
       then bindE (delete_kv_txn key) (\<lambda>_. ret (Commit ()))
       else ret (Commit ()))))"

section \<open>A lease as a state machine\<close>

text \<open>The decoded lease under a key.\<close>

definition lease_at :: "'b lease_codec \<Rightarrow> string \<Rightarrow> 'b kv_db \<Rightarrow> lease option" where
  "lease_at c key d = decode_lease c (tables d key)"

text \<open>The lease operations other tasks may run, with the three clock readings of each.\<close>

datatype lease_op =
    OpAcquire string int
  | OpAcquireGuard string int
  | OpRefresh lease_guard int
  | OpRelease string
  | OpReleaseGuard lease_guard


text \<open>
  One step: an operation runs, whatever faults the database has. The label \<open>granted\<close> says
  whether it returned success to a caller that asks for the lease.
\<close>

inductive lease_step ::
    "chrono \<Rightarrow> 'b lease_codec \<Rightarrow> string \<Rightarrow> 'b kv_db \<Rightarrow> lease_op \<times> int \<times> bool \<Rightarrow> 'b kv_db \<Rightarrow> bool"
  for ch c key where
  acquire: "acquire_kv_lease ch c t0 t1 t2 key o1 ttl d = (r, d') \<Longrightarrow>
     lease_step ch c key d (OpAcquire o1 ttl, t1, r = Inr True) d'"
| acquire_guard: "acquire_kv_lease_guard ch c t0 t1 t2 key o1 ttl d = (r, d') \<Longrightarrow>
     lease_step ch c key d (OpAcquireGuard o1 ttl, t1, \<exists>g. r = Inr (Some g)) d'"
| refresh: "refresh_kv_lease_guard ch c t0 t1 t2 key g ttl d = (r, d') \<Longrightarrow>
     lease_step ch c key d (OpRefresh g ttl, t1, r = Inr True) d'"
| release: "release_kv_lease ch c t0 key o1 d = (r, d') \<Longrightarrow>
     lease_step ch c key d (OpRelease o1, t1, False) d'"
| release_guard: "release_kv_lease_guard ch c t0 key g d = (r, d') \<Longrightarrow>
     lease_step ch c key d (OpReleaseGuard g, t1, False) d'"

inductive lease_run ::
    "chrono \<Rightarrow> 'b lease_codec \<Rightarrow> string \<Rightarrow> 'b kv_db \<Rightarrow> (lease_op \<times> int \<times> bool) list \<Rightarrow> 'b kv_db \<Rightarrow> bool"
  for ch c key where
  done_run: "lease_run ch c key d [] d"
| step_run: "lease_step ch c key d a d1 \<Longrightarrow> lease_run ch c key d1 as d2 \<Longrightarrow>
     lease_run ch c key d (a # as) d2"

inductive_cases lease_run_NilE: "lease_run ch c key d [] d'"
inductive_cases lease_run_ConsE: "lease_run ch c key d (a # as) d'"


section \<open>What each operation does to the lease\<close>

lemma lease_at_cong: "tables d' = tables d \<Longrightarrow> lease_at c key d' = lease_at c key d"
  by (simp add: lease_at_def)

lemma lease_at_set:
  "tables d' = kv_upsert now key raw t \<Longrightarrow> lease_at c key d' = from_slice c raw"
  by (auto simp: lease_at_def decode_lease_def kv_upsert_def split: option.splits)

text \<open>Making sure the row exists and locking it shows the lease as it was before.\<close>

lemma locked_read:
  assumes "codec_ok c"
    and "bindE (ensure_kv_row_exists_txn now key) (\<lambda>_. bindE (get_kv_for_update_txn key) f) d = (Inr a, d2)"
  obtains d1 row where "f (Some row) d1 = (Inr a, d2)" and "tables d1 key = Some row"
    and "decode_lease c (Some row) = lease_at c key d" and "lease_at c key d1 = lease_at c key d"
proof -
  from assms(2) obtain u d0 where e: "ensure_kv_row_exists_txn now key d = (Inr u, d0)"
    and g: "bindE (get_kv_for_update_txn key) f d0 = (Inr a, d2)" by (rule bindE_InrE)
  from g obtain row d1 where r: "get_kv_for_update_txn key d0 = (Inr row, d1)" and f: "f row d1 = (Inr a, d2)"
    by (rule bindE_InrE)
  from e have t0: "tables d0 = (case tables d key of
      None \<Rightarrow> (tables d)(key \<mapsto> \<lparr>kv_value = [], kv_created_at = now, kv_updated_at = now\<rparr>) | Some _ \<Rightarrow> tables d)"
    unfolding ensure_kv_row_exists_txn_def by (auto elim: stmt_cases)
  from r have "row = tables d0 key" and t1: "tables d1 = tables d0"
    unfolding get_kv_for_update_txn_def by (auto elim: stmt_cases)
  moreover from t0 assms(1) obtain w where "tables d0 key = Some w" "decode_lease c (Some w) = lease_at c key d"
    by (cases "tables d key") (auto simp: codec_ok_def decode_lease_def lease_at_def)
  ultimately show thesis
    using f that [of w d1] by (simp add: lease_at_def)
qed

lemma set_kv_txn_tables: "set_kv_txn now key v d = (Inr u, d') \<Longrightarrow> tables d' = kv_upsert now key v (tables d)"
  unfolding set_kv_txn_def by (auto elim: stmt_cases)

lemma delete_kv_txn_tables: "delete_kv_txn key d = (Inr u, d') \<Longrightarrow> tables d' = (tables d)(key := None)"
  unfolding delete_kv_txn_def by (auto elim: stmt_cases)

lemma codec_reads_back: "codec_ok c \<Longrightarrow> to_vec c x = Some raw \<Longrightarrow> from_slice c raw = Some x"
  unfolding codec_ok_def by (metis option.inject)

text \<open>Writing a decoded lease back in a transaction's body.\<close>

lemma write_lease:
  assumes "codec_ok c" and "(case to_vec c nxt of None \<Rightarrow> fail e
      | Some raw \<Rightarrow> bindE (set_kv_txn now key raw) (\<lambda>_. ret b)) d = (Inr a, d')"
  shows "a = b \<and> lease_at c key d' = Some nxt"
  using assms by (auto split: option.splits elim!: bindE_InrE
      dest!: set_kv_txn_tables simp: lease_at_set codec_reads_back)


lemma acquire_guard_Some:
  assumes "codec_ok c" and "acquire_kv_lease_guard ch c t0 t1 t2 key o1 ttl d = (Inr (Some g), d')"
  obtains expiry where "\<not> held_by_other ch (lease_at c key d) t1 o1"
    and "plus_secs ch t1 (max ttl 1) = Some expiry"
    and "g = \<lparr>guard_owner = o1, guard_fence = next_lease_fence_token (lease_at c key d)\<rparr>"
    and "lease_at c key d' = Some \<lparr>owner_id = o1, acquired_at = to_rfc3339 ch t1,
           expires_at = to_rfc3339 ch expiry, fence_token = guard_fence g\<rparr>"
  using assms(2) unfolding acquire_kv_lease_guard_def
proof (cases rule: transaction_InrE)
  case (commit d1 d2)
  from commit(1) have l: "lease_at c key d1 = lease_at c key d" by (rule lease_at_cong)
  from assms(1) commit(2) show ?thesis
  proof (rule locked_read)
    fix d3 row
    assume body: "(let lease = decode_lease c (Some row) in
       if held_by_other ch lease t1 o1 then ret (Rollback None)
       else let token = next_lease_fence_token lease in
         (case plus_secs ch t1 (max ttl 1) of
          None \<Rightarrow> fail (Panicked ''DateTime + Duration overflowed'')
        | Some expiry \<Rightarrow>
            let nxt = \<lparr>owner_id = o1, acquired_at = to_rfc3339 ch t1,
                       expires_at = to_rfc3339 ch expiry, fence_token = token\<rparr> in
            (case to_vec c nxt of
               None \<Rightarrow> fail (Err ''serialize lease'')
             | Some raw \<Rightarrow> bindE (set_kv_txn (to_rfc3339 ch t2) key raw)
                 (\<lambda>_. ret (Commit (Some \<lparr>guard_owner = o1, guard_fence = token\<rparr>)))))) d3 = (Inr (Commit (Some g)), d2)"
      and dec: "decode_lease c (Some row) = lease_at c key d1"
    from body dec l obtain expiry where x: "\<not> held_by_other ch (lease_at c key d) t1 o1"
      "plus_secs ch t1 (max ttl 1) = Some expiry"
      and w: "(case to_vec c \<lparr>owner_id = o1, acquired_at = to_rfc3339 ch t1, expires_at = to_rfc3339 ch expiry,
                 fence_token = next_lease_fence_token (lease_at c key d)\<rparr> of
               None \<Rightarrow> fail (Err ''serialize lease'')
             | Some raw \<Rightarrow> bindE (set_kv_txn (to_rfc3339 ch t2) key raw)
                 (\<lambda>_. ret (Commit (Some \<lparr>guard_owner = o1, guard_fence = next_lease_fence_token (lease_at c key d)\<rparr>)))) d3
            = (Inr (Commit (Some g)), d2)"
      by (auto simp: Let_def split: if_splits option.splits)
    from write_lease [OF assms(1) w] commit(3) x that show ?thesis
      by (auto simp: lease_at_def)
  qed
next
  case (rollback d1 d2)
  from assms(1) rollback(2) show ?thesis
    by (rule locked_read) (auto simp: Let_def split: if_splits option.splits elim!: bindE_InrE)
qed


text \<open>The two acquisitions differ in what they return only.\<close>

lemma acquire_via_guard:
  "acquire_kv_lease ch c t0 t1 t2 key o1 ttl =
     map_io (\<lambda>g. g \<noteq> None) (acquire_kv_lease_guard ch c t0 t1 t2 key o1 ttl)"
  unfolding acquire_kv_lease_def acquire_kv_lease_guard_def transaction_map [symmetric] map_io_bindE
  by (intro arg_cong [where f = transaction] arg_cong2 [where f = bindE] refl ext)
    (auto simp: Let_def map_io_def bindE_def split: option.splits prod.splits sum.splits)




text \<open>A failed operation leaves the lease alone.\<close>

lemma lease_op_error:
  "acquire_kv_lease_guard ch c t0 t1 t2 key o1 ttl d = (Inl e, d') \<Longrightarrow> lease_at c key d' = lease_at c key d"
  "refresh_kv_lease_guard ch c t0 t1 t2 key g ttl d = (Inl e, d') \<Longrightarrow> lease_at c key d' = lease_at c key d"
  "release_kv_lease ch c t0 key o1 d = (Inl e, d') \<Longrightarrow> lease_at c key d' = lease_at c key d"
  "release_kv_lease_guard ch c t0 key g d = (Inl e, d') \<Longrightarrow> lease_at c key d' = lease_at c key d"
  unfolding acquire_kv_lease_guard_def refresh_kv_lease_guard_def release_kv_lease_def release_kv_lease_guard_def
  by (blast dest: transaction_error_frame intro: lease_at_cong)+


lemma refresh_True:
  assumes "codec_ok c" and "refresh_kv_lease_guard ch c t0 t1 t2 key g ttl d = (Inr True, d')"
  obtains r expiry where "lease_at c key d = Some r" and "kv_lease_guard_is_current ch r g t1"
    and "plus_secs ch t1 (max ttl 1) = Some expiry"
    and "lease_at c key d' = Some (r\<lparr>expires_at := to_rfc3339 ch expiry\<rparr>)"
  using assms(2) unfolding refresh_kv_lease_guard_def
proof (cases rule: transaction_InrE)
  case (commit d1 d2)
  from commit(1) have l: "lease_at c key d1 = lease_at c key d" by (rule lease_at_cong)
  from commit(3) have l': "lease_at c key d' = lease_at c key d2" by (rule lease_at_cong)
  from assms(1) commit(2) show ?thesis
  proof (rule locked_read)
    fix d3 row
    assume dec: "decode_lease c (Some row) = lease_at c key d1"
      and body: "(case decode_lease c (Some row) of None \<Rightarrow> ret (Rollback False)
        | Some lease \<Rightarrow> if \<not> kv_lease_guard_is_current ch lease g t1 then ret (Rollback False)
         else (case plus_secs ch t1 (max ttl 1) of
            None \<Rightarrow> fail (Panicked ''DateTime + Duration overflowed'')
          | Some expiry \<Rightarrow>
              (case to_vec c (lease\<lparr>expires_at := to_rfc3339 ch expiry\<rparr>) of
                 None \<Rightarrow> fail (Err ''serialize lease'')
               | Some raw \<Rightarrow> bindE (set_kv_txn (to_rfc3339 ch t2) key raw) (\<lambda>_. ret (Commit True))))) d3
        = (Inr (Commit True), d2)"
    from body dec l obtain r expiry where x: "lease_at c key d = Some r" "kv_lease_guard_is_current ch r g t1"
        "plus_secs ch t1 (max ttl 1) = Some expiry"
      and w: "(case to_vec c (r\<lparr>expires_at := to_rfc3339 ch expiry\<rparr>) of None \<Rightarrow> fail (Err ''serialize lease'')
               | Some raw \<Rightarrow> bindE (set_kv_txn (to_rfc3339 ch t2) key raw) (\<lambda>_. ret (Commit True))) d3
            = (Inr (Commit True), d2)"
      by (auto split: option.splits if_splits)
    from write_lease [OF assms(1) w] l' x that show ?thesis by simp
  qed
next
  case (rollback d1 d2)
  from assms(1) rollback(2) show ?thesis
    by (rule locked_read) (auto split: if_splits option.splits elim!: bindE_InrE)
qed

lemma lease_at_deleted: "tables d' = (tables d)(key := None) \<Longrightarrow> lease_at c key d' = None"
  by (simp add: lease_at_def decode_lease_def)

text \<open>A release removes the lease when it matches, and nothing otherwise.\<close>

lemma release_body:
  assumes "codec_ok c"
    and "transaction (bindE (ensure_kv_row_exists_txn now key) (\<lambda>_.
     bindE (get_kv_for_update_txn key) (\<lambda>existing.
       if (case decode_lease c existing of None \<Rightarrow> False | Some r \<Rightarrow> P r)
       then bindE (delete_kv_txn key) (\<lambda>_. ret (Commit ()))
       else ret (Commit ())))) d = (Inr u, d')"
  shows "lease_at c key d' = (case lease_at c key d of None \<Rightarrow> None | Some r \<Rightarrow> if P r then None else Some r)"
  using assms(2)
proof (cases rule: transaction_InrE)
  case (commit d1 d2)
  from commit(1) have l: "lease_at c key d1 = lease_at c key d" by (rule lease_at_cong)
  from commit(3) have l': "lease_at c key d' = lease_at c key d2" by (rule lease_at_cong)
  from assms(1) commit(2) show ?thesis
    by (rule locked_read)
      (use l l' in \<open>auto split: if_splits option.splits elim!: bindE_InrE
         dest!: delete_kv_txn_tables dest: lease_at_deleted\<close>)
next
  case (rollback d1 d2)
  from assms(1) rollback(2) show ?thesis
    by (rule locked_read) (auto split: if_splits option.splits elim!: bindE_InrE)
qed


lemma release_guard_effect:
  assumes "codec_ok c" and "release_kv_lease_guard ch c t0 key g d = (Inr u, d')"
  shows "lease_at c key d' = (case lease_at c key d of None \<Rightarrow> None
     | Some r \<Rightarrow> if owner_id r = guard_owner g \<and> fence_token r = guard_fence g then None else Some r)"
  using assms unfolding release_kv_lease_guard_def by (rule release_body)


section \<open>Mutual exclusion and fencing\<close>







text \<open>The lease written by an acquisition is active until its time to live has passed.\<close>

lemma granted_active:
  assumes "chrono_ok ch" and "rfc_range t1" and "rfc_range (t1 + secs (max ttl 1))"
    and "plus_secs ch t1 (max ttl 1) = Some expiry" and "expires_at r = to_rfc3339 ch expiry"
  shows "lease_is_active ch r t \<longleftrightarrow> t < t1 + secs (max ttl 1)"
  using assms by (simp add: lease_is_active_def chrono_plus chrono_parse)



lemma quiet_acquire_guard:
  assumes "codec_ok c" and "faults d = []" and "\<not> held_by_other ch (lease_at c key d) t1 o1"
    and "plus_secs ch t1 (max ttl 1) = Some expiry"
  shows "\<exists>d'. acquire_kv_lease_guard ch c t0 t1 t2 key o1 ttl d =
      (Inr (Some \<lparr>guard_owner = o1, guard_fence = next_lease_fence_token (lease_at c key d)\<rparr>), d')
    \<and> faults d' = []"
proof -
  obtain raw where raw: "to_vec c \<lparr>owner_id = o1, acquired_at = to_rfc3339 ch t1,
      expires_at = to_rfc3339 ch expiry, fence_token = next_lease_fence_token (lease_at c key d)\<rparr> = Some raw"
    using assms(1) unfolding codec_ok_def by blast
  have empty: "from_slice c [] = None" using assms(1) by (simp add: codec_ok_def)
  show ?thesis
  proof (cases "tables d key")
    case None
    with assms raw empty show ?thesis
      by (cases d) (simp add: acquire_kv_lease_guard_def transaction_quiet ensure_kv_row_exists_txn_def
        get_kv_for_update_txn_def set_kv_txn_def bindE_def lease_at_def decode_lease_def Let_def)
  next
    case (Some row)
    with assms raw show ?thesis
      by (cases d) (simp add: acquire_kv_lease_guard_def transaction_quiet ensure_kv_row_exists_txn_def
        get_kv_for_update_txn_def set_kv_txn_def bindE_def lease_at_def Let_def)
  qed
qed

text \<open>A lease granted on an empty database, for the closed examples.\<close>

lemma first_grant:
  obtains d1 l where "acquire_kv_lease_guard decimal_chrono one_codec 0 0 0 key o1 60 empty_db
      = (Inr (Some \<lparr>guard_owner = o1, guard_fence = 1\<rparr>), d1)"
    and "faults d1 = []" and "lease_at one_codec key d1 = Some l" and "owner_id l = o1"
    and "fence_token l = 1" and "\<And>t. lease_is_active decimal_chrono l t \<longleftrightarrow> t < secs 60"
proof -
  have r: "rfc_range 0" "rfc_range (0 + secs (max 60 1))"
    by (simp_all add: rfc_range_num secs_def ns_per_sec_def)
  then have p: "plus_secs decimal_chrono 0 (max 60 1) = Some (0 + secs (max 60 1))" by simp
  have e: "lease_at one_codec key empty_db = None" "faults empty_db = []"
    by (simp_all add: lease_at_def decode_lease_def empty_db_def)
  then have "\<not> held_by_other decimal_chrono (lease_at one_codec key empty_db) 0 o1"
    by (simp add: held_by_other_def)
  from quiet_acquire_guard [OF one_codec_ok e(2) this p] e(1) obtain d1 where
    a: "acquire_kv_lease_guard decimal_chrono one_codec 0 0 0 key o1 60 empty_db
      = (Inr (Some \<lparr>guard_owner = o1, guard_fence = 1\<rparr>), d1)" and q: "faults d1 = []"
    by (auto simp: next_lease_fence_token_def)
  obtain l where l: "lease_at one_codec key d1 = Some l" "owner_id l = o1" "fence_token l = 1"
      "expires_at l = to_rfc3339 decimal_chrono (0 + secs (max 60 1))"
    by (rule acquire_guard_Some [OF one_codec_ok a]) (use p in simp)
  have "lease_is_active decimal_chrono l t \<longleftrightarrow> t < secs 60" for t
    using granted_active [OF decimal_chrono_ok r p l(4), of t] by simp
  with that a q l show thesis by blast
qed


text \<open>
  C21. Fencing. When a lease is granted, every guard for the lease it replaces is refused from
  then on by all three guard operations, whatever the clock reads: a refresh or a check with
  the old guard is not granted, and a release with it leaves the new lease in place. (The
  token saturates at the largest u64.)
\<close>

theorem lease_fencing:
  assumes "codec_ok c" and "lease_at c key d = Some old" and "fence_token old < u64_max"
    and "acquire_kv_lease_guard ch c t0 t1 t2 key owner ttl d = (Inr (Some g), d1)"
    and "stale = \<lparr>guard_owner = owner_id old, guard_fence = fence_token old\<rparr>"
  shows "guard_fence g = Suc (fence_token old)
    \<and> fst (refresh_kv_lease_guard ch c u0 u1 u2 key stale ttl' d1) \<noteq> Inr True
    \<and> fst (require_kv_lease_guard_txn ch c u0 u1 key stale d1) \<noteq> Inr True
    \<and> lease_at c key (snd (release_kv_lease_guard ch c u0 key stale d1)) = lease_at c key d1"
proof -
  from assms(1,4) obtain new where g: "guard_fence g = Suc (fence_token old)"
    and l: "lease_at c key d1 = Some new" and f: "fence_token new = Suc (fence_token old)"
    by (rule acquire_guard_Some)
      (use assms(2,3) in \<open>auto simp: next_lease_fence_token_def sat_add_u64_def\<close>)
  have nc: "\<not> kv_lease_guard_is_current ch new stale t" for t
    using f assms(5) by (simp add: kv_lease_guard_is_current_def)
  have "fst (refresh_kv_lease_guard ch c u0 u1 u2 key stale ttl' d1) \<noteq> Inr True"
  proof
    assume "fst (refresh_kv_lease_guard ch c u0 u1 u2 key stale ttl' d1) = Inr True"
    then obtain d2 where "refresh_kv_lease_guard ch c u0 u1 u2 key stale ttl' d1 = (Inr True, d2)"
      by (metis prod.collapse)
    with l nc show False by (auto elim: refresh_True [OF assms(1)])
  qed
  moreover have "fst (require_kv_lease_guard_txn ch c u0 u1 key stale d1) \<noteq> Inr True"
  proof
    assume "fst (require_kv_lease_guard_txn ch c u0 u1 key stale d1) = Inr True"
    then obtain d2 where "require_kv_lease_guard_txn ch c u0 u1 key stale d1 = (Inr True, d2)"
      by (metis prod.collapse)
    with l nc show False unfolding require_kv_lease_guard_txn_def
      by (auto elim!: locked_read [OF assms(1)] simp: decode_lease_def split: option.splits)
  qed
  moreover have "lease_at c key (snd (release_kv_lease_guard ch c u0 key stale d1)) = lease_at c key d1"
  proof (cases "release_kv_lease_guard ch c u0 key stale d1")
    case (Pair res d2)
    then show ?thesis
      using release_guard_effect [OF assms(1)] lease_op_error(4) l f assms(5)
      by (cases res) fastforce+
  qed
  ultimately show ?thesis using g by blast
qed


theorem lease_fencing_witness:
  "\<exists>d d1 g. acquire_kv_lease_guard decimal_chrono one_codec 0 (secs 60) 0 ''job'' ''b'' 60 d
      = (Inr (Some g), d1)
    \<and> guard_fence g = 2
    \<and> fst (refresh_kv_lease_guard decimal_chrono one_codec 0 (secs 70) 0 ''job''
            \<lparr>guard_owner = ''a'', guard_fence = 1\<rparr> 60 d1) \<noteq> Inr True"
proof -
  obtain d l where l: "faults d = []" "lease_at one_codec ''job'' d = Some l" "owner_id l = ''a''"
      "fence_token l = 1" "\<And>t. lease_is_active decimal_chrono l t \<longleftrightarrow> t < secs 60"
    by (rule first_grant [of "''job''" "''a''"]) blast
  then have n: "\<not> held_by_other decimal_chrono (lease_at one_codec ''job'' d) (secs 60) ''b''"
    by (simp add: held_by_other_def)
  have p: "plus_secs decimal_chrono (secs 60) (max 60 1) = Some (secs 60 + secs (max 60 1))"
    by (rule decimal_chrono_sel(3)) (simp add: rfc_range_num secs_def ns_per_sec_def)
  from quiet_acquire_guard [OF one_codec_ok l(1) n p] obtain d1 g where
    a: "acquire_kv_lease_guard decimal_chrono one_codec 0 (secs 60) 0 ''job'' ''b'' 60 d = (Inr (Some g), d1)"
    by blast
  have "fence_token l < u64_max" using l(4) by (simp add: u64_max_def)
  from lease_fencing [OF one_codec_ok l(2) this a refl, of 0 "secs 70" 0 60] l(3,4) a
  show ?thesis by (intro exI [of _ d] exI [of _ d1] exI [of _ g]) simp
qed

text \<open>
  Renewal. A granted refresh was asked for with the current guard of an active lease; it
  keeps the owner, the acquisition time and the fence token, and the renewed lease is active
  exactly until the new time to live has passed.
\<close>

theorem lease_renewal:
  assumes "codec_ok c" and "chrono_ok ch" and "rfc_range t1" and "rfc_range (t1 + secs (max ttl 1))"
    and "refresh_kv_lease_guard ch c t0 t1 t2 key g ttl d = (Inr True, d')"
  shows "\<exists>r r'. lease_at c key d = Some r \<and> lease_is_active ch r t1
    \<and> owner_id r = guard_owner g \<and> fence_token r = guard_fence g
    \<and> lease_at c key d' = Some r' \<and> owner_id r' = owner_id r \<and> acquired_at r' = acquired_at r
    \<and> fence_token r' = fence_token r
    \<and> (\<forall>t. lease_is_active ch r' t = (t < t1 + secs (max ttl 1)))"
proof (rule refresh_True [OF assms(1,5)])
  fix r expiry
  assume r: "lease_at c key d = Some r" "kv_lease_guard_is_current ch r g t1"
    and p: "plus_secs ch t1 (max ttl 1) = Some expiry"
    and r': "lease_at c key d' = Some (r\<lparr>expires_at := to_rfc3339 ch expiry\<rparr>)"
  from granted_active [OF assms(2-4) p, of "r\<lparr>expires_at := to_rfc3339 ch expiry\<rparr>"] r r'
  show ?thesis by (simp add: kv_lease_guard_is_current_def)
qed

lemma quiet_refresh:
  assumes "codec_ok c" and "faults d = []" and "lease_at c key d = Some r"
    and "kv_lease_guard_is_current ch r g t1" and "plus_secs ch t1 (max ttl 1) = Some expiry"
  shows "\<exists>d'. refresh_kv_lease_guard ch c t0 t1 t2 key g ttl d = (Inr True, d')"
proof -
  obtain raw where raw: "to_vec c (r\<lparr>expires_at := to_rfc3339 ch expiry\<rparr>) = Some raw"
    using assms(1) unfolding codec_ok_def by blast
  obtain row where "tables d key = Some row" "from_slice c (kv_value row) = Some r"
    using assms(3) by (auto simp: lease_at_def decode_lease_def split: option.splits)
  with assms raw show ?thesis
    by (cases d) (simp add: refresh_kv_lease_guard_def transaction_quiet ensure_kv_row_exists_txn_def
        get_kv_for_update_txn_def set_kv_txn_def bindE_def decode_lease_def)
qed

theorem lease_renewal_witness:
  "\<exists>d d'. refresh_kv_lease_guard decimal_chrono one_codec 0 (secs 30) 0 ''job''
       \<lparr>guard_owner = ''a'', guard_fence = 1\<rparr> 60 d = (Inr True, d')
    \<and> (\<exists>r'. lease_at one_codec ''job'' d' = Some r' \<and> lease_is_active decimal_chrono r' (secs 80))"
proof -
  obtain d l where l: "faults d = []" "lease_at one_codec ''job'' d = Some l" "owner_id l = ''a''"
      "fence_token l = 1" "\<And>t. lease_is_active decimal_chrono l t \<longleftrightarrow> t < secs 60"
    by (rule first_grant [of "''job''" "''a''"]) blast
  have r: "rfc_range (secs 30)" "rfc_range (secs 30 + secs (max 60 1))"
    by (simp_all add: rfc_range_num secs_def ns_per_sec_def)
  have cur: "kv_lease_guard_is_current decimal_chrono l \<lparr>guard_owner = ''a'', guard_fence = 1\<rparr> (secs 30)"
    using l by (simp add: kv_lease_guard_is_current_def secs_def ns_per_sec_def)
  from quiet_refresh [OF one_codec_ok l(1,2) cur decimal_chrono_sel(3) [OF r(2)]] obtain d' where
    f: "refresh_kv_lease_guard decimal_chrono one_codec 0 (secs 30) 0 ''job''
       \<lparr>guard_owner = ''a'', guard_fence = 1\<rparr> 60 d = (Inr True, d')" by blast
  from lease_renewal [OF one_codec_ok decimal_chrono_ok r f] f show ?thesis
    by (fastforce simp: secs_def ns_per_sec_def)
qed

text \<open>
  Availability. With a working database, a lease that no other owner actively holds (none,
  an expired one, or the caller's own) is granted, with the next fence token.
\<close>

theorem lease_available:
  assumes "codec_ok c" and "chrono_ok ch" and "rfc_range t1" and "rfc_range (t1 + secs (max ttl 1))"
    and "faults d = []"
    and "\<forall>r. lease_at c key d = Some r \<longrightarrow> owner_id r = owner \<or> \<not> lease_is_active ch r t1"
  shows "\<exists>d' r'. acquire_kv_lease_guard ch c t0 t1 t2 key owner ttl d =
      (Inr (Some \<lparr>guard_owner = owner, guard_fence = next_lease_fence_token (lease_at c key d)\<rparr>), d')
    \<and> acquire_kv_lease ch c t0 t1 t2 key owner ttl d = (Inr True, d')
    \<and> lease_at c key d' = Some r' \<and> owner_id r' = owner
    \<and> (\<forall>t. lease_is_active ch r' t = (t < t1 + secs (max ttl 1)))"
proof -
  from assms(6) have n: "\<not> held_by_other ch (lease_at c key d) t1 owner"
    by (auto simp: held_by_other_def split: option.splits)
  note p = chrono_plus [OF assms(2-4)]
  from quiet_acquire_guard [OF assms(1,5) n p] obtain d' where
    a: "acquire_kv_lease_guard ch c t0 t1 t2 key owner ttl d =
      (Inr (Some \<lparr>guard_owner = owner, guard_fence = next_lease_fence_token (lease_at c key d)\<rparr>), d')"
    by blast
  obtain r' where r': "lease_at c key d' = Some r'" "owner_id r' = owner"
      "expires_at r' = to_rfc3339 ch (t1 + secs (max ttl 1))"
    by (rule acquire_guard_Some [OF assms(1) a]) (use p in simp)
  from a have "acquire_kv_lease ch c t0 t1 t2 key owner ttl d = (Inr True, d')"
    by (simp add: acquire_via_guard map_io_def)
  with a r' granted_active [OF assms(2-4) p r'(3)] show ?thesis by blast
qed

theorem lease_available_witness:
  "\<exists>d'. acquire_kv_lease decimal_chrono one_codec 0 (secs 5) 0 ''job'' ''a'' 60 empty_db = (Inr True, d')"
proof -
  have r: "rfc_range (secs 5)" "rfc_range (secs 5 + secs (max 60 1))"
    by (simp_all add: rfc_range_num secs_def ns_per_sec_def)
  have e: "lease_at one_codec ''job'' empty_db = None" "faults empty_db = []"
    by (simp_all add: lease_at_def decode_lease_def empty_db_def)
  then have "\<forall>r. lease_at one_codec ''job'' empty_db = Some r \<longrightarrow>
      owner_id r = ''a'' \<or> \<not> lease_is_active decimal_chrono r (secs 5)" by simp
  from lease_available [OF one_codec_ok decimal_chrono_ok r e(2) this] show ?thesis by blast
qed

end
