(* ===== verification/Json_Value.thy ===== *)
theory Json_Value
  imports Ark_Prelude "HOL-Library.Countable" "HOL-Library.Word"
begin

text \<open>
  JSON values (\<open>serde\_json::Value\<close>): numbers keep their text, since no modelled component
  computes with them, and an object is its list of members in key order (\<open>serde\_json::Map\<close>
  without \<open>preserve\_order\<close> is a \<open>BTreeMap\<close>).
\<close>

datatype json =
    JNull
  | JBool bool
  | JNum string
  | JStr string
  | JArr "json list"
  | JObj "(string \<times> json) list"

instance json :: countable by countable_datatype

text \<open>A floating point number is its 64 bits; what the code does with it is a parameter where it is used.\<close>

type_synonym f64 = "64 word"

fun obj_insert :: "string \<Rightarrow> json \<Rightarrow> (string \<times> json) list \<Rightarrow> (string \<times> json) list" where
  "obj_insert k v [] = [(k, v)]"
| "obj_insert k v ((k', v') # xs) =
     (if k = k' then (k, v) # xs
      else if k < k' then (k, v) # (k', v') # xs
      else (k', v') # obj_insert k v xs)"

fun json_insert :: "string \<Rightarrow> json \<Rightarrow> json \<Rightarrow> json" where
  "json_insert k v (JObj xs) = JObj (obj_insert k v xs)"
| "json_insert k v j = j"

fun json_get :: "string \<Rightarrow> json \<Rightarrow> json option" where
  "json_get k (JObj xs) = map_of xs k"
| "json_get k j = None"

fun json_as_str :: "json \<Rightarrow> string option" where
  "json_as_str (JStr s) = Some s"
| "json_as_str _ = None"

definition obj_remove :: "string \<Rightarrow> (string \<times> json) list \<Rightarrow> (string \<times> json) list" where
  "obj_remove k xs = filter (\<lambda>(k', _). k' \<noteq> k) xs"

fun json_as_bool :: "json \<Rightarrow> bool option" where
  "json_as_bool (JBool b) = Some b"
| "json_as_bool _ = None"

fun json_as_array :: "json \<Rightarrow> json list option" where
  "json_as_array (JArr xs) = Some xs"
| "json_as_array _ = None"

fun json_as_object :: "json \<Rightarrow> (string \<times> json) list option" where
  "json_as_object (JObj xs) = Some xs"
| "json_as_object _ = None"

lemma map_of_obj_insert [simp]: "map_of (obj_insert k v xs) = (map_of xs)(k \<mapsto> v)"
  by (induction k v xs rule: obj_insert.induct) (auto simp: fun_upd_twist)

lemma map_of_obj_remove [simp]: "map_of (obj_remove k xs) = (map_of xs)(k := None)"
  by (induction xs) (auto simp: obj_remove_def)

lemma obj_insert_keys: "set (map fst (obj_insert k v xs)) = insert k (set (map fst xs))"
  by (induction k v xs rule: obj_insert.induct) auto

lemma obj_insert_sorted:
  "sorted (map fst xs) \<Longrightarrow> distinct (map fst xs) \<Longrightarrow>
    sorted (map fst (obj_insert k v xs)) \<and> distinct (map fst (obj_insert k v xs))"
proof (induction k v xs rule: obj_insert.induct)
  case (2 k v k' v' xs)
  then show ?case using obj_insert_keys [of k v xs] by auto
qed simp

end
