(* ===== verification/Model_Failover.thy ===== *)
theory Model_Failover
  imports Kv_Storage Clock_Text Json_Value
begin

text \<open>
  The data and the pure decisions of \<open>core/model/model_failover.rs\<close>: auth profiles,
  provider health, fallback chains, their normalisation, and the selection of a candidate.
  The handlers over the database are in \<open>Failover_Plane\<close>.

  Record fields carry a prefix for their struct: \<open>ap_\<close> (\<open>AuthProfileRecord\<close>),
  \<open>ai_\<close> (\<open>AuthProfileUpsert\<close>), \<open>ph_\<close> (\<open>ProviderHealthRecord\<close>), \<open>hi_\<close>
  (\<open>ProviderHealthUpsert\<close>), \<open>he_\<close> (\<open>ProviderHealthEvent\<close>), \<open>cand_\<close>, \<open>fc_\<close>
  (\<open>FallbackChainRecord\<close>), \<open>ci_\<close> (\<open>FallbackChainUpsert\<close>), \<open>rq_\<close> and \<open>rs_\<close>
  (selection request and result). Priorities are i32 values that are only compared; counters
  are u64 values that saturate.
\<close>

section \<open>Records\<close>

definition AUTH_PROFILES_KEY :: string where
  "AUTH_PROFILES_KEY = ''model_failover:auth_profiles:v1''"

definition PROVIDER_HEALTH_KEY :: string where
  "PROVIDER_HEALTH_KEY = ''model_failover:provider_health:v1''"

definition FALLBACK_CHAINS_KEY :: string where
  "FALLBACK_CHAINS_KEY = ''model_failover:fallback_chains:v1''"

record session_pin =
  pin_session_id :: string
  pin_model_id :: "string option"
  pin_chain_id :: "string option"
  pin_provider_id :: "string option"
  pin_auth_profile_id :: "string option"
  pin_reason :: "string option"
  pin_pinned_at :: "string option"
  pin_expires_at :: "string option"

record auth_profile =
  ap_id :: string
  ap_name :: string
  ap_provider_id :: string
  ap_provider_kind :: "string option"
  ap_base_url :: "string option"
  ap_model_id :: "string option"
  ap_credential_ref :: "string option"
  ap_enabled :: bool
  ap_priority :: int
  ap_last_used_at :: "string option"
  ap_last_error :: "string option"
  ap_session_pin :: "session_pin option"
  ap_tags :: "string list"
  ap_metadata :: "json option"

record auth_profile_upsert =
  ai_id :: "string option"
  ai_name :: "string option"
  ai_provider_id :: string
  ai_provider_kind :: "string option"
  ai_base_url :: "string option"
  ai_model_id :: "string option"
  ai_credential_ref :: "string option"
  ai_enabled :: "bool option"
  ai_priority :: "int option"
  ai_last_used_at :: "string option"
  ai_last_error :: "string option"
  ai_session_pin :: "session_pin option"
  ai_tags :: "string list"
  ai_metadata :: "json option"

record provider_health =
  ph_provider_id :: string
  ph_provider_kind :: "string option"
  ph_enabled :: bool
  ph_disabled :: bool
  ph_cooldown_until :: "string option"
  ph_last_success_at :: "string option"
  ph_last_failure_at :: "string option"
  ph_success_count :: nat
  ph_failure_count :: nat
  ph_last_error :: "string option"
  ph_health_note :: "string option"
  ph_session_pin_count :: nat
  ph_metadata :: "json option"

record provider_health_upsert =
  hi_provider_id :: string
  hi_provider_kind :: "string option"
  hi_enabled :: "bool option"
  hi_disabled :: "bool option"
  hi_cooldown_until :: "string option"
  hi_last_success_at :: "string option"
  hi_last_failure_at :: "string option"
  hi_success_count :: "nat option"
  hi_failure_count :: "nat option"
  hi_last_error :: "string option"
  hi_health_note :: "string option"
  hi_metadata :: "json option"

record provider_health_event =
  he_provider_id :: string
  he_provider_kind :: "string option"
  he_success :: bool
  he_error :: "string option"
  he_cooldown_secs :: "int option"
  he_disabled :: "bool option"
  he_auth_profile_id :: "string option"
  he_model_id :: "string option"
  he_session_id :: "string option"
  he_note :: "string option"
  he_metadata :: "json option"

record fallback_candidate =
  cand_provider_id :: string
  cand_auth_profile_id :: "string option"
  cand_priority :: int
  cand_reason :: "string option"

record fallback_chain =
  fc_id :: string
  fc_name :: string
  fc_enabled :: bool
  fc_ordered_candidates :: "fallback_candidate list"
  fc_session_pin :: "session_pin option"
  fc_notes :: "string option"
  fc_metadata :: "json option"

record fallback_chain_upsert =
  ci_id :: "string option"
  ci_name :: "string option"
  ci_enabled :: "bool option"
  ci_ordered_candidates :: "fallback_candidate list"
  ci_session_pin :: "session_pin option"
  ci_notes :: "string option"
  ci_metadata :: "json option"

record selection_request =
  rq_chain_id :: "string option"
  rq_provider_id :: "string option"
  rq_auth_profile_id :: "string option"
  rq_session_id :: "string option"
  rq_model_id :: "string option"
  rq_allow_disabled :: bool
  rq_allow_cooling :: bool

record selection_result =
  rs_matched_chain_id :: "string option"
  rs_selected_provider_id :: "string option"
  rs_selected_auth_profile_id :: "string option"
  rs_ordered_candidates :: "fallback_candidate list"
  rs_blocked :: bool
  rs_blocked_reason :: "string option"
  rs_reason :: "string option"
  rs_provider_health :: "provider_health option"
  rs_auth_profile :: "auth_profile option"

record failover_summary =
  sum_auth_profiles :: nat
  sum_providers :: nat
  sum_disabled_providers :: nat
  sum_cooling_providers :: nat
  sum_chains :: nat
  sum_session_pins :: nat

record failover_list_response =
  ls_summary :: failover_summary
  ls_auth_profiles :: "auth_profile list"
  ls_provider_health :: "provider_health list"
  ls_fallback_chains :: "fallback_chain list"

definition default_selection_result :: selection_result where
  "default_selection_result = \<lparr>rs_matched_chain_id = None, rs_selected_provider_id = None,
     rs_selected_auth_profile_id = None, rs_ordered_candidates = [], rs_blocked = False,
     rs_blocked_reason = None, rs_reason = None, rs_provider_health = None, rs_auth_profile = None\<rparr>"

section \<open>Normalisation\<close>

definition sanitize_text :: "string option \<Rightarrow> string option" where
  "sanitize_text v = trim_opt v"

definition sanitize_list :: "string list \<Rightarrow> string list" where
  "sanitize_list values = remdups_adj (sort (filter (\<lambda>v. v \<noteq> []) (map trim values)))"

definition is_cooling :: "chrono \<Rightarrow> int \<Rightarrow> provider_health \<Rightarrow> bool" where
  "is_cooling ch now r = (case ph_cooldown_until r of
     None \<Rightarrow> False
   | Some until \<Rightarrow> (case parse_rfc3339 ch until of Some dt \<Rightarrow> dt > now | None \<Rightarrow> False))"

definition normalize_profile :: "auth_profile \<Rightarrow> auth_profile" where
  "normalize_profile p = p\<lparr>ap_id := trim (ap_id p), ap_name := trim (ap_name p),
     ap_provider_id := trim (ap_provider_id p),
     ap_provider_kind := sanitize_text (ap_provider_kind p),
     ap_base_url := sanitize_text (ap_base_url p),
     ap_model_id := sanitize_text (ap_model_id p),
     ap_credential_ref := sanitize_text (ap_credential_ref p),
     ap_last_used_at := sanitize_text (ap_last_used_at p),
     ap_last_error := sanitize_text (ap_last_error p),
     ap_tags := sanitize_list (ap_tags p)\<rparr>"

definition normalize_health :: "provider_health \<Rightarrow> provider_health" where
  "normalize_health h = h\<lparr>ph_provider_id := trim (ph_provider_id h),
     ph_provider_kind := sanitize_text (ph_provider_kind h),
     ph_cooldown_until := sanitize_text (ph_cooldown_until h),
     ph_last_success_at := sanitize_text (ph_last_success_at h),
     ph_last_failure_at := sanitize_text (ph_last_failure_at h),
     ph_last_error := sanitize_text (ph_last_error h),
     ph_health_note := sanitize_text (ph_health_note h)\<rparr>"

definition normalize_candidate :: "fallback_candidate \<Rightarrow> fallback_candidate option" where
  "normalize_candidate c = (let c' = c\<lparr>cand_provider_id := trim (cand_provider_id c),
       cand_auth_profile_id := sanitize_text (cand_auth_profile_id c),
       cand_reason := sanitize_text (cand_reason c)\<rparr>
     in if cand_provider_id c' = [] then None else Some c')"

definition normalize_chain :: "fallback_chain \<Rightarrow> fallback_chain" where
  "normalize_chain c = c\<lparr>fc_id := trim (fc_id c), fc_name := trim (fc_name c),
     fc_notes := sanitize_text (fc_notes c),
     fc_ordered_candidates := List.map_filter normalize_candidate (fc_ordered_candidates c)\<rparr>"

definition profile_pins_count :: "auth_profile list \<Rightarrow> nat" where
  "profile_pins_count ps = length (filter (\<lambda>p. ap_session_pin p \<noteq> None) ps)"

section \<open>Selection\<close>

text \<open>
  The health records collected into a \<open>BTreeMap\<close> by provider: the last record of a provider
  wins. One selection reads the clock once in the model (\<open>now\<close>); the code reads it at every
  cooldown test.
\<close>

definition provider_map :: "provider_health list \<Rightarrow> string \<Rightarrow> provider_health option" where
  "provider_map health = map_of (rev (map (\<lambda>r. (ph_provider_id r, r)) health))"

definition provider_disabled :: "provider_health option \<Rightarrow> bool" where
  "provider_disabled s = (case s of None \<Rightarrow> False | Some h \<Rightarrow> ph_disabled h \<or> \<not> ph_enabled h)"

definition provider_cooling :: "chrono \<Rightarrow> int \<Rightarrow> provider_health option \<Rightarrow> bool" where
  "provider_cooling ch now s = (case s of None \<Rightarrow> False | Some h \<Rightarrow> is_cooling ch now h)"

definition candidate_rank ::
    "chrono \<Rightarrow> int \<Rightarrow> (string \<Rightarrow> provider_health option) \<Rightarrow> fallback_candidate \<Rightarrow> int \<times> bool \<times> bool" where
  "candidate_rank ch now pm c = (let s = pm (cand_provider_id c)
     in (cand_priority c, provider_disabled s, provider_cooling ch now s))"

definition chain_candidates :: "fallback_chain \<Rightarrow> fallback_candidate list" where
  "chain_candidates chain = sort_key cand_priority (fc_ordered_candidates chain)"

definition pick_chain :: "fallback_chain list \<Rightarrow> selection_request \<Rightarrow> fallback_chain option" where
  "pick_chain cs rq = (case rq_chain_id rq of
     Some cid \<Rightarrow> find (\<lambda>c. fc_id c = cid) cs
   | None \<Rightarrow> find fc_enabled cs)"

definition pinned_to :: "auth_profile list \<Rightarrow> string \<Rightarrow> fallback_candidate \<Rightarrow> bool" where
  "pinned_to profiles sid c = (case cand_auth_profile_id c of
     None \<Rightarrow> False
   | Some pid \<Rightarrow> (case find (\<lambda>p. ap_id p = pid) profiles of
        None \<Rightarrow> False
      | Some p \<Rightarrow> (case ap_session_pin p of None \<Rightarrow> False | Some pin \<Rightarrow> pin_session_id pin = sid)))"

definition eligible ::
    "chrono \<Rightarrow> int \<Rightarrow> (string \<Rightarrow> provider_health option) \<Rightarrow> selection_request \<Rightarrow> fallback_candidate \<Rightarrow> bool" where
  "eligible ch now pm rq c = (let s = pm (cand_provider_id c)
     in \<not> (\<not> rq_allow_disabled rq \<and> provider_disabled s) \<and> \<not> (\<not> rq_allow_cooling rq \<and> provider_cooling ch now s))"

definition find_by :: "('a \<Rightarrow> 'k \<Rightarrow> bool) \<Rightarrow> 'k option \<Rightarrow> 'a list \<Rightarrow> 'a option" where
  "find_by m key xs = (case key of None \<Rightarrow> None | Some k \<Rightarrow> find (\<lambda>x. m x k) xs)"

definition pick_candidate ::
    "chrono \<Rightarrow> int \<Rightarrow> fallback_candidate list \<Rightarrow> auth_profile list \<Rightarrow> (string \<Rightarrow> provider_health option)
     \<Rightarrow> selection_request \<Rightarrow> fallback_candidate option \<times> string option" where
  "pick_candidate ch now candidates profiles pm rq =
    (let ordered = sort_key (candidate_rank ch now pm) candidates in
     case find_by (\<lambda>c sid. pinned_to profiles sid c) (rq_session_id rq) ordered of
       Some c \<Rightarrow> (Some c, Some ''matched session pin on auth profile'')
     | None \<Rightarrow>
    (case find_by (\<lambda>c pid. cand_provider_id c = pid) (rq_provider_id rq) ordered of
       Some c \<Rightarrow> (Some c, Some ''matched requested provider'')
     | None \<Rightarrow>
    (case find_by (\<lambda>c aid. cand_auth_profile_id c = Some aid) (rq_auth_profile_id rq) ordered of
       Some c \<Rightarrow> (Some c, Some ''matched requested auth profile'')
     | None \<Rightarrow>
    (case find (eligible ch now pm rq) ordered of
       Some c \<Rightarrow> (Some c, Some ''selected by fallback order'')
     | None \<Rightarrow> (None, Some ''no candidate was eligible'')))))"

section \<open>Merging a health upsert\<close>

definition or_else :: "'a option \<Rightarrow> 'a option \<Rightarrow> 'a option" where
  "or_else a b = (case a of None \<Rightarrow> b | Some _ \<Rightarrow> a)"

definition new_health :: "string \<Rightarrow> string option \<Rightarrow> nat \<Rightarrow> json option \<Rightarrow> provider_health" where
  "new_health pid kind pins meta = \<lparr>ph_provider_id = pid, ph_provider_kind = kind,
     ph_enabled = True, ph_disabled = False, ph_cooldown_until = None, ph_last_success_at = None,
     ph_last_failure_at = None, ph_success_count = 0, ph_failure_count = 0, ph_last_error = None,
     ph_health_note = None, ph_session_pin_count = pins, ph_metadata = meta\<rparr>"

definition merge_provider_record ::
    "chrono \<Rightarrow> int \<Rightarrow> provider_health option \<Rightarrow> provider_health_upsert \<Rightarrow> nat \<Rightarrow> provider_health" where
  "merge_provider_record ch now existing inp pin_count =
    (let r = (case existing of Some r \<Rightarrow> r
              | None \<Rightarrow> new_health (hi_provider_id inp) (hi_provider_kind inp) pin_count (hi_metadata inp))
     in normalize_health (r\<lparr>
       ph_provider_id := hi_provider_id inp,
       ph_provider_kind := or_else (hi_provider_kind inp) (ph_provider_kind r),
       ph_enabled := (case hi_enabled inp of Some b \<Rightarrow> b | None \<Rightarrow> ph_enabled r),
       ph_disabled := (case hi_disabled inp of Some b \<Rightarrow> b | None \<Rightarrow> ph_disabled r),
       ph_cooldown_until := or_else (hi_cooldown_until inp) (ph_cooldown_until r),
       ph_last_success_at := (if hi_last_success_at inp \<noteq> None then hi_last_success_at inp
          else if ph_last_success_at r = None \<and> (case hi_success_count inp of Some n \<Rightarrow> n | None \<Rightarrow> 0) > 0
          then Some (to_rfc3339 ch now) else ph_last_success_at r),
       ph_last_failure_at := or_else (hi_last_failure_at inp) (ph_last_failure_at r),
       ph_success_count := (case hi_success_count inp of Some n \<Rightarrow> n | None \<Rightarrow> ph_success_count r),
       ph_failure_count := (case hi_failure_count inp of Some n \<Rightarrow> n | None \<Rightarrow> ph_failure_count r),
       ph_last_error := or_else (hi_last_error inp) (ph_last_error r),
       ph_health_note := or_else (hi_health_note inp) (ph_health_note r),
       ph_metadata := or_else (hi_metadata inp) (ph_metadata r),
       ph_session_pin_count := pin_count\<rparr>))"

section \<open>Normalisation is idempotent\<close>

text \<open>
  Every handler normalises what it loads and what it stores; a stored document is a fixed
  point, so a reload shows what was saved.
\<close>

lemma sort_remdups_adj_filter_fix:
  assumes "sorted xs" and "distinct xs" and "\<forall>x \<in> set xs. x \<noteq> [] \<and> trim x = x"
  shows "sanitize_list xs = xs"
proof -
  have "map trim xs = xs" using assms(3) by (simp add: map_idI)
  moreover have "filter (\<lambda>v. v \<noteq> []) xs = xs" using assms(3) by simp
  ultimately show ?thesis
    using assms(1,2) by (simp add: sanitize_list_def sorted_sort_id distinct_adj_conv_nth remdups_adj_distinct)
qed

lemma sanitize_list_sorted: "sorted (sanitize_list xs)" and sanitize_list_distinct: "distinct (sanitize_list xs)"
  by (simp_all add: sanitize_list_def sorted_remdups_adj remdups_adj_sorted_distinct)

lemma sanitize_list_idem [simp]: "sanitize_list (sanitize_list xs) = sanitize_list xs"
  by (rule sort_remdups_adj_filter_fix)
    (auto simp: sanitize_list_sorted sanitize_list_distinct, auto simp: sanitize_list_def)

lemma sanitize_text_idem [simp]: "sanitize_text (sanitize_text v) = sanitize_text v"
  by (simp add: sanitize_text_def)

lemma normalize_profile_idem [simp]: "normalize_profile (normalize_profile p) = normalize_profile p"
  by (simp add: normalize_profile_def)

lemma normalize_health_idem [simp]: "normalize_health (normalize_health h) = normalize_health h"
  by (simp add: normalize_health_def)

lemma normalize_candidate_idem: "normalize_candidate c = Some c' \<Longrightarrow> normalize_candidate c' = Some c'"
  by (auto simp: normalize_candidate_def Let_def split: if_splits)

lemma map_filter_normalize_idem:
  "List.map_filter normalize_candidate (List.map_filter normalize_candidate cs)
    = List.map_filter normalize_candidate cs"
  by (induction cs) (auto simp: map_filter_simps normalize_candidate_idem split: option.splits)

lemma normalize_chain_idem [simp]: "normalize_chain (normalize_chain c) = normalize_chain c"
  by (simp add: normalize_chain_def map_filter_normalize_idem)

lemma normalize_ids [simp]:
  "ap_id (normalize_profile p) = trim (ap_id p)"
  "ap_provider_id (normalize_profile p) = trim (ap_provider_id p)"
  "ap_priority (normalize_profile p) = ap_priority p"
  "ap_enabled (normalize_profile p) = ap_enabled p"
  "ap_session_pin (normalize_profile p) = ap_session_pin p"
  "ph_provider_id (normalize_health h) = trim (ph_provider_id h)"
  "ph_enabled (normalize_health h) = ph_enabled h"
  "ph_disabled (normalize_health h) = ph_disabled h"
  "ph_success_count (normalize_health h) = ph_success_count h"
  "ph_failure_count (normalize_health h) = ph_failure_count h"
  "ph_session_pin_count (normalize_health h) = ph_session_pin_count h"
  "ph_cooldown_until (normalize_health h) = sanitize_text (ph_cooldown_until h)"
  "ph_last_error (normalize_health h) = sanitize_text (ph_last_error h)"
  "fc_id (normalize_chain c) = trim (fc_id c)"
  by (simp_all add: normalize_profile_def normalize_health_def normalize_chain_def)

section \<open>Facts about selection\<close>

lemma find_by_SomeD:
  "find_by m key xs = Some x \<Longrightarrow> \<exists>k. key = Some k \<and> x \<in> set xs \<and> m x k"
  by (auto simp: find_by_def split: option.splits dest: find_SomeD)

lemma pick_candidate_mem: "pick_candidate ch now cs ps pm rq = (Some c, reason) \<Longrightarrow> c \<in> set cs"
  by (auto simp: pick_candidate_def Let_def split: option.splits dest!: find_by_SomeD find_SomeD)

text \<open>The fallback branch: the result is the least eligible candidate in rank order.\<close>

lemma pick_candidate_fallback:
  assumes "pick_candidate ch now cs ps pm rq = (Some c, Some ''selected by fallback order'')"
  shows "find (eligible ch now pm rq) (sort_key (candidate_rank ch now pm) cs) = Some c"
  using assms by (auto simp: pick_candidate_def Let_def split: option.splits)

text \<open>
  Fallback order. A candidate selected by fallback order is one of the chain's, is not
  disabled unless the request allows it, is not cooling down unless the request allows it,
  and no eligible candidate of the chain has a smaller rank (priority first).
\<close>

theorem fallback_selection:
  assumes "pick_candidate ch now cs ps pm rq = (Some c, Some ''selected by fallback order'')"
  shows "c \<in> set cs
    \<and> (provider_disabled (pm (cand_provider_id c)) \<longrightarrow> rq_allow_disabled rq)
    \<and> (provider_cooling ch now (pm (cand_provider_id c)) \<longrightarrow> rq_allow_cooling rq)
    \<and> (\<forall>c' \<in> set cs. eligible ch now pm rq c' \<longrightarrow>
         candidate_rank ch now pm c \<le> candidate_rank ch now pm c' \<and> cand_priority c \<le> cand_priority c')"
proof -
  let ?s = "sort_key (candidate_rank ch now pm) cs"
  note f = pick_candidate_fallback [OF assms]
  from find_SomeD [OF f] have c: "c \<in> set cs" "eligible ch now pm rq c" by auto
  have least: "candidate_rank ch now pm c \<le> candidate_rank ch now pm c'"
    if "c' \<in> set cs" "eligible ch now pm rq c'" for c'
    using find_sorted_least [OF sorted_sort_key f] that by simp
  have "cand_priority c \<le> cand_priority c'"
    if "c' \<in> set cs" "eligible ch now pm rq c'" for c'
    using least [OF that] by (auto simp: candidate_rank_def Let_def)
  with c least show ?thesis by (auto simp: eligible_def Let_def)
qed

theorem fallback_selection_witness:
  "let c1 = \<lparr>cand_provider_id = ''openai'', cand_auth_profile_id = None, cand_priority = 1, cand_reason = None\<rparr>;
       c2 = \<lparr>cand_provider_id = ''groq'', cand_auth_profile_id = None, cand_priority = 5, cand_reason = None\<rparr>;
       pm = [''openai'' \<mapsto> (new_health ''openai'' None 0 None)\<lparr>ph_disabled := True\<rparr>];
       rq = \<lparr>rq_chain_id = None, rq_provider_id = None, rq_auth_profile_id = None, rq_session_id = None,
             rq_model_id = None, rq_allow_disabled = False, rq_allow_cooling = False\<rparr>
   in pick_candidate decimal_chrono 0 [c1, c2] [] pm rq = (Some c2, Some ''selected by fallback order'')
     \<and> \<not> provider_disabled (pm (cand_provider_id c2))"
proof -
  define c1 where "c1 = \<lparr>cand_provider_id = ''openai'', cand_auth_profile_id = None,
    cand_priority = 1, cand_reason = None\<rparr>"
  define c2 where "c2 = \<lparr>cand_provider_id = ''groq'', cand_auth_profile_id = None,
    cand_priority = 5, cand_reason = None\<rparr>"
  define pm where "pm = [''openai'' \<mapsto> (new_health ''openai'' None 0 None)\<lparr>ph_disabled := True\<rparr>]"
  define rq where "rq = \<lparr>rq_chain_id = None, rq_provider_id = None, rq_auth_profile_id = None,
    rq_session_id = None, rq_model_id = None, rq_allow_disabled = False, rq_allow_cooling = False\<rparr>"
  have p: "pick_candidate decimal_chrono 0 [c1, c2] [] pm rq = (Some c2, Some ''selected by fallback order'')"
    by (simp add: pick_candidate_def find_by_def rq_def c1_def c2_def pm_def eligible_def
        candidate_rank_def provider_disabled_def provider_cooling_def new_health_def is_cooling_def
        insort_key.simps)
  from fallback_selection [OF p] p show ?thesis
    unfolding Let_def c1_def c2_def pm_def rq_def by simp
qed

text \<open>
  When selection fails. Selection returns no candidate exactly when the request's session
  pin, provider and auth profile match no candidate and no candidate is eligible.
\<close>

theorem selection_none_iff:
  "fst (pick_candidate ch now cs ps pm rq) = None \<longleftrightarrow>
     (\<forall>c \<in> set cs. \<not> eligible ch now pm rq c
        \<and> (\<forall>sid. rq_session_id rq = Some sid \<longrightarrow> \<not> pinned_to ps sid c)
        \<and> rq_provider_id rq \<noteq> Some (cand_provider_id c)
        \<and> (rq_auth_profile_id rq = None \<or> rq_auth_profile_id rq \<noteq> cand_auth_profile_id c))"
proof -
  let ?s = "sort_key (candidate_rank ch now pm) cs"
  have "fst (pick_candidate ch now cs ps pm rq) = None \<longleftrightarrow>
      find_by (\<lambda>c sid. pinned_to ps sid c) (rq_session_id rq) ?s = None
    \<and> find_by (\<lambda>c pid. cand_provider_id c = pid) (rq_provider_id rq) ?s = None
    \<and> find_by (\<lambda>c aid. cand_auth_profile_id c = Some aid) (rq_auth_profile_id rq) ?s = None
    \<and> find (eligible ch now pm rq) ?s = None"
    by (auto simp: pick_candidate_def Let_def split: option.splits)
  also have "\<dots> \<longleftrightarrow> (\<forall>c \<in> set cs. \<not> eligible ch now pm rq c
        \<and> (\<forall>sid. rq_session_id rq = Some sid \<longrightarrow> \<not> pinned_to ps sid c)
        \<and> rq_provider_id rq \<noteq> Some (cand_provider_id c)
        \<and> (rq_auth_profile_id rq = None \<or> rq_auth_profile_id rq \<noteq> cand_auth_profile_id c))"
    by (auto simp: find_by_def find_None split: option.splits)
  finally show ?thesis .
qed

theorem selection_none_iff_witness:
  "let c = \<lparr>cand_provider_id = ''openai'', cand_auth_profile_id = None, cand_priority = 1, cand_reason = None\<rparr>;
       pm = [''openai'' \<mapsto> (new_health ''openai'' None 0 None)\<lparr>ph_disabled := True\<rparr>];
       rq = \<lparr>rq_chain_id = None, rq_provider_id = None, rq_auth_profile_id = None, rq_session_id = None,
             rq_model_id = None, rq_allow_disabled = False, rq_allow_cooling = False\<rparr>
   in fst (pick_candidate decimal_chrono 0 [c] [] pm rq) = None
     \<and> fst (pick_candidate decimal_chrono 0 [c] [] pm (rq\<lparr>rq_allow_disabled := True\<rparr>)) \<noteq> None"
  unfolding Let_def selection_none_iff
  by (simp add: eligible_def provider_disabled_def provider_cooling_def is_cooling_def new_health_def)

end
