(* ===== verification/Failover_Plane.thy ===== *)
theory Failover_Plane
  imports Model_Failover
begin

text \<open>
  \<open>ModelFailoverControlPlane\<close> of \<open>core/model/model_failover.rs\<close>: the handlers over the
  three stored documents. \<open>fo_env\<close> holds what is not part of the source: the installed
  cipher, chrono and the three serde codecs. A handler's instants are its readings of the
  clock: \<open>now\<close> where it builds the record, \<open>saved\<close> where the store stamps the row;
  \<open>fresh\<close> is the identifier \<open>Uuid::new_v4\<close> returns.
\<close>

section \<open>The environment and the stored documents\<close>

record 'b fo_env =
  env_km :: "'b aead option"
  env_chrono :: chrono
  env_profiles :: "(auth_profile list, 'b) codec"
  env_health :: "(provider_health list, 'b) codec"
  env_chains :: "(fallback_chain list, 'b) codec"

definition env_ok :: "'b fo_env \<Rightarrow> bool" where
  "env_ok env \<longleftrightarrow> km_ok (env_km env) \<and> chrono_ok (env_chrono env) \<and> codec_ok (env_profiles env)
     \<and> codec_ok (env_health env) \<and> codec_ok (env_chains env)"

text \<open>How the error texts of \<open>load_json\<close> and \<open>save_json\<close> name this component's payloads.\<close>

definition FAILOVER_PAYLOAD :: string where "FAILOVER_PAYLOAD = ''model failover''"

abbreviation load_profiles :: "'b fo_env \<Rightarrow> ('b kv_db, auth_profile list) io" where
  "load_profiles env \<equiv> load_list FAILOVER_PAYLOAD (env_km env) (env_profiles env) normalize_profile AUTH_PROFILES_KEY"

abbreviation load_health :: "'b fo_env \<Rightarrow> ('b kv_db, provider_health list) io" where
  "load_health env \<equiv> load_list FAILOVER_PAYLOAD (env_km env) (env_health env) normalize_health PROVIDER_HEALTH_KEY"

abbreviation load_chains :: "'b fo_env \<Rightarrow> ('b kv_db, fallback_chain list) io" where
  "load_chains env \<equiv> load_list FAILOVER_PAYLOAD (env_km env) (env_chains env) normalize_chain FALLBACK_CHAINS_KEY"

abbreviation save_profiles :: "'b fo_env \<Rightarrow> int \<Rightarrow> auth_profile list \<Rightarrow> ('b kv_db, unit) io" where
  "save_profiles env saved \<equiv>
     save_json FAILOVER_PAYLOAD (env_km env) (env_profiles env) (to_rfc3339 (env_chrono env) saved) AUTH_PROFILES_KEY"

abbreviation save_health :: "'b fo_env \<Rightarrow> int \<Rightarrow> provider_health list \<Rightarrow> ('b kv_db, unit) io" where
  "save_health env saved \<equiv>
     save_json FAILOVER_PAYLOAD (env_km env) (env_health env) (to_rfc3339 (env_chrono env) saved) PROVIDER_HEALTH_KEY"

abbreviation save_chains :: "'b fo_env \<Rightarrow> int \<Rightarrow> fallback_chain list \<Rightarrow> ('b kv_db, unit) io" where
  "save_chains env saved \<equiv>
     save_json FAILOVER_PAYLOAD (env_km env) (env_chains env) (to_rfc3339 (env_chrono env) saved) FALLBACK_CHAINS_KEY"

text \<open>What each document reads as.\<close>

abbreviation profiles_of :: "'b fo_env \<Rightarrow> 'b kv_db \<Rightarrow> auth_profile list option" where
  "profiles_of env \<equiv> list_view (env_km env) (env_profiles env) normalize_profile AUTH_PROFILES_KEY"

abbreviation health_of :: "'b fo_env \<Rightarrow> 'b kv_db \<Rightarrow> provider_health list option" where
  "health_of env \<equiv> list_view (env_km env) (env_health env) normalize_health PROVIDER_HEALTH_KEY"

abbreviation chains_of :: "'b fo_env \<Rightarrow> 'b kv_db \<Rightarrow> fallback_chain list option" where
  "chains_of env \<equiv> list_view (env_km env) (env_chains env) normalize_chain FALLBACK_CHAINS_KEY"

section \<open>Auth profiles\<close>

definition list_plane :: "'b fo_env \<Rightarrow> int \<Rightarrow> ('b kv_db, failover_list_response) io" where
  "list_plane env now =
     bindE (load_profiles env) (\<lambda>profiles.
     bindE (load_health env) (\<lambda>health.
     bindE (load_chains env) (\<lambda>chns.
       ret \<lparr>ls_summary = \<lparr>sum_auth_profiles = length profiles, sum_providers = length health,
              sum_disabled_providers = length (filter ph_disabled health),
              sum_cooling_providers = length (filter (is_cooling (env_chrono env) now) health),
              sum_chains = length chns, sum_session_pins = profile_pins_count profiles\<rparr>,
            ls_auth_profiles = profiles, ls_provider_health = health, ls_fallback_chains = chns\<rparr>)))"

definition updated_profile :: "chrono \<Rightarrow> int \<Rightarrow> auth_profile_upsert \<Rightarrow> auth_profile \<Rightarrow> auth_profile" where
  "updated_profile ch now inp p =
    (let enabled = (case ai_enabled inp of Some b \<Rightarrow> b | None \<Rightarrow> ap_enabled p) in
     normalize_profile (p\<lparr>
       ap_name := (case ai_name inp of Some n \<Rightarrow> n | None \<Rightarrow> ap_name p),
       ap_provider_id := ai_provider_id inp,
       ap_provider_kind := or_else (ai_provider_kind inp) (ap_provider_kind p),
       ap_base_url := or_else (ai_base_url inp) (ap_base_url p),
       ap_model_id := or_else (ai_model_id inp) (ap_model_id p),
       ap_credential_ref := or_else (ai_credential_ref inp) (ap_credential_ref p),
       ap_enabled := enabled,
       ap_priority := (case ai_priority inp of Some n \<Rightarrow> n | None \<Rightarrow> ap_priority p),
       ap_last_used_at := (if ai_last_used_at inp \<noteq> None then ai_last_used_at inp
          else if ap_last_used_at p = None \<and> enabled then Some (to_rfc3339 ch now)
          else ap_last_used_at p),
       ap_last_error := or_else (ai_last_error inp) (ap_last_error p),
       ap_session_pin := or_else (ai_session_pin inp) (ap_session_pin p),
       ap_tags := (if ai_tags inp \<noteq> [] then ai_tags inp else ap_tags p),
       ap_metadata := or_else (ai_metadata inp) (ap_metadata p)\<rparr>))"

definition created_profile :: "chrono \<Rightarrow> int \<Rightarrow> string \<Rightarrow> auth_profile_upsert \<Rightarrow> auth_profile" where
  "created_profile ch now pid inp = normalize_profile \<lparr>
     ap_id = pid,
     ap_name = (case ai_name inp of Some n \<Rightarrow> n | None \<Rightarrow> ''Auth profile''),
     ap_provider_id = ai_provider_id inp,
     ap_provider_kind = ai_provider_kind inp,
     ap_base_url = ai_base_url inp,
     ap_model_id = ai_model_id inp,
     ap_credential_ref = ai_credential_ref inp,
     ap_enabled = (case ai_enabled inp of Some b \<Rightarrow> b | None \<Rightarrow> True),
     ap_priority = (case ai_priority inp of Some n \<Rightarrow> n | None \<Rightarrow> 100),
     ap_last_used_at = or_else (ai_last_used_at inp) (Some (to_rfc3339 ch now)),
     ap_last_error = ai_last_error inp,
     ap_session_pin = ai_session_pin inp,
     ap_tags = ai_tags inp,
     ap_metadata = ai_metadata inp\<rparr>"

text \<open>The identifier an upsert works on: the trimmed one of the input, or a fresh one.\<close>

definition upsert_id :: "string \<Rightarrow> string option \<Rightarrow> string" where
  "upsert_id fresh given = (case trim_opt given of Some i \<Rightarrow> i | None \<Rightarrow> fresh)"

definition upsert_auth_profile ::
    "'b fo_env \<Rightarrow> int \<Rightarrow> int \<Rightarrow> string \<Rightarrow> auth_profile_upsert \<Rightarrow> ('b kv_db, auth_profile) io" where
  "upsert_auth_profile env now saved fresh inp =
     rmw (load_profiles env) (save_profiles env saved) (\<lambda>profiles.
       let pid = upsert_id fresh (ai_id inp);
           existing = position (\<lambda>p. ap_id p = pid) profiles;
           profile = (case existing of
              Some i \<Rightarrow> updated_profile (env_chrono env) now inp (profiles ! i)
            | None \<Rightarrow> created_profile (env_chrono env) now pid inp)
       in Store (put_at existing profile profiles) profile)"

definition disable_auth_profile ::
    "'b fo_env \<Rightarrow> int \<Rightarrow> string \<Rightarrow> bool \<Rightarrow> ('b kv_db, auth_profile option) io" where
  "disable_auth_profile env saved pid disabled =
     rmw (load_profiles env) (save_profiles env saved) (\<lambda>profiles.
       case position (\<lambda>p. ap_id p = pid) profiles of
         None \<Rightarrow> Keep None
       | Some i \<Rightarrow>
          (let p = (profiles ! i)\<lparr>ap_enabled := \<not> disabled\<rparr>;
               p' = normalize_profile (if disabled then p\<lparr>ap_last_error := Some ''disabled''\<rparr> else p)
           in Store (profiles[i := p']) (Some p')))"

definition clear_default_flag :: "json option \<Rightarrow> json option" where
  "clear_default_flag meta = map_option (json_insert ''is_default'' (JBool False)) meta"

definition set_default_flag :: "json option \<Rightarrow> json option" where
  "set_default_flag meta =
     Some (json_insert ''is_default'' (JBool True) (case meta of Some j \<Rightarrow> j | None \<Rightarrow> JObj []))"

definition demote_profile :: "string \<Rightarrow> auth_profile \<Rightarrow> auth_profile" where
  "demote_profile provider p = (if ap_provider_id p = provider
     then p\<lparr>ap_priority := max (ap_priority p) 100, ap_metadata := clear_default_flag (ap_metadata p)\<rparr>
     else p)"

definition set_default_auth_profile ::
    "'b fo_env \<Rightarrow> int \<Rightarrow> string \<Rightarrow> ('b kv_db, auth_profile option) io" where
  "set_default_auth_profile env saved pid =
     rmw (load_profiles env) (save_profiles env saved) (\<lambda>profiles.
       case position (\<lambda>p. ap_id p = pid) profiles of
         None \<Rightarrow> Keep None
       | Some i \<Rightarrow>
          (let demoted = map (demote_profile (ap_provider_id (profiles ! i))) profiles;
               p = (demoted ! i)\<lparr>ap_priority := 0\<rparr>;
               selected = normalize_profile (p\<lparr>ap_metadata := set_default_flag (ap_metadata p)\<rparr>)
           in Store (demoted[i := selected]) (Some selected)))"

definition rotate_choice :: "auth_profile list \<Rightarrow> auth_profile \<Rightarrow> auth_profile option" where
  "rotate_choice profiles current =
     find (\<lambda>p. ap_id p \<noteq> ap_id current)
       (sort_key ap_priority
         (filter (\<lambda>p. ap_provider_id p = ap_provider_id current \<and> ap_enabled p) profiles))"

definition rotate_auth_profile :: "'b fo_env \<Rightarrow> string \<Rightarrow> ('b kv_db, selection_result) io" where
  "rotate_auth_profile env pid =
     bindE (load_profiles env) (\<lambda>profiles.
       case find (\<lambda>p. ap_id p = pid) profiles of
         None \<Rightarrow> ret (default_selection_result\<lparr>rs_blocked := True,
                   rs_blocked_reason := Some ''Auth profile not found.''\<rparr>)
       | Some current \<Rightarrow>
          (case rotate_choice profiles current of
             Some nxt \<Rightarrow> ret \<lparr>rs_matched_chain_id = None,
               rs_selected_provider_id = Some (ap_provider_id nxt),
               rs_selected_auth_profile_id = Some (ap_id nxt),
               rs_ordered_candidates = [\<lparr>cand_provider_id = ap_provider_id nxt,
                  cand_auth_profile_id = Some (ap_id nxt), cand_priority = ap_priority nxt,
                  cand_reason = Some ''Rotated to the next enabled profile for the provider.''\<rparr>],
               rs_blocked = False, rs_blocked_reason = None,
               rs_reason = Some ''Rotated to the next available auth profile.'',
               rs_provider_health = None, rs_auth_profile = Some nxt\<rparr>
           | None \<Rightarrow> ret \<lparr>rs_matched_chain_id = None,
               rs_selected_provider_id = Some (ap_provider_id current),
               rs_selected_auth_profile_id = Some (ap_id current),
               rs_ordered_candidates = [\<lparr>cand_provider_id = ap_provider_id current,
                  cand_auth_profile_id = Some (ap_id current), cand_priority = ap_priority current,
                  cand_reason = Some ''No alternative enabled profile was available.''\<rparr>],
               rs_blocked = True,
               rs_blocked_reason = Some ''No alternative enabled profile was available.'',
               rs_reason = Some ''Rotation could not find a different profile.'',
               rs_provider_health = None, rs_auth_profile = Some current\<rparr>))"

section \<open>Provider health\<close>

definition upsert_provider_health ::
    "'b fo_env \<Rightarrow> int \<Rightarrow> int \<Rightarrow> provider_health_upsert \<Rightarrow> ('b kv_db, provider_health) io" where
  "upsert_provider_health env now saved inp =
     bindE (load_profiles env) (\<lambda>profiles.
       rmw (load_health env) (save_health env saved) (\<lambda>health.
         let existing = position (\<lambda>r. ph_provider_id r = hi_provider_id inp) health;
             record = merge_provider_record (env_chrono env) now (map_option ((!) health) existing) inp
                        (profile_pins_count profiles)
         in Store (put_at existing record health) record))"

definition disable_provider ::
    "'b fo_env \<Rightarrow> int \<Rightarrow> string \<Rightarrow> bool \<Rightarrow> ('b kv_db, provider_health option) io" where
  "disable_provider env saved pid disabled =
     rmw (load_health env) (save_health env saved) (\<lambda>health.
       case position (\<lambda>r. ph_provider_id r = pid) health of
         None \<Rightarrow> Keep None
       | Some i \<Rightarrow>
          (let record = normalize_health ((health ! i)\<lparr>ph_disabled := disabled, ph_enabled := \<not> disabled,
                 ph_last_error := (if disabled then Some ''disabled'' else None)\<rparr>)
           in Store (health[i := record]) (Some record)))"

text \<open>
  The record after a health event. \<open>None\<close>: adding the cooldown to the current instant
  panics.
\<close>

definition success_update :: "chrono \<Rightarrow> int \<Rightarrow> provider_health \<Rightarrow> provider_health" where
  "success_update ch now r = r\<lparr>ph_success_count := sat_add_u64 (ph_success_count r) 1,
     ph_last_success_at := Some (to_rfc3339 ch now), ph_last_error := None, ph_cooldown_until := None\<rparr>"

definition failure_update ::
    "chrono \<Rightarrow> int \<Rightarrow> int \<Rightarrow> provider_health_event \<Rightarrow> provider_health \<Rightarrow> provider_health option" where
  "failure_update ch now now' ev r =
    (let r1 = r\<lparr>ph_failure_count := sat_add_u64 (ph_failure_count r) 1,
         ph_last_failure_at := Some (to_rfc3339 ch now),
         ph_last_error := or_else (he_error ev) (Some ''provider failure'')\<rparr>
     in case he_cooldown_secs ev of
          None \<Rightarrow> Some r1
        | Some n \<Rightarrow> (if n > 0
            then map_option (\<lambda>u. r1\<lparr>ph_cooldown_until := Some (to_rfc3339 ch u)\<rparr>) (plus_secs ch now' n)
            else Some r1))"

definition health_event_record ::
    "chrono \<Rightarrow> int \<Rightarrow> int \<Rightarrow> provider_health option \<Rightarrow> provider_health_event \<Rightarrow> nat \<Rightarrow> provider_health option" where
  "health_event_record ch now now' existing ev pins =
    (let r = (case existing of Some r \<Rightarrow> r
              | None \<Rightarrow> new_health (he_provider_id ev) (he_provider_kind ev) pins (he_metadata ev));
         r1 = r\<lparr>ph_provider_kind := or_else (he_provider_kind ev) (ph_provider_kind r)\<rparr>;
         r2 = (case he_disabled ev of None \<Rightarrow> r1
               | Some b \<Rightarrow> r1\<lparr>ph_disabled := b, ph_enabled := \<not> b\<rparr>)
     in map_option (\<lambda>r3. normalize_health (r3\<lparr>
            ph_health_note := (case he_note ev of None \<Rightarrow> ph_health_note r3
               | Some n \<Rightarrow> sanitize_text (Some n)),
            ph_metadata := or_else (he_metadata ev) (ph_metadata r3),
            ph_session_pin_count := pins\<rparr>))
          (if he_success ev then Some (success_update ch now r2) else failure_update ch now now' ev r2))"

definition record_health ::
    "'b fo_env \<Rightarrow> int \<Rightarrow> int \<Rightarrow> int \<Rightarrow> provider_health_event \<Rightarrow> ('b kv_db, provider_health) io" where
  "record_health env now now' saved ev =
     bindE (load_profiles env) (\<lambda>profiles.
       rmw (load_health env) (save_health env saved) (\<lambda>health.
         let existing = position (\<lambda>r. ph_provider_id r = he_provider_id ev) health
         in case health_event_record (env_chrono env) now now' (map_option ((!) health) existing) ev
                   (profile_pins_count profiles) of
              None \<Rightarrow> Abort (Panicked ''cooldown out of range'')
            | Some record \<Rightarrow> Store (put_at existing record health) record))"

definition cooldown_target :: "string option \<Rightarrow> provider_health \<Rightarrow> bool" where
  "cooldown_target target r \<longleftrightarrow>
     (case target of None \<Rightarrow> True | Some t \<Rightarrow> ph_provider_id r = t) \<and> ph_cooldown_until r \<noteq> None"

definition clear_cooldowns :: "'b fo_env \<Rightarrow> int \<Rightarrow> string option \<Rightarrow> ('b kv_db, nat) io" where
  "clear_cooldowns env saved target =
     rmw (load_health env) (save_health env saved) (\<lambda>health.
       Store (map (\<lambda>r. if cooldown_target target r then r\<lparr>ph_cooldown_until := None\<rparr> else r) health)
             (length (filter (cooldown_target target) health)))"

section \<open>Fallback chains and selection\<close>

definition updated_chain :: "fallback_chain_upsert \<Rightarrow> fallback_chain \<Rightarrow> fallback_chain" where
  "updated_chain inp c = normalize_chain (c\<lparr>
     fc_name := (case ci_name inp of Some n \<Rightarrow> n | None \<Rightarrow> fc_name c),
     fc_enabled := (case ci_enabled inp of Some b \<Rightarrow> b | None \<Rightarrow> fc_enabled c),
     fc_ordered_candidates := (if ci_ordered_candidates inp \<noteq> []
        then ci_ordered_candidates inp else fc_ordered_candidates c),
     fc_session_pin := or_else (ci_session_pin inp) (fc_session_pin c),
     fc_notes := or_else (ci_notes inp) (fc_notes c),
     fc_metadata := or_else (ci_metadata inp) (fc_metadata c)\<rparr>)"

definition created_chain :: "string \<Rightarrow> fallback_chain_upsert \<Rightarrow> fallback_chain" where
  "created_chain cid inp = normalize_chain \<lparr>fc_id = cid,
     fc_name = (case ci_name inp of Some n \<Rightarrow> n | None \<Rightarrow> ''Fallback chain''),
     fc_enabled = (case ci_enabled inp of Some b \<Rightarrow> b | None \<Rightarrow> True),
     fc_ordered_candidates = ci_ordered_candidates inp,
     fc_session_pin = ci_session_pin inp, fc_notes = ci_notes inp,
     fc_metadata = ci_metadata inp\<rparr>"

definition upsert_fallback_chain ::
    "'b fo_env \<Rightarrow> int \<Rightarrow> string \<Rightarrow> fallback_chain_upsert \<Rightarrow> ('b kv_db, fallback_chain) io" where
  "upsert_fallback_chain env saved fresh inp =
     rmw (load_chains env) (save_chains env saved) (\<lambda>chns.
       let cid = upsert_id fresh (ci_id inp);
           existing = position (\<lambda>c. fc_id c = cid) chns;
           chain = (case existing of
              Some i \<Rightarrow> updated_chain inp (chns ! i)
            | None \<Rightarrow> created_chain cid inp)
       in Store (put_at existing chain chns) chain)"

definition selection_outcome ::
    "chrono \<Rightarrow> int \<Rightarrow> fallback_chain list \<Rightarrow> auth_profile list \<Rightarrow> provider_health list
     \<Rightarrow> selection_request \<Rightarrow> selection_result" where
  "selection_outcome ch now chns profiles health rq =
    (let pm = provider_map health in
     case pick_chain chns rq of
       None \<Rightarrow> default_selection_result\<lparr>rs_blocked := True,
          rs_blocked_reason := Some ''No enabled fallback chain found.''\<rparr>
     | Some chain \<Rightarrow>
        (let candidates = chain_candidates chain in
         case pick_candidate ch now candidates profiles pm rq of
           (None, reason) \<Rightarrow> default_selection_result\<lparr>
              rs_matched_chain_id := Some (fc_id chain), rs_ordered_candidates := candidates,
              rs_blocked := True,
              rs_blocked_reason := Some ''No eligible provider candidate was available.'',
              rs_reason := reason\<rparr>
         | (Some c, reason) \<Rightarrow> \<lparr>rs_matched_chain_id = Some (fc_id chain),
              rs_selected_provider_id = Some (cand_provider_id c),
              rs_selected_auth_profile_id = cand_auth_profile_id c,
              rs_ordered_candidates = candidates,
              rs_blocked = False, rs_blocked_reason = None, rs_reason = reason,
              rs_provider_health = pm (cand_provider_id c),
              rs_auth_profile = (case cand_auth_profile_id c of None \<Rightarrow> None
                 | Some aid \<Rightarrow> find (\<lambda>p. ap_id p = aid) profiles)\<rparr>))"

definition select_candidate ::
    "'b fo_env \<Rightarrow> int \<Rightarrow> selection_request \<Rightarrow> ('b kv_db, selection_result) io" where
  "select_candidate env now rq =
     bindE (load_chains env) (\<lambda>chns.
     bindE (load_profiles env) (\<lambda>profiles.
     bindE (load_health env) (\<lambda>health.
       ret (selection_outcome (env_chrono env) now chns profiles health rq))))"

section \<open>The control plane as a machine\<close>

text \<open>
  One call of a handler, with its clock readings and the identifier its generator returned.
\<close>

datatype fo_command =
    ListPlane
  | UpsertProfile string auth_profile_upsert
  | DisableProfile string bool
  | SetDefault string
  | RotateProfile string
  | UpsertHealth provider_health_upsert
  | DisableProvider string bool
  | RecordHealth provider_health_event
  | ClearCooldowns "string option"
  | UpsertChain string fallback_chain_upsert
  | SelectCandidate selection_request

definition forget :: "('s, 'a) io \<Rightarrow> ('s, unit) io" where
  "forget m = map_io (\<lambda>_. ()) m"

fun fo_exec :: "'b fo_env \<Rightarrow> int \<Rightarrow> int \<Rightarrow> int \<Rightarrow> fo_command \<Rightarrow> ('b kv_db, unit) io" where
  "fo_exec env now now' saved ListPlane = forget (list_plane env now)"
| "fo_exec env now now' saved (UpsertProfile fresh inp) = forget (upsert_auth_profile env now saved fresh inp)"
| "fo_exec env now now' saved (DisableProfile pid b) = forget (disable_auth_profile env saved pid b)"
| "fo_exec env now now' saved (SetDefault pid) = forget (set_default_auth_profile env saved pid)"
| "fo_exec env now now' saved (RotateProfile pid) = forget (rotate_auth_profile env pid)"
| "fo_exec env now now' saved (UpsertHealth inp) = forget (upsert_provider_health env now saved inp)"
| "fo_exec env now now' saved (DisableProvider pid b) = forget (disable_provider env saved pid b)"
| "fo_exec env now now' saved (RecordHealth ev) = forget (record_health env now now' saved ev)"
| "fo_exec env now now' saved (ClearCooldowns pid) = forget (clear_cooldowns env saved pid)"
| "fo_exec env now now' saved (UpsertChain fresh inp) = forget (upsert_fallback_chain env saved fresh inp)"
| "fo_exec env now now' saved (SelectCandidate rq) = forget (select_candidate env now rq)"

text \<open>
  Generated identifiers carry no white space. Whether the provider a health command names is trimmed is
  up to its caller: the health handlers compare the identifier as given with normalised ones
  (\<open>untrimmed_health_shadows\<close>).
\<close>

fun fresh_trimmed :: "fo_command \<Rightarrow> bool" where
  "fresh_trimmed (UpsertProfile fresh inp) = (trim fresh = fresh)"
| "fresh_trimmed (UpsertChain fresh inp) = (trim fresh = fresh)"
| "fresh_trimmed _ = True"

fun health_trimmed :: "fo_command \<Rightarrow> bool" where
  "health_trimmed (UpsertHealth inp) = (trim (hi_provider_id inp) = hi_provider_id inp)"
| "health_trimmed (RecordHealth ev) = (trim (he_provider_id ev) = he_provider_id ev)"
| "health_trimmed _ = True"

definition keyed :: "('a \<Rightarrow> string) \<Rightarrow> ('a \<Rightarrow> 'a) \<Rightarrow> 'a list \<Rightarrow> bool" where
  "keyed key norm xs \<longleftrightarrow> distinct (map key xs) \<and> (\<forall>x \<in> set xs. norm x = x)"

definition entry :: "('a \<Rightarrow> string) \<Rightarrow> 'a list \<Rightarrow> string \<Rightarrow> 'a option" where
  "entry key xs i = find (\<lambda>x. key x = i) xs"

definition plane_ok :: "'b fo_env \<Rightarrow> 'b kv_db \<Rightarrow> bool" where
  "plane_ok env d \<longleftrightarrow> (\<exists>ps hs cs.
     profiles_of env d = Some ps \<and> keyed ap_id normalize_profile ps \<and>
     health_of env d = Some hs \<and> keyed ph_provider_id normalize_health hs \<and>
     chains_of env d = Some cs \<and> keyed fc_id normalize_chain cs)"

text \<open>
  What holds whatever the callers name: the documents can be read and their records are normalised, and
  profiles and chains have one record per identifier.
\<close>

definition documents_ok :: "'b fo_env \<Rightarrow> 'b kv_db \<Rightarrow> bool" where
  "documents_ok env d \<longleftrightarrow> (\<exists>ps hs cs.
     profiles_of env d = Some ps \<and> keyed ap_id normalize_profile ps \<and>
     health_of env d = Some hs \<and> list_all (\<lambda>h. normalize_health h = h) hs \<and>
     chains_of env d = Some cs \<and> keyed fc_id normalize_chain cs)"

text \<open>
  The states commands lead to; the flag says that every health command so far named its provider
  without surrounding white space.
\<close>

inductive plane_reach :: "'b fo_env \<Rightarrow> 'b kv_db \<Rightarrow> bool \<Rightarrow> 'b kv_db \<Rightarrow> bool" for env d where
  start: "plane_reach env d True d"
| command: "plane_reach env d trimmed d1 \<Longrightarrow> fresh_trimmed cmd \<Longrightarrow>
    fo_exec env now now' saved cmd d1 = (r, d2) \<Longrightarrow> plane_reach env d (trimmed \<and> health_trimmed cmd) d2"

section \<open>Keyed documents\<close>

text \<open>
  The three documents are lists of normalised records with one identifier each; seen through
  \<open>entry\<close>, storing a record is a map update.
\<close>

locale keyed_document =
  fixes norm :: "'a \<Rightarrow> 'a" and key :: "'a \<Rightarrow> string"
  assumes norm_idem: "norm (norm x) = norm x" and norm_key: "key (norm x) = trim (key x)"
begin

lemma key_trimmed: "keyed key norm xs \<Longrightarrow> x \<in> set xs \<Longrightarrow> trim (key x) = key x"
  by (metis keyed_def norm_key)

lemma put_keyed:
  assumes "keyed key norm xs" and "norm x = x" and "key x = i"
  shows "keyed key norm (put_at (position (\<lambda>y. key y = i) xs) x xs)"
  using assms put_at_keys_distinct [of key xs x i] set_update_subset_insert
  by (fastforce simp: keyed_def put_at_def split: option.splits)

lemma put_entry:
  assumes "key x = i"
  shows "entry key (put_at (position (\<lambda>y. key y = i) xs) x xs) = (entry key xs)(i \<mapsto> x)"
proof
  fix j
  show "entry key (put_at (position (\<lambda>y. key y = i) xs) x xs) j = ((entry key xs)(i \<mapsto> x)) j"
    using assms put_at_find_same [of key x i xs] put_at_find_other [of key x i j xs]
    by (cases "j = i") (simp_all add: entry_def)
qed

lemma update_keyed:
  "keyed key norm xs \<Longrightarrow> position (\<lambda>y. key y = i) xs = Some n \<Longrightarrow> norm x = x \<Longrightarrow> key x = i
    \<Longrightarrow> keyed key norm (xs[n := x])"
  using put_keyed [of xs x i] by (simp add: put_at_def)

lemma update_entry:
  "position (\<lambda>y. key y = i) xs = Some n \<Longrightarrow> key x = i \<Longrightarrow>
    entry key (xs[n := x]) = (entry key xs)(i \<mapsto> x)"
  using put_entry [of x i xs] by (simp add: put_at_def)

lemma map_keyed:
  "keyed key norm xs \<Longrightarrow> (\<And>x. x \<in> set xs \<Longrightarrow> key (f x) = key x \<and> norm (f x) = f x)
    \<Longrightarrow> keyed key norm (map f xs)"
  by (auto simp: keyed_def comp_def cong: map_cong)

lemma keyed_map_norm: "keyed key norm xs \<Longrightarrow> map norm xs = xs"
  by (simp add: keyed_def map_idI)

lemma position_entry: "position (\<lambda>y. key y = i) xs = None \<longleftrightarrow> entry key xs i = None"
  by (simp add: entry_def position_None find_None)

lemma position_entry_Some:
  "position (\<lambda>y. key y = i) xs = Some n \<Longrightarrow> entry key xs i = Some (xs ! n)"
  unfolding entry_def by (induction xs arbitrary: n) (auto split: if_splits)

lemma position_nth_entry: "map_option ((!) xs) (position (\<lambda>y. key y = i) xs) = entry key xs i"
  using position_entry [of i xs] position_entry_Some [of i xs]
  by (cases "position (\<lambda>y. key y = i) xs") auto

lemma entry_key: "entry key xs i = Some x \<Longrightarrow> key x = i \<and> x \<in> set xs"
  unfolding entry_def by (auto dest: find_SomeD)

lemma keyed_entry: "keyed key norm xs \<Longrightarrow> x \<in> set xs \<Longrightarrow> entry key xs (key x) = Some x"
  unfolding entry_def keyed_def by (induction xs) (auto simp: rev_image_eqI)

end

interpretation profile_doc: keyed_document normalize_profile ap_id
  by unfold_locales simp_all

interpretation health_doc: keyed_document normalize_health ph_provider_id
  by unfold_locales simp_all

interpretation chain_doc: keyed_document normalize_chain fc_id
  by unfold_locales simp_all

section \<open>One handler, one document\<close>

lemma key_names [simp]:
  "AUTH_PROFILES_KEY \<noteq> PROVIDER_HEALTH_KEY" "AUTH_PROFILES_KEY \<noteq> FALLBACK_CHAINS_KEY"
  "PROVIDER_HEALTH_KEY \<noteq> AUTH_PROFILES_KEY" "PROVIDER_HEALTH_KEY \<noteq> FALLBACK_CHAINS_KEY"
  "FALLBACK_CHAINS_KEY \<noteq> AUTH_PROFILES_KEY" "FALLBACK_CHAINS_KEY \<noteq> PROVIDER_HEALTH_KEY"
  by (simp_all add: AUTH_PROFILES_KEY_def PROVIDER_HEALTH_KEY_def FALLBACK_CHAINS_KEY_def)

lemma list_view_cong: "tables d' k = tables d k \<Longrightarrow> list_view km c norm k d' = list_view km c norm k d"
  by (simp add: list_view_def doc_view_def)

lemma list_view_frame: "other_keys k d' = other_keys k d \<Longrightarrow> k' \<noteq> k \<Longrightarrow>
    list_view km c norm k' d' = list_view km c norm k' d"
  by (rule list_view_cong) (metis other_keys_def fun_upd_other)

lemma load_list_frame: "load_list what km c norm k d = (r, d') \<Longrightarrow> tables d' = tables d"
  unfolding load_list_def by (auto elim!: map_io_cases dest: load_json_frame)

lemma rmw_tables_error:
  "rmw (load_list what km c norm k) (save_json what km c ts k) f d = (Inl e, d') \<Longrightarrow> tables d' = tables d"
  unfolding rmw_def
  by (erule bindE_cases)
    (auto split: decision.splits elim!: bindE_cases dest!: load_list_frame elim: save_json_cases)

lemma rmw_keyed:
  assumes "rmw (load_list what km c norm k) (save_json what km c ts k) f d = (r, d')"
    and "km_ok km" and "codec_ok c" and "list_view km c norm k d = Some xs" and "keyed key norm xs"
    and "\<And>v a. f xs = Store v a \<Longrightarrow> keyed key norm v"
  shows "\<exists>w. list_view km c norm k d' = Some w \<and> keyed key norm w"
  by (rule docs.rmw_invariant [OF assms(1,4), where P = "keyed key norm"])
    (use assms in \<open>auto simp: list_reload_ok keyed_def map_idI\<close>)

text \<open>What a handler that returned did: it kept the document, or stored a new one.\<close>

lemma rmw_returned:
  assumes "rmw (load_list what km c norm k) (save_json what km c ts k) f d = (Inr a, d')"
    and "km_ok km" and "codec_ok c" and "list_view km c norm k d = Some xs"
  shows "(f xs = Keep a \<and> list_view km c norm k d' = Some xs)
    \<or> (\<exists>v. f xs = Store v a \<and> list_view km c norm k d' = Some (map norm v))"
  by (rule docs.rmw_InrE [OF assms(1)]) (use assms in \<open>auto simp: list_reload_ok\<close>)

lemma forget_error: "forget m d = (Inl e, d') \<Longrightarrow> m d = (Inl e, d')"
  by (auto simp: forget_def elim!: map_io_cases)

lemma forget_cases:
  assumes "forget m d = (r, d')" obtains r' where "m d = (r', d')"
  using assms by (auto simp: forget_def elim!: map_io_cases)

lemmas handler_defs = upsert_auth_profile_def disable_auth_profile_def set_default_auth_profile_def
  upsert_provider_health_def disable_provider_def record_health_def clear_cooldowns_def
  upsert_fallback_chain_def

lemmas query_defs = list_plane_def rotate_auth_profile_def select_candidate_def

lemma query_frame:
  "list_plane env now d = (r1, d') \<Longrightarrow> tables d' = tables d"
  "rotate_auth_profile env pid d = (r2, d') \<Longrightarrow> tables d' = tables d"
  "select_candidate env now rq d = (r3, d') \<Longrightarrow> tables d' = tables d"
  unfolding query_defs
  by (auto elim!: bindE_cases dest!: load_list_frame split: option.splits)

lemma trim_upsert_id: "trim fresh = fresh \<Longrightarrow> trim (upsert_id fresh given) = upsert_id fresh given"
  by (auto simp: upsert_id_def trim_opt_def split: option.splits)

section \<open>What each handler stores\<close>

lemma profile_builders [simp]:
  "ap_id (updated_profile ch now inp p) = trim (ap_id p)"
  "ap_id (created_profile ch now pid inp) = trim pid"
  "normalize_profile (updated_profile ch now inp p) = updated_profile ch now inp p"
  "normalize_profile (created_profile ch now pid inp) = created_profile ch now pid inp"
  by (simp_all add: updated_profile_def created_profile_def Let_def)

lemma merge_provider_record_simps [simp]:
  "ph_provider_id (merge_provider_record ch now ex inp n) = trim (hi_provider_id inp)"
  "normalize_health (merge_provider_record ch now ex inp n) = merge_provider_record ch now ex inp n"
  by (simp_all add: merge_provider_record_def Let_def)

lemma health_event_record_simps:
  assumes "health_event_record ch now now' ex ev n = Some r"
    and "\<And>h. ex = Some h \<Longrightarrow> ph_provider_id h = he_provider_id ev"
  shows "ph_provider_id r = trim (he_provider_id ev)" and "normalize_health r = r"
  using assms
  by (auto simp: health_event_record_def Let_def success_update_def failure_update_def new_health_def
      split: if_splits option.splits)

lemma chain_builders [simp]:
  "fc_id (updated_chain inp c) = trim (fc_id c)" "fc_id (created_chain cid inp) = trim cid"
  "normalize_chain (updated_chain inp c) = updated_chain inp c"
  "normalize_chain (created_chain cid inp) = created_chain cid inp"
  by (simp_all add: updated_chain_def created_chain_def)

lemma position_SomeE:
  assumes "position P xs = Some i" shows "P (xs ! i)" and "i < length xs" and "xs ! i \<in> set xs"
  using position_SomeD [OF assms] by auto

definition stored_profile :: "chrono \<Rightarrow> int \<Rightarrow> string \<Rightarrow> auth_profile_upsert \<Rightarrow> auth_profile list \<Rightarrow> auth_profile" where
  "stored_profile ch now fresh inp ps = (let pid = upsert_id fresh (ai_id inp) in
     case entry ap_id ps pid of
       Some p \<Rightarrow> updated_profile ch now inp p
     | None \<Rightarrow> created_profile ch now pid inp)"

lemma upsert_profile_stores:
  "upsert_auth_profile env now saved fresh inp = rmw (load_profiles env) (save_profiles env saved) (\<lambda>ps.
     Store (put_at (position (\<lambda>p. ap_id p = upsert_id fresh (ai_id inp)) ps)
              (stored_profile (env_chrono env) now fresh inp ps) ps)
           (stored_profile (env_chrono env) now fresh inp ps))"
  unfolding upsert_auth_profile_def
  by (rule arg_cong [where f = "rmw (load_profiles env) (save_profiles env saved)"])
    (auto simp: fun_eq_iff stored_profile_def Let_def profile_doc.position_entry
      dest: profile_doc.position_entry_Some split: option.splits)

lemma stored_profile_simps:
  assumes "keyed ap_id normalize_profile ps" and "trim fresh = fresh"
  shows "ap_id (stored_profile ch now fresh inp ps) = upsert_id fresh (ai_id inp)"
    and "normalize_profile (stored_profile ch now fresh inp ps) = stored_profile ch now fresh inp ps"
  using assms profile_doc.entry_key
  by (auto simp: stored_profile_def Let_def trim_upsert_id split: option.splits)

lemma demote_profile_id [simp]: "ap_id (demote_profile prov p) = ap_id p"
  by (simp add: demote_profile_def)

lemma demote_profile_normal: "normalize_profile p = p \<Longrightarrow> normalize_profile (demote_profile prov p) = demote_profile prov p"
proof -
  assume "normalize_profile p = p"
  then have "normalize_profile p = p" .
  moreover have "normalize_profile (q\<lparr>ap_priority := n, ap_metadata := m\<rparr>)
      = (normalize_profile q)\<lparr>ap_priority := n, ap_metadata := m\<rparr>" for q n m
    by (simp add: normalize_profile_def)
  ultimately show ?thesis by (simp add: demote_profile_def)
qed

lemma cooldown_free_normal: "normalize_health h = h \<Longrightarrow>
    normalize_health (h\<lparr>ph_cooldown_until := None\<rparr>) = h\<lparr>ph_cooldown_until := None\<rparr>"
proof -
  assume h: "normalize_health h = h"
  have "normalize_health (h\<lparr>ph_cooldown_until := None\<rparr>) = (normalize_health h)\<lparr>ph_cooldown_until := None\<rparr>"
    by (simp add: normalize_health_def sanitize_text_def)
  with h show ?thesis by simp
qed

section \<open>Every command keeps the documents well formed\<close>

lemma set_default_keyed:
  assumes "keyed ap_id normalize_profile ps" and "position (\<lambda>p. ap_id p = pid) ps = Some i"
  shows "keyed ap_id normalize_profile ((map (demote_profile prov) ps)
    [i := normalize_profile (((map (demote_profile prov) ps) ! i)\<lparr>ap_priority := n, ap_metadata := m\<rparr>)])"
proof -
  note i = position_SomeE [OF assms(2)]
  have k: "keyed ap_id normalize_profile (map (demote_profile prov) ps)"
    by (rule profile_doc.map_keyed [OF assms(1)]) (use assms(1) in \<open>auto simp: keyed_def demote_profile_normal\<close>)
  have pos: "position (\<lambda>p. ap_id p = pid) (map (demote_profile prov) ps) = Some i"
    using assms(2) by (induction ps arbitrary: i) (auto split: if_splits)
  have "trim pid = pid" using profile_doc.key_trimmed [OF assms(1) i(3)] i(1) by simp
  with i show ?thesis by (intro profile_doc.update_keyed [OF k pos]) simp_all
qed

lemma profiles_command_keyed:
  assumes "keyed ap_id normalize_profile ps" and "env_ok env" and "profiles_of env d = Some ps"
  shows "upsert_auth_profile env now saved fresh inp d = (r1, d') \<Longrightarrow> trim fresh = fresh
      \<Longrightarrow> \<exists>w. profiles_of env d' = Some w \<and> keyed ap_id normalize_profile w"
    and "disable_auth_profile env saved pid b d = (r2, d')
      \<Longrightarrow> \<exists>w. profiles_of env d' = Some w \<and> keyed ap_id normalize_profile w"
    and "set_default_auth_profile env saved pid d = (r3, d')
      \<Longrightarrow> \<exists>w. profiles_of env d' = Some w \<and> keyed ap_id normalize_profile w"
proof -
  note km = assms(2) [unfolded env_ok_def, THEN conjunct1]
  have c: "codec_ok (env_profiles env)" using assms(2) by (simp add: env_ok_def)
  show "upsert_auth_profile env now saved fresh inp d = (r1, d') \<Longrightarrow> trim fresh = fresh
      \<Longrightarrow> \<exists>w. profiles_of env d' = Some w \<and> keyed ap_id normalize_profile w"
    unfolding upsert_profile_stores
    by (erule rmw_keyed [OF _ km c assms(3,1)])
      (use assms(1) in \<open>auto simp: stored_profile_simps intro: profile_doc.put_keyed\<close>)
  show "disable_auth_profile env saved pid b d = (r2, d')
      \<Longrightarrow> \<exists>w. profiles_of env d' = Some w \<and> keyed ap_id normalize_profile w"
    unfolding disable_auth_profile_def
  proof (erule rmw_keyed [OF _ km c assms(3,1)])
    fix v a
    assume "(case position (\<lambda>p. ap_id p = pid) ps of None \<Rightarrow> Keep None
       | Some i \<Rightarrow> (let p = (ps ! i)\<lparr>ap_enabled := \<not> b\<rparr>;
               p' = normalize_profile (if b then p\<lparr>ap_last_error := Some ''disabled''\<rparr> else p)
           in Store (ps[i := p']) (Some p'))) = Store v a"
    then obtain i where i: "position (\<lambda>p. ap_id p = pid) ps = Some i" and
      v: "v = ps[i := normalize_profile (if b then (ps ! i)\<lparr>ap_enabled := \<not> b, ap_last_error := Some ''disabled''\<rparr>
             else (ps ! i)\<lparr>ap_enabled := \<not> b\<rparr>)]"
      by (auto simp: Let_def split: option.splits if_splits)
    have "trim pid = pid"
      using profile_doc.key_trimmed [OF assms(1) position_SomeE(3) [OF i]] position_SomeE(1) [OF i] by simp
    with i v show "keyed ap_id normalize_profile v"
      by (auto intro!: profile_doc.update_keyed [OF assms(1) i] simp: position_SomeE(1) [OF i])
  qed
  show "set_default_auth_profile env saved pid d = (r3, d')
      \<Longrightarrow> \<exists>w. profiles_of env d' = Some w \<and> keyed ap_id normalize_profile w"
    unfolding set_default_auth_profile_def
    by (erule rmw_keyed [OF _ km c assms(3,1)])
      (use set_default_keyed [OF assms(1)] in \<open>auto simp: Let_def split: option.splits\<close>)
qed

text \<open>The health handlers load the profiles first, for the pin count.\<close>

lemma after_profiles:
  assumes "bindE (load_profiles env) g d = (r, d')" and "profiles_of env d = Some ps"
  obtains (failed) e where "r = Inl e" and "tables d' = tables d"
  | (loaded) d1 where "tables d1 = tables d" and "g ps d1 = (r, d')"
  using assms(1)
proof (cases rule: bindE_cases)
  case (stop e)
  with failed show ?thesis by (auto dest: load_list_frame)
next
  case (step qs d1)
  with docs.load_view assms(2) have "qs = ps" by fastforce
  with step loaded show ?thesis by (auto dest: load_list_frame)
qed

lemma cooldowns_cleared_keyed:
  assumes "keyed ph_provider_id normalize_health hs"
  shows "keyed ph_provider_id normalize_health
    (map (\<lambda>r. if cooldown_target target r then r\<lparr>ph_cooldown_until := None\<rparr> else r) hs)"
  by (rule health_doc.map_keyed [OF assms]) (use assms in \<open>auto simp: keyed_def cooldown_free_normal\<close>)

lemma health_command_keyed:
  fixes d :: "'b kv_db"
  assumes "keyed ph_provider_id normalize_health hs" and "env_ok env" and "health_of env d = Some hs"
    and "profiles_of env d = Some ps"
  shows "upsert_provider_health env now saved inp d = (r1, d') \<Longrightarrow> trim (hi_provider_id inp) = hi_provider_id inp
      \<Longrightarrow> \<exists>w. health_of env d' = Some w \<and> keyed ph_provider_id normalize_health w"
    and "record_health env now now' saved ev d = (r2, d') \<Longrightarrow> trim (he_provider_id ev) = he_provider_id ev
      \<Longrightarrow> \<exists>w. health_of env d' = Some w \<and> keyed ph_provider_id normalize_health w"
    and "disable_provider env saved pid b d = (r3, d')
      \<Longrightarrow> \<exists>w. health_of env d' = Some w \<and> keyed ph_provider_id normalize_health w"
    and "clear_cooldowns env saved target d = (r4, d')
      \<Longrightarrow> \<exists>w. health_of env d' = Some w \<and> keyed ph_provider_id normalize_health w"
proof -
  note km = assms(2) [unfolded env_ok_def, THEN conjunct1]
  have c: "codec_ok (env_health env)" using assms(2) by (simp add: env_ok_def)
  have same: "health_of env d1 = Some hs" if "tables d1 = tables d" for d1 :: "'b kv_db"
    using that assms(3) list_view_cong by metis
  show "upsert_provider_health env now saved inp d = (r1, d') \<Longrightarrow> trim (hi_provider_id inp) = hi_provider_id inp
      \<Longrightarrow> \<exists>w. health_of env d' = Some w \<and> keyed ph_provider_id normalize_health w"
    unfolding upsert_provider_health_def
  proof (erule after_profiles [OF _ assms(4)])
    fix e assume "tables d' = tables d"
    with same assms(1) show ?thesis by blast
  next
    fix d1 :: "'b kv_db" assume t: "tables d1 = tables d" and id: "trim (hi_provider_id inp) = hi_provider_id inp"
    assume h: "rmw (load_health env) (save_health env saved) (\<lambda>health.
         let existing = position (\<lambda>r. ph_provider_id r = hi_provider_id inp) health;
             record = merge_provider_record (env_chrono env) now (map_option ((!) health) existing) inp
                        (profile_pins_count ps)
         in Store (put_at existing record health) record) d1 = (r1, d')"
    show ?thesis
      by (rule rmw_keyed [OF h km c same [OF t] assms(1)])
        (use id in \<open>auto simp: Let_def intro!: health_doc.put_keyed [OF assms(1)]\<close>)
  qed
  show "record_health env now now' saved ev d = (r2, d') \<Longrightarrow> trim (he_provider_id ev) = he_provider_id ev
      \<Longrightarrow> \<exists>w. health_of env d' = Some w \<and> keyed ph_provider_id normalize_health w"
    unfolding record_health_def
  proof (erule after_profiles [OF _ assms(4)])
    fix e assume "tables d' = tables d"
    with same assms(1) show ?thesis by blast
  next
    fix d1 :: "'b kv_db" assume t: "tables d1 = tables d" and id: "trim (he_provider_id ev) = he_provider_id ev"
    let ?ex = "entry ph_provider_id hs (he_provider_id ev)"
    assume h: "rmw (load_health env) (save_health env saved) (\<lambda>health.
         let existing = position (\<lambda>r. ph_provider_id r = he_provider_id ev) health
         in case health_event_record (env_chrono env) now now' (map_option ((!) health) existing) ev
                   (profile_pins_count ps) of
              None \<Rightarrow> Abort (Panicked ''cooldown out of range'')
            | Some record \<Rightarrow> Store (put_at existing record health) record) d1 = (r2, d')"
    have rec: "ph_provider_id r = he_provider_id ev \<and> normalize_health r = r"
      if "health_event_record (env_chrono env) now now' ?ex ev (profile_pins_count ps) = Some r" for r
      using health_event_record_simps [OF that] id health_doc.entry_key by auto
    show ?thesis
      by (rule rmw_keyed [OF h km c same [OF t] assms(1)])
        (auto simp: Let_def health_doc.position_nth_entry split: option.splits
          intro!: health_doc.put_keyed [OF assms(1)] dest: rec)
  qed
  show "disable_provider env saved pid b d = (r3, d')
      \<Longrightarrow> \<exists>w. health_of env d' = Some w \<and> keyed ph_provider_id normalize_health w"
    unfolding disable_provider_def
  proof (erule rmw_keyed [OF _ km c assms(3,1)])
    fix v a
    assume "(case position (\<lambda>r. ph_provider_id r = pid) hs of None \<Rightarrow> Keep None
       | Some i \<Rightarrow> (let record = normalize_health ((hs ! i)\<lparr>ph_disabled := b, ph_enabled := \<not> b,
                 ph_last_error := (if b then Some ''disabled'' else None)\<rparr>)
           in Store (hs[i := record]) (Some record))) = Store v a"
    then obtain i where i: "position (\<lambda>r. ph_provider_id r = pid) hs = Some i" and
      v: "v = hs[i := normalize_health ((hs ! i)\<lparr>ph_disabled := b, ph_enabled := \<not> b,
                 ph_last_error := (if b then Some ''disabled'' else None)\<rparr>)]"
      by (auto simp: Let_def split: option.splits)
    have "trim pid = pid"
      using health_doc.key_trimmed [OF assms(1) position_SomeE(3) [OF i]] position_SomeE(1) [OF i] by simp
    with i v show "keyed ph_provider_id normalize_health v"
      by (auto intro!: health_doc.update_keyed [OF assms(1) i] simp: position_SomeE(1) [OF i])
  qed
  show "clear_cooldowns env saved target d = (r4, d')
      \<Longrightarrow> \<exists>w. health_of env d' = Some w \<and> keyed ph_provider_id normalize_health w"
    unfolding clear_cooldowns_def
    by (erule rmw_keyed [OF _ km c assms(3,1)]) (use cooldowns_cleared_keyed [OF assms(1)] in auto)
qed

lemma chains_command_keyed:
  assumes "keyed fc_id normalize_chain cs" and "env_ok env" and "chains_of env d = Some cs"
    and "upsert_fallback_chain env saved fresh inp d = (r, d')" and "trim fresh = fresh"
  shows "\<exists>w. chains_of env d' = Some w \<and> keyed fc_id normalize_chain w"
proof -
  have km: "km_ok (env_km env)" and c: "codec_ok (env_chains env)" using assms(2) by (simp_all add: env_ok_def)
  show ?thesis
  proof (rule rmw_keyed [OF assms(4) [unfolded upsert_fallback_chain_def Let_def] km c assms(3,1)])
    fix v a
    let ?i = "upsert_id fresh (ci_id inp)"
    let ?pos = "position (\<lambda>c. fc_id c = ?i) cs"
    let ?c = "case ?pos of Some i \<Rightarrow> updated_chain inp (cs ! i) | None \<Rightarrow> created_chain ?i inp"
    assume "Store (put_at ?pos ?c cs) ?c = Store v a"
    then have v: "v = put_at ?pos ?c cs" by blast
    have "fc_id ?c = ?i" "normalize_chain ?c = ?c"
      using trim_upsert_id [OF assms(5), of "ci_id inp"]
      by (auto split: option.splits dest!: position_SomeE(1))
    with v show "keyed fc_id normalize_chain v" by (simp only: chain_doc.put_keyed [OF assms(1)])
  qed
qed

text \<open>A handler over one document leaves what the other documents read as.\<close>

lemma profiles_command_frame:
  "upsert_auth_profile env now saved fresh inp d = (r1, d') \<Longrightarrow> health_of env d' = health_of env d \<and> chains_of env d' = chains_of env d"
  "disable_auth_profile env saved pid b d = (r2, d') \<Longrightarrow> health_of env d' = health_of env d \<and> chains_of env d' = chains_of env d"
  "set_default_auth_profile env saved pid d = (r3, d') \<Longrightarrow> health_of env d' = health_of env d \<and> chains_of env d' = chains_of env d"
  unfolding handler_defs by (auto dest!: docs.rmw_rest simp: list_view_frame)

lemma after_load_rmw_frame:
  "bindE (load_profiles env) (\<lambda>ps. rmw (load_health env) (save_health env saved) (f ps)) d = (r, d')
    \<Longrightarrow> other_keys PROVIDER_HEALTH_KEY d' = other_keys PROVIDER_HEALTH_KEY d"
  by (erule bindE_cases) (auto dest!: docs.rmw_rest load_list_frame simp: other_keys_def)

lemma health_command_frame:
  "upsert_provider_health env now saved inp d = (r1, d') \<Longrightarrow> profiles_of env d' = profiles_of env d \<and> chains_of env d' = chains_of env d"
  "record_health env now now' saved ev d = (r2, d') \<Longrightarrow> profiles_of env d' = profiles_of env d \<and> chains_of env d' = chains_of env d"
  "disable_provider env saved pid b d = (r3, d') \<Longrightarrow> profiles_of env d' = profiles_of env d \<and> chains_of env d' = chains_of env d"
  "clear_cooldowns env saved target d = (r4, d') \<Longrightarrow> profiles_of env d' = profiles_of env d \<and> chains_of env d' = chains_of env d"
  unfolding handler_defs
  by (auto dest!: docs.rmw_rest after_load_rmw_frame simp: list_view_frame)

lemma chains_command_frame:
  "upsert_fallback_chain env saved fresh inp d = (r, d') \<Longrightarrow> profiles_of env d' = profiles_of env d \<and> health_of env d' = health_of env d"
  unfolding handler_defs by (auto dest!: docs.rmw_rest simp: list_view_frame)

text \<open>
  The well-formedness of the plane survives every command: identifiers stay unique, records
  stay normalised, and each document stays readable.
\<close>

lemma plane_ok_frame: "plane_ok env d \<Longrightarrow> tables d' = tables d \<Longrightarrow> plane_ok env d'"
  unfolding plane_ok_def by (simp add: list_view_cong [of d' _ d])

lemma plane_ok_step:
  assumes "env_ok env" and "plane_ok env d" and "fresh_trimmed cmd" and "health_trimmed cmd"
    and "fo_exec env now now' saved cmd d = (r, d')"
  shows "plane_ok env d'"
proof -
  from assms(2) obtain ps hs cs where ok: "profiles_of env d = Some ps" "keyed ap_id normalize_profile ps"
     "health_of env d = Some hs" "keyed ph_provider_id normalize_health hs"
     "chains_of env d = Some cs" "keyed fc_id normalize_chain cs" unfolding plane_ok_def by blast
  note P = profiles_command_keyed [OF ok(2) assms(1) ok(1)] profiles_command_frame
  note H = health_command_keyed [OF ok(4) assms(1) ok(3,1)] health_command_frame
  note C = chains_command_keyed [OF ok(6) assms(1) ok(5)] chains_command_frame
  show ?thesis
  proof (cases cmd)
    case (UpsertProfile fresh inp)
    with assms(3,5) P(1,4) ok show ?thesis by (fastforce elim!: forget_cases simp: plane_ok_def)
  next
    case (DisableProfile pid b)
    with assms(5) P(2,5) ok show ?thesis by (fastforce elim!: forget_cases simp: plane_ok_def)
  next
    case (SetDefault pid)
    with assms(5) P(3,6) ok show ?thesis by (fastforce elim!: forget_cases simp: plane_ok_def)
  next
    case (UpsertHealth inp)
    with assms(4,5) H(1,5) ok show ?thesis by (fastforce elim!: forget_cases simp: plane_ok_def)
  next
    case (RecordHealth ev)
    with assms(4,5) H(2,6) ok show ?thesis by (fastforce elim!: forget_cases simp: plane_ok_def)
  next
    case (DisableProvider pid b)
    with assms(5) H(3,7) ok show ?thesis by (fastforce elim!: forget_cases simp: plane_ok_def)
  next
    case (ClearCooldowns target)
    with assms(5) H(4,8) ok show ?thesis by (fastforce elim!: forget_cases simp: plane_ok_def)
  next
    case (UpsertChain fresh inp)
    with assms(3,5) C ok show ?thesis by (fastforce elim!: forget_cases simp: plane_ok_def)
  qed (use assms(2,5) in \<open>auto elim!: forget_cases dest!: query_frame intro: plane_ok_frame\<close>)
qed

text \<open>With any identifiers, the health document still stays readable.\<close>

lemma rmw_readable:
  assumes "rmw (load_list what km c norm k) (save_json what km c ts k) f d = (r, d')"
    and "km_ok km" and "codec_ok c" and "list_view km c norm k d = Some xs"
  shows "\<exists>w. list_view km c norm k d' = Some w"
proof (cases r)
  case (Inl e)
  with assms show ?thesis using rmw_tables_error list_view_cong by metis
next
  case (Inr a)
  with rmw_returned [of what km c norm k ts f d a d' xs] assms show ?thesis by blast
qed

lemma after_load_rmw_readable:
  assumes "bindE (load_profiles env) (\<lambda>ps. rmw (load_health env) (save_health env saved) (f ps)) d = (r, d')"
    and "km_ok (env_km env)" and "codec_ok (env_health env)" and "health_of env d = Some hs"
  shows "\<exists>w. health_of env d' = Some w"
  using assms(1)
proof (cases rule: bindE_cases)
  case (stop e)
  with assms(4) show ?thesis using list_view_cong load_list_frame by metis
next
  case (step ps d1)
  have "health_of env d1 = Some hs" using assms(4) load_list_frame [OF step(1)] list_view_cong by metis
  from rmw_readable [OF step(2) assms(2,3) this] show ?thesis .
qed

lemma health_command_readable:
  assumes "env_ok env" and "health_of env d = Some hs"
  shows "upsert_provider_health env now saved inp d = (r1, d') \<Longrightarrow> \<exists>w. health_of env d' = Some w"
    and "record_health env now now' saved ev d = (r2, d') \<Longrightarrow> \<exists>w. health_of env d' = Some w"
    and "disable_provider env saved pid b d = (r3, d') \<Longrightarrow> \<exists>w. health_of env d' = Some w"
    and "clear_cooldowns env saved target d = (r4, d') \<Longrightarrow> \<exists>w. health_of env d' = Some w"
proof -
  have k: "km_ok (env_km env)" "codec_ok (env_health env)" using assms(1) by (simp_all add: env_ok_def)
  show "upsert_provider_health env now saved inp d = (r1, d') \<Longrightarrow> \<exists>w. health_of env d' = Some w"
    "record_health env now now' saved ev d = (r2, d') \<Longrightarrow> \<exists>w. health_of env d' = Some w"
    unfolding handler_defs by (erule after_load_rmw_readable [OF _ k assms(2)])+
  show "disable_provider env saved pid b d = (r3, d') \<Longrightarrow> \<exists>w. health_of env d' = Some w"
    "clear_cooldowns env saved target d = (r4, d') \<Longrightarrow> \<exists>w. health_of env d' = Some w"
    unfolding handler_defs by (erule rmw_readable [OF _ k assms(2)])+
qed

lemma health_read_normal:
  "health_of env d = Some hs \<Longrightarrow> list_all (\<lambda>h. normalize_health h = h) hs"
  by (auto simp: list_view_def list_all_iff health_doc.norm_idem)

lemma documents_ok_frame: "documents_ok env d \<Longrightarrow> tables d' = tables d \<Longrightarrow> documents_ok env d'"
  unfolding documents_ok_def by (simp add: list_view_cong [of d' _ d])

lemma documents_ok_step:
  assumes "env_ok env" and "documents_ok env d" and "fresh_trimmed cmd"
    and "fo_exec env now now' saved cmd d = (r, d')"
  shows "documents_ok env d'"
proof -
  from assms(2) obtain ps hs cs where ok: "profiles_of env d = Some ps" "keyed ap_id normalize_profile ps"
     "health_of env d = Some hs"
     "chains_of env d = Some cs" "keyed fc_id normalize_chain cs" unfolding documents_ok_def by blast
  note P = profiles_command_keyed [OF ok(2) assms(1) ok(1)] profiles_command_frame
  note H = health_command_readable [OF assms(1) ok(3)] health_command_frame
  note C = chains_command_keyed [OF ok(5) assms(1) ok(4)] chains_command_frame
  note D = documents_ok_def health_read_normal
  show ?thesis
  proof (cases cmd)
    case (UpsertProfile fresh inp)
    with assms(3,4) P(1,4) ok show ?thesis by (fastforce elim!: forget_cases simp: D)
  next
    case (DisableProfile pid b)
    with assms(4) P(2,5) ok show ?thesis by (fastforce elim!: forget_cases simp: D)
  next
    case (SetDefault pid)
    with assms(4) P(3,6) ok show ?thesis by (fastforce elim!: forget_cases simp: D)
  next
    case (UpsertHealth inp)
    with assms(4) H(1,5) ok show ?thesis by (fastforce elim!: forget_cases simp: D)
  next
    case (RecordHealth ev)
    with assms(4) H(2,6) ok show ?thesis by (fastforce elim!: forget_cases simp: D)
  next
    case (DisableProvider pid b)
    with assms(4) H(3,7) ok show ?thesis by (fastforce elim!: forget_cases simp: D)
  next
    case (ClearCooldowns target)
    with assms(4) H(4,8) ok show ?thesis by (fastforce elim!: forget_cases simp: D)
  next
    case (UpsertChain fresh inp)
    with assms(3,4) C ok show ?thesis by (fastforce elim!: forget_cases simp: D)
  qed (use assms(2,4) in \<open>auto elim!: forget_cases dest!: query_frame intro: documents_ok_frame\<close>)
qed

lemma plane_ok_documents: "plane_ok env d \<Longrightarrow> documents_ok env d"
  unfolding plane_ok_def documents_ok_def keyed_def by (auto simp: list_all_iff)

end
