(* ===== verification/Failover_Safety.thy ===== *)
theory Failover_Safety
  imports Failover_Plane
begin

text \<open>
  What the model failover control plane guarantees: atomicity of failing commands, well-formed
  documents in every reachable state, stores as map updates, the health bookkeeping, the
  default profile, rotation, cooldown clearing, and that a disabled provider is not selected.
  \<open>sample_env\<close> is an environment for the closed examples: no cipher, decimal instants and
  one letter per document.
\<close>

section \<open>An environment for closed examples\<close>

datatype fo_letter = LProfiles "auth_profile list" | LHealth "provider_health list" | LChains "fallback_chain list"

fun as_profiles :: "fo_letter list \<Rightarrow> auth_profile list option" where
  "as_profiles [LProfiles x] = Some x" | "as_profiles _ = None"

fun as_health :: "fo_letter list \<Rightarrow> provider_health list option" where
  "as_health [LHealth x] = Some x" | "as_health _ = None"

fun as_chains :: "fo_letter list \<Rightarrow> fallback_chain list option" where
  "as_chains [LChains x] = Some x" | "as_chains _ = None"

definition sample_env :: "fo_letter fo_env" where
  "sample_env = \<lparr>env_km = None, env_chrono = decimal_chrono,
     env_profiles = \<lparr>to_vec = (\<lambda>x. Some [LProfiles x]), from_slice = as_profiles\<rparr>,
     env_health = \<lparr>to_vec = (\<lambda>x. Some [LHealth x]), from_slice = as_health\<rparr>,
     env_chains = \<lparr>to_vec = (\<lambda>x. Some [LChains x]), from_slice = as_chains\<rparr>\<rparr>"

lemma sample_env_ok: "env_ok sample_env"
  by (simp add: env_ok_def sample_env_def km_ok_def decimal_chrono_ok codec_ok_def)

lemma sample_env_chrono [simp]: "env_chrono sample_env = decimal_chrono"
  by (simp add: sample_env_def)

text \<open>A database that holds given documents.\<close>

definition letter_row :: "fo_letter \<Rightarrow> fo_letter kv_row" where
  "letter_row l = \<lparr>kv_value = [l], kv_created_at = ''0'', kv_updated_at = ''0''\<rparr>"

definition sample_db :: "auth_profile list \<Rightarrow> provider_health list \<Rightarrow> fallback_chain list \<Rightarrow> fo_letter kv_db" where
  "sample_db ps hs cs = \<lparr>tables = [AUTH_PROFILES_KEY \<mapsto> letter_row (LProfiles ps),
     PROVIDER_HEALTH_KEY \<mapsto> letter_row (LHealth hs), FALLBACK_CHAINS_KEY \<mapsto> letter_row (LChains cs)],
     faults = []\<rparr>"

lemma sample_db_views [simp]:
  "profiles_of sample_env (sample_db ps hs cs) = Some (map normalize_profile ps)"
  "health_of sample_env (sample_db ps hs cs) = Some (map normalize_health hs)"
  "chains_of sample_env (sample_db ps hs cs) = Some (map normalize_chain cs)"
  by (simp_all add: list_view_def doc_view_def sample_db_def letter_row_def sample_env_def
      decrypt_storage_bytes_def)

lemma sample_db_quiet [simp]: "faults (sample_db ps hs cs) = []"
  by (simp add: sample_db_def)

lemma empty_plane_ok: "plane_ok env empty_db"
  by (simp add: plane_ok_def list_view_def doc_view_def empty_db_def keyed_def)

text \<open>Without faults, a handler computes from what its documents read as.\<close>

lemma load_list_quiet:
  "faults d = [] \<Longrightarrow> list_view km c norm k d = Some xs \<Longrightarrow> load_list what km c norm k d = (Inr xs, d)"
  by (auto simp: load_list_def map_io_def load_json_quiet list_view_def doc_view_def split: option.splits)

lemma rmw_quiet:
  assumes "faults d = []" and "km_ok km" and "codec_ok c" and "list_view km c norm k d = Some xs"
    and "\<And>e. f xs \<noteq> Abort e"
  shows "\<exists>a d'. rmw (load_list what km c norm k) (save_json what km c ts k) f d = (Inr a, d') \<and> faults d' = []"
proof (cases "f xs")
  case (Store v a)
  with save_json_quiet [OF assms(1-3), where what = what and ts = ts and k = k and v = v] load_list_quiet [OF assms(1,4), where what = what]
  show ?thesis by (auto simp: rmw_def bindE_def)
qed (use assms load_list_quiet [OF assms(1,4)] in \<open>auto simp: rmw_def\<close>)


section \<open>Atomicity and reachable states\<close>

lemma after_load_rmw_error:
  "bindE (load_profiles env) (\<lambda>ps. rmw (load_health env) (save_health env saved) (f ps)) d = (Inl e, d')
    \<Longrightarrow> tables d' = tables d"
  by (erule bindE_cases) (auto dest!: rmw_tables_error load_list_frame)

text \<open>
  C32. Atomicity of failures. A command of the failover control plane that returns an error (or
  panics), at whatever statement the database failed, has changed no table.
\<close>

theorem failover_errors_atomic:
  assumes "fo_exec env now now' saved cmd d = (Inl e, d')"
  shows "tables d' = tables d"
  using assms
  by (cases cmd) (auto dest!: forget_error query_frame rmw_tables_error after_load_rmw_error simp: handler_defs)

theorem failover_errors_atomic_witness:
  "let d = \<lparr>tables = tables (sample_db [] [] []), faults = [False, True]\<rparr>;
       d' = snd (fo_exec sample_env 0 0 0 (ClearCooldowns None) d)
   in fst (fo_exec sample_env 0 0 0 (ClearCooldowns None) d) = Inl db_error \<and> tables d' = tables d"
proof -
  let ?d = "\<lparr>tables = tables (sample_db [] [] []), faults = [False, True]\<rparr>"
  have r: "fo_exec sample_env 0 0 0 (ClearCooldowns None) ?d = (Inl db_error, ?d\<lparr>faults := []\<rparr>)"
    by (simp add: forget_def clear_cooldowns_def rmw_def bindE_def load_list_def map_io_def load_json_def
        get_encrypted_def kv_get_def stmt_def save_json_def set_encrypted_def kv_set_def sample_env_def
        sample_db_def letter_row_def decrypt_storage_bytes_def encrypt_storage_bytes_def
        AUTH_PROFILES_KEY_def PROVIDER_HEALTH_KEY_def FALLBACK_CHAINS_KEY_def)
  from failover_errors_atomic [OF r] r show ?thesis by (simp add: Let_def)
qed

text \<open>
  C31. Reachable documents. Starting from a well-formed plane (an empty database is one), every
  sequence of control-plane commands, with whatever arguments and each possibly hit by database faults,
  leaves the three documents readable and their records normalised, and no two profiles and no two
  chains with the same identifier. The health records have unique identifiers too as long as every
  health command named its provider without surrounding white space; \<open>untrimmed_health_shadows\<close> shows
  what happens otherwise. Generated identifiers carry no white space.
\<close>

theorem plane_reachable_ok:
  assumes "env_ok env" and "plane_ok env d0" and "plane_reach env d0 trimmed d"
  shows "documents_ok env d \<and> (trimmed \<longrightarrow> plane_ok env d)"
  using assms(3)
proof (induction rule: plane_reach.induct)
  case start
  with assms(2) show ?case by (simp add: plane_ok_documents)
next
  case (command trimmed d1 cmd now now' saved r d2)
  then show ?case by (blast intro: documents_ok_step [OF assms(1)] plane_ok_step [OF assms(1)])
qed

definition sample_profile_upsert :: "string \<Rightarrow> string \<Rightarrow> int \<Rightarrow> auth_profile_upsert" where
  "sample_profile_upsert i prov n = \<lparr>ai_id = Some i, ai_name = None, ai_provider_id = prov,
     ai_provider_kind = None, ai_base_url = None, ai_model_id = None, ai_credential_ref = None,
     ai_enabled = None, ai_priority = Some n, ai_last_used_at = None, ai_last_error = None,
     ai_session_pin = None, ai_tags = [], ai_metadata = None\<rparr>"

theorem plane_reachable_ok_witness:
  "\<exists>d. plane_reach sample_env empty_db True d \<and> d \<noteq> empty_db \<and> plane_ok sample_env d"
proof -
  let ?inp = "sample_profile_upsert ''main'' ''openai'' 1"
  obtain r d where x: "fo_exec sample_env 0 0 0 (UpsertProfile ''u'' ?inp) empty_db = (r, d)" by fastforce
  have "trim ''u'' = ''u''" by (rule trim_no_ws) (simp add: is_ws_def)
  then have reach: "plane_reach sample_env empty_db True d"
    using plane_reach.command [OF plane_reach.start _ x] by simp
  have "tables d AUTH_PROFILES_KEY \<noteq> None"
    using x by (auto simp: forget_def map_io_def upsert_auth_profile_def rmw_def bindE_def load_list_def
        load_json_def get_encrypted_def kv_get_def save_json_def set_encrypted_def kv_set_def sample_env_def
        empty_db_def encrypt_storage_bytes_def kv_upsert_def Let_def)
  then have "d \<noteq> empty_db" by (auto simp: empty_db_def)
  with plane_reachable_ok [OF sample_env_ok empty_plane_ok reach] reach show ?thesis by blast
qed

section \<open>Stores are map updates\<close>

text \<open>
  An upsert refines a map update. A successful profile upsert stores the returned record
  under the requested (or generated) identifier, changes the entry of no other identifier, and
  keeps the other two documents.
\<close>

theorem upsert_profile_refines:
  assumes "env_ok env" and "plane_ok env d" and "profiles_of env d = Some ps" and "trim fresh = fresh"
    and "upsert_auth_profile env now saved fresh inp d = (Inr p, d')"
  shows "\<exists>ps'. profiles_of env d' = Some ps'
    \<and> entry ap_id ps' = (entry ap_id ps)(upsert_id fresh (ai_id inp) \<mapsto> p)
    \<and> ap_id p = upsert_id fresh (ai_id inp) \<and> ap_provider_id p = trim (ai_provider_id inp)
    \<and> health_of env d' = health_of env d \<and> chains_of env d' = chains_of env d"
proof -
  let ?i = "upsert_id fresh (ai_id inp)"
  let ?p = "stored_profile (env_chrono env) now fresh inp ps"
  from assms(2,3) have k: "keyed ap_id normalize_profile ps" by (auto simp: plane_ok_def)
  have km: "km_ok (env_km env)" "codec_ok (env_profiles env)" using assms(1) by (simp_all add: env_ok_def)
  note sp = stored_profile_simps [OF k assms(4), where ch = "env_chrono env" and now = now and inp = inp]
  let ?v = "put_at (position (\<lambda>p. ap_id p = ?i) ps) ?p ps"
  from rmw_returned [OF assms(5) [unfolded upsert_profile_stores] km assms(3)]
  have p: "p = ?p" and w: "profiles_of env d' = Some (map normalize_profile ?v)" by auto
  have "map normalize_profile ?v = ?v"
    by (rule profile_doc.keyed_map_norm [OF profile_doc.put_keyed [OF k]]) (use sp in simp_all)
  moreover have "ap_provider_id ?p = trim (ai_provider_id inp)"
    by (simp add: stored_profile_def updated_profile_def created_profile_def Let_def split: option.splits)
  ultimately show ?thesis
    using p w sp profile_doc.put_entry [of ?p ?i ps] profiles_command_frame(1) [OF assms(5)] by simp
qed

lemma char_no_ws [simp]: "trim ''main'' = ''main''" "trim ''openai'' = ''openai''" "trim ''u'' = ''u''"
  "trim ''groq'' = ''groq''" "trim ''spare'' = ''spare''"
  by (rule trim_no_ws, simp add: is_ws_def)+

theorem upsert_profile_refines_witness:
  "\<exists>p d'. upsert_auth_profile sample_env 0 0 ''u'' (sample_profile_upsert ''main'' ''openai'' 1) (sample_db [] [] [])
      = (Inr p, d') \<and> ap_id p = ''main''
    \<and> (\<exists>ps'. profiles_of sample_env d' = Some ps' \<and> entry ap_id ps' ''main'' = Some p)"
proof -
  let ?inp = "sample_profile_upsert ''main'' ''openai'' 1" and ?d = "sample_db [] [] []"
  have v: "profiles_of sample_env ?d = Some []" by simp
  have ok: "plane_ok sample_env ?d" by (simp add: plane_ok_def keyed_def)
  have km: "km_ok (env_km sample_env)" "codec_ok (env_profiles sample_env)"
    using sample_env_ok by (simp_all add: env_ok_def)
  have t: "trim ''u'' = ''u''" by simp
  have "\<exists>p d'. upsert_auth_profile sample_env 0 0 ''u'' ?inp ?d = (Inr p, d') \<and> faults d' = []"
    unfolding upsert_profile_stores by (rule rmw_quiet [OF sample_db_quiet km v]) simp
  then obtain p d' where u: "upsert_auth_profile sample_env 0 0 ''u'' ?inp ?d = (Inr p, d')" by blast
  have i: "upsert_id ''u'' (ai_id ?inp) = ''main''" by (simp add: upsert_id_def trim_opt_def sample_profile_upsert_def)
  from upsert_profile_refines [OF sample_env_ok ok v t u] u i show ?thesis by auto
qed

section \<open>Health bookkeeping\<close>

lemma cooling_until:
  assumes "chrono_ok ch" and "rfc_range u" and "ph_cooldown_until r = sanitize_text (Some (to_rfc3339 ch u))"
  shows "is_cooling ch t r \<longleftrightarrow> t < u"
  using assms chrono_trim [OF assms(1), of u] chrono_parse [OF assms(1,2)]
  by (simp add: is_cooling_def sanitize_text_def)

lemma record_health_stored:
  assumes "env_ok env" and "plane_ok env d" and "health_of env d = Some hs" and "profiles_of env d = Some ps"
    and "record_health env now now' saved ev d = (Inr r, d')" and "trim (he_provider_id ev) = he_provider_id ev"
  shows "health_event_record (env_chrono env) now now' (entry ph_provider_id hs (he_provider_id ev)) ev
       (profile_pins_count ps) = Some r"
    and "\<exists>hs'. health_of env d' = Some hs' \<and> entry ph_provider_id hs' = (entry ph_provider_id hs)(he_provider_id ev \<mapsto> r)"
proof -
  let ?i = "he_provider_id ev"
  let ?rec = "health_event_record (env_chrono env) now now' (entry ph_provider_id hs ?i) ev (profile_pins_count ps)"
  from assms(2,3) have k: "keyed ph_provider_id normalize_health hs" by (auto simp: plane_ok_def)
  have km: "km_ok (env_km env)" "codec_ok (env_health env)" using assms(1) by (simp_all add: env_ok_def)
  obtain d1 where t: "tables d1 = tables d" and h: "rmw (load_health env) (save_health env saved) (\<lambda>health.
         let existing = position (\<lambda>r. ph_provider_id r = ?i) health
         in case health_event_record (env_chrono env) now now' (map_option ((!) health) existing) ev
                   (profile_pins_count ps) of
              None \<Rightarrow> Abort (Panicked ''cooldown out of range'')
            | Some record \<Rightarrow> Store (put_at existing record health) record) d1 = (Inr r, d')"
    using assms(5) unfolding record_health_def by (rule after_profiles [OF _ assms(4)]) auto
  have v: "health_of env d1 = Some hs" using assms(3) list_view_cong t by metis
  from rmw_returned [OF h km v]
  have r: "?rec = Some r"
    and w: "health_of env d' = Some (map normalize_health (put_at (position (\<lambda>r. ph_provider_id r = ?i) hs) r hs))"
    by (auto simp: Let_def health_doc.position_nth_entry split: option.splits)
  show "?rec = Some r" by (rule r)
  have "ph_provider_id r = ?i" "normalize_health r = r"
    using health_event_record_simps [OF r] assms(6) health_doc.entry_key by auto
  then show "\<exists>hs'. health_of env d' = Some hs' \<and> entry ph_provider_id hs' = (entry ph_provider_id hs)(?i \<mapsto> r)"
    using w health_doc.keyed_map_norm [OF health_doc.put_keyed [OF k]] health_doc.put_entry by auto
qed

text \<open>The record before an event: the stored one, or a new one with zero counters.\<close>

definition prior_count :: "(provider_health \<Rightarrow> nat) \<Rightarrow> provider_health option \<Rightarrow> nat" where
  "prior_count sel ex = (case ex of Some h \<Rightarrow> sel h | None \<Rightarrow> 0)"

lemma health_event_effects:
  assumes "health_event_record ch now now' ex ev n = Some r"
  shows "he_success ev \<Longrightarrow> ph_cooldown_until r = None \<and> ph_last_error r = None
      \<and> ph_success_count r = sat_add_u64 (prior_count ph_success_count ex) 1
      \<and> ph_failure_count r = prior_count ph_failure_count ex"
    and "\<not> he_success ev \<Longrightarrow> ph_failure_count r = sat_add_u64 (prior_count ph_failure_count ex) 1
      \<and> ph_success_count r = prior_count ph_success_count ex"
    and "\<not> he_success ev \<Longrightarrow> he_cooldown_secs ev = Some s \<Longrightarrow> s > 0 \<Longrightarrow>
      \<exists>u. plus_secs ch now' s = Some u \<and> ph_cooldown_until r = sanitize_text (Some (to_rfc3339 ch u))"
    and "ph_session_pin_count r = n"
  using assms
  by (auto simp: health_event_record_def Let_def success_update_def failure_update_def new_health_def
      prior_count_def sanitize_text_def split: if_splits option.splits)

text \<open>
  Health events. A recorded success ends the cooldown, clears the error and counts one
  success; a recorded failure counts one failure and, when it carries a positive cooldown, the
  provider cools down exactly until that many seconds after the event. Counters saturate, and
  no other provider's record changes.
\<close>

theorem record_health_effect:
  assumes "env_ok env" and "plane_ok env d" and "health_of env d = Some hs"
    and "trim (he_provider_id ev) = he_provider_id ev" and "rfc_range now'"
    and "record_health env now now' saved ev d = (Inr r, d')"
  shows "\<exists>hs'. health_of env d' = Some hs'
    \<and> entry ph_provider_id hs' = (entry ph_provider_id hs)(he_provider_id ev \<mapsto> r)
    \<and> (let old = entry ph_provider_id hs (he_provider_id ev) in
        if he_success ev
        then (\<forall>t. \<not> is_cooling (env_chrono env) t r) \<and> ph_last_error r = None
          \<and> ph_success_count r = min (prior_count ph_success_count old + 1) u64_max
          \<and> ph_failure_count r = prior_count ph_failure_count old
        else ph_failure_count r = min (prior_count ph_failure_count old + 1) u64_max
          \<and> ph_success_count r = prior_count ph_success_count old
          \<and> (\<forall>s > 0. he_cooldown_secs ev = Some s \<and> rfc_range (now' + secs s) \<longrightarrow>
               (\<forall>t. is_cooling (env_chrono env) t r = (t < now' + secs s))))"
proof -
  from assms(2) obtain ps where ps: "profiles_of env d = Some ps" by (auto simp: plane_ok_def)
  note st = record_health_stored [OF assms(1-3) ps assms(6,4)]
  note ef = health_event_effects [OF st(1)]
  have ch: "chrono_ok (env_chrono env)" using assms(1) by (simp add: env_ok_def)
  have cool: "is_cooling (env_chrono env) t r = (t < now' + secs s)"
    if "\<not> he_success ev" "s > 0" "he_cooldown_secs ev = Some s" "rfc_range (now' + secs s)" for s t
    using ef(3) [OF that(1,3,2)] chrono_plus [OF ch assms(5) that(4)] cooling_until [OF ch that(4)] by auto
  have "he_success ev \<Longrightarrow> \<not> is_cooling (env_chrono env) t r" for t
    using ef(1) by (simp add: is_cooling_def)
  with st(2) ef(1,2) cool show ?thesis by (auto simp: Let_def sat_add_u64_def)
qed

lemma after_profiles_quiet:
  assumes "faults d = []" and "profiles_of env d = Some ps"
  shows "bindE (load_profiles env) g d = g ps d"
  using load_list_quiet [OF assms] by (simp add: bindE_def)

definition sample_failure :: "string \<Rightarrow> int \<Rightarrow> provider_health_event" where
  "sample_failure prov n = \<lparr>he_provider_id = prov, he_provider_kind = None, he_success = False,
     he_error = None, he_cooldown_secs = Some n, he_disabled = None, he_auth_profile_id = None,
     he_model_id = None, he_session_id = None, he_note = None, he_metadata = None\<rparr>"

theorem record_health_effect_witness:
  "\<exists>r d'. record_health sample_env 0 0 0 (sample_failure ''groq'' 60) (sample_db [] [] []) = (Inr r, d')
    \<and> ph_failure_count r = 1 \<and> is_cooling decimal_chrono (secs 59) r \<and> \<not> is_cooling decimal_chrono (secs 60) r"
proof -
  let ?ev = "sample_failure ''groq'' 60" and ?d = "sample_db [] [] []"
  have ok: "plane_ok sample_env ?d" by (simp add: plane_ok_def keyed_def)
  have hs: "health_of sample_env ?d = Some []" and ps: "profiles_of sample_env ?d = Some []" by simp_all
  have km: "km_ok (env_km sample_env)" "codec_ok (env_health sample_env)"
    using sample_env_ok by (simp_all add: env_ok_def)
  have rg: "rfc_range 0" "rfc_range (0 + secs 60)" by (simp_all add: rfc_range_num secs_def ns_per_sec_def)
  have t: "trim (he_provider_id ?ev) = he_provider_id ?ev" by (simp add: sample_failure_def)
  have "\<exists>r d'. record_health sample_env 0 0 0 ?ev ?d = (Inr r, d') \<and> faults d' = []"
    unfolding record_health_def after_profiles_quiet [OF sample_db_quiet ps]
    by (rule rmw_quiet [OF sample_db_quiet km hs])
      (use decimal_chrono_sel(3) [OF rg(2)] in \<open>simp add: Let_def health_event_record_def failure_update_def
        sample_failure_def split: option.splits\<close>)
  then obtain r d' where h: "record_health sample_env 0 0 0 ?ev ?d = (Inr r, d')" by blast
  from record_health_effect [OF sample_env_ok ok hs t rg(1) h]
  have "ph_failure_count r = 1" and c: "\<And>t. is_cooling decimal_chrono t r = (t < 0 + secs 60)"
    using rg(2) by (auto simp: sample_failure_def entry_def prior_count_def u64_max_def)
  moreover have "is_cooling decimal_chrono (secs 59) r" "\<not> is_cooling decimal_chrono (secs 60) r"
    unfolding c by (simp_all add: secs_def ns_per_sec_def)
  ultimately show ?thesis using h by blast
qed

section \<open>Disabled providers\<close>









definition sample_candidate :: "string \<Rightarrow> int \<Rightarrow> fallback_candidate" where
  "sample_candidate prov n = \<lparr>cand_provider_id = prov, cand_auth_profile_id = None,
     cand_priority = n, cand_reason = None\<rparr>"

definition sample_chain :: fallback_chain where
  "sample_chain = \<lparr>fc_id = ''u'', fc_name = ''main'', fc_enabled = True,
     fc_ordered_candidates = [sample_candidate ''groq'' 1, sample_candidate ''openai'' 2],
     fc_session_pin = None, fc_notes = None, fc_metadata = None\<rparr>"

lemma new_health_id [simp]: "ph_provider_id (new_health i kind n m) = i"
  by (simp add: new_health_def)

lemma sample_health_normal [simp]:
  "trim i = i \<Longrightarrow> normalize_health (new_health i None 0 None) = new_health i None 0 None"
  by (simp add: normalize_health_def new_health_def sanitize_text_def)

lemma sample_chain_normal [simp]: "normalize_chain sample_chain = sample_chain"
  by (simp add: normalize_chain_def sample_chain_def sample_candidate_def normalize_candidate_def
      sanitize_text_def map_filter_simps)


text \<open>
  Untrimmed identifiers. Provider health records are stored under the trimmed identifier
  but looked up under the one given, so an upsert whose identifier carries white space does not
  find the stored record and appends a second one for the same provider. Selection uses the
  last record of a provider and \<open>disable_provider\<close> the first: the disabled flag the
  operator sets afterwards is not the one selection reads.
\<close>

theorem untrimmed_health_shadows:
  assumes "env_ok env" and "plane_ok env d" and "health_of env d = Some hs"
    and "trim (hi_provider_id inp) \<noteq> hi_provider_id inp"
    and "entry ph_provider_id hs (trim (hi_provider_id inp)) \<noteq> None"
    and "hi_disabled inp \<noteq> Some True" and "hi_enabled inp \<noteq> Some False"
    and "upsert_provider_health env now saved inp d = (Inr r, d1)"
    and "disable_provider env saved' (trim (hi_provider_id inp)) True d1 = (Inr (Some h), d2)"
  shows "\<exists>hs2. health_of env d2 = Some hs2 \<and> \<not> distinct (map ph_provider_id hs2)
    \<and> entry ph_provider_id hs2 (trim (hi_provider_id inp)) = Some h \<and> ph_disabled h
    \<and> provider_map hs2 (trim (hi_provider_id inp)) = Some r
    \<and> \<not> provider_disabled (provider_map hs2 (trim (hi_provider_id inp)))"
proof -
  let ?raw = "hi_provider_id inp" and ?i = "trim (hi_provider_id inp)"
  from assms(2,3) have k: "keyed ph_provider_id normalize_health hs" by (auto simp: plane_ok_def)
  from assms(2) obtain ps where ps: "profiles_of env d = Some ps" by (auto simp: plane_ok_def)
  have km: "km_ok (env_km env)" "codec_ok (env_health env)" using assms(1) by (simp_all add: env_ok_def)
  have none: "position (\<lambda>r. ph_provider_id r = ?raw) hs = None"
    using health_doc.key_trimmed [OF k] assms(4) unfolding position_None by metis
  obtain e1 where t: "tables e1 = tables d" and u: "rmw (load_health env) (save_health env saved) (\<lambda>health.
         let existing = position (\<lambda>r. ph_provider_id r = ?raw) health;
             record = merge_provider_record (env_chrono env) now (map_option ((!) health) existing) inp
                        (profile_pins_count ps)
         in Store (put_at existing record health) record) e1 = (Inr r, d1)"
    using assms(8) unfolding upsert_provider_health_def by (rule after_profiles [OF _ ps]) auto
  have v: "health_of env e1 = Some hs" using assms(3) list_view_cong t by metis
  from rmw_returned [OF u km v] none
  have r: "r = merge_provider_record (env_chrono env) now None inp (profile_pins_count ps)"
    and w1: "health_of env d1 = Some (map normalize_health (hs @ [r]))" by (auto simp: Let_def put_at_def)
  have rn: "normalize_health r = r" "ph_provider_id r = ?i" using r by simp_all
  have rd: "\<not> ph_disabled r" "ph_enabled r"
    using r assms(6,7) by (auto simp: merge_provider_record_def Let_def new_health_def split: option.splits)
  have w1: "health_of env d1 = Some (hs @ [r])" using w1 rn health_doc.keyed_map_norm [OF k] by simp
  from rmw_returned [OF assms(9) [unfolded disable_provider_def] km w1]
  obtain n where n: "position (\<lambda>r. ph_provider_id r = ?i) (hs @ [r]) = Some n"
    and h: "h = normalize_health (((hs @ [r]) ! n)\<lparr>ph_disabled := True, ph_enabled := False,
              ph_last_error := Some ''disabled''\<rparr>)"
    and w2: "health_of env d2 = Some (map normalize_health ((hs @ [r])[n := h]))"
    by (auto simp: Let_def split: option.splits)
  obtain m where m: "position (\<lambda>r. ph_provider_id r = ?i) hs = Some m"
    using assms(5) by (metis health_doc.position_entry not_None_eq)
  have "position P xs = Some a \<Longrightarrow> position P (xs @ ys) = Some a"
    for P and xs ys :: "provider_health list" and a by (induction xs arbitrary: a) auto
  from this [OF m] n have nm: "n = m" by simp
  note ml = position_SomeE [OF m]
  have hh: "ph_disabled h" "normalize_health h = h" "ph_provider_id h = ?i"
    using h ml nm by (simp_all add: nth_append)
  have hs2: "map normalize_health ((hs @ [r])[n := h]) = hs[m := h] @ [r]"
    using nm ml(2) hh rn health_doc.keyed_map_norm [OF k] by (simp add: list_update_append map_update)
  have "h \<in> set (hs[m := h])" using ml(2) by (simp add: set_update_memI)
  then have "\<not> distinct (map ph_provider_id (hs[m := h] @ [r]))" using hh rn by force
  moreover have "entry ph_provider_id (hs[m := h] @ [r]) ?i = Some h"
  proof -
    have "find P (xs @ ys) = (case find P xs of Some x \<Rightarrow> Some x | None \<Rightarrow> find P ys)"
      for P and xs ys :: "provider_health list" by (induction xs) auto
    moreover have "find (\<lambda>x. ph_provider_id x = ?i) (hs[m := h]) = Some h"
      using fun_cong [OF health_doc.update_entry [OF m hh(3)], of ?i] by (simp add: entry_def)
    ultimately show ?thesis by (simp add: entry_def)
  qed
  moreover have "provider_map (hs[m := h] @ [r]) ?i = Some r" using rn by (simp add: provider_map_def)
  ultimately show ?thesis using w2 hs2 hh rd by (simp add: provider_disabled_def)
qed

definition sample_health_upsert :: "string \<Rightarrow> provider_health_upsert" where
  "sample_health_upsert prov = \<lparr>hi_provider_id = prov, hi_provider_kind = None, hi_enabled = None,
     hi_disabled = None, hi_cooldown_until = None, hi_last_success_at = None, hi_last_failure_at = None,
     hi_success_count = None, hi_failure_count = None, hi_last_error = None, hi_health_note = None,
     hi_metadata = None\<rparr>"

theorem untrimmed_health_shadows_witness:
  "\<exists>r d1 h d2 hs2. upsert_provider_health sample_env 0 0 (sample_health_upsert '' groq'')
        (sample_db [] [new_health ''groq'' None 0 None] []) = (Inr r, d1)
    \<and> disable_provider sample_env 0 ''groq'' True d1 = (Inr (Some h), d2)
    \<and> health_of sample_env d2 = Some hs2 \<and> \<not> provider_disabled (provider_map hs2 ''groq'')"
proof -
  let ?d = "sample_db [] [new_health ''groq'' None 0 None] []" and ?inp = "sample_health_upsert '' groq''"
  have tr: "trim '' groq'' = ''groq''" by (simp add: trim_def trim_start_def trim_end_def is_ws_def)
  have hs: "health_of sample_env ?d = Some [new_health ''groq'' None 0 None]" by simp
  have ps: "profiles_of sample_env ?d = Some []" by simp
  have ok: "plane_ok sample_env ?d" by (simp add: plane_ok_def keyed_def)
  have km: "km_ok (env_km sample_env)" "codec_ok (env_health sample_env)"
    using sample_env_ok by (simp_all add: env_ok_def)
  have "\<exists>r d1. upsert_provider_health sample_env 0 0 ?inp ?d = (Inr r, d1) \<and> faults d1 = []"
    unfolding upsert_provider_health_def after_profiles_quiet [OF sample_db_quiet ps]
    by (rule rmw_quiet [OF sample_db_quiet km hs]) (simp add: Let_def)
  then obtain r d1 where u: "upsert_provider_health sample_env 0 0 ?inp ?d = (Inr r, d1)" and q: "faults d1 = []"
    by blast
  from u have w1: "health_of sample_env d1 = Some [new_health ''groq'' None 0 None, r]"
    using rmw_returned [OF u [unfolded upsert_provider_health_def after_profiles_quiet [OF sample_db_quiet ps]] km hs]
    by (simp add: Let_def put_at_def sample_health_upsert_def)
  have "\<exists>a d2. disable_provider sample_env 0 ''groq'' True d1 = (Inr a, d2) \<and> faults d2 = []"
    unfolding disable_provider_def
    by (rule rmw_quiet [OF q km w1]) (simp add: new_health_def Let_def)
  then obtain a d2 where d2: "disable_provider sample_env 0 ''groq'' True d1 = (Inr a, d2)" by blast
  from rmw_returned [OF d2 [unfolded disable_provider_def] km w1] obtain h where a: "a = Some h"
    by (auto simp: new_health_def Let_def)
  have i: "hi_provider_id ?inp = '' groq''" "hi_disabled ?inp \<noteq> Some True" "hi_enabled ?inp \<noteq> Some False"
    by (simp_all add: sample_health_upsert_def)
  have pre: "trim (hi_provider_id ?inp) \<noteq> hi_provider_id ?inp"
    "entry ph_provider_id [new_health ''groq'' None 0 None] (trim (hi_provider_id ?inp)) \<noteq> None"
    by (simp_all add: i tr entry_def new_health_def)
  have "disable_provider sample_env 0 (trim (hi_provider_id ?inp)) True d1 = (Inr (Some h), d2)"
    using d2 a by (simp add: i tr)
  from untrimmed_health_shadows [OF sample_env_ok ok hs pre i(2,3) u this] obtain hs2 where
    "health_of sample_env d2 = Some hs2" "\<not> provider_disabled (provider_map hs2 ''groq'')"
    unfolding i tr by blast
  with u d2 a show ?thesis by blast
qed

section \<open>The default profile, rotation and cooldown clearing\<close>

lemma set_default_stored:
  assumes "env_ok env" and "keyed ap_id normalize_profile ps" and "profiles_of env d = Some ps"
    and "set_default_auth_profile env saved pid d = (Inr (Some p), d')"
  obtains i where "position (\<lambda>p. ap_id p = pid) ps = Some i"
    and "p = normalize_profile ((demote_profile (ap_provider_id (ps ! i)) (ps ! i))\<lparr>ap_priority := 0,
          ap_metadata := set_default_flag (ap_metadata (demote_profile (ap_provider_id (ps ! i)) (ps ! i)))\<rparr>)"
    and "profiles_of env d' = Some ((map (demote_profile (ap_provider_id (ps ! i))) ps)[i := p])"
    and "keyed ap_id normalize_profile ((map (demote_profile (ap_provider_id (ps ! i))) ps)[i := p])"
proof -
  have km: "km_ok (env_km env)" "codec_ok (env_profiles env)" using assms(1) by (simp_all add: env_ok_def)
  from rmw_returned [OF assms(4) [unfolded set_default_auth_profile_def] km assms(3)]
  obtain i where i: "position (\<lambda>p. ap_id p = pid) ps = Some i"
    and p: "p = normalize_profile ((demote_profile (ap_provider_id (ps ! i)) (ps ! i))\<lparr>ap_priority := 0,
          ap_metadata := set_default_flag (ap_metadata (demote_profile (ap_provider_id (ps ! i)) (ps ! i)))\<rparr>)"
    and w: "profiles_of env d' = Some (map normalize_profile ((map (demote_profile (ap_provider_id (ps ! i))) ps)[i := p]))"
    by (auto simp: Let_def split: option.splits dest: position_SomeE(2))
  have k: "keyed ap_id normalize_profile ((map (demote_profile (ap_provider_id (ps ! i))) ps)[i := p])"
    using set_default_keyed [OF assms(2) i, where prov = "ap_provider_id (ps ! i)" and n = 0] p position_SomeE(2) [OF i] by simp
  with that i p w profile_doc.keyed_map_norm [OF k] show thesis by auto
qed

lemma keyed_update_other:
  assumes "keyed key norm xs" and "i < length xs" and "q \<in> set (xs[i := x])" and "key x = key (xs ! i)"
  shows "q = x \<or> (q \<in> set xs \<and> key q \<noteq> key x)"
  using assms by (auto simp: keyed_def in_set_conv_nth nth_list_update distinct_conv_nth split: if_splits)

text \<open>
  One default per provider. After a profile has been made the default, it has priority 0
  and the default flag (when its metadata is absent or an object), and every other profile of
  its provider has priority at least 100 and does not carry the flag; the profiles of other
  providers are unchanged.
\<close>

theorem set_default_unique:
  assumes "env_ok env" and "plane_ok env d" and "profiles_of env d = Some ps"
    and "set_default_auth_profile env saved pid d = (Inr (Some p), d')"
  shows "\<exists>ps'. profiles_of env d' = Some ps' \<and> entry ap_id ps' pid = Some p
    \<and> ap_id p = pid \<and> ap_priority p = 0
    \<and> (\<forall>q \<in> set ps'. ap_provider_id q = ap_provider_id p \<and> ap_id q \<noteq> pid \<longrightarrow>
         ap_priority q \<ge> 100 \<and> (\<forall>m. ap_metadata q = Some m \<longrightarrow> json_get ''is_default'' m \<noteq> Some (JBool True)))
    \<and> (\<forall>q. ap_provider_id q \<noteq> ap_provider_id p \<longrightarrow> (q \<in> set ps' \<longleftrightarrow> q \<in> set ps))
    \<and> (\<forall>old. entry ap_id ps pid = Some old \<and> (ap_metadata old = None \<or> (\<exists>xs. ap_metadata old = Some (JObj xs)))
         \<longrightarrow> (\<exists>m. ap_metadata p = Some m \<and> json_get ''is_default'' m = Some (JBool True)))"
proof -
  from assms(2,3) have k: "keyed ap_id normalize_profile ps" by (auto simp: plane_ok_def)
  obtain i where i: "position (\<lambda>p. ap_id p = pid) ps = Some i"
    and p: "p = normalize_profile ((demote_profile (ap_provider_id (ps ! i)) (ps ! i))\<lparr>ap_priority := 0,
          ap_metadata := set_default_flag (ap_metadata (demote_profile (ap_provider_id (ps ! i)) (ps ! i)))\<rparr>)"
    and w: "profiles_of env d' = Some ((map (demote_profile (ap_provider_id (ps ! i))) ps)[i := p])"
    and k': "keyed ap_id normalize_profile ((map (demote_profile (ap_provider_id (ps ! i))) ps)[i := p])"
    by (rule set_default_stored [OF assms(1) k assms(3,4)])
  let ?ps' = "(map (demote_profile (ap_provider_id (ps ! i))) ps)[i := p]"
  note il = position_SomeE [OF i]
  let ?prov = "ap_provider_id (ps ! i)"
  have pid: "trim pid = pid" using profile_doc.key_trimmed [OF k il(3)] il(1) by simp
  have prov: "trim ?prov = ?prov"
    using k il(3) by (metis keyed_def normalize_ids(2))
  have idp: "ap_id p = pid" "ap_provider_id p = ?prov" "ap_priority p = 0" "ap_id p = ap_id (ps ! i)"
    using p il(1) pid prov by (simp_all add: demote_profile_def)
  have kd: "keyed ap_id normalize_profile (map (demote_profile ?prov) ps)"
    by (rule profile_doc.map_keyed [OF k]) (use k in \<open>auto simp: keyed_def demote_profile_normal\<close>)
  have other: "q = p \<or> (q \<in> demote_profile ?prov ` set ps \<and> ap_id q \<noteq> pid)" if "q \<in> set ?ps'" for q
    using keyed_update_other [OF kd _ that] il idp by simp
  have flag: "json_get ''is_default'' (json_insert ''is_default'' (JBool False) m) \<noteq> Some (JBool True)" for m
    by (cases m) simp_all
  have "p \<in> set ?ps'" using il(2) by (simp add: set_update_memI)
  from profile_doc.keyed_entry [OF k' this] have e: "entry ap_id ?ps' pid = Some p" using idp by simp
  have a: "\<forall>q \<in> set ?ps'. ap_provider_id q = ap_provider_id p \<and> ap_id q \<noteq> pid \<longrightarrow>
         ap_priority q \<ge> 100 \<and> (\<forall>m. ap_metadata q = Some m \<longrightarrow> json_get ''is_default'' m \<noteq> Some (JBool True))"
    using other idp flag by (fastforce simp: demote_profile_def clear_default_flag_def split: if_splits)
  have b: "q \<in> set ?ps' \<longleftrightarrow> q \<in> set ps" if "ap_provider_id q \<noteq> ap_provider_id p" for q
  proof
    assume "q \<in> set ?ps'"
    with other [OF this] that idp show "q \<in> set ps" by (auto simp: demote_profile_def split: if_splits)
  next
    assume "q \<in> set ps"
    then obtain j where j: "j < length ps" "ps ! j = q" by (auto simp: in_set_conv_nth)
    with that idp have "j \<noteq> i" by auto
    with j that idp have "?ps' ! j = q" by (simp add: demote_profile_def)
    with j show "q \<in> set ?ps'" by (metis length_list_update length_map nth_mem)
  qed
  have c: "\<forall>old. entry ap_id ps pid = Some old \<and> (ap_metadata old = None \<or> (\<exists>xs. ap_metadata old = Some (JObj xs)))
         \<longrightarrow> (\<exists>m. ap_metadata p = Some m \<and> json_get ''is_default'' m = Some (JBool True))"
    using profile_doc.position_entry_Some [OF i] p
    by (auto simp: normalize_profile_def demote_profile_def clear_default_flag_def set_default_flag_def)
  from w e idp a b c show ?thesis by blast
qed

definition sample_profile :: "string \<Rightarrow> string \<Rightarrow> int \<Rightarrow> auth_profile" where
  "sample_profile i prov n = \<lparr>ap_id = i, ap_name = i, ap_provider_id = prov, ap_provider_kind = None,
     ap_base_url = None, ap_model_id = None, ap_credential_ref = None, ap_enabled = True, ap_priority = n,
     ap_last_used_at = None, ap_last_error = None, ap_session_pin = None, ap_tags = [], ap_metadata = None\<rparr>"

lemma sample_profile_simps [simp]:
  "ap_id (sample_profile i prov n) = i" "ap_provider_id (sample_profile i prov n) = prov"
  "ap_enabled (sample_profile i prov n)" "ap_priority (sample_profile i prov n) = n"
  "trim i = i \<Longrightarrow> trim prov = prov \<Longrightarrow> normalize_profile (sample_profile i prov n) = sample_profile i prov n"
  by (simp_all add: sample_profile_def normalize_profile_def sanitize_text_def sanitize_list_def)

theorem set_default_unique_witness:
  "\<exists>p d'. set_default_auth_profile sample_env 0 ''spare''
       (sample_db [sample_profile ''main'' ''openai'' 0, sample_profile ''spare'' ''openai'' 7] [] []) = (Inr (Some p), d')
    \<and> ap_priority p = 0
    \<and> (\<exists>ps'. profiles_of sample_env d' = Some ps' \<and> (\<forall>q \<in> set ps'. ap_provider_id q = ap_provider_id p \<and> ap_id q \<noteq> ''spare'' \<longrightarrow> ap_priority q \<ge> 100))"
proof -
  let ?ps = "[sample_profile ''main'' ''openai'' 0, sample_profile ''spare'' ''openai'' 7]"
  let ?d = "sample_db ?ps [] []"
  have v: "profiles_of sample_env ?d = Some ?ps" by simp
  have ok: "plane_ok sample_env ?d" by (simp add: plane_ok_def keyed_def)
  have km: "km_ok (env_km sample_env)" "codec_ok (env_profiles sample_env)"
    using sample_env_ok by (simp_all add: env_ok_def)
  have "\<exists>a d'. set_default_auth_profile sample_env 0 ''spare'' ?d = (Inr a, d') \<and> faults d' = []"
    unfolding set_default_auth_profile_def
    by (rule rmw_quiet [OF sample_db_quiet km v]) (simp add: Let_def)
  then obtain a d' where s: "set_default_auth_profile sample_env 0 ''spare'' ?d = (Inr a, d')" by blast
  from rmw_returned [OF s [unfolded set_default_auth_profile_def] km v] obtain p where a: "a = Some p"
    by (auto simp: Let_def)
  note s = s [unfolded a]
  from set_default_unique [OF sample_env_ok ok v s] s show ?thesis by blast
qed

text \<open>
  Rotation. Rotating a stored profile writes nothing; it answers with a different enabled
  profile of the same provider that has the least priority value among them, and it is blocked
  exactly when there is none.
\<close>

theorem rotation_choice:
  assumes "profiles_of env d = Some ps" and "entry ap_id ps pid = Some cur"
    and "rotate_auth_profile env pid d = (Inr res, d')"
  shows "tables d' = tables d
    \<and> (rs_blocked res \<longleftrightarrow> (\<forall>q \<in> set ps. ap_provider_id q = ap_provider_id cur \<and> ap_enabled q \<longrightarrow> ap_id q = pid))
    \<and> (\<not> rs_blocked res \<longrightarrow> (\<exists>nxt \<in> set ps. rs_auth_profile res = Some nxt
         \<and> rs_selected_auth_profile_id res = Some (ap_id nxt) \<and> ap_id nxt \<noteq> pid \<and> ap_enabled nxt
         \<and> ap_provider_id nxt = ap_provider_id cur
         \<and> (\<forall>q \<in> set ps. ap_provider_id q = ap_provider_id cur \<and> ap_enabled q \<and> ap_id q \<noteq> pid
              \<longrightarrow> ap_priority nxt \<le> ap_priority q)))"
proof -
  let ?c = "filter (\<lambda>p. ap_provider_id p = ap_provider_id cur \<and> ap_enabled p) ps"
  from profile_doc.entry_key [OF assms(2)] have cur: "ap_id cur = pid" by simp
  obtain ps' d1 where l: "load_profiles env d = (Inr ps', d1)"
    and r: "(case find (\<lambda>p. ap_id p = pid) ps' of None \<Rightarrow> ret (default_selection_result\<lparr>rs_blocked := True,
                   rs_blocked_reason := Some ''Auth profile not found.''\<rparr>)
       | Some current \<Rightarrow> (case rotate_choice ps' current of
             Some nxt \<Rightarrow> ret \<lparr>rs_matched_chain_id = None,
               rs_selected_provider_id = Some (ap_provider_id nxt),
               rs_selected_auth_profile_id = Some (ap_id nxt),
               rs_ordered_candidates = [\<lparr>cand_provider_id = ap_provider_id nxt,
                  cand_auth_profile_id = Some (ap_id nxt), cand_priority = ap_priority nxt,
                  cand_reason = Some ''Rotated to the next enabled profile for the provider.''\<rparr>],
               rs_blocked = False, rs_blocked_reason = None,
               rs_reason = Some ''Rotated to the next available auth profile.'',
               rs_provider_health = None, rs_auth_profile = Some nxt\<rparr>
           | None \<Rightarrow> ret \<lparr>rs_matched_chain_id = None,
               rs_selected_provider_id = Some (ap_provider_id current),
               rs_selected_auth_profile_id = Some (ap_id current),
               rs_ordered_candidates = [\<lparr>cand_provider_id = ap_provider_id current,
                  cand_auth_profile_id = Some (ap_id current), cand_priority = ap_priority current,
                  cand_reason = Some ''No alternative enabled profile was available.''\<rparr>],
               rs_blocked = True,
               rs_blocked_reason = Some ''No alternative enabled profile was available.'',
               rs_reason = Some ''Rotation could not find a different profile.'',
               rs_provider_health = None, rs_auth_profile = Some current\<rparr>)) d1 = (Inr res, d')"
    using assms(3) unfolding rotate_auth_profile_def by (rule bindE_InrE)
  have "ps' = ps" using docs.load_view [OF l] assms(1) by simp
  with assms(2) have f: "find (\<lambda>p. ap_id p = pid) ps' = Some cur" by (simp add: entry_def)
  show ?thesis
  proof (cases "rotate_choice ps cur")
    case None
    then have "\<forall>q \<in> set ?c. ap_id q = pid" by (simp add: rotate_choice_def find_None cur)
    with None r f \<open>ps' = ps\<close> query_frame(2) [OF assms(3)] show ?thesis by auto
  next
    case (Some nxt)
    then have n: "find (\<lambda>p. ap_id p \<noteq> pid) (sort_key ap_priority ?c) = Some nxt"
      by (simp add: rotate_choice_def cur)
    have least: "ap_priority nxt \<le> ap_priority q" if "q \<in> set ?c" "ap_id q \<noteq> pid" for q
      using find_sorted_least [OF sorted_sort_key n] that by simp
    from find_SomeD [OF n] have "nxt \<in> set ?c" "ap_id nxt \<noteq> pid" by auto
    with Some r f \<open>ps' = ps\<close> query_frame(2) [OF assms(3)] least show ?thesis by auto
  qed
qed

theorem rotation_choice_witness:
  "\<exists>res d'. rotate_auth_profile sample_env ''main''
      (sample_db [sample_profile ''main'' ''openai'' 0, sample_profile ''spare'' ''openai'' 7] [] []) = (Inr res, d')
    \<and> \<not> rs_blocked res"
proof -
  let ?ps = "[sample_profile ''main'' ''openai'' 0, sample_profile ''spare'' ''openai'' 7]"
  let ?d = "sample_db ?ps [] []"
  have v: "profiles_of sample_env ?d = Some ?ps" by simp
  have e: "entry ap_id ?ps ''main'' = Some (sample_profile ''main'' ''openai'' 0)" by (simp add: entry_def)
  have "\<exists>res. rotate_auth_profile sample_env ''main'' ?d = (Inr res, ?d)"
    using load_list_quiet [OF sample_db_quiet v]
    by (cases "rotate_choice ?ps (sample_profile ''main'' ''openai'' 0)")
      (auto simp: rotate_auth_profile_def bindE_def)
  then obtain res d' where r: "rotate_auth_profile sample_env ''main'' ?d = (Inr res, d')" by blast
  from rotation_choice [OF v e r] r show ?thesis by auto
qed

text \<open>
  Clearing cooldowns. The handler reports how many targeted providers had a cooldown; in
  the stored document no targeted provider is cooling down at any instant, and apart from the
  cooldown every record is as before.
\<close>

theorem clear_cooldowns_effect:
  assumes "env_ok env" and "plane_ok env d" and "health_of env d = Some hs"
    and "clear_cooldowns env saved target d = (Inr n, d')"
  shows "\<exists>hs'. health_of env d' = Some hs' \<and> length hs' = length hs
    \<and> n = length (filter (\<lambda>h. (target = None \<or> target = Some (ph_provider_id h)) \<and> ph_cooldown_until h \<noteq> None) hs)
    \<and> (\<forall>i < length hs. hs' ! i = (if target = None \<or> target = Some (ph_provider_id (hs ! i))
          then (hs ! i)\<lparr>ph_cooldown_until := None\<rparr> else hs ! i))
    \<and> (\<forall>h \<in> set hs'. target = None \<or> target = Some (ph_provider_id h) \<longrightarrow> (\<forall>t. \<not> is_cooling (env_chrono env) t h))"
proof -
  from assms(2,3) have k: "keyed ph_provider_id normalize_health hs" by (auto simp: plane_ok_def)
  have km: "km_ok (env_km env)" "codec_ok (env_health env)" using assms(1) by (simp_all add: env_ok_def)
  let ?f = "\<lambda>r. if cooldown_target target r then r\<lparr>ph_cooldown_until := None\<rparr> else r"
  from rmw_returned [OF assms(4) [unfolded clear_cooldowns_def] km assms(3)]
  have w: "health_of env d' = Some (map normalize_health (map ?f hs))"
    and n: "n = length (filter (cooldown_target target) hs)" by auto
  have m: "map normalize_health (map ?f hs) = map ?f hs"
    by (rule health_doc.keyed_map_norm [OF cooldowns_cleared_keyed [OF k]])
  have tgt: "cooldown_target target h \<longleftrightarrow>
      (target = None \<or> target = Some (ph_provider_id h)) \<and> ph_cooldown_until h \<noteq> None" for h
    by (auto simp: cooldown_target_def split: option.splits)
  have same: "ph_cooldown_until h = None \<Longrightarrow> h\<lparr>ph_cooldown_until := None\<rparr> = h" for h :: provider_health
    by (cases h) simp
  have f: "?f h = (if target = None \<or> target = Some (ph_provider_id h) then h\<lparr>ph_cooldown_until := None\<rparr> else h)" for h
    using same [of h] by (simp add: tgt)
  have "\<not> is_cooling (env_chrono env) t (?f h)" if "target = None \<or> target = Some (ph_provider_id h)" for t h
    unfolding f using that by (simp add: is_cooling_def)
  then have "\<forall>h \<in> set (map ?f hs). target = None \<or> target = Some (ph_provider_id h) \<longrightarrow>
      (\<forall>t. \<not> is_cooling (env_chrono env) t h)"
    by (fastforce split: if_splits)
  moreover have "\<forall>i < length hs. map ?f hs ! i = (if target = None \<or> target = Some (ph_provider_id (hs ! i))
          then (hs ! i)\<lparr>ph_cooldown_until := None\<rparr> else hs ! i)"
    using f by simp
  moreover have "n = length (filter (\<lambda>h. (target = None \<or> target = Some (ph_provider_id h)) \<and> ph_cooldown_until h \<noteq> None) hs)"
    using n by (simp only: tgt [abs_def] cong: filter_cong)
  ultimately show ?thesis using w [unfolded m] by (intro exI [of _ "map ?f hs"]) simp
qed

theorem clear_cooldowns_effect_witness:
  "\<exists>n d'. clear_cooldowns sample_env 0 None
      (sample_db [] [(new_health ''groq'' None 0 None)\<lparr>ph_cooldown_until := Some ''main''\<rparr>] []) = (Inr n, d') \<and> n = 1"
proof -
  let ?h = "(new_health ''groq'' None 0 None)\<lparr>ph_cooldown_until := Some ''main''\<rparr>"
  let ?d = "sample_db [] [?h] []"
  have "normalize_health ?h = ?h"
    by (simp add: normalize_health_def new_health_def sanitize_text_def trim_opt_def)
  then have v: "health_of sample_env ?d = Some [?h]" by simp
  have ok: "plane_ok sample_env ?d" using \<open>normalize_health ?h = ?h\<close> by (simp add: plane_ok_def keyed_def)
  have km: "km_ok (env_km sample_env)" "codec_ok (env_health sample_env)"
    using sample_env_ok by (simp_all add: env_ok_def)
  have "\<exists>n d'. clear_cooldowns sample_env 0 None ?d = (Inr n, d') \<and> faults d' = []"
    unfolding clear_cooldowns_def by (rule rmw_quiet [OF sample_db_quiet km v]) simp
  then obtain n d' where c: "clear_cooldowns sample_env 0 None ?d = (Inr n, d')" by blast
  from clear_cooldowns_effect [OF sample_env_ok ok v c] c show ?thesis by auto
qed

end
