(* ===== verification/Sender_Verification.thy ===== *)
theory Sender_Verification
  imports Kv_Storage Clock_Text
begin

text \<open>
  \<open>core/connectivity/channels/sender_verification.rs\<close>: the gate that decides whether an
  inbound message of a messaging channel is handled or its sender first needs an operator's
  approval. Three encrypted documents hold the settings, the pending requests and the approved
  senders.

  Field prefixes: \<open>cs_\<close> (\<open>ChannelSenderVerificationSettings\<close>), \<open>si_\<close>
  (\<open>SenderIdentity\<close>), \<open>pr_\<close> (\<open>PendingSenderRequest\<close>), \<open>ad_\<close>
  (\<open>ApprovedSender\<close>). \<open>sv_env\<close> holds the cipher, chrono and the serde codecs;
  \<open>now\<close> and \<open>saved\<close> are clock readings.

  \<open>evaluate_sender_with_rules\<close> reads the approvals without the process lock and then
  takes it to record the request, so it is modelled as two steps, \<open>evaluate_check\<close> and
  \<open>evaluate_enqueue\<close>, and \<open>sv_step\<close> lets other operations run between them.
  Operations that hold the lock are one step each.
\<close>

section \<open>Data\<close>

definition SETTINGS_KEY :: string where "SETTINGS_KEY = ''sender_verification:settings:v1''"
definition PENDING_KEY :: string where "PENDING_KEY = ''sender_verification:pending:v1''"
definition APPROVED_KEY :: string where "APPROVED_KEY = ''sender_verification:approved:v1''"

datatype sender_channel =
  GoogleChat | Signal | IMessage | Line | Slack | Teams | WeChat | Qq | Whatsapp

fun channel_as_str :: "sender_channel \<Rightarrow> string" where
  "channel_as_str GoogleChat = ''google_chat''"
| "channel_as_str Signal = ''signal''"
| "channel_as_str IMessage = ''imessage''"
| "channel_as_str Line = ''line''"
| "channel_as_str Slack = ''slack''"
| "channel_as_str Teams = ''teams''"
| "channel_as_str WeChat = ''wechat''"
| "channel_as_str Qq = ''qq''"
| "channel_as_str Whatsapp = ''whatsapp''"

datatype trust_policy = Open | Pairing

record channel_settings =
  cs_policy :: trust_policy
  cs_allowed_senders :: "string list"

definition default_channel_settings :: channel_settings where
  "default_channel_settings = \<lparr>cs_policy = Open, cs_allowed_senders = []\<rparr>"

record verification_settings =
  vs_google_chat :: channel_settings
  vs_signal :: channel_settings
  vs_imessage :: channel_settings
  vs_line :: channel_settings
  vs_slack :: channel_settings
  vs_teams :: channel_settings
  vs_wechat :: channel_settings
  vs_qq :: channel_settings

definition default_settings :: verification_settings where
  "default_settings = \<lparr>vs_google_chat = default_channel_settings, vs_signal = default_channel_settings,
     vs_imessage = default_channel_settings, vs_line = default_channel_settings,
     vs_slack = default_channel_settings, vs_teams = default_channel_settings,
     vs_wechat = default_channel_settings, vs_qq = default_channel_settings\<rparr>"

record sender_identity =
  si_channel :: sender_channel
  si_sender_id :: string
  si_sender_label :: "string option"
  si_scope_id :: "string option"
  si_scope_label :: "string option"
  si_conversation_id :: "string option"
  si_message_preview :: "string option"

record pending_request =
  pr_key :: string
  pr_channel :: sender_channel
  pr_sender_id :: string
  pr_sender_label :: "string option"
  pr_scope_id :: "string option"
  pr_scope_label :: "string option"
  pr_conversation_id :: "string option"
  pr_first_seen_at :: string
  pr_last_seen_at :: string
  pr_occurrences :: nat
  pr_message_preview :: "string option"

record approved_sender =
  ad_key :: string
  ad_channel :: sender_channel
  ad_sender_id :: string
  ad_sender_label :: "string option"
  ad_scope_id :: "string option"
  ad_scope_label :: "string option"
  ad_approved_at :: string
  ad_approved_by :: "string option"
  ad_conversation_id :: "string option"

record verification_snapshot =
  sn_settings :: verification_settings
  sn_pending :: "pending_request list"
  sn_approved :: "approved_sender list"

datatype trust_decision = Allowed | NeedsApproval pending_request bool

section \<open>Normalisation and the approval key\<close>

definition truncate_preview :: "string option \<Rightarrow> string option" where
  "truncate_preview text = map_option (take 240) (trim_opt text)"

definition normalize_sender_value :: "sender_channel \<Rightarrow> string \<Rightarrow> string" where
  "normalize_sender_value channel value =
    (let trimmed = trim value in
     if trimmed = [] then []
     else if channel = Whatsapp
     then (let digits = filter is_digit trimmed
           in if digits = [] then ascii_lower trimmed else digits)
     else ascii_lower trimmed)"

definition normalize_optional_scope :: "sender_channel \<Rightarrow> string option \<Rightarrow> string option" where
  "normalize_optional_scope channel value = (case value of None \<Rightarrow> None
     | Some inner \<Rightarrow> (let v = normalize_sender_value channel inner in if v = [] then None else Some v))"

definition approval_key :: "sender_channel \<Rightarrow> string \<Rightarrow> string option \<Rightarrow> string result" where
  "approval_key channel sender_id scope_id =
    (let sender = normalize_sender_value channel sender_id in
     if sender = [] then Inl (Err ''sender id is required'')
     else (let scope = (case normalize_optional_scope channel scope_id of Some s \<Rightarrow> s | None \<Rightarrow> ''_global'')
           in Inr (channel_as_str channel @ ''::'' @ scope @ ''::'' @ sender)))"

definition identity_key :: "sender_identity \<Rightarrow> string result" where
  "identity_key ident = approval_key (si_channel ident) (si_sender_id ident) (si_scope_id ident)"

section \<open>The stored documents\<close>

record 'b sv_env =
  sv_km :: "'b aead option"
  sv_chrono :: chrono
  sv_settings :: "(verification_settings, 'b) codec"
  sv_pending :: "(pending_request list, 'b) codec"
  sv_approved :: "(approved_sender list, 'b) codec"

definition sv_ok :: "'b sv_env \<Rightarrow> bool" where
  "sv_ok env \<longleftrightarrow> km_ok (sv_km env) \<and> codec_ok (sv_settings env) \<and> codec_ok (sv_pending env)
     \<and> codec_ok (sv_approved env)"

definition SENDER_PAYLOAD :: string where "SENDER_PAYLOAD = ''sender verification''"

definition load_pending :: "'b sv_env \<Rightarrow> ('b kv_db, pending_request list) io" where
  "load_pending env = load_json SENDER_PAYLOAD (sv_km env) (sv_pending env) [] PENDING_KEY"

definition save_pending :: "'b sv_env \<Rightarrow> int \<Rightarrow> pending_request list \<Rightarrow> ('b kv_db, unit) io" where
  "save_pending env saved items =
     save_json SENDER_PAYLOAD (sv_km env) (sv_pending env) (to_rfc3339 (sv_chrono env) saved) PENDING_KEY items"

definition load_approved :: "'b sv_env \<Rightarrow> ('b kv_db, approved_sender list) io" where
  "load_approved env = load_json SENDER_PAYLOAD (sv_km env) (sv_approved env) [] APPROVED_KEY"

definition save_approved :: "'b sv_env \<Rightarrow> int \<Rightarrow> approved_sender list \<Rightarrow> ('b kv_db, unit) io" where
  "save_approved env saved items =
     save_json SENDER_PAYLOAD (sv_km env) (sv_approved env) (to_rfc3339 (sv_chrono env) saved) APPROVED_KEY items"

text \<open>Unreadable settings fall back to the defaults, unreadable lists are errors.\<close>

definition load_settings :: "'b sv_env \<Rightarrow> ('b kv_db, verification_settings) io" where
  "load_settings env = bindE (get_encrypted (sv_km env) SETTINGS_KEY) (\<lambda>r. case r of
     None \<Rightarrow> ret default_settings
   | Some bytes \<Rightarrow> (case from_slice (sv_settings env) bytes of
        Some settings \<Rightarrow> ret settings
      | None \<Rightarrow> ret default_settings))"

definition save_settings :: "'b sv_env \<Rightarrow> int \<Rightarrow> verification_settings \<Rightarrow> ('b kv_db, unit) io" where
  "save_settings env saved settings =
     save_json SENDER_PAYLOAD (sv_km env) (sv_settings env) (to_rfc3339 (sv_chrono env) saved) SETTINGS_KEY settings"

text \<open>\<open>sort_by\<close> with the arguments swapped: descending, equal elements in their order.\<close>

definition sort_desc :: "('a \<Rightarrow> string) \<Rightarrow> 'a list \<Rightarrow> 'a list" where
  "sort_desc k xs = rev (sort_key k (rev xs))"

definition list_pending :: "'b sv_env \<Rightarrow> ('b kv_db, pending_request list) io" where
  "list_pending env = bindE (load_pending env) (\<lambda>items. ret (sort_desc pr_last_seen_at items))"

definition list_approved :: "'b sv_env \<Rightarrow> ('b kv_db, approved_sender list) io" where
  "list_approved env = bindE (load_approved env) (\<lambda>items. ret (sort_desc ad_approved_at items))"

definition load_snapshot :: "'b sv_env \<Rightarrow> ('b kv_db, verification_snapshot) io" where
  "load_snapshot env =
     bindE (load_settings env) (\<lambda>settings.
     bindE (list_pending env) (\<lambda>pending.
     bindE (list_approved env) (\<lambda>approved.
       ret \<lparr>sn_settings = settings, sn_pending = pending, sn_approved = approved\<rparr>)))"

section \<open>The gate\<close>

definition is_sender_approved :: "'b sv_env \<Rightarrow> sender_identity \<Rightarrow> ('b kv_db, bool) io" where
  "is_sender_approved env ident =
     bindE (lift_result (identity_key ident)) (\<lambda>key.
     bindE (load_approved env) (\<lambda>approved.
       ret (list_ex (\<lambda>entry. ad_key entry = key) approved)))"

definition allow_listed :: "sender_channel \<Rightarrow> string list \<Rightarrow> string \<Rightarrow> bool" where
  "allow_listed channel allowed normalized_sender \<longleftrightarrow>
     list_ex (\<lambda>value. value \<noteq> [] \<and> value = normalized_sender) (map (normalize_sender_value channel) allowed)"

text \<open>Whether the message is allowed without asking: the part before the lock.\<close>

definition evaluate_check ::
    "'b sv_env \<Rightarrow> sender_identity \<Rightarrow> trust_policy \<Rightarrow> string list \<Rightarrow> ('b kv_db, bool) io" where
  "evaluate_check env ident policy allowed =
    (if policy = Open then ret True
     else (let normalized_sender = normalize_sender_value (si_channel ident) (si_sender_id ident) in
       if normalized_sender = [] then fail (Err ''sender id is required'')
       else if allow_listed (si_channel ident) allowed normalized_sender then ret True
       else is_sender_approved env ident))"

definition seen_again :: "string \<Rightarrow> sender_identity \<Rightarrow> pending_request \<Rightarrow> pending_request" where
  "seen_again now ident e = e\<lparr>pr_last_seen_at := now,
     pr_occurrences := sat_add_u32 (pr_occurrences e) 1,
     pr_sender_label := (if pr_sender_label e = None then si_sender_label ident else pr_sender_label e),
     pr_scope_label := (if pr_scope_label e = None then si_scope_label ident else pr_scope_label e),
     pr_conversation_id := (if pr_conversation_id e = None then si_conversation_id ident else pr_conversation_id e),
     pr_message_preview := (if pr_message_preview e = None
        then truncate_preview (si_message_preview ident) else pr_message_preview e)\<rparr>"

definition new_request :: "string \<Rightarrow> string \<Rightarrow> sender_identity \<Rightarrow> pending_request" where
  "new_request key now ident = \<lparr>pr_key = key, pr_channel = si_channel ident,
     pr_sender_id = trim (si_sender_id ident), pr_sender_label = si_sender_label ident,
     pr_scope_id = map_option trim (si_scope_id ident), pr_scope_label = si_scope_label ident,
     pr_conversation_id = si_conversation_id ident, pr_first_seen_at = now, pr_last_seen_at = now,
     pr_occurrences = 1, pr_message_preview = truncate_preview (si_message_preview ident)\<rparr>"

definition evaluate_enqueue ::
    "'b sv_env \<Rightarrow> int \<Rightarrow> int \<Rightarrow> sender_identity \<Rightarrow> ('b kv_db, trust_decision) io" where
  "evaluate_enqueue env now saved ident =
     bindE (load_pending env) (\<lambda>pending.
     bindE (lift_result (identity_key ident)) (\<lambda>key.
       let stamp = to_rfc3339 (sv_chrono env) now in
       case position (\<lambda>e. pr_key e = key) pending of
         Some i \<Rightarrow>
          (let request = seen_again stamp ident (pending ! i)
           in bindE (save_pending env saved (pending[i := request])) (\<lambda>_. ret (NeedsApproval request False)))
       | None \<Rightarrow>
          (let request = new_request key stamp ident
           in bindE (save_pending env saved (pending @ [request])) (\<lambda>_. ret (NeedsApproval request True)))))"

definition evaluate_sender_with_rules ::
    "'b sv_env \<Rightarrow> int \<Rightarrow> int \<Rightarrow> sender_identity \<Rightarrow> trust_policy \<Rightarrow> string list \<Rightarrow> ('b kv_db, trust_decision) io" where
  "evaluate_sender_with_rules env now saved ident policy allowed =
     bindE (evaluate_check env ident policy allowed) (\<lambda>ok.
       if ok then ret Allowed else evaluate_enqueue env now saved ident)"

definition approved_entry :: "string \<Rightarrow> string \<Rightarrow> sender_identity \<Rightarrow> string option \<Rightarrow> approved_sender" where
  "approved_entry key now ident approved_by = \<lparr>ad_key = key, ad_channel = si_channel ident,
     ad_sender_id = trim (si_sender_id ident), ad_sender_label = si_sender_label ident,
     ad_scope_id = map_option trim (si_scope_id ident), ad_scope_label = si_scope_label ident,
     ad_approved_at = now, ad_approved_by = trim_opt approved_by,
     ad_conversation_id = si_conversation_id ident\<rparr>"

definition approve_sender ::
    "'b sv_env \<Rightarrow> int \<Rightarrow> int \<Rightarrow> int \<Rightarrow> sender_identity \<Rightarrow> string option \<Rightarrow> ('b kv_db, approved_sender) io" where
  "approve_sender env now saved saved' ident approved_by =
     bindE (load_approved env) (\<lambda>approved.
     bindE (load_pending env) (\<lambda>pending.
     bindE (lift_result (identity_key ident)) (\<lambda>key.
       let e = approved_entry key (to_rfc3339 (sv_chrono env) now) ident approved_by in
       bindE (save_approved env saved (filter (\<lambda>a. ad_key a \<noteq> key) approved @ [e])) (\<lambda>_.
       bindE (save_pending env saved' (filter (\<lambda>p. pr_key p \<noteq> key) pending)) (\<lambda>_.
       ret e)))))"

definition revoke_sender ::
    "'b sv_env \<Rightarrow> int \<Rightarrow> sender_channel \<Rightarrow> string \<Rightarrow> string option \<Rightarrow> ('b kv_db, bool) io" where
  "revoke_sender env saved channel sender_id scope_id =
     bindE (load_approved env) (\<lambda>approved.
     bindE (lift_result (approval_key channel sender_id scope_id)) (\<lambda>key.
       let kept = filter (\<lambda>a. ad_key a \<noteq> key) approved in
       if length kept = length approved then ret False
       else bindE (save_approved env saved kept) (\<lambda>_. ret True)))"

section \<open>What the documents read as, and the machine\<close>

abbreviation pending_of :: "'b sv_env \<Rightarrow> 'b kv_db \<Rightarrow> pending_request list option" where
  "pending_of env \<equiv> doc_view (sv_km env) (sv_pending env) [] PENDING_KEY"

abbreviation approved_of :: "'b sv_env \<Rightarrow> 'b kv_db \<Rightarrow> approved_sender list option" where
  "approved_of env \<equiv> doc_view (sv_km env) (sv_approved env) [] APPROVED_KEY"

definition pending_ok :: "pending_request list \<Rightarrow> bool" where
  "pending_ok ps \<longleftrightarrow> distinct (map pr_key ps) \<and> (\<forall>p \<in> set ps.
     approval_key (pr_channel p) (pr_sender_id p) (pr_scope_id p) = Inr (pr_key p)
     \<and> 1 \<le> pr_occurrences p \<and> pr_occurrences p \<le> u32_max)"

definition approved_ok :: "approved_sender list \<Rightarrow> bool" where
  "approved_ok as \<longleftrightarrow> distinct (map ad_key as) \<and> (\<forall>a \<in> set as.
     approval_key (ad_channel a) (ad_sender_id a) (ad_scope_id a) = Inr (ad_key a))"

definition sv_inv :: "'b sv_env \<Rightarrow> 'b kv_db \<Rightarrow> bool" where
  "sv_inv env d \<longleftrightarrow> (\<exists>ps as. pending_of env d = Some ps \<and> pending_ok ps
     \<and> approved_of env d = Some as \<and> approved_ok as)"

text \<open>
  The operations of all tasks, interleaved. Each rule runs one atomic part: the check of an
  evaluation writes nothing, so only its second part is a step.
\<close>

inductive sv_step :: "'b sv_env \<Rightarrow> 'b kv_db \<Rightarrow> 'b kv_db \<Rightarrow> bool" for env where
  enqueue: "evaluate_enqueue env now saved ident d = (r, d') \<Longrightarrow> sv_step env d d'"
| approve: "approve_sender env now saved saved' ident who d = (r, d') \<Longrightarrow> sv_step env d d'"
| revoke: "revoke_sender env saved channel sender_id scope_id d = (r, d') \<Longrightarrow> sv_step env d d'"
| settings: "save_settings env saved s d = (r, d') \<Longrightarrow> sv_step env d d'"

inductive sv_run :: "'b sv_env \<Rightarrow> 'b kv_db \<Rightarrow> 'b kv_db \<Rightarrow> bool" for env where
  sv_none: "sv_run env d d"
| sv_more: "sv_run env d d1 \<Longrightarrow> sv_step env d1 d2 \<Longrightarrow> sv_run env d d2"

lemma sv_keys [simp]:
  "PENDING_KEY \<noteq> APPROVED_KEY" "APPROVED_KEY \<noteq> PENDING_KEY" "SETTINGS_KEY \<noteq> PENDING_KEY"
  "SETTINGS_KEY \<noteq> APPROVED_KEY" "PENDING_KEY \<noteq> SETTINGS_KEY" "APPROVED_KEY \<noteq> SETTINGS_KEY"
  by (simp_all add: PENDING_KEY_def APPROVED_KEY_def SETTINGS_KEY_def)

lemmas sv_access = load_pending_def save_pending_def load_approved_def save_approved_def

section \<open>Facts about keys\<close>

lemma normalize_trim [simp]: "normalize_sender_value c (trim v) = normalize_sender_value c v"
  by (simp add: normalize_sender_value_def)

lemma normalize_scope_trim [simp]:
  "normalize_optional_scope c (map_option trim v) = normalize_optional_scope c v"
  by (cases v) (simp_all add: normalize_optional_scope_def)

lemma approval_key_trim [simp]:
  "approval_key c (trim s) (map_option trim sc) = approval_key c s sc"
  by (simp add: approval_key_def Let_def)

lemma new_request_simps [simp]:
  "pr_key (new_request k t ident) = k" "pr_occurrences (new_request k t ident) = 1"
  "pr_first_seen_at (new_request k t ident) = t" "pr_last_seen_at (new_request k t ident) = t"
  "approval_key (pr_channel (new_request k t ident)) (pr_sender_id (new_request k t ident))
     (pr_scope_id (new_request k t ident)) = identity_key ident"
  by (simp_all add: new_request_def identity_key_def)

lemma seen_again_simps [simp]:
  "pr_key (seen_again t ident e) = pr_key e" "pr_channel (seen_again t ident e) = pr_channel e"
  "pr_sender_id (seen_again t ident e) = pr_sender_id e" "pr_scope_id (seen_again t ident e) = pr_scope_id e"
  "pr_first_seen_at (seen_again t ident e) = pr_first_seen_at e"
  "pr_last_seen_at (seen_again t ident e) = t"
  "pr_occurrences (seen_again t ident e) = sat_add_u32 (pr_occurrences e) 1"
  by (simp_all add: seen_again_def)

lemma approved_entry_simps [simp]:
  "ad_key (approved_entry k t ident w) = k"
  "approval_key (ad_channel (approved_entry k t ident w)) (ad_sender_id (approved_entry k t ident w))
     (ad_scope_id (approved_entry k t ident w)) = identity_key ident"
  by (simp_all add: approved_entry_def identity_key_def)

section \<open>The handlers as read-modify-write\<close>

definition enqueue_decision :: "string \<Rightarrow> sender_identity \<Rightarrow> pending_request list
    \<Rightarrow> (pending_request list, trust_decision) decision" where
  "enqueue_decision stamp ident pending = (case identity_key ident of
     Inl e \<Rightarrow> Abort e
   | Inr key \<Rightarrow> (case position (\<lambda>e. pr_key e = key) pending of
       Some i \<Rightarrow> Store (pending[i := seen_again stamp ident (pending ! i)])
                   (NeedsApproval (seen_again stamp ident (pending ! i)) False)
     | None \<Rightarrow> Store (pending @ [new_request key stamp ident]) (NeedsApproval (new_request key stamp ident) True)))"

definition revoke_decision :: "string result \<Rightarrow> approved_sender list \<Rightarrow> (approved_sender list, bool) decision" where
  "revoke_decision k approved = (case k of
     Inl e \<Rightarrow> Abort e
   | Inr key \<Rightarrow> (if list_ex (\<lambda>a. ad_key a = key) approved
       then Store (filter (\<lambda>a. ad_key a \<noteq> key) approved) True else Keep False))"

lemma evaluate_enqueue_rmw:
  "evaluate_enqueue env now saved ident = rmw (load_pending env) (save_pending env saved)
     (enqueue_decision (to_rfc3339 (sv_chrono env) now) ident)"
  unfolding evaluate_enqueue_def rmw_def enqueue_decision_def
  by (rule arg_cong [where f = "bindE (load_pending env)"], rule ext)
    (auto simp: bindE_def fun_eq_iff Let_def split: sum.splits option.splits)

lemma filter_length_list_ex: "length (filter (\<lambda>a. \<not> P a) xs) = length xs \<longleftrightarrow> \<not> list_ex P xs"
proof (induction xs)
  case (Cons x xs)
  then show ?case using length_filter_le [of "\<lambda>a. \<not> P a" xs] by (auto simp del: length_filter_le)
qed simp

lemma revoke_sender_rmw:
  "revoke_sender env saved c s sc = rmw (load_approved env) (save_approved env saved) (revoke_decision (approval_key c s sc))"
  unfolding revoke_sender_def rmw_def revoke_decision_def
  by (rule arg_cong [where f = "bindE (load_approved env)"], rule ext)
    (auto simp: bindE_def fun_eq_iff Let_def filter_length_list_ex split: sum.splits)

lemma map_update_id: "i < length xs \<Longrightarrow> f y = f (xs ! i) \<Longrightarrow> map f (xs[i := y]) = map f xs"
  by (metis list_update_id map_update nth_map)

lemma enqueue_decision_ok:
  assumes "pending_ok ps" and "enqueue_decision t ident ps = Store ps' a"
  shows "pending_ok ps'"
proof -
  obtain key where key: "identity_key ident = Inr key"
    using assms(2) by (auto simp: enqueue_decision_def split: sum.splits)
  show ?thesis
  proof (cases "position (\<lambda>e. pr_key e = key) ps")
    case None
    with assms(2) key have "ps' = ps @ [new_request key t ident]" by (simp add: enqueue_decision_def)
    with assms(1) None key show ?thesis by (auto simp: pending_ok_def position_None u32_max_def)
  next
    case (Some i)
    note i = position_SomeD [OF Some]
    from Some assms(2) key have p: "ps' = ps[i := seen_again t ident (ps ! i)]" by (simp add: enqueue_decision_def)
    have "map pr_key ps' = map pr_key ps" using p i by (simp add: map_update_id)
    moreover have "q = seen_again t ident (ps ! i) \<or> q \<in> set ps" if "q \<in> set ps'" for q
      using that p set_update_subset_insert by fastforce
    moreover have "ps ! i \<in> set ps" using i by simp
    ultimately show ?thesis using assms(1)
      by (fastforce simp: pending_ok_def sat_add_u32_def u32_max_def)
  qed
qed

lemma distinct_map_filter_key: "distinct (map k xs) \<Longrightarrow> distinct (map k (filter P xs))"
  by (induction xs) auto

lemma approved_ok_filter: "approved_ok as \<Longrightarrow> approved_ok (filter P as)"
  by (simp add: approved_ok_def distinct_map_filter_key)

lemma pending_ok_filter: "pending_ok ps \<Longrightarrow> pending_ok (filter P ps)"
  by (simp add: pending_ok_def distinct_map_filter_key)

lemma approved_ok_replace:
  "approved_ok as \<Longrightarrow> identity_key ident = Inr key \<Longrightarrow>
    approved_ok (filter (\<lambda>a. ad_key a \<noteq> key) as @ [approved_entry key t ident w])"
  by (auto simp: approved_ok_def distinct_map_filter_key)

text \<open>Each operation leaves the other documents alone.\<close>

lemma doc_view_frame: "other_keys k d' = other_keys k d \<Longrightarrow> k' \<noteq> k \<Longrightarrow>
    doc_view km c dflt k' d' = doc_view km c dflt k' d"
  by (simp add: doc_view_def other_keys_def) (metis fun_upd_other)

lemma enqueue_frame: "evaluate_enqueue env now saved ident d = (r, d') \<Longrightarrow> approved_of env d' = approved_of env d"
  unfolding evaluate_enqueue_rmw sv_access by (auto dest!: doc.rmw_rest simp: doc_view_frame)

lemma revoke_frame: "revoke_sender env saved c s sc d = (r, d') \<Longrightarrow> pending_of env d' = pending_of env d"
  unfolding revoke_sender_rmw sv_access by (auto dest!: doc.rmw_rest simp: doc_view_frame)

lemma settings_frame:
  "save_settings env saved s d = (r, d') \<Longrightarrow> pending_of env d' = pending_of env d \<and> approved_of env d' = approved_of env d"
  unfolding save_settings_def by (auto dest!: doc.save_rest simp: doc_view_frame)

lemma sv_reload: "sv_ok env \<Longrightarrow> doc_reload (sv_km env) (sv_pending env) ps = Some ps"
  "sv_ok env \<Longrightarrow> doc_reload (sv_km env) (sv_approved env) as = Some as"
  by (simp_all add: sv_ok_def doc_reload_ok)

lemma save_approved_effect:
  "save_approved env t as d = (Inl e, d') \<Longrightarrow> approved_of env d' = approved_of env d \<and> pending_of env d' = pending_of env d"
  "sv_ok env \<Longrightarrow> save_approved env t as d = (Inr u, d') \<Longrightarrow> approved_of env d' = Some as \<and> pending_of env d' = pending_of env d"
  unfolding save_approved_def
  by (frule doc.save_error [where dflt = "[]"], drule doc.save_rest, simp add: doc_view_frame)
    (frule doc.save_view [where dflt = "[]"], drule doc.save_rest, simp add: doc_view_frame sv_reload)

lemma save_pending_effect:
  "save_pending env t ps d = (Inl e, d') \<Longrightarrow> approved_of env d' = approved_of env d \<and> pending_of env d' = pending_of env d"
  "sv_ok env \<Longrightarrow> save_pending env t ps d = (Inr u, d') \<Longrightarrow> pending_of env d' = Some ps \<and> approved_of env d' = approved_of env d"
  unfolding save_pending_def
  by (frule doc.save_error [where dflt = "[]"], drule doc.save_rest, simp add: doc_view_frame)
    (frule doc.save_view [where dflt = "[]"], drule doc.save_rest, simp add: doc_view_frame sv_reload)

text \<open>
  Approval, statement by statement: it reads both documents, stores the approval, and then
  drops the request; a fault between the two writes leaves the approval in place.
\<close>

lemma approve_cases:
  assumes "sv_ok env" and "approve_sender env now saved saved' ident w d = (r, d')"
    and "approved_of env d = Some as" and "pending_of env d = Some ps"
  obtains (unchanged) e where "r = Inl e" and "approved_of env d' = Some as" and "pending_of env d' = Some ps"
  | (half) e key where "r = Inl e" and "identity_key ident = Inr key"
      and "approved_of env d' = Some (filter (\<lambda>a. ad_key a \<noteq> key) as @ [approved_entry key (to_rfc3339 (sv_chrono env) now) ident w])"
      and "pending_of env d' = Some ps"
  | (full) key where "r = Inr (approved_entry key (to_rfc3339 (sv_chrono env) now) ident w)" and "identity_key ident = Inr key"
      and "approved_of env d' = Some (filter (\<lambda>a. ad_key a \<noteq> key) as @ [approved_entry key (to_rfc3339 (sv_chrono env) now) ident w])"
      and "pending_of env d' = Some (filter (\<lambda>p. pr_key p \<noteq> key) ps)"
proof -
  have frames: "approved_of env d1 = Some as \<and> pending_of env d1 = Some ps" if "tables d1 = tables d" for d1 :: "'a kv_db"
    using that assms(3,4) by (simp add: doc_view_def)
  have la: "tables d2 = tables d1 \<and> (\<forall>v. q = Inr v \<longrightarrow> approved_of env d1 = Some v)" if "load_approved env d1 = (q, d2)" for q and d1 d2 :: "'a kv_db"
    using that by (auto simp: load_approved_def dest: load_json_frame doc.load_view)
  have lp: "tables d2 = tables d1 \<and> (\<forall>v. q = Inr v \<longrightarrow> pending_of env d1 = Some v)" if "load_pending env d1 = (q, d2)" for q and d1 d2 :: "'a kv_db"
    using that by (auto simp: load_pending_def dest: load_json_frame doc.load_view)
  show thesis
    using assms(2) unfolding approve_sender_def
  proof (cases rule: bindE_cases)
    case (stop e)
    with la frames unchanged show ?thesis by blast
  next
    case (step as' d1)
    with la [OF step(1)] frames have as': "as' = as" "tables d1 = tables d" using assms(3) by auto
    from step(2) show ?thesis
    proof (cases rule: bindE_cases)
      case (stop e)
      with lp as' frames unchanged show ?thesis by metis
    next
      case (step ps' d2)
      with lp [OF step(1)] frames [OF as'(2)] as' have ps': "ps' = ps" "tables d2 = tables d" by auto
      from step(2) show ?thesis
      proof (cases rule: bindE_cases)
        case (stop e)
        with ps' frames unchanged show ?thesis by auto
      next
        case (step key d3)
        then have key: "identity_key ident = Inr key" and d3: "d3 = d2" by auto
        let ?e = "approved_entry key (to_rfc3339 (sv_chrono env) now) ident w"
        let ?as = "filter (\<lambda>a. ad_key a \<noteq> key) as @ [?e]"
        note fr = frames [OF ps'(2)]
        from step(2) show ?thesis unfolding Let_def as'(1) ps'(1) d3
        proof (cases rule: bindE_cases)
          case (stop e)
          with fr unchanged save_approved_effect(1) [OF stop(1)] show ?thesis by simp
        next
          case (step u d4)
          with fr save_approved_effect(2) [OF assms(1) step(1)]
          have a4: "approved_of env d4 = Some ?as" and p4: "pending_of env d4 = Some ps" by simp_all
          from step(2) show ?thesis
          proof (cases rule: bindE_cases)
            case (stop e)
            with half key a4 p4 save_pending_effect(1) [OF stop(1)] show ?thesis by simp
          next
            case (step u' d5)
            with full key a4 p4 save_pending_effect(2) [OF assms(1) step(1)] show ?thesis by auto
          qed
        qed
      qed
    qed
  qed
qed

text \<open>The invariant survives every step of every task.\<close>

lemma sv_inv_step:
  assumes "sv_ok env" and "sv_inv env d" and "sv_step env d d'"
  shows "sv_inv env d'"
proof -
  from assms(2) obtain ps as where inv: "pending_of env d = Some ps" "pending_ok ps"
    "approved_of env d = Some as" "approved_ok as" unfolding sv_inv_def by blast
  from assms(3) show ?thesis
  proof cases
    case (enqueue now saved ident r)
    obtain ps' where "pending_of env d' = Some ps'" "pending_ok ps'"
      by (rule doc.rmw_invariant [OF enqueue [unfolded evaluate_enqueue_rmw sv_access] inv(1), where P = pending_ok])
        (use inv(2) enqueue_decision_ok [OF inv(2)] sv_reload(1) [OF assms(1)] in auto)
    with inv enqueue_frame [OF enqueue] show ?thesis by (auto simp: sv_inv_def)
  next
    case (revoke saved c s sc r)
    obtain as' where "approved_of env d' = Some as'" "approved_ok as'"
      by (rule doc.rmw_invariant [OF revoke [unfolded revoke_sender_rmw sv_access] inv(3), where P = approved_ok])
        (use inv(4) approved_ok_filter [OF inv(4)] sv_reload(2) [OF assms(1)] in
          \<open>auto simp: revoke_decision_def split: sum.splits if_splits\<close>)
    with inv revoke_frame [OF revoke] show ?thesis by (auto simp: sv_inv_def)
  next
    case (settings saved s r)
    with inv settings_frame [OF settings] show ?thesis by (auto simp: sv_inv_def)
  next
    case (approve now saved saved' ident w r)
    show ?thesis
      by (rule approve_cases [OF assms(1) approve inv(3,1)])
        (use inv approved_ok_replace pending_ok_filter in \<open>auto simp: sv_inv_def\<close>)
  qed
qed

section \<open>An environment for closed examples\<close>

datatype sv_letter = LSettings verification_settings | LPending "pending_request list" | LApproved "approved_sender list"

fun as_settings :: "sv_letter list \<Rightarrow> verification_settings option" where
  "as_settings [LSettings x] = Some x" | "as_settings _ = None"

fun as_pending :: "sv_letter list \<Rightarrow> pending_request list option" where
  "as_pending [LPending x] = Some x" | "as_pending _ = None"

fun as_approved :: "sv_letter list \<Rightarrow> approved_sender list option" where
  "as_approved [LApproved x] = Some x" | "as_approved _ = None"

definition sv_sample :: "sv_letter sv_env" where
  "sv_sample = \<lparr>sv_km = None, sv_chrono = decimal_chrono,
     sv_settings = \<lparr>to_vec = (\<lambda>x. Some [LSettings x]), from_slice = as_settings\<rparr>,
     sv_pending = \<lparr>to_vec = (\<lambda>x. Some [LPending x]), from_slice = as_pending\<rparr>,
     sv_approved = \<lparr>to_vec = (\<lambda>x. Some [LApproved x]), from_slice = as_approved\<rparr>\<rparr>"

lemma sv_sample_ok: "sv_ok sv_sample"
  by (simp add: sv_ok_def sv_sample_def km_ok_def codec_ok_def)

lemma sv_inv_empty: "sv_inv env empty_db"
  by (simp add: sv_inv_def doc_view_def empty_db_def pending_ok_def approved_ok_def)

text \<open>Without faults, accesses to readable documents succeed.\<close>

lemma sv_quiet:
  assumes "faults d = []"
  shows "approved_of env d = Some as \<Longrightarrow> load_approved env d = (Inr as, d)"
    and "pending_of env d = Some ps \<Longrightarrow> load_pending env d = (Inr ps, d)"
    and "sv_ok env \<Longrightarrow> \<exists>d'. save_approved env t xs d = (Inr (), d') \<and> faults d' = []"
    and "sv_ok env \<Longrightarrow> \<exists>d'. save_pending env t ys d = (Inr (), d') \<and> faults d' = []"
proof -
  show "approved_of env d = Some as \<Longrightarrow> load_approved env d = (Inr as, d)"
    and "pending_of env d = Some ps \<Longrightarrow> load_pending env d = (Inr ps, d)"
    using assms by (auto simp: sv_access load_json_quiet doc_view_def split: option.splits)
  show "sv_ok env \<Longrightarrow> \<exists>d'. save_approved env t xs d = (Inr (), d') \<and> faults d' = []"
    unfolding save_approved_def by (rule save_json_quiet) (use assms in \<open>auto simp: sv_ok_def\<close>)
  show "sv_ok env \<Longrightarrow> \<exists>d'. save_pending env t ys d = (Inr (), d') \<and> faults d' = []"
    unfolding save_pending_def by (rule save_json_quiet) (use assms in \<open>auto simp: sv_ok_def\<close>)
qed

section \<open>The gate decides by allow list and approval\<close>

lemma load_approved_effect: "load_approved env d = (r, d') \<Longrightarrow> tables d' = tables d"
  "load_approved env d = (Inr as, d') \<Longrightarrow> approved_of env d = Some as"
  by (auto simp: load_approved_def dest: load_json_frame doc.load_view)

lemma evaluate_check_result:
  assumes "evaluate_check env ident Pairing allowed d = (Inr ok, d')"
  shows "tables d' = tables d"
    and "approved_of env d = Some as \<Longrightarrow> ok \<longleftrightarrow>
      (\<exists>v \<in> set allowed. normalize_sender_value (si_channel ident) v = normalize_sender_value (si_channel ident) (si_sender_id ident))
      \<or> (\<exists>a \<in> set as. identity_key ident = Inr (ad_key a))"
    and "\<exists>key. identity_key ident = Inr key"
proof -
  let ?n = "normalize_sender_value (si_channel ident)"
  have ne: "?n (si_sender_id ident) \<noteq> []" using assms by (auto simp: evaluate_check_def Let_def split: if_splits)
  then obtain key where key: "identity_key ident = Inr key"
    by (auto simp: identity_key_def approval_key_def Let_def)
  then show "\<exists>key. identity_key ident = Inr key" by blast
  have al: "allow_listed (si_channel ident) allowed (?n (si_sender_id ident)) \<longleftrightarrow>
      (\<exists>v \<in> set allowed. ?n v = ?n (si_sender_id ident))"
    using ne by (simp add: allow_listed_def list_ex_iff) metis
  show "tables d' = tables d"
    using assms ne by (auto simp: evaluate_check_def is_sender_approved_def Let_def split: if_splits
        elim!: bindE_InrE dest: load_approved_effect)
  show "approved_of env d = Some as \<Longrightarrow> ok \<longleftrightarrow> (\<exists>v \<in> set allowed. ?n v = ?n (si_sender_id ident))
      \<or> (\<exists>a \<in> set as. identity_key ident = Inr (ad_key a))"
    using assms ne key by (auto simp: evaluate_check_def is_sender_approved_def Let_def al list_ex_iff
        split: if_splits elim!: bindE_InrE dest!: load_approved_effect(2))
qed

lemma enqueue_never_allows: "evaluate_enqueue env now saved ident d = (Inr dec, d') \<Longrightarrow> dec \<noteq> Allowed"
  unfolding evaluate_enqueue_def
  by (auto simp: Let_def elim!: bindE_InrE split: option.splits)

text \<open>
  C7. The pairing gate. Under the pairing policy, a message is allowed exactly when its sender
  is on the allow list (both sides normalised) or an approval with its key is stored; an
  allowed message changes no table.
\<close>

theorem pairing_gate:
  assumes "approved_of env d = Some as"
    and "evaluate_sender_with_rules env now saved ident Pairing allowed d = (Inr dec, d')"
  shows "(dec = Allowed \<longleftrightarrow>
      (\<exists>v \<in> set allowed. normalize_sender_value (si_channel ident) v = normalize_sender_value (si_channel ident) (si_sender_id ident))
      \<or> (\<exists>a \<in> set as. identity_key ident = Inr (ad_key a)))
    \<and> (dec = Allowed \<longrightarrow> tables d' = tables d)"
proof -
  obtain ok d1 where c: "evaluate_check env ident Pairing allowed d = (Inr ok, d1)"
    and r: "(if ok then ret Allowed else evaluate_enqueue env now saved ident) d1 = (Inr dec, d')"
    using assms(2) unfolding evaluate_sender_with_rules_def by (rule bindE_InrE)
  note e = evaluate_check_result(1,2) [OF c]
  show ?thesis
  proof (cases ok)
    case True
    with r e(1) e(2) [OF assms(1)] show ?thesis by simp
  next
    case False
    with r have "dec \<noteq> Allowed" by (auto dest: enqueue_never_allows)
    with False e(2) [OF assms(1)] show ?thesis by simp
  qed
qed

definition sample_identity :: "string \<Rightarrow> sender_identity" where
  "sample_identity sid = \<lparr>si_channel = Whatsapp, si_sender_id = sid, si_sender_label = None,
     si_scope_id = None, si_scope_label = None, si_conversation_id = None, si_message_preview = None\<rparr>"

lemma evaluate_quiet:
  assumes "sv_ok env" and "sv_inv env d" and "faults d = []" and "identity_key ident = Inr key"
  shows "\<exists>dec d'. evaluate_sender_with_rules env now saved ident policy allowed d = (Inr dec, d') \<and> faults d' = []"
proof -
  from assms(2) obtain ps as where v: "pending_of env d = Some ps" "approved_of env d = Some as"
    unfolding sv_inv_def by blast
  note q = sv_quiet(1) [OF assms(3) v(2)] sv_quiet(2) [OF assms(3) v(1)] sv_quiet(4) [OF assms(3,1)]
  have ne: "normalize_sender_value (si_channel ident) (si_sender_id ident) \<noteq> []"
    using assms(4) by (auto simp: identity_key_def approval_key_def Let_def)
  have "\<exists>ok. evaluate_check env ident policy allowed d = (Inr ok, d)"
    using q(1) ne assms(4) by (auto simp: evaluate_check_def is_sender_approved_def bindE_def)
  moreover have "\<exists>dec d'. evaluate_enqueue env now saved ident d = (Inr dec, d') \<and> faults d' = []"
  proof (cases "position (\<lambda>e. pr_key e = key) ps")
    case None
    with q(2) q(3) [of saved "ps @ [new_request key (to_rfc3339 (sv_chrono env) now) ident]"] assms(4)
    show ?thesis by (auto simp: evaluate_enqueue_def bindE_def Let_def)
  next
    case (Some i)
    with q(2) q(3) [of saved "ps[i := seen_again (to_rfc3339 (sv_chrono env) now) ident (ps ! i)]"] assms(4)
    show ?thesis by (auto simp: evaluate_enqueue_def bindE_def Let_def)
  qed
  ultimately show ?thesis using assms(3) by (auto simp: evaluate_sender_with_rules_def bindE_def)
qed

lemma sample_key: "identity_key (sample_identity ''+1 555'') = Inr ''whatsapp::_global::1555''"
  by (simp add: identity_key_def approval_key_def sample_identity_def normalize_sender_value_def
      normalize_optional_scope_def trim_def trim_start_def trim_end_def is_ws_def is_digit_def)

theorem pairing_gate_witness:
  "\<exists>d'. evaluate_sender_with_rules sv_sample 0 0 (sample_identity ''+1 555'') Pairing [''1-555''] empty_db = (Inr Allowed, d')"
proof -
  have as: "approved_of sv_sample empty_db = Some []" by (simp add: doc_view_def empty_db_def)
  have q: "faults empty_db = []" by (simp add: empty_db_def)
  obtain dec d' where r: "evaluate_sender_with_rules sv_sample 0 0 (sample_identity ''+1 555'') Pairing
      [''1-555''] empty_db = (Inr dec, d')"
    using evaluate_quiet [OF sv_sample_ok sv_inv_empty q sample_key] by blast
  have "normalize_sender_value Whatsapp ''1-555'' = normalize_sender_value Whatsapp ''+1 555''"
    by (simp add: normalize_sender_value_def trim_def trim_start_def trim_end_def is_ws_def is_digit_def)
  with pairing_gate [OF as r] have "dec = Allowed" by (simp add: sample_identity_def)
  with r show ?thesis by blast
qed

section \<open>Pending requests\<close>

definition pending_entry :: "pending_request list \<Rightarrow> string \<Rightarrow> pending_request option" where
  "pending_entry ps k = find (\<lambda>p. pr_key p = k) ps"

lemma pending_entry_Nil [simp]: "pending_entry [] k = None"
  by (simp add: pending_entry_def)

lemma pending_put:
  "pr_key r = k \<Longrightarrow> pending_entry (put_at (position (\<lambda>p. pr_key p = k) ps) r ps) = (pending_entry ps)(k \<mapsto> r)"
  by (rule ext) (simp add: pending_entry_def put_at_find_same put_at_find_other)

lemma position_find: "position P xs = Some i \<Longrightarrow> find P xs = Some (xs ! i)"
  by (induction xs arbitrary: i) (auto split: if_splits)

lemma enqueue_result:
  assumes "sv_ok env" and "pending_of env d = Some ps"
    and "evaluate_enqueue env now saved ident d = (Inr dec, d')"
  shows "\<exists>key r new. identity_key ident = Inr key \<and> dec = NeedsApproval r new \<and> pr_key r = key
    \<and> (new \<longleftrightarrow> pending_entry ps key = None)
    \<and> r = (case pending_entry ps key of None \<Rightarrow> new_request key (to_rfc3339 (sv_chrono env) now) ident
          | Some e \<Rightarrow> seen_again (to_rfc3339 (sv_chrono env) now) ident e)
    \<and> (\<exists>ps'. pending_of env d' = Some ps' \<and> pending_entry ps' = (pending_entry ps)(key \<mapsto> r))"
proof -
  let ?t = "to_rfc3339 (sv_chrono env) now"
  obtain v where st: "enqueue_decision ?t ident ps = Store v dec" and w: "pending_of env d' = Some v"
    by (rule doc.rmw_InrE [OF assms(3) [unfolded evaluate_enqueue_rmw sv_access]])
      (use assms(2) sv_reload(1) [OF assms(1)] in \<open>auto simp: enqueue_decision_def split: sum.splits option.splits\<close>)
  obtain key where key: "identity_key ident = Inr key"
    using st by (auto simp: enqueue_decision_def split: sum.splits)
  show ?thesis
  proof (cases "position (\<lambda>e. pr_key e = key) ps")
    case None
    then have n: "pending_entry ps key = None" by (simp add: pending_entry_def find_None position_None)
    from None st key have v: "v = put_at (position (\<lambda>e. pr_key e = key) ps) (new_request key ?t ident) ps"
      and dec: "dec = NeedsApproval (new_request key ?t ident) True"
      by (auto simp: enqueue_decision_def put_at_def)
    with n key w pending_put [of "new_request key ?t ident" key ps] show ?thesis by auto
  next
    case (Some i)
    then have n: "pending_entry ps key = Some (ps ! i)" by (simp add: pending_entry_def position_find)
    from Some st key have v: "v = put_at (position (\<lambda>e. pr_key e = key) ps) (seen_again ?t ident (ps ! i)) ps"
      and dec: "dec = NeedsApproval (seen_again ?t ident (ps ! i)) False"
      by (auto simp: enqueue_decision_def put_at_def)
    moreover have "pr_key (seen_again ?t ident (ps ! i)) = key" using position_SomeD [OF Some] by simp
    ultimately show ?thesis using n key w pending_put [of "seen_again ?t ident (ps ! i)" key ps] by auto
  qed
qed

text \<open>
  One request per sender. A message that needs approval is recorded under its sender's
  key: the first one creates the request with one occurrence, a later one counts one more (up
  to the largest u32) and keeps when the sender was first seen. No other sender's request and
  no approval changes.
\<close>

theorem pending_recorded:
  assumes "sv_ok env" and "pending_of env d = Some ps"
    and "evaluate_sender_with_rules env now saved ident policy allowed d = (Inr (NeedsApproval r new), d')"
  shows "\<exists>key ps'. identity_key ident = Inr key \<and> pending_of env d' = Some ps'
    \<and> pending_entry ps' = (pending_entry ps)(key \<mapsto> r)
    \<and> (new \<longleftrightarrow> pending_entry ps key = None)
    \<and> pr_last_seen_at r = to_rfc3339 (sv_chrono env) now
    \<and> (case pending_entry ps key of
          None \<Rightarrow> pr_occurrences r = 1 \<and> pr_first_seen_at r = pr_last_seen_at r
        | Some e \<Rightarrow> pr_occurrences r = min (pr_occurrences e + 1) u32_max \<and> pr_first_seen_at r = pr_first_seen_at e)
    \<and> approved_of env d' = approved_of env d"
proof -
  obtain ok d1 where c: "evaluate_check env ident policy allowed d = (Inr ok, d1)"
    and r: "(if ok then ret Allowed else evaluate_enqueue env now saved ident) d1 = (Inr (NeedsApproval r new), d')"
    using assms(3) unfolding evaluate_sender_with_rules_def by (rule bindE_InrE)
  from r have q: "evaluate_enqueue env now saved ident d1 = (Inr (NeedsApproval r new), d')" and nok: "\<not> ok"
    by (auto split: if_splits)
  have "policy = Pairing" using c nok by (cases policy) (auto simp: evaluate_check_def)
  with c evaluate_check_result(1) have t: "tables d1 = tables d" by blast
  then have ps: "pending_of env d1 = Some ps" and as: "approved_of env d1 = approved_of env d"
    using assms(2) by (simp_all add: doc_view_def)
  from enqueue_result [OF assms(1) ps q] obtain key r' new' ps' where key: "identity_key ident = Inr key"
    and dec: "NeedsApproval r new = NeedsApproval r' new'"
    and n: "new' \<longleftrightarrow> pending_entry ps key = None"
    and req: "r' = (case pending_entry ps key of None \<Rightarrow> new_request key (to_rfc3339 (sv_chrono env) now) ident
          | Some e \<Rightarrow> seen_again (to_rfc3339 (sv_chrono env) now) ident e)"
    and ps': "pending_of env d' = Some ps'" "pending_entry ps' = (pending_entry ps)(key \<mapsto> r')" by blast
  note dec = dec [unfolded trust_decision.inject]
  have "pr_last_seen_at r = to_rfc3339 (sv_chrono env) now
    \<and> (case pending_entry ps key of
          None \<Rightarrow> pr_occurrences r = 1 \<and> pr_first_seen_at r = pr_last_seen_at r
        | Some e \<Rightarrow> pr_occurrences r = min (pr_occurrences e + 1) u32_max \<and> pr_first_seen_at r = pr_first_seen_at e)"
    using req dec by (cases "pending_entry ps key") (simp_all add: sat_add_u32_def)
  with key n dec ps' enqueue_frame [OF q] as show ?thesis
    by (intro exI [of _ key] exI [of _ ps']) simp
qed

theorem pending_recorded_witness:
  "\<exists>r new d' ps'. evaluate_sender_with_rules sv_sample 0 0 (sample_identity ''+1 555'') Pairing [] empty_db
      = (Inr (NeedsApproval r new), d') \<and> new
    \<and> pending_of sv_sample d' = Some ps' \<and> pending_entry ps' ''whatsapp::_global::1555'' = Some r"
proof -
  have v: "approved_of sv_sample empty_db = Some []" "pending_of sv_sample empty_db = Some []"
    by (simp_all add: doc_view_def empty_db_def)
  have q: "faults empty_db = []" by (simp add: empty_db_def)
  obtain dec d' where e: "evaluate_sender_with_rules sv_sample 0 0 (sample_identity ''+1 555'') Pairing
      [] empty_db = (Inr dec, d')"
    using evaluate_quiet [OF sv_sample_ok sv_inv_empty q sample_key] by blast
  obtain ok d1 where c: "evaluate_check sv_sample (sample_identity ''+1 555'') Pairing [] empty_db = (Inr ok, d1)"
    and r: "(if ok then ret Allowed else evaluate_enqueue sv_sample 0 0 (sample_identity ''+1 555'')) d1 = (Inr dec, d')"
    using e unfolding evaluate_sender_with_rules_def by (rule bindE_InrE)
  have "\<not> ok" using evaluate_check_result(2) [OF c v(1)] by simp
  with r have "dec \<noteq> Allowed" by (auto dest: enqueue_never_allows)
  then obtain r new where "dec = NeedsApproval r new" by (cases dec) auto
  with pending_recorded [OF sv_sample_ok v(2) e [unfolded this]] e sample_key show ?thesis by auto
qed

section \<open>Approval and revocation\<close>

lemma revoke_result:
  assumes "sv_ok env" and "approved_of env d = Some as" and "revoke_sender env saved c s sc d = (Inr b, d')"
  shows "\<exists>key. approval_key c s sc = Inr key \<and> (b \<longleftrightarrow> (\<exists>a \<in> set as. ad_key a = key))
    \<and> approved_of env d' = Some (filter (\<lambda>a. ad_key a \<noteq> key) as)"
  by (rule doc.rmw_InrE [OF assms(3) [unfolded revoke_sender_rmw sv_access]])
    (use assms(2) sv_reload(2) [OF assms(1)] in
      \<open>auto simp: revoke_decision_def list_ex_iff filter_id_conv split: sum.splits if_splits\<close>)

text \<open>
  Approve, then revoke. After an approval, every message whose identity has the same key is
  allowed and its pending request is gone; a revocation then reports success, and the next such
  message (not allow-listed) needs approval again with a new request.
\<close>

theorem approve_then_revoke:
  assumes "sv_ok env" and "sv_inv env d" and "identity_key ident' = identity_key ident"
    and "approve_sender env n1 s1 s1' ident who d = (Inr a, d1)"
    and "evaluate_sender_with_rules env n2 s2 ident' Pairing allowed d1 = (Inr dec, d2)"
    and "revoke_sender env s3 (si_channel ident') (si_sender_id ident') (si_scope_id ident') d2 = (Inr b, d3)"
    and "evaluate_sender_with_rules env n4 s4 ident' Pairing allowed d3 = (Inr dec', d4)"
    and "\<forall>v \<in> set allowed. normalize_sender_value (si_channel ident') v \<noteq> normalize_sender_value (si_channel ident') (si_sender_id ident')"
  shows "dec = Allowed \<and> b \<and> (\<exists>r. dec' = NeedsApproval r True \<and> pr_occurrences r = 1)"
proof -
  from assms(2) obtain ps as where inv: "pending_of env d = Some ps" "approved_of env d = Some as"
    unfolding sv_inv_def by blast
  obtain key as1 where key: "identity_key ident = Inr key" and as1: "approved_of env d1 = Some as1"
    and mem: "\<exists>a \<in> set as1. ad_key a = key"
    and p1: "pending_of env d1 = Some (filter (\<lambda>p. pr_key p \<noteq> key) ps)"
    by (rule approve_cases [OF assms(1,4) inv(2,1)]) auto
  have key': "identity_key ident' = Inr key" using key assms(3) by simp
  obtain ok e1 where c1: "evaluate_check env ident' Pairing allowed d1 = (Inr ok, e1)"
    and r1: "(if ok then ret Allowed else evaluate_enqueue env n2 s2 ident') e1 = (Inr dec, d2)"
    using assms(5) unfolding evaluate_sender_with_rules_def by (rule bindE_InrE)
  have ok using evaluate_check_result(2) [OF c1 as1] mem key' by auto
  with r1 have dec: "dec = Allowed" and d2: "d2 = e1" by auto
  note t1 = evaluate_check_result(1) [OF c1]
  have v2: "approved_of env d2 = Some as1" "pending_of env d2 = Some (filter (\<lambda>p. pr_key p \<noteq> key) ps)"
    using as1 p1 t1 d2 by (simp_all add: doc_view_def)
  from revoke_result [OF assms(1) v2(1) assms(6)] key' mem
  have b: b and v3: "approved_of env d3 = Some (filter (\<lambda>a. ad_key a \<noteq> key) as1)"
    by (auto simp: identity_key_def)
  have p3: "pending_of env d3 = Some (filter (\<lambda>p. pr_key p \<noteq> key) ps)"
    using revoke_frame [OF assms(6)] v2(2) by simp
  obtain ok' e3 where c3: "evaluate_check env ident' Pairing allowed d3 = (Inr ok', e3)"
    and r3: "(if ok' then ret Allowed else evaluate_enqueue env n4 s4 ident') e3 = (Inr dec', d4)"
    using assms(7) unfolding evaluate_sender_with_rules_def by (rule bindE_InrE)
  have "\<not> ok'" using evaluate_check_result(2) [OF c3 v3] assms(8) key' by auto
  with r3 have q: "evaluate_enqueue env n4 s4 ident' e3 = (Inr dec', d4)" by simp
  have "pending_of env e3 = Some (filter (\<lambda>p. pr_key p \<noteq> key) ps)"
    using evaluate_check_result(1) [OF c3] p3 by (simp add: doc_view_def)
  from enqueue_result [OF assms(1) this q] key' have "\<exists>r. dec' = NeedsApproval r True \<and> pr_occurrences r = 1"
    by (auto simp: pending_entry_def find_None split: option.splits dest!: find_SomeD)
  with dec b show ?thesis by blast
qed

lemma approve_quiet:
  assumes "sv_ok env" and "sv_inv env d" and "faults d = []" and "identity_key ident = Inr key"
  shows "\<exists>a d'. approve_sender env now saved saved' ident who d = (Inr a, d') \<and> faults d' = []"
proof -
  from assms(2) obtain ps as where v: "pending_of env d = Some ps" "approved_of env d = Some as"
    unfolding sv_inv_def by blast
  let ?e = "approved_entry key (to_rfc3339 (sv_chrono env) now) ident who"
  obtain d2 where d2: "save_approved env saved (filter (\<lambda>a. ad_key a \<noteq> key) as @ [?e]) d = (Inr (), d2)" "faults d2 = []"
    using sv_quiet(3) [OF assms(3,1)] by blast
  obtain d3 where "save_pending env saved' (filter (\<lambda>p. pr_key p \<noteq> key) ps) d2 = (Inr (), d3)" "faults d3 = []"
    using sv_quiet(4) [OF d2(2) assms(1)] by blast
  with d2 sv_quiet(1) [OF assms(3) v(2)] sv_quiet(2) [OF assms(3) v(1)] assms(4) show ?thesis
    by (simp add: approve_sender_def Let_def)
qed

lemma revoke_quiet:
  assumes "sv_ok env" and "sv_inv env d" and "faults d = []" and "approval_key c s sc = Inr key"
  shows "\<exists>b d'. revoke_sender env saved c s sc d = (Inr b, d') \<and> faults d' = []"
proof -
  from assms(2) obtain as where v: "approved_of env d = Some as" unfolding sv_inv_def by blast
  obtain d2 where "save_approved env saved (filter (\<lambda>a. ad_key a \<noteq> key) as) d = (Inr (), d2)" "faults d2 = []"
    using sv_quiet(3) [OF assms(3,1)] by blast
  with sv_quiet(1) [OF assms(3) v] assms(3,4) show ?thesis
    by (cases "length (filter (\<lambda>a. ad_key a \<noteq> key) as) = length as") (auto simp: revoke_sender_def Let_def)
qed

lemma sv_inv_evaluate:
  assumes "sv_ok env" and "sv_inv env d" and "evaluate_sender_with_rules env now saved ident Pairing allowed d = (Inr dec, d')"
  shows "sv_inv env d'"
proof -
  obtain ok d1 where c: "evaluate_check env ident Pairing allowed d = (Inr ok, d1)"
    and r: "(if ok then ret Allowed else evaluate_enqueue env now saved ident) d1 = (Inr dec, d')"
    using assms(3) unfolding evaluate_sender_with_rules_def by (rule bindE_InrE)
  have "sv_inv env d1"
    using assms(2) evaluate_check_result(1) [OF c] by (simp add: sv_inv_def doc_view_def)
  with r sv_inv_step [OF assms(1) _ sv_step.enqueue] show ?thesis by (auto split: if_splits)
qed

theorem approve_then_revoke_witness:
  "\<exists>a d1 d2 d3 d4 dec'. approve_sender sv_sample 0 0 0 (sample_identity ''+1 555'') None empty_db = (Inr a, d1)
    \<and> evaluate_sender_with_rules sv_sample 0 0 (sample_identity ''+1 555'') Pairing [] d1 = (Inr Allowed, d2)
    \<and> revoke_sender sv_sample 0 Whatsapp ''+1 555'' None d2 = (Inr True, d3)
    \<and> evaluate_sender_with_rules sv_sample 0 0 (sample_identity ''+1 555'') Pairing [] d3 = (Inr dec', d4)
    \<and> dec' \<noteq> Allowed"
proof -
  let ?i = "sample_identity ''+1 555''"
  note ok = sv_sample_ok and inv = sv_inv_empty [of sv_sample]
  have q: "faults empty_db = []" by (simp add: empty_db_def)
  have si: "si_channel ?i = Whatsapp" "si_sender_id ?i = ''+1 555''" "si_scope_id ?i = None"
    by (simp_all add: sample_identity_def)
  obtain a d1 where a: "approve_sender sv_sample 0 0 0 ?i None empty_db = (Inr a, d1)" "faults d1 = []"
    using approve_quiet [OF ok inv q sample_key] by blast
  have i1: "sv_inv sv_sample d1" by (rule sv_inv_step [OF ok inv sv_step.approve [OF a(1)]])
  obtain dec d2 where e2: "evaluate_sender_with_rules sv_sample 0 0 ?i Pairing [] d1 = (Inr dec, d2)" "faults d2 = []"
    using evaluate_quiet [OF ok i1 a(2) sample_key] by blast
  have i2: "sv_inv sv_sample d2" by (rule sv_inv_evaluate [OF ok i1 e2(1)])
  have k: "approval_key (si_channel ?i) (si_sender_id ?i) (si_scope_id ?i) = Inr ''whatsapp::_global::1555''"
    using sample_key by (simp add: identity_key_def)
  obtain b d3 where r: "revoke_sender sv_sample 0 (si_channel ?i) (si_sender_id ?i) (si_scope_id ?i) d2 = (Inr b, d3)" "faults d3 = []"
    using revoke_quiet [OF ok i2 e2(2) k] by blast
  have i3: "sv_inv sv_sample d3" by (rule sv_inv_step [OF ok i2 sv_step.revoke [OF r(1)]])
  obtain dec' d4 where e4: "evaluate_sender_with_rules sv_sample 0 0 ?i Pairing [] d3 = (Inr dec', d4)"
    using evaluate_quiet [OF ok i3 r(2) sample_key] by blast
  have "\<forall>v \<in> set []. normalize_sender_value (si_channel ?i) v \<noteq> normalize_sender_value (si_channel ?i) (si_sender_id ?i)"
    by simp
  from approve_then_revoke [OF ok inv refl a(1) e2(1) r(1) e4 this] a(1) e2(1) r(1) e4
  show ?thesis unfolding si by auto
qed

section \<open>Reachable states\<close>

text \<open>
  Consistent documents. In every state that any interleaving of evaluations, approvals,
  revocations and settings updates reaches, with database faults at any statement, both lists
  are readable, each key occurs once, each record's key is the one its own channel, sender and
  scope determine, and every request counts between one and the largest u32 occurrences.
\<close>

theorem sender_documents_consistent:
  assumes "sv_ok env" and "sv_inv env d0" and "sv_run env d0 d"
  shows "sv_inv env d"
  using assms(3,2) by (induction rule: sv_run.induct) (auto intro: sv_inv_step [OF assms(1)])

theorem sender_documents_consistent_witness:
  "\<exists>d. sv_run sv_sample empty_db d \<and> d \<noteq> empty_db \<and> sv_inv sv_sample d"
proof -
  have q: "faults empty_db = []" by (simp add: empty_db_def)
  obtain a d1 where a: "approve_sender sv_sample 0 0 0 (sample_identity ''+1 555'') None empty_db = (Inr a, d1)"
    using approve_quiet [OF sv_sample_ok sv_inv_empty q sample_key] by blast
  have run: "sv_run sv_sample empty_db d1"
    by (rule sv_run.sv_more [OF sv_run.sv_none sv_step.approve [OF a]])
  have e: "approved_of sv_sample empty_db = Some []" "pending_of sv_sample empty_db = Some []"
    by (simp_all add: doc_view_def empty_db_def)
  have "approved_of sv_sample d1 \<noteq> Some []"
    by (rule approve_cases [OF sv_sample_ok a e]) auto
  with e have "d1 \<noteq> empty_db" by auto
  with sender_documents_consistent [OF sv_sample_ok sv_inv_empty run] run show ?thesis by blast
qed

section \<open>What an approval key identifies\<close>

lemma colon_split:
  "c \<notin> set a \<Longrightarrow> c \<notin> set a' \<Longrightarrow> a @ c # x = a' @ c # x' \<Longrightarrow> a = a' \<and> x = x'"
proof (induction a arbitrary: a')
  case Nil
  then show ?case by (cases a') auto
next
  case (Cons b a)
  then show ?case by (cases a') auto
qed

lemma channel_str_no_colon: "CHR '':'' \<notin> set (channel_as_str c)"
  by (cases c) simp_all

lemma channel_str_inj: "channel_as_str c = channel_as_str c' \<Longrightarrow> c = c'"
  by (cases c; cases c') simp_all

lemma approval_key_Inr:
  "approval_key c s sc = Inr k \<longleftrightarrow> normalize_sender_value c s \<noteq> [] \<and>
     k = channel_as_str c @ ''::'' @ (case normalize_optional_scope c sc of Some v \<Rightarrow> v | None \<Rightarrow> ''_global'')
       @ ''::'' @ normalize_sender_value c s"
  by (auto simp: approval_key_def Let_def)

text \<open>
  Keys separate senders. As long as scope identifiers contain no colon and are not
  \<open>_global\<close>, two identities have the same approval key exactly when they agree on the
  channel, the normalised sender and the normalised scope.
\<close>

theorem approval_key_separates:
  assumes "approval_key c s sc = Inr k" and "approval_key c' s' sc' = Inr k'"
    and "\<forall>v. normalize_optional_scope c sc = Some v \<longrightarrow> CHR '':'' \<notin> set v \<and> v \<noteq> ''_global''"
    and "\<forall>v. normalize_optional_scope c' sc' = Some v \<longrightarrow> CHR '':'' \<notin> set v \<and> v \<noteq> ''_global''"
  shows "k = k' \<longleftrightarrow> c = c' \<and> normalize_sender_value c s = normalize_sender_value c' s'
    \<and> normalize_optional_scope c sc = normalize_optional_scope c' sc'"
proof
  let ?g = "\<lambda>o1. case o1 of Some v \<Rightarrow> v | None \<Rightarrow> ''_global''"
  let ?n = "normalize_sender_value c s" and ?n' = "normalize_sender_value c' s'"
  let ?o = "normalize_optional_scope c sc" and ?o' = "normalize_optional_scope c' sc'"
  assume "k = k'"
  with assms(1,2) have eq: "channel_as_str c @ CHR '':'' # CHR '':'' # ?g ?o @ CHR '':'' # CHR '':'' # ?n
      = channel_as_str c' @ CHR '':'' # CHR '':'' # ?g ?o' @ CHR '':'' # CHR '':'' # ?n'"
    by (simp add: approval_key_Inr)
  from colon_split [OF channel_str_no_colon channel_str_no_colon eq]
  have c: "c = c'" and rest: "?g ?o @ CHR '':'' # CHR '':'' # ?n = ?g ?o' @ CHR '':'' # CHR '':'' # ?n'"
    using channel_str_inj by auto
  have "CHR '':'' \<notin> set (?g ?o)" "CHR '':'' \<notin> set (?g ?o')"
    using assms(3,4) by (auto split: option.splits)
  from colon_split [OF this rest] have "?g ?o = ?g ?o'" "?n = ?n'" by auto
  moreover have "?o = ?o'" using calculation(1) assms(3,4) by (auto split: option.splits)
  ultimately show "c = c' \<and> ?n = ?n' \<and> ?o = ?o'" using c by simp
next
  assume "c = c' \<and> normalize_sender_value c s = normalize_sender_value c' s'
    \<and> normalize_optional_scope c sc = normalize_optional_scope c' sc'"
  with assms(1,2) show "k = k'" by (auto simp: approval_key_Inr)
qed

lemma plain_lower: "\<forall>x \<in> set s. \<not> is_ws x \<and> \<not> is_upper x \<Longrightarrow> s \<noteq> [] \<Longrightarrow> c \<noteq> Whatsapp \<Longrightarrow> normalize_sender_value c s = s"
  by (simp add: normalize_sender_value_def trim_no_ws ascii_lower_def lower_char_def map_idI)

theorem approval_key_separates_witness:
  "\<exists>k k'. approval_key Slack ''u1'' (Some ''t1'') = Inr k \<and> approval_key Slack ''u1'' None = Inr k' \<and> k \<noteq> k'"
proof -
  have n: "normalize_sender_value Slack ''u1'' = ''u1''" "normalize_sender_value Slack ''t1'' = ''t1''"
    by (rule plain_lower; simp add: is_ws_def is_upper_def)+
  then have o1: "normalize_optional_scope Slack (Some ''t1'') = Some ''t1''" "normalize_optional_scope Slack None = None"
    by (simp_all add: normalize_optional_scope_def)
  obtain k k' where k: "approval_key Slack ''u1'' (Some ''t1'') = Inr k" "approval_key Slack ''u1'' None = Inr k'"
    using n by (auto simp: approval_key_def Let_def)
  from approval_key_separates [OF k] o1 k show ?thesis by simp
qed

text \<open>
  Key collisions. The key joins scope and sender with a separator both may contain, so the
  restriction above is needed: with a colon pair in the sender identifier, the message of one
  sender in one scope carries the key of another sender in another scope, and approving the
  latter allows the former.
\<close>

theorem approval_key_collision:
  assumes "c \<noteq> Whatsapp" and "\<forall>x \<in> set (p @ q @ r). \<not> is_ws x \<and> \<not> is_upper x" and "p \<noteq> []" and "q \<noteq> []" and "r \<noteq> []"
    and "sv_ok env" and "sv_inv env d"
    and "si_channel victim = c" and "si_sender_id victim = r" and "si_scope_id victim = Some (p @ ''::'' @ q)"
    and "si_channel other = c" and "si_sender_id other = q @ ''::'' @ r" and "si_scope_id other = Some p"
    and "approve_sender env n1 s1 s1' victim who d = (Inr a, d1)"
    and "evaluate_sender_with_rules env n2 s2 other Pairing [] d1 = (Inr dec, d2)"
  shows "dec = Allowed"
proof -
  have colon: "\<not> is_ws CHR '':''" "\<not> is_upper CHR '':''" by (simp_all add: is_ws_def is_upper_def)
  have n: "normalize_sender_value c r = r" "normalize_sender_value c p = p"
    "normalize_sender_value c (q @ ''::'' @ r) = q @ ''::'' @ r" "normalize_sender_value c (p @ ''::'' @ q) = p @ ''::'' @ q"
    using assms(1-5) colon by (auto intro!: plain_lower)
  have keq: "identity_key other = identity_key victim"
    using n assms(3-5,8-13) by (simp add: identity_key_def approval_key_def normalize_optional_scope_def)
  from assms(7) obtain ps as where inv: "pending_of env d = Some ps" "approved_of env d = Some as"
    unfolding sv_inv_def by blast
  obtain key as1 where "identity_key victim = Inr key" "approved_of env d1 = Some as1" "\<exists>a \<in> set as1. ad_key a = key"
    by (rule approve_cases [OF assms(6,14) inv(2,1)]) auto
  moreover obtain ok e1 where c1: "evaluate_check env other Pairing [] d1 = (Inr ok, e1)"
    and r1: "(if ok then ret Allowed else evaluate_enqueue env n2 s2 other) e1 = (Inr dec, d2)"
    using assms(15) unfolding evaluate_sender_with_rules_def by (rule bindE_InrE)
  ultimately have ok using evaluate_check_result(2) [OF c1] keq by auto
  with r1 show ?thesis by simp
qed

definition slack_identity :: "string \<Rightarrow> string \<Rightarrow> sender_identity" where
  "slack_identity sc sid = \<lparr>si_channel = Slack, si_sender_id = sid, si_sender_label = None,
     si_scope_id = Some sc, si_scope_label = None, si_conversation_id = None, si_message_preview = None\<rparr>"

theorem approval_key_collision_witness:
  "\<exists>a d1 d2. approve_sender sv_sample 0 0 0 (slack_identity ''a::b'' ''c'') None empty_db = (Inr a, d1)
    \<and> evaluate_sender_with_rules sv_sample 0 0 (slack_identity ''a'' ''b::c'') Pairing [] d1 = (Inr Allowed, d2)"
proof -
  let ?v = "slack_identity ''a::b'' ''c''" and ?o = "slack_identity ''a'' ''b::c''"
  have q: "faults empty_db = []" by (simp add: empty_db_def)
  have n: "normalize_sender_value Slack ''c'' = ''c''" "normalize_sender_value Slack ''b::c'' = ''b::c''"
    by (rule plain_lower; simp add: is_ws_def is_upper_def)+
  obtain k k' where k: "identity_key ?v = Inr k" "identity_key ?o = Inr k'"
    using n by (auto simp: identity_key_def slack_identity_def approval_key_def Let_def)
  obtain a d1 where a: "approve_sender sv_sample 0 0 0 ?v None empty_db = (Inr a, d1)" "faults d1 = []"
    using approve_quiet [OF sv_sample_ok sv_inv_empty q k(1)] by blast
  have i1: "sv_inv sv_sample d1" by (rule sv_inv_step [OF sv_sample_ok sv_inv_empty sv_step.approve [OF a(1)]])
  obtain dec d2 where e: "evaluate_sender_with_rules sv_sample 0 0 ?o Pairing [] d1 = (Inr dec, d2)"
    using evaluate_quiet [OF sv_sample_ok i1 a(2) k(2)] by blast
  have "dec = Allowed"
    by (rule approval_key_collision [OF _ _ _ _ _ sv_sample_ok sv_inv_empty _ _ _ _ _ _ a(1) e,
          where c = Slack and p = "''a''" and q = "''b''" and r = "''c''"])
      (simp_all add: slack_identity_def is_ws_def is_upper_def)
  with a(1) e show ?thesis by blast
qed

end
