(* ===== verification/Abuse_Tracker.thy ===== *)
theory Abuse_Tracker
  imports Clock_Text Json_Value
begin

text \<open>
  \<open>security/abuse/abuse_tracker.rs\<close>: sources that trip the inbound guard repeatedly in a
  time window are moved to \<open>pending_approval\<close>, where only an operator's decision takes
  them out. The two tables are lists of rows with a primary key (\<open>st_\<close>
  \<open>abuse_tracker_state\<close>, \<open>al_\<close> \<open>approval_log\<close>).

  \<open>at_env\<close> holds the SHA-256 digest (in hexadecimal), chrono and \<open>serde_json\<close>; the
  clock reading of an operation is its argument \<open>now\<close>. Operations that change state hold
  the process lock, so each is one step of \<open>at_step\<close>; an error inside leaves the
  statements before it done. Subtracting the window, at most \<open>2 ^ 32\<close> minutes, from the
  current time stays inside chrono's range of 262000 years.
\<close>

section \<open>Data\<close>

definition APPROVAL_ACTION_NAME :: string where "APPROVAL_ACTION_NAME = ''security.abuse_review''"
definition APPROVAL_RULE_NAME :: string where "APPROVAL_RULE_NAME = ''abuse_threshold_reached''"

record tracker_config =
  trips_threshold :: nat
  window_minutes :: nat

definition default_tracker_config :: tracker_config where
  "default_tracker_config = \<lparr>trips_threshold = 5, window_minutes = 10\<rparr>"

record source_key =
  channel_id :: string
  user_identity :: "string option"

datatype tracker_status = Normal | PendingApproval | Paused

fun status_as_str :: "tracker_status \<Rightarrow> string" where
  "status_as_str Normal = ''normal''"
| "status_as_str PendingApproval = ''pending_approval''"
| "status_as_str Paused = ''paused''"

definition status_from_str :: "string \<Rightarrow> tracker_status" where
  "status_from_str v = (if v = ''pending_approval'' then PendingApproval
     else if v = ''paused'' then Paused else Normal)"

fun should_suppress_responses :: "tracker_status \<Rightarrow> bool" where
  "should_suppress_responses PendingApproval = True"
| "should_suppress_responses Paused = True"
| "should_suppress_responses Normal = False"

record trip_outcome =
  to_status :: tracker_status
  to_newly_pending :: bool
  to_trip_count :: nat

record abuse_review =
  rv_source_key_hash :: string
  rv_channel_id :: string
  rv_user_identity :: "string option"
  rv_status :: string
  rv_trip_count :: nat
  rv_last_updated :: string

record state_row =
  st_hash :: string
  st_channel_id :: string
  st_user_identity :: "string option"
  st_trips :: string
  st_status :: string
  st_last_updated :: string

record log_row =
  al_id :: string
  al_action_name :: string
  al_arguments :: string
  al_rule_name :: string
  al_requested_at :: string
  al_resolved_at :: "string option"
  al_resolved_by :: "string option"
  al_status :: string

record abuse_tables =
  states :: "state_row list"
  approvals :: "log_row list"

type_synonym abuse_db = "abuse_tables db"

record at_env =
  at_digest :: "string \<Rightarrow> string"
  at_chrono :: chrono
  at_write_list :: "string list \<Rightarrow> string option"
  at_read_list :: "string \<Rightarrow> string list option"
  at_write_json :: "json \<Rightarrow> string"
  at_read_json :: "string \<Rightarrow> json option"

definition source_hash :: "at_env \<Rightarrow> source_key \<Rightarrow> string" where
  "source_hash env s = at_digest env (channel_id s @ ''|'' @ (case user_identity s of Some i \<Rightarrow> i | None \<Rightarrow> ''''))"

definition parse_timestamps :: "at_env \<Rightarrow> string \<Rightarrow> int list" where
  "parse_timestamps env raw = List.map_filter (parse_rfc3339 (at_chrono env))
     (case at_read_list env raw of Some xs \<Rightarrow> xs | None \<Rightarrow> [])"

definition serialize_timestamps :: "at_env \<Rightarrow> int list \<Rightarrow> string" where
  "serialize_timestamps env ts = (case at_write_list env (map (to_rfc3339 (at_chrono env)) ts) of
     Some t \<Rightarrow> t | None \<Rightarrow> ''[]'')"

section \<open>Statements\<close>

definition find_state :: "string \<Rightarrow> (abuse_db, state_row option) io" where
  "find_state h = stmt (\<lambda>t. (find (\<lambda>r. st_hash r = h) (states t), t))"

text \<open>An update of no row and an insert under a used key are errors and change nothing.\<close>

definition checked :: "(abuse_db, bool) io \<Rightarrow> (abuse_db, unit) io" where
  "checked m = bindE m (\<lambda>ok. if ok then ret () else fail db_error)"

definition update_state :: "state_row \<Rightarrow> (abuse_db, unit) io" where
  "update_state row = checked (stmt (\<lambda>t. if \<exists>r \<in> set (states t). st_hash r = st_hash row
     then (True, t\<lparr>states := map (\<lambda>r. if st_hash r = st_hash row then row else r) (states t)\<rparr>)
     else (False, t)))"

definition insert_state :: "state_row \<Rightarrow> (abuse_db, unit) io" where
  "insert_state row = checked (stmt (\<lambda>t. if \<exists>r \<in> set (states t). st_hash r = st_hash row
     then (False, t) else (True, t\<lparr>states := states t @ [row]\<rparr>)))"

definition insert_approval :: "log_row \<Rightarrow> (abuse_db, unit) io" where
  "insert_approval row = checked (stmt (\<lambda>t. if \<exists>r \<in> set (approvals t). al_id r = al_id row
     then (False, t) else (True, t\<lparr>approvals := approvals t @ [row]\<rparr>)))"

definition resolve_approval :: "string \<Rightarrow> string \<Rightarrow> string \<Rightarrow> (abuse_db, unit) io" where
  "resolve_approval i status_str now = checked (stmt (\<lambda>t. if \<exists>r \<in> set (approvals t). al_id r = i
     then (True, t\<lparr>approvals := map (\<lambda>r. if al_id r = i
             then r\<lparr>al_status := status_str, al_resolved_at := Some now\<rparr> else r) (approvals t)\<rparr>)
     else (False, t)))"

section \<open>Operations\<close>

definition current_status :: "at_env \<Rightarrow> source_key \<Rightarrow> (abuse_db, tracker_status) io" where
  "current_status env source = bindE (find_state (source_hash env source)) (\<lambda>existing.
     ret (case existing of Some row \<Rightarrow> status_from_str (st_status row) | None \<Rightarrow> Normal))"

definition list_reviews :: "at_env \<Rightarrow> (abuse_db, abuse_review list) io" where
  "list_reviews env = bindE (stmt (\<lambda>t. (rev (sort_key st_last_updated
         (rev (filter (\<lambda>r. st_status r \<noteq> status_as_str Normal) (states t)))), t))) (\<lambda>rows.
     ret (map (\<lambda>row. \<lparr>rv_source_key_hash = st_hash row, rv_channel_id = st_channel_id row,
        rv_user_identity = st_user_identity row, rv_status = st_status row,
        rv_trip_count = length (parse_timestamps env (st_trips row)),
        rv_last_updated = st_last_updated row\<rparr>) rows))"

definition persist_state ::
    "at_env \<Rightarrow> string \<Rightarrow> source_key \<Rightarrow> int list \<Rightarrow> tracker_status \<Rightarrow> int \<Rightarrow> bool \<Rightarrow> (abuse_db, unit) io" where
  "persist_state env h source timestamps status now exists1 =
    (let row = \<lparr>st_hash = h, st_channel_id = channel_id source, st_user_identity = user_identity source,
         st_trips = serialize_timestamps env timestamps, st_status = status_as_str status,
         st_last_updated = to_rfc3339 (at_chrono env) now\<rparr>
     in if exists1 then update_state row else insert_state row)"

definition request_args :: "string \<Rightarrow> string \<Rightarrow> string option \<Rightarrow> nat \<Rightarrow> json" where
  "request_args h ch ident trip_count = json_insert ''source_key_hash'' (JStr h)
     (json_insert ''channel_id'' (JStr ch)
     (json_insert ''user_identity'' (case ident of Some i \<Rightarrow> JStr i | None \<Rightarrow> JNull)
     (json_insert ''trip_count'' (JNum (show_nat trip_count)) (JObj []))))"

definition write_approval_request ::
    "at_env \<Rightarrow> string \<Rightarrow> source_key \<Rightarrow> nat \<Rightarrow> int \<Rightarrow> (abuse_db, unit) io" where
  "write_approval_request env fresh source trip_count now = insert_approval \<lparr>al_id = fresh,
     al_action_name = APPROVAL_ACTION_NAME,
     al_arguments = at_write_json env
       (request_args (source_hash env source) (channel_id source) (user_identity source) trip_count),
     al_rule_name = APPROVAL_RULE_NAME, al_requested_at = to_rfc3339 (at_chrono env) now,
     al_resolved_at = None, al_resolved_by = None, al_status = ''pending''\<rparr>"

text \<open>The window slid forward, with the new trip; its length is read as a u32.\<close>

definition slide_window :: "tracker_config \<Rightarrow> int \<Rightarrow> int list \<Rightarrow> int list" where
  "slide_window cfg now timestamps =
    (let cutoff = now - secs (60 * int (max (window_minutes cfg) 1))
     in filter (\<lambda>t. t \<ge> cutoff) timestamps @ [now])"

definition record_trip ::
    "at_env \<Rightarrow> tracker_config \<Rightarrow> string \<Rightarrow> int \<Rightarrow> source_key \<Rightarrow> (abuse_db, trip_outcome) io" where
  "record_trip env cfg fresh now source =
    (let h = source_hash env source; threshold = max (trips_threshold cfg) 1 in
     bindE (find_state h) (\<lambda>existing.
       let prior_trips = (case existing of Some row \<Rightarrow> parse_timestamps env (st_trips row) | None \<Rightarrow> []);
           prior_status = (case existing of Some row \<Rightarrow> status_from_str (st_status row) | None \<Rightarrow> Normal);
           timestamps = slide_window cfg now prior_trips;
           trip_count = length timestamps mod 2 ^ 32;
           newly_pending = (trip_count \<ge> threshold \<and> prior_status = Normal);
           next_status = (if newly_pending then PendingApproval else prior_status)
       in bindE (persist_state env h source timestamps next_status now (existing \<noteq> None)) (\<lambda>_.
          \<lambda>d. let d' = (if newly_pending then snd (write_approval_request env fresh source trip_count now d) else d)
              in (Inr \<lparr>to_status = next_status, to_newly_pending = newly_pending,
                       to_trip_count = trip_count\<rparr>, d'))))"

text \<open>The arguments of a request name the source it is about.\<close>

definition request_for :: "at_env \<Rightarrow> string \<Rightarrow> log_row \<Rightarrow> bool" where
  "request_for env h row = (case at_read_json env (al_arguments row) of
     None \<Rightarrow> False
   | Some args \<Rightarrow> (case json_get ''source_key_hash'' args of
        None \<Rightarrow> False
      | Some v \<Rightarrow> json_as_str v = Some h))"

fun resolve_rows :: "at_env \<Rightarrow> string \<Rightarrow> tracker_status \<Rightarrow> string \<Rightarrow> log_row list \<Rightarrow> (abuse_db, unit) io" where
  "resolve_rows env h st now [] = ret ()"
| "resolve_rows env h st now (row # rows) =
    (if request_for env h row
     then (case st of
        Normal \<Rightarrow> bindE (resolve_approval (al_id row) ''approved'' now) (\<lambda>_. resolve_rows env h st now rows)
      | Paused \<Rightarrow> bindE (resolve_approval (al_id row) ''denied'' now) (\<lambda>_. resolve_rows env h st now rows)
      | PendingApproval \<Rightarrow> resolve_rows env h st now rows)
     else resolve_rows env h st now rows)"

definition open_request :: "log_row \<Rightarrow> bool" where
  "open_request r \<longleftrightarrow> al_action_name r = APPROVAL_ACTION_NAME \<and> al_rule_name r = APPROVAL_RULE_NAME
     \<and> al_status r = ''pending''"

definition resolve_pending_approval_requests ::
    "at_env \<Rightarrow> string \<Rightarrow> tracker_status \<Rightarrow> int \<Rightarrow> (abuse_db, unit) io" where
  "resolve_pending_approval_requests env h st now =
     bindE (stmt (\<lambda>t. (filter open_request (approvals t), t)))
       (\<lambda>pending. resolve_rows env h st (to_rfc3339 (at_chrono env) now) pending)"

definition transition_hash ::
    "at_env \<Rightarrow> int \<Rightarrow> string \<Rightarrow> tracker_status \<Rightarrow> bool \<Rightarrow> (abuse_db, unit) io" where
  "transition_hash env now h new_status clear_timestamps =
     bindE (find_state h) (\<lambda>existing. case existing of
       None \<Rightarrow> fail (Err ''Abuse review source not found'')
     | Some row \<Rightarrow>
        (let source = \<lparr>channel_id = st_channel_id row, user_identity = st_user_identity row\<rparr>;
             timestamps = (if clear_timestamps then [] else parse_timestamps env (st_trips row))
         in bindE (persist_state env h source timestamps new_status now True) (\<lambda>_.
            resolve_pending_approval_requests env h new_status now)))"

definition transition_status ::
    "at_env \<Rightarrow> int \<Rightarrow> source_key \<Rightarrow> tracker_status \<Rightarrow> bool \<Rightarrow> (abuse_db, unit) io" where
  "transition_status env now source new_status clear_timestamps =
     transition_hash env now (source_hash env source) new_status clear_timestamps"

definition approve :: "at_env \<Rightarrow> int \<Rightarrow> source_key \<Rightarrow> (abuse_db, unit) io" where
  "approve env now source = transition_status env now source Normal True"

definition approve_hash :: "at_env \<Rightarrow> int \<Rightarrow> string \<Rightarrow> (abuse_db, unit) io" where
  "approve_hash env now h = transition_hash env now h Normal True"

definition reject :: "at_env \<Rightarrow> int \<Rightarrow> source_key \<Rightarrow> (abuse_db, unit) io" where
  "reject env now source = transition_status env now source Paused False"

definition reject_hash :: "at_env \<Rightarrow> int \<Rightarrow> string \<Rightarrow> (abuse_db, unit) io" where
  "reject_hash env now h = transition_hash env now h Paused False"

section \<open>What is assumed of the libraries\<close>

text \<open>
  \<open>serde_json\<close> reads back a list of strings and the arguments of a request as written.
\<close>

definition at_ok :: "at_env \<Rightarrow> bool" where
  "at_ok env \<longleftrightarrow> chrono_ok (at_chrono env)
     \<and> (\<forall>xs. \<exists>t. at_write_list env xs = Some t \<and> at_read_list env t = Some xs)
     \<and> (\<forall>h ch ident n. at_read_json env (at_write_json env (request_args h ch ident n))
          = Some (request_args h ch ident n))"

section \<open>What the tables hold for a source\<close>

definition state_of :: "abuse_db \<Rightarrow> string \<Rightarrow> state_row option" where
  "state_of d h = find (\<lambda>r. st_hash r = h) (states (tables d))"

definition status_of :: "abuse_db \<Rightarrow> string \<Rightarrow> tracker_status" where
  "status_of d h = (case state_of d h of Some row \<Rightarrow> status_from_str (st_status row) | None \<Rightarrow> Normal)"

definition trips_of :: "at_env \<Rightarrow> abuse_db \<Rightarrow> string \<Rightarrow> int list" where
  "trips_of env d h = (case state_of d h of Some row \<Rightarrow> parse_timestamps env (st_trips row) | None \<Rightarrow> [])"

datatype at_op = Trip source_key | ApproveOp string | RejectOp string

inductive at_step :: "at_env \<Rightarrow> at_op \<Rightarrow> abuse_db \<Rightarrow> abuse_db \<Rightarrow> bool" for env where
  trip: "record_trip env cfg fresh now source d = (r, d') \<Longrightarrow> at_step env (Trip source) d d'"
| approve: "approve_hash env now h d = (r, d') \<Longrightarrow> at_step env (ApproveOp h) d d'"
| reject: "reject_hash env now h d = (r, d') \<Longrightarrow> at_step env (RejectOp h) d d'"

inductive at_run :: "at_env \<Rightarrow> at_op list \<Rightarrow> abuse_db \<Rightarrow> abuse_db \<Rightarrow> bool" for env where
  at_nil: "at_run env [] d d"
| at_cons: "at_step env op1 d d1 \<Longrightarrow> at_run env ops d1 d2 \<Longrightarrow> at_run env (op1 # ops) d d2"

inductive_cases at_step_TripE: "at_step env (Trip source) d d'"
inductive_cases at_step_ApproveE: "at_step env (ApproveOp h) d d'"
inductive_cases at_step_RejectE: "at_step env (RejectOp h) d d'"

lemma status_roundtrip [simp]: "status_from_str (status_as_str s) = s"
  by (cases s) (simp_all add: status_from_str_def)

section \<open>Effects of the statements\<close>

lemma find_state_effect:
  "find_state h d = (r, d') \<Longrightarrow> tables d' = tables d \<and> (\<forall>x. r = Inr x \<longrightarrow> x = state_of d h)"
  unfolding find_state_def state_of_def by (erule stmt_cases) auto

lemma checked_effect:
  assumes "checked (stmt f) d = (r, d')" and "\<And>t. \<not> fst (f t) \<Longrightarrow> snd (f t) = t"
  shows "(r = Inr () \<and> fst (f (tables d)) \<and> tables d' = snd (f (tables d))) \<or> (\<exists>e. r = Inl e \<and> tables d' = tables d)"
  using assms(1) unfolding checked_def
proof (cases rule: bindE_cases)
  case (stop e)
  then show ?thesis by (auto elim: stmt_cases)
next
  case (step ok d1)
  then have "f (tables d) = (ok, tables d1)" by (auto elim: stmt_cases)
  with step assms(2) [of "tables d"] show ?thesis by (auto split: if_splits)
qed

lemma find_map_other:
  "h \<noteq> k row \<Longrightarrow> find (\<lambda>r. k r = h) (map (\<lambda>r. if k r = k row then row else r) xs) = find (\<lambda>r. k r = h) xs"
  by (induction xs) auto

lemma find_map_same:
  "\<exists>r \<in> set xs. k r = k row \<Longrightarrow> find (\<lambda>r. k r = k row) (map (\<lambda>r. if k r = k row then row else r) xs) = Some row"
  by (induction xs) auto

lemma state_of_cong: "tables d' = tables d \<Longrightarrow> state_of d' = state_of d"
  by (rule ext) (simp add: state_of_def)

lemma find_append1: "find P (xs @ [x]) = (case find P xs of Some y \<Rightarrow> Some y | None \<Rightarrow> if P x then Some x else None)"
  by (induction xs) auto

lemma update_state_effect:
  "update_state row d = (r, d') \<Longrightarrow>
    (r = Inr () \<and> state_of d' = (state_of d)(st_hash row \<mapsto> row) \<and> approvals (tables d') = approvals (tables d))
    \<or> (\<exists>e. r = Inl e \<and> tables d' = tables d)"
  unfolding update_state_def
  by (drule checked_effect) (auto simp: state_of_def fun_eq_iff find_map_other [where k = st_hash]
      intro!: find_map_same [where k = st_hash] split: if_splits)

lemma insert_state_effect:
  "insert_state row d = (r, d') \<Longrightarrow>
    (r = Inr () \<and> state_of d' = (state_of d)(st_hash row \<mapsto> row) \<and> approvals (tables d') = approvals (tables d))
    \<or> (\<exists>e. r = Inl e \<and> tables d' = tables d)"
  unfolding insert_state_def
  by (drule checked_effect)
    (auto simp: state_of_def fun_eq_iff find_append1 split: if_splits option.splits dest!: find_SomeD)

lemma persist_effect:
  assumes "persist_state env h source ts st now ex d = (r, d')"
  shows "(r = Inr () \<and> state_of d' = (state_of d)(h \<mapsto> \<lparr>st_hash = h, st_channel_id = channel_id source,
          st_user_identity = user_identity source, st_trips = serialize_timestamps env ts,
          st_status = status_as_str st, st_last_updated = to_rfc3339 (at_chrono env) now\<rparr>)
        \<and> approvals (tables d') = approvals (tables d))
    \<or> (\<exists>e. r = Inl e \<and> tables d' = tables d)"
  using assms unfolding persist_state_def Let_def
  by (cases ex) (auto dest!: update_state_effect insert_state_effect)

lemma insert_approval_states: "insert_approval row d = (r, d') \<Longrightarrow> state_of d' = state_of d"
  unfolding insert_approval_def
  by (drule checked_effect) (auto simp: state_of_def fun_eq_iff split: if_splits)

lemma write_approval_states: "state_of (snd (write_approval_request env fresh s n now d)) = state_of d"
  unfolding write_approval_request_def
  by (metis insert_approval_states prod.collapse)

lemma resolve_approval_effect:
  "resolve_approval i st now d = (r, d') \<Longrightarrow> state_of d' = state_of d \<and>
    ((r = Inr () \<and> approvals (tables d') = map (\<lambda>q. if al_id q = i
        then q\<lparr>al_status := st, al_resolved_at := Some now\<rparr> else q) (approvals (tables d)))
     \<or> (\<exists>e. r = Inl e \<and> tables d' = tables d))"
  unfolding resolve_approval_def
  by (drule checked_effect) (auto simp: state_of_def fun_eq_iff split: if_splits)

lemma resolve_rows_states: "resolve_rows env h st now rows d = (r, d') \<Longrightarrow> state_of d' = state_of d"
proof (induction rows arbitrary: d)
  case (Cons row rows)
  then show ?case
    by (auto split: if_splits tracker_status.splits elim!: bindE_cases dest!: resolve_approval_effect)
qed simp

lemma resolve_pending_states:
  "resolve_pending_approval_requests env h st now d = (r, d') \<Longrightarrow> state_of d' = state_of d"
  unfolding resolve_pending_approval_requests_def
proof (erule bindE_cases)
  fix rows d1 assume "stmt (\<lambda>t. (filter open_request (approvals t), t)) d = (Inr rows, d1)"
    and "resolve_rows env h st (to_rfc3339 (at_chrono env) now) rows d1 = (r, d')"
  then show ?thesis using resolve_rows_states by (fastforce dest: state_of_cong elim: stmt_cases)
qed (auto intro: state_of_cong elim: stmt_cases)

text \<open>A transition ends with the new status and its trips, or before its first write.\<close>

lemma transition_effect:
  assumes "transition_hash env now h st clear d = (r, d')"
  shows "(\<exists>e. r = Inl e \<and> tables d' = tables d)
    \<or> (\<exists>row. state_of d h = Some row \<and> state_of d' = (state_of d)(h \<mapsto> row\<lparr>st_hash := h,
         st_trips := serialize_timestamps env (if clear then [] else parse_timestamps env (st_trips row)),
         st_status := status_as_str st, st_last_updated := to_rfc3339 (at_chrono env) now\<rparr>))"
  using assms unfolding transition_hash_def
proof (cases rule: bindE_cases)
  case (stop e)
  then show ?thesis by (auto dest: find_state_effect)
next
  case (step ex d1)
  from find_state_effect [OF step(1)] have t: "tables d1 = tables d" and ex: "ex = state_of d h" by auto
  show ?thesis
  proof (cases ex)
    case None
    with step(2) t show ?thesis by auto
  next
    case (Some row)
    let ?s = "\<lparr>channel_id = st_channel_id row, user_identity = st_user_identity row\<rparr>"
    let ?ts = "if clear then [] else parse_timestamps env (st_trips row)"
    from step(2) Some have "bindE (persist_state env h ?s ?ts st now True)
        (\<lambda>_. resolve_pending_approval_requests env h st now) d1 = (r, d')"
      by (simp add: Let_def)
    then show ?thesis
    proof (cases rule: bindE_cases)
      case (stop e)
      with t show ?thesis by (auto dest!: persist_effect)
    next
      case (step u d2)
      from persist_effect [OF step(1)] resolve_pending_states [OF step(2)] t Some ex state_of_cong [OF t]
      show ?thesis by (auto simp: Let_def)
    qed
  qed
qed

text \<open>A recorded trip changes only its own source's row, from what the row held.\<close>

definition next_trip_status :: "at_env \<Rightarrow> tracker_config \<Rightarrow> int \<Rightarrow> abuse_db \<Rightarrow> string \<Rightarrow> tracker_status" where
  "next_trip_status env cfg now d h =
    (if length (slide_window cfg now (trips_of env d h)) mod 2 ^ 32 \<ge> max (trips_threshold cfg) 1
        \<and> status_of d h = Normal then PendingApproval else status_of d h)"

lemma record_trip_effect:
  assumes "record_trip env cfg fresh now source d = (r, d')"
  shows "(\<exists>e. r = Inl e \<and> tables d' = tables d)
    \<or> (r = Inr \<lparr>to_status = next_trip_status env cfg now d (source_hash env source),
              to_newly_pending = (next_trip_status env cfg now d (source_hash env source) \<noteq> status_of d (source_hash env source)),
              to_trip_count = length (slide_window cfg now (trips_of env d (source_hash env source))) mod 2 ^ 32\<rparr>
      \<and> state_of d' = (state_of d)(source_hash env source \<mapsto> \<lparr>st_hash = source_hash env source,
          st_channel_id = channel_id source, st_user_identity = user_identity source,
          st_trips = serialize_timestamps env (slide_window cfg now (trips_of env d (source_hash env source))),
          st_status = status_as_str (next_trip_status env cfg now d (source_hash env source)),
          st_last_updated = to_rfc3339 (at_chrono env) now\<rparr>))"
  using assms unfolding record_trip_def Let_def
proof (cases rule: bindE_cases)
  case (stop e)
  then show ?thesis by (auto dest: find_state_effect)
next
  case (step ex d1)
  let ?h = "source_hash env source"
  from find_state_effect [OF step(1)] have t: "tables d1 = tables d" and ex: "ex = state_of d ?h" by auto
  have v: "(case ex of Some row \<Rightarrow> parse_timestamps env (st_trips row) | None \<Rightarrow> []) = trips_of env d ?h"
    "(case ex of Some row \<Rightarrow> status_from_str (st_status row) | None \<Rightarrow> Normal) = status_of d ?h"
    using ex by (simp_all add: trips_of_def status_of_def)
  from step(2) show ?thesis unfolding v
  proof (cases rule: bindE_cases)
    case (stop e)
    with t show ?thesis by (auto dest!: persist_effect)
  next
    case (step u d2)
    have s1: "state_of d1 = state_of d" using t by (rule state_of_cong)
    have s2: "state_of d' = state_of d2"
      using step(2) write_approval_states by (auto split: if_splits)
    from persist_effect [OF step(1)] step(2) show ?thesis
      by (auto simp: s1 s2 next_trip_status_def)
  qed
qed

section \<open>No automatic unblocking\<close>

lemma status_of_update: "state_of d' = (state_of d)(h \<mapsto> row) \<Longrightarrow>
    status_of d' h' = (if h' = h then status_from_str (st_status row) else status_of d h')"
  by (simp add: status_of_def)

lemma status_of_cong: "tables d' = tables d \<Longrightarrow> status_of d' = status_of d"
  by (rule ext) (simp add: status_of_def state_of_def)

lemma record_trip_status:
  assumes "record_trip env cfg fresh now source d = (r, d')"
  shows "status_of d' = status_of d \<or>
    status_of d' = (status_of d)(source_hash env source := next_trip_status env cfg now d (source_hash env source))"
  using record_trip_effect [OF assms]
proof (elim disjE exE conjE)
  fix e assume "tables d' = tables d"
  then show ?thesis by (intro disjI1 status_of_cong)
next
  assume "state_of d' = (state_of d)(source_hash env source \<mapsto> \<lparr>st_hash = source_hash env source,
          st_channel_id = channel_id source, st_user_identity = user_identity source,
          st_trips = serialize_timestamps env (slide_window cfg now (trips_of env d (source_hash env source))),
          st_status = status_as_str (next_trip_status env cfg now d (source_hash env source)),
          st_last_updated = to_rfc3339 (at_chrono env) now\<rparr>)"
  from status_of_update [OF this] show ?thesis by (auto simp: fun_eq_iff)
qed

lemma at_step_keeps:
  assumes "at_step env op1 d d'" and "status_of d h \<noteq> Normal" and "op1 \<noteq> ApproveOp h"
  shows "status_of d' h = status_of d h \<or> status_of d' h = Paused"
  using assms(1)
proof cases
  case (trip cfg fresh now source r)
  from record_trip_status [OF trip(2)] show ?thesis
    using assms(2) by (auto simp: next_trip_status_def)
next
  case (approve now h' r)
  from transition_effect [OF approve(2) [unfolded approve_hash_def]] show ?thesis
    using assms(3) approve(1) by (auto simp: status_of_update dest!: status_of_cong)
next
  case (reject now h' r)
  from transition_effect [OF reject(2) [unfolded reject_hash_def]] show ?thesis
    by (auto simp: status_of_update status_from_str_def dest!: status_of_cong)
qed

text \<open>
  C20. No automatic unblocking. Whatever trips, approvals and rejections follow, with database
  faults at any statement, a source that is pending approval or paused stays suppressed until
  an operator approves that source; a paused one stays paused.
\<close>

theorem no_automatic_unblock:
  assumes "at_run env ops d d'" and "should_suppress_responses (status_of d h)" and "ApproveOp h \<notin> set ops"
  shows "should_suppress_responses (status_of d' h) \<and> (status_of d h = Paused \<longrightarrow> status_of d' h = Paused)"
  using assms
proof (induction rule: at_run.induct)
  case (at_cons op1 d d1 ops d2)
  have n: "status_of d h \<noteq> Normal" using at_cons.prems(1) by auto
  from at_step_keeps [OF at_cons.hyps(1) n] at_cons.prems(2)
  have "status_of d1 h = status_of d h \<or> status_of d1 h = Paused" by auto
  with at_cons show ?case by auto
qed simp

section \<open>Evaluation of a working database\<close>

lemma checked_quiet:
  "faults d = [] \<Longrightarrow> checked (stmt f) d =
    (if fst (f (tables d)) then Inr () else Inl db_error, d\<lparr>tables := snd (f (tables d))\<rparr>)"
  by (simp add: checked_def bindE_def)

lemma checked_faults: "faults d = [] \<Longrightarrow> checked (stmt f) d = (r, d') \<Longrightarrow> faults d' = []"
  by (auto simp: checked_quiet split: if_splits)

lemma find_state_quiet [simp]: "faults d = [] \<Longrightarrow> find_state h d = (Inr (state_of d h), d)"
  by (cases d) (simp add: find_state_def state_of_def)

lemma persist_quiet:
  assumes "faults d = []" and "ex \<longleftrightarrow> state_of d h \<noteq> None"
  shows "\<exists>d'. persist_state env h source ts st now ex d = (Inr (), d') \<and> faults d' = []"
proof (cases ex)
  case True
  then have "\<exists>r \<in> set (states (tables d)). st_hash r = h"
    using assms(2) by (auto simp: state_of_def dest!: find_SomeD)
  with True assms(1) show ?thesis
    by (simp add: persist_state_def Let_def update_state_def checked_quiet)
next
  case False
  then have "\<not> (\<exists>r \<in> set (states (tables d)). st_hash r = h)"
    using assms(2) by (auto simp: state_of_def find_None)
  with False assms(1) show ?thesis
    by (simp add: persist_state_def Let_def insert_state_def checked_quiet)
qed

lemma write_approval_quiet: "faults d = [] \<Longrightarrow> faults (snd (write_approval_request env fresh s n now d)) = []"
  by (simp add: write_approval_request_def insert_approval_def checked_quiet)

lemma record_trip_eq:
  assumes "faults d = []"
    and "persist_state env (source_hash env source) source
      (slide_window cfg now (trips_of env d (source_hash env source)))
      (next_trip_status env cfg now d (source_hash env source)) now
      (state_of d (source_hash env source) \<noteq> None) d = (Inr (), d2)"
  shows "record_trip env cfg fresh now source d =
    (let h = source_hash env source; n = length (slide_window cfg now (trips_of env d h)) mod 2 ^ 32;
         new = (n \<ge> max (trips_threshold cfg) 1 \<and> status_of d h = Normal)
     in (Inr \<lparr>to_status = next_trip_status env cfg now d h, to_newly_pending = new, to_trip_count = n\<rparr>,
         if new then snd (write_approval_request env fresh source n now d2) else d2))"
proof -
  let ?h = "source_hash env source"
  have v: "(case state_of d ?h of Some row \<Rightarrow> parse_timestamps env (st_trips row) | None \<Rightarrow> []) = trips_of env d ?h"
    "(case state_of d ?h of Some row \<Rightarrow> status_from_str (st_status row) | None \<Rightarrow> Normal) = status_of d ?h"
    by (simp_all add: trips_of_def status_of_def)
  have b1: "bindE (find_state ?h) g d = g (state_of d ?h) d" for g :: "_ \<Rightarrow> (abuse_db, 'c) io"
    by (rule bindE_Inr) (simp add: assms(1))
  have b2: "bindE (persist_state env ?h source (slide_window cfg now (trips_of env d ?h))
      (if max (trips_threshold cfg) 1 \<le> length (slide_window cfg now (trips_of env d ?h)) mod 2 ^ 32
          \<and> status_of d ?h = Normal then PendingApproval else status_of d ?h)
      now (state_of d ?h \<noteq> None)) g d = g () d2" for g :: "_ \<Rightarrow> (abuse_db, 'c) io"
    by (rule bindE_Inr) (rule assms(2) [unfolded next_trip_status_def])
  show ?thesis
    unfolding record_trip_def Let_def next_trip_status_def b1 v b2 ..
qed

lemma record_trip_quiet:
  assumes "faults d = []"
  shows "\<exists>out d'. record_trip env cfg fresh now source d = (Inr out, d') \<and> faults d' = []"
proof -
  let ?h = "source_hash env source"
  obtain d2 where d2: "persist_state env ?h source (slide_window cfg now (trips_of env d ?h))
      (next_trip_status env cfg now d ?h) now (state_of d ?h \<noteq> None) d = (Inr (), d2)" "faults d2 = []"
    using persist_quiet [OF assms refl] by blast
  then show ?thesis
    unfolding record_trip_eq [OF assms d2(1)] Let_def using write_approval_quiet [OF d2(2)] by simp
qed

section \<open>The threshold\<close>

lemma parse_serialize:
  assumes "at_ok env" and "\<forall>t \<in> set ts. rfc_range t"
  shows "parse_timestamps env (serialize_timestamps env ts) = ts"
proof -
  from assms(1) obtain w where t: "at_write_list env (map (to_rfc3339 (at_chrono env)) ts) = Some w"
    "at_read_list env w = Some (map (to_rfc3339 (at_chrono env)) ts)" unfolding at_ok_def by blast
  have ch: "chrono_ok (at_chrono env)" using assms(1) by (simp add: at_ok_def)
  have "List.map_filter (parse_rfc3339 (at_chrono env)) (map (to_rfc3339 (at_chrono env)) ts) = ts"
    using assms(2) by (induction ts) (simp_all add: map_filter_simps chrono_parse [OF ch])
  with t show ?thesis by (simp add: parse_timestamps_def serialize_timestamps_def)
qed

text \<open>
  A trip. A successful record keeps exactly the trips inside the window and the new one, and
  a normal source moves to pending approval exactly when their number reaches the threshold
  (zero counts as one); only that transition is reported as newly pending. No other source
  changes.
\<close>

theorem trip_effect:
  assumes "at_ok env" and "rfc_range now" and "\<forall>t \<in> set (trips_of env d (source_hash env source)). rfc_range t"
    and "length (trips_of env d (source_hash env source)) < 2 ^ 32 - 1"
    and "record_trip env cfg fresh now source d = (Inr out, d')"
  shows "let h = source_hash env source;
             kept = filter (\<lambda>t. t \<ge> now - secs (60 * int (max (window_minutes cfg) 1))) (trips_of env d h);
             full = (length kept + 1 \<ge> max (trips_threshold cfg) 1)
         in trips_of env d' h = kept @ [now] \<and> to_trip_count out = length kept + 1
          \<and> status_of d' h = to_status out
          \<and> to_status out = (if status_of d h = Normal \<and> full then PendingApproval else status_of d h)
          \<and> to_newly_pending out = (status_of d h = Normal \<and> full)
          \<and> (\<forall>h'. h' \<noteq> h \<longrightarrow> state_of d' h' = state_of d h')"
proof -
  let ?h = "source_hash env source"
  let ?kept = "filter (\<lambda>t. t \<ge> now - secs (60 * int (max (window_minutes cfg) 1))) (trips_of env d ?h)"
  have w: "slide_window cfg now (trips_of env d ?h) = ?kept @ [now]" by (simp add: slide_window_def)
  have "length ?kept \<le> length (trips_of env d ?h)" by (rule length_filter_le)
  with assms(4) have "length ?kept + 1 < 2 ^ 32" by linarith
  then have m: "(length ?kept + 1) mod 2 ^ 32 = length ?kept + 1" by (rule mod_less)
  have "parse_timestamps env (serialize_timestamps env (?kept @ [now])) = ?kept @ [now]"
    by (rule parse_serialize [OF assms(1)]) (use assms(2,3) in auto)
  moreover from record_trip_effect [OF assms(5)] have
    o1: "out = \<lparr>to_status = next_trip_status env cfg now d ?h,
              to_newly_pending = (next_trip_status env cfg now d ?h \<noteq> status_of d ?h),
              to_trip_count = length ?kept + 1\<rparr>"
    and st: "state_of d' = (state_of d)(?h \<mapsto> \<lparr>st_hash = ?h,
          st_channel_id = channel_id source, st_user_identity = user_identity source,
          st_trips = serialize_timestamps env (?kept @ [now]),
          st_status = status_as_str (next_trip_status env cfg now d ?h),
          st_last_updated = to_rfc3339 (at_chrono env) now\<rparr>)"
    using m unfolding w by simp_all
  moreover have "next_trip_status env cfg now d ?h
      = (if status_of d ?h = Normal \<and> length ?kept + 1 \<ge> max (trips_threshold cfg) 1 then PendingApproval else status_of d ?h)"
    using m by (simp add: next_trip_status_def w)
  ultimately show ?thesis
    using status_of_update [OF st, of ?h] by (simp add: Let_def trips_of_def)
qed

section \<open>Operator decisions\<close>

definition resolved :: "string \<Rightarrow> string \<Rightarrow> log_row \<Rightarrow> log_row" where
  "resolved st now r = r\<lparr>al_status := st, al_resolved_at := Some now\<rparr>"

lemma resolved_simps [simp]:
  "al_id (resolved st now r) = al_id r" "al_status (resolved st now r) = st"
  "resolved st now (resolved st now r) = resolved st now r"
  "al_arguments (resolved st now r) = al_arguments r"
  by (simp_all add: resolved_def)

lemma resolve_rows_effect:
  assumes "resolve_rows env h st now rows d = (Inr (), d')" and "st \<noteq> PendingApproval"
    and "word = (if st = Normal then ''approved'' else ''denied'')"
  shows "approvals (tables d') = map (\<lambda>r. if \<exists>q \<in> set rows. request_for env h q \<and> al_id q = al_id r
    then resolved word now r else r) (approvals (tables d))"
  using assms(1)
proof (induction rows arbitrary: d)
  case Nil
  then show ?case by (simp add: list.map_ident)
next
  case (Cons row rows)
  show ?case
  proof (cases "request_for env h row")
    case False
    with Cons show ?thesis by simp
  next
    case True
    with Cons.prems assms(2,3) obtain d1 where r: "resolve_approval (al_id row) word now d = (Inr (), d1)"
      and m: "resolve_rows env h st now rows d1 = (Inr (), d')"
      by (cases st) (auto elim!: bindE_InrE)
    from resolve_approval_effect [OF r] have a: "approvals (tables d1) =
        map (\<lambda>q. if al_id q = al_id row then resolved word now q else q) (approvals (tables d))"
      by (simp add: resolved_def)
    show ?thesis unfolding Cons.IH [OF m] a by (use True in \<open>auto simp: comp_def\<close>)
  qed
qed

text \<open>
  An operator's approval. It resets the source to normal with an empty window, marks
  exactly its open review requests approved with the time of the decision, and changes neither
  another source nor another request; no open request for the source is left.
\<close>

theorem approve_resets:
  assumes "at_ok env" and "distinct (map al_id (approvals (tables d)))"
    and "approve_hash env now h d = (Inr (), d')"
  shows "status_of d' h = Normal \<and> trips_of env d' h = []
    \<and> (\<forall>h'. h' \<noteq> h \<longrightarrow> state_of d' h' = state_of d h')
    \<and> approvals (tables d') = map (\<lambda>r. if open_request r \<and> request_for env h r
         then r\<lparr>al_status := ''approved'', al_resolved_at := Some (to_rfc3339 (at_chrono env) now)\<rparr> else r)
         (approvals (tables d))
    \<and> \<not> (\<exists>r \<in> set (approvals (tables d')). open_request r \<and> request_for env h r)"
proof -
  let ?t = "to_rfc3339 (at_chrono env) now"
  from transition_effect [OF assms(3) [unfolded approve_hash_def]] obtain row where
    row: "state_of d h = Some row" and st: "state_of d' = (state_of d)(h \<mapsto> row\<lparr>st_hash := h,
         st_trips := serialize_timestamps env [], st_status := status_as_str Normal, st_last_updated := ?t\<rparr>)"
    by auto
  obtain ex d1 where f: "find_state h d = (Inr ex, d1)" and b: "(case ex of None \<Rightarrow> fail (Err ''Abuse review source not found'')
     | Some row \<Rightarrow> (let source = \<lparr>channel_id = st_channel_id row, user_identity = st_user_identity row\<rparr>;
             timestamps = (if True then [] else parse_timestamps env (st_trips row))
         in bindE (persist_state env h source timestamps Normal now True) (\<lambda>_.
            resolve_pending_approval_requests env h Normal now))) d1 = (Inr (), d')"
    using assms(3) unfolding approve_hash_def transition_hash_def by (rule bindE_InrE)
  have t: "tables d1 = tables d" "ex = Some row" using find_state_effect [OF f] row by auto
  obtain u d2 where p: "persist_state env h \<lparr>channel_id = st_channel_id row, user_identity = st_user_identity row\<rparr>
      [] Normal now True d1 = (Inr u, d2)" and m: "resolve_pending_approval_requests env h Normal now d2 = (Inr (), d')"
    using b t(2) by (auto simp: Let_def elim: bindE_InrE)
  have ap: "approvals (tables d2) = approvals (tables d)" using persist_effect [OF p] t by auto
  obtain rows d3 where rows: "stmt (\<lambda>t. (filter open_request (approvals t), t)) d2 = (Inr rows, d3)"
    and rr: "resolve_rows env h Normal ?t rows d3 = (Inr (), d')"
    using m unfolding resolve_pending_approval_requests_def by (rule bindE_InrE)
  have r3: "rows = filter open_request (approvals (tables d))" "approvals (tables d3) = approvals (tables d)"
    using rows ap by (auto elim: stmt_cases)
  have one: "(\<exists>q \<in> set rows. request_for env h q \<and> al_id q = al_id r) \<longleftrightarrow> open_request r \<and> request_for env h r"
    if "r \<in> set (approvals (tables d))" for r
  proof -
    have "q = r" if "q \<in> set (approvals (tables d))" "al_id q = al_id r" for q
      using assms(2) that \<open>r \<in> set (approvals (tables d))\<close> unfolding distinct_map inj_on_def by blast
    then show ?thesis using that unfolding r3(1) by auto
  qed
  have ap': "approvals (tables d') = map (\<lambda>r. if open_request r \<and> request_for env h r
      then resolved ''approved'' ?t r else r) (approvals (tables d))"
    using resolve_rows_effect [OF rr] r3(2) one by (simp cong: map_cong)
  moreover have "\<not> (\<exists>r \<in> set (approvals (tables d')). open_request r \<and> request_for env h r)"
    unfolding ap' by (auto simp: open_request_def)
  moreover have "status_of d' h = Normal" using status_of_update [OF st, of h] by (simp del: status_as_str.simps)
  moreover have "trips_of env d' h = []" using parse_serialize [OF assms(1), of "[]"] by (simp add: trips_of_def st)
  moreover have "\<forall>h'. h' \<noteq> h \<longrightarrow> state_of d' h' = state_of d h'" using st by simp
  ultimately show ?thesis unfolding resolved_def by blast
qed

section \<open>A burst of trips\<close>

fun trip_all :: "at_env \<Rightarrow> tracker_config \<Rightarrow> string \<Rightarrow> source_key \<Rightarrow> int list \<Rightarrow> abuse_db \<Rightarrow> abuse_db" where
  "trip_all env cfg fresh source [] d = d"
| "trip_all env cfg fresh source (t # ts) d =
     trip_all env cfg fresh source ts (snd (record_trip env cfg fresh t source d))"

lemma trip_all_snoc: "trip_all env cfg fresh source (ts @ [t]) d =
    snd (record_trip env cfg fresh t source (trip_all env cfg fresh source ts d))"
  by (induction ts arbitrary: d) simp_all

text \<open>The review request of a newly pending source.\<close>

lemma newly_pending_request:
  assumes "at_ok env" and "faults d = []" and "fresh \<notin> al_id ` set (approvals (tables d))"
    and "record_trip env cfg fresh now source d = (Inr out, d')"
  shows "to_newly_pending out \<longrightarrow> (\<exists>r \<in> set (approvals (tables d')). open_request r \<and> request_for env (source_hash env source) r)"
    and "\<not> to_newly_pending out \<longrightarrow> approvals (tables d') = approvals (tables d)"
proof -
  let ?h = "source_hash env source"
  let ?ts = "slide_window cfg now (trips_of env d ?h)"
  let ?st = "next_trip_status env cfg now d ?h"
  obtain d2 where p: "persist_state env ?h source ?ts ?st now (state_of d ?h \<noteq> None) d = (Inr (), d2)" "faults d2 = []"
    using persist_quiet [OF assms(2) refl] by blast
  have a2: "approvals (tables d2) = approvals (tables d)" using persist_effect [OF p(1)] by auto
  let ?new = "length ?ts mod 2 ^ 32 \<ge> max (trips_threshold cfg) 1 \<and> status_of d ?h = Normal"
  have r: "to_newly_pending out = ?new"
    "d' = (if ?new then snd (write_approval_request env fresh source (length ?ts mod 2 ^ 32) now d2) else d2)"
    using assms(4) unfolding record_trip_eq [OF assms(2) p(1)] Let_def by auto
  have j: "at_read_json env (at_write_json env (request_args h ch i n)) = Some (request_args h ch i n)" for h ch i n
    using assms(1) by (simp add: at_ok_def)
  have fr: "\<not> (\<exists>r \<in> set (approvals (tables d2)). al_id r = fresh)" using assms(3) a2 by auto
  show "to_newly_pending out \<longrightarrow> (\<exists>r \<in> set (approvals (tables d')). open_request r \<and> request_for env ?h r)"
  proof
    assume new: "to_newly_pending out"
    let ?row = "\<lparr>al_id = fresh, al_action_name = APPROVAL_ACTION_NAME,
       al_arguments = at_write_json env (request_args ?h (channel_id source) (user_identity source) (length ?ts mod 2 ^ 32)),
       al_rule_name = APPROVAL_RULE_NAME, al_requested_at = to_rfc3339 (at_chrono env) now,
       al_resolved_at = None, al_resolved_by = None, al_status = ''pending''\<rparr>"
    have "approvals (tables d') = approvals (tables d2) @ [?row]"
      using new r fr p(2) by (simp add: write_approval_request_def insert_approval_def checked_quiet)
    moreover have "open_request ?row" by (simp add: open_request_def)
    moreover have "request_for env ?h ?row" by (simp add: request_for_def j) (simp add: request_args_def)
    ultimately show "\<exists>r \<in> set (approvals (tables d')). open_request r \<and> request_for env ?h r"
      by (metis in_set_conv_decomp)
  qed
  show "\<not> to_newly_pending out \<longrightarrow> approvals (tables d') = approvals (tables d)" using r a2 by simp
qed

lemma trip_keeps_requests:
  assumes "faults d = []" and "record_trip env cfg fresh now source d = (Inr out, d')"
  shows "set (approvals (tables d)) \<subseteq> set (approvals (tables d'))"
proof -
  let ?h = "source_hash env source"
  obtain d2 where p: "persist_state env ?h source (slide_window cfg now (trips_of env d ?h))
      (next_trip_status env cfg now d ?h) now (state_of d ?h \<noteq> None) d = (Inr (), d2)" "faults d2 = []"
    using persist_quiet [OF assms(1) refl] by blast
  have a2: "approvals (tables d2) = approvals (tables d)" using persist_effect [OF p(1)] by auto
  have "set (approvals (tables d2)) \<subseteq> set (approvals (tables (snd (write_approval_request env fresh source n now d2))))" for n
    using p(2) by (auto simp: write_approval_request_def insert_approval_def checked_quiet)
  with assms(2) a2 show ?thesis
    unfolding record_trip_eq [OF assms(1) p(1)] Let_def by (auto split: if_splits)
qed

text \<open>
  A burst. Trips of a normal source with an empty window, all inside one window and on a
  working database, leave it normal as long as they are fewer than the threshold; from the
  threshold on it is pending approval and an open review request names it.
\<close>

theorem burst_suppresses:
  assumes "at_ok env" and "faults d = []" and "status_of d (source_hash env source) = Normal"
    and "trips_of env d (source_hash env source) = []" and "fresh \<notin> al_id ` set (approvals (tables d))"
    and "\<forall>t \<in> set ts. rfc_range t" and "length ts < 2 ^ 32"
    and "\<forall>t \<in> set ts. \<forall>t' \<in> set ts. t' - t \<le> secs (60 * int (max (window_minutes cfg) 1))"
  shows "let d' = trip_all env cfg fresh source ts d; h = source_hash env source in
    trips_of env d' h = ts
    \<and> status_of d' h = (if ts \<noteq> [] \<and> trips_threshold cfg \<le> length ts then PendingApproval else Normal)
    \<and> (ts \<noteq> [] \<and> trips_threshold cfg \<le> length ts \<longrightarrow>
         (\<exists>r \<in> set (approvals (tables d')). open_request r \<and> request_for env h r))"
proof -
  let ?h = "source_hash env source"
  have "faults (trip_all env cfg fresh source ts d) = []
    \<and> trips_of env (trip_all env cfg fresh source ts d) ?h = ts
    \<and> status_of (trip_all env cfg fresh source ts d) ?h
        = (if ts \<noteq> [] \<and> trips_threshold cfg \<le> length ts then PendingApproval else Normal)
    \<and> (if ts \<noteq> [] \<and> trips_threshold cfg \<le> length ts
       then \<exists>r \<in> set (approvals (tables (trip_all env cfg fresh source ts d))). open_request r \<and> request_for env ?h r
       else approvals (tables (trip_all env cfg fresh source ts d)) = approvals (tables d))"
    using assms(6-8)
  proof (induction ts rule: rev_induct)
    case Nil
    then show ?case using assms(2-4) by simp
  next
    case (snoc t ts)
    let ?d = "trip_all env cfg fresh source ts d"
    from snoc have q: "faults ?d = []" and tr: "trips_of env ?d ?h = ts"
      and st: "status_of ?d ?h = (if ts \<noteq> [] \<and> trips_threshold cfg \<le> length ts then PendingApproval else Normal)"
      and ap: "if ts \<noteq> [] \<and> trips_threshold cfg \<le> length ts
       then \<exists>r \<in> set (approvals (tables ?d)). open_request r \<and> request_for env ?h r
       else approvals (tables ?d) = approvals (tables d)" by auto
    obtain out d' where r: "record_trip env cfg fresh t source ?d = (Inr out, d')" and q': "faults d' = []"
      using record_trip_quiet [OF q] by blast
    have kept: "filter (\<lambda>x. x \<ge> t - secs (60 * int (max (window_minutes cfg) 1))) ts = ts"
    proof (intro filter_True ballI)
      fix x assume "x \<in> set ts"
      with snoc.prems(3) have "t - x \<le> secs (60 * int (max (window_minutes cfg) 1))" by auto
      then show "x \<ge> t - secs (60 * int (max (window_minutes cfg) 1))" by linarith
    qed
    have w: "slide_window cfg t (trips_of env ?d ?h) = ts @ [t]" unfolding slide_window_def tr Let_def kept ..
    have m: "length (ts @ [t]) mod 2 ^ 32 = length ts + 1" using snoc.prems(2) by simp
    have n: "next_trip_status env cfg t ?d ?h = (if trips_threshold cfg \<le> length ts + 1 then PendingApproval else Normal)"
      unfolding next_trip_status_def w m using st by auto
    from record_trip_effect [OF r] have o1: "to_newly_pending out = (next_trip_status env cfg t ?d ?h \<noteq> status_of ?d ?h)"
      and s': "state_of d' = (state_of ?d)(?h \<mapsto> \<lparr>st_hash = ?h, st_channel_id = channel_id source,
          st_user_identity = user_identity source, st_trips = serialize_timestamps env (ts @ [t]),
          st_status = status_as_str (next_trip_status env cfg t ?d ?h),
          st_last_updated = to_rfc3339 (at_chrono env) t\<rparr>)"
      unfolding w by auto
    have "parse_timestamps env (serialize_timestamps env (ts @ [t])) = ts @ [t]"
      using snoc.prems(1) by (intro parse_serialize [OF assms(1)]) auto
    then have tr': "trips_of env d' ?h = ts @ [t]" by (simp add: trips_of_def s')
    have st': "status_of d' ?h = (if trips_threshold cfg \<le> length (ts @ [t]) then PendingApproval else Normal)"
      using status_of_update [OF s', of ?h] n by simp
    have ap': "if trips_threshold cfg \<le> length (ts @ [t])
       then \<exists>r \<in> set (approvals (tables d')). open_request r \<and> request_for env ?h r
       else approvals (tables d') = approvals (tables d)"
    proof (cases "ts \<noteq> [] \<and> trips_threshold cfg \<le> length ts")
      case True
      with ap trip_keeps_requests [OF q r] show ?thesis by auto
    next
      case False
      with ap assms(5) have fr: "fresh \<notin> al_id ` set (approvals (tables ?d))" by simp
      from newly_pending_request [OF assms(1) q fr r] False ap o1 n st show ?thesis by auto
    qed
    show ?case unfolding trip_all_snoc r snd_conv using q' tr' st' ap' by simp
  qed
  then show ?thesis by (simp add: Let_def split: if_splits)
qed

section \<open>Closed examples\<close>

text \<open>A digest that is the identity, and lists of strings written with every character marked.\<close>

definition text_args :: "json \<Rightarrow> string" where
  "text_args j = mark_list [the (json_as_str (the (json_get ''source_key_hash'' j))),
     the (json_as_str (the (json_get ''channel_id'' j))),
     (case json_get ''user_identity'' j of Some (JStr i) \<Rightarrow> CHR ''+'' # i | _ \<Rightarrow> []),
     (case json_get ''trip_count'' j of Some (JNum n) \<Rightarrow> n | _ \<Rightarrow> [])]"

definition read_args :: "string \<Rightarrow> json option" where
  "read_args s = (case unmark [] s of
     Some [h, ch, i, n] \<Rightarrow> Some (json_insert ''source_key_hash'' (JStr h) (json_insert ''channel_id'' (JStr ch)
       (json_insert ''user_identity'' (case i of [] \<Rightarrow> JNull | _ # i' \<Rightarrow> JStr i')
       (json_insert ''trip_count'' (JNum n) (JObj [])))))
   | _ \<Rightarrow> None)"

definition at_sample :: at_env where
  "at_sample = \<lparr>at_digest = id, at_chrono = decimal_chrono, at_write_list = (\<lambda>xs. Some (mark_list xs)),
     at_read_list = unmark [], at_write_json = text_args, at_read_json = read_args\<rparr>"

lemma read_args_text [simp]: "read_args (text_args (request_args h ch i n)) = Some (request_args h ch i n)"
  by (cases i) (simp_all add: read_args_def text_args_def request_args_def del: mark_list.simps)

lemma at_sample_ok: "at_ok at_sample"
  by (simp add: at_ok_def at_sample_def decimal_chrono_ok)

definition at_empty :: abuse_db where
  "at_empty = \<lparr>tables = \<lparr>states = [], approvals = []\<rparr>, faults = []\<rparr>"

definition sample_source :: source_key where
  "sample_source = \<lparr>channel_id = ''web'', user_identity = Some ''eve''\<rparr>"

lemma at_empty_simps [simp]:
  "state_of at_empty h = None" "status_of at_empty h = Normal" "trips_of env at_empty h = []"
  "faults at_empty = []" "approvals (tables at_empty) = []"
  by (simp_all add: state_of_def status_of_def trips_of_def at_empty_def)

definition sample_config :: tracker_config where
  "sample_config = \<lparr>trips_threshold = 2, window_minutes = 10\<rparr>"

lemma sample_instants: "rfc_range 0" "rfc_range (secs 5)" "secs 5 \<le> secs 600" "0 \<le> secs 600" "- secs 5 \<le> secs 600"
  by (simp_all add: rfc_range_num secs_def ns_per_sec_def)

lemma sample_window: "secs (60 * int (max (window_minutes sample_config) 1)) = secs 600"
  by (simp add: sample_config_def)

theorem burst_suppresses_witness:
  "status_of (trip_all at_sample sample_config ''r1'' sample_source [0, secs 5] at_empty)
     (source_hash at_sample sample_source) = PendingApproval"
proof -
  have "\<forall>t \<in> set [0, secs 5]. \<forall>t' \<in> set [0, secs 5]. t' - t \<le> secs (60 * int (max (window_minutes sample_config) 1))"
    unfolding sample_window using sample_instants by simp
  moreover have "\<forall>t \<in> set [0, secs 5]. rfc_range t" using sample_instants by simp
  ultimately show ?thesis
    using burst_suppresses [OF at_sample_ok, of at_empty sample_source "''r1''" "[0, secs 5]" sample_config]
    by (simp add: Let_def sample_config_def)
qed

text \<open>A state in which a source waits for the operator, with its review request.\<close>

definition waiting_hash :: string where "waiting_hash = ''web|eve''"

definition waiting_request :: log_row where
  "waiting_request = \<lparr>al_id = ''r1'', al_action_name = APPROVAL_ACTION_NAME,
     al_arguments = text_args (request_args waiting_hash ''web'' (Some ''eve'') 2),
     al_rule_name = APPROVAL_RULE_NAME, al_requested_at = ''5'', al_resolved_at = None,
     al_resolved_by = None, al_status = ''pending''\<rparr>"

definition waiting_db :: abuse_db where
  "waiting_db = \<lparr>tables = \<lparr>states = [\<lparr>st_hash = waiting_hash, st_channel_id = ''web'',
        st_user_identity = Some ''eve'', st_trips = mark_list [''0'', ''5''],
        st_status = ''pending_approval'', st_last_updated = ''5''\<rparr>],
      approvals = [waiting_request]\<rparr>, faults = []\<rparr>"

lemma waiting_status: "status_of waiting_db waiting_hash = PendingApproval"
  by (simp add: status_of_def state_of_def waiting_db_def status_from_str_def)

lemma waiting_open: "open_request waiting_request" "request_for at_sample waiting_hash waiting_request"
  by (simp_all add: open_request_def waiting_request_def request_for_def at_sample_def)
    (simp add: request_args_def)

theorem no_automatic_unblock_witness:
  "\<exists>d'. at_run at_sample [Trip sample_source, RejectOp ''other''] waiting_db d'
    \<and> should_suppress_responses (status_of d' waiting_hash)"
proof -
  obtain r d1 where t: "record_trip at_sample sample_config ''r2'' 0 sample_source waiting_db = (r, d1)" by fastforce
  obtain r' d2 where j: "reject_hash at_sample 0 ''other'' d1 = (r', d2)" by fastforce
  have run: "at_run at_sample [Trip sample_source, RejectOp ''other''] waiting_db d2"
    by (rule at_run.at_cons [OF at_step.trip [OF t] at_run.at_cons [OF at_step.reject [OF j] at_run.at_nil]])
  have "should_suppress_responses (status_of waiting_db waiting_hash)" by (simp add: waiting_status)
  from no_automatic_unblock [OF run this] run show ?thesis by auto
qed

theorem trip_effect_witness:
  "\<exists>out d'. record_trip at_sample sample_config ''r1'' 0 sample_source at_empty = (Inr out, d')
    \<and> to_status out = Normal \<and> to_trip_count out = 1"
proof -
  obtain out d' where r: "record_trip at_sample sample_config ''r1'' 0 sample_source at_empty = (Inr out, d')"
    using record_trip_quiet [of at_empty] by fastforce
  from trip_effect [OF at_sample_ok sample_instants(1) _ _ r] r show ?thesis
    by (simp add: Let_def sample_config_def)
qed

theorem approve_resets_witness:
  "\<exists>d'. approve_hash at_sample 0 waiting_hash waiting_db = (Inr (), d') \<and> status_of d' waiting_hash = Normal
    \<and> (\<exists>r \<in> set (approvals (tables d')). al_status r = ''approved'')"
proof -
  have q: "faults waiting_db = []" by (simp add: waiting_db_def)
  obtain row where row: "state_of waiting_db waiting_hash = Some row" by (simp add: state_of_def waiting_db_def)
  have "\<exists>d1. persist_state at_sample waiting_hash \<lparr>channel_id = st_channel_id row, user_identity = st_user_identity row\<rparr>
      [] Normal 0 True waiting_db = (Inr (), d1) \<and> faults d1 = []"
    by (rule persist_quiet [OF q]) (simp add: row)
  then obtain d1 where d1: "persist_state at_sample waiting_hash \<lparr>channel_id = st_channel_id row, user_identity = st_user_identity row\<rparr>
      [] Normal 0 True waiting_db = (Inr (), d1)" "faults d1 = []" by blast
  have "approvals (tables d1) = [waiting_request]" using persist_effect [OF d1(1)] by (auto simp: waiting_db_def)
  then have "\<exists>d2. resolve_pending_approval_requests at_sample waiting_hash Normal 0 d1 = (Inr (), d2)"
    using d1(2) waiting_open
    by (simp add: resolve_pending_approval_requests_def bindE_def resolve_approval_def checked_quiet)
  then obtain d2 where "resolve_pending_approval_requests at_sample waiting_hash Normal 0 d1 = (Inr (), d2)" by blast
  with d1 q row have a: "approve_hash at_sample 0 waiting_hash waiting_db = (Inr (), d2)"
    by (simp add: approve_hash_def transition_hash_def Let_def)
  have "distinct (map al_id (approvals (tables waiting_db)))" by (simp add: waiting_db_def)
  from approve_resets [OF at_sample_ok this a]
  have "status_of d2 waiting_hash = Normal" and ap: "approvals (tables d2) = map (\<lambda>r. if open_request r \<and> request_for at_sample waiting_hash r
         then r\<lparr>al_status := ''approved'', al_resolved_at := Some (to_rfc3339 (at_chrono at_sample) 0)\<rparr> else r)
         (approvals (tables waiting_db))" by blast+
  moreover have w: "approvals (tables waiting_db) = [waiting_request]" by (simp add: waiting_db_def)
  have "\<exists>r \<in> set (approvals (tables d2)). al_status r = ''approved''"
    unfolding ap w using waiting_open by simp
  ultimately show ?thesis using a by blast
qed

text \<open>
  The digest's input does not separate the two parts of a source: sources with different
  channels and users, or with no user and an empty one, share their state.
\<close>

lemma source_hash_collision:
  "source_hash env \<lparr>channel_id = a @ ''|'' @ b, user_identity = Some c\<rparr>
    = source_hash env \<lparr>channel_id = a, user_identity = Some (b @ ''|'' @ c)\<rparr>"
  "source_hash env \<lparr>channel_id = a, user_identity = None\<rparr> = source_hash env \<lparr>channel_id = a, user_identity = Some []\<rparr>"
  by (simp_all add: source_hash_def)

end
