(* ===== verification/Execution_Supervisor.thy ===== *)
theory Execution_Supervisor
  imports Clock_Text
begin

text \<open>
  The model-call supervisor of \<open>core/orchestration/execution.rs\<close>: the rank of model
  candidates, the classification of errors, recovery actions and cooldowns, the outcomes shown
  to the user, and the supervised calls, whose error text carries the class of the failure.

  The LLM client is a parameter: a call takes some milliseconds and answers or fails
  (\<open>llm_call\<close>). A downcast to \<open>LlmStreamFailure\<close> is the field \<open>le_stream\<close> of an
  error. Field prefixes: \<open>ar_\<close> (\<open>AttemptRecord\<close>), \<open>ma_\<close>
  (\<open>ModelAttemptRecord\<close>), \<open>uo_\<close> (\<open>UserFacingOutcome\<close>), \<open>eo_\<close>
  (\<open>ExecutionOutcome\<close>), \<open>ec_\<close> (\<open>ExecutionCandidateDescriptor\<close>), \<open>er_\<close>
  (\<open>ExecutionRequest\<close>).
\<close>

section \<open>Data\<close>

record degradation_note =
  dn_kind :: string
  dn_summary :: string
  dn_detail :: "string option"

datatype request_state = NeedsClarification | NeedsPermission | NeedsIntegration | NeedsCredentials
  | NeedsStrongerModel | Executing | Completed | CompletedDegraded | HardServiceOutage

datatype failure_kind = TransientTransport | RateLimited | Authentication | Configuration
  | ContextWindowExceeded | SchemaMismatch | ToolContractFailure | CapabilityBound | UpstreamProvider
  | Timeout | MissingInput | InternalPostProcess | DelegationFailed | Panic | Unknown

fun failure_as_str :: "failure_kind \<Rightarrow> string" where
  "failure_as_str TransientTransport = ''transient_transport''"
| "failure_as_str RateLimited = ''rate_limited''"
| "failure_as_str Authentication = ''authentication''"
| "failure_as_str Configuration = ''configuration''"
| "failure_as_str ContextWindowExceeded = ''context_window_exceeded''"
| "failure_as_str SchemaMismatch = ''schema_mismatch''"
| "failure_as_str ToolContractFailure = ''tool_contract_failure''"
| "failure_as_str CapabilityBound = ''capability_bound''"
| "failure_as_str UpstreamProvider = ''upstream_provider''"
| "failure_as_str Timeout = ''timeout''"
| "failure_as_str MissingInput = ''missing_input''"
| "failure_as_str InternalPostProcess = ''internal_post_process''"
| "failure_as_str DelegationFailed = ''delegation_failed''"
| "failure_as_str Panic = ''panic''"
| "failure_as_str Unknown = ''unknown''"

definition from_str_label :: "string \<Rightarrow> failure_kind option" where
  "from_str_label value = (let v = trim value in
     if v = ''transient_transport'' then Some TransientTransport
     else if v = ''rate_limited'' then Some RateLimited
     else if v = ''authentication'' then Some Authentication
     else if v = ''configuration'' then Some Configuration
     else if v = ''context_window_exceeded'' then Some ContextWindowExceeded
     else if v = ''schema_mismatch'' then Some SchemaMismatch
     else if v = ''tool_contract_failure'' then Some ToolContractFailure
     else if v = ''capability_bound'' then Some CapabilityBound
     else if v = ''upstream_provider'' then Some UpstreamProvider
     else if v = ''timeout'' then Some Timeout
     else if v = ''missing_input'' then Some MissingInput
     else if v = ''internal_post_process'' then Some InternalPostProcess
     else if v = ''delegation_failed'' then Some DelegationFailed
     else if v = ''panic'' then Some Panic
     else if v = ''unknown'' then Some Unknown
     else None)"

datatype recovery_action = NoAction | RetrySameModel | SwitchModel | AskForMissingInput
  | AskForCredentials | AskForPermission | AskForIntegration | AskForStrongerModel | ReturnDegraded
  | SurfaceServiceOutage

datatype outcome_status = OComplete | ODegraded | ONeedsClarification | ONeedsPermission
  | ONeedsIntegration | ONeedsCredentials | ONeedsStrongerModel | OServiceUnavailable

record attempt_policy =
  auto_step_up :: bool
  max_model_attempts :: nat
  max_same_model_retries :: nat
  allow_degraded_completion :: bool

definition default_policy :: attempt_policy where
  "default_policy = \<lparr>auto_step_up = True, max_model_attempts = 6, max_same_model_retries = 1,
     allow_degraded_completion = True\<rparr>"

record execution_request =
  er_kind :: string
  er_channel :: "string option"
  er_conversation_id :: "string option"
  er_session_id :: "string option"
  er_preferred_model_role :: "string option"
  er_message_preview :: "string option"

record model_attempt =
  ma_slot_id :: string
  ma_slot_label :: string
  ma_model_name :: string
  ma_provider_id :: "string option"
  ma_success :: bool
  ma_attempted_at :: string
  ma_failure_kind :: "failure_kind option"
  ma_recovery_action :: recovery_action
  ma_auto_escalated :: bool
  ma_elapsed_ms :: "nat option"
  ma_error :: "string option"

record attempt_record =
  ar_slot_id :: string
  ar_slot_label :: string
  ar_model_name :: string
  ar_provider_id :: "string option"
  ar_success :: bool
  ar_attempted_at :: string
  ar_failure_kind :: "failure_kind option"
  ar_recovery_action :: recovery_action
  ar_auto_escalated :: bool
  ar_elapsed_ms :: "nat option"
  ar_error :: "string option"

definition to_model_attempt :: "attempt_record \<Rightarrow> model_attempt" where
  "to_model_attempt a = \<lparr>ma_slot_id = ar_slot_id a, ma_slot_label = ar_slot_label a,
     ma_model_name = ar_model_name a, ma_provider_id = ar_provider_id a, ma_success = ar_success a,
     ma_attempted_at = ar_attempted_at a, ma_failure_kind = ar_failure_kind a,
     ma_recovery_action = ar_recovery_action a, ma_auto_escalated = ar_auto_escalated a,
     ma_elapsed_ms = ar_elapsed_ms a, ma_error = ar_error a\<rparr>"

record user_outcome =
  uo_status :: outcome_status
  uo_request_state :: request_state
  uo_message :: string
  uo_retryable :: bool
  uo_reason_code :: "string option"
  uo_degradation :: "degradation_note list"
  uo_attempted_models :: "model_attempt list"

record execution_outcome =
  eo_request_state :: request_state
  eo_user_outcome :: user_outcome
  eo_attempts :: "attempt_record list"
  eo_degradation :: "degradation_note list"

datatype capability_tier = Economy | Balanced | Premium
datatype cost_tier = CostLow | CostMedium | CostHigh

record candidate_descriptor =
  ec_slot_id :: string
  ec_provider_id :: "string option"
  ec_capability_tier :: capability_tier
  ec_cost_tier :: cost_tier
  ec_auto_escalate :: bool
  ec_escalation_rank :: int
  ec_is_user_selected :: bool
  ec_is_primary :: bool
  ec_original_index :: nat

datatype stream_failure_kind = NoFirstDelta | InterChunkStall | NoUsefulProgress | TotalTimeout
  | ChunkErrors | EmptyEnd | NoUsableContent

record llm_error =
  le_stream :: "stream_failure_kind option"
  le_text :: string

section \<open>Ranking\<close>

fun cost_rank :: "cost_tier \<Rightarrow> nat" where
  "cost_rank CostLow = 0" | "cost_rank CostMedium = 1" | "cost_rank CostHigh = 2"

fun capability_rank :: "capability_tier \<Rightarrow> nat" where
  "capability_rank Economy = 0" | "capability_rank Balanced = 1" | "capability_rank Premium = 2"

definition exec_candidate_rank ::
    "candidate_descriptor \<Rightarrow> string option \<Rightarrow> nat \<times> nat \<times> nat \<times> int \<times> nat" where
  "exec_candidate_rank c preferred =
    (let preferred_match = (case preferred of None \<Rightarrow> False
       | Some provider \<Rightarrow> (case ec_provider_id c of None \<Rightarrow> False
              | Some v \<Rightarrow> ascii_lower v = ascii_lower provider)
            \<or> ascii_lower (ec_slot_id c) = ascii_lower provider)
     in ((if ec_is_user_selected c then 0 else 1),
         (if preferred_match then 0 else if ec_is_primary c then 1 else 2),
         min (cost_rank (ec_cost_tier c) + capability_rank (ec_capability_tier c)) 255,
         ec_escalation_rank c,
         ec_original_index c))"

section \<open>Classification of errors\<close>

text \<open>\<open>str::split\<close> with a non-empty pattern; \<open>nth_part\<close> is its \<open>nth\<close>.\<close>

fun str_split :: "string \<Rightarrow> string \<Rightarrow> string \<Rightarrow> string list" where
  "str_split pat acc [] = [rev acc]"
| "str_split pat acc (c # s) = (if prefix_of pat (c # s)
     then rev acc # str_split pat [] (drop (length pat - 1) s)
     else str_split pat (c # acc) s)"

definition nth_part :: "'a list \<Rightarrow> nat \<Rightarrow> 'a option" where
  "nth_part xs n = (if n < length xs then Some (xs ! n) else None)"

definition has_any :: "string list \<Rightarrow> string \<Rightarrow> bool" where
  "has_any pats s \<longleftrightarrow> list_ex (\<lambda>p. contains p s) pats"

definition kind_marker :: "string \<Rightarrow> failure_kind option" where
  "kind_marker lower = (case nth_part (str_split ''kind='' [] lower) 1 of
     None \<Rightarrow> None
   | Some tail \<Rightarrow> from_str_label (takeWhile (\<lambda>ch. is_lower ch \<or> ch = CHR ''_'') tail))"

definition classify_failure :: "string \<Rightarrow> failure_kind" where
  "classify_failure error_text =
    (let lower = ascii_lower (trim error_text) in
     if lower = [] then Unknown
     else case kind_marker lower of Some k \<Rightarrow> k | None \<Rightarrow>
       (if has_any [''timed out'', ''timeout''] lower then Timeout
        else if has_any [''rate limit'', ''rate-limit'', ''429''] lower then RateLimited
        else if has_any [''invalid api key'', ''authentication'', ''unauthorized'', ''forbidden'',
               ''permission denied''] lower then Authentication
        else if has_any [''model_not_found'', ''does not exist or you do not have access''] lower then Configuration
        else if has_any [''missing api key'', ''not configured'', ''base url is required'',
               ''unknown provider''] lower then Configuration
        else if has_any [''context length'', ''maximum context'', ''too many tokens''] lower then ContextWindowExceeded
        else if has_any [''invalid schema'', ''schema mismatch'', ''response was not valid json''] lower then SchemaMismatch
        else if has_any [''invalid_function_parameters'', ''tool schema'', ''tool call''] lower then ToolContractFailure
        else if has_any [''model produced no'', ''capability'', ''stronger model''] lower then CapabilityBound
        else if has_any [''connection reset'', ''broken pipe'', ''connection closed'',
               ''stream ended unexpectedly'', ''connect error''] lower then TransientTransport
        else if has_any [''api error'', ''provider returned error'', ''bad request'', ''upstream''] lower then UpstreamProvider
        else if has_any [''missing input'', ''required input''] lower then MissingInput
        else if has_any [''proof generation'', ''post-process''] lower then InternalPostProcess
        else if has_any [''panicked'', ''panic''] lower then Panic
        else Unknown))"

fun stream_class :: "stream_failure_kind \<Rightarrow> failure_kind" where
  "stream_class TotalTimeout = Timeout"
| "stream_class InterChunkStall = Timeout"
| "stream_class NoFirstDelta = TransientTransport"
| "stream_class NoUsefulProgress = TransientTransport"
| "stream_class ChunkErrors = TransientTransport"
| "stream_class EmptyEnd = TransientTransport"
| "stream_class NoUsableContent = TransientTransport"

definition classify_error :: "llm_error \<Rightarrow> failure_kind" where
  "classify_error e = (case le_stream e of Some k \<Rightarrow> stream_class k | None \<Rightarrow> classify_failure (le_text e))"

section \<open>Recovery\<close>

fun recovery_action_for_failure :: "attempt_policy \<Rightarrow> failure_kind option \<Rightarrow> bool \<Rightarrow> recovery_action" where
  "recovery_action_for_failure policy None escalated = NoAction"
| "recovery_action_for_failure policy (Some k) escalated =
    (if k \<in> {Authentication, Configuration} then AskForCredentials
     else if k = MissingInput then AskForMissingInput
     else if k \<in> {CapabilityBound, ContextWindowExceeded, SchemaMismatch, ToolContractFailure} then AskForStrongerModel
     else if k \<in> {RateLimited, Timeout, TransientTransport, UpstreamProvider} \<and> (escalated \<or> auto_step_up policy)
       then SwitchModel
     else if k \<in> {RateLimited, Timeout, TransientTransport, UpstreamProvider} then RetrySameModel
     else if k = InternalPostProcess then ReturnDegraded
     else SurfaceServiceOutage)"

fun cooldown_secs_for_failure :: "failure_kind option \<Rightarrow> int option" where
  "cooldown_secs_for_failure (Some RateLimited) = Some 60"
| "cooldown_secs_for_failure (Some Timeout) = Some 30"
| "cooldown_secs_for_failure (Some TransientTransport) = Some 30"
| "cooldown_secs_for_failure (Some UpstreamProvider) = Some 45"
| "cooldown_secs_for_failure (Some Authentication) = Some 300"
| "cooldown_secs_for_failure (Some Configuration) = Some 300"
| "cooldown_secs_for_failure _ = None"

section \<open>Outcomes\<close>

definition build_success_outcome ::
    "string \<Rightarrow> degradation_note list \<Rightarrow> attempt_record list \<Rightarrow> user_outcome" where
  "build_success_outcome response degradation attempts = (let degraded = (degradation \<noteq> []) in
     \<lparr>uo_status = (if degraded then ODegraded else OComplete),
      uo_request_state = (if degraded then CompletedDegraded else Completed),
      uo_message = response, uo_retryable = degraded,
      uo_reason_code = (if degraded then Some ''completed_with_degradation'' else None),
      uo_degradation = degradation, uo_attempted_models = map to_model_attempt attempts\<rparr>)"

definition build_permission_outcome ::
    "string \<Rightarrow> degradation_note list \<Rightarrow> attempt_record list \<Rightarrow> user_outcome" where
  "build_permission_outcome message degradation attempts =
     \<lparr>uo_status = ONeedsPermission, uo_request_state = NeedsPermission, uo_message = message,
      uo_retryable = False, uo_reason_code = Some ''permission_required'',
      uo_degradation = degradation, uo_attempted_models = map to_model_attempt attempts\<rparr>"

definition build_integration_outcome ::
    "string \<Rightarrow> degradation_note list \<Rightarrow> attempt_record list \<Rightarrow> user_outcome" where
  "build_integration_outcome message degradation attempts =
     \<lparr>uo_status = ONeedsIntegration, uo_request_state = NeedsIntegration, uo_message = message,
      uo_retryable = False, uo_reason_code = Some ''integration_required'',
      uo_degradation = degradation, uo_attempted_models = map to_model_attempt attempts\<rparr>"

definition build_credentials_outcome ::
    "string \<Rightarrow> degradation_note list \<Rightarrow> attempt_record list \<Rightarrow> user_outcome" where
  "build_credentials_outcome message degradation attempts =
     \<lparr>uo_status = ONeedsCredentials, uo_request_state = NeedsCredentials, uo_message = message,
      uo_retryable = False, uo_reason_code = Some ''credentials_required'',
      uo_degradation = degradation, uo_attempted_models = map to_model_attempt attempts\<rparr>"

definition build_service_outage_outcome ::
    "string \<Rightarrow> string \<Rightarrow> degradation_note list \<Rightarrow> attempt_record list \<Rightarrow> user_outcome" where
  "build_service_outage_outcome message reason_code degradation attempts =
     \<lparr>uo_status = OServiceUnavailable, uo_request_state = HardServiceOutage, uo_message = message,
      uo_retryable = True, uo_reason_code = Some reason_code,
      uo_degradation = degradation, uo_attempted_models = map to_model_attempt attempts\<rparr>"

definition credential_failure :: "attempt_record \<Rightarrow> bool" where
  "credential_failure a \<longleftrightarrow> ar_failure_kind a = Some Authentication \<or> ar_failure_kind a = Some Configuration"

definition capability_failure :: "attempt_record \<Rightarrow> bool" where
  "capability_failure a \<longleftrightarrow> (\<exists>k \<in> {CapabilityBound, ContextWindowExceeded, SchemaMismatch, ToolContractFailure}.
     ar_failure_kind a = Some k)"

definition failure_state :: "attempt_record list \<Rightarrow> request_state" where
  "failure_state attempts =
    (if attempts \<noteq> [] \<and> list_all credential_failure attempts then NeedsCredentials
     else if list_ex capability_failure attempts then NeedsStrongerModel
     else HardServiceOutage)"

definition failure_report :: "request_state \<Rightarrow> outcome_status \<times> bool \<times> string option \<times> string" where
  "failure_report state =
    (if state = NeedsCredentials then (ONeedsCredentials, False, Some ''credentials_required'',
       ''I couldn'' @ [CHR 0x27] @ ''t use the configured model chain because the current credentials or provider configuration were rejected. Update the model settings and try again.'')
     else if state = NeedsStrongerModel then (ONeedsStrongerModel, False, Some ''stronger_model_required'',
       ''I exhausted the eligible model chain for this request and hit a capability or context limit. Retry with a stronger model tier and I can continue.'')
     else (OServiceUnavailable, True, Some ''provider_chain_unavailable'',
       ''I kept the request inside the resilience layer, but every eligible model attempt failed due to provider instability or transport issues. Please retry in a moment.''))"

definition build_failure_outcome ::
    "execution_request \<Rightarrow> attempt_record list \<Rightarrow> degradation_note list \<Rightarrow> execution_outcome" where
  "build_failure_outcome request attempts degradation =
    (let state = failure_state attempts in
     case failure_report state of (status, retryable, reason_code, message) \<Rightarrow>
     \<lparr>eo_request_state = state,
      eo_user_outcome = \<lparr>uo_status = status, uo_request_state = state, uo_message = message,
         uo_retryable = retryable, uo_reason_code = reason_code, uo_degradation = degradation,
         uo_attempted_models = map to_model_attempt attempts\<rparr>,
      eo_attempts = attempts, eo_degradation = degradation\<rparr>)"

section \<open>Supervised calls\<close>

text \<open>
  The environment is a map from variable names to texts. A call with a time limit that has not
  finished within it is cancelled; the limit zero means none.
\<close>

definition parse_u32 :: "string \<Rightarrow> nat option" where
  "parse_u32 s = (case read_nat (if s \<noteq> [] \<and> hd s = CHR ''+'' then tl s else s) of
     None \<Rightarrow> None | Some n \<Rightarrow> (if n \<le> u32_max then Some n else None))"

definition bounded_helper_output_tokens :: "(string \<Rightarrow> string option) \<Rightarrow> string \<Rightarrow> nat \<Rightarrow> nat" where
  "bounded_helper_output_tokens env env_key default_tokens =
    (let n = (case env env_key of None \<Rightarrow> default_tokens
       | Some v \<Rightarrow> (case parse_u32 (trim v) of Some n \<Rightarrow> n | None \<Rightarrow> default_tokens))
     in max 128 (min n 8192))"

definition supervised_request_output_budget :: "(string \<Rightarrow> string option) \<Rightarrow> string \<Rightarrow> nat option" where
  "supervised_request_output_budget env request_kind =
    Some (if request_kind = ''model_routed_spine_v1''
      then bounded_helper_output_tokens env ''AGENTARK_MODEL_ROUTED_SPINE_MAX_OUTPUT_TOKENS'' 2400
      else if prefix_of ''user_fact_memory_capture'' request_kind
      then bounded_helper_output_tokens env ''AGENTARK_MEMORY_CAPTURE_MAX_OUTPUT_TOKENS'' 900
      else bounded_helper_output_tokens env ''AGENTARK_INTERNAL_HELPER_MAX_OUTPUT_TOKENS'' 1200)"

record 'r llm_call =
  call_ms :: nat
  call_result :: "llm_error + 'r"

definition supervised_error :: "failure_kind \<Rightarrow> string \<Rightarrow> string \<Rightarrow> string \<Rightarrow> string" where
  "supervised_error k request_kind model detail =
     ''supervised_chat_failed(kind='' @ failure_as_str k @ '', request_kind='' @ request_kind
       @ '', model='' @ model @ ''): '' @ detail"

definition time_limit :: "nat option \<Rightarrow> nat option" where
  "time_limit timeout_ms = (case timeout_ms of Some n \<Rightarrow> (if n > 0 then Some n else None) | None \<Rightarrow> None)"

definition supervise :: "execution_request \<Rightarrow> string \<Rightarrow> nat option \<Rightarrow> 'r llm_call \<Rightarrow> string + 'r" where
  "supervise request model timeout_ms call = (case time_limit timeout_ms of
     Some limit \<Rightarrow> (if call_ms call > limit
       then Inl (supervised_error Timeout (er_kind request) model
              (''request timed out after '' @ show_nat limit @ ''ms''))
       else (case call_result call of
          Inl e \<Rightarrow> Inl (supervised_error (classify_error e) (er_kind request) model (le_text e))
        | Inr r \<Rightarrow> Inr r))
   | None \<Rightarrow> (case call_result call of
          Inl e \<Rightarrow> Inl (supervised_error (classify_error e) (er_kind request) model (le_text e))
        | Inr r \<Rightarrow> Inr r))"

definition execute_supervised_chat ::
    "(string \<Rightarrow> string option) \<Rightarrow> execution_request \<Rightarrow> string \<Rightarrow> nat option
     \<Rightarrow> (nat option \<Rightarrow> 'r llm_call) \<Rightarrow> string + 'r" where
  "execute_supervised_chat env request model timeout_ms chat =
     supervise request model timeout_ms (chat (supervised_request_output_budget env (er_kind request)))"

definition execute_supervised_stream ::
    "execution_request \<Rightarrow> string \<Rightarrow> nat option \<Rightarrow> bool \<Rightarrow> 'r llm_call \<Rightarrow> 'r llm_call \<Rightarrow> string + 'r" where
  "execute_supervised_stream request model timeout_ms long_running long_stream helper_stream =
     supervise request model timeout_ms (if long_running then long_stream else helper_stream)"

section \<open>Labels\<close>

lemma label_chars: "list_all (\<lambda>c. (is_lower c \<or> c = CHR ''_'') \<and> \<not> is_ws c) (failure_as_str k)"
  by (cases k) (simp_all add: is_lower_def is_ws_def)

lemma label_trim [simp]: "trim (failure_as_str k) = failure_as_str k"
  using label_chars [of k] by (intro trim_no_ws) (simp add: list_all_iff)

lemma label_roundtrip [simp]: "from_str_label (failure_as_str k) = Some k"
  unfolding from_str_label_def label_trim by (cases k) (simp_all add: Let_def)

lemma label_label: "from_str_label v = Some k \<Longrightarrow> trim v = failure_as_str k"
  by (auto simp: from_str_label_def Let_def split: if_splits)

section \<open>The class of a supervised error\<close>

lemma trim_end_append: "p \<noteq> [] \<Longrightarrow> \<not> is_ws (last p) \<Longrightarrow> trim_end (p @ s) = p @ trim_end s"
proof (induction s rule: rev_induct)
  case Nil
  then show ?case by (cases p rule: rev_cases) (simp_all add: trim_end_snoc)
next
  case (snoc c s)
  then show ?case
    using trim_end_snoc [of "p @ s" c] trim_end_snoc [of s c] by simp
qed

lemma ascii_lower_append [simp]: "ascii_lower (a @ b) = ascii_lower a @ ascii_lower b"
  by (simp add: ascii_lower_def)

text \<open>The text before the caller's part: only lower-case letters and no white space at its ends.\<close>

definition marker_head :: "failure_kind \<Rightarrow> string" where
  "marker_head k = ''supervised_chat_failed(kind='' @ failure_as_str k @ '', request_kind=''"

lemma marker_head_lower: "ascii_lower (marker_head k) = marker_head k"
  by (cases k) (simp_all add: marker_head_def ascii_lower_def lower_char_def is_upper_def)

lemma marker_head_split: "nth_part (str_split ''kind='' [] (marker_head k @ s)) 1 = Some (failure_as_str k @ '', request_'')"
  by (cases k) (simp_all add: marker_head_def nth_part_def)

lemma marker_head_kind: "kind_marker (marker_head k @ s) = Some k"
proof -
  have "takeWhile (\<lambda>ch. is_lower ch \<or> ch = CHR ''_'') (failure_as_str k @ '', request_'') = failure_as_str k"
    using label_chars [of k] by (subst takeWhile_append2) (auto simp: list_all_iff is_lower_def)
  then show ?thesis unfolding kind_marker_def marker_head_split by simp
qed

lemma trim_marker: "trim (marker_head k @ s) = marker_head k @ trim_end s"
proof -
  have "trim_start (marker_head k @ s) = marker_head k @ s"
    by (simp add: trim_start_hd marker_head_def is_ws_def)
  moreover have "marker_head k \<noteq> []" "\<not> is_ws (last (marker_head k))"
    by (simp_all add: marker_head_def is_ws_def)
  ultimately show ?thesis by (simp add: trim_def trim_end_append)
qed

lemma supervised_error_class: "classify_failure (supervised_error k rk m t) = k"
proof -
  let ?s = "rk @ '', model='' @ m @ ''): '' @ t"
  have "supervised_error k rk m t = marker_head k @ ?s"
    by (simp add: supervised_error_def marker_head_def)
  moreover have "ascii_lower (trim (marker_head k @ ?s)) = marker_head k @ ascii_lower (trim_end ?s)"
    by (simp only: trim_marker ascii_lower_append marker_head_lower)
  moreover have "marker_head k \<noteq> []" by (simp add: marker_head_def)
  ultimately show ?thesis by (simp add: classify_failure_def marker_head_kind)
qed

text \<open>
  Failure classes survive the error text. The class a supervised call writes into its error
  text is the class that classifying the text gives back, whatever the request kind, the model
  name and the provider's message contain, and wrapping the text again changes nothing.
\<close>

theorem supervised_error_roundtrip:
  "classify_failure (supervised_error k request_kind model detail) = k"
by (rule supervised_error_class)

section \<open>What a supervised call returns\<close>

text \<open>
  C35. Supervised calls. A supervised call returns the client's answer exactly when the client
  answered within a positive time limit (or there is none); otherwise its error text is
  classified as a timeout when the limit was exceeded and as the client's error else. The
  client is asked for between 128 and 8192 output tokens, whatever the environment says.
\<close>

theorem supervised_call_result:
  "let limited = time_limit timeout_ms;
       budget = supervised_request_output_budget env (er_kind request);
       call = chat budget;
       late = (\<exists>limit. limited = Some limit \<and> call_ms call > limit);
       res = execute_supervised_chat env request model timeout_ms chat
   in (\<forall>r. res = Inr r \<longleftrightarrow> \<not> late \<and> call_result call = Inr r)
    \<and> (\<forall>msg. res = Inl msg \<longrightarrow> (late \<and> classify_failure msg = Timeout)
         \<or> (\<not> late \<and> (\<exists>e. call_result call = Inl e \<and> classify_failure msg = classify_error e)))
    \<and> (\<exists>n. budget = Some n \<and> 128 \<le> n \<and> n \<le> 8192)"
proof -
  have "\<exists>n. supervised_request_output_budget env (er_kind request) = Some n \<and> 128 \<le> n \<and> n \<le> 8192"
    by (auto simp: supervised_request_output_budget_def bounded_helper_output_tokens_def Let_def)
  then show ?thesis
    by (auto simp: Let_def execute_supervised_chat_def supervise_def supervised_error_class
        split: option.splits sum.splits if_splits)
qed

definition sample_call :: "nat \<Rightarrow> nat option \<Rightarrow> unit llm_call" where
  "sample_call ms budget = \<lparr>call_ms = ms, call_result = Inl \<lparr>le_stream = None, le_text = ''HTTP 429''\<rparr>\<rparr>"

definition sample_exec_request :: execution_request where
  "sample_exec_request = \<lparr>er_kind = ''chat'', er_channel = None, er_conversation_id = None,
     er_session_id = None, er_preferred_model_role = None, er_message_preview = None\<rparr>"

theorem supervised_call_result_witness:
  "\<exists>msg msg'. execute_supervised_chat (\<lambda>_. None) sample_exec_request ''m'' (Some 100) (sample_call 50) = Inl msg
    \<and> classify_failure msg = RateLimited
    \<and> execute_supervised_chat (\<lambda>_. None) sample_exec_request ''m'' (Some 100) (sample_call 101) = Inl msg'
    \<and> classify_failure msg' = Timeout"
proof -
  have c: "classify_error \<lparr>le_stream = None, le_text = ''HTTP 429''\<rparr> = RateLimited"
    by (simp add: classify_error_def classify_failure_def trim_def trim_start_def trim_end_def is_ws_def
        ascii_lower_def lower_char_def is_upper_def kind_marker_def nth_part_def has_any_def Let_def)
  have "\<exists>msg. execute_supervised_chat (\<lambda>_. None) sample_exec_request ''m'' (Some 100) (sample_call 50) = Inl msg"
    "\<exists>msg. execute_supervised_chat (\<lambda>_. None) sample_exec_request ''m'' (Some 100) (sample_call 101) = Inl msg"
    by (simp_all add: execute_supervised_chat_def supervise_def time_limit_def sample_call_def)
  then show ?thesis
    using supervised_call_result [where timeout_ms = "Some 100" and chat = "sample_call 50" and env = "\<lambda>_. None"
        and request = sample_exec_request and model = "''m''"]
      supervised_call_result [where timeout_ms = "Some 100" and chat = "sample_call 101" and env = "\<lambda>_. None"
        and request = sample_exec_request and model = "''m''"] c
    by (auto simp: Let_def time_limit_def sample_call_def)
qed

section \<open>Recovery and outcomes\<close>

text \<open>
  Recovery and cooldown agree. A failure from which the supervisor recovers with another
  attempt cools its provider down for 30 to 60 seconds, a credential failure for 300 seconds,
  and no other failure starts a cooldown; a switch of the model is chosen exactly for transient
  failures when escalation is allowed.
\<close>

theorem recovery_matches_cooldown:
  "(recovery_action_for_failure policy (Some k) escalated = AskForCredentials
      \<longleftrightarrow> cooldown_secs_for_failure (Some k) = Some 300)
  \<and> (recovery_action_for_failure policy (Some k) escalated \<in> {SwitchModel, RetrySameModel}
      \<longleftrightarrow> (\<exists>n. cooldown_secs_for_failure (Some k) = Some n \<and> 30 \<le> n \<and> n \<le> 60))
  \<and> (recovery_action_for_failure policy (Some k) escalated = SwitchModel
      \<longleftrightarrow> k \<in> {RateLimited, Timeout, TransientTransport, UpstreamProvider} \<and> (escalated \<or> auto_step_up policy))"
  by (cases k) auto

lemma failure_report_fields:
  "failure_report st = (status, retryable, reason, msg) \<Longrightarrow> msg \<noteq> []
    \<and> (retryable \<longleftrightarrow> st \<noteq> NeedsCredentials \<and> st \<noteq> NeedsStrongerModel)
    \<and> (status = ONeedsCredentials \<longleftrightarrow> st = NeedsCredentials)
    \<and> (status = ONeedsStrongerModel \<longleftrightarrow> st = NeedsStrongerModel) \<and> reason \<noteq> None"
  by (auto simp: failure_report_def split: if_splits)

text \<open>
  Failure outcomes. When every model attempt failed, the user is asked for credentials
  exactly when there was an attempt and all of them failed on credentials or configuration, for
  a stronger model exactly when not so but some attempt hit a capability limit, and is told to
  retry otherwise; the outcome lists every attempt in order.
\<close>

theorem failure_outcome_sound:
  "let out = build_failure_outcome request attempts degradation; u = eo_user_outcome out in
    (uo_status u = ONeedsCredentials \<longleftrightarrow> attempts \<noteq> [] \<and> (\<forall>a \<in> set attempts. credential_failure a))
    \<and> (uo_status u = ONeedsStrongerModel \<longleftrightarrow> (\<exists>a \<in> set attempts. capability_failure a)
         \<and> (\<exists>a \<in> set attempts. \<not> credential_failure a))
    \<and> (uo_retryable u \<longleftrightarrow> eo_request_state out = HardServiceOutage)
    \<and> uo_request_state u = eo_request_state out \<and> uo_message u \<noteq> [] \<and> uo_reason_code u \<noteq> None
    \<and> eo_attempts out = attempts
    \<and> map ma_failure_kind (uo_attempted_models u) = map ar_failure_kind attempts
    \<and> map ma_slot_id (uo_attempted_models u) = map ar_slot_id attempts"
proof -
  obtain status retryable reason msg where r: "failure_report (failure_state attempts) = (status, retryable, reason, msg)"
    by (cases "failure_report (failure_state attempts)") auto
  have x: "capability_failure a \<Longrightarrow> \<not> credential_failure a" for a
    by (auto simp: capability_failure_def credential_failure_def)
  have st: "failure_state attempts = NeedsCredentials \<longleftrightarrow> attempts \<noteq> [] \<and> (\<forall>a \<in> set attempts. credential_failure a)"
    "failure_state attempts = NeedsStrongerModel \<longleftrightarrow> (\<exists>a \<in> set attempts. capability_failure a)
       \<and> (\<exists>a \<in> set attempts. \<not> credential_failure a)"
    "failure_state attempts \<in> {NeedsCredentials, NeedsStrongerModel, HardServiceOutage}"
    using x by (auto simp: failure_state_def list_all_iff list_ex_iff)
  note f = failure_report_fields [OF r]
  have retry: "retryable \<longleftrightarrow> failure_state attempts = HardServiceOutage" using f st(3) by auto
  have status: "status = ONeedsCredentials \<longleftrightarrow> failure_state attempts = NeedsCredentials"
    "status = ONeedsStrongerModel \<longleftrightarrow> failure_state attempts = NeedsStrongerModel"
    "msg \<noteq> []" "reason \<noteq> None" using f by auto
  show ?thesis
    unfolding build_failure_outcome_def Let_def r prod.case st(1) [symmetric] st(2) [symmetric]
    using retry status by (simp add: comp_def to_model_attempt_def)
qed

definition sample_attempt :: "string \<Rightarrow> failure_kind \<Rightarrow> attempt_record" where
  "sample_attempt slot k = \<lparr>ar_slot_id = slot, ar_slot_label = slot, ar_model_name = slot, ar_provider_id = None,
     ar_success = False, ar_attempted_at = ''0'', ar_failure_kind = Some k, ar_recovery_action = NoAction,
     ar_auto_escalated = False, ar_elapsed_ms = None, ar_error = None\<rparr>"

theorem failure_outcome_sound_witness:
  "uo_status (eo_user_outcome (build_failure_outcome sample_exec_request
      [sample_attempt ''a'' Authentication, sample_attempt ''b'' CapabilityBound] [])) = ONeedsStrongerModel"
  using failure_outcome_sound [of sample_exec_request "[sample_attempt ''a'' Authentication, sample_attempt ''b'' CapabilityBound]" "[]"]
  by (simp add: Let_def credential_failure_def capability_failure_def sample_attempt_def)

text \<open>
  Ranking. When candidates are tried in rank order, every candidate the user selected comes
  before every other one, and among candidates of the same standing a cheaper and less capable
  tier is tried first; candidates with different positions never tie.
\<close>

theorem rank_order_sound:
  "sorted_wrt (\<lambda>a b. (ec_is_user_selected b \<longrightarrow> ec_is_user_selected a)
      \<and> (ec_is_user_selected a = ec_is_user_selected b \<and> ec_is_primary a = ec_is_primary b \<and> preferred = None
         \<longrightarrow> cost_rank (ec_cost_tier a) + capability_rank (ec_capability_tier a)
             \<le> cost_rank (ec_cost_tier b) + capability_rank (ec_capability_tier b)))
     (sort_key (\<lambda>c. exec_candidate_rank c preferred) cs)
   \<and> (exec_candidate_rank a preferred = exec_candidate_rank b preferred \<longrightarrow> ec_original_index a = ec_original_index b)"
proof -
  have tier: "cost_rank (ec_cost_tier c) + capability_rank (ec_capability_tier c) \<le> 255" for c
    by (cases "ec_cost_tier c"; cases "ec_capability_tier c") simp_all
  have step: "(ec_is_user_selected y \<longrightarrow> ec_is_user_selected x)
      \<and> (ec_is_user_selected x = ec_is_user_selected y \<and> ec_is_primary x = ec_is_primary y \<and> preferred = None
         \<longrightarrow> cost_rank (ec_cost_tier x) + capability_rank (ec_capability_tier x)
             \<le> cost_rank (ec_cost_tier y) + capability_rank (ec_capability_tier y))"
    if "exec_candidate_rank x preferred \<le> exec_candidate_rank y preferred" for x y
    using that tier [of x] tier [of y] by (auto simp: exec_candidate_rank_def Let_def split: if_splits)
  have "sorted_wrt (\<lambda>x y. exec_candidate_rank x preferred \<le> exec_candidate_rank y preferred)
      (sort_key (\<lambda>c. exec_candidate_rank c preferred) cs)"
    using sorted_sort_key [of "\<lambda>c. exec_candidate_rank c preferred" cs] by (simp add: sorted_map)
  then have "sorted_wrt (\<lambda>a b. (ec_is_user_selected b \<longrightarrow> ec_is_user_selected a)
      \<and> (ec_is_user_selected a = ec_is_user_selected b \<and> ec_is_primary a = ec_is_primary b \<and> preferred = None
         \<longrightarrow> cost_rank (ec_cost_tier a) + capability_rank (ec_capability_tier a)
             \<le> cost_rank (ec_cost_tier b) + capability_rank (ec_capability_tier b)))
     (sort_key (\<lambda>c. exec_candidate_rank c preferred) cs)"
    by (rule sorted_wrt_mono_rel [rotated]) (rule step)
  moreover have "exec_candidate_rank a preferred = exec_candidate_rank b preferred \<Longrightarrow> ec_original_index a = ec_original_index b"
    by (simp add: exec_candidate_rank_def Let_def)
  ultimately show ?thesis by blast
qed

definition sample_slot :: "string \<Rightarrow> bool \<Rightarrow> nat \<Rightarrow> candidate_descriptor" where
  "sample_slot slot chosen i = \<lparr>ec_slot_id = slot, ec_provider_id = None, ec_capability_tier = Premium,
     ec_cost_tier = CostHigh, ec_auto_escalate = False, ec_escalation_rank = 0, ec_is_user_selected = chosen,
     ec_is_primary = False, ec_original_index = i\<rparr>"

theorem rank_order_sound_witness:
  "sort_key (\<lambda>c. exec_candidate_rank c None) [sample_slot ''a'' False 0, sample_slot ''b'' True 1]
     = [sample_slot ''b'' True 1, sample_slot ''a'' False 0]
   \<and> exec_candidate_rank (sample_slot ''a'' False 0) None \<noteq> exec_candidate_rank (sample_slot ''b'' True 1) None"
proof -
  have s: "sort_key (\<lambda>c. exec_candidate_rank c None) [sample_slot ''a'' False 0, sample_slot ''b'' True 1]
     = [sample_slot ''b'' True 1, sample_slot ''a'' False 0]"
    by (simp add: sample_slot_def exec_candidate_rank_def insort_key.simps)
  have "ec_original_index (sample_slot ''a'' False 0) \<noteq> ec_original_index (sample_slot ''b'' True 1)"
    by (simp add: sample_slot_def)
  then have "exec_candidate_rank (sample_slot ''a'' False 0) None \<noteq> exec_candidate_rank (sample_slot ''b'' True 1) None"
    using rank_order_sound [of None "[]" "sample_slot ''a'' False 0" "sample_slot ''b'' True 1"] by blast
  with s show ?thesis by simp
qed

end
