(* ===== verification/Outbound_Split.thy ===== *)
theory Outbound_Split
  imports Clock_Text
begin

text \<open>
  Splitting of outbound messages, \<open>channels/outbound/outbound_split.rs\<close>: the limits of the
  channels, the choice of a split position, the split loop, and the loop that fits the
  \<open>[i/n]\<close> labels of push notifications.

  Positions count characters. The code's positions are byte offsets of the same characters:
  it only compares them and splits at them, and both orders agree. The split loop is total. The
  label loop need not end, so it is a \<open>partial_function\<close> whose value \<open>None\<close> is a run
  that does not return; it does return for every text that does not begin with white space
  (\<open>labelled_split\<close>), and there is a text for which it does not
  (\<open>labelled_split_diverges\<close>).
\<close>

section \<open>Profiles and limits\<close>

definition PUSH_NOTIFICATION_MAX_CHARS :: nat where "PUSH_NOTIFICATION_MAX_CHARS = 1000"
definition DEFAULT_PROVIDER_SAFE_MAX_CHARS :: nat where "DEFAULT_PROVIDER_SAFE_MAX_CHARS = 3500"

record split_profile =
  sp_max_chars :: nat
  sp_label_chunks :: bool

definition push_notification :: split_profile where
  "push_notification = \<lparr>sp_max_chars = PUSH_NOTIFICATION_MAX_CHARS, sp_label_chunks = True\<rparr>"

definition provider_safe :: "nat \<Rightarrow> split_profile" where
  "provider_safe n = \<lparr>sp_max_chars = n, sp_label_chunks = False\<rparr>"

definition provider_safe_limit_for_channel :: "string \<Rightarrow> nat" where
  "provider_safe_limit_for_channel channel = (let c = ascii_lower (trim channel) in
     if c = ''telegram'' then 4000
     else if c = ''whatsapp'' then 4000
     else if c = ''discord'' then 1900
     else if c = ''slack'' then 39000
     else if c = ''line'' then 4000
     else DEFAULT_PROVIDER_SAFE_MAX_CHARS)"

section \<open>The split position\<close>

definition index_after_chars :: "string \<Rightarrow> nat \<Rightarrow> nat option" where
  "index_after_chars s n = (if n = 0 then Some 0
     else if n < length s then Some n
     else if length s \<le> n then Some (length s) else None)"

text \<open>\<open>str::rfind\<close>: where the last occurrence of a pattern starts.\<close>

fun rfind :: "string \<Rightarrow> string \<Rightarrow> nat option" where
  "rfind pat [] = (if pat = [] then Some 0 else None)"
| "rfind pat (c # s) = (case rfind pat s of
     Some i \<Rightarrow> Some (Suc i)
   | None \<Rightarrow> if prefix_of pat (c # s) then Some 0 else None)"

fun first_boundary :: "string \<Rightarrow> nat \<Rightarrow> string list \<Rightarrow> nat option" where
  "first_boundary window mn [] = None"
| "first_boundary window mn (b # bs) = (case rfind b window of
     None \<Rightarrow> first_boundary window mn bs
   | Some i \<Rightarrow> if i \<ge> mn then Some i else first_boundary window mn bs)"

definition last_whitespace :: "string \<Rightarrow> nat \<Rightarrow> nat option" where
  "last_whitespace window mn = foldl (\<lambda>found (i, ch). if is_ws ch \<and> i \<ge> mn then Some i else found)
     None (enumerate 0 window)"

definition newline :: char where "newline = CHR 0x0A"

definition best_split :: "string \<Rightarrow> nat \<Rightarrow> nat" where
  "best_split s n =
    (let hard = (case index_after_chars s n of Some i \<Rightarrow> i | None \<Rightarrow> length s);
         window = take hard s;
         min_chars = max (n * 3 div 5) 1;
         mn = min (case index_after_chars s min_chars of Some i \<Rightarrow> i | None \<Rightarrow> 0) hard
     in case first_boundary window mn [[newline, newline], [newline]] of
          Some i \<Rightarrow> i
        | None \<Rightarrow> (case last_whitespace window mn of Some i \<Rightarrow> i | None \<Rightarrow> hard))"

section \<open>What the split position is\<close>

text \<open>
  The three kinds of position in the order of preference: before an empty line, before a line
  break, before white space. A position is good when it lies in the last two fifths of the
  window and the boundary lies inside the window.
\<close>

definition width :: "nat \<Rightarrow> nat" where
  "width k = (if k = 0 then 2 else 1)"

definition boundary :: "nat \<Rightarrow> string \<Rightarrow> nat \<Rightarrow> bool" where
  "boundary k s i = (if k = 0 then s ! i = newline \<and> s ! Suc i = newline
     else if k = 1 then s ! i = newline else is_ws (s ! i))"

definition min_pos :: "nat \<Rightarrow> nat" where
  "min_pos n = max (n * 3 div 5) 1"

definition good :: "nat \<Rightarrow> string \<Rightarrow> nat \<Rightarrow> nat \<Rightarrow> bool" where
  "good k s n i \<longleftrightarrow> min_pos n \<le> i \<and> i + width k \<le> n \<and> boundary k s i"

lemma min_pos_bounds: "0 < n \<Longrightarrow> 1 \<le> min_pos n \<and> min_pos n \<le> n"
  by (auto simp: min_pos_def)

lemma min_pos_mono: "m \<le> n \<Longrightarrow> min_pos m \<le> min_pos n"
  unfolding min_pos_def by (intro max.mono div_le_mono mult_le_mono1) simp_all

lemma rfind_None: "pat \<noteq> [] \<Longrightarrow> rfind pat s = None \<longleftrightarrow> (\<forall>i. \<not> prefix_of pat (drop i s))"
proof (induction s)
  case (Cons c s)
  have "(\<forall>i. \<not> prefix_of pat (drop i (c # s))) \<longleftrightarrow>
      \<not> prefix_of pat (c # s) \<and> (\<forall>i. \<not> prefix_of pat (drop i s))"
    by (metis drop0 drop_Suc_Cons not0_implies_Suc)
  with Cons show ?case by (auto split: option.splits)
qed (cases pat; simp)

lemma rfind_Some: "pat \<noteq> [] \<Longrightarrow> rfind pat s = Some i \<longleftrightarrow>
    prefix_of pat (drop i s) \<and> (\<forall>j > i. \<not> prefix_of pat (drop j s))"
proof (induction s arbitrary: i)
  case (Cons c s)
  show ?case
  proof (cases i)
    case 0
    have "(\<forall>j > 0. \<not> prefix_of pat (drop j (c # s))) \<longleftrightarrow> rfind pat s = None"
      unfolding rfind_None [OF Cons.prems] by (metis Suc_pred drop_Suc_Cons zero_less_Suc)
    with 0 Cons.prems show ?thesis by (auto split: option.splits)
  next
    case (Suc n)
    have "(\<forall>j > Suc n. \<not> prefix_of pat (drop j (c # s))) \<longleftrightarrow> (\<forall>j > n. \<not> prefix_of pat (drop j s))"
      by (metis Suc_less_eq Suc_lessE drop_Suc_Cons)
    with Suc Cons.IH [OF Cons.prems, of n] show ?thesis by (auto split: option.splits)
  qed
qed (cases pat; simp)

lemma prefix_newline: "n \<le> length s \<Longrightarrow> prefix_of [newline] (drop i (take n s)) \<longleftrightarrow> i + 1 \<le> n \<and> boundary 1 s i"
proof (cases "i < n")
  case True
  assume "n \<le> length s"
  with True have "drop i (take n s) = s ! i # drop (Suc i) (take n s)"
    by (simp add: Cons_nth_drop_Suc [symmetric])
  with True show ?thesis by (auto simp: boundary_def)
next
  case False
  then show ?thesis by simp
qed

lemma prefix_empty_line:
  "n \<le> length s \<Longrightarrow> prefix_of [newline, newline] (drop i (take n s)) \<longleftrightarrow> i + 2 \<le> n \<and> boundary 0 s i"
proof (cases "i + 2 \<le> n")
  case True
  assume "n \<le> length s"
  with True have "drop i (take n s) = s ! i # s ! Suc i # drop (Suc (Suc i)) (take n s)"
    by (simp add: Cons_nth_drop_Suc [symmetric])
  with True show ?thesis by (auto simp: boundary_def)
next
  case False
  then have "length (drop i (take n s)) < 2" by simp
  moreover have "2 \<le> length t" if "prefix_of [newline, newline] t" for t
    using that by (cases t; cases "tl t") auto
  ultimately have "\<not> prefix_of [newline, newline] (drop i (take n s))" by fastforce
  with False show ?thesis by simp
qed

lemma last_whitespace_spec:
  "last_whitespace w mn = None \<longleftrightarrow> (\<forall>i. \<not> (mn \<le> i \<and> i < length w \<and> is_ws (w ! i)))" (is ?none)
  "last_whitespace w mn = Some p \<Longrightarrow> mn \<le> p \<and> p < length w \<and> is_ws (w ! p)
     \<and> (\<forall>i > p. \<not> (mn \<le> i \<and> i < length w \<and> is_ws (w ! i)))" (is "?eq \<Longrightarrow> ?some")
proof -
  have "(last_whitespace w mn = None \<longrightarrow> (\<forall>i. \<not> (mn \<le> i \<and> i < length w \<and> is_ws (w ! i))))
    \<and> (\<forall>p. last_whitespace w mn = Some p \<longrightarrow> mn \<le> p \<and> p < length w \<and> is_ws (w ! p)
     \<and> (\<forall>i > p. \<not> (mn \<le> i \<and> i < length w \<and> is_ws (w ! i))))"
  proof (induction w rule: rev_induct)
    case (snoc c w)
    have "last_whitespace (w @ [c]) mn
        = (if is_ws c \<and> length w \<ge> mn then Some (length w) else last_whitespace w mn)"
      by (simp add: last_whitespace_def enumerate_append_eq)
    with snoc show ?case by (auto simp: nth_append less_Suc_eq)
  qed (simp add: last_whitespace_def)
  then show ?none "?eq \<Longrightarrow> ?some" by (cases "last_whitespace w mn"; auto)+
qed

text \<open>The split position is the last good one of the best kind, and the limit when there is none.\<close>

lemma best_split_spec:
  assumes "0 < n" and "n < length s"
  shows "(\<exists>k < 3. good k s n (best_split s n) \<and> (\<forall>i > best_split s n. \<not> good k s n i) \<and> (\<forall>j < k. \<forall>i. \<not> good j s n i))
     \<or> (best_split s n = n \<and> (\<forall>k < 3. \<forall>i. \<not> good k s n i))"
proof -
  let ?w = "take n s" and ?mn = "min_pos n"
  have less_3: "P 0 \<and> P 1 \<and> P 2 \<longleftrightarrow> (\<forall>k < 3. P k)" for P :: "nat \<Rightarrow> bool"
    by (metis One_nat_def Suc_1 less_2_cases less_Suc_eq numeral_3_eq_3 zero_less_Suc)
  have mn: "1 \<le> ?mn" "?mn \<le> n" using min_pos_bounds [OF assms(1)] by auto
  have bs: "best_split s n = (case first_boundary ?w ?mn [[newline, newline], [newline]] of
      Some i \<Rightarrow> i | None \<Rightarrow> (case last_whitespace ?w ?mn of Some i \<Rightarrow> i | None \<Rightarrow> n))"
  proof -
    have "index_after_chars s n = Some n" "index_after_chars s ?mn = Some ?mn"
      using assms mn by (simp_all add: index_after_chars_def)
    with mn(2) show ?thesis by (simp only: best_split_def Let_def min_pos_def [symmetric] option.case min_absorb1)
  qed
  have g0: "good 0 s n i \<longleftrightarrow> ?mn \<le> i \<and> prefix_of [newline, newline] (drop i ?w)"
    and g1: "good 1 s n i \<longleftrightarrow> ?mn \<le> i \<and> prefix_of [newline] (drop i ?w)"
    and g2: "good 2 s n i \<longleftrightarrow> ?mn \<le> i \<and> i < length ?w \<and> is_ws (?w ! i)" for i
    using assms by (auto simp: good_def width_def prefix_newline prefix_empty_line boundary_def)
  have fb: "(first_boundary w m (b # bs) = first_boundary w m bs \<and> (\<forall>i. \<not> (m \<le> i \<and> prefix_of b (drop i w))))
      \<or> (\<exists>p. first_boundary w m (b # bs) = Some p \<and> m \<le> p \<and> prefix_of b (drop p w)
            \<and> (\<forall>i > p. \<not> (m \<le> i \<and> prefix_of b (drop i w))))"
    if "b \<noteq> []" for w b bs and m :: nat
  proof (cases "rfind b w")
    case None
    with rfind_None [OF that, of w] have "\<forall>i. \<not> prefix_of b (drop i w)" by blast
    with None show ?thesis by simp
  next
    case (Some p)
    with rfind_Some [OF that, of w p] have "prefix_of b (drop p w)" "\<forall>j > p. \<not> prefix_of b (drop j w)" by auto
    moreover have "i > p" if "m \<le> i" "\<not> m \<le> p" for i using that by simp
    ultimately show ?thesis using Some by (cases "m \<le> p") (simp, fastforce)+
  qed
  from fb [of "[newline, newline]" ?w ?mn "[[newline]]"] fb [of "[newline]" ?w ?mn "[]"]
  consider (empty_line) p where "best_split s n = p" "good 0 s n p" "\<forall>i > p. \<not> good 0 s n i"
    | (line) p where "best_split s n = p" "good 1 s n p" "\<forall>i > p. \<not> good 1 s n i" "\<forall>i. \<not> good 0 s n i"
    | (none) "first_boundary ?w ?mn [[newline, newline], [newline]] = None"
        "\<forall>i. \<not> good 0 s n i" "\<forall>i. \<not> good 1 s n i"
    unfolding g0 g1 bs by fastforce
  then show ?thesis
  proof cases
    case empty_line
    then show ?thesis by (intro disjI1 exI [of _ 0]) auto
  next
    case line
    then show ?thesis by (intro disjI1 exI [of _ 1]) auto
  next
    case none
    show ?thesis
    proof (cases "last_whitespace ?w ?mn")
      case None
      then have "\<forall>i. \<not> good 2 s n i" unfolding g2 last_whitespace_spec(1) .
      with none have "\<forall>k < 3. \<forall>i. \<not> good k s n i" using less_3 [of "\<lambda>k. \<forall>i. \<not> good k s n i"] by blast
      moreover have "best_split s n = n" using None none(1) bs by simp
      ultimately show ?thesis by simp
    next
      case (Some p)
      with last_whitespace_spec(2) [OF Some] have "good 2 s n p" "\<forall>i > p. \<not> good 2 s n i" unfolding g2 by auto
      moreover have "best_split s n = p" using Some none(1) bs by simp
      moreover have "\<forall>j < 2. \<forall>i. \<not> good j s n i" using none(2,3) by (metis One_nat_def less_2_cases)
      ultimately show ?thesis by (intro disjI1 exI [of _ 2]) auto
    qed
  qed
qed

lemma best_split_bounds: "0 < n \<Longrightarrow> n < length s \<Longrightarrow> 1 \<le> best_split s n \<and> best_split s n \<le> n"
  using best_split_spec [of n s] min_pos_bounds [of n] by (auto simp: good_def)

section \<open>The split loop\<close>

text \<open>The characters of a text that are not white space, in their order.\<close>

definition visible :: "string \<Rightarrow> string" where
  "visible s = filter (\<lambda>c. \<not> is_ws c) s"

function split_loop :: "nat \<Rightarrow> string \<Rightarrow> string list" where
  "split_loop max_chars rest =
    (let n = max max_chars 1 in
     if rest = [] then []
     else if length rest \<le> n then [rest]
     else (let split_at = best_split rest n; head = trim_end (take split_at rest) in
       if head = []
       then (let hard_at = (case index_after_chars rest n of Some i \<Rightarrow> i | None \<Rightarrow> length rest)
             in take hard_at rest # split_loop max_chars (trim_start (drop hard_at rest)))
       else head # split_loop max_chars (trim_start (drop split_at rest))))"
  by pat_completeness auto

lemma trim_start_drop_less: "s \<noteq> [] \<Longrightarrow> 1 \<le> i \<Longrightarrow> length (trim_start (drop i s)) < length s"
  by (rule le_less_trans [OF length_trim_start]) (cases s; simp)

lemma hard_at_eq: "n < length s \<Longrightarrow> (case index_after_chars s n of Some i \<Rightarrow> i | None \<Rightarrow> length s) = n"
  by (simp add: index_after_chars_def)

termination split_loop
proof (relation "measure (\<lambda>(n, rest). length rest)", goal_cases)
  case (2 n rest m at head hard)
  from 2(3) have "m < length rest" by simp
  with 2(7) have "hard = m" by (simp only: hard_at_eq)
  with 2 show ?case by (simp add: trim_start_drop_less)
next
  case (3 n rest m at head)
  then have "1 \<le> at" using best_split_bounds [of m rest] by simp
  with 3 show ?case by (simp add: trim_start_drop_less)
qed simp

declare split_loop.simps [simp del]

definition split_text_to_char_limit :: "string \<Rightarrow> nat \<Rightarrow> string list" where
  "split_text_to_char_limit s n = (let max_chars = max n 1 in
     if length s \<le> max_chars then [s] else split_loop max_chars s)"

lemma split_loop_Nil [simp]: "split_loop n [] = []"
  by (simp add: split_loop.simps)

lemma split_loop_short: "s \<noteq> [] \<Longrightarrow> length s \<le> n \<Longrightarrow> split_loop n s = [s]"
  by (subst split_loop.simps) (simp add: Let_def le_max_iff_disj)

lemma split_loop_nonempty: "s \<noteq> [] \<Longrightarrow> split_loop n s \<noteq> []"
  by (subst split_loop.simps) (simp add: Let_def)

text \<open>
  One round of the loop: the chunk ends at the split position or, when only white space comes
  before it, at the limit.
\<close>

lemma split_loop_head:
  "0 < n \<Longrightarrow> n < length s \<Longrightarrow> trim_end (take (best_split s n) s) \<noteq> [] \<Longrightarrow> split_loop n s
    = trim_end (take (best_split s n) s) # split_loop n (trim_start (drop (best_split s n) s))"
  by (subst split_loop.simps) (auto simp: Let_def)

lemma split_loop_hard:
  "0 < n \<Longrightarrow> n < length s \<Longrightarrow> trim_end (take (best_split s n) s) = [] \<Longrightarrow> split_loop n s
    = take n s # split_loop n (trim_start (drop n s))"
  by (subst split_loop.simps) (auto simp: Let_def hard_at_eq)

lemma split_loop_step:
  assumes "0 < n" and "n < length s"
  obtains i c where "1 \<le> i" and "i \<le> n" and "split_loop n s = c # split_loop n (trim_start (drop i s))"
    and "c = take i s \<or> c = trim_end (take i s) \<and> c \<noteq> []"
proof (cases "trim_end (take (best_split s n) s) = []")
  case True
  with assms split_loop_hard [OF assms] show thesis by (intro that [of n "take n s"]) auto
next
  case False
  with best_split_bounds [OF assms] split_loop_head [OF assms] show thesis
    by (intro that [of "best_split s n"]) auto
qed

lemma visible_append [simp]: "visible (s @ t) = visible s @ visible t"
  by (simp add: visible_def)

lemma visible_ws: "\<forall>c \<in> set s. is_ws c \<Longrightarrow> visible s = []"
  by (simp add: visible_def)

lemma visible_trim_end [simp]: "visible (trim_end s) = visible s"
  using trim_end_prefix [of s] by (metis append_Nil2 visible_append visible_ws)

lemma visible_trim_start [simp]: "visible (trim_start s) = visible s"
  using trim_start_suffix [of s] by (metis append_Nil visible_append visible_ws)

text \<open>Chunks keep within the limit, are not empty, and keep the visible text.\<close>

lemma split_loop_props:
  "0 < n \<Longrightarrow> (\<forall>c \<in> set (split_loop n s). c \<noteq> [] \<and> length c \<le> n)
     \<and> concat (map visible (split_loop n s)) = visible s \<and> length (split_loop n s) \<le> length s"
proof (induction "length s" arbitrary: s rule: less_induct)
  case less
  show ?case
  proof (cases "length s \<le> n")
    case True
    then show ?thesis by (cases "s = []") (auto simp: split_loop_short visible_def Suc_le_eq)
  next
    case False
    then have long: "n < length s" by simp
    from split_loop_step [OF less.prems long] obtain i c where i: "1 \<le> i" "i \<le> n"
      and step: "split_loop n s = c # split_loop n (trim_start (drop i s))"
      and c: "c = take i s \<or> c = trim_end (take i s) \<and> c \<noteq> []" by metis
    from long have "s \<noteq> []" by auto
    with i have shrink: "length (trim_start (drop i s)) < length s" by (simp add: trim_start_drop_less)
    have "length (trim_end (take i s)) \<le> n" using length_trim_end [of "take i s"] i by simp
    moreover have "visible s = visible (take i s) @ visible (drop i s)" by (simp flip: visible_append)
    moreover have "take i s \<noteq> []" using i \<open>s \<noteq> []\<close> by auto
    ultimately show ?thesis using less.hyps [OF shrink less.prems] i c shrink unfolding step by auto
  qed
qed

text \<open>
  Splitting a message loses nothing but white space. Every chunk is at most as long as the
  limit (zero counts as one), no chunk of a text is empty, there are no more chunks than
  characters, and the characters other than white space are those of the text in their order.
\<close>

theorem split_keeps_text:
  "let chunks = split_text_to_char_limit s n in
    (\<forall>c \<in> set chunks. length c \<le> max n 1 \<and> (c = [] \<longleftrightarrow> s = []))
    \<and> concat (map visible chunks) = visible s
    \<and> length chunks \<le> max (length s) 1"
  using split_loop_props [of "max n 1" s]
  by (cases "length s \<le> max n 1") (auto simp: split_text_to_char_limit_def Let_def visible_def)

theorem split_keeps_text_witness:
  "length (hd (split_text_to_char_limit ''one two three'' 8)) \<le> 8
   \<and> concat (map visible (split_text_to_char_limit ''one two three'' 8)) = ''onetwothree''"
proof -
  note w = split_keeps_text [of "''one two three''" 8, unfolded Let_def]
  then have "concat (map visible (split_text_to_char_limit ''one two three'' 8)) = visible ''one two three''"
    by blast
  moreover have "visible ''one two three'' = ''onetwothree''" by (simp add: visible_def is_ws_def)
  moreover have "split_text_to_char_limit ''one two three'' 8 \<noteq> []" using calculation by auto
  ultimately show ?thesis using w by (cases "split_text_to_char_limit ''one two three'' 8") auto
qed

section \<open>A smaller limit never gives fewer chunks\<close>

text \<open>
  For texts that do not begin with white space. The run with the larger limit is then always at
  least as far in the text as the run with the smaller one.
\<close>

lemma boundary_shift: "i < length s \<Longrightarrow> k < 3 \<Longrightarrow> Suc i < length s \<or> k \<noteq> 0
    \<Longrightarrow> boundary k (u @ s) (length u + i) = boundary k s i"
  by (auto simp: boundary_def nth_append)

lemma good_shift: "n \<le> length s \<Longrightarrow> k < 3 \<Longrightarrow> min_pos n \<le> i \<Longrightarrow> good k (u @ s) m (length u + i)
    \<Longrightarrow> m \<le> length u + n \<Longrightarrow> good k s n i"
  using boundary_shift [of i s k u] by (auto simp: good_def width_def split: if_splits)

lemma best_split_mono:
  assumes m: "0 < m" "m \<le> n" and s: "n < length s"
  shows "best_split (u @ s) m \<le> length u + best_split s n"
proof (rule ccontr)
  let ?a = "best_split s n" and ?b = "best_split (u @ s) m"
  assume "\<not> ?thesis"
  then have far: "length u + ?a < ?b" by simp
  have n: "0 < n" and us: "m < length (u @ s)" using m s by auto
  have b: "?b \<le> m" using best_split_bounds [OF m(1) us] by simp
  have mn: "min_pos m \<le> min_pos n" by (rule min_pos_mono [OF m(2)])
  from best_split_spec [OF n s] far b m obtain k where k: "k < 3" and ga: "good k s n ?a"
    and last: "\<forall>i > ?a. \<not> good k s n i" and better: "\<forall>j < k. \<forall>i. \<not> good j s n i" by fastforce
  have a: "min_pos n \<le> ?a" "?a + width k \<le> n" "boundary k s ?a" using ga by (auto simp: good_def)
  have shift: "boundary k (u @ s) (length u + ?a)"
    using a s k by (subst boundary_shift) (auto simp: width_def split: if_splits)
  from best_split_spec [OF m(1) us] show False
  proof (elim disjE exE conjE)
    fix j
    assume j: "j < 3" and gb: "good j (u @ s) m ?b" and no: "\<forall>i < j. \<forall>x. \<not> good i (u @ s) m x"
    have "length u + (?b - length u) = ?b" using far by simp
    with gb have "good j (u @ s) m (length u + (?b - length u))" by simp
    from good_shift [OF less_imp_le [OF s] j _ this] a far m have g: "good j s n (?b - length u)" by simp
    have "?a < ?b - length u" using far by simp
    with g last better have "k < j" by (metis linorder_neqE_nat)
    moreover have "good k (u @ s) m (length u + ?a)"
      using shift a mn gb far by (auto simp: good_def width_def split: if_splits)
    ultimately show False using no by blast
  next
    assume b_eq: "?b = m" and no: "\<forall>j < 3. \<forall>i. \<not> good j (u @ s) m i"
    have "boundary 1 (u @ s) (length u + ?a)" if "k = 0" using shift that by (simp add: boundary_def)
    then have "good (if k = 0 then 1 else k) (u @ s) m (length u + ?a)"
      using shift a mn far b_eq by (auto simp: good_def width_def)
    with no k show False by (metis One_nat_def Suc_lessI numeral_3_eq_3 one_less_numeral_iff semiring_norm(77))
  qed
qed

lemma trim_start_suffix_mono: "\<exists>v. trim_start (u @ s) = v @ trim_start s"
proof (induction u)
  case (Cons c u)
  then show ?case by (cases "is_ws c") (auto simp: trim_start_def intro: append_Cons [symmetric]
      exI [of _ "c # u @ takeWhile is_ws s"])
qed simp

lemma drop_append_le: "b \<le> length u + a \<Longrightarrow> \<exists>w. drop b (u @ s) = w @ drop a s"
proof -
  assume "b \<le> length u + a"
  then have "drop (length u + a - b) (drop b (u @ s)) = drop (length u + a) (u @ s)" by (simp only: drop_drop le_add_diff_inverse2)
  then have "drop (length u + a - b) (drop b (u @ s)) = drop a s" by simp
  then show ?thesis by (metis append_take_drop_id)
qed

lemma head_kept: "trim_start s = s \<Longrightarrow> s \<noteq> [] \<Longrightarrow> 1 \<le> i \<Longrightarrow> trim_end (take i s) \<noteq> []"
  by (cases s; cases i) (auto simp: trim_start_hd trim_end_eq_Nil)

lemma split_loop_step_head:
  assumes "0 < n" and "n < length s" and "trim_start s = s"
  shows "length (split_loop n s) = Suc (length (split_loop n (trim_start (drop (best_split s n) s))))"
proof -
  from assms(2) have "s \<noteq> []" by auto
  with assms best_split_bounds [OF assms(1,2)] have "trim_end (take (best_split s n) s) \<noteq> []"
    by (simp add: head_kept)
  with split_loop_head [OF assms(1,2)] show ?thesis by simp
qed

lemma split_loop_mono:
  "0 < m \<Longrightarrow> m \<le> n \<Longrightarrow> trim_start (u @ s) = u @ s \<Longrightarrow> trim_start s = s
    \<Longrightarrow> length (split_loop n s) \<le> length (split_loop m (u @ s))"
proof (induction "length s" arbitrary: u s rule: less_induct)
  case less
  show ?case
  proof (cases "length s \<le> n")
    case True
    show ?thesis
    proof (cases "s = []")
      case False
      have "split_loop m (u @ s) \<noteq> []"
        using split_loop_props [OF less.prems(1), of "u @ s"] False less.prems(4)
        by (auto simp: trim_start_hd visible_def filter_empty_conv)
      with True False show ?thesis by (simp add: split_loop_short Suc_le_eq)
    qed simp
  next
    case False
    let ?a = "best_split s n" and ?b = "best_split (u @ s) m"
    have n: "0 < n" "n < length s" and us: "m < length (u @ s)" using less.prems False by auto
    from n have "s \<noteq> []" by auto
    have "?b \<le> length u + ?a" by (rule best_split_mono [OF less.prems(1,2) n(2)])
    then obtain w where "drop ?b (u @ s) = w @ drop ?a s" using drop_append_le by blast
    then obtain v where v: "trim_start (drop ?b (u @ s)) = v @ trim_start (drop ?a s)"
      using trim_start_suffix_mono by metis
    have "1 \<le> ?a" using best_split_bounds [OF n] by simp
    from less.hyps [OF trim_start_drop_less [OF \<open>s \<noteq> []\<close> this] less.prems(1,2), of v] v
    have "length (split_loop n (trim_start (drop ?a s))) \<le> length (split_loop m (trim_start (drop ?b (u @ s))))"
      by (metis trim_start_idem)
    then show ?thesis
      using split_loop_step_head [OF n less.prems(4)] split_loop_step_head [OF less.prems(1) us less.prems(3)]
      by simp
  qed
qed

lemma split_text_mono:
  assumes "0 < m" and "m \<le> n" and "trim_start s = s"
  shows "length (split_text_to_char_limit s n) \<le> length (split_text_to_char_limit s m)"
proof (cases "s = []")
  case False
  have "split_text_to_char_limit s k = split_loop k s" if "0 < k" for k
    using that False by (auto simp: split_text_to_char_limit_def Let_def split_loop_short max_absorb1 Suc_le_eq)
  with split_loop_mono [of m n "[]" s] assms show ?thesis by simp
qed (simp add: split_text_to_char_limit_def)

section \<open>Labels\<close>

definition chunk_label :: "nat \<Rightarrow> nat \<Rightarrow> string" where
  "chunk_label index tot = ''['' @ show_nat index @ ''/'' @ show_nat tot @ ''] ''"

definition chunk_label_width :: "nat \<Rightarrow> nat \<Rightarrow> nat" where
  "chunk_label_width index tot = length (chunk_label index tot)"

definition label_chunks :: "string list \<Rightarrow> string list" where
  "label_chunks chunks = (let tot = length chunks in
     if tot \<le> 1 then chunks
     else map (\<lambda>(idx, chunk). chunk_label (idx + 1) tot @ chunk) (enumerate 0 chunks))"

definition body_limit :: "nat \<Rightarrow> nat \<Rightarrow> nat" where
  "body_limit max_chars tot =
     (let label_width = chunk_label_width (max tot 1) (max tot 1) in max (max_chars - label_width) 1)"

partial_function (option) label_loop :: "nat \<Rightarrow> string \<Rightarrow> nat \<Rightarrow> string list option" where
  "label_loop max_chars s tot =
    (let chunks = split_text_to_char_limit s (body_limit max_chars tot) in
     if length chunks = tot \<or> tot = 0
     then (let tot1 = length chunks;
               final_chunks = split_text_to_char_limit s (body_limit max_chars tot1)
           in if length final_chunks = tot1 then Some (label_chunks final_chunks)
              else label_loop max_chars s (length final_chunks))
     else label_loop max_chars s (length chunks))"

definition split_outbound_message :: "string \<Rightarrow> split_profile \<Rightarrow> string list option" where
  "split_outbound_message s profile = (let max_chars = max (sp_max_chars profile) 1 in
     if s = [] then Some [[]]
     else if \<not> sp_label_chunks profile then Some (split_text_to_char_limit s max_chars)
     else label_loop max_chars s 0)"

definition split_for_push_notification :: "string \<Rightarrow> string list option" where
  "split_for_push_notification s = split_outbound_message s push_notification"

definition split_for_provider_safe_channel :: "string \<Rightarrow> string \<Rightarrow> string list option" where
  "split_for_provider_safe_channel channel s =
     split_outbound_message s (provider_safe (provider_safe_limit_for_channel channel))"

lemma length_show_nat_mono: "m \<le> n \<Longrightarrow> length (show_nat m) \<le> length (show_nat n)"
proof (induction n arbitrary: m rule: show_nat.induct)
  case (1 n)
  show ?case
  proof (cases "m < 10")
    case True
    then have "length (show_nat m) = 1" by (subst show_nat.simps) simp
    then show ?thesis using show_nat_nonempty [of n] by (simp add: Suc_le_eq)
  next
    case False
    with 1 have "length (show_nat (m div 10)) \<le> length (show_nat (n div 10))" by (simp add: div_le_mono)
    with False 1(2) show ?thesis by (simp add: show_nat.simps [of m] show_nat.simps [of n])
  qed
qed

lemma label_width_mono: "i \<le> j \<Longrightarrow> m \<le> n \<Longrightarrow> chunk_label_width i m \<le> chunk_label_width j n"
  using length_show_nat_mono [of i j] length_show_nat_mono [of m n]
  by (simp add: chunk_label_width_def chunk_label_def)

lemma body_limit_mono: "m \<le> n \<Longrightarrow> body_limit mx n \<le> body_limit mx m"
  using label_width_mono [of "max m 1" "max n 1" "max m 1" "max n 1"]
  unfolding body_limit_def Let_def by (intro max.mono diff_le_mono2) auto

text \<open>
  The number of chunks as a function of the number the labels are made for; the label loop
  looks for a fixed point of it.
\<close>

definition chunk_count :: "nat \<Rightarrow> string \<Rightarrow> nat \<Rightarrow> nat" where
  "chunk_count mx s tot = length (split_text_to_char_limit s (body_limit mx tot))"

lemma chunk_count_mono: "trim_start s = s \<Longrightarrow> m \<le> n \<Longrightarrow> chunk_count mx s m \<le> chunk_count mx s n"
  unfolding chunk_count_def by (rule split_text_mono [OF _ body_limit_mono]) (simp_all add: body_limit_def Let_def)

lemma chunk_count_bounds: "1 \<le> chunk_count mx s tot \<and> chunk_count mx s tot \<le> max (length s) 1"
proof -
  have "split_text_to_char_limit s n \<noteq> []" for n
    by (auto simp: split_text_to_char_limit_def Let_def not_le intro!: split_loop_nonempty)
  moreover have "length (split_text_to_char_limit s n) \<le> max (length s) 1" for n
    using split_loop_props [of "max n 1" s] by (auto simp: split_text_to_char_limit_def Let_def)
  ultimately show ?thesis by (simp add: chunk_count_def Suc_le_eq)
qed

lemma label_loop_fixed:
  "chunk_count mx s t = t \<Longrightarrow> label_loop mx s t = Some (label_chunks (split_text_to_char_limit s (body_limit mx t)))"
  by (subst label_loop.simps) (simp add: Let_def chunk_count_def)

lemma label_loop_next:
  "chunk_count mx s t \<noteq> t \<Longrightarrow> t \<noteq> 0 \<Longrightarrow> label_loop mx s t = label_loop mx s (chunk_count mx s t)"
  by (subst label_loop.simps) (simp add: Let_def chunk_count_def)

lemma label_loop_first:
  "label_loop mx s 0 = label_loop mx s (chunk_count mx s (chunk_count mx s 0))"
proof -
  let ?t = "chunk_count mx s 0"
  show ?thesis
  proof (cases "chunk_count mx s ?t = ?t")
    case True
    then have "label_loop mx s 0 = Some (label_chunks (split_text_to_char_limit s (body_limit mx ?t)))"
      by (subst label_loop.simps) (simp add: Let_def chunk_count_def)
    with True label_loop_fixed [OF True] show ?thesis by simp
  next
    case False
    then show ?thesis by (subst label_loop.simps) (simp add: Let_def chunk_count_def)
  qed
qed

text \<open>From a number that is not above its image the loop climbs to a fixed point.\<close>

lemma label_loop_climbs:
  assumes "trim_start s = s"
  shows "0 < t \<Longrightarrow> t \<le> chunk_count mx s t \<Longrightarrow>
    \<exists>n. chunk_count mx s n = n \<and> label_loop mx s t = Some (label_chunks (split_text_to_char_limit s (body_limit mx n)))"
proof (induction "Suc (length s) - t" arbitrary: t rule: less_induct)
  case less
  let ?u = "chunk_count mx s t"
  show ?case
  proof (cases "?u = t")
    case True
    then show ?thesis using label_loop_fixed by blast
  next
    case False
    with less.prems have tu: "t < ?u" by simp
    with chunk_count_bounds [of mx s t] have "Suc (length s) - ?u < Suc (length s) - t" by auto
    moreover have "0 < ?u" "?u \<le> chunk_count mx s ?u" using tu chunk_count_mono [OF assms, of t ?u mx] by auto
    ultimately have "\<exists>n. chunk_count mx s n = n \<and>
        label_loop mx s ?u = Some (label_chunks (split_text_to_char_limit s (body_limit mx n)))"
      by (rule less.hyps)
    with label_loop_next [OF False] less.prems show ?thesis by auto
  qed
qed

lemma label_loop_returns:
  assumes "trim_start s = s"
  obtains n where "chunk_count mx s n = n"
    and "label_loop mx s 0 = Some (label_chunks (split_text_to_char_limit s (body_limit mx n)))"
proof -
  let ?t = "chunk_count mx s 0" and ?u = "chunk_count mx s (chunk_count mx s 0)"
  have "?t \<le> ?u" by (rule chunk_count_mono [OF assms]) simp
  then have "?u \<le> chunk_count mx s ?u" by (rule chunk_count_mono [OF assms])
  moreover have "0 < ?u" using chunk_count_bounds [of mx s ?t] by simp
  ultimately show thesis using label_loop_climbs [OF assms, of ?u mx] that by (auto simp: label_loop_first)
qed

lemma label_chunks_length:
  "\<forall>c \<in> set chunks. length c \<le> n \<Longrightarrow> c \<in> set (label_chunks chunks)
    \<Longrightarrow> length c \<le> chunk_label_width (length chunks) (length chunks) + n"
proof -
  assume n: "\<forall>c \<in> set chunks. length c \<le> n" and c: "c \<in> set (label_chunks chunks)"
  show ?thesis
  proof (cases "length chunks \<le> 1")
    case True
    with n c show ?thesis by (auto simp: label_chunks_def Let_def intro: trans_le_add2)
  next
    case False
    with c obtain i where i: "i < length chunks" and
      c: "c = chunk_label (i + 1) (length chunks) @ chunks ! i"
      by (auto simp: label_chunks_def Let_def enumerate_eq_zip set_zip)
    have "chunk_label_width (i + 1) (length chunks) \<le> chunk_label_width (length chunks) (length chunks)"
      using i by (intro label_width_mono) auto
    moreover have "length (chunks ! i) \<le> n" using n i by simp
    ultimately show ?thesis by (simp add: c chunk_label_width_def)
  qed
qed

text \<open>
  C34. Labelled splitting returns. For every text that does not begin with white space, the loop
  that fits the labels ends; the chunks are bodies that keep the visible text, labelled
  \<open>[i/n]\<close> when there is more than one, and no labelled chunk is longer than the limit as
  long as the widest label is shorter than it.
\<close>

theorem labelled_split:
  assumes "trim_start s = s" and "sp_label_chunks profile"
  shows "\<exists>bodies. split_outbound_message s profile = Some (label_chunks bodies)
    \<and> concat (map visible bodies) = visible s
    \<and> (chunk_label_width (length bodies) (length bodies) < sp_max_chars profile \<longrightarrow>
        (\<forall>c \<in> set (label_chunks bodies). length c \<le> sp_max_chars profile))"
proof (cases "s = []")
  case True
  then show ?thesis
    by (intro exI [of _ "[[]]"]) (simp add: split_outbound_message_def label_chunks_def visible_def)
next
  case False
  let ?mx = "max (sp_max_chars profile) 1"
  from assms(1) obtain n where n: "chunk_count ?mx s n = n"
    and ret: "label_loop ?mx s 0 = Some (label_chunks (split_text_to_char_limit s (body_limit ?mx n)))"
    by (rule label_loop_returns)
  let ?bodies = "split_text_to_char_limit s (body_limit ?mx n)"
  have pos: "0 < n" using chunk_count_bounds [of ?mx s n] n by simp
  have len: "length ?bodies = n" using n by (simp add: chunk_count_def)
  have lim: "0 < body_limit ?mx n" by (simp add: body_limit_def Let_def)
  have props: "(\<forall>c \<in> set ?bodies. length c \<le> body_limit ?mx n) \<and> concat (map visible ?bodies) = visible s"
    using split_loop_props [OF lim, of s] max_absorb1 [of 1 "body_limit ?mx n"] lim
    by (cases "length s \<le> body_limit ?mx n") (simp_all add: split_text_to_char_limit_def Let_def Suc_le_eq)
  have "length c \<le> sp_max_chars profile"
    if w: "chunk_label_width n n < sp_max_chars profile" and c: "c \<in> set (label_chunks ?bodies)" for c
  proof -
    have "body_limit ?mx n = sp_max_chars profile - chunk_label_width n n"
      using w pos by (simp add: body_limit_def Let_def max_absorb1 Suc_le_eq)
    with w label_chunks_length [of ?bodies "body_limit ?mx n" c] props c len show ?thesis by simp
  qed
  then show ?thesis using False assms(2) ret props len
    by (intro exI [of _ ?bodies]) (simp add: split_outbound_message_def Let_def)
qed

theorem labelled_split_witness:
  "\<exists>bodies. split_for_push_notification ''Build finished'' = Some (label_chunks bodies)
    \<and> concat (map visible bodies) = ''Buildfinished''"
  using labelled_split [of "''Build finished''" push_notification]
  by (auto simp: trim_start_def is_ws_def push_notification_def visible_def split_for_push_notification_def)

section \<open>A text for which the label loop does not return\<close>

text \<open>
  It begins with so much white space that the empty line after it is a good position for the
  limit 992 but not for 994. The limit 994 then gives ten chunks, whose labels need the limit
  992, which gives nine chunks, whose labels allow the limit 994.
\<close>

definition odd_text :: string where
  "odd_text = replicate 595 CHR '' '' @ [newline, newline, CHR ''a'', newline] @ replicate 7953 CHR ''a''"

lemma odd_text_length: "length odd_text = 8552"
  by (simp add: odd_text_def)

lemma nth_middle4: "length mid = 4 \<Longrightarrow> i < m + (4 + k) \<Longrightarrow>
    (replicate m x @ mid @ replicate k y) ! i = (if i < m then x else if i < m + 4 then mid ! (i - m) else y)"
  by (auto simp: nth_append)

lemma odd_text_nth: "i < 8552 \<Longrightarrow> odd_text ! i = (if i < 595 then CHR '' '' else
    if i \<in> {595, 596, 598} then newline else CHR ''a'')"
proof -
  assume i: "i < 8552"
  have "[newline, newline, CHR ''a'', newline] ! j = (if j \<in> {0, 1, 3} then newline else CHR ''a'')" if "j < 4" for j
    using that by (auto simp: less_Suc_eq numeral_eq_Suc)
  from nth_middle4 [of "[newline, newline, CHR ''a'', newline]" i 595 7953 "CHR '' ''" "CHR ''a''"] this [of "i - 595"] i
  show ?thesis unfolding odd_text_def by (auto split: if_splits)
qed

lemma newline_not: "newline \<noteq> CHR '' ''" "newline \<noteq> CHR ''a''" "\<not> is_ws CHR ''a''" "is_ws newline" "is_ws CHR '' ''"
  by (simp_all add: newline_def is_ws_def)

lemma odd_newline: "i < 8552 \<Longrightarrow> odd_text ! i = newline \<longleftrightarrow> i = 595 \<or> i = 596 \<or> i = 598"
  by (simp add: odd_text_nth newline_def)

lemma odd_good:
  "n \<le> 8552 \<Longrightarrow> good 0 odd_text n i \<longleftrightarrow> min_pos n \<le> i \<and> i + 2 \<le> n \<and> i = 595"
  "n \<le> 8552 \<Longrightarrow> good 1 odd_text n i \<longleftrightarrow> min_pos n \<le> i \<and> i + 1 \<le> n \<and> (i = 595 \<or> i = 596 \<or> i = 598)"
proof -
  assume n: "n \<le> 8552"
  show "good 1 odd_text n i \<longleftrightarrow> min_pos n \<le> i \<and> i + 1 \<le> n \<and> (i = 595 \<or> i = 596 \<or> i = 598)"
    using n odd_newline [of i] by (auto simp: good_def width_def boundary_def)
  have "odd_text ! i = newline \<and> odd_text ! Suc i = newline \<longleftrightarrow> i = 595" if "i + 2 \<le> n"
    using that n odd_newline [of i] odd_newline [of "Suc i"] by auto
  then show "good 0 odd_text n i \<longleftrightarrow> min_pos n \<le> i \<and> i + 2 \<le> n \<and> i = 595"
    unfolding good_def width_def boundary_def by auto
qed

lemma best_split_unique:
  assumes "0 < n" and "n < length s" and "k < 3" and p: "good k s n p" and last: "\<And>i. good k s n i \<Longrightarrow> i \<le> p"
    and better: "\<And>j i. j < k \<Longrightarrow> \<not> good j s n i"
  shows "best_split s n = p"
  using best_split_spec [OF assms(1,2)]
proof (elim disjE exE conjE)
  fix j
  assume j: "good j s n (best_split s n)" "\<forall>i > best_split s n. \<not> good j s n i" "\<forall>i < j. \<forall>x. \<not> good i s n x"
  with p better have "j = k" by (metis linorder_neqE_nat)
  with j p last show ?thesis by (metis le_antisym not_le)
qed (use assms(3) p in blast)

lemma odd_split_994: "best_split odd_text 994 = 598"
proof -
  have m: "min_pos 994 = 596" by (simp add: min_pos_def)
  show ?thesis by (rule best_split_unique [of _ _ 1]) (auto simp: odd_good [unfolded One_nat_def] m odd_text_length)
qed

lemma odd_split_992: "best_split odd_text 992 = 595"
proof -
  have m: "min_pos 992 = 595" by (simp add: min_pos_def)
  show ?thesis by (rule best_split_unique [of _ _ 0]) (auto simp: odd_good m odd_text_length)
qed

lemma best_split_plain: "0 < n \<Longrightarrow> n < k \<Longrightarrow> best_split (replicate k CHR ''a'') n = n"
proof -
  assume "0 < n" "n < k"
  moreover have "\<not> good j (replicate k CHR ''a'') n i" if "j < 3" for j i
    using that \<open>n < k\<close> newline_not by (auto simp: good_def width_def boundary_def split: if_splits)
  ultimately show ?thesis using best_split_spec [of n "replicate k CHR ''a''"] by auto
qed

lemma trim_plain: "trim_start (replicate k CHR ''a'') = replicate k CHR ''a''"
  by (cases k) (simp_all add: trim_start_hd newline_not)

lemma split_plain: "0 < n \<Longrightarrow> length (split_loop n (replicate k CHR ''a'')) = (k + n - 1) div n"
proof (induction k rule: less_induct)
  case (less k)
  consider "k = 0" | "0 < k" "k \<le> n" | "n < k" by linarith
  then show ?case
  proof cases
    case 2
    then have "(k + n - 1) div n = 1" by (intro div_nat_eqI) auto
    with 2 show ?thesis by (simp add: split_loop_short)
  next
    case 3
    have "length (split_loop n (replicate k CHR ''a'')) = Suc (length (split_loop n (replicate (k - n) CHR ''a'')))"
      using 3 less.prems by (subst split_loop_step_head) (simp_all add: trim_plain best_split_plain)
    also have "\<dots> = Suc ((k - n + n - 1) div n)" using less 3 by simp
    also have "\<dots> = (k + n - 1) div n"
      using 3 less.prems div_add_self2 [of n "k - 1"] by (simp add: add.commute)
    finally show ?thesis .
  qed (use less.prems in simp)
qed

lemma odd_loop_994: "split_loop 994 odd_text
    = trim_end (take 598 odd_text) # split_loop 994 (replicate 7953 CHR ''a'')"
proof -
  have "odd_text ! 597 \<in> set (take 598 odd_text)" by (auto simp: in_set_conv_nth odd_text_length intro!: exI [of _ 597])
  moreover have "\<not> is_ws (odd_text ! 597)" by (simp add: odd_text_nth newline_not)
  ultimately have "trim_end (take (best_split odd_text 994) odd_text) \<noteq> []"
    by (auto simp: odd_split_994 trim_end_eq_Nil)
  moreover have "trim_start (drop 598 odd_text) = replicate 7953 CHR ''a''"
    using trim_plain [of 7953] by (simp add: odd_text_def trim_start_def newline_not)
  ultimately show ?thesis
    using split_loop_head [of 994 odd_text] by (simp add: odd_text_length odd_split_994)
qed

lemma odd_loop_992: "split_loop 992 odd_text = take 992 odd_text # split_loop 992 (replicate 7560 CHR ''a'')"
proof -
  have "trim_end (take (best_split odd_text 992) odd_text) = []"
    by (auto simp: odd_split_992 trim_end_eq_Nil in_set_conv_nth odd_text_length odd_text_nth newline_not)
  moreover have "replicate 7953 CHR ''a'' = replicate 393 CHR ''a'' @ replicate 7560 CHR ''a''"
    by (simp flip: replicate_add)
  then have "trim_start (drop 992 odd_text) = replicate 7560 CHR ''a''"
    using trim_plain [of 7560] by (simp add: odd_text_def)
  ultimately show ?thesis using split_loop_hard [of 992 odd_text] by (simp add: odd_text_length)
qed

lemma odd_count: "chunk_count 1000 odd_text 0 = 10" "chunk_count 1000 odd_text 9 = 10" "chunk_count 1000 odd_text 10 = 9"
proof -
  have w: "chunk_label_width 1 1 = 6" "chunk_label_width 9 9 = 6" "chunk_label_width 10 10 = 8"
    by (simp_all add: chunk_label_width_def chunk_label_def show_nat.simps)
  then have "body_limit 1000 0 = 994" "body_limit 1000 9 = 994" "body_limit 1000 10 = 992"
    by (simp_all add: body_limit_def)
  then show "chunk_count 1000 odd_text 0 = 10" "chunk_count 1000 odd_text 9 = 10" "chunk_count 1000 odd_text 10 = 9"
    by (simp_all add: chunk_count_def split_text_to_char_limit_def odd_text_length odd_loop_994 odd_loop_992 split_plain)
qed

text \<open>
  The label loop can run forever. A push notification of 8552 characters that begins with
  595 spaces has no labelled splitting: the loop never returns.
\<close>

theorem labelled_split_diverges: "split_for_push_notification odd_text = None"
proof (rule ccontr)
  assume "split_for_push_notification odd_text \<noteq> None"
  moreover have "odd_text \<noteq> []" using odd_text_length by fastforce
  ultimately obtain r where "label_loop 1000 odd_text 0 = Some r"
    by (auto simp: split_for_push_notification_def split_outbound_message_def push_notification_def
        PUSH_NOTIFICATION_MAX_CHARS_def)
  then have "\<not> (1000 = (1000 :: nat) \<and> odd_text = odd_text \<and> 0 \<in> {0, 9, 10 :: nat})"
  proof (rule label_loop.raw_induct [where P = "\<lambda>mx s t _. \<not> (mx = 1000 \<and> s = odd_text \<and> t \<in> {0, 9, 10})", rotated])
    fix f mx s t r
    assume IH: "\<And>mx s t r. f mx s t = Some r \<Longrightarrow> \<not> (mx = 1000 \<and> s = odd_text \<and> t \<in> {0, 9, 10})"
      and eq: "(let chunks = split_text_to_char_limit s (body_limit mx t) in
        if length chunks = t \<or> t = 0
        then (let tot1 = length chunks; final_chunks = split_text_to_char_limit s (body_limit mx tot1)
              in if length final_chunks = tot1 then Some (label_chunks final_chunks) else f mx s (length final_chunks))
        else f mx s (length chunks)) = Some r"
    show "\<not> (mx = 1000 \<and> s = odd_text \<and> t \<in> {0, 9, 10})"
    proof
      assume t: "mx = 1000 \<and> s = odd_text \<and> t \<in> {0, 9, 10}"
      have no: "f 1000 odd_text 9 \<noteq> Some r" "f 1000 odd_text 10 \<noteq> Some r"
        using IH [of 1000 odd_text 9 r] IH [of 1000 odd_text 10 r] by blast+
      from t consider "t = 0" | "t = 9" | "t = 10" by blast
      then show False
        using eq t no by cases (simp_all add: Let_def odd_count [unfolded chunk_count_def])
    qed
  qed
  then show False by simp
qed

end
