(* ===== verification/Text_Pieces.thy ===== *)
theory Text_Pieces
  imports Ark_Prelude
begin

text \<open>
  The string functions of the standard library that several components use to take texts apart:
  \<open>str::split\<close> at characters, \<open>split_once\<close>, \<open>strip_prefix\<close>, \<open>trim_matches\<close>, and what joining
  the pieces again gives.
\<close>

section \<open>Splitting at characters\<close>

fun split_on :: "(char \<Rightarrow> bool) \<Rightarrow> string \<Rightarrow> string list" where
  "split_on P [] = [[]]"
| "split_on P (c # s) = (if P c then [] # split_on P s
     else (case split_on P s of [] \<Rightarrow> [[c]] | w # ws \<Rightarrow> (c # w) # ws))"

abbreviation split_char :: "char \<Rightarrow> string \<Rightarrow> string list" where
  "split_char d \<equiv> split_on (\<lambda>c. c = d)"

lemma split_on_nonempty: "split_on P s \<noteq> []"
  by (induction s) (auto split: list.splits)

lemma split_on_word: "\<forall>c \<in> set w. \<not> P c \<Longrightarrow> split_on P w = [w]"
  by (induction w) auto

lemma split_on_append: "\<forall>c \<in> set w. \<not> P c \<Longrightarrow> P s \<Longrightarrow> split_on P (w @ s # rest) = w # split_on P rest"
  by (induction w) auto

lemma split_on_intercalate:
  "P s \<Longrightarrow> ws \<noteq> [] \<Longrightarrow> \<forall>w \<in> set ws. \<forall>c \<in> set w. \<not> P c \<Longrightarrow> split_on P (intercalate [s] ws) = ws"
  by (induction "[s]" ws rule: intercalate.induct) (auto simp: split_on_word split_on_append)

lemma split_on_parts: "w \<in> set (split_on P s) \<Longrightarrow> c \<in> set w \<Longrightarrow> c \<in> set s \<and> \<not> P c"
proof (induction s arbitrary: w)
  case (Cons a s)
  show ?case
  proof (cases "split_on P s")
    case Nil
    with Cons.prems show ?thesis by (auto split: if_splits)
  next
    case parts: (Cons v vs)
    from Cons.IH [of v] Cons.IH [of w] Cons.prems parts show ?thesis by (auto split: if_splits)
  qed
qed auto

lemma set_intercalate: "set (intercalate sep ps) \<subseteq> set sep \<union> \<Union> (set ` set ps)"
  by (induction sep ps rule: intercalate.induct) auto

section \<open>Prefixes and first separators\<close>

fun split_once :: "char \<Rightarrow> string \<Rightarrow> (string \<times> string) option" where
  "split_once d [] = None"
| "split_once d (c # s) = (if c = d then Some ([], s) else map_option (\<lambda>(a, b). (c # a, b)) (split_once d s))"

fun split_once_str :: "string \<Rightarrow> string \<Rightarrow> (string \<times> string) option" where
  "split_once_str p [] = (if p = [] then Some ([], []) else None)"
| "split_once_str p (c # s) = (if prefix_of p (c # s) then Some ([], drop (length p) (c # s))
     else map_option (\<lambda>(a, b). (c # a, b)) (split_once_str p s))"

definition strip_prefix :: "string \<Rightarrow> string \<Rightarrow> string option" where
  "strip_prefix p s = (if prefix_of p s then Some (drop (length p) s) else None)"

lemma split_once_append: "d \<notin> set a \<Longrightarrow> split_once d (a @ d # b) = Some (a, b)"
  by (induction a) auto

lemma split_once_None: "split_once d s = None \<longleftrightarrow> d \<notin> set s"
  by (induction s) auto

section \<open>Comparing without case\<close>

definition eq_ignore_case :: "string \<Rightarrow> string \<Rightarrow> bool" where
  "eq_ignore_case a b \<longleftrightarrow> ascii_lower a = ascii_lower b"

section \<open>Trimming\<close>

definition trim_end_matches :: "(char \<Rightarrow> bool) \<Rightarrow> string \<Rightarrow> string" where
  "trim_end_matches P s = rev (dropWhile P (rev s))"

definition trim_matches :: "(char \<Rightarrow> bool) \<Rightarrow> string \<Rightarrow> string" where
  "trim_matches P s = trim_end_matches P (dropWhile P s)"

lemma trim_end_append_text: "trim_end s \<noteq> [] \<Longrightarrow> trim_end (p @ s) = p @ trim_end s"
  by (auto simp: trim_end_def dropWhile_append dropWhile_eq_Nil_conv)

lemma trim_end_fix: "trim s = s \<Longrightarrow> trim_end s = s"
  by (metis trim_def trim_end_idem)

end
