(* ===== verification/Session_Record.thy ===== *)
theory Session_Record
  imports Clock_Text Json_Value Text_Pieces
begin

text \<open>
  The data of \<open>core/automation/background_session.rs\<close>: sessions, their events and policies,
  the normalisation of every field, and the session id kept in a task's arguments.

  Each reading of the clock and each fresh UUID is an argument: a \<open>stamp\<close> holds the reading
  for the session's own times, the one for the event and the event's id. Field prefixes:
  \<open>bs_\<close> (\<open>BackgroundSession\<close>), \<open>ev_\<close> (\<open>BackgroundSessionEvent\<close>), \<open>bp_\<close>
  (\<open>BackgroundSessionPolicy\<close>), \<open>bc_\<close> (\<open>BackgroundSessionCreate\<close>), \<open>bu_\<close>
  (\<open>BackgroundSessionUpdate\<close>).
\<close>

section \<open>Data\<close>

definition MAX_EVENTS :: nat where "MAX_EVENTS = 80"
definition MAX_TEXT_CHARS :: nat where "MAX_TEXT_CHARS = 8000"
definition MAX_WORKING_MEMORY_CHARS :: nat where "MAX_WORKING_MEMORY_CHARS = 24000"

datatype session_status = Draft | Active | Waiting | NeedsInput | SPaused | SCompleted | Failed | Cancelled

fun status_label :: "session_status \<Rightarrow> string" where
  "status_label Draft = ''draft''"
| "status_label Active = ''active''"
| "status_label Waiting = ''waiting''"
| "status_label NeedsInput = ''needs_input''"
| "status_label SPaused = ''paused''"
| "status_label SCompleted = ''completed''"
| "status_label Failed = ''failed''"
| "status_label Cancelled = ''cancelled''"

fun is_closed :: "session_status \<Rightarrow> bool" where
  "is_closed SCompleted = True"
| "is_closed Failed = True"
| "is_closed Cancelled = True"
| "is_closed _ = False"

record session_event =
  ev_id :: string
  ev_at :: int
  ev_kind :: string
  ev_summary :: string
  ev_detail :: "string option"
  ev_actor :: "string option"

record session_policy =
  bp_allowed_action_roles :: "string list"
  bp_allowed_integration_classes :: "string list"

record background_session =
  bs_id :: string
  bs_title :: string
  bs_objective :: string
  bs_status :: session_status
  bs_summary :: "string option"
  bs_current_focus :: "string option"
  bs_waiting_on :: "string option"
  bs_next_expected_action :: "string option"
  bs_working_memory :: "string option"
  bs_last_error :: "string option"
  bs_preferred_delivery_channel :: "string option"
  bs_channel :: "string option"
  bs_conversation_id :: "string option"
  bs_project_id :: "string option"
  bs_linked_task_ids :: "string list"
  bs_linked_watcher_ids :: "string list"
  bs_policy :: session_policy
  bs_created_at :: int
  bs_updated_at :: int
  bs_last_activity_at :: int
  bs_last_consolidated_at :: "int option"
  bs_events :: "session_event list"

record session_create =
  bc_title :: "string option"
  bc_objective :: string
  bc_summary :: "string option"
  bc_current_focus :: "string option"
  bc_waiting_on :: "string option"
  bc_next_expected_action :: "string option"
  bc_working_memory :: "string option"
  bc_preferred_delivery_channel :: "string option"
  bc_channel :: "string option"
  bc_conversation_id :: "string option"
  bc_task_ids :: "string list"
  bc_watcher_ids :: "string list"
  bc_policy :: session_policy

record session_update =
  bu_title :: "string option"
  bu_objective :: "string option"
  bu_status :: "session_status option"
  bu_summary :: "string option"
  bu_current_focus :: "string option"
  bu_waiting_on :: "string option"
  bu_next_expected_action :: "string option"
  bu_working_memory :: "string option"
  bu_last_error :: "string option"
  bu_preferred_delivery_channel :: "string option"
  bu_policy :: "session_policy option"

record stamp =
  sp_now :: int
  sp_event_at :: int
  sp_event_id :: string

section \<open>Normalisation of texts and lists\<close>

definition truncate_text :: "string \<Rightarrow> nat \<Rightarrow> string" where
  "truncate_text v max_chars = (if length v \<le> max_chars then trim v
     else trim (take max_chars v @ ''...''))"

definition normalize_text_field :: "string option \<Rightarrow> nat \<Rightarrow> string option" where
  "normalize_text_field v max_chars = map_option (\<lambda>inner. truncate_text inner max_chars) (trim_opt v)"

text \<open>The elements that are new, in order; \<open>seen\<close> is the \<open>BTreeSet\<close> of the loop.\<close>

fun first_occurrences :: "string list \<Rightarrow> string list \<Rightarrow> string list" where
  "first_occurrences seen [] = []"
| "first_occurrences seen (v # vs) = (if v = [] \<or> v \<in> set seen then first_occurrences seen vs
     else v # first_occurrences (v # seen) vs)"

definition normalize_id_list :: "string list \<Rightarrow> string list" where
  "normalize_id_list vs = first_occurrences [] (map trim vs)"

definition is_alnum :: "char \<Rightarrow> bool" where
  "is_alnum c \<longleftrightarrow> is_lower c \<or> is_upper c \<or> is_digit c"

definition normalize_policy_value :: "string \<Rightarrow> string" where
  "normalize_policy_value v = intercalate ''_'' (filter (\<lambda>part. part \<noteq> [])
     (split_char CHR ''_'' (map (\<lambda>ch. if is_alnum ch then ch else CHR ''_'') (ascii_lower (trim v)))))"

definition normalize_policy_values :: "string list \<Rightarrow> string list" where
  "normalize_policy_values vs = first_occurrences [] (map normalize_policy_value vs)"

definition policy_normalized :: "session_policy \<Rightarrow> session_policy" where
  "policy_normalized p = p\<lparr>bp_allowed_action_roles := normalize_policy_values (bp_allowed_action_roles p),
     bp_allowed_integration_classes := normalize_policy_values (bp_allowed_integration_classes p)\<rparr>"

definition policy_is_unset :: "session_policy \<Rightarrow> bool" where
  "policy_is_unset p \<longleftrightarrow> bp_allowed_action_roles p = [] \<and> bp_allowed_integration_classes p = []"

definition policy_allows :: "session_policy \<Rightarrow> string \<Rightarrow> string \<Rightarrow> bool" where
  "policy_allows p action_role integration_class =
    (let role = normalize_policy_value action_role; cls = normalize_policy_value integration_class in
     (bp_allowed_action_roles p = [] \<or> role \<in> set (bp_allowed_action_roles p))
     \<and> (bp_allowed_integration_classes p = [] \<or> cls \<in> set (bp_allowed_integration_classes p)))"

definition derive_title :: "string option \<Rightarrow> string \<Rightarrow> string" where
  "derive_title title objective0 = (case normalize_text_field title 180 of
     Some explicit \<Rightarrow> explicit
   | None \<Rightarrow> (let objective = trim objective0;
        first_sentence = trim (takeWhile (\<lambda>c. c \<noteq> CHR ''.'' \<and> c \<noteq> CHR 0x0A) objective)
      in truncate_text first_sentence 96))"

section \<open>Events\<close>

definition build_event :: "stamp \<Rightarrow> string \<Rightarrow> string \<Rightarrow> string option \<Rightarrow> string option \<Rightarrow> session_event" where
  "build_event sp kind summary detail actor = \<lparr>ev_id = sp_event_id sp, ev_at = sp_event_at sp, ev_kind = kind,
     ev_summary = truncate_text summary 240, ev_detail = normalize_text_field detail MAX_TEXT_CHARS,
     ev_actor = trim_opt actor\<rparr>"

definition push_event :: "session_event list \<Rightarrow> session_event \<Rightarrow> session_event list" where
  "push_event events event = (let events' = events @ [event] in
     if length events' > MAX_EVENTS then drop (length events' - MAX_EVENTS) events' else events')"

section \<open>The session id in task arguments\<close>

definition background_session_id_from_automation :: "json \<Rightarrow> string option" where
  "background_session_id_from_automation arguments = (case json_get ''_automation'' arguments of
     None \<Rightarrow> None
   | Some a \<Rightarrow> (case json_get ''background_session_id'' a of
        None \<Rightarrow> None
      | Some v \<Rightarrow> (case json_as_str v of None \<Rightarrow> None | Some s \<Rightarrow> trim_opt (Some s))))"

definition set_background_session_id_in_automation :: "json \<Rightarrow> string option \<Rightarrow> json" where
  "set_background_session_id_in_automation arguments session_id =
    (let root = (case arguments of JObj xs \<Rightarrow> xs | _ \<Rightarrow> []);
         automation = (case map_of root ''_automation'' of Some (JObj ys) \<Rightarrow> ys | _ \<Rightarrow> []);
         root' = obj_remove ''_automation'' root;
         automation' = (case trim_opt session_id of
            Some i \<Rightarrow> obj_insert ''background_session_id'' (JStr i) automation
          | None \<Rightarrow> obj_remove ''background_session_id'' automation)
     in JObj (if automation' = [] then root' else obj_insert ''_automation'' (JObj automation') root'))"

section \<open>Normalised texts\<close>

lemma length_truncate: "length (truncate_text v m) \<le> m + 3"
proof -
  have "length (trim (take m v @ ''...'')) \<le> m + 3"
    by (rule order_trans [OF length_trim]) simp
  moreover have "length (trim v) \<le> length v" by (rule length_trim)
  ultimately show ?thesis by (simp add: truncate_text_def)
qed

lemma trim_truncate [simp]: "trim (truncate_text v m) = truncate_text v m"
  by (simp add: truncate_text_def)

lemma truncate_nonempty: "trim v = v \<Longrightarrow> v \<noteq> [] \<Longrightarrow> truncate_text v m \<noteq> []"
proof (cases "length v \<le> m")
  case False
  have "CHR ''.'' \<in> set (trim (take m v @ ''...''))" by (rule trim_keeps) (auto simp: is_ws_def)
  with False show ?thesis by (auto simp: truncate_text_def)
qed (simp add: truncate_text_def)

definition text_fits :: "nat \<Rightarrow> string \<Rightarrow> bool" where
  "text_fits m s \<longleftrightarrow> trim s = s \<and> length s \<le> m + 3"

definition field_fits :: "nat \<Rightarrow> string option \<Rightarrow> bool" where
  "field_fits m v \<longleftrightarrow> (case v of None \<Rightarrow> True | Some s \<Rightarrow> s \<noteq> [] \<and> text_fits m s)"

lemma truncate_fits [intro, simp]: "text_fits m (truncate_text v m)"
  by (simp add: text_fits_def length_truncate)

lemma field_fits_None [simp]: "field_fits m None"
  by (simp add: field_fits_def)

lemma normalize_fits [intro, simp]: "field_fits m (normalize_text_field v m)"
  by (auto simp: field_fits_def normalize_text_field_def trim_opt_def truncate_nonempty
      split: option.splits if_splits)

lemma field_fits_mono: "m \<le> n \<Longrightarrow> field_fits m v \<Longrightarrow> field_fits n v"
  by (auto simp: field_fits_def text_fits_def split: option.splits)

lemma normalize_SomeD: "normalize_text_field v m = Some s \<Longrightarrow> text_fits m s \<and> s \<noteq> []"
  using normalize_fits [of m v] by (simp add: field_fits_def)

lemma derive_title_fits: "text_fits 180 (derive_title t obj)"
proof -
  have "text_fits 180 (truncate_text s 96)" for s
    using length_truncate [of s 96] by (simp add: text_fits_def)
  then show ?thesis by (auto simp: derive_title_def Let_def dest: normalize_SomeD split: option.splits)
qed

section \<open>Normalised lists\<close>

lemma first_occurrences_set: "set (first_occurrences seen vs) = set vs - set seen - {[]}"
  by (induction seen vs rule: first_occurrences.induct) auto

lemma first_occurrences_distinct: "distinct (first_occurrences seen vs)"
  by (induction seen vs rule: first_occurrences.induct) (auto simp: first_occurrences_set)

lemma first_occurrences_id:
  "distinct vs \<Longrightarrow> [] \<notin> set vs \<Longrightarrow> set vs \<inter> set seen = {} \<Longrightarrow> first_occurrences seen vs = vs"
  by (induction seen vs rule: first_occurrences.induct) auto

definition id_list_ok :: "string list \<Rightarrow> bool" where
  "id_list_ok vs \<longleftrightarrow> distinct vs \<and> (\<forall>v \<in> set vs. v \<noteq> [] \<and> trim v = v)"

lemma normalize_id_list_ok: "id_list_ok (normalize_id_list vs)"
  by (auto simp: id_list_ok_def normalize_id_list_def first_occurrences_set first_occurrences_distinct)

lemma normalize_id_list_id: "id_list_ok vs \<Longrightarrow> normalize_id_list vs = vs"
proof -
  assume ok: "id_list_ok vs"
  then have "map trim vs = vs" by (auto simp: id_list_ok_def intro: map_idI)
  with ok show ?thesis by (auto simp: normalize_id_list_def id_list_ok_def intro!: first_occurrences_id)
qed

lemma normalize_id_list_set: "set (normalize_id_list vs) = trim ` set vs - {[]}"
  by (simp add: normalize_id_list_def first_occurrences_set)

section \<open>Normalised policies\<close>

lemma split_char_parts: "p \<in> set (split_char c s) \<Longrightarrow> set p \<subseteq> set s - {c}"
  by (auto dest: split_on_parts)

lemma split_intercalate:
  "ps \<noteq> [] \<Longrightarrow> \<forall>p \<in> set ps. c \<notin> set p \<Longrightarrow> split_char c (intercalate [c] ps) = ps"
  by (rule split_on_intercalate) auto

lemma is_alnum_lower: "is_alnum (lower_char c) = is_alnum c"
proof -
  have "is_lower (char_of (of_char c + 32 :: nat))" if "is_upper c"
    using that by (auto simp: is_lower_def is_upper_def Let_def)
  then show ?thesis by (auto simp: lower_char_def is_alnum_def)
qed

lemma lower_char_idem: "lower_char (lower_char c) = lower_char c"
proof -
  have "\<not> is_upper (char_of (of_char c + 32 :: nat))" if "is_upper c"
    using that by (auto simp: is_upper_def Let_def)
  then show ?thesis by (auto simp: lower_char_def)
qed

text \<open>A normal policy value is made of lower-case letters, digits and single underscores.\<close>

definition plain_char :: "char \<Rightarrow> bool" where
  "plain_char c \<longleftrightarrow> is_alnum c \<and> lower_char c = c \<and> c \<noteq> CHR ''_''"

lemma underscore: "\<not> is_alnum CHR ''_''" "lower_char CHR ''_'' = CHR ''_''" "\<not> is_ws CHR ''_''"
  by (simp_all add: is_alnum_def is_lower_def is_upper_def is_digit_def lower_char_def is_ws_def)

lemma is_alnum_not_ws: "is_alnum c \<Longrightarrow> \<not> is_ws c"
  by (auto simp: is_alnum_def is_lower_def is_upper_def is_digit_def is_ws_def Let_def)

lemma policy_value_parts:
  obtains ps where "normalize_policy_value v = intercalate ''_'' ps" and "[] \<notin> set ps"
    and "\<forall>p \<in> set ps. \<forall>c \<in> set p. plain_char c"
proof -
  let ?s = "map (\<lambda>ch. if is_alnum ch then ch else CHR ''_'') (ascii_lower (trim v))"
  let ?ps = "filter (\<lambda>part. part \<noteq> []) (split_char CHR ''_'' ?s)"
  have "plain_char c" if "c \<in> set p" "p \<in> set ?ps" for c p
  proof -
    from that split_char_parts [of p "CHR ''_''" ?s] have "c \<in> set ?s" "c \<noteq> CHR ''_''" by auto
    then obtain x where "c = lower_char x" "is_alnum (lower_char x)"
      by (auto simp: ascii_lower_def split: if_splits)
    with \<open>c \<noteq> CHR ''_''\<close> show ?thesis by (simp add: plain_char_def lower_char_idem)
  qed
  then show thesis by (intro that [of ?ps]) (auto simp: normalize_policy_value_def)
qed

lemma normalize_policy_value_idem [simp]:
  "normalize_policy_value (normalize_policy_value v) = normalize_policy_value v"
proof -
  obtain ps where v: "normalize_policy_value v = intercalate ''_'' ps" and ne: "[] \<notin> set ps"
    and plain: "\<forall>p \<in> set ps. \<forall>c \<in> set p. plain_char c" by (rule policy_value_parts)
  let ?s = "intercalate ''_'' ps"
  have chars: "c = CHR ''_'' \<or> plain_char c" if "c \<in> set ?s" for c
    using that set_intercalate [of "''_''" ps] plain by auto
  have "trim ?s = ?s"
    using chars underscore(3) by (intro trim_no_ws) (auto simp: plain_char_def dest: is_alnum_not_ws)
  moreover have "ascii_lower ?s = ?s"
    using chars underscore(2) unfolding ascii_lower_def by (intro map_idI) (auto simp: plain_char_def)
  moreover have "map (\<lambda>ch. if is_alnum ch then ch else CHR ''_'') ?s = ?s"
    using chars underscore(1) by (intro map_idI) (auto simp: plain_char_def)
  moreover have "filter (\<lambda>part. part \<noteq> []) (split_char CHR ''_'' ?s) = ps"
  proof (cases "ps = []")
    case False
    with plain have "split_char CHR ''_'' ?s = ps"
      by (intro split_intercalate) (auto simp: plain_char_def)
    with ne show ?thesis by (metis (mono_tags, lifting) filter_True)
  qed simp
  ultimately show ?thesis unfolding v by (simp add: normalize_policy_value_def)
qed

lemma normalize_policy_values_set: "set (normalize_policy_values vs) = normalize_policy_value ` set vs - {[]}"
  by (simp add: normalize_policy_values_def first_occurrences_set)

lemma normalize_policy_values_idem [simp]:
  "normalize_policy_values (normalize_policy_values vs) = normalize_policy_values vs"
proof -
  have "map normalize_policy_value (normalize_policy_values vs) = normalize_policy_values vs"
    by (rule map_idI) (auto simp: normalize_policy_values_set)
  then show ?thesis
    using normalize_policy_values_set [of vs] first_occurrences_distinct
    by (simp add: normalize_policy_values_def first_occurrences_id)
qed

lemma policy_normalized_idem [simp]: "policy_normalized (policy_normalized p) = policy_normalized p"
  by (simp add: policy_normalized_def)

text \<open>
  What a stored policy allows. A role is allowed when every entry of the role list is blank
  after normalisation (an empty list among them), or when some entry and the role have the same
  normal form and it is not blank; likewise for the integration class. Case, punctuation and
  repeated separators of the request do not matter.
\<close>

theorem policy_allows_iff:
  "(policy_allows (policy_normalized p) role cls \<longleftrightarrow>
    ((\<forall>r \<in> set (bp_allowed_action_roles p). normalize_policy_value r = [])
       \<or> (\<exists>r \<in> set (bp_allowed_action_roles p).
             normalize_policy_value r = normalize_policy_value role \<and> normalize_policy_value role \<noteq> []))
    \<and> ((\<forall>c \<in> set (bp_allowed_integration_classes p). normalize_policy_value c = [])
       \<or> (\<exists>c \<in> set (bp_allowed_integration_classes p).
             normalize_policy_value c = normalize_policy_value cls \<and> normalize_policy_value cls \<noteq> [])))
   \<and> policy_allows p' (normalize_policy_value role) (normalize_policy_value cls) = policy_allows p' role cls"
proof -
  have empty: "normalize_policy_values vs = [] \<longleftrightarrow> (\<forall>v \<in> set vs. normalize_policy_value v = [])" for vs
    using normalize_policy_values_set [of vs] by (metis (no_types, lifting) Diff_eq_empty_iff image_subset_iff
        set_empty singletonD singletonI)
  have "normalize_policy_value x \<in> set (normalize_policy_values vs)
      \<longleftrightarrow> (\<exists>v \<in> set vs. normalize_policy_value v = normalize_policy_value x \<and> normalize_policy_value x \<noteq> [])" for x vs
    by (auto simp: normalize_policy_values_set) (metis imageI)
  with empty show ?thesis by (simp add: policy_allows_def policy_normalized_def Let_def)
qed

definition sample_policy :: session_policy where
  "sample_policy = \<lparr>bp_allowed_action_roles = [''Send-Mail'', '' ''], bp_allowed_integration_classes = [''!'']\<rparr>"

theorem policy_allows_iff_witness:
  "policy_allows (policy_normalized sample_policy) ''send mail'' ''anything''
   \<and> \<not> policy_allows (policy_normalized sample_policy) ''delete'' ''anything''"
proof -
  have n: "normalize_policy_value ''Send-Mail'' = ''send_mail''" "normalize_policy_value ''send mail'' = ''send_mail''"
    "normalize_policy_value ''delete'' = ''delete''" "normalize_policy_value '' '' = []" "normalize_policy_value ''!'' = []"
    by code_simp+
  then show ?thesis
    using policy_allows_iff [of sample_policy "''send mail''" "''anything''" sample_policy]
      policy_allows_iff [of sample_policy "''delete''" "''anything''" sample_policy]
    by (simp add: sample_policy_def)
qed

section \<open>The session id in task arguments\<close>

text \<open>A member of the automation settings of a task.\<close>

definition automation_member :: "string \<Rightarrow> json \<Rightarrow> json option" where
  "automation_member k args = (case json_get ''_automation'' args of Some a \<Rightarrow> json_get k a | None \<Rightarrow> None)"

text \<open>
  The session id in task arguments. Reading the id back after setting it gives the trimmed
  id, or nothing for a blank or missing one; setting it changes no other argument and no other
  automation setting. Arguments that are not an object become one.
\<close>

theorem automation_session_roundtrip:
  "background_session_id_from_automation (set_background_session_id_in_automation args sid) = trim_opt sid
   \<and> (\<forall>k. k \<noteq> ''_automation'' \<longrightarrow> json_get k (set_background_session_id_in_automation args sid) = json_get k args)
   \<and> (\<forall>k. k \<noteq> ''background_session_id'' \<longrightarrow>
        automation_member k (set_background_session_id_in_automation args sid) = automation_member k args)"
proof -
  let ?root = "case args of JObj xs \<Rightarrow> xs | _ \<Rightarrow> []"
  let ?auto = "case map_of ?root ''_automation'' of Some (JObj ys) \<Rightarrow> ys | _ \<Rightarrow> []"
  let ?new = "case trim_opt sid of Some i \<Rightarrow> obj_insert ''background_session_id'' (JStr i) ?auto
      | None \<Rightarrow> obj_remove ''background_session_id'' ?auto"
  have set: "set_background_session_id_in_automation args sid = JObj (if ?new = [] then obj_remove ''_automation'' ?root
      else obj_insert ''_automation'' (JObj ?new) (obj_remove ''_automation'' ?root))"
    by (simp add: set_background_session_id_in_automation_def Let_def)
  have root: "json_get k args = map_of ?root k" for k by (cases args) auto
  have auto: "automation_member k args = map_of ?auto k" for k
    by (auto simp: automation_member_def root split: option.splits json.splits)
  have new: "map_of ?new = (map_of ?auto)(''background_session_id'' := map_option JStr (trim_opt sid))"
    by (auto split: option.splits)
  have member: "automation_member k (set_background_session_id_in_automation args sid) = map_of ?new k" for k
    by (auto simp: automation_member_def set)
  have id: "background_session_id_from_automation j = (case automation_member ''background_session_id'' j of
      None \<Rightarrow> None | Some v \<Rightarrow> (case json_as_str v of None \<Rightarrow> None | Some s \<Rightarrow> trim_opt (Some s)))" for j
    by (simp add: background_session_id_from_automation_def automation_member_def split: option.splits)
  have "trim_opt (trim_opt sid) = trim_opt sid" by simp
  then have "background_session_id_from_automation (set_background_session_id_in_automation args sid) = trim_opt sid"
    unfolding id member new by (cases "trim_opt sid") simp_all
  moreover have "json_get k (set_background_session_id_in_automation args sid) = json_get k args" if "k \<noteq> ''_automation''" for k
    using that by (simp add: set root)
  moreover have "automation_member k (set_background_session_id_in_automation args sid) = automation_member k args"
    if "k \<noteq> ''background_session_id''" for k
    using that by (simp only: member new auto fun_upd_apply if_False)
  ultimately show ?thesis by blast
qed

theorem automation_session_roundtrip_witness:
  "background_session_id_from_automation
     (set_background_session_id_in_automation (JObj [(''a'', JNull)]) (Some '' s1 '')) = Some ''s1''
   \<and> json_get ''a'' (set_background_session_id_in_automation (JObj [(''a'', JNull)]) (Some '' s1 '')) = Some JNull"
proof -
  have "trim_opt (Some '' s1 '') = Some ''s1''"
    by (simp add: trim_opt_def trim_def trim_start_def trim_end_def is_ws_def)
  then show ?thesis
    using automation_session_roundtrip [of "JObj [(''a'', JNull)]" "Some '' s1 ''"] by simp
qed

end
