(* ===== verification/Storage_String.thy ===== *)
theory Storage_String
  imports Kv_Storage
begin

text \<open>
  Encrypted text columns: \<open>KeyManager::encrypt_string\<close> and \<open>decrypt_string\<close> of
  \<open>crypto/mod.rs\<close>, \<open>encrypt_storage_string\<close> and \<open>decrypt_storage_string\<close> of
  \<open>storage/mod.rs\<close>, and the test by which a value that could not be decrypted is replaced
  by a placeholder.

  The base64 crate and the UTF-8 codec are parameters next to the cipher; \<open>text_ok\<close> says
  that decoding inverts encoding.
\<close>

record 'b text_env =
  te_key :: "'b aead option"
  te_base64_encode :: "'b list \<Rightarrow> string"
  te_base64_decode :: "string \<Rightarrow> 'b list option"
  te_as_bytes :: "string \<Rightarrow> 'b list"
  te_from_utf8 :: "'b list \<Rightarrow> string option"

definition ENCRYPTED_STORAGE_UNAVAILABLE :: string where
  "ENCRYPTED_STORAGE_UNAVAILABLE = ''[Encrypted content unavailable]''"

definition km_encrypt_string :: "'b text_env \<Rightarrow> 'b aead \<Rightarrow> string \<Rightarrow> string result" where
  "km_encrypt_string te k plaintext =
     res_bind (km_encrypt k (te_as_bytes te plaintext)) (\<lambda>encrypted. Inr (te_base64_encode te encrypted))"

definition km_decrypt_string :: "'b text_env \<Rightarrow> 'b aead \<Rightarrow> string \<Rightarrow> string result" where
  "km_decrypt_string te k v = (case te_base64_decode te v of
     None \<Rightarrow> Inl (Err ''Invalid base64'')
   | Some encrypted \<Rightarrow> res_bind (km_decrypt k encrypted) (\<lambda>p. case te_from_utf8 te p of
        None \<Rightarrow> Inl (Err ''Invalid UTF-8'') | Some s \<Rightarrow> Inr s))"

definition encrypt_storage_string :: "'b text_env \<Rightarrow> string \<Rightarrow> string result" where
  "encrypt_storage_string te v = (if v = [] then Inr []
     else (case te_key te of Some k \<Rightarrow> km_encrypt_string te k v | None \<Rightarrow> Inr v))"

definition base64_char :: "char \<Rightarrow> bool" where
  "base64_char c \<longleftrightarrow> is_lower c \<or> is_upper c \<or> is_digit c \<or> c \<in> set ''+/=-_''"

fun pad_to_4 :: "nat \<Rightarrow> string" where
  "pad_to_4 n = (if n mod 4 = 0 then '''' else replicate (4 - n mod 4) CHR ''='')"

definition decode_storage_ciphertext_bytes :: "'b text_env \<Rightarrow> string \<Rightarrow> 'b list option" where
  "decode_storage_ciphertext_bytes te v = (let trimmed = trim v in
     if length trimmed < 24 \<or> list_ex is_ws trimmed then None
     else if \<not> list_all base64_char trimmed then None
     else te_base64_decode te (trimmed @ pad_to_4 (length trimmed)))"

definition looks_like_encrypted_storage_string :: "'b text_env \<Rightarrow> string \<Rightarrow> bool" where
  "looks_like_encrypted_storage_string te v = (case decode_storage_ciphertext_bytes te v of
     Some bytes \<Rightarrow> length bytes \<ge> 24 | None \<Rightarrow> False)"

definition decrypt_storage_string :: "'b text_env \<Rightarrow> string \<Rightarrow> string" where
  "decrypt_storage_string te v = (if v = [] then []
     else (case (case te_key te of Some k \<Rightarrow> km_decrypt_string te k v | None \<Rightarrow> Inl (Err ''no key'')) of
        Inr p \<Rightarrow> p
      | Inl _ \<Rightarrow> if looks_like_encrypted_storage_string te v then ENCRYPTED_STORAGE_UNAVAILABLE else v))"

definition text_ok :: "'b text_env \<Rightarrow> bool" where
  "text_ok te \<longleftrightarrow> km_ok (te_key te)
     \<and> (\<forall>bs. te_base64_decode te (te_base64_encode te bs) = Some bs)
     \<and> (\<forall>bs. bs \<noteq> [] \<longrightarrow> te_base64_encode te bs \<noteq> [])
     \<and> (\<forall>s. te_from_utf8 te (te_as_bytes te s) = Some s)"

lemma km_string_roundtrip:
  assumes "text_ok te" and "te_key te = Some k"
  obtains e where "km_encrypt_string te k p = Inr e" and "e \<noteq> []" and "km_decrypt_string te k e = Inr p"
proof -
  from assms have k: "aead_ok k" by (simp add: text_ok_def km_ok_def)
  from km_encrypt_total [OF k, of "te_as_bytes te p"] obtain c
    where c: "km_encrypt k (te_as_bytes te p) = Inr c" "c \<noteq> []" by blast
  from km_decrypt_encrypt [OF k c(1)] have "km_decrypt k c = Inr (te_as_bytes te p)" .
  with c assms(1) show thesis
    by (intro that [of "te_base64_encode te c"]) (simp_all add: km_encrypt_string_def km_decrypt_string_def text_ok_def)
qed

lemma encrypt_storage_string_total: "text_ok te \<Longrightarrow> \<exists>e. encrypt_storage_string te v = Inr e"
  by (cases "te_key te") (auto simp: encrypt_storage_string_def elim: km_string_roundtrip)

text \<open>
  Text that contains a character outside the base64 alphabet, such as every JSON object,
  survives the round trip with and without a key.
\<close>

lemma plain_not_encrypted:
  "c \<in> set v \<Longrightarrow> \<not> base64_char c \<Longrightarrow> \<not> is_ws c \<Longrightarrow> \<not> looks_like_encrypted_storage_string te v"
  using trim_keeps [of c v]
  by (auto simp: looks_like_encrypted_storage_string_def decode_storage_ciphertext_bytes_def Let_def list_all_iff)

lemma storage_string_roundtrip:
  assumes "text_ok te" and c: "c \<in> set v" "\<not> base64_char c" "\<not> is_ws c"
    and "encrypt_storage_string te v = Inr e"
  shows "decrypt_storage_string te e = v"
proof (cases "te_key te")
  case None
  with assms(5) have "e = v" by (simp add: encrypt_storage_string_def split: if_splits)
  then show ?thesis using None plain_not_encrypted [OF c, of te] by (simp add: decrypt_storage_string_def)
next
  case (Some k)
  from km_string_roundtrip [OF assms(1) Some] obtain e'
    where e': "km_encrypt_string te k v = Inr e'" "e' \<noteq> []" "km_decrypt_string te k e' = Inr v" by blast
  from c(1) have "v \<noteq> []" by auto
  with assms(5) Some e' have "e = e'" by (simp add: encrypt_storage_string_def)
  with e' Some show ?thesis by (simp add: decrypt_storage_string_def)
qed

text \<open>For closed examples: no key, and texts are their own bytes.\<close>

definition plain_text_env :: "char text_env" where
  "plain_text_env = \<lparr>te_key = None, te_base64_encode = id, te_base64_decode = Some, te_as_bytes = id, te_from_utf8 = Some\<rparr>"

lemma plain_text_ok: "text_ok plain_text_env"
  by (simp add: plain_text_env_def text_ok_def km_ok_def)

lemma plain_encrypt [simp]: "encrypt_storage_string plain_text_env v = Inr v"
  by (simp add: encrypt_storage_string_def plain_text_env_def)

end
