(* ===== verification/Session_Manager.thy ===== *)
theory Session_Manager
  imports Session_Record Storage_String "HOL-Library.AList"
begin

text \<open>
  The background session manager of \<open>core/automation/background_session.rs\<close> and its rows,
  \<open>storage/repositories/automation.rs\<close> and \<open>storage/entities/background_session.rs\<close>.

  The manager keeps the sessions in a hash map behind a lock and mirrors them to rows. The map
  is an association list with distinct keys, whose order stands for the map's iteration order.
  Every operation has two parts: one under the lock, which returns a result and what is left to
  store (a \<open>bs_task\<close>), and the storing, after the lock is released. \<open>run_op\<close> composes
  them; in \<open>bs_step\<close> the storing of different operations interleaves. serde is a parameter
  (\<open>se_write\<close>, \<open>se_read\<close>, the codec of the legacy document).
\<close>

section \<open>Rows\<close>

record session_row =
  sr_id :: string
  sr_status :: string
  sr_conversation_id :: "string option"
  sr_project_id :: "string option"
  sr_created_at :: string
  sr_updated_at :: string
  sr_last_activity_at :: string
  sr_payload :: string

record 'b se_tables =
  se_kv :: "'b kv_table"
  se_rows :: "session_row list"

type_synonym 'b se_db = "'b se_tables db"

record 'b se_env =
  se_text :: "'b text_env"
  se_chrono :: chrono
  se_write :: "background_session \<Rightarrow> string option"
  se_read :: "string \<Rightarrow> background_session option"
  se_legacy :: "(background_session list, 'b) codec"

definition LEGACY_STORAGE_KEY :: string where "LEGACY_STORAGE_KEY = ''background_sessions:v1''"

definition on_kv :: "('b kv_db, 'a) io \<Rightarrow> ('b se_db, 'a) io" where
  "on_kv m d = (case m \<lparr>tables = se_kv (tables d), faults = faults d\<rparr> of
     (r, d') \<Rightarrow> (r, d\<lparr>tables := (tables d)\<lparr>se_kv := tables d'\<rparr>, faults := faults d'\<rparr>))"

definition decode_row :: "'b se_env \<Rightarrow> session_row \<Rightarrow> background_session option" where
  "decode_row env row = (case se_read env (decrypt_storage_string (se_text env) (sr_payload row)) of
     Some session \<Rightarrow> Some (session\<lparr>bs_policy := policy_normalized (bs_policy session)\<rparr>)
   | None \<Rightarrow> None)"

definition storage_list_sessions :: "'b se_env \<Rightarrow> ('b se_db, background_session list) io" where
  "storage_list_sessions env = bindE (stmt (\<lambda>t. (rev (sort_key sr_updated_at (rev (se_rows t))), t)))
     (\<lambda>rows. ret (List.map_filter (decode_row env) rows))"

definition put_row :: "session_row \<Rightarrow> session_row list \<Rightarrow> session_row list" where
  "put_row row rows = (if \<exists>r \<in> set rows. sr_id r = sr_id row
     then map (\<lambda>r. if sr_id r = sr_id row then row\<lparr>sr_created_at := sr_created_at r\<rparr> else r) rows
     else rows @ [row])"

definition storage_upsert_session :: "'b se_env \<Rightarrow> background_session \<Rightarrow> ('b se_db, unit) io" where
  "storage_upsert_session env s = (case se_write env s of
     None \<Rightarrow> fail (Err ''serialization failed'')
   | Some text \<Rightarrow> bindE (lift_result (encrypt_storage_string (se_text env) text)) (\<lambda>payload.
       stmt (\<lambda>t. ((), t\<lparr>se_rows := put_row \<lparr>sr_id = bs_id s, sr_status = status_label (bs_status s),
          sr_conversation_id = bs_conversation_id s, sr_project_id = bs_project_id s,
          sr_created_at = to_rfc3339 (se_chrono env) (bs_created_at s),
          sr_updated_at = to_rfc3339 (se_chrono env) (bs_updated_at s),
          sr_last_activity_at = to_rfc3339 (se_chrono env) (bs_last_activity_at s),
          sr_payload = payload\<rparr> (se_rows t)\<rparr>))))"

definition storage_delete_session :: "string \<Rightarrow> ('b se_db, unit) io" where
  "storage_delete_session i = stmt (\<lambda>t. ((), t\<lparr>se_rows := filter (\<lambda>r. sr_id r \<noteq> i) (se_rows t)\<rparr>))"

section \<open>The manager\<close>

type_synonym session_map = "(string \<times> background_session) list"

record 'b bs_manager =
  bm_sessions :: session_map
  bm_stored :: bool
  bm_db :: "'b se_db"

definition normalize_session_map :: "background_session list \<Rightarrow> session_map" where
  "normalize_session_map items = foldl (\<lambda>m s. AList.update (bs_id s)
     (s\<lparr>bs_policy := policy_normalized (bs_policy s)\<rparr>) m) [] items"

definition load_legacy_background_sessions :: "'b se_env \<Rightarrow> 'b se_db \<Rightarrow> session_map \<times> 'b se_db" where
  "load_legacy_background_sessions env d = (case on_kv (kv_get LEGACY_STORAGE_KEY) d of
     (Inr (Some raw), d') \<Rightarrow> (case from_slice (se_legacy env) raw of
        Some items \<Rightarrow> (normalize_session_map items, d')
      | None \<Rightarrow> ([], d'))
   | (Inr None, d') \<Rightarrow> ([], d')
   | (Inl _, d') \<Rightarrow> ([], d'))"

definition upsert_all :: "'b se_env \<Rightarrow> background_session list \<Rightarrow> 'b se_db \<Rightarrow> 'b se_db" where
  "upsert_all env ss d = foldl (\<lambda>d s. snd (storage_upsert_session env s d)) d ss"

definition manager_new :: "'b se_env \<Rightarrow> bool \<Rightarrow> 'b se_db \<Rightarrow> 'b bs_manager" where
  "manager_new env stored d = (if \<not> stored then \<lparr>bm_sessions = [], bm_stored = False, bm_db = d\<rparr>
     else (case storage_list_sessions env d of
        (Inr items, d1) \<Rightarrow>
          (if items \<noteq> [] then \<lparr>bm_sessions = normalize_session_map items, bm_stored = True, bm_db = d1\<rparr>
           else (case load_legacy_background_sessions env d1 of (legacy, d2) \<Rightarrow>
             (if legacy \<noteq> []
              then \<lparr>bm_sessions = legacy, bm_stored = True,
                    bm_db = snd (on_kv (kv_delete LEGACY_STORAGE_KEY) (upsert_all env (map snd legacy) d2))\<rparr>
              else \<lparr>bm_sessions = legacy, bm_stored = True, bm_db = d2\<rparr>)))
      | (Inl _, d1) \<Rightarrow> (case load_legacy_background_sessions env d1 of (legacy, d2) \<Rightarrow>
          \<lparr>bm_sessions = legacy, bm_stored = True, bm_db = d2\<rparr>)))"

definition persist_session :: "'b se_env \<Rightarrow> background_session \<Rightarrow> 'b bs_manager \<Rightarrow> 'b bs_manager" where
  "persist_session env s st = (if \<not> bm_stored st then st
     else st\<lparr>bm_db := snd (storage_upsert_session env s (bm_db st))\<rparr>)"

definition persist_sessions :: "'b se_env \<Rightarrow> background_session list \<Rightarrow> 'b bs_manager \<Rightarrow> 'b bs_manager" where
  "persist_sessions env ss st = (if ss = [] then st else if \<not> bm_stored st then st
     else st\<lparr>bm_db := upsert_all env ss (bm_db st)\<rparr>)"

definition delete_persisted_session :: "string \<Rightarrow> 'b bs_manager \<Rightarrow> 'b bs_manager" where
  "delete_persisted_session i st = (if \<not> bm_stored st then st
     else st\<lparr>bm_db := snd (storage_delete_session i (bm_db st))\<rparr>)"

definition persist_changed_ids :: "'b se_env \<Rightarrow> string list \<Rightarrow> 'b bs_manager \<Rightarrow> 'b bs_manager" where
  "persist_changed_ids env changed_ids st = (if changed_ids = [] then st
     else persist_sessions env (List.map_filter (map_of (bm_sessions st)) changed_ids) st)"

section \<open>Queries\<close>

definition list_sessions :: "session_map \<Rightarrow> background_session list" where
  "list_sessions m = sort_key (\<lambda>s. - bs_updated_at s) (map snd m)"

definition get_session :: "string \<Rightarrow> session_map \<Rightarrow> background_session option" where
  "get_session i m = (if trim i = [] then None else map_of m (trim i))"

definition list_for_conversation :: "string \<Rightarrow> bool \<Rightarrow> session_map \<Rightarrow> background_session list" where
  "list_for_conversation conversation_id include_closed m = (let c = trim conversation_id in
     if c = [] then []
     else sort_key (\<lambda>s. - bs_updated_at s) (filter (\<lambda>s. (include_closed \<or> \<not> is_closed (bs_status s))
        \<and> map_option trim (bs_conversation_id s) = Some c) (map snd m)))"

section \<open>Operations on one session\<close>

text \<open>
  Each operation is a function of the session it finds: \<open>None\<close> when it leaves the session
  as it was, else the changed session.
\<close>

definition touch :: "stamp \<Rightarrow> string \<Rightarrow> string \<Rightarrow> string option \<Rightarrow> string option
    \<Rightarrow> background_session \<Rightarrow> background_session" where
  "touch sp kind summary detail actor s = s\<lparr>bs_updated_at := sp_now sp, bs_last_activity_at := sp_now sp,
     bs_events := push_event (bs_events s) (build_event sp kind summary detail actor)\<rparr>"

definition maybe_update_text :: "(background_session \<Rightarrow> string option)
    \<Rightarrow> (string option \<Rightarrow> background_session \<Rightarrow> background_session)
    \<Rightarrow> string option \<Rightarrow> string \<Rightarrow> nat \<Rightarrow> background_session \<times> string list \<Rightarrow> background_session \<times> string list" where
  "maybe_update_text slot set_slot next_value label max_chars sc = (case sc of (s, changed) \<Rightarrow>
     (case next_value of None \<Rightarrow> (s, changed)
      | Some raw \<Rightarrow> (let normalized = normalize_text_field (Some raw) max_chars in
          if slot s \<noteq> normalized then (set_slot normalized s, changed @ [label]) else (s, changed))))"

definition update_title :: "string option \<Rightarrow> background_session \<times> string list \<Rightarrow> background_session \<times> string list" where
  "update_title v sc = (case sc of (s, changed) \<Rightarrow> (case normalize_text_field v 180 of
     Some title \<Rightarrow> (if title \<noteq> bs_title s then (s\<lparr>bs_title := title\<rparr>, changed @ [''title'']) else (s, changed))
   | None \<Rightarrow> (s, changed)))"

definition update_objective :: "string option \<Rightarrow> background_session \<times> string list \<Rightarrow> background_session \<times> string list" where
  "update_objective v sc = (case sc of (s, changed) \<Rightarrow> (case normalize_text_field v 600 of
     Some objective \<Rightarrow> (if objective \<noteq> bs_objective s
        then (s\<lparr>bs_objective := objective\<rparr>, changed @ [''objective'']) else (s, changed))
   | None \<Rightarrow> (s, changed)))"

definition update_status :: "session_status option \<Rightarrow> background_session \<times> string list \<Rightarrow> background_session \<times> string list" where
  "update_status v sc = (case sc of (s, changed) \<Rightarrow> (case v of
     Some status \<Rightarrow> (if status \<noteq> bs_status s then (s\<lparr>bs_status := status\<rparr>, changed @ [''status'']) else (s, changed))
   | None \<Rightarrow> (s, changed)))"

definition update_policy :: "session_policy option \<Rightarrow> background_session \<times> string list \<Rightarrow> background_session \<times> string list" where
  "update_policy v sc = (case sc of (s, changed) \<Rightarrow> (case v of
     Some p \<Rightarrow> (let policy = policy_normalized p in
        if policy \<noteq> bs_policy s then (s\<lparr>bs_policy := policy\<rparr>, changed @ [''policy'']) else (s, changed))
   | None \<Rightarrow> (s, changed)))"

definition update_fields :: "session_update \<Rightarrow> background_session \<Rightarrow> background_session \<times> string list" where
  "update_fields req s =
    update_policy (bu_policy req)
    (maybe_update_text bs_preferred_delivery_channel (\<lambda>v s. s\<lparr>bs_preferred_delivery_channel := v\<rparr>)
       (bu_preferred_delivery_channel req) ''preferred_delivery_channel'' 120
    (maybe_update_text bs_last_error (\<lambda>v s. s\<lparr>bs_last_error := v\<rparr>) (bu_last_error req) ''last_error'' MAX_TEXT_CHARS
    (maybe_update_text bs_working_memory (\<lambda>v s. s\<lparr>bs_working_memory := v\<rparr>)
       (bu_working_memory req) ''working_memory'' MAX_WORKING_MEMORY_CHARS
    (maybe_update_text bs_next_expected_action (\<lambda>v s. s\<lparr>bs_next_expected_action := v\<rparr>)
       (bu_next_expected_action req) ''next_expected_action'' MAX_TEXT_CHARS
    (maybe_update_text bs_waiting_on (\<lambda>v s. s\<lparr>bs_waiting_on := v\<rparr>) (bu_waiting_on req) ''waiting_on'' MAX_TEXT_CHARS
    (maybe_update_text bs_current_focus (\<lambda>v s. s\<lparr>bs_current_focus := v\<rparr>)
       (bu_current_focus req) ''current_focus'' MAX_TEXT_CHARS
    (maybe_update_text bs_summary (\<lambda>v s. s\<lparr>bs_summary := v\<rparr>) (bu_summary req) ''summary'' MAX_TEXT_CHARS
    (update_status (bu_status req)
    (update_objective (bu_objective req)
    (update_title (bu_title req) (s, [])))))))))))"

definition update_session :: "session_update \<Rightarrow> stamp \<Rightarrow> string option \<Rightarrow> background_session \<Rightarrow> background_session option" where
  "update_session req sp actor s = (case update_fields req s of (s', changed_fields) \<Rightarrow>
     (if changed_fields = [] then None
      else Some (touch sp ''updated'' ''Session details updated.''
             (Some (''Changed: '' @ intercalate '', '' changed_fields)) actor s')))"

definition set_session_status :: "session_status \<Rightarrow> string \<Rightarrow> stamp \<Rightarrow> string option
    \<Rightarrow> background_session \<Rightarrow> background_session option" where
  "set_session_status status summary sp actor s = (if bs_status s = status then None
     else Some (touch sp ''status_changed'' summary None actor (s\<lparr>bs_status := status\<rparr>)))"

text \<open>A field that an operation fills in only when it has something new to say.\<close>

definition fill :: "(background_session \<Rightarrow> string option)
    \<Rightarrow> (string option \<Rightarrow> background_session \<Rightarrow> background_session)
    \<Rightarrow> string option \<Rightarrow> background_session \<times> bool \<Rightarrow> background_session \<times> bool" where
  "fill slot set_slot v sc = (case sc of (s, changed) \<Rightarrow>
     (if v \<noteq> None \<and> slot s \<noteq> v then (set_slot v s, True) else (s, changed)))"

definition bind_runtime_context :: "string option \<Rightarrow> string option \<Rightarrow> stamp \<Rightarrow> string option
    \<Rightarrow> background_session \<Rightarrow> background_session option" where
  "bind_runtime_context channel conversation_id sp actor s =
    (case fill bs_conversation_id (\<lambda>v s. s\<lparr>bs_conversation_id := v\<rparr>) (normalize_text_field conversation_id 120)
         (fill bs_channel (\<lambda>v s. s\<lparr>bs_channel := v\<rparr>) (normalize_text_field channel 80) (s, False)) of
       (s', changed) \<Rightarrow> (if \<not> changed then None
          else Some (touch sp ''bound'' ''Background session linked to the current runtime context.'' None actor s')))"

definition apply_chat_turn :: "string \<Rightarrow> string \<Rightarrow> string option \<Rightarrow> stamp \<Rightarrow> string option
    \<Rightarrow> background_session \<Rightarrow> background_session option" where
  "apply_chat_turn user_message assistant_response next_expected_action sp actor s =
    (let sc1 = fill bs_current_focus (\<lambda>v s. s\<lparr>bs_current_focus := v\<rparr>)
                 (normalize_text_field (Some user_message) MAX_TEXT_CHARS) (s, False);
         sc2 = (case sc1 of (s, changed) \<Rightarrow>
                 (if bs_waiting_on s \<noteq> None then (s\<lparr>bs_waiting_on := None\<rparr>, True) else (s, changed)));
         response_preview = normalize_text_field (Some assistant_response) 420;
         sc3 = (case sc2 of (s, changed) \<Rightarrow>
                 (if response_preview \<noteq> None \<and> bs_summary s = None
                  then (s\<lparr>bs_summary := response_preview\<rparr>, True) else (s, changed)))
     in case fill bs_next_expected_action (\<lambda>v s. s\<lparr>bs_next_expected_action := v\<rparr>)
               (normalize_text_field next_expected_action 320) sc3 of
          (s', changed) \<Rightarrow> (if \<not> changed then None
             else Some (touch sp ''chat_turn'' ''Background session updated from the latest chat turn.'' None actor s')))"

definition record_consolidation :: "string option \<Rightarrow> string \<Rightarrow> string option \<Rightarrow> stamp \<Rightarrow> string option
    \<Rightarrow> background_session \<Rightarrow> background_session option" where
  "record_consolidation summary working_memory next_expected_action sp actor s =
    (let normalized_memory = normalize_text_field (Some working_memory) MAX_WORKING_MEMORY_CHARS;
         sc1 = fill bs_summary (\<lambda>v s. s\<lparr>bs_summary := v\<rparr>) (normalize_text_field summary MAX_TEXT_CHARS) (s, False);
         sc2 = (case sc1 of (s, changed) \<Rightarrow>
                 (if bs_working_memory s \<noteq> normalized_memory
                  then (s\<lparr>bs_working_memory := normalized_memory\<rparr>, True) else (s, changed)))
     in case fill bs_next_expected_action (\<lambda>v s. s\<lparr>bs_next_expected_action := v\<rparr>)
               (normalize_text_field next_expected_action 320) sc2 of
          (s', changed) \<Rightarrow>
            (if \<not> changed \<and> (case bs_last_consolidated_at s' of Some v \<Rightarrow> sp_now sp - v < secs 60 | None \<Rightarrow> False)
             then None
             else Some (touch sp ''consolidated'' ''Background session memory consolidated from recent evidence.''
                    None actor (s'\<lparr>bs_last_consolidated_at := Some (sp_now sp)\<rparr>))))"

fun attach_ids :: "string list \<Rightarrow> string list \<times> bool \<Rightarrow> string list \<times> bool" where
  "attach_ids [] (linked, changed) = (linked, changed)"
| "attach_ids (i # ids) (linked, changed) = (if i \<in> set linked then attach_ids ids (linked, changed)
     else attach_ids ids (linked @ [i], True))"

definition attach_items :: "string list \<Rightarrow> string list \<Rightarrow> stamp \<Rightarrow> string option
    \<Rightarrow> background_session \<Rightarrow> background_session option" where
  "attach_items task_ids watcher_ids sp actor s =
    (case attach_ids (normalize_id_list task_ids) (bs_linked_task_ids s, False) of (tasks, changed1) \<Rightarrow>
      (case attach_ids (normalize_id_list watcher_ids) (bs_linked_watcher_ids s, changed1) of (watchers, changed) \<Rightarrow>
        (if \<not> changed then None
         else Some (touch sp ''attached'' ''Linked work added to the session.'' None actor
                (s\<lparr>bs_linked_task_ids := tasks, bs_linked_watcher_ids := watchers\<rparr>)))))"

definition unlink :: "string list \<Rightarrow> string list \<Rightarrow> background_session \<Rightarrow> background_session" where
  "unlink task_ids watcher_ids s =
     s\<lparr>bs_linked_task_ids := filter (\<lambda>v. v \<notin> set task_ids) (bs_linked_task_ids s),
       bs_linked_watcher_ids := filter (\<lambda>v. v \<notin> set watcher_ids) (bs_linked_watcher_ids s)\<rparr>"

definition same_links :: "background_session \<Rightarrow> background_session \<Rightarrow> bool" where
  "same_links s s' \<longleftrightarrow> length (bs_linked_task_ids s') = length (bs_linked_task_ids s)
     \<and> length (bs_linked_watcher_ids s') = length (bs_linked_watcher_ids s)"

definition detach_items :: "string list \<Rightarrow> string list \<Rightarrow> stamp \<Rightarrow> string option
    \<Rightarrow> background_session \<Rightarrow> background_session option" where
  "detach_items task_ids watcher_ids sp actor s =
    (let s' = unlink (normalize_id_list task_ids) (normalize_id_list watcher_ids) s in
     if same_links s s' then None
     else Some (touch sp ''detached'' ''Linked work removed from the session.'' None actor s'))"

text \<open>
  The part of \<open>remove_child_references\<close> for one session: \<open>None\<close> when it links none of the
  items. A session left without linked work is completed, with an event of its own.
\<close>

definition rebind_session :: "string list \<Rightarrow> string list \<Rightarrow> stamp \<Rightarrow> stamp \<Rightarrow> string option
    \<Rightarrow> background_session \<Rightarrow> background_session option" where
  "rebind_session task_ids watcher_ids sp sp2 actor s =
    (let s' = unlink task_ids watcher_ids s in
     if same_links s s' then None
     else (let s1 = touch sp ''rebound'' ''Linked work was moved or removed.'' None actor s' in
       Some (if bs_linked_task_ids s1 = [] \<and> bs_linked_watcher_ids s1 = [] \<and> \<not> is_closed (bs_status s1)
         then s1\<lparr>bs_status := SCompleted, bs_events := push_event (bs_events s1)
             (build_event sp2 ''completed'' ''Background session closed after all linked work moved elsewhere.'' None actor)\<rparr>
         else s1)))"

section \<open>Operations of the manager\<close>

datatype bs_task = WriteSession background_session | WriteChanged "string list" | DeleteRow string

definition modify_session :: "string \<Rightarrow> (background_session \<Rightarrow> background_session option)
    \<Rightarrow> session_map \<Rightarrow> background_session option \<times> bs_task option \<times> session_map" where
  "modify_session i f m = (case map_of m (trim i) of
     None \<Rightarrow> (None, None, m)
   | Some s \<Rightarrow> (case f s of
        None \<Rightarrow> (Some s, None, m)
      | Some s' \<Rightarrow> (Some s', Some (WriteSession s'), AList.update (trim i) s' m)))"

definition create_session :: "session_create \<Rightarrow> string \<Rightarrow> stamp \<Rightarrow> string option
    \<Rightarrow> session_map \<Rightarrow> background_session option \<times> bs_task option \<times> session_map" where
  "create_session req new_id sp actor m =
    (let objective = truncate_text (trim (bc_objective req)) 600;
         s = \<lparr>bs_id = new_id, bs_title = derive_title (bc_title req) objective, bs_objective = objective,
           bs_status = Active,
           bs_summary = normalize_text_field (bc_summary req) MAX_TEXT_CHARS,
           bs_current_focus = normalize_text_field (bc_current_focus req) MAX_TEXT_CHARS,
           bs_waiting_on = normalize_text_field (bc_waiting_on req) MAX_TEXT_CHARS,
           bs_next_expected_action = normalize_text_field (bc_next_expected_action req) MAX_TEXT_CHARS,
           bs_working_memory = normalize_text_field (bc_working_memory req) MAX_WORKING_MEMORY_CHARS,
           bs_last_error = None,
           bs_preferred_delivery_channel = normalize_text_field (bc_preferred_delivery_channel req) 120,
           bs_channel = normalize_text_field (bc_channel req) 80,
           bs_conversation_id = normalize_text_field (bc_conversation_id req) 120,
           bs_project_id = None,
           bs_linked_task_ids = normalize_id_list (bc_task_ids req),
           bs_linked_watcher_ids = normalize_id_list (bc_watcher_ids req),
           bs_policy = policy_normalized (bc_policy req),
           bs_created_at = sp_now sp, bs_updated_at = sp_now sp, bs_last_activity_at = sp_now sp,
           bs_last_consolidated_at = None,
           bs_events = push_event [] (build_event sp ''created'' ''Background session created.'' None actor)\<rparr>
     in (Some s, Some (WriteSession s), AList.update (bs_id s) s m))"

definition remove_child_references :: "string list \<Rightarrow> string list \<Rightarrow> (string \<Rightarrow> stamp \<times> stamp) \<Rightarrow> string option
    \<Rightarrow> session_map \<Rightarrow> background_session option \<times> bs_task option \<times> session_map" where
  "remove_child_references task_ids0 watcher_ids0 stamps actor m =
    (let task_ids = normalize_id_list task_ids0; watcher_ids = normalize_id_list watcher_ids0 in
     if task_ids = [] \<and> watcher_ids = [] then (None, None, m)
     else (let rebind = (\<lambda>k s. rebind_session task_ids watcher_ids (fst (stamps k)) (snd (stamps k)) actor s);
               changed_ids = map bs_id (List.map_filter (\<lambda>(k, s). rebind k s) m);
               m' = map (\<lambda>(k, s). (k, case rebind k s of Some s' \<Rightarrow> s' | None \<Rightarrow> s)) m
       in (None, if changed_ids = [] then None else Some (WriteChanged changed_ids), m')))"

definition delete_session :: "string \<Rightarrow> session_map \<Rightarrow> background_session option \<times> bs_task option \<times> session_map" where
  "delete_session i m = (let normalized = trim i; removed = map_of m normalized in
     (removed, if removed \<noteq> None then Some (DeleteRow normalized) else None, AList.delete normalized m))"

datatype bs_op =
    Create session_create string stamp "string option"
  | Update string session_update stamp "string option"
  | SetStatus string session_status string stamp "string option"
  | Bind string "string option" "string option" stamp "string option"
  | ChatTurn string string string "string option" stamp "string option"
  | Consolidate string "string option" string "string option" stamp "string option"
  | Attach string "string list" "string list" stamp "string option"
  | Detach string "string list" "string list" stamp "string option"
  | RemoveChildren "string list" "string list" "string \<Rightarrow> stamp \<times> stamp" "string option"
  | Delete string

fun locked_part :: "bs_op \<Rightarrow> session_map \<Rightarrow> background_session option \<times> bs_task option \<times> session_map" where
  "locked_part (Create req new_id sp actor) m = create_session req new_id sp actor m"
| "locked_part (Update i req sp actor) m = modify_session i (update_session req sp actor) m"
| "locked_part (SetStatus i status summary sp actor) m = modify_session i (set_session_status status summary sp actor) m"
| "locked_part (Bind i channel conversation sp actor) m = modify_session i (bind_runtime_context channel conversation sp actor) m"
| "locked_part (ChatTurn i user reply next_action sp actor) m = modify_session i (apply_chat_turn user reply next_action sp actor) m"
| "locked_part (Consolidate i summary memory next_action sp actor) m =
     modify_session i (record_consolidation summary memory next_action sp actor) m"
| "locked_part (Attach i tasks watchers sp actor) m = modify_session i (attach_items tasks watchers sp actor) m"
| "locked_part (Detach i tasks watchers sp actor) m = modify_session i (detach_items tasks watchers sp actor) m"
| "locked_part (RemoveChildren tasks watchers stamps actor) m = remove_child_references tasks watchers stamps actor m"
| "locked_part (Delete i) m = delete_session i m"

fun store_part :: "'b se_env \<Rightarrow> bs_task option \<Rightarrow> 'b bs_manager \<Rightarrow> 'b bs_manager" where
  "store_part env None st = st"
| "store_part env (Some (WriteSession s)) st = persist_session env s st"
| "store_part env (Some (WriteChanged ids)) st = persist_changed_ids env ids st"
| "store_part env (Some (DeleteRow i)) st = delete_persisted_session i st"

definition run_op :: "'b se_env \<Rightarrow> bs_op \<Rightarrow> 'b bs_manager \<Rightarrow> background_session option \<times> 'b bs_manager" where
  "run_op env op1 st = (case locked_part op1 (bm_sessions st) of (r, t, m) \<Rightarrow>
     (r, store_part env t (st\<lparr>bm_sessions := m\<rparr>)))"

definition run_ops :: "'b se_env \<Rightarrow> bs_op list \<Rightarrow> 'b bs_manager \<Rightarrow> 'b bs_manager" where
  "run_ops env ops st = foldl (\<lambda>st op1. snd (run_op env op1 st)) st ops"

text \<open>
  Interleaving: an operation takes its locked part and leaves a task; tasks run in any order,
  the ids of a bulk write being read anew when it runs; the process may stop, which loses the
  tasks, and start again from the rows.
\<close>

inductive bs_step :: "'b se_env \<Rightarrow> 'b bs_manager \<times> bs_task list \<Rightarrow> 'b bs_manager \<times> bs_task list \<Rightarrow> bool"
  for env where
  locked: "locked_part op1 (bm_sessions st) = (r, t, m) \<Longrightarrow>
     bs_step env (st, q) (st\<lparr>bm_sessions := m\<rparr>, q @ (case t of Some task \<Rightarrow> [task] | None \<Rightarrow> []))"
| store: "bs_step env (st, q1 @ task # q2) (store_part env (Some task) st, q1 @ q2)"
| snapshot: "bs_step env (st, q1 @ WriteChanged ids # q2)
     (st, q1 @ map WriteSession (List.map_filter (map_of (bm_sessions st)) ids) @ q2)"
| restart: "bs_step env (st, q) (manager_new env (bm_stored st) (bm_db st), [])"

inductive_cases bs_stepE: "bs_step env w w'"

inductive bs_reach :: "'b se_env \<Rightarrow> 'b bs_manager \<times> bs_task list \<Rightarrow> 'b bs_manager \<times> bs_task list \<Rightarrow> bool"
  for env where
  here: "bs_reach env w w"
| more: "bs_reach env w w1 \<Longrightarrow> bs_step env w1 w2 \<Longrightarrow> bs_reach env w w2"

section \<open>Well-formed sessions\<close>

definition session_ok :: "background_session \<Rightarrow> bool" where
  "session_ok s \<longleftrightarrow> text_fits 180 (bs_title s) \<and> text_fits 600 (bs_objective s)
     \<and> field_fits 8000 (bs_summary s) \<and> field_fits 8000 (bs_current_focus s) \<and> field_fits 8000 (bs_waiting_on s)
     \<and> field_fits 8000 (bs_next_expected_action s) \<and> field_fits 24000 (bs_working_memory s)
     \<and> field_fits 8000 (bs_last_error s) \<and> field_fits 120 (bs_preferred_delivery_channel s)
     \<and> field_fits 80 (bs_channel s) \<and> field_fits 120 (bs_conversation_id s)
     \<and> id_list_ok (bs_linked_task_ids s) \<and> id_list_ok (bs_linked_watcher_ids s)
     \<and> policy_normalized (bs_policy s) = bs_policy s
     \<and> length (bs_events s) \<le> MAX_EVENTS \<and> (\<forall>e \<in> set (bs_events s). text_fits 240 (ev_summary e))"

lemma push_event_ok:
  "length (push_event events e) \<le> MAX_EVENTS" "set (push_event events e) \<subseteq> insert e (set events)"
  by (auto simp: push_event_def Let_def MAX_EVENTS_def dest: in_set_dropD)

lemma build_event_summary [simp]: "text_fits 240 (ev_summary (build_event sp kind summary detail actor))"
  by (simp add: build_event_def)

lemma push_event_summaries:
  "\<forall>e \<in> set events. text_fits 240 (ev_summary e) \<Longrightarrow>
    e \<in> set (push_event events (build_event sp kind summary detail actor)) \<Longrightarrow> text_fits 240 (ev_summary e)"
  using push_event_ok(2) [of events "build_event sp kind summary detail actor"] by auto

lemma touch_ok: "session_ok s \<Longrightarrow> session_ok (touch sp kind summary detail actor s)"
  by (auto simp: session_ok_def touch_def push_event_ok intro: push_event_summaries)

lemma touch_simps [simp]:
  "bs_id (touch sp kind summary detail actor s) = bs_id s"
  "bs_status (touch sp kind summary detail actor s) = bs_status s"
  "bs_linked_task_ids (touch sp kind summary detail actor s) = bs_linked_task_ids s"
  "bs_linked_watcher_ids (touch sp kind summary detail actor s) = bs_linked_watcher_ids s"
  by (simp_all add: touch_def)

text \<open>A well-formed session with a given id; every step of an operation keeps this.\<close>

definition ok_as :: "string \<Rightarrow> background_session \<Rightarrow> bool" where
  "ok_as i s \<longleftrightarrow> session_ok s \<and> bs_id s = i"

lemma ok_as_touch [intro]: "ok_as i s \<Longrightarrow> ok_as i (touch sp kind summary detail actor s)"
  by (simp add: ok_as_def touch_ok)

lemma ok_as_fields [intro]:
  "ok_as i s \<Longrightarrow> text_fits 180 t \<Longrightarrow> ok_as i (s\<lparr>bs_title := t\<rparr>)"
  "ok_as i s \<Longrightarrow> text_fits 600 t \<Longrightarrow> ok_as i (s\<lparr>bs_objective := t\<rparr>)"
  "ok_as i s \<Longrightarrow> ok_as i (s\<lparr>bs_status := st\<rparr>)"
  "ok_as i s \<Longrightarrow> field_fits 8000 v \<Longrightarrow> ok_as i (s\<lparr>bs_summary := v\<rparr>)"
  "ok_as i s \<Longrightarrow> field_fits 8000 v \<Longrightarrow> ok_as i (s\<lparr>bs_current_focus := v\<rparr>)"
  "ok_as i s \<Longrightarrow> field_fits 8000 v \<Longrightarrow> ok_as i (s\<lparr>bs_waiting_on := v\<rparr>)"
  "ok_as i s \<Longrightarrow> field_fits 8000 v \<Longrightarrow> ok_as i (s\<lparr>bs_next_expected_action := v\<rparr>)"
  "ok_as i s \<Longrightarrow> field_fits 24000 v \<Longrightarrow> ok_as i (s\<lparr>bs_working_memory := v\<rparr>)"
  "ok_as i s \<Longrightarrow> field_fits 8000 v \<Longrightarrow> ok_as i (s\<lparr>bs_last_error := v\<rparr>)"
  "ok_as i s \<Longrightarrow> field_fits 120 v \<Longrightarrow> ok_as i (s\<lparr>bs_preferred_delivery_channel := v\<rparr>)"
  "ok_as i s \<Longrightarrow> field_fits 80 v \<Longrightarrow> ok_as i (s\<lparr>bs_channel := v\<rparr>)"
  "ok_as i s \<Longrightarrow> field_fits 120 v \<Longrightarrow> ok_as i (s\<lparr>bs_conversation_id := v\<rparr>)"
  "ok_as i s \<Longrightarrow> ok_as i (s\<lparr>bs_policy := policy_normalized p\<rparr>)"
  "ok_as i s \<Longrightarrow> ok_as i (s\<lparr>bs_last_consolidated_at := c\<rparr>)"
  by (simp_all add: ok_as_def session_ok_def)

lemma ok_as_links [intro]:
  "ok_as i s \<Longrightarrow> id_list_ok ts \<Longrightarrow> id_list_ok ws \<Longrightarrow> ok_as i (s\<lparr>bs_linked_task_ids := ts, bs_linked_watcher_ids := ws\<rparr>)"
  by (simp add: ok_as_def session_ok_def)

lemma ok_as_push [intro]:
  "ok_as i s \<Longrightarrow> ok_as i (s\<lparr>bs_events := push_event (bs_events s) (build_event sp kind summary detail actor)\<rparr>)"
  by (auto simp: ok_as_def session_ok_def push_event_ok intro: push_event_summaries)

lemma maybe_update_text_ok:
  assumes "ok_as i (fst sc)" and "\<And>v s. ok_as i s \<Longrightarrow> field_fits mx v \<Longrightarrow> ok_as i (set_slot v s)"
  shows "ok_as i (fst (maybe_update_text slot set_slot nv label mx sc))"
  using assms by (cases sc) (auto simp: maybe_update_text_def Let_def split: option.splits)

lemma update_parts_ok:
  "ok_as i (fst sc) \<Longrightarrow> ok_as i (fst (update_title v sc))"
  "ok_as i (fst sc) \<Longrightarrow> ok_as i (fst (update_objective v sc))"
  "ok_as i (fst sc) \<Longrightarrow> ok_as i (fst (update_status st sc))"
  "ok_as i (fst sc) \<Longrightarrow> ok_as i (fst (update_policy p sc))"
  by (cases sc; auto simp: update_title_def update_objective_def update_status_def update_policy_def Let_def
      dest: normalize_SomeD split: option.splits)+

lemma update_fields_ok: "ok_as i s \<Longrightarrow> ok_as i (fst (update_fields req s))"
  unfolding update_fields_def MAX_TEXT_CHARS_def MAX_WORKING_MEMORY_CHARS_def
  by (intro update_parts_ok maybe_update_text_ok ok_as_fields) simp_all

lemma fill_ok:
  assumes "ok_as i (fst sc)" and "\<And>s. ok_as i s \<Longrightarrow> ok_as i (set_slot v s)"
  shows "ok_as i (fst (fill slot set_slot v sc))"
  using assms by (cases sc) (auto simp: fill_def)

lemma attach_ids_ok: "id_list_ok linked \<Longrightarrow> id_list_ok ids \<Longrightarrow> id_list_ok (fst (attach_ids ids (linked, ch)))"
  by (induction ids "(linked, ch)" arbitrary: linked ch rule: attach_ids.induct) (auto simp: id_list_ok_def)

lemma unlink_ok: "ok_as i s \<Longrightarrow> ok_as i (unlink ts ws s)"
  by (auto simp: unlink_def id_list_ok_def ok_as_def session_ok_def)

definition op_ok :: "(background_session \<Rightarrow> background_session option) \<Rightarrow> bool" where
  "op_ok f \<longleftrightarrow> (\<forall>i s s'. ok_as i s \<longrightarrow> f s = Some s' \<longrightarrow> ok_as i s')"

lemma op_okI: "(\<And>i s s'. ok_as i s \<Longrightarrow> f s = Some s' \<Longrightarrow> ok_as i s') \<Longrightarrow> op_ok f"
  by (auto simp: op_ok_def)

lemma update_session_ok: "op_ok (update_session req sp actor)"
  using update_fields_ok [of _ _ req]
  by (intro op_okI) (force simp: update_session_def split: prod.splits if_splits)

lemma set_session_status_ok: "op_ok (set_session_status status summary sp actor)"
  by (intro op_okI) (auto simp: set_session_status_def split: if_splits)

lemma bind_runtime_context_ok: "op_ok (bind_runtime_context channel conversation sp actor)"
proof (rule op_okI)
  fix i s s'
  assume s: "ok_as i s" and s': "bind_runtime_context channel conversation sp actor s = Some s'"
  let ?sc = "fill bs_conversation_id (\<lambda>v s. s\<lparr>bs_conversation_id := v\<rparr>) (normalize_text_field conversation 120)
         (fill bs_channel (\<lambda>v s. s\<lparr>bs_channel := v\<rparr>) (normalize_text_field channel 80) (s, False))"
  have "ok_as i (fst ?sc)" using s by (intro fill_ok) auto
  with s' show "ok_as i s'" by (cases ?sc) (auto simp: bind_runtime_context_def split: if_splits)
qed

lemma apply_chat_turn_ok: "op_ok (apply_chat_turn user reply next_action sp actor)"
proof (rule op_okI)
  fix i s s'
  assume s: "ok_as i s" and s': "apply_chat_turn user reply next_action sp actor s = Some s'"
  let ?sc1 = "fill bs_current_focus (\<lambda>v s. s\<lparr>bs_current_focus := v\<rparr>)
      (normalize_text_field (Some user) MAX_TEXT_CHARS) (s, False)"
  let ?sc2 = "case ?sc1 of (s, changed) \<Rightarrow> (if bs_waiting_on s \<noteq> None then (s\<lparr>bs_waiting_on := None\<rparr>, True) else (s, changed))"
  let ?preview = "normalize_text_field (Some reply) 420"
  let ?sc3 = "case ?sc2 of (s, changed) \<Rightarrow> (if ?preview \<noteq> None \<and> bs_summary s = None
      then (s\<lparr>bs_summary := ?preview\<rparr>, True) else (s, changed))"
  let ?sc4 = "fill bs_next_expected_action (\<lambda>v s. s\<lparr>bs_next_expected_action := v\<rparr>) (normalize_text_field next_action 320) ?sc3"
  have small: "field_fits 8000 (normalize_text_field v 420)" "field_fits 8000 (normalize_text_field v 320)" for v
    by (rule field_fits_mono [of 420], simp, simp, rule field_fits_mono [of 320]) simp_all
  have "ok_as i (fst ?sc1)" using s unfolding MAX_TEXT_CHARS_def by (intro fill_ok) auto
  then have "ok_as i (fst ?sc2)" by (cases ?sc1) auto
  then have "ok_as i (fst ?sc3)" using small(1) by (cases ?sc2) auto
  then have "ok_as i (fst ?sc4)" using small(2) by (intro fill_ok) auto
  with s' show "ok_as i s'" unfolding apply_chat_turn_def Let_def by (cases ?sc4) (auto split: if_splits)
qed

lemma record_consolidation_ok: "op_ok (record_consolidation summary memory next_action sp actor)"
proof (rule op_okI)
  fix i s s'
  assume s: "ok_as i s" and s': "record_consolidation summary memory next_action sp actor s = Some s'"
  let ?memory = "normalize_text_field (Some memory) MAX_WORKING_MEMORY_CHARS"
  let ?sc1 = "fill bs_summary (\<lambda>v s. s\<lparr>bs_summary := v\<rparr>) (normalize_text_field summary MAX_TEXT_CHARS) (s, False)"
  let ?sc2 = "case ?sc1 of (s, changed) \<Rightarrow> (if bs_working_memory s \<noteq> ?memory
      then (s\<lparr>bs_working_memory := ?memory\<rparr>, True) else (s, changed))"
  let ?sc3 = "fill bs_next_expected_action (\<lambda>v s. s\<lparr>bs_next_expected_action := v\<rparr>) (normalize_text_field next_action 320) ?sc2"
  have small: "field_fits 8000 (normalize_text_field v 320)" for v by (rule field_fits_mono [of 320]) simp_all
  have "ok_as i (fst ?sc1)" using s unfolding MAX_TEXT_CHARS_def by (intro fill_ok) auto
  then have "ok_as i (fst ?sc2)" unfolding MAX_WORKING_MEMORY_CHARS_def by (cases ?sc1) auto
  then have "ok_as i (fst ?sc3)" using small by (intro fill_ok) auto
  with s' show "ok_as i s'" unfolding record_consolidation_def Let_def by (cases ?sc3) (auto split: if_splits)
qed

lemma attach_items_ok: "op_ok (attach_items tasks watchers sp actor)"
proof (rule op_okI)
  fix i s s'
  assume s: "ok_as i s" and s': "attach_items tasks watchers sp actor s = Some s'"
  obtain ts c1 where 1: "attach_ids (normalize_id_list tasks) (bs_linked_task_ids s, False) = (ts, c1)" by fastforce
  obtain ws c2 where 2: "attach_ids (normalize_id_list watchers) (bs_linked_watcher_ids s, c1) = (ws, c2)" by fastforce
  have "id_list_ok ts" "id_list_ok ws"
    using attach_ids_ok [of "bs_linked_task_ids s" "normalize_id_list tasks" False]
      attach_ids_ok [of "bs_linked_watcher_ids s" "normalize_id_list watchers" c1] 1 2 s
    by (auto simp: normalize_id_list_ok ok_as_def session_ok_def)
  with s s' 1 2 show "ok_as i s'" by (auto simp: attach_items_def split: if_splits)
qed

lemma detach_items_ok: "op_ok (detach_items tasks watchers sp actor)"
  by (intro op_okI) (auto simp: detach_items_def Let_def unlink_ok split: if_splits)

lemma rebind_session_ok: "op_ok (rebind_session tasks watchers sp sp2 actor)"
proof (rule op_okI)
  fix i s s'
  assume s: "ok_as i s" and s': "rebind_session tasks watchers sp sp2 actor s = Some s'"
  let ?s1 = "touch sp ''rebound'' ''Linked work was moved or removed.'' None actor (unlink tasks watchers s)"
  have ok: "ok_as i ?s1" using unlink_ok [OF s] by (rule ok_as_touch)
  then have "ok_as i (?s1\<lparr>bs_events := push_event (bs_events ?s1)
      (build_event sp2 ''completed'' ''Background session closed after all linked work moved elsewhere.'' None actor)\<rparr>)"
    by (rule ok_as_push)
  then have "ok_as i (?s1\<lparr>bs_status := SCompleted, bs_events := push_event (bs_events ?s1)
      (build_event sp2 ''completed'' ''Background session closed after all linked work moved elsewhere.'' None actor)\<rparr>)"
    by (simp add: ok_as_def session_ok_def)
  with ok s' show "ok_as i s'" unfolding rebind_session_def Let_def by (simp split: if_splits)
qed

lemma create_ok: "create_session req i sp actor m = (r, t, m') \<Longrightarrow>
    \<exists>s. ok_as i s \<and> r = Some s \<and> t = Some (WriteSession s) \<and> m' = AList.update i s m"
proof -
  assume c: "create_session req i sp actor m = (r, t, m')"
  have "id_list_ok (normalize_id_list ids)" for ids by (rule normalize_id_list_ok)
  then have "session_ok (the (fst (create_session req i sp actor m)))"
    by (auto simp: create_session_def Let_def session_ok_def derive_title_fits push_event_ok
        MAX_TEXT_CHARS_def MAX_WORKING_MEMORY_CHARS_def intro: push_event_summaries [of "[]", simplified])
  with c show ?thesis by (auto simp: create_session_def Let_def ok_as_def)
qed

section \<open>The session map\<close>

definition map_ok :: "session_map \<Rightarrow> bool" where
  "map_ok m \<longleftrightarrow> distinct (map fst m) \<and> (\<forall>(k, s) \<in> set m. ok_as k s)"

lemma map_ok_lookup: "map_ok m \<Longrightarrow> map_of m k = Some s \<Longrightarrow> ok_as k s"
  by (auto simp: map_ok_def dest: map_of_SomeD)

lemma map_okI: "distinct (map fst m) \<Longrightarrow> (\<And>k s. map_of m k = Some s \<Longrightarrow> ok_as k s) \<Longrightarrow> map_ok m"
  by (auto simp: map_ok_def)

lemma map_ok_distinct: "map_ok m \<Longrightarrow> distinct (map fst m)"
  by (simp add: map_ok_def)

lemma map_ok_Nil [simp]: "map_ok []"
  by (simp add: map_ok_def)

lemma map_ok_update: "map_ok m \<Longrightarrow> ok_as k s \<Longrightarrow> map_ok (AList.update k s m)"
  by (rule map_okI) (auto simp: update_conv' map_ok_distinct map_ok_lookup distinct_update split: if_splits)

lemma map_ok_delete: "map_ok m \<Longrightarrow> map_ok (AList.delete k m)"
  by (rule map_okI) (auto simp: delete_conv' map_ok_distinct distinct_delete map_ok_lookup split: if_splits)

lemma map_of_rebuild: "map_of (map (\<lambda>(k, s). (k, g k s)) m) = (\<lambda>k. map_option (g k) (map_of m k))"
  by (induction m) auto

lemma keys_rebuild: "map fst (map (\<lambda>(k, s). (k, g k s)) m) = map fst m"
  by (simp add: case_prod_unfold comp_def)

lemma map_ok_rebuild: "map_ok m \<Longrightarrow> (\<And>k s. ok_as k s \<Longrightarrow> ok_as k (g k s)) \<Longrightarrow> map_ok (map (\<lambda>(k, s). (k, g k s)) m)"
  by (rule map_okI) (auto simp only: map_of_rebuild keys_rebuild map_ok_distinct dest!: map_ok_lookup)

text \<open>What the locked part of any operation does: the map stays well formed, and what is left to store is what it holds.\<close>

definition task_ok :: "bs_task \<Rightarrow> bool" where
  "task_ok t \<longleftrightarrow> (case t of WriteSession s \<Rightarrow> session_ok s | WriteChanged ids \<Rightarrow> True | DeleteRow i \<Rightarrow> True)"

definition tasks_of :: "bs_task option \<Rightarrow> bs_task list" where
  "tasks_of t = (case t of Some task \<Rightarrow> [task] | None \<Rightarrow> [])"

text \<open>
  A task covers a change of the map: after it has run, the rows can agree with the new map if
  they agreed with the old one.
\<close>

definition covers :: "bs_task option \<Rightarrow> session_map \<Rightarrow> session_map \<Rightarrow> bool" where
  "covers t m m' \<longleftrightarrow> (case t of
     None \<Rightarrow> map_of m' = map_of m
   | Some (WriteSession s) \<Rightarrow> map_of m' = (map_of m)(bs_id s \<mapsto> s)
   | Some (WriteChanged ids) \<Rightarrow> (\<forall>k. k \<notin> set ids \<longrightarrow> map_of m' k = map_of m k) \<and> set ids \<subseteq> dom (map_of m')
   | Some (DeleteRow i) \<Rightarrow> map_of m' = (map_of m)(i := None))"

lemma modify_session_effect:
  assumes "map_ok m" and "op_ok f" and "modify_session i f m = (r, t, m')"
  shows "map_ok m' \<and> list_all task_ok (tasks_of t) \<and> covers t m m'"
proof (cases "map_of m (trim i)")
  case None
  with assms show ?thesis by (auto simp: modify_session_def tasks_of_def covers_def)
next
  case (Some s)
  then have s: "ok_as (trim i) s" using assms(1) by (rule map_ok_lookup [rotated])
  show ?thesis
  proof (cases "f s")
    case None
    with Some assms show ?thesis by (auto simp: modify_session_def tasks_of_def covers_def)
  next
    case f: (Some s')
    with s assms(2) have s': "ok_as (trim i) s'" by (auto simp: op_ok_def)
    from Some f assms(3) have "t = Some (WriteSession s')" "m' = AList.update (trim i) s' m"
      by (auto simp: modify_session_def)
    with s' assms(1) show ?thesis
      by (simp add: tasks_of_def covers_def task_ok_def map_ok_update update_conv' ok_as_def)
  qed
qed

lemma delete_session_effect:
  assumes "map_ok m" and "delete_session i m = (r, t, m')"
  shows "map_ok m' \<and> list_all task_ok (tasks_of t) \<and> covers t m m'"
proof -
  from assms(2) have m': "m' = AList.delete (trim i) m"
    and t: "t = (if map_of m (trim i) \<noteq> None then Some (DeleteRow (trim i)) else None)"
    by (auto simp: delete_session_def Let_def)
  have "map_of m' = (map_of m)(trim i := None)" by (simp add: m' delete_conv')
  with assms(1) t show ?thesis
    by (auto simp: m' map_ok_delete tasks_of_def task_ok_def covers_def fun_upd_idem)
qed

lemma create_session_effect:
  assumes "map_ok m" and "create_session req i sp actor m = (r, t, m')"
  shows "map_ok m' \<and> list_all task_ok (tasks_of t) \<and> covers t m m'"
  using create_ok [OF assms(2)] assms(1)
  by (auto simp: map_ok_update tasks_of_def task_ok_def covers_def update_conv' ok_as_def)

lemma in_map_filter: "x \<in> set (List.map_filter f xs) \<longleftrightarrow> (\<exists>y \<in> set xs. f y = Some x)"
  by (force simp: List.map_filter_def)

lemma remove_child_references_effect:
  assumes "map_ok m" and "remove_child_references ts ws stamps actor m = (r, t, m')"
  shows "map_ok m' \<and> list_all task_ok (tasks_of t) \<and> covers t m m'"
proof (cases "normalize_id_list ts = [] \<and> normalize_id_list ws = []")
  case True
  with assms show ?thesis by (auto simp: remove_child_references_def Let_def tasks_of_def covers_def)
next
  case False
  let ?re = "\<lambda>k s. rebind_session (normalize_id_list ts) (normalize_id_list ws) (fst (stamps k)) (snd (stamps k)) actor s"
  let ?g = "\<lambda>k s. case ?re k s of Some s' \<Rightarrow> s' | None \<Rightarrow> s"
  let ?ids = "map bs_id (List.map_filter (\<lambda>(k, s). ?re k s) m)"
  have m': "m' = map (\<lambda>(k, s). (k, ?g k s)) m"
    and t: "t = (if ?ids = [] then None else Some (WriteChanged ?ids))"
    using assms(2) False by (auto simp: remove_child_references_def Let_def)
  have re_ok: "ok_as k s'" if "ok_as k s" "?re k s = Some s'" for k s s'
    using that rebind_session_ok unfolding op_ok_def by blast
  then have g_ok: "ok_as k (?g k s)" if "ok_as k s" for k s
    using that by (auto split: option.splits)
  have ids: "k \<in> set ?ids \<longleftrightarrow> (\<exists>s s'. map_of m k = Some s \<and> ?re k s = Some s')" for k
  proof
    assume "k \<in> set ?ids"
    then obtain s' where s': "s' \<in> set (List.map_filter (\<lambda>(k, s). ?re k s) m)" "k = bs_id s'" by auto
    then obtain k0 s where s: "(k0, s) \<in> set m" "?re k0 s = Some s'" unfolding in_map_filter by auto
    with assms(1) have "ok_as k0 s" by (auto simp: map_ok_def)
    from re_ok [OF this s(2)] s'(2) have "k0 = k" by (simp add: ok_as_def)
    with s assms(1) show "\<exists>s s'. map_of m k = Some s \<and> ?re k s = Some s'" by (auto simp: map_ok_def)
  next
    assume "\<exists>s s'. map_of m k = Some s \<and> ?re k s = Some s'"
    then obtain s s' where s: "map_of m k = Some s" "?re k s = Some s'" by blast
    then have "s' \<in> set (List.map_filter (\<lambda>(k, s). ?re k s) m)"
      unfolding in_map_filter using map_of_SomeD [OF s(1)] by (intro bexI [of _ "(k, s)"]) auto
    moreover have "bs_id s' = k" using re_ok [OF map_ok_lookup [OF assms(1) s(1)] s(2)] by (simp add: ok_as_def)
    ultimately show "k \<in> set ?ids" by force
  qed
  have same: "map_of m' k = map_of m k" if "k \<notin> set ?ids" for k
    using that unfolding m' map_of_rebuild ids by (cases "map_of m k") (auto split: option.splits)
  have "set ?ids \<subseteq> dom (map_of m')"
  proof
    fix k
    assume "k \<in> set ?ids"
    then obtain s where "map_of m k = Some s" using ids by blast
    then show "k \<in> dom (map_of m')" by (simp add: m' map_of_rebuild domIff)
  qed
  moreover have "map_ok m'" unfolding m' using assms(1) g_ok by (rule map_ok_rebuild)
  ultimately show ?thesis using same t by (auto simp: tasks_of_def task_ok_def covers_def)
qed

lemmas session_op_rules = update_session_ok set_session_status_ok bind_runtime_context_ok apply_chat_turn_ok
  record_consolidation_ok attach_items_ok detach_items_ok

lemma locked_part_effect:
  "map_ok m \<Longrightarrow> locked_part op1 m = (r, t, m') \<Longrightarrow> map_ok m' \<and> list_all task_ok (tasks_of t) \<and> covers t m m'"
  by (cases op1; simp only: locked_part.simps)
    (erule (1) create_session_effect | erule (1) remove_child_references_effect | erule (1) delete_session_effect
      | (rule modify_session_effect, assumption, rule session_op_rules, assumption))+

section \<open>The rows\<close>

text \<open>What is assumed of serde: a session is written as an object that reads back as itself.\<close>

definition se_ok :: "'b se_env \<Rightarrow> bool" where
  "se_ok env \<longleftrightarrow> text_ok (se_text env)
     \<and> (\<forall>s. \<exists>txt. se_write env s = Some txt \<and> CHR ''{'' \<in> set txt \<and> se_read env txt = Some s)"

definition row_view :: "'b se_env \<Rightarrow> session_row list \<Rightarrow> string \<Rightarrow> background_session option" where
  "row_view env rows i = (case find (\<lambda>r. sr_id r = i) rows of None \<Rightarrow> None | Some r \<Rightarrow> decode_row env r)"

definition rows_ok :: "'b se_env \<Rightarrow> session_row list \<Rightarrow> bool" where
  "rows_ok env rows \<longleftrightarrow> distinct (map sr_id rows)
     \<and> (\<forall>r \<in> set rows. \<exists>s. decode_row env r = Some s \<and> ok_as (sr_id r) s)"

definition legacy_ok :: "'b se_env \<Rightarrow> 'b kv_table \<Rightarrow> bool" where
  "legacy_ok env kv \<longleftrightarrow> (case kv LEGACY_STORAGE_KEY of None \<Rightarrow> True | Some row \<Rightarrow>
     (case from_slice (se_legacy env) (kv_value row) of None \<Rightarrow> True
      | Some items \<Rightarrow> \<forall>s \<in> set items. session_ok (s\<lparr>bs_policy := policy_normalized (bs_policy s)\<rparr>)))"

lemma decode_row_created [simp]: "decode_row env (row\<lparr>sr_created_at := c\<rparr>) = decode_row env row"
  by (simp add: decode_row_def)

lemma put_row_distinct: "distinct (map sr_id rows) \<Longrightarrow> distinct (map sr_id (put_row row rows))"
proof -
  assume d: "distinct (map sr_id rows)"
  have "map sr_id (map (\<lambda>r. if sr_id r = sr_id row then row\<lparr>sr_created_at := sr_created_at r\<rparr> else r) rows) = map sr_id rows"
    by (induction rows) auto
  with d show ?thesis by (auto simp: put_row_def simp del: map_map)
qed

lemma put_row_ok:
  "rows_ok env rows \<Longrightarrow> decode_row env row = Some s \<Longrightarrow> ok_as (sr_id row) s \<Longrightarrow> rows_ok env (put_row row rows)"
  unfolding rows_ok_def using put_row_distinct [of rows row] by (auto simp: put_row_def)

lemma put_row_view:
  "row_view env (put_row row rows) = (row_view env rows)(sr_id row := decode_row env row)"
proof
  fix i
  let ?repl = "\<lambda>r. if sr_id r = sr_id row then row\<lparr>sr_created_at := sr_created_at r\<rparr> else r"
  have "find (\<lambda>r. sr_id r = i) (map ?repl rows) = map_option ?repl (find (\<lambda>r. sr_id r = i) rows)"
    by (induction rows) auto
  moreover have "find (\<lambda>r. sr_id r = sr_id row) rows \<noteq> None \<longleftrightarrow> (\<exists>r \<in> set rows. sr_id r = sr_id row)"
    by (auto simp: find_None)
  moreover have "find P (rows @ [row]) = (case find P rows of Some r \<Rightarrow> Some r | None \<Rightarrow> if P row then Some row else None)" for P
    by (induction rows) auto
  ultimately show "row_view env (put_row row rows) i = ((row_view env rows)(sr_id row := decode_row env row)) i"
    by (auto simp: row_view_def put_row_def dest: find_SomeD split: option.splits)
qed

lemma delete_rows_view:
  "row_view env (filter (\<lambda>r. sr_id r \<noteq> i) rows) = (row_view env rows)(i := None)"
proof
  fix k
  have "find (\<lambda>r. sr_id r = k) (filter (\<lambda>r. sr_id r \<noteq> i) rows)
      = (if k = i then None else find (\<lambda>r. sr_id r = k) rows)"
    by (induction rows) auto
  then show "row_view env (filter (\<lambda>r. sr_id r \<noteq> i) rows) k = ((row_view env rows)(i := None)) k"
    by (simp add: row_view_def)
qed

lemma delete_rows_ok: "rows_ok env rows \<Longrightarrow> rows_ok env (filter P rows)"
  by (auto simp: rows_ok_def distinct_map_filter)

text \<open>An upsert that reaches the table writes a row that decodes to the session.\<close>

lemma upsert_row:
  assumes "se_ok env" and "session_ok s"
  obtains row where "sr_id row = bs_id s" and "decode_row env row = Some s"
    and "storage_upsert_session env s = stmt (\<lambda>t. ((), t\<lparr>se_rows := put_row row (se_rows t)\<rparr>))"
proof -
  from assms(1) obtain tx where tx: "se_write env s = Some tx" "CHR ''{'' \<in> set tx" "se_read env tx = Some s"
    and te: "text_ok (se_text env)" unfolding se_ok_def by blast
  from encrypt_storage_string_total [OF te] obtain e where e: "encrypt_storage_string (se_text env) tx = Inr e" by blast
  have brace: "\<not> base64_char CHR ''{''" "\<not> is_ws CHR ''{''"
    by (simp_all add: base64_char_def is_lower_def is_upper_def is_digit_def is_ws_def)
  from storage_string_roundtrip [OF te tx(2) brace e] have dec: "decrypt_storage_string (se_text env) e = tx" .
  let ?row = "\<lparr>sr_id = bs_id s, sr_status = status_label (bs_status s),
      sr_conversation_id = bs_conversation_id s, sr_project_id = bs_project_id s,
      sr_created_at = to_rfc3339 (se_chrono env) (bs_created_at s),
      sr_updated_at = to_rfc3339 (se_chrono env) (bs_updated_at s),
      sr_last_activity_at = to_rfc3339 (se_chrono env) (bs_last_activity_at s), sr_payload = e\<rparr>"
  have "bindE (lift_result (Inr e)) f = f e" for f :: "string \<Rightarrow> ('b se_db, unit) io"
    by (rule ext) (simp add: bindE_def)
  then show thesis using tx dec e assms(2)
    by (intro that [of ?row]) (simp_all add: decode_row_def session_ok_def storage_upsert_session_def)
qed

lemma upsert_cases:
  assumes "se_ok env" and "session_ok s"
  obtains (lost) "tables (snd (storage_upsert_session env s d)) = tables d" and "faults d \<noteq> []"
  | (done1) row where "sr_id row = bs_id s" and "decode_row env row = Some s"
      and "tables (snd (storage_upsert_session env s d)) = (tables d)\<lparr>se_rows := put_row row (se_rows (tables d))\<rparr>"
proof -
  obtain row where row: "sr_id row = bs_id s" "decode_row env row = Some s"
    and up: "storage_upsert_session env s = stmt (\<lambda>t. ((), t\<lparr>se_rows := put_row row (se_rows t)\<rparr>))"
    using upsert_row [OF assms] .
  show thesis
  proof (cases "faults d \<noteq> [] \<and> hd (faults d)")
    case True
    then show thesis by (intro lost) (simp_all add: up stmt_def)
  next
    case False
    then show thesis by (intro done1 [OF row]) (auto simp: up stmt_def)
  qed
qed

lemma upsert_quiet: "se_ok env \<Longrightarrow> session_ok s \<Longrightarrow> faults d = [] \<Longrightarrow> faults (snd (storage_upsert_session env s d)) = []"
proof -
  assume "se_ok env" "session_ok s" and d: "faults d = []"
  then obtain row where "storage_upsert_session env s = stmt (\<lambda>t. ((), t\<lparr>se_rows := put_row row (se_rows t)\<rparr>))"
    using upsert_row [of env s] by metis
  with d show ?thesis by simp
qed

section \<open>Starting from the rows\<close>

lemma normalize_session_map_snoc:
  "normalize_session_map (items @ [s]) = AList.update (bs_id s) (s\<lparr>bs_policy := policy_normalized (bs_policy s)\<rparr>)
     (normalize_session_map items)"
  by (simp add: normalize_session_map_def)

lemma normalize_session_map_ok:
  "\<forall>s \<in> set items. session_ok (s\<lparr>bs_policy := policy_normalized (bs_policy s)\<rparr>) \<Longrightarrow> map_ok (normalize_session_map items)"
proof (induction items rule: rev_induct)
  case (snoc s items)
  then show ?case unfolding normalize_session_map_snoc by (intro map_ok_update) (simp_all add: ok_as_def)
qed (simp add: normalize_session_map_def)

lemma normalize_session_map_lookup:
  assumes "\<forall>s \<in> set items. \<forall>s' \<in> set items. bs_id s = bs_id s' \<longrightarrow> s = s'"
  shows "map_of (normalize_session_map items) i = Some t
    \<longleftrightarrow> (\<exists>s \<in> set items. bs_id s = i \<and> t = s\<lparr>bs_policy := policy_normalized (bs_policy s)\<rparr>)"
  using assms
proof (induction items rule: rev_induct)
  case (snoc s items)
  then show ?case unfolding normalize_session_map_snoc by (auto simp: update_conv')
qed (simp add: normalize_session_map_def)

lemma session_ok_policy: "session_ok s \<Longrightarrow> s\<lparr>bs_policy := policy_normalized (bs_policy s)\<rparr> = s"
  by (simp add: session_ok_def)

lemma rows_decoded:
  assumes "rows_ok env rows" and "items = List.map_filter (decode_row env) rows'" and "set rows' = set rows"
  shows "\<forall>s \<in> set items. session_ok s" and "map_of (normalize_session_map items) = row_view env rows"
    and "items = [] \<longleftrightarrow> rows = []"
proof -
  have "s \<in> set items \<longleftrightarrow> (\<exists>r \<in> set rows. decode_row env r = Some s)" for s
    using assms(2,3) by (simp add: in_map_filter)
  note items = this
  show ok: "\<forall>s \<in> set items. session_ok s" using assms(1) items unfolding rows_ok_def ok_as_def by fastforce
  have row: "s \<in> set items \<and> bs_id s = i \<longleftrightarrow> row_view env rows i = Some s" for s i
  proof
    assume "s \<in> set items \<and> bs_id s = i"
    then obtain r where r: "r \<in> set rows" "decode_row env r = Some s" and "bs_id s = i" using items by auto
    moreover from r assms(1) have "bs_id s = sr_id r" unfolding rows_ok_def ok_as_def by fastforce
    moreover have "find (\<lambda>x. sr_id x = sr_id r) rows = Some r"
    proof -
      from r(1) have "find (\<lambda>x. sr_id x = sr_id r) rows \<noteq> None" by (auto simp: find_None)
      then obtain r' where f: "find (\<lambda>x. sr_id x = sr_id r) rows = Some r'" by blast
      from find_SomeD [OF f] r(1) assms(1) have "r' = r" unfolding rows_ok_def by (metis (mono_tags) distinct_map inj_onD)
      with f show ?thesis by simp
    qed
    ultimately show "row_view env rows i = Some s" by (simp add: row_view_def)
  next
    assume "row_view env rows i = Some s"
    then obtain r where f: "find (\<lambda>x. sr_id x = i) rows = Some r" and s: "decode_row env r = Some s"
      by (auto simp: row_view_def split: option.splits)
    from find_SomeD [OF f] s assms(1) have "bs_id s = i" unfolding rows_ok_def ok_as_def by fastforce
    with find_SomeD [OF f] s items show "s \<in> set items \<and> bs_id s = i" by blast
  qed
  have "\<forall>s \<in> set items. \<forall>s' \<in> set items. bs_id s = bs_id s' \<longrightarrow> s = s'" by (metis row option.inject)
  note lookup = normalize_session_map_lookup [OF this]
  show "map_of (normalize_session_map items) = row_view env rows"
  proof
    fix i
    have "map_of (normalize_session_map items) i = Some t \<longleftrightarrow> row_view env rows i = Some t" for t
      unfolding lookup using ok row [of t i] by (auto simp: session_ok_policy)
    then show "map_of (normalize_session_map items) i = row_view env rows i"
      by (metis option.exhaust)
  qed
  show "items = [] \<longleftrightarrow> rows = []"
  proof
    assume "items = []"
    then have "\<not> (\<exists>r \<in> set rows. decode_row env r = Some s)" for s using items by auto
    then show "rows = []" using assms(1) unfolding rows_ok_def by (metis list.set_intros(1) neq_Nil_conv)
  next
    assume "rows = []"
    then show "items = []" using items by (metis all_not_in_conv list.set(1) set_empty)
  qed
qed

lemma storage_list_cases:
  assumes "storage_list_sessions env d = (r, d1)"
  obtains (error) e where "r = Inl e" and "tables d1 = tables d" and "faults d \<noteq> []"
  | (items) rows' where "r = Inr (List.map_filter (decode_row env) rows')" and "set rows' = set (se_rows (tables d))"
      and "tables d1 = tables d" and "faults d = [] \<Longrightarrow> faults d1 = []"
  using assms error items [of "rev (sort_key sr_updated_at (rev (se_rows (tables d))))"]
  by (auto simp: storage_list_sessions_def bindE_def stmt_def split: if_splits prod.splits)

lemma on_kv_get_tables: "on_kv (kv_get k) d = (r, d') \<Longrightarrow> tables d' = tables d"
  by (auto simp: on_kv_def dest: kv_get_frame split: prod.splits)

lemma on_kv_get_value: "on_kv (kv_get k) d = (Inr v, d') \<Longrightarrow> v = map_option kv_value (se_kv (tables d) k)"
  by (auto simp: on_kv_def kv_lookup_def dest!: kv_get_value split: prod.splits)

lemma on_kv_delete_tables: "se_rows (tables (snd (on_kv (kv_delete k) d))) = se_rows (tables d)
    \<and> (se_kv (tables (snd (on_kv (kv_delete k) d))) = se_kv (tables d)
      \<or> se_kv (tables (snd (on_kv (kv_delete k) d))) = (se_kv (tables d))(k := None))"
  by (auto simp: on_kv_def kv_delete_def stmt_def split: prod.splits)

definition db_ok :: "'b se_env \<Rightarrow> 'b se_db \<Rightarrow> bool" where
  "db_ok env d \<longleftrightarrow> rows_ok env (se_rows (tables d)) \<and> legacy_ok env (se_kv (tables d))"

lemma db_ok_tables: "tables d' = tables d \<Longrightarrow> db_ok env d \<Longrightarrow> db_ok env d'"
  by (simp add: db_ok_def)

lemma upsert_db_ok: "se_ok env \<Longrightarrow> session_ok s \<Longrightarrow> db_ok env d \<Longrightarrow> db_ok env (snd (storage_upsert_session env s d))"
proof (erule (1) upsert_cases [where d = d])
  fix row
  assume "db_ok env d" "session_ok s" "sr_id row = bs_id s" "decode_row env row = Some s"
    "tables (snd (storage_upsert_session env s d)) = tables d\<lparr>se_rows := put_row row (se_rows (tables d))\<rparr>"
  then show "db_ok env (snd (storage_upsert_session env s d))" by (simp add: db_ok_def put_row_ok ok_as_def)
qed (rule db_ok_tables)

lemma upsert_all_db_ok:
  "se_ok env \<Longrightarrow> \<forall>s \<in> set ss. session_ok s \<Longrightarrow> db_ok env d \<Longrightarrow> db_ok env (upsert_all env ss d)"
  unfolding upsert_all_def by (induction ss arbitrary: d) (simp_all add: upsert_db_ok)

lemma delete_db_ok: "db_ok env d \<Longrightarrow> db_ok env (snd (storage_delete_session i d))"
  by (auto simp: db_ok_def storage_delete_session_def stmt_def delete_rows_ok)

lemma load_legacy_ok:
  "db_ok env d \<Longrightarrow> load_legacy_background_sessions env d = (m, d') \<Longrightarrow> map_ok m \<and> tables d' = tables d"
proof -
  assume ok: "db_ok env d" and load: "load_legacy_background_sessions env d = (m, d')"
  obtain r d1 where get: "on_kv (kv_get LEGACY_STORAGE_KEY) d = (r, d1)" by fastforce
  from on_kv_get_tables [OF get] load get have "tables d' = tables d"
    by (auto simp: load_legacy_background_sessions_def split: sum.splits option.splits)
  moreover have "map_ok m"
  proof (cases "\<exists>raw items. r = Inr (Some raw) \<and> from_slice (se_legacy env) raw = Some items")
    case True
    then obtain raw items where r: "r = Inr (Some raw)" "from_slice (se_legacy env) raw = Some items" by blast
    with on_kv_get_value [of LEGACY_STORAGE_KEY d "Some raw" d1] get
    have "Some raw = map_option kv_value (se_kv (tables d) LEGACY_STORAGE_KEY)" by blast
    then obtain row where "se_kv (tables d) LEGACY_STORAGE_KEY = Some row" "kv_value row = raw"
      by (cases "se_kv (tables d) LEGACY_STORAGE_KEY") auto
    with ok r(2) have "\<forall>s \<in> set items. session_ok (s\<lparr>bs_policy := policy_normalized (bs_policy s)\<rparr>)"
      by (simp add: db_ok_def legacy_ok_def)
    with r get load show ?thesis
      by (auto simp: load_legacy_background_sessions_def normalize_session_map_ok)
  next
    case False
    with get load show ?thesis
      by (auto simp: load_legacy_background_sessions_def split: sum.splits option.splits)
  qed
  ultimately show ?thesis by simp
qed

lemma kv_delete_db_ok: "db_ok env d \<Longrightarrow> db_ok env (snd (on_kv (kv_delete LEGACY_STORAGE_KEY) d))"
  using on_kv_delete_tables [of LEGACY_STORAGE_KEY d] by (auto simp: db_ok_def legacy_ok_def)

lemma manager_new_ok:
  assumes "se_ok env" and "db_ok env d"
  shows "map_ok (bm_sessions (manager_new env stored d)) \<and> db_ok env (bm_db (manager_new env stored d))"
proof (cases stored)
  case True
  obtain r d1 where list: "storage_list_sessions env d = (r, d1)" by fastforce
  obtain legacy d2 where load: "load_legacy_background_sessions env d1 = (legacy, d2)" by fastforce
  have t1: "tables d1 = tables d" using list by (rule storage_list_cases) simp_all
  from db_ok_tables [OF t1 assms(2)] have ok1: "db_ok env d1" .
  from load_legacy_ok [OF ok1 load] have leg: "map_ok legacy" "tables d2 = tables d1" by simp_all
  from db_ok_tables [OF leg(2) ok1] have ok2: "db_ok env d2" .
  have "\<forall>s \<in> set (map snd legacy). session_ok s" using leg(1) by (auto simp: map_ok_def ok_as_def)
  from kv_delete_db_ok [OF upsert_all_db_ok [OF assms(1) this ok2]]
  have ok3: "db_ok env (snd (on_kv (kv_delete LEGACY_STORAGE_KEY) (upsert_all env (map snd legacy) d2)))" .
  from list show ?thesis
  proof (rule storage_list_cases)
    fix e
    assume "r = Inl e"
    with True list load leg ok2 show ?thesis by (simp add: manager_new_def)
  next
    fix rows'
    assume r: "r = Inr (List.map_filter (decode_row env) rows')" and set: "set rows' = set (se_rows (tables d))"
    have "rows_ok env (se_rows (tables d))" using assms(2) by (simp add: db_ok_def)
    from rows_decoded(1) [OF this refl set]
    have "map_ok (normalize_session_map (List.map_filter (decode_row env) rows'))"
      by (intro normalize_session_map_ok) (simp add: session_ok_policy)
    with True list load leg ok1 ok2 ok3 r show ?thesis by (simp add: manager_new_def)
  qed
next
  case False
  with assms(2) show ?thesis by (simp add: manager_new_def)
qed

section \<open>Every reachable state is well formed\<close>

definition world_ok :: "'b se_env \<Rightarrow> 'b bs_manager \<times> bs_task list \<Rightarrow> bool" where
  "world_ok env w \<longleftrightarrow> map_ok (bm_sessions (fst w)) \<and> db_ok env (bm_db (fst w)) \<and> list_all task_ok (snd w)"

lemma snapshot_ok: "map_ok m \<Longrightarrow> s \<in> set (List.map_filter (map_of m) ids) \<Longrightarrow> session_ok s"
  by (auto simp: in_map_filter ok_as_def dest: map_ok_lookup)

lemma store_part_ok:
  assumes "se_ok env" and "map_ok (bm_sessions st)" and "db_ok env (bm_db st)" and "list_all task_ok (tasks_of t)"
  shows "bm_sessions (store_part env t st) = bm_sessions st \<and> bm_stored (store_part env t st) = bm_stored st
    \<and> db_ok env (bm_db (store_part env t st))"
proof (cases t)
  case (Some task)
  then show ?thesis
  proof (cases task)
    case (WriteSession s)
    with Some assms show ?thesis by (simp add: persist_session_def tasks_of_def task_ok_def upsert_db_ok)
  next
    case (WriteChanged ids)
    have "\<forall>s \<in> set (List.map_filter (map_of (bm_sessions st)) ids). session_ok s"
      using snapshot_ok [OF assms(2)] by blast
    from upsert_all_db_ok [OF assms(1) this assms(3)] Some WriteChanged assms show ?thesis
      by (simp add: persist_changed_ids_def persist_sessions_def)
  next
    case (DeleteRow i)
    with Some assms show ?thesis by (simp add: delete_persisted_session_def delete_db_ok)
  qed
qed (use assms in simp)

lemma world_ok_step: "se_ok env \<Longrightarrow> bs_step env w w' \<Longrightarrow> world_ok env w \<Longrightarrow> world_ok env w'"
proof (erule bs_stepE)
  fix op1 st r t m q
  assume "w = (st, q)" "w' = (st\<lparr>bm_sessions := m\<rparr>, q @ (case t of Some task \<Rightarrow> [task] | None \<Rightarrow> []))"
    "locked_part op1 (bm_sessions st) = (r, t, m)" "world_ok env w"
  then show "world_ok env w'" using locked_part_effect [of "bm_sessions st" op1 r t m]
    by (simp add: world_ok_def tasks_of_def)
next
  fix st q1 task q2
  assume "se_ok env" "w = (st, q1 @ task # q2)" "w' = (store_part env (Some task) st, q1 @ q2)" "world_ok env w"
  then show "world_ok env w'" using store_part_ok [of env st "Some task"]
    by (simp add: world_ok_def tasks_of_def)
next
  fix st q1 ids q2
  assume "w = (st, q1 @ WriteChanged ids # q2)"
    "w' = (st, q1 @ map WriteSession (List.map_filter (map_of (bm_sessions st)) ids) @ q2)" "world_ok env w"
  moreover have "list_all task_ok (map WriteSession (List.map_filter (map_of (bm_sessions st)) ids))"
    if "map_ok (bm_sessions st)"
    using snapshot_ok [OF that] by (simp add: list_all_iff task_ok_def)
  ultimately show "world_ok env w'" by (simp add: world_ok_def)
next
  fix st q
  assume "se_ok env" "w = (st, q)" "w' = (manager_new env (bm_stored st) (bm_db st), [])" "world_ok env w"
  then show "world_ok env w'" using manager_new_ok [of env "bm_db st" "bm_stored st"] by (simp add: world_ok_def)
qed

lemma world_ok_reach: "bs_reach env w w' \<Longrightarrow> se_ok env \<Longrightarrow> world_ok env w \<Longrightarrow> world_ok env w'"
  by (induction rule: bs_reach.induct) (auto intro: world_ok_step)

end
