(* ===== verification/Session_Safety.thy ===== *)
theory Session_Safety
  imports Session_Manager
begin

text \<open>
  What the session manager guarantees: well-formed sessions in every interleaving, durable
  sessions when operations run one after the other on a working database, and the effect of
  removing linked work; and what it does not: two updates whose rows are written in the other
  order leave the older one in the table. The examples use a serde that writes a session as the
  list of its fields (\<open>session_text\<close>).
\<close>

section \<open>A concrete serde\<close>

definition opt_text :: "string option \<Rightarrow> string" where
  "opt_text v = (case v of None \<Rightarrow> [] | Some s \<Rightarrow> CHR ''+'' # s)"

definition read_opt :: "string \<Rightarrow> string option" where
  "read_opt s = (case s of [] \<Rightarrow> None | _ # t \<Rightarrow> Some t)"

fun all_some :: "'a option list \<Rightarrow> 'a list option" where
  "all_some [] = Some []"
| "all_some (None # xs) = None"
| "all_some (Some x # xs) = map_option ((#) x) (all_some xs)"

definition event_text :: "session_event \<Rightarrow> string" where
  "event_text e = mark_list [ev_id e, show_int (ev_at e), ev_kind e, ev_summary e, opt_text (ev_detail e), opt_text (ev_actor e)]"

definition read_event :: "string \<Rightarrow> session_event option" where
  "read_event s = (case unmark [] s of
     Some [i, t, k, sm, dt, ac] \<Rightarrow> (case read_int t of None \<Rightarrow> None | Some at \<Rightarrow>
        Some \<lparr>ev_id = i, ev_at = at, ev_kind = k, ev_summary = sm, ev_detail = read_opt dt, ev_actor = read_opt ac\<rparr>)
   | _ \<Rightarrow> None)"

definition all_status :: "session_status list" where
  "all_status = [Draft, Active, Waiting, NeedsInput, SPaused, SCompleted, Failed, Cancelled]"

definition session_text :: "background_session \<Rightarrow> string" where
  "session_text s = CHR ''{'' # mark_list [bs_id s, bs_title s, bs_objective s, status_label (bs_status s),
     mark_list (map opt_text [bs_summary s, bs_current_focus s, bs_waiting_on s, bs_next_expected_action s,
       bs_working_memory s, bs_last_error s, bs_preferred_delivery_channel s, bs_channel s,
       bs_conversation_id s, bs_project_id s, map_option show_int (bs_last_consolidated_at s)]),
     mark_list (bs_linked_task_ids s), mark_list (bs_linked_watcher_ids s),
     mark_list (bp_allowed_action_roles (bs_policy s)), mark_list (bp_allowed_integration_classes (bs_policy s)),
     show_int (bs_created_at s), show_int (bs_updated_at s), show_int (bs_last_activity_at s),
     mark_list (map event_text (bs_events s))]"

definition read_session :: "string \<Rightarrow> background_session option" where
  "read_session t = (case unmark [] (tl t) of
     Some [i, ti, ob, st, opts, tasks, watchers, roles, classes, cr, up, la, evs] \<Rightarrow>
       (case (map read_opt (the (unmark [] opts)), find (\<lambda>x. status_label x = st) all_status,
              all_some (map read_event (the (unmark [] evs))), read_int cr, read_int up, read_int la) of
          ([sm, cf, wo, ne, wm, le, pd, ch, co, pr, lc], Some status, Some events, Some c, Some u, Some l) \<Rightarrow>
            Some \<lparr>bs_id = i, bs_title = ti, bs_objective = ob, bs_status = status, bs_summary = sm,
              bs_current_focus = cf, bs_waiting_on = wo, bs_next_expected_action = ne, bs_working_memory = wm,
              bs_last_error = le, bs_preferred_delivery_channel = pd, bs_channel = ch, bs_conversation_id = co,
              bs_project_id = pr, bs_linked_task_ids = the (unmark [] tasks), bs_linked_watcher_ids = the (unmark [] watchers),
              bs_policy = \<lparr>bp_allowed_action_roles = the (unmark [] roles),
                 bp_allowed_integration_classes = the (unmark [] classes)\<rparr>,
              bs_created_at = c, bs_updated_at = u, bs_last_activity_at = l,
              bs_last_consolidated_at = map_option (\<lambda>x. the (read_int x)) lc, bs_events = events\<rparr>
        | _ \<Rightarrow> None)
   | _ \<Rightarrow> None)"

lemma read_opt_text [simp]: "read_opt (opt_text v) = v"
  by (cases v) (simp_all add: read_opt_def opt_text_def)

lemma all_some_map: "(\<And>x. f (g x) = Some x) \<Longrightarrow> all_some (map f (map g xs)) = Some xs"
  by (induction xs) simp_all

lemma read_event_text [simp]: "read_event (event_text e) = Some e"
  by (simp add: read_event_def event_text_def del: mark_list.simps)

lemma read_session_text [simp]: "read_session (session_text s) = Some s"
proof -
  have st: "find (\<lambda>x. status_label x = status_label st) all_status = Some st" for st
    by (cases st) (simp_all add: all_status_def)
  have ev: "all_some (map read_event (map event_text es)) = Some es" for es by (rule all_some_map) simp
  have lc: "map_option (\<lambda>x. the (read_int x)) (map_option show_int c) = c" for c by (cases c) simp_all
  show ?thesis
    by (simp add: read_session_def session_text_def st ev lc option.map_comp comp_def del: mark_list.simps map_map
        option.map_comp)
qed

definition plain_text_env :: "char text_env" where
  "plain_text_env = \<lparr>te_key = None, te_base64_encode = id, te_base64_decode = Some,
     te_as_bytes = id, te_from_utf8 = Some\<rparr>"

definition sample_se_env :: "char se_env" where
  "sample_se_env = \<lparr>se_text = plain_text_env, se_chrono = decimal_chrono, se_write = (\<lambda>s. Some (session_text s)),
     se_read = read_session, se_legacy = \<lparr>to_vec = (\<lambda>_. None), from_slice = (\<lambda>_. None)\<rparr>\<rparr>"

lemma sample_se_env_ok: "se_ok sample_se_env"
proof -
  have "CHR ''{'' \<in> set (session_text s)" for s by (simp add: session_text_def del: mark_list.simps)
  then show ?thesis by (simp add: se_ok_def sample_se_env_def plain_text_env_def text_ok_def km_ok_def)
qed

section \<open>Durable when operations do not overlap\<close>

text \<open>The rows say what the map says.\<close>

definition in_sync :: "'b se_env \<Rightarrow> 'b bs_manager \<Rightarrow> bool" where
  "in_sync env st \<longleftrightarrow> bm_stored st \<and> faults (bm_db st) = [] \<and> se_kv (tables (bm_db st)) LEGACY_STORAGE_KEY = None
     \<and> map_ok (bm_sessions st) \<and> rows_ok env (se_rows (tables (bm_db st)))
     \<and> row_view env (se_rows (tables (bm_db st))) = map_of (bm_sessions st)"

lemma upsert_quiet_view:
  assumes "se_ok env" and "session_ok s" and "faults d = []"
  shows "row_view env (se_rows (tables (snd (storage_upsert_session env s d))))
      = (row_view env (se_rows (tables d)))(bs_id s \<mapsto> s)
    \<and> se_kv (tables (snd (storage_upsert_session env s d))) = se_kv (tables d)
    \<and> faults (snd (storage_upsert_session env s d)) = []"
proof (rule upsert_cases [OF assms(1,2), of d])
  fix row
  assume "sr_id row = bs_id s" "decode_row env row = Some s"
    "tables (snd (storage_upsert_session env s d)) = tables d\<lparr>se_rows := put_row row (se_rows (tables d))\<rparr>"
  with upsert_quiet [OF assms] show ?thesis by (simp add: put_row_view)
qed (use assms(3) in simp)

lemma upsert_all_quiet_view:
  assumes "se_ok env"
  shows "\<forall>s \<in> set ss. session_ok s \<Longrightarrow> faults d = [] \<Longrightarrow>
    row_view env (se_rows (tables (upsert_all env ss d)))
      = foldl (\<lambda>v s. v(bs_id s \<mapsto> s)) (row_view env (se_rows (tables d))) ss
    \<and> se_kv (tables (upsert_all env ss d)) = se_kv (tables d) \<and> faults (upsert_all env ss d) = []"
proof (induction ss arbitrary: d)
  case (Cons s ss)
  let ?d = "snd (storage_upsert_session env s d)"
  have q: "session_ok s" "faults d = []" using Cons.prems by simp_all
  note one = upsert_quiet_view [OF assms q]
  have "upsert_all env (s # ss) d = upsert_all env ss ?d" by (simp add: upsert_all_def)
  moreover have "\<forall>s \<in> set ss. session_ok s" using Cons.prems(1) by simp
  from Cons.IH [OF this one [THEN conjunct2, THEN conjunct2]]
  have "row_view env (se_rows (tables (upsert_all env ss ?d)))
      = foldl (\<lambda>v s. v(bs_id s \<mapsto> s)) (row_view env (se_rows (tables ?d))) ss
    \<and> se_kv (tables (upsert_all env ss ?d)) = se_kv (tables ?d) \<and> faults (upsert_all env ss ?d) = []" .
  ultimately show ?case using one by (simp only: foldl.simps simp_thms)
qed (simp add: upsert_all_def)

lemma foldl_snapshots:
  "map_ok m \<Longrightarrow> foldl (\<lambda>v s. v(bs_id s \<mapsto> s)) v (List.map_filter (map_of m) ids) k
    = (if k \<in> set ids \<and> map_of m k \<noteq> None then map_of m k else v k)"
proof (induction ids arbitrary: v)
  case (Cons i ids)
  show ?case
  proof (cases "map_of m i")
    case None
    then show ?thesis using Cons.IH [OF Cons.prems] by (auto simp: List.map_filter_def)
  next
    case (Some s)
    with map_ok_lookup [OF Cons.prems Some] have "List.map_filter (map_of m) (i # ids) = s # List.map_filter (map_of m) ids"
      and "bs_id s = i" by (auto simp: List.map_filter_def ok_as_def)
    with Some show ?thesis using Cons.IH [OF Cons.prems, of "v(i \<mapsto> s)"] by simp
  qed
qed (simp add: List.map_filter_def)

lemma store_part_sync:
  assumes env: "se_ok env" and st: "bm_stored st" "faults (bm_db st) = []"
    and m: "map_ok (bm_sessions st)" and t: "list_all task_ok (tasks_of t)"
    and view: "row_view env (se_rows (tables (bm_db st))) = map_of m0" and cov: "covers t m0 (bm_sessions st)"
  shows "row_view env (se_rows (tables (bm_db (store_part env t st)))) = map_of (bm_sessions st)
    \<and> se_kv (tables (bm_db (store_part env t st))) = se_kv (tables (bm_db st)) \<and> faults (bm_db (store_part env t st)) = []"
proof (cases t)
  case None
  with assms show ?thesis by (simp add: covers_def)
next
  case (Some task)
  show ?thesis
  proof (cases task)
    case (WriteSession s)
    with Some t have "session_ok s" by (simp add: tasks_of_def task_ok_def)
    from upsert_quiet_view [OF env this st(2)] Some WriteSession st view cov show ?thesis
      by (simp add: persist_session_def covers_def)
  next
    case (WriteChanged ids)
    let ?ss = "List.map_filter (map_of (bm_sessions st)) ids"
    have ok: "\<forall>s \<in> set ?ss. session_ok s" using snapshot_ok [OF m] by blast
    have db: "bm_db (store_part env t st) = upsert_all env ?ss (bm_db st)"
      using Some WriteChanged st by (auto simp: persist_changed_ids_def persist_sessions_def upsert_all_def List.map_filter_def)
    have "foldl (\<lambda>v s. v(bs_id s \<mapsto> s)) (map_of m0) ?ss k = map_of (bm_sessions st) k" for k
    proof (cases "k \<in> set ids")
      case True
      with cov Some WriteChanged have "map_of (bm_sessions st) k \<noteq> None" by (auto simp: covers_def)
      with True foldl_snapshots [OF m, of "map_of m0" ids k] show ?thesis by simp
    next
      case False
      with cov Some WriteChanged have "map_of (bm_sessions st) k = map_of m0 k" by (simp add: covers_def)
      with False foldl_snapshots [OF m, of "map_of m0" ids k] show ?thesis by simp
    qed
    with upsert_all_quiet_view [OF env ok st(2)] view show ?thesis unfolding db by auto
  next
    case (DeleteRow i)
    with Some st view cov show ?thesis
      by (simp add: delete_persisted_session_def storage_delete_session_def delete_rows_view covers_def)
  qed
qed

lemma run_op_sync: "se_ok env \<Longrightarrow> in_sync env st \<Longrightarrow> in_sync env (snd (run_op env op1 st))"
proof -
  assume env: "se_ok env" and sync: "in_sync env st"
  obtain r t m where lp: "locked_part op1 (bm_sessions st) = (r, t, m)" by (metis prod_cases3)
  let ?st = "st\<lparr>bm_sessions := m\<rparr>"
  from sync locked_part_effect [OF _ lp] have m: "map_ok m" and t: "list_all task_ok (tasks_of t)"
    and cov: "covers t (bm_sessions st) m" by (simp_all add: in_sync_def)
  have ok: "db_ok env (bm_db ?st)" using sync by (simp add: in_sync_def db_ok_def legacy_ok_def)
  from store_part_ok [of env ?st t] env m t ok have
    s: "bm_sessions (store_part env t ?st) = m" "bm_stored (store_part env t ?st) = bm_stored st"
      "db_ok env (bm_db (store_part env t ?st))" by simp_all
  from store_part_sync [OF env _ _ _ t, of ?st "bm_sessions st"] sync m cov
  have "row_view env (se_rows (tables (bm_db (store_part env t ?st)))) = map_of m
    \<and> se_kv (tables (bm_db (store_part env t ?st))) = se_kv (tables (bm_db st)) \<and> faults (bm_db (store_part env t ?st)) = []"
    by (simp add: in_sync_def)
  with s sync m lp show ?thesis by (simp add: in_sync_def run_op_def db_ok_def)
qed

lemma run_ops_sync: "se_ok env \<Longrightarrow> in_sync env st \<Longrightarrow> in_sync env (run_ops env ops st)"
  unfolding run_ops_def by (induction ops arbitrary: st) (simp_all add: run_op_sync)

lemma manager_new_sync:
  assumes "se_ok env" and "rows_ok env (se_rows (tables d))" and "faults d = []"
    and "se_kv (tables d) LEGACY_STORAGE_KEY = None"
  shows "map_of (bm_sessions (manager_new env True d)) = row_view env (se_rows (tables d))
    \<and> tables (bm_db (manager_new env True d)) = tables d \<and> faults (bm_db (manager_new env True d)) = []
    \<and> bm_stored (manager_new env True d)"
proof -
  obtain r d1 where list: "storage_list_sessions env d = (r, d1)" by fastforce
  from list show ?thesis
  proof (rule storage_list_cases)
    fix rows'
    assume r: "r = Inr (List.map_filter (decode_row env) rows')" and set: "set rows' = set (se_rows (tables d))"
      and t1: "tables d1 = tables d" and "faults d = [] \<Longrightarrow> faults d1 = []"
    with assms(3) have f1: "faults d1 = []" by simp
    note dec = rows_decoded [OF assms(2) refl set]
    have get: "on_kv (kv_get LEGACY_STORAGE_KEY) d1 = (Inr None, d1)"
      using f1 t1 assms(4) by (simp add: on_kv_def kv_get_def bindE_def)
    show ?thesis
    proof (cases "List.map_filter (decode_row env) rows' = []")
      case True
      with dec(3) have "row_view env (se_rows (tables d)) = Map.empty" by (simp add: row_view_def fun_eq_iff)
      with True list r get t1 f1 show ?thesis
        by (simp add: manager_new_def load_legacy_background_sessions_def)
    next
      case False
      with list r t1 f1 dec(2) show ?thesis by (simp add: manager_new_def)
    qed
  qed (use assms(3) in simp)
qed


section \<open>Removing linked work\<close>

lemma filter_same_length: "length (filter P xs) = length xs \<Longrightarrow> filter P xs = xs"
  by (metis filter_True length_filter_less nat_neq_iff)

lemma unlink_same: "same_links s (unlink ts ws s) \<Longrightarrow> unlink ts ws s = s"
  by (simp add: same_links_def unlink_def filter_same_length)

lemma rebind_effect:
  "rebind_session ts ws sp sp2 actor s = None \<Longrightarrow> unlink ts ws s = s"
  "rebind_session ts ws sp sp2 actor s = Some s' \<Longrightarrow>
    bs_linked_task_ids s' = bs_linked_task_ids (unlink ts ws s)
    \<and> bs_linked_watcher_ids s' = bs_linked_watcher_ids (unlink ts ws s) \<and> unlink ts ws s \<noteq> s
    \<and> bs_status s' = (if bs_linked_task_ids s' = [] \<and> bs_linked_watcher_ids s' = [] \<and> \<not> is_closed (bs_status s)
        then SCompleted else bs_status s)"
proof -
  assume "rebind_session ts ws sp sp2 actor s = None"
  then show "unlink ts ws s = s" by (intro unlink_same) (simp add: rebind_session_def Let_def split: if_splits)
next
  assume re: "rebind_session ts ws sp sp2 actor s = Some s'"
  let ?u = "unlink ts ws s"
  let ?s1 = "touch sp ''rebound'' ''Linked work was moved or removed.'' None actor ?u"
  from re have "\<not> same_links s ?u" by (auto simp: rebind_session_def Let_def)
  then have "?u \<noteq> s" by (metis same_links_def)
  moreover from re \<open>\<not> same_links s ?u\<close> have s': "s' = (if bs_linked_task_ids ?s1 = [] \<and> bs_linked_watcher_ids ?s1 = []
        \<and> \<not> is_closed (bs_status ?s1)
      then ?s1\<lparr>bs_status := SCompleted, bs_events := push_event (bs_events ?s1)
             (build_event sp2 ''completed'' ''Background session closed after all linked work moved elsewhere.'' None actor)\<rparr>
      else ?s1)"
    by (simp only: rebind_session_def Let_def if_False option.inject)
  moreover have "bs_status ?u = bs_status s" by (simp add: unlink_def)
  moreover have "bs_linked_task_ids s' = bs_linked_task_ids ?u \<and> bs_linked_watcher_ids s' = bs_linked_watcher_ids ?u"
    unfolding s' by simp
  ultimately show "bs_linked_task_ids s' = bs_linked_task_ids (unlink ts ws s)
    \<and> bs_linked_watcher_ids s' = bs_linked_watcher_ids (unlink ts ws s) \<and> unlink ts ws s \<noteq> s
    \<and> bs_status s' = (if bs_linked_task_ids s' = [] \<and> bs_linked_watcher_ids s' = [] \<and> \<not> is_closed (bs_status s)
        then SCompleted else bs_status s)"
    by simp
qed

text \<open>
  Removing linked work. Afterwards no session links a removed task or watcher, the other
  links keep their order, a session that linked none of them is unchanged, and one that loses
  its last link is completed unless it was closed already; no session appears or disappears.
\<close>

theorem remove_children_effect:
  assumes "map_ok m" and "remove_child_references ts ws stamps actor m = (r, t, m')" and "map_of m k = Some s"
  shows "\<exists>s'. map_of m' k = Some s'
    \<and> bs_linked_task_ids s' = filter (\<lambda>v. v \<notin> trim ` set ts) (bs_linked_task_ids s)
    \<and> bs_linked_watcher_ids s' = filter (\<lambda>v. v \<notin> trim ` set ws) (bs_linked_watcher_ids s)
    \<and> (if bs_linked_task_ids s' = bs_linked_task_ids s \<and> bs_linked_watcher_ids s' = bs_linked_watcher_ids s
       then s' = s
       else bs_status s' = (if bs_linked_task_ids s' = [] \<and> bs_linked_watcher_ids s' = [] \<and> \<not> is_closed (bs_status s)
         then SCompleted else bs_status s))
    \<and> map fst m' = map fst m"
proof -
  let ?ts = "normalize_id_list ts" and ?ws = "normalize_id_list ws"
  have s: "session_ok s" using map_ok_lookup [OF assms(1,3)] by (simp add: ok_as_def)
  then have "[] \<notin> set (bs_linked_task_ids s)" "[] \<notin> set (bs_linked_watcher_ids s)"
    by (auto simp: session_ok_def id_list_ok_def)
  then have links: "bs_linked_task_ids (unlink ?ts ?ws s) = filter (\<lambda>v. v \<notin> trim ` set ts) (bs_linked_task_ids s)"
      "bs_linked_watcher_ids (unlink ?ts ?ws s) = filter (\<lambda>v. v \<notin> trim ` set ws) (bs_linked_watcher_ids s)"
    by (auto simp: unlink_def normalize_id_list_set intro!: filter_cong)
  have eq: "unlink ?ts ?ws s = s" if "bs_linked_task_ids (unlink ?ts ?ws s) = bs_linked_task_ids s"
      "bs_linked_watcher_ids (unlink ?ts ?ws s) = bs_linked_watcher_ids s"
    using that by (intro unlink_same) (simp add: same_links_def)
  show ?thesis
  proof (cases "?ts = [] \<and> ?ws = []")
    case True
    then have "m' = m" using assms(2) by (simp add: remove_child_references_def Let_def)
    moreover have "unlink ?ts ?ws s = s" using True by (simp add: unlink_def)
    ultimately show ?thesis using links assms(3) by (intro exI [of _ s]) simp
  next
    case False
    let ?re = "\<lambda>k s. rebind_session ?ts ?ws (fst (stamps k)) (snd (stamps k)) actor s"
    from False assms(2) have m': "m' = map (\<lambda>(k, s). (k, case ?re k s of Some s' \<Rightarrow> s' | None \<Rightarrow> s)) m"
      by (auto simp: remove_child_references_def Let_def)
    then have keys: "map fst m' = map fst m" by (simp only: keys_rebuild)
    show ?thesis
    proof (cases "?re k s")
      case None
      with m' assms(3) have "map_of m' k = Some s" by (simp add: map_of_rebuild)
      with rebind_effect(1) [OF None] links keys show ?thesis by (intro exI [of _ s]) simp
    next
      case (Some s')
      with m' assms(3) have m's: "map_of m' k = Some s'" by (simp add: map_of_rebuild)
      note eff = rebind_effect(2) [OF Some]
      have "\<not> (bs_linked_task_ids s' = bs_linked_task_ids s \<and> bs_linked_watcher_ids s' = bs_linked_watcher_ids s)"
        using eff eq by metis
      with eff m's links keys show ?thesis by (intro exI [of _ s']) metis
    qed
  qed
qed

section \<open>A stale row\<close>

text \<open>
  Overlapping updates can lose the later one. From any state in which the rows agree with
  the manager and an active session exists, two status changes may interleave so that, with no
  database fault and nothing left to write, the manager holds the session as completed and the
  rows hold it as waiting: after a restart it is open again.
\<close>

theorem stale_write_wins:
  assumes "se_ok env" and "in_sync env st" and "map_of (bm_sessions st) i = Some s" and "trim i = i" and "i \<noteq> []"
    and "bs_status s = Active"
  shows "\<exists>st'. bs_reach env (st, []) (st', []) \<and> faults (bm_db st') = []
    \<and> map_option bs_status (get_session i (bm_sessions st')) = Some SCompleted
    \<and> map_option bs_status (get_session i (bm_sessions (manager_new env True (bm_db st')))) = Some Waiting"
proof -
  let ?sp = "\<lparr>sp_now = 0, sp_event_at = 0, sp_event_id = []\<rparr>"
  let ?op = "\<lambda>status. SetStatus i status [] ?sp None"
  let ?s1 = "touch ?sp ''status_changed'' [] None None (s\<lparr>bs_status := Waiting\<rparr>)"
  let ?s2 = "touch ?sp ''status_changed'' [] None None (?s1\<lparr>bs_status := SCompleted\<rparr>)"
  let ?m1 = "AList.update i ?s1 (bm_sessions st)" and ?m2 = "AList.update i ?s2 (AList.update i ?s1 (bm_sessions st))"
  let ?st1 = "st\<lparr>bm_sessions := ?m1\<rparr>" and ?st2 = "st\<lparr>bm_sessions := ?m2\<rparr>"
  have s: "ok_as i s" using map_ok_lookup [OF _ assms(3)] assms(2) by (simp add: in_sync_def)
  have s1: "ok_as i ?s1" by (rule ok_as_touch [OF ok_as_fields(3) [OF s]])
  have s2: "ok_as i ?s2" by (rule ok_as_touch [OF ok_as_fields(3) [OF s1]])
  have l1: "locked_part (?op Waiting) (bm_sessions st) = (Some ?s1, Some (WriteSession ?s1), ?m1)"
    using assms(3,4,6) by (simp add: modify_session_def set_session_status_def)
  have l2: "locked_part (?op SCompleted) ?m1 = (Some ?s2, Some (WriteSession ?s2), ?m2)"
    using assms(4) by (simp add: modify_session_def set_session_status_def update_conv')
  let ?st3 = "store_part env (Some (WriteSession ?s2)) ?st2"
  let ?st4 = "store_part env (Some (WriteSession ?s1)) ?st3"
  have "bs_step env (st, []) (?st1, [WriteSession ?s1])" using bs_step.locked [OF l1, of env "[]"] by simp
  moreover have "bs_step env (?st1, [WriteSession ?s1]) (?st2, [WriteSession ?s1, WriteSession ?s2])"
    using bs_step.locked [of "?op SCompleted" ?st1 _ _ ?m2 env "[WriteSession ?s1]"] l2 by simp
  moreover have "bs_step env (?st2, [WriteSession ?s1, WriteSession ?s2]) (?st3, [WriteSession ?s1])"
    using bs_step.store [of env ?st2 "[WriteSession ?s1]" "WriteSession ?s2" "[]"] by simp
  moreover have "bs_step env (?st3, [WriteSession ?s1]) (?st4, [])"
    using bs_step.store [of env ?st3 "[]" "WriteSession ?s1" "[]"] by simp
  ultimately have reach: "bs_reach env (st, []) (?st4, [])" by (meson bs_reach.intros)
  have q: "bm_stored st" "faults (bm_db st) = []" "rows_ok env (se_rows (tables (bm_db st)))"
    "se_kv (tables (bm_db st)) LEGACY_STORAGE_KEY = None" using assms(2) by (simp_all add: in_sync_def)
  let ?d3 = "snd (storage_upsert_session env ?s2 (bm_db st))"
  let ?d4 = "snd (storage_upsert_session env ?s1 ?d3)"
  have st4: "bm_sessions ?st4 = ?m2" "bm_db ?st4 = ?d4" using q by (simp_all add: persist_session_def)
  from s1 s2 have ok: "session_ok ?s1" "session_ok ?s2" and ids: "bs_id ?s1 = i" "bs_id ?s2 = i"
    by (simp_all add: ok_as_def)
  note v3 = upsert_quiet_view [OF assms(1) ok(2) q(2)]
  note v4 = upsert_quiet_view [OF assms(1) ok(1) v3 [THEN conjunct2, THEN conjunct2]]
  have "db_ok env (bm_db st)" using q by (simp add: db_ok_def legacy_ok_def)
  from upsert_db_ok [OF assms(1) ok(1) upsert_db_ok [OF assms(1) ok(2) this]]
  have "rows_ok env (se_rows (tables ?d4))" by (simp add: db_ok_def)
  from manager_new_sync [OF assms(1) this] v3 v4 q(4)
  have new: "map_of (bm_sessions (manager_new env True ?d4)) = row_view env (se_rows (tables ?d4))" by simp
  have "map_of (bm_sessions (manager_new env True ?d4)) i = Some ?s1" unfolding new using v4 ids by simp
  moreover have "map_of ?m2 i = Some ?s2" by (simp add: update_conv')
  ultimately show ?thesis using reach st4 v4 assms(4,5)
    by (intro exI [of _ ?st4]) (simp add: get_session_def)
qed

section \<open>Well-formed sessions in every interleaving\<close>

text \<open>
  C2. Sessions stay well formed. Whatever operations run, in whatever order their rows are
  written, with database faults at any statement and restarts at any point, every session is
  found under its own id; its texts are trimmed and at most three characters longer than their
  limit, optional texts not empty; its links are distinct trimmed ids; its policy is normal; it
  has at most 80 events; and every stored row reads back as a session of the same id with these
  properties.
\<close>

theorem sessions_reachable_ok:
  assumes "se_ok env" and "map_ok (bm_sessions st)" and "rows_ok env (se_rows (tables (bm_db st)))"
    and "legacy_ok env (se_kv (tables (bm_db st)))" and "bs_reach env (st, []) (st', q)"
  shows "distinct (map fst (bm_sessions st'))
    \<and> (\<forall>(k, s) \<in> set (bm_sessions st'). bs_id s = k \<and> session_ok s)
    \<and> rows_ok env (se_rows (tables (bm_db st')))"
proof -
  have "world_ok env (st, [])" using assms by (simp add: world_ok_def db_ok_def)
  from world_ok_reach [OF assms(5,1) this] have "world_ok env (st', q)" .
  then have m: "map_ok (bm_sessions st')" and "rows_ok env (se_rows (tables (bm_db st')))"
    by (simp_all add: world_ok_def db_ok_def)
  moreover have "\<forall>(k, s) \<in> set (bm_sessions st'). bs_id s = k \<and> session_ok s"
    using m unfolding map_ok_def ok_as_def by blast
  ultimately show ?thesis by (simp add: map_ok_def)
qed

section \<open>Closed examples\<close>

definition sample_stamp :: "int \<Rightarrow> stamp" where
  "sample_stamp t = \<lparr>sp_now = t, sp_event_at = t, sp_event_id = ''e''\<rparr>"

definition sample_create :: session_create where
  "sample_create = \<lparr>bc_title = Some ''Report'', bc_objective = ''write it'', bc_summary = None, bc_current_focus = None,
     bc_waiting_on = None, bc_next_expected_action = None, bc_working_memory = None,
     bc_preferred_delivery_channel = None, bc_channel = None, bc_conversation_id = None,
     bc_task_ids = [''t1''], bc_watcher_ids = [],
     bc_policy = \<lparr>bp_allowed_action_roles = [], bp_allowed_integration_classes = []\<rparr>\<rparr>"

definition empty_se_db :: "char se_db" where
  "empty_se_db = \<lparr>tables = \<lparr>se_kv = \<lambda>_. None, se_rows = []\<rparr>, faults = []\<rparr>"

definition sample_ops :: "bs_op list" where
  "sample_ops = [Create sample_create ''s1'' (sample_stamp 0) None]"

abbreviation sample_start :: "char bs_manager" where
  "sample_start \<equiv> manager_new sample_se_env True empty_se_db"

lemma empty_se_db_ok: "rows_ok sample_se_env (se_rows (tables empty_se_db))" "faults empty_se_db = []"
    "se_kv (tables empty_se_db) LEGACY_STORAGE_KEY = None"
  by (simp_all add: empty_se_db_def rows_ok_def)

lemma sample_start_ok: "bm_sessions sample_start = []" "in_sync sample_se_env sample_start"
proof -
  note new = manager_new_sync [OF sample_se_env_ok empty_se_db_ok]
  have "row_view sample_se_env (se_rows (tables empty_se_db)) = Map.empty"
    by (simp add: empty_se_db_def row_view_def fun_eq_iff)
  with new show m: "bm_sessions sample_start = []" by simp
  have "map_of (bm_sessions sample_start) = row_view sample_se_env (se_rows (tables empty_se_db))"
    using new by (rule conjunct1)
  with new m empty_se_db_ok show "in_sync sample_se_env sample_start" by (simp add: in_sync_def)
qed

definition sample_session :: background_session where
  "sample_session = the (fst (create_session sample_create ''s1'' (sample_stamp 0) None []))"

lemma sample_run: "bm_sessions (run_ops sample_se_env sample_ops sample_start) = [(''s1'', sample_session)]"
proof -
  have "bm_sessions (store_part sample_se_env t st) = bm_sessions st" for t st
    by (induction sample_se_env t st rule: store_part.induct)
      (simp_all add: persist_session_def persist_changed_ids_def persist_sessions_def delete_persisted_session_def)
  then show ?thesis
    by (simp add: run_ops_def sample_ops_def run_op_def sample_start_ok create_session_def Let_def sample_session_def
        del: store_part.simps)
qed

lemma sample_session_fields: "bs_status sample_session = Active" "bs_linked_task_ids sample_session = [''t1'']"
    "bs_linked_watcher_ids sample_session = []"
  by (simp_all add: sample_session_def create_session_def Let_def sample_create_def normalize_id_list_def
      trim_def trim_start_def trim_end_def is_ws_def)


theorem remove_children_effect_witness:
  "\<exists>s'. map_of (snd (snd (remove_child_references ['' t1 ''] [] (\<lambda>_. (sample_stamp 1, sample_stamp 1)) None
      [(''s1'', sample_session)]))) ''s1'' = Some s' \<and> bs_linked_task_ids s' = [] \<and> bs_status s' = SCompleted"
proof -
  let ?m = "[(''s1'', sample_session)]"
  let ?run = "remove_child_references ['' t1 ''] [] (\<lambda>_. (sample_stamp 1, sample_stamp 1)) None ?m"
  have "in_sync sample_se_env (run_ops sample_se_env sample_ops sample_start)"
    by (rule run_ops_sync [OF sample_se_env_ok sample_start_ok(2)])
  then have "map_ok ?m" by (simp add: in_sync_def sample_run)
  from remove_children_effect [OF this, of "['' t1 '']" "[]" "\<lambda>_. (sample_stamp 1, sample_stamp 1)" None
      "fst ?run" "fst (snd ?run)" "snd (snd ?run)" "''s1''" sample_session]
  obtain s' where "map_of (snd (snd ?run)) ''s1'' = Some s'"
    and l: "bs_linked_task_ids s' = filter (\<lambda>v. v \<notin> trim ` set ['' t1 '']) (bs_linked_task_ids sample_session)"
      "bs_linked_watcher_ids s' = filter (\<lambda>v. v \<notin> trim ` set []) (bs_linked_watcher_ids sample_session)"
    and st: "if bs_linked_task_ids s' = bs_linked_task_ids sample_session
         \<and> bs_linked_watcher_ids s' = bs_linked_watcher_ids sample_session
       then s' = sample_session
       else bs_status s' = (if bs_linked_task_ids s' = [] \<and> bs_linked_watcher_ids s' = []
           \<and> \<not> is_closed (bs_status sample_session) then SCompleted else bs_status sample_session)"
    by auto
  have "trim '' t1 '' = ''t1''" by (simp add: trim_def trim_start_def trim_end_def is_ws_def)
  with l have "bs_linked_task_ids s' = []" "bs_linked_watcher_ids s' = []" by (simp_all add: sample_session_fields)
  with st \<open>map_of (snd (snd ?run)) ''s1'' = Some s'\<close> show ?thesis by (simp add: sample_session_fields)
qed

theorem stale_write_wins_witness:
  "\<exists>st'. bs_reach sample_se_env (run_ops sample_se_env sample_ops sample_start, []) (st', [])
    \<and> map_option bs_status (get_session ''s1'' (bm_sessions st')) = Some SCompleted
    \<and> map_option bs_status (get_session ''s1'' (bm_sessions (manager_new sample_se_env True (bm_db st')))) = Some Waiting"
proof -
  have "in_sync sample_se_env (run_ops sample_se_env sample_ops sample_start)"
    by (rule run_ops_sync [OF sample_se_env_ok sample_start_ok(2)])
  moreover have "trim ''s1'' = ''s1''" by (simp add: trim_def trim_start_def trim_end_def is_ws_def)
  ultimately show ?thesis
    using stale_write_wins [OF sample_se_env_ok, of "run_ops sample_se_env sample_ops sample_start" "''s1''" sample_session]
    by (auto simp: sample_run sample_session_fields)
qed

theorem sessions_reachable_ok_witness:
  "\<exists>st' q. bs_reach sample_se_env (sample_start, []) (st', q) \<and> q \<noteq> [] \<and> distinct (map fst (bm_sessions st'))
    \<and> session_ok sample_session"
proof -
  have lp: "locked_part (Create sample_create ''s1'' (sample_stamp 0) None) (bm_sessions sample_start)
      = (Some sample_session, Some (WriteSession sample_session), [(''s1'', sample_session)])"
    by (simp add: sample_start_ok create_session_def Let_def sample_session_def)
  let ?w = "(sample_start\<lparr>bm_sessions := [(''s1'', sample_session)]\<rparr>, [WriteSession sample_session])"
  have reach: "bs_reach sample_se_env (sample_start, []) ?w"
    using bs_reach.more [OF bs_reach.here bs_step.locked [OF lp, of sample_se_env "[]"]] by simp
  have s: "map_ok (bm_sessions sample_start)" "rows_ok sample_se_env (se_rows (tables (bm_db sample_start)))"
    "legacy_ok sample_se_env (se_kv (tables (bm_db sample_start)))"
    using sample_start_ok(2) by (simp_all add: in_sync_def legacy_ok_def)
  from sessions_reachable_ok [OF sample_se_env_ok s reach]
  have "session_ok sample_session" "distinct (map fst (bm_sessions (fst ?w)))" by auto
  with reach show ?thesis
    by (intro exI [of _ "fst ?w"] exI [of _ "snd ?w"]) simp
qed

end
