(* ===== verification/Deployment_Gates.thy ===== *)
theory Deployment_Gates
  imports Kv_Storage Clock_Text
begin

text \<open>
  The gates of \<open>core/self_evolve/gates\<close>: the promotion report
  (\<open>promotion_gate.rs\<close>) and the cadence of stable deployments
  (\<open>deployment_cadence.rs\<close>), whose ledger is a JSON document under one key of the
  key-value store.

  A promotion check is its code, its label and whether it passed; the code's trait
  \<open>PromotionGateCheck\<close> only provides the two texts. Prefixes: \<open>dr_\<close>
  (\<open>StableDeploymentRecord\<close>), \<open>cb_\<close> (\<open>StableDeploymentCadenceBlock\<close>).
\<close>

section \<open>Promotion\<close>

datatype gate_outcome = Passed | Rejected

record gate_reason =
  gr_code :: string
  gr_label :: string

record gate_report =
  gp_outcome :: gate_outcome
  gp_summary :: string
  gp_reasons :: "gate_reason list"

record gate_check =
  gc_code :: string
  gc_label :: string
  gc_passed :: bool

definition report_passed :: gate_report where
  "report_passed = \<lparr>gp_outcome = Passed, gp_summary = ''Passed all promotion checks.'', gp_reasons = []\<rparr>"

definition report_rejected :: "gate_reason list \<Rightarrow> gate_report" where
  "report_rejected reasons = \<lparr>gp_outcome = Rejected,
     gp_summary = (if reasons = [] then ''Not promoted: the candidate did not pass the promotion checks.''
       else ''Not promoted: '' @ intercalate ''; '' (map gr_label reasons) @ ''.''),
     gp_reasons = reasons\<rparr>"

definition render_legacy_promotion_gate :: "gate_check list \<Rightarrow> string" where
  "render_legacy_promotion_gate checks = (let failed = map gc_code (filter (\<lambda>c. \<not> gc_passed c) checks) in
     if failed = [] then ''passed'' else ''rejected: '' @ intercalate '', '' failed)"

definition promotion_gate_report :: "gate_check list \<Rightarrow> gate_report" where
  "promotion_gate_report checks =
    (let reasons = map (\<lambda>c. \<lparr>gr_code = gc_code c, gr_label = gc_label c\<rparr>) (filter (\<lambda>c. \<not> gc_passed c) checks) in
     if reasons = [] then report_passed else report_rejected reasons)"

text \<open>
  Promotion. The report passes exactly when every check passed, and exactly then the legacy
  text is \<open>passed\<close>; otherwise the reasons are the failed checks in their order, and the
  legacy text lists their codes.
\<close>

lemma promotion_report_sound:
  "let rep = promotion_gate_report checks in
    (gp_outcome rep = Passed \<longleftrightarrow> (\<forall>c \<in> set checks. gc_passed c))
    \<and> (gp_outcome rep = Passed \<longleftrightarrow> render_legacy_promotion_gate checks = ''passed'')
    \<and> (gp_outcome rep = Rejected \<longrightarrow>
         render_legacy_promotion_gate checks = ''rejected: '' @ intercalate '', '' (map gr_code (gp_reasons rep)))
    \<and> map gr_label (gp_reasons rep) = map gc_label (filter (\<lambda>c. \<not> gc_passed c) checks)"
  by (auto simp: promotion_gate_report_def render_legacy_promotion_gate_def report_passed_def report_rejected_def
      Let_def filter_empty_conv comp_def)

lemma promotion_report_sound_witness:
  "gp_outcome (promotion_gate_report [\<lparr>gc_code = ''a'', gc_label = ''A'', gc_passed = False\<rparr>]) \<noteq> Passed"
  using promotion_report_sound [of "[\<lparr>gc_code = ''a'', gc_label = ''A'', gc_passed = False\<rparr>]"] by (simp add: Let_def)

section \<open>The ledger of stable deployments\<close>

definition STABLE_DEPLOYMENT_LEDGER_KEY :: string where
  "STABLE_DEPLOYMENT_LEDGER_KEY = ''evolve_stable_deployment_ledger_v1''"

definition OBSERVATION_WINDOW_HOURS :: int where "OBSERVATION_WINDOW_HOURS = 72"
definition LEDGER_RETENTION_DAYS :: int where "LEDGER_RETENTION_DAYS = 180"
definition LEDGER_MAX_ENTRIES :: nat where "LEDGER_MAX_ENTRIES = 256"

record deployment_record =
  dr_deployed_at :: string
  dr_surface :: string
  dr_action :: string
  dr_proposal_id :: "string option"
  dr_version :: "string option"

type_synonym deployment_ledger = "deployment_record list"

record cadence_block =
  cb_deployed_at :: int
  cb_next_allowed_at :: int
  cb_surface :: string
  cb_action :: string
  cb_proposal_id :: "string option"
  cb_version :: "string option"

definition parse_stable_deployment_time :: "chrono \<Rightarrow> string \<Rightarrow> int option" where
  "parse_stable_deployment_time ch v = parse_rfc3339 ch (trim v)"

text \<open>\<open>Iterator::max_by_key\<close>: the last of the elements with the greatest key.\<close>

fun max_by_key :: "('a \<Rightarrow> int) \<Rightarrow> 'a list \<Rightarrow> 'a option" where
  "max_by_key k [] = None"
| "max_by_key k (x # xs) = (case max_by_key k xs of
     None \<Rightarrow> Some x
   | Some y \<Rightarrow> Some (if k x > k y then x else y))"

definition stable_deployment_cadence_block :: "chrono \<Rightarrow> deployment_ledger \<Rightarrow> int \<Rightarrow> cadence_block option result" where
  "stable_deployment_cadence_block ch ledger now =
    (case max_by_key snd (List.map_filter (\<lambda>r. map_option (\<lambda>t. (r, t))
            (parse_stable_deployment_time ch (dr_deployed_at r))) ledger) of
       None \<Rightarrow> Inr None
     | Some (r, deployed_at) \<Rightarrow>
        (case plus_secs ch deployed_at (OBSERVATION_WINDOW_HOURS * 3600) of
           None \<Rightarrow> Inl (Panicked ''DateTime + TimeDelta overflowed'')
         | Some next_allowed_at \<Rightarrow>
            Inr (if now \<ge> next_allowed_at then None
              else Some \<lparr>cb_deployed_at = deployed_at, cb_next_allowed_at = next_allowed_at, cb_surface = dr_surface r,
                cb_action = dr_action r, cb_proposal_id = dr_proposal_id r, cb_version = dr_version r\<rparr>)))"

definition stable_deployment_surface_label :: "string \<Rightarrow> string" where
  "stable_deployment_surface_label surface =
    (if surface = ''routing_policy'' then ''routing policy''
     else if surface = ''tool_strategy'' then ''tool strategy''
     else if surface = ''prompt'' then ''primary prompt''
     else if surface = ''specialist_prompt'' then ''specialist prompt''
     else if surface = ''prompt_fragment'' then ''prompt fragments''
     else ''an Evolve surface'')"

definition stable_deployment_cadence_block_message :: "chrono \<Rightarrow> cadence_block \<Rightarrow> string" where
  "stable_deployment_cadence_block_message ch b = ''Stable deployment is paused until '' @ to_rfc3339 ch (cb_next_allowed_at b)
     @ ''. The last stable deployment was '' @ to_rfc3339 ch (cb_deployed_at b) @ '' for ''
     @ stable_deployment_surface_label (cb_surface b)
     @ ''; use the observation window to monitor behavior and roll back if needed before deploying another production change.''"

definition load_stable_deployment_ledger :: "(deployment_ledger, 'b) codec \<Rightarrow> ('b kv_db, deployment_ledger) io" where
  "load_stable_deployment_ledger c = bindE (kv_get STABLE_DEPLOYMENT_LEDGER_KEY) (\<lambda>raw. case raw of
     None \<Rightarrow> ret []
   | Some bytes \<Rightarrow> (case from_slice c bytes of
        None \<Rightarrow> fail (Err ''parse stable deployment ledger'')
      | Some ledger \<Rightarrow> ret ledger))"

definition cadence_block_for_storage ::
    "chrono \<Rightarrow> (deployment_ledger, 'b) codec \<Rightarrow> int \<Rightarrow> ('b kv_db, cadence_block option) io" where
  "cadence_block_for_storage ch c now = bindE (load_stable_deployment_ledger c) (\<lambda>ledger.
     lift_result (stable_deployment_cadence_block ch ledger now))"

definition normalize_stable_deployment_record :: "deployment_record \<Rightarrow> deployment_record" where
  "normalize_stable_deployment_record r = r\<lparr>dr_deployed_at := trim (dr_deployed_at r), dr_surface := trim (dr_surface r),
     dr_action := trim (dr_action r), dr_proposal_id := trim_opt (dr_proposal_id r), dr_version := trim_opt (dr_version r)\<rparr>"

text \<open>Instants of the earliest representable date are \<open>DateTime::MIN_UTC\<close>; no retained entry uses it.\<close>

definition MIN_UTC :: int where "MIN_UTC = secs (-8334601228800)"

definition prune_stable_deployment_ledger :: "chrono \<Rightarrow> deployment_ledger \<Rightarrow> int \<Rightarrow> deployment_ledger result" where
  "prune_stable_deployment_ledger ch ledger now =
    (case plus_secs ch now (- (LEDGER_RETENTION_DAYS * 86400)) of
       None \<Rightarrow> Inl (Panicked ''DateTime - TimeDelta overflowed'')
     | Some retention_floor \<Rightarrow>
        (let kept = filter (\<lambda>r. case parse_stable_deployment_time ch (dr_deployed_at r) of
               Some t \<Rightarrow> t \<ge> retention_floor | None \<Rightarrow> False) ledger;
             sorted1 = sort_key (\<lambda>r. case parse_stable_deployment_time ch (dr_deployed_at r) of
               Some t \<Rightarrow> t | None \<Rightarrow> MIN_UTC) kept
         in Inr (if length sorted1 > LEDGER_MAX_ENTRIES then drop (length sorted1 - LEDGER_MAX_ENTRIES) sorted1 else sorted1)))"

text \<open>Two clock readings: for a missing deployment time and for the retention floor; \<open>stamp_text\<close> is the row's own time.\<close>

definition record_stable_deployment ::
    "chrono \<Rightarrow> (deployment_ledger, 'b) codec \<Rightarrow> string \<Rightarrow> int \<Rightarrow> int \<Rightarrow> deployment_record \<Rightarrow> ('b kv_db, unit) io" where
  "record_stable_deployment ch c stamp_text now1 now2 record0 =
    (let r0 = normalize_stable_deployment_record record0;
         r = (if dr_deployed_at r0 = [] then r0\<lparr>dr_deployed_at := to_rfc3339 ch now1\<rparr> else r0)
     in bindE (load_stable_deployment_ledger c) (\<lambda>ledger.
        bindE (lift_result (prune_stable_deployment_ledger ch (ledger @ [r]) now2)) (\<lambda>pruned.
        case to_vec c pruned of
          None \<Rightarrow> fail (Err ''serialize stable deployment ledger'')
        | Some bytes \<Rightarrow> kv_set stamp_text STABLE_DEPLOYMENT_LEDGER_KEY bytes)))"

section \<open>The observation window is enforced\<close>

lemma max_by_key_None: "max_by_key k xs = None \<longleftrightarrow> xs = []"
  by (cases xs) (auto split: option.splits)

lemma max_by_key_Some: "max_by_key k xs = Some y \<Longrightarrow> y \<in> set xs \<and> (\<forall>x \<in> set xs. k x \<le> k y)"
proof (induction xs arbitrary: y)
  case (Cons x xs)
  show ?case
  proof (cases "max_by_key k xs")
    case None
    then show ?thesis using Cons.prems by (simp add: max_by_key_None)
  next
    case (Some z)
    with Cons.IH [OF Some] Cons.prems show ?thesis by (auto split: if_splits)
  qed
qed simp

definition deployed_times :: "chrono \<Rightarrow> deployment_ledger \<Rightarrow> int set" where
  "deployed_times ch ledger = {t. \<exists>r \<in> set ledger. parse_stable_deployment_time ch (dr_deployed_at r) = Some t}"

definition times_ok :: "chrono \<Rightarrow> deployment_ledger \<Rightarrow> bool" where
  "times_ok ch ledger \<longleftrightarrow> (\<forall>t \<in> deployed_times ch ledger. rfc_range t \<and> rfc_range (t + secs (72 * 3600)))"

text \<open>The check blocks exactly until 72 hours after the latest readable deployment.\<close>

lemma cadence_block_spec:
  assumes "chrono_ok ch" and "times_ok ch ledger"
  shows "\<exists>v. stable_deployment_cadence_block ch ledger now = Inr v
    \<and> (v = None \<longleftrightarrow> (\<forall>t \<in> deployed_times ch ledger. t + secs (72 * 3600) \<le> now))
    \<and> (\<forall>b. v = Some b \<longrightarrow> cb_deployed_at b \<in> deployed_times ch ledger
         \<and> (\<forall>t \<in> deployed_times ch ledger. t \<le> cb_deployed_at b)
         \<and> cb_next_allowed_at b = cb_deployed_at b + secs (72 * 3600))"
proof -
  let ?xs = "List.map_filter (\<lambda>r. map_option (\<lambda>t. (r, t)) (parse_stable_deployment_time ch (dr_deployed_at r))) ledger"
  have set: "snd ` set ?xs = deployed_times ch ledger"
    by (force simp: deployed_times_def List.map_filter_def image_iff)
  show ?thesis
  proof (cases "max_by_key snd ?xs")
    case None
    then have "deployed_times ch ledger = {}" using set by (simp add: max_by_key_None)
    with None show ?thesis by (simp add: stable_deployment_cadence_block_def)
  next
    case (Some p)
    obtain r t where p: "p = (r, t)" by fastforce
    from max_by_key_Some [OF Some] p have m: "(r, t) \<in> set ?xs" "\<forall>x \<in> set ?xs. snd x \<le> t" by simp_all
    from imageI [OF m(1), of snd] have t1: "t \<in> deployed_times ch ledger" by (simp only: set snd_conv)
    have t2: "\<forall>u \<in> deployed_times ch ledger. u \<le> t" using m(2) by (simp only: set [symmetric] ball_simps)
    note t = t1 t2
    with assms have "plus_secs ch t (72 * 3600) = Some (t + secs (72 * 3600))"
      by (intro chrono_plus) (auto simp: times_ok_def)
    then have "stable_deployment_cadence_block ch ledger now = Inr (if now \<ge> t + secs (72 * 3600) then None
        else Some \<lparr>cb_deployed_at = t, cb_next_allowed_at = t + secs (72 * 3600), cb_surface = dr_surface r,
                cb_action = dr_action r, cb_proposal_id = dr_proposal_id r, cb_version = dr_version r\<rparr>)"
      using Some p by (simp add: stable_deployment_cadence_block_def OBSERVATION_WINDOW_HOURS_def)
    moreover have "(\<forall>u \<in> deployed_times ch ledger. u + secs (72 * 3600) \<le> now) \<longleftrightarrow> t + secs (72 * 3600) \<le> now"
      using t by (meson add_right_mono order_trans)
    ultimately show ?thesis using t by simp
  qed
qed

lemma prune_keeps_latest:
  assumes "prune_stable_deployment_ledger ch ledger now = Inr pruned" and "plus_secs ch now (- (180 * 86400)) = Some lo"
    and "t \<in> deployed_times ch ledger" and "lo \<le> t"
  shows "set pruned \<subseteq> set ledger \<and> (\<exists>u \<in> deployed_times ch pruned. t \<le> u)"
proof -
  let ?time = "\<lambda>r. parse_stable_deployment_time ch (dr_deployed_at r)"
  let ?key = "\<lambda>r. case ?time r of Some t \<Rightarrow> t | None \<Rightarrow> MIN_UTC"
  let ?kept = "filter (\<lambda>r. case ?time r of Some t \<Rightarrow> t \<ge> lo | None \<Rightarrow> False) ledger"
  let ?s = "sort_key ?key ?kept"
  have pruned: "pruned = drop (length ?s - 256) ?s"
    using assms(1,2) by (auto simp: prune_stable_deployment_ledger_def LEDGER_RETENTION_DAYS_def LEDGER_MAX_ENTRIES_def Let_def)
  from assms(3) obtain r where r: "r \<in> set ledger" "?time r = Some t" by (auto simp: deployed_times_def)
  then have rs: "r \<in> set ?s" using assms(4) by simp
  then have ne: "?s \<noteq> []" by (metis empty_iff list.set(1))
  have "last ?s \<in> set ?s" using ne by (rule last_in_set)
  then obtain u where u: "?time (last ?s) = Some u" by (auto split: option.splits)
  obtain i where i: "i < length ?s" "?s ! i = r" using rs by (metis in_set_conv_nth)
  have "?key (?s ! i) \<le> ?key (?s ! (length ?s - 1))"
    using sorted_sort_key [of ?key ?kept] i(1) by (auto simp: sorted_iff_nth_mono simp del: set_sort)
  then have "t \<le> u" using r(2) u i(2) ne by (simp add: last_conv_nth)
  moreover have "last ?s \<in> set pruned"
  proof -
    have "0 < length ?s" using ne by blast
    then have "length ?s - 256 < length ?s" by linarith
    then have "pruned \<noteq> []" "last pruned = last ?s" unfolding pruned by (simp_all del: length_sort)
    then show ?thesis by (metis last_in_set)
  qed
  then have "u \<in> deployed_times ch pruned" using u by (auto simp: deployed_times_def)
  moreover have "set pruned \<subseteq> set ledger" unfolding pruned by (auto dest!: in_set_dropD)
  ultimately show ?thesis by blast
qed
definition stored_ledger :: "(deployment_ledger, 'b) codec \<Rightarrow> 'b kv_db \<Rightarrow> deployment_ledger option" where
  "stored_ledger c d = (case kv_lookup d STABLE_DEPLOYMENT_LEDGER_KEY of None \<Rightarrow> Some [] | Some bytes \<Rightarrow> from_slice c bytes)"

lemma load_ledger_stored:
  "load_stable_deployment_ledger c d = (Inr ledger, d') \<Longrightarrow> stored_ledger c d = Some ledger \<and> tables d' = tables d"
  unfolding load_stable_deployment_ledger_def stored_ledger_def
  by (erule bindE_InrE) (auto split: option.splits dest: kv_get_value kv_get_frame)

lemma stored_ledger_cong: "tables d' = tables d \<Longrightarrow> stored_ledger c d' = stored_ledger c d"
  by (simp add: stored_ledger_def kv_lookup_def)

lemma cadence_block_for_storageE:
  assumes "cadence_block_for_storage ch c now d = (Inr v, d')"
  obtains ledger where "stored_ledger c d = Some ledger" and "stable_deployment_cadence_block ch ledger now = Inr v"
  using assms unfolding cadence_block_for_storage_def
  by (auto elim!: bindE_InrE dest!: load_ledger_stored)

lemma deployed_times_mono: "set xs \<subseteq> set ys \<Longrightarrow> deployed_times ch xs \<subseteq> deployed_times ch ys"
  by (auto simp: deployed_times_def)

lemma deployed_times_snoc:
  "deployed_times ch (xs @ [r]) = deployed_times ch xs
     \<union> (case parse_stable_deployment_time ch (dr_deployed_at r) of None \<Rightarrow> {} | Some t \<Rightarrow> {t})"
  by (auto simp: deployed_times_def split: option.splits)

text \<open>The record a call adds: normalised, stamped when it carries no time of its own.\<close>

definition added_record :: "chrono \<Rightarrow> int \<Rightarrow> deployment_record \<Rightarrow> deployment_record" where
  "added_record ch now1 record0 = (let r0 = normalize_stable_deployment_record record0 in
     if dr_deployed_at r0 = [] then r0\<lparr>dr_deployed_at := to_rfc3339 ch now1\<rparr> else r0)"

lemma added_time:
  assumes "chrono_ok ch" and "rfc_range t"
    and "if trim (dr_deployed_at r) = [] then t = now1 else parse_rfc3339 ch (trim (dr_deployed_at r)) = Some t"
  shows "parse_stable_deployment_time ch (dr_deployed_at (added_record ch now1 r)) = Some t"
proof (cases "trim (dr_deployed_at r) = []")
  case True
  have [simp]: "trim (to_rfc3339 ch s) = to_rfc3339 ch s" for s
    using assms(1) by (simp add: chrono_ok_def trim_no_ws list_all_iff)
  have "t = now1" using True assms(3) by simp
  then show ?thesis using True chrono_parse [OF assms(1,2)]
    by (simp add: parse_stable_deployment_time_def added_record_def normalize_stable_deployment_record_def)
next
  case False
  then show ?thesis using assms(3)
    by (simp add: parse_stable_deployment_time_def added_record_def normalize_stable_deployment_record_def)
qed

lemma record_stable_deploymentE:
  assumes "record_stable_deployment ch c stamp now1 now2 r d = (Inr (), d')" and "codec_ok c"
  obtains ledger pruned where "stored_ledger c d = Some ledger"
    and "prune_stable_deployment_ledger ch (ledger @ [added_record ch now1 r]) now2 = Inr pruned"
    and "stored_ledger c d' = Some pruned"
proof -
  obtain ledger d1 pruned bytes where load: "load_stable_deployment_ledger c d = (Inr ledger, d1)"
    and prune: "prune_stable_deployment_ledger ch (ledger @ [added_record ch now1 r]) now2 = Inr pruned"
    and bytes: "to_vec c pruned = Some bytes"
    and saved: "kv_set stamp STABLE_DEPLOYMENT_LEDGER_KEY bytes d1 = (Inr (), d')"
    using assms(1) unfolding record_stable_deployment_def added_record_def Let_def
    by (elim bindE_InrE) (auto split: option.splits)
  from bytes assms(2) have "from_slice c bytes = Some pruned"
    by (metis codec_ok_def option.inject)
  then have "stored_ledger c d' = Some pruned"
    using kv_set_cases [OF saved] by (simp add: stored_ledger_def kv_lookup_def)
  with that load_ledger_stored [OF load] prune show ?thesis by blast
qed

text \<open>
  C8. The observation window is enforced. Take a stable deployment that was recorded successfully with a
  deployment time that is blank (then it is the clock's) or can be read, and is no older than the 180 days
  the ledger keeps. As long as the tables are as the recording left them, every check of the ledger within
  72 hours of that time blocks, and until no earlier than the end of these 72 hours. The stored times and
  those compared lie in the range of the clock. A record whose time is neither blank nor readable is
  accepted as well, but opens no window.
\<close>

theorem cadence_enforced:
  assumes "chrono_ok ch" and "codec_ok c"
    and "stored_ledger c d = Some ledger" and "times_ok ch ledger"
    and "if trim (dr_deployed_at r) = [] then t = now1 else parse_rfc3339 ch (trim (dr_deployed_at r)) = Some t"
    and "rfc_range t" and "rfc_range (t + secs (72 * 3600))"
    and "rfc_range now2" and "rfc_range (now2 - secs (180 * 86400))" and "now2 - secs (180 * 86400) \<le> t"
    and "record_stable_deployment ch c stamp now1 now2 r d = (Inr (), d')"
    and "tables later = tables d'" and "now < t + secs (72 * 3600)"
    and "cadence_block_for_storage ch c now later = (Inr v, later')"
  shows "\<exists>b. v = Some b \<and> t + secs (72 * 3600) \<le> cb_next_allowed_at b
    \<and> cb_next_allowed_at b = cb_deployed_at b + secs (72 * 3600)"
proof -
  obtain pruned where prune: "prune_stable_deployment_ledger ch (ledger @ [added_record ch now1 r]) now2 = Inr pruned"
    and stored: "stored_ledger c d' = Some pruned"
    using record_stable_deploymentE [OF assms(11,2)] assms(3) by force
  have time: "parse_stable_deployment_time ch (dr_deployed_at (added_record ch now1 r)) = Some t"
    by (rule added_time [OF assms(1,6,5)])
  have lo: "plus_secs ch now2 (- (180 * 86400)) = Some (now2 - secs (180 * 86400))"
    using chrono_plus [OF assms(1,8), of "- (180 * 86400)"] assms(9) by (simp add: secs_def)
  have "t \<in> deployed_times ch (ledger @ [added_record ch now1 r])" by (simp add: deployed_times_snoc time)
  from prune_keeps_latest [OF prune lo this assms(10)]
  obtain u where sub: "set pruned \<subseteq> set (ledger @ [added_record ch now1 r])" and u: "u \<in> deployed_times ch pruned" "t \<le> u"
    by blast
  have "times_ok ch pruned"
    using deployed_times_mono [OF sub, of ch] assms(4,6,7) unfolding times_ok_def
    by (auto simp: deployed_times_snoc time)
  note spec = cadence_block_spec [OF assms(1) this, of now]
  have "stable_deployment_cadence_block ch pruned now = Inr v"
    using assms(14) stored stored_ledger_cong [OF assms(12), of c] by (elim cadence_block_for_storageE) simp
  with spec have v: "v = None \<longleftrightarrow> (\<forall>t \<in> deployed_times ch pruned. t + secs (72 * 3600) \<le> now)"
    "\<And>b. v = Some b \<Longrightarrow> (\<forall>t \<in> deployed_times ch pruned. t \<le> cb_deployed_at b) \<and> cb_next_allowed_at b = cb_deployed_at b + secs (72 * 3600)"
    by auto
  have "v \<noteq> None" using v(1) u assms(13) by force
  then obtain b where "v = Some b" by blast
  with v(2) u show ?thesis by force
qed

definition sample_deployment :: deployment_record where
  "sample_deployment = \<lparr>dr_deployed_at = '' '', dr_surface = ''prompt'', dr_action = ''manual_promote'',
     dr_proposal_id = None, dr_version = None\<rparr>"

theorem cadence_enforced_witness:
  "\<exists>d' b. record_stable_deployment decimal_chrono one_codec ''t'' (secs 20000000) (secs 20000001) sample_deployment empty_db = (Inr (), d')
    \<and> cadence_block_for_storage decimal_chrono one_codec (secs 20100000) d' = (Inr (Some b), d')
    \<and> secs 20000000 + secs (72 * 3600) \<le> cb_next_allowed_at b"
proof -
  let ?r = "sample_deployment\<lparr>dr_deployed_at := show_int (secs 20000000)\<rparr>"
  have ws: "trim (show_int i) = show_int i" for i
    using show_int_no_ws [of i] by (simp add: trim_no_ws list_all_iff)
  have n: "normalize_stable_deployment_record sample_deployment = sample_deployment\<lparr>dr_deployed_at := []\<rparr>"
    by (simp add: normalize_stable_deployment_record_def sample_deployment_def) code_simp
  have p: "prune_stable_deployment_ledger decimal_chrono [?r] (secs 20000001) = Inr [?r]"
    by (simp add: prune_stable_deployment_ledger_def parse_stable_deployment_time_def ws LEDGER_MAX_ENTRIES_def
        LEDGER_RETENTION_DAYS_def rfc_range_num secs_def ns_per_sec_def decimal_chrono_def)
  let ?d = "\<lparr>tables = kv_upsert ''t'' STABLE_DEPLOYMENT_LEDGER_KEY [[?r]] (\<lambda>_. None), faults = []\<rparr> :: deployment_ledger kv_db"
  have rec: "record_stable_deployment decimal_chrono one_codec ''t'' (secs 20000000) (secs 20000001) sample_deployment empty_db = (Inr (), ?d)"
    by (simp add: record_stable_deployment_def n load_stable_deployment_ledger_def empty_db_def kv_get_def kv_set_def bindE_def
        p one_codec_def)
  have chk: "\<exists>b. cadence_block_for_storage decimal_chrono one_codec (secs 20100000) ?d = (Inr (Some b), ?d)"
    by (simp add: cadence_block_for_storage_def load_stable_deployment_ledger_def kv_get_def bindE_def one_codec_def kv_upsert_def
        stable_deployment_cadence_block_def parse_stable_deployment_time_def ws OBSERVATION_WINDOW_HOURS_def List.map_filter_def
        rfc_range_num secs_def ns_per_sec_def decimal_chrono_def)
  then obtain b where b: "cadence_block_for_storage decimal_chrono one_codec (secs 20100000) ?d = (Inr (Some b), ?d)" by blast
  have "\<exists>b'. Some b = Some b' \<and> secs 20000000 + secs (72 * 3600) \<le> cb_next_allowed_at b'
      \<and> cb_next_allowed_at b' = cb_deployed_at b' + secs (72 * 3600)"
    by (rule cadence_enforced [OF decimal_chrono_ok one_codec_ok _ _ _ _ _ _ _ _ rec refl _ b, of "[]"])
      (simp_all add: stored_ledger_def kv_lookup_def empty_db_def times_ok_def deployed_times_def rfc_range_num
        secs_def ns_per_sec_def sample_deployment_def, code_simp)
  with rec b show ?thesis by blast
qed

end
