(* ===== verification/Live_Run.thy ===== *)
theory Live_Run
  imports Storage_String Json_Value Clock_Text "HOL-Library.Word" "HOL-Library.Sublist"
begin

text \<open>
  Live runs: \<open>core/automation/live_run.rs\<close> (\<open>LiveRunRegistry\<close>, the events of the
  runs in progress, replayed to late subscribers) and the run checkpoints of
  \<open>storage/repositories/execution.rs\<close>, in which the events are kept.

  The broadcast channel of a run is the list of the events sent on it (\<open>le_sent\<close>) and a
  receiver the position at which it subscribed. \<open>Instant\<close>s are nanoseconds of the monotonic
  clock, given as one reading per call; the wall clock is the text of the event's \<open>ts\<close>.
  An append is spawned as a task: \<open>ls_spawned\<close> holds the appends that have not run yet, and
  they run in any order. Prefixes: \<open>ev_\<close> (\<open>RunEvent\<close>), \<open>le_\<close>
  (\<open>LiveRunEntry\<close>), \<open>cp_\<close> (\<open>ExecutionCheckpoint\<close>), \<open>rc_\<close> (a row of
  \<open>run_checkpoints\<close>).
\<close>

section \<open>Events and checkpoints\<close>

definition LIVE_RUN_REPLAY_LIMIT :: nat where "LIVE_RUN_REPLAY_LIMIT = 12000"
definition LIVE_RUN_COMPLETED_TTL :: int where "LIVE_RUN_COMPLETED_TTL = 45 * 60 * 1000000000"
definition LIVE_RUN_ACTIVE_IDLE_TTL :: int where "LIVE_RUN_ACTIVE_IDLE_TTL = 2 * 60 * 60 * 1000000000"

datatype event_priority = Critical | High | Normal | Low

record run_event =
  ev_run_id :: string
  ev_seq :: nat
  ev_ts :: string
  ev_flow_kind :: string
  ev_origin :: string
  ev_kind :: string
  ev_priority :: event_priority
  ev_stage :: "string option"
  ev_payload :: json

record checkpoint =
  cp_run_id :: string
  cp_sequence_no :: nat
  cp_stage :: string
  cp_payload :: string
  cp_created_at :: string

record checkpoint_row =
  rc_run_id :: string
  rc_sequence_no :: int
  rc_stage :: string
  rc_payload :: string
  rc_created_at :: string

record live_entry =
  le_sent :: "run_event list"
  le_replay :: "run_event list"
  le_next_seq :: nat
  le_completed :: bool
  le_updated_at :: int

text \<open>The texts serde\_json writes and reads, next to the storage's cipher and codecs.\<close>

record 'b live_env =
  lv_text :: "'b text_env"
  lv_write :: "run_event \<Rightarrow> string option"
  lv_read :: "string \<Rightarrow> run_event option"
  lv_value :: "string \<Rightarrow> json option"

record live_state =
  ls_storage :: bool
  ls_entries :: "string \<Rightarrow> live_entry option"
  ls_spawned :: "checkpoint list"
  ls_db :: "checkpoint_row list db"

definition payload_text :: "string \<Rightarrow> json \<Rightarrow> string" where
  "payload_text k j = (case json_get k j of None \<Rightarrow> [] | Some v \<Rightarrow> (case json_as_str v of None \<Rightarrow> [] | Some s \<Rightarrow> s))"

definition should_persist_run_event :: "run_event \<Rightarrow> bool" where
  "should_persist_run_event e =
    (if ev_kind e = ''token'' then False
     else if ev_kind e = ''thinking'' then
       (let stream_key = payload_text ''__streamKey'' (ev_payload e);
            step_type = payload_text ''step_type'' (ev_payload e)
        in \<not> (stream_key = ''public-thinking'' \<or> step_type = ''heartbeat''))
     else True)"

definition run_event_checkpoint :: "'b live_env \<Rightarrow> run_event \<Rightarrow> checkpoint option" where
  "run_event_checkpoint env e =
    (if \<not> should_persist_run_event e then None
     else (case lv_write env e of
        None \<Rightarrow> None
      | Some payload \<Rightarrow> Some \<lparr>cp_run_id = ev_run_id e, cp_sequence_no = min (ev_seq e) u32_max,
          cp_stage = ev_kind e, cp_payload = payload, cp_created_at = ev_ts e\<rparr>))"

section \<open>The rows\<close>

text \<open>\<open>u32 as i32\<close>, and \<open>i32::max(0) as u32\<close>.\<close>

definition as_i32 :: "nat \<Rightarrow> int" where "as_i32 n = sint (of_nat n :: 32 word)"

definition put_checkpoint :: "checkpoint_row \<Rightarrow> checkpoint_row list \<Rightarrow> checkpoint_row list" where
  "put_checkpoint row rows =
    (if \<exists>r \<in> set rows. rc_run_id r = rc_run_id row \<and> rc_sequence_no r = rc_sequence_no row
     then map (\<lambda>r. if rc_run_id r = rc_run_id row \<and> rc_sequence_no r = rc_sequence_no row then row else r) rows
     else rows @ [row])"

definition append_execution_checkpoint :: "'b live_env \<Rightarrow> checkpoint \<Rightarrow> (checkpoint_row list db, unit) io" where
  "append_execution_checkpoint env cp = (case encrypt_storage_string (lv_text env) (cp_payload cp) of
     Inl e \<Rightarrow> fail e
   | Inr payload \<Rightarrow> stmt (\<lambda>t. ((), put_checkpoint \<lparr>rc_run_id = cp_run_id cp, rc_sequence_no = as_i32 (cp_sequence_no cp),
        rc_stage = cp_stage cp, rc_payload = payload, rc_created_at = cp_created_at cp\<rparr> t)))"

definition row_checkpoint :: "'b live_env \<Rightarrow> checkpoint_row \<Rightarrow> checkpoint" where
  "row_checkpoint env r = \<lparr>cp_run_id = rc_run_id r, cp_sequence_no = nat (max (rc_sequence_no r) 0), cp_stage = rc_stage r,
     cp_payload = decrypt_storage_string (lv_text env) (rc_payload r), cp_created_at = rc_created_at r\<rparr>"

definition load_execution_checkpoints :: "'b live_env \<Rightarrow> string \<Rightarrow> (checkpoint_row list db, checkpoint list) io" where
  "load_execution_checkpoints env run_id =
     bindE (stmt (\<lambda>t. (sort_key rc_sequence_no (filter (\<lambda>r. rc_run_id r = run_id) t), t)))
       (\<lambda>rows. ret (map (row_checkpoint env) rows))"

definition checkpoint_event :: "'b live_env \<Rightarrow> checkpoint \<Rightarrow> run_event option" where
  "checkpoint_event env cp = (case lv_read env (cp_payload cp) of
     Some e \<Rightarrow> Some e
   | None \<Rightarrow> map_option (\<lambda>payload. \<lparr>ev_run_id = cp_run_id cp, ev_seq = cp_sequence_no cp, ev_ts = cp_created_at cp,
       ev_flow_kind = ''chat'', ev_origin = [], ev_kind = ''checkpoint'', ev_priority = Normal,
       ev_stage = Some (cp_stage cp), ev_payload = payload\<rparr>) (lv_value env (cp_payload cp)))"

definition load_persisted_events :: "'b live_env \<Rightarrow> bool \<Rightarrow> string \<Rightarrow> (checkpoint_row list db, run_event list) io" where
  "load_persisted_events env storage run_id =
    (if \<not> storage then ret []
     else bindE (load_execution_checkpoints env run_id) (\<lambda>cps. ret (List.map_filter (checkpoint_event env) cps)))"

section \<open>The registry\<close>

definition expired :: "int \<Rightarrow> live_entry \<Rightarrow> bool" where
  "expired now e \<longleftrightarrow> \<not> (max 0 (now - le_updated_at e)
     \<le> (if le_completed e then LIVE_RUN_COMPLETED_TTL else LIVE_RUN_ACTIVE_IDLE_TTL))"

definition cleanup_locked :: "int \<Rightarrow> (string \<Rightarrow> live_entry option) \<Rightarrow> (string \<Rightarrow> live_entry option)" where
  "cleanup_locked now entries = (\<lambda>k. case entries k of
     None \<Rightarrow> None | Some e \<Rightarrow> if expired now e then None else Some e)"

definition new_entry :: "int \<Rightarrow> live_entry" where
  "new_entry now = \<lparr>le_sent = [], le_replay = [], le_next_seq = 1, le_completed = False, le_updated_at = now\<rparr>"

text \<open>What a call of \<open>publish_event\<close> says of its event.\<close>

record publication =
  pb_run_id :: string
  pb_flow_kind :: string
  pb_origin :: string
  pb_kind :: string
  pb_priority :: event_priority
  pb_stage :: "string option"
  pb_payload :: json

definition entry_event :: "string \<Rightarrow> publication \<Rightarrow> live_entry \<Rightarrow> run_event" where
  "entry_event ts p e = \<lparr>ev_run_id = trim (pb_run_id p), ev_seq = le_next_seq e, ev_ts = ts, ev_flow_kind = pb_flow_kind p,
     ev_origin = pb_origin p, ev_kind = pb_kind p, ev_priority = pb_priority p, ev_stage = pb_stage p, ev_payload = pb_payload p\<rparr>"

definition push_live_event :: "int \<Rightarrow> run_event \<Rightarrow> live_entry \<Rightarrow> live_entry" where
  "push_live_event now ev e = e\<lparr>le_next_seq := sat_add_u64 (le_next_seq e) 1,
     le_replay := (if length (le_replay e) \<ge> LIVE_RUN_REPLAY_LIMIT then drop 1 (le_replay e) else le_replay e) @ [ev],
     le_updated_at := now,
     le_completed := (ev_kind ev = ''done'' \<or> le_completed e),
     le_sent := le_sent e @ [ev]\<rparr>"

definition publish_event :: "'b live_env \<Rightarrow> int \<Rightarrow> string \<Rightarrow> publication \<Rightarrow> live_state \<Rightarrow> run_event option \<times> live_state" where
  "publish_event env now ts p st =
    (let run_id = trim (pb_run_id p) in
     if run_id = [] \<or> trim (pb_kind p) = [] then (None, st)
     else
       (let entries = cleanup_locked now (ls_entries st);
            entry = (case entries run_id of Some e \<Rightarrow> e | None \<Rightarrow> new_entry now);
            event = entry_event ts p entry;
            entries' = entries(run_id \<mapsto> push_live_event now event entry);
            spawned = (if ls_storage st then
                (case run_event_checkpoint env event of Some cp \<Rightarrow> ls_spawned st @ [cp] | None \<Rightarrow> ls_spawned st)
              else ls_spawned st)
        in (Some event, st\<lparr>ls_entries := entries', ls_spawned := spawned\<rparr>)))"

text \<open>The task a publication spawned; a failed append is only logged.\<close>

definition run_spawned :: "'b live_env \<Rightarrow> checkpoint \<Rightarrow> live_state \<Rightarrow> live_state" where
  "run_spawned env cp st = st\<lparr>ls_spawned := remove1 cp (ls_spawned st),
     ls_db := snd (append_execution_checkpoint env cp (ls_db st))\<rparr>"

text \<open>\<open>Vec::dedup_by_key\<close>: of neighbours with one key the first stays.\<close>

fun dedup_by_key :: "('a \<Rightarrow> nat) \<Rightarrow> 'a list \<Rightarrow> 'a list" where
  "dedup_by_key k [] = []"
| "dedup_by_key k [x] = [x]"
| "dedup_by_key k (x # y # xs) = (if k x = k y then dedup_by_key k (x # xs) else x # dedup_by_key k (y # xs))"

text \<open>The receiver is the position in the run's channel from which it receives.\<close>

definition subscribe_locked ::
    "int \<Rightarrow> string \<Rightarrow> nat option \<Rightarrow> run_event list \<Rightarrow> live_state \<Rightarrow> (run_event list \<times> nat option) option \<times> live_state" where
  "subscribe_locked now run_id since persisted st =
    (let min_seq = (case since of None \<Rightarrow> 0 | Some s \<Rightarrow> s);
         entries = cleanup_locked now (ls_entries st);
         st' = st\<lparr>ls_entries := entries\<rparr>
     in case entries run_id of
       Some entry \<Rightarrow>
         (let rx = (if le_completed entry then None else Some (length (le_sent entry)));
              replay = filter (\<lambda>ev. ev_seq ev > min_seq) (persisted @ le_replay entry)
          in (Some (dedup_by_key ev_seq (sort_key ev_seq replay), rx), st'))
     | None \<Rightarrow>
         (let replay = filter (\<lambda>ev. ev_seq ev > min_seq) persisted
          in (if replay = [] then None else Some (replay, None), st')))"

text \<open>\<open>load_persisted_events(..).await.unwrap_or_default()\<close>, then the lock.\<close>

definition load_or_default :: "'b live_env \<Rightarrow> string \<Rightarrow> live_state \<Rightarrow> run_event list \<times> live_state" where
  "load_or_default env run_id st = (case load_persisted_events env (ls_storage st) run_id (ls_db st) of
     (r, d) \<Rightarrow> ((case r of Inr evs \<Rightarrow> evs | Inl _ \<Rightarrow> []), st\<lparr>ls_db := d\<rparr>))"

definition subscribe ::
    "'b live_env \<Rightarrow> int \<Rightarrow> string \<Rightarrow> nat option \<Rightarrow> live_state \<Rightarrow> (run_event list \<times> nat option) option \<times> live_state" where
  "subscribe env now run_id since st = (case load_or_default env run_id st of
     (persisted, st1) \<Rightarrow> subscribe_locked now run_id since persisted st1)"

definition registry_new :: "bool \<Rightarrow> checkpoint_row list db \<Rightarrow> live_state" where
  "registry_new storage d = \<lparr>ls_storage = storage, ls_entries = (\<lambda>_. None), ls_spawned = [], ls_db = d\<rparr>"
section \<open>Sorting and removing duplicates\<close>

definition by_key :: "('a \<Rightarrow> nat) \<Rightarrow> 'a list \<Rightarrow> bool" where
  "by_key k xs \<longleftrightarrow> sorted_wrt (\<lambda>x y. k x < k y) xs"

lemma dedup_hd: "dedup_by_key k (x # xs) \<noteq> [] \<and> hd (dedup_by_key k (x # xs)) = x"
  by (induction k "x # xs" arbitrary: xs rule: dedup_by_key.induct) auto

lemma dedup_by_key_sorted:
  "sorted (map k xs) \<Longrightarrow> by_key k (dedup_by_key k xs) \<and> set (dedup_by_key k xs) \<subseteq> set xs
     \<and> k ` set (dedup_by_key k xs) = k ` set xs"
proof (induction k xs rule: dedup_by_key.induct)
  case (3 k x y xs)
  show ?case
  proof (cases "k x = k y")
    case True
    with 3 show ?thesis by auto
  next
    case False
    with 3 have IH: "by_key k (dedup_by_key k (y # xs))" "set (dedup_by_key k (y # xs)) \<subseteq> set (y # xs)"
      "k ` set (dedup_by_key k (y # xs)) = k ` set (y # xs)" by auto
    have "k x < k z" if "z \<in> set (y # xs)" for z using 3(3) False that by force
    with IH(2) have "\<forall>z \<in> set (dedup_by_key k (y # xs)). k x < k z" by blast
    with False IH show ?thesis by (auto simp: by_key_def)
  qed
qed (auto simp: by_key_def)

lemma by_key_map: "by_key k xs \<longleftrightarrow> sorted_wrt (<) (map k xs)"
  by (simp add: by_key_def sorted_wrt_map)

lemma by_key_unique: "by_key k xs \<Longrightarrow> by_key k ys \<Longrightarrow> set xs = set ys \<Longrightarrow> xs = ys"
proof -
  assume a: "by_key k xs" "by_key k ys" "set xs = set ys"
  then have s: "sorted_wrt (<) (map k xs)" "sorted_wrt (<) (map k ys)" by (simp_all add: by_key_map)
  with a(3) have "map k xs = map k ys"
    by (intro sorted_distinct_set_unique) (auto simp: strict_sorted_iff)
  moreover have "inj_on k (set xs)"
    using s(1) by (simp add: strict_sorted_iff distinct_map)
  ultimately show "xs = ys" using a(3) by (metis Un_absorb inj_on_map_eq_map)
qed

lemma by_key_inj: "by_key k xs \<Longrightarrow> inj_on k (set xs)"
  by (simp add: by_key_map strict_sorted_iff distinct_map)

lemma by_key_filter: "by_key k xs \<Longrightarrow> by_key k (filter P xs)"
  by (simp add: by_key_def sorted_wrt_filter)

text \<open>Sorting and deduplicating any list of elements of a strictly increasing one restores its order.\<close>

lemma dedup_sort_restores:
  assumes "by_key k whole" and "set xs \<subseteq> set whole"
  shows "dedup_by_key k (sort_key k xs) = filter (\<lambda>x. x \<in> set xs) whole"
proof (rule by_key_unique [of k])
  let ?d = "dedup_by_key k (sort_key k xs)"
  have d: "by_key k ?d" "set ?d \<subseteq> set xs" "k ` set ?d = k ` set xs"
    using dedup_by_key_sorted [of k "sort_key k xs"] by simp_all
  have inj: "inj_on k (set xs)" using by_key_inj [OF assms(1)] assms(2) by (rule inj_on_subset)
  show "by_key k ?d" by (rule d(1))
  show "by_key k (filter (\<lambda>x. x \<in> set xs) whole)" using assms(1) by (rule by_key_filter)
  have "set ?d = set xs" using d(2,3) inj by (metis inj_on_image_eq_iff order_refl)
  then show "set ?d = set (filter (\<lambda>x. x \<in> set xs) whole)" using assms(2) by auto
qed

section \<open>The registry in every state it reaches\<close>

definition live_env_ok :: "'b live_env \<Rightarrow> bool" where
  "live_env_ok env \<longleftrightarrow> text_ok (lv_text env)
     \<and> (\<forall>e. \<exists>s. lv_write env e = Some s \<and> CHR ''{'' \<in> set s \<and> lv_read env s = Some e)"

definition entry_ok :: "string \<Rightarrow> live_entry \<Rightarrow> bool" where
  "entry_ok run e \<longleftrightarrow> le_next_seq e = min (Suc (length (le_sent e))) u64_max
     \<and> map ev_seq (le_sent e) = map (\<lambda>i. min (Suc i) u64_max) [0..<length (le_sent e)]
     \<and> (\<forall>ev \<in> set (le_sent e). ev_run_id ev = run)
     \<and> le_replay e = drop (length (le_sent e) - LIVE_RUN_REPLAY_LIMIT) (le_sent e)
     \<and> (le_completed e \<longleftrightarrow> (\<exists>ev \<in> set (le_sent e). ev_kind ev = ''done''))"

lemma new_entry_ok: "entry_ok run (new_entry now)"
  by (simp add: entry_ok_def new_entry_def u64_max_def)

lemma push_live_event_ok:
  assumes "entry_ok run e" and "ev_run_id ev = run" and "ev_seq ev = le_next_seq e"
  shows "entry_ok run (push_live_event now ev e)"
proof -
  have n: "sat_add_u64 (min (Suc n) u64_max) 1 = min (Suc (Suc n)) u64_max" for n
    by (simp add: sat_add_u64_def u64_max_def)
  have lim: "LIVE_RUN_REPLAY_LIMIT > 0" by (simp add: LIVE_RUN_REPLAY_LIMIT_def)
  let ?s = "le_sent e"
  have "(if length (le_replay e) \<ge> LIVE_RUN_REPLAY_LIMIT then drop 1 (le_replay e) else le_replay e) @ [ev]
      = drop (Suc (length ?s) - LIVE_RUN_REPLAY_LIMIT) (?s @ [ev])"
    using assms(1) lim by (cases "length ?s \<ge> LIVE_RUN_REPLAY_LIMIT") (auto simp: entry_ok_def Suc_diff_le)
  with assms n show ?thesis by (auto simp: entry_ok_def push_live_event_def)
qed

lemma entry_by_key: "entry_ok run e \<Longrightarrow> length (le_sent e) < u64_max \<Longrightarrow> by_key ev_seq (le_sent e)"
  by (auto simp: entry_ok_def by_key_map sorted_wrt_iff_nth_less)

lemma as_i32_id: "n < 2147483648 \<Longrightarrow> as_i32 n = int n"
  by (simp add: as_i32_def signed_of_nat signed_take_bit_int_eq_self)

inductive live_step :: "'b live_env \<Rightarrow> live_state \<Rightarrow> live_state \<Rightarrow> bool" for env where
  publish: "live_step env st (snd (publish_event env now ts p st))"
| append: "cp \<in> set (ls_spawned st) \<Longrightarrow> live_step env st (run_spawned env cp st)"
| load: "live_step env st (snd (load_or_default env run_id st))"
| subscribe: "live_step env st (snd (subscribe_locked now run_id since persisted st))"
| restart: "live_step env st (registry_new (ls_storage st) (ls_db st))"

inductive live_reachable :: "'b live_env \<Rightarrow> live_state \<Rightarrow> bool" for env where
  start: "tables d = [] \<Longrightarrow> live_reachable env (registry_new storage d)"
| step: "live_reachable env st \<Longrightarrow> live_step env st st' \<Longrightarrow> live_reachable env st'"

definition row_event :: "'b live_env \<Rightarrow> checkpoint_row \<Rightarrow> run_event option" where
  "row_event env r = lv_read env (decrypt_storage_string (lv_text env) (rc_payload r))"

definition row_ok :: "'b live_env \<Rightarrow> checkpoint_row \<Rightarrow> bool" where
  "row_ok env r \<longleftrightarrow> (\<exists>ev. row_event env r = Some ev \<and> should_persist_run_event ev \<and> rc_run_id r = ev_run_id ev
     \<and> rc_sequence_no r = as_i32 (min (ev_seq ev) u32_max) \<and> rc_stage r = ev_kind ev)"

definition row_key :: "checkpoint_row \<Rightarrow> string \<times> int" where
  "row_key r = (rc_run_id r, rc_sequence_no r)"

definition live_ok :: "'b live_env \<Rightarrow> live_state \<Rightarrow> bool" where
  "live_ok env st \<longleftrightarrow> (\<forall>run e. ls_entries st run = Some e \<longrightarrow> run \<noteq> [] \<and> trim run = run \<and> le_sent e \<noteq> [] \<and> entry_ok run e)
     \<and> (\<forall>cp \<in> set (ls_spawned st). \<exists>ev. run_event_checkpoint env ev = Some cp)
     \<and> distinct (map row_key (tables (ls_db st))) \<and> (\<forall>r \<in> set (tables (ls_db st)). row_ok env r)"
lemma append_checkpoint_row:
  assumes "live_env_ok env" and "run_event_checkpoint env ev = Some cp"
  obtains row where "row_event env row = Some ev" and "row_ok env row" and "rc_run_id row = ev_run_id ev"
    and "rc_sequence_no row = as_i32 (min (ev_seq ev) u32_max)"
    and "append_execution_checkpoint env cp = stmt (\<lambda>t. ((), put_checkpoint row t))"
proof -
  from assms(2) obtain s where s: "lv_write env ev = Some s" and p: "should_persist_run_event ev"
    and cp: "cp = \<lparr>cp_run_id = ev_run_id ev, cp_sequence_no = min (ev_seq ev) u32_max, cp_stage = ev_kind ev,
       cp_payload = s, cp_created_at = ev_ts ev\<rparr>"
    by (auto simp: run_event_checkpoint_def split: if_splits option.splits)
  from assms(1) s have ok: "text_ok (lv_text env)" "CHR ''{'' \<in> set s" "lv_read env s = Some ev"
    by (auto simp: live_env_ok_def) (metis option.inject)+
  from encrypt_storage_string_total [OF ok(1), of s] obtain e where e: "encrypt_storage_string (lv_text env) s = Inr e" by blast
  have nb: "\<not> base64_char CHR ''{''" "\<not> is_ws CHR ''{''" by code_simp+
  have dec: "decrypt_storage_string (lv_text env) e = s"
    by (rule storage_string_roundtrip [OF ok(1,2) nb e])
  let ?row = "\<lparr>rc_run_id = ev_run_id ev, rc_sequence_no = as_i32 (min (ev_seq ev) u32_max),
        rc_stage = ev_kind ev, rc_payload = e, rc_created_at = ev_ts ev\<rparr>"
  have re: "row_event env ?row = Some ev" by (simp add: row_event_def dec ok(3))
  show thesis
    by (rule that [of ?row]) (simp_all add: re row_ok_def p append_execution_checkpoint_def cp e)
qed

lemma put_checkpoint_key:
  "distinct (map row_key rows) \<Longrightarrow> distinct (map row_key (put_checkpoint row rows))"
proof -
  assume d: "distinct (map row_key rows)"
  have "map row_key (map (\<lambda>r. if rc_run_id r = rc_run_id row \<and> rc_sequence_no r = rc_sequence_no row then row else r) rows)
      = map row_key rows"
    by (auto simp: row_key_def)
  with d show ?thesis by (auto simp: put_checkpoint_def row_key_def simp del: map_map)
qed

lemma put_checkpoint_set: "r \<in> set (put_checkpoint row rows) \<Longrightarrow> r = row \<or> r \<in> set rows"
  unfolding put_checkpoint_def by (cases "\<exists>r\<in>set rows. rc_run_id r = rc_run_id row \<and> rc_sequence_no r = rc_sequence_no row")
    (auto simp only: if_True if_False set_map set_append image_iff list.set split: if_splits)

lemma run_spawned_cases:
  assumes "live_env_ok env" and "run_event_checkpoint env ev = Some cp"
  obtains (failed) "tables (ls_db (run_spawned env cp st)) = tables (ls_db st)"
  | (stored) row where "row_event env row = Some ev" and "row_ok env row" and "rc_run_id row = ev_run_id ev"
      and "tables (ls_db (run_spawned env cp st)) = put_checkpoint row (tables (ls_db st))"
proof -
  obtain row where row: "row_event env row = Some ev" "row_ok env row" "rc_run_id row = ev_run_id ev"
      "append_execution_checkpoint env cp = stmt (\<lambda>t. ((), put_checkpoint row t))"
    by (rule append_checkpoint_row [OF assms])
  obtain r d where rd: "stmt (\<lambda>t. ((), put_checkpoint row t)) (ls_db st) = (r, d)" by fastforce
  then have t: "ls_db (run_spawned env cp st) = d" by (simp add: run_spawned_def row(4))
  from rd show thesis
    by (rule stmt_cases) (use t row that in auto)
qed

lemma load_checkpoints_value:
  "load_execution_checkpoints env run d = (Inr cps, d') \<Longrightarrow>
    cps = map (row_checkpoint env) (sort_key rc_sequence_no (filter (\<lambda>r. rc_run_id r = run) (tables d)))"
  unfolding load_execution_checkpoints_def by (auto elim!: bindE_InrE stmt_cases)

lemma load_checkpoints_frame: "load_execution_checkpoints env run d = (r, d') \<Longrightarrow> tables d' = tables d"
  unfolding load_execution_checkpoints_def by (erule bindE_cases) (auto elim!: stmt_cases)

lemma load_persisted_frame: "load_persisted_events env b run d = (r, d') \<Longrightarrow> tables d' = tables d"
  unfolding load_persisted_events_def
  by (auto split: if_splits elim!: bindE_cases dest: load_checkpoints_frame)

lemma load_or_default_frame:
  "load_or_default env run st = (evs, st') \<Longrightarrow>
    tables (ls_db st') = tables (ls_db st) \<and> ls_entries st' = ls_entries st \<and> ls_spawned st' = ls_spawned st \<and> ls_storage st' = ls_storage st"
  by (auto simp: load_or_default_def split: prod.splits dest: load_persisted_frame)

lemma load_or_default_events:
  assumes "load_or_default env run st = (evs, st')" and "\<forall>r \<in> set (tables (ls_db st)). row_ok env r" and "ev \<in> set evs"
  obtains r where "r \<in> set (tables (ls_db st))" and "rc_run_id r = run" and "row_event env r = Some ev"
proof -
  from assms(1,3) obtain d where l: "load_persisted_events env (ls_storage st) run (ls_db st) = (Inr evs, d)"
    by (auto simp: load_or_default_def split: prod.splits sum.splits)
  then have "evs = List.map_filter (checkpoint_event env)
      (map (row_checkpoint env) (sort_key rc_sequence_no (filter (\<lambda>r. rc_run_id r = run) (tables (ls_db st)))))"
    using assms(3) unfolding load_persisted_events_def
    by (auto split: if_splits elim!: bindE_InrE dest!: load_checkpoints_value)
  with assms(3) obtain r where r: "r \<in> set (tables (ls_db st))" "rc_run_id r = run"
    and c: "checkpoint_event env (row_checkpoint env r) = Some ev"
    by (auto simp: List.map_filter_def)
  from assms(2) r(1) obtain ev' where "row_event env r = Some ev'" by (auto simp: row_ok_def)
  with c have "row_event env r = Some ev" by (simp add: checkpoint_event_def row_checkpoint_def row_event_def)
  with r that show thesis by blast
qed

lemma cleanup_Some: "cleanup_locked now es k = Some e \<longleftrightarrow> es k = Some e \<and> \<not> expired now e"
  by (auto simp: cleanup_locked_def split: option.splits)

lemma publish_event_cases:
  assumes "publish_event env now ts p st = (r, st')"
  obtains (blank) "r = None" and "st' = st" and "trim (pb_run_id p) = [] \<or> trim (pb_kind p) = []"
  | (sent) entry event where "trim (pb_run_id p) \<noteq> []" and "r = Some event" and "event = entry_event ts p entry"
      and "entry = (case cleanup_locked now (ls_entries st) (trim (pb_run_id p)) of Some e \<Rightarrow> e | None \<Rightarrow> new_entry now)"
      and "ls_entries st' = (cleanup_locked now (ls_entries st))(trim (pb_run_id p) \<mapsto> push_live_event now event entry)"
      and "ls_db st' = ls_db st" and "ls_storage st' = ls_storage st"
      and "ls_spawned st' = ls_spawned st \<or> (\<exists>cp. run_event_checkpoint env event = Some cp \<and> ls_spawned st' = ls_spawned st @ [cp])"
proof (cases "trim (pb_run_id p) = [] \<or> trim (pb_kind p) = []")
  case True
  with assms show thesis by (intro blank) (auto simp: publish_event_def)
next
  case False
  with assms show thesis
    by (intro sent [of "entry_event ts p (case cleanup_locked now (ls_entries st) (trim (pb_run_id p)) of Some e \<Rightarrow> e | None \<Rightarrow> new_entry now)"
       "case cleanup_locked now (ls_entries st) (trim (pb_run_id p)) of Some e \<Rightarrow> e | None \<Rightarrow> new_entry now"])
      (auto simp: publish_event_def Let_def split: option.splits if_splits)
qed
lemma published_entry_ok:
  assumes "\<And>e. es run = Some e \<Longrightarrow> entry_ok run e" and "run = trim (pb_run_id p)"
    and "entry = (case cleanup_locked now es run of Some e \<Rightarrow> e | None \<Rightarrow> new_entry now)"
  shows "entry_ok run (push_live_event now (entry_event ts p entry) entry)"
proof (rule push_live_event_ok)
  show "entry_ok run entry"
    using assms(1,3) by (auto simp: cleanup_Some new_entry_ok split: option.splits)
qed (simp_all add: entry_event_def assms(2))

lemma live_step_ok:
  assumes "live_env_ok env" and "live_step env st st'" and "live_ok env st"
  shows "live_ok env st'"
  using assms(2)
proof cases
  case (publish now ts p)
  obtain r where "publish_event env now ts p st = (r, st')" using publish by (metis prod.collapse)
  then show ?thesis
  proof (cases rule: publish_event_cases)
    case blank
    then show ?thesis using assms(3) by simp
  next
    case (sent entry event)
    have "entry_ok (trim (pb_run_id p)) (push_live_event now event entry)"
      using published_entry_ok [OF _ refl sent(4)] assms(3) sent(3) by (auto simp: live_ok_def)
    moreover have "le_sent (push_live_event now event entry) \<noteq> []" by (simp add: push_live_event_def)
    ultimately show ?thesis using assms(3) sent(1,3,5,6,8)
      by (auto simp: live_ok_def cleanup_Some)
  qed
next
  case (append cp)
  from append(2) assms(3) obtain ev where ev: "run_event_checkpoint env ev = Some cp" by (auto simp: live_ok_def)
  have es: "ls_entries st' = ls_entries st" "ls_spawned st' = remove1 cp (ls_spawned st)"
    by (simp_all add: append run_spawned_def)
  have sp: "set (ls_spawned st') \<subseteq> set (ls_spawned st)" unfolding es by (rule set_remove1_subset)
  have "distinct (map row_key (tables (ls_db st'))) \<and> (\<forall>r \<in> set (tables (ls_db st')). row_ok env r)"
  proof (cases rule: run_spawned_cases [OF assms(1) ev, of st])
    case 1
    then show ?thesis using assms(3) append by (simp add: live_ok_def)
  next
    case (2 row)
    have t: "tables (ls_db st') = put_checkpoint row (tables (ls_db st))" using 2(4) append(1) by simp
    from assms(3) have o: "distinct (map row_key (tables (ls_db st)))" "\<forall>r \<in> set (tables (ls_db st)). row_ok env r"
      by (simp_all add: live_ok_def)
    show ?thesis unfolding t using o(2) 2(2) put_checkpoint_set put_checkpoint_key [OF o(1)] by blast
  qed
  with es sp assms(3) show ?thesis by (auto simp: live_ok_def)
next
  case (load run_id)
  with load_or_default_frame [of env run_id st, OF prod.collapse [symmetric]] show ?thesis
    using assms(3) by (simp add: live_ok_def)
next
  case (subscribe now run_id since persisted)
  then show ?thesis using assms(3)
    by (auto simp: subscribe_locked_def Let_def live_ok_def cleanup_Some split: option.splits)
next
  case restart
  then show ?thesis using assms(3) by (simp add: live_ok_def registry_new_def)
qed

text \<open>
  C9. The registry is well formed. In every state reached by publications, spawned appends, loads,
  subscriptions and restarts, with any database faults: the events of every live run carry the run's id
  and the sequence numbers 1, 2, 3, ... (up to the greatest \<open>u64\<close>), the replay buffer is
  the last 12000 of them, a run is completed exactly when a \<open>done\<close> was published, and no two
  rows share a run and a sequence number.
\<close>

theorem live_registry_ok:
  assumes "live_env_ok env" and "live_reachable env st" and "ls_entries st run = Some e"
  shows "map ev_seq (le_sent e) = map (\<lambda>i. min (Suc i) u64_max) [0..<length (le_sent e)]
    \<and> (\<forall>ev \<in> set (le_sent e). ev_run_id ev = run)
    \<and> le_replay e = drop (length (le_sent e) - 12000) (le_sent e)
    \<and> (le_completed e \<longleftrightarrow> (\<exists>ev \<in> set (le_sent e). ev_kind ev = ''done''))
    \<and> distinct (map (\<lambda>r. (rc_run_id r, rc_sequence_no r)) (tables (ls_db st)))"
proof -
  have "live_ok env st" using assms(2)
  proof induction
    case (start d storage)
    then show ?case by (simp add: live_ok_def registry_new_def)
  next
    case (step st st')
    then show ?case using live_step_ok [OF assms(1)] by blast
  qed
  with assms(3) show ?thesis by (simp add: live_ok_def entry_ok_def LIVE_RUN_REPLAY_LIMIT_def row_key_def [abs_def])
qed

section \<open>What a subscriber gets\<close>

text \<open>A run lives on as long as no step drops its entry: its channel only grows.\<close>

definition lives_on :: "string \<Rightarrow> live_state \<Rightarrow> live_state \<Rightarrow> bool" where
  "lives_on run st st' \<longleftrightarrow> (\<forall>e. ls_entries st run = Some e \<longrightarrow>
     (\<exists>e'. ls_entries st' run = Some e' \<and> prefix (le_sent e) (le_sent e')))"

inductive run_on :: "'b live_env \<Rightarrow> string \<Rightarrow> live_state \<Rightarrow> live_state \<Rightarrow> bool" for env run st where
  here: "run_on env run st st"
| further: "run_on env run st st' \<Longrightarrow> live_step env st' st'' \<Longrightarrow> lives_on run st' st'' \<Longrightarrow> run_on env run st st''"

definition run_sent :: "string \<Rightarrow> live_state \<Rightarrow> run_event list" where
  "run_sent run st = (case ls_entries st run of None \<Rightarrow> [] | Some e \<Rightarrow> le_sent e)"

definition tracked :: "'b live_env \<Rightarrow> string \<Rightarrow> live_state \<Rightarrow> bool" where
  "tracked env run st \<longleftrightarrow>
     (\<forall>cp \<in> set (ls_spawned st). cp_run_id cp = run \<longrightarrow> (\<exists>ev \<in> set (run_sent run st). run_event_checkpoint env ev = Some cp))
     \<and> (\<forall>r \<in> set (tables (ls_db st)). rc_run_id r = run \<longrightarrow> (\<exists>ev \<in> set (run_sent run st). row_event env r = Some ev))"

lemma lives_on_sent: "lives_on run st st' \<Longrightarrow> set (run_sent run st) \<subseteq> set (run_sent run st')"
  by (cases "ls_entries st run") (auto simp: lives_on_def run_sent_def dest!: set_mono_prefix)

lemma run_on_ok: "live_env_ok env \<Longrightarrow> run_on env run st st' \<Longrightarrow> live_ok env st \<Longrightarrow> live_ok env st'"
  by (rotate_tac 1, induction rule: run_on.induct) (blast dest: live_step_ok)+

lemma run_on_sent: "run_on env run st st' \<Longrightarrow> set (run_sent run st) \<subseteq> set (run_sent run st')"
  by (induction rule: run_on.induct) (use lives_on_sent in blast)+

lemma checkpoint_run: "run_event_checkpoint env ev = Some cp \<Longrightarrow> cp_run_id cp = ev_run_id ev"
  by (auto simp: run_event_checkpoint_def split: if_splits option.splits)

text \<open>A checkpoint determines its event, since the payload reads back.\<close>

lemma same_checkpoint:
  assumes "live_env_ok env" and "run_event_checkpoint env a = Some cp" and "run_event_checkpoint env b = Some cp"
  shows "a = b"
proof -
  from assms(2,3) have "lv_write env a = lv_write env b"
    by (auto simp: run_event_checkpoint_def split: if_splits option.splits)
  with assms(1) show ?thesis unfolding live_env_ok_def by (metis option.inject)
qed

lemma tracked_mono:
  assumes "tracked env run st" and sub: "set (run_sent run st) \<subseteq> set (run_sent run st')"
    and cps: "\<And>cp. cp \<in> set (ls_spawned st') \<Longrightarrow> cp_run_id cp = run \<Longrightarrow>
       cp \<in> set (ls_spawned st) \<or> (\<exists>ev \<in> set (run_sent run st'). run_event_checkpoint env ev = Some cp)"
    and rows: "\<And>r. r \<in> set (tables (ls_db st')) \<Longrightarrow> rc_run_id r = run \<Longrightarrow>
       r \<in> set (tables (ls_db st)) \<or> (\<exists>ev \<in> set (run_sent run st'). row_event env r = Some ev)"
  shows "tracked env run st'"
  unfolding tracked_def
proof (intro conjI ballI impI)
  fix cp assume cp: "cp \<in> set (ls_spawned st')" "cp_run_id cp = run"
  from cps [OF this] show "\<exists>ev \<in> set (run_sent run st'). run_event_checkpoint env ev = Some cp"
    using assms(1) sub cp(2) unfolding tracked_def by (elim disjE) (blast, assumption)
next
  fix r assume r: "r \<in> set (tables (ls_db st'))" "rc_run_id r = run"
  from rows [OF this] show "\<exists>ev \<in> set (run_sent run st'). row_event env r = Some ev"
    using assms(1) sub r(2) unfolding tracked_def by (elim disjE) (blast, assumption)
qed

lemma tracked_step:
  assumes "live_env_ok env" and "live_step env st st'" and "lives_on run st st'" and "live_ok env st" and "tracked env run st"
  shows "tracked env run st'"
  using assms(2)
proof cases
  case (publish now ts p)
  obtain r where "publish_event env now ts p st = (r, st')" using publish by (metis prod.collapse)
  then show ?thesis
  proof (cases rule: publish_event_cases)
    case blank
    then show ?thesis using assms(5) by simp
  next
    case (sent entry event)
    have ev: "ev_run_id event = trim (pb_run_id p)" by (simp add: sent(3) entry_event_def)
    have mem: "event \<in> set (run_sent (trim (pb_run_id p)) st')"
      by (simp add: run_sent_def sent(5) push_live_event_def)
    have s: "set (run_sent run st) \<subseteq> set (run_sent run st')" using assms(3) by (rule lives_on_sent)
    from sent(8) have "\<forall>cp \<in> set (ls_spawned st'). cp \<in> set (ls_spawned st) \<or> run_event_checkpoint env event = Some cp" by auto
    moreover have "event \<in> set (run_sent run st')" if "run_event_checkpoint env event = Some cp" "cp_run_id cp = run" for cp
      using that mem ev checkpoint_run by fastforce
    ultimately show ?thesis using sent(6) by (intro tracked_mono [OF assms(5) s]) auto
  qed
next
  case (append cp)
  from append(2) assms(4) obtain ev where ev: "run_event_checkpoint env ev = Some cp" by (auto simp: live_ok_def)
  have es: "run_sent run st' = run_sent run st" "set (ls_spawned st') \<subseteq> set (ls_spawned st)"
    by (simp_all add: append run_spawned_def run_sent_def set_remove1_subset)
  show ?thesis
  proof (cases rule: run_spawned_cases [OF assms(1) ev, of st])
    case 1
    then show ?thesis using es append by (intro tracked_mono [OF assms(5)]) auto
  next
    case stored: (2 row)
    have "\<exists>ev \<in> set (run_sent run st). row_event env row = Some ev" if "rc_run_id row = run"
    proof -
      from that stored(3) checkpoint_run [OF ev] have "cp_run_id cp = run" by simp
      with assms(5) append(2) obtain ev' where e': "ev' \<in> set (run_sent run st)" "run_event_checkpoint env ev' = Some cp"
        by (auto simp: tracked_def)
      then show ?thesis using ev stored(1) same_checkpoint [OF assms(1) ev e'(2)] by auto
    qed
    moreover have t: "tables (ls_db st') = put_checkpoint row (tables (ls_db st))" using stored(4) append(1) by simp
    ultimately show ?thesis using es(2)
      by (intro tracked_mono [OF assms(5)]) (use es(1) put_checkpoint_set in \<open>simp_all only: t\<close>, blast+)
  qed
next
  case (load run_id)
  with load_or_default_frame [of env run_id st, OF prod.collapse [symmetric]] show ?thesis
    by (intro tracked_mono [OF assms(5)]) (simp_all add: run_sent_def)
next
  case (subscribe now run_id since persisted)
  then have "tables (ls_db st') = tables (ls_db st)" "ls_spawned st' = ls_spawned st"
    by (auto simp: subscribe_locked_def Let_def split: option.splits)
  then show ?thesis by (intro tracked_mono [OF assms(5) lives_on_sent [OF assms(3)]]) simp_all
next
  case restart
  then show ?thesis
    by (intro tracked_mono [OF assms(5) lives_on_sent [OF assms(3)]]) (simp_all add: registry_new_def)
qed
definition run_new :: "string \<Rightarrow> live_state \<Rightarrow> bool" where
  "run_new run st \<longleftrightarrow> ls_entries st run = None \<and> (\<forall>cp \<in> set (ls_spawned st). cp_run_id cp \<noteq> run)
     \<and> (\<forall>r \<in> set (tables (ls_db st)). rc_run_id r \<noteq> run)"

lemma reachable_ok: "live_env_ok env \<Longrightarrow> live_reachable env st \<Longrightarrow> live_ok env st"
  by (rotate_tac 1, induction rule: live_reachable.induct)
    (simp add: live_ok_def registry_new_def, blast dest: live_step_ok)

lemma run_on_tracked:
  "live_env_ok env \<Longrightarrow> run_on env run st st' \<Longrightarrow> live_ok env st \<Longrightarrow> tracked env run st \<Longrightarrow> tracked env run st'"
  by (rotate_tac 1, induction rule: run_on.induct) (blast dest: tracked_step run_on_ok)+

lemma persisted_sent:
  assumes "live_env_ok env" and "live_reachable env st0" and "run_new run st0" and "run_on env run st0 st"
    and "load_or_default env run st = (persisted, st1)"
  shows "live_ok env st" and "set persisted \<subseteq> set (run_sent run st)"
proof -
  have ok0: "live_ok env st0" by (rule reachable_ok [OF assms(1,2)])
  have t0: "tracked env run st0" using assms(3) by (auto simp: tracked_def run_new_def)
  show ok: "live_ok env st" by (rule run_on_ok [OF assms(1,4) ok0])
  have t: "tracked env run st" by (rule run_on_tracked [OF assms(1,4) ok0 t0])
  show "set persisted \<subseteq> set (run_sent run st)"
  proof
    fix ev assume ev: "ev \<in> set persisted"
    have rows: "\<forall>r \<in> set (tables (ls_db st)). row_ok env r" using ok by (simp add: live_ok_def)
    obtain r where "r \<in> set (tables (ls_db st))" "rc_run_id r = run" "row_event env r = Some ev"
      by (rule load_or_default_events [OF assms(5) rows ev])
    with t show "ev \<in> set (run_sent run st)" by (auto simp: tracked_def)
  qed
qed

text \<open>
  C6. A subscriber misses nothing. While a run lives on from its first publication, a subscription gets
  exactly the events after the given number that are persisted or among the last 12000, each once
  and in order, whatever happened between the load of the rows and the lock; so it gets all of them
  when the run has sent at most 12000. It receives from then on, unless the run is completed.
\<close>

theorem subscribe_exact:
  assumes "live_env_ok env" and "live_reachable env st0" and "run_new run st0" and "run_on env run st0 st"
    and "load_or_default env run st = (persisted, st1)" and "run_on env run st1 st2"
    and "ls_entries st2 run = Some e" and "\<not> expired now e" and "length (le_sent e) < u64_max"
  shows "\<exists>evs. fst (subscribe_locked now run (Some since) persisted st2)
      = Some (evs, if le_completed e then None else Some (length (le_sent e)))
    \<and> evs = filter (\<lambda>ev. since < ev_seq ev \<and> (ev \<in> set persisted \<or> ev \<in> set (drop (length (le_sent e) - 12000) (le_sent e)))) (le_sent e)
    \<and> (length (le_sent e) \<le> 12000 \<longrightarrow> evs = filter (\<lambda>ev. since < ev_seq ev) (le_sent e))"
proof -
  note ps = persisted_sent [OF assms(1-5)]
  note fr = load_or_default_frame [OF assms(5)]
  have ok1: "live_ok env st1" using ps(1) fr by (simp add: live_ok_def)
  have ok2: "live_ok env st2" by (rule run_on_ok [OF assms(1,6) ok1])
  then have e: "entry_ok run e" using assms(7) by (simp add: live_ok_def)
  have sent: "run_sent run st2 = le_sent e" by (simp add: run_sent_def assms(7))
  have "set persisted \<subseteq> set (le_sent e)"
    using ps(2) run_on_sent [OF assms(6)] fr unfolding sent by (simp add: run_sent_def)
  moreover have rep: "le_replay e = drop (length (le_sent e) - 12000) (le_sent e)"
    using e by (simp add: entry_ok_def LIVE_RUN_REPLAY_LIMIT_def)
  ultimately have "dedup_by_key ev_seq (sort_key ev_seq (filter (\<lambda>ev. ev_seq ev > since) (persisted @ le_replay e)))
      = filter (\<lambda>x. x \<in> set (filter (\<lambda>ev. ev_seq ev > since) (persisted @ le_replay e))) (le_sent e)"
    by (intro dedup_sort_restores entry_by_key [OF e assms(9)]) (auto dest: in_set_dropD)
  also have "\<dots> = filter (\<lambda>ev. since < ev_seq ev \<and> (ev \<in> set persisted \<or> ev \<in> set (drop (length (le_sent e) - 12000) (le_sent e)))) (le_sent e)"
    unfolding rep by (rule filter_cong) auto
  finally have d: "dedup_by_key ev_seq (sort_key ev_seq (filter (\<lambda>ev. ev_seq ev > since) (persisted @ le_replay e)))
     = filter (\<lambda>ev. since < ev_seq ev \<and> (ev \<in> set persisted \<or> ev \<in> set (drop (length (le_sent e) - 12000) (le_sent e)))) (le_sent e)" .
  have c: "cleanup_locked now (ls_entries st2) run = Some e" using assms(7,8) by (simp add: cleanup_Some)
  have all: "filter (\<lambda>ev. since < ev_seq ev \<and> (ev \<in> set persisted \<or> ev \<in> set (drop (length (le_sent e) - 12000) (le_sent e)))) (le_sent e)
      = filter (\<lambda>ev. since < ev_seq ev) (le_sent e)" if "length (le_sent e) \<le> 12000"
    using that by (intro filter_cong) auto
  show ?thesis by (simp only: subscribe_locked_def Let_def c option.case fst_conv d) (use all in auto)
qed

lemma dedup_by_key_first:
  "sorted (map k xs) \<Longrightarrow> filter (\<lambda>x. k x = c) (dedup_by_key k xs) = take 1 (filter (\<lambda>x. k x = c) xs)"
proof (induction k xs rule: dedup_by_key.induct)
  case (3 k x y xs)
  show ?case
  proof (cases "k x = k y \<or> k x \<noteq> c")
    case True
    with 3 show ?thesis by auto
  next
    case False
    with 3(3) have "filter (\<lambda>x. k x = c) (y # xs) = []" by (auto simp: filter_empty_conv)
    with False 3 show ?thesis by simp
  qed
qed auto

lemma as_i32_one: "n \<le> u32_max \<Longrightarrow> as_i32 n = 1 \<longleftrightarrow> n = 1"
proof -
  assume n: "n \<le> u32_max"
  have "sint (1 :: 32 word) = 1" by simp
  then have "as_i32 n = 1 \<longleftrightarrow> (of_nat n :: 32 word) = 1" unfolding as_i32_def by (metis signed_word_eqI)
  also have "\<dots> \<longleftrightarrow> n = 1"
  proof
    assume "(of_nat n :: 32 word) = 1"
    then have "unat (of_nat n :: 32 word) = 1" by simp
    moreover have "unat (of_nat n :: 32 word) = n" using n by (simp add: unat_of_nat take_bit_eq_mod u32_max_def)
    ultimately show "n = 1" by simp
  qed simp
  finally show ?thesis .
qed

lemma put_checkpoint_replaces: "r \<in> set (put_checkpoint row rows) \<Longrightarrow> row_key r = row_key row \<Longrightarrow> r = row"
  unfolding put_checkpoint_def row_key_def
  by (cases "\<exists>r\<in>set rows. rc_run_id r = rc_run_id row \<and> rc_sequence_no r = rc_sequence_no row")
    (auto simp only: if_True if_False set_map set_append image_iff list.set prod.inject split: if_splits)

lemma checkpoint_written: "live_env_ok env \<Longrightarrow> should_persist_run_event ev \<Longrightarrow> \<exists>cp. run_event_checkpoint env ev = Some cp"
  by (cases "lv_write env ev") (auto simp: run_event_checkpoint_def live_env_ok_def dest: spec [of _ ev])

lemma map_filter_mem: "f x = Some y \<Longrightarrow> x \<in> set xs \<Longrightarrow> y \<in> set (List.map_filter f xs)"
  by (induction xs) (auto simp: List.map_filter_simps split: option.splits)

lemma load_quiet:
  assumes "faults (ls_db st) = []" and "ls_storage st" and "r \<in> set (tables (ls_db st))" and "rc_run_id r = run"
    and "row_event env r = Some ev"
  obtains evs st' where "load_or_default env run st = (evs, st')" and "ev \<in> set evs"
proof -
  have c: "checkpoint_event env (row_checkpoint env r) = Some ev"
    using assms(5) by (simp add: row_event_def checkpoint_event_def row_checkpoint_def)
  have r: "r \<in> set (sort_key rc_sequence_no (filter (\<lambda>r. rc_run_id r = run) (tables (ls_db st))))" using assms(3,4) by simp
  have "ev \<in> set (List.map_filter (checkpoint_event env) (map (row_checkpoint env)
      (sort_key rc_sequence_no (filter (\<lambda>r. rc_run_id r = run) (tables (ls_db st))))))"
    using map_filter_mem [of "checkpoint_event env", OF c] imageI [OF r, of "row_checkpoint env"] by (simp only: set_map)
  then show thesis using that assms(1,2)
    by (simp add: load_or_default_def load_persisted_events_def load_execution_checkpoints_def bindE_def split: prod.splits)
qed

text \<open>Of the events of a run with the number 1, the rows hold one.\<close>

lemma first_row_event:
  assumes "live_ok env st" and "row \<in> set (tables (ls_db st))" and "rc_run_id row = run" and "rc_sequence_no row = 1"
    and "row_event env row = Some old"
  shows "ev_seq old = 1"
    and "load_or_default env run st = (evs, st') \<Longrightarrow> ev \<in> set evs \<Longrightarrow> ev_seq ev = 1 \<Longrightarrow> ev = old"
proof -
  have rows: "\<forall>r \<in> set (tables (ls_db st)). row_ok env r" "distinct (map row_key (tables (ls_db st)))"
    using assms(1) by (simp_all add: live_ok_def)
  from rows(1) assms(2,4,5) have "as_i32 (min (ev_seq old) u32_max) = 1" by (force simp: row_ok_def)
  then show "ev_seq old = 1" by (simp add: as_i32_one) (simp add: u32_max_def min_def split: if_splits)
  assume l: "load_or_default env run st = (evs, st')" "ev \<in> set evs" "ev_seq ev = 1"
  obtain r where r: "r \<in> set (tables (ls_db st))" "rc_run_id r = run" "row_event env r = Some ev"
    by (rule load_or_default_events [OF l(1) rows(1) l(2)])
  have "rc_sequence_no r = 1" using rows(1) r l(3) by (force simp: row_ok_def as_i32_one u32_max_def)
  with r assms(3,4) have "row_key r = row_key row" by (simp add: row_key_def)
  with rows(2) r(1) assms(2) have "r = row" by (auto simp: distinct_map inj_on_def)
  with r assms(5) show "ev = old" by simp
qed

text \<open>
  A run that outlives its entry hides its new events. When a run's entry is gone (a restart, two
  idle hours, 45 minutes after \<open>done\<close>) but its first event is in the rows, the next event is
  numbered 1 again: a subscriber gets the old event in its place, and the append of the new event
  replaces the old one in the rows.
\<close>

theorem outlived_run_hides_events:
  assumes "live_env_ok env" and "live_ok env st" and "ls_storage st" and "faults (ls_db st) = []"
    and "cleanup_locked now (ls_entries st) run = None" and "trim (pb_run_id p) = run" and "run \<noteq> []" and "trim (pb_kind p) \<noteq> []"
    and "row \<in> set (tables (ls_db st))" and "rc_run_id row = run" and "rc_sequence_no row = 1" and "row_event env row = Some old"
    and "publish_event env now ts p st = (Some new, st')" and "new \<noteq> old"
  shows "ev_seq new = 1
    \<and> (\<exists>evs rx. fst (subscribe env now run None st') = Some (evs, rx) \<and> old \<in> set evs \<and> new \<notin> set evs)
    \<and> (should_persist_run_event new \<longrightarrow> (\<exists>cp. cp \<in> set (ls_spawned st')
         \<and> (\<forall>r \<in> set (tables (ls_db (run_spawned env cp st'))). row_event env r \<noteq> Some old \<or> rc_run_id r \<noteq> run \<or> rc_sequence_no r \<noteq> 1)))"
proof -
  let ?e = "push_live_event now new (new_entry now)"
  have new: "new = entry_event ts p (new_entry now)"
    and es: "ls_entries st' = (cleanup_locked now (ls_entries st))(run \<mapsto> ?e)"
    and db: "ls_db st' = ls_db st" "ls_storage st' = ls_storage st"
    and sp: "ls_spawned st' = ls_spawned st @ (case run_event_checkpoint env new of Some cp \<Rightarrow> [cp] | None \<Rightarrow> [])"
    using assms(3,5,6,7,8,13) by (auto simp: publish_event_def Let_def split: option.splits)
  have seq: "ev_seq new = 1" "ev_run_id new = run" using new assms(6) by (simp_all add: entry_event_def new_entry_def)
  have row': "row \<in> set (tables (ls_db st'))" using assms(9) db by simp
  note first = first_row_event [OF assms(2,9-12)]
  obtain evs st1 where load: "load_or_default env run st' = (evs, st1)" and old: "old \<in> set evs"
    by (rule load_quiet [of st' row run env old]) (use assms db in simp_all)
  have evs: "ev = old" if "ev \<in> set evs" "ev_seq ev = 1" for ev
  proof (rule first(2))
    have "tables (ls_db st') = tables (ls_db st) \<and> faults (ls_db st') = [] \<and> ls_storage st' = ls_storage st" using db assms(4) by simp
    then show "load_or_default env run st = (evs, st\<lparr>ls_db := ls_db st1\<rparr>)"
      using load db by (auto simp: load_or_default_def split: prod.splits)
  qed (use that in simp_all)
  have e1: "ls_entries st1 run = Some ?e" using load_or_default_frame [OF load] es by simp
  have alive: "cleanup_locked now (ls_entries st1) run = Some ?e"
    using e1 by (simp add: cleanup_Some expired_def push_live_event_def LIVE_RUN_COMPLETED_TTL_def LIVE_RUN_ACTIVE_IDLE_TTL_def)
  have rep: "le_replay ?e = [new]" by (simp add: push_live_event_def new_entry_def LIVE_RUN_REPLAY_LIMIT_def)
  let ?l = "filter (\<lambda>ev. ev_seq ev > 0) (evs @ [new])"
  let ?d = "dedup_by_key ev_seq (sort_key ev_seq ?l)"
  have "filter (\<lambda>ev. ev_seq ev = 1) ?d = take 1 (filter (\<lambda>ev. ev_seq ev = 1) ?l)"
    by (subst dedup_by_key_first) (simp_all only: sort_key_stable sorted_sort_key)
  also have "filter (\<lambda>ev. ev_seq ev = 1) ?l = filter (\<lambda>ev. ev_seq ev = 1) evs @ [new]" by (simp add: seq) (auto intro: filter_cong)
  also have "take 1 \<dots> = [old]"
  proof -
    have "filter (\<lambda>ev. ev_seq ev = 1) evs \<noteq> []" using old first(1) by (auto simp: filter_empty_conv)
    moreover have "\<forall>x \<in> set (filter (\<lambda>ev. ev_seq ev = 1) evs). x = old" using evs by auto
    ultimately show ?thesis by (cases "filter (\<lambda>ev. ev_seq ev = 1) evs") (simp_all only: append_Cons take_Cons' list.set ball_simps, simp)
  qed
  finally have d: "filter (\<lambda>ev. ev_seq ev = 1) ?d = [old]" .
  have "old \<in> set ?d" using arg_cong [OF d, of set] by auto
  moreover have "new \<notin> set ?d"
  proof
    assume "new \<in> set ?d"
    then have "new \<in> set (filter (\<lambda>ev. ev_seq ev = 1) ?d)" by (simp only: set_filter mem_Collect_eq seq simp_thms)
    with d assms(14) show False by simp
  qed
  moreover have "\<exists>rx. fst (subscribe env now run None st') = Some (?d, rx)"
    by (simp only: subscribe_def load prod.case subscribe_locked_def Let_def alive option.case rep fst_conv) blast
  moreover have "\<exists>cp. cp \<in> set (ls_spawned st')
         \<and> (\<forall>r \<in> set (tables (ls_db (run_spawned env cp st'))). row_event env r \<noteq> Some old \<or> rc_run_id r \<noteq> run \<or> rc_sequence_no r \<noteq> 1)"
    if prs: "should_persist_run_event new"
  proof -
    obtain cp where cp: "run_event_checkpoint env new = Some cp"
      using checkpoint_written [OF assms(1) prs] by blast
    then have mem: "cp \<in> set (ls_spawned st')" by (simp add: sp)
    obtain nrow where nrow: "row_event env nrow = Some new" "rc_run_id nrow = run" "rc_sequence_no nrow = 1"
      "append_execution_checkpoint env cp = stmt (\<lambda>t. ((), put_checkpoint nrow t))"
      by (rule append_checkpoint_row [OF assms(1) cp]) (use seq as_i32_one [of 1] in \<open>auto simp: u32_max_def\<close>)
    have t: "tables (ls_db (run_spawned env cp st')) = put_checkpoint nrow (tables (ls_db st))"
      using assms(4) db by (simp add: run_spawned_def nrow(4))
    show ?thesis
    proof (rule exI [of _ cp], intro conjI ballI)
      show "cp \<in> set (ls_spawned st')" by (rule mem)
    next
      fix r assume r: "r \<in> set (tables (ls_db (run_spawned env cp st')))"
      have "r = nrow" if "rc_run_id r = run" "rc_sequence_no r = 1"
        using r that nrow(2,3) unfolding t by (intro put_checkpoint_replaces) (simp_all add: row_key_def)
      then show "row_event env r \<noteq> Some old \<or> rc_run_id r \<noteq> run \<or> rc_sequence_no r \<noteq> 1"
        using nrow(1) assms(14) by auto
    qed
  qed
  ultimately show ?thesis using seq(1) by blast
qed
section \<open>Closed examples\<close>

text \<open>A codec for the examples: an event is written as its number in an enumeration of all events.\<close>

instance event_priority :: countable by countable_datatype

definition event_tuple :: "run_event \<Rightarrow> (string \<times> nat \<times> string \<times> string) \<times> string \<times> string \<times> event_priority \<times> string option \<times> json" where
  "event_tuple e = ((ev_run_id e, ev_seq e, ev_ts e, ev_flow_kind e), ev_origin e, ev_kind e, ev_priority e, ev_stage e, ev_payload e)"

definition untuple_event :: "(string \<times> nat \<times> string \<times> string) \<times> string \<times> string \<times> event_priority \<times> string option \<times> json \<Rightarrow> run_event" where
  "untuple_event = (\<lambda>((r, n, ts, f), org, k, pr, stg, pl). \<lparr>ev_run_id = r, ev_seq = n, ev_ts = ts, ev_flow_kind = f, ev_origin = org,
     ev_kind = k, ev_priority = pr, ev_stage = stg, ev_payload = pl\<rparr>)"

definition number_env :: "char live_env" where
  "number_env = \<lparr>lv_text = plain_text_env, lv_write = (\<lambda>e. Some (num_write (event_tuple e))),
     lv_read = (\<lambda>s. map_option untuple_event (num_read s)), lv_value = (\<lambda>_. None)\<rparr>"

lemma number_env_ok: "live_env_ok number_env"
proof -
  have e: "untuple_event (event_tuple e) = e" for e by (cases e) (simp add: event_tuple_def untuple_event_def)
  have "map_option untuple_event (num_read (num_write (event_tuple e))) = Some e" for e
    by (simp only: num_read_write option.map e)
  then show ?thesis by (simp add: live_env_ok_def number_env_def plain_text_ok del: map_option_eq_Some)
qed

definition sample_publication :: publication where
  "sample_publication = \<lparr>pb_run_id = ''r'', pb_flow_kind = ''chat'', pb_origin = [], pb_kind = ''status'', pb_priority = Normal,
     pb_stage = None, pb_payload = JNull\<rparr>"
definition fresh_registry :: live_state where
  "fresh_registry = registry_new True \<lparr>tables = [], faults = []\<rparr>"

definition one_event :: "string \<Rightarrow> run_event" where
  "one_event ts = entry_event ts sample_publication (new_entry 0)"

lemma sample_trim: "trim (pb_run_id sample_publication) = ''r''" "trim (pb_kind sample_publication) = ''status''"
  by code_simp+

lemma sample_publish:
  assumes "ls_entries st = (\<lambda>_. None)"
  shows "\<exists>st'. publish_event number_env 0 ts sample_publication st = (Some (one_event ts), st')
    \<and> ls_entries st' = [''r'' \<mapsto> push_live_event 0 (one_event ts) (new_entry 0)]
    \<and> ls_db st' = ls_db st"
  using assms by (auto simp: publish_event_def Let_def sample_trim cleanup_locked_def one_event_def split: option.splits)

theorem live_registry_ok_witness:
  "\<exists>st e. live_reachable number_env st \<and> ls_entries st ''r'' = Some e \<and> le_sent e = [one_event ''t'']
    \<and> le_replay e = drop (length (le_sent e) - 12000) (le_sent e)"
proof -
  have e0: "ls_entries fresh_registry = (\<lambda>_. None)" by (simp add: fresh_registry_def registry_new_def)
  obtain st where st: "publish_event number_env 0 ''t'' sample_publication fresh_registry = (Some (one_event ''t''), st)"
    "ls_entries st = [''r'' \<mapsto> push_live_event 0 (one_event ''t'') (new_entry 0)]"
    using sample_publish [OF e0, of "''t''"] by blast
  have "live_reachable number_env fresh_registry"
    unfolding fresh_registry_def by (rule live_reachable.start) simp
  then have r: "live_reachable number_env st"
    using live_step.publish [of number_env fresh_registry 0 "''t''" sample_publication] st(1)
    by (auto intro: live_reachable.step)
  have e: "ls_entries st ''r'' = Some (push_live_event 0 (one_event ''t'') (new_entry 0))" by (simp add: st(2))
  from live_registry_ok [OF number_env_ok r e] e r show ?thesis
    by (intro exI [of _ st] exI [of _ "push_live_event 0 (one_event ''t'') (new_entry 0)"])
      (simp add: push_live_event_def new_entry_def)
qed

theorem subscribe_exact_witness:
  "\<exists>st. publish_event number_env 0 ''t'' sample_publication fresh_registry = (Some (one_event ''t''), st)
    \<and> fst (subscribe_locked 0 ''r'' (Some 0) [] st) = Some ([one_event ''t''], Some 1)"
proof -
  have e0: "ls_entries fresh_registry = (\<lambda>_. None)" by (simp add: fresh_registry_def registry_new_def)
  obtain st where st: "publish_event number_env 0 ''t'' sample_publication fresh_registry = (Some (one_event ''t''), st)"
    "ls_entries st = [''r'' \<mapsto> push_live_event 0 (one_event ''t'') (new_entry 0)]"
    using sample_publish [OF e0, of "''t''"] by blast
  have r: "live_reachable number_env fresh_registry"
    unfolding fresh_registry_def by (rule live_reachable.start) simp
  have n: "run_new ''r'' fresh_registry" by (simp add: run_new_def fresh_registry_def registry_new_def)
  have l: "load_or_default number_env ''r'' fresh_registry = ([], fresh_registry)"
    by (simp add: load_or_default_def load_persisted_events_def load_execution_checkpoints_def bindE_def fresh_registry_def
        registry_new_def List.map_filter_def)
  have "lives_on ''r'' fresh_registry st" by (simp add: lives_on_def e0)
  then have o: "run_on number_env ''r'' fresh_registry st"
    using live_step.publish [of number_env fresh_registry 0 "''t''" sample_publication] st(1)
    by (auto intro: run_on.intros)
  let ?e = "push_live_event 0 (one_event ''t'') (new_entry 0)"
  have e: "ls_entries st ''r'' = Some ?e" by (simp add: st(2))
  have ne: "\<not> expired 0 ?e"
    by (simp add: expired_def push_live_event_def LIVE_RUN_COMPLETED_TTL_def LIVE_RUN_ACTIVE_IDLE_TTL_def)
  have s: "le_sent ?e = [one_event ''t'']" "\<not> le_completed ?e" "ev_seq (one_event ''t'') = 1"
    by (simp_all add: push_live_event_def new_entry_def one_event_def entry_event_def sample_publication_def)
  from subscribe_exact [OF number_env_ok r n run_on.here l o e ne, of 0] s st(1) show ?thesis
    by (auto simp: u64_max_def)
qed

theorem outlived_run_hides_events_witness:
  "\<exists>st st'. publish_event number_env 0 ''t'' sample_publication st = (Some (one_event ''t''), st')
    \<and> (\<exists>evs rx. fst (subscribe number_env 0 ''r'' None st') = Some (evs, rx)
         \<and> one_event ''u'' \<in> set evs \<and> one_event ''t'' \<notin> set evs)"
proof -
  have p: "should_persist_run_event (one_event ''u'')"
    by (simp add: should_persist_run_event_def one_event_def entry_event_def sample_publication_def)
  have u: "ev_run_id (one_event ''u'') = ''r''" "ev_seq (one_event ''u'') = 1"
    by (simp_all add: one_event_def entry_event_def sample_trim new_entry_def)
  obtain cp where cp: "run_event_checkpoint number_env (one_event ''u'') = Some cp"
    using checkpoint_written [OF number_env_ok p] by blast
  obtain row where row: "row_event number_env row = Some (one_event ''u'')" "row_ok number_env row" "rc_run_id row = ''r''"
    "rc_sequence_no row = 1"
    by (rule append_checkpoint_row [OF number_env_ok cp]) (use u as_i32_one [of 1] in \<open>auto simp: u32_max_def\<close>)
  let ?st = "registry_new True \<lparr>tables = [row], faults = []\<rparr>"
  have e0: "ls_entries ?st = (\<lambda>_. None)" by (simp add: registry_new_def)
  obtain st' where st': "publish_event number_env 0 ''t'' sample_publication ?st = (Some (one_event ''t''), st')"
    using sample_publish [OF e0, of "''t''"] by blast
  have ok: "live_ok number_env ?st" using row(2) by (simp add: live_ok_def registry_new_def)
  have ne: "one_event ''t'' \<noteq> one_event ''u''" by (simp add: one_event_def entry_event_def)
  from outlived_run_hides_events [OF number_env_ok ok _ _ _ sample_trim(1) _ _ _ row(3,4,1) st' ne] st' show ?thesis
    by (auto simp: registry_new_def cleanup_locked_def sample_trim)
qed

end
