(* ===== verification/Task_Model.thy ===== *)
theory Task_Model
  imports Json_Value Clock_Text Text_Pieces "HOL-Library.Word" "HOL-Library.Product_Lexorder"
begin

text \<open>
  Tasks (\<open>core/automation/task.rs\<close>): their approval and status, the signature by which
  duplicates are found, reminders and their lateness, the order in which due tasks are claimed, and
  the queue in memory. Field prefix \<open>tk_\<close>.

  A \<open>Uuid\<close> is its 128-bit number (its bytes compare like the number); \<open>f32\<close> scores are
  carried as their bits, since no modelled operation computes with them.
\<close>

section \<open>Data\<close>

type_synonym uuid = "128 word"

datatype task_approval = Auto | NotifyThenExecute nat | RequireApproval

datatype task_status =
    Pending | AwaitingApproval | ExpiredNeedsReapproval | Paused | InProgress | Completed | Failed string | Cancelled

record task =
  tk_id :: uuid
  tk_description :: string
  tk_action :: string
  tk_arguments :: json
  tk_approval :: task_approval
  tk_capabilities :: "string list"
  tk_status :: task_status
  tk_created_at :: int
  tk_scheduled_for :: "int option"
  tk_cron :: "string option"
  tk_result :: "string option"
  tk_proof_id :: "uuid option"
  tk_priority :: "32 word option"
  tk_urgency :: "32 word option"
  tk_importance :: "32 word option"
  tk_eisenhower_quadrant :: "8 word option"

definition ONE_SHOT_REMINDER_MAX_LATENESS_SECS :: int where "ONE_SHOT_REMINDER_MAX_LATENESS_SECS = 15 * 60"
definition ONE_SHOT_REMINDER_DELAY_NOTICE_SECS :: int where "ONE_SHOT_REMINDER_DELAY_NOTICE_SECS = 60"

definition task_new :: "uuid \<Rightarrow> int \<Rightarrow> string \<Rightarrow> string \<Rightarrow> json \<Rightarrow> task" where
  "task_new i now description action arguments = \<lparr>tk_id = i, tk_description = description, tk_action = action,
     tk_arguments = arguments, tk_approval = Auto, tk_capabilities = [], tk_status = Pending, tk_created_at = now,
     tk_scheduled_for = None, tk_cron = None, tk_result = None, tk_proof_id = None, tk_priority = None, tk_urgency = None,
     tk_importance = None, tk_eisenhower_quadrant = None\<rparr>"

section \<open>Signatures\<close>

definition automation_meta_key :: "string \<Rightarrow> bool" where
  "automation_meta_key k \<longleftrightarrow> k = ''_automation'' \<or> k = ''_approval'' \<or> k = ''report_to''"

fun strip_automation_meta :: "json \<Rightarrow> json"
  and strip_members :: "(string \<times> json) list \<Rightarrow> (string \<times> json) list"
  and strip_items :: "json list \<Rightarrow> json list" where
  "strip_automation_meta (JObj xs) = JObj (strip_members xs)"
| "strip_automation_meta (JArr items) = JArr (strip_items items)"
| "strip_automation_meta JNull = JNull"
| "strip_automation_meta (JBool b) = JBool b"
| "strip_automation_meta (JNum n) = JNum n"
| "strip_automation_meta (JStr s) = JStr s"
| "strip_members [] = []"
| "strip_members ((k, v) # xs) = (if automation_meta_key k then strip_members xs
     else (k, strip_automation_meta v) # strip_members xs)"
| "strip_items [] = []"
| "strip_items (x # xs) = strip_automation_meta x # strip_items xs"

definition split_whitespace :: "string \<Rightarrow> string list" where
  "split_whitespace s = filter (\<lambda>w. w \<noteq> []) (split_on is_ws s)"

definition ascii_alnum :: "char \<Rightarrow> bool" where
  "ascii_alnum c \<longleftrightarrow> is_lower c \<or> is_upper c \<or> is_digit c"

definition ascii_ws :: "char \<Rightarrow> bool" where
  "ascii_ws c = (let n = of_char c :: nat in n = 32 \<or> n = 9 \<or> n = 10 \<or> n = 12 \<or> n = 13)"

definition normalize_signature_text :: "string \<Rightarrow> string" where
  "normalize_signature_text v = intercalate '' '' (split_whitespace
     (map (\<lambda>ch. if ascii_alnum ch \<or> ascii_ws ch then ch else CHR '' '') (ascii_lower (trim v))))"

fun canonical_signature_value :: "json \<Rightarrow> string"
  and canonical_items :: "json list \<Rightarrow> string list"
  and canonical_members :: "(string \<times> json) list \<Rightarrow> (string \<times> string) list" where
  "canonical_signature_value JNull = ''null''"
| "canonical_signature_value (JBool b) = (if b then ''true'' else ''false'')"
| "canonical_signature_value (JNum n) = n"
| "canonical_signature_value (JStr s) = normalize_signature_text s"
| "canonical_signature_value (JArr items) = ''['' @ intercalate '','' (canonical_items items) @ '']''"
| "canonical_signature_value (JObj xs) = ''{'' @ intercalate '',''
     (map (\<lambda>(k, v). k @ '':'' @ v) (sort_key fst (canonical_members xs))) @ ''}''"
| "canonical_items [] = []"
| "canonical_items (x # xs) = canonical_signature_value x # canonical_items xs"
| "canonical_members [] = []"
| "canonical_members ((k, v) # xs) = (normalize_signature_text k, canonical_signature_value v) # canonical_members xs"

definition task_topic_signature :: "json \<Rightarrow> string \<Rightarrow> string" where
  "task_topic_signature arguments description =
    (let a = canonical_signature_value (strip_automation_meta arguments); d = normalize_signature_text description in
     if a = ''{}'' \<or> a = ''null'' then d else if d = [] then a else d @ ''|'' @ a)"

definition task_request_signature_from_fields ::
    "string \<Rightarrow> string \<Rightarrow> json \<Rightarrow> string option \<Rightarrow> string option \<Rightarrow> string" where
  "task_request_signature_from_fields action_name description arguments cron_expr at_time =
    (let cleaned = strip_automation_meta arguments;
         schedule = (case cron_expr of Some cron \<Rightarrow> ''cron:'' @ normalize_signature_text cron
           | None \<Rightarrow> (case at_time of Some at \<Rightarrow> ''at:'' @ normalize_signature_text at | None \<Rightarrow> ''once''))
     in ascii_lower (trim action_name) @ ''|'' @ schedule @ ''|'' @ task_topic_signature cleaned description)"

definition task_semantic_signature :: "chrono \<Rightarrow> task \<Rightarrow> string" where
  "task_semantic_signature ch t = task_request_signature_from_fields (tk_action t) (tk_description t) (tk_arguments t)
     (tk_cron t) (map_option (to_rfc3339 ch) (tk_scheduled_for t))"

definition tasks_are_semantically_similar :: "chrono \<Rightarrow> task \<Rightarrow> task \<Rightarrow> bool" where
  "tasks_are_semantically_similar ch existing candidate =
    (if \<not> eq_ignore_case (tk_action existing) (tk_action candidate) then False
     else task_semantic_signature ch existing = task_semantic_signature ch candidate)"

section \<open>Reminders\<close>

definition task_has_schedule :: "task \<Rightarrow> bool" where
  "task_has_schedule t \<longleftrightarrow> tk_scheduled_for t \<noteq> None \<or> (case tk_cron t of Some v \<Rightarrow> trim v \<noteq> [] | None \<Rightarrow> False)"

definition task_is_scheduled_reminder :: "task \<Rightarrow> bool" where
  "task_is_scheduled_reminder t \<longleftrightarrow> task_has_schedule t
     \<and> (eq_ignore_case (tk_action t) ''notify_user'' \<or> eq_ignore_case (tk_action t) ''goal_reminder'')"

definition task_is_one_shot_scheduled_reminder :: "task \<Rightarrow> bool" where
  "task_is_one_shot_scheduled_reminder t \<longleftrightarrow> task_is_scheduled_reminder t \<and> tk_cron t = None \<and> tk_scheduled_for t \<noteq> None"

definition task_lateness :: "task \<Rightarrow> int \<Rightarrow> int option" where
  "task_lateness t now = (case tk_scheduled_for t of None \<Rightarrow> None
     | Some scheduled_for \<Rightarrow> (let lateness = now - scheduled_for in if lateness > 0 then Some lateness else None))"

definition one_shot_reminder_is_expired :: "task \<Rightarrow> int \<Rightarrow> bool" where
  "one_shot_reminder_is_expired t now \<longleftrightarrow> task_is_one_shot_scheduled_reminder t
     \<and> (case task_lateness t now of Some l \<Rightarrow> l > secs ONE_SHOT_REMINDER_MAX_LATENESS_SECS | None \<Rightarrow> False)"

definition one_shot_reminder_needs_delay_notice :: "task \<Rightarrow> int \<Rightarrow> bool" where
  "one_shot_reminder_needs_delay_notice t now \<longleftrightarrow> task_is_one_shot_scheduled_reminder t
     \<and> (case task_lateness t now of
          Some l \<Rightarrow> l > secs ONE_SHOT_REMINDER_DELAY_NOTICE_SECS \<and> l \<le> secs ONE_SHOT_REMINDER_MAX_LATENESS_SECS
        | None \<Rightarrow> False)"

section \<open>The order of due tasks\<close>

datatype ordering = Less | Equal | Greater

fun then_with :: "ordering \<Rightarrow> ordering \<Rightarrow> ordering" where
  "then_with Equal o' = o'"
| "then_with ord o' = ord"

definition cmp :: "'a::linorder \<Rightarrow> 'a \<Rightarrow> ordering" where
  "cmp x y = (if x < y then Less else if x = y then Equal else Greater)"

definition task_due :: "task \<Rightarrow> int" where
  "task_due t = (case tk_scheduled_for t of Some s \<Rightarrow> s | None \<Rightarrow> tk_created_at t)"

definition task_due_priority_cmp :: "task \<Rightarrow> task \<Rightarrow> ordering" where
  "task_due_priority_cmp l r = then_with (then_with (then_with (cmp (task_due l) (task_due r))
     (cmp (task_is_scheduled_reminder r) (task_is_scheduled_reminder l)))
     (cmp (tk_created_at l) (tk_created_at r)))
     (cmp (tk_id l) (tk_id r))"

section \<open>Approval\<close>

fun normalized_task_approval :: "task_approval \<Rightarrow> task_approval" where
  "normalized_task_approval Auto = Auto"
| "normalized_task_approval RequireApproval = Auto"
| "normalized_task_approval (NotifyThenExecute _) = Auto"

definition task_requires_explicit_approval :: "task_approval \<Rightarrow> bool" where
  "task_requires_explicit_approval a \<longleftrightarrow> normalized_task_approval a = RequireApproval"

definition status_for_task_approval :: "task_approval \<Rightarrow> task_status" where
  "status_for_task_approval a = (if task_requires_explicit_approval a then AwaitingApproval else Pending)"

section \<open>The queue\<close>

type_synonym task_queue = "task list"

definition queue_add :: "task \<Rightarrow> task_queue \<Rightarrow> task_queue" where
  "queue_add t q = q @ [t]"

text \<open>\<open>get_mut\<close> and a change through the reference: the first task with the id.\<close>

fun queue_get :: "uuid \<Rightarrow> task_queue \<Rightarrow> task option" where
  "queue_get i [] = None"
| "queue_get i (t # q) = (if tk_id t = i then Some t else queue_get i q)"

fun queue_modify :: "uuid \<Rightarrow> (task \<Rightarrow> task) \<Rightarrow> task_queue \<Rightarrow> task_queue" where
  "queue_modify i f [] = []"
| "queue_modify i f (t # q) = (if tk_id t = i then f t # q else t # queue_modify i f q)"

definition queue_remove :: "uuid \<Rightarrow> task_queue \<Rightarrow> bool \<times> task_queue" where
  "queue_remove i q = (let q' = filter (\<lambda>t. tk_id t \<noteq> i) q in (length q \<noteq> length q', q'))"
section \<open>Signatures: normal form and what they ignore\<close>

lemma strip_idem [simp]:
  "strip_automation_meta (strip_automation_meta j) = strip_automation_meta j"
  "strip_members (strip_members xs) = strip_members xs"
  "strip_items (strip_items js) = strip_items js"
  by (induction j and xs and js rule: strip_automation_meta_strip_members_strip_items.induct) auto

lemma strip_members_insert: "automation_meta_key k \<Longrightarrow> strip_members (obj_insert k v xs) = strip_members xs"
  by (induction k v xs rule: obj_insert.induct) auto

lemma strip_insert: "automation_meta_key k \<Longrightarrow> strip_automation_meta (json_insert k v j) = strip_automation_meta j"
  by (cases j) (simp_all add: strip_members_insert)

lemma signature_strip:
  "strip_automation_meta a = strip_automation_meta b \<Longrightarrow>
    task_request_signature_from_fields act d a c t = task_request_signature_from_fields act d b c t"
  by (simp add: task_request_signature_from_fields_def)

lemma split_whitespace_parts: "w \<in> set (split_whitespace s) \<Longrightarrow> w \<noteq> [] \<and> (\<forall>c \<in> set w. c \<in> set s \<and> \<not> is_ws c)"
  by (auto simp: split_whitespace_def dest: split_on_parts)

text \<open>A normalised text: words of lower-case letters and digits, one blank apart.\<close>

definition signature_word :: "string \<Rightarrow> bool" where
  "signature_word w \<longleftrightarrow> w \<noteq> [] \<and> (\<forall>c \<in> set w. is_lower c \<or> is_digit c)"

lemma lower_digit_char:
  assumes "is_lower c \<or> is_digit c"
  shows "\<not> is_ws c" and "lower_char c = c" and "ascii_alnum c"
  using assms by (auto simp: is_lower_def is_digit_def is_ws_def lower_char_def is_upper_def ascii_alnum_def Let_def)

lemma ascii_ws_ws: "ascii_ws c \<Longrightarrow> is_ws c"
  by (auto simp: ascii_ws_def is_ws_def Let_def)

lemma lower_alnum: "ascii_alnum (lower_char c) \<Longrightarrow> is_lower (lower_char c) \<or> is_digit (lower_char c)"
proof -
  assume a: "ascii_alnum (lower_char c)"
  have "\<not> is_upper (lower_char c)"
    by (cases "is_upper c") (auto simp: lower_char_def is_upper_def Let_def)
  with a show ?thesis by (simp add: ascii_alnum_def)
qed

lemma normalize_words:
  obtains ws where "normalize_signature_text v = intercalate '' '' ws" and "\<forall>w \<in> set ws. signature_word w"
proof -
  let ?m = "map (\<lambda>ch. if ascii_alnum ch \<or> ascii_ws ch then ch else CHR '' '') (ascii_lower (trim v))"
  have "signature_word w" if w: "w \<in> set (split_whitespace ?m)" for w
  proof -
    have "is_lower c \<or> is_digit c" if c: "c \<in> set w" for c
    proof -
      from split_whitespace_parts [OF w] c have "c \<in> set ?m" "\<not> is_ws c" by auto
      then obtain d where d: "c = (if ascii_alnum (lower_char d) \<or> ascii_ws (lower_char d) then lower_char d else CHR '' '')"
        unfolding ascii_lower_def by (auto simp only: set_map image_iff)
      have "is_ws CHR '' ''" by code_simp
      with d \<open>\<not> is_ws c\<close> ascii_ws_ws have "c = lower_char d" "ascii_alnum (lower_char d)" by (auto split: if_splits)
      with lower_alnum show ?thesis by simp
    qed
    with split_whitespace_parts [OF w] show ?thesis by (simp add: signature_word_def)
  qed
  then show thesis using that by (simp add: normalize_signature_text_def)
qed

lemma words_trim:
  assumes "\<forall>w \<in> set ws. signature_word w"
  shows "trim (intercalate '' '' ws) = intercalate '' '' ws"
proof (cases "ws = []")
  case False
  have "intercalate '' '' ws \<noteq> [] \<and> \<not> is_ws (hd (intercalate '' '' ws)) \<and> \<not> is_ws (last (intercalate '' '' ws))"
    using False assms
  proof (induction "'' ''" ws rule: intercalate.induct)
    case (2 x)
    then show ?case by (auto simp: signature_word_def lower_digit_char(1))
  next
    case (3 x y xs)
    then have "x \<noteq> []" "\<not> is_ws (hd x)" by (auto simp: signature_word_def lower_digit_char(1))
    with 3 show ?case by auto
  qed simp
  then have "trim_start (intercalate '' '' ws) = intercalate '' '' ws"
    and "dropWhile is_ws (rev (intercalate '' '' ws)) = rev (intercalate '' '' ws)"
    by (simp_all add: trim_start_hd dropWhile_eq_self_iff hd_rev)
  then show ?thesis by (simp add: trim_def trim_end_def)
qed (simp add: trim_def)

lemma normalize_of_words:
  assumes "\<forall>w \<in> set ws. signature_word w"
  shows "normalize_signature_text (intercalate '' '' ws) = intercalate '' '' ws"
proof (cases "ws = []")
  case True
  then show ?thesis by (simp add: normalize_signature_text_def trim_def ascii_lower_def split_whitespace_def)
next
  case False
  have sp: "is_ws CHR '' ''" "ascii_ws CHR '' ''" "lower_char CHR '' '' = CHR '' ''" by code_simp+
  have chars: "c = CHR '' '' \<or> is_lower c \<or> is_digit c" if "c \<in> set (intercalate '' '' ws)" for c
    using that assms by (induction "'' ''" ws rule: intercalate.induct) (auto simp: signature_word_def)
  have keep: "(if ascii_alnum (lower_char c) \<or> ascii_ws (lower_char c) then lower_char c else CHR '' '') = c"
    if "c \<in> set (intercalate '' '' ws)" for c
    using chars [OF that] sp lower_digit_char(2,3) [of c] by (elim disjE) simp_all
  have "map (\<lambda>ch. if ascii_alnum ch \<or> ascii_ws ch then ch else CHR '' '') (ascii_lower (intercalate '' '' ws)) = intercalate '' '' ws"
    unfolding ascii_lower_def list.map_comp comp_def by (rule map_idI) (rule keep)
  moreover have "split_on is_ws (intercalate '' '' ws) = ws"
    by (rule split_on_intercalate [where P = is_ws, OF sp(1) False]) (use assms lower_digit_char(1) in \<open>auto simp: signature_word_def\<close>)
  moreover have "filter (\<lambda>w. w \<noteq> []) ws = ws" using assms by (auto simp: signature_word_def filter_id_conv)
  ultimately show ?thesis by (simp add: normalize_signature_text_def split_whitespace_def words_trim [OF assms])
qed

lemma normalize_idem: "normalize_signature_text (normalize_signature_text v) = normalize_signature_text v"
  by (rule normalize_words [of v]) (simp add: normalize_of_words)
text \<open>
  Duplicates. Being the same request is an equivalence on tasks, and it does not see the automation
  metadata: setting \<open>_automation\<close>, \<open>_approval\<close> or \<open>report_to\<close> in a task's arguments, or
  rewriting its description in another letter case or punctuation with the same normal form, gives the
  same request.
\<close>

theorem similar_equivalence:
  "tasks_are_semantically_similar ch t t
   \<and> tasks_are_semantically_similar ch t u = tasks_are_semantically_similar ch u t
   \<and> (tasks_are_semantically_similar ch t u \<longrightarrow> tasks_are_semantically_similar ch u v \<longrightarrow> tasks_are_semantically_similar ch t v)
   \<and> (automation_meta_key k \<longrightarrow>
        tasks_are_semantically_similar ch (t\<lparr>tk_arguments := json_insert k j (tk_arguments t)\<rparr>) t)
   \<and> tasks_are_semantically_similar ch (t\<lparr>tk_description := normalize_signature_text (tk_description t)\<rparr>) t"
proof (intro conjI impI)
  show "tasks_are_semantically_similar ch (t\<lparr>tk_arguments := json_insert k j (tk_arguments t)\<rparr>) t" if "automation_meta_key k"
    using signature_strip [OF strip_insert [OF that, of j "tk_arguments t"]]
    by (simp add: tasks_are_semantically_similar_def task_semantic_signature_def eq_ignore_case_def)
  show "tasks_are_semantically_similar ch (t\<lparr>tk_description := normalize_signature_text (tk_description t)\<rparr>) t"
    by (simp add: tasks_are_semantically_similar_def task_semantic_signature_def eq_ignore_case_def
        task_request_signature_from_fields_def task_topic_signature_def normalize_idem)
qed (auto simp: tasks_are_semantically_similar_def eq_ignore_case_def split: if_splits)

section \<open>Reminders and order\<close>

lemma cmp_simps: "cmp x y = Less \<longleftrightarrow> x < y" "cmp x y = Equal \<longleftrightarrow> x = y" "cmp x y = Greater \<longleftrightarrow> y < x"
  by (auto simp: cmp_def)

lemma then_with_simps:
  "then_with a b = Less \<longleftrightarrow> a = Less \<or> a = Equal \<and> b = Less"
  "then_with a b = Equal \<longleftrightarrow> a = Equal \<and> b = Equal"
  "then_with a b = Greater \<longleftrightarrow> a = Greater \<or> a = Equal \<and> b = Greater"
  by (cases a; cases b; simp)+

text \<open>The order is the lexicographic one of due time, reminders first, age and id.\<close>

definition due_key :: "task \<Rightarrow> int \<times> bool \<times> int \<times> uuid" where
  "due_key t = (task_due t, \<not> task_is_scheduled_reminder t, tk_created_at t, tk_id t)"

lemma due_cmp_key: "task_due_priority_cmp l r = cmp (due_key l) (due_key r)"
proof -
  have "task_due_priority_cmp l r = Less \<longleftrightarrow> due_key l < due_key r"
    by (auto simp: task_due_priority_cmp_def then_with_simps cmp_simps due_key_def less_prod_def' less_le)
  moreover have "task_due_priority_cmp l r = Equal \<longleftrightarrow> due_key l = due_key r"
    by (auto simp: task_due_priority_cmp_def then_with_simps cmp_simps due_key_def)
  ultimately show ?thesis by (cases "task_due_priority_cmp l r") (auto simp: cmp_def)
qed
theorem similar_equivalence_witness:
  "let t = task_new 1 0 ''Send  Mail'' ''send_mail'' (JObj []);
       u = t\<lparr>tk_arguments := json_insert ''_automation'' (JNum ''1'') (tk_arguments t)\<rparr>;
       v = t\<lparr>tk_description := normalize_signature_text (tk_description t)\<rparr>
   in tasks_are_semantically_similar decimal_chrono u v \<and> tasks_are_semantically_similar decimal_chrono v u"
proof -
  let ?t = "task_new 1 0 ''Send  Mail'' ''send_mail'' (JObj [])"
  have k: "automation_meta_key ''_automation''" by code_simp
  from similar_equivalence show ?thesis using k unfolding Let_def by blast
qed

end
