(* ===== verification/Automation_Runs.thy ===== *)
theory Automation_Runs
  imports Json_Value Clock_Text Text_Pieces
begin

text \<open>
  Automation runs (\<open>core/automation/runs.rs\<close>): the execution policy and its limits, the
  metadata kept under \<open>_automation\<close> in a task's arguments (origin, policy, attempt and the
  authority the task was created with), the retry time, the validation and critique of a result, and
  the contract of change-detection observations.

  serde\_json and the regex crate are parameters (\<open>run_env\<close>): the codecs of the typed values,
  the texts of JSON values, and a compiled pattern as a predicate. Prefixes: \<open>av_\<close> (validation),
  \<open>ap_\<close> (policy), \<open>ao_\<close> (origin), \<open>ax_\<close> (stored authority), \<open>ac_\<close>
  (\<open>ActionAuthorizationContext\<close>), \<open>pr_\<close> (principal), \<open>sc_\<close> (access scope).
\<close>

section \<open>Data\<close>

definition AUTOMATION_MAX_ATTEMPTS_CAP :: nat where "AUTOMATION_MAX_ATTEMPTS_CAP = 12"
definition AUTOMATION_MAX_STALL_TIMEOUT_SECS :: nat where "AUTOMATION_MAX_STALL_TIMEOUT_SECS = 365 * 24 * 60 * 60"

record automation_origin =
  ao_channel :: "string option"
  ao_conversation_id :: "string option"
  ao_project_id :: "string option"
  ao_source :: "string option"

definition origin_default :: automation_origin where
  "origin_default = \<lparr>ao_channel = None, ao_conversation_id = None, ao_project_id = None, ao_source = None\<rparr>"

record principal =
  pr_user_id :: string
  pr_role :: string
  pr_auth_source :: string
  pr_trusted :: bool

record access_scope =
  sc_mcp_server_ids :: "string list"
  sc_ssh_connection_names :: "string list"
  sc_custom_api_ids :: "string list"
  sc_integration_ids :: "string list"
  sc_extension_pack_ids :: "string list"
  sc_channel_ids :: "string list"
  sc_approved_permission_ids :: "string list"

datatype execution_surface = ChatSurface | ApiSurface | AutomationSurface | BackgroundSurface | TestSurface | InternalSurface

record automation_authorization =
  ax_principal :: "principal option"
  ax_direct_user_intent :: bool
  ax_current_turn_is_explicit_approval :: bool
  ax_agent_access_scope :: "access_scope option"
  ax_capability_context_id :: "string option"

definition authorization_default :: automation_authorization where
  "authorization_default = \<lparr>ax_principal = None, ax_direct_user_intent = False, ax_current_turn_is_explicit_approval = False,
     ax_agent_access_scope = None, ax_capability_context_id = None\<rparr>"

record action_authorization =
  ac_principal :: "principal option"
  ac_surface :: execution_surface
  ac_direct_user_intent :: bool
  ac_current_turn_is_explicit_approval :: bool
  ac_agent_name :: "string option"
  ac_agent_access_scope :: "access_scope option"
  ac_capability_context_id :: "string option"
  ac_request_timezone :: "string option"
  ac_request_timezone_offset_minutes :: "int option"

datatype validation_mode =
    ModeNone | NonEmptyResult | StructuredSuccess | ContainsText | RegexMatch | JsonFieldExists | JsonFieldEquals | JsonArrayNonEmpty

record validation =
  av_mode :: validation_mode
  av_text :: "string option"
  av_field_path :: "string option"
  av_expected :: "json option"
  av_pattern :: "string option"

definition validation_default :: validation where
  "validation_default = \<lparr>av_mode = ModeNone, av_text = None, av_field_path = None, av_expected = None, av_pattern = None\<rparr>"

definition validation_is_unset :: "validation \<Rightarrow> bool" where
  "validation_is_unset v \<longleftrightarrow> av_mode v = ModeNone \<and> av_text v = None \<and> av_field_path v = None \<and> av_expected v = None \<and> av_pattern v = None"

definition normalize_optional_text :: "string option \<Rightarrow> string option" where
  "normalize_optional_text v = (case map_option trim v of Some t \<Rightarrow> if t = [] then None else Some t | None \<Rightarrow> None)"

definition validation_normalized :: "validation \<Rightarrow> validation" where
  "validation_normalized v = \<lparr>av_mode = av_mode v, av_text = normalize_optional_text (av_text v),
     av_field_path = normalize_optional_text (av_field_path v), av_expected = av_expected v,
     av_pattern = normalize_optional_text (av_pattern v)\<rparr>"

record execution_policy =
  ap_max_attempts :: nat
  ap_stall_timeout_secs :: nat
  ap_retry_backoff_secs :: nat
  ap_validation :: validation

definition execution_policy_default :: execution_policy where
  "execution_policy_default = \<lparr>ap_max_attempts = 3, ap_stall_timeout_secs = 0, ap_retry_backoff_secs = 60, ap_validation = validation_default\<rparr>"

definition execution_policy_normalized :: "execution_policy \<Rightarrow> execution_policy" where
  "execution_policy_normalized p = \<lparr>ap_max_attempts = clamp 1 AUTOMATION_MAX_ATTEMPTS_CAP (ap_max_attempts p),
     ap_stall_timeout_secs = (if ap_stall_timeout_secs p = 0 then 0
        else clamp 30 AUTOMATION_MAX_STALL_TIMEOUT_SECS (ap_stall_timeout_secs p)),
     ap_retry_backoff_secs = clamp 10 (24 * 60 * 60) (ap_retry_backoff_secs p),
     ap_validation = validation_normalized (ap_validation p)\<rparr>"

datatype run_status = Running | Succeeded | RunFailed | Retrying | TimedOut | Triggered

record critique =
  cr_summary :: string
  cr_retryable :: bool
  cr_validation_passed :: bool

record run_env =
  re_parse :: "string \<Rightarrow> json option"
  re_print :: "json \<Rightarrow> string"
  re_regex :: "string \<Rightarrow> (string \<Rightarrow> bool) option"
  re_origin_value :: "automation_origin \<Rightarrow> json option"
  re_value_origin :: "json \<Rightarrow> automation_origin option"
  re_policy_value :: "execution_policy \<Rightarrow> json option"
  re_value_policy :: "json \<Rightarrow> execution_policy option"
  re_value_validation :: "json \<Rightarrow> validation option"
  re_auth_value :: "automation_authorization \<Rightarrow> json option"
  re_value_auth :: "json \<Rightarrow> automation_authorization option"

section \<open>Metadata in the arguments\<close>

text \<open>The root object of the arguments and its \<open>_automation\<close> object, both made up when missing.\<close>

definition root_object :: "json \<Rightarrow> (string \<times> json) list" where
  "root_object arguments = (case json_as_object arguments of Some root \<Rightarrow> root | None \<Rightarrow> [])"

definition existing_meta :: "(string \<times> json) list \<Rightarrow> (string \<times> json) list" where
  "existing_meta root = (case map_of root ''_automation'' of None \<Rightarrow> []
     | Some v \<Rightarrow> (case json_as_object v of None \<Rightarrow> [] | Some meta \<Rightarrow> meta))"

definition value_or_null :: "json option \<Rightarrow> json" where
  "value_or_null v = (case v of Some j \<Rightarrow> j | None \<Rightarrow> JNull)"

definition inject_context :: "run_env \<Rightarrow> json \<Rightarrow> automation_origin \<Rightarrow> execution_policy \<Rightarrow> json" where
  "inject_context env arguments origin default_policy =
    (let root = root_object arguments;
         meta0 = existing_meta root;
         root' = obj_remove ''_automation'' root;
         meta1 = (if map_of meta0 ''origin'' = None then obj_insert ''origin'' (value_or_null (re_origin_value env origin)) meta0 else meta0);
         meta2 = (if map_of meta1 ''policy'' = None
           then obj_insert ''policy'' (value_or_null (re_policy_value env (execution_policy_normalized default_policy))) meta1 else meta1)
     in JObj (obj_insert ''_automation'' (JObj meta2) root'))"

definition persistable_authorization_context :: "action_authorization option \<Rightarrow> automation_authorization option" where
  "persistable_authorization_context authorization = (case authorization of None \<Rightarrow> None
   | Some a \<Rightarrow> (case ac_principal a of None \<Rightarrow> None
      | Some p \<Rightarrow> if \<not> pr_trusted p \<or> \<not> ac_direct_user_intent a then None
          else Some \<lparr>ax_principal = Some p, ax_direct_user_intent = True,
            ax_current_turn_is_explicit_approval = ac_current_turn_is_explicit_approval a,
            ax_agent_access_scope = ac_agent_access_scope a, ax_capability_context_id = ac_capability_context_id a\<rparr>))"

definition inject_authorization_context :: "run_env \<Rightarrow> json \<Rightarrow> action_authorization option \<Rightarrow> json" where
  "inject_authorization_context env arguments authorization =
    (case persistable_authorization_context authorization of
       None \<Rightarrow> arguments
     | Some persisted \<Rightarrow>
        (let root = root_object arguments;
             meta = obj_insert ''authorization'' (value_or_null (re_auth_value env persisted)) (existing_meta root)
         in JObj (obj_insert ''_automation'' (JObj meta) (obj_remove ''_automation'' root))))"

definition meta_field :: "string \<Rightarrow> json \<Rightarrow> json option" where
  "meta_field k arguments = Option.bind (json_get ''_automation'' arguments) (json_get k)"

definition origin_from_arguments :: "run_env \<Rightarrow> json \<Rightarrow> automation_origin" where
  "origin_from_arguments env arguments =
     (case Option.bind (meta_field ''origin'' arguments) (re_value_origin env) of Some r \<Rightarrow> r | None \<Rightarrow> origin_default)"

definition authorization_from_arguments :: "run_env \<Rightarrow> json \<Rightarrow> automation_authorization option" where
  "authorization_from_arguments env arguments = Option.bind (meta_field ''authorization'' arguments) (re_value_auth env)"

definition runtime_authorization_context_from_arguments :: "run_env \<Rightarrow> json \<Rightarrow> execution_surface \<Rightarrow> action_authorization" where
  "runtime_authorization_context_from_arguments env arguments surface =
    (let persisted = (case authorization_from_arguments env arguments of Some a \<Rightarrow> a | None \<Rightarrow> authorization_default) in
     \<lparr>ac_principal = ax_principal persisted, ac_surface = surface, ac_direct_user_intent = ax_direct_user_intent persisted,
      ac_current_turn_is_explicit_approval = ax_current_turn_is_explicit_approval persisted, ac_agent_name = None,
      ac_agent_access_scope = ax_agent_access_scope persisted, ac_capability_context_id = ax_capability_context_id persisted,
      ac_request_timezone = None, ac_request_timezone_offset_minutes = None\<rparr>)"

definition policy_from_arguments :: "run_env \<Rightarrow> json \<Rightarrow> validation \<Rightarrow> execution_policy" where
  "policy_from_arguments env arguments fallback_validation =
    (let policy = (case Option.bind (meta_field ''policy'' arguments) (re_value_policy env) of Some p \<Rightarrow> p | None \<Rightarrow> execution_policy_default);
         policy' = (if validation_is_unset (ap_validation policy) \<and> \<not> validation_is_unset fallback_validation
            then policy\<lparr>ap_validation := fallback_validation\<rparr> else policy)
     in execution_policy_normalized policy')"

fun json_as_u64 :: "json \<Rightarrow> nat option" where
  "json_as_u64 (JNum n) = parse_u64 n"
| "json_as_u64 _ = None"

definition validation_from_request_argument :: "run_env \<Rightarrow> json \<Rightarrow> validation \<Rightarrow> validation" where
  "validation_from_request_argument env arguments fallback_validation =
    (case map_option validation_normalized (Option.bind (json_get ''validation'' arguments) (re_value_validation env)) of
       Some v \<Rightarrow> if validation_is_unset v then validation_normalized fallback_validation else v
     | None \<Rightarrow> validation_normalized fallback_validation)"

definition policy_from_request_argument :: "run_env \<Rightarrow> json \<Rightarrow> execution_policy \<Rightarrow> execution_policy" where
  "policy_from_request_argument env arguments default_policy =
    (let p0 = (case Option.bind (json_get ''automation_policy'' arguments) (re_value_policy env) of
            Some p \<Rightarrow> p | None \<Rightarrow> execution_policy_normalized default_policy);
         p1 = (case Option.bind (json_get ''max_attempts'' arguments) json_as_u64 of
            Some n \<Rightarrow> p0\<lparr>ap_max_attempts := clamp 1 AUTOMATION_MAX_ATTEMPTS_CAP n\<rparr> | None \<Rightarrow> p0);
         p2 = (case Option.bind (json_get ''stall_timeout_secs'' arguments) json_as_u64 of
            Some n \<Rightarrow> p1\<lparr>ap_stall_timeout_secs := n\<rparr> | None \<Rightarrow> p1);
         p3 = (case Option.bind (json_get ''retry_backoff_secs'' arguments) json_as_u64 of
            Some n \<Rightarrow> p2\<lparr>ap_retry_backoff_secs := n\<rparr> | None \<Rightarrow> p2);
         p4 = p3\<lparr>ap_validation := validation_from_request_argument env arguments (ap_validation default_policy)\<rparr>
     in execution_policy_normalized p4)"

definition increment_attempt :: "json \<Rightarrow> nat \<Rightarrow> json" where
  "increment_attempt arguments attempt = (case json_as_object arguments of
     None \<Rightarrow> arguments
   | Some root \<Rightarrow> (case map_of root ''_automation'' of
        None \<Rightarrow> JObj (obj_insert ''_automation'' (JObj [(''attempt'', JNum (show_nat attempt))]) root)
      | Some meta \<Rightarrow> JObj (obj_insert ''_automation'' (json_insert ''attempt'' (JNum (show_nat attempt)) meta) root)))"

definition current_attempt :: "json \<Rightarrow> nat" where
  "current_attempt arguments = (case Option.bind (meta_field ''attempt'' arguments) json_as_u64 of
     Some n \<Rightarrow> clamp 1 AUTOMATION_MAX_ATTEMPTS_CAP n | None \<Rightarrow> 1)"

definition retry_delay_secs :: "execution_policy \<Rightarrow> nat \<Rightarrow> nat" where
  "retry_delay_secs policy attempt =
    (let exponent = min (attempt - 1) 8;
         multiplier = min (2 ^ exponent) u64_max
     in min (min (ap_retry_backoff_secs policy * multiplier) u64_max) (7 * 24 * 60 * 60))"

definition compute_retry_at :: "chrono \<Rightarrow> int \<Rightarrow> execution_policy \<Rightarrow> nat \<Rightarrow> int option" where
  "compute_retry_at ch now policy attempt = plus_secs ch now (int (retry_delay_secs policy attempt))"
section \<open>Reading a result\<close>

fun value_at_segments :: "string list \<Rightarrow> json \<Rightarrow> json option" where
  "value_at_segments [] current = Some current"
| "value_at_segments (seg # segs) current =
    (case (case parse_u64 seg of
        Some index \<Rightarrow> (case json_as_array current of
            Some items \<Rightarrow> if index < length items then Some (items ! index) else None
          | None \<Rightarrow> None)
      | None \<Rightarrow> json_get seg current) of
       None \<Rightarrow> None
     | Some j \<Rightarrow> value_at_segments segs j)"

definition json_value_at_path :: "json \<Rightarrow> string \<Rightarrow> json option" where
  "json_value_at_path root path =
     value_at_segments (filter (\<lambda>w. w \<noteq> []) (map trim (split_char CHR ''.'' path))) root"

fun json_value_to_text :: "run_env \<Rightarrow> json \<Rightarrow> string" where
  "json_value_to_text env JNull = ''null''"
| "json_value_to_text env (JBool b) = (if b then ''true'' else ''false'')"
| "json_value_to_text env (JNum n) = n"
| "json_value_to_text env (JStr s) = s"
| "json_value_to_text env j = re_print env j"

text \<open>The first of the paths at which a reader finds something.\<close>

fun first_at :: "(json \<Rightarrow> 'a option) \<Rightarrow> string list \<Rightarrow> json \<Rightarrow> 'a option" where
  "first_at rd [] v = None"
| "first_at rd (p # ps) v = (case Option.bind (json_value_at_path v p) rd of Some a \<Rightarrow> Some a | None \<Rightarrow> first_at rd ps v)"

definition structured_success_state :: "json \<Rightarrow> bool option" where
  "structured_success_state v =
    (case first_at json_as_bool [''success'', ''ok'', ''result.success'', ''result.ok'', ''_automation.success''] v of
       Some flag \<Rightarrow> Some flag
     | None \<Rightarrow> map_option (\<lambda>status. ascii_lower (trim status) \<in> {''ok'', ''success'', ''completed''})
         (first_at json_as_str [''status'', ''state'', ''result.status'', ''result.state''] v))"

definition structured_retryable_state :: "json \<Rightarrow> bool option" where
  "structured_retryable_state v =
    (case first_at json_as_bool [''retryable'', ''should_retry'', ''transient'', ''error.retryable'', ''_automation.retryable''] v of
       Some flag \<Rightarrow> Some flag
     | None \<Rightarrow>
        (case first_at (\<lambda>j. Option.bind (json_as_u64 j) (\<lambda>n. if n > 0 then Some n else None))
               [''retry_after_secs'', ''retry.after_secs''] v of
           Some _ \<Rightarrow> Some True
         | None \<Rightarrow>
            (if json_value_at_path v ''next_retry_at'' \<noteq> None then Some True
             else map_option (\<lambda>status. ascii_lower (trim status) \<in> {''retrying'', ''pending'', ''queued'', ''throttled'', ''transient_error''})
               (first_at json_as_str [''status'', ''state'', ''error.code''] v))))"

definition TOOL_COMPLETION_MARKER :: string where
  "TOOL_COMPLETION_MARKER = ''__TOOL_COMPLETION__:''"

text \<open>\<open>str::lines().next()\<close>: the text before the first line feed, less one carriage return.\<close>

definition first_line :: "string \<Rightarrow> string option" where
  "first_line s = (if s = [] then None
     else (let l = takeWhile (\<lambda>c. \<not> is_nl c) s in
       Some (if l \<noteq> [] \<and> last l = CHR 0x0D \<and> length l < length s then butlast l else l)))"

definition parse_automation_output_json :: "run_env \<Rightarrow> string \<Rightarrow> json option" where
  "parse_automation_output_json env output =
    (let trimmed = trim output in
     if prefix_of TOOL_COMPLETION_MARKER trimmed then
       (let payload = drop (length TOOL_COMPLETION_MARKER) trimmed in
        re_parse env (trim (case first_line payload of Some l \<Rightarrow> l | None \<Rightarrow> payload)))
     else re_parse env trimmed)"

definition primary_result_text :: "run_env \<Rightarrow> string \<Rightarrow> string" where
  "primary_result_text env raw_output = (case parse_automation_output_json env (trim raw_output) of
     None \<Rightarrow> raw_output
   | Some v \<Rightarrow> (case json_value_at_path v ''output'' of None \<Rightarrow> raw_output | Some output \<Rightarrow> json_value_to_text env output))"

definition validation_target_text :: "run_env \<Rightarrow> validation \<Rightarrow> string \<Rightarrow> json option \<Rightarrow> string" where
  "validation_target_text env v raw_output parsed_json =
    (case Option.bind parsed_json (\<lambda>j. Option.bind (av_field_path v) (json_value_at_path j)) of
       Some target \<Rightarrow> json_value_to_text env target
     | None \<Rightarrow> if parsed_json \<noteq> None then primary_result_text env raw_output else raw_output)"

definition validate_result :: "run_env \<Rightarrow> validation \<Rightarrow> string \<Rightarrow> bool" where
  "validate_result env v output =
    (let trimmed = trim output; n = validation_normalized v; parsed = parse_automation_output_json env trimmed in
     case av_mode v of
       ModeNone \<Rightarrow> True
     | NonEmptyResult \<Rightarrow>
         (case parsed of
            Some j \<Rightarrow> (case structured_success_state j of
                Some success \<Rightarrow> success \<and> trim (primary_result_text env trimmed) \<noteq> []
              | None \<Rightarrow> trim (primary_result_text env trimmed) \<noteq> [])
          | None \<Rightarrow> trimmed \<noteq> [])
     | StructuredSuccess \<Rightarrow>
         (if trimmed = [] then False
          else (case parsed of Some j \<Rightarrow> (case structured_success_state j of Some b \<Rightarrow> b | None \<Rightarrow> False) | None \<Rightarrow> False))
     | ContainsText \<Rightarrow>
         (case av_text n of Some t \<Rightarrow> contains (ascii_lower t) (ascii_lower (validation_target_text env n trimmed parsed)) | None \<Rightarrow> False)
     | RegexMatch \<Rightarrow>
         (case Option.bind (case av_pattern n of Some p \<Rightarrow> Some p | None \<Rightarrow> av_text n) (re_regex env) of
            Some matches \<Rightarrow> matches (validation_target_text env n trimmed parsed) | None \<Rightarrow> False)
     | JsonFieldExists \<Rightarrow>
         Option.bind parsed (\<lambda>j. Option.bind (av_field_path n) (json_value_at_path j)) \<noteq> None
     | JsonFieldEquals \<Rightarrow>
         (case Option.bind parsed (\<lambda>j. Option.bind (av_field_path n) (json_value_at_path j)) of
            Some actual \<Rightarrow> (case av_expected n of
                Some expected \<Rightarrow> actual = expected
              | None \<Rightarrow> (case av_text n of
                  Some expected_text \<Rightarrow> ascii_lower (json_value_to_text env actual) = ascii_lower expected_text
                | None \<Rightarrow> False))
          | None \<Rightarrow> False)
     | JsonArrayNonEmpty \<Rightarrow>
         (case Option.bind parsed (\<lambda>j. json_as_array
              (case Option.bind (av_field_path n) (json_value_at_path j) of Some t \<Rightarrow> t | None \<Rightarrow> j)) of
            Some items \<Rightarrow> items \<noteq> [] | None \<Rightarrow> False))"

definition truncate_chars :: "string \<Rightarrow> nat \<Rightarrow> string" where
  "truncate_chars v max_chars = (if length v \<le> max_chars then v else take max_chars v @ ''...'')"

definition quoted :: "string option \<Rightarrow> string" where
  "quoted t = (case t of Some s \<Rightarrow> '' `'' @ truncate_chars s 80 @ ''`'' | None \<Rightarrow> [])"

definition failed_validation_summary :: "validation \<Rightarrow> string" where
  "failed_validation_summary v = (let n = validation_normalized v in case av_mode v of
     ModeNone \<Rightarrow> ''Execution completed without validation.''
   | NonEmptyResult \<Rightarrow> ''Execution finished but did not produce a usable result.''
   | StructuredSuccess \<Rightarrow> ''Execution finished but did not report a structured success state.''
   | ContainsText \<Rightarrow> ''Execution finished but did not contain the required text'' @ quoted (av_text n) @ ''.''
   | RegexMatch \<Rightarrow> ''Execution finished but did not match the required pattern''
       @ quoted (case av_pattern n of Some p \<Rightarrow> Some p | None \<Rightarrow> av_text n) @ ''.''
   | JsonFieldExists \<Rightarrow> ''Execution finished but the expected JSON field'' @ quoted (av_field_path n) @ '' was missing.''
   | JsonFieldEquals \<Rightarrow> ''Execution finished but JSON field'' @ quoted (av_field_path n) @ '' did not match the expected value.''
   | JsonArrayNonEmpty \<Rightarrow> ''Execution finished but JSON array'' @ quoted (av_field_path n) @ '' was empty or missing.'')"

definition text_or_empty :: "string option \<Rightarrow> string" where
  "text_or_empty t = (case t of Some s \<Rightarrow> trim s | None \<Rightarrow> [])"

definition critique_result :: "run_env \<Rightarrow> validation \<Rightarrow> string option \<Rightarrow> string option \<Rightarrow> critique" where
  "critique_result env v output error =
    (let validation_passed = (case output of Some o' \<Rightarrow> validate_result env v o' | None \<Rightarrow> False);
         error_text = text_or_empty error;
         output_text = text_or_empty output;
         retryable = (case Option.bind (parse_automation_output_json env error_text) structured_retryable_state of
            Some b \<Rightarrow> b
          | None \<Rightarrow> (case Option.bind (parse_automation_output_json env output_text) structured_retryable_state of
              Some b \<Rightarrow> b | None \<Rightarrow> False));
         summary = (if error_text \<noteq> [] then ''Execution failed: '' @ truncate_chars error_text 180
            else if \<not> validation_passed then failed_validation_summary v
            else ''Execution and validation completed successfully.'')
     in \<lparr>cr_summary = summary, cr_retryable = retryable, cr_validation_passed = validation_passed\<rparr>)"

section \<open>Change-detection observations\<close>

fun value_is_material :: "json \<Rightarrow> bool"
  and items_material :: "json list \<Rightarrow> bool"
  and members_material :: "(string \<times> json) list \<Rightarrow> bool" where
  "value_is_material JNull = False"
| "value_is_material (JBool _) = True"
| "value_is_material (JNum _) = True"
| "value_is_material (JStr s) = (trim s \<noteq> [])"
| "value_is_material (JArr xs) = items_material xs"
| "value_is_material (JObj xs) = members_material xs"
| "items_material [] = False"
| "items_material (x # xs) = (value_is_material x \<or> items_material xs)"
| "members_material [] = False"
| "members_material ((k, v) # xs) = (value_is_material v \<or> members_material xs)"

definition observation_target_label :: "nat \<Rightarrow> json \<Rightarrow> string" where
  "observation_target_label index target =
    (case Option.bind (json_get ''id'' target) json_as_str of
       None \<Rightarrow> ''target['' @ show_nat index @ '']''
     | Some s \<Rightarrow> (if trim s = [] then ''target['' @ show_nat index @ '']''
         else ''target['' @ show_nat index @ ''] `'' @ truncate_chars (trim s) 80 @ ''`''))"

definition flag_true :: "string \<Rightarrow> (string \<times> json) list \<Rightarrow> bool" where
  "flag_true k obj \<longleftrightarrow> Option.bind (map_of obj k) json_as_bool = Some True"

definition field_or_null :: "string \<Rightarrow> (string \<times> json) list \<Rightarrow> json" where
  "field_or_null k obj = (case map_of obj k of Some v \<Rightarrow> v | None \<Rightarrow> JNull)"

definition target_violations :: "nat \<Rightarrow> json \<Rightarrow> string list" where
  "target_violations index target = (let label = observation_target_label index target in
     case json_as_object target of
       None \<Rightarrow> [label @ '' must be an object'']
     | Some obj \<Rightarrow>
         (if flag_true ''comparable'' obj then [] else [label @ ''.comparable must be true''])
         @ (if value_is_material (field_or_null ''source'' obj) then [] else [label @ ''.source must identify the observed source''])
         @ (if value_is_material (field_or_null ''observed_values'' obj) then []
            else [label @ ''.observed_values must contain comparable observed values''])
         @ (case Option.bind (map_of obj ''blocking_gaps'') json_as_array of
              Some gaps \<Rightarrow> if gaps \<noteq> [] then [label @ ''.blocking_gaps must be empty before the result is committed''] else []
            | None \<Rightarrow> []))"

definition observation_violations :: "(string \<times> json) list \<Rightarrow> string list" where
  "observation_violations obj =
     (if flag_true ''durable_observation_result'' obj then [] else [''`durable_observation_result` must be true''])
     @ (if flag_true ''ready_for_change_detection'' obj then []
        else [''`ready_for_change_detection` must be true before committing a change-detection baseline''])
     @ (case Option.bind (map_of obj ''targets'') json_as_array of
          Some (t # ts) \<Rightarrow> concat (map (\<lambda>(i, x). target_violations i x) (List.enumerate 0 (t # ts)))
        | _ \<Rightarrow> [''`targets` must be a non-empty array''])"

definition described :: "json \<Rightarrow> string \<Rightarrow> json" where
  "described type description = JObj [(''type'', type), (''description'', JStr description)]"

definition durable_observation_result_contract :: json where
  "durable_observation_result_contract =
    (let target_properties =
          [(''id'', described (JStr ''string'') ''Stable identifier for this observed target.''),
           (''source'', described (JArr [JStr ''object'', JStr ''string''])
              ''Stable source metadata or locator for the observed target.''),
           (''comparable'', JObj [(''const'', JBool True),
              (''description'', JStr ''True only when observed_values can be compared with future runs.'')]),
           (''observed_values'', described (JArr [JStr ''object'', JStr ''array'', JStr ''string'', JStr ''number'', JStr ''boolean''])
              ''Non-empty stable observed facts to compare on later runs; not a prose summary.''),
           (''blocking_gaps'', described (JStr ''array'')
              ''Empty when ready. If not ready, list missing source or observation facts.'')];
         root_properties =
          [(''durable_observation_result'', JObj [(''const'', JBool True)]),
           (''ready_for_change_detection'', described (JStr ''boolean'')
              ''True only when every target is comparable and has non-empty observed_values.''),
           (''observed_at'', described (JStr ''string'') ''ISO 8601 timestamp for when the state was observed.''),
           (''targets'', JObj [(''type'', JStr ''array''), (''minItems'', JNum ''1''),
              (''items'', JObj [(''type'', JStr ''object''),
                 (''required'', JArr [JStr ''id'', JStr ''source'', JStr ''comparable'', JStr ''observed_values'', JStr ''blocking_gaps'']),
                 (''properties'', JObj target_properties)])]),
           (''summary'', described (JStr ''string'')
              ''Brief human-readable summary. This must not be the only comparable observation.'')]
     in JObj [(''type'', JStr ''object''),
          (''required'', JArr [JStr ''durable_observation_result'', JStr ''ready_for_change_detection'', JStr ''targets'']),
          (''properties'', JObj root_properties),
          (''commit_rule'', JStr (''Commit only when durable_observation_result=true, ready_for_change_detection=true, every target has comparable=true, ''
             @ ''source is non-empty, observed_values is non-empty, and blocking_gaps is empty.'')),
          (''not_ready_rule'', JStr (''When comparable observations are missing, return the same field shape with ready_for_change_detection=false, ''
             @ ''comparable=false for affected targets, and blocking_gaps listing the missing facts.''))])"

definition durable_observation_contract_error :: "run_env \<Rightarrow> string list \<Rightarrow> string" where
  "durable_observation_contract_error env violations =
     ''Durable semantic observation is not ready to commit as a change-detection baseline. Return structured readiness JSON satisfying this contract: ''
     @ re_print env durable_observation_result_contract @ ''. Violations: '' @ intercalate ''; '' violations"

definition validate_change_detection_observation_payload :: "run_env \<Rightarrow> json \<Rightarrow> string + unit" where
  "validate_change_detection_observation_payload env payload = (case json_as_object payload of
     None \<Rightarrow> Inl (durable_observation_contract_error env [''result must be a structured readiness JSON object''])
   | Some obj \<Rightarrow> (let violations = observation_violations obj in
       if violations = [] then Inr () else Inl (durable_observation_contract_error env violations)))"

definition arguments_require_change_detection_observation :: "json \<Rightarrow> bool" where
  "arguments_require_change_detection_observation arguments =
    (case Option.bind (json_get ''execution_contract'' arguments) (json_get ''result_contract'') of
       None \<Rightarrow> False
     | Some rc \<Rightarrow> Option.bind (json_get ''properties'' rc) (json_get ''durable_observation_result'') \<noteq> None
         \<or> (case Option.bind (json_get ''required'' rc) json_as_array of
              Some required \<Rightarrow> list_ex (\<lambda>f. json_as_str f = Some ''durable_observation_result'') required
            | None \<Rightarrow> False))"
section \<open>Policies and retries\<close>

lemma clamp_id: "lo \<le> n \<Longrightarrow> n \<le> hi \<Longrightarrow> clamp lo hi n = n"
  by (simp add: clamp_def)

definition policy_ok :: "execution_policy \<Rightarrow> bool" where
  "policy_ok p \<longleftrightarrow> 1 \<le> ap_max_attempts p \<and> ap_max_attempts p \<le> 12
     \<and> (ap_stall_timeout_secs p = 0 \<or> 30 \<le> ap_stall_timeout_secs p \<and> ap_stall_timeout_secs p \<le> 365 * 86400)
     \<and> 10 \<le> ap_retry_backoff_secs p \<and> ap_retry_backoff_secs p \<le> 86400"

lemma normalized_policy_ok: "policy_ok (execution_policy_normalized p)"
  using clamp_bounds [of 1 12 "ap_max_attempts p"] clamp_bounds [of 30 "365 * 86400" "ap_stall_timeout_secs p"]
    clamp_bounds [of 10 86400 "ap_retry_backoff_secs p"]
  by (simp add: policy_ok_def execution_policy_normalized_def AUTOMATION_MAX_ATTEMPTS_CAP_def AUTOMATION_MAX_STALL_TIMEOUT_SECS_def)

lemma normalize_optional_text_idem: "normalize_optional_text (normalize_optional_text v) = normalize_optional_text v"
  by (auto simp: normalize_optional_text_def split: option.splits)

lemma execution_policy_normalized_idem:
  "execution_policy_normalized (execution_policy_normalized p) = execution_policy_normalized p"
proof -
  have c: "clamp lo hi (clamp lo hi n) = clamp lo hi n" if "lo \<le> hi" for lo hi n using that by (simp add: clamp_def)
  have "clamp 30 (365 * 24 * 60 * 60) n \<noteq> 0" for n by (simp add: clamp_def)
  then show ?thesis
    by (simp add: execution_policy_normalized_def validation_normalized_def normalize_optional_text_idem c
        AUTOMATION_MAX_ATTEMPTS_CAP_def AUTOMATION_MAX_STALL_TIMEOUT_SECS_def)
qed

lemma retry_delay:
  assumes "policy_ok p"
  shows "retry_delay_secs p attempt = min (ap_retry_backoff_secs p * 2 ^ min (attempt - 1) 8) 604800"
proof -
  have e: "(2::nat) ^ min (attempt - 1) 8 \<le> 2 ^ 8" by (rule power_increasing) auto
  then have "(2::nat) ^ min (attempt - 1) 8 \<le> u64_max" by (simp add: u64_max_def)
  moreover have "ap_retry_backoff_secs p * 2 ^ min (attempt - 1) 8 \<le> 86400 * 256"
    using assms e by (intro mult_le_mono) (auto simp: policy_ok_def)
  ultimately show ?thesis by (simp add: retry_delay_secs_def Let_def u64_max_def)
qed

text \<open>
  Retry bounds. Whatever the arguments say, the policy of a run keeps its limits (1 to 12 attempts,
  no stall timeout or one of 30 seconds to a year, a backoff of 10 seconds to a day), reading it again
  changes nothing, and the retry delay doubles with every attempt from the backoff on, between 10
  seconds and a week, never decreasing.
\<close>

theorem retry_policy_bounds:
  "let p = policy_from_arguments env arguments fallback in
     policy_ok p \<and> execution_policy_normalized p = p
     \<and> retry_delay_secs p 1 = ap_retry_backoff_secs p
     \<and> (attempt \<le> 8 \<longrightarrow> 1 \<le> attempt \<longrightarrow>
          retry_delay_secs p (attempt + 1) = min (2 * retry_delay_secs p attempt) 604800)
     \<and> 10 \<le> retry_delay_secs p attempt \<and> retry_delay_secs p attempt \<le> 604800
     \<and> retry_delay_secs p attempt \<le> retry_delay_secs p (attempt + 1)"
proof -
  let ?p = "policy_from_arguments env arguments fallback"
  obtain q where q: "?p = execution_policy_normalized q" by (simp add: policy_from_arguments_def Let_def)
  have ok: "policy_ok ?p" unfolding q by (rule normalized_policy_ok)
  note d = retry_delay [OF ok]
  have b: "10 \<le> ap_retry_backoff_secs ?p" "ap_retry_backoff_secs ?p \<le> 86400" using ok by (simp_all add: policy_ok_def)
  have le: "ap_retry_backoff_secs ?p \<le> ap_retry_backoff_secs ?p * 2 ^ k" for k by simp
  have "10 \<le> retry_delay_secs ?p attempt" unfolding d using b(1) le order_trans by fastforce
  moreover have "retry_delay_secs ?p attempt \<le> retry_delay_secs ?p (attempt + 1)"
  proof -
    have "ap_retry_backoff_secs ?p * 2 ^ min (attempt - 1) 8 \<le> ap_retry_backoff_secs ?p * 2 ^ min (attempt + 1 - 1) 8"
      by (intro mult_le_mono power_increasing) auto
    then show ?thesis unfolding d by linarith
  qed
  moreover have "retry_delay_secs ?p (attempt + 1) = min (2 * retry_delay_secs ?p attempt) 604800" if "attempt \<le> 8" "1 \<le> attempt"
  proof -
    from that have e: "min (attempt + 1 - 1) 8 = Suc (min (attempt - 1) 8)" by simp
    have "ap_retry_backoff_secs ?p * 2 ^ Suc (min (attempt - 1) 8) = 2 * (ap_retry_backoff_secs ?p * 2 ^ min (attempt - 1) 8)"
      by simp
    then show ?thesis unfolding d e by linarith
  qed
  moreover have "retry_delay_secs ?p 1 = ap_retry_backoff_secs ?p" unfolding d using b by simp
  moreover have "retry_delay_secs ?p attempt \<le> 604800" unfolding d by simp
  moreover have "execution_policy_normalized ?p = ?p" by (simp add: q execution_policy_normalized_idem)
  ultimately show ?thesis using ok unfolding Let_def by blast
qed

theorem retry_policy_bounds_witness:
  "10 \<le> retry_delay_secs (policy_from_arguments \<lparr>re_parse = \<lambda>_. None, re_print = \<lambda>_. [], re_regex = \<lambda>_. None,
      re_origin_value = \<lambda>_. None, re_value_origin = \<lambda>_. None, re_policy_value = \<lambda>_. None, re_value_policy = \<lambda>_. None,
      re_value_validation = \<lambda>_. None, re_auth_value = \<lambda>_. None, re_value_auth = \<lambda>_. None\<rparr> JNull validation_default) 5"
  using retry_policy_bounds [of _ JNull validation_default 5] by (simp add: Let_def)

section \<open>Attempts\<close>

text \<open>One retry: \<open>reschedule_task_retry\<close> stores the next attempt number.\<close>

definition next_attempt :: "json \<Rightarrow> json" where
  "next_attempt arguments = increment_attempt arguments (current_attempt arguments + 1)"

definition counts_attempts :: "json \<Rightarrow> bool" where
  "counts_attempts arguments \<longleftrightarrow> (case json_as_object arguments of None \<Rightarrow> False
     | Some root \<Rightarrow> (case map_of root ''_automation'' of None \<Rightarrow> True | Some meta \<Rightarrow> json_as_object meta \<noteq> None))"

lemma json_as_object_Some: "json_as_object j = Some xs \<longleftrightarrow> j = JObj xs"
  by (cases j) auto

lemma increment_attempt_counts:
  assumes "counts_attempts arguments" and "n \<le> u64_max"
  shows "counts_attempts (increment_attempt arguments n) \<and> current_attempt (increment_attempt arguments n) = clamp 1 12 n"
proof -
  obtain root where root: "arguments = JObj root" using assms(1)
    by (auto simp: counts_attempts_def json_as_object_Some split: option.splits)
  show ?thesis
  proof (cases "map_of root ''_automation''")
    case None
    then show ?thesis using root assms(2)
      by (simp add: counts_attempts_def increment_attempt_def current_attempt_def meta_field_def parse_u64_show_nat
          AUTOMATION_MAX_ATTEMPTS_CAP_def)
  next
    case (Some meta)
    then obtain ms where "meta = JObj ms" using assms(1) root
      by (auto simp: counts_attempts_def json_as_object_Some)
    then show ?thesis using Some root assms(2)
      by (simp add: counts_attempts_def increment_attempt_def current_attempt_def meta_field_def parse_u64_show_nat
          AUTOMATION_MAX_ATTEMPTS_CAP_def)
  qed
qed

text \<open>
  Retries are counted. For arguments in which an attempt number can be stored, the attempt after
  \<open>k\<close> retries is the first one plus \<open>k\<close>, up to 12, so a policy of \<open>n \<le> 12\<close> attempts is exhausted
  after at most \<open>n - 1\<close> retries; for any other arguments (a list, text, null, or an
  \<open>_automation\<close> that is no object) the attempt stays 1 for ever.
\<close>

theorem retries_counted:
  "if counts_attempts arguments
   then current_attempt ((next_attempt ^^ k) arguments) = min (current_attempt arguments + k) 12
   else current_attempt ((next_attempt ^^ k) arguments) = 1"
proof (cases "counts_attempts arguments")
  case True
  have "1 \<le> current_attempt j \<and> current_attempt j \<le> 12" for j
    by (auto simp: current_attempt_def AUTOMATION_MAX_ATTEMPTS_CAP_def clamp_def split: option.splits)
  note bounds = this
  have "counts_attempts ((next_attempt ^^ k) arguments)
      \<and> current_attempt ((next_attempt ^^ k) arguments) = min (current_attempt arguments + k) 12"
  proof (induction k)
    case 0
    show ?case using True bounds [of arguments] by simp
  next
    case (Suc k)
    let ?a = "(next_attempt ^^ k) arguments"
    have "current_attempt ?a + 1 \<le> u64_max" using bounds [of ?a] by (simp add: u64_max_def)
    from increment_attempt_counts [OF conjunct1 [OF Suc] this] Suc bounds [of ?a] show ?case
      by (simp add: next_attempt_def clamp_def)
  qed
  with True show ?thesis by simp
next
  case False
  have one: "current_attempt j = 1" if "\<not> counts_attempts j" for j
    using that by (cases j) (auto simp: counts_attempts_def current_attempt_def meta_field_def json_as_object_Some bind_eq_Some_conv
        split: option.splits elim!: json_get.elims)
  moreover have "\<not> counts_attempts (next_attempt j)" if nc: "\<not> counts_attempts j" for j
  proof (cases "json_as_object j")
    case None
    then show ?thesis using nc by (simp add: next_attempt_def increment_attempt_def)
  next
    case (Some root)
    then obtain m where m: "map_of root ''_automation'' = Some m" "json_as_object m = None"
      using nc by (auto simp: counts_attempts_def split: option.splits)
    have "json_insert k v m = m" for k v using m(2) by (cases m) auto
    then show ?thesis using Some m by (simp add: next_attempt_def increment_attempt_def counts_attempts_def)
  qed
  then have "\<not> counts_attempts ((next_attempt ^^ k) arguments)" using False by (induction k) auto
  with one False show ?thesis by simp
qed
section \<open>Authority\<close>

lemma json_get_object: "json_get k j = map_of (root_object j) k"
  by (cases j) (auto simp: root_object_def)

lemma meta_field_existing: "meta_field k arguments = map_of (existing_meta (root_object arguments)) k"
proof (cases "map_of (root_object arguments) ''_automation''")
  case (Some v)
  then show ?thesis by (cases v) (auto simp: meta_field_def json_get_object existing_meta_def root_object_def)
qed (simp add: meta_field_def json_get_object existing_meta_def)

lemma meta_of_injected:
  "meta_field k (JObj (obj_insert ''_automation'' (JObj meta) root)) = map_of meta k"
  by (simp add: meta_field_def)

definition auth_codec_ok :: "run_env \<Rightarrow> bool" where
  "auth_codec_ok env \<longleftrightarrow> (\<forall>a. \<exists>j. re_auth_value env a = Some j \<and> re_value_auth env j = Some a)"

lemma injected_authorization:
  assumes "auth_codec_ok env" and "persistable_authorization_context authorization = Some a"
  shows "authorization_from_arguments env (inject_authorization_context env arguments authorization) = Some a"
proof -
  obtain j where "re_auth_value env a = Some j" "re_value_auth env j = Some a"
    using assms(1) unfolding auth_codec_ok_def by blast
  with assms(2) show ?thesis
    by (simp add: authorization_from_arguments_def inject_authorization_context_def Let_def meta_of_injected value_or_null_def)
qed

lemma inject_context_keeps:
  "k \<noteq> ''origin'' \<Longrightarrow> k \<noteq> ''policy'' \<Longrightarrow> meta_field k (inject_context env arguments origin pol) = meta_field k arguments"
  unfolding inject_context_def Let_def meta_of_injected by (simp add: meta_field_existing)

text \<open>
  C36. Authority of a trusted caller. When a trusted principal asks directly, the run of the created task
  gets exactly his authority back from its arguments (principal, intent, approval, scope and capability
  context), on the surface it runs on and without agent name or time zone; nothing already in the
  arguments survives in its place, and the other metadata are kept.
\<close>

theorem authorization_roundtrip:
  assumes "auth_codec_ok env" and "ac_principal a = Some p" and "pr_trusted p" and "ac_direct_user_intent a"
  shows "runtime_authorization_context_from_arguments env (inject_authorization_context env arguments (Some a)) surface
      = a\<lparr>ac_surface := surface, ac_agent_name := None, ac_request_timezone := None, ac_request_timezone_offset_minutes := None\<rparr>
    \<and> (\<forall>k. k \<noteq> ''authorization'' \<longrightarrow>
         meta_field k (inject_authorization_context env arguments (Some a)) = meta_field k arguments)"
proof -
  let ?x = "\<lparr>ax_principal = Some p, ax_direct_user_intent = True,
      ax_current_turn_is_explicit_approval = ac_current_turn_is_explicit_approval a,
      ax_agent_access_scope = ac_agent_access_scope a, ax_capability_context_id = ac_capability_context_id a\<rparr>"
  have x: "persistable_authorization_context (Some a) = Some ?x"
    using assms(2-4) by (simp add: persistable_authorization_context_def)
  have "meta_field k (inject_authorization_context env arguments (Some a)) = meta_field k arguments" if "k \<noteq> ''authorization''" for k
    using that unfolding inject_authorization_context_def x option.case Let_def meta_of_injected
    by (simp add: meta_field_existing)
  then show ?thesis
    using injected_authorization [OF assms(1) x, of arguments] assms(2,4)
    by (simp add: runtime_authorization_context_from_arguments_def)
qed

text \<open>
  Forged authority survives. For a caller whose authority may not be stored (none, untrusted, or
  without direct intent) the arguments are left as they are, and so an \<open>_automation.authorization\<close>
  that they already contain is read back as the authority of the run: whoever chose the task's
  arguments also chose its principal.
\<close>

theorem forged_authorization_survives:
  assumes "persistable_authorization_context authorization = None"
    and "meta_field ''authorization'' arguments = Some j" and "re_value_auth env j = Some forged"
  shows "runtime_authorization_context_from_arguments env
      (inject_authorization_context env (inject_context env arguments origin pol) authorization) surface
    = \<lparr>ac_principal = ax_principal forged, ac_surface = surface, ac_direct_user_intent = ax_direct_user_intent forged,
       ac_current_turn_is_explicit_approval = ax_current_turn_is_explicit_approval forged, ac_agent_name = None,
       ac_agent_access_scope = ax_agent_access_scope forged, ac_capability_context_id = ax_capability_context_id forged,
       ac_request_timezone = None, ac_request_timezone_offset_minutes = None\<rparr>"
  using assms inject_context_keeps [of "''authorization''" env arguments origin pol]
  by (simp add: inject_authorization_context_def runtime_authorization_context_from_arguments_def authorization_from_arguments_def)

section \<open>Observations\<close>

text \<open>What a target has to look like, without the messages.\<close>

definition target_ready :: "json \<Rightarrow> bool" where
  "target_ready t \<longleftrightarrow> (\<exists>obj. t = JObj obj \<and> map_of obj ''comparable'' = Some (JBool True)
     \<and> (\<exists>v. map_of obj ''source'' = Some v \<and> value_is_material v)
     \<and> (\<exists>v. map_of obj ''observed_values'' = Some v \<and> value_is_material v)
     \<and> (\<forall>g. map_of obj ''blocking_gaps'' = Some (JArr g) \<longrightarrow> g = []))"

lemma flag_true_iff: "flag_true k obj \<longleftrightarrow> map_of obj k = Some (JBool True)"
  by (auto simp: flag_true_def bind_eq_Some_conv elim: json_as_bool.elims)

lemma material_field: "value_is_material (field_or_null k obj) \<longleftrightarrow> (\<exists>v. map_of obj k = Some v \<and> value_is_material v)"
  by (auto simp: field_or_null_def split: option.splits)

lemma json_as_array_Some: "json_as_array j = Some xs \<longleftrightarrow> j = JArr xs"
  by (cases j) auto

lemma target_violations_empty: "target_violations i t = [] \<longleftrightarrow> target_ready t"
proof (cases t)
  case (JObj obj)
  then show ?thesis
    by (auto simp: target_violations_def target_ready_def flag_true_iff material_field Let_def json_as_array_Some bind_eq_Some_conv
        split: option.splits)
qed (simp_all add: target_violations_def target_ready_def)

text \<open>
  Observations. A payload is accepted as a change-detection baseline exactly when it is an object
  that declares itself an observation and ready, with a non-empty list of targets that are each
  comparable, name a source and observed values with some material content, and have no listed blocking
  gap; a target without an id, without \<open>blocking_gaps\<close>, or whose gaps are not a list, is accepted.
\<close>

theorem observation_accepts_iff:
  "validate_change_detection_observation_payload env payload = Inr () \<longleftrightarrow>
    (\<exists>obj ts. payload = JObj obj \<and> map_of obj ''durable_observation_result'' = Some (JBool True)
      \<and> map_of obj ''ready_for_change_detection'' = Some (JBool True)
      \<and> map_of obj ''targets'' = Some (JArr ts) \<and> ts \<noteq> [] \<and> list_all target_ready ts)"
proof (cases payload)
  case (JObj obj)
  have all: "concat (map (\<lambda>(i, x). target_violations i x) (List.enumerate n ts)) = [] \<longleftrightarrow> list_all target_ready ts" for n ts
    by (induction ts arbitrary: n) (auto simp: target_violations_empty)
  have "observation_violations obj = [] \<longleftrightarrow> map_of obj ''durable_observation_result'' = Some (JBool True)
      \<and> map_of obj ''ready_for_change_detection'' = Some (JBool True)
      \<and> (\<exists>ts. map_of obj ''targets'' = Some (JArr ts) \<and> ts \<noteq> [] \<and> list_all target_ready ts)"
  proof (cases "Option.bind (map_of obj ''targets'') json_as_array")
    case None
    then have "map_of obj ''targets'' \<noteq> Some (JArr ts)" for ts by auto
    with None show ?thesis by (simp add: observation_violations_def flag_true_iff)
  next
    case (Some ts)
    then have t: "map_of obj ''targets'' = Some (JArr ts)" by (auto simp: bind_eq_Some_conv json_as_array_Some)
    show ?thesis
    proof (cases ts)
      case Nil
      with t show ?thesis by (simp add: observation_violations_def)
    next
      case (Cons x xs)
      have "observation_violations obj = [] \<longleftrightarrow> flag_true ''durable_observation_result'' obj
          \<and> flag_true ''ready_for_change_detection'' obj \<and> concat (map (\<lambda>(i, x). target_violations i x) (List.enumerate 0 ts)) = []"
        unfolding observation_violations_def Some option.case Cons list.case by simp
      then show ?thesis unfolding all flag_true_iff using t Cons by auto
    qed
  qed
  with JObj show ?thesis
    by (simp add: validate_change_detection_observation_payload_def Let_def)
qed (simp_all add: validate_change_detection_observation_payload_def)

text \<open>Closed examples: an environment whose stored authority is one fixed value.\<close>

definition sample_principal :: principal where
  "sample_principal = \<lparr>pr_user_id = ''local_user'', pr_role = ''admin'', pr_auth_source = ''chat'', pr_trusted = True\<rparr>"

definition sample_authorization :: automation_authorization where
  "sample_authorization = \<lparr>ax_principal = Some sample_principal, ax_direct_user_intent = True,
     ax_current_turn_is_explicit_approval = False, ax_agent_access_scope = None, ax_capability_context_id = None\<rparr>"

fun write_texts :: "string list \<Rightarrow> json" where
  "write_texts xs = JArr (map JStr xs)"

definition write_scope :: "access_scope \<Rightarrow> json" where
  "write_scope s = JArr (map write_texts [sc_mcp_server_ids s, sc_ssh_connection_names s, sc_custom_api_ids s, sc_integration_ids s,
     sc_extension_pack_ids s, sc_channel_ids s, sc_approved_permission_ids s])"

definition write_auth :: "automation_authorization \<Rightarrow> json" where
  "write_auth a = JArr [case ax_principal a of None \<Rightarrow> JNull
       | Some p \<Rightarrow> JArr [JStr (pr_user_id p), JStr (pr_role p), JStr (pr_auth_source p), JBool (pr_trusted p)],
     JBool (ax_direct_user_intent a), JBool (ax_current_turn_is_explicit_approval a),
     case ax_agent_access_scope a of None \<Rightarrow> JNull | Some s \<Rightarrow> write_scope s,
     case ax_capability_context_id a of None \<Rightarrow> JNull | Some c \<Rightarrow> JStr c]"

definition read_texts :: "json \<Rightarrow> string list" where
  "read_texts j = (case json_as_array j of None \<Rightarrow> []
     | Some xs \<Rightarrow> map (\<lambda>x. case json_as_str x of None \<Rightarrow> [] | Some s \<Rightarrow> s) xs)"

fun read_scope :: "json \<Rightarrow> access_scope option" where
  "read_scope (JArr [a, b, c, d, e, f, g]) = Some \<lparr>sc_mcp_server_ids = read_texts a, sc_ssh_connection_names = read_texts b,
     sc_custom_api_ids = read_texts c, sc_integration_ids = read_texts d, sc_extension_pack_ids = read_texts e,
     sc_channel_ids = read_texts f, sc_approved_permission_ids = read_texts g\<rparr>"
| "read_scope _ = None"

fun read_principal :: "json \<Rightarrow> principal option" where
  "read_principal (JArr [JStr u, JStr r, JStr a, JBool t]) =
     Some \<lparr>pr_user_id = u, pr_role = r, pr_auth_source = a, pr_trusted = t\<rparr>"
| "read_principal _ = None"

fun read_auth :: "json \<Rightarrow> automation_authorization option" where
  "read_auth (JArr [p, JBool d, JBool e, s, c]) = Some \<lparr>ax_principal = read_principal p, ax_direct_user_intent = d,
     ax_current_turn_is_explicit_approval = e, ax_agent_access_scope = read_scope s, ax_capability_context_id = json_as_str c\<rparr>"
| "read_auth _ = None"

lemma read_write_auth: "read_auth (write_auth a) = Some a"
proof -
  have t: "read_texts (write_texts xs) = xs" for xs by (simp add: read_texts_def comp_def)
  show ?thesis by (cases a) (auto simp: write_auth_def write_scope_def t simp del: write_texts.simps split: option.splits)
qed

definition sample_env :: run_env where
  "sample_env = \<lparr>re_parse = \<lambda>_. None, re_print = \<lambda>_. [], re_regex = \<lambda>_. None, re_origin_value = \<lambda>_. None,
     re_value_origin = \<lambda>_. None, re_policy_value = \<lambda>_. None, re_value_policy = \<lambda>_. None, re_value_validation = \<lambda>_. None,
     re_auth_value = (\<lambda>a. Some (write_auth a)), re_value_auth = read_auth\<rparr>"

lemma sample_run_env_ok: "auth_codec_ok sample_env"
  by (simp add: auth_codec_ok_def sample_env_def read_write_auth)

definition sample_caller :: action_authorization where
  "sample_caller = \<lparr>ac_principal = Some sample_principal, ac_surface = ChatSurface, ac_direct_user_intent = True,
     ac_current_turn_is_explicit_approval = False, ac_agent_name = None, ac_agent_access_scope = None,
     ac_capability_context_id = None, ac_request_timezone = None, ac_request_timezone_offset_minutes = None\<rparr>"

theorem authorization_roundtrip_witness:
  "ac_principal (runtime_authorization_context_from_arguments sample_env
     (inject_authorization_context sample_env JNull (Some sample_caller)) BackgroundSurface) = Some sample_principal"
  using authorization_roundtrip [OF sample_run_env_ok, of sample_caller sample_principal JNull BackgroundSurface]
  by (simp add: sample_caller_def sample_principal_def)

theorem forged_authorization_survives_witness:
  "ac_principal (runtime_authorization_context_from_arguments sample_env
     (inject_authorization_context sample_env (inject_context sample_env
        (JObj [(''_automation'', JObj [(''authorization'', write_auth sample_authorization)])]) origin_default execution_policy_default)
      None) BackgroundSurface) = Some sample_principal"
proof -
  have r: "re_value_auth sample_env (write_auth sample_authorization) = Some sample_authorization"
    by (simp add: sample_env_def read_write_auth)
  have m: "meta_field ''authorization'' (JObj [(''_automation'', JObj [(''authorization'', write_auth sample_authorization)])])
      = Some (write_auth sample_authorization)" by (simp add: meta_field_def)
  have n: "persistable_authorization_context None = None" by (simp add: persistable_authorization_context_def)
  show ?thesis using forged_authorization_survives [OF n m r, of origin_default execution_policy_default BackgroundSurface]
    by (simp add: sample_authorization_def)
qed

end
