(* ===== verification/Task_Store.thy ===== *)
theory Task_Store
  imports Task_Model Automation_Runs Storage_String
begin

text \<open>
  The rows of tasks and of automation supervisors: the task part of
  \<open>storage/repositories/automation.rs\<close> with \<open>storage/entities/task.rs\<close> and
  \<open>automation_supervisor_state.rs\<close>. Prefixes: \<open>tr_\<close> (a row of \<open>tasks\<close>), \<open>sr_\<close>
  (a row of \<open>automation_supervisor_states\<close>), \<open>ss_\<close> (\<open>AutomationSupervisorState\<close>).

  The texts of ids, statuses, approvals, arguments and supervisor states (uuid, serde\_json) and the
  order of texts in the database are parameters (\<open>task_env\<close>). Scores are widened to \<open>f64\<close> in
  a row and narrowed when read, which gives the same \<open>f32\<close> back, so a row carries their bits.
\<close>

section \<open>Rows\<close>

record supervisor_state =
  ss_automation_id :: string
  ss_automation_kind :: string
  ss_title :: string
  ss_action :: string
  ss_status :: string
  ss_attempt_count :: nat
  ss_consecutive_failures :: nat
  ss_last_run_id :: "string option"
  ss_last_run_at :: "string option"
  ss_last_success_at :: "string option"
  ss_last_error :: "string option"
  ss_next_retry_at :: "string option"
  ss_stalled_count :: nat
  ss_origin :: automation_origin
  ss_created_at :: "string option"

record task_row =
  tr_id :: string
  tr_description :: string
  tr_action :: string
  tr_arguments :: string
  tr_approval :: string
  tr_status :: string
  tr_created_at :: string
  tr_updated_at :: string
  tr_scheduled_for :: "string option"
  tr_cron :: "string option"
  tr_result :: "string option"
  tr_proof_id :: "string option"
  tr_priority :: "32 word option"
  tr_urgency :: "32 word option"
  tr_importance :: "32 word option"
  tr_eisenhower_quadrant :: "int option"
  tr_lease_owner :: "string option"
  tr_lease_expires_at :: "string option"
  tr_lease_version :: int
  tr_next_retry_at :: "string option"
  tr_last_run_id :: "string option"
  tr_consecutive_failures :: int

record supervisor_row =
  sv_automation_id :: string
  sv_updated_at :: string
  sv_payload :: string
  sv_next_retry_at :: "string option"
  sv_last_run_id :: "string option"
  sv_consecutive_failures :: int

record task_tables =
  tt_tasks :: "task_row list"
  tt_supervisors :: "supervisor_row list"

type_synonym task_db = "task_tables db"

record 'b task_env =
  tv_text :: "'b text_env"
  tv_chrono :: chrono
  tv_run :: run_env
  tv_uuid :: "uuid \<Rightarrow> string"
  tv_parse_uuid :: "string \<Rightarrow> uuid option"
  tv_print_json :: "json \<Rightarrow> string option"
  tv_parse_json :: "string \<Rightarrow> json option"
  tv_write_approval :: "task_approval \<Rightarrow> string option"
  tv_read_approval :: "string \<Rightarrow> task_approval option"
  tv_write_status :: "task_status \<Rightarrow> string option"
  tv_read_status :: "string \<Rightarrow> task_status option"
  tv_write_supervisor :: "supervisor_state \<Rightarrow> string option"
  tv_read_supervisor :: "string \<Rightarrow> supervisor_state option"
  tv_text_le :: "string \<Rightarrow> string \<Rightarrow> bool"

definition serialized :: "string option \<Rightarrow> string result" where
  "serialized s = (case s of Some t \<Rightarrow> Inr t | None \<Rightarrow> Inl (Err ''serialization error''))"

definition encrypt_optional_storage_string :: "'b text_env \<Rightarrow> string option \<Rightarrow> string option result" where
  "encrypt_optional_storage_string te v = (case v of None \<Rightarrow> Inr None
     | Some s \<Rightarrow> res_bind (encrypt_storage_string te s) (\<lambda>e. Inr (Some e)))"

definition decrypt_optional_storage_string :: "'b text_env \<Rightarrow> string option \<Rightarrow> string option" where
  "decrypt_optional_storage_string te v = map_option (decrypt_storage_string te) v"

text \<open>\<open>ActiveModel::insert\<close> fails on a duplicate key, \<open>ActiveModel::update\<close> on a missing row.\<close>

definition stmt_opt :: "('t \<Rightarrow> 't option) \<Rightarrow> ('t db, unit) io" where
  "stmt_opt f = bindE (stmt (\<lambda>t. case f t of Some t' \<Rightarrow> (True, t') | None \<Rightarrow> (False, t)))
     (\<lambda>done'. if done' then ret () else fail db_error)"

definition insert_row :: "task_row \<Rightarrow> task_tables \<Rightarrow> task_tables option" where
  "insert_row row t = (if \<exists>r \<in> set (tt_tasks t). tr_id r = tr_id row then None
     else Some (t\<lparr>tt_tasks := tt_tasks t @ [row]\<rparr>))"

definition change_rows :: "(task_row \<Rightarrow> bool) \<Rightarrow> (task_row \<Rightarrow> task_row) \<Rightarrow> task_tables \<Rightarrow> task_tables" where
  "change_rows P f t = t\<lparr>tt_tasks := map (\<lambda>r. if P r then f r else r) (tt_tasks t)\<rparr>"

definition update_row :: "string \<Rightarrow> (task_row \<Rightarrow> task_row) \<Rightarrow> task_tables \<Rightarrow> task_tables option" where
  "update_row i f t = (if \<exists>r \<in> set (tt_tasks t). tr_id r = i then Some (change_rows (\<lambda>r. tr_id r = i) f t) else None)"

section \<open>Operations on tasks\<close>

definition insert_task :: "'b task_env \<Rightarrow> int \<Rightarrow> task \<Rightarrow> (task_db, unit) io" where
  "insert_task env now t =
    bindE (lift_result (encrypt_storage_string (tv_text env) (tk_description t))) (\<lambda>description.
    bindE (lift_result (res_bind (serialized (tv_print_json env (tk_arguments t))) (encrypt_storage_string (tv_text env)))) (\<lambda>arguments.
    bindE (lift_result (res_bind (serialized (tv_write_approval env (tk_approval t))) (encrypt_storage_string (tv_text env)))) (\<lambda>approval.
    bindE (lift_result (encrypt_optional_storage_string (tv_text env) (tk_result t))) (\<lambda>result.
    bindE (lift_result (serialized (tv_write_status env (tk_status t)))) (\<lambda>status.
      stmt_opt (insert_row \<lparr>tr_id = tv_uuid env (tk_id t), tr_description = description, tr_action = tk_action t,
        tr_arguments = arguments, tr_approval = approval, tr_status = status,
        tr_created_at = to_rfc3339 (tv_chrono env) (tk_created_at t), tr_updated_at = to_rfc3339 (tv_chrono env) now,
        tr_scheduled_for = map_option (to_rfc3339 (tv_chrono env)) (tk_scheduled_for t), tr_cron = tk_cron t,
        tr_result = result, tr_proof_id = map_option (tv_uuid env) (tk_proof_id t), tr_priority = tk_priority t,
        tr_urgency = tk_urgency t, tr_importance = tk_importance t,
        tr_eisenhower_quadrant = map_option uint (tk_eisenhower_quadrant t), tr_lease_owner = None,
        tr_lease_expires_at = None, tr_lease_version = 0, tr_next_retry_at = None, tr_last_run_id = None,
        tr_consecutive_failures = 0\<rparr>))))))"

definition update_task_status :: "'b task_env \<Rightarrow> int \<Rightarrow> string \<Rightarrow> string \<Rightarrow> (task_db, unit) io" where
  "update_task_status env now i status = stmt_opt (update_row i (\<lambda>r. r\<lparr>tr_status := status,
     tr_updated_at := to_rfc3339 (tv_chrono env) now, tr_lease_owner := None, tr_lease_expires_at := None\<rparr>))"

definition update_task ::
    "'b task_env \<Rightarrow> int \<Rightarrow> string \<Rightarrow> string option \<Rightarrow> string option \<Rightarrow> string option \<Rightarrow> string option \<Rightarrow> (task_db, unit) io" where
  "update_task env now i description arguments cron scheduled_for =
    bindE (lift_result (encrypt_optional_storage_string (tv_text env) description)) (\<lambda>d.
    bindE (lift_result (encrypt_optional_storage_string (tv_text env) arguments)) (\<lambda>a.
      stmt_opt (update_row i (\<lambda>r. r\<lparr>
        tr_description := (case d of Some v \<Rightarrow> v | None \<Rightarrow> tr_description r),
        tr_arguments := (case a of Some v \<Rightarrow> v | None \<Rightarrow> tr_arguments r),
        tr_cron := (if cron \<noteq> None then cron else tr_cron r),
        tr_scheduled_for := (if scheduled_for \<noteq> None then scheduled_for else tr_scheduled_for r),
        tr_updated_at := to_rfc3339 (tv_chrono env) now\<rparr>))))"

definition replace_task_schedule :: "'b task_env \<Rightarrow> int \<Rightarrow> string \<Rightarrow> string option \<Rightarrow> string option \<Rightarrow> (task_db, unit) io" where
  "replace_task_schedule env now i cron scheduled_for = stmt_opt (update_row i (\<lambda>r. r\<lparr>tr_cron := cron,
     tr_scheduled_for := scheduled_for, tr_updated_at := to_rfc3339 (tv_chrono env) now\<rparr>))"

definition update_task_status_and_result ::
    "'b task_env \<Rightarrow> int \<Rightarrow> string \<Rightarrow> string \<Rightarrow> string option \<Rightarrow> (task_db, unit) io" where
  "update_task_status_and_result env now i status result =
    bindE (lift_result (encrypt_optional_storage_string (tv_text env) result)) (\<lambda>res.
      stmt_opt (update_row i (\<lambda>r. r\<lparr>tr_status := status, tr_updated_at := to_rfc3339 (tv_chrono env) now,
        tr_lease_owner := None, tr_lease_expires_at := None,
        tr_result := (case res of Some v \<Rightarrow> Some v | None \<Rightarrow> tr_result r)\<rparr>)))"

definition retry_task :: "'b task_env \<Rightarrow> int \<Rightarrow> string \<Rightarrow> string \<Rightarrow> string option \<Rightarrow> (task_db, unit) io" where
  "retry_task env now i status scheduled_for = stmt_opt (update_row i (\<lambda>r. r\<lparr>tr_status := status,
     tr_scheduled_for := scheduled_for, tr_result := None, tr_proof_id := None,
     tr_updated_at := to_rfc3339 (tv_chrono env) now, tr_lease_owner := None, tr_lease_expires_at := None\<rparr>))"

definition claimable :: "'b task_env \<Rightarrow> int \<Rightarrow> string \<Rightarrow> string \<Rightarrow> task_row \<Rightarrow> bool" where
  "claimable env now i expected_status r \<longleftrightarrow> tr_id r = i \<and> tr_status r = expected_status
     \<and> (case tr_lease_expires_at r of None \<Rightarrow> True | Some e \<Rightarrow> tv_text_le env e (to_rfc3339 (tv_chrono env) now))"

definition try_claim_task ::
    "'b task_env \<Rightarrow> int \<Rightarrow> string \<Rightarrow> string \<Rightarrow> string \<Rightarrow> string \<Rightarrow> string \<Rightarrow> (task_db, bool) io" where
  "try_claim_task env now i expected_status in_progress_status lease_owner lease_expires_at = stmt (\<lambda>t.
     (\<exists>r \<in> set (tt_tasks t). claimable env now i expected_status r,
      change_rows (claimable env now i expected_status) (\<lambda>r. r\<lparr>tr_status := in_progress_status,
        tr_updated_at := to_rfc3339 (tv_chrono env) now, tr_lease_owner := Some lease_owner,
        tr_lease_expires_at := Some lease_expires_at, tr_lease_version := tr_lease_version r + 1\<rparr>) t))"

definition record_task_run_metadata ::
    "'b task_env \<Rightarrow> int \<Rightarrow> string \<Rightarrow> string option \<Rightarrow> string option \<Rightarrow> int option \<Rightarrow> (task_db, unit) io" where
  "record_task_run_metadata env now i last_run_id next_retry_at consecutive_failures = stmt_opt (update_row i (\<lambda>r.
     r\<lparr>tr_updated_at := to_rfc3339 (tv_chrono env) now, tr_last_run_id := last_run_id, tr_next_retry_at := next_retry_at,
       tr_consecutive_failures := (case consecutive_failures of Some n \<Rightarrow> n | None \<Rightarrow> 0)\<rparr>))"

definition MAX_TASK_ROWS_PER_QUERY :: nat where "MAX_TASK_ROWS_PER_QUERY = 5000"

text \<open>\<open>order_by_desc\<close>, in the database's order of texts.\<close>

fun insert_desc :: "(string \<Rightarrow> string \<Rightarrow> bool) \<Rightarrow> ('a \<Rightarrow> string) \<Rightarrow> 'a \<Rightarrow> 'a list \<Rightarrow> 'a list" where
  "insert_desc le k x [] = [x]"
| "insert_desc le k x (y # ys) = (if le (k y) (k x) then x # y # ys else y # insert_desc le k x ys)"

definition order_by_desc :: "(string \<Rightarrow> string \<Rightarrow> bool) \<Rightarrow> ('a \<Rightarrow> string) \<Rightarrow> 'a list \<Rightarrow> 'a list" where
  "order_by_desc le k xs = foldr (insert_desc le k) xs []"

definition get_tasks :: "'b task_env \<Rightarrow> (task_db, task_row list) io" where
  "get_tasks env = bindE (stmt (\<lambda>t. (take MAX_TASK_ROWS_PER_QUERY
       (order_by_desc (tv_text_le env) tr_created_at (tt_tasks t)), t)))
     (\<lambda>rows. ret (map (\<lambda>r. r\<lparr>tr_description := decrypt_storage_string (tv_text env) (tr_description r),
        tr_arguments := decrypt_storage_string (tv_text env) (tr_arguments r),
        tr_approval := decrypt_storage_string (tv_text env) (tr_approval r),
        tr_result := decrypt_optional_storage_string (tv_text env) (tr_result r)\<rparr>) rows))"

section \<open>Supervisor states\<close>

definition list_automation_supervisor_states :: "'b task_env \<Rightarrow> (task_db, supervisor_state list) io" where
  "list_automation_supervisor_states env = bindE (stmt (\<lambda>t. (order_by_desc (tv_text_le env) sv_updated_at (tt_supervisors t), t)))
     (\<lambda>rows. ret (List.map_filter (\<lambda>r. tv_read_supervisor env (decrypt_storage_string (tv_text env) (sv_payload r))) rows))"

definition put_supervisor :: "supervisor_row \<Rightarrow> task_tables \<Rightarrow> task_tables" where
  "put_supervisor row t = t\<lparr>tt_supervisors :=
     (if \<exists>r \<in> set (tt_supervisors t). sv_automation_id r = sv_automation_id row
      then map (\<lambda>r. if sv_automation_id r = sv_automation_id row then row else r) (tt_supervisors t)
      else tt_supervisors t @ [row])\<rparr>"

definition upsert_automation_supervisor_state :: "'b task_env \<Rightarrow> int \<Rightarrow> supervisor_state \<Rightarrow> (task_db, unit) io" where
  "upsert_automation_supervisor_state env now st =
    (let updated_at = (case ss_last_run_at st of Some v \<Rightarrow> v
        | None \<Rightarrow> (case ss_created_at st of Some v \<Rightarrow> v | None \<Rightarrow> to_rfc3339 (tv_chrono env) now))
     in bindE (lift_result (res_bind (serialized (tv_write_supervisor env st)) (encrypt_storage_string (tv_text env)))) (\<lambda>payload.
        stmt (\<lambda>t. ((), put_supervisor \<lparr>sv_automation_id = ss_automation_id st, sv_updated_at = updated_at, sv_payload = payload,
          sv_next_retry_at = ss_next_retry_at st, sv_last_run_id = ss_last_run_id st,
          sv_consecutive_failures = sint (of_nat (ss_consecutive_failures st) :: 32 word)\<rparr> t))))"

section \<open>One claim at a time\<close>

datatype task_op =
    OpInsert int task
  | OpStatus int string string
  | OpUpdate int string "string option" "string option" "string option" "string option"
  | OpSchedule int string "string option" "string option"
  | OpResult int string string "string option"
  | OpRetry int string string "string option"
  | OpClaim int string string string string string
  | OpMetadata int string "string option" "string option" "int option"

text \<open>What an operation does to the database, whoever issues it; failures included.\<close>

fun run_op :: "'b task_env \<Rightarrow> task_op \<Rightarrow> task_db \<Rightarrow> task_db" where
  "run_op env (OpInsert now t) d = snd (insert_task env now t d)"
| "run_op env (OpStatus now i s) d = snd (update_task_status env now i s d)"
| "run_op env (OpUpdate now i de a c f) d = snd (update_task env now i de a c f d)"
| "run_op env (OpSchedule now i c f) d = snd (replace_task_schedule env now i c f d)"
| "run_op env (OpResult now i s r) d = snd (update_task_status_and_result env now i s r d)"
| "run_op env (OpRetry now i s f) d = snd (retry_task env now i s f d)"
| "run_op env (OpClaim now i p q lo le) d = snd (try_claim_task env now i p q lo le d)"
| "run_op env (OpMetadata now i l n f) d = snd (record_task_run_metadata env now i l n f d)"

text \<open>Operations that write a status for an id.\<close>

fun sets_status :: "string \<Rightarrow> string \<Rightarrow> task_op \<Rightarrow> bool" where
  "sets_status i p (OpStatus _ i' s) = (i' = i \<and> s = p)"
| "sets_status i p (OpResult _ i' s _) = (i' = i \<and> s = p)"
| "sets_status i p (OpRetry _ i' s _) = (i' = i \<and> s = p)"
| "sets_status i p (OpClaim _ i' _ q _ _) = (i' = i \<and> q = p)"
| "sets_status i p _ = False"

lemma stmt_opt_cases:
  assumes "stmt_opt f d = (r, d')"
  obtains (failed) e where "r = Inl e" and "tables d' = tables d"
  | (changed) t where "r = Inr ()" and "f (tables d) = Some t" and "tables d' = t"
  using assms unfolding stmt_opt_def
  by (auto elim!: bindE_cases stmt_cases split: option.splits if_splits)

lemma update_row_Some: "update_row i f t = Some t' \<Longrightarrow> t' = change_rows (\<lambda>r. tr_id r = i) f t"
  by (simp add: update_row_def split: if_splits)

text \<open>There is one row with the id, and it has another status.\<close>

definition taken :: "string \<Rightarrow> string \<Rightarrow> task_tables \<Rightarrow> bool" where
  "taken i p t \<longleftrightarrow> distinct (map tr_id (tt_tasks t)) \<and> i \<in> tr_id ` set (tt_tasks t)
     \<and> (\<forall>r \<in> set (tt_tasks t). tr_id r = i \<longrightarrow> tr_status r \<noteq> p)"

lemma change_rows_ids: "(\<And>r. tr_id (f r) = tr_id r) \<Longrightarrow> map tr_id (tt_tasks (change_rows P f t)) = map tr_id (tt_tasks t)"
  by (simp add: change_rows_def)

lemma taken_change:
  assumes "taken i p t" and ids: "\<And>r. tr_id (f r) = tr_id r"
    and "\<And>r. P r \<Longrightarrow> tr_id r = i \<Longrightarrow> tr_status r \<noteq> p \<Longrightarrow> tr_status (f r) \<noteq> p"
  shows "taken i p (change_rows P f t)"
proof -
  have "tr_id ` set (tt_tasks (change_rows P f t)) = tr_id ` set (tt_tasks t)"
    using arg_cong [OF change_rows_ids [OF ids, of P t], of set] by (simp only: set_map)
  moreover have "tr_status r \<noteq> p" if r: "r \<in> set (tt_tasks (change_rows P f t))" "tr_id r = i" for r
  proof -
    from r(1) obtain r0 where r0: "r0 \<in> set (tt_tasks t)" "r = (if P r0 then f r0 else r0)"
      by (auto simp: change_rows_def)
    with r(2) ids have "tr_id r0 = i" by (auto split: if_splits)
    with r0 assms(1,3) show ?thesis by (auto simp: taken_def)
  qed
  ultimately show ?thesis using assms(1) change_rows_ids [OF ids, of P t] by (simp add: taken_def)
qed

lemma taken_update:
  assumes "taken i p (tables d)" and "\<And>r. tr_id (f r) = tr_id r"
    and "\<And>r. j = i \<Longrightarrow> tr_status r \<noteq> p \<Longrightarrow> tr_status (f r) \<noteq> p"
  shows "taken i p (tables (snd (stmt_opt (update_row j f) d)))"
proof -
  obtain r d' where rd: "stmt_opt (update_row j f) d = (r, d')" by fastforce
  then show ?thesis
  proof (cases rule: stmt_opt_cases)
    case failed
    then show ?thesis using assms(1) rd by simp
  next
    case (changed t)
    have "taken i p (change_rows (\<lambda>r. tr_id r = j) f (tables d))"
      using assms by (intro taken_change) auto
    then show ?thesis using update_row_Some [OF changed(2)] changed(3) rd by simp
  qed
qed

lemma taken_insert:
  assumes "taken i p (tables d)"
  shows "taken i p (tables (snd (stmt_opt (insert_row row) d)))"
proof -
  obtain r d' where rd: "stmt_opt (insert_row row) d = (r, d')" by fastforce
  then show ?thesis
  proof (cases rule: stmt_opt_cases)
    case failed
    then show ?thesis using assms rd by simp
  next
    case (changed t)
    from changed(2) have t: "tt_tasks t = tt_tasks (tables d) @ [row]" "tr_id row \<notin> tr_id ` set (tt_tasks (tables d))"
      by (auto simp: insert_row_def split: if_splits)
    have "taken i p t" using assms t(2) by (auto simp: taken_def t(1))
    then show ?thesis using changed(3) rd by simp
  qed
qed

lemma taken_lift:
  "taken i p (tables d) \<Longrightarrow> (\<And>a. taken i p (tables (snd (f a d)))) \<Longrightarrow> taken i p (tables (snd (bindE (lift_result x) f d)))"
  by (cases x) (simp_all add: bindE_def)

lemma try_claim_cases:
  assumes "try_claim_task env now i p q lo le d = (r, d')"
  obtains (failed) e where "r = Inl e" and "tables d' = tables d"
  | (ran) "r = Inr (\<exists>x \<in> set (tt_tasks (tables d)). claimable env now i p x)"
      and "tables d' = change_rows (claimable env now i p) (\<lambda>r. r\<lparr>tr_status := q,
        tr_updated_at := to_rfc3339 (tv_chrono env) now, tr_lease_owner := Some lo,
        tr_lease_expires_at := Some le, tr_lease_version := tr_lease_version r + 1\<rparr>) (tables d)"
  using assms unfolding try_claim_task_def by (auto elim!: stmt_cases)

lemma taken_op:
  assumes "taken i p (tables d)" and "\<not> sets_status i p op"
  shows "taken i p (tables (run_op env op d))"
proof (cases op)
  case (OpClaim now j p' q lo le)
  obtain r d' where c: "try_claim_task env now j p' q lo le d = (r, d')" by fastforce
  then show ?thesis
  proof (cases rule: try_claim_cases)
    case failed
    then show ?thesis using assms(1) c OpClaim by simp
  next
    case ran
    have "taken i p (tables d')" unfolding ran(2)
      using assms OpClaim by (intro taken_change) (auto simp: claimable_def)
    then show ?thesis using c OpClaim by simp
  qed
qed (use assms in \<open>auto simp: insert_task_def update_task_status_def update_task_def replace_task_schedule_def
    update_task_status_and_result_def retry_task_def record_task_run_metadata_def intro!: taken_lift taken_update taken_insert\<close>)

lemma taken_ops:
  "taken i p (tables d) \<Longrightarrow> \<forall>op \<in> set ops. \<not> sets_status i p op \<Longrightarrow> taken i p (tables (foldl (\<lambda>d op. run_op env op d) d ops))"
  by (induction ops arbitrary: d) (auto simp: taken_op)

lemma claim_takes:
  assumes "distinct (map tr_id (tt_tasks (tables d)))" and "p \<noteq> q"
    and "try_claim_task env now i p q lo le d = (Inr True, d')"
  shows "taken i p (tables d')"
  using assms(3)
proof (cases rule: try_claim_cases)
  case ran
  then obtain x where x: "x \<in> set (tt_tasks (tables d))" "claimable env now i p x" by auto
  let ?f = "\<lambda>r. r\<lparr>tr_status := q, tr_updated_at := to_rfc3339 (tv_chrono env) now, tr_lease_owner := Some lo,
        tr_lease_expires_at := Some le, tr_lease_version := tr_lease_version r + 1\<rparr>"
  have m: "map tr_id (tt_tasks (tables d')) = map tr_id (tt_tasks (tables d))"
    unfolding ran(2) by (rule change_rows_ids) simp
  have "i \<in> tr_id ` set (tt_tasks (tables d'))"
    using arg_cong [OF m, of set] x by (auto simp: claimable_def)
  moreover have "tr_status r \<noteq> p" if r: "r \<in> set (tt_tasks (tables d'))" "tr_id r = i" for r
  proof -
    from r(1) obtain r0 where r0: "r0 \<in> set (tt_tasks (tables d))" "r = (if claimable env now i p r0 then ?f r0 else r0)"
      unfolding ran(2) by (auto simp: change_rows_def)
    with r(2) have "tr_id r0 = i" by (auto split: if_splits)
    with r0(1) x assms(1) have "r0 = x" by (auto simp: claimable_def distinct_map inj_on_def)
    with r0(2) x assms(2) show ?thesis by simp
  qed
  ultimately show ?thesis using assms(1) m by (simp add: taken_def)
qed simp

text \<open>
  C10. One claim at a time. Between two successful claims of a task, by whatever processes, the row's
  status has been set back to the claimed one by another operation: no interleaving of claims,
  inserts, edits, schedules and run records lets a second claim of the same task succeed.
\<close>

theorem claim_exclusive:
  assumes "distinct (map tr_id (tt_tasks (tables d)))" and "p \<noteq> q"
    and "try_claim_task env now i p q owner expires d = (Inr True, d1)"
    and "try_claim_task env now' i p q' owner' expires' (foldl (\<lambda>d op. run_op env op d) d1 ops) = (Inr True, d2)"
  shows "\<exists>op \<in> set ops. sets_status i p op"
proof (rule ccontr)
  assume "\<not> (\<exists>op \<in> set ops. sets_status i p op)"
  then have "taken i p (tables (foldl (\<lambda>d op. run_op env op d) d1 ops))"
    by (intro taken_ops claim_takes [OF assms(1-3)]) auto
  then have none: "\<not> (\<exists>x \<in> set (tt_tasks (tables (foldl (\<lambda>d op. run_op env op d) d1 ops))). claimable env now' i p x)"
    by (auto simp: taken_def claimable_def)
  from assms(4) show False
    by (cases rule: try_claim_cases) (use none in auto)
qed

text \<open>For closed examples: decimal times, compared as numbers.\<close>

definition decimal_le :: "string \<Rightarrow> string \<Rightarrow> bool" where
  "decimal_le a b = (case (read_int a, read_int b) of (Some x, Some y) \<Rightarrow> x \<le> y | _ \<Rightarrow> False)"

definition sample_row :: task_row where
  "sample_row = \<lparr>tr_id = ''t'', tr_description = [], tr_action = ''notify_user'', tr_arguments = ''{}'', tr_approval = ''Auto'',
     tr_status = ''Pending'', tr_created_at = ''0'', tr_updated_at = ''0'', tr_scheduled_for = None, tr_cron = None,
     tr_result = None, tr_proof_id = None, tr_priority = None, tr_urgency = None, tr_importance = None,
     tr_eisenhower_quadrant = None, tr_lease_owner = None, tr_lease_expires_at = None, tr_lease_version = 0,
     tr_next_retry_at = None, tr_last_run_id = None, tr_consecutive_failures = 0\<rparr>"

instance task_approval :: countable by countable_datatype

instance task_status :: countable by countable_datatype

definition supervisor_tuple where
  "supervisor_tuple s = ((ss_automation_id s, ss_automation_kind s, ss_title s, ss_action s, ss_status s),
     (ss_attempt_count s, ss_consecutive_failures s, ss_last_run_id s, ss_last_run_at s, ss_last_success_at s),
     (ss_last_error s, ss_next_retry_at s, ss_stalled_count s, ss_created_at s),
     (ao_channel (ss_origin s), ao_conversation_id (ss_origin s), ao_project_id (ss_origin s), ao_source (ss_origin s)))"

definition untuple_supervisor where
  "untuple_supervisor = (\<lambda>((i, k, ti, a, st), (n, f, l, la, su), (e, nr, sc, c), (ch, cv, pr, so)).
     \<lparr>ss_automation_id = i, ss_automation_kind = k, ss_title = ti, ss_action = a, ss_status = st, ss_attempt_count = n,
      ss_consecutive_failures = f, ss_last_run_id = l, ss_last_run_at = la, ss_last_success_at = su, ss_last_error = e,
      ss_next_retry_at = nr, ss_stalled_count = sc,
      ss_origin = \<lparr>ao_channel = ch, ao_conversation_id = cv, ao_project_id = pr, ao_source = so\<rparr>, ss_created_at = c\<rparr>)"

lemma untuple_supervisor_tuple [simp]: "untuple_supervisor (supervisor_tuple s) = s"
  by (cases s) (simp add: supervisor_tuple_def untuple_supervisor_def)

definition sample_task_env :: "char task_env" where
  "sample_task_env = \<lparr>tv_text = plain_text_env, tv_chrono = decimal_chrono, tv_run = sample_env, tv_uuid = (\<lambda>u. show_nat (unat u)),
     tv_parse_uuid = (\<lambda>s. map_option of_nat (read_nat s)), tv_print_json = (\<lambda>j. Some (num_write j)), tv_parse_json = num_read,
     tv_write_approval = (\<lambda>a. Some (num_write a)), tv_read_approval = num_read, tv_write_status = (\<lambda>a. Some (num_write a)),
     tv_read_status = num_read, tv_write_supervisor = (\<lambda>s. Some (num_write (supervisor_tuple s))),
     tv_read_supervisor = (\<lambda>t. map_option untuple_supervisor (num_read t)), tv_text_le = decimal_le\<rparr>"

theorem claim_exclusive_witness:
  "let d = \<lparr>tables = \<lparr>tt_tasks = [sample_row], tt_supervisors = []\<rparr>, faults = []\<rparr>;
       d1 = snd (try_claim_task sample_task_env 5 ''t'' ''Pending'' ''InProgress'' ''a'' ''9'' d);
       d2 = run_op sample_task_env (OpStatus 6 ''t'' ''Pending'') d1
   in fst (try_claim_task sample_task_env 5 ''t'' ''Pending'' ''InProgress'' ''a'' ''9'' d) = Inr True
    \<and> fst (try_claim_task sample_task_env 7 ''t'' ''Pending'' ''InProgress'' ''b'' ''9'' d1) = Inr False
    \<and> fst (try_claim_task sample_task_env 7 ''t'' ''Pending'' ''InProgress'' ''b'' ''9'' d2) = Inr True
    \<and> sets_status ''t'' ''Pending'' (OpStatus 6 ''t'' ''Pending'')"
proof -
  let ?d = "\<lparr>tables = \<lparr>tt_tasks = [sample_row], tt_supervisors = []\<rparr>, faults = []\<rparr> :: task_db"
  let ?c = "\<lambda>now o' d. try_claim_task sample_task_env now ''t'' ''Pending'' ''InProgress'' o' ''9'' d"
  let ?ops = "[OpStatus 6 ''t'' ''Pending'']"
  have 1: "fst (?c 5 ''a'' ?d) = Inr True" by (simp add: try_claim_task_def claimable_def sample_row_def)
  have 2: "fst (?c 7 ''b'' (snd (?c 5 ''a'' ?d))) = Inr False"
    by (simp add: try_claim_task_def claimable_def sample_row_def change_rows_def)
  have 3: "fst (?c 7 ''b'' (foldl (\<lambda>d op. run_op sample_task_env op d) (snd (?c 5 ''a'' ?d)) ?ops)) = Inr True"
    by (simp add: try_claim_task_def claimable_def sample_row_def change_rows_def update_task_status_def update_row_def
        stmt_opt_def bindE_def)
  have p1: "?c 5 ''a'' ?d = (Inr True, snd (?c 5 ''a'' ?d))" using 1 by (metis prod.collapse)
  have p3: "?c 7 ''b'' (foldl (\<lambda>d op. run_op sample_task_env op d) (snd (?c 5 ''a'' ?d)) ?ops)
      = (Inr True, snd (?c 7 ''b'' (foldl (\<lambda>d op. run_op sample_task_env op d) (snd (?c 5 ''a'' ?d)) ?ops)))"
    using 3 by (metis prod.collapse)
  have "\<exists>op \<in> set ?ops. sets_status ''t'' ''Pending'' op"
    by (rule claim_exclusive [OF _ _ p1 p3]) simp_all
  with 1 2 3 show ?thesis by (simp add: Let_def)
qed

end
