(* ===== verification/Task_Queue.thy ===== *)
theory Task_Queue
  imports Task_Store "HOL-Library.Sublist"
begin

text \<open>
  The task queue of the agent (\<open>core/agent/runtime/task_runtime.rs\<close>, and the loading of tasks in
  \<open>core/agent/operations/startup.rs\<close>): adding, approving, rejecting and expiring tasks, the
  recovery of stale runs, the claiming of due tasks by the scheduler, and what a finished run does to
  its task.

  The state is the queue in memory and the database (\<open>ta_\<close>). One clock reading serves a whole
  operation. The cron crate is a parameter (\<open>cron_next\<close>, the next run of an expression in a time
  zone), as are the registration of an approval request, whose notifications and approval rows are not
  modelled here, and the lease owner's text.
\<close>

record task_state =
  ta_queue :: task_queue
  ta_db :: task_db

definition on_db :: "(task_db, 'a) io \<Rightarrow> task_state \<Rightarrow> 'a result \<times> task_state" where
  "on_db m st = (case m (ta_db st) of (r, d) \<Rightarrow> (r, st\<lparr>ta_db := d\<rparr>))"

text \<open>A statement whose failure is only logged.\<close>

definition logged :: "(task_db, 'a) io \<Rightarrow> task_state \<Rightarrow> task_state" where
  "logged m st = snd (on_db m st)"

definition modify_task :: "uuid \<Rightarrow> (task \<Rightarrow> task) \<Rightarrow> task_state \<Rightarrow> task_state" where
  "modify_task i f st = st\<lparr>ta_queue := queue_modify i f (ta_queue st)\<rparr>"

definition status_json :: "'b task_env \<Rightarrow> string \<Rightarrow> task_status \<Rightarrow> string" where
  "status_json env dflt s = (case tv_write_status env s of Some t \<Rightarrow> t | None \<Rightarrow> dflt)"

definition pending_json :: "'b task_env \<Rightarrow> string" where
  "pending_json env = status_json env (CHR 0x22 # ''Pending'' @ [CHR 0x22]) Pending"

definition in_progress_json :: "'b task_env \<Rightarrow> string" where
  "in_progress_json env = status_json env (CHR 0x22 # ''InProgress'' @ [CHR 0x22]) InProgress"

definition cancelled_json :: "'b task_env \<Rightarrow> string" where
  "cancelled_json env = status_json env (CHR 0x22 # ''Cancelled'' @ [CHR 0x22]) Cancelled"

section \<open>Adding and deciding\<close>

definition settings_authorized_without_approval :: "string \<Rightarrow> bool" where
  "settings_authorized_without_approval action \<longleftrightarrow> action = ''daily_brief''"

definition remove_task_approval_envelope :: "json \<Rightarrow> json" where
  "remove_task_approval_envelope arguments = (case json_as_object arguments of
     Some xs \<Rightarrow> JObj (obj_remove ''_approval'' xs) | None \<Rightarrow> arguments)"

definition awaits_decision :: "task_status \<Rightarrow> bool" where
  "awaits_decision s \<longleftrightarrow> s = AwaitingApproval \<or> s = ExpiredNeedsReapproval"

definition prepare_task :: "task \<Rightarrow> task" where
  "prepare_task t0 =
    (let t1 = t0\<lparr>tk_approval := normalized_task_approval (tk_approval t0)\<rparr>;
         t2 = (if settings_authorized_without_approval (tk_action t1) \<and> awaits_decision (tk_status t1)
           then t1\<lparr>tk_status := Pending, tk_result := None, tk_arguments := remove_task_approval_envelope (tk_arguments t1)\<rparr>
           else t1)
     in (if task_requires_explicit_approval (tk_approval t2) \<and> (tk_status t2 = Pending \<or> tk_status t2 = AwaitingApproval)
         then t2\<lparr>tk_status := AwaitingApproval\<rparr> else t2))"

definition add_task :: "'b task_env \<Rightarrow> (task \<Rightarrow> unit result) \<Rightarrow> int \<Rightarrow> task \<Rightarrow> task_state \<Rightarrow> unit result \<times> task_state" where
  "add_task env register now t0 st =
    (let t = prepare_task t0 in
     case on_db (insert_task env now t) st of
       (Inl e, st1) \<Rightarrow> (Inl e, st1)
     | (Inr _, st1) \<Rightarrow>
        (let st2 = st1\<lparr>ta_queue := queue_add t (ta_queue st1)\<rparr> in
         if tk_status t = AwaitingApproval then (register t, st2) else (Inr (), st2)))"

definition record_task_approval_response :: "'b task_env \<Rightarrow> int \<Rightarrow> string \<Rightarrow> string \<Rightarrow> string option \<Rightarrow> json \<Rightarrow> json" where
  "record_task_approval_response env now decided resolved_by comment arguments =
    JObj (obj_insert ''_approval_response'' (JObj
      [(''comment'', case trim_opt comment of Some c \<Rightarrow> JStr c | None \<Rightarrow> JNull), (''decision'', JStr decided),
       (''resolved_at'', JStr (to_rfc3339 (tv_chrono env) now)), (''resolved_by'', JStr resolved_by)]) (root_object arguments))"

definition approve_task_request_with_comment ::
    "'b task_env \<Rightarrow> int \<Rightarrow> uuid \<Rightarrow> string \<Rightarrow> string option \<Rightarrow> task_state \<Rightarrow> task option result \<times> task_state" where
  "approve_task_request_with_comment env now i resolved_by comment st =
    (case queue_get i (ta_queue st) of
       None \<Rightarrow> (Inr None, st)
     | Some t \<Rightarrow>
        (if \<not> awaits_decision (tk_status t) then (Inr None, st)
         else
          (let t' = t\<lparr>tk_approval := normalized_task_approval (tk_approval t), tk_status := Pending, tk_result := None,
                tk_arguments := record_task_approval_response env now ''approved'' resolved_by comment (tk_arguments t)\<rparr>;
               st1 = modify_task i (\<lambda>_. t') st
           in case serialized (tv_print_json env (tk_arguments t')) of
                Inl e \<Rightarrow> (Inl e, st1)
              | Inr args \<Rightarrow> (case on_db (update_task env now (tv_uuid env i) None (Some args) None None) st1 of
                  (Inl e, st2) \<Rightarrow> (Inl e, st2)
                | (Inr _, st2) \<Rightarrow> (case on_db (update_task_status env now (tv_uuid env i) (pending_json env)) st2 of
                    (Inl e, st3) \<Rightarrow> (Inl e, st3)
                  | (Inr _, st3) \<Rightarrow> (Inr (Some t'), st3))))))"

definition reject_task_request ::
    "'b task_env \<Rightarrow> int \<Rightarrow> uuid \<Rightarrow> string \<Rightarrow> string \<Rightarrow> task_state \<Rightarrow> task option result \<times> task_state" where
  "reject_task_request env now i resolved_by reason st =
    (let resolved_reason = (if trim reason = [] then ''Task was rejected and will not be executed.'' else trim reason) in
     case queue_get i (ta_queue st) of
       None \<Rightarrow> (Inr None, st)
     | Some t \<Rightarrow>
        (if \<not> awaits_decision (tk_status t) then (Inr None, st)
         else
          (let t' = t\<lparr>tk_status := Cancelled, tk_result := Some resolved_reason,
                tk_arguments := record_task_approval_response env now ''rejected'' resolved_by (Some resolved_reason) (tk_arguments t)\<rparr>;
               st1 = modify_task i (\<lambda>_. t') st
           in case serialized (tv_print_json env (tk_arguments t')) of
                Inl e \<Rightarrow> (Inl e, st1)
              | Inr args \<Rightarrow> (case on_db (update_task env now (tv_uuid env i) None (Some args) None None) st1 of
                  (Inl e, st2) \<Rightarrow> (Inl e, st2)
                | (Inr _, st2) \<Rightarrow> (case on_db (update_task_status_and_result env now (tv_uuid env i) (cancelled_json env)
                      (Some resolved_reason)) st2 of
                    (Inl e, st3) \<Rightarrow> (Inl e, st3)
                  | (Inr _, st3) \<Rightarrow> (Inr (Some t'), st3))))))"

definition expire_stale_approval_tasks :: "'b task_env \<Rightarrow> int \<Rightarrow> int \<Rightarrow> task_state \<Rightarrow> nat result \<times> task_state" where
  "expire_stale_approval_tasks env now max_age_secs st = (case plus_secs (tv_chrono env) now (- max_age_secs) of
     None \<Rightarrow> (Inl (Panicked ''DateTime - TimeDelta overflowed''), st)
   | Some cutoff \<Rightarrow>
      (let ids = map tk_id (filter (\<lambda>t. tk_status t = AwaitingApproval \<and> tk_created_at t < cutoff) (ta_queue st));
           note_text = ''Approval expired and now needs reapproval before the task can continue.'';
           st1 = foldl (\<lambda>st i. modify_task i (\<lambda>t. t\<lparr>tk_status := ExpiredNeedsReapproval, tk_result := Some note_text\<rparr>) st) st ids;
           st2 = foldl (\<lambda>st i. logged (update_task_status_and_result env now (tv_uuid env i)
              (status_json env (CHR 0x22 # ''ExpiredNeedsReapproval'' @ [CHR 0x22]) ExpiredNeedsReapproval) (Some note_text)) st) st1 ids
       in (Inr (length ids), st2)))"

section \<open>Late reminders\<close>

definition plural :: "int \<Rightarrow> string" where
  "plural n = (if n = 1 then [] else ''s'')"

text \<open>\<open>num_seconds\<close> truncates towards zero; lateness is positive.\<close>

definition reminder_lateness_label :: "int \<Rightarrow> string" where
  "reminder_lateness_label lateness =
    (let total_seconds = max 0 (lateness div ns_per_sec) in
     if total_seconds < 60 then show_int total_seconds @ '' seconds''
     else if total_seconds < 3600 then
       (let minutes = (total_seconds + 59) div 60 in show_int minutes @ '' minute'' @ plural minutes)
     else (let hours = total_seconds div 3600; minutes = (total_seconds mod 3600 + 59) div 60 in
       if minutes = 0 then show_int hours @ '' hour'' @ plural hours
       else show_int hours @ '' hour'' @ plural hours @ '' '' @ show_int minutes @ '' minute'' @ plural minutes))"

definition expired_one_shot_reminder_result :: "chrono \<Rightarrow> task \<Rightarrow> int \<Rightarrow> string" where
  "expired_one_shot_reminder_result ch t now = (case (tk_scheduled_for t, task_lateness t now) of
     (Some scheduled_for, Some lateness) \<Rightarrow> ''Skipped sending this reminder because it was '' @ reminder_lateness_label lateness
        @ '' late, which exceeds the 15 minute delivery window. Scheduled for '' @ to_rfc3339 ch scheduled_for @ ''.''
   | _ \<Rightarrow> ''Skipped sending this reminder because it missed the 15 minute delivery window.'')"

definition delayed_reminder_notice :: "task \<Rightarrow> int \<Rightarrow> string option" where
  "delayed_reminder_notice t now = (if \<not> one_shot_reminder_needs_delay_notice t now then None
     else map_option (\<lambda>lateness. ''Late reminder: AgentArk was unavailable at the scheduled time, so this is being sent now (''
       @ reminder_lateness_label lateness @ '' late).'') (task_lateness t now))"

definition blank_line :: string where "blank_line = [CHR 0x0A, CHR 0x0A]"

definition prepend_delayed_reminder_notice :: "task \<Rightarrow> string \<Rightarrow> int \<Rightarrow> string" where
  "prepend_delayed_reminder_notice t message now = (case delayed_reminder_notice t now of
     Some notice \<Rightarrow> notice @ blank_line @ trim message | None \<Rightarrow> message)"

definition notify_user_arguments_with_delay_notice :: "task \<Rightarrow> int \<Rightarrow> json option" where
  "notify_user_arguments_with_delay_notice t now = (case delayed_reminder_notice t now of
     None \<Rightarrow> None
   | Some notice \<Rightarrow> (case json_as_object (tk_arguments t) of
       None \<Rightarrow> None
     | Some payload \<Rightarrow> (case Option.bind (map_of payload ''message'') json_as_str of
         None \<Rightarrow> None
       | Some m \<Rightarrow> (if trim m = [] then None
           else Some (JObj (obj_insert ''message'' (JStr (notice @ blank_line @ trim m)) payload))))))"

section \<open>Stale runs\<close>

definition run_policy :: "'b task_env \<Rightarrow> (string \<Rightarrow> validation) \<Rightarrow> task \<Rightarrow> execution_policy" where
  "run_policy env default_validation t = policy_from_arguments (tv_run env) (tk_arguments t) (default_validation (tk_action t))"

definition run_is_stale :: "'b task_env \<Rightarrow> (string \<Rightarrow> validation) \<Rightarrow> int \<Rightarrow> supervisor_state \<Rightarrow> task \<Rightarrow> bool" where
  "run_is_stale env default_validation now state t =
    (case Option.bind (ss_last_run_at state) (parse_rfc3339 (tv_chrono env)) of
       Some last_run \<Rightarrow> now - last_run > secs (int (min (ap_stall_timeout_secs (run_policy env default_validation t) * 2) u64_max))
     | None \<Rightarrow> True)"

definition recovered_text :: string where
  "recovered_text = ''Recovered after a stale in-progress background run was detected.''"

definition recovered_row_text :: string where
  "recovered_row_text = ''Recovered after stale in-progress background run was detected.''"

definition recovered_task :: "int \<Rightarrow> task \<Rightarrow> task" where
  "recovered_task now t = t\<lparr>tk_status := Pending, tk_scheduled_for := Some now, tk_result := Some recovered_text\<rparr>"

definition stalled_state :: "'b task_env \<Rightarrow> int \<Rightarrow> supervisor_state \<Rightarrow> supervisor_state" where
  "stalled_state env now s = s\<lparr>ss_status := ''stalled'', ss_stalled_count := sat_add_u32 (ss_stalled_count s) 1,
     ss_last_error := Some ''Recovered after stale in-progress run exceeded stall timeout.'',
     ss_next_retry_at := Some (to_rfc3339 (tv_chrono env) now)\<rparr>"

text \<open>The tasks of the snapshot that are reset, with their supervisor states.\<close>

definition stale_tasks ::
    "'b task_env \<Rightarrow> (string \<Rightarrow> validation) \<Rightarrow> int \<Rightarrow> supervisor_state list \<Rightarrow> task_queue \<Rightarrow> (task \<times> supervisor_state) list" where
  "stale_tasks env default_validation now states snapshot = List.map_filter (\<lambda>t.
     if tk_status t \<noteq> InProgress then None
     else (case map_of (rev (map (\<lambda>s. (ss_automation_id s, s)) states)) (tv_uuid env (tk_id t)) of
        None \<Rightarrow> None
      | Some state \<Rightarrow> if run_is_stale env default_validation now state t then Some (t, state) else None)) snapshot"

definition persist_recovery :: "'b task_env \<Rightarrow> int \<Rightarrow> task \<Rightarrow> task_state \<Rightarrow> task_state" where
  "persist_recovery env now entry st =
     logged (update_task env now (tv_uuid env (tk_id entry)) None (tv_print_json env (tk_arguments entry)) (tk_cron entry)
        (map_option (to_rfc3339 (tv_chrono env)) (tk_scheduled_for entry)))
     (logged (update_task_status_and_result env now (tv_uuid env (tk_id entry)) (pending_json env) (Some recovered_row_text)) st)"

definition recover_stale_in_progress_tasks ::
    "'b task_env \<Rightarrow> (string \<Rightarrow> validation) \<Rightarrow> int \<Rightarrow> task_state \<Rightarrow> task_state" where
  "recover_stale_in_progress_tasks env default_validation now st =
    (case on_db (list_automation_supervisor_states env) st of
       (Inl _, st1) \<Rightarrow> st1
     | (Inr states, st1) \<Rightarrow>
        (if states = [] then st1
         else
          (let stale = stale_tasks env default_validation now states (ta_queue st1);
               st2 = foldl (\<lambda>st (t, _). modify_task (tk_id t) (recovered_task now) st) st1 stale;
               entries = List.map_filter (\<lambda>(t, _). queue_get (tk_id t) (ta_queue st2)) stale;
               st3 = foldl (\<lambda>st entry. persist_recovery env now entry st) st2 entries
           in foldl (\<lambda>st (_, s). logged (upsert_automation_supervisor_state env now (stalled_state env now s)) st) st3 stale)))"
section \<open>Claiming due tasks\<close>

text \<open>\<open>sort_by\<close>: a stable sort by a comparison.\<close>

fun insert_by :: "('a \<Rightarrow> 'a \<Rightarrow> ordering) \<Rightarrow> 'a \<Rightarrow> 'a list \<Rightarrow> 'a list" where
  "insert_by c x [] = [x]"
| "insert_by c x (y # ys) = (if c x y \<noteq> Greater then x # y # ys else y # insert_by c x ys)"

definition sort_by :: "('a \<Rightarrow> 'a \<Rightarrow> ordering) \<Rightarrow> 'a list \<Rightarrow> 'a list" where
  "sort_by c xs = foldr (insert_by c) xs []"

type_synonym cron_next = "string \<Rightarrow> string option \<Rightarrow> int option"

definition task_time_zone :: "string option \<Rightarrow> task \<Rightarrow> string option" where
  "task_time_zone tz t = (if tk_action t = ''daily_brief'' then tz else None)"

definition should_run :: "int \<Rightarrow> task \<Rightarrow> bool" where
  "should_run now t \<longleftrightarrow> tk_status t = Pending
     \<and> (case tk_cron t of
          Some _ \<Rightarrow> (case tk_scheduled_for t of None \<Rightarrow> False | Some sf \<Rightarrow> sf \<le> now)
        | None \<Rightarrow> (case tk_scheduled_for t of Some at \<Rightarrow> at \<le> now | None \<Rightarrow> True))"

definition first_run :: "cron_next \<Rightarrow> string option \<Rightarrow> task \<Rightarrow> int option" where
  "first_run cn tz t = (if tk_status t = Pending \<and> tk_scheduled_for t = None
     then (case tk_cron t of Some cron \<Rightarrow> cn cron (task_time_zone tz t) | None \<Rightarrow> None) else None)"

record due_scan =
  ds_queue :: task_queue
  ds_schedule_updates :: "(string \<times> string option \<times> string option) list"
  ds_expired :: "(string \<times> string) list"
  ds_candidates :: "task list"

definition scan_schedule :: "'b task_env \<Rightarrow> int option \<Rightarrow> task \<Rightarrow> due_scan \<Rightarrow> due_scan" where
  "scan_schedule env next_run t ds = (case next_run of None \<Rightarrow> ds
   | Some nr \<Rightarrow>
      (let q = queue_modify (tk_id t) (\<lambda>e. e\<lparr>tk_scheduled_for := Some nr\<rparr>) (ds_queue ds) in
       case queue_get (tk_id t) q of None \<Rightarrow> ds
       | Some e \<Rightarrow> ds\<lparr>ds_queue := q, ds_schedule_updates := ds_schedule_updates ds @
           [(tv_uuid env (tk_id e), tk_cron e, map_option (to_rfc3339 (tv_chrono env)) (tk_scheduled_for e))]\<rparr>))"

definition scan_expired :: "'b task_env \<Rightarrow> int \<Rightarrow> task \<Rightarrow> due_scan \<Rightarrow> due_scan" where
  "scan_expired env now t ds = (case queue_get (tk_id t) (ds_queue ds) of None \<Rightarrow> ds
   | Some e \<Rightarrow>
      (let result = expired_one_shot_reminder_result (tv_chrono env) e now in
       ds\<lparr>ds_queue := queue_modify (tk_id t) (\<lambda>e. e\<lparr>tk_status := Cancelled, tk_result := Some result\<rparr>) (ds_queue ds),
          ds_expired := ds_expired ds @ [(tv_uuid env (tk_id e), result)]\<rparr>))"

definition scan_task :: "'b task_env \<Rightarrow> cron_next \<Rightarrow> string option \<Rightarrow> bool \<Rightarrow> int \<Rightarrow> due_scan \<Rightarrow> task \<Rightarrow> due_scan" where
  "scan_task env cn tz reminders_only now ds t =
    (let ds1 = scan_schedule env (first_run cn tz t) t ds in
     if \<not> should_run now t then ds1
     else if one_shot_reminder_is_expired t now then scan_expired env now t ds1
     else if \<not> reminders_only \<or> task_is_scheduled_reminder t then ds1\<lparr>ds_candidates := ds_candidates ds1 @ [t]\<rparr>
     else ds1)"

definition scan_due :: "'b task_env \<Rightarrow> cron_next \<Rightarrow> string option \<Rightarrow> bool \<Rightarrow> int \<Rightarrow> task_queue \<Rightarrow> due_scan" where
  "scan_due env cn tz reminders_only now q = foldl (scan_task env cn tz reminders_only now)
     \<lparr>ds_queue = q, ds_schedule_updates = [], ds_expired = [], ds_candidates = []\<rparr> q"

definition claim_lease_secs :: "execution_policy \<Rightarrow> int" where
  "claim_lease_secs p = int (min (max (ap_stall_timeout_secs p) 300 * 2) u64_max)"

text \<open>One claim: the statement, then the entry in the queue.\<close>

definition claim_due_task ::
    "'b task_env \<Rightarrow> (string \<Rightarrow> validation) \<Rightarrow> string \<Rightarrow> int \<Rightarrow> task \<Rightarrow> task_state \<Rightarrow> task option result \<times> task_state" where
  "claim_due_task env default_validation lease_owner now t st =
    (case plus_secs (tv_chrono env) now (claim_lease_secs (run_policy env default_validation t)) of
       None \<Rightarrow> (Inl (Panicked ''DateTime + TimeDelta overflowed''), st)
     | Some expires \<Rightarrow>
        (case on_db (try_claim_task env now (tv_uuid env (tk_id t)) (pending_json env) (in_progress_json env) lease_owner
               (to_rfc3339 (tv_chrono env) expires)) st of
           (Inl _, st1) \<Rightarrow> (Inr None, st1)
         | (Inr claimed, st1) \<Rightarrow>
            (if \<not> claimed then (Inr None, st1)
             else (let st2 = modify_task (tk_id t) (\<lambda>e. e\<lparr>tk_status := InProgress\<rparr>) st1
               in (Inr (queue_get (tk_id t) (ta_queue st2)), st2)))))"

fun claim_all ::
    "'b task_env \<Rightarrow> (string \<Rightarrow> validation) \<Rightarrow> string \<Rightarrow> int \<Rightarrow> task list \<Rightarrow> task_state \<Rightarrow> task list result \<times> task_state" where
  "claim_all env dv owner now [] st = (Inr [], st)"
| "claim_all env dv owner now (t # ts) st = (case claim_due_task env dv owner now t st of
     (Inl e, st1) \<Rightarrow> (Inl e, st1)
   | (Inr c, st1) \<Rightarrow> (case claim_all env dv owner now ts st1 of
       (Inl e, st2) \<Rightarrow> (Inl e, st2)
     | (Inr due, st2) \<Rightarrow> (Inr (case c of Some t' \<Rightarrow> t' # due | None \<Rightarrow> due), st2)))"

definition persist_scan :: "'b task_env \<Rightarrow> int \<Rightarrow> due_scan \<Rightarrow> task_state \<Rightarrow> task_state" where
  "persist_scan env now ds st =
    (let st1 = foldl (\<lambda>st (i, cron, scheduled_for). logged (update_task env now i None None cron scheduled_for) st) st
           (ds_schedule_updates ds)
     in foldl (\<lambda>st (i, result). logged (update_task_status_and_result env now i (cancelled_json env) (Some result)) st) st1
           (ds_expired ds))"

definition take_due_tasks ::
    "'b task_env \<Rightarrow> (string \<Rightarrow> validation) \<Rightarrow> cron_next \<Rightarrow> string option \<Rightarrow> string \<Rightarrow> bool \<Rightarrow> int \<Rightarrow> task_state \<Rightarrow> task list result \<times> task_state" where
  "take_due_tasks env dv cn tz lease_owner reminders_only now st =
    (let st1 = recover_stale_in_progress_tasks env dv now st;
         ds = scan_due env cn tz reminders_only now (ta_queue st1);
         st2 = persist_scan env now ds (st1\<lparr>ta_queue := ds_queue ds\<rparr>)
     in claim_all env dv lease_owner now (sort_by task_due_priority_cmp (ds_candidates ds)) st2)"

section \<open>The end of a run\<close>

definition should_preserve_cancelled_task_status :: "task_status \<Rightarrow> task_status \<Rightarrow> bool" where
  "should_preserve_cancelled_task_status current next' \<longleftrightarrow> current = Cancelled \<and> next' \<noteq> Cancelled"

definition run_ended :: "task_status \<Rightarrow> bool" where
  "run_ended s = (case s of Completed \<Rightarrow> True | Failed _ \<Rightarrow> True | _ \<Rightarrow> False)"

definition finalized_task :: "cron_next \<Rightarrow> string option \<Rightarrow> task_status \<Rightarrow> string option \<Rightarrow> task \<Rightarrow> task" where
  "finalized_task cn tz status result t =
    (case tk_cron t of
       Some cron \<Rightarrow> (if run_ended status
          then t\<lparr>tk_scheduled_for := cn cron (task_time_zone tz t), tk_status := Pending, tk_result := result\<rparr>
          else t\<lparr>tk_status := status, tk_result := result\<rparr>)
     | None \<Rightarrow> t\<lparr>tk_status := status, tk_result := result\<rparr>)"

definition finalize_task ::
    "'b task_env \<Rightarrow> cron_next \<Rightarrow> string option \<Rightarrow> int \<Rightarrow> uuid \<Rightarrow> task_status \<Rightarrow> string option \<Rightarrow> task_state \<Rightarrow> unit result \<times> task_state" where
  "finalize_task env cn tz now i status result st =
    (let store = (\<lambda>stored schedule st1.
        (case on_db (update_task_status_and_result env now (tv_uuid env i) (status_json env ''Completed'' stored) result) st1 of
           (Inl e, st2) \<Rightarrow> (Inl e, st2)
         | (Inr _, st2) \<Rightarrow> (Inr (), case schedule of None \<Rightarrow> st2
             | Some (cron, at) \<Rightarrow> logged (update_task env now (tv_uuid env i) None None cron at) st2)))
     in case queue_get i (ta_queue st) of
          None \<Rightarrow> store status None st
        | Some t \<Rightarrow>
           (if should_preserve_cancelled_task_status (tk_status t) status then (Inr (), st)
            else (let t' = finalized_task cn tz status result t in
              store (tk_status t')
                (if tk_cron t' \<noteq> None then Some (tk_cron t', map_option (to_rfc3339 (tv_chrono env)) (tk_scheduled_for t')) else None)
                (modify_task i (\<lambda>_. t') st))))"

definition reschedule_task_retry ::
    "'b task_env \<Rightarrow> int \<Rightarrow> task \<Rightarrow> int \<Rightarrow> string \<Rightarrow> nat \<Rightarrow> task_state \<Rightarrow> unit result \<times> task_state" where
  "reschedule_task_retry env now t next_retry_at result attempt st =
    (let updated_arguments = increment_attempt (tk_arguments t) (attempt + 1);
         st1 = modify_task (tk_id t) (\<lambda>e. e\<lparr>tk_status := Pending, tk_scheduled_for := Some next_retry_at,
           tk_result := Some result, tk_arguments := updated_arguments\<rparr>) st
     in case serialized (tv_print_json env updated_arguments) of
          Inl e \<Rightarrow> (Inl e, st1)
        | Inr args \<Rightarrow> (case on_db (update_task_status_and_result env now (tv_uuid env (tk_id t)) (pending_json env) (Some result)) st1 of
            (Inl e, st2) \<Rightarrow> (Inl e, st2)
          | (Inr _, st2) \<Rightarrow> on_db (update_task env now (tv_uuid env (tk_id t)) None (Some args) (tk_cron t)
                (Some (to_rfc3339 (tv_chrono env) next_retry_at))) st2))"

section \<open>Loading at startup\<close>

definition loaded_status :: "task_approval \<Rightarrow> task_status \<Rightarrow> task_status" where
  "loaded_status approval status0 =
    (let status = (if awaits_decision status0 then Pending else status0) in
     if task_requires_explicit_approval approval \<and> (status = Pending \<or> status = AwaitingApproval) then AwaitingApproval else status)"

text \<open>\<open>fresh\<close> gives the new id of a row with an unreadable one.\<close>

definition loaded_task :: "'b task_env \<Rightarrow> int \<Rightarrow> (string \<Rightarrow> uuid) \<Rightarrow> task_row \<Rightarrow> task" where
  "loaded_task env now fresh r =
    (let approval = normalized_task_approval (case tv_read_approval env (tr_approval r) of Some a \<Rightarrow> a | None \<Rightarrow> Auto) in
     \<lparr>tk_id = (case tv_parse_uuid env (tr_id r) of Some u \<Rightarrow> u | None \<Rightarrow> fresh (tr_id r)),
      tk_description = tr_description r, tk_action = tr_action r,
      tk_arguments = (case tv_parse_json env (tr_arguments r) of Some j \<Rightarrow> j | None \<Rightarrow> JObj []),
      tk_approval = approval, tk_capabilities = [],
      tk_status = loaded_status approval (case tv_read_status env (tr_status r) of Some s \<Rightarrow> s | None \<Rightarrow> Pending),
      tk_created_at = (case parse_rfc3339 (tv_chrono env) (tr_created_at r) of Some t \<Rightarrow> t | None \<Rightarrow> now),
      tk_scheduled_for = Option.bind (tr_scheduled_for r) (parse_rfc3339 (tv_chrono env)),
      tk_cron = tr_cron r, tk_result = tr_result r,
      tk_proof_id = Option.bind (tr_proof_id r) (tv_parse_uuid env),
      tk_priority = tr_priority r, tk_urgency = tr_urgency r, tk_importance = tr_importance r,
      tk_eisenhower_quadrant = map_option of_int (tr_eisenhower_quadrant r)\<rparr>)"

definition load_tasks :: "'b task_env \<Rightarrow> int \<Rightarrow> (string \<Rightarrow> uuid) \<Rightarrow> task_db \<Rightarrow> task_state" where
  "load_tasks env now fresh d = (case get_tasks env d of
     (Inl _, d') \<Rightarrow> \<lparr>ta_queue = [], ta_db = d'\<rparr>
   | (Inr rows, d') \<Rightarrow> \<lparr>ta_queue = map (loaded_task env now fresh) rows, ta_db = d'\<rparr>)"
section \<open>Queue lemmas\<close>

lemma queue_get_id: "queue_get i q = Some t \<Longrightarrow> tk_id t = i \<and> t \<in> set q"
  by (induction q) (auto split: if_splits)

lemma queue_get_None: "queue_get i q = None \<longleftrightarrow> (\<forall>t \<in> set q. tk_id t \<noteq> i)"
  by (induction q) auto

lemma queue_get_modify:
  "(\<And>t. tk_id (f t) = tk_id t) \<Longrightarrow> queue_get j (queue_modify i f q) = (if j = i then map_option f (queue_get i q) else queue_get j q)"
  by (induction q) auto

lemma queue_modify_ids: "(\<And>t. tk_id (f t) = tk_id t) \<Longrightarrow> map tk_id (queue_modify i f q) = map tk_id q"
  by (induction q) auto

lemma queue_get_distinct: "distinct (map tk_id q) \<Longrightarrow> t \<in> set q \<Longrightarrow> queue_get (tk_id t) q = Some t"
  by (induction q) auto

lemma sort_by_due: "sort_by task_due_priority_cmp ts = sort_key due_key ts"
proof -
  have i: "insert_by task_due_priority_cmp x xs = insort_key due_key x xs" for x xs
    by (induction xs) (auto simp: due_cmp_key cmp_simps not_less)
  show ?thesis by (simp add: sort_by_def sort_key_def i fun_eq_iff [symmetric] cong: foldr_cong)
qed

definition due_candidate :: "bool \<Rightarrow> int \<Rightarrow> task \<Rightarrow> bool" where
  "due_candidate reminders_only now t \<longleftrightarrow> should_run now t \<and> \<not> one_shot_reminder_is_expired t now
     \<and> (reminders_only \<longrightarrow> task_is_scheduled_reminder t)"

lemma scan_schedule_candidates [simp]: "ds_candidates (scan_schedule env n t ds) = ds_candidates ds"
  by (simp add: scan_schedule_def Let_def split: option.splits)

lemma scan_expired_candidates [simp]: "ds_candidates (scan_expired env now t ds) = ds_candidates ds"
  by (simp add: scan_expired_def Let_def split: option.splits)

lemma scan_task_candidates:
  "ds_candidates (scan_task env cn tz ro now ds t) = ds_candidates ds @ (if due_candidate ro now t then [t] else [])"
  by (auto simp: scan_task_def due_candidate_def Let_def)

lemma scan_candidates: "ds_candidates (scan_due env cn tz ro now q) = filter (due_candidate ro now) q"
proof -
  have "ds_candidates (foldl (scan_task env cn tz ro now) ds ts) = ds_candidates ds @ filter (due_candidate ro now) ts" for ds ts
    by (induction ts arbitrary: ds) (auto simp: scan_task_candidates)
  then show ?thesis by (simp add: scan_due_def)
qed

lemma claim_due_task_result:
  assumes "claim_due_task env dv owner now t st = (Inr (Some t'), st')"
  shows "tk_id t' = tk_id t \<and> tk_status t' = InProgress"
proof -
  have "\<exists>q. queue_get (tk_id t) (queue_modify (tk_id t) (\<lambda>e. e\<lparr>tk_status := InProgress\<rparr>) q) = Some t'"
    using assms by (auto simp: claim_due_task_def modify_task_def Let_def split: option.splits prod.splits sum.splits if_splits)
  then obtain q where "queue_get (tk_id t) (queue_modify (tk_id t) (\<lambda>e. e\<lparr>tk_status := InProgress\<rparr>) q) = Some t'" by blast
  then show ?thesis by (auto simp: queue_get_modify dest: queue_get_id)
qed

lemma claim_all_result:
  assumes "claim_all env dv owner now ts st = (Inr due, st')"
  shows "\<exists>us. subseq us ts \<and> map tk_id due = map tk_id us \<and> (\<forall>t \<in> set due. tk_status t = InProgress)"
  using assms
proof (induction ts arbitrary: st due st')
  case (Cons t ts)
  then obtain c st1 due' where c: "claim_due_task env dv owner now t st = (Inr c, st1)"
    and r: "claim_all env dv owner now ts st1 = (Inr due', st')" and due: "due = (case c of Some t' \<Rightarrow> t' # due' | None \<Rightarrow> due')"
    by (auto split: prod.splits sum.splits)
  from Cons.IH [OF r] obtain us where us: "subseq us ts" "map tk_id due' = map tk_id us" "\<forall>t \<in> set due'. tk_status t = InProgress"
    by blast
  show ?case
  proof (cases c)
    case None
    with us due show ?thesis by (auto intro!: exI [of _ us])
  next
    case (Some t')
    with claim_due_task_result c have "tk_id t' = tk_id t" "tk_status t' = InProgress" by blast+
    with Some us due show ?thesis by (auto intro!: exI [of _ "t # us"])
  qed
qed simp

text \<open>
  What a round of claims does to the rows: each is as it was, or was claimable (pending, without a lease that
  still holds) and has been claimed by the owner: in progress under its lease, with the next lease version.
\<close>

definition claimed_row :: "'b task_env \<Rightarrow> string \<Rightarrow> int \<Rightarrow> task_row \<Rightarrow> task_row \<Rightarrow> bool" where
  "claimed_row env owner now r r' \<longleftrightarrow> claimable env now (tr_id r) (pending_json env) r
     \<and> tr_id r' = tr_id r \<and> tr_status r' = in_progress_json env \<and> tr_lease_owner r' = Some owner
     \<and> tr_lease_version r' = tr_lease_version r + 1"

definition round_rows :: "'b task_env \<Rightarrow> string \<Rightarrow> int \<Rightarrow> task_row list \<Rightarrow> task_row list \<Rightarrow> bool" where
  "round_rows env owner now rows rows' \<longleftrightarrow> list_all2 (\<lambda>r r'. r' = r \<or> claimed_row env owner now r r') rows rows'"

definition claimed_in_round :: "'b task_env \<Rightarrow> string \<Rightarrow> int \<Rightarrow> task_row list \<Rightarrow> task_row list \<Rightarrow> string \<Rightarrow> bool" where
  "claimed_in_round env owner now rows rows' i \<longleftrightarrow>
     (\<exists>k < length rows. tr_id (rows ! k) = i \<and> k < length rows' \<and> claimed_row env owner now (rows ! k) (rows' ! k))"

lemma round_rows_refl: "round_rows env owner now rows rows"
  by (simp add: round_rows_def list.rel_refl)

lemma claimed_not_claimable:
  "pending_json env \<noteq> in_progress_json env \<Longrightarrow> claimed_row env owner now r r' \<Longrightarrow> \<not> claimable env now i (pending_json env) r'"
  by (auto simp: claimed_row_def claimable_def)

definition claim_row :: "'b task_env \<Rightarrow> string \<Rightarrow> int \<Rightarrow> string \<Rightarrow> string \<Rightarrow> task_row \<Rightarrow> task_row" where
  "claim_row env owner now expires i r = (if claimable env now i (pending_json env) r
     then r\<lparr>tr_status := in_progress_json env, tr_updated_at := to_rfc3339 (tv_chrono env) now,
       tr_lease_owner := Some owner, tr_lease_expires_at := Some expires, tr_lease_version := tr_lease_version r + 1\<rparr>
     else r)"

lemma claim_row_claims:
  "claimable env now i (pending_json env) r \<Longrightarrow> claimed_row env owner now r (claim_row env owner now expires i r)"
  by (auto simp: claim_row_def claimed_row_def claimable_def)

lemma claim_round:
  assumes "pending_json env \<noteq> in_progress_json env" and "round_rows env owner now rows rows1"
  shows "round_rows env owner now rows (map (claim_row env owner now expires i) rows1)"
    and "claimed_in_round env owner now rows rows1 j
      \<Longrightarrow> claimed_in_round env owner now rows (map (claim_row env owner now expires i) rows1) j"
    and "\<exists>r \<in> set rows1. claimable env now i (pending_json env) r
      \<Longrightarrow> claimed_in_round env owner now rows (map (claim_row env owner now expires i) rows1) i"
proof -
  have len: "length rows1 = length rows" using assms(2) by (simp add: round_rows_def list_all2_lengthD)
  have pos: "rows1 ! k = rows ! k \<or> claimed_row env owner now (rows ! k) (rows1 ! k)" if "k < length rows" for k
    using assms(2) that by (simp add: round_rows_def list_all2_conv_all_nth)
  have keep: "claim_row env owner now expires i (rows1 ! k) = rows1 ! k" if "claimed_row env owner now (rows ! k) (rows1 ! k)" for k
    using claimed_not_claimable [OF assms(1) that] by (simp add: claim_row_def)
  have step: "claim_row env owner now expires i (rows1 ! k) = rows ! k
      \<or> claimed_row env owner now (rows ! k) (claim_row env owner now expires i (rows1 ! k))" if "k < length rows" for k
  proof (cases "claimable env now i (pending_json env) (rows1 ! k)")
    case True
    then have "rows1 ! k = rows ! k" using pos [OF that] claimed_not_claimable [OF assms(1)] by blast
    with True claim_row_claims show ?thesis by metis
  next
    case False
    then show ?thesis using pos [OF that] by (simp add: claim_row_def)
  qed
  then show "round_rows env owner now rows (map (claim_row env owner now expires i) rows1)"
    using len by (simp add: round_rows_def list_all2_conv_all_nth)
  show "claimed_in_round env owner now rows (map (claim_row env owner now expires i) rows1) j"
    if "claimed_in_round env owner now rows rows1 j"
    using that keep by (fastforce simp: claimed_in_round_def)
  show "claimed_in_round env owner now rows (map (claim_row env owner now expires i) rows1) i"
    if "\<exists>r \<in> set rows1. claimable env now i (pending_json env) r"
  proof -
    from that obtain k where k: "k < length rows" "claimable env now i (pending_json env) (rows1 ! k)"
      using len by (metis in_set_conv_nth)
    then have e: "rows1 ! k = rows ! k" using pos claimed_not_claimable [OF assms(1)] by blast
    then have "claimed_row env owner now (rows ! k) (claim_row env owner now expires i (rows1 ! k))"
      using claim_row_claims k(2) by metis
    moreover have "tr_id (rows ! k) = i" using k(2) e by (simp add: claimable_def)
    ultimately show ?thesis using k(1) len by (auto simp: claimed_in_round_def)
  qed
qed

text \<open>One claim of the scheduler leaves the rows alone, or claims as above; a task it returns was claimed.\<close>

lemma claim_due_rows:
  assumes "claim_due_task env dv owner now t st = (Inr c, st')"
  shows "tt_tasks (tables (ta_db st')) = tt_tasks (tables (ta_db st)) \<and> c = None
    \<or> (\<exists>expires. tt_tasks (tables (ta_db st')) = map (claim_row env owner now expires (tv_uuid env (tk_id t))) (tt_tasks (tables (ta_db st)))
        \<and> (c \<noteq> None \<longrightarrow> (\<exists>r \<in> set (tt_tasks (tables (ta_db st))). claimable env now (tv_uuid env (tk_id t)) (pending_json env) r)))"
proof -
  let ?i = "tv_uuid env (tk_id t)"
  from assms obtain e where e: "plus_secs (tv_chrono env) now (claim_lease_secs (run_policy env dv t)) = Some e"
    by (auto simp: claim_due_task_def split: option.splits)
  let ?x = "to_rfc3339 (tv_chrono env) e"
  obtain r d where c: "try_claim_task env now ?i (pending_json env) (in_progress_json env) owner ?x (ta_db st) = (r, d)" by fastforce
  from assms e c have st': "ta_db st' = d" and none: "\<And>err. r = Inl err \<Longrightarrow> c = None" "r = Inr False \<Longrightarrow> c = None"
    by (auto simp: claim_due_task_def on_db_def modify_task_def Let_def split: sum.splits if_splits)
  from c show ?thesis
  proof (cases rule: try_claim_cases)
    case (failed err)
    then show ?thesis using st' none(1) by simp
  next
    case ran
    have "tt_tasks (tables d) = map (claim_row env owner now ?x ?i) (tt_tasks (tables (ta_db st)))"
      unfolding ran(2) by (simp add: change_rows_def claim_row_def)
    then show ?thesis using st' ran(1) none(2) by (intro disjI2 exI [of _ ?x]) auto
  qed
qed

lemma claim_all_rows:
  assumes "claim_all env dv owner now ts st = (Inr due, st')" and "pending_json env \<noteq> in_progress_json env"
    and "round_rows env owner now rows (tt_tasks (tables (ta_db st)))"
  shows "round_rows env owner now rows (tt_tasks (tables (ta_db st')))
    \<and> (\<forall>j. claimed_in_round env owner now rows (tt_tasks (tables (ta_db st))) j
         \<longrightarrow> claimed_in_round env owner now rows (tt_tasks (tables (ta_db st'))) j)
    \<and> (\<forall>t' \<in> set due. claimed_in_round env owner now rows (tt_tasks (tables (ta_db st'))) (tv_uuid env (tk_id t')))"
  using assms(1,3)
proof (induction ts arbitrary: st due st')
  case (Cons t ts)
  then obtain c st1 due' where c: "claim_due_task env dv owner now t st = (Inr c, st1)"
    and r: "claim_all env dv owner now ts st1 = (Inr due', st')" and due: "due = (case c of Some t' \<Rightarrow> t' # due' | None \<Rightarrow> due')"
    by (auto split: prod.splits sum.splits)
  let ?R = "\<lambda>st. tt_tasks (tables (ta_db st))" and ?C = "claimed_in_round env owner now rows"
  note g = claim_round [OF assms(2) Cons.prems(2)]
  have one: "round_rows env owner now rows (?R st1) \<and> (\<forall>j. ?C (?R st) j \<longrightarrow> ?C (?R st1) j)
      \<and> (c \<noteq> None \<longrightarrow> ?C (?R st1) (tv_uuid env (tk_id t)))"
    using claim_due_rows [OF c]
  proof (elim disjE exE conjE)
    fix expires
    assume m: "?R st1 = map (claim_row env owner now expires (tv_uuid env (tk_id t))) (?R st)"
      and k: "c \<noteq> None \<longrightarrow> (\<exists>r \<in> set (?R st). claimable env now (tv_uuid env (tk_id t)) (pending_json env) r)"
    show ?thesis unfolding m using g k by blast
  qed (use Cons.prems(2) in simp)
  from Cons.IH [OF r] one have rest: "round_rows env owner now rows (?R st')" "\<forall>j. ?C (?R st1) j \<longrightarrow> ?C (?R st') j"
    "\<forall>t' \<in> set due'. ?C (?R st') (tv_uuid env (tk_id t'))" by blast+
  have "?C (?R st') (tv_uuid env (tk_id t'))" if "c = Some t'" for t'
    using that one rest(2) claim_due_task_result [of env dv owner now t st t' st1] c by auto
  then show ?case using rest one due by (auto split: option.splits)
qed simp

text \<open>The state of a round when the claims begin: stale runs recovered, schedules and expiries persisted.\<close>

definition before_claims ::
    "'b task_env \<Rightarrow> (string \<Rightarrow> validation) \<Rightarrow> cron_next \<Rightarrow> string option \<Rightarrow> bool \<Rightarrow> int \<Rightarrow> task_state \<Rightarrow> task_state" where
  "before_claims env dv cn tz reminders_only now st =
    (let st1 = recover_stale_in_progress_tasks env dv now st;
         ds = scan_due env cn tz reminders_only now (ta_queue st1)
     in persist_scan env now ds (st1\<lparr>ta_queue := ds_queue ds\<rparr>))"

text \<open>
  C11. The scheduler hands out due tasks that it has claimed, and no other. Whatever the database does, every
  task it returns is in progress and is, by its id, one of the tasks that were pending and due after the
  recovery of stale runs (no run in the future, no expired reminder, only reminders when asked for), each at
  most once and in the order of due time, reminders first, age and id. And each was claimed in this round: its
  row was pending, without a lease that still holds, when the claims began, and is in progress under this
  owner's lease, with the next lease version, at the end. (Pending and in progress are written differently.)
\<close>

theorem take_due_sound:
  assumes "take_due_tasks env dv cn tz owner reminders_only now st = (Inr due, st')"
    and "pending_json env \<noteq> in_progress_json env"
  shows "\<exists>ts. subseq ts (sort_key due_key (filter (due_candidate reminders_only now)
        (ta_queue (recover_stale_in_progress_tasks env dv now st))))
    \<and> map tk_id due = map tk_id ts
    \<and> (\<forall>t \<in> set due. tk_status t = InProgress
        \<and> claimed_in_round env owner now (tt_tasks (tables (ta_db (before_claims env dv cn tz reminders_only now st))))
            (tt_tasks (tables (ta_db st'))) (tv_uuid env (tk_id t)))"
proof -
  let ?st = "before_claims env dv cn tz reminders_only now st"
  have c: "claim_all env dv owner now (sort_key due_key (filter (due_candidate reminders_only now)
        (ta_queue (recover_stale_in_progress_tasks env dv now st)))) ?st = (Inr due, st')"
    using assms(1) unfolding take_due_tasks_def before_claims_def Let_def sort_by_due scan_candidates .
  from claim_all_rows [OF c assms(2) round_rows_refl] claim_all_result [OF c] show ?thesis by blast
qed

section \<open>Approval\<close>

text \<open>
  Approval is not enforced. Whatever approval a task asks for, the status it is created with is
  pending, adding it keeps it so (only its approval becomes \<open>Auto\<close>), the scheduler takes it when it is due,
  and a restart turns every task that awaits a decision into a pending one.
\<close>

theorem approval_not_enforced:
  "status_for_task_approval a = Pending
   \<and> (tk_status t = status_for_task_approval (tk_approval t) \<longrightarrow>
        prepare_task t = t\<lparr>tk_approval := Auto\<rparr>
        \<and> due_candidate ro now (prepare_task t) = due_candidate ro now t)
   \<and> \<not> awaits_decision (loaded_status a s) \<and> (awaits_decision s \<longrightarrow> loaded_status a s = Pending)"
proof -
  have n: "normalized_task_approval b = Auto" for b by (cases b) simp_all
  have r: "\<not> task_requires_explicit_approval b" for b by (simp add: task_requires_explicit_approval_def n)
  have "due_candidate ro now (t\<lparr>tk_approval := b\<rparr>) = due_candidate ro now t" for b
    by (simp add: due_candidate_def should_run_def one_shot_reminder_is_expired_def task_lateness_def
        task_is_one_shot_scheduled_reminder_def task_is_scheduled_reminder_def task_has_schedule_def cong: option.case_cong)
  then show ?thesis
    by (auto simp: status_for_task_approval_def r n prepare_task_def Let_def loaded_status_def awaits_decision_def)
qed

text \<open>A task that asks for approval, created, added and due at once.\<close>

theorem approval_not_enforced_witness:
  "let t = (task_new 1 0 ''d'' ''send_mail'' (JObj []))\<lparr>tk_approval := RequireApproval\<rparr> in
   due_candidate False 5 (prepare_task (t\<lparr>tk_status := status_for_task_approval RequireApproval\<rparr>))"
  using approval_not_enforced [of RequireApproval "(task_new 1 0 ''d'' ''send_mail'' (JObj []))\<lparr>tk_approval := RequireApproval\<rparr>" False 5 Pending]
  by (simp add: Let_def task_new_def due_candidate_def should_run_def one_shot_reminder_is_expired_def
      task_is_one_shot_scheduled_reminder_def)

section \<open>The end of a run\<close>

lemma finalized_id: "tk_id (finalized_task cn tz s r t) = tk_id t"
  by (simp add: finalized_task_def split: option.splits)

lemma on_db_queue: "on_db m st = (r, st') \<Longrightarrow> ta_queue st' = ta_queue st"
  by (auto simp: on_db_def split: prod.splits)

lemma logged_queue [simp]: "ta_queue (logged m st) = ta_queue st"
  by (simp add: logged_def on_db_def split: prod.splits)

text \<open>
  The end of a run. A cancelled task stays cancelled with everything else as it was; any other task
  gets the run's result, and its status, except that a recurring task whose run completed or failed goes
  back to pending with its next run; no other task of the queue changes, whether or not the row could be written.
\<close>

theorem finalize_effect:
  assumes "finalize_task env cn tz now i status result st = (r, st')" and "queue_get i (ta_queue st) = Some t"
  shows "(if tk_status t = Cancelled \<and> status \<noteq> Cancelled then st' = st \<and> r = Inr ()
      else queue_get i (ta_queue st') = Some (if tk_cron t \<noteq> None \<and> run_ended status
          then t\<lparr>tk_scheduled_for := cn (the (tk_cron t)) (task_time_zone tz t), tk_status := Pending, tk_result := result\<rparr>
          else t\<lparr>tk_status := status, tk_result := result\<rparr>))
    \<and> (\<forall>j. j \<noteq> i \<longrightarrow> queue_get j (ta_queue st') = queue_get j (ta_queue st))"
proof (cases "tk_status t = Cancelled \<and> status \<noteq> Cancelled")
  case True
  then show ?thesis using assms by (simp add: finalize_task_def should_preserve_cancelled_task_status_def Let_def)
next
  case False
  let ?t = "finalized_task cn tz status result t"
  have q: "ta_queue st' = queue_modify i (\<lambda>_. ?t) (ta_queue st)"
    using assms False
    by (auto simp: finalize_task_def should_preserve_cancelled_task_status_def Let_def modify_task_def
        split: prod.splits sum.splits if_splits dest!: on_db_queue)
  have "queue_get j (queue_modify i (\<lambda>_. ?t) qu) = (if j = i then Some ?t else queue_get j qu)"
    if "queue_get i qu = Some t" for j qu
    using that by (induction qu) (auto simp: finalized_id split: if_splits)
  with q assms(2) False show ?thesis by (auto simp: finalized_task_def split: option.splits)
qed
section \<open>A running task is claimed again\<close>

definition task_env_ok :: "'b task_env \<Rightarrow> bool" where
  "task_env_ok env \<longleftrightarrow> text_ok (tv_text env) \<and> chrono_ok (tv_chrono env)
     \<and> (\<forall>u. tv_parse_uuid env (tv_uuid env u) = Some u)
     \<and> (\<forall>j. \<exists>s. tv_print_json env j = Some s \<and> tv_parse_json env s = Some j)
     \<and> (\<forall>a. \<exists>s. tv_write_approval env a = Some s \<and> tv_read_approval env s = Some a)
     \<and> (\<forall>a. \<exists>s. tv_write_status env a = Some s \<and> tv_read_status env s = Some a)
     \<and> (\<forall>a. \<exists>s. tv_write_supervisor env a = Some s \<and> CHR ''{'' \<in> set s \<and> tv_read_supervisor env s = Some a)"

lemma uuid_inj: "task_env_ok env \<Longrightarrow> tv_uuid env a = tv_uuid env b \<longleftrightarrow> a = b"
  unfolding task_env_ok_def by (metis option.inject)

lemma status_json_inj: "task_env_ok env \<Longrightarrow> status_json env d a = status_json env d' b \<Longrightarrow> a = b"
proof -
  assume "task_env_ok env" and e: "status_json env d a = status_json env d' b"
  then obtain s s' where "tv_write_status env a = Some s" "tv_read_status env s = Some a"
    "tv_write_status env b = Some s'" "tv_read_status env s' = Some b" unfolding task_env_ok_def by meson
  with e show "a = b" by (simp add: status_json_def)
qed

text \<open>The row of a task exists, is pending and has no lease; the database answers.\<close>

definition row_free :: "string \<Rightarrow> string \<Rightarrow> task_db \<Rightarrow> bool" where
  "row_free i p d \<longleftrightarrow> faults d = [] \<and> i \<in> tr_id ` set (tt_tasks (tables d))
     \<and> (\<forall>r \<in> set (tt_tasks (tables d)). tr_id r = i \<longrightarrow> tr_status r = p \<and> tr_lease_expires_at r = None)"

definition row_there :: "string \<Rightarrow> task_db \<Rightarrow> bool" where
  "row_there i d \<longleftrightarrow> faults d = [] \<and> i \<in> tr_id ` set (tt_tasks (tables d))"

lemma change_rows_id_set: "(\<And>r. tr_id (f r) = tr_id r) \<Longrightarrow> tr_id ` set (tt_tasks (change_rows P f t)) = tr_id ` set (tt_tasks t)"
  using arg_cong [OF change_rows_ids [of f P t], of set] by (simp only: set_map)

lemma change_rows_member:
  "r \<in> set (tt_tasks (change_rows P f t)) \<Longrightarrow> \<exists>r0 \<in> set (tt_tasks t). r = (if P r0 then f r0 else r0)"
  by (auto simp: change_rows_def)

lemma stmt_opt_quiet:
  "faults d = [] \<Longrightarrow> stmt_opt f d = (case f (tables d) of Some t \<Rightarrow> (Inr (), d\<lparr>tables := t\<rparr>) | None \<Rightarrow> (Inl db_error, d))"
  by (cases d) (auto simp: stmt_opt_def bindE_def split: option.splits)

lemma update_there:
  assumes "row_there i d" and "\<And>r. tr_id (f r) = tr_id r"
  shows "row_there i (snd (stmt_opt (update_row j f) d))"
  using assms change_rows_id_set [of f "\<lambda>r. tr_id r = j" "tables d"]
  by (auto simp: row_there_def stmt_opt_quiet update_row_def)

lemma update_free:
  assumes "row_free i p d" and "\<And>r. tr_id (f r) = tr_id r"
    and "\<And>r. j = i \<Longrightarrow> tr_status r = p \<Longrightarrow> tr_lease_expires_at r = None \<Longrightarrow> tr_status (f r) = p \<and> tr_lease_expires_at (f r) = None"
  shows "row_free i p (snd (stmt_opt (update_row j f) d))"
proof (cases "update_row j f (tables d)")
  case None
  then show ?thesis using assms(1) by (simp add: row_free_def stmt_opt_quiet)
next
  case (Some t)
  have "tr_status r = p \<and> tr_lease_expires_at r = None"
    if r: "r \<in> set (tt_tasks (change_rows (\<lambda>r. tr_id r = j) f (tables d)))" "tr_id r = i" for r
  proof -
    obtain r0 where r0: "r0 \<in> set (tt_tasks (tables d))" "r = (if tr_id r0 = j then f r0 else r0)"
      using change_rows_member [OF r(1)] by blast
    with r(2) assms(2) have "tr_id r0 = i" by (auto split: if_splits)
    with r0 assms(1,3) show ?thesis by (auto simp: row_free_def)
  qed
  with assms(1,2) Some update_row_Some [OF Some] show ?thesis
    by (simp add: row_free_def stmt_opt_quiet change_rows_id_set)
qed

lemma update_frees:
  assumes "row_there i d" and "\<And>r. tr_id (f r) = tr_id r" and "\<And>r. tr_status (f r) = p \<and> tr_lease_expires_at (f r) = None"
  shows "row_free i p (snd (stmt_opt (update_row i f) d))"
proof -
  from assms(1) have u: "update_row i f (tables d) = Some (change_rows (\<lambda>r. tr_id r = i) f (tables d))"
    by (auto simp: update_row_def row_there_def)
  have "tr_status r = p \<and> tr_lease_expires_at r = None"
    if r: "r \<in> set (tt_tasks (change_rows (\<lambda>r. tr_id r = i) f (tables d)))" "tr_id r = i" for r
  proof -
    obtain r0 where r0: "r = (if tr_id r0 = i then f r0 else r0)" using change_rows_member [OF r(1)] by blast
    with r(2) have "tr_id r0 = i" by (auto split: if_splits)
    with r0 assms(3) [of r0] show ?thesis by simp
  qed
  with assms(1,2) u show ?thesis by (simp add: row_free_def row_there_def stmt_opt_quiet change_rows_id_set)
qed

lemma lift_keeps: "P d \<Longrightarrow> (\<And>a. P (snd (f a d))) \<Longrightarrow> P (snd (bindE (lift_result x) f d))"
  by (cases x) (simp_all add: bindE_def)

lemma there_lift: "row_there i d \<Longrightarrow> (\<And>a. row_there i (snd (f a d))) \<Longrightarrow> row_there i (snd (bindE (lift_result x) f d))"
  by (rule lift_keeps)

lemma free_lift: "row_free i p d \<Longrightarrow> (\<And>a. row_free i p (snd (f a d))) \<Longrightarrow> row_free i p (snd (bindE (lift_result x) f d))"
  by (rule lift_keeps)

lemma there_update_task: "row_there i d \<Longrightarrow> row_there i (snd (update_task env now j a b c e d))"
  unfolding update_task_def by (intro there_lift update_there) simp_all

lemma free_update_task: "row_free i p d \<Longrightarrow> row_free i p (snd (update_task env now j a b c e d))"
  unfolding update_task_def by (intro free_lift update_free) simp_all

lemma there_status: "row_there i d \<Longrightarrow> row_there i (snd (update_task_status_and_result env now j s r d))"
  unfolding update_task_status_and_result_def by (intro there_lift update_there) simp_all

lemma free_status: "row_free i p d \<Longrightarrow> j \<noteq> i \<or> s = p \<Longrightarrow> row_free i p (snd (update_task_status_and_result env now j s r d))"
  unfolding update_task_status_and_result_def by (intro free_lift update_free) auto

lemma frees_status:
  assumes "text_ok (tv_text env)" and "row_there i d"
  shows "row_free i p (snd (update_task_status_and_result env now i p r d))"
proof -
  obtain x where "encrypt_optional_storage_string (tv_text env) r = Inr x"
    using encrypt_storage_string_total [OF assms(1)] by (cases r) (auto simp: encrypt_optional_storage_string_def, metis res_bind.simps(2))
  then show ?thesis using assms(2)
    by (simp add: update_task_status_and_result_def bindE_def) (intro update_frees, simp_all)
qed

lemma free_supervisor: "row_free i p d \<Longrightarrow> row_free i p (snd (upsert_automation_supervisor_state env now s d))"
  unfolding upsert_automation_supervisor_state_def Let_def
  by (intro free_lift) (simp_all add: row_free_def put_supervisor_def)

lemma logged_db: "ta_db (logged m st) = snd (m (ta_db st))"
  by (simp add: logged_def on_db_def split: prod.splits)

lemma foldl_keeps: "P st \<Longrightarrow> (\<And>st x. x \<in> set xs \<Longrightarrow> P st \<Longrightarrow> P (f st x)) \<Longrightarrow> P (foldl f st xs)"
  by (induction xs arbitrary: st) auto

lemma persist_keeps:
  "row_there i (ta_db st) \<Longrightarrow> row_there i (ta_db (persist_recovery env now e st))"
  "row_free i (pending_json env) (ta_db st) \<Longrightarrow> row_free i (pending_json env) (ta_db (persist_recovery env now e st))"
  by (simp_all add: persist_recovery_def logged_db there_update_task there_status free_update_task free_status)

lemma persist_frees:
  "text_ok (tv_text env) \<Longrightarrow> row_there (tv_uuid env (tk_id e)) (ta_db st) \<Longrightarrow>
    row_free (tv_uuid env (tk_id e)) (pending_json env) (ta_db (persist_recovery env now e st))"
  by (simp add: persist_recovery_def logged_db free_update_task frees_status)

lemma persist_all_frees:
  assumes "text_ok (tv_text env)" and "e \<in> set es" and "row_there (tv_uuid env (tk_id e)) (ta_db st)"
  shows "row_free (tv_uuid env (tk_id e)) (pending_json env) (ta_db (foldl (\<lambda>st e. persist_recovery env now e st) st es))"
  using assms(2,3)
proof (induction es arbitrary: st)
  case (Cons x es)
  let ?P = "\<lambda>st. row_free (tv_uuid env (tk_id e)) (pending_json env) (ta_db st)"
  show ?case
  proof (cases "x = e")
    case True
    have "?P (persist_recovery env now e st)" by (rule persist_frees [OF assms(1) Cons.prems(2)])
    then have "?P (foldl (\<lambda>st e. persist_recovery env now e st) (persist_recovery env now e st) es)"
      by (rule foldl_keeps [where P = ?P]) (rule persist_keeps(2))
    with True show ?thesis by simp
  next
    case False
    then have "e \<in> set es" using Cons.prems(1) by simp
    from Cons.IH [OF this persist_keeps(1) [OF Cons.prems(2)]] show ?thesis by simp
  qed
qed simp
text \<open>The supervisor state the recovery finds for a task.\<close>

definition supervisor_for :: "'b task_env \<Rightarrow> task_tables \<Rightarrow> string \<Rightarrow> supervisor_state option" where
  "supervisor_for env tb i = map_of (rev (map (\<lambda>s. (ss_automation_id s, s)) (List.map_filter
      (\<lambda>r. tv_read_supervisor env (decrypt_storage_string (tv_text env) (sv_payload r)))
      (order_by_desc (tv_text_le env) sv_updated_at (tt_supervisors tb))))) i"

lemma recovered_idem: "recovered_task now (recovered_task now t) = recovered_task now t"
  by (simp add: recovered_task_def)

lemma recovered_id [simp]: "tk_id (recovered_task now t) = tk_id t"
  by (simp add: recovered_task_def)

lemma modify_all_get:
  "queue_get i (ta_queue (foldl (\<lambda>st (t, _). modify_task (tk_id t) (recovered_task now) st) st xs))
    = map_option (if i \<in> (\<lambda>(t, _). tk_id t) ` set xs then recovered_task now else id) (queue_get i (ta_queue st))"
proof (induction xs arbitrary: st)
  case (Cons x xs)
  then show ?case
    by (cases x) (auto simp: modify_task_def queue_get_modify option.map_comp comp_def recovered_idem id_def)
qed (simp add: id_def option.map_ident)

lemma modify_all_frame:
  "ta_db (foldl (\<lambda>st (t, _). modify_task (tk_id t) (recovered_task now) st) st xs) = ta_db st
    \<and> map tk_id (ta_queue (foldl (\<lambda>st (t, _). modify_task (tk_id t) (recovered_task now) st) st xs)) = map tk_id (ta_queue st)"
  by (induction xs arbitrary: st) (auto simp: modify_task_def queue_modify_ids)

lemma map_filter_intro: "x \<in> set xs \<Longrightarrow> f x = Some y \<Longrightarrow> y \<in> set (List.map_filter f xs)"
  by (induction xs) (auto simp: List.map_filter_simps split: option.splits)

lemma foldl_persist_queue: "ta_queue (foldl (\<lambda>st e. persist_recovery env now e st) st es) = ta_queue st"
  by (induction es arbitrary: st) (auto simp: persist_recovery_def)

lemma foldl_supervisor_queue:
  "ta_queue (foldl (\<lambda>st (_, s). logged (upsert_automation_supervisor_state env now (stalled_state env now s)) st) st xs) = ta_queue st"
  by (induction xs arbitrary: st) auto

lemma foldl_supervisor_free:
  "row_free i p (ta_db st) \<Longrightarrow>
    row_free i p (ta_db (foldl (\<lambda>st (_, s). logged (upsert_automation_supervisor_state env now (stalled_state env now s)) st) st xs))"
  by (induction xs arbitrary: st) (auto simp: logged_db free_supervisor)

lemma recover_resets:
  assumes "task_env_ok env" and "faults (ta_db st) = []" and "t \<in> set (ta_queue st)" and "distinct (map tk_id (ta_queue st))"
    and "tk_status t = InProgress" and "supervisor_for env (tables (ta_db st)) (tv_uuid env (tk_id t)) = Some s"
    and "run_is_stale env dv now s t" and "tv_uuid env (tk_id t) \<in> tr_id ` set (tt_tasks (tables (ta_db st)))"
  defines "st' \<equiv> recover_stale_in_progress_tasks env dv now st"
  shows "queue_get (tk_id t) (ta_queue st') = Some (recovered_task now t)"
    and "map tk_id (ta_queue st') = map tk_id (ta_queue st)"
    and "row_free (tv_uuid env (tk_id t)) (pending_json env) (ta_db st')"
proof -
  let ?states = "List.map_filter (\<lambda>r. tv_read_supervisor env (decrypt_storage_string (tv_text env) (sv_payload r)))
      (order_by_desc (tv_text_le env) sv_updated_at (tt_supervisors (tables (ta_db st))))"
  let ?stale = "stale_tasks env dv now ?states (ta_queue st)"
  let ?st2 = "foldl (\<lambda>st (t, _). modify_task (tk_id t) (recovered_task now) st) st ?stale"
  let ?es = "List.map_filter (\<lambda>(t, _). queue_get (tk_id t) (ta_queue ?st2)) ?stale"
  let ?st3 = "foldl (\<lambda>st entry. persist_recovery env now entry st) ?st2 ?es"
  have l: "on_db (list_automation_supervisor_states env) st = (Inr ?states, st)"
    using assms(2) by (cases st, cases "ta_db st") (simp add: on_db_def list_automation_supervisor_states_def bindE_def)
  from assms(6) have ne: "?states \<noteq> []" by (auto simp: supervisor_for_def)
  have st': "st' = foldl (\<lambda>st (_, s). logged (upsert_automation_supervisor_state env now (stalled_state env now s)) st) ?st3 ?stale"
    unfolding st'_def recover_stale_in_progress_tasks_def l Let_def using ne by simp
  have mem: "(t, s) \<in> set ?stale"
    unfolding stale_tasks_def by (rule map_filter_intro [OF assms(3)]) (use assms(5-7) in \<open>simp add: supervisor_for_def\<close>)
  then have "tk_id t \<in> (\<lambda>(t, _). tk_id t) ` set ?stale" by force
  then have q2: "queue_get (tk_id t) (ta_queue ?st2) = Some (recovered_task now t)"
    using queue_get_distinct [OF assms(4,3)] by (simp add: modify_all_get)
  have e: "recovered_task now t \<in> set ?es"
    by (rule map_filter_intro [OF mem]) (simp add: q2)
  have "row_there (tv_uuid env (tk_id (recovered_task now t))) (ta_db ?st2)"
    using assms(2,8) modify_all_frame [of now st ?stale] by (simp add: row_there_def)
  moreover have "text_ok (tv_text env)" using assms(1) by (simp add: task_env_ok_def)
  ultimately have f: "row_free (tv_uuid env (tk_id t)) (pending_json env) (ta_db ?st3)"
    using persist_all_frees [of env "recovered_task now t" ?es ?st2 now] e by simp
  show "queue_get (tk_id t) (ta_queue st') = Some (recovered_task now t)"
    unfolding st' foldl_supervisor_queue foldl_persist_queue by (rule q2)
  show "map tk_id (ta_queue st') = map tk_id (ta_queue st)"
    unfolding st' foldl_supervisor_queue foldl_persist_queue using modify_all_frame by blast
  show "row_free (tv_uuid env (tk_id t)) (pending_json env) (ta_db st')"
    unfolding st' by (rule foldl_supervisor_free [OF f])
qed

text \<open>The scan keeps the ids and cancels only expired reminders.\<close>

lemma scan_task_ids: "map tk_id (ds_queue (scan_task env cn tz ro now ds t)) = map tk_id (ds_queue ds)"
  by (auto simp: scan_task_def scan_schedule_def scan_expired_def Let_def queue_modify_ids split: option.splits)

lemma scan_ids: "map tk_id (ds_queue (scan_due env cn tz ro now q)) = map tk_id q"
proof -
  have "map tk_id (ds_queue (foldl (scan_task env cn tz ro now) ds ts)) = map tk_id (ds_queue ds)" for ds ts
    by (induction ts arbitrary: ds) (auto simp: scan_task_ids)
  then show ?thesis by (simp add: scan_due_def)
qed

lemma scan_task_expired:
  "set (ds_expired (scan_task env cn tz ro now ds t)) \<subseteq> set (ds_expired ds)
     \<union> (if one_shot_reminder_is_expired t now then {tv_uuid env (tk_id t)} \<times> UNIV else {})"
  by (auto simp: scan_task_def scan_schedule_def scan_expired_def Let_def split: option.splits if_splits dest: queue_get_id)

lemma scan_expired_ids:
  "set (ds_expired (scan_due env cn tz ro now q)) \<subseteq> {tv_uuid env (tk_id t) | t. t \<in> set q \<and> one_shot_reminder_is_expired t now} \<times> UNIV"
proof -
  have "set (ds_expired (foldl (scan_task env cn tz ro now) ds ts)) \<subseteq> set (ds_expired ds)
      \<union> {tv_uuid env (tk_id t) | t. t \<in> set ts \<and> one_shot_reminder_is_expired t now} \<times> UNIV" for ds ts
  proof (induction ts arbitrary: ds)
    case (Cons t ts)
    show ?case using Cons.IH [of "scan_task env cn tz ro now ds t"] scan_task_expired [of env cn tz ro now ds t]
      by (auto split: if_splits)
  qed simp
  then show ?thesis unfolding scan_due_def by fastforce
qed

lemma persist_scan_frame: "ta_queue (persist_scan env now ds st) = ta_queue st"
proof -
  have "ta_queue (foldl (\<lambda>st (i, cron, at). logged (update_task env now i None None cron at) st) st xs) = ta_queue st" for xs st
    by (induction xs arbitrary: st) auto
  moreover have "ta_queue (foldl (\<lambda>st (i, result). logged (update_task_status_and_result env now i (cancelled_json env) (Some result)) st) st xs)
      = ta_queue st" for xs st
    by (induction xs arbitrary: st) auto
  ultimately show ?thesis unfolding persist_scan_def Let_def by simp
qed

lemma persist_scan_free:
  assumes "row_free i p (ta_db st)" and "\<forall>(j, _) \<in> set (ds_expired ds). j \<noteq> i"
  shows "row_free i p (ta_db (persist_scan env now ds st))"
  unfolding persist_scan_def Let_def
  by (intro foldl_keeps [where P = "\<lambda>st. row_free i p (ta_db st)"])
    (use assms in \<open>auto simp: logged_db free_update_task intro!: free_status\<close>)

lemma claim_other:
  assumes "task_env_ok env" and "tk_id u \<noteq> i" and "row_free (tv_uuid env i) p (ta_db st)"
    and "plus_secs (tv_chrono env) now (claim_lease_secs (run_policy env dv u)) \<noteq> None"
  obtains c st' where "claim_due_task env dv owner now u st = (Inr c, st')" and "row_free (tv_uuid env i) p (ta_db st')"
    and "map tk_id (ta_queue st') = map tk_id (ta_queue st)"
proof -
  obtain expires where p: "plus_secs (tv_chrono env) now (claim_lease_secs (run_policy env dv u)) = Some expires"
    using assms(4) by blast
  let ?claim = "try_claim_task env now (tv_uuid env (tk_id u)) (pending_json env) (in_progress_json env) owner (to_rfc3339 (tv_chrono env) expires)"
  let ?f = "\<lambda>r. r\<lparr>tr_status := in_progress_json env, tr_updated_at := to_rfc3339 (tv_chrono env) now,
        tr_lease_owner := Some owner, tr_lease_expires_at := Some (to_rfc3339 (tv_chrono env) expires),
        tr_lease_version := tr_lease_version r + 1\<rparr>"
  let ?P = "claimable env now (tv_uuid env (tk_id u)) (pending_json env)"
  have q: "faults (ta_db st) = []" using assms(3) by (simp add: row_free_def)
  then have t: "?claim (ta_db st) = (Inr (\<exists>r \<in> set (tt_tasks (tables (ta_db st))). ?P r), (ta_db st)\<lparr>tables := change_rows ?P ?f (tables (ta_db st))\<rparr>)"
    by (simp add: try_claim_task_def)
  have ids: "tv_uuid env (tk_id u) \<noteq> tv_uuid env i" using assms(1,2) by (simp add: uuid_inj)
  have "tr_status r = p \<and> tr_lease_expires_at r = None"
    if r: "r \<in> set (tt_tasks (change_rows ?P ?f (tables (ta_db st))))" "tr_id r = tv_uuid env i" for r
  proof -
    obtain r0 where r0: "r0 \<in> set (tt_tasks (tables (ta_db st)))" "r = (if ?P r0 then ?f r0 else r0)"
      using change_rows_member [OF r(1)] by blast
    with r(2) ids have "\<not> ?P r0" by (auto simp: claimable_def)
    with r0 r(2) assms(3) show ?thesis by (auto simp: row_free_def)
  qed
  then have f: "row_free (tv_uuid env i) p ((ta_db st)\<lparr>tables := change_rows ?P ?f (tables (ta_db st))\<rparr>)"
    using assms(3) q by (simp add: row_free_def change_rows_id_set)
  show thesis
  proof (cases "\<exists>r \<in> set (tt_tasks (tables (ta_db st))). ?P r")
    case True
    then show thesis using that p t f
      by (simp add: claim_due_task_def on_db_def modify_task_def Let_def queue_modify_ids)
  next
    case False
    then show thesis using that p t f by (simp add: claim_due_task_def on_db_def)
  qed
qed

lemma claim_free:
  assumes "row_free (tv_uuid env (tk_id u)) (pending_json env) (ta_db st)" and "tk_id u \<in> tk_id ` set (ta_queue st)"
    and "plus_secs (tv_chrono env) now (claim_lease_secs (run_policy env dv u)) \<noteq> None"
  obtains t' st' where "claim_due_task env dv owner now u st = (Inr (Some t'), st')" and "tk_id t' = tk_id u"
proof -
  obtain expires where p: "plus_secs (tv_chrono env) now (claim_lease_secs (run_policy env dv u)) = Some expires"
    using assms(3) by blast
  have q: "faults (ta_db st) = []" and c: "\<exists>r \<in> set (tt_tasks (tables (ta_db st))). claimable env now (tv_uuid env (tk_id u)) (pending_json env) r"
    using assms(1) by (auto simp: row_free_def claimable_def)
  obtain d where t: "try_claim_task env now (tv_uuid env (tk_id u)) (pending_json env) (in_progress_json env) owner
      (to_rfc3339 (tv_chrono env) expires) (ta_db st) = (Inr True, d)"
    using q c by (simp add: try_claim_task_def)
  let ?q = "queue_modify (tk_id u) (\<lambda>e. e\<lparr>tk_status := InProgress\<rparr>) (ta_queue st)"
  have "queue_get (tk_id u) (ta_queue st) \<noteq> None" using assms(2) queue_get_None [of "tk_id u" "ta_queue st"] by auto
  then have "queue_get (tk_id u) ?q \<noteq> None" by (simp add: queue_get_modify)
  then obtain t' where t': "queue_get (tk_id u) ?q = Some t'" by blast
  with p t that show thesis
    by (simp add: claim_due_task_def on_db_def modify_task_def Let_def) (metis queue_get_id)
qed

text \<open>With a range of instants that holds every lease, no claim panics.\<close>

lemma lease_fits:
  assumes "chrono_ok ch" and "rfc_range now" and "rfc_range (now + secs (2 * 365 * 86400))" and "policy_ok p"
  shows "plus_secs ch now (claim_lease_secs p) \<noteq> None"
proof -
  have "0 \<le> claim_lease_secs p" "claim_lease_secs p \<le> 2 * 365 * 86400"
    using assms(4) by (auto simp: claim_lease_secs_def policy_ok_def u64_max_def)
  then have "0 \<le> secs (claim_lease_secs p)" "secs (claim_lease_secs p) \<le> secs (2 * 365 * 86400)"
    by (simp_all add: secs_def ns_per_sec_def)
  with assms(2,3) have "rfc_range (now + secs (claim_lease_secs p))" by (auto simp: rfc_range_def)
  with chrono_plus [OF assms(1,2)] show ?thesis by simp
qed

lemma run_policy_ok: "policy_ok (run_policy env dv t)"
  by (simp add: run_policy_def policy_from_arguments_def Let_def normalized_policy_ok)

lemma claim_all_takes:
  assumes "task_env_ok env" and "\<And>u. plus_secs (tv_chrono env) now (claim_lease_secs (run_policy env dv u)) \<noteq> None"
    and "row_free (tv_uuid env i) (pending_json env) (ta_db st)" and "i \<in> tk_id ` set (ta_queue st)" and "i \<in> tk_id ` set ts"
  shows "\<exists>due st'. claim_all env dv owner now ts st = (Inr due, st') \<and> i \<in> tk_id ` set due"
  using assms(3-5)
proof (induction ts arbitrary: st)
  case (Cons u ts)
  have total: "\<exists>due st'. claim_all env dv owner now ts st = (Inr due, st')" for st ts
  proof (induction ts arbitrary: st)
    case (Cons v vs)
    have "\<exists>c st1. claim_due_task env dv owner now v st = (Inr c, st1)"
      using assms(2) [of v] by (auto simp: claim_due_task_def Let_def split: option.splits prod.splits sum.splits)
    with Cons show ?case by (auto split: prod.splits sum.splits) (metis Inl_Inr_False old.prod.inject)+
  qed simp
  show ?case
  proof (cases "tk_id u = i")
    case True
    obtain t' st' where c: "claim_due_task env dv owner now u st = (Inr (Some t'), st')" "tk_id t' = tk_id u"
      by (rule claim_free [OF _ _ assms(2), where u = u and st = st]) (use Cons.prems True in auto)
    obtain due st2 where "claim_all env dv owner now ts st' = (Inr due, st2)" using total by blast
    with c True show ?thesis by simp
  next
    case False
    obtain c st' where c: "claim_due_task env dv owner now u st = (Inr c, st')"
      "row_free (tv_uuid env i) (pending_json env) (ta_db st')" "map tk_id (ta_queue st') = map tk_id (ta_queue st)"
      by (rule claim_other [OF assms(1) False Cons.prems(1) assms(2)])
    have "i \<in> tk_id ` set (ta_queue st')" using c(3) Cons.prems(2) by (metis set_map)
    with Cons.IH [OF c(2)] Cons.prems(3) False obtain due st2
      where "claim_all env dv owner now ts st' = (Inr due, st2)" "i \<in> tk_id ` set due" by auto
    with c(1) show ?thesis by (auto split: option.splits)
  qed
qed simp

lemma stale_task_taken:
  assumes "task_env_ok env" and "faults (ta_db st) = []" and "distinct (map tk_id (ta_queue st))" and "t \<in> set (ta_queue st)"
    and "tk_status t = InProgress" and "tv_uuid env (tk_id t) \<in> tr_id ` set (tt_tasks (tables (ta_db st)))"
    and "supervisor_for env (tables (ta_db st)) (tv_uuid env (tk_id t)) = Some s"
    and "ss_last_run_at s = Some last_text" and "parse_rfc3339 (tv_chrono env) last_text = Some began" and "began < now"
    and "ap_stall_timeout_secs (run_policy env dv t) = 0"
    and "rfc_range now" and "rfc_range (now + secs (2 * 365 * 86400))"
  shows "\<exists>due st'. take_due_tasks env dv cn tz owner False now st = (Inr due, st') \<and> (\<exists>t' \<in> set due. tk_id t' = tk_id t)"
proof -
  let ?st1 = "recover_stale_in_progress_tasks env dv now st"
  let ?ds = "scan_due env cn tz False now (ta_queue ?st1)"
  let ?st2 = "persist_scan env now ?ds (?st1\<lparr>ta_queue := ds_queue ?ds\<rparr>)"
  let ?u = "recovered_task now t"
  have ch: "chrono_ok (tv_chrono env)" using assms(1) by (simp add: task_env_ok_def)
  have stale: "run_is_stale env dv now s t"
    using assms(8-11) by (simp add: run_is_stale_def secs_def)
  note rec = recover_resets [OF assms(1,2,4,3,5,7) stale assms(6)]
  have u: "?u \<in> set (ta_queue ?st1)" using queue_get_id [OF rec(1)] by simp
  have lateness: "task_lateness ?u now = None" by (simp add: task_lateness_def recovered_task_def)
  have cand: "due_candidate False now ?u"
    by (simp add: due_candidate_def one_shot_reminder_is_expired_def lateness)
      (simp add: should_run_def recovered_task_def split: option.splits)
  have "tv_uuid env (tk_id x) \<noteq> tv_uuid env (tk_id t)"
    if x: "x \<in> set (ta_queue ?st1)" "one_shot_reminder_is_expired x now" for x
  proof
    assume "tv_uuid env (tk_id x) = tv_uuid env (tk_id t)"
    then have "tk_id x = tk_id ?u" using assms(1) by (simp add: uuid_inj)
    moreover have "distinct (map tk_id (ta_queue ?st1))" using rec(2) assms(3) by simp
    ultimately have "x = ?u" using x(1) u by (auto simp: distinct_map inj_on_def)
    with x(2) lateness show False by (simp add: one_shot_reminder_is_expired_def)
  qed
  then have ex: "\<forall>(j, _) \<in> set (ds_expired ?ds). j \<noteq> tv_uuid env (tk_id t)"
    using scan_expired_ids [of env cn tz False now "ta_queue ?st1"] by fastforce
  have free: "row_free (tv_uuid env (tk_id t)) (pending_json env) (ta_db ?st2)"
    by (rule persist_scan_free [OF _ ex]) (use rec(3) in simp)
  have "map tk_id (ta_queue ?st2) = map tk_id (ta_queue ?st1)" by (simp add: persist_scan_frame scan_ids)
  then have inq: "tk_id t \<in> tk_id ` set (ta_queue ?st2)" using u by (metis recovered_id image_eqI set_map)
  have "?u \<in> set (sort_by task_due_priority_cmp (ds_candidates ?ds))"
    using u cand by (simp add: sort_by_due scan_candidates)
  then have ts: "tk_id t \<in> tk_id ` set (sort_by task_due_priority_cmp (ds_candidates ?ds))" by (metis recovered_id imageI)
  have "plus_secs (tv_chrono env) now (claim_lease_secs (run_policy env dv v)) \<noteq> None" for v
    by (rule lease_fits [OF ch assms(12,13) run_policy_ok])
  from claim_all_takes [OF assms(1) this free inq ts, of owner] obtain due st'
    where "claim_all env dv owner now (sort_by task_due_priority_cmp (ds_candidates ?ds)) ?st2 = (Inr due, st')"
      and "tk_id t \<in> tk_id ` set due" by blast
  then show ?thesis unfolding take_due_tasks_def Let_def by fastforce
qed

text \<open>
  A running task is claimed again. When a task is in progress under a policy without a stall
  timeout (the default) and its last run began before now, the next round of the scheduler takes it for
  stale, makes it pending, and returns it as due once more, although nothing ended its run: it is
  executed a second time next to the first.
\<close>

theorem running_task_claimed_again:
  assumes "task_env_ok env" and "faults (ta_db st) = []" and "distinct (map tk_id (ta_queue st))" and "t \<in> set (ta_queue st)"
    and "tk_status t = InProgress" and "tv_uuid env (tk_id t) \<in> tr_id ` set (tt_tasks (tables (ta_db st)))"
    and "supervisor_for env (tables (ta_db st)) (tv_uuid env (tk_id t)) = Some s"
    and "ss_last_run_at s = Some last_text" and "parse_rfc3339 (tv_chrono env) last_text = Some began" and "began < now"
    and "ap_stall_timeout_secs (run_policy env dv t) = 0"
    and "rfc_range now" and "rfc_range (now + secs (2 * 365 * 86400))"
  shows "\<exists>due st'. take_due_tasks env dv cn tz owner False now st = (Inr due, st') \<and> (\<exists>t' \<in> set due. tk_id t' = tk_id t)"
  by (rule stale_task_taken [OF assms])

section \<open>Closed examples\<close>

lemma sample_task_env_ok: "task_env_ok sample_task_env"
proof -
  have s: "map_option untuple_supervisor (num_read (num_write (supervisor_tuple s))) = Some s" for s
    by (simp only: num_read_write option.map untuple_supervisor_tuple)
  have u: "map_option of_nat (read_nat (show_nat (unat u))) = Some u" for u :: uuid by simp
  show ?thesis
    by (simp add: task_env_ok_def sample_task_env_def plain_text_ok decimal_chrono_ok s u del: map_option_eq_Some)
qed

definition sample_running :: task where
  "sample_running = (task_new 1 0 ''d'' ''send_mail'' (JObj []))\<lparr>tk_status := InProgress\<rparr>"

definition sample_supervisor :: supervisor_state where
  "sample_supervisor = \<lparr>ss_automation_id = show_nat 1, ss_automation_kind = ''task'', ss_title = [], ss_action = [], ss_status = ''running'',
     ss_attempt_count = 1, ss_consecutive_failures = 0, ss_last_run_id = None, ss_last_run_at = Some (show_int 5),
     ss_last_success_at = None, ss_last_error = None, ss_next_retry_at = None, ss_stalled_count = 0,
     ss_origin = origin_default, ss_created_at = None\<rparr>"

definition sample_state :: "task \<Rightarrow> task_state" where
  "sample_state t = \<lparr>ta_queue = [t], ta_db = \<lparr>tables = \<lparr>
     tt_tasks = [sample_row\<lparr>tr_id := show_nat 1, tr_status := pending_json sample_task_env\<rparr>],
     tt_supervisors = [\<lparr>sv_automation_id = show_nat 1, sv_updated_at = show_int 5,
        sv_payload = num_write (supervisor_tuple sample_supervisor), sv_next_retry_at = None, sv_last_run_id = None,
        sv_consecutive_failures = 0\<rparr>]\<rparr>, faults = []\<rparr>\<rparr>"

lemma sample_supervisor_for:
  "supervisor_for sample_task_env (tables (ta_db (sample_state t))) (show_nat 1) = Some sample_supervisor"
proof -
  have nb: "\<not> base64_char CHR ''{''" "\<not> is_ws CHR ''{''" by code_simp+
  have d: "decrypt_storage_string plain_text_env (num_write x) = num_write x" for x :: "'a::countable"
    by (rule storage_string_roundtrip [OF plain_text_ok num_write_brace nb]) simp
  have r: "tv_read_supervisor sample_task_env (decrypt_storage_string (tv_text sample_task_env)
      (num_write (supervisor_tuple sample_supervisor))) = Some sample_supervisor"
    by (simp only: sample_task_env_def task_env.simps d num_read_write option.map untuple_supervisor_tuple)
  have "ss_automation_id sample_supervisor = show_nat 1" by (simp add: sample_supervisor_def)
  with r show ?thesis
    by (simp add: supervisor_for_def sample_state_def order_by_desc_def List.map_filter_simps)
qed

lemma default_stall: "ap_stall_timeout_secs (run_policy env (\<lambda>_. validation_default) (t\<lparr>tk_arguments := JObj []\<rparr>)) = 0"
  by (simp add: run_policy_def policy_from_arguments_def meta_field_def Let_def execution_policy_default_def
      validation_default_def validation_is_unset_def execution_policy_normalized_def)

lemma sample_running_fits:
  "ap_stall_timeout_secs (run_policy sample_task_env (\<lambda>_. validation_default) sample_running) = 0"
  "tv_uuid sample_task_env 1 = show_nat 1" "tk_id sample_running = 1"
  "tk_status sample_running = InProgress" "sample_running \<in> set (ta_queue (sample_state sample_running))"
  "distinct (map tk_id (ta_queue (sample_state sample_running)))" "faults (ta_db (sample_state sample_running)) = []"
  "show_nat 1 \<in> tr_id ` set (tt_tasks (tables (ta_db (sample_state sample_running))))"
  "ss_last_run_at sample_supervisor = Some (show_int 5)" "parse_rfc3339 (tv_chrono sample_task_env) (show_int 5) = Some 5"
  "rfc_range 6" "rfc_range (6 + secs 63072000)"
  using default_stall [of sample_task_env sample_running]
  by (simp_all add: sample_state_def sample_running_def task_new_def sample_supervisor_def rfc_range_num
      secs_def ns_per_sec_def sample_task_env_def)

theorem running_task_claimed_again_witness:
  "\<exists>due st'. take_due_tasks sample_task_env (\<lambda>_. validation_default) (\<lambda>_ _. None) None ''w'' False 6 (sample_state sample_running) = (Inr due, st')
    \<and> (\<exists>t' \<in> set due. tk_id t' = tk_id sample_running)"
  by (rule running_task_claimed_again [OF sample_task_env_ok, where t = sample_running and s = sample_supervisor
        and last_text = "show_int 5" and began = 5]) (simp_all add: sample_running_fits sample_supervisor_for del: One_nat_def)

theorem take_due_sound_witness:
  "\<exists>due st' t'. take_due_tasks sample_task_env (\<lambda>_. validation_default) (\<lambda>_ _. None) None ''w'' False 6 (sample_state sample_running) = (Inr due, st')
    \<and> t' \<in> set due \<and> tk_status t' = InProgress
    \<and> claimed_in_round sample_task_env ''w'' 6 (tt_tasks (tables (ta_db (before_claims sample_task_env
          (\<lambda>_. validation_default) (\<lambda>_ _. None) None False 6 (sample_state sample_running)))))
        (tt_tasks (tables (ta_db st'))) (tv_uuid sample_task_env (tk_id t'))"
proof -
  have taken: "\<exists>due st'. take_due_tasks sample_task_env (\<lambda>_. validation_default) (\<lambda>_ _. None) None ''w'' False 6 (sample_state sample_running)
      = (Inr due, st') \<and> (\<exists>t' \<in> set due. tk_id t' = tk_id sample_running)"
    by (rule stale_task_taken [OF sample_task_env_ok, where t = sample_running and s = sample_supervisor
          and last_text = "show_int 5" and began = 5]) (simp_all add: sample_running_fits sample_supervisor_for del: One_nat_def)
  obtain due st' t' where d: "take_due_tasks sample_task_env (\<lambda>_. validation_default) (\<lambda>_ _. None) None ''w'' False 6 (sample_state sample_running) = (Inr due, st')"
    and t: "t' \<in> set due"
    using taken by blast
  have "pending_json sample_task_env \<noteq> in_progress_json sample_task_env"
    using status_json_inj [OF sample_task_env_ok] unfolding pending_json_def in_progress_json_def by fastforce
  from take_due_sound [OF d this] t d show ?thesis by blast
qed

theorem finalize_effect_witness:
  "\<exists>r st'. finalize_task sample_task_env (\<lambda>_ _. None) None 9 1 Completed (Some ''ok'') (sample_state sample_running) = (r, st')
    \<and> queue_get 1 (ta_queue st') = Some (sample_running\<lparr>tk_status := Completed, tk_result := Some ''ok''\<rparr>)"
proof -
  obtain r st' where f: "finalize_task sample_task_env (\<lambda>_ _. None) None 9 1 Completed (Some ''ok'') (sample_state sample_running) = (r, st')"
    by fastforce
  have g: "queue_get 1 (ta_queue (sample_state sample_running)) = Some sample_running"
    by (simp add: sample_state_def sample_running_def task_new_def)
  from finalize_effect [OF f g] f show ?thesis by (auto simp: sample_running_def task_new_def)
qed

end
