(* ===== verification/Action_Def.thy ===== *)
theory Action_Def
  imports Automation_Runs
begin

text \<open>
  Actions as the runtime knows them (\<open>actions/mod.rs\<close>): the definition of an action with its
  authorization policy, the metadata derived from its name and capabilities, the decision of an
  authorization, and the structured errors of actions with the text they are printed to and read from.
  The caller's side (\<open>ActionAuthorizationContext\<close>, the principal and the surface) is in
  \<open>Automation_Runs\<close>. Prefixes: \<open>ad_\<close> (\<open>ActionDef\<close>), \<open>az_\<close> (\<open>ActionAuthorization\<close>),
  \<open>am_\<close> (\<open>ActionAccessMetadata\<close>), \<open>mt_\<close> (\<open>ActionMetadata\<close>), \<open>de_\<close> (decision).
\<close>

section \<open>Definitions of actions\<close>

datatype action_role = Trigger | Delivery | DataSource | Mutation | Inspection | Orchestration | UnknownRole

datatype tool_role = DirectOutcome | SupportDocumentation | SupportSchemaInspection | SupportGenericExecutor

datatype integration_class = ClassInternal | ClassMessaging | ClassWorkspace | ClassSearch | ClassBrowser | ClassFilesystem
  | ClassApp | ClassCode | ClassNetwork | ClassCommerce | ClassAnalytics | ClassMedia | ClassUnknown

datatype action_cost_tier = CostLow | CostMedium | CostHigh

datatype side_effect_level = EffectNone | EffectNotify | EffectWrite

datatype delivery_mode = Immediate | Async | Conditional | Either

datatype orchestration_kind = OrchestrationNone | MultiAgent

datatype risk_level = RiskNone | RiskLow | RiskMedium | RiskHigh | RiskCritical

datatype sandbox_mode = Native | Wasm | Docker

datatype action_source = SystemSource | Bundled | Custom

record rate_limit =
  rl_max_calls :: nat
  rl_window_seconds :: nat

record human_approval =
  ha_required :: bool

record egress_policy =
  eg_read_only :: bool
  eg_outbound_write :: bool
  eg_public_publish :: bool

record channel_target =
  ct_argument_key :: string
  ct_default_target :: string

record access_metadata =
  am_permission_ids :: "string list"
  am_integration_ids :: "string list"
  am_extension_pack_ids :: "string list"
  am_integration_features :: "(string \<times> string list) list"
  am_requires_ssh_connection :: bool
  am_channel_targets :: "channel_target list"

record action_policy =
  az_risk_level :: risk_level
  az_access :: access_metadata
  az_requires_auth :: bool
  az_allowed_roles :: "string list"
  az_rate_limit :: "rate_limit option"
  az_human_approval :: human_approval
  az_outbound :: egress_policy

definition access_default :: access_metadata where
  "access_default = \<lparr>am_permission_ids = [], am_integration_ids = [], am_extension_pack_ids = [], am_integration_features = [],
     am_requires_ssh_connection = False, am_channel_targets = []\<rparr>"

definition policy_default :: action_policy where
  "policy_default = \<lparr>az_risk_level = RiskNone, az_access = access_default, az_requires_auth = False, az_allowed_roles = [],
     az_rate_limit = None, az_human_approval = \<lparr>ha_required = False\<rparr>,
     az_outbound = \<lparr>eg_read_only = False, eg_outbound_write = False, eg_public_publish = False\<rparr>\<rparr>"

record action_def =
  ad_name :: string
  ad_description :: string
  ad_version :: string
  ad_input_schema :: json
  ad_capabilities :: "string list"
  ad_sandbox_mode :: "sandbox_mode option"
  ad_source :: action_source
  ad_file_path :: "string option"
  ad_authorization :: action_policy

definition action_default :: action_def where
  "action_default = \<lparr>ad_name = [], ad_description = [], ad_version = ''1.0.0'', ad_input_schema = JObj [], ad_capabilities = [],
     ad_sandbox_mode = None, ad_source = SystemSource, ad_file_path = None, ad_authorization = policy_default\<rparr>"

section \<open>Metadata\<close>

record action_metadata =
  mt_role :: action_role
  mt_tool_role :: tool_role
  mt_requires_auth :: bool
  mt_integration_class :: integration_class
  mt_cost :: action_cost_tier
  mt_side_effect_level :: side_effect_level
  mt_delivery_mode :: delivery_mode
  mt_orchestration_kind :: orchestration_kind

definition metadata_default :: action_metadata where
  "metadata_default = \<lparr>mt_role = UnknownRole, mt_tool_role = DirectOutcome, mt_requires_auth = False,
     mt_integration_class = ClassUnknown, mt_cost = CostMedium, mt_side_effect_level = EffectNone,
     mt_delivery_mode = Immediate, mt_orchestration_kind = OrchestrationNone\<rparr>"

definition infer_delivery_mode :: "string set \<Rightarrow> delivery_mode" where
  "infer_delivery_mode caps = (if ''scheduler'' \<in> caps then Async else if ''watcher'' \<in> caps then Conditional else Immediate)"

definition metadata_by_name :: "string \<Rightarrow> action_metadata \<Rightarrow> action_metadata option" where
  "metadata_by_name name m =
    (if name = ''current_time'' then
       Some (m\<lparr>mt_role := Trigger, mt_integration_class := ClassInternal, mt_cost := CostLow\<rparr>)
     else if name = ''notify_user'' then
       Some (m\<lparr>mt_role := Delivery, mt_integration_class := ClassInternal, mt_cost := CostLow, mt_side_effect_level := EffectNotify\<rparr>)
     else if name \<in> {''work_manage'', ''watch'', ''schedule_task'', ''delegate'', ''watcher_delete''} then
       Some ((if name = ''delegate'' then (\<lambda>m. m\<lparr>mt_orchestration_kind := MultiAgent\<rparr>) else (\<lambda>m. m))
         (m\<lparr>mt_role := Orchestration, mt_integration_class := ClassInternal, mt_cost := CostLow, mt_side_effect_level := EffectWrite\<rparr>))
     else if name = ''gmail_scan'' then
       Some (m\<lparr>mt_role := DataSource, mt_requires_auth := True, mt_integration_class := ClassWorkspace\<rparr>)
     else if name = ''gmail_reply'' then
       Some (m\<lparr>mt_role := Delivery, mt_requires_auth := True, mt_integration_class := ClassWorkspace, mt_side_effect_level := EffectNotify\<rparr>)
     else if name \<in> {''calendar_today'', ''calendar_list'', ''calendar_free''} then
       Some (m\<lparr>mt_role := DataSource, mt_requires_auth := True, mt_integration_class := ClassWorkspace\<rparr>)
     else if name = ''calendar_create'' then
       Some (m\<lparr>mt_role := Mutation, mt_requires_auth := True, mt_integration_class := ClassWorkspace, mt_side_effect_level := EffectWrite\<rparr>)
     else if name \<in> {''web_search'', ''research'', ''page_fetch''} then
       Some (m\<lparr>mt_role := DataSource, mt_integration_class := ClassSearch,
         mt_cost := (if name = ''research'' then CostHigh else CostMedium)\<rparr>)
     else if name = ''http_get'' then
       Some (m\<lparr>mt_role := DataSource, mt_integration_class := ClassNetwork, mt_cost := CostLow\<rparr>)
     else if name \<in> {''browser_auto'', ''browser_profile_manage''} then
       Some (m\<lparr>mt_role := Mutation, mt_integration_class := ClassBrowser, mt_cost := CostHigh, mt_side_effect_level := EffectWrite\<rparr>)
     else if name = ''home_assistant'' then
       Some (m\<lparr>mt_role := DataSource, mt_requires_auth := True, mt_integration_class := ClassNetwork, mt_cost := CostLow\<rparr>)
     else if name = ''home_assistant_call_service'' then
       Some (m\<lparr>mt_role := Mutation, mt_requires_auth := True, mt_integration_class := ClassNetwork, mt_cost := CostMedium,
         mt_side_effect_level := EffectWrite\<rparr>)
     else if name = ''capability_resolve'' then
       Some (m\<lparr>mt_role := Inspection, mt_integration_class := ClassInternal, mt_cost := CostLow\<rparr>)
     else if name \<in> {''capability_acquire'', ''manage_actions''} then
       Some (m\<lparr>mt_role := Mutation, mt_integration_class := ClassInternal, mt_cost := CostMedium, mt_side_effect_level := EffectWrite\<rparr>)
     else if name = ''http_request'' then
       Some (m\<lparr>mt_role := Mutation, mt_integration_class := ClassNetwork, mt_cost := CostMedium, mt_side_effect_level := EffectWrite\<rparr>)
     else if name \<in> {''file_read'', ''list_tasks'', ''list_watchers'', ''list_integrations'', ''integration_catalog_list'',
         ''integration_catalog_describe'', ''integration_catalog_status'', ''ark_inspect'', ''postgres_schema_inspect'',
         ''postgres_query_readonly''} then
       Some (m\<lparr>mt_role := Inspection,
         mt_integration_class := (if name = ''file_read'' then ClassFilesystem
           else if name = ''postgres_schema_inspect'' \<or> name = ''postgres_query_readonly'' then ClassAnalytics else ClassInternal),
         mt_cost := CostLow\<rparr>)
     else if name = ''file_write'' then
       Some (m\<lparr>mt_role := Mutation, mt_integration_class := ClassFilesystem, mt_cost := CostLow, mt_side_effect_level := EffectWrite\<rparr>)
     else if name \<in> {''service_manage'', ''app_deploy'', ''app_restart'', ''app_stop'', ''app_delete''} then
       Some (m\<lparr>mt_role := Mutation, mt_integration_class := ClassApp, mt_cost := CostMedium, mt_side_effect_level := EffectWrite\<rparr>)
     else if name \<in> {''shell'', ''code_execute''} then
       Some (m\<lparr>mt_role := Mutation, mt_integration_class := ClassCode, mt_cost := CostHigh, mt_side_effect_level := EffectWrite\<rparr>)
     else None)"

text \<open>The early returns on capabilities, in the order of the code, in two halves.\<close>

definition metadata_by_role_capability :: "action_def \<Rightarrow> string set \<Rightarrow> action_metadata \<Rightarrow> action_metadata option" where
  "metadata_by_role_capability a caps m =
    (if ''watcher'' \<in> caps \<or> ''scheduler'' \<in> caps \<or> ''orchestration'' \<in> caps then
       Some (m\<lparr>mt_role := Orchestration, mt_integration_class := ClassInternal, mt_cost := CostLow, mt_side_effect_level := EffectWrite\<rparr>)
     else if ''extension_pack_lifecycle'' \<in> caps then
       Some ((if ''integration_admin'' \<in> caps \<or> ''integration_runtime_lifecycle'' \<in> caps
           then (\<lambda>m. m\<lparr>mt_side_effect_level := EffectWrite\<rparr>) else (\<lambda>m. m))
         (m\<lparr>mt_role := (if ''integration_inventory'' \<in> caps then Inspection else Mutation),
            mt_tool_role := SupportGenericExecutor, mt_integration_class := ClassInternal, mt_cost := CostMedium\<rparr>))
     else if ''agentark_capabilities'' \<in> caps \<or> ''agentark_manual'' \<in> caps then
       Some (m\<lparr>mt_role := Inspection, mt_tool_role := SupportDocumentation, mt_integration_class := ClassInternal, mt_cost := CostLow\<rparr>)
     else if ''capability_inventory'' \<in> caps \<or> ''watcher_inventory'' \<in> caps \<or> ''integration_inventory'' \<in> caps
         \<or> ''app_registry'' \<in> caps \<or> ''app_inventory'' \<in> caps \<or> ''platform_observability'' \<in> caps
         \<or> ''database_readonly'' \<in> caps \<or> ''session_history'' \<in> caps \<or> ''memory'' \<in> caps \<or> ''documents'' \<in> caps then
       Some (m\<lparr>mt_role := Inspection,
         mt_integration_class := (if ''database_readonly'' \<in> caps then ClassAnalytics else ClassInternal), mt_cost := CostLow\<rparr>)
     else if ''skill_management'' \<in> caps \<or> ''integration_builder'' \<in> caps \<or> ''integration_admin'' \<in> caps then
       Some (m\<lparr>mt_role := Mutation, mt_integration_class := ClassInternal, mt_cost := CostMedium, mt_side_effect_level := EffectWrite\<rparr>)
     else if ''notify'' \<in> caps then
       Some (m\<lparr>mt_role := Delivery, mt_integration_class := ClassInternal, mt_side_effect_level := EffectNotify\<rparr>)
     else if ''tool_documentation'' \<in> caps \<or> ''schema_inspection'' \<in> caps then
       Some (m\<lparr>mt_role := Inspection,
         mt_tool_role := (if ''schema_inspection'' \<in> caps then SupportSchemaInspection else SupportDocumentation),
         mt_integration_class := (if ''google_workspace'' \<in> caps then ClassWorkspace else ClassInternal), mt_cost := CostLow\<rparr>)
     else if ''generic_tool_executor'' \<in> caps then
       Some (m\<lparr>mt_role := Orchestration, mt_tool_role := SupportGenericExecutor,
         mt_integration_class := (if ''google_workspace'' \<in> caps then ClassWorkspace else ClassInternal),
         mt_cost := CostMedium, mt_requires_auth := az_requires_auth (ad_authorization a)\<rparr>)
     else if ''gmail'' \<in> caps \<or> ''google_workspace'' \<in> caps then
       Some (m\<lparr>mt_role := DataSource, mt_integration_class := ClassWorkspace\<rparr>)
     else if ''search'' \<in> caps \<or> ''research'' \<in> caps then
       Some (m\<lparr>mt_role := DataSource, mt_integration_class := ClassSearch\<rparr>)
     else None)"

definition metadata_by_tool_capability :: "action_def \<Rightarrow> string set \<Rightarrow> action_metadata \<Rightarrow> action_metadata option" where
  "metadata_by_tool_capability a caps m =
    (if ''custom_api'' \<in> caps then
       Some ((if ''external_write'' \<in> caps then (\<lambda>m. m\<lparr>mt_side_effect_level := EffectWrite\<rparr>) else (\<lambda>m. m))
         (m\<lparr>mt_role := (if ''external_write'' \<in> caps then Mutation else DataSource),
            mt_requires_auth := az_requires_auth (ad_authorization a), mt_integration_class := ClassNetwork, mt_cost := CostLow\<rparr>))
     else if ''vision_ocr'' \<in> caps \<or> ''image_generation'' \<in> caps \<or> ''pdf_generation'' \<in> caps \<or> ''document_generation'' \<in> caps then
       Some ((if ''pdf_generation'' \<in> caps \<or> ''document_generation'' \<in> caps
           then (\<lambda>m. m\<lparr>mt_role := Mutation, mt_side_effect_level := EffectWrite\<rparr>) else (\<lambda>m. m))
         (m\<lparr>mt_role := DataSource, mt_integration_class := ClassMedia, mt_cost := CostMedium\<rparr>))
     else if ''browser'' \<in> caps then
       Some (m\<lparr>mt_role := Mutation, mt_integration_class := ClassBrowser, mt_cost := CostHigh, mt_side_effect_level := EffectWrite\<rparr>)
     else if ''app_hosting'' \<in> caps then
       Some (m\<lparr>mt_role := Mutation, mt_integration_class := ClassApp, mt_cost := CostMedium, mt_side_effect_level := EffectWrite\<rparr>)
     else if ''file_read'' \<in> caps then
       Some (m\<lparr>mt_role := Inspection, mt_integration_class := ClassFilesystem, mt_cost := CostLow\<rparr>)
     else if ''file_write'' \<in> caps then
       Some (m\<lparr>mt_role := Mutation, mt_integration_class := ClassFilesystem, mt_cost := CostLow, mt_side_effect_level := EffectWrite\<rparr>)
     else if ''shell'' \<in> caps \<or> ''code_execute'' \<in> caps \<or> ''local_cli'' \<in> caps then
       Some (m\<lparr>mt_role := Mutation, mt_integration_class := ClassCode, mt_cost := CostHigh, mt_side_effect_level := EffectWrite\<rparr>)
     else if ''ssh'' \<in> caps then
       Some (m\<lparr>mt_role := Mutation, mt_integration_class := ClassNetwork, mt_cost := CostHigh, mt_side_effect_level := EffectWrite\<rparr>)
     else if ''local_network_discovery'' \<in> caps then
       Some (m\<lparr>mt_role := DataSource, mt_integration_class := ClassNetwork, mt_cost := CostMedium\<rparr>)
     else if ''network'' \<in> caps then
       Some (m\<lparr>mt_role := DataSource, mt_integration_class := ClassNetwork, mt_cost := CostMedium\<rparr>)
     else if ''analytics'' \<in> caps then
       Some (m\<lparr>mt_role := DataSource, mt_integration_class := ClassAnalytics\<rparr>)
     else if ''image_generation'' \<in> caps \<or> ''video_generation'' \<in> caps then
       Some (m\<lparr>mt_role := Mutation, mt_integration_class := ClassMedia, mt_cost := CostHigh, mt_side_effect_level := EffectWrite\<rparr>)
     else None)"

definition action_metadata_for_action :: "action_def \<Rightarrow> action_metadata" where
  "action_metadata_for_action a =
    (let name = ascii_lower (trim (ad_name a));
         caps = set (map (\<lambda>c. ascii_lower (trim c)) (ad_capabilities a));
         m = metadata_default\<lparr>mt_requires_auth := az_requires_auth (ad_authorization a), mt_delivery_mode := infer_delivery_mode caps\<rparr>
     in case metadata_by_name name m of
          Some r \<Rightarrow> r
        | None \<Rightarrow> (case metadata_by_role_capability a caps m of
            Some r \<Rightarrow> r
          | None \<Rightarrow> (case metadata_by_tool_capability a caps m of Some r \<Rightarrow> r | None \<Rightarrow> m)))"

section \<open>Decisions\<close>

record authorization_decision =
  de_allowed :: bool
  de_requires_explicit_approval :: bool
  de_reason :: string
  de_matched_role :: "string option"
  de_rate_limit_key :: "string option"

definition allow :: "string \<Rightarrow> authorization_decision" where
  "allow reason = \<lparr>de_allowed = True, de_requires_explicit_approval = False, de_reason = reason,
     de_matched_role = None, de_rate_limit_key = None\<rparr>"

definition deny :: "string \<Rightarrow> authorization_decision" where
  "deny reason = \<lparr>de_allowed = False, de_requires_explicit_approval = False, de_reason = reason,
     de_matched_role = None, de_rate_limit_key = None\<rparr>"

definition require_explicit_approval :: "string \<Rightarrow> authorization_decision" where
  "require_explicit_approval reason = \<lparr>de_allowed = False, de_requires_explicit_approval = True, de_reason = reason,
     de_matched_role = None, de_rate_limit_key = None\<rparr>"

definition surface_key :: "execution_surface \<Rightarrow> string" where
  "surface_key s = (case s of ChatSurface \<Rightarrow> ''chat'' | ApiSurface \<Rightarrow> ''api'' | AutomationSurface \<Rightarrow> ''automation''
     | BackgroundSurface \<Rightarrow> ''background'' | TestSurface \<Rightarrow> ''test'' | InternalSurface \<Rightarrow> ''internal'')"

lemma decision_simps [simp]:
  "de_allowed (allow r)" "\<not> de_allowed (deny r)" "\<not> de_allowed (require_explicit_approval r)"
  "de_matched_role (allow r) = None"
  by (simp_all add: allow_def deny_def require_explicit_approval_def)

end
