(* ===== verification/Action_Error.thy ===== *)
theory Action_Error
  imports Action_Def
begin

text \<open>
  Structured errors of actions (\<open>actions/mod.rs\<close>): the domain and the reason with their keys,
  the text an error is printed to (\<open>ERR/domain/reason: message\<close>), its parser, and the envelope
  handed to the model. An error built by \<open>ActionError::new\<close> survives its text.
\<close>

datatype error_domain = DomainAction | DomainAuth | DomainIntegration | DomainChannel | DomainApp | DomainSearch
  | DomainScheduler | DomainWatcher

datatype error_reason = MissingInput | InvalidInput | NotFound | NotConnected | Unavailable | PermissionDenied
  | Ambiguous | RateLimited | Timeout | FailedReason | BundleNotGranted | ApprovalRequired

fun domain_key :: "error_domain \<Rightarrow> string" where
  "domain_key DomainAction = ''action''"
| "domain_key DomainAuth = ''auth''"
| "domain_key DomainIntegration = ''integration''"
| "domain_key DomainChannel = ''channel''"
| "domain_key DomainApp = ''app''"
| "domain_key DomainSearch = ''search''"
| "domain_key DomainScheduler = ''scheduler''"
| "domain_key DomainWatcher = ''watcher''"

definition domain_from_str :: "string \<Rightarrow> error_domain option" where
  "domain_from_str s = (let v = trim s in
     if v = ''action'' then Some DomainAction
     else if v = ''auth'' then Some DomainAuth
     else if v = ''integration'' then Some DomainIntegration
     else if v = ''channel'' then Some DomainChannel
     else if v = ''app'' then Some DomainApp
     else if v = ''search'' then Some DomainSearch
     else if v = ''scheduler'' then Some DomainScheduler
     else if v = ''watcher'' then Some DomainWatcher
     else None)"

fun reason_key :: "error_reason \<Rightarrow> string" where
  "reason_key MissingInput = ''missing_input''"
| "reason_key InvalidInput = ''invalid_input''"
| "reason_key NotFound = ''not_found''"
| "reason_key NotConnected = ''not_connected''"
| "reason_key Unavailable = ''unavailable''"
| "reason_key PermissionDenied = ''permission_denied''"
| "reason_key Ambiguous = ''ambiguous''"
| "reason_key RateLimited = ''rate_limited''"
| "reason_key Timeout = ''timeout''"
| "reason_key FailedReason = ''failed''"
| "reason_key BundleNotGranted = ''bundle_not_granted''"
| "reason_key ApprovalRequired = ''approval_required''"

definition reason_from_str :: "string \<Rightarrow> error_reason option" where
  "reason_from_str s = (let v = trim s in
     if v = ''missing_input'' then Some MissingInput
     else if v = ''invalid_input'' then Some InvalidInput
     else if v = ''not_found'' then Some NotFound
     else if v = ''not_connected'' then Some NotConnected
     else if v = ''unavailable'' then Some Unavailable
     else if v = ''permission_denied'' then Some PermissionDenied
     else if v = ''ambiguous'' then Some Ambiguous
     else if v = ''rate_limited'' then Some RateLimited
     else if v = ''timeout'' then Some Timeout
     else if v = ''failed'' then Some FailedReason
     else if v = ''bundle_not_granted'' then Some BundleNotGranted
     else if v = ''approval_required'' then Some ApprovalRequired
     else None)"

record action_error =
  er_domain :: error_domain
  er_reason :: error_reason
  er_message :: string

definition error_new :: "error_domain \<Rightarrow> error_reason \<Rightarrow> string \<Rightarrow> action_error" where
  "error_new domain reason message = \<lparr>er_domain = domain, er_reason = reason,
     er_message = (if trim message = [] then ''Action failed'' else trim message)\<rparr>"

definition error_code :: "action_error \<Rightarrow> string" where
  "error_code e = domain_key (er_domain e) @ ''_'' @ reason_key (er_reason e)"

definition err_prefix :: "action_error \<Rightarrow> string" where
  "err_prefix e = ''ERR/'' @ domain_key (er_domain e) @ ''/'' @ reason_key (er_reason e)"

definition error_text :: "action_error \<Rightarrow> string" where
  "error_text e = ''ERR/'' @ domain_key (er_domain e) @ ''/'' @ reason_key (er_reason e) @ '': '' @ er_message e"

definition default_remediation_for_reason :: "error_reason \<Rightarrow> json" where
  "default_remediation_for_reason r = JObj [(''type'', JStr (case r of
       NotConnected \<Rightarrow> ''reconnect''
     | BundleNotGranted \<Rightarrow> ''grant_bundle''
     | PermissionDenied \<Rightarrow> ''grant_permission''
     | ApprovalRequired \<Rightarrow> ''approve''
     | RateLimited \<Rightarrow> ''retry'' | Timeout \<Rightarrow> ''retry''
     | MissingInput \<Rightarrow> ''clarify'' | InvalidInput \<Rightarrow> ''clarify'' | Ambiguous \<Rightarrow> ''clarify''
     | NotFound \<Rightarrow> ''none'' | Unavailable \<Rightarrow> ''none'' | FailedReason \<Rightarrow> ''none''))]"

definition to_envelope_with_remediation :: "action_error \<Rightarrow> string \<Rightarrow> json \<Rightarrow> json" where
  "to_envelope_with_remediation e tool_name remediation = JObj
     [(''domain'', JStr (domain_key (er_domain e))), (''message'', JStr (er_message e)), (''reason'', JStr (reason_key (er_reason e))),
      (''remediation'', if remediation = JNull then default_remediation_for_reason (er_reason e) else remediation),
      (''status'', JStr ''error''), (''tool'', JStr tool_name)]"

definition to_envelope :: "action_error \<Rightarrow> string \<Rightarrow> json" where
  "to_envelope e tool_name = to_envelope_with_remediation e tool_name JNull"

definition structured_action_error_text :: "error_domain \<Rightarrow> error_reason \<Rightarrow> string \<Rightarrow> string" where
  "structured_action_error_text domain reason message = error_text (error_new domain reason message)"

definition action_error_domain_for_action_name :: "string \<Rightarrow> error_domain" where
  "action_error_domain_for_action_name action_name = (let name = ascii_lower (trim action_name) in
     if name = ''notify_user'' then DomainChannel
     else if name \<in> {''schedule_task'', ''work_manage''} then DomainScheduler
     else if name = ''watch'' then DomainWatcher
     else if name \<in> {''web_search'', ''research'', ''page_fetch''} then DomainSearch
     else if name \<in> {''service_manage'', ''app_deploy'', ''app_restart'', ''app_stop'', ''app_delete''} then DomainApp
     else if name \<in> {''gmail_scan'', ''gmail_reply'', ''calendar_today'', ''calendar_list'', ''calendar_create'', ''calendar_free'',
         ''connector_request'', ''http_request'', ''extension_pack_connect'', ''extension_pack_invoke''} then DomainIntegration
     else DomainAction)"

definition structured_action_error_text_for_action :: "string \<Rightarrow> error_reason \<Rightarrow> string \<Rightarrow> string" where
  "structured_action_error_text_for_action action_name reason message =
     structured_action_error_text (action_error_domain_for_action_name action_name) reason message"

definition is_structured_action_error_text :: "string \<Rightarrow> bool" where
  "is_structured_action_error_text message \<longleftrightarrow> prefix_of ''ERR/'' (trim_start message)"

definition parse_structured_action_error_text :: "string \<Rightarrow> action_error option" where
  "parse_structured_action_error_text message =
    (case strip_prefix ''ERR/'' (trim message) of None \<Rightarrow> None
     | Some rest \<Rightarrow> (case split_once CHR ''/'' rest of None \<Rightarrow> None
       | Some (domain, rest1) \<Rightarrow> (case split_once CHR '':'' rest1 of None \<Rightarrow> None
         | Some (reason, text) \<Rightarrow> (case (domain_from_str domain, reason_from_str reason) of
             (Some d, Some r) \<Rightarrow> Some (error_new d r text)
           | _ \<Rightarrow> None))))"

definition ensure_structured_action_error_text :: "string \<Rightarrow> string \<Rightarrow> string" where
  "ensure_structured_action_error_text action_name message =
    (if is_structured_action_error_text message then trim message
     else structured_action_error_text_for_action action_name FailedReason message)"

section \<open>The text of an error\<close>

lemma domain_key_plain: "CHR ''/'' \<notin> set (domain_key d)"
  by (cases d) simp_all

lemma reason_key_plain: "CHR '':'' \<notin> set (reason_key r)"
  by (cases r) simp_all

lemma domain_keys_read: "map (\<lambda>d. domain_from_str (domain_key d))
    [DomainAction, DomainAuth, DomainIntegration, DomainChannel, DomainApp, DomainSearch, DomainScheduler, DomainWatcher]
  = map Some [DomainAction, DomainAuth, DomainIntegration, DomainChannel, DomainApp, DomainSearch, DomainScheduler, DomainWatcher]"
  by code_simp

lemma domain_roundtrip [simp]: "domain_from_str (domain_key d) = Some d"
  using domain_keys_read by (cases d) simp_all

lemma reason_keys_read: "map (\<lambda>r. reason_from_str (reason_key r))
    [MissingInput, InvalidInput, NotFound, NotConnected, Unavailable, PermissionDenied, Ambiguous, RateLimited, Timeout,
     FailedReason, BundleNotGranted, ApprovalRequired]
  = map Some [MissingInput, InvalidInput, NotFound, NotConnected, Unavailable, PermissionDenied, Ambiguous, RateLimited, Timeout,
     FailedReason, BundleNotGranted, ApprovalRequired]"
  by code_simp

lemma reason_roundtrip [simp]: "reason_from_str (reason_key r) = Some r"
  using reason_keys_read by (cases r) simp_all

definition well_built :: "action_error \<Rightarrow> bool" where
  "well_built e \<longleftrightarrow> er_message e \<noteq> [] \<and> trim (er_message e) = er_message e"

lemma error_new_built: "well_built (error_new d r m)"
proof -
  have "trim ''Action failed'' = ''Action failed''" by code_simp
  then show ?thesis by (simp add: well_built_def error_new_def)
qed

lemma strip_error_text: "strip_prefix ''ERR/'' (''ERR/'' @ s) = Some s"
  by (simp add: strip_prefix_def)

lemma trim_error_text:
  assumes "well_built e"
  shows "trim (error_text e) = error_text e"
proof -
  have "\<not> is_ws CHR ''E''" by code_simp
  then have start: "trim_start (error_text e) = error_text e" by (simp add: error_text_def trim_start_def)
  have "er_message e \<noteq> []" "trim_end (er_message e) = er_message e"
    using assms trim_end_fix by (auto simp: well_built_def)
  then have "trim_end (p @ er_message e) = p @ er_message e" for p by (simp add: trim_end_append_text)
  then have "trim_end (error_text e) = error_text e"
    unfolding error_text_def append_assoc [symmetric] by blast
  with start show ?thesis by (simp add: trim_def)
qed

lemma parse_error_text:
  assumes "well_built e"
  shows "parse_structured_action_error_text (error_text e) = Some e"
proof -
  have t: "error_text e = ''ERR/'' @ domain_key (er_domain e) @ CHR ''/'' # reason_key (er_reason e) @ CHR '':'' # CHR '' '' # er_message e"
    by (simp add: error_text_def)
  have ws: "is_ws CHR '' ''" by code_simp
  then have "trim (CHR '' '' # er_message e) = er_message e"
    using assms by (simp add: trim_def trim_start_def well_built_def)
  then have "error_new (er_domain e) (er_reason e) (CHR '' '' # er_message e) = e"
    using assms by (simp add: error_new_def well_built_def)
  then show ?thesis
    unfolding parse_structured_action_error_text_def trim_error_text [OF assms]
    unfolding t strip_error_text option.case
      split_once_append [OF domain_key_plain] split_once_append [OF reason_key_plain] prod.case domain_roundtrip reason_roundtrip
    by simp
qed

text \<open>
  Errors survive their text. Every error the code builds is read back from the text it is printed to,
  and making an error text structured is idempotent: a second pass, for whatever action, leaves it alone.
\<close>

theorem error_text_roundtrip:
  "parse_structured_action_error_text (structured_action_error_text d r m) = Some (error_new d r m)
   \<and> ensure_structured_action_error_text a' (ensure_structured_action_error_text a m) = ensure_structured_action_error_text a m"
proof
  show "parse_structured_action_error_text (structured_action_error_text d r m) = Some (error_new d r m)"
    by (simp add: structured_action_error_text_def parse_error_text error_new_built)
  have st: "is_structured_action_error_text (error_text e)" for e
  proof -
    have "\<not> is_ws CHR ''E''" by code_simp
    then show ?thesis by (simp add: is_structured_action_error_text_def error_text_def trim_start_def)
  qed
  have "is_structured_action_error_text (trim m) = is_structured_action_error_text m" if "is_structured_action_error_text m"
  proof -
    have "trim_start (trim m) = trim m" by (metis trim_def trim_start_idem trim_start_trim_end)
    moreover have "prefix_of ''ERR/'' (trim_end s) " if "prefix_of ''ERR/'' s" for s
    proof -
      obtain u where s: "s = ''ERR/'' @ u" using \<open>prefix_of ''ERR/'' s\<close>
        by (cases s; cases "tl s"; cases "tl (tl s)"; cases "tl (tl (tl s))") auto
      have nw: "\<not> is_ws CHR ''/''" by code_simp
      have "\<exists>v. trim_end (''ERR/'' @ u) = ''ERR/'' @ v"
      proof (cases "trim_end u = []")
        case True
        then have "trim_end (''ERR/'' @ u) = ''ERR/''"
          using nw by (auto simp: trim_end_def dropWhile_append dropWhile_eq_Nil_conv)
        then show ?thesis by simp
      qed (use trim_end_append_text [of u "''ERR/''"] in auto)
      with s show ?thesis by auto
    qed
    ultimately show ?thesis using that by (simp add: is_structured_action_error_text_def trim_def)
  qed
  then show "ensure_structured_action_error_text a' (ensure_structured_action_error_text a m) = ensure_structured_action_error_text a m"
    using trim_error_text [OF error_new_built] st
    by (simp add: ensure_structured_action_error_text_def structured_action_error_text_for_action_def structured_action_error_text_def)
qed

end
