(* ===== verification/Permission_Model.thy ===== *)
theory Permission_Model
  imports Ark_Prelude
begin

text \<open>
  Permissions (\<open>security/guards/action_guard.rs\<close>, the third pillar): the known permissions, their
  names and aliases, their risk, and which of the requested ones still need an approval. A set of
  approvals is the list of its members, the map of approvals per action an association list.
\<close>

datatype permission = Network | FileRead | FileWrite | Shell | Clipboard | Scheduler | Gmail | CodeExecute
  | LocalNetworkDiscovery | ImageGeneration | Research | CustomPermission string

fun permission_text :: "permission \<Rightarrow> string" where
  "permission_text Network = ''network''"
| "permission_text FileRead = ''file_read''"
| "permission_text FileWrite = ''file_write''"
| "permission_text Shell = ''shell''"
| "permission_text Clipboard = ''clipboard''"
| "permission_text Scheduler = ''scheduler''"
| "permission_text Gmail = ''gmail''"
| "permission_text CodeExecute = ''code_execute''"
| "permission_text LocalNetworkDiscovery = ''local_network_discovery''"
| "permission_text ImageGeneration = ''image_generation''"
| "permission_text Research = ''research''"
| "permission_text (CustomPermission s) = s"

datatype permission_risk_level = Safe | Dangerous

record approved_permissions =
  pm_approvals :: "(string \<times> string list) list"
  pm_global_approvals :: "string list"

text \<open>\<open>str::to_lowercase\<close> on the characters below 256: the ASCII letters and the accented capitals.\<close>

definition unicode_lower_char :: "char \<Rightarrow> char" where
  "unicode_lower_char c = (let n = of_char c :: nat in
     if is_upper c \<or> 192 \<le> n \<and> n \<le> 222 \<and> n \<noteq> 215 then char_of (n + 32) else c)"

definition to_lowercase :: "string \<Rightarrow> string" where
  "to_lowercase = map unicode_lower_char"

definition parse_permission :: "string \<Rightarrow> permission" where
  "parse_permission s = (let v = to_lowercase (trim s) in
     if v = ''network'' then Network
     else if v \<in> {''file_read'', ''file-read'', ''fileread'', ''read''} then FileRead
     else if v \<in> {''file_write'', ''file-write'', ''filewrite'', ''write'', ''filesystem''} then FileWrite
     else if v \<in> {''shell'', ''bash'', ''command''} then Shell
     else if v = ''clipboard'' then Clipboard
     else if v \<in> {''scheduler'', ''schedule'', ''cron''} then Scheduler
     else if v \<in> {''gmail'', ''email''} then Gmail
     else if v \<in> {''code_execute'', ''code-execute'', ''code'', ''execute''} then CodeExecute
     else if v \<in> {''local_network_discovery'', ''local-network-discovery'', ''lan_discovery'', ''lan-discovery'',
         ''lan_discover'', ''lan-discover''} then LocalNetworkDiscovery
     else if v \<in> {''image_generation'', ''image-generation'', ''image''} then ImageGeneration
     else if v = ''research'' then Research
     else CustomPermission v)"

definition permission_risk :: "permission \<Rightarrow> permission_risk_level" where
  "permission_risk p = (case p of Network \<Rightarrow> Safe | Research \<Rightarrow> Safe | FileRead \<Rightarrow> Safe | ImageGeneration \<Rightarrow> Safe
     | _ \<Rightarrow> Dangerous)"

text \<open>The loop of \<open>permissions_from_capabilities\<close>, with the names seen so far.\<close>

fun first_permissions :: "string list \<Rightarrow> string list \<Rightarrow> permission list" where
  "first_permissions seen [] = []"
| "first_permissions seen (c # cs) = (let p = parse_permission c in
     if permission_text p \<in> set seen then first_permissions seen cs
     else p # first_permissions (permission_text p # seen) cs)"

definition permissions_from_capabilities :: "string list \<Rightarrow> permission list" where
  "permissions_from_capabilities capabilities = first_permissions [] capabilities"

definition check_permissions :: "approved_permissions \<Rightarrow> string \<Rightarrow> permission list \<Rightarrow> permission list" where
  "check_permissions approved action_name requested = filter (\<lambda>p.
     if permission_risk p = Safe then False
     else if permission_text p \<in> set (pm_global_approvals approved) then False
     else (case map_of (pm_approvals approved) action_name of
         Some ps \<Rightarrow> permission_text p \<notin> set ps
       | None \<Rightarrow> True)) requested"

section \<open>Names of permissions\<close>

lemma builtin_permissions_read:
  "map (\<lambda>p. parse_permission (permission_text p)) [Network, FileRead, FileWrite, Shell, Clipboard, Scheduler, Gmail, CodeExecute,
      LocalNetworkDiscovery, ImageGeneration, Research]
   = [Network, FileRead, FileWrite, Shell, Clipboard, Scheduler, Gmail, CodeExecute, LocalNetworkDiscovery, ImageGeneration, Research]"
  by code_simp

definition custom :: "permission \<Rightarrow> bool" where
  "custom p \<longleftrightarrow> (case p of CustomPermission _ \<Rightarrow> True | _ \<Rightarrow> False)"

lemma parse_permission_text: "\<not> custom p \<Longrightarrow> parse_permission (permission_text p) = p"
  using builtin_permissions_read by (cases p) (simp_all add: custom_def)

lemma custom_risk: "custom p \<Longrightarrow> permission_risk p = Dangerous"
  by (cases p) (simp_all add: custom_def permission_risk_def)

lemma first_permissions_set:
  "set (first_permissions seen cs) \<subseteq> parse_permission ` set cs
   \<and> permission_text ` set (first_permissions seen cs) = permission_text ` parse_permission ` set cs - set seen
   \<and> distinct (map permission_text (first_permissions seen cs))"
proof (induction cs arbitrary: seen)
  case (Cons c cs)
  show ?case
  proof (cases "permission_text (parse_permission c) \<in> set seen")
    case True
    then show ?thesis using Cons [of seen] by auto
  next
    case False
    then show ?thesis using Cons [of "permission_text (parse_permission c) # seen"] by (auto simp: Let_def)
  qed
qed simp

end
