(* ===== verification/Capability_Policy.thy ===== *)
theory Capability_Policy
  imports Action_Def Permission_Model "HOL-Library.Product_Lexorder"
begin

text \<open>
  The capability vocabulary and the policy over it (\<open>security/review/capabilities.rs\<close>): the
  observations an action's declarations give, the rules that match a set of observations, the report of
  one layer, the correlation of several actions of one run, and the bounded memory of a run.

  Sets of texts are lists. Scores are kept in tenths: \<open>risk_score_10\<close> is a multiple of a tenth, and
  the code's \<open>f32\<close> arithmetic (quarters up to 10, rounded to tenths) is exact until that last
  division. Prefixes: \<open>co_\<close> (observation), \<open>cr_\<close>\<open>rule\<close> as \<open>ru_\<close>, \<open>mr_\<close> (matched rule),
  \<open>fi_\<close> (finding), \<open>rp_\<close> (report), \<open>cd_\<close> (correlation decision).
\<close>

section \<open>Vocabulary\<close>

definition CAPABILITY_VOCABULARY :: "string list" where
  "CAPABILITY_VOCABULARY =
    [''reads-env'', ''reads-file'', ''reads-user-data'', ''reads-email'', ''reads-calendar'', ''reads-documents'', ''reads-memory'',
     ''reads-browser-data'', ''reads-secrets'', ''writes-file'', ''calls-network'', ''local-network'', ''sends-external'',
     ''writes-external'', ''publishes-public'', ''executes-shell'', ''captures-keystrokes'', ''captures-screen'', ''captures-audio'',
     ''uses-camera'', ''encodes-payload'', ''installs-package'', ''declares-lifecycle-hook'', ''uses-clipboard'', ''schedules-task'',
     ''sends-message'', ''browser-automation'', ''code-execution'', ''modifies-persistence'', ''uses-auth-profile'',
     ''requests-secrets'', ''unknown-high-risk'']"

datatype threat_level = Clean | Suspicious | Malicious

datatype finding_category = ShellExecution | NetworkAccess | FileSystem | FileSystemEscape | EncodedPayload | EnvironmentAccess
  | CredentialPattern | SupplyChain | ToolPermission | LifecycleHook | BundleShape | BinaryPayload | DataExfiltration
  | Persistence | Keylogging

record observation =
  co_layer :: string
  co_entity_id :: string
  co_kind :: string
  co_target :: "string option"
  co_evidence :: "string option"
  co_confidence :: "rat option"

record finding =
  fi_category :: finding_category
  fi_description :: string
  fi_matched_text :: string
  fi_line_number :: nat
  fi_severity :: nat
  fi_file_path :: "string option"

record matched_rule =
  mr_id :: string
  mr_effect :: string
  mr_message :: string
  mr_severity :: nat

record capability_rule =
  ru_id :: string
  ru_effect :: string
  ru_all :: "string list"
  ru_any :: "string list"
  ru_message :: string
  ru_severity :: nat

record layer_report =
  rp_observations :: "observation list"
  rp_blocked :: bool
  rp_threat_level :: threat_level
  rp_risk_tenths :: nat
  rp_risk_band :: string
  rp_total_severity :: nat
  rp_warnings :: "string list"
  rp_findings :: "finding list"
  rp_matched_rules :: "matched_rule list"

definition normalize_capability_kind :: "string \<Rightarrow> string" where
  "normalize_capability_kind raw = intercalate ''-'' (filter (\<lambda>part. part \<noteq> [])
     (split_char CHR ''-'' (map (\<lambda>ch. if ch = CHR ''_'' \<or> is_ws ch then CHR ''-'' else lower_char ch) (trim raw))))"

definition normalize_capability_target :: "string \<Rightarrow> string" where
  "normalize_capability_target raw =
    (let trimmed = trim_end_matches (\<lambda>c. c = CHR ''.'') (trim_matches (\<lambda>c. c = CHR 0x27)
           (trim_matches (\<lambda>c. c = CHR 0x22) (trim raw)));
         without_scheme = (case split_once_str ''://'' trimmed of Some (_, rest) \<Rightarrow> rest | None \<Rightarrow> trimmed)
     in ascii_lower (trim_end_matches (\<lambda>c. c = CHR ''.'')
          (trim (hd (split_on (\<lambda>c. c = CHR ''/'' \<or> c = CHR ''?'' \<or> c = CHR ''#'') without_scheme)))))"

definition normalize_capability_selector :: "string \<Rightarrow> string" where
  "normalize_capability_selector raw = (case split_once CHR '':'' (trim raw) of
     None \<Rightarrow> normalize_capability_kind (trim raw)
   | Some (kind, target) \<Rightarrow>
      (let k = normalize_capability_kind kind; t = normalize_capability_target target
       in if t = [] then k else k @ '':'' @ t))"

text \<open>The target of an observation, when it is not blank once normalised.\<close>

definition target_of :: "string option \<Rightarrow> string option" where
  "target_of t = (case map_option normalize_capability_target t of
     Some s \<Rightarrow> if s = [] then None else Some s | None \<Rightarrow> None)"

definition selector :: "observation \<Rightarrow> string" where
  "selector ob = (let kind = normalize_capability_kind (co_kind ob) in
     case target_of (co_target ob) of Some t \<Rightarrow> kind @ '':'' @ t | None \<Rightarrow> kind)"

definition capability_severity :: "string \<Rightarrow> nat" where
  "capability_severity kind =
    (if kind = ''captures-keystrokes'' then 10
     else if kind \<in> {''captures-screen'', ''captures-audio'', ''uses-camera''} then 9
     else if kind = ''modifies-persistence'' then 10
     else if kind \<in> {''executes-shell'', ''code-execution''} then 8
     else if kind \<in> {''encodes-payload'', ''declares-lifecycle-hook''} then 7
     else if kind \<in> {''reads-secrets'', ''sends-external'', ''publishes-public''} then 7
     else if kind \<in> {''writes-file'', ''installs-package''} then 6
     else if kind \<in> {''writes-external'', ''reads-user-data'', ''reads-email'', ''reads-browser-data''} then 6
     else if kind \<in> {''calls-network'', ''local-network'', ''reads-env'', ''requests-secrets''} then 5
     else if kind \<in> {''reads-calendar'', ''reads-documents'', ''reads-memory''} then 5
     else if kind \<in> {''reads-file'', ''uses-clipboard'', ''schedules-task'', ''sends-message'', ''browser-automation'',
         ''uses-auth-profile''} then 4
     else if kind = ''unknown-high-risk'' then 9
     else 5)"

definition capability_category :: "string \<Rightarrow> finding_category" where
  "capability_category kind =
    (if kind \<in> {''executes-shell'', ''code-execution''} then ShellExecution
     else if kind \<in> {''calls-network'', ''local-network''} then NetworkAccess
     else if kind \<in> {''reads-file'', ''writes-file''} then FileSystem
     else if kind = ''reads-env'' then EnvironmentAccess
     else if kind \<in> {''requests-secrets'', ''uses-auth-profile'', ''reads-secrets''} then CredentialPattern
     else if kind = ''captures-keystrokes'' then Keylogging
     else if kind \<in> {''captures-screen'', ''captures-audio'', ''uses-camera'', ''reads-user-data'', ''reads-email'',
         ''reads-calendar'', ''reads-documents'', ''reads-memory'', ''reads-browser-data'', ''sends-external'',
         ''writes-external'', ''publishes-public''} then DataExfiltration
     else if kind = ''encodes-payload'' then EncodedPayload
     else if kind = ''installs-package'' then SupplyChain
     else if kind = ''declares-lifecycle-hook'' then LifecycleHook
     else if kind = ''modifies-persistence'' then Persistence
     else if kind \<in> {''uses-clipboard'', ''schedules-task'', ''sends-message'', ''browser-automation''} then ToolPermission
     else BundleShape)"

section \<open>Rules\<close>

definition observation_selector_set :: "observation list \<Rightarrow> string list" where
  "observation_selector_set obs = concat (map (\<lambda>ob. let kind = normalize_capability_kind (co_kind ob) in
     kind # (case target_of (co_target ob) of Some t \<Rightarrow> [kind @ '':'' @ t] | None \<Rightarrow> [])) obs)"

definition default_capability_policy :: "capability_rule list" where
  "default_capability_policy =
    [\<lparr>ru_id = ''approve-sensitive-source-to-external-send'', ru_effect = ''approval'', ru_all = [''sends-external''],
      ru_any = [''reads-user-data'', ''reads-email'', ''reads-calendar'', ''reads-documents'', ''reads-memory'', ''reads-browser-data'', ''reads-file''],
      ru_message = ''Requires approval before combining sensitive data access with external delivery.'', ru_severity = 8\<rparr>,
     \<lparr>ru_id = ''block-secret-access-to-external-send'', ru_effect = ''block'', ru_all = [''sends-external''],
      ru_any = [''reads-secrets'', ''reads-env''],
      ru_message = ''Blocks combinations that can expose credentials or authentication material to an external destination.'', ru_severity = 10\<rparr>,
     \<lparr>ru_id = ''block-shell-secret-network'', ru_effect = ''block'', ru_all = [''calls-network'', ''reads-secrets'', ''executes-shell''], ru_any = [],
      ru_message = ''Blocks combinations that can pair credential access, shell execution, and network egress.'', ru_severity = 10\<rparr>,
     \<lparr>ru_id = ''block-code-secret-network'', ru_effect = ''block'', ru_all = [''calls-network'', ''reads-secrets'', ''code-execution''], ru_any = [],
      ru_message = ''Blocks combinations that can pair credential access, code execution, and network egress.'', ru_severity = 10\<rparr>,
     \<lparr>ru_id = ''block-keystrokes-with-network'', ru_effect = ''block'', ru_all = [''captures-keystrokes'', ''calls-network''], ru_any = [],
      ru_message = ''Blocks capabilities that capture keystrokes and communicate over the network.'', ru_severity = 10\<rparr>,
     \<lparr>ru_id = ''block-sensor-capture-with-network'', ru_effect = ''block'', ru_all = [''calls-network''],
      ru_any = [''captures-screen'', ''captures-audio'', ''uses-camera''],
      ru_message = ''Blocks capabilities that capture screen, microphone, or camera data and communicate over the network.'', ru_severity = 10\<rparr>,
     \<lparr>ru_id = ''block-shell-env-network'', ru_effect = ''block'', ru_all = [''executes-shell'', ''reads-env'', ''calls-network''], ru_any = [],
      ru_message = ''Blocks capability combinations that can combine shell execution, environment access, and network calls.'', ru_severity = 10\<rparr>,
     \<lparr>ru_id = ''block-shell-file-network'', ru_effect = ''block'', ru_all = [''executes-shell'', ''calls-network''],
      ru_any = [''reads-file'', ''writes-file''],
      ru_message = ''Blocks capability combinations that can combine shell execution, file access, and network calls.'', ru_severity = 10\<rparr>,
     \<lparr>ru_id = ''block-shell-encoded-payload'', ru_effect = ''block'', ru_all = [''executes-shell'', ''encodes-payload''], ru_any = [],
      ru_message = ''Blocks capability combinations that pair shell execution with encoded or obfuscated payloads.'', ru_severity = 9\<rparr>,
     \<lparr>ru_id = ''block-persistence-shell'', ru_effect = ''block'', ru_all = [''modifies-persistence'', ''executes-shell''], ru_any = [],
      ru_message = ''Blocks capabilities that can install persistent behavior through shell execution.'', ru_severity = 10\<rparr>,
     \<lparr>ru_id = ''warn-lifecycle-hook'', ru_effect = ''warn'', ru_all = [''declares-lifecycle-hook''], ru_any = [],
      ru_message = ''Lifecycle hooks require review because they can run outside the visible task flow.'', ru_severity = 7\<rparr>,
     \<lparr>ru_id = ''warn-package-install'', ru_effect = ''warn'', ru_all = [''installs-package''], ru_any = [],
      ru_message = ''Package installation requires supply-chain review.'', ru_severity = 6\<rparr>,
     \<lparr>ru_id = ''warn-shell'', ru_effect = ''warn'', ru_all = [''executes-shell''], ru_any = [],
      ru_message = ''Shell execution requires source review.'', ru_severity = 6\<rparr>,
     \<lparr>ru_id = ''block-unknown-high-risk'', ru_effect = ''block'', ru_all = [''unknown-high-risk''], ru_any = [],
      ru_message = ''Blocks high-risk behavior outside the stable capability vocabulary.'', ru_severity = 9\<rparr>]"

definition rule_matches :: "string list \<Rightarrow> capability_rule \<Rightarrow> bool" where
  "rule_matches selectors r \<longleftrightarrow> list_all (\<lambda>s. normalize_capability_selector s \<in> set selectors) (ru_all r)
     \<and> (ru_any r = [] \<or> list_ex (\<lambda>s. normalize_capability_selector s \<in> set selectors) (ru_any r))"

definition capability_finding :: "observation \<Rightarrow> finding" where
  "capability_finding ob =
    (let kind = normalize_capability_kind (co_kind ob);
         evidence = (case trim_opt (co_evidence ob) of Some e \<Rightarrow> e
           | None \<Rightarrow> (case co_target ob of Some t \<Rightarrow> t | None \<Rightarrow> kind))
     in \<lparr>fi_category = capability_category kind, fi_description = ''Capability detected: '' @ kind,
         fi_matched_text = take 160 evidence, fi_line_number = 1, fi_severity = capability_severity kind, fi_file_path = None\<rparr>)"

definition as_matched :: "capability_rule \<Rightarrow> matched_rule" where
  "as_matched r = \<lparr>mr_id = ru_id r, mr_effect = ru_effect r, mr_message = ru_message r, mr_severity = ru_severity r\<rparr>"

definition score_tenths :: "nat \<Rightarrow> bool \<Rightarrow> bool \<Rightarrow> nat" where
  "score_tenths sev blocked matched = (let score = min ((5 * sev + 1) div 2) 100 in
     if blocked then max score 85 else if matched then max score 50 else score)"

definition evaluate_capability_observations :: "observation list \<Rightarrow> layer_report" where
  "evaluate_capability_observations obs =
    (let selectors = observation_selector_set obs;
         kinds = remdups (map (\<lambda>ob. normalize_capability_kind (co_kind ob)) obs);
         matched = filter (rule_matches selectors) default_capability_policy;
         blocked = list_ex (\<lambda>r. ru_effect r = ''block'') matched;
         findings = sort_key (\<lambda>f. (- int (fi_severity f), fi_matched_text f)) (map capability_finding obs);
         sev = sat_add_u32 (sum_list (map capability_severity kinds)) (sum_list (map ru_severity matched));
         tenths = score_tenths sev blocked (matched \<noteq> [])
     in \<lparr>rp_observations = obs, rp_blocked = blocked,
         rp_threat_level = (if blocked \<or> 80 \<le> tenths then Malicious else if 50 \<le> tenths then Suspicious else Clean),
         rp_risk_tenths = tenths,
         rp_risk_band = (if tenths < 50 then ''secure'' else if tenths < 80 then ''review'' else ''risky''),
         rp_total_severity = sev, rp_warnings = map ru_message matched, rp_findings = findings,
         rp_matched_rules = map as_matched matched\<rparr>)"

end
