(* ===== verification/Capability_Observations.thy ===== *)
theory Capability_Observations
  imports Capability_Policy
begin

text \<open>
  What an action's declarations say it can do (\<open>security/review/capabilities.rs\<close>): the observations
  of its capabilities, its access metadata, its channel targets and its egress policy. The code pushes
  observations onto a list, dropping those whose layer, kind and target it has pushed before; each of
  its \<open>match\<close> arms is here the list of pushes it makes.
\<close>

type_synonym observations = "observation list \<times> string list"

definition push_observation :: "string \<Rightarrow> string \<Rightarrow> string \<Rightarrow> string option \<Rightarrow> string \<Rightarrow> observations \<Rightarrow> observations" where
  "push_observation layer entity_id kind target evidence acc =
    (let k = normalize_capability_kind kind;
         t = target_of target;
         dedupe_key = layer @ '':'' @ k @ '':'' @ (case t of Some s \<Rightarrow> s | None \<Rightarrow> [])
     in if dedupe_key \<in> set (snd acc) then acc
        else (fst acc @ [\<lparr>co_layer = layer, co_entity_id = entity_id, co_kind = k, co_target = t,
                co_evidence = Some evidence, co_confidence = Some 1\<rparr>], dedupe_key # snd acc))"

type_synonym pushes = "(string \<times> string option) list"

definition push_all :: "string \<Rightarrow> string \<Rightarrow> string \<Rightarrow> pushes \<Rightarrow> observations \<Rightarrow> observations" where
  "push_all layer entity_id evidence ps acc =
     foldl (\<lambda>acc (kind, target). push_observation layer entity_id kind target evidence acc) acc ps"

definition permission_pushes :: "permission \<Rightarrow> pushes" where
  "permission_pushes p = (case p of
     Network \<Rightarrow> [(''calls-network'', None)]
   | FileRead \<Rightarrow> [(''reads-file'', None)]
   | FileWrite \<Rightarrow> [(''writes-file'', None)]
   | Shell \<Rightarrow> [(''executes-shell'', None)]
   | Clipboard \<Rightarrow> [(''uses-clipboard'', None)]
   | Scheduler \<Rightarrow> [(''schedules-task'', None)]
   | Gmail \<Rightarrow> [(''calls-network'', Some ''gmail.googleapis.com''), (''uses-auth-profile'', None), (''sends-message'', None)]
   | CodeExecute \<Rightarrow> [(''code-execution'', None)]
   | LocalNetworkDiscovery \<Rightarrow> [(''calls-network'', Some ''local-network'')]
   | ImageGeneration \<Rightarrow> [(''calls-network'', None)]
   | Research \<Rightarrow> [(''calls-network'', None)]
   | CustomPermission raw \<Rightarrow>
      (let sel = normalize_capability_selector raw;
           (kind, target) = (case split_once CHR '':'' sel of Some (k, t) \<Rightarrow> (k, Some t) | None \<Rightarrow> (sel, None))
       in if kind \<in> set CAPABILITY_VOCABULARY then [(kind, target)] else [(''unknown-high-risk'', None)]))"

section \<open>Capabilities\<close>

definition data_capability :: "string \<Rightarrow> pushes option" where
  "data_capability c =
    (if c = ''memory'' then Some [(''reads-memory'', None), (''reads-user-data'', Some ''memory'')]
     else if c = ''documents'' then Some [(''reads-documents'', None), (''reads-user-data'', Some ''documents'')]
     else if c \<in> {''database-readonly'', ''analytics''} then Some [(''reads-user-data'', Some ''database'')]
     else if c = ''capability-inventory'' then Some [(''reads-user-data'', Some ''capabilities'')]
     else if c = ''watcher-inventory'' then Some [(''reads-user-data'', Some ''watchers'')]
     else if c = ''integration-inventory'' then Some [(''reads-user-data'', Some ''integrations'')]
     else if c \<in> {''platform-observability'', ''app-registry'', ''app-inventory'', ''personal-activity'', ''activity-insights'',
         ''conversation-history'', ''session-history'', ''model-runtime'', ''model-status'', ''provider-status''}
       then Some [(''reads-user-data'', Some ''agentark'')]
     else if c \<in> {''agentark-capabilities'', ''agentark-manual'', ''documentation'', ''time''} then Some []
     else None)"

definition google_capability :: "action_role \<Rightarrow> string \<Rightarrow> pushes option" where
  "google_capability role c =
    (if c = ''gmail'' then
       Some ([(''calls-network'', Some ''gmail.googleapis.com''), (''uses-auth-profile'', None)]
         @ (if role \<in> {Delivery, Mutation} then [(''sends-message'', None), (''sends-external'', Some ''gmail.googleapis.com'')]
            else [(''reads-email'', None), (''reads-user-data'', Some ''email'')]))
     else if c = ''google-workspace'' then
       Some ([(''calls-network'', Some ''googleapis.com''), (''uses-auth-profile'', None)]
         @ (case role of
              DataSource \<Rightarrow> [(''reads-user-data'', Some ''google_workspace'')]
            | Inspection \<Rightarrow> [(''reads-user-data'', Some ''google_workspace'')]
            | Delivery \<Rightarrow> [(''sends-message'', None), (''sends-external'', Some ''google_workspace'')]
            | Mutation \<Rightarrow> [(''writes-external'', Some ''google_workspace'')]
            | _ \<Rightarrow> []))
     else None)"

definition channel_capability :: "action_role \<Rightarrow> string \<Rightarrow> pushes option" where
  "channel_capability role c =
    (if c = ''notify'' then Some [(''sends-message'', None)]
     else if c \<in> {''clipboard-read'', ''clipboard-write''} then Some [(''uses-clipboard'', None)]
     else if c \<in> {''browser'', ''browser-automation''} then
       Some ((''browser-automation'', None) # (if role \<in> {Inspection, DataSource} then [(''reads-browser-data'', None)] else []))
     else if c \<in> {''local-network'', ''local-network-discovery''} then
       Some [(''local-network'', None), (''calls-network'', Some ''local-network'')]
     else if c \<in> {''messaging-send'', ''telegram'', ''whatsapp''} then Some [(''sends-message'', None), (''sends-external'', None)]
     else if c \<in> {''custom-api'', ''integration'', ''broad-network'', ''search'', ''vision-ocr'', ''video-generation''}
       then Some [(''calls-network'', None)]
     else if c \<in> {''external-write'', ''writes-external''} then Some [(''writes-external'', None), (''calls-network'', None)]
     else None)"

definition home_capability :: "action_role \<Rightarrow> string \<Rightarrow> pushes option" where
  "home_capability role c =
    (if c = ''home-assistant'' then
       Some [(''local-network'', None), (''calls-network'', Some ''local-network''), (''reads-user-data'', Some ''home-assistant'')]
     else if c = ''home-assistant-control'' then
       Some [(''local-network'', None), (''calls-network'', Some ''local-network''), (''writes-external'', Some ''home-assistant'')]
     else if c = ''app-hosting'' then
       Some (if role = Inspection then [(''reads-file'', None)]
         else [(''writes-file'', None), (''modifies-persistence'', Some ''app'')])
     else if c \<in> {''scheduler'', ''watcher''} then Some [(''schedules-task'', None)]
     else if c \<in> {''skill-management'', ''integration-builder'', ''integration-admin'', ''goal-management'', ''self-evolve''} then
       Some (if role \<in> {Inspection, DataSource} then [(''reads-user-data'', Some ''agentark'')]
         else [(''modifies-persistence'', Some ''agentark'')])
     else if c \<in> {''pdf-generation'', ''document-generation''} then Some [(''writes-file'', None)]
     else if c \<in> {''orchestration'', ''swarm'', ''delegate'', ''multi-agent'', ''agent-orchestration''} then Some []
     else if c \<in> {''local-cli'', ''ssh''} then
       Some ((''executes-shell'', None) # (if c = ''ssh'' then [(''calls-network'', Some ''ssh'')] else []))
     else if c = ''requests-secrets'' then Some [(''requests-secrets'', None)]
     else if c = ''reads-secrets'' then Some [(''reads-secrets'', None)]
     else None)"

definition structured_pushes :: "action_def \<Rightarrow> string \<Rightarrow> pushes option" where
  "structured_pushes a raw =
    (let c = normalize_capability_kind raw; role = mt_role (action_metadata_for_action a) in
     case data_capability c of Some ps \<Rightarrow> Some ps
     | None \<Rightarrow> (case google_capability role c of Some ps \<Rightarrow> Some ps
       | None \<Rightarrow> (case channel_capability role c of Some ps \<Rightarrow> Some ps
         | None \<Rightarrow> home_capability role c)))"

definition push_structured_capability_observations ::
    "string \<Rightarrow> string \<Rightarrow> action_def \<Rightarrow> string \<Rightarrow> observations \<Rightarrow> bool \<times> observations" where
  "push_structured_capability_observations layer entity_id a raw acc = (case structured_pushes a raw of
     None \<Rightarrow> (False, acc)
   | Some ps \<Rightarrow> (True, push_all layer entity_id (''declared action capability '' @ [CHR 0x27] @ trim raw @ [CHR 0x27]) ps acc))"

definition push_capability :: "string \<Rightarrow> string \<Rightarrow> action_def \<Rightarrow> observations \<Rightarrow> string \<Rightarrow> observations" where
  "push_capability layer entity_id a acc raw =
    (let trimmed = trim raw in
     if trimmed = [] then acc
     else (let (handled, acc1) = push_structured_capability_observations layer entity_id a trimmed acc;
               p = parse_permission trimmed
           in if \<not> handled \<or> \<not> custom p
              then push_all layer entity_id (''declared capability '' @ [CHR 0x27] @ trimmed @ [CHR 0x27]) (permission_pushes p) acc1
              else acc1))"

definition observations_from_declared_capabilities :: "string \<Rightarrow> string \<Rightarrow> string list \<Rightarrow> observation list" where
  "observations_from_declared_capabilities layer entity_id capabilities =
    (let a = action_default\<lparr>ad_name := entity_id, ad_capabilities := capabilities\<rparr>
     in fst (foldl (push_capability layer entity_id a) ([], []) capabilities))"

definition evaluate_declared_capabilities :: "string \<Rightarrow> string \<Rightarrow> string list \<Rightarrow> layer_report" where
  "evaluate_declared_capabilities layer entity_id capabilities =
     evaluate_capability_observations (observations_from_declared_capabilities layer entity_id capabilities)"

section \<open>Actions\<close>

definition access_pushes :: "string \<Rightarrow> pushes" where
  "access_pushes permission_id = (let k = normalize_capability_kind permission_id in
     if k = ''app-hosting'' then [(''writes-file'', None), (''modifies-persistence'', Some ''app'')]
     else if k \<in> {''browser-auto'', ''browser-automation''} then [(''browser-automation'', None)]
     else if k = ''calendar-write'' then
       [(''calls-network'', Some ''googleapis.com''), (''uses-auth-profile'', None), (''writes-external'', Some ''google_calendar'')]
     else if k = ''capability-acquire'' then [(''modifies-persistence'', Some ''agentark'')]
     else if k = ''google-workspace-command'' then
       [(''calls-network'', Some ''googleapis.com''), (''uses-auth-profile'', None), (''writes-external'', Some ''google_workspace'')]
     else if k = ''messaging-send'' then [(''sends-message'', None), (''sends-external'', None)]
     else if k = ''broad-network'' then [(''calls-network'', None)]
     else if k \<in> {''auth-profile'', ''uses-auth-profile''} then [(''uses-auth-profile'', None)]
     else if k = ''reads-secrets'' then [(''reads-secrets'', None)]
     else if k = ''requests-secrets'' then [(''requests-secrets'', None)]
     else if k = ''ssh'' then [(''executes-shell'', None), (''calls-network'', Some ''ssh'')]
     else if k = ''watcher'' then [(''schedules-task'', None)]
     else [])"

definition target_argument :: "json option \<Rightarrow> channel_target \<Rightarrow> string" where
  "target_argument arguments target =
    (case trim_opt (Option.bind (Option.bind arguments (json_get (ct_argument_key target))) json_as_str) of
       Some s \<Rightarrow> s | None \<Rightarrow> ct_default_target target)"

definition in_process_delivery :: "string \<Rightarrow> bool" where
  "in_process_delivery argument_target \<longleftrightarrow> normalize_capability_target argument_target
     \<in> {'''', ''web'', ''in_app'', ''app'', ''app_notification'', ''app_notifications''}"

definition push_channel_target :: "string \<Rightarrow> string \<Rightarrow> json option \<Rightarrow> observations \<Rightarrow> channel_target \<Rightarrow> observations" where
  "push_channel_target layer entity_id arguments acc target =
    (let argument_target = target_argument arguments target;
         acc1 = push_observation layer entity_id ''sends-message'' (Some argument_target)
           ''action access declares a messaging channel target'' acc
     in if in_process_delivery argument_target then acc1
        else push_observation layer entity_id ''sends-external'' (Some argument_target)
          ''action access declares an external messaging channel target'' acc1)"

definition observations_from_action_def :: "string \<Rightarrow> action_def \<Rightarrow> json option \<Rightarrow> observation list" where
  "observations_from_action_def layer a arguments =
    (let entity_id = ad_name a;
         auth = ad_authorization a;
         access = az_access auth;
         acc1 = foldl (push_capability layer entity_id a) ([], []) (ad_capabilities a);
         acc2 = foldl (\<lambda>acc permission_id. push_all layer entity_id
             (''declared access permission '' @ [CHR 0x27] @ trim permission_id @ [CHR 0x27]) (access_pushes permission_id) acc)
           acc1 (am_permission_ids access);
         acc3 = (if am_requires_ssh_connection access then push_all layer entity_id ''action access requires an SSH connection''
             [(''executes-shell'', None), (''calls-network'', Some ''ssh'')] acc2 else acc2);
         acc4 = (if az_requires_auth auth \<or> am_integration_ids access \<noteq> [] \<or> am_extension_pack_ids access \<noteq> []
           then push_all layer entity_id ''action authorization requires configured auth'' [(''uses-auth-profile'', None)] acc3 else acc3);
         acc5 = foldl (push_channel_target layer entity_id arguments) acc4 (am_channel_targets access);
         acc6 = (if eg_outbound_write (az_outbound auth)
           then push_all layer entity_id ''action authorization declares outbound writes''
             [(''writes-external'', None), (''sends-external'', None), (''calls-network'', None)] acc5 else acc5);
         acc7 = (if eg_public_publish (az_outbound auth)
           then push_all layer entity_id ''action authorization declares public publishing''
             [(''publishes-public'', None), (''sends-external'', None), (''calls-network'', None)] acc6 else acc6)
     in fst acc7)"

section \<open>Correlation\<close>

type_synonym subject = "string \<times> string"

definition subject_of :: "observation \<Rightarrow> subject" where
  "subject_of ob = (co_layer ob, co_entity_id ob)"

definition selectors_of :: "observation \<Rightarrow> string list" where
  "selectors_of ob = observation_selector_set [ob]"

text \<open>The subjects a selector comes from (\<open>selector_subjects\<close>).\<close>

definition subjects_for :: "observation list \<Rightarrow> string \<Rightarrow> subject list" where
  "subjects_for obs sel = map subject_of (filter (\<lambda>ob. sel \<in> set (selectors_of ob)) obs)"

text \<open>The selectors of a matched rule that count: all of \<open>all\<close>, and those of \<open>any\<close> that are present.\<close>

definition rule_selectors :: "string list \<Rightarrow> capability_rule \<Rightarrow> string list" where
  "rule_selectors selectors r = map normalize_capability_selector (ru_all r)
     @ filter (\<lambda>s. s \<in> set selectors) (map normalize_capability_selector (ru_any r))"

definition correlates :: "observation list \<Rightarrow> capability_rule \<Rightarrow> bool" where
  "correlates obs r \<longleftrightarrow> rule_matches (observation_selector_set obs) r
     \<and> 2 \<le> length (remdups (concat (map (subjects_for obs) (rule_selectors (observation_selector_set obs) r))))"

definition evaluate_cross_layer_capabilities :: "observation list \<Rightarrow> layer_report option" where
  "evaluate_cross_layer_capabilities obs =
    (if length (remdups (map subject_of obs)) < 2 then None
     else
      (let correlated = map ru_id (filter (correlates obs) default_capability_policy) in
       if correlated = [] then None
       else
        (let rep = evaluate_capability_observations obs;
             rules = filter (\<lambda>m. mr_id m \<in> set correlated) (rp_matched_rules rep);
             blocked = list_ex (\<lambda>m. mr_effect m = ''block'') rules
         in Some (rep\<lparr>rp_matched_rules := rules, rp_warnings := map mr_message rules, rp_blocked := blocked,
              rp_threat_level := (if blocked then Malicious else Suspicious),
              rp_risk_tenths := (if blocked then max (rp_risk_tenths rep) 85 else max (rp_risk_tenths rep) 65),
              rp_risk_band := (if blocked then ''risky'' else ''review'')\<rparr>))))"

datatype correlation_effect = EffectAllow | EffectRequireApproval | EffectBlock

record correlation_decision =
  cd_effect :: correlation_effect
  cd_report :: "layer_report option"
  cd_message :: "string option"

definition correlation_allow :: correlation_decision where
  "correlation_allow = \<lparr>cd_effect = EffectAllow, cd_report = None, cd_message = None\<rparr>"

definition first_warning :: "string \<Rightarrow> layer_report \<Rightarrow> string" where
  "first_warning dflt rep = (case rp_warnings rep of w # _ \<Rightarrow> w | [] \<Rightarrow> dflt)"

definition correlation_requires_approval :: "layer_report \<Rightarrow> correlation_decision" where
  "correlation_requires_approval rep = \<lparr>cd_effect = EffectRequireApproval, cd_report = Some rep, cd_message = Some (first_warning
     ''This action combines sensitive access with external delivery and requires explicit approval.'' rep)\<rparr>"

definition correlation_block :: "layer_report \<Rightarrow> correlation_decision" where
  "correlation_block rep = \<lparr>cd_effect = EffectBlock, cd_report = Some rep, cd_message = Some (first_warning
     ''Blocked by cross-layer capability policy.'' rep)\<rparr>"

definition evaluate_capability_correlation :: "observation list \<Rightarrow> observation list \<Rightarrow> correlation_decision" where
  "evaluate_capability_correlation prior candidate =
    (if candidate = [] then correlation_allow
     else (case evaluate_cross_layer_capabilities (prior @ candidate) of
         None \<Rightarrow> correlation_allow
       | Some rep \<Rightarrow> if rp_blocked rep then correlation_block rep
           else if rp_matched_rules rep \<noteq> [] then correlation_requires_approval rep else correlation_allow))"

section \<open>The memory of a run\<close>

record run_context =
  rc_observations :: "observation list"

definition context_key_of :: "observation \<Rightarrow> string" where
  "context_key_of ob = co_layer ob @ '':'' @ co_entity_id ob @ '':'' @ selector ob"

fun add_unseen :: "string list \<Rightarrow> observation list \<Rightarrow> observation list" where
  "add_unseen seen [] = []"
| "add_unseen seen (ob # obs) = (if context_key_of ob \<in> set seen then add_unseen seen obs
     else ob # add_unseen (context_key_of ob # seen) obs)"

definition context_extend :: "observation list \<Rightarrow> run_context \<Rightarrow> run_context" where
  "context_extend obs c = c\<lparr>rc_observations := rc_observations c
     @ add_unseen (map context_key_of (rc_observations c)) obs\<rparr>"

definition retain_recent :: "nat \<Rightarrow> run_context \<Rightarrow> run_context" where
  "retain_recent limit c = (if limit = 0 then c\<lparr>rc_observations := []\<rparr>
     else if limit < length (rc_observations c)
       then c\<lparr>rc_observations := drop (length (rc_observations c) - limit) (rc_observations c)\<rparr> else c)"

end
