(* ===== verification/Action_Authorization.thy ===== *)
theory Action_Authorization
  imports Action_Error Capability_Observations "HOL-Library.AList"
begin

text \<open>
  The authorization of an action invocation (\<open>runtime/action_runtime/governance/authorization.rs\<close> and
  \<open>action_scope.rs\<close>): the policy of an action merged with its defaults, the access scope of an agent,
  the decision by surface, principal and role, and the correlation with what the same run has done before.

  The state is the runtime's table of loaded actions, the memory of the runs (\<open>rt_contexts\<close>, keyed by
  the context id) and the rows handed to the operational and the security log; whether such a row is stored
  has no effect on anything here. The redaction of personal data and serde\_json's texts are parameters
  (\<open>auth_env\<close>). One clock reading serves an invocation. Of a loaded action only the parts these files
  read are kept (\<open>la_\<close>).
\<close>

section \<open>Policies\<close>

definition BACKGROUND_BLOCKED_ACTIONS :: "string list" where
  "BACKGROUND_BLOCKED_ACTIONS =
    [''service_manage'', ''work_manage'', ''app_delete'', ''app_stop'', ''app_restart'', ''app_deploy'', ''shell'', ''code_execute'',
     ''browser_auto'', ''browser_navigate'', ''browser_click'', ''browser_type'', ''browser_scroll'', ''browser_snapshot'',
     ''browser_screenshot'', ''browser_back'', ''browser_press'', ''browser_console'', ''gmail_reply'', ''calendar_create'',
     ''schedule_task'', ''watch'']"

definition CAPABILITY_CONTEXT_TTL_SECS :: int where "CAPABILITY_CONTEXT_TTL_SECS = 60 * 60"

definition CAPABILITY_CONTEXT_LIMIT :: nat where "CAPABILITY_CONTEXT_LIMIT = 128"

definition CAPABILITY_CONTEXT_OBSERVATION_LIMIT :: nat where "CAPABILITY_CONTEXT_OBSERVATION_LIMIT = 96"

definition action_has_dangerous_capabilities :: "string list \<Rightarrow> bool" where
  "action_has_dangerous_capabilities capabilities = list_ex (\<lambda>cap.
     let p = parse_permission cap in \<not> custom p \<and> permission_risk p = Dangerous) capabilities"

definition default_authorization_for_action :: "action_def \<Rightarrow> action_policy" where
  "default_authorization_for_action a =
    (let lowered = ascii_lower (trim (ad_name a));
         dangerous = action_has_dangerous_capabilities (ad_capabilities a)
     in if lowered \<in> set BACKGROUND_BLOCKED_ACTIONS \<or> dangerous
        then policy_default\<lparr>az_risk_level := RiskHigh, az_requires_auth := True\<rparr> else policy_default)"

definition merged_authorization_for_action :: "action_def \<Rightarrow> action_policy" where
  "merged_authorization_for_action a =
    (let d = default_authorization_for_action a; z = ad_authorization a in
     z\<lparr>az_risk_level := (if az_risk_level z = RiskNone then az_risk_level d else az_risk_level z),
       az_requires_auth := (if \<not> az_requires_auth z then az_requires_auth d else az_requires_auth z),
       az_allowed_roles := (if az_allowed_roles z = [] then az_allowed_roles d else az_allowed_roles z),
       az_rate_limit := (if az_rate_limit z = None then az_rate_limit d else az_rate_limit z),
       az_human_approval := (if \<not> ha_required (az_human_approval z)
         then (az_human_approval z)\<lparr>ha_required := ha_required (az_human_approval d)\<rparr> else az_human_approval z)\<rparr>)"

definition normalize_action_definition :: "action_def \<Rightarrow> action_def" where
  "normalize_action_definition a = a\<lparr>ad_authorization := merged_authorization_for_action a\<rparr>"

definition is_background_surface :: "execution_surface \<Rightarrow> bool" where
  "is_background_surface s \<longleftrightarrow> s = AutomationSurface \<or> s = BackgroundSurface"

definition trusted_principal :: "action_authorization \<Rightarrow> bool" where
  "trusted_principal c \<longleftrightarrow> (case ac_principal c of Some p \<Rightarrow> pr_trusted p | None \<Rightarrow> False)"

definition direct_trusted_chat_tool_override :: "action_authorization \<Rightarrow> bool" where
  "direct_trusted_chat_tool_override c \<longleftrightarrow> ac_surface c = ChatSurface \<and> ac_direct_user_intent c \<and> trusted_principal c"

fun risk_rank :: "risk_level \<Rightarrow> nat" where
  "risk_rank RiskNone = 0"
| "risk_rank RiskLow = 1"
| "risk_rank RiskMedium = 2"
| "risk_rank RiskHigh = 3"
| "risk_rank RiskCritical = 4"

instantiation risk_level :: linorder
begin

definition less_eq_risk_level :: "risk_level \<Rightarrow> risk_level \<Rightarrow> bool" where
  "less_eq_risk_level a b \<longleftrightarrow> risk_rank a \<le> risk_rank b"

definition less_risk_level :: "risk_level \<Rightarrow> risk_level \<Rightarrow> bool" where
  "less_risk_level a b \<longleftrightarrow> risk_rank a < risk_rank b"

instance
proof
  fix a b :: risk_level
  show "a \<le> b \<Longrightarrow> b \<le> a \<Longrightarrow> a = b"
    by (cases a; cases b) (simp_all add: less_eq_risk_level_def)
qed (auto simp: less_eq_risk_level_def less_risk_level_def)

end

section \<open>State\<close>

record loaded_action =
  la_info :: action_def
  la_mcp_server_id :: "string option"
  la_plugin_id :: "string option"
  la_custom_api_id :: "string option"
  la_extension_pack_id :: "string option"

record correlation_record =
  cx_updated_at :: int
  cx_context :: run_context

record audit_row =
  au_created_at :: string
  au_channel :: string
  au_event_type :: string
  au_success :: bool
  au_outcome :: string
  au_tool_name :: "string option"
  au_arguments :: "string option"
  au_payload :: "string option"
  au_model_slot :: "string option"

record security_row =
  sl_event_type :: string
  sl_severity :: string
  sl_message :: string
  sl_source :: "string option"
  sl_created_at :: string

record runtime_state =
  rt_actions :: "(string \<times> loaded_action) list"
  rt_contexts :: "(string \<times> correlation_record) list"
  rt_audit :: "audit_row list"
  rt_events :: "security_row list"

record auth_env =
  ae_chrono :: chrono
  ae_redact_pii :: "string \<Rightarrow> string"
  ae_print_json :: "json \<Rightarrow> string"
  ae_policy_value :: "action_policy \<Rightarrow> json"

section \<open>Audit\<close>

definition truncate_audit_text :: "auth_env \<Rightarrow> string \<Rightarrow> nat \<Rightarrow> string" where
  "truncate_audit_text env raw max_chars = (let redacted = ae_redact_pii env raw in
     if max_chars < length redacted then take max_chars redacted @ ''...'' else take max_chars redacted)"

definition normalize_optional_audit_text :: "auth_env \<Rightarrow> string option \<Rightarrow> nat \<Rightarrow> string option" where
  "normalize_optional_audit_text env raw max_chars = map_option (\<lambda>v. truncate_audit_text env v max_chars) (trim_opt raw)"

definition opt_string :: "string option \<Rightarrow> json" where
  "opt_string v = (case v of Some s \<Rightarrow> JStr s | None \<Rightarrow> JNull)"

definition principal_payload :: "principal option \<Rightarrow> json" where
  "principal_payload p = (case p of None \<Rightarrow> JNull | Some p \<Rightarrow> JObj [(''auth_source'', JStr (pr_auth_source p)),
     (''role'', JStr (pr_role p)), (''trusted'', JBool (pr_trusted p)), (''user_id'', JStr (pr_user_id p))])"

definition audit_payload :: "auth_env \<Rightarrow> action_policy \<Rightarrow> action_authorization \<Rightarrow> authorization_decision \<Rightarrow> json" where
  "audit_payload env z c d = JObj
     [(''authorization'', ae_policy_value env z),
      (''current_turn_is_explicit_approval'', JBool (ac_current_turn_is_explicit_approval c)),
      (''decision'', JObj [(''allowed'', JBool (de_allowed d)), (''matched_role'', opt_string (de_matched_role d)),
         (''rate_limit_key'', opt_string (de_rate_limit_key d)), (''reason'', JStr (de_reason d))]),
      (''direct_user_intent'', JBool (ac_direct_user_intent c)),
      (''principal'', principal_payload (ac_principal c)),
      (''surface'', JStr (surface_key (ac_surface c)))]"

definition log_authorization_audit ::
    "auth_env \<Rightarrow> int \<Rightarrow> string \<Rightarrow> json \<Rightarrow> action_policy \<Rightarrow> action_authorization \<Rightarrow> authorization_decision \<Rightarrow> runtime_state \<Rightarrow> runtime_state" where
  "log_authorization_audit env now action_name arguments z c d st = st\<lparr>rt_audit := rt_audit st @
     [\<lparr>au_created_at = to_rfc3339 (ae_chrono env) now,
       au_channel = truncate_audit_text env (surface_key (ac_surface c)) 64,
       au_event_type = ''tool_authorization'', au_success = de_allowed d,
       au_outcome = truncate_audit_text env (if de_allowed d then ''allowed'' else ''blocked'') 64,
       au_tool_name = Some (truncate_audit_text env action_name 128),
       au_arguments = Some (truncate_audit_text env (ae_print_json env arguments) 1200),
       au_payload = Some (truncate_audit_text env (ae_print_json env (audit_payload env z c d)) 2000),
       au_model_slot = normalize_optional_audit_text env (map_option pr_auth_source (ac_principal c)) 128\<rparr>]\<rparr>"

definition record_security_event ::
    "auth_env \<Rightarrow> int \<Rightarrow> string \<Rightarrow> string \<Rightarrow> string \<Rightarrow> string option \<Rightarrow> runtime_state \<Rightarrow> runtime_state" where
  "record_security_event env now event_type severity message source st = st\<lparr>rt_events := rt_events st @
     [\<lparr>sl_event_type = event_type, sl_severity = severity, sl_message = ae_redact_pii env message, sl_source = source,
       sl_created_at = to_rfc3339 (ae_chrono env) now\<rparr>]\<rparr>"

section \<open>Access scopes\<close>

record scope_hint =
  sh_mcp_server_id :: "string option"
  sh_plugin_id :: "string option"
  sh_custom_api_id :: "string option"
  sh_integration_ids :: "string list"
  sh_extension_pack_ids :: "string list"
  sh_requires_ssh_connection :: bool
  sh_channel_targets :: "channel_target list"

definition fallback_action_scope_hint :: scope_hint where
  "fallback_action_scope_hint = \<lparr>sh_mcp_server_id = None, sh_plugin_id = None, sh_custom_api_id = None, sh_integration_ids = [],
     sh_extension_pack_ids = [], sh_requires_ssh_connection = False, sh_channel_targets = []\<rparr>"

definition action_scope_hint_for_loaded_action :: "loaded_action \<Rightarrow> scope_hint" where
  "action_scope_hint_for_loaded_action l =
    (let access = az_access (ad_authorization (la_info l)) in
     \<lparr>sh_mcp_server_id = la_mcp_server_id l, sh_plugin_id = la_plugin_id l, sh_custom_api_id = la_custom_api_id l,
      sh_integration_ids = am_integration_ids access,
      sh_extension_pack_ids = (case la_extension_pack_id l of
          Some p \<Rightarrow> if p \<in> set (am_extension_pack_ids access) then am_extension_pack_ids access else am_extension_pack_ids access @ [p]
        | None \<Rightarrow> am_extension_pack_ids access),
      sh_requires_ssh_connection = am_requires_ssh_connection access, sh_channel_targets = am_channel_targets access\<rparr>)"

definition normalize_scope_channel_target :: "string option \<Rightarrow> string \<Rightarrow> string" where
  "normalize_scope_channel_target v default_target = (case map_option ascii_lower (trim_opt v) of
     Some channel \<Rightarrow>
       (if channel \<in> {''push'', ''auto'', ''default''} then ''preferred''
        else if channel \<in> {''app'', ''app_notification'', ''app_notifications'', ''in_app''} then []
        else if channel = ''http'' then ''web'' else channel)
   | None \<Rightarrow> default_target)"

definition scoped_channel_target_for_hint :: "scope_hint \<Rightarrow> json \<Rightarrow> string option" where
  "scoped_channel_target_for_hint hint arguments = (case sh_channel_targets hint of [] \<Rightarrow> None
   | target # _ \<Rightarrow> Some (normalize_scope_channel_target
       (Option.bind (json_get (ct_argument_key target) arguments) json_as_str) (ct_default_target target)))"

definition scope_contains_exact_value :: "string list \<Rightarrow> string \<Rightarrow> bool" where
  "scope_contains_exact_value allowed candidate = list_ex (\<lambda>v. trim v = trim candidate) allowed"

definition scope_contains_case_insensitive_value :: "string list \<Rightarrow> string \<Rightarrow> bool" where
  "scope_contains_case_insensitive_value allowed candidate =
     list_ex (\<lambda>v. eq_ignore_case (trim v) (trim candidate)) allowed"

definition scope_contains_channel_target :: "string list \<Rightarrow> string \<Rightarrow> bool" where
  "scope_contains_channel_target allowed candidate = list_ex (\<lambda>v.
     eq_ignore_case (trim (normalize_scope_channel_target (Some v) [])) (ascii_lower (trim candidate))) allowed"

definition scoped_actor_label :: "action_authorization \<Rightarrow> string" where
  "scoped_actor_label c = (case trim_opt (ac_agent_name c) of
     Some v \<Rightarrow> ''Agent '' @ [CHR 0x27] @ v @ [CHR 0x27] | None \<Rightarrow> ''This agent'')"

definition q :: "string \<Rightarrow> string" where
  "q s = CHR 0x27 # s @ [CHR 0x27]"

text \<open>Each check of \<open>authorize_action_scope\<close> in turn: what it denies, or nothing.\<close>

definition check_servers :: "access_scope \<Rightarrow> scope_hint \<Rightarrow> string \<Rightarrow> string option" where
  "check_servers scope hint actor =
    (case sh_mcp_server_id hint of
       Some server_id \<Rightarrow> (if \<not> scope_contains_exact_value (sc_mcp_server_ids scope) server_id
         then Some (actor @ '' is not allowed to use MCP server '' @ q server_id @ ''.'') else None)
     | None \<Rightarrow> None)"

definition check_apis :: "access_scope \<Rightarrow> scope_hint \<Rightarrow> string \<Rightarrow> string option" where
  "check_apis scope hint actor =
    (case sh_custom_api_id hint of
       Some api_id \<Rightarrow> (if \<not> scope_contains_exact_value (sc_custom_api_ids scope) api_id
         then Some (actor @ '' is not allowed to use custom API '' @ q api_id @ ''.'') else None)
     | None \<Rightarrow> None)"

definition check_integrations :: "access_scope \<Rightarrow> scope_hint \<Rightarrow> string \<Rightarrow> string option" where
  "check_integrations scope hint actor =
    (if sh_integration_ids hint \<noteq> []
        \<and> \<not> list_ex (scope_contains_case_insensitive_value (sc_integration_ids scope)) (sh_integration_ids hint)
     then Some (actor @ '' is not allowed to use integration(s): '' @ intercalate '', '' (sh_integration_ids hint) @ ''.'') else None)"

definition check_packs :: "access_scope \<Rightarrow> scope_hint \<Rightarrow> string \<Rightarrow> string option" where
  "check_packs scope hint actor =
    (if sh_extension_pack_ids hint \<noteq> []
        \<and> \<not> list_ex (scope_contains_case_insensitive_value (sc_extension_pack_ids scope)) (sh_extension_pack_ids hint)
     then Some (actor @ '' is not allowed to use extension pack(s): '' @ intercalate '', '' (sh_extension_pack_ids hint) @ ''.'') else None)"

definition check_ssh :: "access_scope \<Rightarrow> scope_hint \<Rightarrow> string \<Rightarrow> string \<Rightarrow> json \<Rightarrow> string option" where
  "check_ssh scope hint actor action_name arguments =
    (if \<not> sh_requires_ssh_connection hint then None
     else if sc_ssh_connection_names scope = []
       then Some (actor @ '' is not allowed to use SSH because no SSH connections are attached.'')
     else if action_name = ''ssh'' then
       (case trim_opt (Option.bind (json_get ''connection'' arguments) json_as_str) of
          Some connection_name \<Rightarrow> (if \<not> scope_contains_exact_value (sc_ssh_connection_names scope) connection_name
            then Some (actor @ '' is not allowed to use SSH connection '' @ q connection_name @ ''.'') else None)
        | None \<Rightarrow> None)
     else None)"

definition check_channels :: "access_scope \<Rightarrow> scope_hint \<Rightarrow> string \<Rightarrow> json \<Rightarrow> string option" where
  "check_channels scope hint actor arguments =
    (if sh_channel_targets hint = [] then None
     else (let target = (case scoped_channel_target_for_hint hint arguments of Some t \<Rightarrow> t | None \<Rightarrow> ''preferred'') in
       if target = [] then None
       else if target = ''preferred'' then
         (if sc_channel_ids scope = []
          then Some (actor @ '' is not allowed to use preferred-channel delivery because no messaging channels are attached.'') else None)
       else if \<not> scope_contains_channel_target (sc_channel_ids scope) target
         then Some (actor @ '' is not allowed to use messaging channel '' @ q target @ ''.'') else None))"

fun first_some :: "'a option list \<Rightarrow> 'a option" where
  "first_some [] = None"
| "first_some (Some a # xs) = Some a"
| "first_some (None # xs) = first_some xs"

definition authorize_action_scope :: "string \<Rightarrow> json \<Rightarrow> action_authorization \<Rightarrow> runtime_state \<Rightarrow> authorization_decision option" where
  "authorize_action_scope action_name arguments c st =
    (case ac_agent_access_scope c of None \<Rightarrow> None
     | Some scope \<Rightarrow>
        (let hint = (case map_of (rt_actions st) action_name of
               Some l \<Rightarrow> action_scope_hint_for_loaded_action l | None \<Rightarrow> fallback_action_scope_hint);
             actor = scoped_actor_label c
         in map_option deny (first_some
              [check_servers scope hint actor, check_apis scope hint actor, check_integrations scope hint actor,
               check_packs scope hint actor, check_ssh scope hint actor action_name arguments, check_channels scope hint actor arguments])))"
section \<open>Correlation with the run\<close>

definition capability_context_key :: "action_authorization \<Rightarrow> string option" where
  "capability_context_key c = map_option (take 256) (trim_opt (ac_capability_context_id c))"

text \<open>\<open>min_by_key\<close>: the first of the least.\<close>

fun oldest :: "(string \<times> correlation_record) list \<Rightarrow> (string \<times> correlation_record) option" where
  "oldest [] = None"
| "oldest (x # xs) = (case oldest xs of None \<Rightarrow> Some x
     | Some y \<Rightarrow> Some (if cx_updated_at (snd x) \<le> cx_updated_at (snd y) then x else y))"

lemma oldest_mem: "oldest xs = Some x \<Longrightarrow> x \<in> set xs"
  by (induction xs arbitrary: x) (auto split: option.splits if_splits)

function evict :: "(string \<times> correlation_record) list \<Rightarrow> (string \<times> correlation_record) list" where
  "evict xs = (if length xs \<le> CAPABILITY_CONTEXT_LIMIT then xs
     else (case oldest xs of None \<Rightarrow> xs | Some (k, _) \<Rightarrow> evict (filter (\<lambda>(k', _). k' \<noteq> k) xs)))"
  by pat_completeness auto

termination
proof (relation "measure length")
  fix xs :: "(string \<times> correlation_record) list" and y k v
  assume "oldest xs = Some y" and "(k, v) = y"
  then have "(k, v) \<in> set xs" using oldest_mem by blast
  then have "length (filter (\<lambda>(k', _). k' \<noteq> k) xs) < length xs"
    by (intro length_filter_less [of "(k, v)"]) auto
  then show "(filter (\<lambda>(k', _). k' \<noteq> k) xs, xs) \<in> measure length" by simp
qed simp

declare evict.simps [simp del]

definition prune_capability_run_contexts :: "int \<Rightarrow> (string \<times> correlation_record) list \<Rightarrow> (string \<times> correlation_record) list" where
  "prune_capability_run_contexts now contexts =
     evict (filter (\<lambda>(_, r). now - secs CAPABILITY_CONTEXT_TTL_SECS \<le> cx_updated_at r) contexts)"

definition effect_detail :: "correlation_effect \<Rightarrow> string" where
  "effect_detail e = (case e of
     EffectBlock \<Rightarrow> ''This combination is not allowed by the active safety policy.''
   | EffectRequireApproval \<Rightarrow> ''This combination needs approval before it can run.''
   | EffectAllow \<Rightarrow> ''Allowed by capability policy.'')"

definition capability_correlation_message :: "string \<Rightarrow> correlation_decision \<Rightarrow> string" where
  "capability_correlation_message action_name d =
    (let detail = (case Option.bind (cd_report d) (\<lambda>r. case rp_matched_rules r of m # _ \<Rightarrow> Some (mr_message m) | [] \<Rightarrow> None) of
           Some msg \<Rightarrow> msg
         | None \<Rightarrow> (case cd_message d of Some msg \<Rightarrow> msg | None \<Rightarrow> effect_detail (cd_effect d)))
     in case cd_effect d of
          EffectBlock \<Rightarrow> ''This action is blocked by security policy before running `'' @ action_name @ ''`. '' @ detail
        | EffectRequireApproval \<Rightarrow> ''This action needs your approval before running `'' @ action_name @ ''`. '' @ detail
        | EffectAllow \<Rightarrow> detail)"

definition nested_orchestration_action_request :: "json \<Rightarrow> json \<Rightarrow> string \<Rightarrow> string \<Rightarrow> (string \<times> json) option" where
  "nested_orchestration_action_request parent_arguments item_arguments action_key arguments_key =
    (case trim_opt (Option.bind (case json_get action_key item_arguments of
         Some v \<Rightarrow> Some v | None \<Rightarrow> json_get action_key parent_arguments) json_as_str) of
       None \<Rightarrow> None
     | Some action_name \<Rightarrow> Some (action_name, case json_get arguments_key item_arguments of
         Some v \<Rightarrow> v
       | None \<Rightarrow> (case json_get arguments_key parent_arguments of Some v \<Rightarrow> v | None \<Rightarrow> JObj [])))"

text \<open>The closure \<open>collect\<close>, on the requests found and the signatures seen.\<close>

definition collect_request ::
    "auth_env \<Rightarrow> string \<Rightarrow> json \<Rightarrow> json \<Rightarrow> (string \<times> json) list \<times> string list \<Rightarrow> string \<times> string \<Rightarrow> (string \<times> json) list \<times> string list" where
  "collect_request env action_name arguments item acc keys =
    (case nested_orchestration_action_request arguments item (fst keys) (snd keys) of
       None \<Rightarrow> acc
     | Some (nested_action, nested_arguments) \<Rightarrow>
        (if eq_ignore_case nested_action action_name then acc
         else (let signature = ascii_lower nested_action @ '':'' @ ae_print_json env nested_arguments in
           if signature \<in> set (snd acc) then acc
           else (fst acc @ [(nested_action, nested_arguments)], signature # snd acc))))"

definition collect_item ::
    "auth_env \<Rightarrow> string \<Rightarrow> json \<Rightarrow> (string \<times> json) list \<times> string list \<Rightarrow> json \<Rightarrow> (string \<times> json) list \<times> string list" where
  "collect_item env action_name arguments acc item = foldl (collect_request env action_name arguments item) acc
     [(''poll_action'', ''poll_arguments''), (''action'', ''action_arguments'')]"

definition nested_orchestration_action_requests :: "auth_env \<Rightarrow> string \<Rightarrow> json \<Rightarrow> (string \<times> json) list" where
  "nested_orchestration_action_requests env action_name arguments = fst
    (case Option.bind (json_get ''items'' arguments) json_as_array of
       Some items \<Rightarrow> foldl (collect_item env action_name arguments) ([], []) items
     | None \<Rightarrow> collect_item env action_name arguments ([], []) arguments)"

definition action_definition :: "string \<Rightarrow> runtime_state \<Rightarrow> action_def option" where
  "action_definition action_name st = map_option la_info (map_of (rt_actions st) action_name)"

definition authorization_observations_for_invocation ::
    "auth_env \<Rightarrow> string \<Rightarrow> action_def \<Rightarrow> json \<Rightarrow> runtime_state \<Rightarrow> observation list" where
  "authorization_observations_for_invocation env action_name a arguments st =
     observations_from_action_def ''runtime'' a (Some arguments)
     @ concat (map (\<lambda>(n, args). case action_definition n st of
         None \<Rightarrow> [] | Some na \<Rightarrow> observations_from_action_def ''runtime'' na (Some args))
       (nested_orchestration_action_requests env action_name arguments))"

definition record_capability_correlation_decision ::
    "auth_env \<Rightarrow> int \<Rightarrow> string \<Rightarrow> string \<Rightarrow> string \<Rightarrow> correlation_decision \<Rightarrow> runtime_state \<Rightarrow> runtime_state" where
  "record_capability_correlation_decision env now action_name context_key outcome d st =
    (case cd_report d of None \<Rightarrow> st
     | Some rep \<Rightarrow>
        (let rules = intercalate '', '' (map mr_id (rp_matched_rules rep));
             subjects = intercalate '', '' (remdups_adj (sort
               (map (\<lambda>ob. co_layer ob @ '':'' @ co_entity_id ob) (rp_observations rep))))
         in record_security_event env now ''capability_correlation'' (if cd_effect d = EffectBlock then ''high'' else ''medium'')
              (''Runtime capability correlation: outcome='' @ outcome @ '', action='' @ q action_name @ '', rules=['' @ rules
                 @ ''], subjects=['' @ subjects @ '']'')
              (Some (''scope=runtime;context='' @ truncate_audit_text env context_key 128 @ '';action='' @ action_name)) st))"

definition remember :: "int \<Rightarrow> observation list \<Rightarrow> correlation_record \<Rightarrow> correlation_record" where
  "remember now candidate r = \<lparr>cx_updated_at = now,
     cx_context = retain_recent CAPABILITY_CONTEXT_OBSERVATION_LIMIT (context_extend candidate (cx_context r))\<rparr>"

definition authorize_capability_correlation ::
    "auth_env \<Rightarrow> int \<Rightarrow> string \<Rightarrow> action_def \<Rightarrow> json \<Rightarrow> action_authorization \<Rightarrow> runtime_state \<Rightarrow> authorization_decision option \<times> runtime_state" where
  "authorize_capability_correlation env now action_name a arguments c st =
    (if ac_surface c = InternalSurface \<or> ac_surface c = TestSurface then (None, st)
     else (case capability_context_key c of None \<Rightarrow> (None, st)
     | Some key \<Rightarrow>
        (let candidate = authorization_observations_for_invocation env action_name a arguments st in
         if candidate = [] then (None, st)
         else
          (let contexts = prune_capability_run_contexts now (rt_contexts st);
               r = (case map_of contexts key of Some r \<Rightarrow> r
                 | None \<Rightarrow> \<lparr>cx_updated_at = now, cx_context = \<lparr>rc_observations = []\<rparr>\<rparr>);
               d = evaluate_capability_correlation (rc_observations (cx_context r)) candidate;
               kept = st\<lparr>rt_contexts := AList.update key r contexts\<rparr>;
               extended = st\<lparr>rt_contexts := AList.update key (remember now candidate r) contexts\<rparr>
           in case cd_effect d of
                EffectAllow \<Rightarrow> (None, extended)
              | EffectBlock \<Rightarrow>
                  (if direct_trusted_chat_tool_override c
                   then (None, record_capability_correlation_decision env now action_name key ''direct_chat_allowed'' d extended)
                   else (Some (deny (capability_correlation_message action_name d)),
                         record_capability_correlation_decision env now action_name key ''blocked'' d kept))
              | EffectRequireApproval \<Rightarrow>
                  (None, record_capability_correlation_decision env now action_name key ''approval_disabled'' d extended)))))"

section \<open>The decision\<close>

definition tool :: "string \<Rightarrow> string" where
  "tool action_name = ''Tool '' @ q action_name"

definition role_decision :: "string \<Rightarrow> action_policy \<Rightarrow> action_authorization \<Rightarrow> authorization_decision" where
  "role_decision action_name z c = (case ac_principal c of
     None \<Rightarrow> deny (tool action_name @ '' requires an authorized local session with role access.'')
   | Some p \<Rightarrow> (case find (\<lambda>role. eq_ignore_case role (pr_role p)) (az_allowed_roles z) of
       Some role \<Rightarrow> (allow (tool action_name @ '' is allowed for the current trusted local session.''))\<lparr>de_matched_role := Some role\<rparr>
     | None \<Rightarrow> deny (tool action_name @ '' is not allowed for the current local session role '' @ q (pr_role p) @ ''.'')))"

definition surface_decision :: "string \<Rightarrow> action_policy \<Rightarrow> action_authorization \<Rightarrow> authorization_decision" where
  "surface_decision action_name z c =
    (if ac_surface c = InternalSurface \<or> ac_surface c = TestSurface then
       allow ''Internal execution bypassed the interactive permission gate.''
     else if ha_required (az_human_approval z) \<and> \<not> ac_current_turn_is_explicit_approval c then
       allow (tool action_name @ '' is allowed because interactive approval gates are disabled.'')
     else if direct_trusted_chat_tool_override c then
       allow (tool action_name @ '' is allowed because this is a direct authenticated chat request.'')
     else if ac_direct_user_intent c \<and> (ac_surface c = ChatSurface \<or> ac_surface c = ApiSurface) \<and> trusted_principal c then
       allow (tool action_name @ '' is allowed because this is a direct authenticated user request.'')
     else if is_background_surface (ac_surface c) \<and> ac_direct_user_intent c \<and> trusted_principal c then
       allow (tool action_name @ '' is allowed because this automation originated from a direct authenticated user request.'')
     else if is_background_surface (ac_surface c) \<and> risk_rank RiskHigh \<le> risk_rank (az_risk_level z) then
       deny (tool action_name @ '' is blocked in background or automation runs. Start it from a direct authenticated chat or API request instead.'')
     else if az_requires_auth z \<and> \<not> trusted_principal c then
       deny (tool action_name @ '' requires a trusted local session. Run it from the authenticated UI or API instead of a background or anonymous context.'')
     else if az_allowed_roles z \<noteq> [] then role_decision action_name z c
     else allow (tool action_name @ '' is allowed for this request.''))"

definition AUTO_APPROVE_BLOCKED :: "string list" where
  "AUTO_APPROVE_BLOCKED = [''shell'', ''bash'', ''code_execute'', ''file_write'', ''file_delete'', ''file_move'', ''docker_exec'',
     ''http_request'', ''lan_discover'', ''gmail_send'']"

definition permission_display_label :: "permission \<Rightarrow> string" where
  "permission_display_label p = intercalate '' '' (filter (\<lambda>part. trim part \<noteq> [])
     (split_on (\<lambda>c. c = CHR ''_'' \<or> c = CHR ''-'') (permission_text p)))"

definition build_permission_requirement_error :: "string \<Rightarrow> permission list \<Rightarrow> string" where
  "build_permission_requirement_error action_name permissions =
     ''Action '' @ q action_name @ '' requires approval before execution because it needs unapproved permissions: ''
     @ intercalate '', '' (map permission_display_label permissions) @ ''. ''
     @ (if action_name \<in> set AUTO_APPROVE_BLOCKED
        then ''This permission always requires an explicit approval for the current run.''
        else ''Approve the prompt to continue this run.'')"

definition unapproved_permissions_for_action :: "action_def \<Rightarrow> json \<Rightarrow> action_authorization \<Rightarrow> permission list" where
  "unapproved_permissions_for_action a arguments c = []"

definition authorize_action_invocation ::
    "auth_env \<Rightarrow> int \<Rightarrow> string \<Rightarrow> action_def option \<Rightarrow> json \<Rightarrow> action_authorization \<Rightarrow> runtime_state \<Rightarrow> authorization_decision \<times> runtime_state" where
  "authorize_action_invocation env now action_name a arguments c st =
    (let z = (case a of Some a \<Rightarrow> merged_authorization_for_action a | None \<Rightarrow> policy_default);
         audit = log_authorization_audit env now action_name arguments z c
     in case authorize_action_scope action_name arguments c st of
          Some d \<Rightarrow> (d, audit d st)
        | None \<Rightarrow>
            (let d = surface_decision action_name z c; st1 = audit d st in
             if \<not> de_allowed d then (d, st1)
             else (case a of None \<Rightarrow> (d, st1)
               | Some a \<Rightarrow> (case authorize_capability_correlation env now action_name a arguments c st1 of
                   (Some cd, st2) \<Rightarrow> (cd, audit cd st2)
                 | (None, st2) \<Rightarrow>
                     (let unapproved = unapproved_permissions_for_action a arguments c in
                      if unapproved \<noteq> []
                      then (let denied = require_explicit_approval (build_permission_requirement_error action_name unapproved)
                        in (denied, audit denied st2))
                      else (d, st2))))))"

end
