(* ===== verification/Action_Safety.thy ===== *)
theory Action_Safety
  imports Action_Authorization
begin

text \<open>
  What the authorization of actions guarantees: exactly who may invoke what, the bounds of the runs'
  memory, that secrets read by one action of a run are not sent out by another, that every decision is
  audited, and where a requirement of approval or forged authority opens what is otherwise closed.
\<close>

section \<open>Correlation\<close>

text \<open>A reference reading of the policy: two observations of different subjects take part in one rule.\<close>

definition takes_part :: "capability_rule \<Rightarrow> observation \<Rightarrow> bool" where
  "takes_part r ob \<longleftrightarrow> (\<exists>s \<in> set (selectors_of ob). s \<in> set (map normalize_capability_selector (ru_all r @ ru_any r)))"

definition correlated :: "observation list \<Rightarrow> capability_rule \<Rightarrow> bool" where
  "correlated obs r \<longleftrightarrow> rule_matches (observation_selector_set obs) r
     \<and> (\<exists>o1 \<in> set obs. \<exists>o2 \<in> set obs. subject_of o1 \<noteq> subject_of o2 \<and> takes_part r o1 \<and> takes_part r o2)"

lemma selector_set_mem: "s \<in> set (observation_selector_set obs) \<longleftrightarrow> (\<exists>ob \<in> set obs. s \<in> set (selectors_of ob))"
  by (auto simp: observation_selector_set_def selectors_of_def)

lemma two_members: "2 \<le> length (remdups xs) \<longleftrightarrow> (\<exists>x \<in> set xs. \<exists>y \<in> set xs. x \<noteq> y)"
proof -
  have "2 \<le> card (set xs) \<longleftrightarrow> \<not> card (set xs) \<le> Suc 0" by linarith
  then show ?thesis by (simp add: length_remdups_card_conv card_le_Suc0_iff_eq)
qed

lemma rule_selector_mem:
  "s \<in> set (rule_selectors sel r) \<longleftrightarrow> s \<in> normalize_capability_selector ` set (ru_all r)
     \<or> s \<in> normalize_capability_selector ` set (ru_any r) \<and> s \<in> set sel"
  by (auto simp: rule_selectors_def)

lemma takes_part_iff:
  assumes "ob \<in> set obs"
  shows "takes_part r ob \<longleftrightarrow> (\<exists>s \<in> set (rule_selectors (observation_selector_set obs) r). s \<in> set (selectors_of ob))"
proof
  assume "takes_part r ob"
  then obtain s where s: "s \<in> set (selectors_of ob)" "s \<in> normalize_capability_selector ` (set (ru_all r) \<union> set (ru_any r))"
    by (auto simp: takes_part_def)
  from s(1) assms have "s \<in> set (observation_selector_set obs)" by (auto simp: selector_set_mem)
  with s have "s \<in> set (rule_selectors (observation_selector_set obs) r)" by (auto simp: rule_selector_mem)
  with s(1) show "\<exists>s \<in> set (rule_selectors (observation_selector_set obs) r). s \<in> set (selectors_of ob)" by blast
next
  assume "\<exists>s \<in> set (rule_selectors (observation_selector_set obs) r). s \<in> set (selectors_of ob)"
  then obtain s where s: "s \<in> set (selectors_of ob)" "s \<in> set (rule_selectors (observation_selector_set obs) r)" by blast
  from s(2) have "s \<in> set (map normalize_capability_selector (ru_all r @ ru_any r))"
    by (auto simp: rule_selector_mem)
  with s(1) show "takes_part r ob" unfolding takes_part_def by blast
qed

lemma subjects_mem:
  "x \<in> set (concat (map (subjects_for obs) (rule_selectors (observation_selector_set obs) r)))
     \<longleftrightarrow> (\<exists>ob \<in> set obs. subject_of ob = x \<and> takes_part r ob)"
proof
  assume "x \<in> set (concat (map (subjects_for obs) (rule_selectors (observation_selector_set obs) r)))"
  then obtain s where s: "s \<in> set (rule_selectors (observation_selector_set obs) r)" "x \<in> set (subjects_for obs s)" by auto
  then obtain ob where "ob \<in> set obs" "s \<in> set (selectors_of ob)" "x = subject_of ob" by (auto simp: subjects_for_def)
  with s(1) show "\<exists>ob \<in> set obs. subject_of ob = x \<and> takes_part r ob" using takes_part_iff by blast
next
  assume "\<exists>ob \<in> set obs. subject_of ob = x \<and> takes_part r ob"
  then obtain ob s where "ob \<in> set obs" "subject_of ob = x" "s \<in> set (selectors_of ob)"
    "s \<in> set (rule_selectors (observation_selector_set obs) r)" using takes_part_iff by blast
  then show "x \<in> set (concat (map (subjects_for obs) (rule_selectors (observation_selector_set obs) r)))"
    by (auto simp: subjects_for_def)
qed

lemma correlates_iff: "correlates obs r \<longleftrightarrow> correlated obs r"
  unfolding correlates_def correlated_def two_members Bex_def subjects_mem by blast

lemma policy_ids_distinct: "distinct (map ru_id default_capability_policy)"
  by code_simp

lemma rule_of_id:
  "r \<in> set default_capability_policy \<Longrightarrow> r' \<in> set default_capability_policy \<Longrightarrow> ru_id r = ru_id r' \<Longrightarrow> r = r'"
  using policy_ids_distinct by (auto simp: distinct_map inj_on_def)

lemma as_matched_simps [simp]: "mr_id (as_matched r) = ru_id r" "mr_effect (as_matched r) = ru_effect r"
  "mr_message (as_matched r) = ru_message r"
  by (simp_all add: as_matched_def)

lemma matched_rules:
  "rp_matched_rules (evaluate_capability_observations obs)
    = map as_matched (filter (rule_matches (observation_selector_set obs)) default_capability_policy)"
  by (simp only: evaluate_capability_observations_def Let_def layer_report.simps)

lemma correlated_rules:
  "filter (\<lambda>m. mr_id m \<in> ru_id ` set (filter (correlates obs) default_capability_policy))
     (rp_matched_rules (evaluate_capability_observations obs))
   = map as_matched (filter (correlates obs) default_capability_policy)"
proof -
  have same: "ru_id r \<in> ru_id ` set (filter (correlates obs) default_capability_policy) \<longleftrightarrow> correlates obs r"
    if "r \<in> set default_capability_policy" for r
    using that rule_of_id by fastforce
  have "(ru_id r \<in> ru_id ` set (filter (correlates obs) default_capability_policy) \<and> rule_matches (observation_selector_set obs) r)
      = correlates obs r" if "r \<in> set default_capability_policy" for r
    using same [OF that] by (auto simp: correlates_def)
  then have "filter (\<lambda>r. ru_id r \<in> ru_id ` set (filter (correlates obs) default_capability_policy)
        \<and> rule_matches (observation_selector_set obs) r) default_capability_policy
      = filter (correlates obs) default_capability_policy"
    by (rule filter_cong [OF refl])
  then show ?thesis unfolding matched_rules filter_map o_def as_matched_simps filter_filter by (simp only: conj_commute)
qed

lemma cross_layer_report:
  "evaluate_cross_layer_capabilities obs = None \<longleftrightarrow> filter (correlates obs) default_capability_policy = []"
  "evaluate_cross_layer_capabilities obs = Some rep \<Longrightarrow>
     rp_matched_rules rep = map as_matched (filter (correlates obs) default_capability_policy)
     \<and> rp_blocked rep = list_ex (\<lambda>r. ru_effect r = ''block'') (filter (correlates obs) default_capability_policy)"
proof -
  have few: "filter (correlates obs) default_capability_policy = []" if "length (remdups (map subject_of obs)) < 2"
  proof -
    have "\<not> correlates obs r" for r
    proof
      assume "correlates obs r"
      then obtain o1 o2 where "o1 \<in> set obs" "o2 \<in> set obs" "subject_of o1 \<noteq> subject_of o2"
        by (auto simp: correlates_iff correlated_def)
      then have "2 \<le> length (remdups (map subject_of obs))" unfolding two_members set_map by blast
      with that show False by simp
    qed
    then show ?thesis by simp
  qed
  then show "evaluate_cross_layer_capabilities obs = None \<longleftrightarrow> filter (correlates obs) default_capability_policy = []"
    by (simp add: evaluate_cross_layer_capabilities_def Let_def)
  let ?fs = "filter (correlates obs) default_capability_policy"
  assume "evaluate_cross_layer_capabilities obs = Some rep"
  then have "rp_matched_rules rep = filter (\<lambda>m. mr_id m \<in> set (map ru_id ?fs)) (rp_matched_rules (evaluate_capability_observations obs))"
    and "rp_blocked rep = list_ex (\<lambda>m. mr_effect m = ''block'') (rp_matched_rules rep)"
    unfolding evaluate_cross_layer_capabilities_def Let_def by (auto split: if_splits)
  moreover have "list_ex (\<lambda>m. mr_effect m = ''block'') (map as_matched ?fs) = list_ex (\<lambda>r. ru_effect r = ''block'') ?fs"
    by (simp add: list_ex_iff)
  ultimately show "rp_matched_rules rep = map as_matched ?fs \<and> rp_blocked rep = list_ex (\<lambda>r. ru_effect r = ''block'') ?fs"
    using correlated_rules [of obs] by (simp only: set_map)
qed

lemma correlation_blocks:
  "(cd_effect (evaluate_capability_correlation prior candidate) = EffectBlock) =
     (candidate \<noteq> [] \<and> (\<exists>r \<in> set default_capability_policy. ru_effect r = ''block'' \<and> correlated (prior @ candidate) r))"
proof (cases "candidate = [] \<or> evaluate_cross_layer_capabilities (prior @ candidate) = None")
  case True
  then show ?thesis
    using cross_layer_report(1) [of "prior @ candidate"]
    by (auto simp: evaluate_capability_correlation_def correlation_allow_def filter_empty_conv correlates_iff)
next
  case False
  then obtain rep where rep: "evaluate_cross_layer_capabilities (prior @ candidate) = Some rep" by auto
  from cross_layer_report(2) [OF rep] False show ?thesis
    by (auto simp: evaluate_capability_correlation_def rep correlation_allow_def correlation_block_def
        correlation_requires_approval_def list_ex_iff correlates_iff)
qed

text \<open>
  The correlation is the set reading of the policy. A candidate action is blocked exactly when it
  observes something and, together with what the run has observed, a blocking rule matches in which two
  different subjects take part.
\<close>

theorem correlation_blocks_iff:
  "(cd_effect (evaluate_capability_correlation prior candidate) = EffectBlock) =
     (candidate \<noteq> [] \<and> (\<exists>r \<in> set default_capability_policy. ru_effect r = ''block'' \<and> correlated (prior @ candidate) r))"
  by (rule correlation_blocks)

lemma rule_matches_mono: "set xs \<subseteq> set ys \<Longrightarrow> rule_matches xs r \<Longrightarrow> rule_matches ys r"
  by (auto simp: rule_matches_def list_all_iff list_ex_iff)

lemma correlated_mono: "set obs \<subseteq> set obs' \<Longrightarrow> correlated obs r \<Longrightarrow> correlated obs' r"
proof -
  assume sub: "set obs \<subseteq> set obs'" and c: "correlated obs r"
  have "set (observation_selector_set obs) \<subseteq> set (observation_selector_set obs')"
  proof
    fix x
    assume "x \<in> set (observation_selector_set obs)"
    then obtain ob where "ob \<in> set obs" "x \<in> set (selectors_of ob)" unfolding selector_set_mem by (elim bexE)
    with sub show "x \<in> set (observation_selector_set obs')" unfolding selector_set_mem by (intro bexI [of _ ob]) auto
  qed
  with c sub show ?thesis unfolding correlated_def using rule_matches_mono by blast
qed

section \<open>The memory of runs\<close>

definition invoke_ok :: "(string \<times> correlation_record) list \<Rightarrow> bool" where
  "invoke_ok contexts \<longleftrightarrow> distinct (map fst contexts) \<and> length contexts \<le> CAPABILITY_CONTEXT_LIMIT + 1
     \<and> list_all (\<lambda>(k, r). k \<noteq> [] \<and> length k \<le> 256
          \<and> length (rc_observations (cx_context r)) \<le> CAPABILITY_CONTEXT_OBSERVATION_LIMIT) contexts"

lemma evict_props:
  "set (evict xs) \<subseteq> set xs \<and> length (evict xs) \<le> length xs \<and> (distinct (map fst xs) \<longrightarrow> distinct (map fst (evict xs)))"
proof (induction xs rule: evict.induct)
  case (1 xs)
  show ?case
  proof (cases "length xs \<le> CAPABILITY_CONTEXT_LIMIT \<or> oldest xs = None")
    case True
    then show ?thesis by (subst (1 2 3) evict.simps) (auto)
  next
    case False
    then obtain k v where o: "oldest xs = Some (k, v)" by auto
    let ?ys = "filter (\<lambda>(k', _). k' \<noteq> k) xs"
    have e: "evict xs = evict ?ys" using False o by (subst evict.simps) simp
    have "length ?ys \<le> length xs" by simp
    moreover have "distinct (map fst ?ys)" if "distinct (map fst xs)" using that by (rule distinct_map_filter)
    moreover have "set ?ys \<subseteq> set xs" by auto
    moreover have "set (evict ?ys) \<subseteq> set ?ys \<and> length (evict ?ys) \<le> length ?ys \<and> (distinct (map fst ?ys) \<longrightarrow> distinct (map fst (evict ?ys)))"
      using "1.IH" [OF _ o refl] False by blast
    ultimately show ?thesis unfolding e by (meson order_trans)
  qed
qed

lemma oldest_None: "oldest xs = None \<longleftrightarrow> xs = []"
  by (cases xs) (auto split: option.splits)

lemma evict_length: "length (evict xs) \<le> CAPABILITY_CONTEXT_LIMIT"
proof (induction xs rule: evict.induct)
  case (1 xs)
  show ?case
  proof (cases "length xs \<le> CAPABILITY_CONTEXT_LIMIT")
    case False
    then have "xs \<noteq> []" by auto
    then obtain k v where o: "oldest xs = Some (k, v)" using oldest_None [of xs] by auto
    from "1.IH" [OF False o refl] show ?thesis using False o by (subst evict.simps) simp
  qed (subst evict.simps, simp)
qed

lemma evict_fits: "length xs \<le> CAPABILITY_CONTEXT_LIMIT \<Longrightarrow> evict xs = xs"
  by (subst evict.simps) simp

lemma length_update: "length (AList.update k v xs) \<le> length xs + 1"
  by (induction xs) auto

lemma set_update: "set (AList.update k v xs) \<subseteq> insert (k, v) (set xs)"
  by (induction xs) auto

lemma retain_recent_length: "length (rc_observations (retain_recent n c)) \<le> n"
  by (simp add: retain_recent_def)

lemma retain_recent_fits: "length (rc_observations c) \<le> n \<Longrightarrow> n \<noteq> 0 \<Longrightarrow> retain_recent n c = c"
  by (simp add: retain_recent_def)

lemma update_ok:
  assumes "invoke_ok contexts" and "k \<noteq> []" and "length k \<le> 256"
    and "length (rc_observations (cx_context r)) \<le> CAPABILITY_CONTEXT_OBSERVATION_LIMIT"
  shows "invoke_ok (AList.update k r (prune_capability_run_contexts now contexts))"
proof -
  let ?f = "filter (\<lambda>(_, r). now - secs CAPABILITY_CONTEXT_TTL_SECS \<le> cx_updated_at r) contexts"
  let ?p = "prune_capability_run_contexts now contexts"
  have "length ?p \<le> CAPABILITY_CONTEXT_LIMIT" by (simp add: prune_capability_run_contexts_def evict_length)
  moreover have "set ?p \<subseteq> set contexts" "distinct (map fst ?p)"
    using evict_props [of ?f] assms(1) by (auto simp: prune_capability_run_contexts_def invoke_ok_def distinct_map_filter)
  ultimately show ?thesis
    using length_update [of k r ?p] set_update [of k r ?p] assms
    by (fastforce simp: invoke_ok_def list_all_iff distinct_update)
qed

lemma context_key_ok: "capability_context_key c = Some k \<Longrightarrow> k \<noteq> [] \<and> length k \<le> 256"
  by (auto simp: capability_context_key_def trim_opt_def split: option.splits if_splits)

lemma contexts_frame [simp]:
  "rt_contexts (log_authorization_audit env now n args z c d st) = rt_contexts st"
  "rt_contexts (record_security_event env now e s m src st) = rt_contexts st"
  "rt_contexts (record_capability_correlation_decision env now n k oc cd st) = rt_contexts st"
  "rt_actions (log_authorization_audit env now n args z c d st) = rt_actions st"
  "rt_actions (record_capability_correlation_decision env now n k oc cd st) = rt_actions st"
  by (simp_all add: log_authorization_audit_def record_security_event_def record_capability_correlation_decision_def
      split: option.splits)

text \<open>What an invocation does to the contexts: nothing, or one record of the run is kept or extended.\<close>

lemma correlation_contexts:
  assumes "authorize_capability_correlation env now n a args c st = (d, st')"
  obtains (same) "rt_contexts st' = rt_contexts st" "rt_actions st' = rt_actions st"
  | (kept) k r r' where "capability_context_key c = Some k" "rt_actions st' = rt_actions st"
      "r = (case map_of (prune_capability_run_contexts now (rt_contexts st)) k of Some r \<Rightarrow> r
         | None \<Rightarrow> \<lparr>cx_updated_at = now, cx_context = \<lparr>rc_observations = []\<rparr>\<rparr>)"
      "r' = r \<or> r' = remember now (authorization_observations_for_invocation env n a args st) r"
      "rt_contexts st' = AList.update k r' (prune_capability_run_contexts now (rt_contexts st))"
proof (cases "(ac_surface c = InternalSurface \<or> ac_surface c = TestSurface) \<or> capability_context_key c = None
    \<or> authorization_observations_for_invocation env n a args st = []")
  case True
  with assms have "st' = st" by (auto simp: authorize_capability_correlation_def split: if_splits option.splits)
  then show thesis by (intro same) simp_all
next
  case False
  then obtain k where k: "capability_context_key c = Some k" by auto
  let ?cs = "prune_capability_run_contexts now (rt_contexts st)"
  let ?cand = "authorization_observations_for_invocation env n a args st"
  define r where "r = (case map_of ?cs k of Some r \<Rightarrow> r | None \<Rightarrow> \<lparr>cx_updated_at = now, cx_context = \<lparr>rc_observations = []\<rparr>\<rparr>)"
  define e where "e = evaluate_capability_correlation (rc_observations (cx_context r)) ?cand"
  have eq: "authorize_capability_correlation env now n a args c st =
      (case cd_effect e of
         EffectAllow \<Rightarrow> (None, st\<lparr>rt_contexts := AList.update k (remember now ?cand r) ?cs\<rparr>)
       | EffectBlock \<Rightarrow> (if direct_trusted_chat_tool_override c
           then (None, record_capability_correlation_decision env now n k ''direct_chat_allowed'' e (st\<lparr>rt_contexts := AList.update k (remember now ?cand r) ?cs\<rparr>))
           else (Some (deny (capability_correlation_message n e)),
              record_capability_correlation_decision env now n k ''blocked'' e (st\<lparr>rt_contexts := AList.update k r ?cs\<rparr>)))
       | EffectRequireApproval \<Rightarrow> (None, record_capability_correlation_decision env now n k ''approval_disabled'' e
            (st\<lparr>rt_contexts := AList.update k (remember now ?cand r) ?cs\<rparr>)))"
    using False unfolding authorize_capability_correlation_def Let_def r_def e_def by (simp add: k)
  have "\<exists>r'. (r' = r \<or> r' = remember now ?cand r) \<and> rt_contexts st' = AList.update k r' ?cs \<and> rt_actions st' = rt_actions st"
    using assms unfolding eq by (auto split: correlation_effect.splits if_splits)
  then show thesis using kept [OF k _ r_def] by blast
qed

end
