(* ===== verification/Action_Decision.thy ===== *)
theory Action_Decision
  imports Action_Safety
begin

text \<open>
  Who may invoke an action: the branches of \<open>authorize_action_invocation\<close> read as one condition, what a
  requirement of approval does to it, and the audit of every decision.
\<close>

text \<open>The branches after the scope, as a condition.\<close>

definition direct_request :: "action_authorization \<Rightarrow> bool" where
  "direct_request c \<longleftrightarrow> ac_direct_user_intent c \<and> trusted_principal c
     \<and> ac_surface c \<in> {ChatSurface, ApiSurface, AutomationSurface, BackgroundSurface}"

definition role_granted :: "action_policy \<Rightarrow> action_authorization \<Rightarrow> bool" where
  "role_granted z c \<longleftrightarrow> az_allowed_roles z = []
     \<or> (\<exists>p. ac_principal c = Some p \<and> (\<exists>role \<in> set (az_allowed_roles z). eq_ignore_case role (pr_role p)))"

definition gate_bypassed :: "action_policy \<Rightarrow> action_authorization \<Rightarrow> bool" where
  "gate_bypassed z c \<longleftrightarrow> ac_surface c \<in> {InternalSurface, TestSurface}
     \<or> ha_required (az_human_approval z) \<and> \<not> ac_current_turn_is_explicit_approval c \<or> direct_request c"

definition permitted :: "action_policy \<Rightarrow> action_authorization \<Rightarrow> bool" where
  "permitted z c \<longleftrightarrow> gate_bypassed z c
     \<or> (\<not> (is_background_surface (ac_surface c) \<and> RiskHigh \<le> az_risk_level z)
        \<and> (az_requires_auth z \<longrightarrow> trusted_principal c) \<and> role_granted z c)"

lemma role_decision_allowed:
  "az_allowed_roles z \<noteq> [] \<Longrightarrow> de_allowed (role_decision n z c) = role_granted z c"
  by (auto simp: role_decision_def role_granted_def find_None_iff find_Some_iff allow_def split: option.splits)

lemma surface_decision_allowed: "de_allowed (surface_decision n z c) = permitted z c"
proof (cases "gate_bypassed z c")
  case True
  then show ?thesis
    unfolding permitted_def gate_bypassed_def direct_request_def surface_decision_def is_background_surface_def
      direct_trusted_chat_tool_override_def
    by (cases "ac_surface c") auto
next
  case False
  have nd: "\<not> direct_trusted_chat_tool_override c"
    "\<not> (ac_direct_user_intent c \<and> (ac_surface c = ChatSurface \<or> ac_surface c = ApiSurface) \<and> trusted_principal c)"
    "\<not> (is_background_surface (ac_surface c) \<and> ac_direct_user_intent c \<and> trusted_principal c)"
    "\<not> (ac_surface c = InternalSurface \<or> ac_surface c = TestSurface)"
    "\<not> (ha_required (az_human_approval z) \<and> \<not> ac_current_turn_is_explicit_approval c)"
    using False by (auto simp: gate_bypassed_def direct_request_def direct_trusted_chat_tool_override_def is_background_surface_def)
  show ?thesis
    using False
    unfolding surface_decision_def permitted_def if_not_P [OF nd(1)] if_not_P [OF nd(2)] if_not_P [OF nd(3)]
      if_not_P [OF nd(4)] if_not_P [OF nd(5)]
    by (cases "az_allowed_roles z = []") (simp_all add: role_decision_allowed less_eq_risk_level_def role_granted_def)
qed

lemma correlation_denies:
  "authorize_capability_correlation env now n a args c st = (Some d, st') \<Longrightarrow> \<not> de_allowed d"
  by (auto simp: authorize_capability_correlation_def Let_def split: if_splits option.splits correlation_effect.splits)

lemma scope_denies: "authorize_action_scope n args c st = Some d \<Longrightarrow> \<not> de_allowed d"
  by (auto simp: authorize_action_scope_def Let_def split: option.splits)

text \<open>The correlation looks neither at the audit nor at the event rows.\<close>

lemma observations_audit_frame [simp]:
  "authorization_observations_for_invocation env n a args (log_authorization_audit env now m args' z c d st)
     = authorization_observations_for_invocation env n a args st"
  by (simp add: authorization_observations_for_invocation_def action_definition_def)

definition correlation_verdict :: "auth_env \<Rightarrow> int \<Rightarrow> string \<Rightarrow> action_def \<Rightarrow> json \<Rightarrow> action_authorization \<Rightarrow> runtime_state \<Rightarrow> authorization_decision option" where
  "correlation_verdict env now n a args c st = fst (authorize_capability_correlation env now n a args c st)"

lemma correlation_verdict_audit [simp]:
  "correlation_verdict env now n a args c (log_authorization_audit env now m args' z c' d st)
     = correlation_verdict env now n a args c st"
  by (auto simp: correlation_verdict_def authorize_capability_correlation_def Let_def
      split: option.splits correlation_effect.splits)

lemma invocation_allowed:
  "de_allowed (fst (authorize_action_invocation env now n (Some a) args c st)) =
     (authorize_action_scope n args c st = None \<and> permitted (merged_authorization_for_action a) c
      \<and> correlation_verdict env now n a args c st = None)"
proof (cases "authorize_action_scope n args c st")
  case (Some d)
  then show ?thesis using scope_denies by (simp add: authorize_action_invocation_def Let_def)
next
  case None
  let ?z = "merged_authorization_for_action a"
  define st1 where "st1 = log_authorization_audit env now n args ?z c (surface_decision n ?z c) st"
  have v: "correlation_verdict env now n a args c st1 = correlation_verdict env now n a args c st"
    by (simp add: st1_def)
  obtain cd st2 where r: "authorize_capability_correlation env now n a args c st1 = (cd, st2)" by fastforce
  with v have cv: "correlation_verdict env now n a args c st = cd" by (simp add: correlation_verdict_def)
  show ?thesis
    using None r correlation_denies [of env now n a args c st1]
    unfolding authorize_action_invocation_def Let_def cv surface_decision_allowed [of n, symmetric]
    by (auto simp: st1_def [symmetric] unapproved_permissions_for_action_def split: option.splits)
qed

text \<open>
  What the run so far makes of an invocation, read as a condition: the observations remembered under the
  run's key, together with those of the invocation, match a blocking rule. A correlation whose effect is
  \<open>RequireApproval\<close> is recorded as \<open>approval_disabled\<close> and stops nothing.
\<close>

definition remembered :: "int \<Rightarrow> runtime_state \<Rightarrow> string \<Rightarrow> observation list" where
  "remembered now st key = (case map_of (prune_capability_run_contexts now (rt_contexts st)) key of
     Some r \<Rightarrow> rc_observations (cx_context r) | None \<Rightarrow> [])"

definition run_effect :: "auth_env \<Rightarrow> int \<Rightarrow> string \<Rightarrow> action_def \<Rightarrow> json \<Rightarrow> string \<Rightarrow> runtime_state \<Rightarrow> correlation_effect" where
  "run_effect env now n a args key st = cd_effect (evaluate_capability_correlation (remembered now st key)
     (authorization_observations_for_invocation env n a args st))"

definition blocked_by_run :: "auth_env \<Rightarrow> int \<Rightarrow> string \<Rightarrow> action_def \<Rightarrow> json \<Rightarrow> action_authorization \<Rightarrow> runtime_state \<Rightarrow> bool" where
  "blocked_by_run env now n a args c st \<longleftrightarrow>
     ac_surface c \<noteq> InternalSurface \<and> ac_surface c \<noteq> TestSurface \<and> \<not> direct_trusted_chat_tool_override c
     \<and> (\<exists>key. capability_context_key c = Some key \<and> run_effect env now n a args key st = EffectBlock)"

lemma no_candidate_no_effect: "cd_effect (evaluate_capability_correlation prior []) = EffectAllow"
  by (simp add: evaluate_capability_correlation_def correlation_allow_def)

lemma correlation_verdict_iff:
  "correlation_verdict env now n a args c st = None \<longleftrightarrow> \<not> blocked_by_run env now n a args c st"
proof (cases "ac_surface c = InternalSurface \<or> ac_surface c = TestSurface \<or> capability_context_key c = None
    \<or> authorization_observations_for_invocation env n a args st = []")
  case True
  then show ?thesis
    by (auto simp: correlation_verdict_def authorize_capability_correlation_def blocked_by_run_def run_effect_def
        no_candidate_no_effect Let_def split: option.splits)
next
  case False
  then obtain key where k: "capability_context_key c = Some key" by auto
  have r: "rc_observations (cx_context (case map_of (prune_capability_run_contexts now (rt_contexts st)) key of Some r \<Rightarrow> r
      | None \<Rightarrow> \<lparr>cx_updated_at = now, cx_context = \<lparr>rc_observations = []\<rparr>\<rparr>)) = remembered now st key"
    by (simp add: remembered_def split: option.split)
  show ?thesis
    using False k
    by (simp add: correlation_verdict_def authorize_capability_correlation_def blocked_by_run_def run_effect_def r Let_def
        split: correlation_effect.split)
qed

text \<open>
  C4. Exactly who may invoke a known action. The invocation is allowed if and only if the agent's access
  scope covers the action, the surface, the principal and the role are permitted by the merged policy
  (internal and test surfaces and direct requests of a trusted principal pass; a background surface fails
  from high risk up; a policy that requires authentication fails without a trusted principal; a list of
  roles must name the principal's role; a policy that requires human approval passes when the turn
  carries none), and the run does not block it: there is a run key, the surface is neither internal nor
  test, the request is no direct one of a trusted principal in the chat, and the observations remembered
  for the run and those of the invocation have the effect \<open>EffectBlock\<close>. Of the other two effects neither
  stops the invocation, \<open>EffectRequireApproval\<close> included: \<open>arksentinel.md\<close> says that approval is then
  required, but the gate only records \<open>approval_disabled\<close> and lets the action run.
\<close>

theorem invocation_allowed_iff:
  "de_allowed (fst (authorize_action_invocation env now n (Some a) args c st)) =
     (authorize_action_scope n args c st = None \<and> permitted (merged_authorization_for_action a) c
      \<and> \<not> blocked_by_run env now n a args c st)"
  by (simp add: invocation_allowed correlation_verdict_iff)

text \<open>
  The approval that a correlation asks for is asked of nobody: an invocation whose run has the effect
  \<open>RequireApproval\<close> is allowed exactly when the policy alone allows it.
\<close>

lemma correlation_approval_ignored:
  assumes "capability_context_key c = Some key" and "run_effect env now n a args key st = EffectRequireApproval"
  shows "de_allowed (fst (authorize_action_invocation env now n (Some a) args c st)) =
     (authorize_action_scope n args c st = None \<and> permitted (merged_authorization_for_action a) c)"
  using assms by (simp add: invocation_allowed correlation_verdict_iff blocked_by_run_def)

lemma background_denied:
  assumes "is_background_surface (ac_surface c)" and "RiskHigh \<le> az_risk_level z"
    and "\<not> (ac_direct_user_intent c \<and> trusted_principal c)"
    and "\<not> ha_required (az_human_approval z) \<or> ac_current_turn_is_explicit_approval c"
  shows "\<not> permitted z c"
  using assms by (auto simp: permitted_def gate_bypassed_def direct_request_def is_background_surface_def)

text \<open>
  A requirement of approval opens the gate. An action of high risk, run in the background by nobody
  in particular and without approval, is denied; declaring that the same action requires human approval
  makes the gate say yes to it, whatever else its policy demands.
\<close>

theorem approval_requirement_grants:
  assumes "is_background_surface (ac_surface c)" and "RiskHigh \<le> az_risk_level z"
    and "\<not> (ac_direct_user_intent c \<and> trusted_principal c)"
    and "\<not> ha_required (az_human_approval z)" and "\<not> ac_current_turn_is_explicit_approval c"
  shows "\<not> de_allowed (surface_decision n z c)
    \<and> de_allowed (surface_decision n (z\<lparr>az_human_approval := (az_human_approval z)\<lparr>ha_required := True\<rparr>\<rparr>) c)
    \<and> (\<exists>c'. ac_current_turn_is_explicit_approval c' \<and> c = c'\<lparr>ac_current_turn_is_explicit_approval := False\<rparr>
        \<and> \<not> de_allowed (surface_decision n (z\<lparr>az_human_approval := (az_human_approval z)\<lparr>ha_required := True\<rparr>\<rparr>) c'))"
proof (intro conjI exI)
  let ?a = "c\<lparr>ac_current_turn_is_explicit_approval := True\<rparr>"
  let ?z = "z\<lparr>az_human_approval := (az_human_approval z)\<lparr>ha_required := True\<rparr>\<rparr>"
  show "\<not> de_allowed (surface_decision n z c)"
    unfolding surface_decision_allowed using assms by (intro background_denied) auto
  show "de_allowed (surface_decision n ?z c)"
    unfolding surface_decision_allowed using assms by (simp add: permitted_def gate_bypassed_def)
  show "ac_current_turn_is_explicit_approval ?a" by simp
  show "c = ?a\<lparr>ac_current_turn_is_explicit_approval := False\<rparr>" using assms by simp
  show "\<not> de_allowed (surface_decision n ?z ?a)"
    unfolding surface_decision_allowed using assms
    by (intro background_denied) (auto simp: trusted_principal_def)
qed

section \<open>Audit\<close>

lemma audit_frame [simp]: "rt_audit (record_capability_correlation_decision env now n k oc cd st) = rt_audit st"
  by (simp add: record_capability_correlation_decision_def record_security_event_def Let_def split: option.splits)

lemma correlation_audit: "authorize_capability_correlation env now n a args c st = (d, st') \<Longrightarrow> rt_audit st' = rt_audit st"
  by (auto simp: authorize_capability_correlation_def Let_def split: if_splits option.splits correlation_effect.splits)

definition audit_row_of :: "audit_row \<Rightarrow> auth_env \<Rightarrow> string \<Rightarrow> action_authorization \<Rightarrow> authorization_decision \<Rightarrow> bool" where
  "audit_row_of row env n c d \<longleftrightarrow> au_success row = de_allowed d \<and> au_event_type row = ''tool_authorization''
     \<and> au_tool_name row = Some (truncate_audit_text env n 128)
     \<and> au_channel row = truncate_audit_text env (surface_key (ac_surface c)) 64"
lemma audit_appends:
  "\<exists>row. rt_audit (log_authorization_audit env now n args z c d st) = rt_audit st @ [row] \<and> audit_row_of row env n c d"
  unfolding log_authorization_audit_def audit_row_of_def by simp

text \<open>
  Every decision is audited. An invocation appends one row or two to the operational log and rewrites
  none; each is a row of this tool, and the last carries the decision that was returned.
\<close>

theorem audit_complete:
  "\<exists>rows. rt_audit (snd (authorize_action_invocation env now n a args c st)) = rt_audit st @ rows
     \<and> length rows \<in> {1, 2} \<and> list_all (\<lambda>r. \<exists>d. audit_row_of r env n c d) rows
     \<and> audit_row_of (last rows) env n c (fst (authorize_action_invocation env now n a args c st))"
proof -
  let ?z = "case a of Some a \<Rightarrow> merged_authorization_for_action a | None \<Rightarrow> policy_default"
  let ?d = "surface_decision n ?z c"
  let ?st1 = "log_authorization_audit env now n args ?z c ?d st"
  show ?thesis
  proof (cases "authorize_action_scope n args c st")
    case (Some d)
    then have e: "authorize_action_invocation env now n a args c st = (d, log_authorization_audit env now n args ?z c d st)"
      by (simp add: authorize_action_invocation_def)
    obtain row where "rt_audit (log_authorization_audit env now n args ?z c d st) = rt_audit st @ [row]"
      "audit_row_of row env n c d" using audit_appends by blast
    with e show ?thesis by (intro exI [of _ "[row]"]) auto
  next
    case scope: None
    obtain row where row: "rt_audit ?st1 = rt_audit st @ [row]" "audit_row_of row env n c ?d"
      using audit_appends by blast
    show ?thesis
    proof (cases "de_allowed ?d \<and> a \<noteq> None")
      case False
      then have "authorize_action_invocation env now n a args c st = (?d, ?st1)"
        using scope by (cases a) (auto simp: authorize_action_invocation_def Let_def)
      with row show ?thesis by (intro exI [of _ "[row]"]) auto
    next
      case True
      then obtain b where b: "a = Some b" by auto
      obtain cd st2 where r: "authorize_capability_correlation env now n b args c ?st1 = (cd, st2)" by fastforce
      have st2: "rt_audit st2 = rt_audit st @ [row]" using correlation_audit [OF r] row by simp
      show ?thesis
      proof (cases cd)
        case None
        with True b r scope have "authorize_action_invocation env now n a args c st = (?d, st2)"
          by (simp add: authorize_action_invocation_def unapproved_permissions_for_action_def)
        with row st2 show ?thesis by (intro exI [of _ "[row]"]) auto
      next
        case (Some d)
        with True b r scope have e: "authorize_action_invocation env now n a args c st
            = (d, log_authorization_audit env now n args ?z c d st2)"
          by (simp add: authorize_action_invocation_def)
        obtain row2 where "rt_audit (log_authorization_audit env now n args ?z c d st2) = rt_audit st2 @ [row2]"
          "audit_row_of row2 env n c d" using audit_appends by blast
        with row st2 e show ?thesis by (intro exI [of _ "[row, row2]"]) auto
      qed
    qed
  qed
qed

section \<open>Scopes\<close>

text \<open>The action's declared target, as the invocation would resolve it.\<close>

definition hint_of :: "string \<Rightarrow> runtime_state \<Rightarrow> scope_hint" where
  "hint_of n st = (case map_of (rt_actions st) n of
     Some l \<Rightarrow> action_scope_hint_for_loaded_action l | None \<Rightarrow> fallback_action_scope_hint)"

lemma first_some_None: "first_some xs = None \<longleftrightarrow> list_all (\<lambda>x. x = None) xs"
  by (induction xs rule: first_some.induct) auto

lemma scope_None:
  "ac_agent_access_scope c = Some scope \<Longrightarrow> authorize_action_scope n args c st = None \<longleftrightarrow>
     check_servers scope (hint_of n st) (scoped_actor_label c) = None \<and> check_apis scope (hint_of n st) (scoped_actor_label c) = None
     \<and> check_integrations scope (hint_of n st) (scoped_actor_label c) = None \<and> check_packs scope (hint_of n st) (scoped_actor_label c) = None
     \<and> check_ssh scope (hint_of n st) (scoped_actor_label c) n args = None
     \<and> check_channels scope (hint_of n st) (scoped_actor_label c) args = None"
  by (simp add: authorize_action_scope_def Let_def first_some_None hint_of_def)

definition within_servers :: "access_scope \<Rightarrow> scope_hint \<Rightarrow> bool" where
  "within_servers scope h \<longleftrightarrow> (sh_mcp_server_id h = None
      \<or> (\<exists>s. sh_mcp_server_id h = Some s \<and> trim s \<in> trim ` set (sc_mcp_server_ids scope)))
    \<and> (sh_custom_api_id h = None
      \<or> (\<exists>s. sh_custom_api_id h = Some s \<and> trim s \<in> trim ` set (sc_custom_api_ids scope)))"

definition within_lists :: "access_scope \<Rightarrow> scope_hint \<Rightarrow> bool" where
  "within_lists scope h \<longleftrightarrow> (sh_integration_ids h = []
      \<or> (\<exists>x \<in> set (sh_integration_ids h). \<exists>y \<in> set (sc_integration_ids scope). eq_ignore_case (trim y) (trim x)))
    \<and> (sh_extension_pack_ids h = []
      \<or> (\<exists>x \<in> set (sh_extension_pack_ids h). \<exists>y \<in> set (sc_extension_pack_ids scope). eq_ignore_case (trim y) (trim x)))"

definition within_connections :: "access_scope \<Rightarrow> scope_hint \<Rightarrow> string \<Rightarrow> json \<Rightarrow> bool" where
  "within_connections scope h n args \<longleftrightarrow> \<not> sh_requires_ssh_connection h
    \<or> sc_ssh_connection_names scope \<noteq> []
      \<and> (n = ''ssh'' \<longrightarrow> (case trim_opt (Option.bind (json_get ''connection'' args) json_as_str) of None \<Rightarrow> True
           | Some s \<Rightarrow> trim s \<in> trim ` set (sc_ssh_connection_names scope)))"

definition within_channels :: "access_scope \<Rightarrow> scope_hint \<Rightarrow> json \<Rightarrow> bool" where
  "within_channels scope h args \<longleftrightarrow> (case scoped_channel_target_for_hint h args of None \<Rightarrow> True
     | Some t \<Rightarrow> t = [] \<or> (t = ''preferred'' \<and> sc_channel_ids scope \<noteq> [])
         \<or> (t \<noteq> ''preferred'' \<and> scope_contains_channel_target (sc_channel_ids scope) t))"

lemma hint_target_None: "scoped_channel_target_for_hint h args = None \<longleftrightarrow> sh_channel_targets h = []"
  by (simp add: scoped_channel_target_for_hint_def split: list.splits)

lemma exact_mem: "scope_contains_exact_value xs s \<longleftrightarrow> trim s \<in> trim ` set xs"
  unfolding scope_contains_exact_value_def list_ex_iff image_iff by metis

text \<open>
  An agent acts within its scope. The scope check passes exactly when the agent has no scope or the
  action's server, custom API, one of its integrations, one of its packs, its connection and its
  resolved channel are in the corresponding lists of the scope; the in-app channel is always within.
\<close>

theorem scope_enforced:
  "(authorize_action_scope n args c st = None) = (case ac_agent_access_scope c of None \<Rightarrow> True
     | Some scope \<Rightarrow> within_servers scope (hint_of n st) \<and> within_lists scope (hint_of n st)
         \<and> within_connections scope (hint_of n st) n args \<and> within_channels scope (hint_of n st) args)"
proof (cases "ac_agent_access_scope c")
  case (Some scope)
  let ?h = "hint_of n st" and ?a = "scoped_actor_label c"
  have "(check_servers scope ?h ?a = None \<and> check_apis scope ?h ?a = None) = within_servers scope ?h"
    by (auto simp: check_servers_def check_apis_def within_servers_def exact_mem split: option.splits)
  moreover have "(check_integrations scope ?h ?a = None \<and> check_packs scope ?h ?a = None) = within_lists scope ?h"
    by (auto simp: check_integrations_def check_packs_def within_lists_def list_ex_iff scope_contains_case_insensitive_value_def)
  moreover have "(check_ssh scope ?h ?a n args = None) = within_connections scope ?h n args"
    by (auto simp: check_ssh_def within_connections_def exact_mem split: option.splits)
  moreover have "(check_channels scope ?h ?a args = None) = within_channels scope ?h args"
    using hint_target_None [of ?h args]
    by (auto simp: check_channels_def within_channels_def Let_def split: option.splits)
  ultimately show ?thesis using scope_None [OF Some, of n args st] by (simp add: Some) blast
qed (simp add: authorize_action_scope_def)

section \<open>Examples\<close>

definition sample_context :: "execution_surface \<Rightarrow> action_authorization" where
  "sample_context s = \<lparr>ac_principal = None, ac_surface = s, ac_direct_user_intent = False,
     ac_current_turn_is_explicit_approval = False, ac_agent_name = None, ac_agent_access_scope = None,
     ac_capability_context_id = Some ''run'', ac_request_timezone = None, ac_request_timezone_offset_minutes = None\<rparr>"

theorem approval_requirement_grants_witness:
  "de_allowed (surface_decision ''shell'' (policy_default\<lparr>az_risk_level := RiskHigh, az_human_approval := \<lparr>ha_required = True\<rparr>\<rparr>)
     (sample_context BackgroundSurface))"
  using approval_requirement_grants [of "sample_context BackgroundSurface" "policy_default\<lparr>az_risk_level := RiskHigh\<rparr>" "''shell''"]
  by (simp add: sample_context_def is_background_surface_def policy_default_def)

end
