(* ===== verification/Action_Runs.thy ===== *)
theory Action_Runs
  imports Action_Decision
begin

text \<open>
  Runs: what the authorization guarantees over a sequence of invocations. The states the runtime reaches
  keep their memory bounded, and once an action of a run has read secrets, no other action of the run may
  send anything out while the record is remembered.
\<close>

record invocation =
  iv_now :: int
  iv_name :: string
  iv_action :: "action_def option"
  iv_arguments :: json
  iv_auth :: action_authorization

definition invoke :: "auth_env \<Rightarrow> invocation \<Rightarrow> runtime_state \<Rightarrow> authorization_decision \<times> runtime_state" where
  "invoke env iv st = authorize_action_invocation env (iv_now iv) (iv_name iv) (iv_action iv) (iv_arguments iv) (iv_auth iv) st"

definition observed :: "auth_env \<Rightarrow> runtime_state \<Rightarrow> invocation \<Rightarrow> observation list" where
  "observed env st iv = (case iv_action iv of None \<Rightarrow> []
     | Some a \<Rightarrow> authorization_observations_for_invocation env (iv_name iv) a (iv_arguments iv) st)"

fun invoke_all :: "auth_env \<Rightarrow> invocation list \<Rightarrow> runtime_state \<Rightarrow> runtime_state" where
  "invoke_all env [] st = st"
| "invoke_all env (iv # ivs) st = invoke_all env ivs (snd (invoke env iv st))"

definition run_record :: "int \<Rightarrow> string \<Rightarrow> (string \<times> correlation_record) list \<Rightarrow> correlation_record" where
  "run_record now k contexts = (case map_of contexts k of Some r \<Rightarrow> r
     | None \<Rightarrow> \<lparr>cx_updated_at = now, cx_context = \<lparr>rc_observations = []\<rparr>\<rparr>)"

text \<open>An invocation leaves the memory alone or, after pruning it, keeps or extends the record of its run.\<close>

lemma invoke_contexts:
  obtains (same) "rt_contexts (snd (invoke env iv st)) = rt_contexts st" "rt_actions (snd (invoke env iv st)) = rt_actions st"
  | (kept) k r r' where "capability_context_key (iv_auth iv) = Some k" "rt_actions (snd (invoke env iv st)) = rt_actions st"
      "r = run_record (iv_now iv) k (prune_capability_run_contexts (iv_now iv) (rt_contexts st))"
      "r' = r \<or> r' = remember (iv_now iv) (observed env st iv) r"
      "rt_contexts (snd (invoke env iv st)) = AList.update k r' (prune_capability_run_contexts (iv_now iv) (rt_contexts st))"
proof (cases "iv_action iv")
  case None
  then show thesis by (intro same) (simp_all add: invoke_def authorize_action_invocation_def Let_def split: option.split)
next
  case (Some a)
  let ?now = "iv_now iv" and ?n = "iv_name iv" and ?args = "iv_arguments iv" and ?c = "iv_auth iv"
  let ?z = "merged_authorization_for_action a"
  let ?d = "surface_decision ?n ?z ?c"
  define st1 where "st1 = log_authorization_audit env ?now ?n ?args ?z ?c ?d st"
  have st1: "rt_contexts st1 = rt_contexts st" "rt_actions st1 = rt_actions st"
    "authorization_observations_for_invocation env ?n a ?args st1 = observed env st iv"
    by (simp_all add: st1_def observed_def Some)
  obtain cd st2 where r: "authorize_capability_correlation env ?now ?n a ?args ?c st1 = (cd, st2)" by fastforce
  show thesis
  proof (cases "authorize_action_scope ?n ?args ?c st = None \<and> de_allowed ?d")
    case False
    then have "rt_contexts (snd (invoke env iv st)) = rt_contexts st \<and> rt_actions (snd (invoke env iv st)) = rt_actions st"
      by (auto simp: invoke_def authorize_action_invocation_def Let_def Some split: option.split)
    then show thesis by (intro same) simp_all
  next
    case True
    have e: "rt_contexts (snd (invoke env iv st)) = rt_contexts st2" "rt_actions (snd (invoke env iv st)) = rt_actions st2"
      using True r by (simp_all add: invoke_def authorize_action_invocation_def Let_def Some st1_def
          unapproved_permissions_for_action_def split: option.split)
    from r show thesis
    proof (cases rule: correlation_contexts)
      case same
      then show thesis using that(1) e st1 by simp
    next
      case (kept k r r')
      then show thesis using that(2) [of k r r'] e st1 by (simp add: run_record_def)
    qed
  qed
qed

text \<open>The runtime's states: any table of actions, reloaded at any time, and any sequence of invocations.\<close>

inductive auth_reachable :: "auth_env \<Rightarrow> runtime_state \<Rightarrow> bool" for env where
  startup: "auth_reachable env \<lparr>rt_actions = actions, rt_contexts = [], rt_audit = [], rt_events = []\<rparr>"
| reload: "auth_reachable env st \<Longrightarrow> auth_reachable env (st\<lparr>rt_actions := actions\<rparr>)"
| authorize: "auth_reachable env st \<Longrightarrow> auth_reachable env (snd (invoke env iv st))"

lemma observation_limit: "0 < CAPABILITY_CONTEXT_OBSERVATION_LIMIT"
  by (simp add: CAPABILITY_CONTEXT_OBSERVATION_LIMIT_def)

lemma remember_length: "length (rc_observations (cx_context (remember now obs r))) \<le> CAPABILITY_CONTEXT_OBSERVATION_LIMIT"
  by (simp add: remember_def retain_recent_length)

lemma pruned_mem: "x \<in> set (prune_capability_run_contexts now contexts) \<Longrightarrow> x \<in> set contexts"
  using evict_props by (fastforce simp: prune_capability_run_contexts_def)

lemma run_record_length:
  "invoke_ok contexts \<Longrightarrow>
    length (rc_observations (cx_context (run_record now k (prune_capability_run_contexts now contexts)))) \<le> CAPABILITY_CONTEXT_OBSERVATION_LIMIT"
  unfolding run_record_def
  by (auto simp: invoke_ok_def list_all_iff dest!: map_of_SomeD pruned_mem split: option.split)

lemma invoke_keeps: "invoke_ok (rt_contexts st) \<Longrightarrow> invoke_ok (rt_contexts (snd (invoke env iv st)))"
proof (cases rule: invoke_contexts [of env iv st])
  case (kept k r r')
  assume ok: "invoke_ok (rt_contexts st)"
  have "length (rc_observations (cx_context r')) \<le> CAPABILITY_CONTEXT_OBSERVATION_LIMIT"
    using kept(3,4) run_record_length [OF ok] remember_length by auto
  then show ?thesis using kept context_key_ok [OF kept(1)] by (simp add: update_ok ok)
qed simp

text \<open>
  C22. The memory of the runs stays bounded. In every state the runtime reaches, the runs' keys are
  distinct, not blank and at most 256 characters, there are at most 129 of them (128 after a pruning and
  the one of the invocation), and each remembers at most 96 observations.
\<close>

theorem run_memory_bounded:
  assumes "auth_reachable env st"
  shows "distinct (map fst (rt_contexts st)) \<and> length (rt_contexts st) \<le> 129
    \<and> list_all (\<lambda>(k, r). k \<noteq> [] \<and> length k \<le> 256 \<and> length (rc_observations (cx_context r)) \<le> 96) (rt_contexts st)"
proof -
  from assms have "invoke_ok (rt_contexts st)"
  proof induction
    case (authorize st iv)
    then show ?case by (rule_tac invoke_keeps)
  qed (simp_all add: invoke_ok_def)
  then show ?thesis
    by (simp add: invoke_ok_def CAPABILITY_CONTEXT_LIMIT_def CAPABILITY_CONTEXT_OBSERVATION_LIMIT_def)
qed

section \<open>Secrets\<close>

definition remembers :: "string \<Rightarrow> int \<Rightarrow> observation \<Rightarrow> nat \<Rightarrow> nat \<Rightarrow> runtime_state \<Rightarrow> bool" where
  "remembers k t ob b m st \<longleftrightarrow> length (rt_contexts st) \<le> m
     \<and> (\<exists>r. map_of (rt_contexts st) k = Some r \<and> t \<le> cx_updated_at r
          \<and> ob \<in> set (rc_observations (cx_context r)) \<and> length (rc_observations (cx_context r)) \<le> b)"

lemma map_of_filter_kept: "map_of xs k = Some r \<Longrightarrow> P (k, r) \<Longrightarrow> map_of (filter P xs) k = Some r"
  by (induction xs) auto

lemma prune_keeps:
  assumes "length contexts \<le> CAPABILITY_CONTEXT_LIMIT" and "map_of contexts k = Some r"
    and "now \<le> cx_updated_at r + secs CAPABILITY_CONTEXT_TTL_SECS"
  shows "map_of (prune_capability_run_contexts now contexts) k = Some r"
    and "length (prune_capability_run_contexts now contexts) \<le> length contexts"
proof -
  let ?f = "filter (\<lambda>(_, r). now - secs CAPABILITY_CONTEXT_TTL_SECS \<le> cx_updated_at r) contexts"
  have "evict ?f = ?f" using assms(1) by (intro evict_fits) (meson length_filter_le order_trans)
  then have p: "prune_capability_run_contexts now contexts = ?f" by (simp add: prune_capability_run_contexts_def)
  show "map_of (prune_capability_run_contexts now contexts) k = Some r"
    unfolding p using assms(2,3) by (intro map_of_filter_kept) auto
  show "length (prune_capability_run_contexts now contexts) \<le> length contexts" unfolding p by simp
qed

lemma add_unseen_length: "length (add_unseen seen obs) \<le> length obs"
  by (induction seen obs rule: add_unseen.induct) auto

lemma remember_keeps:
  assumes "ob \<in> set (rc_observations (cx_context r))"
    and "length (rc_observations (cx_context r)) + length obs \<le> CAPABILITY_CONTEXT_OBSERVATION_LIMIT"
  shows "ob \<in> set (rc_observations (cx_context (remember now obs r)))"
    and "length (rc_observations (cx_context (remember now obs r))) \<le> length (rc_observations (cx_context r)) + length obs"
proof -
  let ?e = "context_extend obs (cx_context r)"
  have e: "rc_observations ?e = rc_observations (cx_context r) @ add_unseen (map context_key_of (rc_observations (cx_context r))) obs"
    by (simp add: context_extend_def)
  then have l: "length (rc_observations ?e) \<le> length (rc_observations (cx_context r)) + length obs"
    using add_unseen_length by simp
  with assms(2) have "retain_recent CAPABILITY_CONTEXT_OBSERVATION_LIMIT ?e = ?e"
    using observation_limit by (intro retain_recent_fits) simp_all
  with e l assms(1) show "ob \<in> set (rc_observations (cx_context (remember now obs r)))"
    and "length (rc_observations (cx_context (remember now obs r))) \<le> length (rc_observations (cx_context r)) + length obs"
    by (simp_all add: remember_def)
qed

lemma invoke_remembers:
  assumes "remembers k t ob b m st" and "m \<le> CAPABILITY_CONTEXT_LIMIT"
    and "b + length (observed env st iv) \<le> CAPABILITY_CONTEXT_OBSERVATION_LIMIT"
    and "t \<le> iv_now iv" and "iv_now iv \<le> t + secs CAPABILITY_CONTEXT_TTL_SECS"
  shows "remembers k t ob (b + length (observed env st iv)) (m + 1) (snd (invoke env iv st))"
proof (cases rule: invoke_contexts [of env iv st])
  case same
  with assms(1) show ?thesis by (fastforce simp: remembers_def)
next
  case (kept k' r r')
  from assms(1) obtain r0 where r0: "map_of (rt_contexts st) k = Some r0" "t \<le> cx_updated_at r0"
    "ob \<in> set (rc_observations (cx_context r0))" "length (rc_observations (cx_context r0)) \<le> b" "length (rt_contexts st) \<le> m"
    by (auto simp: remembers_def)
  let ?p = "prune_capability_run_contexts (iv_now iv) (rt_contexts st)"
  have p: "map_of ?p k = Some r0" "length ?p \<le> m"
    using prune_keeps [of "rt_contexts st" k r0 "iv_now iv"] r0 assms(2,5) by simp_all
  have m: "length (rt_contexts (snd (invoke env iv st))) \<le> m + 1"
    using length_update [of k' r' ?p] p kept by simp
  show ?thesis
  proof (cases "k' = k")
    case False
    with p kept have "map_of (rt_contexts (snd (invoke env iv st))) k = Some r0" by (simp add: update_conv')
    with m r0 show ?thesis by (auto simp: remembers_def)
  next
    case True
    with p kept have r: "r = r0" by (simp add: run_record_def)
    have "ob \<in> set (rc_observations (cx_context r')) \<and> t \<le> cx_updated_at r'
        \<and> length (rc_observations (cx_context r')) \<le> b + length (observed env st iv)"
      using kept(4) r r0 assms(3,4) remember_keeps [of ob r0 "observed env st iv" "iv_now iv"] by (auto simp: remember_def)
    with m True kept(5) show ?thesis by (simp add: remembers_def update_conv')
  qed
qed

lemma observed_actions: "rt_actions st = rt_actions st' \<Longrightarrow> observed env st = observed env st'"
  by (simp add: fun_eq_iff observed_def authorization_observations_for_invocation_def action_definition_def split: option.split)

lemma invoke_actions: "rt_actions (snd (invoke env iv st)) = rt_actions st"
  by (cases rule: invoke_contexts [of env iv st]) simp_all

lemma invoke_all_remembers:
  "remembers k t ob b m st \<Longrightarrow> m + length ivs \<le> CAPABILITY_CONTEXT_LIMIT + 1 \<Longrightarrow>
   b + (\<Sum>iv \<leftarrow> ivs. length (observed env st iv)) \<le> CAPABILITY_CONTEXT_OBSERVATION_LIMIT \<Longrightarrow>
   list_all (\<lambda>iv. t \<le> iv_now iv \<and> iv_now iv \<le> t + secs CAPABILITY_CONTEXT_TTL_SECS) ivs \<Longrightarrow>
   remembers k t ob (b + (\<Sum>iv \<leftarrow> ivs. length (observed env st iv))) (m + length ivs) (invoke_all env ivs st)"
proof (induction ivs arbitrary: st b m)
  case (Cons iv ivs)
  have o: "observed env (snd (invoke env iv st)) = observed env st" by (rule observed_actions) (simp add: invoke_actions)
  have "remembers k t ob (b + length (observed env st iv)) (m + 1) (snd (invoke env iv st))"
    using Cons.prems by (intro invoke_remembers) auto
  from Cons.IH [OF this] Cons.prems show ?case by (simp add: o add.assoc)
qed simp
lemma normalized_fixed: "normalize_capability_selector ''sends-external'' = ''sends-external''"
  "normalize_capability_selector ''reads-secrets'' = ''reads-secrets''"
  "normalize_capability_selector ''reads-env'' = ''reads-env''"
  by code_simp+

definition secret_rule :: capability_rule where
  "secret_rule = \<lparr>ru_id = ''block-secret-access-to-external-send'', ru_effect = ''block'', ru_all = [''sends-external''],
      ru_any = [''reads-secrets'', ''reads-env''],
      ru_message = ''Blocks combinations that can expose credentials or authentication material to an external destination.'', ru_severity = 10\<rparr>"

lemma secret_rule_mem: "secret_rule \<in> set default_capability_policy"
  unfolding default_capability_policy_def secret_rule_def by (simp only: list.set insert_iff simp_thms)

lemma kind_selector: "normalize_capability_kind (co_kind ob) \<in> set (selectors_of ob)"
  by (simp add: selectors_of_def observation_selector_set_def Let_def)

lemma secret_correlated:
  assumes "o1 \<in> set obs" and "o2 \<in> set obs" and "subject_of o1 \<noteq> subject_of o2"
    and "normalize_capability_kind (co_kind o1) = ''reads-secrets'' \<or> normalize_capability_kind (co_kind o1) = ''reads-env''"
    and "normalize_capability_kind (co_kind o2) = ''sends-external''"
  shows "correlated obs secret_rule"
proof -
  have s: "''sends-external'' \<in> set (selectors_of o2)" using kind_selector [of o2] assms(5) by simp
  have r: "''reads-secrets'' \<in> set (selectors_of o1) \<or> ''reads-env'' \<in> set (selectors_of o1)"
    using kind_selector [of o1] assms(4) by auto
  have "takes_part secret_rule o2" "takes_part secret_rule o1"
    using s r by (auto simp: takes_part_def secret_rule_def normalized_fixed)
  moreover have "rule_matches (observation_selector_set obs) secret_rule"
    using s r assms(1,2) unfolding rule_matches_def secret_rule_def
    by (auto simp: normalized_fixed selector_set_mem)
  ultimately show ?thesis using assms(1-3) unfolding correlated_def by blast
qed

lemma blocked_verdict:
  assumes "capability_context_key c = Some k" and "map_of (prune_capability_run_contexts now (rt_contexts st)) k = Some r"
    and "cd_effect (evaluate_capability_correlation (rc_observations (cx_context r))
           (authorization_observations_for_invocation env n a args st)) = EffectBlock"
    and "ac_surface c \<noteq> InternalSurface" and "ac_surface c \<noteq> TestSurface" and "\<not> direct_trusted_chat_tool_override c"
  shows "correlation_verdict env now n a args c st \<noteq> None"
proof -
  have "authorization_observations_for_invocation env n a args st \<noteq> []"
    using assms(3) by (auto simp: evaluate_capability_correlation_def correlation_allow_def)
  with assms show ?thesis
    by (simp add: correlation_verdict_def authorize_capability_correlation_def Let_def)
qed

text \<open>
  C3. Secrets read in a run are not sent out by another action, on the surfaces that are checked. Take a
  run that remembers an observation of reading secrets or the environment. After any further invocations,
  by this run or others, within the hour and within the limits of the memory (128 runs, 96 observations of
  the run), an action of another name that observes an external send is denied, in every role and whatever
  its own policy says, on every surface but \<open>internal\<close> and \<open>test\<close>, and unless it is a direct request of a
  trusted principal in the chat: those three the code lets through. The rule behind it blocks; the
  example of \<open>arksentinel.md\<close> gives \<open>RequireApproval\<close> for this very combination.
\<close>

theorem secret_then_send_denied:
  assumes "capability_context_key c = Some k" and "map_of (rt_contexts st) k = Some r"
    and "secret \<in> set (rc_observations (cx_context r))"
    and "normalize_capability_kind (co_kind secret) = ''reads-secrets'' \<or> normalize_capability_kind (co_kind secret) = ''reads-env''"
    and "sending \<in> set (authorization_observations_for_invocation env n a args st)"
    and "normalize_capability_kind (co_kind sending) = ''sends-external''" and "subject_of sending \<noteq> subject_of secret"
    and "ac_surface c \<noteq> InternalSurface" and "ac_surface c \<noteq> TestSurface" and "\<not> direct_trusted_chat_tool_override c"
    and "list_all (\<lambda>t. cx_updated_at r \<le> t \<and> t \<le> cx_updated_at r + secs 3600) (now # map iv_now ivs)"
    and "length (rt_contexts st) + length ivs \<le> 128"
    and "length (rc_observations (cx_context r)) + (\<Sum>iv \<leftarrow> ivs. length (observed env st iv)) \<le> 96"
  shows "\<not> de_allowed (fst (authorize_action_invocation env now n (Some a) args c (invoke_all env ivs st)))"
proof -
  let ?st = "invoke_all env ivs st" and ?t = "cx_updated_at r"
  have ttl: "secs CAPABILITY_CONTEXT_TTL_SECS = secs 3600"
    by (simp add: CAPABILITY_CONTEXT_TTL_SECS_def)
  have acts: "rt_actions (invoke_all env ivs st) = rt_actions st"
    by (induction ivs arbitrary: st) (simp_all add: invoke_actions)
  have "remembers k ?t secret (length (rc_observations (cx_context r))) (length (rt_contexts st)) st"
    using assms(2,3) by (auto simp: remembers_def)
  from invoke_all_remembers [OF this, where ivs = ivs and env = env] assms(11-13)
  have "remembers k ?t secret 96 128 ?st"
    by (auto simp: ttl CAPABILITY_CONTEXT_LIMIT_def CAPABILITY_CONTEXT_OBSERVATION_LIMIT_def remembers_def list_all_iff)
  then obtain r' where r': "map_of (rt_contexts ?st) k = Some r'" "?t \<le> cx_updated_at r'"
    "secret \<in> set (rc_observations (cx_context r'))" "length (rt_contexts ?st) \<le> 128"
    by (auto simp: remembers_def)
  have p: "map_of (prune_capability_run_contexts now (rt_contexts ?st)) k = Some r'"
    using prune_keeps(1) [of "rt_contexts ?st" k r' now] r' assms(11) by (simp add: ttl CAPABILITY_CONTEXT_LIMIT_def)
  have cand: "authorization_observations_for_invocation env n a args ?st = authorization_observations_for_invocation env n a args st"
    by (simp add: authorization_observations_for_invocation_def action_definition_def acts)
  let ?obs = "rc_observations (cx_context r') @ authorization_observations_for_invocation env n a args ?st"
  have "correlated ?obs secret_rule"
    by (rule secret_correlated [of secret ?obs sending]) (use r' assms cand in auto)
  then have "cd_effect (evaluate_capability_correlation (rc_observations (cx_context r'))
      (authorization_observations_for_invocation env n a args ?st)) = EffectBlock"
    unfolding correlation_blocks using secret_rule_mem assms(5) cand
    by (intro conjI bexI [of _ secret_rule]) (auto simp: secret_rule_def)
  from blocked_verdict [OF assms(1) p this assms(8-10)] show ?thesis by (simp add: invocation_allowed)
qed

section \<open>Examples\<close>

definition sample_auth_env :: auth_env where
  "sample_auth_env = \<lparr>ae_chrono = decimal_chrono, ae_redact_pii = (\<lambda>s. s), ae_print_json = (\<lambda>_. []), ae_policy_value = (\<lambda>_. JNull)\<rparr>"

definition sample_sender :: action_def where
  "sample_sender = action_default\<lparr>ad_name := ''post'', ad_authorization := policy_default\<lparr>az_outbound :=
     \<lparr>eg_read_only = False, eg_outbound_write = True, eg_public_publish = False\<rparr>\<rparr>\<rparr>"

definition sample_observation :: "string \<Rightarrow> string \<Rightarrow> observation" where
  "sample_observation n kind = \<lparr>co_layer = ''runtime'', co_entity_id = n, co_kind = kind, co_target = None,
     co_evidence = Some ''action authorization declares outbound writes'', co_confidence = Some 1\<rparr>"

definition sample_record :: correlation_record where
  "sample_record = \<lparr>cx_updated_at = 0, cx_context = \<lparr>rc_observations = [sample_observation ''vault'' ''reads-secrets'']\<rparr>\<rparr>"

definition sample_run :: runtime_state where
  "sample_run = \<lparr>rt_actions = [], rt_contexts = [(''run'', sample_record)], rt_audit = [], rt_events = []\<rparr>"

definition sample_invocation :: invocation where
  "sample_invocation = \<lparr>iv_now = 5, iv_name = ''clock'', iv_action = Some (action_default\<lparr>ad_name := ''clock'', ad_capabilities := [''time'']\<rparr>),
     iv_arguments = JObj [], iv_auth = sample_context AutomationSurface\<rparr>"

lemma sample_sender_observes:
  "authorization_observations_for_invocation sample_auth_env ''post'' sample_sender (JObj []) sample_run
    = map (sample_observation ''post'') [''writes-external'', ''sends-external'', ''calls-network'']"
  by code_simp

lemma sample_invocation_observes: "observed sample_auth_env sample_run sample_invocation = []"
  by code_simp

lemma sample_kinds: "normalize_capability_kind (co_kind (sample_observation n ''reads-secrets'')) = ''reads-secrets''"
  "normalize_capability_kind (co_kind (sample_observation n ''sends-external'')) = ''sends-external''"
  by (simp_all only: sample_observation_def observation.simps) code_simp+

theorem secret_then_send_denied_witness:
  "\<not> de_allowed (fst (authorize_action_invocation sample_auth_env 9 ''post'' (Some sample_sender) (JObj [])
      (sample_context AutomationSurface) (invoke_all sample_auth_env [sample_invocation] sample_run)))"
proof -
  have k: "capability_context_key (sample_context AutomationSurface) = Some ''run''" by code_simp
  show ?thesis
    by (rule secret_then_send_denied [of _ "''run''" _ sample_record "sample_observation ''vault'' ''reads-secrets''"
          "sample_observation ''post'' ''sends-external''", OF k])
      (simp_all only: sample_sender_observes sample_invocation_observes sample_kinds list.map sum_list.Cons sum_list.Nil list.size,
       simp_all add: sample_run_def sample_record_def sample_context_def direct_trusted_chat_tool_override_def subject_of_def
         sample_observation_def sample_invocation_def secs_def ns_per_sec_def)
qed

theorem run_memory_bounded_witness:
  "distinct (map fst (rt_contexts (snd (invoke sample_auth_env sample_invocation (sample_run\<lparr>rt_contexts := []\<rparr>)))))"
proof -
  have "auth_reachable sample_auth_env (snd (invoke sample_auth_env sample_invocation (sample_run\<lparr>rt_contexts := []\<rparr>)))"
    by (intro authorize) (use startup [of sample_auth_env "[]"] in \<open>simp add: sample_run_def\<close>)
  from run_memory_bounded [OF this] show ?thesis by simp
qed

end
