(* ===== verification/Watcher_Model.thy ===== *)
theory Watcher_Model
  imports Automation_Runs Task_Model
begin

text \<open>
  Watchers (\<open>core/automation/watcher.rs\<close>): the condition a watcher waits for and its validation,
  the watcher itself, when it is due, times out and next wakes the poller, the signatures that find
  duplicates, and the texts kept of a poll. Field prefix \<open>wa_\<close>.

  Instants are nanoseconds. \<open>f64\<close> values are their bits; reading and comparing them, regular
  expressions and the codec of the stored payload are parameters (\<open>watch_env\<close>).
\<close>

section \<open>Conditions\<close>

definition DEFAULT_TIMEOUT_SECS :: nat where "DEFAULT_TIMEOUT_SECS = 24 * 60 * 60"
definition MAX_TIMEOUT_SECS :: nat where "MAX_TIMEOUT_SECS = 9999 * 24 * 60 * 60"
definition MAX_STORED_RESULT_CHARS :: nat where "MAX_STORED_RESULT_CHARS = 16000"
definition MAX_STORED_NOTIFICATION_MESSAGE_CHARS :: nat where "MAX_STORED_NOTIFICATION_MESSAGE_CHARS = 8000"
definition MAX_NOTIFICATION_ATTEMPTS :: nat where "MAX_NOTIFICATION_ATTEMPTS = 12"
definition MAX_CONSECUTIVE_FAILURES_BEFORE_PAUSE :: nat where "MAX_CONSECUTIVE_FAILURES_BEFORE_PAUSE = 5"

datatype watcher_status = WActive | WPaused | WTriggered | WTimedOut | WCancelled | WFailed string

datatype poll_outcome = NoMatch | Matched | PollError

record notification_attempt =
  na_attempted_at :: int
  na_channel :: string
  na_success :: bool
  na_message :: string
  na_error :: "string option"

datatype condition_logic = LogicAll | LogicAny

datatype evaluation_mode = CurrentState | Change

datatype condition_operator = OpExists | OpNotExists | OpEq | OpNe | OpGt | OpGte | OpLt | OpLte | OpContains | OpNotContains
  | OpNonEmpty | OpEmpty | OpTrue | OpFalse | OpRegex

record json_predicate =
  jp_path :: string
  jp_operator :: condition_operator
  jp_value :: "json option"

datatype condition_matcher = MatchNotEmpty | MatchTextContains string bool | MatchRegex string
  | MatchJsonPredicate string condition_operator "json option" | MatchJsonLogic condition_logic "json_predicate list" | MatchLlm

record watch_condition =
  cn_description :: string
  cn_evaluation_mode :: evaluation_mode
  cn_matcher :: condition_matcher

record watcher =
  wa_id :: uuid
  wa_description :: string
  wa_poll_action :: string
  wa_poll_arguments :: json
  wa_condition :: watch_condition
  wa_on_trigger :: string
  wa_interval_secs :: nat
  wa_timeout_secs :: nat
  wa_notify_channel :: string
  wa_repeat_on_match :: bool
  wa_status :: watcher_status
  wa_created_at :: int
  wa_last_poll_at :: "int option"
  wa_poll_count :: nat
  wa_trigger_result :: "string option"
  wa_last_result :: "string option"
  wa_last_error :: "string option"
  wa_consecutive_failures :: nat
  wa_next_poll_not_before :: "int option"
  wa_last_poll_outcome :: "poll_outcome option"
  wa_notification_attempts :: "notification_attempt list"

record watch_env =
  we_run :: run_env
  we_chrono :: chrono
  we_regex :: "string \<Rightarrow> string + (string \<Rightarrow> bool)"
  we_number :: "string \<Rightarrow> f64 option"
  we_parse_f64 :: "string \<Rightarrow> f64 option"
  we_gt :: "f64 \<Rightarrow> f64 \<Rightarrow> bool"
  we_ge :: "f64 \<Rightarrow> f64 \<Rightarrow> bool"
  we_near :: "f64 \<Rightarrow> f64 \<Rightarrow> bool"
  we_uuid :: "uuid \<Rightarrow> string"
  we_write :: "watcher \<Rightarrow> string option"
  we_read :: "string \<Rightarrow> watcher option"

fun watch_condition_operator_label :: "condition_operator \<Rightarrow> string" where
  "watch_condition_operator_label OpExists = ''exists''"
| "watch_condition_operator_label OpNotExists = ''not_exists''"
| "watch_condition_operator_label OpEq = ''eq''"
| "watch_condition_operator_label OpNe = ''ne''"
| "watch_condition_operator_label OpGt = ''gt''"
| "watch_condition_operator_label OpGte = ''gte''"
| "watch_condition_operator_label OpLt = ''lt''"
| "watch_condition_operator_label OpLte = ''lte''"
| "watch_condition_operator_label OpContains = ''contains''"
| "watch_condition_operator_label OpNotContains = ''not_contains''"
| "watch_condition_operator_label OpNonEmpty = ''non_empty''"
| "watch_condition_operator_label OpEmpty = ''empty''"
| "watch_condition_operator_label OpTrue = ''true''"
| "watch_condition_operator_label OpFalse = ''false''"
| "watch_condition_operator_label OpRegex = ''regex''"

text \<open>The derived \<open>Debug\<close> text of an operator: its name in the source.\<close>

fun operator_debug :: "condition_operator \<Rightarrow> string" where
  "operator_debug OpExists = ''Exists''"
| "operator_debug OpNotExists = ''NotExists''"
| "operator_debug OpEq = ''Eq''"
| "operator_debug OpNe = ''Ne''"
| "operator_debug OpGt = ''Gt''"
| "operator_debug OpGte = ''Gte''"
| "operator_debug OpLt = ''Lt''"
| "operator_debug OpLte = ''Lte''"
| "operator_debug OpContains = ''Contains''"
| "operator_debug OpNotContains = ''NotContains''"
| "operator_debug OpNonEmpty = ''NonEmpty''"
| "operator_debug OpEmpty = ''Empty''"
| "operator_debug OpTrue = ''True''"
| "operator_debug OpFalse = ''False''"
| "operator_debug OpRegex = ''Regex''"

definition path_label :: "string \<Rightarrow> string" where
  "path_label path = (if trim path = [] then ''$'' else trim path)"

definition condition_summary :: "watch_env \<Rightarrow> watch_condition \<Rightarrow> string" where
  "condition_summary env c =
    (let description = trim (cn_description c) in
     if description \<noteq> [] then
       (case cn_evaluation_mode c of CurrentState \<Rightarrow> description
        | Change \<Rightarrow> description @ '' (compare against the previous successful poll)'')
     else
      (let summary = (case cn_matcher c of
           MatchNotEmpty \<Rightarrow> ''Trigger when the poll result is not empty''
         | MatchTextContains text _ \<Rightarrow> ''Trigger when the poll result contains '' @ [CHR 0x22] @ text @ [CHR 0x22]
         | MatchRegex pattern \<Rightarrow> ''Trigger when the poll result matches '' @ pattern
         | MatchJsonPredicate path op value \<Rightarrow> ''Trigger when '' @ path_label path @ '' '' @ watch_condition_operator_label op
             @ (case value of Some v \<Rightarrow> '' '' @ re_print (we_run env) v | None \<Rightarrow> [])
         | MatchJsonLogic logic rules \<Rightarrow> ''Trigger when '' @ (case logic of LogicAll \<Rightarrow> ''all'' | LogicAny \<Rightarrow> ''any'')
             @ '' of '' @ show_nat (length rules) @ '' structured rule(s) match''
         | MatchLlm \<Rightarrow> ''Trigger when the model judges the condition satisfied'')
       in case cn_evaluation_mode c of CurrentState \<Rightarrow> summary
          | Change \<Rightarrow> summary @ '' and differs from the previous successful poll''))"

definition watch_operator_requires_value :: "condition_operator \<Rightarrow> bool" where
  "watch_operator_requires_value op \<longleftrightarrow>
     op \<in> {OpEq, OpNe, OpGt, OpGte, OpLt, OpLte, OpContains, OpNotContains, OpRegex}"

definition validate_watch_json_predicate :: "watch_env \<Rightarrow> string \<Rightarrow> condition_operator \<Rightarrow> json option \<Rightarrow> string + unit" where
  "validate_watch_json_predicate env path op value =
    (if trim path = [] \<and> op \<notin> {OpExists, OpNotExists, OpNonEmpty, OpEmpty}
     then Inl ''watcher json predicate requires a non-empty `path`''
     else if watch_operator_requires_value op \<and> value = None
     then Inl (''watcher json predicate operator '' @ operator_debug op @ '' requires a `value`'')
     else if op = OpRegex then
       (case Option.bind value json_as_str of
          None \<Rightarrow> Inl ''watcher regex predicate requires string `value`''
        | Some pattern \<Rightarrow> (case we_regex env pattern of
            Inl e \<Rightarrow> Inl (''watcher regex predicate is invalid: '' @ e) | Inr _ \<Rightarrow> Inr ()))
     else Inr ())"

fun validate_rules :: "watch_env \<Rightarrow> json_predicate list \<Rightarrow> string + unit" where
  "validate_rules env [] = Inr ()"
| "validate_rules env (r # rs) = (case validate_watch_json_predicate env (jp_path r) (jp_operator r) (jp_value r) of
     Inl e \<Rightarrow> Inl e | Inr _ \<Rightarrow> validate_rules env rs)"

definition condition_validate :: "watch_env \<Rightarrow> watch_condition \<Rightarrow> string + unit" where
  "condition_validate env c =
    (if trim (cn_description c) = [] then Inl ''watcher condition requires a non-empty `description`''
     else (case cn_matcher c of
       MatchNotEmpty \<Rightarrow> Inr ()
     | MatchLlm \<Rightarrow> Inr ()
     | MatchTextContains text _ \<Rightarrow> (if trim text = [] then Inl ''watcher text condition requires non-empty `text`'' else Inr ())
     | MatchRegex pattern \<Rightarrow>
         (if trim pattern = [] then Inl ''watcher regex condition requires non-empty `pattern`''
          else (case we_regex env pattern of Inl e \<Rightarrow> Inl (''watcher regex condition is invalid: '' @ e) | Inr _ \<Rightarrow> Inr ()))
     | MatchJsonPredicate path op value \<Rightarrow> validate_watch_json_predicate env path op value
     | MatchJsonLogic _ rules \<Rightarrow>
         (if rules = [] then Inl ''watcher json_logic condition requires at least one rule'' else validate_rules env rules)))"

section \<open>Due, timed out, asleep\<close>

text \<open>\<open>TimeDelta::seconds\<close> panics beyond \<open>i64::MAX / 1000\<close> seconds; the sum itself is checked.\<close>

definition time_delta_limit :: nat where "time_delta_limit = 9223372036854775"

definition add_secs :: "chrono \<Rightarrow> int \<Rightarrow> nat \<Rightarrow> int \<Rightarrow> int result" where
  "add_secs ch base n fallback =
    (if time_delta_limit < min n 9223372036854775807 then Inl (Panicked ''TimeDelta::seconds out of bounds'')
     else Inr (case plus_secs ch base (int n) of Some t \<Rightarrow> t | None \<Rightarrow> fallback))"

definition watcher_next_wakeup_at :: "chrono \<Rightarrow> watcher \<Rightarrow> int \<Rightarrow> int option result" where
  "watcher_next_wakeup_at ch w now =
    (if wa_status w \<noteq> WActive then Inr None
     else res_bind (add_secs ch (wa_created_at w) (wa_timeout_secs w) now) (\<lambda>timeout_at.
       if timeout_at \<le> now then Inr (Some now)
       else res_bind (case wa_last_poll_at w of Some l \<Rightarrow> add_secs ch l (wa_interval_secs w) timeout_at | None \<Rightarrow> Inr now)
         (\<lambda>interval_due_at.
           let poll_due_at = (case wa_next_poll_not_before w of Some t \<Rightarrow> max interval_due_at t | None \<Rightarrow> interval_due_at)
           in Inr (Some (min poll_due_at timeout_at)))))"

definition watcher_retention_reference_at :: "watcher \<Rightarrow> int" where
  "watcher_retention_reference_at w =
     foldl max (case wa_last_poll_at w of Some t \<Rightarrow> max (wa_created_at w) t | None \<Rightarrow> wa_created_at w)
       (map na_attempted_at (wa_notification_attempts w))"

text \<open>\<open>num_seconds\<close> truncates towards zero; \<open>as u64\<close> wraps.\<close>

definition num_seconds :: "int \<Rightarrow> int" where
  "num_seconds d = (if d < 0 then - ((- d) div ns_per_sec) else d div ns_per_sec)"

definition secs_as_u64 :: "int \<Rightarrow> nat" where
  "secs_as_u64 d = nat (num_seconds d mod 2 ^ 64)"

definition timed_out :: "int \<Rightarrow> watcher \<Rightarrow> bool" where
  "timed_out now w \<longleftrightarrow> wa_timeout_secs w \<le> secs_as_u64 (now - wa_created_at w)"

definition is_due :: "int \<Rightarrow> watcher \<Rightarrow> bool" where
  "is_due now w =
    (if wa_status w \<noteq> WActive then False
     else if timed_out now w then False
     else if (case wa_next_poll_not_before w of Some t \<Rightarrow> t > now | None \<Rightarrow> False) then False
     else (case wa_last_poll_at w of Some l \<Rightarrow> wa_interval_secs w \<le> secs_as_u64 (now - l) | None \<Rightarrow> True))"

section \<open>Signatures\<close>

text \<open>Unlike for tasks, only \<open>_automation\<close> is metadata here.\<close>

fun strip_watch_meta :: "json \<Rightarrow> json"
  and strip_watch_members :: "(string \<times> json) list \<Rightarrow> (string \<times> json) list"
  and strip_watch_items :: "json list \<Rightarrow> json list" where
  "strip_watch_meta (JObj xs) = JObj (strip_watch_members xs)"
| "strip_watch_meta (JArr items) = JArr (strip_watch_items items)"
| "strip_watch_meta JNull = JNull"
| "strip_watch_meta (JBool b) = JBool b"
| "strip_watch_meta (JNum n) = JNum n"
| "strip_watch_meta (JStr s) = JStr s"
| "strip_watch_members [] = []"
| "strip_watch_members ((k, v) # xs) = (if k = ''_automation'' then strip_watch_members xs
     else (k, strip_watch_meta v) # strip_watch_members xs)"
| "strip_watch_items [] = []"
| "strip_watch_items (x # xs) = strip_watch_meta x # strip_watch_items xs"

definition watcher_topic_signature :: "json \<Rightarrow> string \<Rightarrow> string" where
  "watcher_topic_signature poll_arguments description =
    (let a = canonical_signature_value (strip_watch_meta poll_arguments); d = normalize_signature_text description in
     if a = ''{}'' \<or> a = ''null'' then d else if d = [] then a else d @ ''|'' @ a)"

definition watcher_origin_scope_signature :: "watch_env \<Rightarrow> json \<Rightarrow> (string \<times> string \<times> string) option" where
  "watcher_origin_scope_signature env poll_arguments =
    (let origin = origin_from_arguments (we_run env) poll_arguments;
         text = (\<lambda>v. trim (case v of Some s \<Rightarrow> s | None \<Rightarrow> []));
         channel = ascii_lower (text (ao_channel origin));
         conversation_id = text (ao_conversation_id origin);
         project_id = text (ao_project_id origin)
     in if channel = [] \<and> conversation_id = [] \<and> project_id = [] then None
        else Some (channel, conversation_id, project_id))"

definition watcher_request_signature_from_arguments :: "json \<Rightarrow> string" where
  "watcher_request_signature_from_arguments arguments =
    (let description = (case Option.bind (json_get ''description'' arguments) json_as_str of Some d \<Rightarrow> d | None \<Rightarrow> ''background watcher'');
         poll_action = ascii_lower (trim (case Option.bind (json_get ''poll_action'' arguments) json_as_str of Some a \<Rightarrow> a | None \<Rightarrow> []));
         poll_arguments = (case json_get ''poll_arguments'' arguments of Some v \<Rightarrow> v | None \<Rightarrow> JObj [])
     in poll_action @ ''|'' @ watcher_topic_signature poll_arguments description)"

definition watcher_tool_call_signature_from_arguments :: "json \<Rightarrow> string" where
  "watcher_tool_call_signature_from_arguments arguments =
    (let number = (\<lambda>k. Option.bind (json_get k arguments) json_as_u64);
         interval_secs = (case number ''interval_secs'' of Some n \<Rightarrow> n | None \<Rightarrow> 60);
         timeout_signature =
           (if Option.bind (json_get ''until_stopped'' arguments) json_as_bool = Some True then ''until_stopped''
            else (case number ''timeout_days'' of Some days \<Rightarrow> ''days:'' @ show_nat days
              | None \<Rightarrow> (case number ''timeout_hours'' of Some hours \<Rightarrow> ''hours:'' @ show_nat hours
                | None \<Rightarrow> (case number ''timeout_secs'' of Some n \<Rightarrow> ''secs:'' @ show_nat n
                  | None \<Rightarrow> ''secs:'' @ show_nat DEFAULT_TIMEOUT_SECS))))
     in watcher_request_signature_from_arguments arguments @ ''|interval:'' @ show_nat interval_secs @ ''|'' @ timeout_signature)"

definition watchers_are_semantically_similar :: "watch_env \<Rightarrow> watcher \<Rightarrow> watcher \<Rightarrow> bool" where
  "watchers_are_semantically_similar env existing candidate =
    (if \<not> eq_ignore_case (wa_poll_action existing) (wa_poll_action candidate) then False
     else watcher_topic_signature (wa_poll_arguments existing) (wa_description existing)
          = watcher_topic_signature (wa_poll_arguments candidate) (wa_description candidate)
        \<and> watcher_origin_scope_signature env (wa_poll_arguments existing)
          = watcher_origin_scope_signature env (wa_poll_arguments candidate))"

section \<open>Texts and failures\<close>

definition truncate_for_storage :: "string \<Rightarrow> nat \<Rightarrow> string" where
  "truncate_for_storage value max_chars = (if length value \<le> max_chars then value
     else take max_chars value @ CHR 0x0A # CHR 0x0A # ''[truncated]'')"

definition watcher_failure_backoff_secs :: "nat \<Rightarrow> nat \<Rightarrow> nat" where
  "watcher_failure_backoff_secs interval_secs consecutive_failures =
    (let multiplier = min (2 ^ min (consecutive_failures - 1) 6) u64_max
     in min (min (max interval_secs 30 * multiplier) u64_max) (60 * 60))"

definition watcher_poll_error_is_transient :: "string \<Rightarrow> bool" where
  "watcher_poll_error_is_transient error =
    (let haystack = ascii_lower (trim error) in haystack \<noteq> [] \<and> list_ex (\<lambda>token. contains token haystack)
      [''timeout'', ''temporar'', ''rate limit'', ''429'', ''unavailable'', ''busy'', ''pending'', ''connection reset'',
       ''connection refused'', ''network'', ''retry later'', ''gateway'', ''refused''])"

section \<open>Facts\<close>

lemma truncate_for_storage_idem [simp]: "truncate_for_storage (truncate_for_storage v m) m = truncate_for_storage v m"
  by (simp add: truncate_for_storage_def)

lemma truncate_for_storage_length: "length (truncate_for_storage v m) \<le> m + 13"
  by (simp add: truncate_for_storage_def)

lemma similar_refl: "watchers_are_semantically_similar env w w"
  by (simp add: watchers_are_semantically_similar_def eq_ignore_case_def)

lemma similar_sym: "watchers_are_semantically_similar env v w \<Longrightarrow> watchers_are_semantically_similar env w v"
  by (auto simp: watchers_are_semantically_similar_def eq_ignore_case_def split: if_splits)

lemma similar_trans: "watchers_are_semantically_similar env u v \<Longrightarrow> watchers_are_semantically_similar env v w
    \<Longrightarrow> watchers_are_semantically_similar env u w"
  by (auto simp: watchers_are_semantically_similar_def eq_ignore_case_def split: if_splits)

end
