(* ===== verification/Watcher_Store.thy ===== *)
theory Watcher_Store
  imports Watcher_Model Task_Store
begin

text \<open>
  The stored watchers (\<open>storage/repositories/automation.rs\<close>): listing, upserting and deleting a row,
  the latter in a transaction that also clears what refers to the deleted automation's runs. Of a run row
  only the columns read here are kept. Field prefixes \<open>wr_\<close> (a row) and \<open>ar_\<close> (a run).
\<close>

record watcher_row =
  wr_id :: string
  wr_status :: string
  wr_created_at :: string
  wr_updated_at :: string
  wr_payload :: string
  wr_lease_owner :: "string option"
  wr_lease_expires_at :: "string option"
  wr_lease_version :: int
  wr_next_retry_at :: "string option"
  wr_last_run_id :: "string option"
  wr_consecutive_failures :: int

record run_row =
  ar_id :: string
  ar_automation_id :: string

record watcher_tables =
  wt_watchers :: "watcher_row list"
  wt_tasks :: "task_row list"
  wt_supervisors :: "supervisor_row list"
  wt_runs :: "run_row list"

type_synonym watcher_db = "watcher_tables db"

definition status_text :: "watcher_status \<Rightarrow> string" where
  "status_text s = (case s of WActive \<Rightarrow> ''active'' | WPaused \<Rightarrow> ''paused'' | WTriggered \<Rightarrow> ''triggered''
     | WTimedOut \<Rightarrow> ''timed_out'' | WCancelled \<Rightarrow> ''cancelled'' | WFailed _ \<Rightarrow> ''failed'')"

definition list_watchers :: "watch_env \<Rightarrow> (watcher_db, watcher list) io" where
  "list_watchers env = bindE (stmt (\<lambda>t. (sort_key wr_created_at (wt_watchers t), t)))
     (\<lambda>rows. ret (List.map_filter (\<lambda>r. we_read env (wr_payload r)) rows))"

text \<open>\<open>INSERT .. ON CONFLICT (id) DO UPDATE\<close> of six columns.\<close>

definition put_watcher :: "watcher_row \<Rightarrow> watcher_row list \<Rightarrow> watcher_row list" where
  "put_watcher row rows = (if \<exists>r \<in> set rows. wr_id r = wr_id row
     then map (\<lambda>r. if wr_id r = wr_id row
       then r\<lparr>wr_status := wr_status row, wr_updated_at := wr_updated_at row, wr_payload := wr_payload row,
          wr_next_retry_at := wr_next_retry_at row, wr_last_run_id := wr_last_run_id row,
          wr_consecutive_failures := wr_consecutive_failures row\<rparr> else r) rows
     else rows @ [row])"

definition upsert_watcher :: "watch_env \<Rightarrow> int \<Rightarrow> watcher \<Rightarrow> (watcher_db, unit) io" where
  "upsert_watcher env now w = bindE (lift_result (serialized (we_write env w))) (\<lambda>payload.
     stmt (\<lambda>t. ((), t\<lparr>wt_watchers := put_watcher \<lparr>wr_id = we_uuid env (wa_id w), wr_status = status_text (wa_status w),
       wr_created_at = to_rfc3339 (we_chrono env) (wa_created_at w), wr_updated_at = to_rfc3339 (we_chrono env) now,
       wr_payload = payload, wr_lease_owner = None, wr_lease_expires_at = None, wr_lease_version = 0,
       wr_next_retry_at = map_option (to_rfc3339 (we_chrono env)) (wa_next_poll_not_before w), wr_last_run_id = None,
       wr_consecutive_failures = sint (word_of_nat (wa_consecutive_failures w) :: 32 word)\<rparr> (wt_watchers t)\<rparr>)))"

fun for_each :: "('a \<Rightarrow> ('s, unit) io) \<Rightarrow> 'a list \<Rightarrow> ('s, unit) io" where
  "for_each f [] = ret ()"
| "for_each f (x # xs) = bindE (f x) (\<lambda>_. for_each f xs)"

definition names_run :: "string list \<Rightarrow> string option \<Rightarrow> bool" where
  "names_run run_ids r \<longleftrightarrow> (case r of Some i \<Rightarrow> i \<in> set run_ids | None \<Rightarrow> False)"

definition forget_runs :: "string list \<Rightarrow> (watcher_db, unit) io" where
  "forget_runs run_ids =
     bindE (stmt (\<lambda>t. (filter (\<lambda>r. names_run run_ids (tr_last_run_id r)) (wt_tasks t), t))) (\<lambda>task_rows.
     bindE (for_each (\<lambda>row. stmt (\<lambda>t. ((), t\<lparr>wt_tasks := map (\<lambda>r. if tr_id r = tr_id row then r\<lparr>tr_last_run_id := None\<rparr> else r) (wt_tasks t)\<rparr>)))
         task_rows) (\<lambda>_.
     bindE (stmt (\<lambda>t. (filter (\<lambda>r. names_run run_ids (wr_last_run_id r)) (wt_watchers t), t))) (\<lambda>watcher_rows.
     bindE (for_each (\<lambda>row. stmt (\<lambda>t. ((), t\<lparr>wt_watchers := map (\<lambda>r. if wr_id r = wr_id row then r\<lparr>wr_last_run_id := None\<rparr> else r) (wt_watchers t)\<rparr>)))
         watcher_rows) (\<lambda>_.
     bindE (stmt (\<lambda>t. (filter (\<lambda>r. names_run run_ids (sv_last_run_id r)) (wt_supervisors t), t))) (\<lambda>supervisor_rows.
       for_each (\<lambda>row. stmt (\<lambda>t. ((), t\<lparr>wt_supervisors := map (\<lambda>r. if sv_automation_id r = sv_automation_id row then r\<lparr>sv_last_run_id := None\<rparr> else r) (wt_supervisors t)\<rparr>)))
         supervisor_rows)))))"

definition cleanup_automation_records_for_ids :: "string list \<Rightarrow> (watcher_db, unit) io" where
  "cleanup_automation_records_for_ids automation_ids =
    (if automation_ids = [] then ret ()
     else bindE (stmt (\<lambda>t. (map ar_id (filter (\<lambda>r. ar_automation_id r \<in> set automation_ids) (wt_runs t)), t))) (\<lambda>run_ids.
       bindE (if run_ids = [] then ret () else forget_runs run_ids) (\<lambda>_.
       bindE (stmt (\<lambda>t. ((), t\<lparr>wt_supervisors := filter (\<lambda>r. sv_automation_id r \<notin> set automation_ids) (wt_supervisors t)\<rparr>))) (\<lambda>_.
         stmt (\<lambda>t. ((), t\<lparr>wt_runs := filter (\<lambda>r. ar_automation_id r \<notin> set automation_ids) (wt_runs t)\<rparr>))))))"

definition delete_watcher :: "string \<Rightarrow> (watcher_db, unit) io" where
  "delete_watcher i = transaction (bindE (cleanup_automation_records_for_ids [i]) (\<lambda>_.
     bindE (stmt (\<lambda>t. ((), t\<lparr>wt_watchers := filter (\<lambda>r. wr_id r \<noteq> i) (wt_watchers t)\<rparr>))) (\<lambda>_. ret (Commit ()))))"

end
