(* ===== verification/Watcher_Manager.thy ===== *)
theory Watcher_Manager
  imports Watcher_Store Session_Record "HOL-Library.AList"
begin

text \<open>
  The manager of the watchers (\<open>WatcherManager\<close>): the map in memory, its storage and the permit that
  wakes the polling loop. Each operation changes the map under the write lock and then persists what it
  finds there, so on the map the operations are atomic; a failed write is only logged. The iteration order
  of the hash map is the order of the list.
\<close>

record watcher_manager =
  wm_watchers :: "(uuid \<times> watcher) list"
  wm_storage :: "watcher_db option"
  wm_permit :: bool

definition lookup_watcher :: "uuid \<Rightarrow> watcher_manager \<Rightarrow> watcher option" where
  "lookup_watcher i m = map_of (wm_watchers m) i"

definition watcher_manager_new :: "watch_env \<Rightarrow> watcher_db option \<Rightarrow> watcher_manager" where
  "watcher_manager_new env storage = (case storage of
     None \<Rightarrow> \<lparr>wm_watchers = [], wm_storage = None, wm_permit = False\<rparr>
   | Some db \<Rightarrow> (case list_watchers env db of
       (Inl _, db') \<Rightarrow> \<lparr>wm_watchers = [], wm_storage = Some db', wm_permit = False\<rparr>
     | (Inr loaded, db') \<Rightarrow> \<lparr>wm_watchers = foldl (\<lambda>m w. AList.update (wa_id w) w m) [] loaded, wm_storage = Some db', wm_permit = False\<rparr>))"

definition notify_changed :: "watcher_manager \<Rightarrow> watcher_manager" where
  "notify_changed m = m\<lparr>wm_permit := True\<rparr>"

definition wait_for_change :: "watcher_manager \<Rightarrow> watcher_manager option" where
  "wait_for_change m = (if wm_permit m then Some (m\<lparr>wm_permit := False\<rparr>) else None)"

definition persist_watcher_snapshot :: "watch_env \<Rightarrow> int \<Rightarrow> uuid \<Rightarrow> watcher option \<Rightarrow> watcher_manager \<Rightarrow> watcher_manager" where
  "persist_watcher_snapshot env now i w m = (case wm_storage m of
     None \<Rightarrow> m
   | Some db \<Rightarrow> m\<lparr>wm_storage := Some (snd (case w of
       Some w \<Rightarrow> upsert_watcher env now w db | None \<Rightarrow> delete_watcher (we_uuid env i) db))\<rparr>)"

definition persist_one :: "watch_env \<Rightarrow> int \<Rightarrow> uuid \<Rightarrow> watcher_manager \<Rightarrow> watcher_manager" where
  "persist_one env now i m = persist_watcher_snapshot env now i (lookup_watcher i m) m"

definition persist_watchers :: "watch_env \<Rightarrow> int \<Rightarrow> watcher_manager \<Rightarrow> watcher_manager" where
  "persist_watchers env now m = foldl (\<lambda>m w. persist_watcher_snapshot env now (wa_id w) (Some w) m) m (map snd (wm_watchers m))"

definition delete_persisted :: "watch_env \<Rightarrow> int \<Rightarrow> uuid \<Rightarrow> watcher_manager \<Rightarrow> watcher_manager" where
  "delete_persisted env now i m = persist_watcher_snapshot env now i None m"

definition modify_watcher :: "uuid \<Rightarrow> (watcher \<Rightarrow> watcher) \<Rightarrow> watcher_manager \<Rightarrow> watcher_manager" where
  "modify_watcher i f m = m\<lparr>wm_watchers := map (\<lambda>(k, w). (k, if k = i then f w else w)) (wm_watchers m)\<rparr>"

section \<open>Creation\<close>

definition add_watcher :: "watch_env \<Rightarrow> int \<Rightarrow> watcher \<Rightarrow> watcher_manager \<Rightarrow> uuid \<times> watcher_manager" where
  "add_watcher env now w m = (wa_id w, notify_changed (persist_one env now (wa_id w)
     (m\<lparr>wm_watchers := AList.update (wa_id w) w (wm_watchers m)\<rparr>)))"

definition replace_watcher :: "int \<Rightarrow> watcher \<Rightarrow> watcher \<Rightarrow> watcher" where
  "replace_watcher now w existing = existing\<lparr>wa_description := wa_description w, wa_poll_action := wa_poll_action w,
     wa_poll_arguments := wa_poll_arguments w, wa_condition := wa_condition w, wa_on_trigger := wa_on_trigger w,
     wa_interval_secs := wa_interval_secs w, wa_timeout_secs := wa_timeout_secs w, wa_notify_channel := wa_notify_channel w,
     wa_repeat_on_match := wa_repeat_on_match w, wa_status := WActive, wa_created_at := now, wa_last_poll_at := None,
     wa_poll_count := 0, wa_trigger_result := None, wa_last_result := None, wa_last_error := None, wa_consecutive_failures := 0,
     wa_next_poll_not_before := None, wa_last_poll_outcome := None, wa_notification_attempts := []\<rparr>"

definition live_status :: "watcher_status \<Rightarrow> bool" where
  "live_status s \<longleftrightarrow> (case s of WActive \<Rightarrow> True | WPaused \<Rightarrow> True | WFailed _ \<Rightarrow> True | _ \<Rightarrow> False)"

definition matching_ids :: "watch_env \<Rightarrow> watcher \<Rightarrow> (uuid \<times> watcher) list \<Rightarrow> uuid list" where
  "matching_ids env w ws = map fst (filter (\<lambda>p. live_status (wa_status (snd p)) \<and> watchers_are_semantically_similar env (snd p) w) ws)"

definition upsert_similar ::
    "watch_env \<Rightarrow> int \<Rightarrow> watcher \<Rightarrow> uuid option \<Rightarrow> watcher_manager \<Rightarrow> (string + uuid \<times> bool \<times> nat) \<times> watcher_manager" where
  "upsert_similar env now w target m = (case target of
     Some i \<Rightarrow> (case lookup_watcher i m of
        None \<Rightarrow> (Inl (''Watcher `'' @ we_uuid env i @ ''` was not found. Use `list_watchers` to choose an active watcher.''), m)
      | Some _ \<Rightarrow> (Inr (i, True, 0), notify_changed (persist_one env now i (modify_watcher i (replace_watcher now w) m))))
   | None \<Rightarrow> (case matching_ids env w (wm_watchers m) of
        keeper # duplicates \<Rightarrow>
         (let m1 = modify_watcher keeper (replace_watcher now w) m;
              m2 = m1\<lparr>wm_watchers := foldl (\<lambda>ws d. AList.delete d ws) (wm_watchers m1) duplicates\<rparr>;
              m3 = persist_one env now keeper m2;
              m4 = foldl (\<lambda>m d. delete_persisted env now d m) m3 duplicates
          in (Inr (keeper, True, length duplicates), notify_changed m4))
      | [] \<Rightarrow> (Inr (wa_id w, False, 0), notify_changed (persist_one env now (wa_id w)
           (m\<lparr>wm_watchers := AList.update (wa_id w) w (wm_watchers m)\<rparr>)))))"

section \<open>Polling\<close>

definition get_due_watchers :: "int \<Rightarrow> watcher_manager \<Rightarrow> watcher list" where
  "get_due_watchers now m = filter (is_due now) (map snd (wm_watchers m))"

fun earliest_wakeup :: "chrono \<Rightarrow> int \<Rightarrow> watcher list \<Rightarrow> int option result" where
  "earliest_wakeup ch now [] = Inr None"
| "earliest_wakeup ch now (w # ws) = res_bind (watcher_next_wakeup_at ch w now) (\<lambda>a.
     res_bind (earliest_wakeup ch now ws) (\<lambda>b. Inr (case (a, b) of
       (Some s, Some t) \<Rightarrow> Some (min s t) | (Some s, None) \<Rightarrow> Some s | (None, b) \<Rightarrow> b)))"

definition next_wakeup_at :: "watch_env \<Rightarrow> int \<Rightarrow> watcher_manager \<Rightarrow> int option result" where
  "next_wakeup_at env now m = earliest_wakeup (we_chrono env) now (map snd (wm_watchers m))"

definition started :: "int \<Rightarrow> watcher \<Rightarrow> watcher" where
  "started now w = w\<lparr>wa_last_poll_at := Some now, wa_poll_count := sat_add_u32 (wa_poll_count w) 1, wa_last_poll_outcome := None\<rparr>"

definition begin_poll :: "watch_env \<Rightarrow> int \<Rightarrow> uuid \<Rightarrow> watcher_manager \<Rightarrow> watcher option \<times> watcher_manager" where
  "begin_poll env now i m = (case lookup_watcher i m of
     None \<Rightarrow> (None, m)
   | Some w \<Rightarrow> (if wa_status w \<noteq> WActive then (None, m)
       else (Some (started now w), persist_one env now i (modify_watcher i (started now) m))))"

definition poll_succeeded :: "int \<Rightarrow> nat \<Rightarrow> string \<Rightarrow> bool \<Rightarrow> watcher \<Rightarrow> watcher" where
  "poll_succeeded now poll_count result matched w = w\<lparr>wa_last_poll_at := Some now, wa_poll_count := poll_count,
     wa_last_result := Some (truncate_for_storage result MAX_STORED_RESULT_CHARS), wa_last_error := None,
     wa_consecutive_failures := 0, wa_next_poll_not_before := None,
     wa_last_poll_outcome := Some (if matched then Matched else NoMatch)\<rparr>"

definition record_poll_success :: "watch_env \<Rightarrow> int \<Rightarrow> uuid \<Rightarrow> nat \<Rightarrow> string \<Rightarrow> bool \<Rightarrow> watcher_manager \<Rightarrow> watcher_manager" where
  "record_poll_success env now i poll_count result matched m =
     persist_one env now i (modify_watcher i (poll_succeeded now poll_count result matched) m)"

definition poll_failed :: "int \<Rightarrow> nat \<Rightarrow> string \<Rightarrow> watcher \<Rightarrow> watcher" where
  "poll_failed now poll_count error w =
    (let failures = sat_add_u32 (wa_consecutive_failures w) 1;
         error_text = truncate_for_storage error MAX_STORED_RESULT_CHARS;
         transient_error = watcher_poll_error_is_transient error_text;
         w1 = w\<lparr>wa_last_poll_at := Some now, wa_poll_count := poll_count, wa_consecutive_failures := failures,
           wa_last_poll_outcome := Some PollError\<rparr>
     in if MAX_CONSECUTIVE_FAILURES_BEFORE_PAUSE \<le> failures \<and> \<not> transient_error
        then w1\<lparr>wa_status := WPaused, wa_next_poll_not_before := None, wa_last_error := Some (truncate_for_storage
          (error_text @ '' Polling paused after '' @ show_nat failures @ '' consecutive failures.'') MAX_STORED_RESULT_CHARS)\<rparr>
        else w1\<lparr>wa_next_poll_not_before := Some (now + secs (int (watcher_failure_backoff_secs (wa_interval_secs w) failures))),
          wa_last_error := Some (if transient_error
            then truncate_for_storage (error_text @ '' Transient availability error detected; watcher will retry with backoff.'') MAX_STORED_RESULT_CHARS
            else error_text)\<rparr>)"

definition record_poll_error :: "watch_env \<Rightarrow> int \<Rightarrow> uuid \<Rightarrow> nat \<Rightarrow> string \<Rightarrow> watcher_manager \<Rightarrow> watcher_manager" where
  "record_poll_error env now i poll_count error m = persist_one env now i (modify_watcher i (poll_failed now poll_count error) m)"

definition triggered :: "string \<Rightarrow> watcher \<Rightarrow> watcher" where
  "triggered result w = (let w1 = w\<lparr>wa_trigger_result := Some (truncate_for_storage result MAX_STORED_RESULT_CHARS)\<rparr>
     in if \<not> wa_repeat_on_match w then w1\<lparr>wa_status := WTriggered\<rparr> else w1)"

definition mark_triggered :: "watch_env \<Rightarrow> int \<Rightarrow> uuid \<Rightarrow> string \<Rightarrow> watcher_manager \<Rightarrow> watcher_manager" where
  "mark_triggered env now i result m = persist_one env now i (modify_watcher i (triggered result) m)"

definition with_attempt :: "notification_attempt \<Rightarrow> watcher \<Rightarrow> watcher" where
  "with_attempt a w =
    (let a' = a\<lparr>na_message := truncate_for_storage (na_message a) MAX_STORED_NOTIFICATION_MESSAGE_CHARS,
           na_error := map_option (\<lambda>e. truncate_for_storage e MAX_STORED_RESULT_CHARS) (na_error a)\<rparr>;
         attempts = wa_notification_attempts w @ [a']
     in w\<lparr>wa_notification_attempts := (if MAX_NOTIFICATION_ATTEMPTS < length attempts
          then drop (length attempts - MAX_NOTIFICATION_ATTEMPTS) attempts else attempts)\<rparr>)"

definition push_notification_attempt :: "watch_env \<Rightarrow> int \<Rightarrow> uuid \<Rightarrow> notification_attempt \<Rightarrow> watcher_manager \<Rightarrow> watcher_manager" where
  "push_notification_attempt env now i a m = persist_one env now i (modify_watcher i (with_attempt a) m)"

definition expires :: "int \<Rightarrow> watcher \<Rightarrow> bool" where
  "expires now w \<longleftrightarrow> wa_status w = WActive \<and> timed_out now w"

definition expire_watchers :: "watch_env \<Rightarrow> int \<Rightarrow> watcher_manager \<Rightarrow> watcher list \<times> watcher_manager" where
  "expire_watchers env now m =
    (let expired = map (\<lambda>w. w\<lparr>wa_status := WTimedOut\<rparr>) (filter (expires now) (map snd (wm_watchers m)));
         m1 = m\<lparr>wm_watchers := map (\<lambda>(k, w). (k, if expires now w then w\<lparr>wa_status := WTimedOut\<rparr> else w)) (wm_watchers m)\<rparr>
     in (expired, foldl (\<lambda>m w. persist_one env now (wa_id w) m) m1 expired))"

section \<open>Control\<close>

text \<open>The common shape of the control operations: change a watcher that is there and fit, persist, notify.\<close>

definition control :: "watch_env \<Rightarrow> int \<Rightarrow> uuid \<Rightarrow> (watcher \<Rightarrow> bool) \<Rightarrow> (watcher \<Rightarrow> watcher) \<Rightarrow> watcher_manager \<Rightarrow> bool \<times> watcher_manager" where
  "control env now i fit f m = (case lookup_watcher i m of
     None \<Rightarrow> (False, m)
   | Some w \<Rightarrow> (if fit w then (True, notify_changed (persist_one env now i (modify_watcher i f m))) else (False, m)))"

definition open_status :: "watcher \<Rightarrow> bool" where
  "open_status w \<longleftrightarrow> wa_status w = WActive \<or> wa_status w = WPaused"

definition cancel :: "watch_env \<Rightarrow> int \<Rightarrow> uuid \<Rightarrow> watcher_manager \<Rightarrow> bool \<times> watcher_manager" where
  "cancel env now i = control env now i open_status (\<lambda>w. w\<lparr>wa_status := WCancelled\<rparr>)"

definition pause :: "watch_env \<Rightarrow> int \<Rightarrow> uuid \<Rightarrow> watcher_manager \<Rightarrow> bool \<times> watcher_manager" where
  "pause env now i = control env now i (\<lambda>w. wa_status w = WActive)
     (\<lambda>w. w\<lparr>wa_status := WPaused, wa_next_poll_not_before := None\<rparr>)"

definition resume :: "watch_env \<Rightarrow> int \<Rightarrow> uuid \<Rightarrow> watcher_manager \<Rightarrow> bool \<times> watcher_manager" where
  "resume env now i = control env now i (\<lambda>w. wa_status w = WPaused)
     (\<lambda>w. w\<lparr>wa_status := WActive, wa_consecutive_failures := 0, wa_next_poll_not_before := None\<rparr>)"

definition switch_all :: "watch_env \<Rightarrow> int \<Rightarrow> watcher_status \<Rightarrow> watcher_status \<Rightarrow> watcher_manager \<Rightarrow> nat \<times> watcher_manager" where
  "switch_all env now a b m =
    (let changed = length (filter (\<lambda>(_, w). wa_status w = a) (wm_watchers m));
         m1 = m\<lparr>wm_watchers := map (\<lambda>(k, w). (k, if wa_status w = a then w\<lparr>wa_status := b\<rparr> else w)) (wm_watchers m)\<rparr>
     in (changed, if 0 < changed then notify_changed (persist_watchers env now m1) else m1))"

definition pause_all :: "watch_env \<Rightarrow> int \<Rightarrow> watcher_manager \<Rightarrow> nat \<times> watcher_manager" where
  "pause_all env now = switch_all env now WActive WPaused"

definition resume_all :: "watch_env \<Rightarrow> int \<Rightarrow> watcher_manager \<Rightarrow> nat \<times> watcher_manager" where
  "resume_all env now = switch_all env now WPaused WActive"

definition run_now :: "watch_env \<Rightarrow> int \<Rightarrow> uuid \<Rightarrow> watcher_manager \<Rightarrow> bool \<times> watcher_manager" where
  "run_now env now i = control env now i (\<lambda>w. wa_status w = WActive) (\<lambda>w. w\<lparr>wa_last_poll_at := None\<rparr>)"

definition extend_timeout :: "watch_env \<Rightarrow> int \<Rightarrow> uuid \<Rightarrow> nat \<Rightarrow> watcher_manager \<Rightarrow> nat option \<times> watcher_manager" where
  "extend_timeout env now i extra_secs m =
    (if extra_secs = 0 then (map_option wa_timeout_secs (lookup_watcher i m), m)
     else (let f = (\<lambda>w. w\<lparr>wa_timeout_secs := min (sat_add_u64 (wa_timeout_secs w) extra_secs) MAX_TIMEOUT_SECS\<rparr>);
               (updated, m') = control env now i open_status f m
           in (if updated then map_option wa_timeout_secs (lookup_watcher i m') else None, m')))"

definition extend_until_stopped :: "watch_env \<Rightarrow> int \<Rightarrow> uuid \<Rightarrow> watcher_manager \<Rightarrow> nat option \<times> watcher_manager" where
  "extend_until_stopped env now i m =
    (let (updated, m') = control env now i open_status (\<lambda>w. w\<lparr>wa_timeout_secs := MAX_TIMEOUT_SECS\<rparr>) m
     in (if updated then Some MAX_TIMEOUT_SECS else None, m'))"

definition set_background_session_id :: "watch_env \<Rightarrow> int \<Rightarrow> uuid \<Rightarrow> string option \<Rightarrow> watcher_manager \<Rightarrow> bool \<times> watcher_manager" where
  "set_background_session_id env now i session_id = control env now i (\<lambda>_. True)
     (\<lambda>w. w\<lparr>wa_poll_arguments := set_background_session_id_in_automation (wa_poll_arguments w) session_id\<rparr>)"

definition set_notify_channel :: "watch_env \<Rightarrow> int \<Rightarrow> uuid \<Rightarrow> string \<Rightarrow> watcher_manager \<Rightarrow> bool \<times> watcher_manager" where
  "set_notify_channel env now i notify_channel m =
    (let normalized = trim notify_channel in
     if normalized = [] then (False, m)
     else control env now i (\<lambda>w. wa_notify_channel w \<noteq> normalized) (\<lambda>w. w\<lparr>wa_notify_channel := normalized\<rparr>) m)"

definition delete_one :: "watch_env \<Rightarrow> int \<Rightarrow> uuid \<Rightarrow> watcher_manager \<Rightarrow> bool \<times> watcher_manager" where
  "delete_one env now i m = (case lookup_watcher i m of
     None \<Rightarrow> (False, m)
   | Some _ \<Rightarrow> (True, notify_changed (delete_persisted env now i (m\<lparr>wm_watchers := AList.delete i (wm_watchers m)\<rparr>))))"

definition stale :: "int \<Rightarrow> watcher \<Rightarrow> bool" where
  "stale now w \<longleftrightarrow> \<not> open_status w \<and> watcher_retention_reference_at w \<le> now - secs 3600"

definition cleanup_watchers :: "watch_env \<Rightarrow> int \<Rightarrow> watcher_manager \<Rightarrow> watcher_manager" where
  "cleanup_watchers env now m =
    (let removed_ids = map fst (filter (\<lambda>(_, w). stale now w) (wm_watchers m));
         m1 = m\<lparr>wm_watchers := foldl (\<lambda>ws i. AList.delete i ws) (wm_watchers m) removed_ids\<rparr>
     in foldl (\<lambda>m i. delete_persisted env now i m) m1 removed_ids)"

section \<open>The polling loop's sleep\<close>

text \<open>
  One turn of the loop in \<open>sentinel/mod.rs\<close> ends in a sleep: of at most a minute while the agent's autonomy
  is paused, and else until the next wake-up, read at \<open>now1\<close> and compared with the clock again at
  \<open>now2\<close>, but never longer than the configured interval (at least a second). A shutdown ends the loop and
  a change of the watchers ends the sleep early; the durations are in nanoseconds.
\<close>

definition watcher_sleep_duration :: "int option \<Rightarrow> int \<Rightarrow> int \<Rightarrow> int" where
  "watcher_sleep_duration next_wakeup max_sleep now = (case next_wakeup of
     None \<Rightarrow> max_sleep
   | Some t \<Rightarrow> (if t \<le> now then 0 else min (t - now) max_sleep))"

definition max_watcher_sleep :: "nat \<Rightarrow> int" where
  "max_watcher_sleep watcher_interval = secs (int (max watcher_interval 1))"

definition watcher_loop_sleep :: "watch_env \<Rightarrow> int \<Rightarrow> int \<Rightarrow> nat \<Rightarrow> bool \<Rightarrow> watcher_manager \<Rightarrow> int result" where
  "watcher_loop_sleep env now1 now2 watcher_interval autonomy_paused m =
    (let max_sleep = max_watcher_sleep watcher_interval in
     if autonomy_paused then Inr (min max_sleep (secs 60))
     else res_bind (next_wakeup_at env now1 m) (\<lambda>wake. Inr (watcher_sleep_duration wake max_sleep now2)))"

text \<open>What ends the turn: \<open>select!\<close> over the shutdown signal, a change of the watchers and the timer.\<close>

datatype turn_end = ShutdownSignal | WatchersChanged | TimerElapsed

definition watcher_turn_ends :: "turn_end \<Rightarrow> int \<Rightarrow> int \<Rightarrow> watcher_manager \<Rightarrow> (bool \<times> watcher_manager) option" where
  "watcher_turn_ends e slept sleep_for m = (case e of
     ShutdownSignal \<Rightarrow> Some (False, m)
   | WatchersChanged \<Rightarrow> map_option (\<lambda>m'. (True, m')) (wait_for_change m)
   | TimerElapsed \<Rightarrow> (if sleep_for \<le> slept then Some (True, m) else None))"

end
