(* ===== verification/Watch_Condition.thy ===== *)
theory Watch_Condition
  imports Watcher_Model
begin

text \<open>
  The evaluation of a watcher's condition on a poll result (\<open>core/agent/runtime/task_runtime.rs\<close>,
  \<open>tool_responses.rs\<close>): the structured payload found in the result's text, the path and the
  relaxed comparison of its values, the predicates, and the detection of a change since the previous
  successful poll. Conditions that the model judges are not evaluated here (\<open>None\<close>).
\<close>

section \<open>The payload\<close>

text \<open>
  The scan of \<open>extract_json_object_from_text\<close>: the text since the outermost open brace, the depth,
  and whether the position is inside a string and after a backslash.
\<close>

fun scan_objects :: "run_env \<Rightarrow> string option \<Rightarrow> nat \<Rightarrow> bool \<Rightarrow> bool \<Rightarrow> string \<Rightarrow> json option" where
  "scan_objects env start depth in_string escaped [] = None"
| "scan_objects env start depth in_string escaped (b # s) =
    (let start' = map_option (\<lambda>a. a @ [b]) start in
     if in_string then
       (if escaped then scan_objects env start' depth True False s
        else scan_objects env start' depth (b \<noteq> CHR 0x22) (b = CHR 0x5C) s)
     else if b = CHR 0x22 then scan_objects env start' depth True escaped s
     else if b = CHR ''{'' then
       scan_objects env (if depth = 0 then Some [b] else start') (depth + 1) False escaped s
     else if b = CHR ''}'' then
       (if depth = 0 then scan_objects env start' depth False escaped s
        else if depth = 1 then
          (case start' of None \<Rightarrow> None
           | Some candidate \<Rightarrow> (case re_parse env candidate of
               Some (JObj xs) \<Rightarrow> Some (JObj xs)
             | _ \<Rightarrow> scan_objects env None 0 False escaped s))
        else scan_objects env start' (depth - 1) False escaped s)
     else scan_objects env start' depth False escaped s)"

definition is_object :: "json \<Rightarrow> bool" where
  "is_object v \<longleftrightarrow> (case v of JObj _ \<Rightarrow> True | _ \<Rightarrow> False)"

definition extract_json_object_from_text :: "run_env \<Rightarrow> string \<Rightarrow> json option" where
  "extract_json_object_from_text env text =
    (if trim text = [] then None
     else (case re_parse env (trim text) of
         Some v \<Rightarrow> if is_object v then Some v else None
       | None \<Rightarrow> scan_objects env None 0 False False text))"

text \<open>A value's \<open>data\<close> member in its place, if it has one.\<close>

definition data_of :: "json \<Rightarrow> json" where
  "data_of v = (case json_get ''data'' v of Some d \<Rightarrow> d | None \<Rightarrow> v)"

definition data_or_object :: "json \<Rightarrow> json option" where
  "data_or_object v = (case json_get ''data'' v of Some d \<Rightarrow> Some d | None \<Rightarrow> if is_object v then Some v else None)"

definition marker_payload :: "run_env \<Rightarrow> string \<Rightarrow> json option" where
  "marker_payload env trimmed = (case strip_prefix TOOL_COMPLETION_MARKER trimmed of
     None \<Rightarrow> None
   | Some payload \<Rightarrow> Option.bind (re_parse env (trim (case first_line payload of Some l \<Rightarrow> l | None \<Rightarrow> payload))) data_or_object)"

definition value_payload :: "run_env \<Rightarrow> json \<Rightarrow> json option" where
  "value_payload env v = (case Option.bind (Option.bind (json_get ''output'' v) json_as_str) (extract_json_object_from_text env) of
     Some inner \<Rightarrow> Some (data_of inner)
   | None \<Rightarrow> data_or_object v)"

definition extract_structured_watcher_condition_payload :: "run_env \<Rightarrow> string \<Rightarrow> json option" where
  "extract_structured_watcher_condition_payload env result =
    (let trimmed = trim result in
     if trimmed = [] then None
     else (case marker_payload env trimmed of Some p \<Rightarrow> Some p
       | None \<Rightarrow> (case Option.bind (re_parse env trimmed) (value_payload env) of Some p \<Rightarrow> Some p
         | None \<Rightarrow> map_option data_of (extract_json_object_from_text env trimmed))))"

section \<open>Values\<close>

fun compare_structured_condition_number :: "watch_env \<Rightarrow> f64 \<Rightarrow> condition_operator \<Rightarrow> f64 \<Rightarrow> bool" where
  "compare_structured_condition_number env actual OpGt expected = we_gt env actual expected"
| "compare_structured_condition_number env actual OpGte expected = we_ge env actual expected"
| "compare_structured_condition_number env actual OpLt expected = we_gt env expected actual"
| "compare_structured_condition_number env actual OpLte expected = we_ge env expected actual"
| "compare_structured_condition_number env actual _ expected = False"

definition json_value_at_watch_condition_path :: "json \<Rightarrow> string \<Rightarrow> json option" where
  "json_value_at_watch_condition_path root path =
    (let trimmed = trim path in
     if trimmed = [] \<or> trimmed = ''$'' \<or> trimmed = ''.'' then Some root
     else (let normalized = dropWhile (\<lambda>c. c = CHR ''.'') (dropWhile (\<lambda>c. c = CHR ''$'') trimmed) in
       if normalized = [] then Some root
       else value_at_segments (filter (\<lambda>w. w \<noteq> []) (map trim (split_char CHR ''.'' normalized))) root))"

definition json_value_is_non_empty :: "json \<Rightarrow> bool" where
  "json_value_is_non_empty v = (case v of JNull \<Rightarrow> False | JBool _ \<Rightarrow> True | JNum _ \<Rightarrow> True | JStr t \<Rightarrow> trim t \<noteq> []
     | JArr items \<Rightarrow> items \<noteq> [] | JObj xs \<Rightarrow> xs \<noteq> [])"

definition json_value_as_f64 :: "watch_env \<Rightarrow> json \<Rightarrow> f64 option" where
  "json_value_as_f64 env v = (case v of JNum n \<Rightarrow> we_number env n | JStr t \<Rightarrow> we_parse_f64 env (trim t) | _ \<Rightarrow> None)"

definition json_value_as_bool :: "json \<Rightarrow> bool option" where
  "json_value_as_bool v = (case v of JBool b \<Rightarrow> Some b
     | JStr t \<Rightarrow> (let lower = ascii_lower (trim t) in
         if lower = ''true'' then Some True else if lower = ''false'' then Some False else None)
     | _ \<Rightarrow> None)"

fun json_values_equal_relaxed :: "watch_env \<Rightarrow> json \<Rightarrow> json \<Rightarrow> bool" where
  "json_values_equal_relaxed env (JStr l) (JStr r) = eq_ignore_case l r"
| "json_values_equal_relaxed env (JNum l) (JNum r) =
     (case (json_value_as_f64 env (JNum l), json_value_as_f64 env (JNum r)) of (Some a, Some b) \<Rightarrow> we_near env a b | _ \<Rightarrow> False)"
| "json_values_equal_relaxed env (JBool l) (JBool r) = (l = r)"
| "json_values_equal_relaxed env actual expected = (actual = expected)"

lemma size_item [termination_simp]: "item \<in> set items \<Longrightarrow> size item < Suc (size_list size items)"
  by (induction items) auto

lemma size_field [termination_simp]:
  "f \<in> set members \<Longrightarrow> size (snd f) < Suc (size_list (size_prod (\<lambda>_. 0) size) members)"
  by (induction members) auto

function json_value_contains_expected :: "watch_env \<Rightarrow> json \<Rightarrow> json \<Rightarrow> bool" where
  "json_value_contains_expected env (JStr l) expected = (case expected of
     JStr r \<Rightarrow> contains (ascii_lower r) (ascii_lower l) | _ \<Rightarrow> False)"
| "json_value_contains_expected env (JArr items) expected = (case expected of
     JArr es \<Rightarrow> list_all (\<lambda>e. list_ex (\<lambda>item. json_values_equal_relaxed env item e \<or> json_value_contains_expected env item e) items) es
   | _ \<Rightarrow> list_ex (\<lambda>item. json_values_equal_relaxed env item expected \<or> json_value_contains_expected env item expected) items)"
| "json_value_contains_expected env (JObj members) expected = (case expected of
     JStr _ \<Rightarrow> list_ex (\<lambda>f. json_value_contains_expected env (snd f) expected) members
   | JArr es \<Rightarrow> list_all (\<lambda>e. list_ex (\<lambda>f. json_value_contains_expected env (snd f) e) members) es
   | _ \<Rightarrow> list_ex (\<lambda>f. json_values_equal_relaxed env (snd f) expected \<or> json_value_contains_expected env (snd f) expected) members)"
| "json_value_contains_expected env (JNum n) expected = (case expected of
     JStr r \<Rightarrow> contains (ascii_lower r) (ascii_lower n) | _ \<Rightarrow> False)"
| "json_value_contains_expected env (JBool b) expected = (case expected of
     JStr r \<Rightarrow> contains (ascii_lower r) (if b then ''true'' else ''false'') | _ \<Rightarrow> False)"
| "json_value_contains_expected env JNull expected = False"
  by pat_completeness auto

termination
  by (relation "measure (\<lambda>(_, actual, _). size actual)") (auto simp: size_item size_field)

section \<open>Predicates\<close>

text \<open>An operator's operand, or the error that it is missing.\<close>

definition operand :: "string \<Rightarrow> string \<Rightarrow> json option \<Rightarrow> (json \<Rightarrow> bool) \<Rightarrow> string + bool" where
  "operand path what value f = (case value of
     Some v \<Rightarrow> Inr (f v) | None \<Rightarrow> Inl (''condition path `'' @ path @ ''` is missing '' @ what @ '' value''))"

definition as_flag :: "string \<Rightarrow> json \<Rightarrow> (bool \<Rightarrow> bool) \<Rightarrow> string + bool" where
  "as_flag path target f = (case json_value_as_bool target of
     Some b \<Rightarrow> Inr (f b) | None \<Rightarrow> Inl (''condition path `'' @ path @ ''` is not boolean-like in the poll output''))"

definition compare_numbers :: "watch_env \<Rightarrow> string \<Rightarrow> condition_operator \<Rightarrow> json \<Rightarrow> json option \<Rightarrow> string + bool" where
  "compare_numbers env path op target value = (case json_value_as_f64 env target of
     None \<Rightarrow> Inl (''condition path `'' @ path @ ''` is not numeric in the poll output'')
   | Some actual \<Rightarrow> (case Option.bind value (json_value_as_f64 env) of
       None \<Rightarrow> Inl (''condition path `'' @ path @ ''` is missing numeric comparison value'')
     | Some expected \<Rightarrow> Inr (compare_structured_condition_number env actual op expected)))"

definition match_regex :: "watch_env \<Rightarrow> string \<Rightarrow> json \<Rightarrow> json option \<Rightarrow> string + bool" where
  "match_regex env path target value = (case Option.bind value json_as_str of
     None \<Rightarrow> Inl (''condition path `'' @ path @ ''` is missing regex pattern'')
   | Some pattern \<Rightarrow> (case json_as_str target of
       None \<Rightarrow> Inl (''condition path `'' @ path @ ''` is not a string in the poll output'')
     | Some text \<Rightarrow> (case we_regex env pattern of
         Inl e \<Rightarrow> Inl (''condition regex is invalid: '' @ e) | Inr is_match \<Rightarrow> Inr (is_match text))))"

definition evaluate_operator :: "watch_env \<Rightarrow> string \<Rightarrow> condition_operator \<Rightarrow> json \<Rightarrow> json option \<Rightarrow> string + bool" where
  "evaluate_operator env path op target value = (case op of
     OpEq \<Rightarrow> operand path ''comparison'' value (json_values_equal_relaxed env target)
   | OpNe \<Rightarrow> operand path ''comparison'' value (\<lambda>v. \<not> json_values_equal_relaxed env target v)
   | OpContains \<Rightarrow> operand path ''contains'' value (json_value_contains_expected env target)
   | OpNotContains \<Rightarrow> operand path ''contains'' value (\<lambda>v. \<not> json_value_contains_expected env target v)
   | OpNonEmpty \<Rightarrow> Inr (json_value_is_non_empty target)
   | OpEmpty \<Rightarrow> Inr (\<not> json_value_is_non_empty target)
   | OpTrue \<Rightarrow> as_flag path target (\<lambda>b. b)
   | OpFalse \<Rightarrow> as_flag path target Not
   | OpRegex \<Rightarrow> match_regex env path target value
   | _ \<Rightarrow> compare_numbers env path op target value)"

definition evaluate_watch_json_predicate :: "watch_env \<Rightarrow> json \<Rightarrow> json_predicate \<Rightarrow> string + bool" where
  "evaluate_watch_json_predicate env payload p =
    (let target = json_value_at_watch_condition_path payload (jp_path p) in
     if jp_operator p = OpExists then Inr (target \<noteq> None)
     else if jp_operator p = OpNotExists then Inr (target = None)
     else (case target of
         None \<Rightarrow> Inl (''condition path `'' @ path_label (jp_path p) @ ''` was not present in the poll output'')
       | Some t \<Rightarrow> evaluate_operator env (path_label (jp_path p)) (jp_operator p) t (jp_value p)))"

fun all_rules :: "watch_env \<Rightarrow> json \<Rightarrow> json_predicate list \<Rightarrow> string + bool" where
  "all_rules env payload [] = Inr True"
| "all_rules env payload (r # rs) = (case evaluate_watch_json_predicate env payload r of
     Inl e \<Rightarrow> Inl e | Inr False \<Rightarrow> Inr False | Inr True \<Rightarrow> all_rules env payload rs)"

fun any_rule :: "watch_env \<Rightarrow> json \<Rightarrow> string option \<Rightarrow> bool \<Rightarrow> json_predicate list \<Rightarrow> string + bool" where
  "any_rule env payload last_error had_evaluable_rule [] =
     (if had_evaluable_rule then Inr False
      else Inl (case last_error of Some e \<Rightarrow> e | None \<Rightarrow> ''watcher json_logic condition did not have any evaluable rules''))"
| "any_rule env payload last_error had_evaluable_rule (r # rs) = (case evaluate_watch_json_predicate env payload r of
     Inr True \<Rightarrow> Inr True
   | Inr False \<Rightarrow> any_rule env payload last_error True rs
   | Inl e \<Rightarrow> any_rule env payload (Some e) had_evaluable_rule rs)"

definition with_payload :: "watch_env \<Rightarrow> string \<Rightarrow> (json \<Rightarrow> string + bool) \<Rightarrow> string + bool" where
  "with_payload env result f = (case extract_structured_watcher_condition_payload (we_run env) result of
     None \<Rightarrow> Inl ''poll result did not contain structured JSON output'' | Some payload \<Rightarrow> f payload)"

definition current_state_match :: "watch_env \<Rightarrow> condition_matcher \<Rightarrow> string \<Rightarrow> (string + bool) option" where
  "current_state_match env matcher result =
    (let trimmed = trim (primary_result_text (we_run env) result) in
     case matcher of
       MatchNotEmpty \<Rightarrow> Some (Inr (trimmed \<noteq> [] \<and> \<not> eq_ignore_case trimmed ''no messages found.'' \<and> \<not> eq_ignore_case trimmed ''no results''
         \<and> \<not> eq_ignore_case trimmed ''no results found'' \<and> \<not> prefix_of ''Error'' trimmed))
     | MatchTextContains text case_sensitive \<Rightarrow> Some (Inr (if case_sensitive then contains text trimmed
         else contains (ascii_lower text) (ascii_lower trimmed)))
     | MatchRegex pattern \<Rightarrow> Some (case we_regex env pattern of
         Inl e \<Rightarrow> Inl (''condition regex is invalid: '' @ e) | Inr is_match \<Rightarrow> Inr (is_match trimmed))
     | MatchJsonPredicate path op value \<Rightarrow> Some (with_payload env result (\<lambda>payload.
         evaluate_watch_json_predicate env payload \<lparr>jp_path = path, jp_operator = op, jp_value = value\<rparr>))
     | MatchJsonLogic logic rules \<Rightarrow> Some (with_payload env result (\<lambda>payload.
         case logic of LogicAll \<Rightarrow> all_rules env payload rules | LogicAny \<Rightarrow> any_rule env payload None False rules))
     | MatchLlm \<Rightarrow> None)"

definition normalized_watch_result_for_change_detection :: "run_env \<Rightarrow> string \<Rightarrow> string" where
  "normalized_watch_result_for_change_detection env result =
    (case extract_structured_watcher_condition_payload env result of
       Some payload \<Rightarrow> re_print env payload
     | None \<Rightarrow> intercalate '' '' (split_whitespace (primary_result_text env result)))"

definition change_applies :: "run_env \<Rightarrow> evaluation_mode \<Rightarrow> string \<Rightarrow> string option \<Rightarrow> bool \<Rightarrow> bool" where
  "change_applies env mode result previous_result matched =
    (if \<not> matched then False
     else if mode \<noteq> Change then True
     else (case previous_result of None \<Rightarrow> False
       | Some previous \<Rightarrow> normalized_watch_result_for_change_detection env result
           \<noteq> normalized_watch_result_for_change_detection env previous))"

definition evaluate_watch_condition_without_llm ::
    "watch_env \<Rightarrow> watch_condition \<Rightarrow> string \<Rightarrow> string option \<Rightarrow> (string + bool) option" where
  "evaluate_watch_condition_without_llm env c result previous_result =
     map_option (map_sum (\<lambda>e. e) (change_applies (we_run env) (cn_evaluation_mode c) result previous_result))
       (current_state_match env (cn_matcher c) result)"

definition watch_condition_requires_previous_result :: "watch_condition \<Rightarrow> bool" where
  "watch_condition_requires_previous_result c \<longleftrightarrow> cn_evaluation_mode c = Change"
section \<open>What the evaluation yields\<close>

definition fails :: "string + bool \<Rightarrow> bool" where
  "fails r \<longleftrightarrow> (\<exists>e. r = Inl e)"

lemma fails_simps [simp]: "fails (Inl e)" "\<not> fails (Inr b)"
  by (simp_all add: fails_def)

text \<open>
  What can be wrong at evaluation with a validated predicate: the value found in the output cannot be read
  for the operator, or the predicate's own operand of a comparison is not a number.
\<close>

definition output_unreadable :: "watch_env \<Rightarrow> condition_operator \<Rightarrow> json \<Rightarrow> bool" where
  "output_unreadable env op t \<longleftrightarrow>
     op \<in> {OpGt, OpGte, OpLt, OpLte} \<and> json_value_as_f64 env t = None
     \<or> op \<in> {OpTrue, OpFalse} \<and> json_value_as_bool t = None
     \<or> op = OpRegex \<and> json_as_str t = None"

definition operand_not_numeric :: "watch_env \<Rightarrow> condition_operator \<Rightarrow> json option \<Rightarrow> bool" where
  "operand_not_numeric env op v \<longleftrightarrow> op \<in> {OpGt, OpGte, OpLt, OpLte} \<and> Option.bind v (json_value_as_f64 env) = None"

lemmas predicate_faults = output_unreadable_def operand_not_numeric_def

lemma evaluate_operator_fails:
  assumes "validate_watch_json_predicate env path op v = Inr ()" and "op \<noteq> OpExists" and "op \<noteq> OpNotExists"
  shows "fails (evaluate_operator env label op t v) = (output_unreadable env op t \<or> operand_not_numeric env op v)"
proof (cases op)
  case OpRegex
  from assms(1) obtain pattern where p: "Option.bind v json_as_str = Some pattern" "we_regex env pattern \<noteq> Inl e" for e
    unfolding validate_watch_json_predicate_def OpRegex by (auto split: if_splits option.splits sum.splits)
  then obtain f where "we_regex env pattern = Inr f" by (cases "we_regex env pattern") auto
  with p OpRegex show ?thesis
    by (auto simp: evaluate_operator_def match_regex_def predicate_faults split: option.splits)
qed (use assms in \<open>auto simp: evaluate_operator_def operand_def as_flag_def compare_numbers_def predicate_faults
      validate_watch_json_predicate_def watch_operator_requires_value_def split: option.splits if_splits\<close>)

text \<open>
  C15. When a validated predicate fails. The evaluation of a predicate that passed validation fails, unless
  it asks for mere existence, for three reasons and no other: the path is missing from the poll output; the
  value found there cannot be read for the operator (not a number for a comparison, nothing like a boolean
  for a flag, no string for a regular expression); or the predicate is a comparison whose own operand is not
  a number, which validation does not check: then it fails on every output. No operand or pattern is found
  missing, and no regular expression invalid, at that time.
\<close>

theorem validated_predicate_failure:
  assumes "validate_watch_json_predicate env (jp_path p) (jp_operator p) (jp_value p) = Inr ()"
  shows "fails (evaluate_watch_json_predicate env payload p) =
    (jp_operator p \<noteq> OpExists \<and> jp_operator p \<noteq> OpNotExists
     \<and> (operand_not_numeric env (jp_operator p) (jp_value p)
        \<or> json_value_at_watch_condition_path payload (jp_path p) = None
        \<or> (\<exists>t. json_value_at_watch_condition_path payload (jp_path p) = Some t
             \<and> output_unreadable env (jp_operator p) t)))"
  using evaluate_operator_fails [OF assms]
  by (auto simp: evaluate_watch_json_predicate_def Let_def split: option.splits)

lemma all_rules_True: "all_rules env payload rs = Inr True \<longleftrightarrow> list_all (\<lambda>r. evaluate_watch_json_predicate env payload r = Inr True) rs"
  by (induction rs) (auto split: sum.splits bool.splits)

lemma any_rule_True: "any_rule env payload e h rs = Inr True \<longleftrightarrow> list_ex (\<lambda>r. evaluate_watch_json_predicate env payload r = Inr True) rs"
  by (induction rs arbitrary: e h) (auto split: sum.splits bool.splits)

lemma any_rule_False: "any_rule env payload e h rs = Inr False \<longleftrightarrow>
    \<not> list_ex (\<lambda>r. evaluate_watch_json_predicate env payload r = Inr True) rs
    \<and> (h \<or> list_ex (\<lambda>r. evaluate_watch_json_predicate env payload r = Inr False) rs)"
  by (induction rs arbitrary: e h) (auto split: sum.splits bool.splits)

section \<open>Changes of long results\<close>

lemma scan_no_brace: "CHR ''{'' \<notin> set s \<Longrightarrow> scan_objects env None 0 i e s = None"
  by (induction s arbitrary: i e) auto

lemma no_payload:
  assumes "trim s = s" and "s \<noteq> []" and "CHR ''{'' \<notin> set s" and "re_parse env s = None"
    and "\<not> prefix_of TOOL_COMPLETION_MARKER s"
  shows "extract_structured_watcher_condition_payload env s = None" and "primary_result_text env s = s"
  using assms
  by (simp_all add: extract_structured_watcher_condition_payload_def marker_payload_def strip_prefix_def
      extract_json_object_from_text_def scan_no_brace primary_result_text_def parse_automation_output_json_def Let_def)

lemma stored_trim:
  assumes "\<forall>c \<in> set s. \<not> is_ws c" and "s \<noteq> []"
    and "0 < m"
  shows "trim (truncate_for_storage s m) = truncate_for_storage s m"
proof (cases "length s \<le> m")
  case True
  with assms show ?thesis by (simp add: truncate_for_storage_def trim_no_ws)
next
  case False
  let ?t = "take m s @ CHR 0x0A # CHR 0x0A # ''[truncated]''"
  obtain c cs where s: "s = c # cs" using assms(2) by (cases s) auto
  with assms(3) obtain ds where h: "?t = c # ds" by (cases m) auto
  have "trim_start ?t = ?t" unfolding h using assms(1) s by (simp add: trim_start_hd)
  moreover have "trim_end ?t = ?t"
    using trim_end_snoc [of "take m s @ CHR 0x0A # CHR 0x0A # ''[truncated''" "CHR '']''"] by (simp add: is_ws_def Let_def)
  ultimately show ?thesis using False by (simp add: truncate_for_storage_def trim_def)
qed

lemma words_no_ws: "\<forall>c \<in> set s. \<not> is_ws c \<Longrightarrow> s \<noteq> [] \<Longrightarrow> split_whitespace s = [s]"
  by (simp add: split_whitespace_def split_on_word)

text \<open>The words of a truncated text without spaces.\<close>

lemma words_truncated:
  assumes "\<forall>c \<in> set s. \<not> is_ws c" and "0 < m" and "m < length s"
  shows "intercalate '' '' (split_whitespace (truncate_for_storage s m)) = take m s @ '' [truncated]''"
proof -
  have nl: "is_ws (CHR 0x0A)" by (simp add: is_ws_def Let_def)
  have w: "\<forall>c \<in> set (take m s). \<not> is_ws c" using assms(1) by (meson in_set_takeD)
  have t: "\<forall>c \<in> set ''[truncated]''. \<not> is_ws c" by (simp add: is_ws_def Let_def)
  have "split_on is_ws (take m s @ CHR 0x0A # CHR 0x0A # ''[truncated]'') = [take m s, [], ''[truncated]'']"
    using split_on_append [OF w nl] split_on_append [of "[]" is_ws, OF _ nl] split_on_word [OF t] by simp
  moreover have "take m s \<noteq> []" using assms by auto
  ultimately show ?thesis using assms(3) by (simp add: truncate_for_storage_def split_whitespace_def)
qed

text \<open>
  A long result always changes. A watcher that reports changes compares a poll's result with what was
  stored of the previous poll, which is cut at 16000 characters. Polling the very same text again is no
  change as long as it was stored whole, and is reported as a change on every poll once it is longer.
\<close>

theorem long_result_always_changes:
  assumes "\<forall>c \<in> set r. \<not> is_ws c" and "r \<noteq> []" and "CHR ''{'' \<notin> set r"
    and "re_parse (we_run env) r = None" and "re_parse (we_run env) (truncate_for_storage r MAX_STORED_RESULT_CHARS) = None"
    and "\<not> prefix_of TOOL_COMPLETION_MARKER r" and "current_state_match env matcher r = Some (Inr True)"
  shows "evaluate_watch_condition_without_llm env \<lparr>cn_description = d, cn_evaluation_mode = Change, cn_matcher = matcher\<rparr> r
      (Some (truncate_for_storage r MAX_STORED_RESULT_CHARS)) = Some (Inr (MAX_STORED_RESULT_CHARS < length r))"
proof -
  let ?m = MAX_STORED_RESULT_CHARS and ?e = "we_run env"
  let ?t = "truncate_for_storage r ?m"
  have m: "20 < ?m" by (simp add: MAX_STORED_RESULT_CHARS_def)
  have r: "normalized_watch_result_for_change_detection ?e r = r"
    using no_payload [of r ?e] assms(1-4,6) words_no_ws [OF assms(1,2)]
    by (simp add: normalized_watch_result_for_change_detection_def trim_no_ws)
  have "normalized_watch_result_for_change_detection ?e ?t \<noteq> r" if long: "?m < length r"
  proof -
    have t: "?t = take ?m r @ CHR 0x0A # CHR 0x0A # ''[truncated]''" using long by (simp add: truncate_for_storage_def)
    have "\<not> prefix_of TOOL_COMPLETION_MARKER ?t"
    proof
      assume "prefix_of TOOL_COMPLETION_MARKER ?t"
      then have "take (length TOOL_COMPLETION_MARKER) ?t = TOOL_COMPLETION_MARKER" by (simp add: prefix_of_take)
      moreover have "length TOOL_COMPLETION_MARKER \<le> ?m" using m by (simp add: TOOL_COMPLETION_MARKER_def)
      ultimately have "take (length TOOL_COMPLETION_MARKER) r = TOOL_COMPLETION_MARKER"
        unfolding t using long by (simp add: min_def split: if_splits)
      with assms(6) show False by (simp add: prefix_of_take)
    qed
    moreover have "CHR ''{'' \<notin> set ?t" unfolding t using assms(3) by (auto dest: in_set_takeD)
    moreover have "trim ?t = ?t" using stored_trim [OF assms(1,2)] m by simp
    moreover have "?t \<noteq> []" unfolding t by simp
    ultimately have n: "normalized_watch_result_for_change_detection ?e ?t = take ?m r @ '' [truncated]''"
      using no_payload [of ?t ?e] assms(5) words_truncated [OF assms(1) _ long] m
      by (simp add: normalized_watch_result_for_change_detection_def)
    have "CHR '' '' \<notin> set r" using assms(1) by (force simp: is_ws_def Let_def)
    with n show ?thesis by (metis in_set_conv_decomp append_Cons)
  qed
  then show ?thesis
    using r assms(7) by (auto simp: evaluate_watch_condition_without_llm_def change_applies_def truncate_for_storage_def not_le)
qed
section \<open>Examples\<close>

definition sample_watch_env :: watch_env where
  "sample_watch_env = \<lparr>we_run = sample_env, we_chrono = decimal_chrono, we_regex = (\<lambda>_. Inl ''none''), we_number = (\<lambda>_. None),
     we_parse_f64 = (\<lambda>_. None), we_gt = (\<lambda>_ _. False), we_ge = (\<lambda>_ _. False), we_near = (=), we_uuid = (\<lambda>_. ''id''),
     we_write = (\<lambda>_. None), we_read = (\<lambda>_. None)\<rparr>"

theorem validated_predicate_failure_witness:
  "fails (evaluate_watch_json_predicate sample_watch_env (JObj []) \<lparr>jp_path = ''price'', jp_operator = OpEq, jp_value = Some JNull\<rparr>)"
proof -
  let ?p = "\<lparr>jp_path = ''price'', jp_operator = OpEq, jp_value = Some JNull\<rparr>"
  have v: "validate_watch_json_predicate sample_watch_env (jp_path ?p) (jp_operator ?p) (jp_value ?p) = Inr ()" by code_simp
  have n: "json_value_at_watch_condition_path (JObj []) (jp_path ?p) = None" by code_simp
  show ?thesis using validated_predicate_failure [OF v, of "JObj []"] unfolding n by simp
qed

theorem long_result_always_changes_witness:
  "evaluate_watch_condition_without_llm sample_watch_env
      \<lparr>cn_description = ''page'', cn_evaluation_mode = Change, cn_matcher = MatchTextContains [] True\<rparr> (replicate 16001 CHR ''a'')
      (Some (truncate_for_storage (replicate 16001 CHR ''a'') MAX_STORED_RESULT_CHARS)) = Some (Inr True)"
proof -
  let ?r = "replicate 16001 CHR ''a''"
  have e: "re_parse (we_run sample_watch_env) s = None" for s by (simp add: sample_watch_env_def sample_env_def)
  have r: "?r = CHR ''a'' # replicate 16000 CHR ''a''" by (simp flip: replicate_Suc)
  have m: "\<not> prefix_of TOOL_COMPLETION_MARKER ?r" unfolding r by (simp add: TOOL_COMPLETION_MARKER_def)
  have w: "\<forall>c \<in> set ?r. \<not> is_ws c" by (simp add: is_ws_def Let_def)
  have n: "?r \<noteq> []" and b: "CHR ''{'' \<notin> set ?r" by simp_all
  have c: "current_state_match sample_watch_env (MatchTextContains [] True) ?r = Some (Inr True)"
  proof -
    have "contains [] s" for s by (cases s) simp_all
    then show ?thesis by (simp add: current_state_match_def Let_def)
  qed
  show ?thesis using long_result_always_changes [OF w n b e e m c, of "''page''"] by (simp add: MAX_STORED_RESULT_CHARS_def)
qed

end
