(* ===== verification/Watcher_Safety.thy ===== *)
theory Watcher_Safety
  imports Watcher_Manager Watch_Condition
begin

text \<open>
  What the watchers guarantee: the polling loop sleeps exactly until something is due, duplicates are
  replaced, what is stored stays bounded; and where a late poll revives a cancelled watcher, resuming
  all watchers leaves them one failure from the next pause, and a clock set back times a watcher out.
\<close>

section \<open>Sleeping\<close>

lemma secs_mono: "secs m \<le> secs n \<longleftrightarrow> m \<le> n"
  by (simp add: secs_def ns_per_sec_def)

lemma secs_as_u64_ge:
  assumes "0 \<le> d" and "d < secs (2 ^ 64)"
  shows "n \<le> secs_as_u64 d \<longleftrightarrow> secs (int n) \<le> d"
proof -
  have "num_seconds d = d div ns_per_sec" using assms(1) by (simp add: num_seconds_def)
  moreover have "0 \<le> d div ns_per_sec" "d div ns_per_sec < 2 ^ 64"
    using assms by (simp_all add: secs_def ns_per_sec_def pos_imp_zdiv_nonneg_iff)
  ultimately have "secs_as_u64 d = nat (d div ns_per_sec)" by (simp add: secs_as_u64_def)
  moreover have "int n \<le> d div ns_per_sec \<longleftrightarrow> int n * ns_per_sec \<le> d"
  proof
    assume "int n \<le> d div ns_per_sec"
    then have "int n * ns_per_sec \<le> d div ns_per_sec * ns_per_sec" by (simp add: ns_per_sec_def)
    also have "\<dots> \<le> d" by (metis add.commute assms(1) div_mult_mod_eq le_add_same_cancel2 mod_int_pos_iff ns_per_sec_def zero_le_numeral zero_less_numeral)
    finally show "int n * ns_per_sec \<le> d" .
  next
    assume "int n * ns_per_sec \<le> d"
    then have "int n * ns_per_sec div ns_per_sec \<le> d div ns_per_sec" by (intro zdiv_mono1) (simp_all add: ns_per_sec_def)
    then show "int n \<le> d div ns_per_sec" by (simp add: ns_per_sec_def)
  qed
  ultimately show ?thesis using \<open>0 \<le> d div ns_per_sec\<close> by (simp add: secs_def le_nat_iff)
qed


text \<open>The times of a watcher are in order, and its sums stay among the instants the clock can name.\<close>

definition timely :: "int \<Rightarrow> watcher \<Rightarrow> bool" where
  "timely now w \<longleftrightarrow> rfc_range (wa_created_at w) \<and> wa_created_at w \<le> now \<and> rfc_range (wa_created_at w + secs (int (wa_timeout_secs w)))
     \<and> (\<forall>l. wa_last_poll_at w = Some l \<longrightarrow> rfc_range l \<and> l \<le> now \<and> rfc_range (l + secs (int (wa_interval_secs w))))"

lemma range_bounds: "rfc_range a \<Longrightarrow> rfc_range b \<Longrightarrow> b - a < secs (2 ^ 63)"
  by (simp add: rfc_range_def secs_def ns_per_sec_def)

lemma secs_delta_limit: "secs (int time_delta_limit) < secs (2 ^ 63)"
  by (simp add: time_delta_limit_def secs_def ns_per_sec_def)

lemma add_secs_exact:
  assumes "chrono_ok ch" and "rfc_range base" and "rfc_range (base + secs (int n))"
  shows "add_secs ch base n fb = Inr (base + secs (int n))"
proof -
  have "secs (int n) < secs 400000000000" using assms(2,3) by (simp add: rfc_range_def secs_def ns_per_sec_def)
  then have "n \<le> time_delta_limit" by (simp add: secs_def ns_per_sec_def time_delta_limit_def)
  with chrono_plus [OF assms] show ?thesis by (simp add: add_secs_def)
qed

lemma timed_out_iff:
  assumes "timely now w" and "now \<le> t" and "rfc_range t"
  shows "timed_out t w \<longleftrightarrow> wa_created_at w + secs (int (wa_timeout_secs w)) \<le> t"
proof -
  have "t - wa_created_at w < secs (2 ^ 64)"
    using assms range_bounds [of "wa_created_at w" t] by (simp add: timely_def secs_def ns_per_sec_def)
  then show ?thesis using assms by (auto simp: timed_out_def timely_def secs_as_u64_ge)
qed

lemma interval_iff:
  assumes "timely now w" and "now \<le> t" and "rfc_range t" and "wa_last_poll_at w = Some l"
  shows "wa_interval_secs w \<le> secs_as_u64 (t - l) \<longleftrightarrow> l + secs (int (wa_interval_secs w)) \<le> t"
proof -
  have "t - l < secs (2 ^ 64)"
    using assms range_bounds [of l t] by (simp add: timely_def secs_def ns_per_sec_def)
  then show ?thesis using assms by (auto simp: timely_def secs_as_u64_ge)
qed

text \<open>Work for the loop at an instant: a poll that is due, or a watcher to be timed out.\<close>

definition needs_loop :: "int \<Rightarrow> watcher \<Rightarrow> bool" where
  "needs_loop t w \<longleftrightarrow> is_due t w \<or> expires t w"

lemma wakeup_inactive: "wa_status w \<noteq> WActive \<Longrightarrow> watcher_next_wakeup_at ch w now = Inr None \<and> \<not> needs_loop t w"
  by (simp add: watcher_next_wakeup_at_def needs_loop_def is_due_def expires_def)

lemma wakeup_active:
  assumes "chrono_ok ch" and "timely now w" and "wa_status w = WActive"
  obtains t0 where "watcher_next_wakeup_at ch w now = Inr (Some t0)"
    and "\<And>t. now \<le> t \<Longrightarrow> rfc_range t \<Longrightarrow> needs_loop t w \<longleftrightarrow> t0 \<le> t"
proof -
  let ?to = "wa_created_at w + secs (int (wa_timeout_secs w))"
  have to: "add_secs ch (wa_created_at w) (wa_timeout_secs w) now = Inr ?to"
    using assms by (intro add_secs_exact) (auto simp: timely_def)
  define d where "d = (case wa_last_poll_at w of Some l \<Rightarrow> l + secs (int (wa_interval_secs w)) | None \<Rightarrow> now)"
  have dd: "(case wa_last_poll_at w of Some l \<Rightarrow> add_secs ch l (wa_interval_secs w) ?to | None \<Rightarrow> Inr now) = Inr d"
    using assms add_secs_exact [OF assms(1)] by (auto simp: timely_def d_def split: option.splits)
  define p where "p = (case wa_next_poll_not_before w of Some t \<Rightarrow> max d t | None \<Rightarrow> d)"
  define t0 where "t0 = (if ?to \<le> now then now else min p ?to)"
  have e: "watcher_next_wakeup_at ch w now = Inr (Some t0)"
    unfolding watcher_next_wakeup_at_def using assms(3) to dd by (simp add: t0_def p_def)
  have iff: "needs_loop t w \<longleftrightarrow> t0 \<le> t" if t: "now \<le> t" "rfc_range t" for t
  proof -
    have x: "timed_out t w \<longleftrightarrow> ?to \<le> t" by (rule timed_out_iff [OF assms(2) t])
    have "(case wa_last_poll_at w of Some l \<Rightarrow> wa_interval_secs w \<le> secs_as_u64 (t - l) | None \<Rightarrow> True) \<longleftrightarrow> d \<le> t"
      using interval_iff [OF assms(2) t] t by (auto simp: d_def split: option.splits)
    then have "is_due t w \<longleftrightarrow> t < ?to \<and> p \<le> t"
      using assms(3) x by (auto simp: is_due_def p_def split: option.splits)
    then show ?thesis using x assms(3) t by (auto simp: needs_loop_def expires_def t0_def)
  qed
  show thesis by (rule that [OF e iff])
qed
lemma earliest_wakeup_exact:
  assumes "chrono_ok ch" and "list_all (timely now) ws"
  shows "\<exists>wake. earliest_wakeup ch now ws = Inr wake \<and> (\<forall>t. now \<le> t \<longrightarrow> rfc_range t \<longrightarrow>
     list_ex (needs_loop t) ws = (case wake of None \<Rightarrow> False | Some t0 \<Rightarrow> t0 \<le> t))"
  using assms(2)
proof (induction ws)
  case (Cons w ws)
  then obtain b where b: "earliest_wakeup ch now ws = Inr b"
    "\<And>t. now \<le> t \<Longrightarrow> rfc_range t \<Longrightarrow> list_ex (needs_loop t) ws = (case b of None \<Rightarrow> False | Some t0 \<Rightarrow> t0 \<le> t)" by auto
  show ?case
  proof (cases "wa_status w = WActive")
    case True
    have tw: "timely now w" using Cons.prems by simp
    obtain t0 where t0: "watcher_next_wakeup_at ch w now = Inr (Some t0)"
      "\<And>t. now \<le> t \<Longrightarrow> rfc_range t \<Longrightarrow> needs_loop t w \<longleftrightarrow> t0 \<le> t"
      using wakeup_active [OF assms(1) tw True] by blast
    then show ?thesis using b by (cases b) (auto simp: min_le_iff_disj)
  next
    case False
    then show ?thesis using wakeup_inactive [OF False] b by simp
  qed
qed simp

lemma next_wakeup_exact:
  assumes "chrono_ok (we_chrono env)" and "list_all (timely now) (map snd (wm_watchers m))"
  shows "\<exists>wake. next_wakeup_at env now m = Inr wake \<and> (\<forall>t. now \<le> t \<longrightarrow> rfc_range t \<longrightarrow>
     list_ex (needs_loop t) (map snd (wm_watchers m)) = (case wake of None \<Rightarrow> False | Some t0 \<Rightarrow> t0 \<le> t))"
  unfolding next_wakeup_at_def using earliest_wakeup_exact [OF assms] .

lemma max_watcher_sleep_pos [simp]: "0 < max_watcher_sleep i" "0 \<le> max_watcher_sleep i"
  by (simp_all add: max_watcher_sleep_def secs_def ns_per_sec_def)

text \<open>
  C12. The polling loop sleeps exactly long enough. While the agent is not paused and the watchers' times are
  in order (\<open>timely\<close>: none lies ahead of the clock, and no sum leaves the clock's range), the sleep at the end
  of a turn is computed without a panic and lies between nothing and the longest sleep that is configured.
  Until it is over no watcher, as they are when it is computed, comes due or is to be timed out; and when it is
  over some watcher does, unless it is the longest sleep. A shutdown, and a change of the watchers, end the
  sleep early; while the agent is paused the loop sleeps a minute, or the longest sleep if that is less.
\<close>

theorem sleep_is_exact:
  assumes "chrono_ok (we_chrono env)" and "list_all (timely now1) (map snd (wm_watchers m))" and "now1 \<le> now2"
  shows "\<exists>d. watcher_loop_sleep env now1 now2 interval False m = Inr d
    \<and> 0 \<le> d \<and> d \<le> max_watcher_sleep interval
    \<and> (\<forall>t. now2 \<le> t \<longrightarrow> t < now2 + d \<longrightarrow> rfc_range t \<longrightarrow> \<not> list_ex (needs_loop t) (map snd (wm_watchers m)))
    \<and> (d < max_watcher_sleep interval \<longrightarrow> rfc_range (now2 + d) \<longrightarrow> list_ex (needs_loop (now2 + d)) (map snd (wm_watchers m)))"
proof -
  let ?ws = "map snd (wm_watchers m)" and ?max = "max_watcher_sleep interval"
  from next_wakeup_exact [OF assms(1,2)] obtain wake where w: "next_wakeup_at env now1 m = Inr wake"
    and iff: "\<And>t. now1 \<le> t \<Longrightarrow> rfc_range t \<Longrightarrow> list_ex (needs_loop t) ?ws = (case wake of None \<Rightarrow> False | Some t0 \<Rightarrow> t0 \<le> t)"
    by blast
  let ?d = "watcher_sleep_duration wake ?max now2"
  have d: "watcher_loop_sleep env now1 now2 interval False m = Inr ?d" by (simp add: watcher_loop_sleep_def w)
  have pos: "0 \<le> ?d" by (cases wake) (auto simp: watcher_sleep_duration_def)
  have "?d \<le> ?max" by (cases wake) (auto simp: watcher_sleep_duration_def)
  moreover have "\<not> list_ex (needs_loop t) ?ws" if "now2 \<le> t" "t < now2 + ?d" "rfc_range t" for t
    using iff [of t] that assms(3) by (cases wake) (auto simp: watcher_sleep_duration_def split: if_splits)
  moreover have "list_ex (needs_loop (now2 + ?d)) ?ws" if "?d < ?max" "rfc_range (now2 + ?d)"
    using iff [of "now2 + ?d"] that assms(3) pos by (cases wake) (auto simp: watcher_sleep_duration_def split: if_splits)
  ultimately show ?thesis using d pos by blast
qed

text \<open>A change of the watchers during a turn is not slept through, and a shutdown ends the loop.\<close>

lemma change_ends_turn:
  "watcher_turn_ends WatchersChanged slept d (notify_changed m) = Some (True, m\<lparr>wm_permit := False\<rparr>)"
  "watcher_turn_ends ShutdownSignal slept d m = Some (False, m)"
  by (simp_all add: watcher_turn_ends_def wait_for_change_def notify_changed_def)

section \<open>The map\<close>

lemma map_frame [simp]:
  "wm_watchers (persist_watcher_snapshot env now i w m) = wm_watchers m"
  "wm_watchers (persist_one env now i m) = wm_watchers m"
  "wm_watchers (delete_persisted env now i m) = wm_watchers m"
  "wm_watchers (notify_changed m) = wm_watchers m"
  by (simp_all add: persist_watcher_snapshot_def persist_one_def delete_persisted_def notify_changed_def split: option.split)

lemma foldl_frame [simp]:
  "wm_watchers (foldl (\<lambda>m d. delete_persisted env now d m) m ds) = wm_watchers m"
  "wm_watchers (foldl (\<lambda>m w. persist_one env now (wa_id w) m) m ws) = wm_watchers m"
  "wm_watchers (foldl (\<lambda>m w. persist_watcher_snapshot env now (wa_id w) (Some w) m) m ws) = wm_watchers m"
proof -
  show "wm_watchers (foldl (\<lambda>m d. delete_persisted env now d m) m ds) = wm_watchers m"
    by (induction ds arbitrary: m) simp_all
  show "wm_watchers (foldl (\<lambda>m w. persist_one env now (wa_id w) m) m ws) = wm_watchers m"
    by (induction ws arbitrary: m) simp_all
  show "wm_watchers (foldl (\<lambda>m w. persist_watcher_snapshot env now (wa_id w) (Some w) m) m ws) = wm_watchers m"
    by (induction ws arbitrary: m) simp_all
qed

lemma persist_watchers_frame [simp]: "wm_watchers (persist_watchers env now m) = wm_watchers m"
  by (simp add: persist_watchers_def)

lemma map_of_change: "map_of (map (\<lambda>(k, w). (k, if k = i then f w else w)) xs) j
    = map_option (\<lambda>w. if j = i then f w else w) (map_of xs j)"
  by (induction xs) auto

lemma lookup_frame [simp]:
  "lookup_watcher j (persist_one env now i m) = lookup_watcher j m"
  "lookup_watcher j (notify_changed m) = lookup_watcher j m"
  "lookup_watcher j (modify_watcher i f m) = map_option (\<lambda>w. if j = i then f w else w) (lookup_watcher j m)"
  by (simp_all add: lookup_watcher_def modify_watcher_def map_of_change)

lemma control_lookup:
  assumes "lookup_watcher i m = Some w" and "fit w"
  shows "fst (control env now i fit f m)" and "lookup_watcher i (snd (control env now i fit f m)) = Some (f w)"
  using assms by (simp_all add: control_def)

lemma begin_poll_lookup:
  assumes "lookup_watcher i m = Some w" and "wa_status w = WActive"
  shows "lookup_watcher i (snd (begin_poll env now i m)) = Some (started now w)"
  using assms by (simp add: begin_poll_def)

lemma lookup_mem: "lookup_watcher i m = Some w \<Longrightarrow> w \<in> set (map snd (wm_watchers m))"
  by (force simp: lookup_watcher_def dest: map_of_SomeD)

section \<open>Late polls, resumption, the clock\<close>

lemma five_failures: "5 \<le> sat_add_u32 n (Suc 0) \<longleftrightarrow> 4 \<le> n"
  by (auto simp: sat_add_u32_def u32_max_def)

lemma poll_failed_status:
  "wa_status (poll_failed now n e w) = (if 4 \<le> wa_consecutive_failures w
      \<and> \<not> watcher_poll_error_is_transient (truncate_for_storage e MAX_STORED_RESULT_CHARS) then WPaused else wa_status w)"
  by (simp add: poll_failed_def Let_def MAX_CONSECUTIVE_FAILURES_BEFORE_PAUSE_def five_failures)

text \<open>
  C38. A late failure revives a cancelled watcher. A poll is under way for a watcher that has failed at least
  four times in a row, and the user cancels the watcher, which is confirmed. When the poll then fails with an
  error that does not count as transient, its record turns the cancelled watcher into a paused one, which
  resuming makes poll again. (After fewer failures, or with a transient error, it stays cancelled:
  \<open>poll_failed_status\<close>.)
\<close>

theorem late_failure_revives_cancelled:
  assumes "lookup_watcher i m = Some w" and "wa_status w = WActive" and "4 \<le> wa_consecutive_failures w"
    and "\<not> watcher_poll_error_is_transient (truncate_for_storage e MAX_STORED_RESULT_CHARS)"
    and "m1 = snd (begin_poll env ta i m)" and "m2 = snd (cancel env tb i m1)" and "m3 = record_poll_error env tc i n e m2"
  shows "fst (cancel env tb i m1) \<and> map_option wa_status (lookup_watcher i m2) = Some WCancelled
    \<and> map_option wa_status (lookup_watcher i m3) = Some WPaused
    \<and> map_option wa_status (lookup_watcher i (snd (resume env td i m3))) = Some WActive"
proof -
  have 1: "lookup_watcher i m1 = Some (started ta w)"
    unfolding assms(5) by (rule begin_poll_lookup [OF assms(1,2)])
  have o: "open_status (started ta w)" using assms(2) by (simp add: started_def open_status_def)
  have 2: "lookup_watcher i m2 = Some ((started ta w)\<lparr>wa_status := WCancelled\<rparr>)"
    using control_lookup(2) [of i m1 "started ta w" open_status] 1 o assms(6) by (simp add: cancel_def)
  let ?w3 = "poll_failed tc n e ((started ta w)\<lparr>wa_status := WCancelled\<rparr>)"
  have 3: "lookup_watcher i m3 = Some ?w3"
    unfolding assms(7) record_poll_error_def by (simp add: 2)
  have s: "wa_status ?w3 = WPaused" using assms(3,4) by (simp add: poll_failed_status started_def)
  have "map_option wa_status (lookup_watcher i (snd (resume env td i m3))) = Some WActive"
    using control_lookup(2) [of i m3 ?w3 "\<lambda>w. wa_status w = WPaused"] 3 s by (simp add: resume_def)
  moreover have "fst (cancel env tb i m1)"
    using control_lookup(1) [of i m1 "started ta w" open_status] 1 o by (simp add: cancel_def)
  ultimately show ?thesis using 2 3 s by simp
qed

lemma map_of_switch: "map_of (map (\<lambda>(k, w). (k, if P w then f w else w)) xs) j
    = map_option (\<lambda>w. if P w then f w else w) (map_of xs j)"
  by (induction xs) auto

lemma resume_all_lookup:
  "lookup_watcher i m = Some w \<Longrightarrow> wa_status w = WPaused \<Longrightarrow>
    lookup_watcher i (snd (resume_all env now m)) = Some (w\<lparr>wa_status := WActive\<rparr>)"
  by (simp add: resume_all_def switch_all_def Let_def lookup_watcher_def map_of_switch)

text \<open>
  Resuming all is not resuming each. A watcher that was paused by its failures and is resumed on its
  own may fail again; resumed together with all the others it keeps its count, so the next failure that
  is not transient pauses it at once.
\<close>

theorem resume_all_keeps_failures:
  assumes "lookup_watcher i m = Some w" and "wa_status w = WPaused"
    and "MAX_CONSECUTIVE_FAILURES_BEFORE_PAUSE \<le> wa_consecutive_failures w"
    and "\<not> watcher_poll_error_is_transient (truncate_for_storage e MAX_STORED_RESULT_CHARS)"
  shows "map_option wa_status (lookup_watcher i (snd (resume env t i m))) = Some WActive
    \<and> map_option wa_status (lookup_watcher i (snd (resume_all env t m))) = Some WActive
    \<and> map_option wa_status (lookup_watcher i (record_poll_error env t' i n e (snd (resume env t i m)))) = Some WActive
    \<and> map_option wa_status (lookup_watcher i (record_poll_error env t' i n e (snd (resume_all env t m)))) = Some WPaused"
proof -
  have one: "lookup_watcher i (snd (resume env t i m))
      = Some (w\<lparr>wa_status := WActive, wa_consecutive_failures := 0, wa_next_poll_not_before := None\<rparr>)"
    using control_lookup(2) [of i m w "\<lambda>w. wa_status w = WPaused"] assms(1,2) by (simp add: resume_def)
  show ?thesis
    using one resume_all_lookup [OF assms(1,2), of env t] assms(3,4)
    by (simp add: record_poll_error_def poll_failed_status MAX_CONSECUTIVE_FAILURES_BEFORE_PAUSE_def)
qed

text \<open>
  Running now waits for the backoff. For an active watcher in backoff after a failure the request to
  run now succeeds, and yet the watcher is not due until the backoff is over.
\<close>

theorem run_now_waits:
  assumes "lookup_watcher i m = Some w" and "wa_status w = WActive" and "wa_next_poll_not_before w = Some t"
    and "now < t"
  shows "fst (run_now env now i m) \<and> map_option (is_due now) (lookup_watcher i (snd (run_now env now i m))) = Some False"
  using control_lookup [of i m w "\<lambda>w. wa_status w = WActive"] assms by (simp add: run_now_def is_due_def)

lemma started_wakeup_panics:
  assumes "wa_status w = WActive" and "time_delta_limit < wa_interval_secs w" and "chrono_ok ch"
    and "rfc_range (wa_created_at w)" and "rfc_range (wa_created_at w + secs (int (wa_timeout_secs w)))"
    and "t < wa_created_at w + secs (int (wa_timeout_secs w))"
  shows "watcher_next_wakeup_at ch (started now w) t = Inl (Panicked ''TimeDelta::seconds out of bounds'')"
proof -
  have "time_delta_limit < min (wa_interval_secs w) 9223372036854775807"
    using assms(2) by (simp add: time_delta_limit_def)
  then show ?thesis
    using assms add_secs_exact [OF assms(3-5)] by (simp add: watcher_next_wakeup_at_def started_def add_secs_def)
qed

lemma earliest_panics: "w \<in> set ws \<Longrightarrow> watcher_next_wakeup_at ch w now = Inl e \<Longrightarrow> \<exists>e. earliest_wakeup ch now ws = Inl e"
proof (induction ws)
  case (Cons v ws)
  then show ?case by (cases "watcher_next_wakeup_at ch v now"; cases "earliest_wakeup ch now ws") auto
qed simp

text \<open>
  C39. One oversized interval stops the loop. The interval of a watcher is not bounded when it is made.
  Beyond 9223372036854775 seconds, from its first poll until it times out, the computation of the next
  wake-up panics, for all watchers together.
\<close>

theorem oversized_interval_stops_loop:
  assumes "lookup_watcher i m = Some w" and "wa_status w = WActive" and "time_delta_limit < wa_interval_secs w"
    and "chrono_ok (we_chrono env)" and "rfc_range (wa_created_at w)"
    and "rfc_range (wa_created_at w + secs (int (wa_timeout_secs w)))"
    and "t < wa_created_at w + secs (int (wa_timeout_secs w))"
  shows "\<exists>e. next_wakeup_at env t (snd (begin_poll env now i m)) = Inl e"
  unfolding next_wakeup_at_def
  by (rule earliest_panics [OF lookup_mem [OF begin_poll_lookup [OF assms(1,2)]] started_wakeup_panics [OF assms(2-7)]])

text \<open>
  A clock set back times watchers out. A watcher whose creation lies more than a second ahead of the
  clock has a negative age, which is read as an unsigned number: it is timed out at once.
\<close>

theorem clock_set_back_times_out:
  assumes "now + secs 1 \<le> wa_created_at w" and "wa_created_at w < now + secs (2 ^ 62)"
    and "wa_timeout_secs w \<le> MAX_TIMEOUT_SECS"
  shows "timed_out now w \<and> \<not> is_due now w"
proof -
  define k where "k = (wa_created_at w - now) div ns_per_sec"
  have k: "1 \<le> k" "k < 2 ^ 62"
    using assms(1,2) by (simp_all add: k_def secs_def ns_per_sec_def pos_imp_zdiv_nonneg_iff)
  have "num_seconds (now - wa_created_at w) = - k"
    using assms(1) by (simp add: num_seconds_def k_def secs_def ns_per_sec_def)
  moreover have "- k mod 2 ^ 64 = 2 ^ 64 - k" using k by (subst zmod_zminus1_eq_if) simp
  ultimately have "secs_as_u64 (now - wa_created_at w) = nat (2 ^ 64 - k)" by (simp add: secs_as_u64_def)
  with k assms(3) have "timed_out now w" by (simp add: timed_out_def MAX_TIMEOUT_SECS_def)
  then show ?thesis by (simp add: is_due_def)
qed
section \<open>Examples\<close>

definition sample_watcher :: watcher where
  "sample_watcher = \<lparr>wa_id = 7, wa_description = ''news'', wa_poll_action = ''web_search'', wa_poll_arguments = JObj [],
     wa_condition = \<lparr>cn_description = ''news'', cn_evaluation_mode = CurrentState, cn_matcher = MatchNotEmpty\<rparr>,
     wa_on_trigger = ''tell'', wa_interval_secs = 60, wa_timeout_secs = 86400, wa_notify_channel = ''web'', wa_repeat_on_match = False,
     wa_status = WActive, wa_created_at = 0, wa_last_poll_at = None, wa_poll_count = 0, wa_trigger_result = None, wa_last_result = None,
     wa_last_error = None, wa_consecutive_failures = 0, wa_next_poll_not_before = None, wa_last_poll_outcome = None,
     wa_notification_attempts = []\<rparr>"

definition sample_manager :: "watcher \<Rightarrow> watcher_manager" where
  "sample_manager w = \<lparr>wm_watchers = [(7, w)], wm_storage = None, wm_permit = False\<rparr>"

lemma sample_lookup [simp]: "lookup_watcher 7 (sample_manager w) = Some w"
  by (simp add: lookup_watcher_def sample_manager_def)

lemma sample_not_transient: "\<not> watcher_poll_error_is_transient (truncate_for_storage ''parse error'' MAX_STORED_RESULT_CHARS)"
  by code_simp

lemma sample_chrono_ok: "chrono_ok (we_chrono sample_watch_env)"
  by (simp add: sample_watch_env_def decimal_chrono_ok)

theorem sleep_is_exact_witness:
  "\<exists>d. watcher_loop_sleep sample_watch_env 5 6 900 False (sample_manager sample_watcher) = Inr d \<and> 0 \<le> d \<and> d \<le> secs 900"
proof -
  have "list_all (timely 5) (map snd (wm_watchers (sample_manager sample_watcher)))"
    by (simp add: sample_manager_def sample_watcher_def timely_def rfc_range_def secs_def ns_per_sec_def)
  from sleep_is_exact [OF sample_chrono_ok this, of 6 900] show ?thesis
    by (auto simp: max_watcher_sleep_def)
qed

theorem late_failure_revives_cancelled_witness:
  "\<exists>m. map_option wa_status (lookup_watcher 7 m) = Some WPaused
     \<and> map_option wa_status (lookup_watcher 7 (snd (resume sample_watch_env 9 7 m))) = Some WActive"
proof -
  let ?w = "sample_watcher\<lparr>wa_consecutive_failures := 4\<rparr>"
  have "wa_status ?w = WActive" "4 \<le> wa_consecutive_failures ?w" by (simp_all add: sample_watcher_def)
  from late_failure_revives_cancelled [OF sample_lookup this sample_not_transient refl refl refl,
      where env = sample_watch_env and ta = 1 and tb = 2 and tc = 3 and td = 9 and n = 1]
  show ?thesis by (elim conjE) (intro exI conjI)
qed

theorem resume_all_keeps_failures_witness:
  "map_option wa_status (lookup_watcher 7 (record_poll_error sample_watch_env 9 7 1 ''parse error''
     (snd (resume_all sample_watch_env 5 (sample_manager (sample_watcher\<lparr>wa_status := WPaused, wa_consecutive_failures := 5\<rparr>)))))) = Some WPaused"
  using resume_all_keeps_failures [OF sample_lookup _ _ sample_not_transient,
      of "sample_watcher\<lparr>wa_status := WPaused, wa_consecutive_failures := 5\<rparr>" sample_watch_env 5 9 1]
  by (simp add: MAX_CONSECUTIVE_FAILURES_BEFORE_PAUSE_def)

theorem run_now_waits_witness:
  "map_option (is_due 5) (lookup_watcher 7 (snd (run_now sample_watch_env 5 7
     (sample_manager (sample_watcher\<lparr>wa_next_poll_not_before := Some 9\<rparr>))))) = Some False"
  using run_now_waits [OF sample_lookup, of "sample_watcher\<lparr>wa_next_poll_not_before := Some 9\<rparr>" 9 5 sample_watch_env]
  by (simp add: sample_watcher_def)

theorem oversized_interval_stops_loop_witness:
  "\<exists>e. next_wakeup_at sample_watch_env 9 (snd (begin_poll sample_watch_env 5 7
     (sample_manager (sample_watcher\<lparr>wa_interval_secs := 10000000000000000\<rparr>)))) = Inl e"
  by (rule oversized_interval_stops_loop [OF sample_lookup _ _ sample_chrono_ok])
     (simp_all add: sample_watcher_def time_delta_limit_def rfc_range_def secs_def ns_per_sec_def)

theorem clock_set_back_times_out_witness: "timed_out (- secs 5) sample_watcher"
  by (rule conjunct1 [OF clock_set_back_times_out])
     (simp_all add: sample_watcher_def MAX_TIMEOUT_SECS_def secs_def ns_per_sec_def)

end
