(* ===== verification/Watcher_Runs.thy ===== *)
theory Watcher_Runs
  imports Watcher_Safety
begin

text \<open>
  Runs of the watcher manager: the operations as steps, what every reachable state keeps, and the
  replacement of duplicates. The examples at the end give every hypothesis a watcher that meets it.
\<close>

section \<open>Duplicates\<close>

lemma foldl_delete: "foldl (\<lambda>ws d. AList.delete d ws) ws ds = filter (\<lambda>p. fst p \<notin> set ds) ws"
proof (induction ds arbitrary: ws)
  case (Cons d ds)
  then show ?case by (auto simp: AList.delete_eq intro!: filter_cong)
qed simp

lemma map_of_filter_fst: "map_of (filter (\<lambda>p. P (fst p)) xs) k = (if P k then map_of xs k else None)"
  by (induction xs) auto

lemma matches_update:
  "matching_ids env w ws = [] \<Longrightarrow> live_status (wa_status w) \<Longrightarrow> matching_ids env w (AList.update i w ws) = [i]"
  by (induction ws) (auto simp: matching_ids_def similar_refl split: if_splits)

lemma matching_distinct: "distinct (map fst ws) \<Longrightarrow> distinct (matching_ids env w ws)"
  unfolding matching_ids_def by (rule distinct_map_filter)

lemma only_key:
  "distinct (map fst ws) \<Longrightarrow> k \<in> fst ` set ws \<Longrightarrow> map fst (filter (\<lambda>p. fst p = k) ws) = [k]"
proof (induction ws)
  case (Cons p ws)
  show ?case
  proof (cases "fst p = k")
    case True
    with Cons.prems have "filter (\<lambda>p. fst p = k) ws = []" by (simp add: filter_empty_conv) (metis image_eqI)
    with True show ?thesis by simp
  qed (use Cons in auto)
qed simp

lemma replaced_matches: "live_status (wa_status (replace_watcher now w e)) \<and> watchers_are_semantically_similar env (replace_watcher now w e) w"
  using similar_refl [of env w]
  by (simp add: replace_watcher_def live_status_def watchers_are_semantically_similar_def eq_ignore_case_def)

lemma matches_replaced:
  assumes "distinct (map fst ws)" and "matching_ids env w ws = keeper # duplicates"
  shows "matching_ids env w (filter (\<lambda>p. fst p \<notin> set duplicates)
      (map (\<lambda>(k, e). (k, if k = keeper then replace_watcher now w e else e)) ws)) = [keeper]"
proof -
  let ?rep = "map (\<lambda>(k, e). (k, if k = keeper then replace_watcher now w e else e)) ws"
  let ?M = "\<lambda>p. live_status (wa_status (snd p)) \<and> watchers_are_semantically_similar env (snd p) w"
  have ids: "matching_ids env w xs = map fst (filter ?M xs)" for xs by (simp add: matching_ids_def)
  have keys: "map fst ?rep = map fst ws" by (simp add: case_prod_beta comp_def)
  have "distinct (keeper # duplicates)" using matching_distinct [OF assms(1), of env w] assms(2) by simp
  then have kd: "keeper \<notin> set duplicates" by simp
  have "keeper \<in> set (matching_ids env w ws)" using assms(2) by simp
  then have kw: "keeper \<in> fst ` set ws" by (auto simp: ids)
  have "(fst p \<notin> set duplicates \<and> ?M p) = (fst p = keeper)" if p: "p \<in> set ?rep" for p
  proof -
    from p obtain k e where ke: "(k, e) \<in> set ws" "p = (k, if k = keeper then replace_watcher now w e else e)" by auto
    show ?thesis
    proof (cases "k = keeper")
      case True
      then show ?thesis using ke kd replaced_matches by simp
    next
      case False
      have "?M p \<longrightarrow> k \<in> set (matching_ids env w ws)" using ke False by (force simp: ids)
      with False ke assms(2) show ?thesis by auto
    qed
  qed
  then have f: "filter (\<lambda>p. fst p \<notin> set duplicates \<and> ?M p) ?rep = filter (\<lambda>p. fst p = keeper) ?rep"
    by (rule filter_cong [OF refl])
  have "distinct (map fst ?rep)" "keeper \<in> fst ` set ?rep" using assms(1) kw keys by (metis, metis list.set_map)
  then show ?thesis unfolding ids filter_filter f by (rule only_key)
qed

text \<open>What a request asks of its watcher, and a watcher that starts over.\<close>

definition as_requested :: "watcher \<Rightarrow> watcher \<Rightarrow> bool" where
  "as_requested w v \<longleftrightarrow> wa_description v = wa_description w \<and> wa_poll_action v = wa_poll_action w
     \<and> wa_poll_arguments v = wa_poll_arguments w \<and> wa_condition v = wa_condition w \<and> wa_on_trigger v = wa_on_trigger w
     \<and> wa_interval_secs v = wa_interval_secs w \<and> wa_timeout_secs v = wa_timeout_secs w
     \<and> wa_notify_channel v = wa_notify_channel w \<and> wa_repeat_on_match v = wa_repeat_on_match w"

definition started_over :: "int \<Rightarrow> watcher \<Rightarrow> bool" where
  "started_over now v \<longleftrightarrow> wa_created_at v = now \<and> wa_last_poll_at v = None \<and> wa_poll_count v = 0
     \<and> wa_trigger_result v = None \<and> wa_last_result v = None \<and> wa_last_error v = None \<and> wa_consecutive_failures v = 0
     \<and> wa_next_poll_not_before v = None \<and> wa_last_poll_outcome v = None \<and> wa_notification_attempts v = []"

text \<open>
  C13. A request made again leaves one watcher. Whatever duplicates there were, after an upsert without a
  target exactly one live watcher is the same request, it is the one returned and active, with the
  description, action, arguments, condition, trigger, interval, lifetime, channel and repetition that were
  asked for; it is the one handed in when there was none, and otherwise it starts over, its clock at now and
  nothing remembered of its polls. The number of removed duplicates is reported.
\<close>

theorem upsert_leaves_one:
  assumes "distinct (map fst (wm_watchers m))" and "wa_status w = WActive"
    and "upsert_similar env now w None m = (r, m')"
  shows "\<exists>k v. r = Inr (k, matching_ids env w (wm_watchers m) \<noteq> [], length (matching_ids env w (wm_watchers m)) - 1)
    \<and> matching_ids env w (wm_watchers m') = [k] \<and> lookup_watcher k m' = Some v
    \<and> wa_status v = WActive \<and> as_requested w v
    \<and> (if matching_ids env w (wm_watchers m) = [] then v = w else started_over now v)"
proof (cases "matching_ids env w (wm_watchers m)")
  case Nil
  with assms have e: "r = Inr (wa_id w, False, 0)" "wm_watchers m' = AList.update (wa_id w) w (wm_watchers m)"
    by (auto simp: upsert_similar_def)
  have "live_status (wa_status w)" by (simp add: assms(2) live_status_def)
  with e Nil assms(2) matches_update [OF Nil] show ?thesis
    by (auto simp: lookup_watcher_def update_conv' as_requested_def)
next
  case (Cons keeper duplicates)
  let ?rep = "map (\<lambda>(k, e). (k, if k = keeper then replace_watcher now w e else e)) (wm_watchers m)"
  from Cons assms(3) have e: "r = Inr (keeper, True, length duplicates)"
    "wm_watchers m' = filter (\<lambda>p. fst p \<notin> set duplicates) ?rep"
    by (auto simp: upsert_similar_def Let_def modify_watcher_def foldl_delete)
  have "keeper \<in> set (matching_ids env w (wm_watchers m))" using Cons by simp
  then obtain v where v: "map_of (wm_watchers m) keeper = Some v"
    using assms(1) by (auto simp: matching_ids_def)
  have "distinct (keeper # duplicates)" using matching_distinct [OF assms(1), of env w] Cons by simp
  then have "map_of (filter (\<lambda>p. fst p \<notin> set duplicates) ?rep) keeper = Some (replace_watcher now w v)"
    using v by (simp add: map_of_filter_fst [of "\<lambda>k. k \<notin> set duplicates"] map_of_change)
  with e Cons matches_replaced [OF assms(1) Cons] show ?thesis
    by (simp add: lookup_watcher_def replace_watcher_def as_requested_def started_over_def)
qed

section \<open>Reachable states\<close>

datatype watcher_op = OpAdd watcher | OpUpsert watcher "uuid option" | OpBegin uuid | OpSuccess uuid nat string bool
  | OpError uuid nat string | OpTriggered uuid string | OpAttempt uuid notification_attempt | OpExpire | OpCancel uuid
  | OpPause uuid | OpResume uuid | OpPauseAll | OpResumeAll | OpRunNow uuid | OpExtend uuid nat | OpUntilStopped uuid
  | OpSession uuid "string option" | OpChannel uuid string | OpDelete uuid | OpCleanup

fun run_watcher_op :: "watch_env \<Rightarrow> int \<Rightarrow> watcher_op \<Rightarrow> watcher_manager \<Rightarrow> watcher_manager" where
  "run_watcher_op env now (OpAdd w) m = snd (add_watcher env now w m)"
| "run_watcher_op env now (OpUpsert w t) m = snd (upsert_similar env now w t m)"
| "run_watcher_op env now (OpBegin i) m = snd (begin_poll env now i m)"
| "run_watcher_op env now (OpSuccess i n r b) m = record_poll_success env now i n r b m"
| "run_watcher_op env now (OpError i n e) m = record_poll_error env now i n e m"
| "run_watcher_op env now (OpTriggered i r) m = mark_triggered env now i r m"
| "run_watcher_op env now (OpAttempt i a) m = push_notification_attempt env now i a m"
| "run_watcher_op env now OpExpire m = snd (expire_watchers env now m)"
| "run_watcher_op env now (OpCancel i) m = snd (cancel env now i m)"
| "run_watcher_op env now (OpPause i) m = snd (pause env now i m)"
| "run_watcher_op env now (OpResume i) m = snd (resume env now i m)"
| "run_watcher_op env now OpPauseAll m = snd (pause_all env now m)"
| "run_watcher_op env now OpResumeAll m = snd (resume_all env now m)"
| "run_watcher_op env now (OpRunNow i) m = snd (run_now env now i m)"
| "run_watcher_op env now (OpExtend i n) m = snd (extend_timeout env now i n m)"
| "run_watcher_op env now (OpUntilStopped i) m = snd (extend_until_stopped env now i m)"
| "run_watcher_op env now (OpSession i s) m = snd (set_background_session_id env now i s m)"
| "run_watcher_op env now (OpChannel i c) m = snd (set_notify_channel env now i c m)"
| "run_watcher_op env now (OpDelete i) m = snd (delete_one env now i m)"
| "run_watcher_op env now OpCleanup m = cleanup_watchers env now m"

definition attempt_ok :: "notification_attempt \<Rightarrow> bool" where
  "attempt_ok a \<longleftrightarrow> length (na_message a) \<le> MAX_STORED_NOTIFICATION_MESSAGE_CHARS + 13
     \<and> (case na_error a of Some e \<Rightarrow> length e \<le> MAX_STORED_RESULT_CHARS + 13 | None \<Rightarrow> True)"

definition stored_ok :: "string option \<Rightarrow> bool" where
  "stored_ok t \<longleftrightarrow> (case t of Some s \<Rightarrow> length s \<le> MAX_STORED_RESULT_CHARS + 13 | None \<Rightarrow> True)"

definition watcher_ok :: "watcher \<Rightarrow> bool" where
  "watcher_ok w \<longleftrightarrow> stored_ok (wa_trigger_result w) \<and> stored_ok (wa_last_result w) \<and> stored_ok (wa_last_error w)
     \<and> length (wa_notification_attempts w) \<le> MAX_NOTIFICATION_ATTEMPTS \<and> list_all attempt_ok (wa_notification_attempts w)
     \<and> wa_timeout_secs w \<le> MAX_TIMEOUT_SECS \<and> wa_consecutive_failures w \<le> u32_max"

text \<open>What a caller may hand in: a new watcher that is itself within the bounds.\<close>

definition op_bounded :: "watcher_op \<Rightarrow> bool" where
  "op_bounded p \<longleftrightarrow> (case p of OpAdd w \<Rightarrow> watcher_ok w | OpUpsert w _ \<Rightarrow> watcher_ok w | _ \<Rightarrow> True)"

text \<open>Stored rows within the bounds: what the decoder makes of each of them is a bounded watcher.\<close>

definition rows_ok :: "watch_env \<Rightarrow> watcher_db \<Rightarrow> bool" where
  "rows_ok env db \<longleftrightarrow> (\<forall>r \<in> set (wt_watchers (tables db)). pred_option watcher_ok (we_read env (wr_payload r)))"

text \<open>A manager is made from the stored rows, works, and may be made again from the rows it wrote.\<close>

inductive watchers_reachable :: "watch_env \<Rightarrow> watcher_manager \<Rightarrow> bool" for env where
  start: "pred_option (rows_ok env) storage \<Longrightarrow> watchers_reachable env (watcher_manager_new env storage)"
| step: "watchers_reachable env m \<Longrightarrow> op_bounded p \<Longrightarrow> watchers_reachable env (run_watcher_op env now p m)"
| restart: "watchers_reachable env m \<Longrightarrow> watchers_reachable env (watcher_manager_new env (wm_storage m))"

definition map_good :: "(uuid \<times> watcher) list \<Rightarrow> bool" where
  "map_good ws \<longleftrightarrow> distinct (map fst ws) \<and> list_all (\<lambda>p. fst p = wa_id (snd p) \<and> watcher_ok (snd p)) ws"

lemma stored_ok_truncated [simp]: "stored_ok (Some (truncate_for_storage v MAX_STORED_RESULT_CHARS))"
  by (simp add: stored_ok_def truncate_for_storage_length)

lemma stored_ok_None [simp]: "stored_ok None"
  by (simp add: stored_ok_def)

lemma update_members: "p \<in> set (AList.update k v xs) \<Longrightarrow> p = (k, v) \<or> p \<in> set xs"
  by (induction xs) (auto split: if_splits)

lemma map_good_update:
  assumes "map_good ws" and "watcher_ok w"
  shows "map_good (AList.update (wa_id w) w ws)"
proof -
  have "fst p = wa_id (snd p) \<and> watcher_ok (snd p)" if "p \<in> set (AList.update (wa_id w) w ws)" for p
    using update_members [OF that] assms by (auto simp: map_good_def list_all_iff)
  with assms show ?thesis by (simp add: map_good_def list_all_iff distinct_update)
qed

lemma map_good_filter: "map_good ws \<Longrightarrow> map_good (filter P ws)"
  by (auto simp: map_good_def list_all_iff distinct_map_filter)

lemma map_good_map:
  assumes "map_good ws" and "\<And>w. watcher_ok w \<Longrightarrow> watcher_ok (f w) \<and> wa_id (f w) = wa_id w"
  shows "map_good (map (\<lambda>(k, w). (k, if P k w then f w else w)) ws)"
proof -
  have "map fst (map (\<lambda>(k, w). (k, if P k w then f w else w)) ws) = map fst ws" by (simp add: case_prod_beta comp_def)
  moreover have "list_all (\<lambda>p. fst p = wa_id (snd p) \<and> watcher_ok (snd p)) (map (\<lambda>(k, w). (k, if P k w then f w else w)) ws)"
    using assms unfolding map_good_def list_all_iff by (auto split: if_splits)
  ultimately show ?thesis using assms(1) unfolding map_good_def by (simp only: simp_thms)
qed

lemma map_good_delete_one: "map_good ws \<Longrightarrow> map_good (AList.delete i ws)"
  by (simp add: AList.delete_eq map_good_filter)

lemma map_good_delete: "map_good ws \<Longrightarrow> map_good (foldl (\<lambda>ws d. AList.delete d ws) ws ds)"
  by (simp add: foldl_delete map_good_filter)

definition keeps_ok :: "(watcher \<Rightarrow> watcher) \<Rightarrow> bool" where
  "keeps_ok f \<longleftrightarrow> (\<forall>w. watcher_ok w \<longrightarrow> watcher_ok (f w) \<and> wa_id (f w) = wa_id w)"

lemma modify_good: "map_good (wm_watchers m) \<Longrightarrow> keeps_ok f \<Longrightarrow> map_good (wm_watchers (modify_watcher i f m))"
  unfolding modify_watcher_def keeps_ok_def
  using map_good_map [of "wm_watchers m" f "\<lambda>k _. k = i"] by simp

lemma attempts_ok:
  assumes "list_all attempt_ok as" and "attempt_ok b"
  shows "list_all attempt_ok (if M < length (as @ [b]) then drop (length (as @ [b]) - M) (as @ [b]) else as @ [b])"
    and "length (if M < length (as @ [b]) then drop (length (as @ [b]) - M) (as @ [b]) else as @ [b]) \<le> M"
proof -
  have "list_all attempt_ok (as @ [b])" using assms by simp
  then show "list_all attempt_ok (if M < length (as @ [b]) then drop (length (as @ [b]) - M) (as @ [b]) else as @ [b])"
    by (auto simp: list_all_iff dest: in_set_dropD)
  show "length (if M < length (as @ [b]) then drop (length (as @ [b]) - M) (as @ [b]) else as @ [b]) \<le> M"
  proof (cases "M < length (as @ [b])")
    case True
    then show ?thesis unfolding if_P [OF True] length_drop by linarith
  next
    case False
    then show ?thesis unfolding if_not_P [OF False] by linarith
  qed
qed

lemma with_attempt_ok: "keeps_ok (with_attempt a)"
  unfolding keeps_ok_def
proof (intro allI impI)
  fix w
  assume w: "watcher_ok w"
  define b where "b = a\<lparr>na_message := truncate_for_storage (na_message a) MAX_STORED_NOTIFICATION_MESSAGE_CHARS,
           na_error := map_option (\<lambda>e. truncate_for_storage e MAX_STORED_RESULT_CHARS) (na_error a)\<rparr>"
  have b: "attempt_ok b" by (simp add: b_def attempt_ok_def truncate_for_storage_length split: option.split)
  have e: "with_attempt a w = w\<lparr>wa_notification_attempts := (if MAX_NOTIFICATION_ATTEMPTS < length (wa_notification_attempts w @ [b])
      then drop (length (wa_notification_attempts w @ [b]) - MAX_NOTIFICATION_ATTEMPTS) (wa_notification_attempts w @ [b])
      else wa_notification_attempts w @ [b])\<rparr>"
    by (simp add: with_attempt_def Let_def b_def)
  show "watcher_ok (with_attempt a w) \<and> wa_id (with_attempt a w) = wa_id w"
    using attempts_ok [of "wa_notification_attempts w" b MAX_NOTIFICATION_ATTEMPTS] w b unfolding e by (simp add: watcher_ok_def)
qed

lemma poll_failed_ok: "keeps_ok (poll_failed now n e)"
  by (simp add: keeps_ok_def poll_failed_def Let_def watcher_ok_def sat_add_u32_le)

lemma simple_ok:
  "keeps_ok (started now)" "keeps_ok (poll_succeeded now n r b)" "keeps_ok (triggered r)"
  "keeps_ok (\<lambda>w. w\<lparr>wa_status := s\<rparr>)" "keeps_ok (\<lambda>w. w\<lparr>wa_last_poll_at := None\<rparr>)"
  "keeps_ok (\<lambda>w. w\<lparr>wa_status := s, wa_next_poll_not_before := None\<rparr>)"
  "keeps_ok (\<lambda>w. w\<lparr>wa_status := s, wa_consecutive_failures := 0, wa_next_poll_not_before := None\<rparr>)"
  "keeps_ok (\<lambda>w. w\<lparr>wa_timeout_secs := min (sat_add_u64 (wa_timeout_secs w) x) MAX_TIMEOUT_SECS\<rparr>)"
  "keeps_ok (\<lambda>w. w\<lparr>wa_timeout_secs := MAX_TIMEOUT_SECS\<rparr>)" "keeps_ok (\<lambda>w. w\<lparr>wa_poll_arguments := g w\<rparr>)"
  "keeps_ok (\<lambda>w. w\<lparr>wa_notify_channel := c\<rparr>)"
  by (simp_all add: keeps_ok_def started_def poll_succeeded_def triggered_def Let_def watcher_ok_def)

lemma replace_ok: "watcher_ok w \<Longrightarrow> keeps_ok (replace_watcher now w)"
  by (simp add: keeps_ok_def replace_watcher_def watcher_ok_def)

lemma loaded_good: "map_good ws \<Longrightarrow> list_all watcher_ok loaded \<Longrightarrow> map_good (foldl (\<lambda>m w. AList.update (wa_id w) w m) ws loaded)"
  by (induction loaded arbitrary: ws) (simp_all add: map_good_update)

lemma list_watchers_ok:
  assumes "rows_ok env db" and "list_watchers env db = (r, db')"
  shows "tables db' = tables db" and "r = Inr ws \<Longrightarrow> list_all watcher_ok ws"
proof -
  from assms(2) show t: "tables db' = tables db"
    unfolding list_watchers_def by (auto elim!: bindE_cases stmt_cases)
  assume "r = Inr ws"
  with assms(2) have "set ws \<subseteq> {w. \<exists>x \<in> set (wt_watchers (tables db)). we_read env (wr_payload x) = Some w}"
    unfolding list_watchers_def by (auto elim!: bindE_InrE stmt_cases simp: map_filter_def) blast
  with assms(1) show "list_all watcher_ok ws" by (fastforce simp: list_all_iff rows_ok_def)
qed

section \<open>The rows\<close>

definition payloads :: "watcher_db \<Rightarrow> string set" where
  "payloads db = wr_payload ` set (wt_watchers (tables db))"

definition shrinks :: "(watcher_db, 'a) io \<Rightarrow> bool" where
  "shrinks m \<longleftrightarrow> (\<forall>d r d'. m d = (r, d') \<longrightarrow> payloads d' \<subseteq> payloads d)"

lemma rows_ok_payloads: "rows_ok env db \<longleftrightarrow> (\<forall>p \<in> payloads db. pred_option watcher_ok (we_read env p))"
  by (auto simp: rows_ok_def payloads_def)

lemma shrinks_ret [simp, intro]: "shrinks (ret a)"
  by (simp add: shrinks_def)

lemma shrinks_bind [intro]: "shrinks m \<Longrightarrow> (\<And>a. shrinks (f a)) \<Longrightarrow> shrinks (bindE m f)"
  unfolding shrinks_def by (meson bindE_cases order_trans)

lemma shrinks_stmt [intro]:
  "(\<And>t. wr_payload ` set (wt_watchers (snd (f t))) \<subseteq> wr_payload ` set (wt_watchers t)) \<Longrightarrow> shrinks (stmt f)"
  unfolding shrinks_def payloads_def by (metis snd_conv stmt_cases order_refl)

lemma shrinks_for_each [intro]: "(\<And>x. shrinks (f x)) \<Longrightarrow> shrinks (for_each f xs)"
  by (induction xs) auto

lemma shrinks_transaction [intro]: "shrinks body \<Longrightarrow> shrinks (transaction body)"
  unfolding shrinks_def
proof (intro allI impI)
  fix d r d' assume b: "\<forall>d r d'. body d = (r, d') \<longrightarrow> payloads d' \<subseteq> payloads d" and t: "transaction body d = (r, d')"
  show "payloads d' \<subseteq> payloads d"
  proof (cases r)
    case (Inl e)
    with t show ?thesis by (auto simp: payloads_def dest: transaction_error_frame)
  next
    case (Inr a)
    with t have "transaction body d = (Inr a, d')" by simp
    then show ?thesis by (rule transaction_InrE) (use b in \<open>auto simp: payloads_def, metis imageI subsetD\<close>)
  qed
qed

lemma deletion_shrinks: "shrinks (delete_watcher i)"
  unfolding delete_watcher_def cleanup_automation_records_for_ids_def forget_runs_def
  by (auto intro!: shrinks_transaction shrinks_bind shrinks_stmt shrinks_for_each split: if_splits)

lemma put_payloads: "wr_payload ` set (put_watcher row rows) \<subseteq> insert (wr_payload row) (wr_payload ` set rows)"
  unfolding put_watcher_def by auto

lemma stmt_put_payloads:
  "stmt (\<lambda>t. ((), t\<lparr>wt_watchers := put_watcher row (wt_watchers t)\<rparr>)) db = (r, db')
    \<Longrightarrow> payloads db' \<subseteq> insert (wr_payload row) (payloads db)"
proof (erule stmt_cases)
  fix a t assume "((), tables db\<lparr>wt_watchers := put_watcher row (wt_watchers (tables db))\<rparr>) = (a, t)" "tables db' = t"
  then have "wt_watchers (tables db') = put_watcher row (wt_watchers (tables db))" by auto
  then show ?thesis using put_payloads [of row "wt_watchers (tables db)"] by (simp add: payloads_def)
qed (auto simp: payloads_def)

lemma upsert_payloads:
  assumes "upsert_watcher env now w db = (r, db')"
  shows "payloads db' \<subseteq> payloads db \<union> set_option (we_write env w)"
  using assms
  by (cases "we_write env w")
    (auto simp: upsert_watcher_def bindE_def lift_result_def serialized_def dest!: stmt_put_payloads)

text \<open>The manager with its rows: the map is good and so are the rows.\<close>

definition manager_good :: "watch_env \<Rightarrow> watcher_manager \<Rightarrow> bool" where
  "manager_good env m \<longleftrightarrow> map_good (wm_watchers m) \<and> pred_option (rows_ok env) (wm_storage m)"

definition serde_watchers :: "watch_env \<Rightarrow> bool" where
  "serde_watchers env \<longleftrightarrow> (\<forall>w s. we_write env w = Some s \<longrightarrow> we_read env s = Some w)"

lemma good_map: "manager_good env m \<Longrightarrow> map_good ws \<Longrightarrow> manager_good env (m\<lparr>wm_watchers := ws\<rparr>)"
  by (simp add: manager_good_def)

lemma good_modify: "manager_good env m \<Longrightarrow> keeps_ok f \<Longrightarrow> manager_good env (modify_watcher i f m)"
  using modify_good [of m f i] by (simp add: manager_good_def) (simp add: modify_watcher_def)

lemma good_notify: "manager_good env m \<Longrightarrow> manager_good env (notify_changed m)"
  by (simp add: manager_good_def notify_changed_def)

lemma good_snapshot:
  assumes "serde_watchers env" and "manager_good env m" and "pred_option watcher_ok w"
  shows "manager_good env (persist_watcher_snapshot env now i w m)"
proof (cases "wm_storage m")
  case None
  with assms show ?thesis by (simp add: persist_watcher_snapshot_def)
next
  case (Some db)
  with assms(2) have db: "rows_ok env db" by (simp add: manager_good_def)
  have "rows_ok env (snd (case w of Some w \<Rightarrow> upsert_watcher env now w db | None \<Rightarrow> delete_watcher (we_uuid env i) db))"
  proof (cases w)
    case None
    obtain r db' where d: "delete_watcher (we_uuid env i) db = (r, db')" by fastforce
    then have "payloads db' \<subseteq> payloads db" using deletion_shrinks unfolding shrinks_def by blast
    with db None d show ?thesis by (auto simp: rows_ok_payloads)
  next
    case (Some v)
    obtain r db' where u: "upsert_watcher env now v db = (r, db')" by fastforce
    from Some assms(3) have "watcher_ok v" by simp
    then have "pred_option watcher_ok (we_read env p)" if "p \<in> set_option (we_write env v)" for p
      using that assms(1) by (simp add: serde_watchers_def)
    with upsert_payloads [OF u] db Some u show ?thesis by (auto simp: rows_ok_payloads)
  qed
  with Some assms(2) show ?thesis by (simp add: persist_watcher_snapshot_def manager_good_def)
qed

lemma map_good_lookup: "map_good (wm_watchers m) \<Longrightarrow> pred_option watcher_ok (lookup_watcher i m)"
  by (cases "lookup_watcher i m") (auto simp: map_good_def list_all_iff lookup_watcher_def dest!: map_of_SomeD)

lemma good_persist: "serde_watchers env \<Longrightarrow> manager_good env m \<Longrightarrow> manager_good env (persist_one env now i m)"
  unfolding persist_one_def by (rule good_snapshot) (auto simp: manager_good_def map_good_lookup)

lemma good_delete: "serde_watchers env \<Longrightarrow> manager_good env m \<Longrightarrow> manager_good env (delete_persisted env now i m)"
  unfolding delete_persisted_def by (rule good_snapshot) auto

lemma good_folds:
  assumes "serde_watchers env" and "manager_good env m"
  shows "manager_good env (foldl (\<lambda>m d. delete_persisted env now d m) m ds)"
    and "manager_good env (foldl (\<lambda>m w. persist_one env now (wa_id w) m) m ws)"
    and "list_all watcher_ok ws \<Longrightarrow> manager_good env (foldl (\<lambda>m w. persist_watcher_snapshot env now (wa_id w) (Some w) m) m ws)"
proof -
  show "manager_good env (foldl (\<lambda>m d. delete_persisted env now d m) m ds)"
    using assms(2) by (induction ds arbitrary: m) (simp_all add: good_delete [OF assms(1)])
  show "manager_good env (foldl (\<lambda>m w. persist_one env now (wa_id w) m) m ws)"
    using assms(2) by (induction ws arbitrary: m) (simp_all add: good_persist [OF assms(1)])
  show "list_all watcher_ok ws \<Longrightarrow> manager_good env (foldl (\<lambda>m w. persist_watcher_snapshot env now (wa_id w) (Some w) m) m ws)"
    using assms(2) by (induction ws arbitrary: m) (simp_all add: good_snapshot [OF assms(1)])
qed

lemma good_persist_all: "serde_watchers env \<Longrightarrow> manager_good env m \<Longrightarrow> manager_good env (persist_watchers env now m)"
  unfolding persist_watchers_def
  by (rule good_folds(3)) (auto simp: manager_good_def map_good_def list_all_iff)

lemma good_control:
  assumes "serde_watchers env" and "manager_good env m" and "keeps_ok f"
  shows "manager_good env (snd (control env now i fit f m))"
  using assms by (simp add: control_def good_notify good_persist good_modify split: option.split)

lemma good_switch:
  assumes "serde_watchers env" and "manager_good env m"
  shows "manager_good env (snd (switch_all env now a b m))"
proof -
  have "map_good (map (\<lambda>(k, w). (k, if wa_status w = a then w\<lparr>wa_status := b\<rparr> else w)) (wm_watchers m))"
    using map_good_map [of "wm_watchers m" "\<lambda>w. w\<lparr>wa_status := b\<rparr>" "\<lambda>_ w. wa_status w = a"] simple_ok(4) [of b] assms(2)
    by (simp add: keeps_ok_def manager_good_def)
  with assms show ?thesis by (simp add: switch_all_def Let_def good_notify good_persist_all good_map)
qed

lemma good_expire:
  assumes "serde_watchers env" and "manager_good env m"
  shows "manager_good env (snd (expire_watchers env now m))"
proof -
  have "map_good (map (\<lambda>(k, w). (k, if expires now w then w\<lparr>wa_status := WTimedOut\<rparr> else w)) (wm_watchers m))"
    using map_good_map [of "wm_watchers m" "\<lambda>w. w\<lparr>wa_status := WTimedOut\<rparr>" "\<lambda>_. expires now"] simple_ok(4) [of WTimedOut] assms(2)
    by (simp add: keeps_ok_def manager_good_def)
  with assms show ?thesis by (simp add: expire_watchers_def Let_def good_folds(2) good_map)
qed

lemma good_put:
  "serde_watchers env \<Longrightarrow> manager_good env m \<Longrightarrow> watcher_ok w
    \<Longrightarrow> manager_good env (persist_one env now i (m\<lparr>wm_watchers := AList.update (wa_id w) w (wm_watchers m)\<rparr>))"
  by (intro good_persist good_map map_good_update) (simp_all add: manager_good_def)

lemma good_upsert:
  assumes "serde_watchers env" and "manager_good env m" and "watcher_ok w"
  shows "manager_good env (snd (upsert_similar env now w t m))"
proof -
  have r: "manager_good env (modify_watcher i (replace_watcher now w) m)" for i
    using assms by (simp add: good_modify replace_ok)
  then have "manager_good env ((modify_watcher i (replace_watcher now w) m)\<lparr>wm_watchers :=
      foldl (\<lambda>ws d. AList.delete d ws) (wm_watchers (modify_watcher i (replace_watcher now w) m)) ds\<rparr>)" for i ds
    by (intro good_map map_good_delete) (auto simp: manager_good_def)
  with r assms show ?thesis
    by (auto simp: upsert_similar_def Let_def good_notify good_persist good_put good_folds(1) split: option.splits list.splits)
qed

lemma good_remove:
  assumes "serde_watchers env" and "manager_good env m"
  shows "manager_good env (snd (delete_one env now i m))" and "manager_good env (cleanup_watchers env now m)"
proof -
  have "map_good (AList.delete i (wm_watchers m))" "map_good (foldl (\<lambda>ws d. AList.delete d ws) (wm_watchers m) ds)" for ds
    using assms(2) by (simp_all add: manager_good_def map_good_delete_one map_good_delete)
  with assms show "manager_good env (snd (delete_one env now i m))" "manager_good env (cleanup_watchers env now m)"
    by (auto simp: delete_one_def cleanup_watchers_def Let_def good_notify good_delete good_folds(1) good_map split: option.split)
qed

lemma good_step:
  assumes "serde_watchers env" and "manager_good env m" and "op_bounded p"
  shows "manager_good env (run_watcher_op env now p m)"
proof (cases p)
  case (OpExtend i n)
  then show ?thesis using good_control [OF assms(1,2) simple_ok(8), of now i open_status n] assms(2)
    by (auto simp: extend_timeout_def Let_def split: prod.splits)
next
  case (OpUntilStopped i)
  then show ?thesis using good_control [OF assms(1,2) simple_ok(9), of now i open_status]
    by (auto simp: extend_until_stopped_def split: prod.splits)
qed (use assms in \<open>auto simp: add_watcher_def op_bounded_def good_put good_upsert good_notify begin_poll_def good_modify simple_ok
    good_persist record_poll_success_def record_poll_error_def poll_failed_ok mark_triggered_def push_notification_attempt_def
    with_attempt_ok cancel_def pause_def resume_def good_control pause_all_def resume_all_def good_switch good_expire run_now_def
    set_background_session_id_def set_notify_channel_def Let_def good_remove split: option.split\<close>)

lemma good_new: "pred_option (rows_ok env) storage \<Longrightarrow> manager_good env (watcher_manager_new env storage)"
proof (cases storage)
  case None
  then show ?thesis by (simp add: watcher_manager_new_def manager_good_def map_good_def)
next
  case (Some db)
  assume "pred_option (rows_ok env) storage"
  with Some have db: "rows_ok env db" by simp
  obtain r db' where l: "list_watchers env db = (r, db')" by fastforce
  note ok = list_watchers_ok [OF db l]
  from ok(1) db have "rows_ok env db'" by (simp add: rows_ok_def)
  moreover have "map_good []" by (simp add: map_good_def)
  ultimately show ?thesis using Some l ok(2) loaded_good [of "[]"]
    by (auto simp: watcher_manager_new_def manager_good_def split: sum.split)
qed

text \<open>
  C14. What is kept of a watcher is bounded. Start a manager from rows each of which, as far as it can be
  read, is a watcher within the bounds (no rows at all, for instance), let it work and be started again from
  the rows it has written, any number of times, with database faults at any statement; the callers hand in
  new watchers that are themselves within the bounds. Then the map is keyed by the watchers' ids, every
  stored text has at most 16013 characters and every notification message 8013, at most 12 deliveries are
  remembered, no lifetime exceeds 9999 days, and what the stored rows are read as is bounded in the same
  way. A watcher that serde writes, it reads back.
\<close>

theorem watchers_bounded:
  assumes "serde_watchers env" and "watchers_reachable env m"
  shows "distinct (map fst (wm_watchers m)) \<and> list_all (\<lambda>p. fst p = wa_id (snd p) \<and> watcher_ok (snd p)) (wm_watchers m)
    \<and> pred_option (rows_ok env) (wm_storage m)"
proof -
  from assms(2) have "manager_good env m"
  proof induction
    case (restart m)
    then show ?case by (intro good_new) (simp add: manager_good_def)
  qed (use assms(1) in \<open>auto intro: good_new good_step\<close>)
  then show ?thesis by (simp add: manager_good_def map_good_def)
qed

section \<open>Examples\<close>

theorem upsert_leaves_one_witness:
  "\<exists>k. matching_ids sample_watch_env sample_watcher
      (wm_watchers (snd (upsert_similar sample_watch_env 5 sample_watcher None (sample_manager sample_watcher)))) = [k]"
proof -
  obtain r m' where e: "upsert_similar sample_watch_env 5 sample_watcher None (sample_manager sample_watcher) = (r, m')" by fastforce
  have "distinct (map fst (wm_watchers (sample_manager sample_watcher)))" "wa_status sample_watcher = WActive"
    by (simp_all add: sample_manager_def sample_watcher_def)
  from upsert_leaves_one [OF this e] show ?thesis unfolding e by (elim exE conjE) (rule exI, simp)
qed

definition sample_serde :: watch_env where
  "sample_serde = sample_watch_env\<lparr>we_write := (\<lambda>w. if w = sample_watcher then Some ''w'' else None),
     we_read := (\<lambda>s. if s = ''w'' then Some sample_watcher else None)\<rparr>"

definition sample_watcher_db :: watcher_db where
  "sample_watcher_db = \<lparr>tables = \<lparr>wt_watchers = [\<lparr>wr_id = ''7'', wr_status = ''active'', wr_created_at = [], wr_updated_at = [],
     wr_payload = ''w'', wr_lease_owner = None, wr_lease_expires_at = None, wr_lease_version = 0, wr_next_retry_at = None,
     wr_last_run_id = None, wr_consecutive_failures = 0\<rparr>], wt_tasks = [], wt_supervisors = [], wt_runs = []\<rparr>, faults = []\<rparr>"

theorem watchers_bounded_witness:
  "\<exists>m. watchers_reachable sample_serde m \<and> wm_watchers m = [(wa_id sample_watcher, sample_watcher)]
     \<and> watcher_ok (snd (hd (wm_watchers m))) \<and> pred_option (rows_ok sample_serde) (wm_storage m)"
proof -
  let ?m = "watcher_manager_new sample_serde (Some sample_watcher_db)"
  have serde: "serde_watchers sample_serde" by (simp add: serde_watchers_def sample_serde_def)
  have ok: "watcher_ok sample_watcher" by (simp add: sample_watcher_def watcher_ok_def MAX_TIMEOUT_SECS_def)
  have "pred_option (rows_ok sample_serde) (Some sample_watcher_db)"
    by (simp add: rows_ok_def sample_watcher_db_def sample_serde_def ok)
  then have r: "watchers_reachable sample_serde ?m" by (rule start)
  have m: "wm_watchers ?m = [(wa_id sample_watcher, sample_watcher)]"
    by (simp add: watcher_manager_new_def list_watchers_def bindE_def sample_watcher_db_def sample_serde_def map_filter_simps)
  from watchers_bounded [OF serde r] r m show ?thesis by (intro exI [of _ ?m]) simp
qed

end
