(* ===== verification/Pipeline_Spec.thy ===== *)
theory Pipeline_Spec
  imports Json_Value Text_Pieces
begin

text \<open>
  Pipelines as data and their compilation (\<open>core/orchestration/pipeline.rs\<close>): retry and
  idempotency policies, nodes with their dependencies, and \<open>compile_pipeline\<close>, which checks a
  specification and orders its nodes by their dependencies with a queue of the nodes whose
  dependencies are all placed.

  The maps from node names are maps; their iteration order is never used. \<open>topo_loop\<close> is the
  \<open>while let\<close> loop as written, which for an arbitrary graph state need not end: that it ends for
  every specification is part of \<open>compile_accepts_iff\<close>.
\<close>

section \<open>Data\<close>

record retry_policy =
  rp_max_attempts :: nat
  rp_initial_backoff_ms :: nat
  rp_max_backoff_ms :: nat
  rp_jitter_ratio :: f64
  rp_retry_on_status :: "nat list"

text \<open>The clamping of the jitter ratio to the unit interval is the parameter \<open>unit\<close>.\<close>

definition normalized_retry :: "(f64 \<Rightarrow> f64) \<Rightarrow> retry_policy \<Rightarrow> retry_policy" where
  "normalized_retry unit p = \<lparr>rp_max_attempts = clamp 1 20 (rp_max_attempts p),
     rp_initial_backoff_ms = clamp 50 300000 (rp_initial_backoff_ms p),
     rp_max_backoff_ms = clamp 100 600000 (rp_max_backoff_ms p),
     rp_jitter_ratio = unit (rp_jitter_ratio p), rp_retry_on_status = rp_retry_on_status p\<rparr>"

definition default_retry_statuses :: "nat list" where
  "default_retry_statuses = [429, 500, 502, 503, 504]"

text \<open>\<open>0x3FC999999999999A\<close> are the bits of 0.2.\<close>

definition retry_default :: retry_policy where
  "retry_default = \<lparr>rp_max_attempts = 3, rp_initial_backoff_ms = 1000, rp_max_backoff_ms = 30000,
     rp_jitter_ratio = 0x3FC999999999999A, rp_retry_on_status = default_retry_statuses\<rparr>"

record idempotency_policy =
  ip_key_template :: string
  ip_ttl_secs :: nat

definition idempotency_default :: idempotency_policy where
  "idempotency_default = \<lparr>ip_key_template = ''{{pipeline}}:{{node}}:{{date}}'', ip_ttl_secs = 24 * 60 * 60\<rparr>"

datatype node_kind = NkAction | NkConnectorRequest | NkSignalConsensus

datatype node_error_mode = EmFail | EmContinue

record pipeline_node =
  pn_id :: string
  pn_kind :: node_kind
  pn_action :: string
  pn_arguments :: json
  pn_depends_on :: "string list"
  pn_retry :: retry_policy
  pn_idempotency :: "idempotency_policy option"
  pn_on_error :: node_error_mode

definition node_default :: pipeline_node where
  "node_default = \<lparr>pn_id = [], pn_kind = NkAction, pn_action = [], pn_arguments = JNull, pn_depends_on = [],
     pn_retry = retry_default, pn_idempotency = None, pn_on_error = EmFail\<rparr>"

record pipeline_spec =
  pl_name :: string
  pl_description :: "string option"
  pl_schedule_cron :: "string option"
  pl_timezone :: "string option"
  pl_metadata :: json
  pl_nodes :: "pipeline_node list"
  pl_outputs :: "string list"

definition spec_default :: pipeline_spec where
  "spec_default = \<lparr>pl_name = [], pl_description = None, pl_schedule_cron = None, pl_timezone = None, pl_metadata = JNull,
     pl_nodes = [], pl_outputs = []\<rparr>"

record compiled_pipeline =
  cp_name :: string
  cp_ordered_nodes :: "string list"
  cp_warnings :: "string list"
  cp_node_count :: nat

section \<open>Compilation\<close>

definition in_quotes :: "string \<Rightarrow> string" where
  "in_quotes s = CHR 0x27 # s @ [CHR 0x27]"

text \<open>The keys of \<open>nodes_by_id\<close>: the trimmed names.\<close>

fun node_keys :: "string list \<Rightarrow> pipeline_node list \<Rightarrow> string list result" where
  "node_keys keys [] = Inr keys"
| "node_keys keys (n # ns) = (let i = trim (pn_id n) in
     if i = [] then Inl (Err ''Pipeline node id cannot be empty'')
     else if i \<in> set keys then Inl (Err (''Duplicate pipeline node id: '' @ i))
     else if pn_kind n = NkAction \<and> trim (pn_action n) = []
       then Inl (Err (''Action node '' @ in_quotes i @ '' must define a non-empty action name''))
     else node_keys (i # keys) ns)"

text \<open>The number of dependencies of a node not placed yet, and the nodes that wait for a node.\<close>

type_synonym links = "(string \<rightharpoonup> nat) \<times> (string \<rightharpoonup> string list)"

definition entry_or :: "'v \<Rightarrow> string \<Rightarrow> (string \<rightharpoonup> 'v) \<Rightarrow> 'v" where
  "entry_or d k m = (case m k of None \<Rightarrow> d | Some v \<Rightarrow> v)"

fun link_deps :: "string list \<Rightarrow> string \<Rightarrow> string list \<Rightarrow> links \<Rightarrow> links result" where
  "link_deps keys v [] g = Inr g"
| "link_deps keys v (d # ds) (indegree, outgoing) = (if d \<notin> set keys
     then Inl (Err (''Node '' @ in_quotes v @ '' depends on unknown node '' @ in_quotes d))
     else link_deps keys v ds (indegree(v \<mapsto> entry_or 0 v indegree + 1), outgoing(d \<mapsto> entry_or [] d outgoing @ [v])))"

fun link_nodes :: "string list \<Rightarrow> pipeline_node list \<Rightarrow> links \<Rightarrow> links result" where
  "link_nodes keys [] g = Inr g"
| "link_nodes keys (n # ns) (indegree, outgoing) =
     res_bind (link_deps keys (pn_id n) (pn_depends_on n) (indegree(pn_id n \<mapsto> entry_or 0 (pn_id n) indegree), outgoing))
       (link_nodes keys ns)"

text \<open>One round of the queue: the nodes that waited for a placed node.\<close>

fun release :: "string list \<Rightarrow> (string \<rightharpoonup> nat) \<Rightarrow> string list \<Rightarrow> (string \<rightharpoonup> nat) \<times> string list" where
  "release [] indegree queue = (indegree, queue)"
| "release (v # vs) indegree queue = (case indegree v of
     None \<Rightarrow> release vs indegree queue
   | Some k \<Rightarrow> release vs (indegree(v \<mapsto> k - 1)) (if k - 1 = 0 then queue @ [v] else queue))"

partial_function (option) topo_loop ::
    "(string \<rightharpoonup> string list) \<Rightarrow> (string \<rightharpoonup> nat) \<Rightarrow> string list \<Rightarrow> string list \<Rightarrow> string list option" where
  "topo_loop outgoing indegree queue ordered = (case queue of
     [] \<Rightarrow> Some ordered
   | u # rest \<Rightarrow> (let (indegree', queue') = release (entry_or [] u outgoing) indegree rest in
       topo_loop outgoing indegree' queue' (ordered @ [u])))"

definition output_warnings :: "pipeline_spec \<Rightarrow> string list" where
  "output_warnings spec = map (\<lambda>out. ''Requested output '' @ in_quotes out @ '' does not match any pipeline node id'')
     (filter (\<lambda>out. out \<notin> set (map pn_id (pl_nodes spec))) (pl_outputs spec))"

definition compile_pipeline :: "pipeline_spec \<Rightarrow> compiled_pipeline result option" where
  "compile_pipeline spec =
     (if trim (pl_name spec) = [] then Some (Inl (Err ''Pipeline name is required''))
      else if pl_nodes spec = [] then Some (Inl (Err ''Pipeline must define at least one node''))
      else (case node_keys [] (pl_nodes spec) of
        Inl e \<Rightarrow> Some (Inl e)
      | Inr keys \<Rightarrow> (case link_nodes keys (pl_nodes spec) (Map.empty, Map.empty) of
          Inl e \<Rightarrow> Some (Inl e)
        | Inr (indegree, outgoing) \<Rightarrow>
            (case topo_loop outgoing indegree
               (filter (\<lambda>i. entry_or 0 i indegree = 0) (map pn_id (pl_nodes spec))) [] of
              None \<Rightarrow> None
            | Some ordered \<Rightarrow> Some (if length ordered \<noteq> length (pl_nodes spec)
                then Inl (Err ''Pipeline has a dependency cycle; topological order is not possible'')
                else Inr \<lparr>cp_name = pl_name spec, cp_ordered_nodes = ordered, cp_warnings = output_warnings spec,
                       cp_node_count = length (pl_nodes spec)\<rparr>)))))"

declare topo_loop.simps [code]

section \<open>What the scan computes\<close>

text \<open>The edges of a specification, from a dependency to the node that has it.\<close>

definition edges :: "pipeline_node list \<Rightarrow> (string \<times> string) list" where
  "edges ns = concat (map (\<lambda>n. map (\<lambda>d. (d, pn_id n)) (pn_depends_on n)) ns)"

abbreviation heads_of :: "(string \<times> string) list \<Rightarrow> string \<Rightarrow> string list" where
  "heads_of es u \<equiv> map snd (filter (\<lambda>e. fst e = u) es)"

definition waiting :: "(string \<times> string) list \<Rightarrow> string set \<Rightarrow> string \<Rightarrow> nat" where
  "waiting es S v = length (filter (\<lambda>e. snd e = v \<and> fst e \<notin> S) es)"

lemma entry_or_simps [simp]: "entry_or d k m = d \<longleftrightarrow> m k = None \<or> m k = Some d"
  by (auto simp: entry_or_def split: option.splits)

lemma entry_or_upd [simp]: "entry_or d k (m(k' \<mapsto> v)) = (if k = k' then v else entry_or d k m)"
  "entry_or d k Map.empty = d"
  by (auto simp: entry_or_def)

lemma node_keys_iff:
  "(\<exists>keys'. node_keys keys ns = Inr keys') \<longleftrightarrow>
     (\<forall>n \<in> set ns. trim (pn_id n) \<noteq> [] \<and> (pn_kind n = NkAction \<longrightarrow> trim (pn_action n) \<noteq> []))
     \<and> distinct (map (\<lambda>n. trim (pn_id n)) ns) \<and> set (map (\<lambda>n. trim (pn_id n)) ns) \<inter> set keys = {}"
  by (induction keys ns rule: node_keys.induct) (auto simp: Let_def)

lemma node_keys_set: "node_keys keys ns = Inr keys' \<Longrightarrow> set keys' = set keys \<union> (\<lambda>n. trim (pn_id n)) ` set ns"
  by (induction keys ns rule: node_keys.induct) (auto simp: Let_def split: if_splits)

lemma link_deps_ok: "(\<exists>g'. link_deps keys v ds g = Inr g') \<longleftrightarrow> set ds \<subseteq> set keys"
  by (induction keys v ds g rule: link_deps.induct) auto

lemma link_deps_graph:
  "link_deps keys v ds (ind, out) = Inr (ind', out') \<Longrightarrow>
     (\<forall>w. entry_or 0 w ind' = entry_or 0 w ind + (if w = v then length ds else 0))
     \<and> insert v (dom ind') = insert v (dom ind) \<and> dom ind \<subseteq> dom ind'
     \<and> (\<forall>u. entry_or [] u out' = entry_or [] u out @ heads_of (map (\<lambda>d. (d, v)) ds) u)"
proof (induction ds arbitrary: ind out)
  case (Cons d ds)
  let ?ind = "ind(v \<mapsto> entry_or 0 v ind + 1)" and ?out = "out(d \<mapsto> entry_or [] d out @ [v])"
  have "link_deps keys v ds (?ind, ?out) = Inr (ind', out')"
    using Cons.prems by (simp split: if_splits)
  from Cons.IH [OF this] have w: "\<forall>w. entry_or 0 w ind' = entry_or 0 w ?ind + (if w = v then length ds else 0)"
    and d: "insert v (dom ind') = insert v (dom ?ind)" "dom ?ind \<subseteq> dom ind'"
    and u: "\<forall>u. entry_or [] u out' = entry_or [] u ?out @ heads_of (map (\<lambda>d. (d, v)) ds) u"
    by blast+
  have "entry_or 0 x ind' = entry_or 0 x ind + (if x = v then length (d # ds) else 0)" for x
    using w [rule_format, of x] by simp
  moreover have "entry_or [] x out' = entry_or [] x out @ heads_of (map (\<lambda>d. (d, v)) (d # ds)) x" for x
    using u [rule_format, of x] by simp
  moreover have "insert v (dom ind') = insert v (dom ind)" "dom ind \<subseteq> dom ind'" using d by auto
  ultimately show ?case by blast
qed simp

lemma edges_simps [simp]:
  "edges [] = []" "edges (n # ns) = map (\<lambda>d. (d, pn_id n)) (pn_depends_on n) @ edges ns"
  by (simp_all add: edges_def)

lemma link_nodes_ok: "(\<exists>g'. link_nodes keys ns g = Inr g') \<longleftrightarrow> fst ` set (edges ns) \<subseteq> set keys"
proof (induction ns arbitrary: g)
  case (Cons n ns)
  obtain ind out where g: "g = (ind, out)" by (cases g)
  let ?r = "link_deps keys (pn_id n) (pn_depends_on n) (ind(pn_id n \<mapsto> entry_or 0 (pn_id n) ind), out)"
  show ?case
  proof (cases ?r)
    case (Inl e)
    then have "\<not> set (pn_depends_on n) \<subseteq> set keys" by (metis Inl_Inr_False link_deps_ok)
    with Inl g show ?thesis by (auto simp: image_Un image_image)
  next
    case (Inr g')
    then have "set (pn_depends_on n) \<subseteq> set keys" by (metis link_deps_ok)
    with Inr g Cons.IH [of g'] show ?thesis by (simp add: image_Un image_image)
  qed
qed simp

lemma waiting_empty: "waiting es {} v = length (filter (\<lambda>e. snd e = v) es)"
  by (simp add: waiting_def)

lemma link_nodes_graph:
  "link_nodes keys ns (ind, out) = Inr (ind', out') \<Longrightarrow>
     (\<forall>w. entry_or 0 w ind' = entry_or 0 w ind + waiting (edges ns) {} w)
     \<and> dom ind' = dom ind \<union> pn_id ` set ns
     \<and> (\<forall>u. entry_or [] u out' = entry_or [] u out @ heads_of (edges ns) u)"
proof (induction ns arbitrary: ind out)
  case (Cons n ns)
  let ?i = "pn_id n"
  from Cons.prems obtain ind1 out1 where
    l: "link_deps keys ?i (pn_depends_on n) (ind(?i \<mapsto> entry_or 0 ?i ind), out) = Inr (ind1, out1)"
    and r: "link_nodes keys ns (ind1, out1) = Inr (ind', out')"
    by (cases "link_deps keys ?i (pn_depends_on n) (ind(?i \<mapsto> entry_or 0 ?i ind), out)") auto
  have f: "filter (\<lambda>e. snd e = w) (map (\<lambda>d. (d, ?i)) ds) = (if w = ?i then map (\<lambda>d. (d, ?i)) ds else [])" for w ds
    by (auto simp: filter_empty_conv)
  from link_deps_graph [OF l] Cons.IH [OF r] show ?case
    by (auto simp: waiting_empty f)
qed (simp add: waiting_empty)
section \<open>The queue\<close>

lemma count_list_pos: "0 < count_list xs v \<longleftrightarrow> v \<in> set xs"
  by (metis count_list_0_iff gr0I less_numeral_extra(3))

lemma release_spec:
  assumes "release vs ind q = (ind', q')" and "\<forall>v \<in> set vs. \<exists>k. ind v = Some k \<and> count_list vs v \<le> k"
  shows "ind' = (\<lambda>v. map_option (\<lambda>k. k - count_list vs v) (ind v))
    \<and> (\<exists>new. q' = q @ new \<and> distinct new \<and> set new = {v \<in> set vs. ind v = Some (count_list vs v)})"
  using assms
proof (induction vs arbitrary: ind q)
  case Nil
  then show ?case by (simp add: option.map_ident)
next
  case (Cons v vs)
  from Cons.prems(2) obtain k where k: "ind v = Some k" "Suc (count_list vs v) \<le> k" by auto
  let ?q = "if k - 1 = 0 then q @ [v] else q"
  have "release vs (ind(v \<mapsto> k - 1)) ?q = (ind', q')" using Cons.prems(1) k(1) by simp
  moreover have "\<forall>w \<in> set vs. \<exists>j. (ind(v \<mapsto> k - 1)) w = Some j \<and> count_list vs w \<le> j"
    using Cons.prems(2) k by force
  ultimately obtain new where i: "ind' = (\<lambda>w. map_option (\<lambda>k. k - count_list vs w) ((ind(v \<mapsto> k - 1)) w))"
    and n: "q' = ?q @ new" "distinct new" "set new = {w \<in> set vs. (ind(v \<mapsto> k - 1)) w = Some (count_list vs w)}"
    using Cons.IH by blast
  have "ind' = (\<lambda>w. map_option (\<lambda>k. k - count_list (v # vs) w) (ind w))"
    using k by (auto simp: i fun_eq_iff)
  moreover have "\<exists>new. q' = q @ new \<and> distinct new \<and> set new = {w \<in> set (v # vs). ind w = Some (count_list (v # vs) w)}"
  proof (cases "k - 1 = 0")
    case True
    then have "count_list vs v = 0" "k = 1" using k(2) by simp_all
    then have "v \<notin> set vs" by (simp add: count_list_0_iff)
    then have "w \<in> set (v # new) \<longleftrightarrow> w \<in> set (v # vs) \<and> ind w = Some (count_list (v # vs) w)" for w
      using k(1) \<open>k = 1\<close> \<open>count_list vs v = 0\<close> by (cases "w = v") (auto simp: n(3))
    then have "set (v # new) = {w \<in> set (v # vs). ind w = Some (count_list (v # vs) w)}" by blast
    moreover have "q' = q @ v # new" using n(1) True by simp
    moreover have "distinct (v # new)" using n(2,3) \<open>v \<notin> set vs\<close> by simp
    ultimately show ?thesis by blast
  next
    case False
    have "v \<in> set vs" if "Suc (count_list vs v) = k" using that False by (metis count_notin diff_Suc_1)
    then have "w \<in> set new \<longleftrightarrow> w \<in> set (v # vs) \<and> ind w = Some (count_list (v # vs) w)" for w
      using k(1,2) False by (cases "w = v") (auto simp: n(3))
    then have "set new = {w \<in> set (v # vs). ind w = Some (count_list (v # vs) w)}" by blast
    moreover have "q' = q @ new" using n(1) False by (simp only: if_False)
    ultimately show ?thesis using n(2) by blast
  qed
  ultimately show ?case ..
qed

text \<open>
  The state of the loop: the placed nodes and the queue are distinct nodes of the pipeline, the count of
  a node is the number of its dependencies not placed yet, the nodes without such are those placed or queued, and
  every placed node comes after its dependencies.
\<close>

definition after_deps :: "(string \<times> string) list \<Rightarrow> string list \<Rightarrow> bool" where
  "after_deps es xs \<longleftrightarrow> (\<forall>i < length xs. \<forall>d. (d, xs ! i) \<in> set es \<longrightarrow> d \<in> set (take i xs))"

definition topo_inv :: "(string \<times> string) list \<Rightarrow> string set \<Rightarrow> (string \<rightharpoonup> nat) \<Rightarrow> string list \<Rightarrow> string list \<Rightarrow> bool" where
  "topo_inv es ids ind q xs \<longleftrightarrow> distinct (xs @ q) \<and> set (xs @ q) \<subseteq> ids
     \<and> (\<forall>v \<in> ids. ind v = Some (waiting es (set xs) v))
     \<and> (\<forall>v \<in> ids. v \<in> set (xs @ q) \<longleftrightarrow> waiting es (set xs) v = 0)
     \<and> after_deps es xs"

lemma waiting_insert:
  "u \<notin> S \<Longrightarrow> waiting es S v = waiting es (insert u S) v + count_list (heads_of es u) v"
  by (induction es) (auto simp: waiting_def)

lemma waiting_0_iff: "waiting es S v = 0 \<longleftrightarrow> (\<forall>d. (d, v) \<in> set es \<longrightarrow> d \<in> S)"
  by (auto simp: waiting_def filter_empty_conv)

lemma after_deps_snoc: "after_deps es xs \<Longrightarrow> waiting es (set xs) u = 0 \<Longrightarrow> after_deps es (xs @ [u])"
  by (auto simp: after_deps_def waiting_0_iff nth_append less_Suc_eq)

lemma topo_step:
  assumes inv: "topo_inv es ids ind (u # q) xs" and heads: "snd ` set es \<subseteq> ids"
    and r: "release (heads_of es u) ind q = (ind', q')"
  shows "topo_inv es ids ind' q' (xs @ [u])"
proof -
  from inv have u: "u \<in> ids" "u \<notin> set xs" "u \<notin> set q" and d: "distinct xs" "distinct q" "set xs \<inter> set q = {}" "set xs \<subseteq> ids" "set q \<subseteq> ids"
    and i: "\<And>v. v \<in> ids \<Longrightarrow> ind v = Some (waiting es (set xs) v)"
    and z: "\<And>v. v \<in> ids \<Longrightarrow> v = u \<or> v \<in> set xs \<or> v \<in> set q \<longleftrightarrow> waiting es (set xs) v = 0"
    and a: "after_deps es xs"
    by (auto simp: topo_inv_def)
  have h: "set (heads_of es u) \<subseteq> ids" using heads by auto
  note w = waiting_insert [OF u(2), of es]
  have pre: "\<forall>v \<in> set (heads_of es u). \<exists>k. ind v = Some k \<and> count_list (heads_of es u) v \<le> k"
    using h i w by fastforce
  from release_spec [OF r pre] obtain new where
    i': "ind' = (\<lambda>v. map_option (\<lambda>k. k - count_list (heads_of es u) v) (ind v))"
    and q': "q' = q @ new" and dn: "distinct new"
    and sn: "set new = {v \<in> set (heads_of es u). ind v = Some (count_list (heads_of es u) v)}"
    by blast
  have ids_new: "set new \<subseteq> ids" using sn h by auto
  have sn': "v \<in> set new \<longleftrightarrow> 0 < waiting es (set xs) v \<and> waiting es (insert u (set xs)) v = 0" if v: "v \<in> ids" for v
  proof -
    have "v \<in> set (heads_of es u) \<longleftrightarrow> 0 < count_list (heads_of es u) v"
      by (simp only: count_list_pos)
    then show ?thesis unfolding sn using i [OF v] w [of v] by auto
  qed
  have "\<forall>v \<in> ids. ind' v = Some (waiting es (set (xs @ [u])) v)"
    using i w by (simp add: i')
  moreover have "\<forall>v \<in> ids. v \<in> set ((xs @ [u]) @ q') \<longleftrightarrow> waiting es (set (xs @ [u])) v = 0"
  proof
    fix v assume v: "v \<in> ids"
    show "v \<in> set ((xs @ [u]) @ q') \<longleftrightarrow> waiting es (set (xs @ [u])) v = 0"
      using z [OF v] sn' [OF v] w [of v] by (auto simp: q')
  qed
  moreover have "distinct ((xs @ [u]) @ q')"
  proof -
    have "v \<notin> set new" if "v \<in> ids" "v = u \<or> v \<in> set xs \<or> v \<in> set q" for v
      using sn' [OF that(1)] z [OF that(1)] that(2) by simp
    then show ?thesis using d u dn by (auto simp: q')
  qed
  moreover have "set ((xs @ [u]) @ q') \<subseteq> ids" using d u ids_new by (auto simp: q')
  moreover have "after_deps es (xs @ [u])" using a z [OF u(1)] by (intro after_deps_snoc) simp_all
  ultimately show ?thesis by (simp add: topo_inv_def)
qed

lemma topo_loop_ends:
  assumes "topo_inv es ids ind q xs" and "snd ` set es \<subseteq> ids" and "finite ids" and "\<And>u. entry_or [] u out = heads_of es u"
  shows "\<exists>ys ind'. topo_loop out ind q xs = Some ys \<and> topo_inv es ids ind' [] ys"
  using assms(1)
proof (induction "card ids - length xs" arbitrary: ind q xs rule: less_induct)
  case less
  show ?case
  proof (cases q)
    case Nil
    with less.prems show ?thesis by (auto simp: topo_loop.simps)
  next
    case (Cons u rest)
    obtain ind' q' where r: "release (heads_of es u) ind rest = (ind', q')" by fastforce
    have inv: "topo_inv es ids ind' q' (xs @ [u])"
      using topo_step [OF _ assms(2) r] less.prems Cons by blast
    have "distinct (xs @ [u])" "set (xs @ [u]) \<subseteq> ids" using less.prems Cons by (auto simp: topo_inv_def)
    then have "length (xs @ [u]) \<le> card ids" by (metis assms(3) card_mono distinct_card)
    then have "card ids - length (xs @ [u]) < card ids - length xs" by simp
    from less.hyps [OF this inv] r show ?thesis
      by (simp add: Cons topo_loop.simps [of _ _ "u # rest"] assms(4))
  qed
qed
section \<open>What compilation accepts\<close>

text \<open>The checks on the nodes one by one, and the condition on the graph.\<close>

definition spec_checks :: "pipeline_spec \<Rightarrow> bool" where
  "spec_checks spec \<longleftrightarrow> trim (pl_name spec) \<noteq> [] \<and> pl_nodes spec \<noteq> []
     \<and> list_all (\<lambda>n. trim (pn_id n) \<noteq> [] \<and> (pn_kind n = NkAction \<longrightarrow> trim (pn_action n) \<noteq> [])) (pl_nodes spec)
     \<and> distinct (map (\<lambda>n. trim (pn_id n)) (pl_nodes spec))
     \<and> list_all (\<lambda>n. list_all (\<lambda>d. d \<in> (\<lambda>m. trim (pn_id m)) ` set (pl_nodes spec)) (pn_depends_on n)) (pl_nodes spec)"

lemma heads_ids: "snd ` set (edges ns) \<subseteq> pn_id ` set ns"
  by (induction ns) (auto simp: image_iff)

lemma tails_iff: "fst ` set (edges ns) \<subseteq> K \<longleftrightarrow> (\<forall>n \<in> set ns. set (pn_depends_on n) \<subseteq> K)"
  by (induction ns) (auto simp: image_Un image_image)

lemma distinct_ids: "distinct (map (\<lambda>n. trim (pn_id n)) ns) \<Longrightarrow> distinct (map pn_id ns)"
  by (auto simp: distinct_map inj_on_def)

lemma topo_inv_initial:
  assumes "distinct (map pn_id ns)" and "\<forall>w. entry_or 0 w ind = waiting (edges ns) {} w" and "dom ind = pn_id ` set ns"
  shows "topo_inv (edges ns) (pn_id ` set ns) ind (filter (\<lambda>i. entry_or 0 i ind = 0) (map pn_id ns)) []"
proof -
  have "ind v = Some (waiting (edges ns) {} v)" if v: "v \<in> pn_id ` set ns" for v
  proof -
    from v assms(3) obtain k where "ind v = Some k" by blast
    with assms(2) [rule_format, of v] show ?thesis by (simp add: entry_or_def)
  qed
  moreover have "v \<in> set (filter (\<lambda>i. entry_or 0 i ind = 0) (map pn_id ns)) \<longleftrightarrow> waiting (edges ns) {} v = 0"
    if "v \<in> pn_id ` set ns" for v
    using that assms(2) by simp
  ultimately show ?thesis using assms(1) by (auto simp: topo_inv_def after_deps_def distinct_filter)
qed

text \<open>A node that is never placed waits for another such node, for ever, or for a name no node has.\<close>

lemma all_placed_iff:
  assumes inv: "topo_inv es ids ind [] xs" and "finite ids" and heads: "snd ` set es \<subseteq> ids"
  shows "set xs = ids \<longleftrightarrow> acyclic (set es) \<and> fst ` set es \<subseteq> ids"
proof
  assume all: "set xs = ids"
  from inv have a: "after_deps es xs" and d: "distinct xs" by (auto simp: topo_inv_def)
  have placed_before: "\<exists>i j. i < j \<and> j < length xs \<and> xs ! i = u \<and> xs ! j = v" if "(u, v) \<in> set es" for u v
  proof -
    have "v \<in> snd ` set es" using that by (metis image_eqI snd_conv)
    with heads all have "v \<in> set xs" by blast
    then obtain j where j: "j < length xs" "xs ! j = v" by (metis in_set_conv_nth)
    with a that have "u \<in> set (take j xs)" by (auto simp: after_deps_def)
    then obtain i where "i < length (take j xs)" "take j xs ! i = u" by (metis in_set_conv_nth)
    then have "i < j" "xs ! i = u" using j(1) by simp_all
    with j show ?thesis by blast
  qed
  have "fst ` set es \<subseteq> ids"
  proof
    fix u assume "u \<in> fst ` set es"
    then obtain v where e: "(u, v) \<in> set es" by auto
    from placed_before [OF e] all show "u \<in> ids" by (metis less_trans nth_mem)
  qed
  moreover
  have "\<exists>i j. i < j \<and> j < length xs \<and> xs ! i = u \<and> xs ! j = v" if "(u, v) \<in> (set es)\<^sup>+" for u v
    using that
  proof (induction rule: trancl_induct)
    case (base v)
    with placed_before show ?case by blast
  next
    case (step w v)
    then obtain i j where ij: "i < j" "j < length xs" "xs ! i = u" "xs ! j = w" by blast
    from placed_before [OF step.hyps(2)] obtain k l where kl: "k < l" "l < length xs" "xs ! k = w" "xs ! l = v" by blast
    have "j = k" using d ij kl by (metis less_trans nth_eq_iff_index_eq)
    with ij kl show ?case by (intro exI [of _ i] exI [of _ l]) simp
  qed
  note before = this
  have "acyclic (set es)" unfolding acyclic_def
  proof (intro allI notI)
    fix u assume "(u, u) \<in> (set es)\<^sup>+"
    from before [OF this] obtain i j where "i < j" "j < length xs" "xs ! i = xs ! j" by metis
    with d show False by (simp add: nth_eq_iff_index_eq)
  qed
  ultimately show "acyclic (set es) \<and> fst ` set es \<subseteq> ids" by blast
next
  assume g: "acyclic (set es) \<and> fst ` set es \<subseteq> ids"
  then have wf: "wf (set es)" by (simp add: finite_acyclic_wf)
  have "v \<in> ids \<longrightarrow> v \<in> set xs" for v
  proof (induction v rule: wf_induct_rule [OF wf])
    case (1 v)
    show ?case
    proof
      assume v: "v \<in> ids"
      have "waiting es (set xs) v = 0" using 1 g by (force simp: waiting_0_iff)
      then show "v \<in> set xs" using inv v by (auto simp: topo_inv_def)
    qed
  qed
  then show "set xs = ids" using inv by (auto simp: topo_inv_def)
qed

lemma compile_pipeline_cases:
  obtains (rejected) e where "\<not> spec_checks spec" "compile_pipeline spec = Some (Inl e)"
  | (ordered) xs ind where "spec_checks spec" "topo_inv (edges (pl_nodes spec)) (pn_id ` set (pl_nodes spec)) ind [] xs"
      "compile_pipeline spec = Some (if length xs \<noteq> length (pl_nodes spec)
                then Inl (Err ''Pipeline has a dependency cycle; topological order is not possible'')
                else Inr \<lparr>cp_name = pl_name spec, cp_ordered_nodes = xs, cp_warnings = output_warnings spec,
                       cp_node_count = length (pl_nodes spec)\<rparr>)"
proof (cases "trim (pl_name spec) = [] \<or> pl_nodes spec = []")
  case True
  then have "\<exists>e. compile_pipeline spec = Some (Inl e)" by (auto simp: compile_pipeline_def)
  with True show ?thesis using rejected by (auto simp: spec_checks_def)
next
  case False
  let ?ns = "pl_nodes spec"
  show ?thesis
  proof (cases "node_keys [] ?ns")
    case (Inl e)
    then have "\<not> (\<exists>keys. node_keys [] ?ns = Inr keys)" by simp
    then have "\<not> spec_checks spec" unfolding node_keys_iff by (auto simp: spec_checks_def list_all_iff)
    then show ?thesis by (rule rejected) (simp add: compile_pipeline_def False [simplified] Inl)
  next
    case keys: (Inr keys)
    have set_keys: "set keys = (\<lambda>n. trim (pn_id n)) ` set ?ns" using node_keys_set [OF keys] by simp
    have nodes: "(\<forall>n \<in> set ?ns. trim (pn_id n) \<noteq> [] \<and> (pn_kind n = NkAction \<longrightarrow> trim (pn_action n) \<noteq> []))
        \<and> distinct (map (\<lambda>n. trim (pn_id n)) ?ns)"
      using keys node_keys_iff [of "[]" ?ns] by simp
    have checks: "spec_checks spec \<longleftrightarrow> fst ` set (edges ?ns) \<subseteq> set keys"
      using nodes False by (auto simp: spec_checks_def list_all_iff tails_iff set_keys)
    show ?thesis
    proof (cases "link_nodes keys ?ns (Map.empty, Map.empty)")
      case (Inl e)
      then have "\<not> spec_checks spec" using checks link_nodes_ok [of keys ?ns] by (metis Inl_Inr_False)
      then show ?thesis by (rule rejected) (simp add: compile_pipeline_def False [simplified] keys Inl)
    next
      case (Inr g)
      obtain ind out where g: "g = (ind, out)" by (cases g)
      have links: "\<forall>w. entry_or 0 w ind = waiting (edges ?ns) {} w" "dom ind = pn_id ` set ?ns"
          "\<And>u. entry_or [] u out = heads_of (edges ?ns) u"
        using link_nodes_graph [OF Inr [unfolded g]] by simp_all
      from topo_loop_ends [OF topo_inv_initial [OF distinct_ids [OF conjunct2 [OF nodes]] links(1,2)] heads_ids _ links(3)]
      obtain xs ind' where xs: "topo_loop out ind (filter (\<lambda>i. entry_or 0 i ind = 0) (map pn_id ?ns)) [] = Some xs"
        "topo_inv (edges ?ns) (pn_id ` set ?ns) ind' [] xs" by auto
      moreover have "spec_checks spec" using checks link_nodes_ok [of keys ?ns] Inr by metis
      ultimately show ?thesis using ordered by (simp add: compile_pipeline_def False [simplified] keys Inr g)
    qed
  qed
qed
lemma placed_length:
  assumes "topo_inv es (pn_id ` set ns) ind [] xs" and "distinct (map pn_id ns)"
  shows "length xs = length ns \<longleftrightarrow> set xs = pn_id ` set ns"
proof -
  have d: "distinct xs" "set xs \<subseteq> pn_id ` set ns" using assms(1) by (auto simp: topo_inv_def)
  have c: "card (pn_id ` set ns) = length ns" using distinct_card [OF assms(2)] by simp
  have l: "card (set xs) = length xs" using d(1) by (rule distinct_card)
  show ?thesis
  proof
    assume "length xs = length ns"
    then show "set xs = pn_id ` set ns" using d(2) c l by (intro card_subset_eq) simp_all
  next
    assume "set xs = pn_id ` set ns"
    then show "length xs = length ns" using c l by simp
  qed
qed

lemma checks_distinct: "spec_checks spec \<Longrightarrow> distinct (map pn_id (pl_nodes spec))"
  by (auto simp: spec_checks_def intro: distinct_ids)

abbreviation edge_set :: "pipeline_spec \<Rightarrow> (string \<times> string) set" where
  "edge_set spec \<equiv> set (edges (pl_nodes spec))"

abbreviation node_names :: "pipeline_spec \<Rightarrow> string set" where
  "node_names spec \<equiv> pn_id ` set (pl_nodes spec)"

text \<open>
  C16. Compiling a pipeline always ends, and it succeeds exactly for the specifications that pass the checks,
  whose dependencies have no cycle and name nodes as these name themselves.
\<close>

theorem compile_accepts_iff:
  "(\<exists>r. compile_pipeline spec = Some r)
   \<and> ((\<exists>c. compile_pipeline spec = Some (Inr c)) \<longleftrightarrow>
        spec_checks spec \<and> acyclic (edge_set spec) \<and> fst ` edge_set spec \<subseteq> node_names spec)"
proof (cases spec rule: compile_pipeline_cases)
  case (rejected e)
  then show ?thesis by simp
next
  case (ordered xs ind)
  with placed_length [OF ordered(2) checks_distinct [OF ordered(1)]] all_placed_iff [OF ordered(2) _ heads_ids]
  show ?thesis by simp
qed

lemma compile_order_facts:
  assumes "compile_pipeline spec = Some (Inr c)"
  shows "distinct (cp_ordered_nodes c)" "set (cp_ordered_nodes c) = node_names spec"
    "after_deps (edges (pl_nodes spec)) (cp_ordered_nodes c)" "cp_node_count c = length (cp_ordered_nodes c)"
    "distinct (map pn_id (pl_nodes spec))" "length (cp_ordered_nodes c) = length (pl_nodes spec)"
proof -
  have "distinct (cp_ordered_nodes c) \<and> set (cp_ordered_nodes c) = node_names spec
    \<and> after_deps (edges (pl_nodes spec)) (cp_ordered_nodes c) \<and> cp_node_count c = length (cp_ordered_nodes c)
    \<and> distinct (map pn_id (pl_nodes spec)) \<and> length (cp_ordered_nodes c) = length (pl_nodes spec)"
  proof (cases spec rule: compile_pipeline_cases)
    case (rejected e)
    with assms show ?thesis by simp
  next
    case (ordered xs ind)
    with assms have "length xs = length (pl_nodes spec)" "cp_ordered_nodes c = xs" "cp_node_count c = length (pl_nodes spec)"
      by (auto split: if_splits)
    with placed_length [OF ordered(2) checks_distinct [OF ordered(1)]] ordered(2) checks_distinct [OF ordered(1)]
    show ?thesis by (auto simp: topo_inv_def)
  qed
  then show "distinct (cp_ordered_nodes c)" "set (cp_ordered_nodes c) = node_names spec"
    "after_deps (edges (pl_nodes spec)) (cp_ordered_nodes c)" "cp_node_count c = length (cp_ordered_nodes c)"
    "distinct (map pn_id (pl_nodes spec))" "length (cp_ordered_nodes c) = length (pl_nodes spec)"
    by blast+
qed

text \<open>
  C17. The order of a compiled pipeline lists every node once, each after all nodes it depends on.
\<close>

theorem compiled_order:
  assumes "compile_pipeline spec = Some (Inr c)"
  shows "distinct (cp_ordered_nodes c) \<and> set (cp_ordered_nodes c) = node_names spec
    \<and> after_deps (edges (pl_nodes spec)) (cp_ordered_nodes c) \<and> cp_node_count c = length (cp_ordered_nodes c)"
  using compile_order_facts [OF assms] by blast

definition sample_node :: "string \<Rightarrow> string list \<Rightarrow> pipeline_node" where
  "sample_node i ds = node_default\<lparr>pn_id := i, pn_action := ''http_get'', pn_depends_on := ds\<rparr>"

definition sample_spec :: pipeline_spec where
  "sample_spec = spec_default\<lparr>pl_name := ''brief'', pl_nodes := [sample_node ''b'' [''a''], sample_node ''a'' []]\<rparr>"

lemma sample_compiled:
  "compile_pipeline sample_spec = Some (Inr \<lparr>cp_name = ''brief'', cp_ordered_nodes = [''a'', ''b''], cp_warnings = [], cp_node_count = 2\<rparr>)"
  by (simp add: compile_pipeline_def sample_spec_def sample_node_def node_default_def spec_default_def trim_no_ws is_ws_def
      topo_loop.simps entry_or_def output_warnings_def)

theorem compiled_order_witness:
  "distinct [''a'', ''b''] \<and> after_deps (edges (pl_nodes sample_spec)) [''a'', ''b'']"
  using compiled_order [OF sample_compiled] by simp

text \<open>
  A dependency is looked up by the trimmed names but counted by the names as written: depending on a node
  whose name is padded with blanks passes the checks and is then reported as a dependency cycle.
\<close>

theorem padded_dependency_rejected:
  assumes "spec_checks spec" and "n \<in> set (pl_nodes spec)" and "d \<in> set (pn_depends_on n)" and "d \<notin> node_names spec"
  shows "compile_pipeline spec = Some (Inl (Err ''Pipeline has a dependency cycle; topological order is not possible''))"
proof (cases spec rule: compile_pipeline_cases)
  case (rejected e)
  with assms(1) show ?thesis by simp
next
  case (ordered xs ind)
  have "\<not> fst ` edge_set spec \<subseteq> node_names spec" using assms(2-4) by (auto simp: tails_iff)
  then show ?thesis
    using placed_length [OF ordered(2) checks_distinct [OF ordered(1)]] all_placed_iff [OF ordered(2) _ heads_ids] ordered(3) by simp
qed

definition padded_spec :: pipeline_spec where
  "padded_spec = spec_default\<lparr>pl_name := ''brief'', pl_nodes := [sample_node ''a '' [], sample_node ''b'' [''a'']]\<rparr>"

theorem padded_dependency_rejected_witness:
  "compile_pipeline padded_spec = Some (Inl (Err ''Pipeline has a dependency cycle; topological order is not possible''))
   \<and> acyclic (edge_set padded_spec)"
proof
  have t: "trim ''a '' = ''a''" by (simp add: trim_def trim_start_def trim_end_def is_ws_def)
  have "spec_checks padded_spec"
    by (simp add: spec_checks_def padded_spec_def sample_node_def node_default_def spec_default_def t trim_no_ws is_ws_def)
  then show "compile_pipeline padded_spec = Some (Inl (Err ''Pipeline has a dependency cycle; topological order is not possible''))"
    by (rule padded_dependency_rejected [where n = "sample_node ''b'' [''a'']" and d = "''a''"])
      (simp_all add: padded_spec_def sample_node_def node_default_def spec_default_def)
  have "edge_set padded_spec = {(''a'', ''b'')}"
    by (simp add: padded_spec_def sample_node_def node_default_def spec_default_def)
  then show "acyclic (edge_set padded_spec)" by (simp add: acyclic_insert wf_acyclic)
qed

end
