(* ===== verification/Pipeline_Run.thy ===== *)
theory Pipeline_Run
  imports Pipeline_Spec Kv_Storage Clock_Text Action_Def
begin

text \<open>
  The execution of pipelines: templates (\<open>render_template\<close> of \<open>core/orchestration/pipeline.rs\<close>), the
  helpers of \<open>governance/action_scope.rs\<close> (keys, contexts, classification of errors, the backoff), and
  \<open>execute_pipeline_run\<close> with the retries of an action (\<open>runtime/pipeline_runtime.rs\<close>) and
  \<open>execute_pipeline_compile\<close> (\<open>integrations/pipeline_connectors.rs\<close>).

  The state is a world and the key-value table. Executing an action may change both; it, the
  passing of time, serde, chrono and the random jitter are the fields of \<open>pipe_env\<close>. Between two changes of
  the state the clock is read as one instant. A text with its keys in order is a \<open>BTreeMap\<close>.
\<close>

section \<open>Templates\<close>

function replace_str :: "string \<Rightarrow> string \<Rightarrow> string \<Rightarrow> string" where
  "replace_str p v [] = []"
| "replace_str p v (c # s) = (if prefix_of p (c # s) then v @ replace_str p v (drop (length p - 1) s)
     else c # replace_str p v s)"
  by pat_completeness auto
termination by (relation "measure (\<lambda>(p, v, s). length s)") auto

type_synonym context_map = "(string \<times> string) list"

fun ctx_insert :: "string \<Rightarrow> string \<Rightarrow> context_map \<Rightarrow> context_map" where
  "ctx_insert k v [] = [(k, v)]"
| "ctx_insert k v ((k', v') # c) = (if k = k' then (k, v) # c else if k < k' then (k, v) # (k', v') # c
     else (k', v') # ctx_insert k v c)"

definition template_token :: "string \<Rightarrow> string" where
  "template_token k = ''{{'' @ k @ ''}}''"

definition render_template :: "string \<Rightarrow> context_map \<Rightarrow> string" where
  "render_template input c = foldl (\<lambda>out (k, v). replace_str (template_token k) v out) input c"

fun render_json_templates :: "json \<Rightarrow> context_map \<Rightarrow> json" where
  "render_json_templates (JStr s) c = JStr (render_template s c)"
| "render_json_templates (JArr xs) c = JArr (map (\<lambda>v. render_json_templates v c) xs)"
| "render_json_templates (JObj xs) c = JObj (map (\<lambda>(k, v). (k, render_json_templates v c)) xs)"
| "render_json_templates v c = v"

definition alnum :: "char \<Rightarrow> bool" where
  "alnum c \<longleftrightarrow> is_lower c \<or> is_upper c \<or> is_digit c"

definition pipeline_key_slug :: "string \<Rightarrow> string" where
  "pipeline_key_slug input = trim_matches (\<lambda>c. c = CHR ''_'')
     (map (\<lambda>ch. if alnum ch \<or> ch = CHR ''-'' \<or> ch = CHR ''_'' then lower_char ch else CHR ''_'') input)"

section \<open>Errors and retries\<close>

definition extract_status_code :: "string \<Rightarrow> nat option" where
  "extract_status_code message = Option.bind
     (find (\<lambda>w. length w = 3 \<and> (case read_nat w of Some code \<Rightarrow> 100 \<le> code \<and> code \<le> 599 | None \<Rightarrow> False))
        (split_on (\<lambda>c. \<not> is_digit c) message)) read_nat"

definition is_retryable_error :: "string \<Rightarrow> retry_policy \<Rightarrow> bool" where
  "is_retryable_error message retry = (case extract_status_code message of
     Some status \<Rightarrow> status \<in> set (rp_retry_on_status retry)
   | None \<Rightarrow> (let lower = ascii_lower message in
       \<not> (contains ''missing '' lower \<or> contains ''invalid '' lower \<or> contains ''unknown action'' lower
         \<or> contains ''permission'' lower \<or> contains ''denied'' lower \<or> contains ''not found'' lower)))"

record ('w, 'b) pipe_state =
  ps_world :: 'w
  ps_db :: "'b kv_db"

record idempotency_record =
  ir_pipeline :: string
  ir_node :: string
  ir_status :: string
  ir_stored_at :: string
  ir_expires_at :: string
  ir_output :: json

record ('w, 'b) pipe_env =
  pe_unit :: "f64 \<Rightarrow> f64"
  pe_ratio_positive :: "f64 \<Rightarrow> bool"
  pe_span :: "nat \<Rightarrow> f64 \<Rightarrow> int"
  pe_jitter :: "int \<Rightarrow> ('w, 'b) pipe_state \<Rightarrow> int"
  pe_wait :: "nat \<Rightarrow> ('w, 'b) pipe_state \<Rightarrow> ('w, 'b) pipe_state"
  pe_chrono :: chrono
  pe_date :: "int \<Rightarrow> string"
  pe_now :: "('w, 'b) pipe_state \<Rightarrow> int"
  pe_elapsed_ms :: "('w, 'b) pipe_state \<Rightarrow> ('w, 'b) pipe_state \<Rightarrow> nat"
  pe_show :: "json \<Rightarrow> string"
  pe_pretty :: "json \<Rightarrow> string"
  pe_parse :: "string \<Rightarrow> json option"
  pe_spec :: "json \<Rightarrow> string + pipeline_spec"
  pe_spec_codec :: "(pipeline_spec, 'b) codec"
  pe_record_codec :: "(idempotency_record, 'b) codec"
  pe_value_codec :: "(json, 'b) codec"
  pe_has_storage :: bool
  pe_actions :: "('w, 'b) pipe_state \<Rightarrow> string \<Rightarrow> action_def option"
  pe_execute :: "string \<Rightarrow> json \<Rightarrow> (('w, 'b) pipe_state, string) io"

definition sleep_ms :: "('w, 'b) pipe_env \<Rightarrow> nat \<Rightarrow> f64 \<Rightarrow> ('w, 'b) pipe_state \<Rightarrow> nat" where
  "sleep_ms env backoff_ms ratio s =
     (if \<not> pe_ratio_positive env ratio then max backoff_ms 25
      else let span = pe_span env backoff_ms ratio in
        if span \<le> 0 then max backoff_ms 25
        else nat (max (int backoff_ms + pe_jitter env span s) 25))"

definition sleep_with_backoff :: "('w, 'b) pipe_env \<Rightarrow> nat \<Rightarrow> f64 \<Rightarrow> ('w, 'b) pipe_state \<Rightarrow> ('w, 'b) pipe_state" where
  "sleep_with_backoff env backoff_ms ratio s = pe_wait env (sleep_ms env backoff_ms ratio s) s"

text \<open>The attempts of \<open>execute_action_with_retry\<close>; products of backoffs stay far below \<open>u64\<close>, and are saturating as in the code.\<close>

function retry_attempts :: "('w, 'b) pipe_env \<Rightarrow> retry_policy \<Rightarrow> string \<Rightarrow> json \<Rightarrow> nat \<Rightarrow> nat \<Rightarrow> (('w, 'b) pipe_state, string \<times> nat) io" where
  "retry_attempts env policy name args attempt backoff_ms s =
     (case pe_execute env name args s of
        (Inr output, s1) \<Rightarrow> (Inr (output, attempt), s1)
      | (Inl (Panicked m), s1) \<Rightarrow> (Inl (Panicked m), s1)
      | (Inl (Err message), s1) \<Rightarrow>
          (if rp_max_attempts policy \<le> attempt \<or> \<not> is_retryable_error message policy then (Inl (Err message), s1)
           else retry_attempts env policy name args (attempt + 1) (min (min (backoff_ms * 2) u64_max) (rp_max_backoff_ms policy))
             (sleep_with_backoff env backoff_ms (rp_jitter_ratio policy) s1)))"
  by pat_completeness auto
termination by (relation "measure (\<lambda>(env, policy, name, args, attempt, backoff_ms, s). rp_max_attempts policy - attempt)") auto

declare retry_attempts.simps [simp del]

definition execute_action_with_retry ::
    "('w, 'b) pipe_env \<Rightarrow> string \<Rightarrow> json \<Rightarrow> retry_policy \<Rightarrow> (('w, 'b) pipe_state, string \<times> nat) io" where
  "execute_action_with_retry env name args retry =
     (let policy = normalized_retry (pe_unit env) retry in
      retry_attempts env policy name args 1 (rp_initial_backoff_ms policy))"
section \<open>Privileged actions, contexts, storage\<close>

definition action_requires_privileged_allow :: "('w, 'b) pipe_env \<Rightarrow> string \<Rightarrow> ('w, 'b) pipe_state \<Rightarrow> bool" where
  "action_requires_privileged_allow env name s =
     (if name \<in> {''pipeline_run'', ''pipeline_compile'', ''manage_actions''} then True
      else (case pe_actions env s name of
        None \<Rightarrow> True
      | Some a \<Rightarrow> list_ex (\<lambda>cap. ascii_lower cap \<in> {''shell'', ''file_write'', ''clipboard_write'', ''gmail'',
            ''google_workspace'', ''code_execute'', ''app_hosting'', ''orchestration'', ''ssh''}) (ad_capabilities a)
          \<or> (ad_source a \<noteq> SystemSource \<and> ad_capabilities a = [])))"

definition context_text :: "('w, 'b) pipe_env \<Rightarrow> json \<Rightarrow> string" where
  "context_text env v = (case v of JStr s \<Rightarrow> s | JNull \<Rightarrow> [] | _ \<Rightarrow> pe_show env v)"

definition context_map_from_json :: "('w, 'b) pipe_env \<Rightarrow> json option \<Rightarrow> context_map" where
  "context_map_from_json env value = (case Option.bind value json_as_object of
     None \<Rightarrow> []
   | Some obj \<Rightarrow> foldl (\<lambda>c (k, v). ctx_insert k (context_text env v) c) [] obj)"

definition coerce_to_json :: "('w, 'b) pipe_env \<Rightarrow> string \<Rightarrow> json" where
  "coerce_to_json env output = (case pe_parse env output of Some v \<Rightarrow> v | None \<Rightarrow> JStr output)"

text \<open>A storage call of the run, and serialization (\<open>to_vec(..)?\<close>).\<close>

definition on_db :: "('b kv_db, 'a) io \<Rightarrow> (('w, 'b) pipe_state, 'a) io" where
  "on_db m s = (case m (ps_db s) of (r, d) \<Rightarrow> (r, s\<lparr>ps_db := d\<rparr>))"

definition now_text :: "('w, 'b) pipe_env \<Rightarrow> ('w, 'b) pipe_state \<Rightarrow> string" where
  "now_text env s = to_rfc3339 (pe_chrono env) (pe_now env s)"

definition store :: "('w, 'b) pipe_env \<Rightarrow> string \<Rightarrow> 'b list option \<Rightarrow> (('w, 'b) pipe_state, unit) io" where
  "store env key bytes s = (case bytes of
     None \<Rightarrow> (Inl (Err ''serialization''), s)
   | Some bs \<Rightarrow> on_db (kv_set (now_text env s) key bs) s)"

definition run_key :: "string \<Rightarrow> string \<Rightarrow> string" where
  "run_key pipeline_name run_id = ''pipeline:run:'' @ pipeline_key_slug pipeline_name @ '':'' @ run_id"

definition spec_key :: "string \<Rightarrow> string" where
  "spec_key pipeline_name = ''pipeline:spec:'' @ pipeline_key_slug pipeline_name"

definition persist_pipeline_run :: "('w, 'b) pipe_env \<Rightarrow> string \<Rightarrow> string \<Rightarrow> json \<Rightarrow> (('w, 'b) pipe_state, unit) io" where
  "persist_pipeline_run env pipeline_name run_id payload =
     (if pe_has_storage env then store env (run_key pipeline_name run_id) (to_vec (pe_value_codec env) payload) else ret ())"

definition load_saved_pipeline_spec :: "('w, 'b) pipe_env \<Rightarrow> string \<Rightarrow> (('w, 'b) pipe_state, pipeline_spec) io" where
  "load_saved_pipeline_spec env pipeline_name =
     (if \<not> pe_has_storage env then fail (Err ''Storage is not available for saved pipelines'')
      else bindE (on_db (kv_get (spec_key pipeline_name))) (\<lambda>raw. case raw of
        None \<Rightarrow> fail (Err (''Saved pipeline '' @ in_quotes pipeline_name @ '' not found''))
      | Some bytes \<Rightarrow> (case from_slice (pe_spec_codec env) bytes of
          None \<Rightarrow> fail (Err (''Saved pipeline '' @ in_quotes pipeline_name @ '' is invalid''))
        | Some spec \<Rightarrow> ret spec)))"

text \<open>An object from its members in any order (\<open>json!\<close> and a serialized \<open>HashMap\<close>).\<close>

definition make_obj :: "(string \<times> json) list \<Rightarrow> json" where
  "make_obj kvs = JObj (foldr (\<lambda>(k, v). obj_insert k v) kvs [])"

definition json_nat :: "nat \<Rightarrow> json" where
  "json_nat n = JNum (show_nat n)"

section \<open>One node\<close>

text \<open>What the loop carries: the outputs, the failed nodes and the reports; and what is fixed for a run.\<close>

record run_acc =
  ra_outputs :: "string \<rightharpoonup> json"
  ra_failed :: "string list"
  ra_reports :: "json list"

record run_info =
  ri_spec :: pipeline_spec
  ri_run_id :: string
  ri_started_at :: string
  ri_context :: context_map
  ri_allow_privileged :: bool

text \<open>The members of the outputs map, for the nodes that can have one.\<close>

definition output_members :: "pipeline_spec \<Rightarrow> (string \<rightharpoonup> json) \<Rightarrow> (string \<times> json) list" where
  "output_members spec outs = List.map_filter (\<lambda>n. map_option (Pair (pn_id n)) (outs (pn_id n))) (pl_nodes spec)"

definition run_payload :: "run_info \<Rightarrow> string \<Rightarrow> string \<Rightarrow> run_acc \<Rightarrow> (string \<times> json) list \<Rightarrow> json" where
  "run_payload ri status finished_at acc extra = make_obj ([(''status'', JStr status), (''pipeline'', JStr (pl_name (ri_spec ri))),
     (''run_id'', JStr (ri_run_id ri)), (''started_at'', JStr (ri_started_at ri)), (''finished_at'', JStr finished_at),
     (''node_reports'', JArr (ra_reports acc))] @ extra)"

definition push_report :: "(string \<times> json) list \<Rightarrow> run_acc \<Rightarrow> run_acc" where
  "push_report members acc = acc\<lparr>ra_reports := ra_reports acc @ [make_obj members]\<rparr>"

definition mark_failed :: "string \<Rightarrow> run_acc \<Rightarrow> run_acc" where
  "mark_failed i acc = acc\<lparr>ra_failed := i # ra_failed acc\<rparr>"

text \<open>The end of a failed node: with \<open>Fail\<close> the run is stored as failed and its error returned.\<close>

definition after_failure ::
    "('w, 'b) pipe_env \<Rightarrow> run_info \<Rightarrow> pipeline_node \<Rightarrow> string \<Rightarrow> (string \<times> json) list \<Rightarrow> run_acc \<Rightarrow> (('w, 'b) pipe_state, run_acc) io" where
  "after_failure env ri n msg extra acc s =
     (if pn_on_error n = EmFail
      then bindE (persist_pipeline_run env (pl_name (ri_spec ri)) (ri_run_id ri) (run_payload ri ''failed'' (now_text env s) acc extra))
             (\<lambda>_. fail (Err msg)) s
      else (Inr acc, s))"

definition node_context :: "('w, 'b) pipe_env \<Rightarrow> run_info \<Rightarrow> pipeline_node \<Rightarrow> run_acc \<Rightarrow> context_map" where
  "node_context env ri n acc = foldl (\<lambda>c dep. case ra_outputs acc dep of
       Some out \<Rightarrow> ctx_insert (''output_'' @ dep) (pe_show env out) c | None \<Rightarrow> c)
     (ctx_insert ''node'' (pn_id n) (ri_context ri)) (pn_depends_on n)"

fun node_action :: "pipeline_node \<Rightarrow> string" where
  "node_action n = (case pn_kind n of NkAction \<Rightarrow> pn_action n | NkConnectorRequest \<Rightarrow> ''connector_request''
     | NkSignalConsensus \<Rightarrow> ''signal_consensus'')"

definition idempotency_key :: "run_info \<Rightarrow> pipeline_node \<Rightarrow> context_map \<Rightarrow> idempotency_policy \<Rightarrow> string" where
  "idempotency_key ri n node_ctx idem = ''pipeline:idem:'' @ render_template (ip_key_template idem)
     (ctx_insert ''node'' (pn_id n) (ctx_insert ''pipeline'' (pl_name (ri_spec ri)) node_ctx))"
text \<open>The stored record of an idempotent node: its output when it still counts; an expired one is deleted.\<close>

definition idempotent_output ::
    "('w, 'b) pipe_env \<Rightarrow> string \<Rightarrow> (('w, 'b) pipe_state, json option) io" where
  "idempotent_output env storage_key = bindE (on_db (kv_get storage_key)) (\<lambda>raw s.
     (case Option.bind raw (from_slice (pe_record_codec env)) of
        None \<Rightarrow> (Inr None, s)
      | Some record \<Rightarrow> (case parse_rfc3339 (pe_chrono env) (ir_expires_at record) of
          None \<Rightarrow> (Inr None, s)
        | Some expires \<Rightarrow>
            (if pe_now env s < expires \<and> ir_status record = ''completed'' then (Inr (Some (ir_output record)), s)
             else if expires \<le> pe_now env s then (Inr None, snd (on_db (kv_delete storage_key) s))
             else (Inr None, s)))))"

definition store_idempotent ::
    "('w, 'b) pipe_env \<Rightarrow> run_info \<Rightarrow> pipeline_node \<Rightarrow> idempotency_policy \<Rightarrow> string \<Rightarrow> json \<Rightarrow> (('w, 'b) pipe_state, unit) io" where
  "store_idempotent env ri n idem storage_key output s =
     (let ttl_secs = clamp 60 (30 * 24 * 60 * 60) (ip_ttl_secs idem) in
      case plus_secs (pe_chrono env) (pe_now env s) (int ttl_secs) of
        None \<Rightarrow> (Inl (Panicked ''DateTime + TimeDelta overflowed''), s)
      | Some expires \<Rightarrow> store env storage_key (to_vec (pe_record_codec env)
          \<lparr>ir_pipeline = pl_name (ri_spec ri), ir_node = pn_id n, ir_status = ''completed'', ir_stored_at = now_text env s,
            ir_expires_at = to_rfc3339 (pe_chrono env) expires, ir_output = output\<rparr>) s)"

definition keep_output :: "string \<Rightarrow> json \<Rightarrow> run_acc \<Rightarrow> run_acc" where
  "keep_output i v acc = acc\<lparr>ra_outputs := (ra_outputs acc)(i \<mapsto> v)\<rparr>"

text \<open>The execution of a node once nothing stands against it.\<close>

definition execute_node ::
    "('w, 'b) pipe_env \<Rightarrow> run_info \<Rightarrow> pipeline_node \<Rightarrow> context_map \<Rightarrow> run_acc \<Rightarrow> (('w, 'b) pipe_state, run_acc) io" where
  "execute_node env ri n node_ctx acc s =
     (case execute_action_with_retry env (node_action n) (render_json_templates (pn_arguments n) node_ctx)
             (normalized_retry (pe_unit env) (pn_retry n)) s of
        (Inr (output, attempts), s1) \<Rightarrow>
          (let output_json = coerce_to_json env output;
               acc1 = keep_output (pn_id n) output_json acc in
           bindE (case (pe_has_storage env, pn_idempotency n) of
                (True, Some idem) \<Rightarrow> store_idempotent env ri n idem (idempotency_key ri n node_ctx idem) output_json
              | _ \<Rightarrow> ret ())
            (\<lambda>_ s2. (Inr (push_report [(''node_id'', JStr (pn_id n)), (''action'', JStr (node_action n)), (''status'', JStr ''completed''),
               (''attempts'', json_nat attempts), (''duration_ms'', json_nat (pe_elapsed_ms env s s2))] acc1), s2)) s1)
      | (Inl (Panicked m), s1) \<Rightarrow> (Inl (Panicked m), s1)
      | (Inl (Err msg), s1) \<Rightarrow>
          (let acc1 = push_report [(''node_id'', JStr (pn_id n)), (''action'', JStr (node_action n)),
               (''status'', JStr (if pn_on_error n = EmContinue then ''failed_continue'' else ''failed'')), (''error'', JStr msg),
               (''duration_ms'', json_nat (pe_elapsed_ms env s s1))] (mark_failed (pn_id n) acc) in
           after_failure env ri n (''Pipeline '' @ in_quotes (pl_name (ri_spec ri)) @ '' failed at node '' @ in_quotes (pn_id n) @ '': '' @ msg)
             [(''outputs'', make_obj (output_members (ri_spec ri) (ra_outputs acc1)))] acc1 s1))"

definition run_node ::
    "('w, 'b) pipe_env \<Rightarrow> run_info \<Rightarrow> pipeline_node \<Rightarrow> run_acc \<Rightarrow> (('w, 'b) pipe_state, run_acc) io" where
  "run_node env ri n acc s = (case find (\<lambda>dep. dep \<in> set (ra_failed acc)) (pn_depends_on n) of
     Some dep \<Rightarrow> after_failure env ri n
       (''Pipeline '' @ in_quotes (pl_name (ri_spec ri)) @ '' failed: node '' @ in_quotes (pn_id n) @ '' blocked by failed dependency '' @ in_quotes dep)
       [] (mark_failed (pn_id n) (push_report [(''node_id'', JStr (pn_id n)), (''status'', JStr ''skipped_dependency_failed''),
           (''reason'', JStr (''Skipped: dependency '' @ in_quotes dep @ '' failed''))] acc)) s
   | None \<Rightarrow>
      (let node_ctx = node_context env ri n acc; action_name = node_action n in
       if trim action_name = [] then (Inl (Err (''Node '' @ in_quotes (pn_id n) @ '' resolved to empty action'')), s)
       else if action_name = ''pipeline_run'' \<or> action_name = ''pipeline_compile'' then
         (Inl (Err (''Node '' @ in_quotes (pn_id n) @ '' uses forbidden nested orchestration action '' @ in_quotes action_name)), s)
       else if \<not> ri_allow_privileged ri \<and> action_requires_privileged_allow env action_name s then
         (let msg = ''Node '' @ in_quotes (pn_id n) @ '' requires privileged action '' @ in_quotes action_name @ ''; set allow_privileged=true to run'' in
          after_failure env ri n msg [] (mark_failed (pn_id n) (push_report [(''node_id'', JStr (pn_id n)), (''action'', JStr action_name),
            (''status'', JStr ''blocked_privileged''), (''error'', JStr msg)] acc)) s)
       else bindE (case (pe_has_storage env, pn_idempotency n) of
             (True, Some idem) \<Rightarrow> idempotent_output env (idempotency_key ri n node_ctx idem)
           | _ \<Rightarrow> ret None)
         (\<lambda>hit. case hit of
            Some v \<Rightarrow> ret (push_report [(''node_id'', JStr (pn_id n)), (''action'', JStr action_name), (''status'', JStr ''idempotent_hit''),
               (''attempts'', json_nat 0)] (keep_output (pn_id n) v acc))
          | None \<Rightarrow> execute_node env ri n node_ctx acc) s))"

section \<open>The run\<close>

definition node_by_id :: "pipeline_spec \<Rightarrow> string \<Rightarrow> pipeline_node option" where
  "node_by_id spec i = find (\<lambda>n. pn_id n = i) (rev (pl_nodes spec))"

fun run_nodes ::
    "('w, 'b) pipe_env \<Rightarrow> run_info \<Rightarrow> string list \<Rightarrow> run_acc \<Rightarrow> (('w, 'b) pipe_state, run_acc) io" where
  "run_nodes env ri [] acc = ret acc"
| "run_nodes env ri (i # is) acc = (case node_by_id (ri_spec ri) i of
     None \<Rightarrow> fail (Err (''Missing compiled node '' @ in_quotes i))
   | Some n \<Rightarrow> bindE (run_node env ri n acc) (run_nodes env ri is))"

definition selected_outputs :: "pipeline_spec \<Rightarrow> (string \<rightharpoonup> json) \<Rightarrow> (string \<times> json) list" where
  "selected_outputs spec outs = (if pl_outputs spec = [] then output_members spec outs
     else List.map_filter (\<lambda>k. map_option (Pair k) (outs k)) (pl_outputs spec))"

definition finish_run :: "('w, 'b) pipe_env \<Rightarrow> run_info \<Rightarrow> run_acc \<Rightarrow> (('w, 'b) pipe_state, string) io" where
  "finish_run env ri acc s =
     (let status = if ra_failed acc = [] then ''completed'' else ''completed_with_errors'';
          result = run_payload ri status (now_text env s) acc
            [(''outputs'', make_obj (selected_outputs (ri_spec ri) (ra_outputs acc)))] in
      bindE (persist_pipeline_run env (pl_name (ri_spec ri)) (ri_run_id ri) result) (\<lambda>_. ret (pe_pretty env result)) s)"

definition flag :: "string \<Rightarrow> json \<Rightarrow> bool" where
  "flag k arguments = (case Option.bind (json_get k arguments) json_as_bool of Some b \<Rightarrow> b | None \<Rightarrow> False)"

definition requested_spec :: "('w, 'b) pipe_env \<Rightarrow> json \<Rightarrow> (('w, 'b) pipe_state, pipeline_spec) io" where
  "requested_spec env arguments = (case json_get ''spec'' arguments of
     Some v \<Rightarrow> (case pe_spec env v of Inl e \<Rightarrow> fail (Err (''Invalid pipeline spec: '' @ e)) | Inr spec \<Rightarrow> ret spec)
   | None \<Rightarrow> (case Option.bind (json_get ''pipeline_name'' arguments) json_as_str of
        None \<Rightarrow> fail (Err ''Missing spec or pipeline_name'')
      | Some name \<Rightarrow> load_saved_pipeline_spec env name))"

text \<open>\<open>None\<close> would be a compilation that does not end, which \<open>compile_accepts_iff\<close> excludes.\<close>

definition compiled :: "pipeline_spec \<Rightarrow> compiled_pipeline result" where
  "compiled spec = (case compile_pipeline spec of Some r \<Rightarrow> r | None \<Rightarrow> Inl (Err ''unreachable''))"

definition pipeline_context :: "('w, 'b) pipe_env \<Rightarrow> pipeline_spec \<Rightarrow> json option \<Rightarrow> ('w, 'b) pipe_state \<Rightarrow> context_map" where
  "pipeline_context env spec given s = ctx_insert ''timestamp'' (now_text env s)
     (ctx_insert ''date'' (pe_date env (pe_now env s)) (ctx_insert ''pipeline'' (pl_name spec) (context_map_from_json env given)))"

definition execute_pipeline_run :: "('w, 'b) pipe_env \<Rightarrow> string \<Rightarrow> json \<Rightarrow> (('w, 'b) pipe_state, string) io" where
  "execute_pipeline_run env run_id arguments =
     bindE (requested_spec env arguments) (\<lambda>spec.
     bindE (lift_result (compiled spec)) (\<lambda>c s.
       if flag ''dry_run'' arguments
       then (Inr (pe_pretty env (make_obj [(''status'', JStr ''dry_run''), (''pipeline'', JStr (pl_name spec)),
              (''node_count'', json_nat (cp_node_count c)), (''ordered_nodes'', JArr (map JStr (cp_ordered_nodes c))),
              (''warnings'', JArr (map JStr (cp_warnings c)))])), s)
       else (let ri = \<lparr>ri_spec = spec, ri_run_id = run_id, ri_started_at = now_text env s,
                   ri_context = pipeline_context env spec (json_get ''context'' arguments) s,
                   ri_allow_privileged = flag ''allow_privileged'' arguments\<rparr> in
         bindE (run_nodes env ri (cp_ordered_nodes c) \<lparr>ra_outputs = Map.empty, ra_failed = [], ra_reports = []\<rparr>) (finish_run env ri) s)))"

definition execute_pipeline_compile :: "('w, 'b) pipe_env \<Rightarrow> json \<Rightarrow> (('w, 'b) pipe_state, string) io" where
  "execute_pipeline_compile env arguments = (case json_get ''spec'' arguments of
     None \<Rightarrow> fail (Err ''Missing spec'')
   | Some v \<Rightarrow> (case pe_spec env v of
        Inl e \<Rightarrow> fail (Err (''Invalid pipeline spec: '' @ e))
      | Inr spec \<Rightarrow> bindE (lift_result (compiled spec)) (\<lambda>c.
          let save = (case Option.bind (json_get ''save'' arguments) json_as_bool of Some b \<Rightarrow> b | None \<Rightarrow> True);
              answer = (\<lambda>warnings persisted. pe_pretty env (make_obj [(''status'', JStr ''compiled''), (''pipeline'', JStr (cp_name c)),
                (''node_count'', json_nat (cp_node_count c)), (''ordered_nodes'', JArr (map JStr (cp_ordered_nodes c))),
                (''warnings'', JArr (map JStr warnings)), (''persisted'', JBool persisted)])) in
          if save \<and> pe_has_storage env
          then bindE (store env (spec_key (pl_name spec)) (to_vec (pe_spec_codec env) spec)) (\<lambda>_. ret (answer (cp_warnings c) True))
          else if save then ret (answer (cp_warnings c @ [''storage unavailable; pipeline spec not persisted'']) False)
          else ret (answer (cp_warnings c) False))))"

end
