(* ===== verification/Pipeline_Safety.thy ===== *)
theory Pipeline_Safety
  imports Pipeline_Run
begin

text \<open>
  What pipeline runs guarantee: an action is attempted at most twenty times, a node has an output only
  if all nodes it depends on have one, a stored output is returned instead of executing a node again; and
  where runs go wrong: nested pipelines found after their predecessors ran, idempotency keys and stored names that
  collide, numbers in an error text taken for a status code.
\<close>

section \<open>Retries\<close>

lemma retry_attempts_count:
  assumes "\<And>a j t. cnt (snd (pe_execute env a j t)) = (cnt t :: nat) + 1" and "\<And>n t. cnt (pe_wait env n t) = cnt t"
    and "retry_attempts env p a args k b s = (r, s')"
  shows "cnt s + 1 \<le> cnt s' \<and> cnt s' \<le> cnt s + max 1 (rp_max_attempts p + 1 - k)
    \<and> (case r of Inr (out, m) \<Rightarrow> m + cnt s + 1 = cnt s' + k | Inl e \<Rightarrow> True)"
  using assms
proof (induction env p a args k b s rule: retry_attempts.induct [case_names step])
  case (step env p a args k b s)
  obtain x s1 where x: "pe_execute env a args s = (x, s1)" by (cases "pe_execute env a args s")
  have c1: "cnt s1 = cnt s + 1" using step.prems(1) [of a args s] x by simp
  show ?case
  proof (cases "\<exists>m. x = Inl (Err m) \<and> \<not> (rp_max_attempts p \<le> k \<or> \<not> is_retryable_error m p)")
    case False
    then have "(\<exists>out. x = Inr out \<and> r = Inr (out, k) \<and> s' = s1) \<or> (\<exists>e. r = Inl e \<and> s' = s1)"
      using step.prems(3) x by (subst (asm) retry_attempts.simps) (auto split: sum.splits err.splits if_splits)
    then show ?thesis using c1 by auto
  next
    case True
    then obtain m where m: "x = Inl (Err m)" "\<not> (rp_max_attempts p \<le> k \<or> \<not> is_retryable_error m p)" by blast
    let ?s2 = "sleep_with_backoff env b (rp_jitter_ratio p) s1"
    have c2: "cnt ?s2 = cnt s + 1" using step.prems(2) c1 by (simp add: sleep_with_backoff_def)
    have "retry_attempts env p a args (k + 1) (min (min (b * 2) u64_max) (rp_max_backoff_ms p)) ?s2 = (r, s')"
      using step.prems(3) x m by (subst (asm) retry_attempts.simps) simp
    from step.IH [OF x [symmetric] m(1) refl m(2) step.prems(1,2) this] c2 m(2) show ?thesis
      by (auto split: sum.splits)
  qed
qed

text \<open>
  C19. A node's action is attempted at least once and at most as often as its policy allows, between one and
  twenty times, and a success reports the number of its attempts.
\<close>

theorem retry_bounded:
  assumes "\<And>a j t. cnt (snd (pe_execute env a j t)) = (cnt t :: nat) + 1" and "\<And>n t. cnt (pe_wait env n t) = cnt t"
    and "execute_action_with_retry env a args retry s = (r, s')"
  shows "1 \<le> cnt s' - cnt s \<and> cnt s' - cnt s \<le> clamp 1 20 (rp_max_attempts retry) \<and> clamp 1 20 (rp_max_attempts retry) \<le> 20
    \<and> (case r of Inr (out, m) \<Rightarrow> m = cnt s' - cnt s | Inl e \<Rightarrow> True)"
proof -
  let ?p = "normalized_retry (pe_unit env) retry"
  have n: "rp_max_attempts ?p = clamp 1 20 (rp_max_attempts retry)" by (simp add: normalized_retry_def)
  have run: "retry_attempts env ?p a args 1 (rp_initial_backoff_ms ?p) s = (r, s')"
    using assms(3) by (simp add: execute_action_with_retry_def Let_def)
  note c = retry_attempts_count [of cnt env, OF assms(1,2) run]
  show ?thesis using c clamp_bounds [of 1 20 "rp_max_attempts retry"] by (auto simp: n split: sum.splits)
qed
section \<open>Dependencies\<close>

lemma after_failure_Inr: "after_failure env ri n msg extra acc s = (Inr acc', s') \<Longrightarrow> acc' = acc \<and> s' = s"
  by (auto simp: after_failure_def elim!: bindE_InrE split: if_splits)

lemma acc_updates [simp]:
  "ra_outputs (push_report m acc) = ra_outputs acc" "ra_failed (push_report m acc) = ra_failed acc"
  "ra_outputs (mark_failed i acc) = ra_outputs acc" "ra_failed (mark_failed i acc) = i # ra_failed acc"
  "ra_outputs (keep_output i v acc) = (ra_outputs acc)(i \<mapsto> v)" "ra_failed (keep_output i v acc) = ra_failed acc"
  "ra_reports (push_report m acc) = ra_reports acc @ [make_obj m]" "ra_reports (mark_failed i acc) = ra_reports acc"
  "ra_reports (keep_output i v acc) = ra_reports acc"
  by (simp_all add: push_report_def mark_failed_def keep_output_def)

text \<open>What a report says: the node it is about, and whether that node got its output.\<close>

definition report_node :: "json \<Rightarrow> string option" where
  "report_node r = Option.bind (json_get ''node_id'' r) json_as_str"

definition report_done :: "json \<Rightarrow> bool" where
  "report_done r \<longleftrightarrow> json_get ''status'' r = Some (JStr ''completed'') \<or> json_get ''status'' r = Some (JStr ''idempotent_hit'')"

lemma get_made [simp]: "json_get k (make_obj kvs) = map_of kvs k"
proof -
  have "map_of (foldr (\<lambda>(k, v). obj_insert k v) kvs []) = map_of kvs" by (induction kvs) auto
  then show ?thesis by (simp add: make_obj_def)
qed

definition reported :: "pipeline_node \<Rightarrow> bool \<Rightarrow> run_acc \<Rightarrow> run_acc \<Rightarrow> bool" where
  "reported n good acc acc' \<longleftrightarrow> (\<exists>r. ra_reports acc' = ra_reports acc @ [r] \<and> report_node r = Some (pn_id n) \<and> report_done r = good)"

text \<open>A node that does not stop the run is reported once, and either failed or has an output; the latter
  only if no node it depends on failed.\<close>

definition node_failed :: "pipeline_node \<Rightarrow> run_acc \<Rightarrow> run_acc \<Rightarrow> bool" where
  "node_failed n acc acc' \<longleftrightarrow> ra_outputs acc' = ra_outputs acc \<and> ra_failed acc' = pn_id n # ra_failed acc
     \<and> reported n False acc acc'"

definition node_done :: "pipeline_node \<Rightarrow> run_acc \<Rightarrow> run_acc \<Rightarrow> bool" where
  "node_done n acc acc' \<longleftrightarrow> (\<exists>v. ra_outputs acc' = (ra_outputs acc)(pn_id n \<mapsto> v)) \<and> ra_failed acc' = ra_failed acc
     \<and> reported n True acc acc' \<and> set (pn_depends_on n) \<inter> set (ra_failed acc) = {}"

lemmas report_defs = reported_def report_node_def report_done_def

lemma execute_node_Inr:
  assumes "execute_node env ri n c acc s = (Inr acc', s')" and "set (pn_depends_on n) \<inter> set (ra_failed acc) = {}"
  shows "node_failed n acc acc' \<or> node_done n acc acc'"
proof (cases "execute_action_with_retry env (node_action n) (render_json_templates (pn_arguments n) c)
             (normalized_retry (pe_unit env) (pn_retry n)) s")
  case (Pair r s1)
  show ?thesis
  proof (cases r)
    case (Inl e)
    with assms(1) Pair show ?thesis
      by (cases e) (auto simp: execute_node_def Let_def node_failed_def report_defs simp del: node_action.simps dest!: after_failure_Inr)
  next
    case (Inr x)
    obtain out k where x: "x = (out, k)" by (cases x)
    from assms(1) Pair Inr x obtain m where "acc' = push_report m (keep_output (pn_id n) (coerce_to_json env out) acc)"
        "map_of m ''node_id'' = Some (JStr (pn_id n))" "map_of m ''status'' = Some (JStr ''completed'')"
      by (auto simp: execute_node_def Let_def simp del: node_action.simps elim!: bindE_InrE)
    then show ?thesis using assms(2) by (auto simp: node_done_def report_defs)
  qed
qed

lemma run_node_Inr:
  assumes "run_node env ri n acc s = (Inr acc', s')"
  shows "node_failed n acc acc' \<or> node_done n acc acc'"
proof (cases "find (\<lambda>dep. dep \<in> set (ra_failed acc)) (pn_depends_on n)")
  case (Some dep)
  with assms show ?thesis by (auto simp: run_node_def node_failed_def report_defs dest!: after_failure_Inr)
next
  case None
  then have free: "set (pn_depends_on n) \<inter> set (ra_failed acc) = {}" by (auto simp: find_None)
  show ?thesis
  proof (cases "\<not> ri_allow_privileged ri \<and> action_requires_privileged_allow env (node_action n) s")
    case True
    with assms None show ?thesis
      by (auto simp: run_node_def Let_def node_failed_def report_defs simp del: node_action.simps split: if_splits dest!: after_failure_Inr)
  next
    case False
    let ?c = "node_context env ri n acc"
    from assms None False obtain hit s1 where
      "(case hit of Some v \<Rightarrow> ret (push_report [(''node_id'', JStr (pn_id n)), (''action'', JStr (node_action n)),
           (''status'', JStr ''idempotent_hit''), (''attempts'', json_nat 0)] (keep_output (pn_id n) v acc))
        | None \<Rightarrow> execute_node env ri n ?c acc) s1 = (Inr acc', s')"
      by (auto simp: run_node_def Let_def simp del: node_action.simps split: if_splits elim!: bindE_InrE)
    note hit = this
    show ?thesis
    proof (cases hit)
      case None
      with hit have "execute_node env ri n ?c acc s1 = (Inr acc', s')" by simp
      then show ?thesis using free by (rule execute_node_Inr)
    next
      case (Some v)
      with hit free have "node_done n acc acc'" by (auto simp: node_done_def report_defs)
      then show ?thesis ..
    qed
  qed
qed

text \<open>What holds between nodes, for the nodes treated so far.\<close>

definition reports_ok :: "string list \<Rightarrow> run_acc \<Rightarrow> bool" where
  "reports_ok treated acc \<longleftrightarrow> list_all2 (\<lambda>r i. report_node r = Some i \<and> report_done r = (i \<in> dom (ra_outputs acc)))
     (ra_reports acc) treated"

definition acc_ok :: "pipeline_node list \<Rightarrow> string list \<Rightarrow> run_acc \<Rightarrow> bool" where
  "acc_ok ns treated acc \<longleftrightarrow> dom (ra_outputs acc) \<union> set (ra_failed acc) = set treated
     \<and> dom (ra_outputs acc) \<inter> set (ra_failed acc) = {} \<and> reports_ok treated acc
     \<and> (\<forall>d v. (d, v) \<in> set (edges ns) \<and> v \<in> dom (ra_outputs acc) \<longrightarrow> d \<in> dom (ra_outputs acc))"

lemma reports_ok_snoc:
  assumes "reports_ok treated acc" and "reported n good acc acc'" and "pn_id n \<notin> set treated"
    and "good = (pn_id n \<in> dom (ra_outputs acc'))"
    and "\<And>i. i \<in> set treated \<Longrightarrow> (i \<in> dom (ra_outputs acc')) = (i \<in> dom (ra_outputs acc))"
  shows "reports_ok (treated @ [pn_id n]) acc'"
proof -
  from assms(2) obtain r where r: "ra_reports acc' = ra_reports acc @ [r]" "report_node r = Some (pn_id n)" "report_done r = good"
    by (auto simp: reported_def)
  have "list_all2 (\<lambda>r i. report_node r = Some i \<and> report_done r = (i \<in> dom (ra_outputs acc'))) (ra_reports acc) treated"
    using assms(1) unfolding reports_ok_def by (rule list.rel_mono_strong) (use assms(5) in auto)
  with r assms(4) show ?thesis by (auto simp: reports_ok_def intro: list_all2_appendI)
qed

lemma edges_of_node:
  assumes "distinct (map pn_id ns)" and "n \<in> set ns"
  shows "(d, pn_id n) \<in> set (edges ns) \<longleftrightarrow> d \<in> set (pn_depends_on n)"
proof -
  have "(d, v) \<in> set (edges ns) \<longleftrightarrow> (\<exists>m \<in> set ns. pn_id m = v \<and> d \<in> set (pn_depends_on m))" for v
    by (induction ns) (auto simp: image_iff)
  moreover have "m = n" if "m \<in> set ns" "pn_id m = pn_id n" for m
    using assms that by (auto simp: distinct_map inj_on_def)
  ultimately show ?thesis using assms(2) by blast
qed

lemma acc_ok_step:
  assumes "acc_ok ns treated acc" and "distinct (map pn_id ns)" and n: "n \<in> set ns" and "pn_id n \<notin> set treated"
    and deps: "set (pn_depends_on n) \<subseteq> set treated" and "node_failed n acc acc' \<or> node_done n acc acc'"
  shows "acc_ok ns (treated @ [pn_id n]) acc'"
  using assms(6)
proof
  assume f: "node_failed n acc acc'"
  then have "reports_ok (treated @ [pn_id n]) acc'"
    using assms(1,4) by (intro reports_ok_snoc [of treated acc n False]) (auto simp: node_failed_def acc_ok_def)
  with f show ?thesis using assms(1,4) by (auto simp: acc_ok_def node_failed_def)
next
  assume d: "node_done n acc acc'"
  then obtain v where v: "ra_outputs acc' = (ra_outputs acc)(pn_id n \<mapsto> v)" "ra_failed acc' = ra_failed acc"
      "reported n True acc acc'" "set (pn_depends_on n) \<inter> set (ra_failed acc) = {}"
    by (auto simp: node_done_def)
  have o: "dom (ra_outputs acc) \<union> set (ra_failed acc) = set treated" "dom (ra_outputs acc) \<inter> set (ra_failed acc) = {}"
    using assms(1) by (simp_all add: acc_ok_def)
  have "set (pn_depends_on n) \<subseteq> dom (ra_outputs acc)" using deps o(1) v(4) by blast
  then have "u \<in> dom (ra_outputs acc')" if "(u, w) \<in> set (edges ns)" "w \<in> dom (ra_outputs acc')" for u w
  proof (cases "w = pn_id n")
    case True
    with that(1) edges_of_node [OF assms(2) n] have "u \<in> set (pn_depends_on n)" by simp
    with \<open>set (pn_depends_on n) \<subseteq> dom (ra_outputs acc)\<close> have "u \<in> dom (ra_outputs acc)" by (rule subsetD)
    then show ?thesis by (simp add: v(1))
  next
    case False
    with that(2) have "w \<in> dom (ra_outputs acc)" by (simp add: v(1))
    with that(1) assms(1) have "u \<in> dom (ra_outputs acc)" unfolding acc_ok_def by blast
    then show ?thesis by (simp add: v(1))
  qed
  then have "\<forall>u w. (u, w) \<in> set (edges ns) \<and> w \<in> dom (ra_outputs acc') \<longrightarrow> u \<in> dom (ra_outputs acc')" by blast
  moreover have "dom (ra_outputs acc') \<inter> set (ra_failed acc') = {}" using o assms(4) by (auto simp: v)
  moreover have "reports_ok (treated @ [pn_id n]) acc'"
    using assms(1,4) by (intro reports_ok_snoc [OF _ v(3)]) (auto simp: acc_ok_def v(1))
  moreover have "dom (ra_outputs acc') \<union> set (ra_failed acc') = set (treated @ [pn_id n])" using o(1) by (auto simp: v)
  ultimately show ?thesis by (simp add: acc_ok_def)
qed

lemma node_by_id_Some: "node_by_id spec i = Some n \<Longrightarrow> n \<in> set (pl_nodes spec) \<and> pn_id n = i"
  by (auto simp: node_by_id_def dest: find_SomeD)

lemma run_nodes_acc_ok:
  assumes "run_nodes env ri is acc s = (Inr acc', s')" and "acc_ok (pl_nodes (ri_spec ri)) treated acc"
    and "distinct (treated @ is)" and "after_deps (edges (pl_nodes (ri_spec ri))) (treated @ is)"
    and d: "distinct (map pn_id (pl_nodes (ri_spec ri)))"
  shows "acc_ok (pl_nodes (ri_spec ri)) (treated @ is) acc'"
  using assms(1-4)
proof (induction "is" arbitrary: treated acc s)
  case (Cons i "is")
  obtain n where n: "node_by_id (ri_spec ri) i = Some n"
    using Cons.prems(1) by (cases "node_by_id (ri_spec ri) i") auto
  then obtain acc1 s1 where r: "run_node env ri n acc s = (Inr acc1, s1)" and rs: "run_nodes env ri is acc1 s1 = (Inr acc', s')"
    using Cons.prems(1) by (auto elim!: bindE_InrE)
  from node_by_id_Some [OF n] have m: "n \<in> set (pl_nodes (ri_spec ri))" "pn_id n = i" by simp_all
  have "set (pn_depends_on n) \<subseteq> set treated"
  proof
    fix u assume "u \<in> set (pn_depends_on n)"
    then have "(u, (treated @ i # is) ! length treated) \<in> set (edges (pl_nodes (ri_spec ri)))"
      using edges_of_node [OF d m(1)] m(2) by simp
    moreover have "length treated < length (treated @ i # is)" by simp
    ultimately have "u \<in> set (take (length treated) (treated @ i # is))" using Cons.prems(4) unfolding after_deps_def by blast
    then show "u \<in> set treated" by simp
  qed
  with acc_ok_step [OF Cons.prems(2) d m(1) _ _ run_node_Inr [OF r]] Cons.prems(3) m(2)
  have "acc_ok (pl_nodes (ri_spec ri)) (treated @ [i]) acc1" by simp
  from Cons.IH [OF rs this] Cons.prems(3,4) show ?case by simp
qed simp
definition acc_start :: run_acc where
  "acc_start = \<lparr>ra_outputs = Map.empty, ra_failed = [], ra_reports = []\<rparr>"

text \<open>
  C18. When a run comes to its end the reports are those of the nodes in the compiled order, one for each node
  under its own name, and each says whether its node got an output (run now or taken from an earlier run) or
  failed. Every node either failed or has an output, and a node has an output only if every node it depends
  on has one.
\<close>

theorem run_respects_dependencies:
  assumes "compile_pipeline (ri_spec ri) = Some (Inr c)"
    and "run_nodes env ri (cp_ordered_nodes c) acc_start s = (Inr acc, s')"
  shows "dom (ra_outputs acc) \<union> set (ra_failed acc) = node_names (ri_spec ri)
    \<and> dom (ra_outputs acc) \<inter> set (ra_failed acc) = {}
    \<and> map report_node (ra_reports acc) = map Some (cp_ordered_nodes c)
    \<and> map report_done (ra_reports acc) = map (\<lambda>i. i \<in> dom (ra_outputs acc)) (cp_ordered_nodes c)
    \<and> distinct (cp_ordered_nodes c) \<and> length (ra_reports acc) = length (pl_nodes (ri_spec ri))
    \<and> (\<forall>n \<in> set (pl_nodes (ri_spec ri)). pn_id n \<in> dom (ra_outputs acc) \<longrightarrow> set (pn_depends_on n) \<subseteq> dom (ra_outputs acc))"
proof -
  note c = compile_order_facts [OF assms(1)]
  have "acc_ok (pl_nodes (ri_spec ri)) [] acc_start" by (simp add: acc_ok_def acc_start_def reports_ok_def)
  from run_nodes_acc_ok [OF assms(2) this _ _ c(5)] c have ok: "acc_ok (pl_nodes (ri_spec ri)) (cp_ordered_nodes c) acc" by simp
  have "set (pn_depends_on n) \<subseteq> dom (ra_outputs acc)"
    if "n \<in> set (pl_nodes (ri_spec ri))" "pn_id n \<in> dom (ra_outputs acc)" for n
    using ok that edges_of_node [OF c(5) that(1)] unfolding acc_ok_def by blast
  then have deps: "\<forall>n \<in> set (pl_nodes (ri_spec ri)). pn_id n \<in> dom (ra_outputs acc) \<longrightarrow> set (pn_depends_on n) \<subseteq> dom (ra_outputs acc)"
    by blast
  from ok have all2: "reports_ok (cp_ordered_nodes c) acc" by (simp add: acc_ok_def)
  then have reports: "map report_node (ra_reports acc) = map Some (cp_ordered_nodes c)"
    "map report_done (ra_reports acc) = map (\<lambda>i. i \<in> dom (ra_outputs acc)) (cp_ordered_nodes c)"
    "length (ra_reports acc) = length (cp_ordered_nodes c)"
    by (simp_all add: reports_ok_def list_all2_conv_all_nth list_eq_iff_nth_eq)
  from ok have doms: "dom (ra_outputs acc) \<union> set (ra_failed acc) = node_names (ri_spec ri)"
    "dom (ra_outputs acc) \<inter> set (ra_failed acc) = {}" unfolding acc_ok_def c(2,6) by simp_all
  show ?thesis using reports deps doms c by simp
qed

definition sample_pipe_env :: "(string \<Rightarrow> json \<Rightarrow> (('w, 'b) pipe_state, string) io) \<Rightarrow> bool \<Rightarrow> ('w, 'b) pipe_env" where
  "sample_pipe_env execute has_storage = \<lparr>pe_unit = id, pe_ratio_positive = (\<lambda>_. False), pe_span = (\<lambda>_ _. 0), pe_jitter = (\<lambda>_ _. 0),
     pe_wait = (\<lambda>_ s. s), pe_chrono = decimal_chrono, pe_date = show_int, pe_now = (\<lambda>_. 0), pe_elapsed_ms = (\<lambda>_ _. 0),
     pe_show = (\<lambda>_. ''value''), pe_pretty = (\<lambda>_. ''report''), pe_parse = (\<lambda>_. None), pe_spec = (\<lambda>_. Inr sample_spec),
     pe_spec_codec = \<lparr>to_vec = (\<lambda>_. Some []), from_slice = (\<lambda>_. None)\<rparr>,
     pe_record_codec = \<lparr>to_vec = (\<lambda>_. Some []), from_slice = (\<lambda>_. None)\<rparr>,
     pe_value_codec = \<lparr>to_vec = (\<lambda>_. Some []), from_slice = (\<lambda>_. None)\<rparr>,
     pe_has_storage = has_storage, pe_actions = (\<lambda>_ _. None), pe_execute = execute\<rparr>"

definition sample_info :: "pipeline_spec \<Rightarrow> run_info" where
  "sample_info spec = \<lparr>ri_spec = spec, ri_run_id = ''r'', ri_started_at = ''0'', ri_context = [], ri_allow_privileged = True\<rparr>"

definition sample_state :: "(nat, json) pipe_state" where
  "sample_state = \<lparr>ps_world = 0, ps_db = empty_db\<rparr>"

text \<open>An action that fails when it is given the name of the second node.\<close>

definition count_calls :: "bool \<Rightarrow> string \<Rightarrow> json \<Rightarrow> ((nat, json) pipe_state, string) io" where
  "count_calls good a j s = (if good then Inr ''done'' else Inl (Err ''timeout''), s\<lparr>ps_world := ps_world s + 1\<rparr>)"

lemma sample_run_ends:
  "\<exists>acc s'. run_nodes (sample_pipe_env (count_calls True) False) (sample_info sample_spec) [''a'', ''b''] acc_start sample_state = (Inr acc, s')"
  by (simp add: sample_info_def sample_spec_def sample_node_def node_default_def spec_default_def node_by_id_def run_node_def
      sample_pipe_env_def count_calls_def execute_node_def execute_action_with_retry_def retry_attempts.simps acc_start_def
      trim_no_ws is_ws_def Let_def)

theorem run_respects_dependencies_witness:
  "\<exists>acc s'. run_nodes (sample_pipe_env (count_calls True) False) (sample_info sample_spec) [''a'', ''b''] acc_start sample_state = (Inr acc, s')
     \<and> dom (ra_outputs acc) \<union> set (ra_failed acc) = {''a'', ''b''} \<and> length (ra_reports acc) = 2"
proof -
  obtain acc s' where r: "run_nodes (sample_pipe_env (count_calls True) False) (sample_info sample_spec) [''a'', ''b''] acc_start sample_state = (Inr acc, s')"
    using sample_run_ends by blast
  have i: "ri_spec (sample_info sample_spec) = sample_spec" by (simp add: sample_info_def)
  have n: "node_names sample_spec = {''a'', ''b''}" "length (pl_nodes sample_spec) = 2"
    by (auto simp: sample_spec_def sample_node_def node_default_def spec_default_def)
  from run_respects_dependencies [of "sample_info sample_spec", unfolded i, OF sample_compiled, unfolded compiled_pipeline.simps, OF r] r n
  show ?thesis by auto
qed

theorem retry_bounded_witness:
  "\<exists>r s'. execute_action_with_retry (sample_pipe_env (count_calls False) False) ''x'' JNull retry_default sample_state = (r, s')
     \<and> 1 \<le> ps_world s' - ps_world sample_state \<and> ps_world s' - ps_world sample_state \<le> 3"
proof -
  let ?env = "sample_pipe_env (count_calls False) False"
  obtain r s' where r: "execute_action_with_retry ?env ''x'' JNull retry_default sample_state = (r, s')" by fastforce
  have "ps_world (snd (pe_execute ?env a j t)) = ps_world t + 1" "ps_world (pe_wait ?env n t) = ps_world t" for a j n t
    by (simp_all add: sample_pipe_env_def count_calls_def)
  from retry_bounded [where cnt = ps_world, OF this r] r show ?thesis by (auto simp: retry_default_def clamp_def)
qed
section \<open>Stored outputs\<close>

definition record_env_ok :: "('w, 'b) pipe_env \<Rightarrow> bool" where
  "record_env_ok env \<longleftrightarrow> codec_ok (pe_record_codec env) \<and> chrono_ok (pe_chrono env)"

lemma on_db_Inr: "on_db m s = (r, s') \<Longrightarrow> m (ps_db s) = (r, ps_db s') \<and> ps_world s' = ps_world s"
  by (auto simp: on_db_def split: prod.splits)

lemma store_idempotent_lookup:
  assumes "store_idempotent env ri n idem k output s = (Inr u, s')" and "record_env_ok env"
    and "rfc_range (pe_now env s)"
    and "rfc_range (pe_now env s + secs (int (clamp 60 2592000 (ip_ttl_secs idem))))"
  shows "\<exists>bs rec. kv_lookup (ps_db s') k = Some bs \<and> from_slice (pe_record_codec env) bs = Some rec
    \<and> ir_status rec = ''completed'' \<and> ir_output rec = output
    \<and> parse_rfc3339 (pe_chrono env) (ir_expires_at rec) = Some (pe_now env s + secs (int (clamp 60 2592000 (ip_ttl_secs idem))))"
proof -
  let ?e = "pe_now env s + secs (int (clamp 60 2592000 (ip_ttl_secs idem)))"
  let ?rec = "\<lparr>ir_pipeline = pl_name (ri_spec ri), ir_node = pn_id n, ir_status = ''completed'', ir_stored_at = now_text env s,
            ir_expires_at = to_rfc3339 (pe_chrono env) ?e, ir_output = output\<rparr>"
  have "plus_secs (pe_chrono env) (pe_now env s) (int (clamp 60 2592000 (ip_ttl_secs idem))) = Some ?e"
    using assms(2-4) by (intro chrono_plus) (simp_all add: record_env_ok_def)
  moreover obtain bs where bs: "to_vec (pe_record_codec env) ?rec = Some bs" "from_slice (pe_record_codec env) bs = Some ?rec"
    using assms(2) by (auto simp: record_env_ok_def codec_ok_def)
  ultimately have "on_db (kv_set (now_text env s) k bs) s = (Inr u, s')"
    using assms(1) by (simp add: store_idempotent_def store_def Let_def)
  then have "kv_lookup (ps_db s') k = Some bs"
    using kv.put_value [of "now_text env s" k bs "ps_db s" u "ps_db s'"] by (auto dest: on_db_Inr)
  with bs assms(2,4) show ?thesis by (auto simp: record_env_ok_def chrono_parse)
qed

lemma idempotent_output_hit:
  assumes "idempotent_output env k s = (Inr hit, s')" and "kv_lookup (ps_db s) k = Some bs"
    and "from_slice (pe_record_codec env) bs = Some rec" and "ir_status rec = ''completed''"
    and "parse_rfc3339 (pe_chrono env) (ir_expires_at rec) = Some e" and "\<And>t. ps_world t = ps_world s \<Longrightarrow> pe_now env t < e"
  shows "hit = Some (ir_output rec) \<and> ps_world s' = ps_world s"
proof -
  from assms(1) obtain raw s1 where g: "on_db (kv_get k) s = (Inr raw, s1)"
    and r: "(case Option.bind raw (from_slice (pe_record_codec env)) of
        None \<Rightarrow> (Inr None, s1)
      | Some record \<Rightarrow> (case parse_rfc3339 (pe_chrono env) (ir_expires_at record) of
          None \<Rightarrow> (Inr None, s1)
        | Some expires \<Rightarrow>
            (if pe_now env s1 < expires \<and> ir_status record = ''completed'' then (Inr (Some (ir_output record)), s1)
             else if expires \<le> pe_now env s1 then (Inr None, snd (on_db (kv_delete k) s1))
             else (Inr None, s1)))) = (Inr hit :: json option result, s')"
    unfolding idempotent_output_def by (elim bindE_InrE) (rule that)
  have "raw = Some bs" using kv_get_value [of k "ps_db s" raw "ps_db s1"] on_db_Inr [OF g] assms(2) by simp
  moreover have "ps_world s1 = ps_world s" using on_db_Inr [OF g] by simp
  ultimately show ?thesis using r assms(3-6) by auto
qed

text \<open>
  An idempotent node that was executed and stored is not executed again while its record is valid: a later
  lookup under the same key that succeeds returns the output of the first execution and leaves the world alone.
\<close>

theorem idempotent_output_kept:
  assumes "store_idempotent env ri n idem k output s = (Inr u, s1)" and "record_env_ok env"
    and "rfc_range (pe_now env s)"
    and "rfc_range (pe_now env s + secs (int (clamp 60 2592000 (ip_ttl_secs idem))))"
    and "kv_lookup (ps_db s2) k = kv_lookup (ps_db s1) k"
    and "\<And>t. ps_world t = ps_world s2 \<Longrightarrow> pe_now env t < pe_now env s + secs (int (clamp 60 2592000 (ip_ttl_secs idem)))"
    and "idempotent_output env k s2 = (Inr hit, s3)"
  shows "hit = Some output \<and> ps_world s3 = ps_world s2"
proof -
  from store_idempotent_lookup [OF assms(1-4)] obtain bs rec where
    k: "kv_lookup (ps_db s1) k = Some bs" "from_slice (pe_record_codec env) bs = Some rec" "ir_status rec = ''completed''"
    "ir_output rec = output"
    "parse_rfc3339 (pe_chrono env) (ir_expires_at rec) = Some (pe_now env s + secs (int (clamp 60 2592000 (ip_ttl_secs idem))))"
    by blast
  from idempotent_output_hit [OF assms(7) _ k(2,3,5) assms(6)] k(1,4) assms(5) show ?thesis by simp
qed
definition kept_env :: "(nat, idempotency_record) pipe_env" where
  "kept_env = \<lparr>pe_unit = id, pe_ratio_positive = (\<lambda>_. False), pe_span = (\<lambda>_ _. 0), pe_jitter = (\<lambda>_ _. 0),
     pe_wait = (\<lambda>_ s. s), pe_chrono = decimal_chrono, pe_date = (\<lambda>_. ''2025-01-01''), pe_now = (\<lambda>s. int (ps_world s)),
     pe_elapsed_ms = (\<lambda>_ _. 0), pe_show = (\<lambda>_. ''value''), pe_pretty = (\<lambda>_. ''report''), pe_parse = (\<lambda>_. None),
     pe_spec = (\<lambda>_. Inr sample_spec), pe_spec_codec = \<lparr>to_vec = (\<lambda>_. None), from_slice = (\<lambda>_. None)\<rparr>,
     pe_record_codec = one_codec, pe_value_codec = \<lparr>to_vec = (\<lambda>_. None), from_slice = (\<lambda>_. None)\<rparr>,
     pe_has_storage = True, pe_actions = (\<lambda>_ _. None), pe_execute = (\<lambda>_ _. ret ''done'')\<rparr>"

definition kept_state :: "(nat, idempotency_record) pipe_state" where
  "kept_state = \<lparr>ps_world = 0, ps_db = empty_db\<rparr>"

lemma kept_env_ok: "record_env_ok kept_env"
  by (simp add: record_env_ok_def kept_env_def one_codec_ok decimal_chrono_ok)

lemma kept_env_simps [simp]:
  "pe_now kept_env s = int (ps_world s)" "pe_date kept_env t = ''2025-01-01''"
  by (simp_all add: kept_env_def)

lemma kept_stores:
  "\<exists>s1. store_idempotent kept_env ri n idempotency_default k v kept_state = (Inr (), s1) \<and> ps_world s1 = 0 \<and> faults (ps_db s1) = []"
  by (simp add: store_idempotent_def kept_env_def kept_state_def empty_db_def idempotency_default_def clamp_def decimal_chrono_def
      rfc_range_num secs_def ns_per_sec_def store_def one_codec_def on_db_def kv_set_def)

lemma kept_looks_up:
  assumes "faults (ps_db s) = []"
  shows "\<exists>hit s'. idempotent_output kept_env k s = (Inr hit, s')"
proof -
  have "\<exists>r s'. idempotent_output kept_env k s = (r, s') \<and> (\<forall>e. r \<noteq> Inl e)"
    using assms by (simp add: idempotent_output_def kv_get_def on_db_def bindE_def split: option.split)
  then show ?thesis by (metis sum.exhaust)
qed

lemma kept_ttl: "rfc_range (0 + secs (int (clamp 60 2592000 (ip_ttl_secs idempotency_default))))" "rfc_range 0"
  "0 < secs (int (clamp 60 2592000 (ip_ttl_secs idempotency_default)))"
  by (simp_all add: rfc_range_num secs_def ns_per_sec_def clamp_def idempotency_default_def)

theorem idempotent_output_kept_witness:
  "\<exists>s1 s3. store_idempotent kept_env (sample_info sample_spec) (sample_node ''a'' []) idempotency_default ''k'' (JStr ''first'') kept_state = (Inr (), s1)
     \<and> idempotent_output kept_env ''k'' s1 = (Inr (Some (JStr ''first'')), s3)"
proof -
  obtain s1 where s1: "store_idempotent kept_env (sample_info sample_spec) (sample_node ''a'' []) idempotency_default ''k'' (JStr ''first'') kept_state = (Inr (), s1)"
    "ps_world s1 = 0" "faults (ps_db s1) = []" using kept_stores by blast
  obtain hit s3 where h: "idempotent_output kept_env ''k'' s1 = (Inr hit, s3)" using kept_looks_up [OF s1(3)] by blast
  have z: "pe_now kept_env kept_state = 0" by (simp add: kept_state_def)
  have "hit = Some (JStr ''first'')"
    using idempotent_output_kept [OF s1(1) kept_env_ok _ _ refl _ h] kept_ttl s1(2) unfolding z by simp
  with s1(1) h show ?thesis by blast
qed

section \<open>Colliding names\<close>

lemma replace_plain: "CHR ''{'' \<notin> set s \<Longrightarrow> replace_str (template_token k) v s = s"
  by (induction s) (auto simp: template_token_def)

text \<open>The key of a node without dependencies, in a run without a given context, under the default template.\<close>

lemma default_key:
  assumes "ri_spec ri = spec" and "ri_context ri = pipeline_context env spec None s0" and "pn_depends_on n = []"
    and plain: "CHR ''{'' \<notin> set (pl_name spec)" "CHR ''{'' \<notin> set (pn_id n)" "CHR ''{'' \<notin> set (pe_date env (pe_now env s0))"
  shows "idempotency_key ri n (node_context env ri n acc) idempotency_default
    = ''pipeline:idem:'' @ pl_name spec @ '':'' @ pn_id n @ '':'' @ pe_date env (pe_now env s0)"
proof -
  let ?d = "pe_date env (pe_now env s0)" and ?i = "pn_id n" and ?p = "pl_name spec"
  have c: "ctx_insert ''node'' ?i (ctx_insert ''pipeline'' ?p (node_context env ri n acc))
      = [(''date'', ?d), (''node'', ?i), (''pipeline'', ?p), (''timestamp'', now_text env s0)]"
    using assms(1-3) by (simp add: node_context_def pipeline_context_def context_map_from_json_def)
  have d: "replace_str (template_token ''date'') ?d ''{{pipeline}}:{{node}}:{{date}}'' = ''{{pipeline}}:{{node}}:'' @ ?d"
    by (simp add: template_token_def)
  have i: "replace_str (template_token ''node'') ?i (''{{pipeline}}:{{node}}:'' @ ?d) = ''{{pipeline}}:'' @ ?i @ '':'' @ ?d"
    using replace_plain [OF plain(3), of "''node''" ?i] by (simp add: template_token_def)
  have p: "replace_str (template_token ''pipeline'') ?p (''{{pipeline}}:'' @ ?i @ '':'' @ ?d) = ?p @ '':'' @ ?i @ '':'' @ ?d"
    using replace_plain [of "'':'' @ ?i @ '':'' @ ?d" "''pipeline''" ?p] plain by (simp add: template_token_def)
  have t: "replace_str (template_token ''timestamp'') v (?p @ '':'' @ ?i @ '':'' @ ?d) = ?p @ '':'' @ ?i @ '':'' @ ?d" for v
    by (rule replace_plain) (use plain in simp)
  show ?thesis
    using assms(1) c by (simp add: idempotency_key_def render_template_def idempotency_default_def d [simplified] i [simplified] p [simplified] t [simplified])
qed
text \<open>
  C40. Under the default template the key joins the pipeline and the node by a colon: a node of another pipeline
  whose joined names read the same is not executed that day but given the first node's output.
\<close>

theorem colliding_nodes_share_output:
  assumes "ri_context ri1 = pipeline_context env (ri_spec ri1) None sa" and "ri_context ri2 = pipeline_context env (ri_spec ri2) None sb"
    and "pn_depends_on n1 = []" and "pn_depends_on n2 = []"
    and "pe_date env (pe_now env sa) = pe_date env (pe_now env sb)" and "CHR ''{'' \<notin> set (pe_date env (pe_now env sb))"
    and "CHR ''{'' \<notin> set (pl_name (ri_spec ri1) @ pn_id n1 @ pl_name (ri_spec ri2) @ pn_id n2)"
    and "pl_name (ri_spec ri1) @ '':'' @ pn_id n1 = pl_name (ri_spec ri2) @ '':'' @ pn_id n2"
    and "store_idempotent env ri1 n1 idempotency_default (idempotency_key ri1 n1 (node_context env ri1 n1 acc1) idempotency_default) output sa = (Inr u, s1)"
    and "record_env_ok env" and "rfc_range (pe_now env sa)" and "rfc_range (pe_now env sa + secs 86400)"
    and "\<And>t. ps_world t = ps_world s1 \<Longrightarrow> pe_now env t < pe_now env sa + secs 86400"
    and "idempotent_output env (idempotency_key ri2 n2 (node_context env ri2 n2 acc2) idempotency_default) s1 = (Inr hit, s2)"
  shows "hit = Some output \<and> ps_world s2 = ps_world s1"
proof -
  have k: "idempotency_key ri1 n1 (node_context env ri1 n1 acc1) idempotency_default
    = idempotency_key ri2 n2 (node_context env ri2 n2 acc2) idempotency_default"
    using assms(7,8) default_key [OF refl assms(1,3) _ _ assms(6) [folded assms(5)]] default_key [OF refl assms(2,4) _ _ assms(6)] assms(5)
    by simp
  have t: "secs (int (clamp 60 2592000 (ip_ttl_secs idempotency_default))) = secs 86400"
    by (simp add: clamp_def idempotency_default_def)
  from store_idempotent_lookup [OF assms(9-11)] assms(12) obtain bs rec where
    r: "kv_lookup (ps_db s1) (idempotency_key ri1 n1 (node_context env ri1 n1 acc1) idempotency_default) = Some bs"
      "from_slice (pe_record_codec env) bs = Some rec" "ir_status rec = ''completed''" "ir_output rec = output"
      "parse_rfc3339 (pe_chrono env) (ir_expires_at rec) = Some (pe_now env sa + secs 86400)"
    unfolding t by blast
  from idempotent_output_hit [OF assms(14) r(1) [unfolded k] r(2,3,5) assms(13)] r(4) show ?thesis by simp
qed

definition colliding_info :: "string \<Rightarrow> run_info" where
  "colliding_info p = \<lparr>ri_spec = spec_default\<lparr>pl_name := p\<rparr>, ri_run_id = ''r'', ri_started_at = ''0'',
     ri_context = pipeline_context kept_env (spec_default\<lparr>pl_name := p\<rparr>) None kept_state, ri_allow_privileged = True\<rparr>"

theorem colliding_nodes_share_output_witness:
  "\<exists>s1 s2. store_idempotent kept_env (colliding_info ''mail'') (sample_node ''eu:send'' []) idempotency_default
       (idempotency_key (colliding_info ''mail'') (sample_node ''eu:send'' [])
         (node_context kept_env (colliding_info ''mail'') (sample_node ''eu:send'' []) acc_start) idempotency_default) (JStr ''sent'') kept_state = (Inr (), s1)
     \<and> idempotent_output kept_env (idempotency_key (colliding_info ''mail:eu'') (sample_node ''send'' [])
         (node_context kept_env (colliding_info ''mail:eu'') (sample_node ''send'' []) acc_start) idempotency_default) s1 = (Inr (Some (JStr ''sent'')), s2)"
proof -
  let ?k1 = "idempotency_key (colliding_info ''mail'') (sample_node ''eu:send'' [])
         (node_context kept_env (colliding_info ''mail'') (sample_node ''eu:send'' []) acc_start) idempotency_default"
  let ?k2 = "idempotency_key (colliding_info ''mail:eu'') (sample_node ''send'' [])
         (node_context kept_env (colliding_info ''mail:eu'') (sample_node ''send'' []) acc_start) idempotency_default"
  obtain s1 where s1: "store_idempotent kept_env (colliding_info ''mail'') (sample_node ''eu:send'' []) idempotency_default ?k1 (JStr ''sent'') kept_state = (Inr (), s1)"
    "ps_world s1 = 0" "faults (ps_db s1) = []" using kept_stores by blast
  obtain hit s2 where h: "idempotent_output kept_env ?k2 s1 = (Inr hit, s2)" using kept_looks_up [OF s1(3)] by blast
  have z: "pe_now kept_env kept_state = 0" by (simp add: kept_state_def)
  have c: "ri_context (colliding_info p) = pipeline_context kept_env (ri_spec (colliding_info p)) None kept_state"
    "pl_name (ri_spec (colliding_info p)) = p" for p by (simp_all add: colliding_info_def spec_default_def)
  have i: "pn_depends_on (sample_node i []) = []" "pn_id (sample_node i []) = i" for i
    by (simp_all add: sample_node_def node_default_def)
  have "hit = Some (JStr ''sent'')"
    using colliding_nodes_share_output [OF c(1) c(1) i(1) i(1) refl _ _ _ s1(1) kept_env_ok _ _ _ h] s1(2)
    unfolding z c(2) i(2) by (simp add: rfc_range_num secs_def ns_per_sec_def)
  with s1(1) h show ?thesis by blast
qed

section \<open>Runs without a record\<close>

lemma run_nodes_append:
  "run_nodes env ri (xs @ ys) acc = bindE (run_nodes env ri xs acc) (run_nodes env ri ys)"
proof (induction xs arbitrary: acc)
  case (Cons x xs)
  from Cons.IH have "run_nodes env ri (xs @ ys) = (\<lambda>acc. bindE (run_nodes env ri xs acc) (run_nodes env ri ys))" by (rule ext)
  then show ?case by (cases "node_by_id (ri_spec ri) x") (simp_all add: bindE_assoc)
qed simp

text \<open>
  A nested pipeline is not found when a pipeline is compiled but when its turn comes: what its predecessors
  did has happened, the run ends with an error, and the state is left as they left it, without a record of the run.
\<close>

theorem nested_pipeline_leaves_no_record:
  assumes "requested_spec env arguments s = (Inr spec, s0)" and "compile_pipeline spec = Some (Inr c)" and "\<not> flag ''dry_run'' arguments"
    and "cp_ordered_nodes c = xs @ i # ys" and "node_by_id spec i = Some n"
    and "node_action n = ''pipeline_run'' \<or> node_action n = ''pipeline_compile''"
    and "run_nodes env \<lparr>ri_spec = spec, ri_run_id = run_id, ri_started_at = now_text env s0,
           ri_context = pipeline_context env spec (json_get ''context'' arguments) s0, ri_allow_privileged = flag ''allow_privileged'' arguments\<rparr>
         xs acc_start s0 = (Inr acc, s1)"
    and "set (pn_depends_on n) \<inter> set (ra_failed acc) = {}"
  shows "execute_pipeline_run env run_id arguments s
    = (Inl (Err (''Node '' @ in_quotes (pn_id n) @ '' uses forbidden nested orchestration action '' @ in_quotes (node_action n))), s1)"
proof -
  let ?ri = "\<lparr>ri_spec = spec, ri_run_id = run_id, ri_started_at = now_text env s0,
           ri_context = pipeline_context env spec (json_get ''context'' arguments) s0, ri_allow_privileged = flag ''allow_privileged'' arguments\<rparr>"
  let ?e = "Err (''Node '' @ in_quotes (pn_id n) @ '' uses forbidden nested orchestration action '' @ in_quotes (node_action n))"
  have "trim (node_action n) \<noteq> []"
    using assms(6) by (auto simp: trim_no_ws is_ws_def simp del: node_action.simps)
  moreover have "find (\<lambda>dep. dep \<in> set (ra_failed acc)) (pn_depends_on n) = None"
    using assms(8) by (auto simp: find_None)
  ultimately have "run_node env ?ri n acc s1 = (Inl ?e, s1)"
    using assms(6) by (simp add: run_node_def Let_def del: node_action.simps)
  then have "run_nodes env ?ri (cp_ordered_nodes c) acc_start s0 = (Inl ?e, s1)"
    using assms(5,7) by (simp add: assms(4) run_nodes_append del: node_action.simps)
  then show ?thesis
    using assms(1-3) by (simp add: execute_pipeline_run_def compiled_def acc_start_def Let_def del: node_action.simps)
qed
definition nested_spec :: pipeline_spec where
  "nested_spec = spec_default\<lparr>pl_name := ''brief'',
     pl_nodes := [sample_node ''a'' [], (sample_node ''b'' [''a''])\<lparr>pn_action := ''pipeline_run''\<rparr>]\<rparr>"

definition nested_env :: "(nat, json) pipe_env" where
  "nested_env = (sample_pipe_env (count_calls True) False)\<lparr>pe_spec := (\<lambda>_. Inr nested_spec)\<rparr>"

definition nested_arguments :: json where
  "nested_arguments = JObj [(''allow_privileged'', JBool True), (''spec'', JNull)]"

lemma nested_compiled:
  "compile_pipeline nested_spec = Some (Inr \<lparr>cp_name = ''brief'', cp_ordered_nodes = [''a'', ''b''], cp_warnings = [], cp_node_count = 2\<rparr>)"
  by (simp add: compile_pipeline_def nested_spec_def sample_node_def node_default_def spec_default_def trim_no_ws is_ws_def
      topo_loop.simps entry_or_def output_warnings_def)

lemma nested_first_node:
  "\<exists>acc. run_nodes nested_env \<lparr>ri_spec = nested_spec, ri_run_id = r, ri_started_at = t, ri_context = ctx, ri_allow_privileged = True\<rparr>
       [''a''] acc_start sample_state = (Inr acc, sample_state\<lparr>ps_world := 1\<rparr>) \<and> ra_failed acc = []"
  by (simp add: nested_spec_def sample_node_def node_default_def spec_default_def node_by_id_def run_node_def
      nested_env_def sample_pipe_env_def count_calls_def execute_node_def execute_action_with_retry_def retry_attempts.simps acc_start_def
      trim_no_ws is_ws_def Let_def sample_state_def)

theorem nested_pipeline_leaves_no_record_witness:
  "\<exists>e. execute_pipeline_run nested_env ''r'' nested_arguments sample_state = (Inl e, sample_state\<lparr>ps_world := 1\<rparr>)"
proof -
  have r: "requested_spec nested_env nested_arguments sample_state = (Inr nested_spec, sample_state)"
    by (simp add: requested_spec_def nested_arguments_def nested_env_def)
  have f: "\<not> flag ''dry_run'' nested_arguments" "flag ''allow_privileged'' nested_arguments"
    by (simp_all add: flag_def nested_arguments_def)
  let ?n = "(sample_node ''b'' [''a''])\<lparr>pn_action := ''pipeline_run''\<rparr>"
  have n: "node_by_id nested_spec ''b'' = Some ?n" "node_action ?n = ''pipeline_run'' \<or> node_action ?n = ''pipeline_compile''"
    by (simp_all add: node_by_id_def nested_spec_def sample_node_def node_default_def spec_default_def)
  obtain acc where a: "run_nodes nested_env \<lparr>ri_spec = nested_spec, ri_run_id = ''r'', ri_started_at = now_text nested_env sample_state,
       ri_context = pipeline_context nested_env nested_spec (json_get ''context'' nested_arguments) sample_state,
       ri_allow_privileged = flag ''allow_privileged'' nested_arguments\<rparr>
       [''a''] acc_start sample_state = (Inr acc, sample_state\<lparr>ps_world := 1\<rparr>)" "set (pn_depends_on ?n) \<inter> set (ra_failed acc) = {}"
    using nested_first_node f(2) by force
  show ?thesis
    using nested_pipeline_leaves_no_record [OF r nested_compiled f(1) _ n a, of "[]"] by simp
qed

section \<open>Errors with numbers in them\<close>

lemma find_append: "find P (xs @ ys) = (case find P xs of None \<Rightarrow> find P ys | Some x \<Rightarrow> Some x)"
  by (induction xs) auto

lemma length_show_nat:
  "n < 10 \<Longrightarrow> length (show_nat n) = 1"
  "\<not> n < 10 \<Longrightarrow> length (show_nat n) = length (show_nat (n div 10)) + 1"
  by (simp_all add: show_nat.simps [of n])

text \<open>
  Whether an error is worth a retry is read off the first group of three digits in its text, before its words:
  any number from 100 to 599, a duration or a count, decides as if it were the status of a response.
\<close>

theorem number_taken_for_status:
  assumes "\<forall>ch \<in> set before. \<not> is_digit ch" and "100 \<le> n" and "n \<le> 599" and "after = [] \<or> \<not> is_digit (hd after)"
  shows "is_retryable_error (before @ show_nat n @ after) p \<longleftrightarrow> n \<in> set (rp_retry_on_status p)"
proof -
  let ?sep = "\<lambda>c. \<not> is_digit c" and ?ok = "\<lambda>w. length w = 3 \<and> (case read_nat w of Some code \<Rightarrow> 100 \<le> code \<and> code \<le> 599 | None \<Rightarrow> False)"
  have d: "\<forall>c \<in> set (show_nat n). \<not> ?sep c" using show_nat_digits [of n] by (simp add: list_all_iff)
  have l: "length (show_nat n) = 3"
  proof -
    have "\<not> n < 10" "\<not> n div 10 < 10" "n div 10 div 10 < 10" using assms(2,3) by (simp_all add: div_less_iff_less_mult not_less less_eq_div_iff_mult_less_eq)
    then show ?thesis by (simp add: length_show_nat(2) [of n] length_show_nat(2) [of "n div 10"] length_show_nat(1) del: div_mult2_eq)
  qed
  have tl: "\<exists>ws. split_on ?sep (show_nat n @ after) = show_nat n # ws"
  proof (cases after)
    case Nil
    then show ?thesis using split_on_word [OF d] by simp
  next
    case (Cons a as)
    then show ?thesis using split_on_append [where P = ?sep, OF d] assms(4) by simp
  qed
  have "\<exists>es ws. split_on ?sep (before @ show_nat n @ after) = es @ show_nat n # ws \<and> (\<forall>e \<in> set es. e = [])"
    using assms(1)
  proof (induction before)
    case Nil
    with tl show ?case by fastforce
  next
    case (Cons b bs)
    then obtain es ws where "split_on ?sep (bs @ show_nat n @ after) = es @ show_nat n # ws" "\<forall>e \<in> set es. e = []" by auto
    with Cons.prems show ?case by (intro exI [of _ "[] # es"] exI [of _ ws]) simp
  qed
  then obtain es ws where s: "split_on ?sep (before @ show_nat n @ after) = es @ show_nat n # ws" "\<forall>e \<in> set es. e = []" by blast
  have "find ?ok es = None" using s(2) by (auto simp: find_None)
  then have "extract_status_code (before @ show_nat n @ after) = Some n"
    using assms(2,3) l by (simp add: extract_status_code_def s(1) find_append)
  then show ?thesis by (simp add: is_retryable_error_def)
qed

theorem number_taken_for_status_witness:
  "\<not> is_retryable_error (''timed out after '' @ show_nat 300 @ '' ms'') retry_default
   \<and> is_retryable_error (''permission denied, request '' @ show_nat 503) retry_default"
  using number_taken_for_status [of "''timed out after ''" 300 "'' ms''" retry_default]
    number_taken_for_status [of "''permission denied, request ''" 503 "[]" retry_default]
  by (simp add: is_digit_def retry_default_def default_retry_statuses_def)
section \<open>Saved pipelines\<close>

text \<open>
  A pipeline that was compiled is saved, and loading it by a name gives it back; the name counts only through
  its slug, so any pipeline of the same slug is replaced.
\<close>

theorem saved_pipeline_roundtrip:
  assumes "json_get ''spec'' arguments = Some v" and "pe_spec env v = Inr spec" and "json_get ''save'' arguments = None"
    and "pe_has_storage env" and "codec_ok (pe_spec_codec env)" and "execute_pipeline_compile env arguments s = (Inr out, s1)"
    and "pipeline_key_slug name = pipeline_key_slug (pl_name spec)" and "load_saved_pipeline_spec env name s1 = (Inr found, s2)"
  shows "found = spec \<and> (\<exists>c. compile_pipeline spec = Some (Inr c))"
proof -
  obtain bs where bs: "to_vec (pe_spec_codec env) spec = Some bs" "from_slice (pe_spec_codec env) bs = Some spec"
    using assms(5) by (auto simp: codec_ok_def)
  from assms(1-4,6) obtain c where c: "compiled spec = Inr c"
    by (cases "compiled spec") (auto simp: execute_pipeline_compile_def)
  with assms(1-4,6) bs(1) obtain u where "on_db (kv_set (now_text env s) (spec_key (pl_name spec)) bs) s = (Inr u, s1)"
    by (auto simp: execute_pipeline_compile_def store_def Let_def elim!: bindE_InrE)
  then have "kv_lookup (ps_db s1) (spec_key name) = Some bs"
    using kv.put_value [of "now_text env s" "spec_key (pl_name spec)" bs "ps_db s" u "ps_db s1"] assms(7)
    by (auto simp: spec_key_def dest: on_db_Inr)
  moreover from assms(4,8) obtain raw s3 where "on_db (kv_get (spec_key name)) s1 = (Inr raw, s3)"
    and "raw = Some x \<Longrightarrow> from_slice (pe_spec_codec env) x = Some found" for x
    by (auto simp: load_saved_pipeline_spec_def elim!: bindE_InrE split: option.splits)
  ultimately have "found = spec" using bs(2) kv_get_value [of "spec_key name" "ps_db s1" raw "ps_db s3"] by (auto dest: on_db_Inr)
  with c show ?thesis by (auto simp: compiled_def split: option.splits)
qed

definition saving_env :: "(nat, pipeline_spec) pipe_env" where
  "saving_env = (sample_pipe_env (\<lambda>_ _. ret ''done'') True)\<lparr>pe_spec_codec := one_codec, pe_spec := (\<lambda>_. Inr (sample_spec\<lparr>pl_name := ''Daily Brief''\<rparr>))\<rparr>"

theorem saved_pipeline_roundtrip_witness:
  "\<exists>s1 s2 out. execute_pipeline_compile saving_env (JObj [(''spec'', JNull)]) \<lparr>ps_world = 0, ps_db = empty_db\<rparr> = (Inr out, s1)
     \<and> load_saved_pipeline_spec saving_env ''daily_brief'' s1 = (Inr (sample_spec\<lparr>pl_name := ''Daily Brief''\<rparr>), s2)"
proof -
  let ?spec = "sample_spec\<lparr>pl_name := ''Daily Brief''\<rparr>" and ?a = "JObj [(''spec'', JNull)]"
  have s: "pe_spec saving_env JNull = Inr ?spec" "pe_has_storage saving_env" "codec_ok (pe_spec_codec saving_env)"
    "pe_spec_codec saving_env = one_codec"
    by (simp_all add: saving_env_def sample_pipe_env_def one_codec_ok)
  have t: "trim ''Daily Brief'' \<noteq> []" by (simp add: trim_def trim_start_def trim_end_def is_ws_def)
  have c: "compile_pipeline ?spec = Some (Inr \<lparr>cp_name = ''Daily Brief'', cp_ordered_nodes = [''a'', ''b''], cp_warnings = [], cp_node_count = 2\<rparr>)"
    using t by (simp add: compile_pipeline_def sample_spec_def sample_node_def node_default_def spec_default_def trim_no_ws is_ws_def
      topo_loop.simps entry_or_def output_warnings_def)
  have "char_of (100 :: nat) = CHR ''d''" "char_of (98 :: nat) = CHR ''b''" by code_simp+
  then have slug: "pipeline_key_slug ''daily_brief'' = pipeline_key_slug (pl_name ?spec)"
    by (simp add: pipeline_key_slug_def alnum_def is_lower_def is_upper_def is_digit_def lower_char_def)
  obtain out s1 where w: "execute_pipeline_compile saving_env ?a \<lparr>ps_world = 0, ps_db = empty_db\<rparr> = (Inr out, s1)" "faults (ps_db s1) = []"
    "map_option kv_value (tables (ps_db s1) (spec_key ''Daily Brief'')) = Some [?spec]"
    using s c by (simp add: execute_pipeline_compile_def compiled_def store_def on_db_def kv_set_def empty_db_def one_codec_def kv_upsert_def)
  obtain r s2 where l: "load_saved_pipeline_spec saving_env ''daily_brief'' s1 = (r, s2)" by fastforce
  have k: "spec_key ''daily_brief'' = spec_key ''Daily Brief''" using slug by (simp add: spec_key_def)
  have "\<exists>found. r = Inr found"
    using l w(2,3) s(2,4) by (auto simp: load_saved_pipeline_spec_def on_db_def kv_get_def k one_codec_def split: option.splits)
  then obtain found where r: "r = Inr found" ..
  have "found = ?spec"
    using saved_pipeline_roundtrip [OF _ s(1) _ s(2,3) w(1) slug l [unfolded r]] by simp
  with w(1) l r show ?thesis by blast
qed

end
