(* ===== verification/Network_Guard.thy ===== *)
theory Network_Guard
  imports Json_Value Text_Pieces
begin

text \<open>
  What a request may be sent to: the address classes and URL checks of \<open>core/runtime/network/net.rs\<close>, the client
  that follows redirects, and the guard of tool arguments (\<open>security/guards/tool\_args\_guard.rs\<close>).

  URL parsing, joining and printing, name resolution and the HTTP exchange are parameters (\<open>net\_env\<close>).
  A resolution is an event: the answer may depend on how many came before. The HTTP client
  resolves the name again when it connects, so a request is recorded with the addresses of that second answer.
\<close>

section \<open>Addresses\<close>

datatype ip_addr = V4 "32 word" | V6 "128 word"

text \<open>The octets of an IPv4 address and the first segment of an IPv6 address.\<close>

definition octet :: "nat \<Rightarrow> 32 word \<Rightarrow> nat" where
  "octet i a = unat (take_bit 8 (drop_bit (8 * (3 - i)) a))"

definition segment0 :: "128 word \<Rightarrow> 128 word" where
  "segment0 a = drop_bit 112 a"

definition v4_is_private :: "32 word \<Rightarrow> bool" where
  "v4_is_private a \<longleftrightarrow> octet 0 a = 10 \<or> (octet 0 a = 172 \<and> 16 \<le> octet 1 a \<and> octet 1 a \<le> 31)
     \<or> (octet 0 a = 192 \<and> octet 1 a = 168)"

definition v4_is_documentation :: "32 word \<Rightarrow> bool" where
  "v4_is_documentation a \<longleftrightarrow> (octet 0 a = 192 \<and> octet 1 a = 0 \<and> octet 2 a = 2)
     \<or> (octet 0 a = 198 \<and> octet 1 a = 51 \<and> octet 2 a = 100) \<or> (octet 0 a = 203 \<and> octet 1 a = 0 \<and> octet 2 a = 113)"

fun is_private_or_local_ip :: "ip_addr \<Rightarrow> bool" where
  "is_private_or_local_ip (V4 a) \<longleftrightarrow> v4_is_private a \<or> octet 0 a = 127
     \<or> (octet 0 a = 169 \<and> octet 1 a = 254) \<or> a = 0xFFFFFFFF \<or> v4_is_documentation a \<or> a = 0
     \<or> octet 0 a = 0 \<or> (octet 0 a = 169 \<and> octet 1 a = 254)"
| "is_private_or_local_ip (V6 a) \<longleftrightarrow> a = 1 \<or> a = 0 \<or> drop_bit 8 (segment0 a) = 0xFF
     \<or> and (segment0 a) 0xFFC0 = 0xFE80 \<or> and (segment0 a) 0xFE00 = 0xFC00"

definition ends_with :: "string \<Rightarrow> string \<Rightarrow> bool" where
  "ends_with s suffix \<longleftrightarrow> prefix_of (rev suffix) (rev s)"

definition host_text :: "string \<Rightarrow> string" where
  "host_text h = ascii_lower (trim_end_matches (\<lambda>c. c = CHR ''.'') (trim h))"

definition is_disallowed_public_hostname :: "string \<Rightarrow> bool" where
  "is_disallowed_public_hostname host = (let normalized = host_text host in
     normalized = [] \<or> normalized = ''localhost'' \<or> ends_with normalized ''.localhost'' \<or> ends_with normalized ''.local''
     \<or> normalized = ''0.0.0.0'' \<or> normalized = ''[::]'')"

section \<open>URLs\<close>

datatype url_host = HostDomain string | HostIpv4 "32 word" | HostIpv6 "128 word"

record url =
  ur_scheme :: string
  ur_username :: string
  ur_password :: "string option"
  ur_host :: "url_host option"
  ur_port :: "nat option"
  ur_rest :: string

record net_state =
  ns_resolved :: nat
  ns_sent :: "(url \<times> ip_addr list option) list"

record reply =
  re_redirection :: bool
  re_location :: "string option"
  re_body :: string

record net_env =
  ne_parse :: "string \<Rightarrow> url option"
  ne_join :: "url \<Rightarrow> string \<Rightarrow> url option"
  ne_text :: "url \<Rightarrow> string"
  ne_host_text :: "url_host \<Rightarrow> string"
  ne_resolve :: "nat \<Rightarrow> string \<Rightarrow> nat \<Rightarrow> ip_addr list option"
  ne_exchange :: "nat \<Rightarrow> url \<Rightarrow> string + reply"

definition lookup_host :: "net_env \<Rightarrow> string \<Rightarrow> nat \<Rightarrow> net_state \<Rightarrow> ip_addr list option \<times> net_state" where
  "lookup_host env domain port s = (ne_resolve env (ns_resolved s) domain port, s\<lparr>ns_resolved := ns_resolved s + 1\<rparr>)"

definition has_userinfo :: "url \<Rightarrow> bool" where
  "has_userinfo u \<longleftrightarrow> ur_username u \<noteq> [] \<or> ur_password u \<noteq> None"

definition validate_no_userinfo :: "url \<Rightarrow> (net_state, unit) io" where
  "validate_no_userinfo u = (if has_userinfo u then fail (Err ''Userinfo is not allowed in external URLs'') else ret ())"

text \<open>The part on the host, which \<open>validate_public_url_host\<close> and \<open>validate_public_https_url\<close> both have.\<close>

definition check_host :: "net_env \<Rightarrow> url_host \<Rightarrow> nat \<Rightarrow> (net_state, unit) io" where
  "check_host env host port = (case host of
     HostDomain domain \<Rightarrow>
       (if is_disallowed_public_hostname domain then fail (Err ''Disallowed public host'')
        else (\<lambda>s. case lookup_host env domain port s of
           (None, s1) \<Rightarrow> (Inl (Err ''Failed to resolve host''), s1)
         | (Some addrs, s1) \<Rightarrow>
             (if list_ex is_private_or_local_ip addrs then (Inl (Err ''URL resolves to a private or local IP''), s1)
              else if addrs = [] then (Inl (Err ''Failed to resolve host''), s1)
              else (Inr (), s1))))
   | HostIpv4 a \<Rightarrow> (if is_private_or_local_ip (V4 a) then fail (Err ''URL IP is private or local'') else ret ())
   | HostIpv6 a \<Rightarrow> (if is_private_or_local_ip (V6 a) then fail (Err ''URL IP is private or local'') else ret ()))"

definition port_or_known_default :: "url \<Rightarrow> nat option" where
  "port_or_known_default u = (case ur_port u of Some p \<Rightarrow> Some p | None \<Rightarrow>
     (if ur_scheme u = ''https'' \<or> ur_scheme u = ''wss'' then Some 443
      else if ur_scheme u = ''http'' \<or> ur_scheme u = ''ws'' then Some 80
      else if ur_scheme u = ''ftp'' then Some 21 else None))"

definition effective_port :: "url \<Rightarrow> nat" where
  "effective_port u = (case port_or_known_default u of Some p \<Rightarrow> p | None \<Rightarrow> 443)"

definition validate_public_url_host :: "net_env \<Rightarrow> url \<Rightarrow> (net_state, unit) io" where
  "validate_public_url_host env u = (case ur_host u of
     None \<Rightarrow> fail (Err ''URL must include a host'')
   | Some host \<Rightarrow> (if effective_port u = 8990
       then fail (Err ''AgentArk control ports are not valid external extension endpoints'')
       else check_host env host (effective_port u)))"

definition validate_public_url :: "net_env \<Rightarrow> string \<Rightarrow> (net_state, url) io" where
  "validate_public_url env raw = (case ne_parse env raw of
     None \<Rightarrow> fail (Err ''Invalid URL'')
   | Some u \<Rightarrow>
      (if ur_scheme u = ''http'' \<or> ur_scheme u = ''https''
       then bindE (validate_no_userinfo u) (\<lambda>_. bindE (validate_public_url_host env u) (\<lambda>_. ret u))
       else fail (Err ''Only HTTP(S) URLs are supported'')))"

definition validate_external_https_url :: "net_env \<Rightarrow> string \<Rightarrow> (net_state, url) io" where
  "validate_external_https_url env raw = (case ne_parse env raw of
     None \<Rightarrow> fail (Err ''Invalid URL'')
   | Some u \<Rightarrow>
      (if ur_scheme u \<noteq> ''https'' then fail (Err ''Only HTTPS URLs are supported for external extensions'')
       else bindE (validate_no_userinfo u) (\<lambda>_. bindE (validate_public_url_host env u) (\<lambda>_. ret u))))"

definition validate_public_https_url :: "net_env \<Rightarrow> string \<Rightarrow> (net_state, url) io" where
  "validate_public_https_url env raw = (case ne_parse env raw of
     None \<Rightarrow> fail (Err ''Invalid URL'')
   | Some u \<Rightarrow>
      (if ur_scheme u \<noteq> ''https'' then fail (Err ''Only HTTPS URLs are supported'')
       else if has_userinfo u then fail (Err ''Userinfo is not allowed in public URLs'')
       else if (case ur_port u of Some p \<Rightarrow> p \<noteq> 443 | None \<Rightarrow> False) then fail (Err ''Only port 443 is allowed in public URLs'')
       else (case ur_host u of
          None \<Rightarrow> fail (Err ''URL must include a host'')
        | Some host \<Rightarrow> bindE (check_host env host 443) (\<lambda>_. ret u))))"

section \<open>Following redirects\<close>

text \<open>A request: the client resolves the host and exchanges one request and response.\<close>

definition connect_addresses :: "net_env \<Rightarrow> url \<Rightarrow> net_state \<Rightarrow> ip_addr list option \<times> net_state" where
  "connect_addresses env u s = (case ur_host u of
     Some (HostDomain d) \<Rightarrow> lookup_host env d (effective_port u) s
   | Some (HostIpv4 a) \<Rightarrow> (Some [V4 a], s) | Some (HostIpv6 a) \<Rightarrow> (Some [V6 a], s) | None \<Rightarrow> (None, s))"

definition send_request :: "net_env \<Rightarrow> url \<Rightarrow> (net_state, reply) io" where
  "send_request env u s = (case connect_addresses env u s of (addrs, s1) \<Rightarrow>
     (case ne_exchange env (length (ns_sent s1)) u of
        Inl e \<Rightarrow> (Inl (Err e), s1\<lparr>ns_sent := ns_sent s1 @ [(u, addrs)]\<rparr>)
      | Inr r \<Rightarrow> (Inr r, s1\<lparr>ns_sent := ns_sent s1 @ [(u, addrs)]\<rparr>)))"

fun follow :: "net_env \<Rightarrow> nat \<Rightarrow> url \<Rightarrow> (net_state, reply) io" where
  "follow env 0 u = fail (Err ''Too many redirects'')"
| "follow env (Suc k) u = bindE (send_request env u) (\<lambda>response.
     if re_redirection response then (case re_location response of
        None \<Rightarrow> fail (Err ''Redirect missing Location header'')
      | Some location \<Rightarrow> (case ne_join env u location of
          None \<Rightarrow> fail (Err ''Invalid redirect URL'')
        | Some next_url \<Rightarrow> bindE (validate_public_url env (ne_text env next_url)) (follow env k)))
     else ret response)"

definition public_get_follow_redirects :: "net_env \<Rightarrow> string \<Rightarrow> nat \<Rightarrow> (net_state, reply) io" where
  "public_get_follow_redirects env raw_url max_redirects =
     bindE (validate_public_url env raw_url) (follow env (max_redirects + 1))"

section \<open>The guard of tool arguments\<close>

definition normalized_entries :: "string list \<Rightarrow> string list" where
  "normalized_entries host_whitelist = filter (\<lambda>v. v \<noteq> []) (map host_text host_whitelist)"

definition contains_host :: "string list \<Rightarrow> string \<Rightarrow> bool" where
  "contains_host host_whitelist host = (let needle = host_text host in
     needle \<noteq> [] \<and> list_ex (\<lambda>entry. needle = entry \<or> ends_with needle (CHR ''.'' # entry)) (normalized_entries host_whitelist))"

datatype guard_denial = DisallowedHostname | PrivateOrLocalIp | DnsResolutionFailed | InvalidUrl | SchemeNotHttps
  | UserinfoNotAllowed | NonStandardPort | HostMissing

fun reason_code :: "guard_denial \<Rightarrow> string" where
  "reason_code DisallowedHostname = ''disallowed_hostname''"
| "reason_code PrivateOrLocalIp = ''private_or_local_ip''"
| "reason_code DnsResolutionFailed = ''dns_resolution_failed''"
| "reason_code InvalidUrl = ''invalid_url''"
| "reason_code SchemeNotHttps = ''scheme_not_https''"
| "reason_code UserinfoNotAllowed = ''userinfo_not_allowed''"
| "reason_code NonStandardPort = ''non_standard_port''"
| "reason_code HostMissing = ''host_missing''"

text \<open>Why a host that is not on the list is denied, for the log; a name is resolved once more for it.\<close>

definition classify_denial :: "net_env \<Rightarrow> url_host \<Rightarrow> net_state \<Rightarrow> guard_denial \<times> net_state" where
  "classify_denial env host s = (case host of
     HostDomain domain \<Rightarrow>
       (if is_disallowed_public_hostname domain then (DisallowedHostname, s)
        else (case lookup_host env domain 443 s of
           (None, s1) \<Rightarrow> (DnsResolutionFailed, s1)
         | (Some addrs, s1) \<Rightarrow> (if list_ex is_private_or_local_ip addrs then (PrivateOrLocalIp, s1)
              else if addrs = [] then (DnsResolutionFailed, s1) else (DisallowedHostname, s1))))
   | HostIpv4 a \<Rightarrow> (if is_private_or_local_ip (V4 a) then PrivateOrLocalIp else InvalidUrl, s)
   | HostIpv6 a \<Rightarrow> (if is_private_or_local_ip (V6 a) then PrivateOrLocalIp else InvalidUrl, s))"

definition check_outward_url :: "net_env \<Rightarrow> string list \<Rightarrow> string \<Rightarrow> net_state \<Rightarrow> (guard_denial + url) \<times> net_state" where
  "check_outward_url env whitelist raw_url s = (case validate_public_https_url env raw_url s of
     (Inr u, s1) \<Rightarrow> (Inr u, s1)
   | (Inl _, s1) \<Rightarrow> (case ne_parse env raw_url of
        None \<Rightarrow> (Inl InvalidUrl, s1)
      | Some u \<Rightarrow>
         (if ur_scheme u \<noteq> ''https'' then (Inl SchemeNotHttps, s1)
          else if has_userinfo u then (Inl UserinfoNotAllowed, s1)
          else if (case ur_port u of Some p \<Rightarrow> p \<noteq> 443 | None \<Rightarrow> False) then (Inl NonStandardPort, s1)
          else (case ur_host u of
             None \<Rightarrow> (Inl HostMissing, s1)
           | Some host \<Rightarrow> (if contains_host whitelist (ne_host_text env host) then (Inr u, s1)
               else (case classify_denial env host s1 of (d, s2) \<Rightarrow> (Inl d, s2)))))))"

fun collect_absolute_http_urls :: "net_env \<Rightarrow> json \<Rightarrow> string list" where
  "collect_absolute_http_urls env (JStr text) = (case ne_parse env (trim text) of
     Some u \<Rightarrow> (if ur_scheme u = ''http'' \<or> ur_scheme u = ''https'' then [trim text] else []) | None \<Rightarrow> [])"
| "collect_absolute_http_urls env (JArr items) = concat (map (collect_absolute_http_urls env) items)"
| "collect_absolute_http_urls env (JObj members) = concat (map (\<lambda>(k, v). collect_absolute_http_urls env v) members)"
| "collect_absolute_http_urls env _ = []"

text \<open>The error of the wrapper names the reason (\<open>into_error\<close>).\<close>

definition denial_error :: "guard_denial \<Rightarrow> err" where
  "denial_error d = Err (''ERR/security/tool_argument_denied: tool argument denied ('' @ reason_code d @ '')'')"

fun check_urls :: "net_env \<Rightarrow> string list \<Rightarrow> string list \<Rightarrow> (net_state, unit) io" where
  "check_urls env whitelist [] s = (Inr (), s)"
| "check_urls env whitelist (raw # raws) s = (case check_outward_url env whitelist raw s of
     (Inl d, s1) \<Rightarrow> (Inl (denial_error d), s1) | (Inr _, s1) \<Rightarrow> check_urls env whitelist raws s1)"

definition check_outward_urls_in_json_anyhow :: "net_env \<Rightarrow> string list \<Rightarrow> json \<Rightarrow> (net_state, unit) io" where
  "check_outward_urls_in_json_anyhow env whitelist v = check_urls env whitelist (collect_absolute_http_urls env v)"

end
