(* ===== verification/Network_Safety.thy ===== *)
theory Network_Safety
  imports Network_Guard
begin

text \<open>
  What the network guard promises: the IPv4 blocks it knows, that a client only requests validated URLs and few of
  them, and when the guard of tool arguments accepts; and what it lets through: private IPv4 addresses written
  as IPv6, and names that resolve differently the second time.
\<close>

section \<open>Address blocks\<close>

definition in_block :: "32 word \<times> nat \<Rightarrow> 32 word \<Rightarrow> bool" where
  "in_block b a \<longleftrightarrow> drop_bit (32 - snd b) a = drop_bit (32 - snd b) (fst b)"

definition refused_blocks :: "(32 word \<times> nat) list" where
  "refused_blocks = [(0x0A000000, 8), (0xAC100000, 12), (0xC0A80000, 16), (0x7F000000, 8), (0xA9FE0000, 16),
     (0xFFFFFFFF, 32), (0xC0000200, 24), (0xC6336400, 24), (0xCB007100, 24), (0, 8)]"

lemma octet_nat: "octet i a = (unat a div 2 ^ (8 * (3 - i))) mod 256"
  unfolding octet_def unsigned_take_bit_eq unat_drop_bit_eq by (simp add: take_bit_eq_mod drop_bit_eq_div)

lemma in_block_nat: "in_block (b, l) a \<longleftrightarrow> unat a div 2 ^ (32 - l) = unat b div 2 ^ (32 - l)"
  unfolding in_block_def word_unat_eq_iff unat_drop_bit_eq by (simp add: drop_bit_eq_div)

text \<open>An address by its octets.\<close>

lemma octets:
  obtains p q r s where "unat (a :: 32 word) = ((p * 256 + q) * 256 + r) * 256 + s" and "p < 256" "q < 256" "r < 256" "s < 256"
    and "octet 0 a = p" "octet 1 a = q" "octet 2 a = r"
proof -
  let ?n = "unat a"
  have "?n < 2 ^ LENGTH(32)" by (rule unsigned_less)
  then have p: "?n div 16777216 < 256" by (simp add: div_less_iff_less_mult)
  have n: "?n = ((?n div 16777216 * 256 + ?n div 65536 mod 256) * 256 + ?n div 256 mod 256) * 256 + ?n mod 256"
    using div_mult_mod_eq [of ?n 256] div_mult_mod_eq [of "?n div 256" 256] div_mult_mod_eq [of "?n div 256 div 256" 256]
    by (simp add: div_mult2_eq [symmetric])
  show ?thesis by (rule that [OF n p]) (use p in \<open>simp_all add: octet_nat\<close>)
qed

lemma div_octets:
  assumes "p < 256" "q < 256" "r < 256" "s < (256 :: nat)"
  shows "(((p * 256 + q) * 256 + r) * 256 + s) div 2 ^ 24 = p" "(((p * 256 + q) * 256 + r) * 256 + s) div 2 ^ 16 = p * 256 + q"
    "(((p * 256 + q) * 256 + r) * 256 + s) div 2 ^ 8 = (p * 256 + q) * 256 + r"
    "(((p * 256 + q) * 256 + r) * 256 + s) div 2 ^ 20 = p * 16 + q div 16"
proof -
  let ?n = "((p * 256 + q) * 256 + r) * 256 + s"
  show 1: "?n div 2 ^ 8 = (p * 256 + q) * 256 + r" using assms by simp
  have 2: "?n div 2 ^ 16 = ?n div 2 ^ 8 div 256" "?n div 2 ^ 24 = ?n div 2 ^ 8 div 256 div 256" "?n div 2 ^ 20 = ?n div 2 ^ 8 div 256 div 16"
    by (simp_all add: div_mult2_eq [symmetric])
  show "?n div 2 ^ 16 = p * 256 + q" "?n div 2 ^ 24 = p" using assms by (simp_all only: 1 2) simp_all
  have "(p * 256 + q) div 16 = p * 16 + q div 16" using div_mult_self3 [of 16 "p * 16" q] by (simp add: mult.commute)
  then show "?n div 2 ^ 20 = p * 16 + q div 16" using assms by (simp only: 1 2) simp
qed

lemma digits_eq: "q < (b :: nat) \<Longrightarrow> v < b \<Longrightarrow> p * b + q = u * b + v \<longleftrightarrow> p = u \<and> q = v"
proof
  assume b: "q < b" "v < b" and e: "p * b + q = u * b + v"
  have "(p * b + q) div b = p" "(u * b + v) div b = u" using b by simp_all
  then have "p = u" using e by simp
  with e show "p = u \<and> q = v" by simp
qed simp

lemma div_octet_16: "q div 16 = 1 \<longleftrightarrow> 16 \<le> q \<and> q \<le> (31 :: nat)"
  by presburger

text \<open>
  C29. An IPv4 address is refused exactly when it lies in one of the ten blocks: private use, loopback,
  link-local, documentation, the broadcast address and the zero network.
\<close>

theorem private_v4_iff: "is_private_or_local_ip (V4 a) \<longleftrightarrow> list_ex (\<lambda>b. in_block b a) refused_blocks"
proof -
  obtain p q r s where n: "unat a = ((p * 256 + q) * 256 + r) * 256 + s" and lt: "p < 256" "q < 256" "r < 256" "s < 256"
    and o: "octet 0 a = p" "octet 1 a = q" "octet 2 a = r" by (rule octets)
  note d = div_octets [OF lt]
  have z: "a = 0 \<longleftrightarrow> unat a = 0" and f: "a = 0xFFFFFFFF \<longleftrightarrow> unat a = 0xFFFFFFFF"
    by (simp_all add: word_unat_eq_iff)
  have b: "in_block (0x0A000000, 8) a \<longleftrightarrow> p = 10" "in_block (0x7F000000, 8) a \<longleftrightarrow> p = 127" "in_block (0, 8) a \<longleftrightarrow> p = 0"
    "in_block (0xC0A80000, 16) a \<longleftrightarrow> p * 256 + q = 192 * 256 + 168" "in_block (0xA9FE0000, 16) a \<longleftrightarrow> p * 256 + q = 169 * 256 + 254"
    "in_block (0xC0000200, 24) a \<longleftrightarrow> (p * 256 + q) * 256 + r = (192 * 256 + 0) * 256 + 2"
    "in_block (0xC6336400, 24) a \<longleftrightarrow> (p * 256 + q) * 256 + r = (198 * 256 + 51) * 256 + 100"
    "in_block (0xCB007100, 24) a \<longleftrightarrow> (p * 256 + q) * 256 + r = (203 * 256 + 0) * 256 + 113"
    "in_block (0xAC100000, 12) a \<longleftrightarrow> p * 16 + q div 16 = 172 * 16 + 1"
    "in_block (0xFFFFFFFF, 32) a \<longleftrightarrow> a = 0xFFFFFFFF"
    using d unfolding in_block_nat n by (simp_all add: f n)
  have t: "p * 256 + q = u * 256 + v \<longleftrightarrow> p = u \<and> q = v" if "v < 256" for u v
    using that lt by (simp add: digits_eq)
  have tr: "(p * 256 + q) * 256 + r = (u * 256 + v) * 256 + w \<longleftrightarrow> p = u \<and> q = v \<and> r = w" if "v < 256" "w < 256" for u v w
    using that lt by (simp only: digits_eq) simp
  have k: "p * 16 + q div 16 = 172 * 16 + 1 \<longleftrightarrow> p = 172 \<and> 16 \<le> q \<and> q \<le> 31"
    using digits_eq [of "q div 16" 16 1 p 172] div_octet_16 [of q] lt by (simp add: div_less_iff_less_mult)
  have z0: "a = 0 \<Longrightarrow> p = 0" using z n by simp
  have R: "list_ex (\<lambda>b. in_block b a) refused_blocks \<longleftrightarrow> p = 10 \<or> (p = 172 \<and> 16 \<le> q \<and> q \<le> 31) \<or> (p = 192 \<and> q = 168) \<or> p = 127
      \<or> (p = 169 \<and> q = 254) \<or> a = 0xFFFFFFFF \<or> (p = 192 \<and> q = 0 \<and> r = 2) \<or> (p = 198 \<and> q = 51 \<and> r = 100)
      \<or> (p = 203 \<and> q = 0 \<and> r = 113) \<or> p = 0"
    unfolding refused_blocks_def list.pred_inject list_ex_iff list.set
    using b t [of 168 192] t [of 254 169] tr [of 0 2 192] tr [of 51 100 198] tr [of 0 113 203] k
    by (simp only: bex_simps(5) bex_simps(7) insert_iff empty_iff ball_simps) simp
  have L: "is_private_or_local_ip (V4 a) \<longleftrightarrow> (p = 10 \<or> (p = 172 \<and> 16 \<le> q \<and> q \<le> 31) \<or> (p = 192 \<and> q = 168)) \<or> p = 127
      \<or> (p = 169 \<and> q = 254) \<or> a = 0xFFFFFFFF \<or> ((p = 192 \<and> q = 0 \<and> r = 2) \<or> (p = 198 \<and> q = 51 \<and> r = 100)
      \<or> (p = 203 \<and> q = 0 \<and> r = 113)) \<or> a = 0 \<or> p = 0 \<or> (p = 169 \<and> q = 254)"
    by (simp only: is_private_or_local_ip.simps v4_is_private_def v4_is_documentation_def o)
  show ?thesis unfolding L R using z0 by blast
qed

section \<open>IPv4 addresses written as IPv6\<close>

text \<open>\<open>::ffff:a.b.c.d\<close>, which a host connects to over IPv4.\<close>

definition mapped :: "32 word \<Rightarrow> 128 word" where
  "mapped a = 0xFFFF00000000 + ucast a"

lemma unat_mapped: "unat (mapped a) = 0xFFFF00000000 + unat a"
proof -
  have a: "unat a < 2 ^ LENGTH(32)" by (rule unsigned_less)
  have u: "unat (ucast a :: 128 word) = unat a" unfolding unsigned_ucast_eq by (rule take_bit_nat_eq_self) (use a in simp)
  show ?thesis unfolding mapped_def by (subst unat_add_lem [THEN iffD1]) (use a in \<open>simp_all add: u\<close>)
qed

lemma mapped_not_private: "\<not> is_private_or_local_ip (V6 (mapped a))"
proof -
  have a: "unat a < 2 ^ LENGTH(32)" by (rule unsigned_less)
  have "unat (segment0 (mapped a)) = 0"
    unfolding segment0_def unat_drop_bit_eq unat_mapped using a by (simp add: drop_bit_eq_div)
  then have "segment0 (mapped a) = 0" by (simp add: word_unat_eq_iff)
  moreover have "mapped a \<noteq> 0" "mapped a \<noteq> 1" by (simp_all add: word_unat_eq_iff unat_mapped)
  ultimately show ?thesis by simp
qed

text \<open>
  C30. A private address is accepted when it is written as IPv6: every check of an HTTPS URL passes for a
  host \<open>[::ffff:a.b.c.d]\<close>, whatever the IPv4 address is.
\<close>

theorem mapped_address_accepted:
  assumes "ne_parse env raw = Some u" and "ur_scheme u = ''https''" and "\<not> has_userinfo u" and "ur_port u = None"
    and "ur_host u = Some (HostIpv6 (mapped a))"
  shows "validate_public_https_url env raw s = (Inr u, s) \<and> validate_public_url env raw s = (Inr u, s)
    \<and> validate_external_https_url env raw s = (Inr u, s) \<and> check_outward_url env whitelist raw s = (Inr u, s)"
proof -
  have "check_host env (HostIpv6 (mapped a)) port = ret ()" for port
    using mapped_not_private [of a] by (simp only: check_host_def url_host.case if_False)
  then have "validate_public_https_url env raw s = (Inr u, s)" "validate_public_url env raw s = (Inr u, s)"
    "validate_external_https_url env raw s = (Inr u, s)"
    using assms by (simp_all add: validate_public_https_url_def validate_public_url_def validate_external_https_url_def
        validate_no_userinfo_def validate_public_url_host_def effective_port_def port_or_known_default_def)
  then show ?thesis by (simp add: check_outward_url_def)
qed

definition url_to :: "url_host \<Rightarrow> url" where
  "url_to h = \<lparr>ur_scheme = ''https'', ur_username = [], ur_password = None, ur_host = Some h, ur_port = None, ur_rest = ''/''\<rparr>"

definition sample_net :: "url_host \<Rightarrow> (nat \<Rightarrow> ip_addr list option) \<Rightarrow> net_env" where
  "sample_net h answers = \<lparr>ne_parse = (\<lambda>raw. if raw = ''u'' then Some (url_to h) else None), ne_join = (\<lambda>_ _. Some (url_to h)),
     ne_text = (\<lambda>_. ''u''), ne_host_text = (\<lambda>_. ''example.org''), ne_resolve = (\<lambda>t _ _. answers t),
     ne_exchange = (\<lambda>_ _. Inr \<lparr>re_redirection = False, re_location = None, re_body = []\<rparr>)\<rparr>"

definition net_start :: net_state where
  "net_start = \<lparr>ns_resolved = 0, ns_sent = []\<rparr>"

theorem mapped_address_accepted_witness:
  "fst (validate_public_https_url (sample_net (HostIpv6 (mapped 0x7F000001)) (\<lambda>_. None)) ''u'' net_start) = Inr (url_to (HostIpv6 (mapped 0x7F000001)))
   \<and> is_private_or_local_ip (V4 0x7F000001)"
proof
  show "fst (validate_public_https_url (sample_net (HostIpv6 (mapped 0x7F000001)) (\<lambda>_. None)) ''u'' net_start) = Inr (url_to (HostIpv6 (mapped 0x7F000001)))"
    using mapped_address_accepted [of "sample_net (HostIpv6 (mapped 0x7F000001)) (\<lambda>_. None)" "''u''" "url_to (HostIpv6 (mapped 0x7F000001))" "0x7F000001" net_start "[]"]
    by (simp add: sample_net_def url_to_def has_userinfo_def)
  show "is_private_or_local_ip (V4 0x7F000001)" by (simp add: octet_nat)
qed

section \<open>Requests\<close>

definition validated :: "net_env \<Rightarrow> url \<Rightarrow> bool" where
  "validated env u \<longleftrightarrow> (\<exists>raw t t'. validate_public_url env raw t = (Inr u, t'))"

lemma check_host_sent: "check_host env h p s = (r, s') \<Longrightarrow> ns_sent s' = ns_sent s"
  by (auto simp: check_host_def lookup_host_def split: url_host.splits if_splits option.splits)

lemma validate_sent: "validate_public_url env raw s = (r, s') \<Longrightarrow> ns_sent s' = ns_sent s"
  by (auto simp: validate_public_url_def validate_no_userinfo_def validate_public_url_host_def
      split: option.splits if_splits elim!: bindE_cases dest: check_host_sent)

lemma send_sent: "send_request env u s = (r, s') \<Longrightarrow> \<exists>addrs. ns_sent s' = ns_sent s @ [(u, addrs)]"
  by (auto simp: send_request_def connect_addresses_def lookup_host_def
      split: prod.splits sum.splits option.splits url_host.splits)

lemma follow_sent:
  assumes "follow env k u s = (r, s')" and "validated env u"
  shows "\<exists>us. ns_sent s' = ns_sent s @ us \<and> length us \<le> k \<and> (\<forall>p \<in> set us. validated env (fst p))"
  using assms
proof (induction k arbitrary: u s)
  case (Suc k)
  obtain x s1 where x: "send_request env u s = (x, s1)" by (cases "send_request env u s")
  then obtain addrs where s1: "ns_sent s1 = ns_sent s @ [(u, addrs)]" using send_sent by blast
  have one: ?case if "s' = s1" using that s1 Suc.prems(2) by (intro exI [of _ "[(u, addrs)]"]) simp
  show ?case
  proof (cases "\<exists>response location v. x = Inr response \<and> re_redirection response \<and> re_location response = Some location
      \<and> ne_join env u location = Some v")
    case False
    with Suc.prems(1) x have "s' = s1"
      by (cases x) (auto split: if_splits option.splits)
    then show ?thesis by (rule one)
  next
    case True
    then obtain response location v where v: "x = Inr response" "re_redirection response" "re_location response = Some location"
      "ne_join env u location = Some v" by blast
    obtain y s2 where y: "validate_public_url env (ne_text env v) s1 = (y, s2)" by (cases "validate_public_url env (ne_text env v) s1")
    then have s2: "ns_sent s2 = ns_sent s @ [(u, addrs)]" using validate_sent s1 by metis
    show ?thesis
    proof (cases y)
      case (Inl e)
      with Suc.prems(1) x v y have "s' = s2" by simp
      with s2 Suc.prems(2) show ?thesis by (intro exI [of _ "[(u, addrs)]"]) simp
    next
      case (Inr w)
      with Suc.prems(1) x v y have "follow env k w s2 = (r, s')" by simp
      moreover have "validated env w" using y Inr unfolding validated_def by blast
      ultimately obtain us where us: "ns_sent s' = ns_sent s2 @ us" "length us \<le> k" "\<forall>p \<in> set us. validated env (fst p)"
        using Suc.IH by blast
      then show ?thesis using s2 Suc.prems(2) by (intro exI [of _ "(u, addrs) # us"]) simp
    qed
  qed
qed simp

text \<open>
  C28. The client that follows redirects sends at most one request more than the redirects it may follow, and
  every URL it requests has passed the validation.
\<close>

theorem requests_validated:
  assumes "public_get_follow_redirects env raw max_redirects s = (r, s')"
  shows "\<exists>us. ns_sent s' = ns_sent s @ us \<and> length us \<le> max_redirects + 1 \<and> list_all (\<lambda>p. validated env (fst p)) us"
proof -
  obtain x s1 where x: "validate_public_url env raw s = (x, s1)" by (cases "validate_public_url env raw s")
  then have s1: "ns_sent s1 = ns_sent s" by (rule validate_sent)
  show ?thesis
  proof (cases x)
    case (Inl e)
    with assms x s1 show ?thesis by (simp add: public_get_follow_redirects_def)
  next
    case (Inr u)
    then have "follow env (max_redirects + 1) u s1 = (r, s')" using assms x by (simp add: public_get_follow_redirects_def)
    moreover have "validated env u" using x Inr unfolding validated_def by blast
    ultimately show ?thesis using follow_sent s1 unfolding list_all_iff by metis
  qed
qed

theorem requests_validated_witness:
  "\<exists>r s'. public_get_follow_redirects (sample_net (HostIpv4 0x08080808) (\<lambda>_. None)) ''u'' 3 net_start = (r, s')
     \<and> length (ns_sent s') \<le> 4 \<and> ns_sent s' \<noteq> []"
proof -
  let ?env = "sample_net (HostIpv4 0x08080808) (\<lambda>_. None)"
  obtain r s' where r: "public_get_follow_redirects ?env ''u'' 3 net_start = (r, s')" by fastforce
  have p: "\<not> is_private_or_local_ip (V4 0x08080808)" by (simp add: v4_is_private_def v4_is_documentation_def octet_nat)
  have "validate_public_url ?env ''u'' net_start = (Inr (url_to (HostIpv4 0x08080808)), net_start)"
    using p by (simp del: is_private_or_local_ip.simps add: sample_net_def url_to_def validate_public_url_def validate_no_userinfo_def has_userinfo_def
        validate_public_url_host_def effective_port_def port_or_known_default_def check_host_def)
  then have "ns_sent s' \<noteq> []"
    using r by (auto simp: public_get_follow_redirects_def send_request_def connect_addresses_def sample_net_def url_to_def net_start_def numeral_3_eq_3)
  with requests_validated [OF r] r show ?thesis by (auto simp: net_start_def)
qed

text \<open>
  The addresses a request goes to are not the ones that were checked: a name is resolved once for the check and
  once more for the connection, and only the first answer has to be public.
\<close>

theorem connection_resolved_again:
  assumes "ne_parse env raw = Some u" and "ur_host u = Some (HostDomain d)"
    and "validate_public_url env raw s = (Inr u, s1)" and "public_get_follow_redirects env raw k s = (r, s')"
  shows "\<exists>us. ns_sent s' = ns_sent s @ (u, ne_resolve env (ns_resolved s + 1) d (effective_port u)) # us
    \<and> (\<exists>addrs. ne_resolve env (ns_resolved s) d (effective_port u) = Some addrs \<and> \<not> list_ex is_private_or_local_ip addrs)"
proof -
  have v: "check_host env (HostDomain d) (effective_port u) s = (Inr (), s1)"
    using assms(1-3) by (auto simp: validate_public_url_def validate_no_userinfo_def validate_public_url_host_def
        split: if_splits elim!: bindE_InrE)
  then have a: "\<exists>addrs. ne_resolve env (ns_resolved s) d (effective_port u) = Some addrs \<and> \<not> list_ex is_private_or_local_ip addrs"
    and s1: "ns_resolved s1 = ns_resolved s + 1" "ns_sent s1 = ns_sent s"
    by (auto simp: check_host_def lookup_host_def split: if_splits option.splits)
  obtain x s2 where x: "send_request env u s1 = (x, s2)" by (cases "send_request env u s1")
  then have s2: "ns_sent s2 = ns_sent s @ [(u, ne_resolve env (ns_resolved s + 1) d (effective_port u))]"
    using s1 assms(2) by (auto simp: send_request_def connect_addresses_def lookup_host_def split: sum.splits)
  have f: "follow env (Suc k) u s1 = (r, s')" using assms(3,4) by (simp add: public_get_follow_redirects_def)
  have "\<exists>us. ns_sent s' = ns_sent s2 @ us"
  proof (cases "\<exists>response location w y s3. x = Inr response \<and> re_redirection response \<and> re_location response = Some location
      \<and> ne_join env u location = Some w \<and> validate_public_url env (ne_text env w) s2 = (Inr y, s3)")
    case True
    then obtain response location w y s3 where w: "x = Inr response" "re_redirection response" "re_location response = Some location"
      "ne_join env u location = Some w" "validate_public_url env (ne_text env w) s2 = (Inr y, s3)" by blast
    then have "follow env k y s3 = (r, s')" using f x by simp
    moreover have "validated env y" using w(5) unfolding validated_def by blast
    ultimately show ?thesis using follow_sent validate_sent [OF w(5)] by metis
  next
    case False
    have "ns_sent s' = ns_sent s2"
    proof (cases x)
      case (Inr response)
      with False f x show ?thesis
        by (auto split: if_splits option.splits elim!: bindE_cases dest: validate_sent)
    qed (use f x in simp)
    then show ?thesis by simp
  qed
  with s2 a show ?thesis by force
qed

theorem connection_resolved_again_witness:
  "\<exists>r s'. public_get_follow_redirects (sample_net (HostDomain ''a.org'') (\<lambda>t. Some [V4 (if t = 0 then 0x08080808 else 0x7F000001)])) ''u'' 0 net_start = (r, s')
     \<and> snd (hd (ns_sent s')) = Some [V4 0x7F000001]"
proof -
  let ?env = "sample_net (HostDomain ''a.org'') (\<lambda>t. Some [V4 (if t = 0 then 0x08080808 else 0x7F000001)])"
  obtain r s' where r: "public_get_follow_redirects ?env ''u'' 0 net_start = (r, s')" by fastforce
  have p: "\<not> is_private_or_local_ip (V4 0x08080808)" by (simp add: v4_is_private_def v4_is_documentation_def octet_nat)
  have h: "\<not> is_disallowed_public_hostname ''a.org''"
    by (simp add: is_disallowed_public_hostname_def host_text_def trim_no_ws is_ws_def trim_end_matches_def ascii_lower_def
        lower_char_def is_upper_def ends_with_def)
  have u: "ne_parse ?env ''u'' = Some (url_to (HostDomain ''a.org''))" "ur_host (url_to (HostDomain ''a.org'')) = Some (HostDomain ''a.org'')"
    by (simp_all add: sample_net_def url_to_def)
  obtain s1 where "validate_public_url ?env ''u'' net_start = (Inr (url_to (HostDomain ''a.org'')), s1)"
    using p h by (simp del: is_private_or_local_ip.simps add: sample_net_def url_to_def validate_public_url_def validate_no_userinfo_def has_userinfo_def
        validate_public_url_host_def effective_port_def port_or_known_default_def check_host_def lookup_host_def net_start_def)
  from connection_resolved_again [OF u this r] r show ?thesis by (auto simp: sample_net_def net_start_def)
qed

section \<open>Tool arguments\<close>

text \<open>
  The guard of tool arguments accepts exactly the URLs that pass the public check and, beyond those, the HTTPS
  URLs without user information on the standard port whose host is on the operator's list.
\<close>

theorem outward_accepted_iff:
  "(\<exists>u. fst (check_outward_url env whitelist raw s) = Inr u) \<longleftrightarrow>
     (\<exists>u. fst (validate_public_https_url env raw s) = Inr u)
     \<or> (\<exists>u h. ne_parse env raw = Some u \<and> ur_scheme u = ''https'' \<and> \<not> has_userinfo u \<and> ur_port u \<in> {None, Some 443}
          \<and> ur_host u = Some h \<and> contains_host whitelist (ne_host_text env h))"
proof (cases "validate_public_https_url env raw s")
  case (Pair x s1)
  show ?thesis
  proof (cases x)
    case (Inr u)
    with Pair show ?thesis by (simp add: check_outward_url_def)
  next
    case (Inl e)
    with Pair show ?thesis
      by (auto simp: check_outward_url_def split: option.splits prod.splits)
  qed
qed

lemma contains_host_iff:
  "contains_host whitelist h \<longleftrightarrow> host_text h \<noteq> [] \<and> (\<exists>e \<in> set whitelist. host_text e \<noteq> []
     \<and> (host_text h = host_text e \<or> ends_with (host_text h) (CHR ''.'' # host_text e)))"
  by (auto simp: contains_host_def normalized_entries_def list_ex_iff Let_def)

end
