(* ===== verification/Tool_Paths.thy ===== *)
theory Tool_Paths
  imports Text_Pieces
begin

text \<open>
  The paths tools may read, write and delete (\<open>runtime/file\_tools.rs\<close>): aliases of the workspace, the allowed roots,
  the names of credential files, and the resolution of a requested path; with the steps by which
  \<open>execution/native\_execution.rs\<close> writes a file there.

  The file system maps absolute paths, as lists of names, to files, directories and symbolic links. \<open>canonicalize\<close>,
  \<open>exists\<close>, \<open>create\_dir\_all\<close> and opening a file for writing follow links as POSIX says, at most forty of them.
  Requested paths are those of Unix; a component is never empty or a dot, as in \<open>Path::components\<close>.
\<close>

section \<open>The file system\<close>

type_synonym path = "string list"

datatype fs_entry = FsFile | FsDir | FsLink bool path

type_synonym fs = "path \<Rightarrow> fs_entry option"

text \<open>A link holds an absolute or a relative target.\<close>

function walk :: "fs \<Rightarrow> nat \<Rightarrow> path \<Rightarrow> path \<Rightarrow> path option" where
  "walk fs hops cur [] = Some cur"
| "walk fs hops cur (c # cs) = (if c = ''..'' then walk fs hops (butlast cur) cs
     else (case fs (cur @ [c]) of
        None \<Rightarrow> None
      | Some FsDir \<Rightarrow> walk fs hops (cur @ [c]) cs
      | Some FsFile \<Rightarrow> (if cs = [] then Some (cur @ [c]) else None)
      | Some (FsLink absolute target) \<Rightarrow>
          (if hops = 0 then None else walk fs (hops - 1) (if absolute then [] else cur) (target @ cs))))"
  by pat_completeness auto
termination by (relation "measures [\<lambda>(fs, hops, cur, cs). hops, \<lambda>(fs, hops, cur, cs). length cs]") auto

definition canonicalize :: "fs \<Rightarrow> path \<Rightarrow> path option" where
  "canonicalize fs p = walk fs 40 [] p"

definition path_exists :: "fs \<Rightarrow> path \<Rightarrow> bool" where
  "path_exists fs p \<longleftrightarrow> canonicalize fs p \<noteq> None"

definition is_dir :: "fs \<Rightarrow> path \<Rightarrow> bool" where
  "is_dir fs p \<longleftrightarrow> (case canonicalize fs p of Some q \<Rightarrow> q = [] \<or> fs q = Some FsDir | None \<Rightarrow> False)"

text \<open>Where an open for writing lands, which creates a missing last component.\<close>

function open_target :: "fs \<Rightarrow> nat \<Rightarrow> path \<Rightarrow> path \<Rightarrow> path option" where
  "open_target fs hops cur [] = Some cur"
| "open_target fs hops cur (c # cs) = (if c = ''..'' then open_target fs hops (butlast cur) cs
     else (case fs (cur @ [c]) of
        None \<Rightarrow> (if cs = [] then Some (cur @ [c]) else None)
      | Some FsDir \<Rightarrow> open_target fs hops (cur @ [c]) cs
      | Some FsFile \<Rightarrow> (if cs = [] then Some (cur @ [c]) else None)
      | Some (FsLink absolute target) \<Rightarrow>
          (if hops = 0 then None else open_target fs (hops - 1) (if absolute then [] else cur) (target @ cs))))"
  by pat_completeness auto
termination by (relation "measures [\<lambda>(fs, hops, cur, cs). hops, \<lambda>(fs, hops, cur, cs). length cs]") auto

fun make_dirs :: "fs \<Rightarrow> path \<Rightarrow> path \<Rightarrow> fs option" where
  "make_dirs fs cur [] = Some fs"
| "make_dirs fs cur (c # cs) = (if c = ''..'' then make_dirs fs (butlast cur) cs
     else (case fs (cur @ [c]) of
        None \<Rightarrow> make_dirs (fs(cur @ [c] \<mapsto> FsDir)) (cur @ [c]) cs
      | Some FsDir \<Rightarrow> make_dirs fs (cur @ [c]) cs
      | Some FsFile \<Rightarrow> None
      | Some (FsLink absolute target) \<Rightarrow> (case walk fs 40 cur [c] of
            None \<Rightarrow> None | Some d \<Rightarrow> (if d = [] \<or> fs d = Some FsDir then make_dirs fs d cs else None))))"

text \<open>Writing the file at a resolved path: the directories above it are made, and the file is opened.\<close>

definition file_write_target :: "fs \<Rightarrow> path \<Rightarrow> path option" where
  "file_write_target fs p = Option.bind (make_dirs fs [] (butlast p)) (\<lambda>fs'. open_target fs' 40 [] p)"

section \<open>Requested paths\<close>

record tool_paths =
  tp_data_dir :: path
  tp_actions_dir :: path
  tp_config_dir :: path
  tp_workspace_root :: path

definition components :: "string \<Rightarrow> path" where
  "components s = filter (\<lambda>c. c \<noteq> [] \<and> c \<noteq> ''.'') (split_char CHR ''/'' s)"

definition is_absolute :: "string \<Rightarrow> bool" where
  "is_absolute s \<longleftrightarrow> prefix_of ''/'' s"

definition path_text :: "path \<Rightarrow> string" where
  "path_text p = CHR ''/'' # intercalate ''/'' p"

definition quoted_path :: "path \<Rightarrow> string" where
  "quoted_path p = CHR 0x27 # path_text p @ [CHR 0x27]"

definition path_starts_with :: "path \<Rightarrow> path \<Rightarrow> bool" where
  "path_starts_with p root \<longleftrightarrow> take (length root) p = root"

definition workspace_aliases :: "string list" where
  "workspace_aliases = [''/workspace'', ''/repo'', ''/project'']"

definition remap_workspace_alias_path :: "tool_paths \<Rightarrow> string \<Rightarrow> path option" where
  "remap_workspace_alias_path tp raw = (let trimmed = trim raw in
     case find (\<lambda>p. trimmed = p \<or> (case strip_prefix p trimmed of Some rest \<Rightarrow> prefix_of ''/'' rest | None \<Rightarrow> False)) workspace_aliases of
       None \<Rightarrow> None
     | Some matched \<Rightarrow> (let suffix = (case strip_prefix matched trimmed of Some s \<Rightarrow> s | None \<Rightarrow> []);
           relative = dropWhile (\<lambda>c. c = CHR ''/'') suffix in
         if relative = [] then Some (tp_workspace_root tp) else Some (tp_workspace_root tp @ components relative)))"

definition dedupe_allowed_roots :: "fs \<Rightarrow> path list \<Rightarrow> path list" where
  "dedupe_allowed_roots fs roots = foldl (\<lambda>acc root.
     let candidate = (case canonicalize fs root of Some c \<Rightarrow> c | None \<Rightarrow> root) in
     if candidate \<in> set acc then acc else acc @ [candidate]) [] roots"

definition allowed_write_file_roots :: "fs \<Rightarrow> tool_paths \<Rightarrow> path list" where
  "allowed_write_file_roots fs tp = dedupe_allowed_roots fs [tp_data_dir tp, tp_actions_dir tp, tp_config_dir tp, tp_workspace_root tp]"

definition allowed_file_roots :: "fs \<Rightarrow> tool_paths \<Rightarrow> path list" where
  "allowed_file_roots fs tp = allowed_write_file_roots fs tp"

definition absolutize_tool_path :: "tool_paths \<Rightarrow> string \<Rightarrow> path result" where
  "absolutize_tool_path tp raw = (let trimmed = trim raw in
     if trimmed = [] then Inl (Err ''Path cannot be empty'')
     else (case remap_workspace_alias_path tp trimmed of
        Some remapped \<Rightarrow> Inr remapped
      | None \<Rightarrow> Inr (if is_absolute trimmed then components trimmed else tp_workspace_root tp @ components trimmed)))"

definition outside_roots :: "path \<Rightarrow> path list \<Rightarrow> err" where
  "outside_roots p roots = Err (''Path '' @ quoted_path p @ '' is outside allowed roots: '' @ intercalate '', '' (map path_text roots))"

definition ensure_tool_path_allowed :: "fs \<Rightarrow> tool_paths \<Rightarrow> path \<Rightarrow> unit result" where
  "ensure_tool_path_allowed fs tp candidate = (let roots = allowed_file_roots fs tp in
     if list_ex (path_starts_with candidate) roots then Inr () else Inl (outside_roots candidate roots))"

definition ensure_tool_write_path_allowed :: "fs \<Rightarrow> tool_paths \<Rightarrow> path \<Rightarrow> unit result" where
  "ensure_tool_write_path_allowed fs tp candidate = (let roots = allowed_write_file_roots fs tp in
     if list_ex (path_starts_with candidate) roots then Inr () else Inl (outside_roots candidate roots))"

definition text_ends_with :: "string \<Rightarrow> string \<Rightarrow> bool" where
  "text_ends_with s suffix \<longleftrightarrow> prefix_of (rev suffix) (rev s)"

definition file_name :: "path \<Rightarrow> string option" where
  "file_name p = (if p = [] \<or> last p = ''..'' then None else Some (last p))"

definition tool_path_looks_sensitive_file :: "path \<Rightarrow> bool" where
  "tool_path_looks_sensitive_file p = (case file_name p of None \<Rightarrow> False
   | Some name \<Rightarrow> (let lower = ascii_lower (trim name) in
       lower = ''.agentark_runtime_env'' \<or> lower = ''.env'' \<or> prefix_of ''.env.'' lower \<or> text_ends_with lower ''.pem''
       \<or> text_ends_with lower ''.key'' \<or> text_ends_with lower ''.p12'' \<or> text_ends_with lower ''.pfx''
       \<or> lower = ''secrets.json'' \<or> lower = ''credentials.json''))"

definition ensure_tool_target_not_sensitive_file :: "path \<Rightarrow> string \<Rightarrow> unit result" where
  "ensure_tool_target_not_sensitive_file p verb = (if tool_path_looks_sensitive_file p
     then Inl (Err (''Refusing to '' @ verb @ '' sensitive credential file '' @ quoted_path p
       @ ''. Use the secure credential store or app required_inputs flow instead.''))
     else Inr ())"

definition resolve_tool_read_path :: "fs \<Rightarrow> tool_paths \<Rightarrow> string \<Rightarrow> path result" where
  "resolve_tool_read_path fs tp raw = res_bind (absolutize_tool_path tp raw) (\<lambda>candidate.
     case canonicalize fs candidate of
       None \<Rightarrow> Inl (Err ''canonicalize'')
     | Some resolved \<Rightarrow> res_bind (ensure_tool_path_allowed fs tp resolved) (\<lambda>_.
         res_bind (ensure_tool_target_not_sensitive_file resolved ''read'') (\<lambda>_. Inr resolved)))"

text \<open>The nearest existing parent and the components below it, outermost first.\<close>

function split_missing :: "fs \<Rightarrow> string \<Rightarrow> path \<Rightarrow> string list \<Rightarrow> (path \<times> string list) result" where
  "split_missing fs raw cursor missing = (if path_exists fs cursor then Inr (cursor, missing)
     else (case file_name cursor of
        None \<Rightarrow> Inl (Err (''Path '' @ (CHR 0x27 # raw @ [CHR 0x27]) @ '' has no existing parent''))
      | Some name \<Rightarrow> split_missing fs raw (butlast cursor) (name # missing)))"
  by pat_completeness auto
termination by (relation "measure (\<lambda>(fs, raw, cursor, missing). length cursor)") (auto simp: file_name_def split: if_splits)

declare split_missing.simps [simp del]

fun push_components :: "path \<Rightarrow> string list \<Rightarrow> path result" where
  "push_components rebuilt [] = Inr rebuilt"
| "push_components rebuilt (c # cs) = (if c = [] \<or> c = ''.'' \<or> c = ''..''
     then Inl (Err (''Invalid path component '' @ (CHR 0x27 # c @ [CHR 0x27]))) else push_components (rebuilt @ [c]) cs)"

definition resolve_tool_mutation_path :: "fs \<Rightarrow> tool_paths \<Rightarrow> string \<Rightarrow> string \<Rightarrow> path result" where
  "resolve_tool_mutation_path fs tp raw verb = res_bind (absolutize_tool_path tp raw) (\<lambda>candidate.
     case canonicalize fs candidate of
       Some resolved \<Rightarrow> res_bind (ensure_tool_write_path_allowed fs tp resolved) (\<lambda>_.
         if is_dir fs resolved then Inl (Err (''Refusing to overwrite directory '' @ quoted_path resolved))
         else res_bind (ensure_tool_target_not_sensitive_file resolved verb) (\<lambda>_. Inr resolved))
     | None \<Rightarrow> res_bind (split_missing fs raw candidate []) (\<lambda>(cursor, missing).
         case canonicalize fs cursor of
           None \<Rightarrow> Inl (Err ''canonicalize'')
         | Some base \<Rightarrow> res_bind (ensure_tool_write_path_allowed fs tp base) (\<lambda>_.
             res_bind (push_components base missing) (\<lambda>rebuilt.
             res_bind (ensure_tool_target_not_sensitive_file rebuilt verb) (\<lambda>_. Inr rebuilt)))))"

definition resolve_tool_write_path :: "fs \<Rightarrow> tool_paths \<Rightarrow> string \<Rightarrow> path result" where
  "resolve_tool_write_path fs tp raw = resolve_tool_mutation_path fs tp raw ''write''"

end
