(* ===== verification/Tool_Path_Safety.thy ===== *)
theory Tool_Path_Safety
  imports Tool_Paths
begin

text \<open>
  What the resolution of tool paths promises: a path to read is free of links and inside an allowed root; a file is
  written at the resolved path when no link lies on it; and how a link to a missing file leads a write outside.
\<close>

section \<open>Directories and links\<close>

text \<open>A path all of whose prefixes are directories, and one whose last component may also be a file.\<close>

definition dir_path :: "fs \<Rightarrow> path \<Rightarrow> bool" where
  "dir_path fs p \<longleftrightarrow> ''..'' \<notin> set p \<and> list_all (\<lambda>k. fs (take (Suc k) p) = Some FsDir) [0..<length p]"

definition physical :: "fs \<Rightarrow> path \<Rightarrow> bool" where
  "physical fs p \<longleftrightarrow> p = [] \<or> (dir_path fs (butlast p) \<and> last p \<noteq> ''..'' \<and> fs p \<in> {Some FsDir, Some FsFile})"

definition is_link :: "fs_entry option \<Rightarrow> bool" where
  "is_link e \<longleftrightarrow> (case e of Some (FsLink _ _) \<Rightarrow> True | _ \<Rightarrow> False)"

definition link_free :: "fs \<Rightarrow> path \<Rightarrow> bool" where
  "link_free fs p \<longleftrightarrow> \<not> list_ex (\<lambda>k. is_link (fs (take k p))) [0..<Suc (length p)]"

lemma dir_path_Nil [simp]: "dir_path fs []"
  by (simp add: dir_path_def)

lemma dir_path_snoc [simp]: "dir_path fs (p @ [c]) \<longleftrightarrow> dir_path fs p \<and> c \<noteq> ''..'' \<and> fs (p @ [c]) = Some FsDir"
  by (auto simp: dir_path_def list_all_iff less_Suc_eq)

lemma dir_path_butlast: "dir_path fs p \<Longrightarrow> dir_path fs (butlast p)"
  by (cases p rule: rev_cases) simp_all

lemma dir_path_append: "dir_path fs (p @ q) \<Longrightarrow> dir_path fs p"
  by (induction q rule: rev_induct) (simp_all flip: append_assoc)

lemma physicalI: "dir_path fs p \<Longrightarrow> physical fs p"
  by (cases p rule: rev_cases) (simp_all add: physical_def)

lemma physical_no_parent: "physical fs p \<Longrightarrow> ''..'' \<notin> set p"
  by (cases p rule: rev_cases) (auto simp: physical_def dir_path_def)

lemma walk_physical: "walk fs hops cur cs = Some p \<Longrightarrow> dir_path fs cur \<Longrightarrow> physical fs p"
proof (induction fs hops cur cs rule: walk.induct)
  case (1 fs hops cur)
  then show ?case by (simp add: physicalI)
next
  case (2 fs hops cur c cs)
  show ?case
  proof (cases "c = ''..''")
    case True
    with 2 show ?thesis by (simp add: dir_path_butlast)
  next
    case False
    have "physical fs (cur @ [c])" if "fs (cur @ [c]) = Some FsFile"
      using that False 2(5) by (simp add: physical_def)
    with False 2 show ?thesis by (auto split: option.splits fs_entry.splits if_splits)
  qed
qed

lemma walk_dirs: "dir_path fs (cur @ ds) \<Longrightarrow> walk fs hops cur (ds @ cs) = walk fs hops (cur @ ds) cs"
proof (induction ds arbitrary: cur)
  case (Cons d ds)
  then have "dir_path fs ((cur @ [d]) @ ds)" by simp
  moreover from dir_path_append [OF this] have "d \<noteq> ''..'' \<and> fs (cur @ [d]) = Some FsDir" by simp
  ultimately show ?case using Cons.IH [of "cur @ [d]"] by simp
qed simp

lemma open_dirs: "dir_path fs (cur @ ds) \<Longrightarrow> open_target fs hops cur (ds @ cs) = open_target fs hops (cur @ ds) cs"
proof (induction ds arbitrary: cur)
  case (Cons d ds)
  then have "dir_path fs ((cur @ [d]) @ ds)" by simp
  moreover from dir_path_append [OF this] have "d \<noteq> ''..'' \<and> fs (cur @ [d]) = Some FsDir" by simp
  ultimately show ?case using Cons.IH [of "cur @ [d]"] by simp
qed simp

lemma make_dirs_existing: "dir_path fs (cur @ ds) \<Longrightarrow> make_dirs fs cur ds = Some fs"
proof (induction ds arbitrary: cur)
  case (Cons d ds)
  then have "dir_path fs ((cur @ [d]) @ ds)" by simp
  moreover from dir_path_append [OF this] have "d \<noteq> ''..'' \<and> fs (cur @ [d]) = Some FsDir" by simp
  ultimately show ?case using Cons.IH [of "cur @ [d]"] by simp
qed simp

lemma canonicalize_dir: "dir_path fs p \<Longrightarrow> canonicalize fs p = Some p"
  using walk_dirs [of fs "[]" p 40 "[]"] by (simp add: canonicalize_def)

lemma canonicalize_physical: "canonicalize fs p = Some q \<Longrightarrow> physical fs q"
  unfolding canonicalize_def by (erule walk_physical) simp

lemma physical_canonicalize: "physical fs p \<Longrightarrow> canonicalize fs p = Some p"
proof (cases p rule: rev_cases)
  case Nil
  then show ?thesis by (simp add: canonicalize_def)
next
  case (snoc q c)
  assume "physical fs p"
  with snoc have "dir_path fs q" "c \<noteq> ''..''" "fs (q @ [c]) \<in> {Some FsDir, Some FsFile}" by (simp_all add: physical_def)
  then show ?thesis using walk_dirs [of fs "[]" q 40 "[c]"] snoc by (auto simp: canonicalize_def)
qed

lemma make_dirs_adds: "make_dirs fs cur cs = Some fs' \<Longrightarrow> fs' q = fs q \<or> fs' q = Some FsDir"
proof (induction fs cur cs rule: make_dirs.induct)
  case (2 fs cur c cs)
  then show ?case by (fastforce split: if_splits option.splits fs_entry.splits)
qed simp

lemma open_link_free:
  "''..'' \<notin> set cs \<Longrightarrow> (\<And>k. k \<le> length cs \<Longrightarrow> \<not> is_link (fs (cur @ take k cs))) \<Longrightarrow> open_target fs hops cur cs \<in> {None, Some (cur @ cs)}"
proof (induction cs arbitrary: cur)
  case (Cons c cs)
  have "\<not> is_link (fs ((cur @ [c]) @ take k cs))" if "k \<le> length cs" for k
    using Cons.prems(2) [of "Suc k"] that by simp
  then have "open_target fs hops (cur @ [c]) cs \<in> {None, Some ((cur @ [c]) @ cs)}"
    using Cons.prems(1) by (intro Cons.IH) simp_all
  moreover have "\<not> is_link (fs (cur @ [c]))" using Cons.prems(2) [of 1] by simp
  ultimately show ?case using Cons.prems(1)
    by (auto simp: is_link_def split: option.splits fs_entry.splits)
qed simp

lemma write_link_free:
  assumes "''..'' \<notin> set p" and "link_free fs p"
  shows "file_write_target fs p \<in> {None, Some p}"
proof (cases "make_dirs fs [] (butlast p)")
  case (Some fs')
  have "\<not> is_link (fs (take k p))" if "k \<le> length p" for k
    using assms(2) that by (auto simp: link_free_def list_ex_iff)
  then have "\<not> is_link (fs' ([] @ take k p))" if "k \<le> length p" for k
    using make_dirs_adds [OF Some, of "take k p"] that by (auto simp: is_link_def)
  from open_link_free [of p fs' "[]", OF assms(1) this] Some show ?thesis by (simp add: file_write_target_def)
qed (simp add: file_write_target_def)

section \<open>Resolved paths\<close>

lemma res_bind_InrE:
  assumes "res_bind r f = Inr b"
  obtains a where "r = Inr a" and "f a = Inr b"
  using assms by (cases r) auto

lemma starts_with_append: "path_starts_with p root \<Longrightarrow> path_starts_with (p @ q) root"
  by (auto simp: path_starts_with_def dest: arg_cong [of _ _ length])

lemma pushed: "push_components base missing = Inr p \<Longrightarrow> p = base @ missing \<and> ''..'' \<notin> set missing"
  by (induction base missing rule: push_components.induct) (auto split: if_splits)

lemma write_allowed: "ensure_tool_write_path_allowed fs tp p = Inr x \<Longrightarrow> \<exists>root \<in> set (allowed_write_file_roots fs tp). path_starts_with p root"
  by (auto simp: ensure_tool_write_path_allowed_def Let_def list_ex_iff split: if_splits)

lemma not_sensitive: "ensure_tool_target_not_sensitive_file p verb = Inr x \<Longrightarrow> \<not> tool_path_looks_sensitive_file p"
  by (simp add: ensure_tool_target_not_sensitive_file_def split: if_splits)

text \<open>
  C23. A path a tool may read names an existing file or directory by real directories only, without links or
  parent steps, below one of the allowed roots, and is not a credential file: the file that is opened is the one
  that was checked.
\<close>

theorem read_confined:
  assumes "resolve_tool_read_path fs tp raw = Inr p"
  shows "physical fs p \<and> canonicalize fs p = Some p \<and> list_ex (path_starts_with p) (allowed_file_roots fs tp)
    \<and> \<not> tool_path_looks_sensitive_file p"
proof -
  from assms obtain candidate where c: "canonicalize fs candidate = Some p"
    and a: "ensure_tool_path_allowed fs tp p = Inr ()" and s: "ensure_tool_target_not_sensitive_file p ''read'' = Inr ()"
    unfolding resolve_tool_read_path_def by (auto elim!: res_bind_InrE split: option.splits)
  have "physical fs p" using c by (rule canonicalize_physical)
  with a not_sensitive [OF s] show ?thesis
    by (simp add: physical_canonicalize ensure_tool_path_allowed_def Let_def split: if_splits)
qed

definition sample_paths :: tool_paths where
  "sample_paths = \<lparr>tp_data_dir = [''d''], tp_actions_dir = [''a''], tp_config_dir = [''c''], tp_workspace_root = [''w'']\<rparr>"

definition sample_fs :: fs where
  "sample_fs = [[''w''] \<mapsto> FsDir, [''w'', ''f''] \<mapsto> FsFile, [''w'', ''l''] \<mapsto> FsLink True [''s'', ''k.pem''], [''s''] \<mapsto> FsDir]"

lemma sample_absolutize:
  "absolutize_tool_path sample_paths ''f'' = Inr [''w'', ''f'']" "absolutize_tool_path sample_paths ''l'' = Inr [''w'', ''l'']"
  by code_simp+

lemma sample_dir: "dir_path sample_fs [''w'']" "dir_path sample_fs [''s'']"
  by (simp_all add: dir_path_def sample_fs_def)

lemma sample_missing: "canonicalize sample_fs [x] = None" if "x = ''d'' \<or> x = ''a'' \<or> x = ''c''" for x
  using that by (auto simp: canonicalize_def sample_fs_def)

lemma sample_roots: "allowed_write_file_roots sample_fs sample_paths = [[''d''], [''a''], [''c''], [''w'']]"
  using sample_missing canonicalize_dir [OF sample_dir(1)]
  by (simp add: allowed_write_file_roots_def dedupe_allowed_roots_def sample_paths_def)

lemma sample_file: "canonicalize sample_fs [''w'', ''f''] = Some [''w'', ''f'']"
  by (rule physical_canonicalize) (simp add: physical_def sample_dir sample_fs_def dir_path_def)

lemma sample_plain: "\<not> tool_path_looks_sensitive_file [''w'', ''f'']" "\<not> tool_path_looks_sensitive_file [''w'', ''l'']"
  by code_simp+

theorem read_confined_witness:
  "resolve_tool_read_path sample_fs sample_paths ''f'' = Inr [''w'', ''f''] \<and> physical sample_fs [''w'', ''f'']"
proof -
  have "resolve_tool_read_path sample_fs sample_paths ''f'' = Inr [''w'', ''f'']"
    by (simp add: resolve_tool_read_path_def sample_absolutize sample_file ensure_tool_path_allowed_def allowed_file_roots_def
        sample_roots path_starts_with_def ensure_tool_target_not_sensitive_file_def sample_plain)
  with read_confined [OF this] show ?thesis by simp
qed

text \<open>
  C24. A path a tool may change lies below one of the roots and is not a credential file, and when no link lies on
  it, a write there creates or replaces exactly this file or fails.
\<close>

theorem write_confined:
  assumes "resolve_tool_mutation_path fs tp raw verb = Inr p"
  shows "list_ex (path_starts_with p) (allowed_write_file_roots fs tp) \<and> \<not> tool_path_looks_sensitive_file p
    \<and> (link_free fs p \<longrightarrow> file_write_target fs p \<in> {None, Some p})"
proof -
  from assms obtain candidate where c: "absolutize_tool_path tp raw = Inr candidate"
    by (auto simp: resolve_tool_mutation_path_def elim!: res_bind_InrE)
  have "(\<exists>root \<in> set (allowed_write_file_roots fs tp). path_starts_with p root) \<and> \<not> tool_path_looks_sensitive_file p \<and> ''..'' \<notin> set p"
  proof (cases "canonicalize fs candidate")
    case (Some q)
    with assms c show ?thesis
      by (auto simp: resolve_tool_mutation_path_def elim!: res_bind_InrE split: if_splits
          dest!: write_allowed not_sensitive canonicalize_physical physical_no_parent)
  next
    case None
    with assms c obtain cursor missing base where b: "canonicalize fs cursor = Some base"
      "ensure_tool_write_path_allowed fs tp base = Inr ()" "push_components base missing = Inr p"
      "ensure_tool_target_not_sensitive_file p verb = Inr ()"
      by (auto simp: resolve_tool_mutation_path_def elim!: res_bind_InrE split: option.splits prod.splits)
    then show ?thesis
      using pushed [OF b(3)] physical_no_parent [OF canonicalize_physical [OF b(1)]] write_allowed [OF b(2)] not_sensitive [OF b(4)]
      by (auto intro: starts_with_append)
  qed
  then show ?thesis using write_link_free by (auto simp: list_ex_iff)
qed

theorem write_confined_witness:
  "resolve_tool_mutation_path sample_fs sample_paths ''f'' ''write'' = Inr [''w'', ''f'']
   \<and> file_write_target sample_fs [''w'', ''f''] = Some [''w'', ''f'']"
proof -
  have r: "resolve_tool_mutation_path sample_fs sample_paths ''f'' ''write'' = Inr [''w'', ''f'']"
    by (simp add: resolve_tool_mutation_path_def sample_absolutize sample_file ensure_tool_write_path_allowed_def sample_roots
        path_starts_with_def ensure_tool_target_not_sensitive_file_def sample_plain is_dir_def) (simp add: sample_fs_def)
  have "link_free sample_fs [''w'', ''f'']" by (simp add: link_free_def is_link_def sample_fs_def)
  with write_confined [OF r] have "file_write_target sample_fs [''w'', ''f''] \<in> {None, Some [''w'', ''f'']}" by blast
  moreover have "file_write_target sample_fs [''w'', ''f''] \<noteq> None" by (simp add: file_write_target_def sample_fs_def)
  ultimately show ?thesis using r by blast
qed

text \<open>
  C25. A link to a file that does not exist is taken for a missing file: its own path is resolved and checked, and the
  write creates the file the link names, wherever that is and whatever its name.
\<close>

theorem dangling_link_escapes:
  assumes "absolutize_tool_path tp raw = Inr (root @ [l])" and "root \<in> set (allowed_write_file_roots fs tp)"
    and "dir_path fs root" and "l \<notin> {[], ''.'', ''..''}" and "\<not> tool_path_looks_sensitive_file (root @ [l])"
    and "fs (root @ [l]) = Some (FsLink True (out @ [x]))" and "dir_path fs out" and "x \<noteq> ''..''" and "fs (out @ [x]) = None"
  shows "resolve_tool_write_path fs tp raw = Inr (root @ [l]) \<and> file_write_target fs (root @ [l]) = Some (out @ [x])"
proof
  have n: "canonicalize fs (root @ [l]) = None"
    using walk_dirs [of fs "[]" root 40 "[l]"] walk_dirs [of fs "[]" out 39 "[x]"] assms(3-9) by (simp add: canonicalize_def)
  have "split_missing fs raw (root @ [l]) [] = Inr (root, [l])"
    using assms(3,4) n by (simp add: split_missing.simps [of fs raw "root @ [l]"] split_missing.simps [of fs raw root]
        path_exists_def file_name_def canonicalize_dir)
  moreover have "path_starts_with root root" by (simp add: path_starts_with_def)
  then have "ensure_tool_write_path_allowed fs tp root = Inr ()"
    using assms(2) by (auto simp: ensure_tool_write_path_allowed_def Let_def list_ex_iff)
  ultimately show "resolve_tool_write_path fs tp raw = Inr (root @ [l])"
    using assms(1,3,4,5) n by (simp add: resolve_tool_write_path_def resolve_tool_mutation_path_def canonicalize_dir
        ensure_tool_target_not_sensitive_file_def)
  have "make_dirs fs [] root = Some fs" using make_dirs_existing [of fs "[]" root] assms(3) by simp
  then show "file_write_target fs (root @ [l]) = Some (out @ [x])"
    using open_dirs [of fs "[]" root 40 "[l]"] open_dirs [of fs "[]" out 39 "[x]"] assms(3-9) by (simp add: file_write_target_def)
qed

theorem dangling_link_escapes_witness:
  "resolve_tool_write_path sample_fs sample_paths ''l'' = Inr [''w'', ''l'']
   \<and> file_write_target sample_fs [''w'', ''l''] = Some [''s'', ''k.pem'']
   \<and> \<not> list_ex (path_starts_with [''s'', ''k.pem'']) (allowed_write_file_roots sample_fs sample_paths)"
proof -
  have "sample_fs [''w'', ''l''] = Some (FsLink True [''s'', ''k.pem''])" "sample_fs [''s'', ''k.pem''] = None"
    by (simp_all add: sample_fs_def)
  then show ?thesis
    using dangling_link_escapes [of sample_paths "''l''" "[''w'']" "''l''" sample_fs "[''s'']" "''k.pem''"]
      sample_absolutize(2) sample_dir sample_plain(2) by (simp add: sample_roots path_starts_with_def)
qed

end
