(* ===== verification/Swarm_Activity.thy ===== *)
theory Swarm_Activity
  imports Ark_Prelude
begin

text \<open>
  The tracker of delegated runs (\<open>core/swarm/state/activity.rs\<close>): the runs in progress, by id, and the recent ones,
  newest first, each behind a lock of its own. \<open>start\_run\<close> and \<open>complete\_run\<close> take both locks one after the
  other; their two halves are separate steps between which other operations run.

  Prefixes: \<open>sa\_\<close> (\<open>SwarmActivityAgent\<close>), \<open>sr\_\<close> (\<open>SwarmActivityRun\<close>), \<open>sk\_\<close>
  (\<open>SwarmActivityTracker\<close>). The clock is the text it prints, an argument of the operations that read it.
\<close>

section \<open>Data\<close>

record activity_agent =
  sa_id :: string
  sa_agent_name :: string
  sa_agent_role :: string
  sa_model_name :: string
  sa_task :: string
  sa_status :: string
  sa_summary :: string
  sa_latest_update :: string
  sa_is_specialist :: bool
  sa_depends_on :: "nat list"
  sa_started_at :: "string option"
  sa_completed_at :: "string option"
  sa_updated_at :: string
  sa_elapsed_ms :: "nat option"

record activity_run =
  sr_id :: string
  sr_conversation_id :: "string option"
  sr_channel :: "string option"
  sr_request :: string
  sr_status :: string
  sr_summary :: string
  sr_started_at :: string
  sr_updated_at :: string
  sr_completed_at :: "string option"
  sr_agent_count :: nat
  sr_agents :: "activity_agent list"

record activity_tracker =
  sk_active :: "string \<Rightarrow> activity_run option"
  sk_recent :: "activity_run list"
  sk_max_recent :: nat

definition agent_in_progress :: "activity_agent \<Rightarrow> bool" where
  "agent_in_progress a \<longleftrightarrow> sa_status a \<in> {''assigned'', ''running'', ''synthesizing''}"

definition active_agent_count :: "activity_run \<Rightarrow> nat" where
  "active_agent_count r = length (filter agent_in_progress (sr_agents r))"

definition new_tracker :: "nat \<Rightarrow> activity_tracker" where
  "new_tracker max_recent = \<lparr>sk_active = Map.empty, sk_recent = [], sk_max_recent = max max_recent 20\<rparr>"

section \<open>Operations\<close>

definition start_forget :: "string \<Rightarrow> activity_tracker \<Rightarrow> activity_tracker" where
  "start_forget i tk = tk\<lparr>sk_recent := filter (\<lambda>r. sr_id r \<noteq> i) (sk_recent tk)\<rparr>"

definition start_insert :: "string \<Rightarrow> string \<Rightarrow> string \<Rightarrow> string option \<Rightarrow> string option \<Rightarrow> nat \<Rightarrow> activity_tracker \<Rightarrow> activity_tracker" where
  "start_insert now i request conversation_id channel agent_count tk = tk\<lparr>sk_active := (sk_active tk)(i \<mapsto>
     \<lparr>sr_id = i, sr_conversation_id = conversation_id, sr_channel = channel, sr_request = request, sr_status = ''running'',
      sr_summary = ''Preparing delegated agents.'', sr_started_at = now, sr_updated_at = now, sr_completed_at = None,
      sr_agent_count = agent_count, sr_agents = []\<rparr>)\<rparr>"

definition start_run :: "string \<Rightarrow> string \<Rightarrow> string \<Rightarrow> string option \<Rightarrow> string option \<Rightarrow> nat \<Rightarrow> activity_tracker \<Rightarrow> activity_tracker" where
  "start_run now i request conversation_id channel agent_count tk =
     start_insert now i request conversation_id channel agent_count (start_forget i tk)"

text \<open>The first agent of an id is changed in place.\<close>

fun modify_agent :: "string \<Rightarrow> (activity_agent \<Rightarrow> activity_agent) \<Rightarrow> activity_agent list \<Rightarrow> activity_agent list" where
  "modify_agent i f [] = []"
| "modify_agent i f (a # as) = (if sa_id a = i then f a # as else a # modify_agent i f as)"

definition upsert_agent :: "string \<Rightarrow> string \<Rightarrow> activity_agent \<Rightarrow> activity_tracker \<Rightarrow> activity_tracker" where
  "upsert_agent now run_id agent tk = (case sk_active tk run_id of
     None \<Rightarrow> tk
   | Some run \<Rightarrow>
      let run1 = run\<lparr>sr_updated_at := now\<rparr>;
          run2 = (if sr_agent_count run1 < max (length (sr_agents run1)) 1 then run1\<lparr>sr_agent_count := length (sr_agents run1)\<rparr> else run1);
          run3 = (if list_ex (\<lambda>a. sa_id a = sa_id agent) (sr_agents run2)
            then run2\<lparr>sr_agents := modify_agent (sa_id agent) (\<lambda>_. agent) (sr_agents run2)\<rparr>
            else (let grown = sr_agents run2 @ [agent] in
              run2\<lparr>sr_agents := grown, sr_agent_count := max (sr_agent_count run2) (length grown)\<rparr>)) in
      tk\<lparr>sk_active := (sk_active tk)(run_id \<mapsto> run3)\<rparr>)"

definition advance_agent :: "string \<Rightarrow> string \<Rightarrow> string \<Rightarrow> string option \<Rightarrow> nat option \<Rightarrow> activity_agent \<Rightarrow> activity_agent" where
  "advance_agent now status latest_update summary elapsed_ms a0 = (
     let a1 = a0\<lparr>sa_status := status\<rparr>;
         a2 = (if trim latest_update \<noteq> [] then a1\<lparr>sa_latest_update := latest_update\<rparr> else a1);
         a3 = (case summary of Some v \<Rightarrow> if trim v \<noteq> [] then a2\<lparr>sa_summary := v\<rparr> else a2 | None \<Rightarrow> a2);
         a4 = (if sa_started_at a3 = None \<and> status \<in> {''running'', ''completed'', ''failed'', ''interrupted''}
           then a3\<lparr>sa_started_at := Some now\<rparr> else a3);
         a5 = (if status \<in> {''completed'', ''failed'', ''interrupted''} then a4\<lparr>sa_completed_at := Some now\<rparr> else a4);
         a6 = a5\<lparr>sa_updated_at := now\<rparr> in
     if elapsed_ms \<noteq> None then a6\<lparr>sa_elapsed_ms := elapsed_ms\<rparr> else a6)"

definition update_agent :: "string \<Rightarrow> string \<Rightarrow> string \<Rightarrow> string \<Rightarrow> string \<Rightarrow> string option \<Rightarrow> nat option \<Rightarrow> activity_tracker \<Rightarrow> activity_tracker" where
  "update_agent now run_id agent_id status latest_update summary elapsed_ms tk = (case sk_active tk run_id of
     None \<Rightarrow> tk
   | Some run \<Rightarrow> tk\<lparr>sk_active := (sk_active tk)(run_id \<mapsto> run\<lparr>sr_updated_at := now,
       sr_agents := modify_agent agent_id (advance_agent now status latest_update summary elapsed_ms) (sr_agents run)\<rparr>)\<rparr>)"

definition update_run_status :: "string \<Rightarrow> string \<Rightarrow> string \<Rightarrow> string \<Rightarrow> activity_tracker \<Rightarrow> activity_tracker" where
  "update_run_status now run_id status summary tk = (case sk_active tk run_id of
     None \<Rightarrow> tk
   | Some run \<Rightarrow>
      let run1 = run\<lparr>sr_status := status\<rparr>;
          run2 = (if trim summary \<noteq> [] then run1\<lparr>sr_summary := summary\<rparr> else run1) in
      tk\<lparr>sk_active := (sk_active tk)(run_id \<mapsto> run2\<lparr>sr_updated_at := now\<rparr>)\<rparr>)"

definition close_agent :: "string \<Rightarrow> string \<Rightarrow> activity_agent \<Rightarrow> activity_agent" where
  "close_agent now status a = (if agent_in_progress a
     then a\<lparr>sa_status := (if status = ''interrupted'' then ''interrupted'' else if status = ''failed'' then ''failed'' else ''completed''),
            sa_completed_at := Some now, sa_updated_at := now\<rparr>
     else a)"

definition completed_run :: "string \<Rightarrow> string \<Rightarrow> string \<Rightarrow> activity_run \<Rightarrow> activity_run" where
  "completed_run now status summary run = (
     let run1 = run\<lparr>sr_status := status\<rparr>;
         run2 = (if trim summary \<noteq> [] then run1\<lparr>sr_summary := summary\<rparr> else run1) in
     run2\<lparr>sr_updated_at := now, sr_completed_at := Some now, sr_agents := map (close_agent now status) (sr_agents run2)\<rparr>)"

text \<open>The first half of \<open>complete\_run\<close> takes the run out, the second one files it.\<close>

definition complete_take :: "string \<Rightarrow> string \<Rightarrow> string \<Rightarrow> string \<Rightarrow> activity_tracker \<Rightarrow> activity_run option \<times> activity_tracker" where
  "complete_take now run_id status summary tk = (case sk_active tk run_id of
     None \<Rightarrow> (None, tk)
   | Some run \<Rightarrow> (Some (completed_run now status summary run), tk\<lparr>sk_active := (sk_active tk)(run_id := None)\<rparr>))"

definition complete_file :: "activity_run \<Rightarrow> activity_tracker \<Rightarrow> activity_tracker" where
  "complete_file run tk = tk\<lparr>sk_recent := take (sk_max_recent tk) (run # filter (\<lambda>r. sr_id r \<noteq> sr_id run) (sk_recent tk))\<rparr>"

definition complete_run :: "string \<Rightarrow> string \<Rightarrow> string \<Rightarrow> string \<Rightarrow> activity_tracker \<Rightarrow> activity_tracker" where
  "complete_run now run_id status summary tk = (case complete_take now run_id status summary tk of
     (None, tk1) \<Rightarrow> tk1 | (Some run, tk1) \<Rightarrow> complete_file run tk1)"

definition interrupt_run :: "string \<Rightarrow> string \<Rightarrow> string \<Rightarrow> activity_tracker \<Rightarrow> activity_tracker" where
  "interrupt_run now run_id summary = complete_run now run_id ''interrupted'' summary"

text \<open>\<open>keys\<close> is the order in which the hash map is iterated.\<close>

definition active_runs :: "string list \<Rightarrow> activity_tracker \<Rightarrow> activity_run list" where
  "active_runs keys tk = rev (sort_key sr_updated_at (rev (List.map_filter (sk_active tk) keys)))"

definition recent_runs :: "nat \<Rightarrow> activity_tracker \<Rightarrow> activity_run list" where
  "recent_runs limit tk = take limit (sk_recent tk)"

section \<open>Interleaved operations\<close>

text \<open>
  The tracker with the operations that are between their two halves: runs that are taken out and not yet filed, and
  starts that have not inserted their run. A call can be dropped between its halves, as every future can at an
  \<open>await\<close>.
\<close>

datatype activity_op =
    OpForget string
  | OpInsert string string string "string option" "string option" nat
  | OpUpsert string string activity_agent
  | OpAdvance string string string string string "string option" "nat option"
  | OpStatus string string string string
  | OpTake string string string string
  | OpFile activity_run
  | OpDrop activity_run

record activity_state =
  as_tracker :: activity_tracker
  as_starting :: "string list"
  as_filing :: "activity_run list"

inductive activity_step :: "activity_op \<Rightarrow> activity_state \<Rightarrow> activity_state \<Rightarrow> bool" where
  Forget: "activity_step (OpForget i) s (s\<lparr>as_tracker := start_forget i (as_tracker s), as_starting := i # as_starting s\<rparr>)"
| Insert: "i \<in> set (as_starting s) \<Longrightarrow> activity_step (OpInsert now i request conversation channel n) s
    (s\<lparr>as_tracker := start_insert now i request conversation channel n (as_tracker s), as_starting := remove1 i (as_starting s)\<rparr>)"
| Upsert: "activity_step (OpUpsert now i agent) s (s\<lparr>as_tracker := upsert_agent now i agent (as_tracker s)\<rparr>)"
| Advance: "activity_step (OpAdvance now i a status latest summary elapsed) s
    (s\<lparr>as_tracker := update_agent now i a status latest summary elapsed (as_tracker s)\<rparr>)"
| Status: "activity_step (OpStatus now i status summary) s (s\<lparr>as_tracker := update_run_status now i status summary (as_tracker s)\<rparr>)"
| Take: "complete_take now i status summary (as_tracker s) = (Some run, tk) \<Longrightarrow>
    activity_step (OpTake now i status summary) s (s\<lparr>as_tracker := tk, as_filing := run # as_filing s\<rparr>)"
| Take_None: "complete_take now i status summary (as_tracker s) = (None, tk) \<Longrightarrow>
    activity_step (OpTake now i status summary) s (s\<lparr>as_tracker := tk\<rparr>)"
| File: "run \<in> set (as_filing s) \<Longrightarrow> activity_step (OpFile run) s
    (s\<lparr>as_tracker := complete_file run (as_tracker s), as_filing := remove1 run (as_filing s)\<rparr>)"
| Drop: "run \<in> set (as_filing s) \<Longrightarrow> activity_step (OpDrop run) s (s\<lparr>as_filing := remove1 run (as_filing s)\<rparr>)"

inductive activity_path :: "activity_op list \<Rightarrow> activity_state \<Rightarrow> activity_state \<Rightarrow> bool" where
  Done: "activity_path [] s s"
| Step: "activity_step op s t \<Longrightarrow> activity_path ops t u \<Longrightarrow> activity_path (op # ops) s u"

inductive_cases activity_path_NilE: "activity_path [] s t"
inductive_cases activity_path_ConsE: "activity_path (op # ops) s t"

definition activity_start :: "nat \<Rightarrow> activity_state" where
  "activity_start n = \<lparr>as_tracker = new_tracker n, as_starting = [], as_filing = []\<rparr>"

text \<open>Which run an operation starts.\<close>

fun starts_run :: "activity_op \<Rightarrow> string option" where
  "starts_run (OpForget i) = Some i"
| "starts_run (OpInsert _ i _ _ _ _) = Some i"
| "starts_run _ = None"

section \<open>Well-formed trackers\<close>

definition open_run_ok :: "string \<Rightarrow> activity_run \<Rightarrow> bool" where
  "open_run_ok i r \<longleftrightarrow> sr_id r = i \<and> sr_completed_at r = None \<and> distinct (map sa_id (sr_agents r))
     \<and> length (sr_agents r) \<le> sr_agent_count r"

definition closed_run_ok :: "activity_run \<Rightarrow> bool" where
  "closed_run_ok r \<longleftrightarrow> sr_completed_at r = Some (sr_updated_at r) \<and> distinct (map sa_id (sr_agents r))
     \<and> length (sr_agents r) \<le> sr_agent_count r \<and> active_agent_count r = 0"

definition tracker_ok :: "activity_tracker \<Rightarrow> bool" where
  "tracker_ok tk \<longleftrightarrow> (\<forall>i r. sk_active tk i = Some r \<longrightarrow> open_run_ok i r) \<and> distinct (map sr_id (sk_recent tk))
     \<and> list_all closed_run_ok (sk_recent tk) \<and> length (sk_recent tk) \<le> sk_max_recent tk \<and> 20 \<le> sk_max_recent tk"

lemma modify_agent_ids: "(\<And>a. sa_id a = i \<Longrightarrow> sa_id (f a) = i) \<Longrightarrow> map sa_id (modify_agent i f as) = map sa_id as"
  by (induction as) auto

lemma modify_agent_length [simp]: "length (modify_agent i f as) = length as"
  by (induction as) auto

lemma advance_agent_id [simp]: "sa_id (advance_agent now status latest summary elapsed a) = sa_id a"
  by (simp add: advance_agent_def Let_def split: option.splits)

lemma close_agent_id [simp]: "sa_id (close_agent now status a) = sa_id a"
  by (simp add: close_agent_def)

lemma close_agent_done [simp]: "\<not> agent_in_progress (close_agent now status a)"
  by (simp add: close_agent_def agent_in_progress_def)

lemma completed_run_ok: "open_run_ok i r \<Longrightarrow> closed_run_ok (completed_run now status summary r)"
  by (simp add: open_run_ok_def closed_run_ok_def completed_run_def Let_def active_agent_count_def filter_empty_conv comp_def)

lemma completed_run_id [simp]: "sr_id (completed_run now status summary r) = sr_id r"
  by (simp add: completed_run_def Let_def)

lemma filter_ids: "distinct (map sr_id rs) \<Longrightarrow> distinct (map sr_id (filter P rs))"
  by (induction rs) auto

lemma new_tracker_ok: "tracker_ok (new_tracker n)"
  by (simp add: tracker_ok_def new_tracker_def)

lemma start_forget_ok: "tracker_ok tk \<Longrightarrow> tracker_ok (start_forget i tk)"
  by (auto simp: tracker_ok_def start_forget_def filter_ids list_all_iff intro: le_trans [OF length_filter_le])

lemma start_insert_ok: "tracker_ok tk \<Longrightarrow> tracker_ok (start_insert now i request conversation channel n tk)"
  by (simp add: tracker_ok_def start_insert_def open_run_ok_def)

lemma upsert_agent_ok:
  assumes "tracker_ok tk"
  shows "tracker_ok (upsert_agent now i agent tk)"
proof (cases "sk_active tk i")
  case (Some r)
  with assms have "open_run_ok i r" by (simp add: tracker_ok_def)
  then show ?thesis using assms Some
    by (auto simp: upsert_agent_def Let_def tracker_ok_def open_run_ok_def modify_agent_ids list_ex_iff)
qed (simp add: assms upsert_agent_def)

lemma update_agent_ok: "tracker_ok tk \<Longrightarrow> tracker_ok (update_agent now i a status latest summary elapsed tk)"
  by (auto simp: update_agent_def tracker_ok_def open_run_ok_def modify_agent_ids split: option.splits)

lemma update_run_status_ok: "tracker_ok tk \<Longrightarrow> tracker_ok (update_run_status now i status summary tk)"
  by (auto simp: update_run_status_def Let_def tracker_ok_def open_run_ok_def split: option.splits)

lemma complete_take_ok:
  assumes "complete_take now i status summary tk = (x, tk')" and "tracker_ok tk"
  shows "tracker_ok tk' \<and> (case x of Some run \<Rightarrow> closed_run_ok run \<and> sr_id run = i \<and> sk_active tk i \<noteq> None | None \<Rightarrow> True)"
proof (cases "sk_active tk i")
  case (Some r)
  with assms(2) have r: "open_run_ok i r" by (simp add: tracker_ok_def)
  then have "sr_id r = i" by (simp add: open_run_ok_def)
  with assms Some completed_run_ok [OF r] show ?thesis by (auto simp: complete_take_def tracker_ok_def split: if_splits)
qed (use assms in \<open>simp add: complete_take_def\<close>)

lemma complete_file_ok:
  assumes "tracker_ok tk" and "closed_run_ok run"
  shows "tracker_ok (complete_file run tk)"
proof -
  let ?rs = "run # filter (\<lambda>r. sr_id r \<noteq> sr_id run) (sk_recent tk)"
  have "distinct (map sr_id ?rs)" and "list_all closed_run_ok ?rs"
    using assms by (auto simp: tracker_ok_def filter_ids list_all_iff)
  moreover from this(2) have "list_all closed_run_ok (take n ?rs)" for n
    unfolding list_all_iff by (blast dest: in_set_takeD)
  ultimately have "distinct (map sr_id (take n ?rs)) \<and> list_all closed_run_ok (take n ?rs)" for n
    unfolding take_map [symmetric] by (blast intro: distinct_take)
  then show ?thesis using assms(1) by (simp add: tracker_ok_def complete_file_def)
qed

lemma activity_step_ok:
  assumes "activity_step op s t" and "tracker_ok (as_tracker s)" and "list_all closed_run_ok (as_filing s)"
  shows "tracker_ok (as_tracker t) \<and> list_all closed_run_ok (as_filing t)"
  using assms
  by (induction rule: activity_step.induct)
    (auto simp: start_forget_ok start_insert_ok upsert_agent_ok update_agent_ok update_run_status_ok complete_file_ok list_all_iff
      dest: complete_take_ok notin_set_remove1)

lemma activity_path_ok:
  "activity_path ops s t \<Longrightarrow> tracker_ok (as_tracker s) \<Longrightarrow> list_all closed_run_ok (as_filing s) \<Longrightarrow>
     tracker_ok (as_tracker t) \<and> list_all closed_run_ok (as_filing t)"
  by (induction rule: activity_path.induct) (auto dest: activity_step_ok)

text \<open>
  C26. Whatever operations run between the halves of others, the tracker is well formed: runs are filed under their own
  ids, recent runs have distinct ids, are at most as many as configured, have ended and have no agent in progress, and
  no run has more agents than it announces.
\<close>

theorem activity_reachable_ok:
  assumes "activity_path ops (activity_start n) t"
  shows "tracker_ok (as_tracker t) \<and> list_all closed_run_ok (as_filing t)"
  using activity_path_ok [OF assms] by (simp add: activity_start_def new_tracker_ok)

theorem activity_reachable_ok_witness:
  "\<exists>t. activity_path [OpForget ''r'', OpInsert ''1'' ''r'' ''q'' None None 0] (activity_start 0) t
     \<and> tracker_ok (as_tracker t) \<and> sk_active (as_tracker t) ''r'' \<noteq> None"
proof -
  obtain t where t: "activity_path [OpForget ''r'', OpInsert ''1'' ''r'' ''q'' None None 0] (activity_start 0) t"
    "sk_active (as_tracker t) ''r'' \<noteq> None"
  proof
    show "activity_path [OpForget ''r'', OpInsert ''1'' ''r'' ''q'' None None 0] (activity_start 0)
      (let s = activity_start 0; s1 = s\<lparr>as_tracker := start_forget ''r'' (as_tracker s), as_starting := ''r'' # as_starting s\<rparr>
       in s1\<lparr>as_tracker := start_insert ''1'' ''r'' ''q'' None None 0 (as_tracker s1), as_starting := remove1 ''r'' (as_starting s1)\<rparr>)"
      unfolding Let_def by (rule activity_path.Step activity_step.Forget activity_step.Insert activity_path.Done | simp)+
  qed (simp add: Let_def start_insert_def)
  with activity_reachable_ok [OF t(1)] show ?thesis by blast
qed

section \<open>Whole operations\<close>

text \<open>When every call runs to its end before the next one, no run is active and recent at once.\<close>

datatype activity_call =
    CallStart string string string "string option" "string option" nat
  | CallUpsert string string activity_agent
  | CallAdvance string string string string string "string option" "nat option"
  | CallStatus string string string string
  | CallComplete string string string string

fun whole_call :: "activity_call \<Rightarrow> activity_tracker \<Rightarrow> activity_tracker" where
  "whole_call (CallStart now i request conversation channel n) = start_run now i request conversation channel n"
| "whole_call (CallUpsert now i agent) = upsert_agent now i agent"
| "whole_call (CallAdvance now i a status latest summary elapsed) = update_agent now i a status latest summary elapsed"
| "whole_call (CallStatus now i status summary) = update_run_status now i status summary"
| "whole_call (CallComplete now i status summary) = complete_run now i status summary"

definition listed_once :: "activity_tracker \<Rightarrow> bool" where
  "listed_once tk \<longleftrightarrow> (\<forall>r \<in> set (sk_recent tk). sk_active tk (sr_id r) = None)"

lemma dom_upsert_agent: "sk_active (upsert_agent now i agent tk) j = None \<longleftrightarrow> sk_active tk j = None"
  "sk_recent (upsert_agent now i agent tk) = sk_recent tk"
  by (simp_all add: upsert_agent_def Let_def split: option.splits)

lemma dom_update_agent: "sk_active (update_agent now i a status latest summary elapsed tk) j = None \<longleftrightarrow> sk_active tk j = None"
  "sk_recent (update_agent now i a status latest summary elapsed tk) = sk_recent tk"
  by (simp_all add: update_agent_def split: option.splits)

lemma dom_update_run_status: "sk_active (update_run_status now i status summary tk) j = None \<longleftrightarrow> sk_active tk j = None"
  "sk_recent (update_run_status now i status summary tk) = sk_recent tk"
  by (simp_all add: update_run_status_def Let_def split: option.splits)

lemmas dom_updates = dom_upsert_agent dom_update_agent dom_update_run_status

lemma listed_once_complete:
  assumes "listed_once tk" and "tracker_ok tk"
  shows "listed_once (complete_run now i status summary tk)"
proof (cases "sk_active tk i")
  case (Some r)
  with assms(2) have "sr_id r = i" by (simp add: tracker_ok_def open_run_ok_def)
  with Some assms(1) show ?thesis
    by (auto simp: listed_once_def complete_run_def complete_take_def complete_file_def dest!: in_set_takeD)
qed (simp add: assms complete_run_def complete_take_def)

lemma whole_call_ok:
  assumes "tracker_ok tk" and "listed_once tk"
  shows "tracker_ok (whole_call c tk) \<and> listed_once (whole_call c tk)"
proof (cases c)
  case (CallStart now i request conversation channel n)
  then show ?thesis using assms
    by (auto simp: start_run_def start_insert_ok start_forget_ok) (auto simp: listed_once_def start_insert_def start_forget_def)
next
  case (CallComplete now i status summary)
  obtain x tk' where x: "complete_take now i status summary tk = (x, tk')" by (cases "complete_take now i status summary tk")
  from complete_take_ok [OF this assms(1)] have "tracker_ok (complete_run now i status summary tk)"
    by (auto simp: complete_run_def x complete_file_ok split: option.splits)
  with CallComplete assms listed_once_complete show ?thesis by simp
qed (use assms in \<open>auto simp: upsert_agent_ok update_agent_ok update_run_status_ok listed_once_def dom_updates\<close>)

text \<open>
  As long as every call runs to its end before the next one, no run is active and recent at the same time.
\<close>

theorem whole_calls_list_once: "listed_once (fold whole_call calls (new_tracker n))"
proof -
  have "tracker_ok (fold whole_call calls tk) \<and> listed_once (fold whole_call calls tk)" if "tracker_ok tk" "listed_once tk" for tk
    using that by (induction calls arbitrary: tk) (simp_all add: whole_call_ok)
  moreover have "listed_once (new_tracker n)" by (simp add: listed_once_def new_tracker_def)
  ultimately show ?thesis by (simp add: new_tracker_ok)
qed

text \<open>
  A run that is started again while its completion is between its two locks ends up active and recent at once: the
  record of the first attempt is filed after the second one has begun.
\<close>

theorem restarted_run_listed_twice:
  "\<exists>ops t. activity_path ops (activity_start n) t
     \<and> list_ex (\<lambda>r. sr_id r = i \<and> sr_status r = ''failed'') (sk_recent (as_tracker t))
     \<and> (\<exists>r. sk_active (as_tracker t) i = Some r \<and> sr_status r = ''running'')"
proof -
  let ?forget = "\<lambda>s. s\<lparr>as_tracker := start_forget i (as_tracker s), as_starting := i # as_starting s\<rparr>"
  let ?insert = "\<lambda>now s. s\<lparr>as_tracker := start_insert now i [] None None 1 (as_tracker s), as_starting := remove1 i (as_starting s)\<rparr>"
  let ?r = "\<lparr>sr_id = i, sr_conversation_id = None, sr_channel = None, sr_request = [], sr_status = ''running'',
      sr_summary = ''Preparing delegated agents.'', sr_started_at = ''1'', sr_updated_at = ''1'', sr_completed_at = None,
      sr_agent_count = 1, sr_agents = []\<rparr>"
  let ?c = "completed_run ''2'' ''failed'' [] ?r"
  define s1 where "s1 = ?forget (activity_start n)"
  define s2 where "s2 = ?insert ''1'' s1"
  define s3 where "s3 = s2\<lparr>as_tracker := as_tracker s2\<lparr>sk_active := (sk_active (as_tracker s2))(i := None)\<rparr>, as_filing := ?c # as_filing s2\<rparr>"
  define s4 where "s4 = ?forget s3"
  define s5 where "s5 = ?insert ''3'' s4"
  define s6 where "s6 = s5\<lparr>as_tracker := complete_file ?c (as_tracker s5), as_filing := remove1 ?c (as_filing s5)\<rparr>"
  note d = s1_def s2_def s3_def s4_def s5_def activity_start_def new_tracker_def start_forget_def start_insert_def
  have t: "complete_take ''2'' i ''failed'' [] (as_tracker s2) = (Some ?c, as_tracker s2\<lparr>sk_active := (sk_active (as_tracker s2))(i := None)\<rparr>)"
    by (simp add: complete_take_def d)
  have "activity_step (OpForget i) (activity_start n) s1" unfolding s1_def by (rule Forget)
  moreover have "activity_step (OpInsert ''1'' i [] None None 1) s1 s2" unfolding s2_def by (rule Insert) (simp add: s1_def)
  moreover have "activity_step (OpTake ''2'' i ''failed'' []) s2 s3" unfolding s3_def by (rule Take [OF t])
  moreover have "activity_step (OpForget i) s3 s4" unfolding s4_def by (rule Forget)
  moreover have "activity_step (OpInsert ''3'' i [] None None 1) s4 s5" unfolding s5_def by (rule Insert) (simp add: s4_def)
  moreover have "activity_step (OpFile ?c) s5 s6" unfolding s6_def by (rule File) (simp add: d)
  ultimately have p: "\<exists>ops. activity_path ops (activity_start n) s6" by (blast intro: activity_path.intros)
  have "list_ex (\<lambda>r. sr_id r = i \<and> sr_status r = ''failed'') (sk_recent (as_tracker s6))"
    "sk_active (as_tracker s6) i = Some (?r\<lparr>sr_started_at := ''3'', sr_updated_at := ''3''\<rparr>)"
    by (simp_all add: s6_def complete_file_def d completed_run_def Let_def take_Cons')
  moreover have "sr_status (?r\<lparr>sr_started_at := ''3'', sr_updated_at := ''3''\<rparr>) = ''running''" by simp
  ultimately show ?thesis using p by blast
qed

section \<open>The first outcome of a run\<close>

text \<open>Every record of a run that is not active any more is the given one.\<close>

definition settled :: "string \<Rightarrow> activity_run \<Rightarrow> activity_state \<Rightarrow> bool" where
  "settled i run s \<longleftrightarrow> sk_active (as_tracker s) i = None \<and> i \<notin> set (as_starting s)
     \<and> list_all (\<lambda>r. sr_id r = i \<longrightarrow> r = run) (as_filing s @ sk_recent (as_tracker s))"

lemma settled_sub:
  assumes "settled i run s" and "sk_active (as_tracker t) i = None" and "i \<notin> set (as_starting t)"
    and "set (as_filing t) \<union> set (sk_recent (as_tracker t)) \<subseteq> set (as_filing s) \<union> set (sk_recent (as_tracker s))"
  shows "settled i run t"
  using assms unfolding settled_def list_all_iff set_append by (simp add: subset_iff) blast

lemma settled_step:
  assumes "activity_step op s t" and "tracker_ok (as_tracker s)" and "settled i run s" and "starts_run op \<noteq> Some i"
  shows "settled i run t"
  using assms
proof (induction rule: activity_step.induct)
  case (Forget j s)
  show ?case by (rule settled_sub [OF Forget(2)]) (use Forget in \<open>auto simp: settled_def start_forget_def\<close>)
next
  case (Insert j s now request conversation channel n)
  show ?case by (rule settled_sub [OF Insert(3)])
    (use Insert in \<open>auto simp: settled_def start_insert_def dest: notin_set_remove1 set_remove1_subset [THEN subsetD]\<close>)
next
  case (Take now j status summary s x tk)
  from complete_take_ok [OF Take(1,2)] have j: "sr_id x = j" "j \<noteq> i" using Take(3) by (auto simp: settled_def)
  moreover from Take(1) have "tk = (as_tracker s)\<lparr>sk_active := (sk_active (as_tracker s))(j := None)\<rparr>"
    by (auto simp: complete_take_def split: option.splits)
  ultimately show ?case using Take(3) by (simp add: settled_def)
next
  case (Take_None now j status summary s tk)
  then have "tk = as_tracker s" by (auto simp: complete_take_def split: option.splits)
  then show ?case using Take_None(3) by simp
next
  case (File x s)
  show ?case by (rule settled_sub [OF File(3)])
    (use File in \<open>auto simp: settled_def complete_file_def dest!: in_set_takeD dest: set_remove1_subset [THEN subsetD]\<close>)
next
  case (Drop x s)
  show ?case by (rule settled_sub [OF Drop(3)])
    (use Drop in \<open>auto simp: settled_def dest: set_remove1_subset [THEN subsetD]\<close>)
qed (auto simp: settled_def dom_updates)

lemma settled_path:
  assumes "activity_path ops s t" and "tracker_ok (as_tracker s)" and "list_all closed_run_ok (as_filing s)"
    and "settled i run s" and "Some i \<notin> starts_run ` set ops"
  shows "settled i run t"
  using assms
proof (induction rule: activity_path.induct)
  case (Step op s t ops u)
  from Step.prems(4) have "starts_run op \<noteq> Some i" "Some i \<notin> starts_run ` set ops" by (auto simp: image_iff)
  then show ?case using Step.IH Step.prems activity_step_ok [OF Step.hyps(1)] settled_step [OF Step.hyps(1)] by blast
qed

text \<open>
  C27. The first outcome of a run is its only one. A completion or interruption takes an active run at a
  moment when no start of the same identifier is between its halves, no completion of an earlier run of that
  identifier is still waiting to be filed, and none is among the recent runs: in particular, a run whose
  identifier has been used only once. From then on no later completion, interruption or update changes
  what is filed for it, until the identifier is started again.
\<close>

theorem first_outcome_kept:
  assumes "activity_path before (activity_start n) s" and "sk_active (as_tracker s) i = Some r"
    and "i \<notin> set (as_starting s)" and "i \<notin> sr_id ` set (as_filing s)" and "i \<notin> sr_id ` set (sk_recent (as_tracker s))"
    and "activity_path (OpTake now i status summary # ops) s t" and "Some i \<notin> starts_run ` set ops"
  shows "sk_active (as_tracker t) i = None
     \<and> list_all (\<lambda>x. sr_id x = i \<longrightarrow> x = completed_run now status summary r) (as_filing t @ sk_recent (as_tracker t))"
proof -
  let ?c = "completed_run now status summary r"
  have s: "tracker_ok (as_tracker s)" "list_all closed_run_ok (as_filing s)"
    using activity_path_ok [OF assms(1)] by (simp_all add: activity_start_def new_tracker_ok)
  from assms(6) obtain u where u: "activity_step (OpTake now i status summary) s u" "activity_path ops u t"
    by (auto elim: activity_path_ConsE)
  have "settled i ?c u" using u(1)
    by (cases rule: activity_step.cases) (use assms(2-5) in \<open>auto simp: complete_take_def settled_def list_all_iff image_iff\<close>)
  then have "settled i ?c t" using settled_path [OF u(2)] activity_step_ok [OF u(1) s] assms(7) by blast
  then show ?thesis by (simp add: settled_def)
qed

theorem first_outcome_kept_witness:
  "\<exists>s t. activity_path [OpTake ''2'' ''r'' ''failed'' [], OpTake ''3'' ''r'' ''completed'' []] s t
     \<and> sk_active (as_tracker t) ''r'' = None \<and> map sr_status (as_filing t) = [''failed'']"
proof -
  let ?s = "activity_start 0"
  define s1 where "s1 = ?s\<lparr>as_tracker := start_forget ''r'' (as_tracker ?s), as_starting := ''r'' # as_starting ?s\<rparr>"
  define s2 where "s2 = s1\<lparr>as_tracker := start_insert ''1'' ''r'' [] None None 1 (as_tracker s1), as_starting := remove1 ''r'' (as_starting s1)\<rparr>"
  obtain r where r: "sk_active (as_tracker s2) ''r'' = Some r" by (simp add: s2_def start_insert_def)
  define s3 where "s3 = s2\<lparr>as_tracker := as_tracker s2\<lparr>sk_active := (sk_active (as_tracker s2))(''r'' := None)\<rparr>,
    as_filing := completed_run ''2'' ''failed'' [] r # as_filing s2\<rparr>"
  have "activity_step (OpForget ''r'') ?s s1" unfolding s1_def by (rule Forget)
  moreover have "activity_step (OpInsert ''1'' ''r'' [] None None 1) s1 s2" unfolding s2_def by (rule Insert) (simp add: s1_def)
  ultimately have before: "activity_path [OpForget ''r'', OpInsert ''1'' ''r'' [] None None 1] ?s s2" by (blast intro: activity_path.intros)
  have "activity_step (OpTake ''2'' ''r'' ''failed'' []) s2 s3"
    unfolding s3_def by (rule Take) (simp add: complete_take_def r)
  moreover have "activity_step (OpTake ''3'' ''r'' ''completed'' []) s3 (s3\<lparr>as_tracker := as_tracker s3\<rparr>)"
    by (rule Take_None) (simp add: complete_take_def s3_def)
  ultimately have path: "activity_path [OpTake ''2'' ''r'' ''failed'' [], OpTake ''3'' ''r'' ''completed'' []] s2 s3"
    by (auto intro: activity_path.intros)
  have e: "as_starting s2 = []" "as_filing s2 = []" "sk_recent (as_tracker s2) = []"
    by (simp_all add: s2_def s1_def start_insert_def start_forget_def activity_start_def new_tracker_def)
  have "sk_active (as_tracker s3) ''r'' = None"
    using first_outcome_kept [OF before r _ _ _ path] by (simp add: e)
  moreover have "map sr_status (as_filing s3) = [''failed'']" by (simp add: s3_def e completed_run_def Let_def)
  ultimately show ?thesis using path by (intro exI [of _ s2] exI [of _ s3] conjI)
qed

end
