(* ===== verification/Statement_Programs.thy ===== *)
theory Statement_Programs
  imports Kv_Storage
begin

text \<open>
  Handlers that read and write the key-value store without a lock, as programs of single statements: what a handler
  does next depends on what its reads returned. A program is run to its end by \<open>exec\<close>, on the store and
  faults of \<open>Kv\_Storage\<close>; \<open>weave\<close> runs many at once and lets any of them make the next statement, fail, or wait.

  The locale \<open>document\_guarantee\<close> is the contract under which handlers may be woven: each writes only good
  documents when it has read only good ones.
\<close>

section \<open>Programs\<close>

datatype ('b, 'r) prog =
    Return "'r result"
  | Get string "'b list option \<Rightarrow> ('b, 'r) prog"
  | Put string "'b list" "('b, 'r) prog"

abbreviation return :: "'r \<Rightarrow> ('b, 'r) prog" where
  "return r \<equiv> Return (Inr r)"

abbreviation abort :: "string \<Rightarrow> ('b, 'r) prog" where
  "abort e \<equiv> Return (Inl (Err e))"

text \<open>What follows, with or without the errors of what comes before.\<close>

primrec bindP :: "('b, 'a) prog \<Rightarrow> ('a \<Rightarrow> ('b, 'r) prog) \<Rightarrow> ('b, 'r) prog" where
  "bindP (Return r) f = (case r of Inl e \<Rightarrow> Return (Inl e) | Inr a \<Rightarrow> f a)"
| "bindP (Get k g) f = Get k (\<lambda>v. bindP (g v) f)"
| "bindP (Put k v p) f = Put k v (bindP p f)"

primrec catchP :: "('b, 'a) prog \<Rightarrow> ('a result \<Rightarrow> ('b, 'r) prog) \<Rightarrow> ('b, 'r) prog" where
  "catchP (Return r) f = f r"
| "catchP (Get k g) f = Get k (\<lambda>v. catchP (g v) f)"
| "catchP (Put k v p) f = Put k v (catchP p f)"

definition ensure :: "bool \<Rightarrow> string \<Rightarrow> ('b, unit) prog" where
  "ensure c e = (if c then return () else abort e)"

definition given :: "string \<Rightarrow> 'a option \<Rightarrow> ('b, 'a) prog" where
  "given e x = (case x of None \<Rightarrow> abort e | Some a \<Rightarrow> return a)"

section \<open>Running one program\<close>

text \<open>A failed statement ends the handler. \<open>stamp\<close> is the text of the clock in the rows.\<close>

primrec exec :: "string \<Rightarrow> ('b, 'r) prog \<Rightarrow> ('b kv_db, 'r) io" where
  "exec stamp (Return r) = lift_result r"
| "exec stamp (Get k g) = (\<lambda>d. case kv_get k d of (Inl e, d') \<Rightarrow> (Inl e, d') | (Inr v, d') \<Rightarrow> exec stamp (g v) d')"
| "exec stamp (Put k v p) = (\<lambda>d. case kv_set stamp k v d of (Inl e, d') \<Rightarrow> (Inl e, d') | (Inr _, d') \<Rightarrow> exec stamp p d')"

text \<open>The bytes under a key.\<close>

definition bytes_at :: "'b kv_table \<Rightarrow> string \<Rightarrow> 'b list option" where
  "bytes_at t k = map_option kv_value (t k)"

lemma bytes_at_upsert [simp]: "bytes_at (kv_upsert stamp k v t) = (bytes_at t)(k \<mapsto> v)"
  by (rule ext) (auto simp: bytes_at_def kv_upsert_def split: option.splits)

text \<open>Without faults, over the bytes alone.\<close>

primrec run :: "('b, 'r) prog \<Rightarrow> (string \<Rightarrow> 'b list option) \<Rightarrow> 'r result \<times> (string \<Rightarrow> 'b list option)" where
  "run (Return r) t = (r, t)"
| "run (Get k g) t = run (g (t k)) t"
| "run (Put k v p) t = run p (t(k \<mapsto> v))"

lemma exec_run:
  assumes "faults d = []"
  shows "fst (exec stamp p d) = fst (run p (bytes_at (tables d)))
    \<and> bytes_at (tables (snd (exec stamp p d))) = snd (run p (bytes_at (tables d))) \<and> faults (snd (exec stamp p d)) = []"
  using assms
proof (induction p arbitrary: d)
  case (Get k g)
  have "kv_get k d = (Inr (bytes_at (tables d) k), d)" using Get.prems by (simp add: kv_get_def bytes_at_def bindE_def)
  with Get show ?case by simp
next
  case (Put k v p)
  have "kv_set stamp k v d = (Inr (), d\<lparr>tables := kv_upsert stamp k v (tables d)\<rparr>)" using Put.prems by (simp add: kv_set_def)
  then show ?case using Put.IH [of "d\<lparr>tables := kv_upsert stamp k v (tables d)\<rparr>"] Put.prems by (simp add: fun_upd_def)
qed simp

lemma run_bindP: "run (bindP p f) t = (case run p t of (Inl e, t') \<Rightarrow> (Inl e, t') | (Inr a, t') \<Rightarrow> run (f a) t')"
  by (induction p arbitrary: t) (auto split: sum.splits)

lemma run_catchP: "run (catchP p f) t = (case run p t of (r, t') \<Rightarrow> run (f r) t')"
  by (induction p arbitrary: t) auto

lemma run_ensure [simp]: "run (ensure c e) t = (if c then Inr () else Inl (Err e), t)"
  by (simp add: ensure_def)

lemma run_given [simp]: "run (given e x) t = (case x of None \<Rightarrow> Inl (Err e) | Some a \<Rightarrow> Inr a, t)"
  by (simp add: given_def split: option.splits)

section \<open>Programs that write good documents only\<close>

primrec safe :: "(string \<Rightarrow> 'b list \<Rightarrow> bool) \<Rightarrow> ('r \<Rightarrow> bool) \<Rightarrow> ('b, 'r) prog \<Rightarrow> bool" where
  "safe good post (Return r) \<longleftrightarrow> (case r of Inl _ \<Rightarrow> True | Inr a \<Rightarrow> post a)"
| "safe good post (Get k g) \<longleftrightarrow> (\<forall>v. (case v of None \<Rightarrow> True | Some b \<Rightarrow> good k b) \<longrightarrow> safe good post (g v))"
| "safe good post (Put k v p) \<longleftrightarrow> good k v \<and> safe good post p"

lemma safe_bindP: "safe good post p \<Longrightarrow> (\<And>a. post a \<Longrightarrow> safe good q (f a)) \<Longrightarrow> safe good q (bindP p f)"
  by (induction p) (auto split: sum.splits)

lemma safe_catchP:
  "safe good post p \<Longrightarrow> (\<And>e. safe good q (f (Inl e))) \<Longrightarrow> (\<And>a. post a \<Longrightarrow> safe good q (f (Inr a))) \<Longrightarrow> safe good q (catchP p f)"
proof (induction p)
  case (Return r)
  then show ?case by (cases r) auto
qed auto

lemma safe_mono: "safe good post p \<Longrightarrow> (\<And>a. post a \<Longrightarrow> q a) \<Longrightarrow> safe good q p"
  by (induction p) (auto split: sum.splits)

lemma safe_ensure: "safe good (\<lambda>_. c) (ensure c e)"
  by (simp add: ensure_def)

lemma safe_given: "safe good (\<lambda>a. x = Some a) (given e x)"
  by (simp add: given_def split: option.splits)

section \<open>Programs woven together\<close>

text \<open>The store's table and the handlers under way, each with what is left of it.\<close>

record ('b, 'r) weaving =
  wv_table :: "'b kv_table"
  wv_handlers :: "('b, 'r) prog list"

inductive weave :: "('op \<Rightarrow> bool) \<Rightarrow> ('op \<Rightarrow> ('b, 'r) prog) \<Rightarrow> ('b, 'r) weaving \<Rightarrow> ('b, 'r) weaving \<Rightarrow> bool"
    for allowed program where
  Begin: "allowed op \<Longrightarrow> weave allowed program w (w\<lparr>wv_handlers := wv_handlers w @ [program op]\<rparr>)"
| Read: "i < length (wv_handlers w) \<Longrightarrow> wv_handlers w ! i = Get k g \<Longrightarrow>
    weave allowed program w (w\<lparr>wv_handlers := (wv_handlers w)[i := g (bytes_at (wv_table w) k)]\<rparr>)"
| Write: "i < length (wv_handlers w) \<Longrightarrow> wv_handlers w ! i = Put k v p \<Longrightarrow>
    weave allowed program w (w\<lparr>wv_table := kv_upsert stamp k v (wv_table w), wv_handlers := (wv_handlers w)[i := p]\<rparr>)"
| Fault: "i < length (wv_handlers w) \<Longrightarrow>
    weave allowed program w (w\<lparr>wv_handlers := (wv_handlers w)[i := Return (Inl db_error)]\<rparr>)"

inductive woven :: "('op \<Rightarrow> bool) \<Rightarrow> ('op \<Rightarrow> ('b, 'r) prog) \<Rightarrow> ('b, 'r) weaving \<Rightarrow> ('b, 'r) weaving \<Rightarrow> bool"
    for allowed program start where
  Start: "woven allowed program start start"
| Next: "woven allowed program start w \<Longrightarrow> weave allowed program w w' \<Longrightarrow> woven allowed program start w'"

text \<open>A store on which no handler is under way.\<close>

definition at_rest :: "'b kv_table \<Rightarrow> ('b, 'r) weaving" where
  "at_rest t = \<lparr>wv_table = t, wv_handlers = []\<rparr>"

text \<open>One handler runs to its end while the others wait.\<close>

lemma weave_alone:
  assumes "woven allowed program start w" and "i < length (wv_handlers w)" and "wv_handlers w ! i = p"
  shows "\<exists>w'. woven allowed program start w' \<and> bytes_at (wv_table w') = snd (run p (bytes_at (wv_table w)))
    \<and> wv_handlers w' = (wv_handlers w)[i := Return (fst (run p (bytes_at (wv_table w))))]"
  using assms
proof (induction p arbitrary: w)
  case (Return r)
  then show ?case using list_update_id [of "wv_handlers w" i] by (intro exI [of _ w]) simp
next
  case (Get k g)
  let ?v = "bytes_at (wv_table w) k"
  let ?w = "w\<lparr>wv_handlers := (wv_handlers w)[i := g ?v]\<rparr>"
  have "woven allowed program start ?w" by (rule woven.Next [OF Get.prems(1) weave.Read [OF Get.prems(2,3)]])
  from Get.IH [OF rangeI this] Get.prems(2) show ?case by simp
next
  case (Put k v p)
  let ?w = "w\<lparr>wv_table := kv_upsert [] k v (wv_table w), wv_handlers := (wv_handlers w)[i := p]\<rparr>"
  have "woven allowed program start ?w" by (rule woven.Next [OF Put.prems(1) weave.Write [OF Put.prems(2,3)]])
  from Put.IH [OF this] Put.prems(2) show ?case by (simp add: fun_upd_def)
qed

lemma woven_alone:
  assumes "woven allowed program start w" and "allowed op"
  shows "\<exists>w'. woven allowed program start w' \<and> bytes_at (wv_table w') = snd (run (program op) (bytes_at (wv_table w)))
    \<and> wv_handlers w' = wv_handlers w @ [Return (fst (run (program op) (bytes_at (wv_table w))))]"
proof -
  have "woven allowed program start (w\<lparr>wv_handlers := wv_handlers w @ [program op]\<rparr>)"
    by (rule woven.Next [OF assms(1)]) (rule weave.Begin, rule assms(2))
  from weave_alone [OF this, of "length (wv_handlers w)"] show ?thesis by simp
qed

locale document_guarantee =
  fixes good :: "string \<Rightarrow> 'b list \<Rightarrow> bool"
    and post :: "'r \<Rightarrow> bool"
    and allowed :: "'op \<Rightarrow> bool"
    and program :: "'op \<Rightarrow> ('b, 'r) prog"
  assumes program_safe: "allowed op \<Longrightarrow> safe good post (program op)"
begin

lemma weave_good:
  assumes "weave allowed program w w'" and "\<forall>k b. bytes_at (wv_table w) k = Some b \<longrightarrow> good k b"
    and "\<forall>p \<in> set (wv_handlers w). safe good post p"
  shows "(\<forall>k b. bytes_at (wv_table w') k = Some b \<longrightarrow> good k b) \<and> (\<forall>p \<in> set (wv_handlers w'). safe good post p)"
  using assms
proof (induction rule: weave.induct)
  case (Begin op w)
  then show ?case using program_safe [of op] by auto
next
  case (Read i w k g)
  have "safe good post (Get k g)" using Read.hyps Read.prems(2) by (metis nth_mem)
  then have "safe good post (g (bytes_at (wv_table w) k))" using Read.prems(1) by (auto split: option.splits)
  with Read.prems show ?case using set_update_subset_insert [of "wv_handlers w" i] by fastforce
next
  case (Write i w k v p stamp)
  have "safe good post (Put k v p)" using Write.hyps Write.prems(2) by (metis nth_mem)
  with Write.prems show ?case using set_update_subset_insert [of "wv_handlers w" i p] by (fastforce split: if_splits)
next
  case (Fault i w)
  then show ?case using set_update_subset_insert [of "wv_handlers w" i "Return (Inl db_error)"] by fastforce
qed

lemma woven_good:
  "woven allowed program (at_rest t) w \<Longrightarrow> \<forall>k b. bytes_at t k = Some b \<longrightarrow> good k b \<Longrightarrow>
     (\<forall>k b. bytes_at (wv_table w) k = Some b \<longrightarrow> good k b) \<and> (\<forall>p \<in> set (wv_handlers w). safe good post p)"
  by (induction rule: woven.induct) (simp add: at_rest_def, blast dest: weave_good)

text \<open>What a handler returns.\<close>

lemma woven_reply:
  "woven allowed program (at_rest t) w \<Longrightarrow> \<forall>k b. bytes_at t k = Some b \<longrightarrow> good k b \<Longrightarrow> return r \<in> set (wv_handlers w) \<Longrightarrow> post r"
  using woven_good by fastforce

text \<open>A handler run alone keeps good documents good, whatever statement fails.\<close>

lemma exec_good:
  assumes "exec stamp p d = (r, d')" and "safe good post p" and "\<forall>k b. bytes_at (tables d) k = Some b \<longrightarrow> good k b"
  shows "(\<forall>k b. bytes_at (tables d') k = Some b \<longrightarrow> good k b) \<and> (\<forall>a. r = Inr a \<longrightarrow> post a)"
  using assms
proof (induction p arbitrary: d)
  case (Get k g)
  obtain x d1 where x: "kv_get k d = (x, d1)" by (cases "kv_get k d")
  then have t: "tables d1 = tables d" "\<And>v. x = Inr v \<Longrightarrow> v = bytes_at (tables d) k"
    by (auto simp: kv_get_def bytes_at_def bindE_def split: prod.splits sum.splits elim: stmt_cases)
  show ?case
  proof (cases x)
    case (Inr v)
    with Get.prems t have "safe good post (g v)" by (auto split: option.splits)
    then show ?thesis using Get.IH [OF rangeI, of v d1] Get.prems x t Inr by simp
  qed (use Get.prems x t in auto)
next
  case (Put k v p)
  obtain x d1 where x: "kv_set stamp k v d = (x, d1)" by (cases "kv_set stamp k v d")
  show ?case
  proof (cases x)
    case (Inl e)
    then have "tables d1 = tables d" using x by (auto simp: kv_set_def elim: stmt_cases)
    with Put.prems x Inl show ?thesis by auto
  next
    case (Inr u)
    then have "tables d1 = kv_upsert stamp k v (tables d)" using x by (auto simp: kv_set_def elim: stmt_cases)
    then have b: "bytes_at (tables d1) = (bytes_at (tables d))(k \<mapsto> v)" by simp
    have e: "exec stamp p d1 = (r, d')" using Put.prems(1) x Inr by simp
    show ?thesis by (rule Put.IH [OF e]) (use Put.prems(2,3) b in auto)
  qed
qed auto

end

end
