(* ===== verification/Companion_Data.thy ===== *)
theory Companion_Data
  imports Statement_Programs Json_Value Text_Pieces Clock_Text
begin

text \<open>
  Companion devices: the data of \<open>core/connectivity/channels/companion.rs\<close>, the catalogue of capabilities and the
  presets, and the functions on them that read nothing.

  A \<open>BTreeMap\<close> is the list of its entries, with \<open>bt\_insert\<close> to add one in its place. Prefixes: \<open>ca\_\<close>, \<open>cd\_\<close>,
  \<open>pe\_\<close> (descriptors of capabilities and commands, presets), \<open>da\_\<close>, \<open>dc\_\<close> (attestations and their claims), \<open>dv\_\<close>
  (\<open>CompanionDevice\<close>), \<open>gr\_\<close> (\<open>CompanionGrant\<close>), \<open>ps\_\<close> (\<open>CompanionPairingSession\<close>), \<open>cm\_\<close>
  (\<open>CompanionCommand\<close>), \<open>au\_\<close> (\<open>CompanionAuditEvent\<close>); \<open>pc\_\<close>, \<open>cc\_\<close>, \<open>pl\_\<close> for the requests.
\<close>

section \<open>Maps in key order\<close>

type_synonym 'a bmap = "(string \<times> 'a) list"

fun bt_insert :: "string \<Rightarrow> 'a \<Rightarrow> 'a bmap \<Rightarrow> 'a bmap" where
  "bt_insert k v [] = [(k, v)]"
| "bt_insert k v ((k', v') # m) = (if k = k' then (k, v) # m
     else if k < k' then (k, v) # (k', v') # m else (k', v') # bt_insert k v m)"

definition bt_collect :: "(string \<times> 'a) list \<Rightarrow> 'a bmap" where
  "bt_collect xs = foldl (\<lambda>m (k, v). bt_insert k v m) [] xs"

lemma map_of_bt_insert [simp]: "map_of (bt_insert k v m) = (map_of m)(k \<mapsto> v)"
  by (induction k v m rule: bt_insert.induct) (auto simp: fun_upd_twist)

section \<open>Data\<close>

definition PAIRING_TTL_SECS :: int where "PAIRING_TTL_SECS = 10 * 60"
definition MAX_AUDIT_EVENTS :: nat where "MAX_AUDIT_EVENTS = 5000"
definition MAX_PAIRING_FAILED_CLAIMS :: nat where "MAX_PAIRING_FAILED_CLAIMS = 12"
definition PAIRING_CLAIM_LOCKOUT_SECS :: int where "PAIRING_CLAIM_LOCKOUT_SECS = 60"
definition MAX_DECLARED_COMMANDS :: nat where "MAX_DECLARED_COMMANDS = 64"

datatype transport_kind = WebSocket

record device_attestation =
  da_provider :: "string option"
  da_platform :: "string option"
  da_verified :: bool
  da_evidence_fingerprint :: "string option"
  da_verified_at :: "string option"
  da_reason :: "string option"

definition attestation_default :: device_attestation where
  "attestation_default = \<lparr>da_provider = None, da_platform = None, da_verified = False, da_evidence_fingerprint = None,
     da_verified_at = None, da_reason = None\<rparr>"

record attestation_claim =
  dc_provider :: "string option"
  dc_platform :: "string option"
  dc_evidence :: "string option"

datatype device_state = DevPairing | DevPaired | DevOnline | DevIdle | DevBusy | DevOffline | DevRevoked | DevError
datatype pairing_status = PairPending | PairClaimed | PairApproved | PairCompleted | PairExpired | PairDenied
datatype command_risk = LowRisk | HighRisk
datatype approval_status = NotRequired | Required | Approved | Denied
datatype command_status = ApprovalRequired | Queued | Running | Succeeded | Failed | CommandDenied | Cancelled

record capability_descriptor =
  ca_id :: string
  ca_label :: string
  ca_description :: string
  ca_risk :: command_risk
  ca_resource_kinds :: "string list"

record command_descriptor =
  cd_id :: string
  cd_label :: string
  cd_capability :: string
  cd_action :: string
  cd_description :: string
  cd_risk :: command_risk

record companion_preset =
  pe_id :: string
  pe_label :: string
  pe_description :: string
  pe_platform :: string
  pe_capability_ids :: "string list"

record companion_device =
  dv_id :: string
  dv_display_name :: string
  dv_preset_id :: string
  dv_platform :: string
  dv_model :: "string option"
  dv_state :: device_state
  dv_transport :: transport_kind
  dv_available_capabilities :: "string list"
  dv_granted_capabilities :: "string list"
  dv_token_capabilities :: "string list"
  dv_declared_commands :: "command_descriptor list"
  dv_paired_at :: string
  dv_last_seen_at :: "string option"
  dv_owner :: "string option"
  dv_metadata :: "string bmap"
  dv_attestation :: device_attestation
  dv_trusted_unattested :: bool
  dv_token_fingerprint :: string
  dv_active_grant_id :: string
  dv_command_count :: nat

record companion_grant =
  gr_id :: string
  gr_device_id :: string
  gr_subject :: string
  gr_capabilities :: "string list"
  gr_resources :: "string list bmap"
  gr_created_at :: string
  gr_revoked_at :: "string option"

record pairing_session =
  ps_id :: string
  ps_code :: string
  ps_preset_id :: string
  ps_display_name :: string
  ps_platform :: string
  ps_requested_capabilities :: "string list"
  ps_requested_resources :: "string list bmap"
  ps_status :: pairing_status
  ps_created_at :: string
  ps_expires_at :: string
  ps_claimed_at :: "string option"
  ps_approved_at :: "string option"
  ps_completed_at :: "string option"
  ps_claimed_device_public_key :: "string option"
  ps_attestation :: device_attestation
  ps_trusted_unattested :: bool
  ps_metadata :: "string bmap"
  ps_claim_attempts :: nat
  ps_failed_claim_attempts :: nat
  ps_claim_locked_until :: "string option"

record companion_command =
  cm_id :: string
  cm_device_id :: string
  cm_capability :: string
  cm_action :: string
  cm_arguments :: json
  cm_requested_scopes :: "string list"
  cm_resource_scope :: "string list bmap"
  cm_risk :: command_risk
  cm_approval_status :: approval_status
  cm_status :: command_status
  cm_requested_at :: string
  cm_approved_at :: "string option"
  cm_dispatched_at :: "string option"
  cm_completed_at :: "string option"
  cm_success :: bool
  cm_result_preview :: "string option"
  cm_result_trust :: string
  cm_actor :: "string option"
  cm_audit_reason :: "string option"
  cm_error :: "string option"

record audit_event =
  au_id :: string
  au_event_type :: string
  au_device_id :: "string option"
  au_command_id :: "string option"
  au_grant_id :: "string option"
  au_actor :: "string option"
  au_surface :: "string option"
  au_decision :: string
  au_reason :: string
  au_timestamp :: string
  au_metadata :: "string bmap"
  au_previous_hash :: "string option"
  au_event_hash :: "string option"

record pairing_create =
  pc_display_name :: string
  pc_preset_id :: "string option"
  pc_platform :: "string option"
  pc_capabilities :: "string list"
  pc_resources :: "string list bmap"
  pc_metadata :: "string bmap"
  pc_trusted_unattested :: bool

record command_create =
  cc_capability :: string
  cc_action :: string
  cc_arguments :: json
  cc_requested_scopes :: "string list"
  cc_resource_scope :: "string list bmap"
  cc_actor :: "string option"
  cc_audit_reason :: "string option"

record pairing_claim =
  pl_session_id :: string
  pl_code :: string
  pl_device_public_key :: "string option"
  pl_attestation :: "attestation_claim option"
  pl_metadata :: "string bmap"

record claim_result =
  pr_status :: pairing_status
  pr_message :: string
  pr_device :: "companion_device option"
  pr_device_token :: "string option"

section \<open>Identifiers and capabilities\<close>

definition id_char :: "char \<Rightarrow> bool" where
  "id_char c \<longleftrightarrow> is_lower c \<or> is_upper c \<or> is_digit c \<or> c \<in> {CHR ''_'', CHR ''-'', CHR ''.'', CHR '':''}"

definition normalize_id :: "string \<Rightarrow> string" where
  "normalize_id v = filter id_char (ascii_lower (trim v))"

definition is_custom_capability :: "string \<Rightarrow> bool" where
  "is_custom_capability i \<longleftrightarrow> prefix_of ''custom.'' i \<or> prefix_of ''custom:'' i"

definition is_valid_capability_id :: "string \<Rightarrow> bool" where
  "is_valid_capability_id i \<longleftrightarrow> i \<noteq> [] \<and> length i \<le> 96 \<and> list_all id_char i"

definition normalize_capabilities :: "string list \<Rightarrow> string list" where
  "normalize_capabilities values = remdups_adj (sort (filter is_valid_capability_id (map normalize_id values)))"

definition normalize_resources :: "string list bmap \<Rightarrow> string list bmap" where
  "normalize_resources m = bt_collect (List.map_filter (\<lambda>(key, values).
     if normalize_id key = [] then None
     else Some (normalize_id key, remdups_adj (sort (filter (\<lambda>v. v \<noteq> []) (map trim values))))) m)"

definition scope_subset :: "string list \<Rightarrow> string list \<Rightarrow> bool" where
  "scope_subset requested allowed \<longleftrightarrow> list_all (\<lambda>s. s \<in> set allowed) requested"

definition resource_subset :: "string list bmap \<Rightarrow> string list bmap \<Rightarrow> bool" where
  "resource_subset requested allowed \<longleftrightarrow> list_all (\<lambda>(kind, values). case map_of allowed kind of
     None \<Rightarrow> False
   | Some allowed_values \<Rightarrow> ''*'' \<in> set allowed_values \<or> list_all (\<lambda>v. v \<in> set allowed_values) values) requested"

text \<open>Every byte is looked at, whatever the lengths.\<close>

definition byte_at :: "string \<Rightarrow> nat \<Rightarrow> nat" where
  "byte_at s i = (if i < length s then of_char (s ! i) else 0)"

definition constant_time_eq :: "string \<Rightarrow> string \<Rightarrow> bool" where
  "constant_time_eq left right \<longleftrightarrow> foldl (\<lambda>diff i. or diff (xor (byte_at left i) (byte_at right i)))
     (xor (length left) (length right)) [0..<max (length left) (length right)] = 0"

section \<open>The catalogue\<close>

definition cap :: "string \<Rightarrow> string \<Rightarrow> string \<Rightarrow> command_risk \<Rightarrow> string list \<Rightarrow> capability_descriptor" where
  "cap i label description risk resource_kinds = \<lparr>ca_id = i, ca_label = label, ca_description = description,
     ca_risk = risk, ca_resource_kinds = resource_kinds\<rparr>"

definition capability_catalog :: "capability_descriptor list" where
  "capability_catalog = [
     cap ''approval_prompt'' ''Approval prompts''
       ''Receive and answer AgentArk approval prompts.'' LowRisk [],
     cap ''notifications'' ''Notifications''
       ''Receive device notifications from AgentArk.'' LowRisk [],
     cap ''camera'' ''Camera''
       ''Capture images after explicit approval.'' HighRisk [''media''],
     cap ''microphone'' ''Microphone''
       ''Capture audio after explicit approval.'' HighRisk [''media''],
     cap ''photos'' ''Photos''
       ''Read or contribute selected photo-library assets.'' HighRisk [''media''],
     cap ''location'' ''Location''
       ''Share current device location after explicit approval.'' HighRisk [''location''],
     cap ''sms'' ''SMS''
       ''Send or read SMS only through an SMS-capable Android build, Twilio, or a carrier bridge after explicit approval.'' HighRisk [''recipient''],
     cap ''whatsapp_handoff'' ''WhatsApp handoff''
       ''Prepare or send WhatsApp messages through a configured WhatsApp channel or bridge.'' HighRisk [''recipient''],
     cap ''shortcuts_run'' ''Shortcuts actions''
       ''Run Shortcuts-style actions after explicit approval.'' HighRisk [''shortcut''],
     cap ''screen_capture'' ''Screen capture''
       ''Capture a screenshot after explicit approval.'' HighRisk [''screen''],
     cap ''screen_recording'' ''Screen recording''
       ''Record screen content after explicit approval.'' HighRisk [''screen''],
     cap ''browser_control'' ''Browser control''
       ''Control browser sessions on the companion device.'' HighRisk [''profile'', ''origin''],
     cap ''file_read'' ''File read''
       ''Read scoped files from the companion device.'' HighRisk [''path''],
     cap ''file_write'' ''File write''
       ''Write scoped files on the companion device.'' HighRisk [''path''],
     cap ''system_run'' ''Local commands''
       ''Run typed local commands on the companion device.'' HighRisk [''command''],
     cap ''lan_access'' ''LAN access''
       ''Reach LAN-only services near the companion device.'' HighRisk [''host''],
     cap ''sensor_read'' ''Sensor read''
       ''Read custom sensors exposed by the companion device.'' LowRisk [''sensor''],
     cap ''smart_home'' ''Smart home''
       ''Control smart-home devices through a local companion.'' HighRisk [''device'']]"

definition capability_risk :: "string \<Rightarrow> command_risk" where
  "capability_risk i = (case find (\<lambda>c. ca_id c = i) capability_catalog of Some c \<Rightarrow> ca_risk c | None \<Rightarrow> HighRisk)"

definition has_high_risk_capability :: "string list \<Rightarrow> bool" where
  "has_high_risk_capability scopes \<longleftrightarrow> list_ex (\<lambda>s. capability_risk s = HighRisk) scopes"

definition preset :: "string \<Rightarrow> string \<Rightarrow> string \<Rightarrow> string \<Rightarrow> string list \<Rightarrow> companion_preset" where
  "preset i label description platform capabilities = \<lparr>pe_id = i, pe_label = label, pe_description = description,
     pe_platform = platform, pe_capability_ids = capabilities\<rparr>"

definition companion_presets :: "companion_preset list" where
  "companion_presets = [
     preset ''ios'' ''iPhone / iPad''
       ''Pair an iPhone or iPad for AgentArk notifications and approval prompts. This companion cannot read SMS, iMessage, photos, location, or Shortcuts.'' ''ios'' [''approval_prompt'', ''notifications''],
     preset ''android'' ''Android phone''
       ''Pair the bundled Android app for AgentArk notifications and approval prompts. SMS needs a separate SMS-capable Android build or messaging bridge.'' ''android'' [''approval_prompt'', ''notifications''],
     preset ''desktop'' ''macOS / Windows / Linux''
       ''Pair a desktop agent for notifications, approval prompts, scoped files, and opt-in local commands.'' ''desktop'' [''approval_prompt'', ''notifications'', ''file_read'', ''file_write'', ''system_run''],
     preset ''home_server'' ''Home server / mini PC''
       ''Run a headless companion for notifications, approval prompts, scoped files, and opt-in local commands near local resources.'' ''headless'' [''approval_prompt'', ''notifications'', ''system_run'', ''file_read'', ''file_write''],
     preset ''raspberry_pi'' ''Raspberry Pi / IoT''
       ''Run a small companion for notifications, approval prompts, and opt-in local commands. Add custom capabilities only when a local adapter exists.'' ''iot'' [''approval_prompt'', ''notifications'', ''system_run''],
     preset ''custom'' ''Custom device''
       ''Connect any device that implements the AgentArk companion WebSocket protocol.'' ''custom'' [''approval_prompt'', ''notifications'']]"

definition bundled_mobile_preset_requires_attestation :: "string \<Rightarrow> bool" where
  "bundled_mobile_preset_requires_attestation preset_id \<longleftrightarrow> normalize_id preset_id \<in> {''ios'', ''android''}"

text \<open>The first capability that is neither in the catalogue nor custom is named in the error.\<close>

definition known_capability :: "string \<Rightarrow> bool" where
  "known_capability v \<longleftrightarrow> v \<in> set (map ca_id capability_catalog) \<or> is_custom_capability v"

definition validate_capability_set :: "string list \<Rightarrow> unit result" where
  "validate_capability_set values = (case find (\<lambda>v. \<not> known_capability v) values of
     None \<Rightarrow> Inr () | Some v \<Rightarrow> Inl (Err (''unknown capability '' @ CHR 0x27 # v @ [CHR 0x27])))"

section \<open>Declared commands\<close>

definition descriptor_of :: "string \<Rightarrow> string \<Rightarrow> string \<Rightarrow> string \<Rightarrow> string \<Rightarrow> command_descriptor" where
  "descriptor_of i label capability action description = \<lparr>cd_id = i, cd_label = label, cd_capability = capability,
     cd_action = action, cd_description = description, cd_risk = capability_risk capability\<rparr>"

definition command_descriptors_for_capabilities :: "string list \<Rightarrow> command_descriptor list" where
  "command_descriptors_for_capabilities capabilities = filter (\<lambda>c. cd_capability c \<in> set capabilities)
     [
     descriptor_of ''approval.prompt'' ''Approval prompt'' ''approval_prompt'' ''approval.prompt''
       ''Ask the companion user to approve or deny an AgentArk decision.'',
     descriptor_of ''notifications.show'' ''Show notification'' ''notifications'' ''notifications.show''
       ''Show a local AgentArk notification on the companion device.'',
     descriptor_of ''files.read'' ''Read file'' ''file_read'' ''files.read''
       ''Read a scoped file path from the companion device.'',
     descriptor_of ''files.write'' ''Write file'' ''file_write'' ''files.write''
       ''Write a scoped file path on the companion device.'',
     descriptor_of ''system.run'' ''Run local command'' ''system_run'' ''system.run''
       ''Run an explicitly approved local command on the companion device.'']"

definition trim_bounded :: "string \<Rightarrow> nat \<Rightarrow> string" where
  "trim_bounded v max_chars = take max_chars (trim v)"

definition upper_char :: "char \<Rightarrow> char" where
  "upper_char c = (if is_lower c then char_of ((of_char c :: nat) - 32) else c)"

text \<open>A label made of the parts of the action.\<close>

definition action_label :: "string \<Rightarrow> string" where
  "action_label action = intercalate '' '' (map (\<lambda>part. case part of [] \<Rightarrow> [] | c # cs \<Rightarrow> upper_char c # cs)
     (filter (\<lambda>part. part \<noteq> []) (split_on (\<lambda>c. c \<in> {CHR ''.'', CHR ''_'', CHR '':'', CHR ''-''}) action)))"

fun declare_commands :: "string list \<Rightarrow> string list \<Rightarrow> command_descriptor list \<Rightarrow> command_descriptor list result" where
  "declare_commands allowed seen [] = Inr []"
| "declare_commands allowed seen (v # vs) = (
     let i = normalize_id (cd_id v); capability = normalize_id (cd_capability v); action = normalize_id (cd_action v) in
     if i = [] then Inl (Err ''declared command id is required'')
     else if action = [] then Inl (Err ''declared command action is required'')
     else res_bind (validate_capability_set [capability]) (\<lambda>_.
       if capability \<notin> set allowed
       then Inl (Err (''declared command '' @ CHR 0x27 # i @ CHR 0x27 # '' uses capability outside this device token''))
       else if i \<in> set seen then declare_commands allowed seen vs
       else (let label = trim_bounded (cd_label v) 80 in
         res_bind (declare_commands allowed (i # seen) vs) (\<lambda>out. Inr (
           \<lparr>cd_id = i, cd_label = (if label = [] then action_label action else label), cd_capability = capability,
             cd_action = action, cd_description = trim_bounded (cd_description v) 240, cd_risk = capability_risk capability\<rparr> # out)))))"

definition normalize_declared_commands :: "command_descriptor list \<Rightarrow> string list \<Rightarrow> command_descriptor list result" where
  "normalize_declared_commands values allowed = declare_commands allowed [] (take MAX_DECLARED_COMMANDS values)"

section \<open>Facts on capabilities\<close>

lemma catalog_ids: "map ca_id capability_catalog = [''approval_prompt'', ''notifications'', ''camera'', ''microphone'', ''photos'',
    ''location'', ''sms'', ''whatsapp_handoff'', ''shortcuts_run'', ''screen_capture'', ''screen_recording'', ''browser_control'',
    ''file_read'', ''file_write'', ''system_run'', ''lan_access'', ''sensor_read'', ''smart_home'']"
  by (simp add: capability_catalog_def cap_def)

lemma set_normalize_capabilities:
  "set (normalize_capabilities vs) = {normalize_id v |v. v \<in> set vs \<and> is_valid_capability_id (normalize_id v)}"
  by (auto simp: normalize_capabilities_def)

lemma id_char_not_ws: "id_char c \<Longrightarrow> \<not> is_ws c"
  by (auto simp: id_char_def is_lower_def is_upper_def is_digit_def is_ws_def Let_def)

lemma normalize_id_chars: "list_all id_char (normalize_id v)"
  by (simp add: normalize_id_def list_all_iff)

lemma normalize_id_no_upper: "list_all (\<lambda>c. \<not> is_upper c) (normalize_id v)"
proof -
  have "\<not> is_upper (lower_char c)" for c
  proof (cases "is_upper c")
    case True
    then have "65 \<le> (of_char c :: nat)" "(of_char c :: nat) \<le> 90" by (simp_all add: is_upper_def Let_def)
    then show ?thesis by (simp add: lower_char_def is_upper_def Let_def)
  qed (simp add: lower_char_def)
  then show ?thesis by (auto simp: normalize_id_def ascii_lower_def list_all_iff)
qed

lemma normalize_id_idem [simp]: "normalize_id (normalize_id v) = normalize_id v"
proof -
  have c: "\<forall>c \<in> set (normalize_id v). id_char c \<and> \<not> is_upper c"
    using normalize_id_chars [of v] normalize_id_no_upper [of v] by (simp add: list_all_iff)
  then have t: "trim (normalize_id v) = normalize_id v" by (intro trim_no_ws) (auto dest: id_char_not_ws)
  have "map lower_char (normalize_id v) = normalize_id v" using c by (intro map_idI) (simp add: lower_char_def)
  then show ?thesis using c unfolding normalize_id_def [of "normalize_id v"] t ascii_lower_def by (simp add: filter_id_conv)
qed

lemma validate_capability_set_iff: "validate_capability_set vs = Inr () \<longleftrightarrow> list_all known_capability vs"
proof (cases "find (\<lambda>v. \<not> known_capability v) vs")
  case None
  then have "list_all known_capability vs" by (auto simp: find_None_iff list_all_iff)
  with None show ?thesis by (simp add: validate_capability_set_def)
next
  case (Some v)
  then have "v \<in> set vs" "\<not> known_capability v" by (auto simp: find_Some_iff)
  with Some show ?thesis by (auto simp: validate_capability_set_def list_all_iff)
qed

lemma xor_nat_eq_0: "xor (a :: nat) b = 0 \<longleftrightarrow> a = b"
  by (auto simp: bit_eq_iff bit_xor_iff)

lemma or_nat_eq_0: "or (a :: nat) b = 0 \<longleftrightarrow> a = 0 \<and> b = 0"
  by (auto simp: bit_eq_iff bit_or_iff)

lemma foldl_or_eq_0: "foldl (\<lambda>d i. or d (f i)) (d :: nat) is = 0 \<longleftrightarrow> d = 0 \<and> list_all (\<lambda>i. f i = 0) is"
  by (induction "is" arbitrary: d) (auto simp: or_nat_eq_0)

lemma constant_time_eq_iff [simp]: "constant_time_eq a b \<longleftrightarrow> a = b"
proof -
  have "constant_time_eq a b \<longleftrightarrow> length a = length b \<and> (\<forall>i < max (length a) (length b). byte_at a i = byte_at b i)"
    by (auto simp: constant_time_eq_def foldl_or_eq_0 xor_nat_eq_0 list_all_iff)
  also have "\<dots> \<longleftrightarrow> a = b" by (auto simp: byte_at_def list_eq_iff_nth_eq)
  finally show ?thesis .
qed

lemma scope_subset_iff: "scope_subset xs ys \<longleftrightarrow> set xs \<subseteq> set ys"
  by (auto simp: scope_subset_def list_all_iff)

end
