(* ===== verification/Companion_Plane.thy ===== *)
theory Companion_Plane
  imports Companion_Data
begin

text \<open>
  \<open>CompanionControlPlane\<close> of \<open>core/connectivity/channels/companion.rs\<close>: pairing sessions, devices with their grants
  and tokens, commands and the audit trail, as programs of single statements. The plane holds no lock.

  Serde, chrono and the hashes are parameters, as are the pattern filters of \<open>security/mod.rs\<close> for reported results.
  The clock and the random generator are read through \<open>draws\<close>: the \<open>i\<close>-th reading of an operation is
  \<open>dw\_now dr i\<close>. Secrets are the encoded random bytes, \<open>None\<close> when the generator fails.
\<close>

section \<open>Environment and documents\<close>

record 'b companion_env =
  cx_index :: "(string list, 'b) codec"
  cx_device :: "(companion_device, 'b) codec"
  cx_grant :: "(companion_grant, 'b) codec"
  cx_session :: "(pairing_session, 'b) codec"
  cx_command :: "(companion_command, 'b) codec"
  cx_event :: "(audit_event, 'b) codec"
  cx_chrono :: chrono
  cx_token_hash :: "string \<Rightarrow> string"
  cx_key_hash :: "string \<Rightarrow> string"
  cx_evidence_hash :: "string \<Rightarrow> string"
  cx_audit_hash :: "'b list \<Rightarrow> string"
  cx_sanitize_output :: "string \<Rightarrow> string"
  cx_redact_secrets :: "string \<Rightarrow> string"

record draws =
  dw_now :: "nat \<Rightarrow> int"
  dw_uuid :: "nat \<Rightarrow> string"
  dw_secret :: "nat \<Rightarrow> string option"

definition DEVICE_INDEX_KEY :: string where "DEVICE_INDEX_KEY = ''companion:devices:index''"
definition PAIRING_INDEX_KEY :: string where "PAIRING_INDEX_KEY = ''companion:pairing:index''"
definition AUDIT_INDEX_KEY :: string where "AUDIT_INDEX_KEY = ''companion:audit:index''"

definition device_key :: "string \<Rightarrow> string" where "device_key i = ''companion:device:'' @ trim i"
definition grant_key :: "string \<Rightarrow> string" where "grant_key i = ''companion:grant:'' @ trim i"
definition pairing_key :: "string \<Rightarrow> string" where "pairing_key i = ''companion:pairing:'' @ trim i"
definition command_key :: "string \<Rightarrow> string" where "command_key i = ''companion:command:'' @ trim i"
definition command_index_key :: "string \<Rightarrow> string" where "command_index_key i = ''companion:commands:'' @ trim i"
definition audit_key :: "string \<Rightarrow> string" where "audit_key i = ''companion:audit:'' @ trim i"

definition now_rfc3339 :: "'b companion_env \<Rightarrow> draws \<Rightarrow> nat \<Rightarrow> string" where
  "now_rfc3339 env dr i = to_rfc3339 (cx_chrono env) (dw_now dr i)"

definition generate_secret :: "draws \<Rightarrow> nat \<Rightarrow> string \<Rightarrow> ('b, string) prog" where
  "generate_secret dr i prefix = (case dw_secret dr i of
     None \<Rightarrow> abort ''failed to generate secure random token'' | Some raw \<Rightarrow> return (prefix @ raw))"

definition generate_pairing_code :: "draws \<Rightarrow> nat \<Rightarrow> ('b, string) prog" where
  "generate_pairing_code dr i = (case dw_secret dr i of
     None \<Rightarrow> abort ''failed to generate pairing code'' | Some raw \<Rightarrow> return raw)"

text \<open>Adding seconds to the clock, which panics out of range.\<close>

definition clock_plus :: "'b companion_env \<Rightarrow> int \<Rightarrow> int \<Rightarrow> ('b, string) prog" where
  "clock_plus env t n = (case plus_secs (cx_chrono env) t n of
     None \<Rightarrow> Return (Inl (Panicked ''DateTime + TimeDelta overflowed'')) | Some u \<Rightarrow> return (to_rfc3339 (cx_chrono env) u))"

definition pairing_expired :: "'b companion_env \<Rightarrow> int \<Rightarrow> string \<Rightarrow> bool" where
  "pairing_expired env now expires_at = (case parse_rfc3339 (cx_chrono env) expires_at of Some ts \<Rightarrow> ts < now | None \<Rightarrow> True)"

definition lockout_active :: "'b companion_env \<Rightarrow> int \<Rightarrow> string option \<Rightarrow> bool" where
  "lockout_active env now until = (case until of None \<Rightarrow> False
     | Some v \<Rightarrow> (case parse_rfc3339 (cx_chrono env) v of Some ts \<Rightarrow> now < ts | None \<Rightarrow> False))"

definition short_fingerprint :: "string \<Rightarrow> string" where
  "short_fingerprint v = take 16 v"

definition bool_text :: "bool \<Rightarrow> string" where
  "bool_text b = (if b then ''true'' else ''false'')"

definition nonblank :: "string option \<Rightarrow> string option" where
  "nonblank x = (case x of None \<Rightarrow> None | Some v \<Rightarrow> if trim v = [] then None else Some (trim v))"

definition evaluate_attestation_claim :: "'b companion_env \<Rightarrow> string \<Rightarrow> attestation_claim option \<Rightarrow> device_attestation" where
  "evaluate_attestation_claim env platform claim = (case claim of
     None \<Rightarrow> attestation_default\<lparr>da_platform := Some platform, da_reason := Some ''No device attestation evidence was supplied.''\<rparr>
   | Some c \<Rightarrow> \<lparr>da_provider = nonblank (dc_provider c),
       da_platform = (case nonblank (dc_platform c) of Some p \<Rightarrow> Some p | None \<Rightarrow> Some platform),
       da_verified = False, da_evidence_fingerprint = map_option (cx_evidence_hash env) (nonblank (dc_evidence c)),
       da_verified_at = None,
       da_reason = Some ''Attestation evidence was recorded, but server-side platform verification is not configured.''\<rparr>)"

definition read_json :: "('a, 'b) codec \<Rightarrow> string \<Rightarrow> ('b, 'a option) prog" where
  "read_json c key = Get key (\<lambda>r. case r of None \<Rightarrow> return None
     | Some raw \<Rightarrow> (case from_slice c raw of
          None \<Rightarrow> abort (''failed to decode companion storage key '' @ key) | Some v \<Rightarrow> return (Some v)))"

definition write_json :: "('a, 'b) codec \<Rightarrow> string \<Rightarrow> 'a \<Rightarrow> ('b, unit) prog" where
  "write_json c key v = (case to_vec c v of None \<Rightarrow> abort ''serialize'' | Some raw \<Rightarrow> Put key raw (return ()))"

definition read_index :: "'b companion_env \<Rightarrow> string \<Rightarrow> ('b, string list) prog" where
  "read_index env key = bindP (read_json (cx_index env) key) (\<lambda>r. return (case r of None \<Rightarrow> [] | Some ids \<Rightarrow> ids))"

definition write_index :: "'b companion_env \<Rightarrow> string \<Rightarrow> string list \<Rightarrow> ('b, unit) prog" where
  "write_index env key ids = write_json (cx_index env) key (remdups_adj (sort (filter (\<lambda>i. i \<noteq> []) (map trim ids))))"

text \<open>The first of equal ids is kept.\<close>

definition first_ids :: "string list \<Rightarrow> string list" where
  "first_ids ids = rev (remdups (rev ids))"

definition write_ordered_index :: "'b companion_env \<Rightarrow> string \<Rightarrow> string list \<Rightarrow> ('b, unit) prog" where
  "write_ordered_index env key ids = write_json (cx_index env) key (first_ids (filter (\<lambda>i. i \<noteq> []) (map trim ids)))"

definition append_index :: "'b companion_env \<Rightarrow> string \<Rightarrow> string \<Rightarrow> ('b, unit) prog" where
  "append_index env key i = bindP (read_index env key) (\<lambda>ids.
     write_index env key (if i \<in> set ids then ids else ids @ [i]))"

definition get_device :: "'b companion_env \<Rightarrow> string \<Rightarrow> ('b, companion_device option) prog" where
  "get_device env i = read_json (cx_device env) (device_key i)"

definition write_device :: "'b companion_env \<Rightarrow> companion_device \<Rightarrow> ('b, unit) prog" where
  "write_device env d = bindP (write_json (cx_device env) (device_key (dv_id d)) d) (\<lambda>_. append_index env DEVICE_INDEX_KEY (dv_id d))"

definition get_grant :: "'b companion_env \<Rightarrow> string \<Rightarrow> ('b, companion_grant option) prog" where
  "get_grant env i = read_json (cx_grant env) (grant_key i)"

definition write_grant :: "'b companion_env \<Rightarrow> companion_grant \<Rightarrow> ('b, unit) prog" where
  "write_grant env g = write_json (cx_grant env) (grant_key (gr_id g)) g"

definition get_command :: "'b companion_env \<Rightarrow> string \<Rightarrow> ('b, companion_command option) prog" where
  "get_command env i = read_json (cx_command env) (command_key i)"

definition write_command :: "'b companion_env \<Rightarrow> companion_command \<Rightarrow> ('b, unit) prog" where
  "write_command env c = bindP (write_json (cx_command env) (command_key (cm_id c)) c)
     (\<lambda>_. append_index env (command_index_key (cm_device_id c)) (cm_id c))"

text \<open>The documents of the ids in an index that are there, in its order.\<close>

fun read_all :: "(string \<Rightarrow> ('b, 'a option) prog) \<Rightarrow> string list \<Rightarrow> ('b, 'a list) prog" where
  "read_all get [] = return []"
| "read_all get (i # is) = bindP (get i) (\<lambda>r. bindP (read_all get is) (\<lambda>out.
     return (case r of None \<Rightarrow> out | Some v \<Rightarrow> v # out)))"

definition newest_first :: "('a \<Rightarrow> string) \<Rightarrow> 'a list \<Rightarrow> 'a list" where
  "newest_first k xs = rev (sort_key k (rev xs))"

definition list_devices :: "'b companion_env \<Rightarrow> ('b, companion_device list) prog" where
  "list_devices env = bindP (read_index env DEVICE_INDEX_KEY) (read_all (get_device env))"

definition list_pairing_sessions :: "'b companion_env \<Rightarrow> ('b, pairing_session list) prog" where
  "list_pairing_sessions env = bindP (read_index env PAIRING_INDEX_KEY) (\<lambda>ids.
     bindP (read_all (\<lambda>i. read_json (cx_session env) (pairing_key i)) ids) (\<lambda>out. return (newest_first ps_created_at out)))"

definition list_commands :: "'b companion_env \<Rightarrow> string \<Rightarrow> ('b, companion_command list) prog" where
  "list_commands env device_id = bindP (read_index env (command_index_key device_id)) (\<lambda>ids.
     bindP (read_all (get_command env) ids) (\<lambda>out. return (newest_first cm_requested_at out)))"

fun pending_commands :: "'b companion_env \<Rightarrow> companion_device list \<Rightarrow> ('b, companion_command list) prog" where
  "pending_commands env [] = return []"
| "pending_commands env (d # ds) = bindP (list_commands env (dv_id d)) (\<lambda>cs. bindP (pending_commands env ds) (\<lambda>out.
     return (filter (\<lambda>c. cm_status c = ApprovalRequired) cs @ out)))"

definition list_pending_approval_commands :: "'b companion_env \<Rightarrow> ('b, companion_command list) prog" where
  "list_pending_approval_commands env = bindP (list_devices env) (\<lambda>devices. bindP (pending_commands env devices) (\<lambda>out.
     return (newest_first cm_requested_at out)))"

definition list_audit_events :: "'b companion_env \<Rightarrow> nat \<Rightarrow> ('b, audit_event list) prog" where
  "list_audit_events env limit = bindP (read_index env AUDIT_INDEX_KEY) (\<lambda>ids.
     read_all (\<lambda>i. read_json (cx_event env) (audit_key i)) (take (clamp 1 MAX_AUDIT_EVENTS limit) (rev ids)))"

record companion_overview =
  ov_generated_at :: string
  ov_total :: nat
  ov_online :: nat
  ov_pending_pairing :: nat
  ov_pending_approvals :: nat
  ov_revoked :: nat

definition overview :: "'b companion_env \<Rightarrow> draws \<Rightarrow> ('b, companion_overview) prog" where
  "overview env dr = bindP (list_devices env) (\<lambda>devices. bindP (list_pending_approval_commands env) (\<lambda>pending.
     bindP (list_pairing_sessions env) (\<lambda>sessions. return
       \<lparr>ov_generated_at = now_rfc3339 env dr 1, ov_total = length devices,
        ov_online = length (filter (\<lambda>d. dv_state d = DevOnline) devices),
        ov_pending_pairing = length (filter (\<lambda>s. ps_status s \<in> {PairPending, PairClaimed}
          \<and> \<not> pairing_expired env (dw_now dr 0) (ps_expires_at s)) sessions),
        ov_pending_approvals = length pending,
        ov_revoked = length (filter (\<lambda>d. dv_state d = DevRevoked) devices)\<rparr>)))"

section \<open>The audit trail\<close>

definition companion_audit_hash :: "'b companion_env \<Rightarrow> audit_event \<Rightarrow> ('b, string) prog" where
  "companion_audit_hash env e = (case to_vec (cx_event env) e of None \<Rightarrow> abort ''serialize'' | Some raw \<Rightarrow> return (cx_audit_hash env raw))"

text \<open>The event before it is hashed; \<open>i\<close> numbers its draws.\<close>

definition audit ::
  "'b companion_env \<Rightarrow> draws \<Rightarrow> nat \<Rightarrow> string \<Rightarrow> string option \<Rightarrow> string option \<Rightarrow> string option \<Rightarrow> string option \<Rightarrow> string
     \<Rightarrow> string \<Rightarrow> string \<Rightarrow> string bmap \<Rightarrow> ('b, unit) prog" where
  "audit env dr i event_type device_id command_id grant_id actor surface decision reason metadata =
     bindP (read_index env AUDIT_INDEX_KEY) (\<lambda>ids.
     bindP (if ids = [] then return None
       else bindP (read_json (cx_event env) (audit_key (last ids))) (\<lambda>r. return (Option.bind r au_event_hash))) (\<lambda>previous_hash.
     let event = \<lparr>au_id = ''audit-'' @ dw_uuid dr i, au_event_type = event_type, au_device_id = device_id,
           au_command_id = command_id, au_grant_id = grant_id, au_actor = actor, au_surface = Some surface,
           au_decision = decision, au_reason = reason, au_timestamp = now_rfc3339 env dr i, au_metadata = metadata,
           au_previous_hash = previous_hash, au_event_hash = None\<rparr> in
     bindP (companion_audit_hash env event) (\<lambda>h.
     bindP (write_json (cx_event env) (audit_key (au_id event)) (event\<lparr>au_event_hash := Some h\<rparr>)) (\<lambda>_.
     let all = ids @ [au_id event] in
     write_ordered_index env AUDIT_INDEX_KEY (if MAX_AUDIT_EVENTS < length all then drop (length all - MAX_AUDIT_EVENTS) all else all)))))"

section \<open>Pairing\<close>

definition merge_metadata :: "string bmap \<Rightarrow> string bmap \<Rightarrow> string bmap" where
  "merge_metadata old new = foldl (\<lambda>m (key, v). if trim key = [] then m else bt_insert (trim key) (trim v) m) old new"

definition session_entry :: "pairing_session \<Rightarrow> string bmap" where
  "session_entry s = [(''pairing_session_id'', ps_id s)]"

definition create_pairing_session :: "'b companion_env \<Rightarrow> draws \<Rightarrow> pairing_create \<Rightarrow> string \<Rightarrow> ('b, pairing_session) prog" where
  "create_pairing_session env dr input actor = (
     let display_name = trim (pc_display_name input);
         preset_id = (case pc_preset_id input of Some p \<Rightarrow> if normalize_id p = [] then ''custom'' else normalize_id p | None \<Rightarrow> ''custom'');
         chosen = find (\<lambda>p. pe_id p = preset_id) companion_presets;
         platform = (case nonblank (pc_platform input) of Some p \<Rightarrow> p
           | None \<Rightarrow> (case chosen of Some p \<Rightarrow> pe_platform p | None \<Rightarrow> ''custom''));
         requested = (if pc_capabilities input = [] then (case chosen of Some p \<Rightarrow> pe_capability_ids p | None \<Rightarrow> [])
           else normalize_capabilities (pc_capabilities input)) in
     bindP (ensure (display_name \<noteq> []) ''device name is required'') (\<lambda>_.
     bindP (ensure (chosen \<noteq> None \<or> preset_id = ''custom'') ''unknown companion preset'') (\<lambda>_.
     bindP (Return (validate_capability_set requested)) (\<lambda>_.
     bindP (clock_plus env (dw_now dr 1) PAIRING_TTL_SECS) (\<lambda>expires_at.
     bindP (generate_pairing_code dr 0) (\<lambda>code.
     let session = \<lparr>ps_id = ''pairing-'' @ dw_uuid dr 0, ps_code = code, ps_preset_id = preset_id, ps_display_name = display_name,
           ps_platform = platform, ps_requested_capabilities = requested,
           ps_requested_resources = normalize_resources (pc_resources input), ps_status = PairPending,
           ps_created_at = now_rfc3339 env dr 0, ps_expires_at = expires_at, ps_claimed_at = None, ps_approved_at = None,
           ps_completed_at = None, ps_claimed_device_public_key = None, ps_attestation = attestation_default,
           ps_trusted_unattested = pc_trusted_unattested input,
           ps_metadata = bt_collect (filter (\<lambda>(k, v). k \<noteq> []) (map (\<lambda>(k, v). (trim k, trim v)) (pc_metadata input))),
           ps_claim_attempts = 0, ps_failed_claim_attempts = 0, ps_claim_locked_until = None\<rparr> in
     bindP (write_json (cx_session env) (pairing_key (ps_id session)) session) (\<lambda>_.
     bindP (append_index env PAIRING_INDEX_KEY (ps_id session)) (\<lambda>_.
     bindP (audit env dr 2 ''pairing_session_created'' None None None (Some actor) ''ui'' ''allow''
       ''Companion pairing session created.'' (session_entry session)) (\<lambda>_. return session)))))))))"

definition approval_metadata :: "pairing_session \<Rightarrow> string bmap" where
  "approval_metadata s = bt_insert ''trusted_unattested'' (bool_text (ps_trusted_unattested s))
     (bt_insert ''attestation_verified'' (bool_text (da_verified (ps_attestation s))) (session_entry s))"

definition MOBILE_REASON :: string where
  "MOBILE_REASON = ''High-risk bundled mobile companions require verified platform attestation before approval.''"

definition UNATTESTED_REASON :: string where
  "UNATTESTED_REASON = ''High-risk custom or desktop companions require an explicit trusted_unattested override.''"

text \<open>Why a claimed session with capabilities of high risk is not approved.\<close>

definition approval_denial :: "pairing_session \<Rightarrow> string option" where
  "approval_denial s = (if has_high_risk_capability (ps_requested_capabilities s) \<and> \<not> da_verified (ps_attestation s)
     then (if bundled_mobile_preset_requires_attestation (ps_preset_id s) then Some MOBILE_REASON
           else if \<not> ps_trusted_unattested s then Some UNATTESTED_REASON else None)
     else None)"

definition approve_pairing_session :: "'b companion_env \<Rightarrow> draws \<Rightarrow> string \<Rightarrow> string \<Rightarrow> ('b, pairing_session) prog" where
  "approve_pairing_session env dr i actor =
     bindP (read_json (cx_session env) (pairing_key i)) (\<lambda>r.
     bindP (given ''pairing session not found'' r) (\<lambda>session.
     bindP (ensure (\<not> pairing_expired env (dw_now dr 0) (ps_expires_at session)) ''pairing session has expired'') (\<lambda>_.
     bindP (ensure (ps_status session \<notin> {PairCompleted, PairDenied, PairExpired})
       ''pairing session cannot be approved from its current state'') (\<lambda>_.
     bindP (ensure (ps_status session = PairClaimed) ''pairing session must be claimed by a device before approval'') (\<lambda>_.
     bindP (ensure (nonblank (ps_claimed_device_public_key session) \<noteq> None)
       ''pairing claim must include a stable device identity'') (\<lambda>_.
     case approval_denial session of
       Some reason \<Rightarrow> bindP (audit env dr 1 ''pairing_session_approval_denied'' None None None (Some actor) ''ui'' ''deny''
         reason (approval_metadata session)) (\<lambda>_. abort reason)
     | None \<Rightarrow>
        let session = session\<lparr>ps_status := PairApproved, ps_approved_at := Some (now_rfc3339 env dr 2)\<rparr> in
        bindP (write_json (cx_session env) (pairing_key (ps_id session)) session) (\<lambda>_.
        bindP (audit env dr 3 ''pairing_session_approved'' None None None (Some actor) ''ui'' ''allow''
          ''Companion pairing session approved for one device claim.'' (approval_metadata session)) (\<lambda>_. return session))))))))"

definition record_pairing_claim_denial ::
  "'b companion_env \<Rightarrow> draws \<Rightarrow> pairing_session \<Rightarrow> string \<Rightarrow> string bmap \<Rightarrow> ('b, unit) prog" where
  "record_pairing_claim_denial env dr session0 reason metadata = (
     let session = session0\<lparr>ps_failed_claim_attempts := sat_add_u32 (ps_failed_claim_attempts session0) 1\<rparr> in
     bindP (if MAX_PAIRING_FAILED_CLAIMS \<le> ps_failed_claim_attempts session
       then bindP (clock_plus env (dw_now dr 2) PAIRING_CLAIM_LOCKOUT_SECS) (\<lambda>until. return (session\<lparr>ps_claim_locked_until := Some until\<rparr>))
       else return session) (\<lambda>session.
     let m = bt_insert ''failed_claim_attempts'' (show_nat (ps_failed_claim_attempts session))
           (bt_insert ''pairing_session_id'' (ps_id session) metadata);
         m = (case ps_claim_locked_until session of Some until \<Rightarrow> bt_insert ''claim_locked_until'' until m | None \<Rightarrow> m) in
     bindP (write_json (cx_session env) (pairing_key (ps_id session)) session) (\<lambda>_.
     audit env dr 3 ''pairing_claim_denied'' None None None None ''websocket'' ''deny'' reason m)))"

definition paired_device :: "'b companion_env \<Rightarrow> draws \<Rightarrow> string \<Rightarrow> pairing_session \<Rightarrow> companion_device" where
  "paired_device env dr token session = (let capabilities = normalize_capabilities (ps_requested_capabilities session) in
     \<lparr>dv_id = ''device-'' @ dw_uuid dr 0, dv_display_name = ps_display_name session, dv_preset_id = ps_preset_id session,
      dv_platform = ps_platform session, dv_model = map_of (ps_metadata session) ''model'', dv_state = DevPaired,
      dv_transport = WebSocket, dv_available_capabilities = capabilities, dv_granted_capabilities = capabilities,
      dv_token_capabilities = capabilities, dv_declared_commands = command_descriptors_for_capabilities capabilities,
      dv_paired_at = now_rfc3339 env dr 5, dv_last_seen_at = None, dv_owner = Some ''local_user'', dv_metadata = ps_metadata session,
      dv_attestation = ps_attestation session, dv_trusted_unattested = ps_trusted_unattested session,
      dv_token_fingerprint = cx_token_hash env token, dv_active_grant_id = ''grant-'' @ dw_uuid dr 1, dv_command_count = 0\<rparr>)"

definition paired_grant :: "'b companion_env \<Rightarrow> draws \<Rightarrow> pairing_session \<Rightarrow> companion_grant" where
  "paired_grant env dr session = \<lparr>gr_id = ''grant-'' @ dw_uuid dr 1, gr_device_id = ''device-'' @ dw_uuid dr 0, gr_subject = ''local_user'',
     gr_capabilities = normalize_capabilities (ps_requested_capabilities session), gr_resources = ps_requested_resources session,
     gr_created_at = now_rfc3339 env dr 5, gr_revoked_at = None\<rparr>"

definition finalize_pairing_session :: "'b companion_env \<Rightarrow> draws \<Rightarrow> pairing_session \<Rightarrow> ('b, claim_result) prog" where
  "finalize_pairing_session env dr session =
     bindP (generate_secret dr 0 ''acd_'') (\<lambda>token.
     let grant = paired_grant env dr session; device = paired_device env dr token session;
         session = session\<lparr>ps_status := PairCompleted, ps_completed_at := Some (now_rfc3339 env dr 5),
           ps_metadata := bt_insert ''device_id'' (dv_id device) (ps_metadata session)\<rparr> in
     bindP (write_grant env grant) (\<lambda>_.
     bindP (write_device env device) (\<lambda>_.
     bindP (write_json (cx_session env) (pairing_key (ps_id session)) session) (\<lambda>_.
     bindP (audit env dr 6 ''device_paired'' (Some (dv_id device)) None (Some (gr_id grant)) None ''websocket'' ''allow''
       ''Companion device finalized approved pairing and received a scoped token.'' (session_entry session)) (\<lambda>_.
     return \<lparr>pr_status = PairCompleted, pr_message = ''Pairing completed. Store the device token in the platform keychain.'',
       pr_device = Some device, pr_device_token = Some token\<rparr>)))))"

text \<open>A claim by the right code and with a device identity, in a session that has not expired.\<close>

definition claim_waiting ::
  "'b companion_env \<Rightarrow> draws \<Rightarrow> pairing_session \<Rightarrow> string \<Rightarrow> pairing_claim \<Rightarrow> ('b, claim_result) prog" where
  "claim_waiting env dr session key claim = (
     let first_claim = (ps_claimed_at session = None);
         session = session\<lparr>ps_status := PairClaimed,
           ps_claimed_at := (if first_claim then Some (now_rfc3339 env dr 4) else ps_claimed_at session),
           ps_claimed_device_public_key := Some key,
           ps_attestation := evaluate_attestation_claim env (ps_platform session) (pl_attestation claim),
           ps_metadata := merge_metadata (ps_metadata session) (pl_metadata claim)\<rparr> in
     bindP (write_json (cx_session env) (pairing_key (ps_id session)) session) (\<lambda>_.
     bindP (if first_claim then audit env dr 3 ''pairing_session_claimed'' None None None None ''websocket'' ''allow''
         ''Companion device claimed pairing session and is waiting for approval.''
         (bt_insert ''attestation_verified'' (bool_text (da_verified (ps_attestation session)))
           (bt_insert ''device_key_fingerprint'' (cx_key_hash env key) (session_entry session)))
       else return ()) (\<lambda>_.
     return \<lparr>pr_status = PairClaimed, pr_message = ''Pairing claim received. Approve it in AgentArk.'', pr_device = None,
       pr_device_token = None\<rparr>)))"

definition claim_identified ::
  "'b companion_env \<Rightarrow> draws \<Rightarrow> pairing_session \<Rightarrow> string \<Rightarrow> pairing_claim \<Rightarrow> ('b, claim_result) prog" where
  "claim_identified env dr session key claim = (
     let fingerprint = [(''incoming_device_key_fingerprint'', cx_key_hash env key)] in
     case ps_status session of
       PairApproved \<Rightarrow>
        (if ps_claimed_device_public_key session \<noteq> Some key
         then bindP (record_pairing_claim_denial env dr session
             ''Pairing finalization used a different device identity than the approved claim.'' fingerprint) (\<lambda>_.
           abort ''pairing session was approved for another device identity'')
         else finalize_pairing_session env dr session)
     | PairCompleted \<Rightarrow> return \<lparr>pr_status = PairCompleted, pr_message = ''Pairing session was already completed.'',
         pr_device = None, pr_device_token = None\<rparr>
     | PairDenied \<Rightarrow> abort ''pairing session is not active''
     | PairExpired \<Rightarrow> abort ''pairing session is not active''
     | _ \<Rightarrow>
        (if ps_claimed_device_public_key session \<noteq> None \<and> ps_claimed_device_public_key session \<noteq> Some key
         then bindP (record_pairing_claim_denial env dr session
             ''Pairing claim used a different device identity than the approved claim.'' fingerprint) (\<lambda>_.
           abort ''pairing session is claimed by another device identity'')
         else claim_waiting env dr session key claim))"

definition claim_pairing_session :: "'b companion_env \<Rightarrow> draws \<Rightarrow> pairing_claim \<Rightarrow> ('b, claim_result) prog" where
  "claim_pairing_session env dr claim =
     bindP (read_json (cx_session env) (pairing_key (pl_session_id claim))) (\<lambda>r.
     bindP (given ''pairing session not found'' r) (\<lambda>session.
     if lockout_active env (dw_now dr 0) (ps_claim_locked_until session)
     then bindP (audit env dr 3 ''pairing_claim_denied'' None None None None ''websocket'' ''deny''
         ''Pairing claim is temporarily locked after repeated failed attempts.'' (session_entry session)) (\<lambda>_.
       abort ''pairing session is temporarily locked'')
     else
      let session = session\<lparr>ps_claim_attempts := sat_add_u32 (ps_claim_attempts session) 1\<rparr> in
      if \<not> constant_time_eq (ps_code session) (trim (pl_code claim))
      then bindP (record_pairing_claim_denial env dr session ''Pairing claim used an invalid code.'' []) (\<lambda>_.
        abort ''invalid pairing code'')
      else (case nonblank (pl_device_public_key claim) of
          None \<Rightarrow> bindP (record_pairing_claim_denial env dr session ''Pairing claim did not include a stable device identity.'' []) (\<lambda>_.
            abort ''device identity is required for pairing'')
        | Some key \<Rightarrow>
           (if pairing_expired env (dw_now dr 1) (ps_expires_at session)
            then bindP (write_json (cx_session env) (pairing_key (ps_id session)) (session\<lparr>ps_status := PairExpired\<rparr>)) (\<lambda>_.
              abort ''pairing session has expired'')
            else claim_identified env dr session key claim))))"

section \<open>Devices\<close>

definition verify_device_token :: "'b companion_env \<Rightarrow> draws \<Rightarrow> string \<Rightarrow> string \<Rightarrow> ('b, companion_device) prog" where
  "verify_device_token env dr device_id token =
     bindP (get_device env device_id) (\<lambda>r.
     bindP (given ''device not found'' r) (\<lambda>device.
     bindP (ensure (dv_state device \<noteq> DevRevoked) ''device has been revoked'') (\<lambda>_.
     if \<not> constant_time_eq (dv_token_fingerprint device) (cx_token_hash env (trim token))
     then bindP (audit env dr 0 ''device_auth_denied'' (Some (dv_id device)) None (Some (dv_active_grant_id device)) None
         ''websocket'' ''deny'' ''Device presented an invalid token.'' []) (\<lambda>_. abort ''invalid device token'')
     else return device)))"

definition pulsed_commands :: "companion_device \<Rightarrow> command_descriptor list \<Rightarrow> command_descriptor list result" where
  "pulsed_commands device declared = (if declared \<noteq> [] then normalize_declared_commands declared (dv_token_capabilities device)
     else if dv_declared_commands device = [] then Inr (command_descriptors_for_capabilities (dv_available_capabilities device))
     else Inr (dv_declared_commands device))"

definition pulse_device ::
  "'b companion_env \<Rightarrow> draws \<Rightarrow> string \<Rightarrow> device_state option \<Rightarrow> string list \<Rightarrow> command_descriptor list \<Rightarrow> string bmap
     \<Rightarrow> ('b, companion_device) prog" where
  "pulse_device env dr device_id st available declared metadata =
     bindP (get_device env device_id) (\<lambda>r.
     bindP (given ''device not found'' r) (\<lambda>device.
     bindP (ensure (dv_state device \<noteq> DevRevoked) ''device has been revoked'') (\<lambda>_.
     let device = device\<lparr>dv_state := (case st of Some s \<Rightarrow> s | None \<Rightarrow> DevOnline), dv_last_seen_at := Some (now_rfc3339 env dr 0)\<rparr> in
     bindP (if available = [] then return device
       else (let normal = normalize_capabilities available in
         bindP (Return (validate_capability_set normal)) (\<lambda>_. return (device\<lparr>dv_available_capabilities := normal\<rparr>)))) (\<lambda>device.
     bindP (Return (pulsed_commands device declared)) (\<lambda>commands.
     let device = device\<lparr>dv_declared_commands := commands, dv_metadata := merge_metadata (dv_metadata device) metadata\<rparr> in
     bindP (write_device env device) (\<lambda>_. return device))))))"

definition scope_denied ::
  "'b companion_env \<Rightarrow> draws \<Rightarrow> nat \<Rightarrow> companion_device \<Rightarrow> companion_grant \<Rightarrow> string \<Rightarrow> string \<Rightarrow> string \<Rightarrow> ('b, unit) prog" where
  "scope_denied env dr i device grant event reason e =
     bindP (audit env dr i event (Some (dv_id device)) None (Some (gr_id grant)) None ''ui'' ''deny'' reason []) (\<lambda>_. abort e)"

definition ensure_scopes_allowed ::
  "'b companion_env \<Rightarrow> draws \<Rightarrow> nat \<Rightarrow> string list \<Rightarrow> string list bmap \<Rightarrow> companion_grant \<Rightarrow> companion_device \<Rightarrow> string list
     \<Rightarrow> ('b, unit) prog" where
  "ensure_scopes_allowed env dr i scopes resources grant device caller_scopes = (
     if \<not> scope_subset scopes (gr_capabilities grant)
     then scope_denied env dr i device grant ''scope_denied'' ''Requested scopes exceeded the paired device grant.''
       ''requested scopes exceed paired device grant''
     else if \<not> scope_subset scopes (dv_token_capabilities device)
     then scope_denied env dr i device grant ''scope_denied'' ''Requested scopes exceeded the active device token scope.''
       ''requested scopes exceed active device token scope''
     else if \<not> scope_subset scopes caller_scopes
     then scope_denied env dr i device grant ''scope_denied'' ''Requested scopes exceeded the caller grant.''
       ''requested scopes exceed caller grant''
     else if resources \<noteq> [] \<and> \<not> resource_subset resources (gr_resources grant)
     then scope_denied env dr i device grant ''resource_scope_denied'' ''Requested resources exceeded the device grant.''
       ''requested resources exceed device grant''
     else return ())"

definition rotate_token ::
  "'b companion_env \<Rightarrow> draws \<Rightarrow> string \<Rightarrow> string list \<Rightarrow> string list \<Rightarrow> ('b, companion_device \<times> string) prog" where
  "rotate_token env dr device_id requested caller_scopes =
     bindP (get_device env device_id) (\<lambda>r.
     bindP (given ''device not found'' r) (\<lambda>device.
     bindP (ensure (dv_state device \<noteq> DevRevoked) ''device has been revoked'') (\<lambda>_.
     bindP (get_grant env (dv_active_grant_id device)) (\<lambda>g.
     bindP (given ''device grant not found'' g) (\<lambda>grant.
     let scopes = (if requested = [] then dv_token_capabilities device else normalize_capabilities requested) in
     bindP (Return (validate_capability_set scopes)) (\<lambda>_.
     bindP (ensure_scopes_allowed env dr 0 scopes [] grant device caller_scopes) (\<lambda>_.
     bindP (generate_secret dr 0 ''acd_'') (\<lambda>token.
     let fresh = device\<lparr>dv_token_fingerprint := cx_token_hash env token, dv_token_capabilities := scopes\<rparr> in
     bindP (write_device env fresh) (\<lambda>_.
     bindP (audit env dr 1 ''device_token_rotated'' (Some (dv_id device)) None (Some (gr_id grant)) (Some ''local_user'') ''ui'' ''allow''
       ''Companion token rotated without expanding beyond device and caller grants.''
       [(''new_token_fingerprint'', short_fingerprint (cx_token_hash env token)),
        (''old_token_fingerprint'', short_fingerprint (dv_token_fingerprint device))]) (\<lambda>_.
     return (fresh, token)))))))))))"

definition revoke_device :: "'b companion_env \<Rightarrow> draws \<Rightarrow> string \<Rightarrow> string \<Rightarrow> ('b, companion_device) prog" where
  "revoke_device env dr device_id actor =
     bindP (get_device env device_id) (\<lambda>r.
     bindP (given ''device not found'' r) (\<lambda>device.
     bindP (generate_secret dr 0 ''revoked_'') (\<lambda>secret.
     let device = device\<lparr>dv_state := DevRevoked, dv_token_fingerprint := cx_token_hash env secret\<rparr> in
     bindP (get_grant env (dv_active_grant_id device)) (\<lambda>g.
     bindP (given ''device grant not found'' g) (\<lambda>grant.
     bindP (write_grant env (grant\<lparr>gr_revoked_at := Some (now_rfc3339 env dr 0)\<rparr>)) (\<lambda>_.
     bindP (write_device env device) (\<lambda>_.
     bindP (audit env dr 1 ''device_revoked'' (Some (dv_id device)) None (Some (gr_id grant)) (Some actor) ''ui'' ''allow''
       ''Companion device and active grant revoked.'' []) (\<lambda>_. return device))))))))"

section \<open>Commands\<close>

definition new_scopes :: "string \<Rightarrow> string list \<Rightarrow> string list" where
  "new_scopes capability requested = (let scopes = normalize_capabilities requested in
     if capability \<in> set scopes then scopes else remdups_adj (sort (scopes @ [capability])))"

definition keep_nonblank :: "string option \<Rightarrow> string option" where
  "keep_nonblank x = (case x of None \<Rightarrow> None | Some v \<Rightarrow> if trim v = [] then None else Some v)"

definition create_command ::
  "'b companion_env \<Rightarrow> draws \<Rightarrow> string \<Rightarrow> command_create \<Rightarrow> string list \<Rightarrow> ('b, companion_command) prog" where
  "create_command env dr device_id input caller_scopes =
     bindP (get_device env device_id) (\<lambda>r.
     bindP (given ''device not found'' r) (\<lambda>device.
     bindP (ensure (dv_state device \<noteq> DevRevoked) ''device has been revoked'') (\<lambda>_.
     bindP (get_grant env (dv_active_grant_id device)) (\<lambda>g.
     bindP (given ''device grant not found'' g) (\<lambda>grant.
     bindP (ensure (gr_revoked_at grant = None) ''device grant has been revoked'') (\<lambda>_.
     let capability = normalize_id (cc_capability input); action = trim (cc_action input) in
     bindP (ensure (is_valid_capability_id capability) ''capability id is invalid'') (\<lambda>_.
     bindP (ensure (action \<noteq> []) ''typed command action is required'') (\<lambda>_.
     let scopes = new_scopes capability (cc_requested_scopes input); resources = normalize_resources (cc_resource_scope input) in
     bindP (Return (validate_capability_set scopes)) (\<lambda>_.
     bindP (ensure_scopes_allowed env dr 0 scopes resources grant device caller_scopes) (\<lambda>_.
     let high_risk = has_high_risk_capability scopes;
         command = \<lparr>cm_id = ''cmd-'' @ dw_uuid dr 0, cm_device_id = device_id, cm_capability = capability, cm_action = action,
           cm_arguments = cc_arguments input, cm_requested_scopes = scopes, cm_resource_scope = resources,
           cm_risk = (if high_risk then HighRisk else LowRisk),
           cm_approval_status = (if high_risk then Required else NotRequired),
           cm_status = (if high_risk then ApprovalRequired else Queued), cm_requested_at = now_rfc3339 env dr 1,
           cm_approved_at = None, cm_dispatched_at = None, cm_completed_at = None, cm_success = False, cm_result_preview = None,
           cm_result_trust = ''pending_device_report'', cm_actor = keep_nonblank (cc_actor input),
           cm_audit_reason = keep_nonblank (cc_audit_reason input), cm_error = None\<rparr> in
     bindP (write_command env command) (\<lambda>_.
     bindP (write_device env (device\<lparr>dv_command_count := sat_add_u64 (dv_command_count device) 1\<rparr>)) (\<lambda>_.
     bindP (audit env dr 2 ''command_created'' (Some device_id) (Some (cm_id command)) (Some (gr_id grant)) (cm_actor command) ''ui''
       (if high_risk then ''approval_required'' else ''allow'')
       (if high_risk then ''High-risk companion command is waiting for fresh approval.''
        else ''Companion command queued after scoped grant validation.'') []) (\<lambda>_. return command)))))))))))))"

definition decided_command :: "string \<Rightarrow> string \<Rightarrow> bool \<Rightarrow> string option \<Rightarrow> companion_command \<Rightarrow> companion_command" where
  "decided_command now actor approved reason command = (
     let command = (case keep_nonblank reason of Some r \<Rightarrow> command\<lparr>cm_audit_reason := Some r\<rparr> | None \<Rightarrow> command);
         command = command\<lparr>cm_actor := Some actor\<rparr> in
     if approved then command\<lparr>cm_approval_status := Approved, cm_status := Queued, cm_approved_at := Some now\<rparr>
     else command\<lparr>cm_approval_status := Denied, cm_status := CommandDenied, cm_completed_at := Some now,
       cm_error := Some ''Denied by user approval decision.''\<rparr>)"

definition approve_command ::
  "'b companion_env \<Rightarrow> draws \<Rightarrow> string \<Rightarrow> string \<Rightarrow> bool \<Rightarrow> string option \<Rightarrow> ('b, companion_command) prog" where
  "approve_command env dr command_id actor approved reason =
     bindP (get_command env command_id) (\<lambda>r.
     bindP (given ''command not found'' r) (\<lambda>command.
     bindP (ensure (cm_status command = ApprovalRequired) ''command is not waiting for approval'') (\<lambda>_.
     let command = decided_command (now_rfc3339 env dr 0) actor approved reason command in
     bindP (write_command env command) (\<lambda>_.
     bindP (audit env dr 1 (if approved then ''command_approved'' else ''command_denied'') (Some (cm_device_id command))
       (Some (cm_id command)) None (Some actor) ''ui'' (if approved then ''allow'' else ''deny'')
       (if approved then ''Fresh approval granted for high-risk companion command.''
        else ''Fresh approval denied for high-risk companion command.'') []) (\<lambda>_. return command)))))"

text \<open>The first queued command that still fits the token is dispatched; \<open>i\<close> numbers the draws of the loop.\<close>

fun dispatch_loop ::
  "'b companion_env \<Rightarrow> draws \<Rightarrow> string \<Rightarrow> companion_device \<Rightarrow> nat \<Rightarrow> companion_command list \<Rightarrow> ('b, companion_command option) prog" where
  "dispatch_loop env dr device_id device i [] = return None"
| "dispatch_loop env dr device_id device i (c # cs) = (
     if cm_status c \<noteq> Queued then dispatch_loop env dr device_id device i cs
     else if \<not> scope_subset (cm_requested_scopes c) (dv_token_capabilities device)
     then bindP (write_command env (c\<lparr>cm_status := CommandDenied, cm_completed_at := Some (now_rfc3339 env dr i),
           cm_error := Some ''Command no longer fits active device token scope.''\<rparr>)) (\<lambda>_.
       bindP (audit env dr (i + 1) ''command_scope_stale'' (Some device_id) (Some (cm_id c)) (Some (dv_active_grant_id device)) None
         ''websocket'' ''deny'' ''Queued command no longer fits the active device token scope.'' []) (\<lambda>_.
       dispatch_loop env dr device_id device (i + 2) cs))
     else
      let command = c\<lparr>cm_status := Running, cm_dispatched_at := Some (now_rfc3339 env dr i)\<rparr> in
      bindP (write_command env command) (\<lambda>_.
      bindP (audit env dr (i + 1) ''command_dispatched'' (Some device_id) (Some (cm_id command)) (Some (dv_active_grant_id device)) None
        ''websocket'' ''allow'' ''Companion command dispatched over authenticated WebSocket.'' []) (\<lambda>_. return (Some command))))"

definition dispatch_next_command :: "'b companion_env \<Rightarrow> draws \<Rightarrow> string \<Rightarrow> ('b, companion_command option) prog" where
  "dispatch_next_command env dr device_id =
     bindP (get_device env device_id) (\<lambda>r.
     bindP (given ''device not found'' r) (\<lambda>device.
     if dv_state device = DevRevoked then return None
     else bindP (list_commands env device_id) (dispatch_loop env dr device_id device 0)))"

definition nonempty :: "string option \<Rightarrow> string option" where
  "nonempty x = (if x = Some [] then None else x)"

definition complete_command ::
  "'b companion_env \<Rightarrow> draws \<Rightarrow> string \<Rightarrow> string \<Rightarrow> bool \<Rightarrow> string option \<Rightarrow> string option \<Rightarrow> ('b, companion_command) prog" where
  "complete_command env dr device_id command_id success result_preview e =
     bindP (get_command env command_id) (\<lambda>r.
     bindP (given ''command not found'' r) (\<lambda>command.
     bindP (ensure (cm_device_id command = device_id) ''command belongs to another device'') (\<lambda>_.
     let command = command\<lparr>cm_status := (if success then Succeeded else Failed), cm_success := success,
           cm_completed_at := Some (now_rfc3339 env dr 0),
           cm_result_preview := nonempty (map_option (\<lambda>v. cx_sanitize_output env (take 2000 (trim v))) result_preview),
           cm_result_trust := ''device_reported_unverified'',
           cm_error := nonempty (map_option (\<lambda>v. take 1000 (cx_redact_secrets env (trim v))) e)\<rparr> in
     bindP (write_command env command) (\<lambda>_.
     bindP (audit env dr 1 ''command_result'' (Some device_id) (Some command_id) None None ''websocket''
       (if success then ''succeeded'' else ''failed'')
       ''Companion device returned a structured command result. The server records this as device-reported, not independently proven.''
       [(''result_trust'', cm_result_trust command)]) (\<lambda>_. return command)))))"

section \<open>Requests of the user interface\<close>

text \<open>
  \<open>channels/http/app\_api/companion\_control.rs\<close> takes the scopes of the caller from the device itself.
\<close>

definition current_device_scopes :: "'b companion_env \<Rightarrow> string \<Rightarrow> ('b, string list) prog" where
  "current_device_scopes env device_id = bindP (get_device env device_id) (\<lambda>r.
     bindP (given ''device not found'' r) (\<lambda>device. return (dv_token_capabilities device)))"

definition http_create_command :: "'b companion_env \<Rightarrow> draws \<Rightarrow> string \<Rightarrow> command_create \<Rightarrow> ('b, companion_command) prog" where
  "http_create_command env dr device_id input = bindP (current_device_scopes env device_id) (create_command env dr device_id input)"

definition http_rotate_token :: "'b companion_env \<Rightarrow> draws \<Rightarrow> string \<Rightarrow> string list \<Rightarrow> ('b, companion_device \<times> string) prog" where
  "http_rotate_token env dr device_id requested = bindP (current_device_scopes env device_id) (rotate_token env dr device_id requested)"

end
