(* ===== verification/Companion_Socket.thy ===== *)
theory Companion_Socket
  imports Companion_Plane
begin

text \<open>
  The WebSocket of a companion (\<open>handle\_companion\_socket\<close> of \<open>channels/http/app\_api/companion\_control.rs\<close>): what one
  message does and what is sent back, and all operations on the plane as the handlers that may run at once.

  Sending is taken to succeed; a failed send ends the loop, after the same effects. A text that is no envelope and an
  unknown type are answered by an error. A panic ends the handler.
\<close>

section \<open>Messages\<close>

record ws_envelope =
  en_type :: string
  en_device_id :: "string option"
  en_token :: "string option"
  en_session_id :: "string option"
  en_code :: "string option"
  en_device_public_key :: "string option"
  en_attestation :: "attestation_claim option"
  en_state :: "device_state option"
  en_capabilities :: "string list"
  en_commands :: "command_descriptor list"
  en_metadata :: "string bmap"
  en_command_id :: "string option"
  en_success :: "bool option"
  en_result_preview :: "string option"
  en_error :: "string option"

datatype ws_out =
    OutHello
  | OutAuthOk companion_device
  | OutAuthError string
  | OutError string
  | OutClaim claim_result
  | OutDispatch companion_command
  | OutPulseOk companion_device
  | OutResultOk companion_command

definition frame_text_or_empty :: "string option \<Rightarrow> string" where
  "frame_text_or_empty x = (case x of Some s \<Rightarrow> s | None \<Rightarrow> [])"

text \<open>Handling the two outcomes of an operation; a panic is passed on.\<close>

definition attempt :: "('b, 'a) prog \<Rightarrow> ('a \<Rightarrow> ('b, 'r) prog) \<Rightarrow> (string \<Rightarrow> ('b, 'r) prog) \<Rightarrow> ('b, 'r) prog" where
  "attempt p ok failed = catchP p (\<lambda>r. case r of Inr a \<Rightarrow> ok a | Inl (Err e) \<Rightarrow> failed e | Inl (Panicked e) \<Rightarrow> Return (Inl (Panicked e)))"

text \<open>The draws of a later operation.\<close>

definition later :: "nat \<Rightarrow> draws \<Rightarrow> draws" where
  "later n dr = \<lparr>dw_now = (\<lambda>i. dw_now dr (n + i)), dw_uuid = (\<lambda>i. dw_uuid dr (n + i)), dw_secret = (\<lambda>i. dw_secret dr (n + i))\<rparr>"

definition send_next_command :: "'b companion_env \<Rightarrow> draws \<Rightarrow> string \<Rightarrow> ('b, ws_out list) prog" where
  "send_next_command env dr device_id = attempt (dispatch_next_command env dr device_id)
     (\<lambda>r. return (case r of Some c \<Rightarrow> [OutDispatch c] | None \<Rightarrow> [])) (\<lambda>e. return [OutError e])"

definition companion_ws_device_id_allowed :: "string option \<Rightarrow> string \<Rightarrow> bool" where
  "companion_ws_device_id_allowed message_device_id authed = (case nonblank message_device_id of Some i \<Rightarrow> i = authed | None \<Rightarrow> True)"

text \<open>Authentication by a token: the device is marked online, and the outcome of that is ignored.\<close>

definition ws_authenticate ::
  "'b companion_env \<Rightarrow> draws \<Rightarrow> string \<Rightarrow> string \<Rightarrow> string option \<Rightarrow> ('b, string option \<times> ws_out list) prog" where
  "ws_authenticate env dr device_id token authed = attempt (verify_device_token env dr device_id token)
     (\<lambda>device. attempt (pulse_device env (later 10 dr) (dv_id device) (Some DevOnline) [] [] [])
        (\<lambda>_. bindP (send_next_command env (later 20 dr) device_id) (\<lambda>out. return (Some (dv_id device), OutAuthOk device # out)))
        (\<lambda>_. bindP (send_next_command env (later 20 dr) device_id) (\<lambda>out. return (Some (dv_id device), OutAuthOk device # out))))
     (\<lambda>e. return (authed, [OutAuthError e]))"

definition ws_claim :: "'b companion_env \<Rightarrow> draws \<Rightarrow> ws_envelope \<Rightarrow> string option \<Rightarrow> ('b, string option \<times> ws_out list) prog" where
  "ws_claim env dr m authed = attempt (claim_pairing_session env dr
       \<lparr>pl_session_id = frame_text_or_empty (en_session_id m), pl_code = frame_text_or_empty (en_code m),
        pl_device_public_key = en_device_public_key m, pl_attestation = en_attestation m, pl_metadata = en_metadata m\<rparr>)
     (\<lambda>result. let authed = (case pr_device result of Some d \<Rightarrow> Some (dv_id d) | None \<Rightarrow> authed) in
        case authed of
          None \<Rightarrow> return (authed, [OutClaim result])
        | Some i \<Rightarrow> bindP (send_next_command env (later 20 dr) i) (\<lambda>out. return (authed, OutClaim result # out)))
     (\<lambda>e. return (authed, [OutError e]))"

text \<open>Messages that need an authenticated socket, and whose device is that of the socket.\<close>

definition ws_own ::
  "string option \<Rightarrow> ws_envelope \<Rightarrow> (string \<Rightarrow> ws_out) \<Rightarrow> string \<Rightarrow> (string \<Rightarrow> ('b, ws_out list) prog) \<Rightarrow> ('b, string option \<times> ws_out list) prog" where
  "ws_own authed m answer unauthenticated f = (case authed of
     None \<Rightarrow> return (authed, [answer unauthenticated])
   | Some i \<Rightarrow> (if companion_ws_device_id_allowed (en_device_id m) i then bindP (f i) (\<lambda>out. return (authed, out))
       else return (authed, [answer ''message device_id does not match the authenticated device''])))"

definition ws_hello_again :: "'b companion_env \<Rightarrow> draws \<Rightarrow> string \<Rightarrow> ('b, ws_out list) prog" where
  "ws_hello_again env dr i = attempt (get_device env i)
     (\<lambda>r. case r of None \<Rightarrow> return []
        | Some device \<Rightarrow> bindP (send_next_command env dr i) (\<lambda>out. return (OutAuthOk device # out)))
     (\<lambda>e. return [])"

definition ws_pulse :: "'b companion_env \<Rightarrow> draws \<Rightarrow> ws_envelope \<Rightarrow> string \<Rightarrow> ('b, ws_out list) prog" where
  "ws_pulse env dr m i = attempt (pulse_device env dr i (en_state m) (en_capabilities m) (en_commands m) (en_metadata m))
     (\<lambda>device. bindP (send_next_command env (later 20 dr) i) (\<lambda>out. return (OutPulseOk device # out)))
     (\<lambda>e. return [OutError e])"

definition ws_result :: "'b companion_env \<Rightarrow> draws \<Rightarrow> ws_envelope \<Rightarrow> string \<Rightarrow> ('b, ws_out list) prog" where
  "ws_result env dr m i = attempt (complete_command env dr i (frame_text_or_empty (en_command_id m)) (en_success m = Some True)
       (en_result_preview m) (en_error m))
     (\<lambda>command. return [OutResultOk command]) (\<lambda>e. return [OutError e])"

definition socket_message ::
  "'b companion_env \<Rightarrow> draws \<Rightarrow> ws_envelope \<Rightarrow> string option \<Rightarrow> ('b, string option \<times> ws_out list) prog" where
  "socket_message env dr m authed = (
     if en_type m = ''pairing_claim'' then ws_claim env dr m authed
     else if en_type m = ''browser_auth'' then ws_authenticate env dr (frame_text_or_empty (en_device_id m)) (frame_text_or_empty (en_token m)) authed
     else if en_type m = ''auth'' then
       (if en_token m \<noteq> None
        then return (authed, [OutAuthError ''send companion tokens in the WebSocket Authorization header, not in JSON messages''])
        else ws_own authed m OutAuthError ''missing WebSocket Authorization header'' (ws_hello_again env dr))
     else if en_type m = ''pulse'' \<or> en_type m = ''capability_report'' then
       ws_own authed m OutError ''authenticate before pulse or capability_report'' (ws_pulse env dr m)
     else if en_type m = ''command_result'' then
       ws_own authed m OutError ''authenticate before command_result'' (ws_result env dr m)
     else return (authed, [OutError ''unsupported companion protocol message type'']))"

text \<open>Opening the socket, with the device and token of its headers.\<close>

definition socket_open :: "'b companion_env \<Rightarrow> draws \<Rightarrow> (string \<times> string) option \<Rightarrow> ('b, string option \<times> ws_out list) prog" where
  "socket_open env dr initial_auth = (case initial_auth of
     None \<Rightarrow> return (None, [OutHello])
   | Some (device_id, token) \<Rightarrow> bindP (ws_authenticate env dr device_id token None) (\<lambda>(authed, out). return (authed, OutHello # out)))"

section \<open>All operations\<close>

datatype companion_op =
    OpCreateSession draws pairing_create string
  | OpApproveSession draws string string
  | OpClaim draws pairing_claim
  | OpVerify draws string string
  | OpPulse draws string "device_state option" "string list" "command_descriptor list" "string bmap"
  | OpCommand draws string command_create
  | OpApproveCommand draws string string bool "string option"
  | OpDispatch draws string
  | OpComplete draws string string bool "string option" "string option"
  | OpRotate draws string "string list"
  | OpRevoke draws string string
  | OpSocket draws ws_envelope "string option"
  | OpOpen draws "(string \<times> string) option"

datatype companion_reply =
    ReplySession pairing_session
  | ReplyClaim claim_result
  | ReplyDevice companion_device
  | ReplyCommand companion_command
  | ReplyDispatched "companion_command option"
  | ReplyRotated companion_device string
  | ReplySocket "string option" "ws_out list"

fun companion_program :: "'b companion_env \<Rightarrow> companion_op \<Rightarrow> ('b, companion_reply) prog" where
  "companion_program env (OpCreateSession dr input actor) = bindP (create_pairing_session env dr input actor) (\<lambda>s. return (ReplySession s))"
| "companion_program env (OpApproveSession dr i actor) = bindP (approve_pairing_session env dr i actor) (\<lambda>s. return (ReplySession s))"
| "companion_program env (OpClaim dr claim) = bindP (claim_pairing_session env dr claim) (\<lambda>r. return (ReplyClaim r))"
| "companion_program env (OpVerify dr i token) = bindP (verify_device_token env dr i token) (\<lambda>d. return (ReplyDevice d))"
| "companion_program env (OpPulse dr i st available declared metadata) =
     bindP (pulse_device env dr i st available declared metadata) (\<lambda>d. return (ReplyDevice d))"
| "companion_program env (OpCommand dr i input) = bindP (http_create_command env dr i input) (\<lambda>c. return (ReplyCommand c))"
| "companion_program env (OpApproveCommand dr i actor approved reason) =
     bindP (approve_command env dr i actor approved reason) (\<lambda>c. return (ReplyCommand c))"
| "companion_program env (OpDispatch dr i) = bindP (dispatch_next_command env dr i) (\<lambda>c. return (ReplyDispatched c))"
| "companion_program env (OpComplete dr i command success preview e) =
     bindP (complete_command env dr i command success preview e) (\<lambda>c. return (ReplyCommand c))"
| "companion_program env (OpRotate dr i scopes) = bindP (http_rotate_token env dr i scopes) (\<lambda>(d, token). return (ReplyRotated d token))"
| "companion_program env (OpRevoke dr i actor) = bindP (revoke_device env dr i actor) (\<lambda>d. return (ReplyDevice d))"
| "companion_program env (OpSocket dr m authed) = bindP (socket_message env dr m authed) (\<lambda>(a, out). return (ReplySocket a out))"
| "companion_program env (OpOpen dr auth) = bindP (socket_open env dr auth) (\<lambda>(a, out). return (ReplySocket a out))"

end
