(* ===== verification/Companion_Safety.thy ===== *)
theory Companion_Safety
  imports Companion_Socket
begin

text \<open>
  What the companion plane promises however its operations are woven together and whatever statement fails: every
  stored document is well formed, devices hold no more than was approved, and commands of high risk are
  approved before they are dispatched.
\<close>

section \<open>Well-formed documents\<close>

text \<open>
  The documented behaviour of serde: documents read back, and an array of strings, which an index is, is not a pairing
  session.
\<close>

definition cx_ok :: "'b companion_env \<Rightarrow> bool" where
  "cx_ok env \<longleftrightarrow> codec_ok (cx_index env) \<and> codec_ok (cx_device env) \<and> codec_ok (cx_grant env) \<and> codec_ok (cx_session env)
     \<and> codec_ok (cx_command env) \<and> codec_ok (cx_event env)
     \<and> (\<forall>ids bs. to_vec (cx_index env) ids = Some bs \<longrightarrow> from_slice (cx_session env) bs = None)"

definition clean_capability :: "string \<Rightarrow> bool" where
  "clean_capability v \<longleftrightarrow> normalize_id v = v \<and> is_valid_capability_id v \<and> known_capability v"

text \<open>Capabilities of high risk were approved with the override, never for the bundled mobile presets.\<close>

definition risk_accepted :: "string list \<Rightarrow> bool \<Rightarrow> string \<Rightarrow> bool" where
  "risk_accepted capabilities trusted preset_id \<longleftrightarrow> (has_high_risk_capability capabilities \<longrightarrow>
     trusted \<and> \<not> bundled_mobile_preset_requires_attestation preset_id)"

definition pairing_ok :: "pairing_session \<Rightarrow> bool" where
  "pairing_ok s \<longleftrightarrow> list_all clean_capability (ps_requested_capabilities s) \<and> \<not> da_verified (ps_attestation s)
     \<and> (ps_status s \<in> {PairApproved, PairCompleted} \<longrightarrow>
          risk_accepted (ps_requested_capabilities s) (ps_trusted_unattested s) (ps_preset_id s)
          \<and> nonblank (ps_claimed_device_public_key s) \<noteq> None)"

definition device_ok :: "companion_device \<Rightarrow> bool" where
  "device_ok d \<longleftrightarrow> list_all clean_capability (dv_granted_capabilities d)
     \<and> scope_subset (dv_token_capabilities d) (dv_granted_capabilities d)
     \<and> risk_accepted (dv_granted_capabilities d) (dv_trusted_unattested d) (dv_preset_id d)"

definition command_ok :: "companion_command \<Rightarrow> bool" where
  "command_ok c \<longleftrightarrow> cm_capability c \<in> set (cm_requested_scopes c)
     \<and> (cm_risk c = HighRisk \<longleftrightarrow> has_high_risk_capability (cm_requested_scopes c))
     \<and> (cm_status c \<in> {Queued, Running} \<longrightarrow> cm_risk c = HighRisk \<longrightarrow> cm_approval_status c = Approved \<and> cm_approved_at c \<noteq> None)"

text \<open>
  Devices are kept under their own ids. \<open>R\<close> may name a device that is revoked: then no document says otherwise.
\<close>

definition device_good :: "string option \<Rightarrow> companion_device \<Rightarrow> bool" where
  "device_good R d \<longleftrightarrow> device_ok d \<and> (case R of None \<Rightarrow> True
     | Some i \<Rightarrow> device_key (dv_id d) = device_key i \<longrightarrow> dv_state d = DevRevoked)"

definition doc_ok :: "'b companion_env \<Rightarrow> string option \<Rightarrow> string \<Rightarrow> 'b list \<Rightarrow> bool" where
  "doc_ok env R k b \<longleftrightarrow>
     (prefix_of ''companion:device:'' k \<longrightarrow> (case from_slice (cx_device env) b of Some d \<Rightarrow> device_good R d \<and> k = device_key (dv_id d) | None \<Rightarrow> True))
     \<and> (prefix_of ''companion:pairing:'' k \<longrightarrow> (case from_slice (cx_session env) b of Some s \<Rightarrow> pairing_ok s | None \<Rightarrow> True))
     \<and> (prefix_of ''companion:command:'' k \<longrightarrow> (case from_slice (cx_command env) b of Some c \<Rightarrow> command_ok c | None \<Rightarrow> True))"

definition dispatched_ok :: "companion_command \<Rightarrow> bool" where
  "dispatched_ok c \<longleftrightarrow> command_ok c \<and> cm_status c = Running"

definition out_ok :: "ws_out \<Rightarrow> bool" where
  "out_ok out \<longleftrightarrow> (case out of OutDispatch c \<Rightarrow> dispatched_ok c | OutClaim r \<Rightarrow> (case pr_device r of Some d \<Rightarrow> device_ok d | None \<Rightarrow> True)
     | _ \<Rightarrow> True)"

definition claim_ok :: "claim_result \<Rightarrow> bool" where
  "claim_ok r \<longleftrightarrow> (case pr_device r of Some d \<Rightarrow> device_ok d | None \<Rightarrow> True)"

fun reply_ok :: "companion_reply \<Rightarrow> bool" where
  "reply_ok (ReplySession s) \<longleftrightarrow> pairing_ok s"
| "reply_ok (ReplyClaim r) \<longleftrightarrow> claim_ok r"
| "reply_ok (ReplyDevice d) \<longleftrightarrow> device_ok d"
| "reply_ok (ReplyCommand c) \<longleftrightarrow> command_ok c"
| "reply_ok (ReplyDispatched c) \<longleftrightarrow> (case c of Some c \<Rightarrow> dispatched_ok c | None \<Rightarrow> True)"
| "reply_ok (ReplyRotated d _) \<longleftrightarrow> device_ok d"
| "reply_ok (ReplySocket _ outs) \<longleftrightarrow> list_all out_ok outs"

section \<open>Keys\<close>

lemma prefix_of_append [simp]: "prefix_of p (p @ s)"
  by (induction p) auto

lemma key_prefixes:
  "prefix_of ''companion:device:'' (device_key i)" "prefix_of ''companion:pairing:'' (pairing_key i)"
  "prefix_of ''companion:command:'' (command_key i)"
  "\<not> prefix_of ''companion:pairing:'' (device_key i)" "\<not> prefix_of ''companion:command:'' (device_key i)"
  "\<not> prefix_of ''companion:device:'' (pairing_key i)" "\<not> prefix_of ''companion:command:'' (pairing_key i)"
  "\<not> prefix_of ''companion:device:'' (command_key i)" "\<not> prefix_of ''companion:pairing:'' (command_key i)"
  "\<not> prefix_of ''companion:device:'' (grant_key i)" "\<not> prefix_of ''companion:pairing:'' (grant_key i)"
  "\<not> prefix_of ''companion:command:'' (grant_key i)"
  "\<not> prefix_of ''companion:device:'' (audit_key i)" "\<not> prefix_of ''companion:pairing:'' (audit_key i)"
  "\<not> prefix_of ''companion:command:'' (audit_key i)"
  "\<not> prefix_of ''companion:device:'' (command_index_key i)" "\<not> prefix_of ''companion:pairing:'' (command_index_key i)"
  "\<not> prefix_of ''companion:command:'' (command_index_key i)"
  by (simp_all add: device_key_def pairing_key_def command_key_def grant_key_def audit_key_def command_index_key_def)

lemma index_prefixes:
  "\<not> prefix_of ''companion:device:'' DEVICE_INDEX_KEY" "\<not> prefix_of ''companion:pairing:'' DEVICE_INDEX_KEY"
  "\<not> prefix_of ''companion:command:'' DEVICE_INDEX_KEY"
  "\<not> prefix_of ''companion:device:'' PAIRING_INDEX_KEY" "\<not> prefix_of ''companion:command:'' PAIRING_INDEX_KEY"
  "\<not> prefix_of ''companion:device:'' AUDIT_INDEX_KEY" "\<not> prefix_of ''companion:pairing:'' AUDIT_INDEX_KEY"
  "\<not> prefix_of ''companion:command:'' AUDIT_INDEX_KEY"
  by (simp_all add: DEVICE_INDEX_KEY_def PAIRING_INDEX_KEY_def AUDIT_INDEX_KEY_def)

lemma cx_reads_back:
  assumes "cx_ok env"
  shows "to_vec (cx_device env) d = Some b \<Longrightarrow> from_slice (cx_device env) b = Some d"
    and "to_vec (cx_session env) s = Some b \<Longrightarrow> from_slice (cx_session env) b = Some s"
    and "to_vec (cx_command env) c = Some b \<Longrightarrow> from_slice (cx_command env) b = Some c"
    and "to_vec (cx_grant env) g = Some b \<Longrightarrow> from_slice (cx_grant env) b = Some g"
    and "to_vec (cx_event env) e = Some b \<Longrightarrow> from_slice (cx_event env) b = Some e"
    and "to_vec (cx_index env) ids = Some b \<Longrightarrow> from_slice (cx_index env) b = Some ids"
  using assms unfolding cx_ok_def codec_ok_def by (metis option.inject)+

section \<open>Every operation writes good documents\<close>

named_theorems safe_rules \<open>operations that keep the documents well formed\<close>

lemma safe_return [safe_rules]: "post a \<Longrightarrow> safe good post (return a)"
  by simp

lemma safe_abort [safe_rules]: "safe good post (Return (Inl e))"
  by simp

lemma safe_Return: "(\<And>a. r = Inr a \<Longrightarrow> post a) \<Longrightarrow> safe good post (Return r)"
  by (simp split: sum.splits)

lemma safe_read: "(\<And>b v. good k b \<Longrightarrow> from_slice c b = Some v \<Longrightarrow> post (Some v)) \<Longrightarrow> post None \<Longrightarrow> safe good post (read_json c k)"
  by (auto simp: read_json_def split: option.splits)

lemma safe_write: "(\<And>b. to_vec c v = Some b \<Longrightarrow> good k b) \<Longrightarrow> safe good (\<lambda>_. True) (write_json c k v)"
  by (auto simp: write_json_def split: option.splits)

lemma safe_any_read: "safe good (\<lambda>_. True) (read_json c k)"
  by (rule safe_read) simp_all

lemma safe_read_device: "safe (doc_ok env R) (\<lambda>r. \<forall>d. r = Some d \<longrightarrow> device_good R d) (get_device env i)"
  unfolding get_device_def by (rule safe_read) (auto simp: doc_ok_def key_prefixes)

lemma safe_read_session: "safe (doc_ok env R) (\<lambda>r. \<forall>s. r = Some s \<longrightarrow> pairing_ok s) (read_json (cx_session env) (pairing_key i))"
  by (rule safe_read) (auto simp: doc_ok_def key_prefixes)

lemma safe_read_command: "safe (doc_ok env R) (\<lambda>r. \<forall>c. r = Some c \<longrightarrow> command_ok c) (get_command env i)"
  unfolding get_command_def by (rule safe_read) (auto simp: doc_ok_def key_prefixes)

lemma safe_read_grant: "safe (doc_ok env R) (\<lambda>_. True) (get_grant env i)"
  unfolding get_grant_def by (rule safe_any_read)

lemma safe_read_index: "safe (doc_ok env R) (\<lambda>_. True) (read_index env k)"
  unfolding read_index_def by (rule safe_bindP [OF safe_any_read]) simp

lemma safe_write_ids:
  assumes "cx_ok env" and "\<not> prefix_of ''companion:device:'' k" and "\<not> prefix_of ''companion:command:'' k"
  shows "safe (doc_ok env R) (\<lambda>_. True) (write_json (cx_index env) k ids)"
  by (rule safe_write) (use assms in \<open>auto simp: doc_ok_def cx_ok_def\<close>)

lemma safe_append_index:
  assumes "cx_ok env" and "\<not> prefix_of ''companion:device:'' k" and "\<not> prefix_of ''companion:command:'' k"
  shows "safe (doc_ok env R) (\<lambda>_. True) (append_index env k i)"
  unfolding append_index_def write_index_def by (rule safe_bindP [OF safe_read_index]) (rule safe_write_ids [OF assms])

lemma safe_write_device: "cx_ok env \<Longrightarrow> device_good R d \<Longrightarrow> safe (doc_ok env R) (\<lambda>_. True) (write_device env d)"
  unfolding write_device_def
  by (rule safe_bindP [OF safe_write]) (auto simp: doc_ok_def key_prefixes index_prefixes dest: cx_reads_back intro: safe_append_index)

lemma safe_write_session: "cx_ok env \<Longrightarrow> pairing_ok s \<Longrightarrow> safe (doc_ok env R) (\<lambda>_. True) (write_json (cx_session env) (pairing_key i) s)"
  by (rule safe_write) (auto simp: doc_ok_def key_prefixes dest: cx_reads_back)

lemma safe_write_command: "cx_ok env \<Longrightarrow> command_ok c \<Longrightarrow> safe (doc_ok env R) (\<lambda>_. True) (write_command env c)"
  unfolding write_command_def
  by (rule safe_bindP [OF safe_write]) (auto simp: doc_ok_def key_prefixes dest: cx_reads_back intro: safe_append_index)

lemma safe_write_grant: "safe (doc_ok env R) (\<lambda>_. True) (write_grant env g)"
  unfolding write_grant_def by (rule safe_write) (simp add: doc_ok_def key_prefixes)

lemma safe_audit: "cx_ok env \<Longrightarrow> safe (doc_ok env R) (\<lambda>_. True) (audit env dr i a b c d e f g h m)"
  unfolding audit_def Let_def companion_audit_hash_def write_ordered_index_def
  by (intro safe_bindP [OF safe_read_index] safe_bindP [OF safe_write] safe_write_ids safe_bindP [where post = "\<lambda>_. True"])
    (auto simp: doc_ok_def key_prefixes index_prefixes split: option.splits intro!: safe_bindP [OF safe_any_read])

lemma safe_read_all:
  "(\<And>i. safe good (\<lambda>r. \<forall>v. r = Some v \<longrightarrow> P v) (get i)) \<Longrightarrow> safe good (list_all P) (read_all get is)"
  by (induction "is") (auto intro!: safe_bindP split: option.splits)

lemma set_newest_first: "set (newest_first k xs) = set xs"
  by (simp add: newest_first_def)

lemma safe_list_commands: "safe (doc_ok env R) (list_all command_ok) (list_commands env i)"
  unfolding list_commands_def
  by (intro safe_bindP [OF safe_read_index] safe_bindP [OF safe_read_all [OF safe_read_command]] safe_return)
    (simp add: list_all_iff set_newest_first)

text \<open>The steps of a handler, each with what its continuation may rely on.\<close>

named_theorems safe_steps \<open>steps of a handler that keep the documents well formed\<close>

lemma step_ensure [safe_steps]: "(c \<Longrightarrow> safe good q (f ())) \<Longrightarrow> safe good q (bindP (ensure c e) f)"
  by (rule safe_bindP [OF safe_ensure]) simp

lemma step_given [safe_steps]: "(\<And>a. x = Some a \<Longrightarrow> safe good q (f a)) \<Longrightarrow> safe good q (bindP (given e x) f)"
  by (rule safe_bindP [OF safe_given])

lemma step_Return [safe_steps]: "(\<And>a. r = Inr a \<Longrightarrow> safe good q (f a)) \<Longrightarrow> safe good q (bindP (Return r) f)"
  by (simp split: sum.splits)

lemma step_clock [safe_steps]: "(\<And>t. safe good q (f t)) \<Longrightarrow> safe good q (bindP (clock_plus env now n) f)"
  by (simp add: clock_plus_def split: option.splits)

lemma step_secret [safe_steps]: "(\<And>t. safe good q (f t)) \<Longrightarrow> safe good q (bindP (generate_secret dr i p) f)"
  by (simp add: generate_secret_def split: option.splits)

lemma step_code [safe_steps]: "(\<And>t. safe good q (f t)) \<Longrightarrow> safe good q (bindP (generate_pairing_code dr i) f)"
  by (simp add: generate_pairing_code_def split: option.splits)

lemma step_if [safe_steps]: "(c \<Longrightarrow> safe good q a) \<Longrightarrow> (\<not> c \<Longrightarrow> safe good q b) \<Longrightarrow> safe good q (if c then a else b)"
  by simp

lemma step_option [safe_steps]:
  "(x = None \<Longrightarrow> safe good q a) \<Longrightarrow> (\<And>v. x = Some v \<Longrightarrow> safe good q (f v)) \<Longrightarrow> safe good q (case x of None \<Rightarrow> a | Some v \<Rightarrow> f v)"
  by (simp split: option.splits)

lemma step_read_device [safe_steps]:
  "(\<And>r. (\<And>d. r = Some d \<Longrightarrow> device_good R d) \<Longrightarrow> safe (doc_ok env R) q (f r)) \<Longrightarrow> safe (doc_ok env R) q (bindP (get_device env i) f)"
  by (rule safe_bindP [OF safe_read_device]) simp

lemma step_read_session [safe_steps]:
  "(\<And>r. (\<And>s. r = Some s \<Longrightarrow> pairing_ok s) \<Longrightarrow> safe (doc_ok env R) q (f r)) \<Longrightarrow>
     safe (doc_ok env R) q (bindP (read_json (cx_session env) (pairing_key i)) f)"
  by (rule safe_bindP [OF safe_read_session]) simp

lemma step_read_command [safe_steps]:
  "(\<And>r. (\<And>c. r = Some c \<Longrightarrow> command_ok c) \<Longrightarrow> safe (doc_ok env R) q (f r)) \<Longrightarrow> safe (doc_ok env R) q (bindP (get_command env i) f)"
  by (rule safe_bindP [OF safe_read_command]) simp

lemma step_read_grant [safe_steps]: "(\<And>r. safe (doc_ok env R) q (f r)) \<Longrightarrow> safe (doc_ok env R) q (bindP (get_grant env i) f)"
  by (rule safe_bindP [OF safe_read_grant])

lemma step_commands [safe_steps]:
  "(\<And>cs. list_all command_ok cs \<Longrightarrow> safe (doc_ok env R) q (f cs)) \<Longrightarrow> safe (doc_ok env R) q (bindP (list_commands env i) f)"
  by (rule safe_bindP [OF safe_list_commands])

lemma step_write_device [safe_steps]:
  "cx_ok env \<Longrightarrow> device_good R d \<Longrightarrow> safe (doc_ok env R) q (f ()) \<Longrightarrow> safe (doc_ok env R) q (bindP (write_device env d) f)"
  by (rule safe_bindP [OF safe_write_device]) simp_all

lemma step_write_session [safe_steps]:
  "cx_ok env \<Longrightarrow> pairing_ok s \<Longrightarrow> safe (doc_ok env R) q (f ()) \<Longrightarrow>
     safe (doc_ok env R) q (bindP (write_json (cx_session env) (pairing_key i) s) f)"
  by (rule safe_bindP [OF safe_write_session]) simp_all

lemma step_write_command [safe_steps]:
  "cx_ok env \<Longrightarrow> command_ok c \<Longrightarrow> safe (doc_ok env R) q (f ()) \<Longrightarrow> safe (doc_ok env R) q (bindP (write_command env c) f)"
  by (rule safe_bindP [OF safe_write_command]) simp_all

lemma step_write_grant [safe_steps]: "safe (doc_ok env R) q (f ()) \<Longrightarrow> safe (doc_ok env R) q (bindP (write_grant env g) f)"
  by (rule safe_bindP [OF safe_write_grant]) simp

lemma step_append_sessions [safe_steps]:
  "cx_ok env \<Longrightarrow> safe (doc_ok env R) q (f ()) \<Longrightarrow> safe (doc_ok env R) q (bindP (append_index env PAIRING_INDEX_KEY i) f)"
  by (rule safe_bindP [OF safe_append_index]) (simp_all add: index_prefixes)

lemma step_audit [safe_steps]:
  "cx_ok env \<Longrightarrow> safe (doc_ok env R) q (f ()) \<Longrightarrow> safe (doc_ok env R) q (bindP (audit env dr i a b c d e g h j m) f)"
  by (rule safe_bindP [OF safe_audit]) simp_all

lemma clean_preset: "p \<in> set companion_presets \<Longrightarrow> list_all clean_capability (pe_capability_ids p)"
proof -
  have "list_all clean_capability [''approval_prompt'', ''notifications'', ''file_read'', ''file_write'', ''system_run'']"
    by (simp add: clean_capability_def known_capability_def catalog_ids) code_simp
  then show "p \<in> set companion_presets \<Longrightarrow> list_all clean_capability (pe_capability_ids p)"
    by (auto simp: companion_presets_def preset_def)
qed

lemma clean_normalized: "validate_capability_set (normalize_capabilities vs) = Inr u \<Longrightarrow> list_all clean_capability (normalize_capabilities vs)"
  using validate_capability_set_iff [of "normalize_capabilities vs"]
  by (auto simp: list_all_iff clean_capability_def set_normalize_capabilities)

lemma normalize_clean: "list_all clean_capability vs \<Longrightarrow> set (normalize_capabilities vs) = set vs"
  by (force simp: set_normalize_capabilities list_all_iff clean_capability_def)

lemma has_high_risk_set: "set xs = set ys \<Longrightarrow> has_high_risk_capability xs = has_high_risk_capability ys"
  by (simp add: has_high_risk_capability_def list_ex_iff)

lemma safe_create_session: "cx_ok env \<Longrightarrow> safe (doc_ok env R) pairing_ok (create_pairing_session env dr input actor)"
  unfolding create_pairing_session_def Let_def
  by (intro safe_steps safe_return)
    (auto simp: pairing_ok_def attestation_default_def find_Some_iff split: if_splits option.splits
      intro: clean_normalized clean_preset dest: nth_mem)

lemma safe_approve_session: "cx_ok env \<Longrightarrow> safe (doc_ok env R) pairing_ok (approve_pairing_session env dr i actor)"
  unfolding approve_pairing_session_def Let_def
  by (intro safe_steps safe_return safe_abort)
    (auto simp: pairing_ok_def approval_denial_def risk_accepted_def split: if_splits)

lemma safe_denial:
  "cx_ok env \<Longrightarrow> pairing_ok s \<Longrightarrow> safe (doc_ok env R) (\<lambda>_. True) (record_pairing_claim_denial env dr s reason m)"
  unfolding record_pairing_claim_denial_def Let_def
  by (rule safe_bindP [where post = pairing_ok])
    (auto intro!: safe_steps safe_audit simp: pairing_ok_def clock_plus_def split: option.splits)

lemma step_denial [safe_steps]:
  "cx_ok env \<Longrightarrow> pairing_ok s \<Longrightarrow> safe (doc_ok env R) q (f ()) \<Longrightarrow> safe (doc_ok env R) q (bindP (record_pairing_claim_denial env dr s reason m) f)"
  by (rule safe_bindP [OF safe_denial]) simp_all

text \<open>A new device is not the revoked one.\<close>

definition fresh_device :: "string option \<Rightarrow> draws \<Rightarrow> bool" where
  "fresh_device R dr \<longleftrightarrow> (case R of None \<Rightarrow> True | Some i \<Rightarrow> device_key (''device-'' @ dw_uuid dr 0) \<noteq> device_key i)"

lemma fresh_device_None [simp]: "fresh_device None dr"
  by (simp add: fresh_device_def)

lemma safe_finalize:
  assumes "cx_ok env" and f: "fresh_device R dr" and s: "pairing_ok s" "ps_status s = PairApproved"
  shows "safe (doc_ok env R) claim_ok (finalize_pairing_session env dr s)"
proof -
  let ?caps = "normalize_capabilities (ps_requested_capabilities s)"
  have c: "set ?caps = set (ps_requested_capabilities s)" using s by (simp add: pairing_ok_def normalize_clean)
  then have k: "list_all clean_capability ?caps" using s by (simp add: pairing_ok_def list_all_iff)
  have r: "risk_accepted ?caps (ps_trusted_unattested s) (ps_preset_id s)"
    using s has_high_risk_set [OF c] by (simp add: pairing_ok_def risk_accepted_def)
  show ?thesis
    unfolding finalize_pairing_session_def Let_def
    by (intro safe_steps safe_return assms(1))
      (use k r s f in \<open>simp_all add: paired_device_def Let_def device_good_def device_ok_def pairing_ok_def claim_ok_def scope_subset_iff fresh_device_def split: option.splits\<close>)
qed

lemma safe_claim: "cx_ok env \<Longrightarrow> fresh_device R dr \<Longrightarrow> safe (doc_ok env R) claim_ok (claim_pairing_session env dr claim)"
proof -
  assume env: "cx_ok env" and f: "fresh_device R dr"
  have w: "safe (doc_ok env R) claim_ok (claim_waiting env dr s key claim)" if "pairing_ok s" "nonblank (Some key) \<noteq> None" for s key
    unfolding claim_waiting_def Let_def
    by (intro step_write_session safe_bindP [where post = "\<lambda>_. True"] safe_return env)
      (use that env in \<open>auto simp: pairing_ok_def claim_ok_def evaluate_attestation_claim_def attestation_default_def
         intro: safe_audit split: option.splits\<close>)
  have d: "safe (doc_ok env R) claim_ok (claim_identified env dr s key claim)" if "pairing_ok s" "nonblank (Some key) \<noteq> None" for s key
    using that by (cases "ps_status s")
      (auto simp: claim_identified_def Let_def claim_ok_def intro!: safe_steps safe_abort env w safe_finalize f)
  have n: "nonblank x = Some key \<Longrightarrow> nonblank (Some key) \<noteq> None" for x key
    by (auto simp: nonblank_def split: option.splits if_splits)
  show ?thesis
    unfolding claim_pairing_session_def Let_def
    by (intro safe_steps safe_abort d env) (auto simp: pairing_ok_def dest: n)
qed

lemma safe_verify: "cx_ok env \<Longrightarrow> safe (doc_ok env R) device_ok (verify_device_token env dr i token)"
  unfolding verify_device_token_def by (intro safe_steps safe_abort safe_return) (auto simp: device_good_def)

lemma safe_pulse: "cx_ok env \<Longrightarrow> safe (doc_ok env R) device_ok (pulse_device env dr i st available declared m)"
  unfolding pulse_device_def Let_def
  by (intro safe_steps safe_return safe_bindP [where post = "device_good R"])
    (auto simp: device_good_def device_ok_def split: sum.splits option.splits)

lemma safe_scopes:
  "cx_ok env \<Longrightarrow> safe (doc_ok env R) (\<lambda>_. scope_subset scopes (gr_capabilities g) \<and> scope_subset scopes (dv_token_capabilities d)
     \<and> scope_subset scopes caller) (ensure_scopes_allowed env dr i scopes resources g d caller)"
  unfolding ensure_scopes_allowed_def scope_denied_def by (intro safe_steps safe_abort safe_return) auto

lemma step_scopes [safe_steps]:
  "cx_ok env \<Longrightarrow> (scope_subset scopes (gr_capabilities g) \<Longrightarrow> scope_subset scopes (dv_token_capabilities d) \<Longrightarrow> safe (doc_ok env R) q (f ())) \<Longrightarrow>
     safe (doc_ok env R) q (bindP (ensure_scopes_allowed env dr i scopes resources g d caller) f)"
  by (rule safe_bindP [OF safe_scopes]) simp_all

lemma safe_rotate: "cx_ok env \<Longrightarrow> safe (doc_ok env R) (\<lambda>(d, _). device_ok d) (rotate_token env dr i requested caller)"
  unfolding rotate_token_def Let_def
  by (intro safe_steps safe_return) (auto simp: device_good_def device_ok_def scope_subset_iff split: option.splits)

lemma safe_revoke: "cx_ok env \<Longrightarrow> safe (doc_ok env R) device_ok (revoke_device env dr i actor)"
  unfolding revoke_device_def Let_def by (intro safe_steps safe_return) (auto simp: device_good_def device_ok_def split: option.splits)

lemma new_scopes_capability: "capability \<in> set (new_scopes capability requested)"
  by (simp add: new_scopes_def Let_def)

lemma safe_create_command: "cx_ok env \<Longrightarrow> safe (doc_ok env R) command_ok (create_command env dr i input caller)"
  unfolding create_command_def Let_def
  by (intro safe_steps safe_return) (auto simp: command_ok_def device_good_def device_ok_def new_scopes_capability split: option.splits)

lemma decided_ok: "command_ok c \<Longrightarrow> command_ok (decided_command now actor approved reason c)"
  by (auto simp: decided_command_def Let_def command_ok_def split: option.splits)

lemma safe_approve_command: "cx_ok env \<Longrightarrow> safe (doc_ok env R) command_ok (approve_command env dr i actor approved reason)"
  unfolding approve_command_def Let_def by (intro safe_steps safe_return) (auto intro: decided_ok)

lemma safe_complete: "cx_ok env \<Longrightarrow> safe (doc_ok env R) command_ok (complete_command env dr i command success preview e)"
  unfolding complete_command_def Let_def by (intro safe_steps safe_return) (auto simp: command_ok_def)

lemma safe_dispatch_loop:
  "cx_ok env \<Longrightarrow> list_all command_ok cs \<Longrightarrow>
     safe (doc_ok env R) (\<lambda>r. \<forall>c. r = Some c \<longrightarrow> dispatched_ok c) (dispatch_loop env dr i device n cs)"
proof (induction cs arbitrary: n)
  case (Cons c cs)
  then show ?case
    by (auto simp: command_ok_def dispatched_ok_def Let_def intro!: safe_steps)
qed simp

lemma safe_dispatch: "cx_ok env \<Longrightarrow> safe (doc_ok env R) (\<lambda>r. \<forall>c. r = Some c \<longrightarrow> dispatched_ok c) (dispatch_next_command env dr i)"
  unfolding dispatch_next_command_def
  by (intro safe_steps safe_return safe_dispatch_loop safe_bindP [OF safe_list_commands]) simp_all

lemma safe_http_create: "cx_ok env \<Longrightarrow> safe (doc_ok env R) command_ok (http_create_command env dr i input)"
  unfolding http_create_command_def current_device_scopes_def
  by (rule safe_bindP [where post = "\<lambda>_. True"]) (auto intro!: safe_steps safe_create_command)

lemma safe_http_rotate: "cx_ok env \<Longrightarrow> safe (doc_ok env R) (\<lambda>(d, _). device_ok d) (http_rotate_token env dr i requested)"
  unfolding http_rotate_token_def current_device_scopes_def
  by (rule safe_bindP [where post = "\<lambda>_. True"]) (auto intro!: safe_steps safe_rotate)

section \<open>The socket\<close>

lemma safe_attempt:
  "safe good post p \<Longrightarrow> (\<And>a. post a \<Longrightarrow> safe good q (ok a)) \<Longrightarrow> (\<And>e. safe good q (failed e)) \<Longrightarrow> safe good q (attempt p ok failed)"
  unfolding attempt_def by (rule safe_catchP [where post = post]) (auto split: err.splits)

lemma safe_send_next: "cx_ok env \<Longrightarrow> safe (doc_ok env R) (list_all out_ok) (send_next_command env dr i)"
  unfolding send_next_command_def by (rule safe_attempt [OF safe_dispatch]) (auto simp: out_ok_def split: option.splits)

abbreviation outs_ok :: "string option \<times> ws_out list \<Rightarrow> bool" where
  "outs_ok r \<equiv> list_all out_ok (snd r)"

lemma step_send_next:
  "cx_ok env \<Longrightarrow> (\<And>out. list_all out_ok out \<Longrightarrow> safe (doc_ok env R) q (f out)) \<Longrightarrow> safe (doc_ok env R) q (bindP (send_next_command env dr i) f)"
  by (rule safe_bindP [OF safe_send_next]) simp_all

lemma safe_authenticate: "cx_ok env \<Longrightarrow> safe (doc_ok env R) outs_ok (ws_authenticate env dr i token authed)"
  unfolding ws_authenticate_def
  by (intro safe_attempt [OF safe_verify] safe_attempt [OF safe_pulse] step_send_next safe_return) (simp_all add: out_ok_def)

lemma safe_ws_claim: "cx_ok env \<Longrightarrow> fresh_device R dr \<Longrightarrow> safe (doc_ok env R) outs_ok (ws_claim env dr m authed)"
  unfolding ws_claim_def Let_def
  by (intro safe_attempt [OF safe_claim] safe_steps step_send_next safe_return) (simp_all add: out_ok_def claim_ok_def)

lemma safe_ws_own:
  "(\<And>i. safe good (list_all out_ok) (f i)) \<Longrightarrow> (\<And>e. out_ok (answer e)) \<Longrightarrow> safe good outs_ok (ws_own authed m answer e f)"
  unfolding ws_own_def by (auto split: option.splits intro!: safe_bindP [where post = "list_all out_ok"])

lemma safe_hello_again: "cx_ok env \<Longrightarrow> safe (doc_ok env R) (list_all out_ok) (ws_hello_again env dr i)"
  unfolding ws_hello_again_def
  by (intro safe_attempt [OF safe_read_device] safe_steps step_send_next safe_return) (simp_all add: out_ok_def)

lemma safe_ws_pulse: "cx_ok env \<Longrightarrow> safe (doc_ok env R) (list_all out_ok) (ws_pulse env dr m i)"
  unfolding ws_pulse_def by (intro safe_attempt [OF safe_pulse] step_send_next safe_return) (simp_all add: out_ok_def)

lemma safe_ws_result: "cx_ok env \<Longrightarrow> safe (doc_ok env R) (list_all out_ok) (ws_result env dr m i)"
  unfolding ws_result_def by (intro safe_attempt [OF safe_complete] safe_return) (simp_all add: out_ok_def)

lemma safe_socket: "cx_ok env \<Longrightarrow> fresh_device R dr \<Longrightarrow> safe (doc_ok env R) outs_ok (socket_message env dr m authed)"
  unfolding socket_message_def
  by (intro step_if safe_ws_claim safe_authenticate safe_return safe_ws_own safe_hello_again safe_ws_pulse safe_ws_result)
    (simp_all add: out_ok_def)

lemma safe_open: "cx_ok env \<Longrightarrow> safe (doc_ok env R) outs_ok (socket_open env dr auth)"
  unfolding socket_open_def
  by (auto split: option.splits simp: out_ok_def intro!: safe_bindP [OF safe_authenticate])

section \<open>Any interleaving\<close>

fun fresh_op :: "string option \<Rightarrow> companion_op \<Rightarrow> bool" where
  "fresh_op R (OpClaim dr _) \<longleftrightarrow> fresh_device R dr"
| "fresh_op R (OpSocket dr _ _) \<longleftrightarrow> fresh_device R dr"
| "fresh_op R _ \<longleftrightarrow> True"

lemma fresh_None [simp]: "fresh_op None op"
  by (cases op) (simp_all add: fresh_device_def)

lemma companion_program_safe: "cx_ok env \<Longrightarrow> fresh_op R op \<Longrightarrow> safe (doc_ok env R) reply_ok (companion_program env op)"
  by (cases op) (auto intro!: safe_bindP [OF safe_create_session] safe_bindP [OF safe_approve_session] safe_bindP [OF safe_claim]
      safe_bindP [OF safe_verify] safe_bindP [OF safe_pulse] safe_bindP [OF safe_http_create] safe_bindP [OF safe_approve_command]
      safe_bindP [OF safe_dispatch] safe_bindP [OF safe_complete] safe_bindP [OF safe_http_rotate] safe_bindP [OF safe_revoke]
      safe_bindP [OF safe_socket] safe_bindP [OF safe_open] split: option.splits)

text \<open>The operations meet the contract; its parameters carry the hypothesis on serde.\<close>

interpretation companion: document_guarantee "\<lambda>k b. cx_ok env \<longrightarrow> doc_ok env R k b" "\<lambda>r. cx_ok env \<longrightarrow> reply_ok r" "fresh_op R"
    "companion_program env"
  for env :: "'b companion_env" and R :: "string option"
proof
  show "safe (\<lambda>k b. cx_ok env \<longrightarrow> doc_ok env R k b) (\<lambda>r. cx_ok env \<longrightarrow> reply_ok r) (companion_program env op)" if "fresh_op R op" for op
  proof (cases "cx_ok env")
    case True
    then show ?thesis using companion_program_safe [OF True that] by simp
  next
    case False
    have "safe (\<lambda>_ _. True) (\<lambda>_. True) p" for p :: "('b, companion_reply) prog"
      by (induction p) (auto split: sum.splits)
    with False show ?thesis by simp
  qed
qed

text \<open>All operations, begun on an empty store.\<close>

abbreviation companion_woven :: "'b companion_env \<Rightarrow> ('b, companion_reply) weaving \<Rightarrow> bool" where
  "companion_woven env \<equiv> woven (fresh_op None) (companion_program env) (at_rest (\<lambda>_. None))"

lemma empty_store: "bytes_at (\<lambda>_. None) k = None"
  by (simp add: bytes_at_def)

end
