(* ===== verification/Companion_Runs.thy ===== *)
theory Companion_Runs
  imports Companion_Safety
begin

text \<open>
  Companions on concrete stores and schedules: the store of the closed examples, and what one operation does to
  another that is under way.
\<close>

section \<open>A concrete store\<close>

datatype companion_doc = DocIndex "string list" | DocDevice companion_device | DocGrant companion_grant
  | DocSession pairing_session | DocCommand companion_command | DocEvent audit_event

definition doc_codec :: "('a \<Rightarrow> companion_doc) \<Rightarrow> (companion_doc \<Rightarrow> 'a option) \<Rightarrow> ('a, companion_doc) codec" where
  "doc_codec put view = \<lparr>to_vec = (\<lambda>x. Some [put x]), from_slice = (\<lambda>bs. case bs of [x] \<Rightarrow> view x | _ \<Rightarrow> None)\<rparr>"

definition sample_cx :: "companion_doc companion_env" where
  "sample_cx = \<lparr>cx_index = doc_codec DocIndex (\<lambda>x. case x of DocIndex y \<Rightarrow> Some y | _ \<Rightarrow> None),
     cx_device = doc_codec DocDevice (\<lambda>x. case x of DocDevice y \<Rightarrow> Some y | _ \<Rightarrow> None),
     cx_grant = doc_codec DocGrant (\<lambda>x. case x of DocGrant y \<Rightarrow> Some y | _ \<Rightarrow> None),
     cx_session = doc_codec DocSession (\<lambda>x. case x of DocSession y \<Rightarrow> Some y | _ \<Rightarrow> None),
     cx_command = doc_codec DocCommand (\<lambda>x. case x of DocCommand y \<Rightarrow> Some y | _ \<Rightarrow> None),
     cx_event = doc_codec DocEvent (\<lambda>x. case x of DocEvent y \<Rightarrow> Some y | _ \<Rightarrow> None),
     cx_chrono = decimal_chrono, cx_token_hash = (\<lambda>s. s), cx_key_hash = (\<lambda>s. s), cx_evidence_hash = (\<lambda>s. s),
     cx_audit_hash = (\<lambda>_. ''hash''), cx_sanitize_output = (\<lambda>s. s), cx_redact_secrets = (\<lambda>s. s)\<rparr>"

lemma sample_cx_ok: "cx_ok sample_cx"
  by (simp add: cx_ok_def codec_ok_def sample_cx_def doc_codec_def)

text \<open>The draws of an operation at second \<open>n\<close>.\<close>

definition sample_draws :: "string \<Rightarrow> int \<Rightarrow> draws" where
  "sample_draws u n = \<lparr>dw_now = (\<lambda>_. secs n), dw_uuid = (\<lambda>_. u), dw_secret = (\<lambda>_. Some u)\<rparr>"

definition sample_claim :: pairing_claim where
  "sample_claim = \<lparr>pl_session_id = ''pairing-a'', pl_code = ''a'', pl_device_public_key = Some ''key'', pl_attestation = None, pl_metadata = []\<rparr>"

lemma paired_fields [simp]:
  "paired_grant env dr (s\<lparr>ps_claim_attempts := n\<rparr>) = paired_grant env dr s"
  "paired_device env dr x (s\<lparr>ps_claim_attempts := n\<rparr>) = paired_device env dr x s"
  "gr_id (paired_grant env dr s) = ''grant-'' @ dw_uuid dr 1" "dv_id (paired_device env dr x s) = ''device-'' @ dw_uuid dr 0"
  by (simp_all add: paired_grant_def paired_device_def Let_def)

lemma sample_codecs [simp]:
  "to_vec (cx_index sample_cx) ids = Some [DocIndex ids]" "from_slice (cx_index sample_cx) [DocIndex ids] = Some ids"
  "to_vec (cx_device sample_cx) d = Some [DocDevice d]" "from_slice (cx_device sample_cx) [DocDevice d] = Some d"
  "to_vec (cx_grant sample_cx) g = Some [DocGrant g]" "from_slice (cx_grant sample_cx) [DocGrant g] = Some g"
  "to_vec (cx_session sample_cx) s = Some [DocSession s]" "from_slice (cx_session sample_cx) [DocSession s] = Some s"
  "to_vec (cx_command sample_cx) c = Some [DocCommand c]" "from_slice (cx_command sample_cx) [DocCommand c] = Some c"
  "to_vec (cx_event sample_cx) e = Some [DocEvent e]" "from_slice (cx_event sample_cx) [DocEvent e] = Some e"
  by (simp_all add: sample_cx_def doc_codec_def)

section \<open>Single operations\<close>

definition doc_at :: "('a, 'b) codec \<Rightarrow> string \<Rightarrow> (string \<Rightarrow> 'b list option) \<Rightarrow> 'a option" where
  "doc_at c k t = Option.bind (t k) (from_slice c)"

lemma bindP_assoc: "bindP (bindP p f) g = bindP p (\<lambda>a. bindP (f a) g)"
  by (induction p) (auto split: sum.splits)

lemma run_read_json: "run (read_json c k) t = (case t k of None \<Rightarrow> Inr None | Some raw \<Rightarrow> (case from_slice c raw of
     None \<Rightarrow> Inl (Err (''failed to decode companion storage key '' @ k)) | Some v \<Rightarrow> Inr (Some v)), t)"
  by (simp add: read_json_def split: option.splits)

lemma run_read_doc: "doc_at c k t = Some v \<Longrightarrow> run (read_json c k) t = (Inr (Some v), t)"
  by (simp add: run_read_json doc_at_def split: bind_splits)

lemma run_write_json:
  assumes "codec_ok c"
  obtains b where "run (write_json c k v) t = (Inr (), t(k \<mapsto> b))" and "from_slice c b = Some v"
  using assms that unfolding codec_ok_def write_json_def by (metis option.simps(5) run.simps(1,3))

text \<open>Which keys a program writes.\<close>

primrec writes :: "(string \<Rightarrow> bool) \<Rightarrow> ('b, 'r) prog \<Rightarrow> bool" where
  "writes P (Return r) \<longleftrightarrow> True"
| "writes P (Get k g) \<longleftrightarrow> (\<forall>v. writes P (g v))"
| "writes P (Put k v p) \<longleftrightarrow> P k \<and> writes P p"

lemma writes_frame: "writes P p \<Longrightarrow> \<not> P k \<Longrightarrow> snd (run p t) k = t k"
  by (induction p arbitrary: t) auto

lemma writes_mono: "writes P p \<Longrightarrow> (\<And>k. P k \<Longrightarrow> Q k) \<Longrightarrow> writes Q p"
  by (induction p) auto

lemma writes_bindP: "writes P p \<Longrightarrow> (\<And>a. writes P (f a)) \<Longrightarrow> writes P (bindP p f)"
  by (induction p) (auto split: sum.splits)

lemma writes_read_json [simp]: "writes P (read_json c k)"
  by (simp add: read_json_def split: option.splits)

lemma writes_write_json: "P k \<Longrightarrow> writes P (write_json c k v)"
  by (simp add: write_json_def split: option.splits)

definition audit_area :: "string \<Rightarrow> bool" where
  "audit_area k \<longleftrightarrow> prefix_of ''companion:audit:'' k"

lemma audit_area_keys:
  "audit_area (audit_key i)" "audit_area AUDIT_INDEX_KEY" "\<not> audit_area (device_key i)" "\<not> audit_area (pairing_key i)"
  "\<not> audit_area (command_key i)" "\<not> audit_area DEVICE_INDEX_KEY" "\<not> audit_area (grant_key i)" "\<not> audit_area (command_index_key i)"
  by (simp_all add: audit_area_def audit_key_def AUDIT_INDEX_KEY_def device_key_def pairing_key_def command_key_def
      DEVICE_INDEX_KEY_def grant_key_def command_index_key_def)

lemma writes_audit: "writes audit_area (audit env dr i a b c d e f g h m)"
  unfolding audit_def Let_def companion_audit_hash_def write_ordered_index_def read_index_def
  by (intro writes_bindP writes_write_json audit_area_keys) (auto split: option.splits intro: writes_bindP)

lemma audit_elsewhere: "run (audit env dr i a b c d e f g h m) t = (r, t') \<Longrightarrow> \<not> audit_area k \<Longrightarrow> t' k = t k"
  using writes_frame [OF writes_audit] by (metis snd_conv)

text \<open>Keys of different kinds.\<close>

lemma key_kinds [simp]:
  "device_key i \<noteq> DEVICE_INDEX_KEY" "DEVICE_INDEX_KEY \<noteq> device_key i" "device_key i \<noteq> grant_key j" "grant_key j \<noteq> device_key i"
  "grant_key i \<noteq> DEVICE_INDEX_KEY" "DEVICE_INDEX_KEY \<noteq> grant_key i" "device_key i \<noteq> command_key j" "command_key j \<noteq> device_key i"
  "device_key i \<noteq> command_index_key j" "command_index_key j \<noteq> device_key i"
  "command_key i \<noteq> command_index_key j" "command_index_key j \<noteq> command_key i"
  "device_key i \<noteq> pairing_key j" "pairing_key j \<noteq> device_key i" "grant_key i \<noteq> pairing_key j" "pairing_key j \<noteq> grant_key i"
  by (simp_all add: device_key_def grant_key_def DEVICE_INDEX_KEY_def command_key_def command_index_key_def pairing_key_def)

text \<open>The first statements of a program.\<close>

fun advance :: "nat \<Rightarrow> ('b, 'r) prog \<Rightarrow> (string \<Rightarrow> 'b list option) \<Rightarrow> ('b, 'r) prog \<times> (string \<Rightarrow> 'b list option)" where
  "advance (Suc n) (Get k g) t = advance n (g (t k)) t"
| "advance (Suc n) (Put k v p) t = advance n p (t(k \<mapsto> v))"
| "advance n p t = (p, t)"

lemma weave_begin:
  "woven allowed program start w \<Longrightarrow> allowed op \<Longrightarrow>
     \<exists>w'. woven allowed program start w' \<and> wv_table w' = wv_table w \<and> wv_handlers w' = wv_handlers w @ [program op]"
  by (intro exI [of _ "w\<lparr>wv_handlers := wv_handlers w @ [program op]\<rparr>"]) (auto intro: woven.Next weave.Begin)

lemma weave_stay:
  "woven allowed program start w \<Longrightarrow> i < length (wv_handlers w) \<Longrightarrow> wv_handlers w ! i = p \<Longrightarrow>
     \<exists>w'. woven allowed program start w' \<and> bytes_at (wv_table w') = bytes_at (wv_table w) \<and> wv_handlers w' = (wv_handlers w)[i := p]"
  by (intro exI [of _ w]) auto

lemma weave_advance:
  assumes "woven allowed program start w" and "i < length (wv_handlers w)" and "wv_handlers w ! i = p"
  shows "\<exists>w'. woven allowed program start w' \<and> bytes_at (wv_table w') = snd (advance n p (bytes_at (wv_table w)))
    \<and> wv_handlers w' = (wv_handlers w)[i := fst (advance n p (bytes_at (wv_table w)))]"
  using assms
proof (induction n p "bytes_at (wv_table w)" arbitrary: w rule: advance.induct)
  case (1 n k g)
  let ?w = "w\<lparr>wv_handlers := (wv_handlers w)[i := g (bytes_at (wv_table w) k)]\<rparr>"
  have "woven allowed program start ?w" by (rule woven.Next [OF 1(2) weave.Read [OF 1(3,4)]])
  from 1(1) [of ?w, OF _ this] 1(3) show ?case by simp
next
  case (2 n k v p)
  let ?w = "w\<lparr>wv_table := kv_upsert [] k v (wv_table w), wv_handlers := (wv_handlers w)[i := p]\<rparr>"
  have "woven allowed program start ?w" by (rule woven.Next [OF 2(2) weave.Write [OF 2(3,4)]])
  from 2(1) [of ?w, OF _ this] 2(3) show ?case by (simp add: fun_upd_def)
qed (simp_all add: weave_stay)

section \<open>Documents of the examples\<close>

definition pairing_sample :: pairing_session where
  "pairing_sample = \<lparr>ps_id = ''pairing-a'', ps_code = ''a'', ps_preset_id = ''desktop'', ps_display_name = ''Box'', ps_platform = ''desktop'',
     ps_requested_capabilities = [''file_read''], ps_requested_resources = [], ps_status = PairPending,
     ps_created_at = show_int (secs 1), ps_expires_at = show_int (secs 601), ps_claimed_at = None, ps_approved_at = None,
     ps_completed_at = None, ps_claimed_device_public_key = None, ps_attestation = attestation_default,
     ps_trusted_unattested = True, ps_metadata = [], ps_claim_attempts = 0, ps_failed_claim_attempts = 0, ps_claim_locked_until = None\<rparr>"

lemma sample_texts [simp]:
  "trim ''Box'' = ''Box''" "trim ''a'' = ''a''" "trim ''key'' = ''key''" "trim ''files.read'' = ''files.read''" "trim ''cmd-a'' = ''cmd-a''" "trim ''audit-a'' = ''audit-a''" "trim ''b'' = ''b''" "trim ''c'' = ''c''" "trim ''acd_a'' = ''acd_a''"
  "trim ''device-a'' = ''device-a''" "device_key ''device-b'' = ''companion:device:device-b''" "trim ''audit-b'' = ''audit-b''"
  "normalize_id ''desktop'' = ''desktop''" "normalize_id ''file_read'' = ''file_read''"
  "normalize_capabilities [''file_read''] = [''file_read'']" "validate_capability_set [''file_read''] = Inr ()"
  "find (\<lambda>p. pe_id p = ''desktop'') companion_presets = Some (companion_presets ! 2)" "pe_platform (companion_presets ! 2) = ''desktop''"
  "has_high_risk_capability [''file_read'']" "new_scopes ''file_read'' [] = [''file_read'']" "is_valid_capability_id ''file_read''"
  "pairing_key ''pairing-a'' = ''companion:pairing:pairing-a''" "device_key ''device-a'' = ''companion:device:device-a''"
  "grant_key ''grant-a'' = ''companion:grant:grant-a''" "command_key ''cmd-a'' = ''companion:command:cmd-a''"
  "command_index_key ''device-a'' = ''companion:commands:device-a''" "normalize_resources [] = []"
  "\<not> bundled_mobile_preset_requires_attestation ''desktop''"
  by code_simp+

lemma sample_env [simp]:
  "cx_chrono sample_cx = decimal_chrono" "cx_token_hash sample_cx x = x" "cx_key_hash sample_cx x = x" "cx_audit_hash sample_cx raw = ''hash''"
  by (simp_all add: sample_cx_def)

lemma sample_draw [simp]:
  "dw_now (sample_draws u n) i = secs n" "dw_uuid (sample_draws u n) i = u" "dw_secret (sample_draws u n) i = Some u"
  by (simp_all add: sample_draws_def)

lemma sample_clock [simp]: "plus_secs decimal_chrono (secs 1) PAIRING_TTL_SECS = Some (secs 601)" "secs 1 < secs 601" "\<not> secs 601 < secs 1"
  by (simp_all add: rfc_range_num secs_def ns_per_sec_def PAIRING_TTL_SECS_def)

abbreviation sample_a :: draws where
  "sample_a \<equiv> sample_draws ''a'' 1"

lemma pairing_sample_fields [simp]:
  "ps_id pairing_sample = ''pairing-a''" "ps_code pairing_sample = ''a''" "ps_preset_id pairing_sample = ''desktop''"
  "ps_platform pairing_sample = ''desktop''" "ps_requested_capabilities pairing_sample = [''file_read'']"
  "ps_requested_resources pairing_sample = []" "ps_status pairing_sample = PairPending"
  "ps_expires_at pairing_sample = show_int (secs 601)" "ps_claimed_at pairing_sample = None"
  "ps_claimed_device_public_key pairing_sample = None" "ps_trusted_unattested pairing_sample" "ps_metadata pairing_sample = []"
  "ps_claim_attempts pairing_sample = 0" "ps_failed_claim_attempts pairing_sample = 0" "ps_claim_locked_until pairing_sample = None"
  by (simp_all add: pairing_sample_def)

definition claimed_session :: pairing_session where
  "claimed_session = pairing_sample\<lparr>ps_claim_attempts := 1, ps_status := PairClaimed, ps_claimed_at := Some (show_int (secs 1)),
     ps_claimed_device_public_key := Some ''key'', ps_attestation := evaluate_attestation_claim sample_cx ''desktop'' None,
     ps_metadata := []\<rparr>"

definition approved_session :: pairing_session where
  "approved_session = claimed_session\<lparr>ps_status := PairApproved, ps_approved_at := Some (show_int (secs 1))\<rparr>"

lemma approved_session_fields [simp]:
  "ps_id approved_session = ''pairing-a''" "ps_code approved_session = ''a''" "ps_status approved_session = PairApproved"
  "ps_expires_at approved_session = show_int (secs 601)" "ps_claimed_device_public_key approved_session = Some ''key''"
  "ps_claim_locked_until approved_session = None"
  by (simp_all add: approved_session_def claimed_session_def)

definition sample_device :: companion_device where
  "sample_device = paired_device sample_cx sample_a ''acd_a'' approved_session"

definition sample_grant :: companion_grant where
  "sample_grant = paired_grant sample_cx sample_a approved_session"

lemma sample_device_fields [simp]:
  "dv_id sample_device = ''device-a''" "dv_state sample_device = DevPaired" "dv_granted_capabilities sample_device = [''file_read'']"
  "dv_token_capabilities sample_device = [''file_read'']" "dv_token_fingerprint sample_device = ''acd_a''"
  "dv_active_grant_id sample_device = ''grant-a''" "dv_preset_id sample_device = ''desktop''" "dv_trusted_unattested sample_device"
  "gr_id sample_grant = ''grant-a''" "gr_capabilities sample_grant = [''file_read'']" "gr_revoked_at sample_grant = None"
  by (simp_all add: sample_device_def sample_grant_def paired_device_def paired_grant_def Let_def approved_session_def claimed_session_def)

definition waiting_command :: companion_command where
  "waiting_command = \<lparr>cm_id = ''cmd-a'', cm_device_id = ''device-a'', cm_capability = ''file_read'', cm_action = ''files.read'',
     cm_arguments = JNull, cm_requested_scopes = [''file_read''], cm_resource_scope = [], cm_risk = HighRisk,
     cm_approval_status = Required, cm_status = ApprovalRequired, cm_requested_at = show_int (secs 1), cm_approved_at = None,
     cm_dispatched_at = None, cm_completed_at = None, cm_success = False, cm_result_preview = None,
     cm_result_trust = ''pending_device_report'', cm_actor = None, cm_audit_reason = None, cm_error = None\<rparr>"

lemma waiting_command_fields [simp]:
  "cm_id waiting_command = ''cmd-a''" "cm_device_id waiting_command = ''device-a''" "cm_requested_scopes waiting_command = [''file_read'']"
  "cm_status waiting_command = ApprovalRequired" "cm_approval_status waiting_command = Required"
  by (simp_all add: waiting_command_def)

text \<open>What comes later in a program is left alone until it is reached.\<close>

lemma later_left:
  "p = p' \<Longrightarrow> bindP p f = bindP p' f" "k = k' \<Longrightarrow> Get k g = Get k' g" "k = k' \<Longrightarrow> v = v' \<Longrightarrow> Put k v p = Put k' v' p"
  by simp_all

lemmas sample_steps = Let_def ensure_def given_def read_json_def write_json_def now_rfc3339_def nonblank_def bindP_assoc numeral_eq_Suc

text \<open>A store that holds the given documents.\<close>

definition sample_table :: "(string \<times> companion_doc) list \<Rightarrow> companion_doc kv_table" where
  "sample_table docs = (\<lambda>k. map_option (\<lambda>d. \<lparr>kv_value = [d], kv_created_at = [], kv_updated_at = []\<rparr>) (map_of docs k))"

lemma bytes_at_sample [simp]: "bytes_at (sample_table docs) k = map_option (\<lambda>d. [d]) (map_of docs k)"
  by (simp add: bytes_at_def sample_table_def option.map_comp comp_def)

section \<open>Any interleaving\<close>

text \<open>
  However the operations and sockets are interleaved and whatever fails, a stored device holds only known
  capabilities, its token no more than its grant, and capabilities of high risk only if its pairing carried the
  override for unattested devices and is not of a bundled mobile preset.
\<close>

theorem device_capabilities_approved:
  assumes "cx_ok env" and "companion_woven env w"
    and "bytes_at (wv_table w) (device_key i) = Some b" and "from_slice (cx_device env) b = Some d"
  shows "set (dv_token_capabilities d) \<subseteq> set (dv_granted_capabilities d) \<and> list_all known_capability (dv_granted_capabilities d)
    \<and> (has_high_risk_capability (dv_granted_capabilities d) \<longrightarrow>
         dv_trusted_unattested d \<and> \<not> bundled_mobile_preset_requires_attestation (dv_preset_id d))"
proof -
  have "doc_ok env None (device_key i) b" using companion.woven_good [OF assms(2)] assms(1,3) by (simp add: empty_store)
  then have "device_ok d" using assms(4) by (simp add: doc_ok_def key_prefixes device_good_def)
  then show ?thesis by (auto simp: device_ok_def scope_subset_iff list_all_iff clean_capability_def risk_accepted_def)
qed

text \<open>
  However the operations and sockets are interleaved and whatever fails, a command of high risk that is handed out
  for execution, to the caller or over a socket, was approved.
\<close>

theorem dispatched_commands_approved:
  assumes "cx_ok env" and "companion_woven env w"
    and "return r \<in> set (wv_handlers w)"
    and "r = ReplyDispatched (Some c) \<or> (\<exists>authed outs. r = ReplySocket authed outs \<and> OutDispatch c \<in> set outs)"
    and "has_high_risk_capability (cm_requested_scopes c)"
  shows "cm_status c = Running \<and> cm_approval_status c = Approved \<and> cm_approved_at c \<noteq> None"
proof -
  have "reply_ok r" using companion.woven_reply [OF assms(2) _ assms(3)] assms(1) by (simp add: empty_store)
  then have "dispatched_ok c" using assms(4) by (force simp: list_all_iff out_ok_def)
  then show ?thesis using assms(5) by (auto simp: dispatched_ok_def command_ok_def)
qed

text \<open>
  A revocation lasts: once a device is revoked and no operation that read it before is under way, no interleaving
  of operations begun since brings it back, accepts a token of it, or dispatches a command to it.
\<close>

theorem revocation_lasts:
  assumes "cx_ok env" and "\<forall>k b. bytes_at t k = Some b \<longrightarrow> doc_ok env (Some i) k b"
    and "bytes_at t (device_key i) = Some b0" and "from_slice (cx_device env) b0 = Some d0"
    and "woven (fresh_op (Some i)) (companion_program env) (at_rest t) w"
    and "bytes_at (wv_table w) (device_key i) = Some b" and "from_slice (cx_device env) b = Some d"
  shows "dv_state d = DevRevoked
    \<and> fst (run (verify_device_token env dr i token) (bytes_at (wv_table w))) = Inl (Err ''device has been revoked'')
    \<and> fst (run (dispatch_next_command env dr i) (bytes_at (wv_table w))) = Inr None"
proof -
  have "doc_ok env (Some i) (device_key i) b" using companion.woven_good [OF assms(5)] assms(1,2,6) by blast
  then have r: "dv_state d = DevRevoked" using assms(7) by (simp add: doc_ok_def key_prefixes device_good_def)
  have g: "run (get_device env i) (bytes_at (wv_table w)) = (Inr (Some d), bytes_at (wv_table w))"
    using assms(6,7) by (simp add: get_device_def read_json_def)
  then show ?thesis using r by (simp add: verify_device_token_def dispatch_next_command_def run_bindP)
qed

theorem revocation_lasts_witness:
  "\<exists>w. woven (fresh_op (Some ''device-a'')) (companion_program sample_cx)
      (at_rest (sample_table [(''companion:device:device-a'', DocDevice (sample_device\<lparr>dv_state := DevRevoked\<rparr>))])) w
    \<and> wv_handlers w = [Return (Inl (Err ''device has been revoked''))]
    \<and> fst (run (verify_device_token sample_cx sample_a ''device-a'' ''acd_a'') (bytes_at (wv_table w))) = Inl (Err ''device has been revoked'')"
proof -
  let ?d = "sample_device\<lparr>dv_state := DevRevoked\<rparr>"
  let ?t = "sample_table [(''companion:device:device-a'', DocDevice ?d)]"
  have ok: "doc_ok sample_cx (Some ''device-a'') k b" if "bytes_at ?t k = Some b" for k b
    using that by (auto simp: doc_ok_def device_good_def device_ok_def clean_capability_def known_capability_def catalog_ids scope_subset_def
        risk_accepted_def split: if_splits)
  have r: "run (companion_program sample_cx (OpPulse sample_a ''device-a'' None [] [] [])) (bytes_at ?t)
      = (Inl (Err ''device has been revoked''), bytes_at ?t)"
    by (simp add: pulse_device_def get_device_def sample_steps cong: later_left)
  obtain w where w: "woven (fresh_op (Some ''device-a'')) (companion_program sample_cx) (at_rest ?t) w" "bytes_at (wv_table w) = bytes_at ?t"
      "wv_handlers w = [Return (Inl (Err ''device has been revoked''))]"
    using woven_alone [OF woven.Start, of "fresh_op (Some ''device-a'')" "OpPulse sample_a ''device-a'' None [] [] []"
        "companion_program sample_cx" "at_rest ?t"] r by (auto simp: at_rest_def)
  have b: "bytes_at (wv_table w) (device_key ''device-a'') = Some [DocDevice ?d]" "bytes_at ?t (device_key ''device-a'') = Some [DocDevice ?d]"
    by (simp_all add: w(2))
  show ?thesis
    using revocation_lasts [OF sample_cx_ok _ b(2) _ w(1) b(1), of ?d ?d] ok w(1,3) by (intro exI [of _ w]) simp
qed

section \<open>Commands completed without approval\<close>

lemma run_write_then:
  assumes "codec_ok c" and "writes (\<lambda>k'. k' \<noteq> k) (h ())"
  shows "doc_at c k (snd (run (bindP (write_json c k v) h) t)) = Some v"
proof -
  obtain b where b: "to_vec c v = Some b" "from_slice c b = Some v" using assms(1) unfolding codec_ok_def by metis
  have "snd (run (h ()) (t(k \<mapsto> b))) k = Some b" using writes_frame [OF assms(2), of k] by simp
  with b show ?thesis by (simp add: write_json_def doc_at_def)
qed

lemma writes_append_index: "P k \<Longrightarrow> writes P (append_index env k i)"
  unfolding append_index_def write_index_def read_index_def by (intro writes_bindP writes_write_json writes_read_json) auto

lemma writes_audit_elsewhere: "\<not> audit_area k \<Longrightarrow> writes (\<lambda>k'. k' \<noteq> k) (audit env dr n a b c d e f g h m)"
  by (rule writes_mono [OF writes_audit]) auto

lemma run_write_command:
  assumes "cx_ok env" and "command_key (cm_id c) = k" and "writes (\<lambda>k'. k' \<noteq> k) (f ())"
  shows "doc_at (cx_command env) k (snd (run (bindP (write_command env c) f) t)) = Some c"
  unfolding write_command_def bindP_assoc assms(2)
  by (rule run_write_then) (use assms in \<open>auto simp: cx_ok_def intro!: writes_bindP writes_append_index\<close>)

text \<open>
  The result of a command is taken whatever its state: a device that reports success for a command of high risk
  that waits for approval, or was denied, has it recorded as succeeded.
\<close>

theorem unapproved_command_completed:
  assumes "cx_ok env" and "doc_at (cx_command env) (command_key i) t = Some c" and "cm_device_id c = device"
    and "cm_status c \<in> {ApprovalRequired, CommandDenied}" and "command_key (cm_id c) = command_key i"
  shows "\<exists>c'. doc_at (cx_command env) (command_key i) (snd (run (complete_command env dr device i True preview e) t)) = Some c'
    \<and> cm_status c' = Succeeded \<and> cm_success c' \<and> cm_approval_status c' = cm_approval_status c"
proof -
  have r: "run (get_command env i) t = (Inr (Some c), t)" using assms(2) unfolding get_command_def by (rule run_read_doc)
  show ?thesis
    using assms(3) by (simp add: complete_command_def Let_def run_bindP [of "get_command env i"] r run_bindP [of "given _ _"]
        run_bindP [of "ensure _ _"])
      (intro exI conjI, rule run_write_command [OF assms(1)],
        auto simp: assms(5) intro!: writes_bindP writes_audit_elsewhere audit_area_keys)
qed

theorem unapproved_command_completed_witness:
  "\<exists>c'. doc_at (cx_command sample_cx) (command_key ''cmd-a'') (snd (run (complete_command sample_cx sample_a ''device-a'' ''cmd-a'' True None None)
      [''companion:command:cmd-a'' \<mapsto> [DocCommand waiting_command]])) = Some c' \<and> cm_status c' = Succeeded \<and> cm_success c'
    \<and> cm_approval_status c' = Required"
  using unapproved_command_completed [OF sample_cx_ok, of "''cmd-a''" "[''companion:command:cmd-a'' \<mapsto> [DocCommand waiting_command]]"
      waiting_command "''device-a''" sample_a None None]
  by (simp add: doc_at_def)

section \<open>Revocations undone\<close>

text \<open>A pulse without reports: what it writes, once it has read the device.\<close>

definition pulsed :: "'b companion_env \<Rightarrow> draws \<Rightarrow> companion_device \<Rightarrow> companion_device" where
  "pulsed env dr d = d\<lparr>dv_state := DevOnline, dv_last_seen_at := Some (now_rfc3339 env dr 0),
     dv_declared_commands := (if dv_declared_commands d = [] then command_descriptors_for_capabilities (dv_available_capabilities d)
       else dv_declared_commands d)\<rparr>"

lemma advance_pulse_read:
  assumes "doc_at (cx_device env) (device_key i) t = Some d" and "dv_state d \<noteq> DevRevoked"
  shows "advance 1 (companion_program env (OpPulse dr i None [] [] [])) t =
    (bindP (write_device env (pulsed env dr d)) (\<lambda>_. return (ReplyDevice (pulsed env dr d))), t)"
proof -
  obtain b where "t (device_key i) = Some b" "from_slice (cx_device env) b = Some d"
    using assms(1) by (auto simp: doc_at_def split: bind_splits)
  then show ?thesis using assms(2)
    by (simp add: pulse_device_def get_device_def read_json_def given_def ensure_def Let_def pulsed_commands_def merge_metadata_def
        pulsed_def bindP_assoc)
qed

lemma advance_write_device:
  assumes "cx_ok env"
  obtains b where "snd (advance 1 (bindP (write_device env d) f) t) = t(device_key (dv_id d) \<mapsto> b)"
    and "from_slice (cx_device env) b = Some d"
proof -
  have "codec_ok (cx_device env)" using assms by (simp add: cx_ok_def)
  then obtain b where "to_vec (cx_device env) d = Some b" "from_slice (cx_device env) b = Some d" unfolding codec_ok_def by metis
  then show thesis using that [of b] by (simp add: write_device_def write_json_def)
qed

lemma run_get_device: "doc_at (cx_device env) (device_key i) t = Some d \<Longrightarrow> run (get_device env i) t = (Inr (Some d), t)"
  unfolding get_device_def by (rule run_read_doc)

lemma run_revoke_state:
  assumes "doc_at (cx_device env) (device_key i) t = Some d" and "run (revoke_device env dr i actor) t = (Inr r, t')"
  shows "dv_state r = DevRevoked"
  using assms(2) by (auto simp: revoke_device_def run_bindP Let_def run_get_device [OF assms(1)] split: prod.splits sum.splits option.splits)

text \<open>
  Any revocation that succeeds can be undone by a pulse that was under way: the pulse has read the device before,
  and writes it back after the revocation was answered. The device is online again, and its old token is accepted.
\<close>

theorem revocation_undone:
  assumes "cx_ok env" and "doc_at (cx_device env) (device_key i) (bytes_at t) = Some d" and "device_key (dv_id d) = device_key i"
    and "dv_state d \<noteq> DevRevoked" and "dv_token_fingerprint d = cx_token_hash env (trim token)"
    and "run (revoke_device env dr i actor) (bytes_at t) = (Inr r, t')"
  shows "\<exists>w d'. woven (fresh_op None) (companion_program env) (at_rest t) w
    \<and> return (ReplyDevice r) \<in> set (wv_handlers w) \<and> dv_state r = DevRevoked
    \<and> doc_at (cx_device env) (device_key i) (bytes_at (wv_table w)) = Some d' \<and> dv_state d' = DevOnline
    \<and> fst (run (verify_device_token env dr i token) (bytes_at (wv_table w))) = Inr d'"
proof -
  let ?woven = "woven (fresh_op None) (companion_program env) (at_rest t)"
  let ?d = "pulsed env dr d"
  let ?rest = "bindP (write_device env ?d) (\<lambda>_. return (ReplyDevice ?d))"
  obtain w0 where w0: "?woven w0" "bytes_at (wv_table w0) = bytes_at t"
      "wv_handlers w0 = [companion_program env (OpPulse dr i None [] [] [])]"
    using weave_begin [OF woven.Start, of "fresh_op None" "OpPulse dr i None [] [] []" "companion_program env" "at_rest t"]
    by (auto simp: at_rest_def)
  have read: "advance 1 (wv_handlers w0 ! 0) (bytes_at (wv_table w0)) = (?rest, bytes_at t)"
    unfolding w0(2,3) using advance_pulse_read [OF assms(2,4)] by simp
  obtain w1 where w1: "?woven w1" "bytes_at (wv_table w1) = bytes_at t" "wv_handlers w1 = [?rest]"
    using weave_advance [OF w0(1), of 0 _ 1] read w0(3) by auto
  have "fst (run (companion_program env (OpRevoke dr i actor)) (bytes_at t)) = Inr (ReplyDevice r)"
    using assms(6) by (simp add: run_bindP)
  then obtain w2 where w2: "?woven w2" "wv_handlers w2 = [?rest, return (ReplyDevice r)]"
    using woven_alone [OF w1(1), of "OpRevoke dr i actor"] w1(2,3) by auto
  obtain b where b: "snd (advance 1 ?rest (bytes_at (wv_table w2))) = (bytes_at (wv_table w2))(device_key (dv_id ?d) \<mapsto> b)"
      "from_slice (cx_device env) b = Some ?d"
    by (rule advance_write_device [OF assms(1)])
  obtain w3 where w3: "?woven w3" "bytes_at (wv_table w3) = (bytes_at (wv_table w2))(device_key i \<mapsto> b)"
      "return (ReplyDevice r) \<in> set (wv_handlers w3)"
    using weave_advance [OF w2(1), of 0 ?rest 1] w2(2) b(1) assms(3) by (auto simp: pulsed_def)
  have d: "doc_at (cx_device env) (device_key i) (bytes_at (wv_table w3)) = Some ?d" using w3(2) b(2) by (simp add: doc_at_def)
  have "fst (run (verify_device_token env dr i token) (bytes_at (wv_table w3))) = Inr ?d"
    using assms(5) by (simp add: verify_device_token_def run_bindP run_get_device [OF d] pulsed_def)
  then show ?thesis using w3(1,3) d run_revoke_state [OF assms(2,6)] by (intro exI [of _ w3] exI [of _ ?d]) (simp add: pulsed_def)
qed

section \<open>Tokens\<close>

lemma run_audit_error: "fst (run (bindP (audit env dr n a b c d e f g h m) (\<lambda>_. abort x)) t) \<noteq> Inr r"
  by (auto simp: run_bindP split: prod.splits sum.splits)

text \<open>
  Exactly the token whose fingerprint is stored with the device is accepted, while the device is not revoked; the
  answer is then the stored device, and nothing is written. A refused token changes no device, session or command.
\<close>

theorem token_accepted_iff:
  "(fst (run (verify_device_token env dr i token) t) = Inr d) =
      (doc_at (cx_device env) (device_key i) t = Some d \<and> dv_state d \<noteq> DevRevoked \<and> dv_token_fingerprint d = cx_token_hash env (trim token))
    \<and> (audit_area k \<or> snd (run (verify_device_token env dr i token) t) k = t k)"
proof (intro conjI)
  have "writes audit_area (verify_device_token env dr i token)"
    unfolding verify_device_token_def get_device_def given_def ensure_def
    by (auto intro!: writes_bindP writes_audit split: option.splits)
  then show "audit_area k \<or> snd (run (verify_device_token env dr i token) t) k = t k" using writes_frame by metis
  show "(fst (run (verify_device_token env dr i token) t) = Inr d) = (doc_at (cx_device env) (device_key i) t = Some d \<and>
      dv_state d \<noteq> DevRevoked \<and> dv_token_fingerprint d = cx_token_hash env (trim token))"
  proof (cases "doc_at (cx_device env) (device_key i) t")
    case None
    then show ?thesis
      by (auto simp: verify_device_token_def get_device_def run_bindP run_read_json doc_at_def split: option.splits bind_splits)
  next
    case (Some d')
    then show ?thesis
      by (auto simp: run_audit_error verify_device_token_def run_bindP [of "get_device env i"] run_bindP [of "given _ _"] run_bindP [of "ensure _ _"]
          run_get_device [OF Some])
  qed
qed

section \<open>Pairing claims\<close>

text \<open>A session after a claim with a wrong code.\<close>

definition guessed :: "'b companion_env \<Rightarrow> draws \<Rightarrow> pairing_session \<Rightarrow> pairing_session" where
  "guessed env dr s = (let s = s\<lparr>ps_claim_attempts := sat_add_u32 (ps_claim_attempts s) 1,
       ps_failed_claim_attempts := sat_add_u32 (ps_failed_claim_attempts s) 1\<rparr> in
     if MAX_PAIRING_FAILED_CLAIMS \<le> ps_failed_claim_attempts s
     then s\<lparr>ps_claim_locked_until := map_option (to_rfc3339 (cx_chrono env)) (plus_secs (cx_chrono env) (dw_now dr 2) PAIRING_CLAIM_LOCKOUT_SECS)\<rparr>
     else s)"

lemma run_claim_session:
  assumes "doc_at (cx_session env) (pairing_key (pl_session_id claim)) t = Some s"
  shows "run (read_json (cx_session env) (pairing_key (pl_session_id claim))) t = (Inr (Some s), t)"
  using assms by (rule run_read_doc)

lemma run_wrong_code:
  assumes "cx_ok env" and "chrono_ok (cx_chrono env)" and "rfc_range (dw_now dr 2)" and "rfc_range (dw_now dr 2 + secs PAIRING_CLAIM_LOCKOUT_SECS)"
    and "doc_at (cx_session env) (pairing_key (pl_session_id claim)) t = Some s" and "pairing_key (ps_id s) = pairing_key (pl_session_id claim)"
    and "\<not> lockout_active env (dw_now dr 0) (ps_claim_locked_until s)" and "trim (pl_code claim) \<noteq> ps_code s"
  shows "doc_at (cx_session env) (pairing_key (pl_session_id claim)) (snd (run (claim_pairing_session env dr claim) t)) = Some (guessed env dr s)"
proof -
  let ?k = "pairing_key (pl_session_id claim)"
  have p: "plus_secs (cx_chrono env) (dw_now dr 2) PAIRING_CLAIM_LOCKOUT_SECS = Some (dw_now dr 2 + secs PAIRING_CLAIM_LOCKOUT_SECS)"
    using chrono_plus assms(2-4) by blast
  have c: "codec_ok (cx_session env)" using assms(1) by (simp add: cx_ok_def)
  have k: "\<not> audit_area ?k" by (rule audit_area_keys)
  show ?thesis using assms(6,8) unfolding claim_pairing_session_def run_bindP [of "read_json _ _"] run_claim_session [OF assms(5)]
    by (auto simp: run_bindP [of "given _ _"] assms(7) Let_def record_pairing_claim_denial_def guessed_def clock_plus_def p bindP_assoc
        intro!: run_write_then c writes_bindP writes_audit_elsewhere k)
qed

text \<open>
  The twelfth failed claim locks a pairing session: a claim with a wrong code on a session that had eleven is
  counted, and every claim before the minute is over is refused, the right code included, and leaves the session as it is.
\<close>

theorem twelfth_guess_locks:
  assumes "cx_ok env" and "chrono_ok (cx_chrono env)" and "rfc_range (dw_now dr 2)" and "rfc_range (dw_now dr 2 + secs PAIRING_CLAIM_LOCKOUT_SECS)"
    and "doc_at (cx_session env) (pairing_key (pl_session_id claim)) t = Some s" and "pairing_key (ps_id s) = pairing_key (pl_session_id claim)"
    and "\<not> lockout_active env (dw_now dr 0) (ps_claim_locked_until s)" and "trim (pl_code claim) \<noteq> ps_code s"
    and "11 \<le> ps_failed_claim_attempts s"
    and "pl_session_id claim' = pl_session_id claim" and "dw_now dr' 0 < dw_now dr 2 + secs PAIRING_CLAIM_LOCKOUT_SECS"
    and "run (claim_pairing_session env dr claim) t = (r, t')" and "run (claim_pairing_session env dr' claim') t' = (r', t'')"
  shows "(\<exists>s'. doc_at (cx_session env) (pairing_key (pl_session_id claim)) t' = Some s'
      \<and> doc_at (cx_session env) (pairing_key (pl_session_id claim)) t'' = Some s'
      \<and> ps_failed_claim_attempts s' = sat_add_u32 (ps_failed_claim_attempts s) 1)
    \<and> (\<forall>a. r' \<noteq> Inr a)"
proof -
  let ?k = "pairing_key (pl_session_id claim)"
  have t': "doc_at (cx_session env) ?k t' = Some (guessed env dr s)" using run_wrong_code [OF assms(1-8)] assms(12) by simp
  have p: "plus_secs (cx_chrono env) (dw_now dr 2) PAIRING_CLAIM_LOCKOUT_SECS = Some (dw_now dr 2 + secs PAIRING_CLAIM_LOCKOUT_SECS)"
    using chrono_plus assms(2-4) by blast
  have g: "ps_failed_claim_attempts (guessed env dr s) = sat_add_u32 (ps_failed_claim_attempts s) 1"
    by (simp add: guessed_def Let_def)
  have "lockout_active env (dw_now dr' 0) (ps_claim_locked_until (guessed env dr s))"
    using assms(9,11) chrono_parse [OF assms(2,4)]
    by (simp add: guessed_def Let_def p lockout_active_def MAX_PAIRING_FAILED_CLAIMS_def sat_add_u32_def u32_max_def)
  then have q: "run (claim_pairing_session env dr' claim') t' = run (bindP (audit env dr' 3 ''pairing_claim_denied'' None None None None
      ''websocket'' ''deny'' ''Pairing claim is temporarily locked after repeated failed attempts.'' (session_entry (guessed env dr s)))
      (\<lambda>_. abort ''pairing session is temporarily locked'')) t'"
    unfolding claim_pairing_session_def using run_claim_session [of env claim', unfolded assms(10), OF t']
    by (simp add: assms(10) run_bindP [of "read_json _ _"] run_bindP [of "given _ _"])
  then have "\<forall>a. r' \<noteq> Inr a" using assms(13) run_audit_error by (metis fst_conv)
  moreover have "t'' ?k = t' ?k"
    using q assms(13) writes_frame [OF writes_bindP [OF writes_audit], of "\<lambda>_. abort ''pairing session is temporarily locked''"]
      audit_area_keys(4) by (metis snd_conv writes.simps(1))
  ultimately show ?thesis using t' g by (auto simp: doc_at_def)
qed

theorem twelfth_guess_locks_witness:
  "let t = [''companion:pairing:pairing-a'' \<mapsto> [DocSession (pairing_sample\<lparr>ps_failed_claim_attempts := 11\<rparr>)]];
       t' = snd (run (claim_pairing_session sample_cx sample_a (sample_claim\<lparr>pl_code := ''b''\<rparr>)) t) in
     \<forall>a. fst (run (claim_pairing_session sample_cx (sample_draws ''c'' 60) sample_claim) t') \<noteq> Inr a"
proof -
  let ?s = "pairing_sample\<lparr>ps_failed_claim_attempts := 11\<rparr>" and ?c = "sample_claim\<lparr>pl_code := ''b''\<rparr>"
  let ?t = "[''companion:pairing:pairing-a'' \<mapsto> [DocSession ?s]]"
  obtain r t' where r: "run (claim_pairing_session sample_cx sample_a ?c) ?t = (r, t')" by fastforce
  obtain r' t'' where r': "run (claim_pairing_session sample_cx (sample_draws ''c'' 60) sample_claim) t' = (r', t'')" by fastforce
  have "rfc_range (secs 1)" "rfc_range (secs 1 + secs PAIRING_CLAIM_LOCKOUT_SECS)" "secs 60 < secs 1 + secs PAIRING_CLAIM_LOCKOUT_SECS"
    by (simp_all add: rfc_range_num secs_def ns_per_sec_def PAIRING_CLAIM_LOCKOUT_SECS_def)
  then have "\<forall>a. r' \<noteq> Inr a"
    using twelfth_guess_locks [OF sample_cx_ok, of sample_a ?c ?t ?s sample_claim "sample_draws ''c'' 60" r t' r' t''] decimal_chrono_ok r r'
    by (simp add: doc_at_def sample_claim_def lockout_active_def)
  then show ?thesis using r r' by (simp add: Let_def)
qed

section \<open>One approval, two devices\<close>

text \<open>A claim that finds its session approved for it; \<open>raw\<close> is the secret it draws.\<close>

definition claim_admitted :: "'b companion_env \<Rightarrow> draws \<Rightarrow> pairing_claim \<Rightarrow> pairing_session \<Rightarrow> string \<Rightarrow> bool" where
  "claim_admitted env dr claim s raw \<longleftrightarrow> ps_status s = PairApproved \<and> trim (pl_code claim) = ps_code s
     \<and> nonblank (pl_device_public_key claim) \<noteq> None \<and> nonblank (pl_device_public_key claim) = ps_claimed_device_public_key s
     \<and> \<not> lockout_active env (dw_now dr 0) (ps_claim_locked_until s) \<and> \<not> pairing_expired env (dw_now dr 1) (ps_expires_at s)
     \<and> dw_secret dr 0 = Some raw"

abbreviation claim_rest :: "'b companion_env \<Rightarrow> draws \<Rightarrow> pairing_session \<Rightarrow> ('b, companion_reply) prog" where
  "claim_rest env dr s \<equiv> bindP (finalize_pairing_session env dr (s\<lparr>ps_claim_attempts := sat_add_u32 (ps_claim_attempts s) 1\<rparr>))
     (\<lambda>r. return (ReplyClaim r))"

lemma advance_claim_read:
  assumes "doc_at (cx_session env) (pairing_key (pl_session_id claim)) t = Some s" and "claim_admitted env dr claim s raw"
  shows "advance 1 (companion_program env (OpClaim dr claim)) t = (claim_rest env dr s, t)"
proof -
  obtain b where "t (pairing_key (pl_session_id claim)) = Some b" "from_slice (cx_session env) b = Some s"
    using assms(1) by (auto simp: doc_at_def split: bind_splits)
  then show ?thesis using assms(2)
    by (auto simp: claim_pairing_session_def read_json_def given_def claim_admitted_def Let_def claim_identified_def)
qed

lemma advance_finalize:
  assumes "cx_ok env" and "dw_secret dr 0 = Some raw"
  obtains g b where "snd (advance 2 (claim_rest env dr s) t) =
      t(grant_key (''grant-'' @ dw_uuid dr 1) \<mapsto> g, device_key (''device-'' @ dw_uuid dr 0) \<mapsto> b)"
    and "from_slice (cx_device env) b = Some (paired_device env dr (''acd_'' @ raw) s)"
proof -
  have c: "codec_ok (cx_grant env)" "codec_ok (cx_device env)" using assms(1) by (simp_all add: cx_ok_def)
  obtain g b where "to_vec (cx_grant env) (paired_grant env dr s) = Some g"
      "to_vec (cx_device env) (paired_device env dr (''acd_'' @ raw) s) = Some b"
      "from_slice (cx_device env) b = Some (paired_device env dr (''acd_'' @ raw) s)"
    using c unfolding codec_ok_def by metis
  then show thesis
    using that [of g b] assms(2)
    by (simp add: finalize_pairing_session_def generate_secret_def Let_def write_grant_def write_device_def write_json_def bindP_assoc
        numeral_2_eq_2)
qed

text \<open>
  The approval of a pairing session is for one device, but two claims under way at once both use it: with two ids
  drawn, two devices are stored, each with a token of its own and the capabilities of the session.
\<close>

theorem one_approval_two_devices:
  assumes "cx_ok env" and "doc_at (cx_session env) (pairing_key (pl_session_id claim)) (bytes_at t) = Some s"
    and "claim_admitted env dr claim s raw" and "claim_admitted env dr' claim s raw'"
    and "device_key (''device-'' @ dw_uuid dr 0) \<noteq> device_key (''device-'' @ dw_uuid dr' 0)"
  shows "\<exists>w d d'. woven (fresh_op None) (companion_program env) (at_rest t) w
    \<and> doc_at (cx_device env) (device_key (''device-'' @ dw_uuid dr 0)) (bytes_at (wv_table w)) = Some d
    \<and> doc_at (cx_device env) (device_key (''device-'' @ dw_uuid dr' 0)) (bytes_at (wv_table w)) = Some d'
    \<and> dv_id d \<noteq> dv_id d' \<and> dv_token_fingerprint d = cx_token_hash env (''acd_'' @ raw)
    \<and> dv_token_fingerprint d' = cx_token_hash env (''acd_'' @ raw')
    \<and> dv_token_capabilities d = normalize_capabilities (ps_requested_capabilities s) \<and> dv_token_capabilities d' = dv_token_capabilities d"
proof -
  let ?woven = "woven (fresh_op None) (companion_program env) (at_rest t)"
  have secret: "dw_secret dr 0 = Some raw" "dw_secret dr' 0 = Some raw'" using assms(3,4) unfolding claim_admitted_def by blast+
  let ?op = "OpClaim dr claim" and ?op' = "OpClaim dr' claim"
  obtain w0 where w0: "?woven w0" "wv_table w0 = t" "wv_handlers w0 = [companion_program env ?op]"
    using weave_begin [OF woven.Start, of "fresh_op None" ?op "companion_program env" "at_rest t"] by (auto simp: at_rest_def)
  obtain w1 where w1: "?woven w1" "wv_table w1 = t" "wv_handlers w1 = [companion_program env ?op, companion_program env ?op']"
    using weave_begin [OF w0(1), of ?op'] w0(2,3) by auto
  have r: "advance 1 (companion_program env ?op) (bytes_at t) = (claim_rest env dr s, bytes_at t)"
      "advance 1 (companion_program env ?op') (bytes_at t) = (claim_rest env dr' s, bytes_at t)"
    by (rule advance_claim_read [OF assms(2,3)], rule advance_claim_read [OF assms(2,4)])
  obtain w2 where w2: "?woven w2" "bytes_at (wv_table w2) = bytes_at t" "wv_handlers w2 = [claim_rest env dr s, companion_program env ?op']"
    using weave_advance [OF w1(1), of 0 "companion_program env ?op" 1] w1(2,3) r(1) by auto
  obtain w3 where w3: "?woven w3" "bytes_at (wv_table w3) = bytes_at t" "wv_handlers w3 = [claim_rest env dr s, claim_rest env dr' s]"
    using weave_advance [OF w2(1), of 1 "companion_program env ?op'" 1] w2(2,3) r(2) by auto
  obtain g b where a: "snd (advance 2 (claim_rest env dr s) (bytes_at t)) =
      (bytes_at t)(grant_key (''grant-'' @ dw_uuid dr 1) \<mapsto> g, device_key (''device-'' @ dw_uuid dr 0) \<mapsto> b)"
      "from_slice (cx_device env) b = Some (paired_device env dr (''acd_'' @ raw) s)"
    by (rule advance_finalize [OF assms(1) secret(1)])
  obtain w4 p where w4: "?woven w4" "bytes_at (wv_table w4) = (bytes_at t)(grant_key (''grant-'' @ dw_uuid dr 1) \<mapsto> g,
      device_key (''device-'' @ dw_uuid dr 0) \<mapsto> b)" "wv_handlers w4 = [p, claim_rest env dr' s]"
    using weave_advance [OF w3(1), of 0 "claim_rest env dr s" 2] w3(2,3) a(1) by auto
  obtain g' b' where a': "snd (advance 2 (claim_rest env dr' s) (bytes_at (wv_table w4))) =
      (bytes_at (wv_table w4))(grant_key (''grant-'' @ dw_uuid dr' 1) \<mapsto> g', device_key (''device-'' @ dw_uuid dr' 0) \<mapsto> b')"
      "from_slice (cx_device env) b' = Some (paired_device env dr' (''acd_'' @ raw') s)"
    by (rule advance_finalize [OF assms(1) secret(2)])
  obtain w5 where w5: "?woven w5" "bytes_at (wv_table w5) = (bytes_at (wv_table w4))(grant_key (''grant-'' @ dw_uuid dr' 1) \<mapsto> g',
      device_key (''device-'' @ dw_uuid dr' 0) \<mapsto> b')"
    using weave_advance [OF w4(1), of 1 "claim_rest env dr' s" 2] w4(3) a'(1) by auto
  show ?thesis using w5 w4(2) a(2) a'(2) assms(5)
    by (intro exI [of _ w5] exI [of _ "paired_device env dr (''acd_'' @ raw) s"] exI [of _ "paired_device env dr' (''acd_'' @ raw') s"])
      (auto simp: doc_at_def paired_device_def Let_def)
qed

theorem one_approval_two_devices_witness:
  "\<exists>w d d'. woven (fresh_op None) (companion_program sample_cx)
      (at_rest (sample_table [(''companion:pairing:pairing-a'', DocSession approved_session)])) w
    \<and> doc_at (cx_device sample_cx) (device_key ''device-a'') (bytes_at (wv_table w)) = Some d
    \<and> doc_at (cx_device sample_cx) (device_key ''device-b'') (bytes_at (wv_table w)) = Some d' \<and> dv_id d \<noteq> dv_id d'"
proof -
  let ?t = "sample_table [(''companion:pairing:pairing-a'', DocSession approved_session)]"
  have s: "doc_at (cx_session sample_cx) (pairing_key (pl_session_id sample_claim)) (bytes_at ?t) = Some approved_session"
    by (simp add: doc_at_def sample_claim_def)
  have a: "claim_admitted sample_cx (sample_draws u 1) sample_claim approved_session u" for u
    by (simp add: claim_admitted_def sample_claim_def nonblank_def lockout_active_def pairing_expired_def)
  have k: "device_key (''device-'' @ dw_uuid sample_a 0) = device_key ''device-a''"
      "device_key (''device-'' @ dw_uuid (sample_draws ''b'' 1) 0) = device_key ''device-b''" "device_key ''device-a'' \<noteq> device_key ''device-b''"
    by simp_all
  show ?thesis
    using one_approval_two_devices [OF sample_cx_ok s a [of "''a''"] a [of "''b''"]] k by (simp only: k) blast
qed

end
