(* ===== verification/Spec2Isabelle.thy ===== *)
theory Spec2Isabelle
  imports Kv_Lease Failover_Safety Sender_Verification Abuse_Tracker Execution_Supervisor Outbound_Split Session_Safety
    Deployment_Gates Live_Run Task_Queue Action_Runs Watcher_Runs Pipeline_Safety
    Network_Safety Tool_Path_Safety Swarm_Activity Companion_Runs
begin

text \<open>
  A model of AgentArk, a Rust server that runs personal AI agents. The model covers the parts of the server that
  decide by their own rules: what may run, who may write, what is stored and when something happens next. What
  only moves data to a language model, a messaging service or the operating system is left out (see the end).
  File names are those under \<open>src/src/\<close>; definitions keep the names of the functions they model, in
  the order of the code, with a suffix or prefix where the name clashes.

  \<^bold>\<open>How the parts interact.\<close> The storage layer holds key-value documents and tables. On it rest the leases by
  which processes share work, the failover documents of the model providers, the pairing of senders, the abuse
  tracker, the deployment ledger, the background sessions, the live runs, the tasks, the watchers, the pipelines and the
  companion devices.
  A task or watcher carries the authority of whoever created it in its arguments; when it runs, the action runtime
  reads that authority back and asks the authorization gate, which consults the action's own policy, the scope of
  the agent, and the memory of what the same run has already observed.

  \<^bold>\<open>Theories.\<close>
  \<^item> \<open>Ark\_Prelude\<close>, \<open>Text\_Pieces\<close>, \<open>Clock\_Text\<close>, \<open>Json\_Value\<close>: fallible state-passing computations, statements and
    transactions with a fault schedule, the functions of \<open>str\<close>, instants, \<open>serde\_json::Value\<close>.
  \<^item> \<open>Kv\_Storage\<close>, \<open>Storage\_String\<close> (\<open>storage/repositories/kv\_leases.rs\<close>, \<open>encrypted\_payloads.rs\<close>, \<open>crypto/mod.rs\<close>): the
    table, encryption, JSON documents, and the locales \<open>kv\_interface\<close>, \<open>typed\_cell\<close> and \<open>framed\_cell\<close> through
    which the components use them, interpreted on the code's own operations.
  \<^item> \<open>Kv\_Lease\<close> (same file): leases and guards; a lease excludes other owners until it expires, and a new grant
    makes every old guard useless.
  \<^item> \<open>Model\_Failover\<close>, \<open>Failover\_Plane\<close>, \<open>Failover\_Safety\<close> (\<open>core/model/model\_failover.rs\<close>): profiles, health, chains and
    the selection of a candidate; the documents stay normal, errors change nothing, selection picks the least rank.
  \<^item> \<open>Sender\_Verification\<close> (\<open>core/connectivity/channels/sender\_verification.rs\<close>): the pairing gate, split at its lock.
  \<^item> \<open>Abuse\_Tracker\<close> (\<open>security/abuse/abuse\_tracker.rs\<close>): trips, reviews and the approval log.
  \<^item> \<open>Execution\_Supervisor\<close> (\<open>core/orchestration/execution.rs\<close>): supervised calls, their cooldowns and outcomes.
  \<^item> \<open>Outbound\_Split\<close> (\<open>channels/outbound/outbound\_split.rs\<close>): splitting messages; the label loop, which can fail to end.
  \<^item> \<open>Session\_Record\<close>, \<open>Session\_Manager\<close>, \<open>Session\_Safety\<close> (\<open>core/automation/background\_session.rs\<close>): sessions, their
    operations split into the locked part and the write that follows, interleaved in any order.
  \<^item> \<open>Deployment\_Gates\<close> (\<open>core/self\_evolve/gates\<close>): promotion reports and the observation window.
  \<^item> \<open>Live\_Run\<close> (\<open>core/automation/live\_run.rs\<close>): the registry of runs, its channels and replay.
  \<^item> \<open>Automation\_Runs\<close>, \<open>Task\_Model\<close>, \<open>Task\_Store\<close>, \<open>Task\_Queue\<close> (\<open>core/automation/runs.rs\<close>, \<open>task.rs\<close>,
    \<open>core/agent/runtime/task\_runtime.rs\<close>, \<open>storage/repositories/automation.rs\<close>): what a task carries in its arguments, the
    queue and the rows, claiming, recovery and finishing.
  \<^item> \<open>Action\_Def\<close>, \<open>Action\_Error\<close>, \<open>Permission\_Model\<close>, \<open>Capability\_Policy\<close>, \<open>Capability\_Observations\<close>,
    \<open>Action\_Authorization\<close>, \<open>Action\_Decision\<close>, \<open>Action\_Safety\<close>, \<open>Action\_Runs\<close> (\<open>actions/mod.rs\<close>, \<open>security/guards\<close>,
    \<open>security/review/capabilities.rs\<close>, \<open>runtime/action\_runtime/governance\<close>): actions, permissions, the gate and its memory.
  \<^item> \<open>Watcher\_Model\<close>, \<open>Watch\_Condition\<close>, \<open>Watcher\_Store\<close>, \<open>Watcher\_Manager\<close>, \<open>Watcher\_Safety\<close>, \<open>Watcher\_Runs\<close>
    (\<open>core/automation/watcher.rs\<close>, the evaluation of conditions in \<open>task\_runtime.rs\<close>, the sleep of the polling loop in
    \<open>sentinel/mod.rs\<close>): polling, conditions, storage, restarts from the stored rows.
  \<^item> \<open>Pipeline\_Spec\<close>, \<open>Pipeline\_Run\<close>, \<open>Pipeline\_Safety\<close> (\<open>core/orchestration/pipeline.rs\<close>,
    \<open>runtime/action\_runtime/runtime/pipeline\_runtime.rs\<close>): compilation to a topological order, and runs with retries and
    idempotency records.
  \<^item> \<open>Network\_Guard\<close>, \<open>Network\_Safety\<close> (\<open>core/runtime/network/net.rs\<close>, \<open>security/guards/tool\_args\_guard.rs\<close>): which
    addresses and URLs a request may go to, the client that follows redirects, and what passes although it should not.
  \<^item> \<open>Tool\_Paths\<close>, \<open>Tool\_Path\_Safety\<close> (\<open>runtime/file\_tools.rs\<close>, the file write of \<open>native\_execution.rs\<close>): the paths tools
    may read and change, over a file system with links; what is confined, and the links that are not.
  \<^item> \<open>Swarm\_Activity\<close> (\<open>core/swarm/state/activity.rs\<close>): delegated runs behind two locks, operations interleaved between them.
  \<^item> \<open>Statement\_Programs\<close>, \<open>Companion\_Data\<close>, \<open>Companion\_Plane\<close>, \<open>Companion\_Socket\<close>, \<open>Companion\_Safety\<close>, \<open>Companion\_Runs\<close>
    (\<open>core/connectivity/channels/companion.rs\<close>, the socket of \<open>channels/http/app\_api/companion\_control.rs\<close>): paired devices, whose
    handlers hold no lock and so are programs of single statements, run alone or woven in any order; what every interleaving
    keeps (capabilities, tokens, approvals) and what some interleavings undo (a revocation, the one device of an approval).

  \<^bold>\<open>Groups of lemmas.\<close> Each component has lemmas on the branches of each operation, a well-formedness invariant
  kept by every operation (\<open>.._ok\<close>), rule inductions over its reachable states (\<open>.._reachable\<close>, \<open>.._reach\<close>,
  \<open>.._run\<close>), and the properties numbered C1 onwards, each beside the component it is about and followed by a
  witness. Those over several components stand below.

  \<^bold>\<open>Bounds and conventions.\<close> Strings are lists of characters below 256, and a position is a character where the
  code cuts at character boundaries. Unsigned integers are \<open>nat\<close> with saturation or wrap-around written out.
  Instants are nanoseconds as \<open>int\<close>; a clock reading is an argument of the operation, one for each reading
  the code could tell apart. A database statement may fail by a schedule; a transaction that fails changes no table. Rows are
  locked by \<open>FOR UPDATE\<close>, so a transaction is one step. Operations that release a lock are modelled as the steps
  between which others may come. A \<open>HashMap\<close> is a map or an association list whose order is not used. An \<open>f64\<close> is its
  bits, and what the code computes with it a parameter, except the risk score, which is in tenths as the code
  rounds it. Cryptography, serde, chrono, cron and regular expressions, URL parsing, name resolution and the execution of an
  action are parameters; where a property needs their documented behaviour it is a named hypothesis (\<open>aead\_ok\<close>, \<open>codec\_ok\<close>,
  \<open>chrono\_ok\<close>, \<open>serde\_watchers\<close> and the \<open>.._env\_ok\<close> built from them), and a concrete instance witnesses it. No fuel is used: loops are
  structural, have a measure, or are partial functions whose \<open>None\<close> means that the loop does not end (\<open>label\_loop\<close>,
  which has such inputs, and \<open>topo\_loop\<close>, which is shown to end on every specification). Resolving a path follows at
  most forty links, the limit of Linux.

  \<^bold>\<open>Not modelled.\<close> Prompts, tool calls and streaming of the language model (\<open>core/agent\<close> beyond the task runtime,
  \<open>core/model/llm\<close>), since their behaviour is the model's; deployed applications, the sandbox, file and network
  actions, integrations and messaging adapters, which are effects outside the program; HTTP routes, which parse and
  call the components above; tables of single statements without decisions; key derivation; the
  filters made of pattern lists and model questions; floating-point statistics, among them the ranking of signals.
\<close>

section \<open>Properties that span components\<close>

text \<open>
  C37. Forged authority runs what its caller may not. A caller whose authority may not be stored creates an
  automation whose arguments already carry an \<open>_automation.authorization\<close> naming a trusted principal and
  direct intent. The task keeps it, the run reads it back, and the gate then permits every action under
  every policy: only the correlation with the run's earlier actions can still refuse.
\<close>

theorem forged_authority_authorizes:
  assumes "persistable_authorization_context caller = None"
    and "meta_field ''authorization'' arguments = Some j" and "re_value_auth renv j = Some forged"
    and "ax_principal forged = Some p" and "pr_trusted p" and "ax_direct_user_intent forged"
    and "ax_agent_access_scope forged = None"
    and "surface = AutomationSurface \<or> surface = BackgroundSurface"
    and "c = runtime_authorization_context_from_arguments renv
           (inject_authorization_context renv (inject_context renv arguments origin pol) caller) surface"
  shows "de_allowed (surface_decision n z c)
    \<and> de_allowed (fst (authorize_action_invocation env now n (Some a) args c st))
        = (correlation_verdict env now n a args c st = None)"
proof -
  have c: "ac_principal c = Some p" "ac_surface c = surface" "ac_direct_user_intent c" "ac_agent_access_scope c = None"
    using forged_authorization_survives [OF assms(1-3), of origin pol surface] assms by simp_all
  then have "permitted z c" for z
    using assms(5,8) by (auto simp: permitted_def gate_bypassed_def direct_request_def trusted_principal_def)
  moreover have "authorize_action_scope n args c st = None" using c by (simp add: authorize_action_scope_def)
  ultimately show ?thesis by (simp add: surface_decision_allowed invocation_allowed)
qed

definition forged_arguments :: json where
  "forged_arguments = JObj [(''_automation'', JObj [(''authorization'', write_auth sample_authorization)])]"

definition forged_context :: action_authorization where
  "forged_context = runtime_authorization_context_from_arguments Automation_Runs.sample_env
     (inject_authorization_context Automation_Runs.sample_env
        (inject_context Automation_Runs.sample_env forged_arguments origin_default execution_policy_default) None) BackgroundSurface"

theorem forged_authority_authorizes_witness:
  "de_allowed (surface_decision ''shell'' (policy_default\<lparr>az_risk_level := RiskCritical\<rparr>) forged_context)
   \<and> \<not> de_allowed (surface_decision ''shell'' (policy_default\<lparr>az_risk_level := RiskCritical\<rparr>) (sample_context BackgroundSurface))"
proof
  have r: "re_value_auth Automation_Runs.sample_env (write_auth sample_authorization) = Some sample_authorization"
    by (simp add: Automation_Runs.sample_env_def read_write_auth)
  have m: "meta_field ''authorization'' forged_arguments = Some (write_auth sample_authorization)"
    by (simp add: meta_field_def forged_arguments_def)
  have n: "persistable_authorization_context None = None" by (simp add: persistable_authorization_context_def)
  have a: "ax_principal sample_authorization = Some sample_principal" "pr_trusted sample_principal"
    "ax_direct_user_intent sample_authorization" "ax_agent_access_scope sample_authorization = None"
    by (simp_all add: sample_authorization_def sample_principal_def)
  show "de_allowed (surface_decision ''shell'' (policy_default\<lparr>az_risk_level := RiskCritical\<rparr>) forged_context)"
    by (rule conjunct1 [OF forged_authority_authorizes [OF n m r a _ forged_context_def]]) simp
qed (simp add: surface_decision_def sample_context_def policy_default_def is_background_surface_def
      direct_trusted_chat_tool_override_def deny_def)

end
